(* ===== verification/Repositories.thy ===== *)
theory Repositories
  imports Prelude
begin

text \<open>
  Repository identity: the persisted metadata of \<^verbatim>\<open>edda-domain/src/repository.rs\<close>, the naming
  rules of \<^verbatim>\<open>validation.rs\<close>, the quota arithmetic of \<^verbatim>\<open>repo_size.rs\<close> and the mapping from an
  identity \<^verbatim>\<open>{owner}/{repo}\<close> to a directory in \<^verbatim>\<open>edda-git/src/store.rs\<close>. The lemmas show that a
  validated identity names exactly one directory strictly below the store's root.
\<close>

section \<open>Repository metadata\<close>

datatype repository_owner = OwnerUser uuid | OwnerOrganization uuid

datatype visibility = Public | Private

fun visibility_as_db_str :: "visibility \<Rightarrow> string" where
  "visibility_as_db_str Public = ''public''"
| "visibility_as_db_str Private = ''private''"

definition visibility_from_db_str :: "string \<Rightarrow> visibility option" where
  [codec_simps]: "visibility_from_db_str s =
     (if s = ''public'' then Some Public
      else if s = ''private'' then Some Private else None)"

interpretation visibility_codec: db_codec visibility_as_db_str visibility_from_db_str
proof
  fix x show "visibility_from_db_str (visibility_as_db_str x) = Some x"
    by (cases x) (simp_all add: codec_simps)
next
  fix s x assume "visibility_from_db_str s = Some x"
  then show "visibility_as_db_str x = s" by (auto simp: codec_simps split: if_splits)
qed

fun owner_type_db_str :: "repository_owner \<Rightarrow> string" where
  "owner_type_db_str (OwnerUser _) = ''user''"
| "owner_type_db_str (OwnerOrganization _) = ''organization''"

fun owner_id :: "repository_owner \<Rightarrow> uuid" where
  "owner_id (OwnerUser i) = i"
| "owner_id (OwnerOrganization i) = i"

fun owner_as_user :: "repository_owner \<Rightarrow> uuid option" where
  "owner_as_user (OwnerUser i) = Some i"
| "owner_as_user (OwnerOrganization _) = None"

fun owner_as_organization :: "repository_owner \<Rightarrow> uuid option" where
  "owner_as_organization (OwnerOrganization i) = Some i"
| "owner_as_organization (OwnerUser _) = None"

record repository =
  repo_id :: uuid
  repo_owner :: repository_owner
  repo_name :: string
  repo_description :: "string option"
  repo_visibility :: visibility
  repo_forked_from :: "uuid option"

definition is_private :: "repository \<Rightarrow> bool" where
  "is_private r \<longleftrightarrow> repo_visibility r = Private"

text \<open>Exactly one of the two typed owner columns is set, and the pair determines the owner.\<close>

lemma owner_columns_exclusive:
  "(owner_as_user ow = None) \<noteq> (owner_as_organization ow = None)"
  by (cases ow) auto

lemma owner_columns_inj:
  "owner_as_user a = owner_as_user b \<Longrightarrow> owner_as_organization a = owner_as_organization b \<Longrightarrow> a = b"
  by (cases a; cases b) auto

section \<open>Names\<close>

definition is_username_byte :: "char \<Rightarrow> bool" where
  "is_username_byte b \<longleftrightarrow> is_ascii_alphanumeric b \<or> b = CHR ''-'' \<or> b = CHR ''_''"

definition is_valid_username :: "string \<Rightarrow> bool" where
  "is_valid_username name \<longleftrightarrow>
     (if name = [] \<or> length name > 39 then False
      else if \<not> is_ascii_alphanumeric (name ! 0) \<or> \<not> is_ascii_alphanumeric (name ! (length name - 1))
      then False
      else list_all is_username_byte name)"

definition is_repo_name_byte :: "char \<Rightarrow> bool" where
  "is_repo_name_byte c \<longleftrightarrow>
     is_ascii_alphanumeric c \<or> c = CHR ''-'' \<or> c = CHR ''_'' \<or> c = CHR ''.''"

definition is_valid_repository_name :: "string \<Rightarrow> bool" where
  "is_valid_repository_name name \<longleftrightarrow>
     name \<noteq> [] \<and> length name \<le> 100 \<and> name \<noteq> ''.'' \<and> name \<noteq> ''..''
     \<and> \<not> starts_with name ''.'' \<and> \<not> ends_with name ''.git''
     \<and> list_all is_repo_name_byte name"

definition split_owner_repo :: "string \<Rightarrow> (string \<times> string) option" where
  "split_owner_repo identity =
     (case split_once (CHR ''/'') identity of
        None \<Rightarrow> None
      | Some (owner, repo) \<Rightarrow> if CHR ''/'' \<in> set repo then None else Some (owner, repo))"

definition is_valid_repository_identity :: "string \<Rightarrow> bool" where
  "is_valid_repository_identity identity =
     (case split_owner_repo identity of
        Some (owner, repo) \<Rightarrow> is_valid_username owner \<and> is_valid_repository_name repo
      | None \<Rightarrow> False)"

lemma split_owner_repo_Some:
  "split_owner_repo s = Some (ow, r) \<longleftrightarrow>
     s = ow @ CHR ''/'' # r \<and> CHR ''/'' \<notin> set ow \<and> CHR ''/'' \<notin> set r"
proof
  assume "split_owner_repo s = Some (ow, r)"
  then show "s = ow @ CHR ''/'' # r \<and> CHR ''/'' \<notin> set ow \<and> CHR ''/'' \<notin> set r"
    by (auto simp: split_owner_repo_def split_once_Some split: option.splits if_splits)
next
  assume a: "s = ow @ CHR ''/'' # r \<and> CHR ''/'' \<notin> set ow \<and> CHR ''/'' \<notin> set r"
  then have "split_once (CHR ''/'') s = Some (ow, r)" by (simp add: split_once_Some)
  with a show "split_owner_repo s = Some (ow, r)" by (simp add: split_owner_repo_def)
qed

lemma slash_not_username_byte: "is_username_byte c \<Longrightarrow> c \<noteq> CHR ''/''"
  by (auto simp: is_username_byte_def byte_defs)

lemma slash_not_repo_byte: "is_repo_name_byte c \<Longrightarrow> c \<noteq> CHR ''/''"
  by (auto simp: is_repo_name_byte_def byte_defs)

lemma valid_username_bytes: "is_valid_username n \<Longrightarrow> list_all is_username_byte n"
  by (auto simp: is_valid_username_def split: if_splits)

lemma valid_username_nonempty: "is_valid_username n \<Longrightarrow> n \<noteq> []"
  by (auto simp: is_valid_username_def)

lemma valid_username_hd: "is_valid_username n \<Longrightarrow> is_ascii_alphanumeric (hd n)"
  by (auto simp: is_valid_username_def hd_conv_nth split: if_splits)

lemma valid_repo_name_hd: "is_valid_repository_name n \<Longrightarrow> hd n \<noteq> CHR ''.''"
  by (cases n) (auto simp: is_valid_repository_name_def starts_with_def)

section \<open>Directories\<close>

text \<open>\<^verbatim>\<open>PathBuf::join\<close> on Unix: an absolute argument replaces the path, otherwise a separator is
  put between the two unless the path is empty or already ends with one.\<close>

definition path_join :: "string \<Rightarrow> string \<Rightarrow> string" where
  "path_join p c =
     (if starts_with c ''/'' then c
      else if p = [] \<or> last p = CHR ''/'' then p @ c
      else p @ ''/'' @ c)"

definition repo_dir :: "string \<Rightarrow> string \<Rightarrow> string" where
  "repo_dir root name =
     (case split_once (CHR ''/'') name of
        Some (owner, repo) \<Rightarrow> path_join (path_join root owner) (repo @ ''.git'')
      | None \<Rightarrow> path_join root (name @ ''.git''))"

text \<open>A component that cannot leave the directory it is joined to: not empty, not the current
  or the parent directory, without separator or NUL.\<close>

definition safe_component :: "string \<Rightarrow> bool" where
  "safe_component c \<longleftrightarrow>
     c \<noteq> [] \<and> c \<noteq> ''.'' \<and> c \<noteq> ''..'' \<and> CHR ''/'' \<notin> set c \<and> CHR 0x00 \<notin> set c"

lemma path_join_relative:
  "\<not> starts_with c ''/'' \<Longrightarrow> p \<noteq> [] \<Longrightarrow> last p \<noteq> CHR ''/'' \<Longrightarrow> path_join p c = p @ ''/'' @ c"
  by (simp add: path_join_def)

lemma safe_not_absolute: "safe_component c \<Longrightarrow> \<not> starts_with c ''/''"
  by (auto simp: safe_component_def starts_with_iff)

lemma valid_username_safe:
  assumes "is_valid_username n"
  shows "safe_component n"
proof -
  have "\<forall>c \<in> set n. is_username_byte c"
    using valid_username_bytes [OF assms] by (simp add: list_all_iff)
  moreover have "\<not> is_username_byte (CHR ''.'')" "\<not> is_username_byte (CHR ''/'')"
    "\<not> is_username_byte (CHR 0x00)"
    by (simp_all add: is_username_byte_def byte_defs)
  ultimately show ?thesis
    using valid_username_nonempty [OF assms] by (auto simp: safe_component_def)
qed

lemma valid_repo_name_safe:
  assumes "is_valid_repository_name n"
  shows "safe_component (n @ ''.git'')"
proof -
  have "\<forall>c \<in> set n. is_repo_name_byte c"
    using assms by (simp add: is_valid_repository_name_def list_all_iff)
  moreover have "\<not> is_repo_name_byte (CHR ''/'')" "\<not> is_repo_name_byte (CHR 0x00)"
    by (simp_all add: is_repo_name_byte_def byte_defs)
  ultimately show ?thesis
    by (cases n) (auto simp: safe_component_def)
qed

lemma repo_dir_valid:
  assumes valid: "is_valid_repository_identity s" and root: "root \<noteq> []" "last root \<noteq> CHR ''/''"
  obtains ow r where "s = ow @ ''/'' @ r" "is_valid_username ow" "is_valid_repository_name r"
    "repo_dir root s = root @ ''/'' @ ow @ ''/'' @ r @ ''.git''"
proof -
  from valid obtain ow r where s: "s = ow @ CHR ''/'' # r" and ns: "CHR ''/'' \<notin> set ow"
    and v: "is_valid_username ow" "is_valid_repository_name r"
    by (auto simp: is_valid_repository_identity_def split_owner_repo_Some split: option.splits)
  have "split_once (CHR ''/'') s = Some (ow, r)"
    using s ns by (simp add: split_once_Some)
  moreover have "path_join root ow = root @ ''/'' @ ow"
    using valid_username_safe [OF v(1)] safe_not_absolute root by (simp add: path_join_relative)
  moreover have "last (root @ ''/'' @ ow) \<noteq> CHR ''/''"
    using valid_username_safe [OF v(1)]
    by (auto simp: safe_component_def dest: last_in_set)
  moreover have "\<not> starts_with (r @ ''.git'') ''/''"
    using valid_repo_name_safe [OF v(2)] by (rule safe_not_absolute)
  ultimately have "repo_dir root s = root @ ''/'' @ ow @ ''/'' @ r @ ''.git''"
    by (simp add: repo_dir_def path_join_relative)
  with that s v show ?thesis by simp
qed

lemma slash_split_unique:
  fixes d :: char
  assumes eq: "a @ d # b = a' @ d # b'" and "d \<notin> set a" "d \<notin> set a'"
  shows "a = a' \<and> b = b'"
proof -
  have "split_once d (a @ d # b) = Some (a, b)"
    using assms(2) by (simp only: split_once_Some) blast
  then have "split_once d (a' @ d # b') = Some (a, b)" by (simp only: eq)
  moreover have "split_once d (a' @ d # b') = Some (a', b')"
    using assms(3) by (simp only: split_once_Some) blast
  ultimately show ?thesis by (simp only: option.inject prod.inject)
qed

text \<open>A validated identity is stored at \<^verbatim>\<open>{root}/{owner}/{repo}.git\<close> where both components are
  safe (they cannot be \<^verbatim>\<open>.\<close>, \<^verbatim>\<open>..\<close>, empty or contain a separator), so the directory is two levels
  below the root, and two different validated identities never share a directory.\<close>

theorem repo_dir_confined_injective:
  assumes "is_valid_repository_identity s" "is_valid_repository_identity t"
    and "root \<noteq> []" "last root \<noteq> CHR ''/''"
  shows "(\<exists>ow r. safe_component ow \<and> safe_component r \<and> repo_dir root s = root @ ''/'' @ ow @ ''/'' @ r)
    \<and> (repo_dir root s = repo_dir root t \<longrightarrow> s = t)"
proof -
  obtain ow r where s: "s = ow @ ''/'' @ r" "is_valid_username ow" "is_valid_repository_name r"
      "repo_dir root s = root @ ''/'' @ ow @ ''/'' @ r @ ''.git''"
    using repo_dir_valid assms by metis
  obtain ow' r' where t: "t = ow' @ ''/'' @ r'" "is_valid_username ow'" "is_valid_repository_name r'"
      "repo_dir root t = root @ ''/'' @ ow' @ ''/'' @ r' @ ''.git''"
    using repo_dir_valid assms by metis
  have ns: "CHR ''/'' \<notin> set ow" "CHR ''/'' \<notin> set ow'"
    using valid_username_safe s(2) t(2) by (auto simp: safe_component_def)
  have "s = t" if "repo_dir root s = repo_dir root t"
  proof -
    from that s(4) t(4) have "ow @ CHR ''/'' # (r @ ''.git'') = ow' @ CHR ''/'' # (r' @ ''.git'')"
      by simp
    then have "ow = ow' \<and> r @ ''.git'' = r' @ ''.git''"
      using slash_split_unique ns by metis
    with s(1) t(1) show "s = t" by simp
  qed
  moreover have "safe_component ow" "safe_component (r @ ''.git'')"
    using s(2,3) valid_username_safe valid_repo_name_safe by auto
  ultimately show ?thesis using s(4) by blast
qed

theorem repo_dir_confined_injective_witness:
  "(\<exists>ow r. safe_component ow \<and> safe_component r
      \<and> repo_dir ''/data/repos'' ''alice/demo'' = ''/data/repos'' @ ''/'' @ ow @ ''/'' @ r)
    \<and> repo_dir ''/data/repos'' ''alice/demo'' \<noteq> repo_dir ''/data/repos'' ''bob/demo''"
proof -
  have "is_valid_repository_identity ''alice/demo''" "is_valid_repository_identity ''bob/demo''" by code_simp+
  note repo_dir_confined_injective [OF this, of "''/data/repos''"]
  then show ?thesis by auto
qed

section \<open>LFS object paths\<close>

text \<open>\<^verbatim>\<open>lfs_object_path\<close> slices the object id at bytes 2 and 4; \<open>None\<close> is the panic of a slice that
  falls inside a character (\<^verbatim>\<open>str\<close> slices must be on character boundaries).\<close>

definition is_char_boundary :: "string \<Rightarrow> nat \<Rightarrow> bool" where
  "is_char_boundary s i \<longleftrightarrow>
     i = length s \<or> i < length s \<and> \<not> (128 \<le> code (s ! i) \<and> code (s ! i) < 192)"

definition lfs_object_path :: "string \<Rightarrow> string \<Rightarrow> string \<Rightarrow> string option" where
  "lfs_object_path root name oid =
     (let base = path_join (path_join (repo_dir root name) ''lfs'') ''objects''
      in if length oid \<ge> 4
         then if is_char_boundary oid 2 \<and> is_char_boundary oid 4
              then Some (path_join (path_join (path_join base (take 2 oid)) (take 2 (drop 2 oid))) oid)
              else None
         else Some (path_join base oid))"

definition release_asset_path :: "string \<Rightarrow> string \<Rightarrow> string \<Rightarrow> string" where
  "release_asset_path root name storage_key =
     path_join (path_join (repo_dir root name) ''releases'') storage_key"

section \<open>Size quota\<close>

record repo_size =
  size_repository_id :: uuid
  git_bytes :: int
  lfs_bytes :: int
  size_computed_at :: int

definition total_bytes :: "repo_size \<Rightarrow> int" where
  "total_bytes s = sat_i64 (git_bytes s + lfs_bytes s)"

definition push_would_exceed_quota :: "int \<Rightarrow> int \<Rightarrow> int option \<Rightarrow> bool" where
  "push_would_exceed_quota current_bytes incoming_bytes limit_bytes =
     (case limit_bytes of
        Some limit \<Rightarrow> if limit > 0 then sat_i64 (current_bytes + incoming_bytes) > limit else False
      | None \<Rightarrow> False)"

text \<open>Saturation never hides an overrun: with the limit itself a 64-bit value other than the
  maximum, the saturated comparison decides the comparison of the true sum.\<close>

lemma push_would_exceed_quota_exact:
  assumes "in_i64 limit" "limit < i64_max" "0 < limit"
  shows "push_would_exceed_quota cur inc (Some limit) \<longleftrightarrow> cur + inc > limit"
  using assms by (auto simp: push_would_exceed_quota_def sat_i64_def in_i64_def i64_max_def i64_min_def)

end
