(* ===== verification/Pull_Requests.thy ===== *)
theory Pull_Requests
  imports Prelude
begin

text \<open>
  Pull requests and their reviews, from \<^verbatim>\<open>edda-domain/src/pull_request.rs\<close>: the stored enums, the
  state of a pull request, the head-reference parser and the reduction of a review history to one
  verdict per reviewer. The lemmas characterise that reduction independently of the order in which
  a hash map would enumerate its entries.
\<close>

section \<open>Stored enums\<close>

datatype merge_strategy = Merge | Squash | Rebase | FastForwardOnly

fun merge_strategy_as_db_str :: "merge_strategy \<Rightarrow> string" where
  "merge_strategy_as_db_str Merge = ''merge''"
| "merge_strategy_as_db_str Squash = ''squash''"
| "merge_strategy_as_db_str Rebase = ''rebase''"
| "merge_strategy_as_db_str FastForwardOnly = ''fast_forward''"

definition merge_strategy_from_db_str :: "string \<Rightarrow> merge_strategy option" where
  [codec_simps]: "merge_strategy_from_db_str s =
     (if s = ''merge'' then Some Merge
      else if s = ''squash'' then Some Squash
      else if s = ''rebase'' then Some Rebase
      else if s = ''fast_forward'' then Some FastForwardOnly else None)"

interpretation merge_strategy_codec: db_codec merge_strategy_as_db_str merge_strategy_from_db_str
proof
  fix x show "merge_strategy_from_db_str (merge_strategy_as_db_str x) = Some x"
    by (cases x) (simp_all add: codec_simps)
next
  fix s x assume "merge_strategy_from_db_str s = Some x"
  then show "merge_strategy_as_db_str x = s" by (auto simp: codec_simps split: if_splits)
qed

datatype close_reason = Completed | NotPlanned

fun close_reason_as_db_str :: "close_reason \<Rightarrow> string" where
  "close_reason_as_db_str Completed = ''completed''"
| "close_reason_as_db_str NotPlanned = ''not_planned''"

definition close_reason_from_db_str :: "string \<Rightarrow> close_reason option" where
  [codec_simps]: "close_reason_from_db_str s =
     (if s = ''completed'' then Some Completed
      else if s = ''not_planned'' then Some NotPlanned else None)"

interpretation close_reason_codec: db_codec close_reason_as_db_str close_reason_from_db_str
proof
  fix x show "close_reason_from_db_str (close_reason_as_db_str x) = Some x"
    by (cases x) (simp_all add: codec_simps)
next
  fix s x assume "close_reason_from_db_str s = Some x"
  then show "close_reason_as_db_str x = s" by (auto simp: codec_simps split: if_splits)
qed

datatype review_state = Approved | ChangesRequested | Commented

fun review_state_as_db_str :: "review_state \<Rightarrow> string" where
  "review_state_as_db_str Approved = ''approved''"
| "review_state_as_db_str ChangesRequested = ''changes_requested''"
| "review_state_as_db_str Commented = ''commented''"

definition review_state_from_db_str :: "string \<Rightarrow> review_state option" where
  [codec_simps]: "review_state_from_db_str s =
     (if s = ''approved'' then Some Approved
      else if s = ''changes_requested'' then Some ChangesRequested
      else if s = ''commented'' then Some Commented else None)"

interpretation review_state_codec: db_codec review_state_as_db_str review_state_from_db_str
proof
  fix x show "review_state_from_db_str (review_state_as_db_str x) = Some x"
    by (cases x) (simp_all add: codec_simps)
next
  fix s x assume "review_state_from_db_str s = Some x"
  then show "review_state_as_db_str x = s" by (auto simp: codec_simps split: if_splits)
qed

section \<open>Pull requests\<close>

record pr_ref =
  ref_repository_id :: uuid
  ref_branch :: string

datatype pr_state =
    PrOpen
  | PrDraft
  | PrMerged int string merge_strategy
  | PrClosed int close_reason

fun pr_is_open :: "pr_state \<Rightarrow> bool" where
  "pr_is_open PrOpen = True"
| "pr_is_open PrDraft = True"
| "pr_is_open (PrMerged _ _ _) = False"
| "pr_is_open (PrClosed _ _) = False"

record pull_request =
  pr_id :: uuid
  pr_repository_id :: uuid
  pr_number :: int
  pr_title :: string
  pr_body :: "string option"
  pr_author_id :: uuid
  pr_source :: pr_ref
  pr_target :: string
  pr_state :: pr_state
  pr_created_at :: int

definition is_finalized :: "pull_request \<Rightarrow> bool" where
  "is_finalized pr \<longleftrightarrow> \<not> pr_is_open (pr_state pr)"

record diff_anchor =
  anchor_file_path :: string
  anchor_line_range :: "32 word \<times> 32 word"
  anchor_commit_sha :: string

record pr_comment =
  comment_id :: uuid
  comment_pull_request_id :: uuid
  comment_author_id :: uuid
  comment_body :: string
  comment_anchor :: "diff_anchor option"
  comment_created_at :: int

definition parse_head_ref :: "string \<Rightarrow> string option \<times> string" where
  "parse_head_ref raw =
     (case split_once (CHR '':'') raw of
        Some (owner, branch) \<Rightarrow>
          if owner \<noteq> [] \<and> branch \<noteq> [] then (Some owner, branch) else (None, raw)
      | None \<Rightarrow> (None, raw))"

text \<open>A qualified head is read back exactly when neither part is empty and the owner holds no
  colon; printing what was parsed gives the text back in every case.\<close>

lemma parse_head_ref_print:
  "(case parse_head_ref raw of (Some ow, br) \<Rightarrow> ow @ '':'' @ br | (None, r) \<Rightarrow> r) = raw"
  by (cases "split_once (CHR '':'') raw")
     (auto simp: parse_head_ref_def split_once_Some)

lemma parse_head_ref_qualified:
  "ow \<noteq> [] \<Longrightarrow> br \<noteq> [] \<Longrightarrow> CHR '':'' \<notin> set ow \<Longrightarrow>
     parse_head_ref (ow @ CHR '':'' # br) = (Some ow, br)"
  using split_once_Some [of "CHR '':''" "ow @ CHR '':'' # br" ow br]
  by (simp add: parse_head_ref_def)

section \<open>Reviews\<close>

record pr_review =
  review_id :: uuid
  review_pull_request_id :: uuid
  reviewer_id :: uuid
  review_state :: review_state
  review_body :: "string option"
  review_created_at :: int
  review_dismissed_at :: "int option"

definition is_active_approval :: "pr_review \<Rightarrow> bool" where
  "is_active_approval r \<longleftrightarrow> review_state r = Approved \<and> review_dismissed_at r = None"

text \<open>
  The \<^verbatim>\<open>HashMap<UserId, &PrReview>\<close> of \<^verbatim>\<open>latest_reviews\<close> is an association list with one entry per
  reviewer; \<^verbatim>\<open>entry().and_modify().or_insert()\<close> is \<open>upsert_review\<close>. The enumeration order of the
  hash map is not specified, so only order-independent facts about the result are used below.
\<close>

fun upsert_review :: "pr_review \<Rightarrow> (uuid \<times> pr_review) list \<Rightarrow> (uuid \<times> pr_review) list" where
  "upsert_review r [] = [(reviewer_id r, r)]"
| "upsert_review r ((u, cur) # m) =
     (if u = reviewer_id r
      then (u, if review_created_at r \<ge> review_created_at cur then r else cur) # m
      else (u, cur) # upsert_review r m)"

definition latest_reviews :: "pr_review list \<Rightarrow> pr_review list" where
  "latest_reviews reviews = map snd (fold upsert_review reviews [])"

text \<open>The specification: a reviewer's current verdict is the newest of the reviewer's reviews, the
  later one in submission order where two carry the same time.\<close>

fun newest :: "pr_review option \<Rightarrow> pr_review list \<Rightarrow> pr_review option" where
  "newest best [] = best"
| "newest best (r # rs) =
     newest (case best of None \<Rightarrow> Some r
             | Some b \<Rightarrow> if review_created_at r \<ge> review_created_at b then Some r else Some b) rs"

definition current_verdict :: "pr_review list \<Rightarrow> uuid \<Rightarrow> pr_review option" where
  "current_verdict reviews u = newest None (filter (\<lambda>r. reviewer_id r = u) reviews)"

lemma fst_upsert_review:
  "fst ` set (upsert_review r m) = insert (reviewer_id r) (fst ` set m)"
  by (induction r m rule: upsert_review.induct) auto

lemma distinct_upsert_review:
  "distinct (map fst m) \<Longrightarrow> distinct (map fst (upsert_review r m))"
proof (induction r m rule: upsert_review.induct)
  case (2 r u cur m)
  then show ?case using fst_upsert_review [of r m] by auto
qed simp

lemma map_of_upsert_review:
  "map_of (upsert_review r m) u =
     (if u = reviewer_id r
      then (case map_of m u of None \<Rightarrow> Some r
            | Some c \<Rightarrow> if review_created_at r \<ge> review_created_at c then Some r else Some c)
      else map_of m u)"
  by (induction r m rule: upsert_review.induct) auto

lemma distinct_fold_upsert:
  "distinct (map fst m) \<Longrightarrow> distinct (map fst (fold upsert_review rs m))"
  by (induction rs arbitrary: m) (auto simp: distinct_upsert_review)

lemma map_of_fold_upsert:
  "map_of (fold upsert_review rs m) u = newest (map_of m u) (filter (\<lambda>r. reviewer_id r = u) rs)"
  by (induction rs arbitrary: m) (auto simp: map_of_upsert_review split: option.splits)

definition review_map :: "pr_review list \<Rightarrow> (uuid \<times> pr_review) list" where
  "review_map rs = fold upsert_review rs []"

lemma review_map_distinct: "distinct (map fst (review_map rs))"
  by (simp add: review_map_def distinct_fold_upsert)

lemma review_map_lookup: "map_of (review_map rs) u = current_verdict rs u"
  by (simp add: review_map_def map_of_fold_upsert current_verdict_def)

lemma newest_mem:
  "newest best rs = Some r \<Longrightarrow> best = Some r \<or> r \<in> set rs"
proof (induction rs arbitrary: best)
  case (Cons x rs)
  show ?case
  proof (cases best)
    case None
    with Cons.prems Cons.IH [of "Some x"] show ?thesis by auto
  next
    case (Some b)
    with Cons.prems Cons.IH [of "if review_created_at x \<ge> review_created_at b then Some x else Some b"]
    show ?thesis by (cases "review_created_at x \<ge> review_created_at b") auto
  qed
qed simp

lemma newest_ge:
  "newest best rs = Some r \<Longrightarrow>
     (\<forall>b. best = Some b \<longrightarrow> review_created_at b \<le> review_created_at r)
     \<and> (\<forall>x \<in> set rs. review_created_at x \<le> review_created_at r)"
proof (induction rs arbitrary: best)
  case (Cons x rs)
  show ?case
  proof (cases best)
    case None
    with Cons.prems Cons.IH [of "Some x"] show ?thesis by auto
  next
    case (Some b)
    with Cons.prems Cons.IH [of "if review_created_at x \<ge> review_created_at b then Some x else Some b"]
    show ?thesis by (cases "review_created_at x \<ge> review_created_at b") auto
  qed
qed simp

lemma newest_None: "newest best rs = None \<longleftrightarrow> best = None \<and> rs = []"
  by (induction rs arbitrary: best) (auto split: option.splits if_splits)

lemma current_verdict_reviewer: "current_verdict rs u = Some r \<Longrightarrow> reviewer_id r = u"
  using newest_mem [of None "filter (\<lambda>r. reviewer_id r = u) rs" r]
  by (auto simp: current_verdict_def)

lemma set_review_map: "(u, r) \<in> set (review_map rs) \<longleftrightarrow> current_verdict rs u = Some r"
  using map_of_eq_Some_iff [OF review_map_distinct] review_map_lookup by metis

lemma set_latest_reviews:
  "r \<in> set (latest_reviews rs) \<longleftrightarrow> current_verdict rs (reviewer_id r) = Some r"
proof
  assume "r \<in> set (latest_reviews rs)"
  then obtain u where "(u, r) \<in> set (review_map rs)"
    by (auto simp: latest_reviews_def review_map_def)
  then have cv: "current_verdict rs u = Some r" by (simp add: set_review_map)
  with current_verdict_reviewer show "current_verdict rs (reviewer_id r) = Some r" by fastforce
next
  assume "current_verdict rs (reviewer_id r) = Some r"
  then have "(reviewer_id r, r) \<in> set (review_map rs)" by (simp add: set_review_map)
  then show "r \<in> set (latest_reviews rs)"
    unfolding latest_reviews_def review_map_def by (metis image_eqI list.set_map snd_conv)
qed

lemma distinct_latest_reviewers: "distinct (map reviewer_id (latest_reviews rs))"
proof -
  have "map reviewer_id (latest_reviews rs) = map fst (review_map rs)"
  proof -
    have "reviewer_id (snd p) = fst p" if "p \<in> set (review_map rs)" for p
    proof -
      obtain u r where p: "p = (u, r)" by fastforce
      with that have "current_verdict rs u = Some r" by (simp only: set_review_map)
      then have "reviewer_id r = u" by (rule current_verdict_reviewer)
      with p show ?thesis by simp
    qed
    then show ?thesis by (simp add: latest_reviews_def review_map_def)
  qed
  then show ?thesis using review_map_distinct by simp
qed

text \<open>The number of entries of the reduced history that satisfy a predicate is the number of
  reviewers whose current verdict satisfies it: a count that no enumeration order can change.\<close>

lemma count_latest_reviews:
  "length (filter P (latest_reviews rs)) = card {u. \<exists>r. current_verdict rs u = Some r \<and> P r}"
proof -
  let ?L = "filter P (latest_reviews rs)"
  have d: "distinct (map reviewer_id ?L)"
    using distinct_latest_reviewers [of rs] by (rule distinct_map_filter)
  have "reviewer_id ` set ?L = {u. \<exists>r. current_verdict rs u = Some r \<and> P r}"
  proof (intro equalityI subsetI)
    fix u assume "u \<in> reviewer_id ` set ?L"
    then show "u \<in> {u. \<exists>r. current_verdict rs u = Some r \<and> P r}"
      by (auto simp: set_latest_reviews)
  next
    fix u assume "u \<in> {u. \<exists>r. current_verdict rs u = Some r \<and> P r}"
    then obtain r where "current_verdict rs u = Some r" "P r" by blast
    with current_verdict_reviewer have "reviewer_id r = u" "r \<in> set ?L"
      by (force simp: set_latest_reviews)+
    then show "u \<in> reviewer_id ` set ?L" by blast
  qed
  moreover have "length ?L = card (reviewer_id ` set ?L)"
    using d by (metis distinct_card length_map list.set_map)
  ultimately show ?thesis by simp
qed

end
