(* ===== verification/Branch_Protection.thy ===== *)
theory Branch_Protection
  imports Repositories
begin

text \<open>
  Branch protection rules (\<^verbatim>\<open>edda-domain/src/branch_protection.rs\<close>) and external commit statuses
  (\<^verbatim>\<open>commit_status.rs\<close>). The backtracking glob matcher is shown equivalent to a declarative reading
  of a pattern as a sequence of tokens, each with the set of strings it stands for.
\<close>

section \<open>Globs\<close>

fun glob_match :: "string \<Rightarrow> string \<Rightarrow> bool" where
  "glob_match [] str \<longleftrightarrow> str = []"
| "glob_match (p # rest) str \<longleftrightarrow>
     (if p = CHR ''*''
      then glob_match rest str \<or> (case str of [] \<Rightarrow> False | _ # ts \<Rightarrow> glob_match (p # rest) ts)
      else if p = CHR ''?''
      then (case str of [] \<Rightarrow> False | _ # ts \<Rightarrow> glob_match rest ts)
      else (case str of [] \<Rightarrow> False | t # ts \<Rightarrow> t = p \<and> glob_match rest ts))"

declare glob_match.simps(2) [simp del]

definition branch_pattern_matches :: "string \<Rightarrow> string \<Rightarrow> bool" where
  "branch_pattern_matches pattern branch = glob_match pattern branch"

text \<open>The declarative reading: \<^verbatim>\<open>*\<close> stands for any string, \<^verbatim>\<open>?\<close> for any one byte, any other byte
  for itself, and a pattern for the concatenations of what its tokens stand for.\<close>

definition token_lang :: "char \<Rightarrow> string set" where
  "token_lang p = (if p = CHR ''*'' then UNIV else if p = CHR ''?'' then {[c] |c. True} else {[p]})"

fun glob_lang :: "string \<Rightarrow> string set" where
  "glob_lang [] = {[]}"
| "glob_lang (p # ps) = {u @ v |u v. u \<in> token_lang p \<and> v \<in> glob_lang ps}"

lemma glob_match_star:
  "glob_match (CHR ''*'' # rest) str \<longleftrightarrow> (\<exists>u v. str = u @ v \<and> glob_match rest v)"
proof (induction str)
  case Nil
  then show ?case by (simp add: glob_match.simps(2))
next
  case (Cons t ts)
  have "glob_match (CHR ''*'' # rest) (t # ts) \<longleftrightarrow>
      glob_match rest (t # ts) \<or> glob_match (CHR ''*'' # rest) ts"
    by (simp add: glob_match.simps(2) [of _ _ "t # ts"])
  also have "\<dots> \<longleftrightarrow> (\<exists>u v. t # ts = u @ v \<and> glob_match rest v)"
    unfolding Cons.IH by (auto simp: Cons_eq_append_conv)
  finally show ?case .
qed

lemma glob_match_question:
  "glob_match (CHR ''?'' # rest) str \<longleftrightarrow> (\<exists>c v. str = c # v \<and> glob_match rest v)"
  by (cases str) (simp_all add: glob_match.simps(2))

lemma glob_match_literal:
  "p \<noteq> CHR ''*'' \<Longrightarrow> p \<noteq> CHR ''?'' \<Longrightarrow>
     glob_match (p # rest) str \<longleftrightarrow> (\<exists>v. str = p # v \<and> glob_match rest v)"
  by (cases str) (auto simp: glob_match.simps(2))

lemma glob_match_lang: "glob_match pat str \<longleftrightarrow> str \<in> glob_lang pat"
proof (induction pat arbitrary: str)
  case (Cons p ps)
  consider "p = CHR ''*''" | "p = CHR ''?''" | "p \<noteq> CHR ''*''" "p \<noteq> CHR ''?''" by blast
  then show ?case
  proof cases
    case 1
    then show ?thesis by (simp add: glob_match_star Cons.IH token_lang_def)
  next
    case 2
    have "(\<exists>c v. str = c # v \<and> v \<in> glob_lang ps) \<longleftrightarrow>
        (\<exists>u v. str = u @ v \<and> (\<exists>c. u = [c]) \<and> v \<in> glob_lang ps)"
      by (metis append_Cons append_Nil)
    with 2 show ?thesis by (simp add: glob_match_question Cons.IH token_lang_def)
  next
    case 3
    then show ?thesis by (auto simp: glob_match_literal Cons.IH token_lang_def)
  qed
qed simp

text \<open>C40. The matcher decides the declarative reading of the pattern over bytes: it accepts a branch
  exactly when the branch's bytes are a concatenation of one string per byte of the pattern, any string
  for \<^verbatim>\<open>*\<close> (path separators included), one byte for \<^verbatim>\<open>?\<close> and the byte itself otherwise. The code
  documents \<^verbatim>\<open>?\<close> as one character: that holds of the ASCII characters only.\<close>

theorem branch_pattern_matches_iff_lang:
  "branch_pattern_matches pattern branch \<longleftrightarrow> branch \<in> glob_lang pattern"
  by (simp add: branch_pattern_matches_def glob_match_lang)

text \<open>A character of two bytes, the letter e with an acute accent in UTF-8, is not matched by \<^verbatim>\<open>?\<close>, but by two.\<close>

theorem question_mark_takes_one_byte:
  "\<not> branch_pattern_matches ''v?'' (''v'' @ [CHR 0xC3, CHR 0xA9])
   \<and> branch_pattern_matches ''v??'' (''v'' @ [CHR 0xC3, CHR 0xA9])"
  by code_simp

lemma glob_lang_literal:
  "CHR ''*'' \<notin> set p \<Longrightarrow> CHR ''?'' \<notin> set p \<Longrightarrow> glob_lang p = {p}"
  by (induction p) (auto simp: token_lang_def)

lemma glob_lang_append: "glob_lang (p @ q) = {u @ v |u v. u \<in> glob_lang p \<and> v \<in> glob_lang q}"
proof (induction p)
  case (Cons a p)
  show ?case
  proof (intro equalityI subsetI)
    fix x assume "x \<in> glob_lang ((a # p) @ q)"
    then obtain u v w where "x = u @ (v @ w)" "u \<in> token_lang a" "v \<in> glob_lang p" "w \<in> glob_lang q"
      by (auto simp: Cons.IH)
    then have "x = (u @ v) @ w" "u @ v \<in> glob_lang (a # p)" "w \<in> glob_lang q" by auto
    then show "x \<in> {u @ v |u v. u \<in> glob_lang (a # p) \<and> v \<in> glob_lang q}" by blast
  next
    fix x assume "x \<in> {u @ v |u v. u \<in> glob_lang (a # p) \<and> v \<in> glob_lang q}"
    then obtain u v w where x: "x = (u @ v) @ w" "u \<in> token_lang a" "v \<in> glob_lang p" "w \<in> glob_lang q"
      by auto
    then have "v @ w \<in> glob_lang (p @ q)" by (auto simp: Cons.IH)
    with x show "x \<in> glob_lang ((a # p) @ q)" by auto
  qed
qed simp

text \<open>An exact name protects only itself; \<^verbatim>\<open>prefix*\<close> protects every branch with the prefix.\<close>

lemma exact_pattern:
  "CHR ''*'' \<notin> set p \<Longrightarrow> CHR ''?'' \<notin> set p \<Longrightarrow> branch_pattern_matches p b \<longleftrightarrow> b = p"
  by (simp add: branch_pattern_matches_def glob_match_lang glob_lang_literal)

lemma prefix_star_pattern:
  "CHR ''*'' \<notin> set p \<Longrightarrow> CHR ''?'' \<notin> set p \<Longrightarrow>
     branch_pattern_matches (p @ ''*'') b \<longleftrightarrow> starts_with b p"
  by (auto simp: branch_pattern_matches_def glob_match_lang glob_lang_append glob_lang_literal
      token_lang_def starts_with_iff)

text \<open>The patterns handed to the receive path carry the prefix \<^verbatim>\<open>refs/heads/\<close>; a full reference
  name matches the prefixed glob exactly when its branch part matches the rule's own glob.\<close>

lemma prefixed_glob_match:
  "CHR ''*'' \<notin> set p \<Longrightarrow> CHR ''?'' \<notin> set p \<Longrightarrow>
     glob_match (p @ pat) (p @ b) \<longleftrightarrow> glob_match pat b"
  by (induction p) (auto simp: glob_match_literal)

section \<open>Rules\<close>

datatype access_subject = SubjectUser uuid | SubjectTeam uuid

record branch_protection_rule =
  rule_id :: uuid
  rule_repository_id :: uuid
  rule_pattern :: string
  required_approvals :: int
  require_linear_history :: bool
  require_signed_commits :: bool
  dismiss_stale_reviews :: bool
  require_up_to_date :: bool
  required_status_checks :: "string list"
  push_allowlist :: "access_subject list"

definition allows_direct_push :: "branch_protection_rule \<Rightarrow> access_subject \<Rightarrow> bool" where
  "allows_direct_push rule subject \<longleftrightarrow> subject \<in> set (push_allowlist rule)"

section \<open>Commit statuses\<close>

datatype commit_status_state = StPending | StSuccess | StFailure | StError

fun commit_status_as_db_str :: "commit_status_state \<Rightarrow> string" where
  "commit_status_as_db_str StPending = ''pending''"
| "commit_status_as_db_str StSuccess = ''success''"
| "commit_status_as_db_str StFailure = ''failure''"
| "commit_status_as_db_str StError = ''error''"

definition commit_status_from_db_str :: "string \<Rightarrow> commit_status_state option" where
  [codec_simps]: "commit_status_from_db_str s =
     (if s = ''pending'' then Some StPending
      else if s = ''success'' then Some StSuccess
      else if s = ''failure'' then Some StFailure
      else if s = ''error'' then Some StError else None)"

interpretation commit_status_codec: db_codec commit_status_as_db_str commit_status_from_db_str
proof
  fix x show "commit_status_from_db_str (commit_status_as_db_str x) = Some x"
    by (cases x) (simp_all add: codec_simps)
next
  fix s x assume "commit_status_from_db_str s = Some x"
  then show "commit_status_as_db_str x = s" by (auto simp: codec_simps split: if_splits)
qed

fun status_is_success :: "commit_status_state \<Rightarrow> bool" where
  "status_is_success StSuccess = True"
| "status_is_success _ = False"

record commit_status =
  status_id :: uuid
  status_repository_id :: uuid
  status_commit_sha :: string
  status_context :: string
  status_state :: commit_status_state
  status_target_url :: "string option"
  status_description :: "string option"
  status_created_at :: int
  status_updated_at :: int

definition required_checks_satisfied :: "string list \<Rightarrow> commit_status list \<Rightarrow> bool" where
  "required_checks_satisfied required statuses =
     list_all (\<lambda>ctx. list_ex (\<lambda>st. status_context st = ctx \<and> status_is_success (status_state st)) statuses)
       required"

lemma required_checks_mono:
  "required_checks_satisfied req sts \<Longrightarrow> set sts \<subseteq> set sts' \<Longrightarrow> set req' \<subseteq> set req \<Longrightarrow>
     required_checks_satisfied req' sts'"
  by (force simp: required_checks_satisfied_def list_all_iff list_ex_iff)

lemma required_checks_iff:
  "required_checks_satisfied req sts \<longleftrightarrow>
     set req \<subseteq> {status_context st |st. st \<in> set sts \<and> status_state st = StSuccess}"
proof -
  have "status_is_success s \<longleftrightarrow> s = StSuccess" for s by (cases s) auto
  then show ?thesis by (auto simp: required_checks_satisfied_def list_all_iff list_ex_iff)
qed

end
