(* ===== verification/Access_Control.thy ===== *)
theory Access_Control
  imports Repositories Pull_Requests Branch_Protection
begin

text \<open>
  Authorization: the role model and the pure decision functions of \<^verbatim>\<open>edda-domain/src/access.rs\<close>, and
  the team permissions of \<^verbatim>\<open>team.rs\<close>. The derived Rust orders on roles and permissions are
  instances of \<open>linorder\<close>. The lemmas show that the four tiers form a chain, that a private
  repository's existence is hidden from an actor without a grant, and what exactly lets a merge
  through.
\<close>

section \<open>Roles\<close>

datatype repo_role = RRead | RWrite | RAdmin | ROwner

fun role_rank :: "repo_role \<Rightarrow> nat" where
  "role_rank RRead = 0"
| "role_rank RWrite = 1"
| "role_rank RAdmin = 2"
| "role_rank ROwner = 3"

lemma role_rank_inj: "role_rank a = role_rank b \<Longrightarrow> a = b"
  by (cases a; cases b) simp_all

instantiation repo_role :: linorder
begin

definition less_eq_repo_role :: "repo_role \<Rightarrow> repo_role \<Rightarrow> bool" where
  "less_eq_repo_role a b \<longleftrightarrow> role_rank a \<le> role_rank b"

definition less_repo_role :: "repo_role \<Rightarrow> repo_role \<Rightarrow> bool" where
  "less_repo_role a b \<longleftrightarrow> role_rank a < role_rank b"

instance
  by standard (auto simp: less_eq_repo_role_def less_repo_role_def intro: role_rank_inj)

end

fun role_as_db_str :: "repo_role \<Rightarrow> string" where
  "role_as_db_str RRead = ''read''"
| "role_as_db_str RWrite = ''write''"
| "role_as_db_str RAdmin = ''admin''"
| "role_as_db_str ROwner = ''owner''"

definition role_from_db_str :: "string \<Rightarrow> repo_role option" where
  [codec_simps]: "role_from_db_str s =
     (if s = ''read'' then Some RRead
      else if s = ''write'' then Some RWrite
      else if s = ''admin'' then Some RAdmin
      else if s = ''owner'' then Some ROwner else None)"

interpretation role_codec: db_codec role_as_db_str role_from_db_str
proof
  fix x show "role_from_db_str (role_as_db_str x) = Some x"
    by (cases x) (simp_all add: codec_simps)
next
  fix s x assume "role_from_db_str s = Some x"
  then show "role_as_db_str x = s" by (auto simp: codec_simps split: if_splits)
qed

section \<open>Teams\<close>

datatype team_permission = TPNone | TPRead | TPWrite | TPAdmin

fun permission_rank :: "team_permission \<Rightarrow> nat" where
  "permission_rank TPNone = 0"
| "permission_rank TPRead = 1"
| "permission_rank TPWrite = 2"
| "permission_rank TPAdmin = 3"

lemma permission_rank_inj: "permission_rank a = permission_rank b \<Longrightarrow> a = b"
  by (cases a; cases b) simp_all

instantiation team_permission :: linorder
begin

definition less_eq_team_permission :: "team_permission \<Rightarrow> team_permission \<Rightarrow> bool" where
  "less_eq_team_permission a b \<longleftrightarrow> permission_rank a \<le> permission_rank b"

definition less_team_permission :: "team_permission \<Rightarrow> team_permission \<Rightarrow> bool" where
  "less_team_permission a b \<longleftrightarrow> permission_rank a < permission_rank b"

instance
  by standard
    (auto simp: less_eq_team_permission_def less_team_permission_def intro: permission_rank_inj)

end

fun team_permission_as_db_str :: "team_permission \<Rightarrow> string" where
  "team_permission_as_db_str TPNone = ''none''"
| "team_permission_as_db_str TPRead = ''read''"
| "team_permission_as_db_str TPWrite = ''write''"
| "team_permission_as_db_str TPAdmin = ''admin''"

definition team_permission_from_db_str :: "string \<Rightarrow> team_permission option" where
  [codec_simps]: "team_permission_from_db_str s =
     (if s = ''none'' then Some TPNone
      else if s = ''read'' then Some TPRead
      else if s = ''write'' then Some TPWrite
      else if s = ''admin'' then Some TPAdmin else None)"

interpretation team_permission_codec:
  db_codec team_permission_as_db_str team_permission_from_db_str
proof
  fix x show "team_permission_from_db_str (team_permission_as_db_str x) = Some x"
    by (cases x) (simp_all add: codec_simps)
next
  fix s x assume "team_permission_from_db_str s = Some x"
  then show "team_permission_as_db_str x = s" by (auto simp: codec_simps split: if_splits)
qed

fun as_repo_role :: "team_permission \<Rightarrow> repo_role option" where
  "as_repo_role TPNone = None"
| "as_repo_role TPRead = Some RRead"
| "as_repo_role TPWrite = Some RWrite"
| "as_repo_role TPAdmin = Some RAdmin"

datatype team_unit =
    UCode | UIssues | UPullRequests | UReleases | UWiki | UProjects | UPackages | UActions

fun team_unit_as_db_str :: "team_unit \<Rightarrow> string" where
  "team_unit_as_db_str UCode = ''code''"
| "team_unit_as_db_str UIssues = ''issues''"
| "team_unit_as_db_str UPullRequests = ''pull_requests''"
| "team_unit_as_db_str UReleases = ''releases''"
| "team_unit_as_db_str UWiki = ''wiki''"
| "team_unit_as_db_str UProjects = ''projects''"
| "team_unit_as_db_str UPackages = ''packages''"
| "team_unit_as_db_str UActions = ''actions''"

definition team_unit_from_db_str :: "string \<Rightarrow> team_unit option" where
  [codec_simps]: "team_unit_from_db_str s =
     (if s = ''code'' then Some UCode
      else if s = ''issues'' then Some UIssues
      else if s = ''pull_requests'' then Some UPullRequests
      else if s = ''releases'' then Some UReleases
      else if s = ''wiki'' then Some UWiki
      else if s = ''projects'' then Some UProjects
      else if s = ''packages'' then Some UPackages
      else if s = ''actions'' then Some UActions else None)"

interpretation team_unit_codec: db_codec team_unit_as_db_str team_unit_from_db_str
proof
  fix x show "team_unit_from_db_str (team_unit_as_db_str x) = Some x"
    by (cases x) (simp_all add: codec_simps)
next
  fix s x assume "team_unit_from_db_str s = Some x"
  then show "team_unit_as_db_str x = s" by (auto simp: codec_simps split: if_splits)
qed

record team =
  team_id :: uuid
  team_organization_id :: uuid
  team_name :: string
  team_permission :: team_permission

definition code_role :: "team \<Rightarrow> team_permission option \<Rightarrow> repo_role option" where
  "code_role t code_unit_override =
     as_repo_role (case code_unit_override of Some p \<Rightarrow> p | None \<Rightarrow> team_permission t)"

text \<open>\<^verbatim>\<open>team_grants.iter().copied().chain(direct).max()\<close>: the maximum of a possibly empty sequence.\<close>

fun iter_max :: "repo_role list \<Rightarrow> repo_role option" where
  "iter_max [] = None"
| "iter_max (x # xs) = Some (fold max xs x)"

definition effective_repo_role :: "repo_role option \<Rightarrow> repo_role list \<Rightarrow> repo_role option" where
  "effective_repo_role direct team_grants =
     iter_max (team_grants @ (case direct of None \<Rightarrow> [] | Some r \<Rightarrow> [r]))"

lemma fold_max_Max: "fold max xs (x :: 'a :: linorder) = Max (set (x # xs))"
proof (induction xs arbitrary: x)
  case (Cons y ys)
  then show ?case by (cases "ys = []") (simp_all add: max.left_commute max.commute)
qed simp

lemma iter_max_Max: "xs \<noteq> [] \<Longrightarrow> iter_max xs = Some (Max (set xs))"
proof (cases xs)
  case (Cons y ys)
  then show ?thesis using fold_max_Max [of ys y] by simp
qed simp

lemma iter_max_None [simp]: "iter_max xs = None \<longleftrightarrow> xs = []"
  by (cases xs) auto

lemma iter_max_ge: "(\<exists>r. iter_max xs = Some r \<and> m \<le> r) \<longleftrightarrow> (\<exists>r \<in> set xs. m \<le> r)"
proof (cases "xs = []")
  case False
  then have "set xs \<noteq> {}" "finite (set xs)" by simp_all
  with False show ?thesis by (simp add: iter_max_Max Max_ge_iff)
qed simp

lemma effective_repo_role_ge:
  "(\<exists>r. effective_repo_role direct grants = Some r \<and> m \<le> r) \<longleftrightarrow>
     (\<exists>r \<in> set grants. m \<le> r) \<or> (\<exists>r. direct = Some r \<and> m \<le> r)"
  by (auto simp: effective_repo_role_def iter_max_ge split: option.splits)

lemma team_never_owner: "as_repo_role p \<noteq> Some ROwner"
  by (cases p) auto

section \<open>Actors\<close>

record repo_access =
  access_repository_id :: uuid
  access_subject :: access_subject
  access_role :: repo_role

datatype repository_scope = ScopeAll | ScopePublicOnly | ScopeSpecific "uuid list"

fun scope_permits :: "repository_scope \<Rightarrow> repository \<Rightarrow> bool" where
  "scope_permits ScopeAll r = True"
| "scope_permits ScopePublicOnly r = (\<not> is_private r)"
| "scope_permits (ScopeSpecific ids) r = (repo_id r \<in> set ids)"

datatype token_scope = TSAll | TSRepoRead | TSRepoWrite

fun token_scope_rank :: "token_scope \<Rightarrow> nat" where
  "token_scope_rank TSRepoRead = 0"
| "token_scope_rank TSRepoWrite = 1"
| "token_scope_rank TSAll = 2"

definition token_scope_allows :: "token_scope \<Rightarrow> token_scope \<Rightarrow> bool" where
  "token_scope_allows self required \<longleftrightarrow> token_scope_rank self \<ge> token_scope_rank required"

datatype actor_context =
    Anonymous
  | ActorUser uuid
  | ActorToken uuid repository_scope token_scope
  | ActorDeployKey uuid bool

fun actor_user_id :: "actor_context \<Rightarrow> uuid option" where
  "actor_user_id Anonymous = None"
| "actor_user_id (ActorDeployKey _ _) = None"
| "actor_user_id (ActorUser i) = Some i"
| "actor_user_id (ActorToken i _ _) = Some i"

fun permits_token_scope :: "actor_context \<Rightarrow> token_scope \<Rightarrow> bool" where
  "permits_token_scope (ActorToken _ _ ts) required = token_scope_allows ts required"
| "permits_token_scope _ required = True"

datatype authz_error = AuthzNotFound | AuthzForbidden

type_synonym authz_result = "authz_error + unit"

section \<open>Decisions\<close>

fun token_repo_scope_permits :: "actor_context \<Rightarrow> repository \<Rightarrow> bool" where
  "token_repo_scope_permits (ActorToken _ scope _) r = scope_permits scope r"
| "token_repo_scope_permits _ r = True"

definition can_read_repository ::
  "actor_context \<Rightarrow> repository \<Rightarrow> repo_access option \<Rightarrow> authz_result" where
  "can_read_repository actor repository access =
     (case actor of
        ActorDeployKey rid _ \<Rightarrow> if rid = repo_id repository then Inr () else Inl AuthzNotFound
      | _ \<Rightarrow>
          if \<not> is_private repository then Inr ()
          else (case access of
                  Some _ \<Rightarrow> if token_repo_scope_permits actor repository then Inr ()
                            else Inl AuthzNotFound
                | None \<Rightarrow> Inl AuthzNotFound))"

definition require_role ::
  "actor_context \<Rightarrow> repository \<Rightarrow> repo_access option \<Rightarrow> repo_role \<Rightarrow> authz_result" where
  "require_role actor repository access minimum =
     (let not_permitted = (if is_private repository then AuthzNotFound else AuthzForbidden)
      in case actor of
           ActorDeployKey rid read_only \<Rightarrow>
             if rid = repo_id repository \<and> \<not> read_only \<and> minimum \<le> RWrite
             then Inr () else Inl not_permitted
         | _ \<Rightarrow>
             (case access of
                None \<Rightarrow> Inl not_permitted
              | Some a \<Rightarrow>
                  if \<not> token_repo_scope_permits actor repository then Inl not_permitted
                  else if access_role a \<ge> minimum then Inr ()
                  else Inl AuthzForbidden))"

definition can_write_repository ::
  "actor_context \<Rightarrow> repository \<Rightarrow> repo_access option \<Rightarrow> authz_result" where
  "can_write_repository actor repository access = require_role actor repository access RWrite"

definition can_administer_repository ::
  "actor_context \<Rightarrow> repository \<Rightarrow> repo_access option \<Rightarrow> authz_result" where
  "can_administer_repository actor repository access = require_role actor repository access RAdmin"

definition can_manage_repository_danger_zone ::
  "actor_context \<Rightarrow> repository \<Rightarrow> repo_access option \<Rightarrow> authz_result" where
  "can_manage_repository_danger_zone actor repository access =
     require_role actor repository access ROwner"

definition require_instance_admin :: "bool \<Rightarrow> authz_result" where
  "require_instance_admin actor_is_admin = (if actor_is_admin then Inr () else Inl AuthzForbidden)"

definition can_merge_pull_request ::
  "actor_context \<Rightarrow> repository \<Rightarrow> branch_protection_rule option \<Rightarrow> pr_review list \<Rightarrow>
   repo_access option \<Rightarrow> authz_result" where
  "can_merge_pull_request actor repository protection reviews access =
     (case can_write_repository actor repository access of
        Inl e \<Rightarrow> Inl e
      | Inr _ \<Rightarrow>
          (case protection of
             None \<Rightarrow> Inr ()
           | Some rule \<Rightarrow>
               (let approvals = length (filter is_active_approval (latest_reviews reviews))
                in if int approvals < required_approvals rule then Inl AuthzForbidden
                   else Inr ())))"

definition can_open_cross_repo_pull_request ::
  "actor_context \<Rightarrow> repository \<Rightarrow> repo_access option \<Rightarrow> repository \<Rightarrow> repo_access option \<Rightarrow>
   authz_result" where
  "can_open_cross_repo_pull_request actor source source_access target target_access =
     (case can_read_repository actor target target_access of
        Inl e \<Rightarrow> Inl e
      | Inr _ \<Rightarrow> can_write_repository actor source source_access)"

lemmas access_defs = can_read_repository_def can_write_repository_def can_administer_repository_def
  can_manage_repository_danger_zone_def require_role_def

section \<open>Properties of the decisions\<close>

lemma require_role_antimono:
  "require_role actor r access hi = Inr () \<Longrightarrow> lo \<le> hi \<Longrightarrow> require_role actor r access lo = Inr ()"
  by (cases actor; cases access)
     (auto simp: require_role_def Let_def split: if_splits intro: order_trans)

lemma write_implies_read:
  "can_write_repository actor r access = Inr () \<Longrightarrow> can_read_repository actor r access = Inr ()"
  by (cases actor; cases access)
     (auto simp: access_defs Let_def split: if_splits)

lemma role_chain: "RRead \<le> RWrite" "RWrite \<le> RAdmin" "RAdmin \<le> ROwner"
  by (simp_all add: less_eq_repo_role_def)

text \<open>The four tiers are a chain: whoever may perform owner-only actions may administer, whoever
  may administer may write, and whoever may write may read, for every actor kind and grant.\<close>

theorem permission_tiers_chain:
  "(can_manage_repository_danger_zone a r g = Inr () \<longrightarrow> can_administer_repository a r g = Inr ())
   \<and> (can_administer_repository a r g = Inr () \<longrightarrow> can_write_repository a r g = Inr ())
   \<and> (can_write_repository a r g = Inr () \<longrightarrow> can_read_repository a r g = Inr ())"
  using require_role_antimono role_chain write_implies_read
  by (auto simp: can_manage_repository_danger_zone_def can_administer_repository_def
      can_write_repository_def)

theorem permission_tiers_chain_witness:
  "can_read_repository (ActorUser 7)
     \<lparr>repo_id = 1, repo_owner = OwnerUser 7, repo_name = ''demo'', repo_description = None,
      repo_visibility = Private, repo_forked_from = None\<rparr>
     (Some \<lparr>access_repository_id = 1, access_subject = SubjectUser 7, access_role = ROwner\<rparr>) = Inr ()"
proof -
  let ?r = "\<lparr>repo_id = 1, repo_owner = OwnerUser 7, repo_name = ''demo'', repo_description = None,
      repo_visibility = Private, repo_forked_from = None\<rparr>"
  let ?g = "Some \<lparr>access_repository_id = 1, access_subject = SubjectUser 7, access_role = ROwner\<rparr>"
  have "can_manage_repository_danger_zone (ActorUser 7) ?r ?g = Inr ()" by code_simp
  then show ?thesis using permission_tiers_chain [of "ActorUser 7" ?r ?g] by blast
qed

text \<open>The relation between an actor and a repository that reveals nothing: no deploy key of the
  repository itself, and either no grant at all or a token whose repository scope excludes it.\<close>

definition outsider :: "actor_context \<Rightarrow> repository \<Rightarrow> repo_access option \<Rightarrow> bool" where
  "outsider actor r access \<longleftrightarrow>
     (\<forall>rid ro. actor = ActorDeployKey rid ro \<longrightarrow> rid \<noteq> repo_id r)
     \<and> (access = None \<or> \<not> token_repo_scope_permits actor r \<or> (\<exists>rid ro. actor = ActorDeployKey rid ro))"

text \<open>A private repository is indistinguishable from a missing one for an outsider: reading,
  writing, administering, owner actions, merging and proposing a cross-repository pull request
  into it all answer \<^verbatim>\<open>NotFound\<close>, never \<^verbatim>\<open>Forbidden\<close>.\<close>

theorem private_existence_hidden:
  assumes "is_private r" "outsider actor r access"
  shows "can_read_repository actor r access = Inl AuthzNotFound
    \<and> can_write_repository actor r access = Inl AuthzNotFound
    \<and> can_administer_repository actor r access = Inl AuthzNotFound
    \<and> can_manage_repository_danger_zone actor r access = Inl AuthzNotFound
    \<and> can_merge_pull_request actor r protection reviews access = Inl AuthzNotFound
    \<and> can_open_cross_repo_pull_request actor src src_access r access = Inl AuthzNotFound"
proof -
  have w: "require_role actor r access m = Inl AuthzNotFound" for m
    using assms by (cases actor; cases access) (auto simp: require_role_def outsider_def)
  have rd: "can_read_repository actor r access = Inl AuthzNotFound"
    using assms by (cases actor; cases access) (auto simp: can_read_repository_def outsider_def)
  show ?thesis
    by (simp add: w rd can_write_repository_def can_administer_repository_def
        can_manage_repository_danger_zone_def can_merge_pull_request_def
        can_open_cross_repo_pull_request_def)
qed

theorem private_existence_hidden_witness:
  "can_read_repository (ActorToken 7 (ScopeSpecific [2]) TSAll)
     \<lparr>repo_id = 1, repo_owner = OwnerUser 7, repo_name = ''demo'', repo_description = None,
      repo_visibility = Private, repo_forked_from = None\<rparr>
     (Some \<lparr>access_repository_id = 1, access_subject = SubjectUser 7, access_role = ROwner\<rparr>)
   = Inl AuthzNotFound"
proof -
  let ?r = "\<lparr>repo_id = 1, repo_owner = OwnerUser 7, repo_name = ''demo'', repo_description = None,
      repo_visibility = Private, repo_forked_from = None\<rparr>"
  let ?g = "Some \<lparr>access_repository_id = 1, access_subject = SubjectUser 7, access_role = ROwner\<rparr>"
  have "is_private ?r" "outsider (ActorToken 7 (ScopeSpecific [2]) TSAll) ?r ?g"
    by (simp_all add: is_private_def outsider_def)
  then show ?thesis by (blast dest: private_existence_hidden)
qed

definition approving_reviewers :: "pr_review list \<Rightarrow> uuid set" where
  "approving_reviewers reviews =
     {u. \<exists>r. current_verdict reviews u = Some r \<and> is_active_approval r}"

text \<open>C1. A merge is authorized exactly when the actor may write and, on a protected branch, at
  least the required number of distinct reviewers currently approve: each reviewer counts once,
  by the newest verdict only, and a dismissed approval does not count. The rule has no bypass.\<close>

theorem merge_authorized_iff:
  "can_merge_pull_request actor r protection reviews access = Inr () \<longleftrightarrow>
     can_write_repository actor r access = Inr ()
     \<and> (\<forall>rule. protection = Some rule \<longrightarrow>
           required_approvals rule \<le> int (card (approving_reviewers reviews)))"
  by (auto simp: can_merge_pull_request_def count_latest_reviews approving_reviewers_def Let_def
      split: sum.splits option.splits)

theorem merge_authorized_iff_witness:
  "can_merge_pull_request (ActorUser 7)
     \<lparr>repo_id = 1, repo_owner = OwnerUser 7, repo_name = ''demo'', repo_description = None,
      repo_visibility = Public, repo_forked_from = None\<rparr> None []
     (Some \<lparr>access_repository_id = 1, access_subject = SubjectUser 7, access_role = RWrite\<rparr>)
   = Inr ()"
  unfolding merge_authorized_iff by (simp add: access_defs)

text \<open>A new verdict from one reviewer replaces that reviewer's earlier ones and leaves every other
  reviewer's alone, so asking for changes after approving withdraws the approval.\<close>

lemma newest_append: "newest b (xs @ ys) = newest (newest b xs) ys"
  by (induction b xs rule: newest.induct) simp_all

lemma current_verdict_snoc:
  "\<forall>x \<in> set rs. review_created_at x \<le> review_created_at r \<Longrightarrow>
     current_verdict (rs @ [r]) u = (if reviewer_id r = u then Some r else current_verdict rs u)"
proof -
  assume newer: "\<forall>x \<in> set rs. review_created_at x \<le> review_created_at r"
  have "review_created_at b \<le> review_created_at r"
    if "newest None (filter (\<lambda>r. reviewer_id r = u) rs) = Some b" for b
    using newest_mem [OF that] newer by auto
  then show ?thesis by (auto simp: current_verdict_def newest_append split: option.splits)
qed

lemma approving_reviewers_snoc:
  assumes "\<forall>x \<in> set rs. review_created_at x \<le> review_created_at r"
  shows "approving_reviewers (rs @ [r]) =
    (if is_active_approval r then insert (reviewer_id r) (approving_reviewers rs)
     else approving_reviewers rs - {reviewer_id r})"
  using assms by (auto simp: approving_reviewers_def current_verdict_snoc)

end
