(* ===== verification/Issues.thy ===== *)
theory Issues
  imports Pull_Requests
begin

text \<open>
  Issues, labels, milestones, releases and in-app notifications and watches
  (\<^verbatim>\<open>edda-domain/src/issue.rs\<close>, \<^verbatim>\<open>release.rs\<close>, \<^verbatim>\<open>notification.rs\<close>, \<^verbatim>\<open>watch.rs\<close>).
  A label's scope is what stands before the last slash of its name; at most one label of a
  scope may be on an issue (the operation that keeps it so is in \<^verbatim>\<open>Issue_Tracker\<close>).
\<close>

section \<open>Issues and labels\<close>

datatype issue_state = IssueOpen | IssueClosed int close_reason

fun issue_is_open :: "issue_state \<Rightarrow> bool" where
  "issue_is_open IssueOpen = True"
| "issue_is_open (IssueClosed _ _) = False"

record issue =
  issue_id :: uuid
  issue_repository_id :: uuid
  issue_number :: int
  issue_title :: string
  issue_body :: "string option"
  issue_author_id :: uuid
  issue_state :: issue_state
  issue_milestone_id :: "uuid option"
  issue_created_at :: int

record label =
  label_id :: uuid
  label_repository_id :: uuid
  label_name :: string
  label_color :: string
  label_description :: "string option"
  label_archived_at :: "int option"

text \<open>\<^verbatim>\<open>rfind\<close> of a character, as the length of what stands before its last occurrence.\<close>

fun rfind_char :: "char \<Rightarrow> string \<Rightarrow> nat option" where
  "rfind_char c [] = None"
| "rfind_char c (x # xs) =
     (case rfind_char c xs of
        Some i \<Rightarrow> Some (Suc i)
      | None \<Rightarrow> if x = c then Some 0 else None)"

definition scope_of :: "string \<Rightarrow> string option" where
  "scope_of name = map_option (\<lambda>i. take i name) (rfind_char CHR ''/'' name)"

definition labels_to_unapply_for_scope :: "label list \<Rightarrow> label \<Rightarrow> label list" where
  "labels_to_unapply_for_scope currently_applied new_label =
     (case scope_of (label_name new_label) of
        None \<Rightarrow> []
      | Some new_scope \<Rightarrow>
          filter (\<lambda>existing. label_id existing \<noteq> label_id new_label
                     \<and> scope_of (label_name existing) = Some new_scope) currently_applied)"

lemma rfind_char_None: "rfind_char c xs = None \<longleftrightarrow> c \<notin> set xs"
  by (induction xs) (auto split: option.splits)

lemma rfind_char_split: "c \<notin> set b \<Longrightarrow> rfind_char c (a @ c # b) = Some (length a)"
proof (induction a)
  case Nil
  then show ?case using rfind_char_None [of c b] by simp
next
  case (Cons x a)
  then show ?case by simp
qed

lemma rfind_char_lt: "rfind_char c xs = Some i \<Longrightarrow> i < length xs \<and> xs ! i = c \<and> c \<notin> set (drop (Suc i) xs)"
  by (induction xs arbitrary: i) (auto split: option.splits if_splits simp: rfind_char_None)

lemma scope_of_None: "scope_of name = None \<longleftrightarrow> CHR ''/'' \<notin> set name"
  by (simp add: scope_of_def rfind_char_None)

lemma scope_of_Some:
  "scope_of name = Some sc \<longleftrightarrow> (\<exists>b. name = sc @ CHR ''/'' # b \<and> CHR ''/'' \<notin> set b)"
proof
  assume "scope_of name = Some sc"
  then obtain i where i: "rfind_char CHR ''/'' name = Some i" "sc = take i name"
    by (auto simp: scope_of_def)
  note lt = rfind_char_lt [OF i(1)]
  then have "name = take i name @ CHR ''/'' # drop (Suc i) name"
    by (metis id_take_nth_drop)
  then show "\<exists>b. name = sc @ CHR ''/'' # b \<and> CHR ''/'' \<notin> set b" using lt i(2) by blast
next
  assume "\<exists>b. name = sc @ CHR ''/'' # b \<and> CHR ''/'' \<notin> set b"
  then show "scope_of name = Some sc" by (auto simp: scope_of_def rfind_char_split)
qed

definition one_label_per_scope :: "label list \<Rightarrow> bool" where
  "one_label_per_scope ls \<longleftrightarrow>
     (\<forall>a\<in>set ls. \<forall>b\<in>set ls. scope_of (label_name a) = scope_of (label_name b)
        \<longrightarrow> scope_of (label_name a) \<noteq> None \<longrightarrow> label_id a = label_id b)"

section \<open>Milestones and comments\<close>

record issue_comment =
  icomment_id :: uuid
  icomment_issue_id :: uuid
  icomment_author_id :: uuid
  icomment_body :: string
  icomment_created_at :: int

datatype milestone_state = MsOpen | MsClosed

fun milestone_as_db_str :: "milestone_state \<Rightarrow> string" where
  "milestone_as_db_str MsOpen = ''open''"
| "milestone_as_db_str MsClosed = ''closed''"

definition milestone_from_db_str :: "string \<Rightarrow> milestone_state option" where
  [codec_simps]: "milestone_from_db_str s =
     (if s = ''open'' then Some MsOpen else if s = ''closed'' then Some MsClosed else None)"

interpretation milestone_codec: db_codec milestone_as_db_str milestone_from_db_str
proof
  fix x show "milestone_from_db_str (milestone_as_db_str x) = Some x"
    by (cases x) (simp_all add: codec_simps)
next
  fix s x assume "milestone_from_db_str s = Some x"
  then show "milestone_as_db_str x = s" by (auto simp: codec_simps split: if_splits)
qed

record milestone =
  milestone_id :: uuid
  milestone_repository_id :: uuid
  milestone_title :: string
  milestone_description :: "string option"
  milestone_due_on :: "int option"
  milestone_state :: milestone_state

section \<open>Releases\<close>

record release =
  release_id :: uuid
  release_repository_id :: uuid
  release_tag_name :: string
  release_target_commit :: string
  release_name :: string
  release_body :: "string option"
  release_draft :: bool
  release_prerelease :: bool
  release_published_at :: "int option"
  release_author_id :: uuid
  release_created_at :: int

definition is_visible_to_readers :: "release \<Rightarrow> bool" where
  "is_visible_to_readers r \<longleftrightarrow> \<not> release_draft r"

section \<open>Notifications and watches\<close>

datatype notification_kind =
    NMention | NPrReviewRequested | NIssueAssigned | NPrMerged | NPrClosed | NIssueClosed
  | NReleasePublished

fun notification_kind_as_db_str :: "notification_kind \<Rightarrow> string" where
  "notification_kind_as_db_str NMention = ''mention''"
| "notification_kind_as_db_str NPrReviewRequested = ''pr_review_requested''"
| "notification_kind_as_db_str NIssueAssigned = ''issue_assigned''"
| "notification_kind_as_db_str NPrMerged = ''pr_merged''"
| "notification_kind_as_db_str NPrClosed = ''pr_closed''"
| "notification_kind_as_db_str NIssueClosed = ''issue_closed''"
| "notification_kind_as_db_str NReleasePublished = ''release_published''"

definition notification_kind_from_db_str :: "string \<Rightarrow> notification_kind option" where
  [codec_simps]: "notification_kind_from_db_str s =
     (if s = ''mention'' then Some NMention
      else if s = ''pr_review_requested'' then Some NPrReviewRequested
      else if s = ''issue_assigned'' then Some NIssueAssigned
      else if s = ''pr_merged'' then Some NPrMerged
      else if s = ''pr_closed'' then Some NPrClosed
      else if s = ''issue_closed'' then Some NIssueClosed
      else if s = ''release_published'' then Some NReleasePublished else None)"

interpretation notification_kind_codec:
  db_codec notification_kind_as_db_str notification_kind_from_db_str
proof
  fix x show "notification_kind_from_db_str (notification_kind_as_db_str x) = Some x"
    by (cases x) (simp_all add: codec_simps)
next
  fix s x assume "notification_kind_from_db_str s = Some x"
  then show "notification_kind_as_db_str x = s" by (auto simp: codec_simps split: if_splits)
qed

datatype notification_subject = NsPullRequest uuid | NsIssue uuid | NsRelease uuid

fun notification_subject_type :: "notification_subject \<Rightarrow> string" where
  "notification_subject_type (NsPullRequest _) = ''pull_request''"
| "notification_subject_type (NsIssue _) = ''issue''"
| "notification_subject_type (NsRelease _) = ''release''"

fun notification_subject_id :: "notification_subject \<Rightarrow> uuid" where
  "notification_subject_id (NsPullRequest i) = i"
| "notification_subject_id (NsIssue i) = i"
| "notification_subject_id (NsRelease i) = i"

lemma notification_subject_columns_inj:
  "notification_subject_type a = notification_subject_type b \<Longrightarrow>
   notification_subject_id a = notification_subject_id b \<Longrightarrow> a = b"
  by (cases a; cases b) simp_all

record notification =
  notification_id :: uuid
  notification_user_id :: uuid
  notification_kind :: notification_kind
  notification_subject :: notification_subject
  notification_read_at :: "int option"
  notification_created_at :: int

definition is_unread :: "notification \<Rightarrow> bool" where
  "is_unread n \<longleftrightarrow> notification_read_at n = None"

datatype watch_level = Watching | Ignoring

fun watch_level_as_db_str :: "watch_level \<Rightarrow> string" where
  "watch_level_as_db_str Watching = ''watching''"
| "watch_level_as_db_str Ignoring = ''ignoring''"

definition watch_level_from_db_str :: "string \<Rightarrow> watch_level option" where
  [codec_simps]: "watch_level_from_db_str s =
     (if s = ''watching'' then Some Watching else if s = ''ignoring'' then Some Ignoring else None)"

interpretation watch_level_codec: db_codec watch_level_as_db_str watch_level_from_db_str
proof
  fix x show "watch_level_from_db_str (watch_level_as_db_str x) = Some x"
    by (cases x) (simp_all add: codec_simps)
next
  fix s x assume "watch_level_from_db_str s = Some x"
  then show "watch_level_as_db_str x = s" by (auto simp: codec_simps split: if_splits)
qed

datatype watch_subject = WsRepository uuid | WsIssue uuid | WsPullRequest uuid

fun watch_subject_type :: "watch_subject \<Rightarrow> string" where
  "watch_subject_type (WsRepository _) = ''repository''"
| "watch_subject_type (WsIssue _) = ''issue''"
| "watch_subject_type (WsPullRequest _) = ''pull_request''"

fun watch_subject_id :: "watch_subject \<Rightarrow> uuid" where
  "watch_subject_id (WsRepository i) = i"
| "watch_subject_id (WsIssue i) = i"
| "watch_subject_id (WsPullRequest i) = i"

lemma watch_subject_columns_inj:
  "watch_subject_type a = watch_subject_type b \<Longrightarrow> watch_subject_id a = watch_subject_id b \<Longrightarrow> a = b"
  by (cases a; cases b) simp_all

record watch =
  watch_id :: uuid
  watch_user_id :: uuid
  watch_subject :: watch_subject
  watch_level :: watch_level
  watch_created_at :: int

end
