(* ===== verification/Webhooks.thy ===== *)
theory Webhooks
  imports Prelude
begin

text \<open>
  Webhooks (\<^verbatim>\<open>edda-domain/src/webhook.rs\<close>): the closed set of events and its wire spelling, a
  subscription, and the decision which delivery targets are refused
  (\<^verbatim>\<open>is_blocked_ip\<close>, used by \<^verbatim>\<open>edda-app/src/security/ssrf.rs\<close>). Octets and segments are machine
  words; the range lemmas relate the bit masks to the address blocks they stand for.
\<close>

unbundle bit_operations_syntax

section \<open>Events and subscriptions\<close>

datatype webhook_event =
    WhPullRequestOpened | WhPullRequestClosed | WhPullRequestReopened | WhPullRequestReviewSubmitted
  | WhPullRequestMerged | WhIssueOpened | WhIssueClosed | WhIssueCommented | WhReleasePublished
  | WhPush

definition webhook_event_all :: "webhook_event list" where
  "webhook_event_all =
     [WhPullRequestOpened, WhPullRequestClosed, WhPullRequestReopened, WhPullRequestReviewSubmitted,
      WhPullRequestMerged, WhIssueOpened, WhIssueClosed, WhIssueCommented, WhReleasePublished,
      WhPush]"

fun as_wire_str :: "webhook_event \<Rightarrow> string" where
  "as_wire_str WhPullRequestOpened = ''pull_request.opened''"
| "as_wire_str WhPullRequestClosed = ''pull_request.closed''"
| "as_wire_str WhPullRequestReopened = ''pull_request.reopened''"
| "as_wire_str WhPullRequestReviewSubmitted = ''pull_request.review_submitted''"
| "as_wire_str WhPullRequestMerged = ''pull_request.merged''"
| "as_wire_str WhIssueOpened = ''issue.opened''"
| "as_wire_str WhIssueClosed = ''issue.closed''"
| "as_wire_str WhIssueCommented = ''issue.commented''"
| "as_wire_str WhReleasePublished = ''release.published''"
| "as_wire_str WhPush = ''push''"

definition from_wire_str :: "string \<Rightarrow> webhook_event option" where
  "from_wire_str v = find (\<lambda>event. as_wire_str event = v) webhook_event_all"

lemma webhook_event_all_complete: "e \<in> set webhook_event_all"
  by (cases e) (simp_all add: webhook_event_all_def)

interpretation webhook_event_codec: db_codec as_wire_str from_wire_str
proof
  fix x show "from_wire_str (as_wire_str x) = Some x"
    by (cases x) (simp_all add: from_wire_str_def webhook_event_all_def)
next
  fix s x assume "from_wire_str s = Some x"
  then show "as_wire_str x = s" by (auto simp: from_wire_str_def dest: find_Some_filter)
qed

record webhook =
  webhook_id :: uuid
  webhook_repository_id :: uuid
  webhook_target_url :: string
  webhook_events :: "webhook_event list"
  webhook_active :: bool
  webhook_created_at :: int

definition is_subscribed_to :: "webhook \<Rightarrow> webhook_event \<Rightarrow> bool" where
  "is_subscribed_to w event \<longleftrightarrow> webhook_active w \<and> event \<in> set (webhook_events w)"

section \<open>Refused delivery targets\<close>

text \<open>An IPv4 address is its four octets, an IPv6 address its eight segments. The range tests of
  \<^verbatim>\<open>std::net::Ipv4Addr\<close> and \<^verbatim>\<open>Ipv6Addr\<close> are written out as the standard library defines them.\<close>

record ipv4 =
  oct0 :: "8 word"
  oct1 :: "8 word"
  oct2 :: "8 word"
  oct3 :: "8 word"

record ipv6 =
  seg0 :: "16 word"
  seg1 :: "16 word"
  seg2 :: "16 word"
  seg3 :: "16 word"
  seg4 :: "16 word"
  seg5 :: "16 word"
  seg6 :: "16 word"
  seg7 :: "16 word"

datatype ip_addr = V4 ipv4 | V6 ipv6

definition v4_is_loopback :: "ipv4 \<Rightarrow> bool" where
  "v4_is_loopback ip \<longleftrightarrow> oct0 ip = 127"

definition v4_is_link_local :: "ipv4 \<Rightarrow> bool" where
  "v4_is_link_local ip \<longleftrightarrow> oct0 ip = 169 \<and> oct1 ip = 254"

definition v4_is_private :: "ipv4 \<Rightarrow> bool" where
  "v4_is_private ip \<longleftrightarrow>
     oct0 ip = 10 \<or> (oct0 ip = 172 \<and> 16 \<le> oct1 ip \<and> oct1 ip \<le> 31) \<or> (oct0 ip = 192 \<and> oct1 ip = 168)"

definition v4_is_unspecified :: "ipv4 \<Rightarrow> bool" where
  "v4_is_unspecified ip \<longleftrightarrow> oct0 ip = 0 \<and> oct1 ip = 0 \<and> oct2 ip = 0 \<and> oct3 ip = 0"

definition v4_is_multicast :: "ipv4 \<Rightarrow> bool" where
  "v4_is_multicast ip \<longleftrightarrow> 224 \<le> oct0 ip \<and> oct0 ip \<le> 239"

definition v4_is_broadcast :: "ipv4 \<Rightarrow> bool" where
  "v4_is_broadcast ip \<longleftrightarrow> oct0 ip = 255 \<and> oct1 ip = 255 \<and> oct2 ip = 255 \<and> oct3 ip = 255"

definition v4_is_documentation :: "ipv4 \<Rightarrow> bool" where
  "v4_is_documentation ip \<longleftrightarrow>
     (oct0 ip = 192 \<and> oct1 ip = 0 \<and> oct2 ip = 2) \<or> (oct0 ip = 198 \<and> oct1 ip = 51 \<and> oct2 ip = 100)
   \<or> (oct0 ip = 203 \<and> oct1 ip = 0 \<and> oct2 ip = 113)"

definition is_blocked_ipv4 :: "ipv4 \<Rightarrow> bool" where
  "is_blocked_ipv4 ip =
     (if v4_is_loopback ip \<or> v4_is_link_local ip \<or> v4_is_private ip \<or> v4_is_unspecified ip
          \<or> v4_is_multicast ip \<or> v4_is_broadcast ip \<or> v4_is_documentation ip then True
      else if oct0 ip = 100 \<and> (oct1 ip AND 0b11000000) = 0b01000000 then True
      else if oct0 ip = 192 \<and> oct1 ip = 0 \<and> oct2 ip = 0 then True
      else if oct0 ip = 198 \<and> (oct1 ip = 18 \<or> oct1 ip = 19) then True
      else 240 \<le> oct0 ip)"

definition v6_is_loopback :: "ipv6 \<Rightarrow> bool" where
  "v6_is_loopback ip \<longleftrightarrow> seg0 ip = 0 \<and> seg1 ip = 0 \<and> seg2 ip = 0 \<and> seg3 ip = 0 \<and> seg4 ip = 0 \<and> seg5 ip = 0
     \<and> seg6 ip = 0 \<and> seg7 ip = 1"

definition v6_is_unspecified :: "ipv6 \<Rightarrow> bool" where
  "v6_is_unspecified ip \<longleftrightarrow> seg0 ip = 0 \<and> seg1 ip = 0 \<and> seg2 ip = 0 \<and> seg3 ip = 0 \<and> seg4 ip = 0 \<and> seg5 ip = 0
     \<and> seg6 ip = 0 \<and> seg7 ip = 0"

definition v6_is_multicast :: "ipv6 \<Rightarrow> bool" where
  "v6_is_multicast ip \<longleftrightarrow> (seg0 ip AND 0xff00) = 0xff00"

definition to_ipv4_mapped :: "ipv6 \<Rightarrow> ipv4 option" where
  "to_ipv4_mapped ip =
     (if seg0 ip = 0 \<and> seg1 ip = 0 \<and> seg2 ip = 0 \<and> seg3 ip = 0 \<and> seg4 ip = 0 \<and> seg5 ip = 0xffff
      then Some \<lparr>oct0 = ucast (drop_bit 8 (seg6 ip)), oct1 = ucast (seg6 ip),
                 oct2 = ucast (drop_bit 8 (seg7 ip)), oct3 = ucast (seg7 ip)\<rparr>
      else None)"

definition is_blocked_ipv6 :: "ipv6 \<Rightarrow> bool" where
  "is_blocked_ipv6 ip =
     (if v6_is_loopback ip \<or> v6_is_unspecified ip \<or> v6_is_multicast ip then True
      else case to_ipv4_mapped ip of
        Some v4 \<Rightarrow> is_blocked_ipv4 v4
      | None \<Rightarrow>
          (let is_link_local = ((seg0 ip AND 0xffc0) = 0xfe80);
               is_unique_local = ((seg0 ip AND 0xfe00) = 0xfc00)
           in is_link_local \<or> is_unique_local))"

fun is_blocked_ip :: "ip_addr \<Rightarrow> bool" where
  "is_blocked_ip (V4 v4) = is_blocked_ipv4 v4"
| "is_blocked_ip (V6 v6) = is_blocked_ipv6 v6"

section \<open>The blocks as ranges of addresses\<close>

definition v4_number :: "ipv4 \<Rightarrow> nat" where
  "v4_number ip = ((unat (oct0 ip) * 256 + unat (oct1 ip)) * 256 + unat (oct2 ip)) * 256 + unat (oct3 ip)"

text \<open>A block in the usual notation: first address and prefix length.\<close>

record cidr =
  net0 :: nat
  net1 :: nat
  net2 :: nat
  net3 :: nat
  plen :: nat

definition cidr_base :: "cidr \<Rightarrow> nat" where
  "cidr_base c = ((net0 c * 256 + net1 c) * 256 + net2 c) * 256 + net3 c"

definition in_cidr :: "ipv4 \<Rightarrow> cidr \<Rightarrow> bool" where
  "in_cidr ip c \<longleftrightarrow> v4_number ip div 2 ^ (32 - plen c) = cidr_base c div 2 ^ (32 - plen c)"

definition blocked_v4_blocks :: "cidr list" where
  "blocked_v4_blocks =
     [\<lparr>net0 = 127, net1 = 0, net2 = 0, net3 = 0, plen = 8\<rparr>,
      \<lparr>net0 = 169, net1 = 254, net2 = 0, net3 = 0, plen = 16\<rparr>,
      \<lparr>net0 = 10, net1 = 0, net2 = 0, net3 = 0, plen = 8\<rparr>,
      \<lparr>net0 = 172, net1 = 16, net2 = 0, net3 = 0, plen = 12\<rparr>,
      \<lparr>net0 = 192, net1 = 168, net2 = 0, net3 = 0, plen = 16\<rparr>,
      \<lparr>net0 = 0, net1 = 0, net2 = 0, net3 = 0, plen = 32\<rparr>,
      \<lparr>net0 = 224, net1 = 0, net2 = 0, net3 = 0, plen = 4\<rparr>,
      \<lparr>net0 = 240, net1 = 0, net2 = 0, net3 = 0, plen = 4\<rparr>,
      \<lparr>net0 = 192, net1 = 0, net2 = 2, net3 = 0, plen = 24\<rparr>,
      \<lparr>net0 = 198, net1 = 51, net2 = 100, net3 = 0, plen = 24\<rparr>,
      \<lparr>net0 = 203, net1 = 0, net2 = 113, net3 = 0, plen = 24\<rparr>,
      \<lparr>net0 = 100, net1 = 64, net2 = 0, net3 = 0, plen = 10\<rparr>,
      \<lparr>net0 = 192, net1 = 0, net2 = 0, net3 = 0, plen = 24\<rparr>,
      \<lparr>net0 = 198, net1 = 18, net2 = 0, net3 = 0, plen = 15\<rparr>]"

lemma unat8_lt: "unat (x :: 8 word) < 256"
proof -
  have "unat x < 2 ^ LENGTH(8)" by (rule unsigned_less)
  then show ?thesis by simp
qed

lemma high_bits_eq_iff:
  fixes x c :: "'a::len word"
  assumes "c AND NOT (mask n) = c"
  shows "(x AND NOT (mask n)) = c \<longleftrightarrow> unat x div 2 ^ n = unat c div 2 ^ n"
proof -
  have "(x AND NOT (mask n)) = c \<longleftrightarrow> (x AND NOT (mask n)) = (c AND NOT (mask n))"
    using assms by simp
  also have "\<dots> \<longleftrightarrow> drop_bit n x = drop_bit n c"
  proof
    assume eq: "(x AND NOT (mask n)) = (c AND NOT (mask n))"
    show "drop_bit n x = drop_bit n c"
    proof (rule bit_eqI)
      fix k assume "possible_bit TYPE('a word) k"
      have "bit (x AND NOT (mask n)) (n + k) = bit (c AND NOT (mask n)) (n + k)" using eq by simp
      then show "bit (drop_bit n x) k = bit (drop_bit n c) k"
        by (auto simp: bit_simps dest: bit_imp_le_length)
    qed
  next
    assume eq: "drop_bit n x = drop_bit n c"
    show "(x AND NOT (mask n)) = (c AND NOT (mask n))"
    proof (rule bit_eqI)
      fix k assume "possible_bit TYPE('a word) k"
      have "bit (drop_bit n x) (k - n) = bit (drop_bit n c) (k - n)" using eq by simp
      then show "bit (x AND NOT (mask n)) k = bit (c AND NOT (mask n)) k"
        by (auto simp: bit_simps not_less)
    qed
  qed
  also have "\<dots> \<longleftrightarrow> unat (drop_bit n x) = unat (drop_bit n c)"
    by (rule word_unat_eq_iff)
  also have "\<dots> \<longleftrightarrow> unat x div 2 ^ n = unat c div 2 ^ n"
    by (simp only: unat_drop_bit_eq) (simp only: drop_bit_eq_div)
  finally show ?thesis .
qed

lemma cgnat_octet: "(x :: 8 word) AND 0b11000000 = 0b01000000 \<longleftrightarrow> 64 \<le> unat x \<and> unat x \<le> 127"
proof -
  have "(0b11000000 :: 8 word) = NOT (mask 6)" by (simp add: mask_eq_exp_minus_1)
  moreover have "(x AND NOT (mask 6)) = 0b01000000 \<longleftrightarrow> unat x div 2 ^ 6 = unat (0b01000000 :: 8 word) div 2 ^ 6"
    by (rule high_bits_eq_iff) (simp add: mask_eq_exp_minus_1)
  ultimately show ?thesis by auto
qed

lemma v6_link_local_segment: "(x :: 16 word) AND 0xffc0 = 0xfe80 \<longleftrightarrow> 0xfe80 \<le> unat x \<and> unat x \<le> 0xfebf"
proof -
  have "(0xffc0 :: 16 word) = NOT (mask 6)" by (simp add: mask_eq_exp_minus_1)
  moreover have "(x AND NOT (mask 6)) = 0xfe80 \<longleftrightarrow> unat x div 2 ^ 6 = unat (0xfe80 :: 16 word) div 2 ^ 6"
    by (rule high_bits_eq_iff) (simp add: mask_eq_exp_minus_1)
  ultimately show ?thesis by auto
qed

lemma v6_unique_local_segment: "(x :: 16 word) AND 0xfe00 = 0xfc00 \<longleftrightarrow> 0xfc00 \<le> unat x \<and> unat x \<le> 0xfdff"
proof -
  have "(0xfe00 :: 16 word) = NOT (mask 9)" by (simp add: mask_eq_exp_minus_1)
  moreover have "(x AND NOT (mask 9)) = 0xfc00 \<longleftrightarrow> unat x div 2 ^ 9 = unat (0xfc00 :: 16 word) div 2 ^ 9"
    by (rule high_bits_eq_iff) (simp add: mask_eq_exp_minus_1)
  ultimately show ?thesis by auto
qed

text \<open>Octet tests read as numbers: what turns the tests of the code into linear facts.\<close>

lemma octet_eq: "(x :: 8 word) = numeral k \<longleftrightarrow> unat x = unat (numeral k :: 8 word)"
  by (rule word_unat_eq_iff)

lemma octet_zero: "(x :: 8 word) = 0 \<longleftrightarrow> unat x = 0"
  by (rule unsigned_eq_0_iff [symmetric])

lemma octet_le: "numeral k \<le> (x :: 8 word) \<longleftrightarrow> unat (numeral k :: 8 word) \<le> unat x"
  by (rule word_le_nat_alt)

lemma octet_ge: "(x :: 8 word) \<le> numeral k \<longleftrightarrow> unat x \<le> unat (numeral k :: 8 word)"
  by (rule word_le_nat_alt)

lemmas octet_simps = octet_eq octet_zero octet_le octet_ge

lemma v4_number_div:
  fixes ip
  defines "a \<equiv> unat (oct0 ip)" and "b \<equiv> unat (oct1 ip)" and "c \<equiv> unat (oct2 ip)"
  shows v4_div24: "v4_number ip div 256 = (a * 256 + b) * 256 + c"
    and v4_div16: "v4_number ip div 65536 = a * 256 + b"
    and v4_div8: "v4_number ip div 16777216 = a"
    and v4_div4: "v4_number ip div 268435456 = a div 16"
    and v4_div12: "v4_number ip div 1048576 = a * 16 + b div 16"
    and v4_div10: "v4_number ip div 4194304 = a * 4 + b div 64"
    and v4_div15: "v4_number ip div 131072 = a * 128 + b div 2"
proof -
  have lt: "b < 256" "c < 256" "unat (oct3 ip) < 256" by (simp_all only: a_def b_def c_def unat8_lt)
  have dd: "v4_number ip div (m * n) = v4_number ip div m div n" for m n by (rule div_mult2_eq)
  show 1: "v4_number ip div 256 = (a * 256 + b) * 256 + c"
    using lt by (simp add: v4_number_def a_def b_def c_def)
  show 2: "v4_number ip div 65536 = a * 256 + b" using dd [of 256 256] lt 1 by simp
  show 3: "v4_number ip div 16777216 = a" using dd [of 65536 256] lt 2 by simp
  show "v4_number ip div 268435456 = a div 16" using dd [of 16777216 16] 3 by simp
  show "v4_number ip div 1048576 = a * 16 + b div 16" using dd [of 65536 16] 2 by simp
  show "v4_number ip div 4194304 = a * 4 + b div 64" using dd [of 65536 64] 2 by simp
  show "v4_number ip div 131072 = a * 128 + b div 2" using dd [of 65536 2] 2 by simp
qed

lemmas v4_divs = v4_div24 v4_div16 v4_div8 v4_div4 v4_div12 v4_div10 v4_div15

lemma octets_bounds:
  "unat (oct0 ip) < 256" "unat (oct1 ip) < 256" "unat (oct2 ip) < 256" "unat (oct3 ip) < 256"
  by (rule unat8_lt)+

lemma digits_eq:
  fixes a b a' b' m :: nat
  assumes "b < m" "b' < m"
  shows "a * m + b = a' * m + b' \<longleftrightarrow> a = a' \<and> b = b'"
proof
  assume eq: "a * m + b = a' * m + b'"
  have "(a * m + b) div m = a" "(a' * m + b') div m = a'" using assms by simp_all
  then have "a = a'" using eq by simp
  then show "a = a' \<and> b = b'" using eq by simp
qed simp

lemma in_cidr_loopback: "in_cidr ip \<lparr>net0 = 127, net1 = 0, net2 = 0, net3 = 0, plen = 8\<rparr> \<longleftrightarrow> v4_is_loopback ip"
  by (simp add: in_cidr_def cidr_base_def v4_divs v4_is_loopback_def octet_simps)

lemma in_cidr_link_local: "in_cidr ip \<lparr>net0 = 169, net1 = 254, net2 = 0, net3 = 0, plen = 16\<rparr> \<longleftrightarrow> v4_is_link_local ip"
  using digits_eq [of "unat (oct1 ip)" 256 254 "unat (oct0 ip)" 169] octets_bounds [of ip]
  by (simp add: in_cidr_def cidr_base_def v4_divs v4_is_link_local_def octet_simps)

lemma in_cidr_private:
  "in_cidr ip \<lparr>net0 = 10, net1 = 0, net2 = 0, net3 = 0, plen = 8\<rparr>
   \<or> in_cidr ip \<lparr>net0 = 172, net1 = 16, net2 = 0, net3 = 0, plen = 12\<rparr>
   \<or> in_cidr ip \<lparr>net0 = 192, net1 = 168, net2 = 0, net3 = 0, plen = 16\<rparr> \<longleftrightarrow> v4_is_private ip"
proof -
  have "in_cidr ip \<lparr>net0 = 172, net1 = 16, net2 = 0, net3 = 0, plen = 12\<rparr> \<longleftrightarrow>
      oct0 ip = 172 \<and> 16 \<le> oct1 ip \<and> oct1 ip \<le> 31"
    using digits_eq [of "unat (oct1 ip) div 16" 16 1 "unat (oct0 ip)" 172] octets_bounds [of ip]
    by (simp add: in_cidr_def cidr_base_def v4_divs octet_simps less_mult_imp_div_less) linarith
  moreover have "in_cidr ip \<lparr>net0 = 192, net1 = 168, net2 = 0, net3 = 0, plen = 16\<rparr> \<longleftrightarrow>
      oct0 ip = 192 \<and> oct1 ip = 168"
    using digits_eq [of "unat (oct1 ip)" 256 168 "unat (oct0 ip)" 192] octets_bounds [of ip]
    by (simp add: in_cidr_def cidr_base_def v4_divs octet_simps)
  moreover have "in_cidr ip \<lparr>net0 = 10, net1 = 0, net2 = 0, net3 = 0, plen = 8\<rparr> \<longleftrightarrow> oct0 ip = 10"
    by (simp add: in_cidr_def cidr_base_def v4_divs octet_simps)
  ultimately show ?thesis by (simp add: v4_is_private_def)
qed

lemma in_cidr_unspecified:
  "in_cidr ip \<lparr>net0 = 0, net1 = 0, net2 = 0, net3 = 0, plen = 32\<rparr> \<longleftrightarrow> v4_is_unspecified ip"
  by (auto simp: in_cidr_def cidr_base_def v4_number_def v4_is_unspecified_def octet_simps)

lemma in_cidr_multicast:
  "in_cidr ip \<lparr>net0 = 224, net1 = 0, net2 = 0, net3 = 0, plen = 4\<rparr> \<longleftrightarrow> v4_is_multicast ip"
  using octets_bounds [of ip]
  by (simp add: in_cidr_def cidr_base_def v4_divs v4_is_multicast_def octet_simps) arith

lemma in_cidr_reserved:
  "in_cidr ip \<lparr>net0 = 240, net1 = 0, net2 = 0, net3 = 0, plen = 4\<rparr> \<longleftrightarrow> 240 \<le> oct0 ip"
  using octets_bounds [of ip]
  by (simp add: in_cidr_def cidr_base_def v4_divs octet_simps) arith

lemma in_cidr_24:
  assumes "a < 256" "b < 256" "c < 256"
  shows "in_cidr ip \<lparr>net0 = a, net1 = b, net2 = c, net3 = 0, plen = 24\<rparr> \<longleftrightarrow>
     unat (oct0 ip) = a \<and> unat (oct1 ip) = b \<and> unat (oct2 ip) = c"
proof -
  have "((a * 256 + b) * 256 + c) * 256 div 256 = (a * 256 + b) * 256 + c" by simp
  then have "in_cidr ip \<lparr>net0 = a, net1 = b, net2 = c, net3 = 0, plen = 24\<rparr> \<longleftrightarrow>
      (unat (oct0 ip) * 256 + unat (oct1 ip)) * 256 + unat (oct2 ip) = (a * 256 + b) * 256 + c"
    by (simp add: in_cidr_def cidr_base_def v4_div24 algebra_simps)
  then show ?thesis using assms octets_bounds [of ip] by (simp only: digits_eq) blast
qed

lemma in_cidr_documentation:
  "in_cidr ip \<lparr>net0 = 192, net1 = 0, net2 = 2, net3 = 0, plen = 24\<rparr>
   \<or> in_cidr ip \<lparr>net0 = 198, net1 = 51, net2 = 100, net3 = 0, plen = 24\<rparr>
   \<or> in_cidr ip \<lparr>net0 = 203, net1 = 0, net2 = 113, net3 = 0, plen = 24\<rparr> \<longleftrightarrow> v4_is_documentation ip"
  by (simp add: in_cidr_24 v4_is_documentation_def octet_simps)

lemma in_cidr_protocol:
  "in_cidr ip \<lparr>net0 = 192, net1 = 0, net2 = 0, net3 = 0, plen = 24\<rparr> \<longleftrightarrow> oct0 ip = 192 \<and> oct1 ip = 0 \<and> oct2 ip = 0"
  by (simp add: in_cidr_24 octet_simps)

lemma in_cidr_cgnat:
  "in_cidr ip \<lparr>net0 = 100, net1 = 64, net2 = 0, net3 = 0, plen = 10\<rparr> \<longleftrightarrow>
     oct0 ip = 100 \<and> (oct1 ip AND 0b11000000) = 0b01000000"
  unfolding cgnat_octet
  using digits_eq [of "unat (oct1 ip) div 64" 4 1 "unat (oct0 ip)" 100] octets_bounds [of ip]
  by (simp add: in_cidr_def cidr_base_def v4_divs octet_simps less_mult_imp_div_less) linarith

lemma in_cidr_benchmark:
  "in_cidr ip \<lparr>net0 = 198, net1 = 18, net2 = 0, net3 = 0, plen = 15\<rparr> \<longleftrightarrow>
     oct0 ip = 198 \<and> (oct1 ip = 18 \<or> oct1 ip = 19)"
  using digits_eq [of "unat (oct1 ip) div 2" 128 9 "unat (oct0 ip)" 198] octets_bounds [of ip]
  by (simp add: in_cidr_def cidr_base_def v4_divs octet_simps less_mult_imp_div_less) linarith

lemma broadcast_reserved: "v4_is_broadcast ip \<Longrightarrow> 240 \<le> oct0 ip"
  by (simp add: v4_is_broadcast_def)

lemma is_blocked_ipv4_blocks:
  "is_blocked_ipv4 ip \<longleftrightarrow> list_ex (in_cidr ip) blocked_v4_blocks"
proof -
  have "is_blocked_ipv4 ip \<longleftrightarrow>
     v4_is_loopback ip \<or> v4_is_link_local ip \<or> v4_is_private ip \<or> v4_is_unspecified ip
     \<or> v4_is_multicast ip \<or> v4_is_documentation ip
     \<or> (oct0 ip = 100 \<and> (oct1 ip AND 0b11000000) = 0b01000000)
     \<or> (oct0 ip = 192 \<and> oct1 ip = 0 \<and> oct2 ip = 0)
     \<or> (oct0 ip = 198 \<and> (oct1 ip = 18 \<or> oct1 ip = 19)) \<or> 240 \<le> oct0 ip"
    using broadcast_reserved [of ip] unfolding is_blocked_ipv4_def by argo
  then show ?thesis
    unfolding in_cidr_loopback [symmetric] in_cidr_link_local [symmetric] in_cidr_private [symmetric]
      in_cidr_unspecified [symmetric] in_cidr_multicast [symmetric] in_cidr_documentation [symmetric]
      in_cidr_cgnat [symmetric] in_cidr_protocol [symmetric] in_cidr_benchmark [symmetric]
      in_cidr_reserved [symmetric] blocked_v4_blocks_def list_ex_Nil_iff list_ex_Cons_iff
    by argo
qed

text \<open>The IPv4 filter is exactly its list of address blocks. Whatever the code tests octet by
  octet, with comparisons and bit masks, an address is refused if and only if it lies in one of the
  fourteen special-purpose blocks (loopback, link-local, the three private ranges, unspecified,
  multicast, reserved with broadcast, the documentation ranges, carrier-grade NAT, protocol
  assignments, benchmarking): no address of a listed block passes, and no address outside them is
  refused.\<close>

theorem is_blocked_ipv4_iff_block:
  "is_blocked_ipv4 ip \<longleftrightarrow> list_ex (in_cidr ip) blocked_v4_blocks"
  by (rule is_blocked_ipv4_blocks)

section \<open>Resolving a delivery target\<close>

text \<open>An IPv6 address that maps an IPv4 one is judged as that IPv4 address.\<close>

lemma is_blocked_mapped:
  "to_ipv4_mapped ip = Some v4 \<Longrightarrow> is_blocked_ipv6 ip \<longleftrightarrow> is_blocked_ipv4 v4"
  by (auto simp: to_ipv4_mapped_def is_blocked_ipv6_def v6_is_loopback_def v6_is_unspecified_def
      v6_is_multicast_def split: if_splits)

datatype ssrf_error = UnsupportedScheme | NoHost | ResolutionFailed | SsrfBlocked

text \<open>What the URL parser hands over (the parser and the resolver are outside the repository and are
  parameters below).\<close>

record parsed_url =
  url_scheme :: string
  url_host :: "string option"
  url_port :: "nat option"

type_synonym socket_addr = "ip_addr \<times> nat"

definition resolve_and_check ::
  "(string \<Rightarrow> parsed_url option) \<Rightarrow> (string \<times> nat \<Rightarrow> socket_addr list option) \<Rightarrow> string
     \<Rightarrow> ssrf_error + (string \<times> socket_addr)" where
  "resolve_and_check parse lookup url =
     (case parse url of
        None \<Rightarrow> Inl NoHost
      | Some parsed \<Rightarrow>
          if url_scheme parsed \<noteq> ''http'' \<and> url_scheme parsed \<noteq> ''https'' then Inl UnsupportedScheme
          else (case url_host parsed of
            None \<Rightarrow> Inl NoHost
          | Some host \<Rightarrow>
              (case url_port parsed of
                 None \<Rightarrow> Inl UnsupportedScheme
               | Some port \<Rightarrow>
                   (case lookup (host, port) of
                      None \<Rightarrow> Inl ResolutionFailed
                    | Some addrs \<Rightarrow>
                        (case addrs of
                           [] \<Rightarrow> Inl ResolutionFailed
                         | first # _ \<Rightarrow>
                             if list_ex (\<lambda>addr. is_blocked_ip (fst addr)) addrs then Inl SsrfBlocked
                             else Inr (host, first))))))"

text \<open>The IPv4 address a connection to the address reaches, where there is one.\<close>

fun embedded_v4 :: "ip_addr \<Rightarrow> ipv4 option" where
  "embedded_v4 (V4 v4) = Some v4"
| "embedded_v4 (V6 v6) = to_ipv4_mapped v6"

lemma not_blocked_embedded:
  "\<not> is_blocked_ip ip \<Longrightarrow> embedded_v4 ip = Some v4 \<Longrightarrow> \<not> list_ex (in_cidr v4) blocked_v4_blocks"
  by (cases ip) (auto simp: is_blocked_mapped simp flip: is_blocked_ipv4_blocks)

text \<open>The address a webhook delivery is pinned to is one the resolver returned and is not refused,
  nor is any other address of the same resolution: when the check hands out an address, none of the
  addresses the name resolved to, read as IPv4 where it is one or maps one, lies in a
  special-purpose block, and the scheme is http or https.\<close>

theorem resolve_and_check_pins_public:
  assumes "resolve_and_check parse lookup url = Inr (host, addr)"
  shows "\<exists>parsed port addrs.
     parse url = Some parsed \<and> url_scheme parsed \<in> {''http'', ''https''} \<and> url_host parsed = Some host
     \<and> lookup (host, port) = Some addrs \<and> addr \<in> set addrs
     \<and> (\<forall>a\<in>set addrs. \<not> is_blocked_ip (fst a)
          \<and> (\<forall>v4. embedded_v4 (fst a) = Some v4 \<longrightarrow> \<not> list_ex (in_cidr v4) blocked_v4_blocks))"
proof -
  obtain parsed port rest where r:
    "parse url = Some parsed" "url_scheme parsed \<in> {''http'', ''https''}" "url_host parsed = Some host"
    "lookup (host, port) = Some (addr # rest)"
    "\<not> list_ex (\<lambda>addr. is_blocked_ip (fst addr)) (addr # rest)"
    using assms by (auto simp: resolve_and_check_def split: option.splits list.splits if_splits)
  have nb: "\<not> is_blocked_ip (fst a)" if "a \<in> set (addr # rest)" for a
    using r(5) that by (auto simp: list_ex_iff)
  then show ?thesis using r(1-4) not_blocked_embedded [OF nb] by (metis list.set_intros(1))
qed

theorem resolve_and_check_pins_public_witness:
  "\<exists>parsed port addrs.
     Some \<lparr>url_scheme = ''https'', url_host = Some ''example.org'', url_port = Some 443\<rparr> = Some parsed
     \<and> url_scheme parsed \<in> {''http'', ''https''} \<and> url_host parsed = Some ''example.org''
     \<and> Some [(V4 \<lparr>oct0 = 93, oct1 = 184, oct2 = 216, oct3 = 34\<rparr>, 443::nat)] = Some addrs
     \<and> (V4 \<lparr>oct0 = 93, oct1 = 184, oct2 = 216, oct3 = 34\<rparr>, 443) \<in> set addrs
     \<and> (\<forall>a\<in>set addrs. \<not> is_blocked_ip (fst a)
          \<and> (\<forall>v4. embedded_v4 (fst a) = Some v4 \<longrightarrow> \<not> list_ex (in_cidr v4) blocked_v4_blocks))"
  using resolve_and_check_pins_public
    [of "\<lambda>_. Some \<lparr>url_scheme = ''https'', url_host = Some ''example.org'', url_port = Some 443\<rparr>"
        "\<lambda>_. Some [(V4 \<lparr>oct0 = 93, oct1 = 184, oct2 = 216, oct3 = 34\<rparr>, 443)]" "''u''" "''example.org''"
        "(V4 \<lparr>oct0 = 93, oct1 = 184, oct2 = 216, oct3 = 34\<rparr>, 443)"]
  by (simp add: resolve_and_check_def is_blocked_ipv4_def v4_is_loopback_def v4_is_link_local_def
      v4_is_private_def v4_is_unspecified_def v4_is_multicast_def v4_is_broadcast_def
      v4_is_documentation_def)

end
