(* ===== verification/Events.thy ===== *)
theory Events
  imports Issues Webhooks
begin

text \<open>
  Domain events and background jobs as data (\<^verbatim>\<open>edda-domain/src/event.rs\<close>, \<^verbatim>\<open>job.rs\<close>): the closed
  set of things that happen, the row each is stored as (kind, aggregate type and aggregate
  id), and the payloads, kinds, statuses and records of the job queue. The argument order of
  each constructor is the field order of the source.
\<close>

section \<open>Domain events\<close>

datatype mention_source = MentionInPullRequest uuid | MentionInIssue uuid

datatype domain_event =
    EvPullRequestMerged uuid uuid
  | EvUserMentioned uuid uuid mention_source
  | EvBranchPushed uuid string string string "uuid option"
  | EvIssueAssigned uuid uuid uuid uuid
  | EvReviewRequested uuid uuid uuid uuid
  | EvIssueClosed uuid uuid uuid "uuid option"
  | EvIssueOpened uuid uuid uuid
  | EvIssueCommented uuid uuid uuid
  | EvPullRequestOpened uuid uuid uuid
  | EvPullRequestClosed uuid uuid uuid
  | EvPullRequestReopened uuid uuid uuid
  | EvPullRequestReviewSubmitted uuid uuid uuid review_state
  | EvReleasePublished uuid uuid uuid

datatype domain_event_kind =
    KPullRequestMerged
  | KUserMentioned
  | KBranchPushed
  | KIssueAssigned
  | KReviewRequested
  | KIssueClosed
  | KIssueOpened
  | KIssueCommented
  | KPullRequestOpened
  | KPullRequestClosed
  | KPullRequestReopened
  | KPullRequestReviewSubmitted
  | KReleasePublished

fun event_kind_as_db_str :: "domain_event_kind \<Rightarrow> string" where
  "event_kind_as_db_str KPullRequestMerged = ''pull_request_merged''"
| "event_kind_as_db_str KUserMentioned = ''user_mentioned''"
| "event_kind_as_db_str KBranchPushed = ''branch_pushed''"
| "event_kind_as_db_str KIssueAssigned = ''issue_assigned''"
| "event_kind_as_db_str KReviewRequested = ''review_requested''"
| "event_kind_as_db_str KIssueClosed = ''issue_closed''"
| "event_kind_as_db_str KIssueOpened = ''issue_opened''"
| "event_kind_as_db_str KIssueCommented = ''issue_commented''"
| "event_kind_as_db_str KPullRequestOpened = ''pull_request_opened''"
| "event_kind_as_db_str KPullRequestClosed = ''pull_request_closed''"
| "event_kind_as_db_str KPullRequestReopened = ''pull_request_reopened''"
| "event_kind_as_db_str KPullRequestReviewSubmitted = ''pull_request_review_submitted''"
| "event_kind_as_db_str KReleasePublished = ''release_published''"

definition event_kind_from_db_str :: "string \<Rightarrow> domain_event_kind option" where
  [codec_simps]: "event_kind_from_db_str s =
     (if s = ''pull_request_merged'' then Some KPullRequestMerged
      else if s = ''user_mentioned'' then Some KUserMentioned
      else if s = ''branch_pushed'' then Some KBranchPushed
      else if s = ''issue_assigned'' then Some KIssueAssigned
      else if s = ''review_requested'' then Some KReviewRequested
      else if s = ''issue_closed'' then Some KIssueClosed
      else if s = ''issue_opened'' then Some KIssueOpened
      else if s = ''issue_commented'' then Some KIssueCommented
      else if s = ''pull_request_opened'' then Some KPullRequestOpened
      else if s = ''pull_request_closed'' then Some KPullRequestClosed
      else if s = ''pull_request_reopened'' then Some KPullRequestReopened
      else if s = ''pull_request_review_submitted'' then Some KPullRequestReviewSubmitted
      else if s = ''release_published'' then Some KReleasePublished else None)"

interpretation event_kind_codec: db_codec event_kind_as_db_str event_kind_from_db_str
proof
  fix x show "event_kind_from_db_str (event_kind_as_db_str x) = Some x"
    by (cases x) (simp_all add: codec_simps)
next
  fix s x assume "event_kind_from_db_str s = Some x"
  then show "event_kind_as_db_str x = s" by (auto simp: codec_simps split: if_splits)
qed

fun event_kind :: "domain_event \<Rightarrow> domain_event_kind" where
  "event_kind (EvPullRequestMerged _ _) = KPullRequestMerged"
| "event_kind (EvUserMentioned _ _ _) = KUserMentioned"
| "event_kind (EvBranchPushed _ _ _ _ _) = KBranchPushed"
| "event_kind (EvIssueAssigned _ _ _ _) = KIssueAssigned"
| "event_kind (EvReviewRequested _ _ _ _) = KReviewRequested"
| "event_kind (EvIssueClosed _ _ _ _) = KIssueClosed"
| "event_kind (EvIssueOpened _ _ _) = KIssueOpened"
| "event_kind (EvIssueCommented _ _ _) = KIssueCommented"
| "event_kind (EvPullRequestOpened _ _ _) = KPullRequestOpened"
| "event_kind (EvPullRequestClosed _ _ _) = KPullRequestClosed"
| "event_kind (EvPullRequestReopened _ _ _) = KPullRequestReopened"
| "event_kind (EvPullRequestReviewSubmitted _ _ _ _) = KPullRequestReviewSubmitted"
| "event_kind (EvReleasePublished _ _ _) = KReleasePublished"

fun event_aggregate_type :: "domain_event \<Rightarrow> string" where
  "event_aggregate_type (EvPullRequestMerged _ _) = ''pull_request''"
| "event_aggregate_type (EvUserMentioned _ _ (MentionInPullRequest _)) = ''pull_request''"
| "event_aggregate_type (EvUserMentioned _ _ (MentionInIssue _)) = ''issue''"
| "event_aggregate_type (EvBranchPushed _ _ _ _ _) = ''repository''"
| "event_aggregate_type (EvIssueAssigned _ _ _ _) = ''issue''"
| "event_aggregate_type (EvReviewRequested _ _ _ _) = ''pull_request''"
| "event_aggregate_type (EvIssueClosed _ _ _ _) = ''issue''"
| "event_aggregate_type (EvIssueOpened _ _ _) = ''issue''"
| "event_aggregate_type (EvIssueCommented _ _ _) = ''issue''"
| "event_aggregate_type (EvPullRequestOpened _ _ _) = ''pull_request''"
| "event_aggregate_type (EvPullRequestClosed _ _ _) = ''pull_request''"
| "event_aggregate_type (EvPullRequestReopened _ _ _) = ''pull_request''"
| "event_aggregate_type (EvPullRequestReviewSubmitted _ _ _ _) = ''pull_request''"
| "event_aggregate_type (EvReleasePublished _ _ _) = ''release''"

fun event_aggregate_id :: "domain_event \<Rightarrow> uuid" where
  "event_aggregate_id (EvPullRequestMerged i _) = i"
| "event_aggregate_id (EvUserMentioned _ _ (MentionInPullRequest i)) = i"
| "event_aggregate_id (EvUserMentioned _ _ (MentionInIssue i)) = i"
| "event_aggregate_id (EvBranchPushed i _ _ _ _) = i"
| "event_aggregate_id (EvIssueAssigned i _ _ _) = i"
| "event_aggregate_id (EvReviewRequested i _ _ _) = i"
| "event_aggregate_id (EvIssueClosed i _ _ _) = i"
| "event_aggregate_id (EvIssueOpened i _ _) = i"
| "event_aggregate_id (EvIssueCommented i _ _) = i"
| "event_aggregate_id (EvPullRequestOpened i _ _) = i"
| "event_aggregate_id (EvPullRequestClosed i _ _) = i"
| "event_aggregate_id (EvPullRequestReopened i _ _) = i"
| "event_aggregate_id (EvPullRequestReviewSubmitted i _ _ _) = i"
| "event_aggregate_id (EvReleasePublished i _ _) = i"

section \<open>Jobs\<close>

datatype job_payload =
    DeliverWebhook uuid webhook_event string
  | CreateNotification uuid notification_kind notification_subject
  | SendEmail string string string
  | UpdateRepoSize uuid
  | SyncReviewRequests uuid
  | RunMaintenance string
  | RunRepoGc uuid

datatype job_kind =
    JkDeliverWebhook | JkCreateNotification | JkSendEmail | JkUpdateRepoSize | JkSyncReviewRequests
  | JkRunMaintenance | JkRunRepoGc

fun payload_kind :: "job_payload \<Rightarrow> job_kind" where
  "payload_kind (DeliverWebhook _ _ _) = JkDeliverWebhook"
| "payload_kind (CreateNotification _ _ _) = JkCreateNotification"
| "payload_kind (SendEmail _ _ _) = JkSendEmail"
| "payload_kind (UpdateRepoSize _) = JkUpdateRepoSize"
| "payload_kind (SyncReviewRequests _) = JkSyncReviewRequests"
| "payload_kind (RunMaintenance _) = JkRunMaintenance"
| "payload_kind (RunRepoGc _) = JkRunRepoGc"

datatype job_status = JPending | JRunning | JSucceeded | JFailed

fun job_status_as_db_str :: "job_status \<Rightarrow> string" where
  "job_status_as_db_str JPending = ''pending''"
| "job_status_as_db_str JRunning = ''running''"
| "job_status_as_db_str JSucceeded = ''succeeded''"
| "job_status_as_db_str JFailed = ''failed''"

definition job_status_from_db_str :: "string \<Rightarrow> job_status option" where
  [codec_simps]: "job_status_from_db_str s =
     (if s = ''pending'' then Some JPending
      else if s = ''running'' then Some JRunning
      else if s = ''succeeded'' then Some JSucceeded
      else if s = ''failed'' then Some JFailed else None)"

interpretation job_status_codec: db_codec job_status_as_db_str job_status_from_db_str
proof
  fix x show "job_status_from_db_str (job_status_as_db_str x) = Some x"
    by (cases x) (simp_all add: codec_simps)
next
  fix s x assume "job_status_from_db_str s = Some x"
  then show "job_status_as_db_str x = s" by (auto simp: codec_simps split: if_splits)
qed

text \<open>\<^verbatim>\<open>attempts\<close> and \<^verbatim>\<open>max_attempts\<close> are \<^verbatim>\<open>u32\<close> in the record.\<close>

record job_record =
  job_id :: uuid
  job_payload :: job_payload
  job_status :: job_status
  job_attempts :: "32 word"
  job_max_attempts :: "32 word"
  job_run_at :: int
  job_last_error :: "string option"
  job_created_at :: int

end
