(* ===== verification/Database.thy ===== *)
theory Database
  imports Access_Control Events
begin

text \<open>
  The relational state and the way the services run against it (\<^verbatim>\<open>edda-db/src/conn.rs\<close>,
  \<^verbatim>\<open>error.rs\<close>, \<^verbatim>\<open>repo_number_repo.rs\<close>, and what every \<^verbatim>\<open>*_repo.rs\<close> shares). A table is the list
  of its rows in insertion order; the engine itself is not part of the repository, so an
  \<^verbatim>\<open>UPDATE ... WHERE\<close> is a map, a \<^verbatim>\<open>DELETE\<close> a filter, an \<^verbatim>\<open>ORDER BY\<close> a stable sort.

  A service method is an action on the \<^verbatim>\<open>world\<close>: the tables, the clock, the next fresh id, and a
  script of statement failures that the action consumes one entry per statement. A lemma about an
  action therefore speaks about every place at which the database may fail. A transaction that
  fails anywhere, its commit included, leaves the tables as they were; transactions are taken to be
  isolated from each other.
\<close>

section \<open>Tables\<close>

record user =
  user_id :: uuid
  user_username :: string
  user_email :: string
  user_is_admin :: bool
  user_disabled_at :: "int option"
  user_email_notifications :: bool

record organization =
  org_id :: uuid
  org_name :: string
  org_display_name :: "string option"

record review_request =
  rr_id :: uuid
  rr_pull_request_id :: uuid
  rr_reviewer_id :: uuid
  rr_created_at :: int

record event_record =
  event_id :: uuid
  event_payload :: domain_event
  event_occurred_at :: int
  event_processed_at :: "int option"

record scheduled_job =
  sj_name :: string
  sj_interval_seconds :: int
  sj_enabled :: bool
  sj_next_run_at :: int
  sj_last_run_at :: "int option"
  sj_last_status :: "string option"
  sj_last_detail :: "string option"

record assignee =
  asg_issue_id :: uuid
  asg_user_id :: uuid
  asg_assigned_by_id :: "uuid option"
  asg_assigned_at :: int

text \<open>The columns of \<^verbatim>\<open>users\<close> that only signing in looks at, and the tables of credentials.\<close>

record account =
  acct_user_id :: uuid
  acct_password_hash :: string
  acct_approved_at :: "int option"
  acct_email_verified_at :: "int option"

record link_token =
  lt_id :: uuid
  lt_user_id :: uuid
  lt_token_hash :: string
  lt_expires_at :: int
  lt_used_at :: "int option"

record login_attempt =
  la_key :: string
  la_failure_count :: int
  la_first_failed_at :: int
  la_last_failed_at :: int
  la_locked_until :: "int option"

record totp_secret =
  ts_user_id :: uuid
  ts_ciphertext :: string
  ts_activated_at :: "int option"

record recovery_code =
  rc_id :: uuid
  rc_user_id :: uuid
  rc_code_hash :: string
  rc_used_at :: "int option"

record passkey_row =
  pk_id :: uuid
  pk_user_id :: uuid
  pk_label :: string
  pk_json :: string
  pk_created_at :: int
  pk_last_used_at :: "int option"

record access_token =
  at_id :: uuid
  at_user_id :: uuid
  at_name :: string
  at_token_hash :: string
  at_repository_scope :: repository_scope
  at_token_scope :: token_scope
  at_created_at :: int
  at_last_used_at :: "int option"

record ssh_key =
  sk_id :: uuid
  sk_user_id :: uuid
  sk_fingerprint :: string
  sk_public_key :: string
  sk_title :: string
  sk_created_at :: int
  sk_last_used_at :: "int option"

record deploy_key =
  dk_id :: uuid
  dk_repository_id :: uuid
  dk_fingerprint :: string
  dk_public_key :: string
  dk_title :: string
  dk_read_only :: bool
  dk_created_at :: int
  dk_last_used_at :: "int option"

record oauth_identity =
  oi_id :: uuid
  oi_user_id :: uuid
  oi_provider :: string
  oi_subject_id :: string
  oi_created_at :: int

text \<open>Large files, webhook deliveries and release assets.\<close>

record lfs_object =
  lo_repository_id :: uuid
  lo_oid :: string
  lo_size_bytes :: int
  lo_storage_key :: string

record lfs_lock =
  ll_id :: uuid
  ll_repository_id :: uuid
  ll_path :: string
  ll_owner_id :: uuid
  ll_created_at :: int

record webhook_delivery =
  wd_id :: uuid
  wd_webhook_id :: uuid
  wd_event :: webhook_event
  wd_payload :: string
  wd_response_status :: "int option"
  wd_attempt_count :: int
  wd_delivered_at :: "int option"
  wd_created_at :: int

record release_asset =
  ra_id :: uuid
  ra_release_id :: uuid
  ra_filename :: string
  ra_size_bytes :: int
  ra_content_type :: string
  ra_storage_key :: string
  ra_created_at :: int

text \<open>A \<^verbatim>\<open>serde_json::Value\<close> (\<^verbatim>\<open>JId\<close> for the text of an id); rendering it to text is the
  library's.\<close>

datatype json = JNum int | JStr string | JBool bool | JId uuid | JObj "(string \<times> json) list"

record audit_event =
  audit_event_type :: string
  audit_actor_id :: "uuid option"
  audit_target :: "(string \<times> uuid) option"
  audit_detail :: "json option"

record db =
  t_users :: "user list"
  t_organizations :: "organization list"
  t_repositories :: "repository list"
  t_repo_access :: "repo_access list"
  t_teams :: "team list"
  t_team_members :: "(uuid \<times> uuid) list"
  t_unit_permissions :: "(uuid \<times> team_unit \<times> team_permission) list"
  t_rules :: "branch_protection_rule list"
  t_allowlist :: "(uuid \<times> access_subject) list"
  t_repo_sizes :: "(uuid \<times> repo_size) list"
  t_counters :: "(uuid \<times> int) list"
  t_pull_requests :: "pull_request list"
  t_reviews :: "pr_review list"
  t_review_requests :: "review_request list"
  t_pr_comments :: "pr_comment list"
  t_issues :: "issue list"
  t_issue_comments :: "issue_comment list"
  t_labels :: "label list"
  t_issue_labels :: "(uuid \<times> uuid) list"
  t_assignees :: "assignee list"
  t_milestones :: "milestone list"
  t_statuses :: "commit_status list"
  t_releases :: "release list"
  t_webhooks :: "webhook list"
  t_watches :: "watch list"
  t_notifications :: "notification list"
  t_events :: "event_record list"
  t_jobs :: "job_record list"
  t_scheduled :: "scheduled_job list"
  t_audit :: "audit_event list"
  t_accounts :: "account list"
  t_reset_tokens :: "link_token list"
  t_verification_tokens :: "link_token list"
  t_login_attempts :: "login_attempt list"
  t_totp :: "totp_secret list"
  t_recovery_codes :: "recovery_code list"
  t_passkeys :: "passkey_row list"
  t_access_tokens :: "access_token list"
  t_ssh_keys :: "ssh_key list"
  t_deploy_keys :: "deploy_key list"
  t_oauth_identities :: "oauth_identity list"
  t_lfs_objects :: "lfs_object list"
  t_lfs_locks :: "lfs_lock list"
  t_webhook_secrets :: "(uuid \<times> string) list"
  t_deliveries :: "webhook_delivery list"
  t_release_assets :: "release_asset list"
  t_settings :: "(string \<times> string) list"

definition empty_db :: db where
  "empty_db =
     \<lparr>t_users = [], t_organizations = [], t_repositories = [], t_repo_access = [], t_teams = [],
      t_team_members = [], t_unit_permissions = [], t_rules = [], t_allowlist = [], t_repo_sizes = [], t_counters = [],
      t_pull_requests = [], t_reviews = [], t_review_requests = [], t_pr_comments = [],
      t_issues = [], t_issue_comments = [], t_labels = [], t_issue_labels = [], t_assignees = [],
      t_milestones = [], t_statuses = [], t_releases = [], t_webhooks = [], t_watches = [],
      t_notifications = [], t_events = [], t_jobs = [], t_scheduled = [],
      t_audit = [], t_accounts = [], t_reset_tokens = [], t_verification_tokens = [], t_login_attempts = [],
      t_totp = [], t_recovery_codes = [], t_passkeys = [], t_access_tokens = [], t_ssh_keys = [], t_deploy_keys = [],
      t_oauth_identities = [], t_lfs_objects = [], t_lfs_locks = [], t_webhook_secrets = [], t_deliveries = [],
      t_release_assets = [], t_settings = []\<rparr>"

definition update_where :: "('a \<Rightarrow> bool) \<Rightarrow> ('a \<Rightarrow> 'a) \<Rightarrow> 'a list \<Rightarrow> 'a list" where
  "update_where P f rows = map (\<lambda>r. if P r then f r else r) rows"

definition rows_affected :: "('a \<Rightarrow> bool) \<Rightarrow> 'a list \<Rightarrow> nat" where
  "rows_affected P rows = length (filter P rows)"

definition delete_where :: "('a \<Rightarrow> bool) \<Rightarrow> 'a list \<Rightarrow> 'a list" where
  "delete_where P rows = filter (\<lambda>r. \<not> P r) rows"

lemma length_update_where [simp]: "length (update_where P f rows) = length rows"
  by (simp add: update_where_def)

lemma set_update_where: "x \<in> set (update_where P f rows) \<longleftrightarrow> (\<exists>r\<in>set rows. x = (if P r then f r else r))"
  by (auto simp: update_where_def)

lemma in_update_whereE:
  assumes "x \<in> set (update_where P f rows)"
  obtains r where "r \<in> set rows" "P r" "x = f r" | "x \<in> set rows" "\<not> P x"
  using assms by (auto simp: set_update_where split: if_splits)

lemma in_update_where_keep: "x \<in> set rows \<Longrightarrow> \<not> P x \<Longrightarrow> x \<in> set (update_where P f rows)"
  by (auto simp: set_update_where)

lemma map_update_where:
  "(\<And>r. P r \<Longrightarrow> g (f r) = g r) \<Longrightarrow> map g (update_where P f rows) = map g rows"
  by (simp add: update_where_def)

lemma update_where_none: "(\<And>r. r \<in> set rows \<Longrightarrow> \<not> P r) \<Longrightarrow> update_where P f rows = rows"
  by (auto simp: update_where_def intro: map_idI)

lemma update_where_append [simp]:
  "update_where P f (xs @ ys) = update_where P f xs @ update_where P f ys"
  by (simp add: update_where_def)

lemma rows_affected_0: "rows_affected P rows = 0 \<longleftrightarrow> (\<forall>r\<in>set rows. \<not> P r)"
  by (simp add: rows_affected_def filter_empty_conv)

lemma set_delete_where [simp]: "set (delete_where P rows) = {r \<in> set rows. \<not> P r}"
  by (simp add: delete_where_def)

section \<open>The world and its actions\<close>

datatype db_error = UniqueViolation | ForeignKeyViolation | CheckViolation | RowNotFound | DbOther

text \<open>What the git layer was successfully asked to change, in order (it keeps no tables): importing a
  branch tip into another repository under a ref, merging into a target branch, creating, copying and
  removing a repository's directory, and creating a tag.\<close>

datatype git_call =
    GitImport string string string string
  | GitMerge string string string merge_strategy string string string
  | GitCreate string
  | GitFork string string
  | GitRemove string
  | GitTag string string string

record world =
  tables :: db
  statement_fails :: "bool list"
  clock :: int
  next_uuid :: nat
  git_calls :: "git_call list"

type_synonym ('e, 'a) act = "world \<Rightarrow> ('e + 'a) \<times> world"

definition ok :: "'a \<Rightarrow> ('e, 'a) act" where
  "ok x w = (Inr x, w)"

definition err :: "'e \<Rightarrow> ('e, 'a) act" where
  "err e w = (Inl e, w)"

definition and_then :: "('e, 'a) act \<Rightarrow> ('a \<Rightarrow> ('e, 'b) act) \<Rightarrow> ('e, 'b) act" where
  "and_then m f w = (case m w of (Inl e, w') \<Rightarrow> (Inl e, w') | (Inr x, w') \<Rightarrow> f x w')"

definition map_err :: "('e \<Rightarrow> 'f) \<Rightarrow> ('e, 'a) act \<Rightarrow> ('f, 'a) act" where
  "map_err g m w = (case m w of (Inl e, w') \<Rightarrow> (Inl (g e), w') | (Inr x, w') \<Rightarrow> (Inr x, w'))"

text \<open>A caller that looks at the \<^verbatim>\<open>Result\<close> itself instead of returning early with \<^verbatim>\<open>?\<close>.\<close>

definition outcome :: "('e, 'a) act \<Rightarrow> ('f, 'e + 'a) act" where
  "outcome m w = (case m w of (r, w') \<Rightarrow> (Inr r, w'))"

definition or_err :: "'e \<Rightarrow> 'a option \<Rightarrow> ('e, 'a) act" where
  "or_err e x = (case x of None \<Rightarrow> err e | Some y \<Rightarrow> ok y)"

definition ensure :: "bool \<Rightarrow> 'e \<Rightarrow> ('e, unit) act" where
  "ensure b e = (if b then ok () else err e)"

definition now_unix :: "('e, int) act" where
  "now_unix w = (Inr (clock w), w)"

definition fresh_uuid :: "('e, uuid) act" where
  "fresh_uuid w = (Inr (next_uuid w), w\<lparr>next_uuid := Suc (next_uuid w)\<rparr>)"

text \<open>One statement: it fails if the script says so, and otherwise has its effect or is refused by a
  constraint.\<close>

definition sql :: "(db \<Rightarrow> db_error + ('a \<times> db)) \<Rightarrow> (db_error, 'a) act" where
  "sql f w =
     (let w' = w\<lparr>statement_fails := tl (statement_fails w)\<rparr>
      in if statement_fails w \<noteq> [] \<and> hd (statement_fails w) then (Inl DbOther, w')
         else (case f (tables w') of
                 Inl e \<Rightarrow> (Inl e, w')
               | Inr (x, d) \<Rightarrow> (Inr x, w'\<lparr>tables := d\<rparr>)))"

definition select :: "(db \<Rightarrow> 'a) \<Rightarrow> (db_error, 'a) act" where
  "select q = sql (\<lambda>d. Inr (q d, d))"

definition execute :: "(db \<Rightarrow> db) \<Rightarrow> (db_error, unit) act" where
  "execute f = sql (\<lambda>d. Inr ((), f d))"

fun for_each :: "'a list \<Rightarrow> ('a \<Rightarrow> ('e, unit) act) \<Rightarrow> ('e, unit) act" where
  "for_each [] f = ok ()"
| "for_each (x # xs) f = and_then (f x) (\<lambda>_. for_each xs f)"

fun collect :: "'a list \<Rightarrow> ('a \<Rightarrow> ('e, 'b list) act) \<Rightarrow> ('e, 'b list) act" where
  "collect [] f = ok []"
| "collect (x # xs) f = and_then (f x) (\<lambda>ys. and_then (collect xs f) (\<lambda>zs. ok (ys @ zs)))"

text \<open>\<^verbatim>\<open>begin\<close>, the body on the open transaction, and \<^verbatim>\<open>commit\<close>: begin and commit are statements of
  their own; \<^verbatim>\<open>conv\<close> is the conversion \<^verbatim>\<open>?\<close> applies to their errors. Dropping an open transaction
  rolls it back.\<close>

definition transaction :: "(db_error \<Rightarrow> 'e) \<Rightarrow> ('e, 'a) act \<Rightarrow> ('e, 'a) act" where
  "transaction conv body =
     and_then (map_err conv (select (\<lambda>_. ())))
       (\<lambda>_ w. case body w of
          (Inl e, w') \<Rightarrow> (Inl e, w'\<lparr>tables := tables w\<rparr>)
        | (Inr x, w') \<Rightarrow>
            (case map_err conv (select (\<lambda>_. ())) w' of
               (Inl e, w'') \<Rightarrow> (Inl e, w''\<lparr>tables := tables w\<rparr>)
             | (Inr _, w'') \<Rightarrow> (Inr x, w'')))"

section \<open>Reading actions backwards\<close>

named_theorems act_simps \<open>when an action returns a value\<close>

lemma ok_Inr [act_simps]: "ok x w = (Inr y, w') \<longleftrightarrow> y = x \<and> w' = w"
  by (auto simp: ok_def)

lemma err_Inr [act_simps]: "err e w = (Inr y, w') \<longleftrightarrow> False"
  by (simp add: err_def)

lemma and_then_Inr [act_simps]:
  "and_then m f w = (Inr y, w'') \<longleftrightarrow> (\<exists>x w'. m w = (Inr x, w') \<and> f x w' = (Inr y, w''))"
  by (auto simp: and_then_def split: prod.splits sum.splits)

lemma map_err_Inr [act_simps]: "map_err g m w = (Inr y, w') \<longleftrightarrow> m w = (Inr y, w')"
  by (auto simp: map_err_def split: prod.splits sum.splits)

lemma outcome_Inr [act_simps]: "outcome m w = (Inr r, w') \<longleftrightarrow> m w = (r, w')"
  by (auto simp: outcome_def split: prod.splits)

lemma or_err_Inr [act_simps]: "or_err e x w = (Inr y, w') \<longleftrightarrow> x = Some y \<and> w' = w"
  by (auto simp: or_err_def err_def ok_def split: option.splits)

lemma ensure_Inr [act_simps]: "ensure b e w = (Inr y, w') \<longleftrightarrow> b \<and> w' = w"
  by (auto simp: ensure_def err_def ok_def)

lemma now_unix_Inr [act_simps]: "now_unix w = (Inr t, w') \<longleftrightarrow> t = clock w \<and> w' = w"
  by (auto simp: now_unix_def)

lemma fresh_uuid_Inr [act_simps]:
  "fresh_uuid w = (Inr i, w') \<longleftrightarrow> i = next_uuid w \<and> w' = w\<lparr>next_uuid := Suc (next_uuid w)\<rparr>"
  by (auto simp: fresh_uuid_def)

lemma select_Inr:
  "select q w = (Inr x, w') \<Longrightarrow> x = q (tables w) \<and> tables w' = tables w
     \<and> clock w' = clock w \<and> next_uuid w' = next_uuid w \<and> git_calls w' = git_calls w"
  by (auto simp: select_def sql_def Let_def split: if_splits)

lemma execute_Inr:
  "execute f w = (Inr x, w') \<Longrightarrow> tables w' = f (tables w) \<and> clock w' = clock w \<and> next_uuid w' = next_uuid w
     \<and> git_calls w' = git_calls w"
  by (auto simp: execute_def sql_def Let_def split: if_splits)

lemma select_tables [simp]: "tables (snd (select q w)) = tables w"
  by (auto simp: select_def sql_def Let_def)

text \<open>Where no statement fails, an action computes.\<close>

lemma sql_no_fault:
  "statement_fails w = [] \<Longrightarrow>
     sql f w = (case f (tables w) of Inl e \<Rightarrow> (Inl e, w) | Inr (x, d) \<Rightarrow> (Inr x, w\<lparr>tables := d\<rparr>))"
  by (cases w) (auto simp: sql_def Let_def split: sum.splits)

lemma select_no_fault: "statement_fails w = [] \<Longrightarrow> select q w = (Inr (q (tables w)), w)"
  by (simp add: select_def sql_no_fault)

lemma execute_no_fault: "statement_fails w = [] \<Longrightarrow> execute f w = (Inr (), w\<lparr>tables := f (tables w)\<rparr>)"
  by (simp add: execute_def sql_no_fault)

lemma transaction_no_fault:
  assumes "statement_fails w = []" "body w = (Inr x, w')" "statement_fails w' = []"
  shows "transaction conv body w = (Inr x, w')"
  using assms by (simp add: transaction_def and_then_def map_err_def select_no_fault)

lemmas run_simps =
  ok_def err_def and_then_def map_err_def outcome_def or_err_def ensure_def now_unix_def fresh_uuid_def
  sql_no_fault select_no_fault execute_no_fault

lemma transaction_Inr:
  assumes "transaction conv body w = (Inr x, w')"
  obtains w1 w2 where "tables w1 = tables w" "clock w1 = clock w" "next_uuid w1 = next_uuid w"
    "body w1 = (Inr x, w2)" "tables w' = tables w2" "clock w' = clock w2" "next_uuid w' = next_uuid w2"
    "git_calls w1 = git_calls w" "git_calls w' = git_calls w2"
proof -
  obtain w1 where w1: "select (\<lambda>_. ()) w = (Inr (), w1)"
    "(case body w1 of
          (Inl e, w') \<Rightarrow> (Inl e, w'\<lparr>tables := tables w1\<rparr>)
        | (Inr x, w') \<Rightarrow>
            (case map_err conv (select (\<lambda>_. ())) w' of
               (Inl e, w'') \<Rightarrow> (Inl e, w''\<lparr>tables := tables w1\<rparr>)
             | (Inr _, w'') \<Rightarrow> (Inr x, w''))) = (Inr x, w')"
    using assms by (auto simp: transaction_def act_simps)
  then obtain w2 where w2: "body w1 = (Inr x, w2)" "map_err conv (select (\<lambda>_. ())) w2 = (Inr (), w')"
    by (auto split: prod.splits sum.splits)
  have w3: "select (\<lambda>_. ()) w2 = (Inr (), w')" using w2(2) by (simp only: map_err_Inr)
  show ?thesis
    by (rule that [OF _ _ _ w2(1)]) (use select_Inr [OF w1(1)] select_Inr [OF w3] in simp_all)
qed

lemma transaction_Inl:
  "transaction conv body w = (Inl e, w') \<Longrightarrow> tables w' = tables w"
  by (auto simp: transaction_def and_then_def map_err_def select_def sql_def Let_def
      split: prod.splits sum.splits if_splits)

text \<open>A failed transaction leaves the tables alone, whatever its body did.\<close>

lemma transaction_atomic:
  "tables (snd (transaction conv body w)) = tables w \<or> \<not> isl (fst (transaction conv body w))"
proof -
  obtain r w' where t: "transaction conv body w = (r, w')" by fastforce
  show ?thesis using transaction_Inl t by (cases r) fastforce+
qed

section \<open>Invariants of the tables\<close>

text \<open>An action keeps an invariant when the tables satisfy it afterwards, whether the action returned
  or failed on the way.\<close>

definition keeps :: "(db \<Rightarrow> bool) \<Rightarrow> ('e, 'a) act \<Rightarrow> bool" where
  "keeps I m \<longleftrightarrow> (\<forall>w. I (tables w) \<longrightarrow> I (tables (snd (m w))))"

named_theorems keeps_intros \<open>how an invariant passes through the ways to build an action\<close>

lemma keepsD: "keeps I m \<Longrightarrow> I (tables w) \<Longrightarrow> m w = (r, w') \<Longrightarrow> I (tables w')"
  unfolding keeps_def by (metis snd_conv)

locale db_invariant =
  fixes inv :: "db \<Rightarrow> bool"
  assumes inv_empty: "inv empty_db"
begin

lemma keeps_ok: "keeps inv (ok x)"
  by (simp add: keeps_def ok_def)

lemma keeps_err: "keeps inv (err e)"
  by (simp add: keeps_def err_def)

lemma keeps_now: "keeps inv now_unix"
  by (simp add: keeps_def now_unix_def)

lemma keeps_fresh: "keeps inv fresh_uuid"
  by (simp add: keeps_def fresh_uuid_def)

lemma keeps_or_err: "keeps inv (or_err e x)"
  by (simp add: or_err_def keeps_ok keeps_err split: option.splits)

lemma keeps_ensure: "keeps inv (ensure b e)"
  by (simp add: ensure_def keeps_ok keeps_err)

lemma keeps_and_then: "keeps inv m \<Longrightarrow> (\<And>x. keeps inv (f x)) \<Longrightarrow> keeps inv (and_then m f)"
  unfolding keeps_def and_then_def by (auto split: prod.splits sum.splits)

lemma keeps_map_err: "keeps inv m \<Longrightarrow> keeps inv (map_err g m)"
  unfolding keeps_def map_err_def by (auto split: prod.splits sum.splits)

lemma keeps_outcome: "keeps inv m \<Longrightarrow> keeps inv (outcome m)"
  unfolding keeps_def outcome_def by (auto split: prod.splits)

lemma keeps_select: "keeps inv (select q)"
  by (simp add: keeps_def)

lemma keeps_sql: "(\<And>d x d'. inv d \<Longrightarrow> f d = Inr (x, d') \<Longrightarrow> inv d') \<Longrightarrow> keeps inv (sql f)"
  by (auto simp: keeps_def sql_def Let_def split: sum.splits prod.splits)

lemma keeps_execute: "(\<And>d. inv d \<Longrightarrow> inv (f d)) \<Longrightarrow> keeps inv (execute f)"
  by (auto simp: execute_def intro!: keeps_sql)

lemma keeps_for_each: "(\<And>x. x \<in> set xs \<Longrightarrow> keeps inv (f x)) \<Longrightarrow> keeps inv (for_each xs f)"
  by (induction xs) (auto intro!: keeps_ok keeps_and_then)

lemma keeps_collect: "(\<And>x. x \<in> set xs \<Longrightarrow> keeps inv (f x)) \<Longrightarrow> keeps inv (collect xs f)"
  by (induction xs) (auto intro!: keeps_ok keeps_and_then)

lemma keeps_transaction:
  assumes "keeps inv body"
  shows "keeps inv (transaction conv body)"
  unfolding keeps_def
proof (intro allI impI)
  fix w :: world assume w: "inv (tables w)"
  obtain r w' where t: "transaction conv body w = (r, w')" by fastforce
  show "inv (tables (snd (transaction conv body w)))"
  proof (cases r)
    case (Inl e)
    then show ?thesis using t w transaction_Inl [of conv body w e w'] by simp
  next
    case (Inr x)
    then obtain w1 w2 where "tables w1 = tables w" "body w1 = (Inr x, w2)" "tables w' = tables w2"
      using t by (auto elim: transaction_Inr)
    then show ?thesis using keepsD [OF assms, of w1 "Inr x" w2] w t by simp
  qed
qed

lemmas keeps_rules =
  keeps_ok keeps_err keeps_now keeps_fresh keeps_or_err keeps_ensure keeps_and_then keeps_map_err
  keeps_outcome keeps_select keeps_execute keeps_for_each keeps_collect keeps_transaction

end

section \<open>Read-only actions\<close>

definition read_only :: "('e, 'a) act \<Rightarrow> bool" where
  "read_only m \<longleftrightarrow> (\<forall>w. tables (snd (m w)) = tables w)"

lemma read_only_ok: "read_only (ok x)"
  by (simp add: read_only_def ok_def)

lemma read_only_err: "read_only (err e)"
  by (simp add: read_only_def err_def)

lemma read_only_select: "read_only (select q)"
  by (simp add: read_only_def)

lemma read_only_now: "read_only now_unix"
  by (simp add: read_only_def now_unix_def)

lemma read_only_fresh: "read_only fresh_uuid"
  by (simp add: read_only_def fresh_uuid_def)

lemma read_only_or_err: "read_only (or_err e x)"
  by (simp add: or_err_def read_only_ok read_only_err split: option.splits)

lemma read_only_ensure: "read_only (ensure b e)"
  by (simp add: ensure_def read_only_ok read_only_err)

lemma read_only_map_err: "read_only m \<Longrightarrow> read_only (map_err g m)"
  unfolding read_only_def map_err_def by (auto split: prod.splits sum.splits) (metis snd_conv)+

lemma read_only_outcome: "read_only m \<Longrightarrow> read_only (outcome m)"
  unfolding read_only_def outcome_def by (auto split: prod.splits) (metis snd_conv)

lemma read_only_and_then: "read_only m \<Longrightarrow> (\<And>x. read_only (f x)) \<Longrightarrow> read_only (and_then m f)"
  unfolding read_only_def and_then_def by (auto split: prod.splits sum.splits) (metis snd_conv)+

lemma read_only_collect: "(\<And>x. read_only (f x)) \<Longrightarrow> read_only (collect xs f)"
  by (induction xs) (auto intro: read_only_ok read_only_and_then)

lemma read_only_if: "read_only m \<Longrightarrow> read_only n \<Longrightarrow> read_only (if b then m else n)"
  by simp

lemma read_only_option:
  "read_only m \<Longrightarrow> (\<And>x. read_only (f x)) \<Longrightarrow> read_only (case o1 of None \<Rightarrow> m | Some x \<Rightarrow> f x)"
  by (cases o1) simp_all

lemmas read_only_rules =
  read_only_ok read_only_err read_only_select read_only_now read_only_fresh read_only_or_err read_only_ensure
  read_only_map_err read_only_outcome read_only_and_then read_only_collect read_only_if read_only_option

lemma keeps_read_only: "read_only m \<Longrightarrow> keeps I m"
  by (simp add: keeps_def read_only_def)

lemma read_only_tables: "read_only m \<Longrightarrow> m w = (r, w') \<Longrightarrow> tables w' = tables w"
  unfolding read_only_def by (metis snd_conv)

end
