(* ===== verification/Access_Store.thy ===== *)
theory Access_Store
  imports Database "HOL-Library.List_Lexorder" "HOL-Library.Char_ord"
begin

text \<open>
  Accounts, grants, teams and branch-protection rules as stored (\<^verbatim>\<open>edda-db/src/user_repo.rs\<close>,
  \<^verbatim>\<open>organization_repo.rs\<close>, \<^verbatim>\<open>repository_repo.rs\<close>, \<^verbatim>\<open>repo_access_repo.rs\<close>, \<^verbatim>\<open>team_repo.rs\<close>,
  \<^verbatim>\<open>branch_protection_repo.rs\<close>, \<^verbatim>\<open>repo_size_repo.rs\<close>) and the authorization service that fetches
  them for the decisions of \<^verbatim>\<open>Access_Control\<close> (\<^verbatim>\<open>edda-auth/src/authz.rs\<close>). The service turns every
  failed query into \<^verbatim>\<open>NotFound\<close>. Each query is a function of the tables, run as one statement.
\<close>

section \<open>Lookups\<close>

definition user_by_username :: "string \<Rightarrow> db \<Rightarrow> user option" where
  "user_by_username username d = find (\<lambda>u. eq_ignore_ascii_case (user_username u) username) (t_users d)"

definition user_by_email :: "string \<Rightarrow> db \<Rightarrow> user option" where
  "user_by_email email d = find (\<lambda>u. eq_ignore_ascii_case (user_email u) email) (t_users d)"

definition user_by_id :: "uuid \<Rightarrow> db \<Rightarrow> user option" where
  "user_by_id i d = find (\<lambda>u. user_id u = i) (t_users d)"

definition email_notifications_enabled :: "uuid \<Rightarrow> db \<Rightarrow> bool" where
  "email_notifications_enabled i d =
     (case user_by_id i d of Some u \<Rightarrow> user_email_notifications u | None \<Rightarrow> True)"

definition org_by_name :: "string \<Rightarrow> db \<Rightarrow> organization option" where
  "org_by_name name d = find (\<lambda>g. eq_ignore_ascii_case (org_name g) name) (t_organizations d)"

definition org_by_id :: "uuid \<Rightarrow> db \<Rightarrow> organization option" where
  "org_by_id i d = find (\<lambda>g. org_id g = i) (t_organizations d)"

definition repo_by_owner_and_name :: "repository_owner \<Rightarrow> string \<Rightarrow> db \<Rightarrow> repository option" where
  "repo_by_owner_and_name owner name d =
     find (\<lambda>r. repo_owner r = owner \<and> repo_name r = name) (t_repositories d)"

definition repo_by_id :: "uuid \<Rightarrow> db \<Rightarrow> repository option" where
  "repo_by_id i d = find (\<lambda>r. repo_id r = i) (t_repositories d)"

definition resolve_owner :: "string \<Rightarrow> (db_error, repository_owner option) act" where
  "resolve_owner name =
     and_then (select (user_by_username name)) (\<lambda>u.
       case u of
         Some user \<Rightarrow> ok (Some (OwnerUser (user_id user)))
       | None \<Rightarrow>
           and_then (select (org_by_name name)) (\<lambda>g.
             ok (map_option (\<lambda>org. OwnerOrganization (org_id org)) g)))"

definition find_by_owner_username_and_name :: "string \<Rightarrow> string \<Rightarrow> (db_error, repository option) act" where
  "find_by_owner_username_and_name owner_username name =
     and_then (resolve_owner owner_username) (\<lambda>owner.
       case owner of
         None \<Rightarrow> ok None
       | Some owner \<Rightarrow> select (repo_by_owner_and_name owner name))"

text \<open>The join with whichever owner table applies.\<close>

definition owner_name :: "repository_owner \<Rightarrow> db \<Rightarrow> string option" where
  "owner_name owner d =
     (case owner of
        OwnerUser i \<Rightarrow> map_option user_username (user_by_id i d)
      | OwnerOrganization i \<Rightarrow> map_option org_name (org_by_id i d))"

definition find_by_id_with_owner_username :: "uuid \<Rightarrow> db \<Rightarrow> (repository \<times> string) option" where
  "find_by_id_with_owner_username i d =
     (case repo_by_id i d of
        None \<Rightarrow> None
      | Some r \<Rightarrow> map_option (\<lambda>n. (r, n)) (owner_name (repo_owner r) d))"

section \<open>Grants\<close>

definition grant_conflicts :: "uuid \<Rightarrow> access_subject \<Rightarrow> repo_role \<Rightarrow> repo_access list \<Rightarrow> bool" where
  "grant_conflicts rid subject role rows \<longleftrightarrow>
     list_ex (\<lambda>a. access_repository_id a = rid \<and> access_subject a = subject) rows
     \<or> (role = ROwner \<and> list_ex (\<lambda>a. access_repository_id a = rid \<and> access_role a = ROwner) rows)"

definition subject_exists :: "access_subject \<Rightarrow> db \<Rightarrow> bool" where
  "subject_exists subject d =
     (case subject of
        SubjectUser i \<Rightarrow> list_ex (\<lambda>u. user_id u = i) (t_users d)
      | SubjectTeam i \<Rightarrow> list_ex (\<lambda>t. team_id t = i) (t_teams d))"

text \<open>The insert that ignores a conflict with one of the three unique indexes (one grant per subject,
  one owner per repository); a foreign key that does not resolve is still an error.\<close>

definition grant_row :: "uuid \<Rightarrow> access_subject \<Rightarrow> repo_role \<Rightarrow> db \<Rightarrow> db_error + (unit \<times> db)" where
  "grant_row rid subject role d =
     (if grant_conflicts rid subject role (t_repo_access d) then Inr ((), d)
      else if \<not> list_ex (\<lambda>r. repo_id r = rid) (t_repositories d) \<or> \<not> subject_exists subject d
      then Inl ForeignKeyViolation
      else Inr ((), d\<lparr>t_repo_access := t_repo_access d @
                  [\<lparr>access_repository_id = rid, access_subject = subject, access_role = role\<rparr>]\<rparr>))"

definition repo_access_grant :: "uuid \<Rightarrow> access_subject \<Rightarrow> repo_role \<Rightarrow> (db_error, unit) act" where
  "repo_access_grant rid subject role = sql (grant_row rid subject role)"

definition grant_owner :: "uuid \<Rightarrow> access_subject \<Rightarrow> (db_error, unit) act" where
  "grant_owner rid subject = repo_access_grant rid subject ROwner"

definition access_find :: "uuid \<Rightarrow> access_subject \<Rightarrow> db \<Rightarrow> repo_access option" where
  "access_find rid subject d =
     find (\<lambda>a. access_repository_id a = rid \<and> access_subject a = subject) (t_repo_access d)"

definition team_roles_for_user :: "uuid \<Rightarrow> uuid \<Rightarrow> db \<Rightarrow> repo_role list" where
  "team_roles_for_user rid uid d =
     concat (map (\<lambda>a. case access_subject a of
                        SubjectTeam tid \<Rightarrow>
                          if access_repository_id a = rid
                          then map (\<lambda>_. access_role a) (filter (\<lambda>m. m = (tid, uid)) (t_team_members d))
                          else []
                      | SubjectUser _ \<Rightarrow> []) (t_repo_access d))"

definition roles_for_user :: "uuid \<Rightarrow> db \<Rightarrow> (uuid \<times> repo_role) list" where
  "roles_for_user uid d =
     map (\<lambda>a. (access_repository_id a, access_role a))
       (filter (\<lambda>a. access_subject a = SubjectUser uid) (t_repo_access d))"

definition removable :: "uuid \<Rightarrow> access_subject \<Rightarrow> repo_access \<Rightarrow> bool" where
  "removable rid subject a \<longleftrightarrow>
     access_repository_id a = rid \<and> access_subject a = subject \<and> access_role a \<noteq> ROwner"

definition remove_grant :: "uuid \<Rightarrow> access_subject \<Rightarrow> (db_error, bool) act" where
  "remove_grant rid subject =
     sql (\<lambda>d. Inr (0 < rows_affected (removable rid subject) (t_repo_access d),
                  d\<lparr>t_repo_access := delete_where (removable rid subject) (t_repo_access d)\<rparr>))"

section \<open>Creating a repository\<close>

datatype insert_repository_error = RepoAlreadyExists string | InsertRepoDb db_error

definition insert_repository_row :: "repository \<Rightarrow> db \<Rightarrow> db_error + (unit \<times> db)" where
  "insert_repository_row r d =
     (if list_ex (\<lambda>x. repo_id x = repo_id r \<or> (repo_owner x = repo_owner r \<and> repo_name x = repo_name r))
           (t_repositories d)
      then Inl UniqueViolation
      else if owner_name (repo_owner r) d = None then Inl ForeignKeyViolation
      else Inr ((), d\<lparr>t_repositories := t_repositories d @ [r]\<rparr>))"

definition insert_owner_row :: "uuid \<Rightarrow> access_subject \<Rightarrow> db \<Rightarrow> db_error + (unit \<times> db)" where
  "insert_owner_row rid subject d =
     (if grant_conflicts rid subject ROwner (t_repo_access d) then Inl UniqueViolation
      else if \<not> subject_exists subject d then Inl ForeignKeyViolation
      else Inr ((), d\<lparr>t_repo_access := t_repo_access d @
                  [\<lparr>access_repository_id = rid, access_subject = subject, access_role = ROwner\<rparr>]\<rparr>))"

definition insert_with_owner_grant :: "repository \<Rightarrow> access_subject \<Rightarrow> (insert_repository_error, unit) act" where
  "insert_with_owner_grant r grantee =
     transaction InsertRepoDb
       (and_then (map_err (\<lambda>e. if e = UniqueViolation then RepoAlreadyExists (repo_name r) else InsertRepoDb e)
                    (sql (insert_repository_row r)))
         (\<lambda>_. map_err InsertRepoDb (sql (insert_owner_row (repo_id r) grantee))))"

definition insert_with_owner :: "repository \<Rightarrow> uuid \<Rightarrow> (insert_repository_error, unit) act" where
  "insert_with_owner r uid = insert_with_owner_grant r (SubjectUser uid)"

definition insert_with_owner_team :: "repository \<Rightarrow> uuid \<Rightarrow> (insert_repository_error, unit) act" where
  "insert_with_owner_team r tid = insert_with_owner_grant r (SubjectTeam tid)"

definition update_visibility :: "uuid \<Rightarrow> visibility \<Rightarrow> (db_error, unit) act" where
  "update_visibility rid v =
     execute (\<lambda>d. d\<lparr>t_repositories :=
       update_where (\<lambda>r. repo_id r = rid) (\<lambda>r. r\<lparr>repo_visibility := v\<rparr>) (t_repositories d)\<rparr>)"

definition update_description :: "uuid \<Rightarrow> string option \<Rightarrow> (db_error, unit) act" where
  "update_description rid desc =
     execute (\<lambda>d. d\<lparr>t_repositories :=
       update_where (\<lambda>r. repo_id r = rid) (\<lambda>r. r\<lparr>repo_description := desc\<rparr>) (t_repositories d)\<rparr>)"

section \<open>Teams and organizations\<close>

definition team_by_org_and_name :: "uuid \<Rightarrow> string \<Rightarrow> db \<Rightarrow> team option" where
  "team_by_org_and_name oid name d =
     find (\<lambda>t. team_organization_id t = oid \<and> team_name t = name) (t_teams d)"

definition find_unit_permission :: "uuid \<Rightarrow> team_unit \<Rightarrow> db \<Rightarrow> team_permission option" where
  "find_unit_permission tid unit d =
     map_option (\<lambda>(_, _, p). p) (find (\<lambda>(t, u, _). t = tid \<and> u = unit) (t_unit_permissions d))"

definition set_unit_permission :: "uuid \<Rightarrow> team_unit \<Rightarrow> team_permission \<Rightarrow> (db_error, unit) act" where
  "set_unit_permission tid unit p =
     execute (\<lambda>d. d\<lparr>t_unit_permissions :=
       (if list_ex (\<lambda>(t, u, _). t = tid \<and> u = unit) (t_unit_permissions d)
        then update_where (\<lambda>(t, u, _). t = tid \<and> u = unit) (\<lambda>_. (tid, unit, p)) (t_unit_permissions d)
        else t_unit_permissions d @ [(tid, unit, p)])\<rparr>)"

definition team_insert :: "uuid \<Rightarrow> uuid \<Rightarrow> string \<Rightarrow> team_permission \<Rightarrow> (db_error, unit) act" where
  "team_insert tid oid name p =
     sql (\<lambda>d. if list_ex (\<lambda>t. team_id t = tid \<or> (team_organization_id t = oid \<and> team_name t = name)) (t_teams d)
              then Inl UniqueViolation
              else if org_by_id oid d = None then Inl ForeignKeyViolation
              else Inr ((), d\<lparr>t_teams := t_teams d @
                     [\<lparr>team_id = tid, team_organization_id = oid, team_name = name, team_permission = p\<rparr>]\<rparr>))"

definition team_member_add :: "uuid \<Rightarrow> uuid \<Rightarrow> (db_error, unit) act" where
  "team_member_add tid uid =
     sql (\<lambda>d. if (tid, uid) \<in> set (t_team_members d) then Inr ((), d)
              else if \<not> list_ex (\<lambda>t. team_id t = tid) (t_teams d) \<or> user_by_id uid d = None
              then Inl ForeignKeyViolation
              else Inr ((), d\<lparr>t_team_members := t_team_members d @ [(tid, uid)]\<rparr>))"

definition team_member_remove :: "uuid \<Rightarrow> uuid \<Rightarrow> (db_error, bool) act" where
  "team_member_remove tid uid =
     sql (\<lambda>d. Inr (0 < rows_affected (\<lambda>m. m = (tid, uid)) (t_team_members d),
                  d\<lparr>t_team_members := delete_where (\<lambda>m. m = (tid, uid)) (t_team_members d)\<rparr>))"

definition is_member :: "uuid \<Rightarrow> uuid \<Rightarrow> db \<Rightarrow> bool" where
  "is_member tid uid d \<longleftrightarrow> (tid, uid) \<in> set (t_team_members d)"

definition teams_for_user_in_organization :: "uuid \<Rightarrow> uuid \<Rightarrow> db \<Rightarrow> team list" where
  "teams_for_user_in_organization oid uid d =
     filter (\<lambda>t. team_organization_id t = oid \<and> (team_id t, uid) \<in> set (t_team_members d)) (t_teams d)"

datatype insert_organization_error = NameTaken | InsertOrgDb db_error

definition organization_insert ::
  "uuid \<Rightarrow> string \<Rightarrow> string option \<Rightarrow> uuid \<Rightarrow> (insert_organization_error, uuid) act" where
  "organization_insert oid name display creating_user =
     transaction InsertOrgDb
       (and_then (map_err (\<lambda>e. if e = UniqueViolation then NameTaken else InsertOrgDb e)
           (sql (\<lambda>d. if list_ex (\<lambda>g. org_id g = oid \<or> eq_ignore_ascii_case (org_name g) name) (t_organizations d)
                     then Inl UniqueViolation
                     else Inr ((), d\<lparr>t_organizations := t_organizations d @
                       [\<lparr>org_id = oid, org_name = name, org_display_name = display\<rparr>]\<rparr>))))
         (\<lambda>_. and_then fresh_uuid (\<lambda>owners_team_id.
            and_then (map_err InsertOrgDb (team_insert owners_team_id oid ''Owners'' TPAdmin)) (\<lambda>_.
              and_then (map_err InsertOrgDb
                 (sql (\<lambda>d. if (owners_team_id, creating_user) \<in> set (t_team_members d)
                           then Inl UniqueViolation
                           else if user_by_id creating_user d = None then Inl ForeignKeyViolation
                           else Inr ((), d\<lparr>t_team_members := t_team_members d @ [(owners_team_id, creating_user)]\<rparr>))))
                (\<lambda>_. ok owners_team_id)))))"

section \<open>Branch protection rules\<close>

record branch_protection_settings =
  set_required_approvals :: int
  set_linear_history :: bool
  set_signed_commits :: bool
  set_dismiss_stale :: bool
  set_up_to_date :: bool
  set_status_checks :: "string list"

definition apply_settings :: "branch_protection_settings \<Rightarrow> branch_protection_rule \<Rightarrow> branch_protection_rule" where
  "apply_settings s r =
     r\<lparr>required_approvals := set_required_approvals s, require_linear_history := set_linear_history s,
       require_signed_commits := set_signed_commits s, dismiss_stale_reviews := set_dismiss_stale s,
       require_up_to_date := set_up_to_date s, required_status_checks := set_status_checks s\<rparr>"

definition new_rule :: "uuid \<Rightarrow> uuid \<Rightarrow> string \<Rightarrow> branch_protection_settings \<Rightarrow> branch_protection_rule" where
  "new_rule i rid pattern s =
     \<lparr>rule_id = i, rule_repository_id = rid, rule_pattern = pattern,
      required_approvals = set_required_approvals s, require_linear_history = set_linear_history s,
      require_signed_commits = set_signed_commits s, dismiss_stale_reviews = set_dismiss_stale s,
      require_up_to_date = set_up_to_date s, required_status_checks = set_status_checks s,
      push_allowlist = []\<rparr>"

text \<open>The rules table has no allowlist column: its rows carry the empty list, as \<^verbatim>\<open>row_to_rule\<close> reads
  them, and the allowlist is a table of its own.\<close>

definition upsert_by_pattern ::
  "uuid \<Rightarrow> uuid \<Rightarrow> string \<Rightarrow> branch_protection_settings \<Rightarrow> (db_error, uuid) act" where
  "upsert_by_pattern i rid pattern s =
     and_then (select (\<lambda>d. find (\<lambda>r. rule_repository_id r = rid \<and> rule_pattern r = pattern) (t_rules d)))
       (\<lambda>existing. case existing of
          Some row \<Rightarrow>
            and_then (sql (\<lambda>d. if set_required_approvals s < 0 then Inl CheckViolation
                else Inr ((), d\<lparr>t_rules := update_where (\<lambda>r. rule_id r = rule_id row) (apply_settings s) (t_rules d)\<rparr>)))
              (\<lambda>_. ok (rule_id row))
        | None \<Rightarrow>
            and_then (sql (\<lambda>d.
                if list_ex (\<lambda>r. rule_id r = i \<or> (rule_repository_id r = rid \<and> rule_pattern r = pattern)) (t_rules d)
                then Inl UniqueViolation
                else if set_required_approvals s < 0 then Inl CheckViolation
                else if \<not> list_ex (\<lambda>r. repo_id r = rid) (t_repositories d) then Inl ForeignKeyViolation
                else Inr ((), d\<lparr>t_rules := t_rules d @ [new_rule i rid pattern s]\<rparr>)))
              (\<lambda>_. ok i))"

definition rules_of :: "uuid \<Rightarrow> db \<Rightarrow> branch_protection_rule list" where
  "rules_of rid d = sort_key rule_pattern (filter (\<lambda>r. rule_repository_id r = rid) (t_rules d))"

definition list_rules :: "uuid \<Rightarrow> (db_error, branch_protection_rule list) act" where
  "list_rules rid = select (rules_of rid)"

definition allowlist_of :: "uuid \<Rightarrow> db \<Rightarrow> access_subject list" where
  "allowlist_of i d = map snd (filter (\<lambda>a. fst a = i) (t_allowlist d))"

text \<open>The second query reads the allowlists of all the repository's rules at once.\<close>

definition list_rules_with_allowlist :: "uuid \<Rightarrow> (db_error, branch_protection_rule list) act" where
  "list_rules_with_allowlist rid =
     and_then (list_rules rid) (\<lambda>rules.
       if rules = [] then ok rules
       else and_then (select (\<lambda>d i. allowlist_of i d)) (\<lambda>by_rule.
              ok (map (\<lambda>r. r\<lparr>push_allowlist := by_rule (rule_id r)\<rparr>) rules)))"

definition find_matching :: "uuid \<Rightarrow> string \<Rightarrow> (db_error, branch_protection_rule option) act" where
  "find_matching rid branch =
     and_then (list_rules rid) (\<lambda>rules. ok (find (\<lambda>r. branch_pattern_matches (rule_pattern r) branch) rules))"

text \<open>Deleting a rule takes its allowlist with it (the foreign key cascades).\<close>

definition rule_delete :: "uuid \<Rightarrow> uuid \<Rightarrow> (db_error, bool) act" where
  "rule_delete rid i =
     sql (\<lambda>d. let hit = (\<lambda>r. rule_id r = i \<and> rule_repository_id r = rid) in
       Inr (0 < rows_affected hit (t_rules d),
            if 0 < rows_affected hit (t_rules d)
            then d\<lparr>t_rules := delete_where hit (t_rules d),
                   t_allowlist := delete_where (\<lambda>a. fst a = i) (t_allowlist d)\<rparr>
            else d))"

definition allow_row :: "uuid \<Rightarrow> access_subject \<Rightarrow> db \<Rightarrow> db_error + (unit \<times> db)" where
  "allow_row i subject d =
     (if (i, subject) \<in> set (t_allowlist d) then Inr ((), d)
      else if \<not> list_ex (\<lambda>r. rule_id r = i) (t_rules d) \<or> \<not> subject_exists subject d
      then Inl ForeignKeyViolation
      else Inr ((), d\<lparr>t_allowlist := t_allowlist d @ [(i, subject)]\<rparr>))"

definition replace_allowlist :: "uuid \<Rightarrow> access_subject list \<Rightarrow> (db_error, unit) act" where
  "replace_allowlist i subjects =
     and_then (execute (\<lambda>d. d\<lparr>t_allowlist := delete_where (\<lambda>a. fst a = i) (t_allowlist d)\<rparr>))
       (\<lambda>_. for_each subjects (\<lambda>s. sql (allow_row i s)))"

section \<open>Sizes\<close>

definition repo_size_get :: "uuid \<Rightarrow> db \<Rightarrow> repo_size option" where
  "repo_size_get rid d = map_option snd (find (\<lambda>s. fst s = rid) (t_repo_sizes d))"

definition repo_size_upsert :: "uuid \<Rightarrow> int \<Rightarrow> int \<Rightarrow> (db_error, unit) act" where
  "repo_size_upsert rid git lfs =
     and_then now_unix (\<lambda>now. sql (\<lambda>d.
       let row = (rid, \<lparr>size_repository_id = rid, git_bytes = git, lfs_bytes = lfs, size_computed_at = now\<rparr>)
       in if list_ex (\<lambda>s. fst s = rid) (t_repo_sizes d)
          then Inr ((), d\<lparr>t_repo_sizes := update_where (\<lambda>s. fst s = rid) (\<lambda>_. row) (t_repo_sizes d)\<rparr>)
          else if repo_by_id rid d = None then Inl ForeignKeyViolation
          else Inr ((), d\<lparr>t_repo_sizes := t_repo_sizes d @ [row]\<rparr>)))"

end
