(* ===== verification/Authorization.thy ===== *)
theory Authorization
  imports Access_Store
begin

text \<open>
  The authorization service (\<^verbatim>\<open>edda-auth/src/authz.rs\<close>): it fetches the grants, rules and sizes a
  decision of \<^verbatim>\<open>Access_Control\<close> needs, and the push-time checks it resolves for the receive hooks
  (\<^verbatim>\<open>edda-git/src/hooks.rs\<close>). What the decision would be on the tables as they stand is stated
  separately (\<^verbatim>\<open>stored_access\<close>), and the service is shown to give that decision or, when a query
  fails, to refuse.
\<close>

section \<open>The service\<close>

definition hide :: "(db_error, 'a) act \<Rightarrow> (authz_error, 'a) act" where
  "hide = map_err (\<lambda>_. AuthzNotFound)"

fun decide :: "authz_result \<Rightarrow> (authz_error, unit) act" where
  "decide (Inr u) = ok u"
| "decide (Inl e) = err e"

definition repository_by_name :: "string \<Rightarrow> string \<Rightarrow> (authz_error, repository) act" where
  "repository_by_name owner_username name =
     and_then (hide (find_by_owner_username_and_name owner_username name)) (or_err AuthzNotFound)"

definition organization_by_name :: "string \<Rightarrow> (authz_error, organization) act" where
  "organization_by_name name = and_then (hide (select (org_by_name name))) (or_err AuthzNotFound)"

definition access_for :: "actor_context \<Rightarrow> repository \<Rightarrow> (authz_error, repo_access option) act" where
  "access_for actor repository =
     (case actor_user_id actor of
        None \<Rightarrow> ok None
      | Some uid \<Rightarrow>
          and_then (hide (select (access_find (repo_id repository) (SubjectUser uid)))) (\<lambda>direct.
            and_then (hide (select (team_roles_for_user (repo_id repository) uid))) (\<lambda>team_roles.
              ok (map_option
                    (\<lambda>role. \<lparr>access_repository_id = repo_id repository,
                             access_subject = SubjectUser uid, access_role = role\<rparr>)
                    (effective_repo_role (map_option access_role direct) team_roles)))))"

definition check_administer_organization :: "actor_context \<Rightarrow> uuid \<Rightarrow> (authz_error, unit) act" where
  "check_administer_organization actor oid =
     (case actor_user_id actor of
        None \<Rightarrow> err AuthzNotFound
      | Some uid \<Rightarrow>
          and_then (hide (select (teams_for_user_in_organization oid uid))) (\<lambda>teams.
            ensure (list_ex (\<lambda>t. team_name t = ''Owners'') teams) AuthzForbidden))"

definition check_read :: "actor_context \<Rightarrow> repository \<Rightarrow> (authz_error, unit) act" where
  "check_read actor r = and_then (access_for actor r) (\<lambda>access. decide (can_read_repository actor r access))"

definition check_write :: "actor_context \<Rightarrow> repository \<Rightarrow> (authz_error, unit) act" where
  "check_write actor r = and_then (access_for actor r) (\<lambda>access. decide (can_write_repository actor r access))"

definition check_administer :: "actor_context \<Rightarrow> repository \<Rightarrow> (authz_error, unit) act" where
  "check_administer actor r =
     and_then (access_for actor r) (\<lambda>access. decide (can_administer_repository actor r access))"

definition check_danger_zone :: "actor_context \<Rightarrow> repository \<Rightarrow> (authz_error, unit) act" where
  "check_danger_zone actor r =
     and_then (access_for actor r) (\<lambda>access. decide (can_manage_repository_danger_zone actor r access))"

definition check_merge_pull_request ::
  "actor_context \<Rightarrow> repository \<Rightarrow> string \<Rightarrow> pr_review list \<Rightarrow> (authz_error, unit) act" where
  "check_merge_pull_request actor r target_branch reviews =
     and_then (access_for actor r) (\<lambda>access.
       and_then (hide (find_matching (repo_id r) target_branch)) (\<lambda>protection.
         decide (can_merge_pull_request actor r protection reviews access)))"

definition check_open_cross_repo_pull_request ::
  "actor_context \<Rightarrow> repository \<Rightarrow> repository \<Rightarrow> (authz_error, unit) act" where
  "check_open_cross_repo_pull_request actor source target =
     and_then (access_for actor source) (\<lambda>source_access.
       and_then (access_for actor target) (\<lambda>target_access.
         decide (can_open_cross_repo_pull_request actor source source_access target target_access)))"

section \<open>Push checks\<close>

text \<open>\<^verbatim>\<open>u64\<close> byte counts; the configured limit and the stored sizes are \<^verbatim>\<open>i64\<close>.\<close>

record receive_checks =
  blocked_ref_patterns :: "string list"
  linear_history_ref_patterns :: "string list"
  signed_commit_ref_patterns :: "string list"
  max_repo_bytes :: "nat option"
  current_repo_bytes :: nat

definition ref_glob :: "branch_protection_rule \<Rightarrow> string" where
  "ref_glob rule = ''refs/heads/'' @ rule_pattern rule"

definition allowlisted :: "actor_context \<Rightarrow> branch_protection_rule \<Rightarrow> bool" where
  "allowlisted actor rule \<longleftrightarrow>
     (case actor_user_id actor of None \<Rightarrow> False | Some uid \<Rightarrow> SubjectUser uid \<in> set (push_allowlist rule))"

definition add_rule_checks :: "actor_context \<Rightarrow> branch_protection_rule \<Rightarrow> receive_checks \<Rightarrow> receive_checks" where
  "add_rule_checks actor rule c =
     (let c1 = (if allowlisted actor rule then c
                else c\<lparr>blocked_ref_patterns := blocked_ref_patterns c @ [ref_glob rule]\<rparr>);
          c2 = (if require_linear_history rule
                then c1\<lparr>linear_history_ref_patterns := linear_history_ref_patterns c1 @ [ref_glob rule]\<rparr> else c1)
      in if require_signed_commits rule
         then c2\<lparr>signed_commit_ref_patterns := signed_commit_ref_patterns c2 @ [ref_glob rule]\<rparr> else c2)"

definition resolve_receive_checks ::
  "actor_context \<Rightarrow> repository \<Rightarrow> int option \<Rightarrow> (authz_error, receive_checks) act" where
  "resolve_receive_checks actor r limit =
     and_then (hide (select (repo_size_get (repo_id r)))) (\<lambda>size.
       let checks = \<lparr>blocked_ref_patterns = [], linear_history_ref_patterns = [],
                     signed_commit_ref_patterns = [],
                     max_repo_bytes = (case limit of Some l \<Rightarrow> if 0 < l then Some (nat l) else None
                                                   | None \<Rightarrow> None),
                     current_repo_bytes = (case size of None \<Rightarrow> 0 | Some s \<Rightarrow> nat (max 0 (total_bytes s)))\<rparr>
       in and_then (outcome (check_administer actor r)) (\<lambda>admin.
            case admin of
              Inr _ \<Rightarrow> ok checks
            | Inl _ \<Rightarrow>
                and_then (hide (list_rules_with_allowlist (repo_id r))) (\<lambda>rules.
                  ok (fold (add_rule_checks actor) rules checks))))"

record ref_command =
  old_oid :: string
  new_oid :: string
  cmd_ref_name :: string

definition any_pattern_matches :: "string list \<Rightarrow> string \<Rightarrow> bool" where
  "any_pattern_matches patterns ref_name = list_ex (\<lambda>p. branch_pattern_matches p ref_name) patterns"

text \<open>The rejection messages are represented by what they name: the projected size, or the ref.\<close>

definition u64_max :: nat where
  "u64_max = 2 ^ 64 - 1"

definition quota_rejection :: "receive_checks \<Rightarrow> nat \<Rightarrow> nat option" where
  "quota_rejection checks incoming_pack_bytes =
     (case max_repo_bytes checks of
        None \<Rightarrow> None
      | Some limit \<Rightarrow>
          (let projected = min u64_max (current_repo_bytes checks + incoming_pack_bytes)
           in if projected > limit then Some projected else None))"

definition blocked_ref_rejection :: "receive_checks \<Rightarrow> ref_command list \<Rightarrow> string option" where
  "blocked_ref_rejection checks commands =
     map_option cmd_ref_name
       (find (\<lambda>c. any_pattern_matches (blocked_ref_patterns checks) (cmd_ref_name c)) commands)"

section \<open>The decision on the tables as they stand\<close>

definition stored_access :: "db \<Rightarrow> actor_context \<Rightarrow> repository \<Rightarrow> repo_access option" where
  "stored_access d actor r =
     (case actor_user_id actor of
        None \<Rightarrow> None
      | Some uid \<Rightarrow>
          map_option (\<lambda>role. \<lparr>access_repository_id = repo_id r, access_subject = SubjectUser uid, access_role = role\<rparr>)
            (effective_repo_role (map_option access_role (access_find (repo_id r) (SubjectUser uid) d))
               (team_roles_for_user (repo_id r) uid d)))"

definition stored_rule :: "db \<Rightarrow> uuid \<Rightarrow> string \<Rightarrow> branch_protection_rule option" where
  "stored_rule d rid branch = find (\<lambda>r. branch_pattern_matches (rule_pattern r) branch) (rules_of rid d)"

lemma hide_Inr [act_simps]: "hide m w = (Inr x, w') \<longleftrightarrow> m w = (Inr x, w')"
  by (simp add: hide_def act_simps)

text \<open>A read-only action, and a query of one: it leaves the tables and, if it returns, returns what the
  tables say.\<close>

definition reads :: "(db \<Rightarrow> 'a) \<Rightarrow> ('e, 'a) act \<Rightarrow> bool" where
  "reads q m \<longleftrightarrow> (\<forall>w. tables (snd (m w)) = tables w \<and> (\<forall>x. fst (m w) = Inr x \<longrightarrow> x = q (tables w)))"

named_theorems reads_intros \<open>read-only actions\<close>

lemma reads_tables: "reads q m \<Longrightarrow> m w = (r, w') \<Longrightarrow> tables w' = tables w"
  unfolding reads_def by (metis snd_conv)

lemma reads_value: "reads q m \<Longrightarrow> m w = (Inr x, w') \<Longrightarrow> x = q (tables w)"
  unfolding reads_def by (metis fst_conv)

lemma readsI:
  "(\<And>w r w'. m w = (r, w') \<Longrightarrow> tables w' = tables w \<and> (\<forall>x. r = Inr x \<longrightarrow> x = q (tables w))) \<Longrightarrow> reads q m"
  unfolding reads_def by (metis prod.collapse)

lemma reads_select [reads_intros]: "reads q (select q)"
  by (auto simp: reads_def select_def sql_def Let_def)

lemma reads_ok [reads_intros]: "reads (\<lambda>_. x) (ok x)"
  by (simp add: reads_def ok_def)

lemma reads_map_err [reads_intros]: "reads q m \<Longrightarrow> reads q (map_err g m)"
  by (auto simp: reads_def map_err_def split: prod.splits sum.splits) (metis fst_conv snd_conv)+

lemma reads_hide [reads_intros]: "reads q m \<Longrightarrow> reads q (hide m)"
  unfolding hide_def by (rule reads_map_err)

lemma reads_and_then:
  assumes "reads q m" "\<And>x. reads (p x) (f x)"
  shows "reads (\<lambda>d. p (q d) d) (and_then m f)"
proof (rule readsI)
  fix w r w' assume run: "and_then m f w = (r, w')"
  obtain s w1 where s: "m w = (s, w1)" by fastforce
  show "tables w' = tables w \<and> (\<forall>x. r = Inr x \<longrightarrow> x = p (q (tables w)) (tables w))"
  proof (cases s)
    case (Inl e)
    then show ?thesis using run s reads_tables [OF assms(1) s] by (auto simp: and_then_def)
  next
    case (Inr x)
    then have f: "f x w1 = (r, w')" using run s by (simp add: and_then_def)
    have t: "tables w1 = tables w" using reads_tables [OF assms(1) s] .
    have "x = q (tables w)" using reads_value [OF assms(1)] s Inr by blast
    then show ?thesis
      using t reads_tables [OF assms(2) f] reads_value [OF assms(2), of x w1 _ w'] f by auto
  qed
qed

lemma reads_access_for: "reads (\<lambda>d. stored_access d actor r) (access_for actor r)"
proof (cases "actor_user_id actor")
  case None
  then show ?thesis by (simp add: access_for_def stored_access_def reads_ok)
next
  case (Some uid)
  show ?thesis
    unfolding access_for_def stored_access_def Some option.case
    by (rule reads_and_then reads_intros)+
qed

lemma reads_find_matching: "reads (\<lambda>d. stored_rule d rid branch) (find_matching rid branch)"
  unfolding find_matching_def list_rules_def stored_rule_def by (rule reads_and_then reads_intros)+

section \<open>The service decides what the tables say, or refuses\<close>

definition hides :: "(authz_error, 'a) act \<Rightarrow> bool" where
  "hides m \<longleftrightarrow> (\<forall>w. isl (fst (m w)) \<longrightarrow> fst (m w) = Inl AuthzNotFound)"

lemma hides_hide: "hides (hide m)"
  by (auto simp: hides_def hide_def map_err_def split: prod.splits sum.splits)

lemma hides_ok: "hides (ok x)"
  by (simp add: hides_def ok_def)

lemma hides_and_then: "hides m \<Longrightarrow> (\<And>x. hides (f x)) \<Longrightarrow> hides (and_then m f)"
proof -
  assume m: "hides m" and f: "\<And>x. hides (f x)"
  have "isl (fst (and_then m f w)) \<longrightarrow> fst (and_then m f w) = Inl AuthzNotFound" for w
  proof (cases "m w")
    case (Pair r w1)
    show ?thesis
    proof (cases r)
      case (Inl e)
      then have "e = AuthzNotFound" using m Pair unfolding hides_def by (metis fst_conv isl_def sum.inject(1))
      then show ?thesis by (simp add: and_then_def Pair Inl)
    next
      case (Inr x)
      then show ?thesis using f [of x] by (simp add: and_then_def Pair hides_def)
    qed
  qed
  then show ?thesis by (simp add: hides_def)
qed

lemma hides_access_for: "hides (access_for actor r)"
proof (cases "actor_user_id actor")
  case None
  then show ?thesis by (simp add: access_for_def hides_ok)
next
  case (Some uid)
  show ?thesis unfolding access_for_def Some option.case by (intro hides_and_then hides_hide hides_ok)
qed

lemma fetch_then_decide:
  assumes "reads q m" "hides m"
  shows "fst (and_then m (\<lambda>x. decide (D x)) w) \<in> {D (q (tables w)), Inl AuthzNotFound}
     \<and> tables (snd (and_then m (\<lambda>x. decide (D x)) w)) = tables w"
proof -
  obtain s w1 where s: "m w = (s, w1)" by fastforce
  have t: "tables w1 = tables w" using reads_tables [OF assms(1) s] .
  show ?thesis
  proof (cases s)
    case (Inl e)
    then have "e = AuthzNotFound" using assms(2) s unfolding hides_def by (metis fst_conv isl_def sum.inject(1))
    then show ?thesis using s t Inl by (simp add: and_then_def)
  next
    case (Inr x)
    then have "x = q (tables w)" using reads_value [OF assms(1)] s by blast
    then show ?thesis using s t Inr by (cases "D x") (auto simp: and_then_def ok_def err_def)
  qed
qed

lemma fetch_two:
  "and_then m (\<lambda>x. and_then n (\<lambda>y. decide (D x y))) =
     and_then (and_then m (\<lambda>x. and_then n (\<lambda>y. ok (x, y)))) (\<lambda>p. decide (D (fst p) (snd p)))"
  by (rule ext) (auto simp: and_then_def ok_def split: prod.splits sum.splits)

lemma fetch_two_then_decide:
  assumes "reads q m" "hides m" "reads p n" "hides n"
  shows "fst (and_then m (\<lambda>x. and_then n (\<lambda>y. decide (D x y))) w)
       \<in> {D (q (tables w)) (p (tables w)), Inl AuthzNotFound}
     \<and> tables (snd (and_then m (\<lambda>x. and_then n (\<lambda>y. decide (D x y))) w)) = tables w"
proof -
  have "reads (\<lambda>d. (q d, p d)) (and_then m (\<lambda>x. and_then n (\<lambda>y. ok (x, y))))"
    using reads_and_then [OF assms(1) reads_and_then [OF assms(3) reads_ok], of "\<lambda>x y. (x, y)"] .
  moreover have "hides (and_then m (\<lambda>x. and_then n (\<lambda>y. ok (x, y))))"
    by (intro hides_and_then hides_ok assms)
  ultimately show ?thesis
    unfolding fetch_two using fetch_then_decide [of _ _ "\<lambda>p. D (fst p) (snd p)" w] by fastforce
qed

text \<open>Authorization fails closed. Whatever queries fail while it runs, each check of the service
  gives the decision that the grants, team memberships and protection rules in the tables call for,
  or refuses with \<^verbatim>\<open>NotFound\<close>; no failure turns a refusal into a permission, and the tables are
  not touched.\<close>

theorem authorization_fails_closed:
  "(fst (check_read actor r w) \<in> {can_read_repository actor r (stored_access (tables w) actor r), Inl AuthzNotFound}
      \<and> tables (snd (check_read actor r w)) = tables w) \<and>
   (fst (check_write actor r w) \<in> {can_write_repository actor r (stored_access (tables w) actor r), Inl AuthzNotFound}
      \<and> tables (snd (check_write actor r w)) = tables w) \<and>
   (fst (check_administer actor r w)
       \<in> {can_administer_repository actor r (stored_access (tables w) actor r), Inl AuthzNotFound}
      \<and> tables (snd (check_administer actor r w)) = tables w) \<and>
   (fst (check_danger_zone actor r w)
       \<in> {can_manage_repository_danger_zone actor r (stored_access (tables w) actor r), Inl AuthzNotFound}
      \<and> tables (snd (check_danger_zone actor r w)) = tables w) \<and>
   (fst (check_merge_pull_request actor r branch reviews w)
       \<in> {can_merge_pull_request actor r (stored_rule (tables w) (repo_id r) branch) reviews
            (stored_access (tables w) actor r), Inl AuthzNotFound}
      \<and> tables (snd (check_merge_pull_request actor r branch reviews w)) = tables w) \<and>
   (fst (check_open_cross_repo_pull_request actor source r w)
       \<in> {can_open_cross_repo_pull_request actor source (stored_access (tables w) actor source) r
            (stored_access (tables w) actor r), Inl AuthzNotFound}
      \<and> tables (snd (check_open_cross_repo_pull_request actor source r w)) = tables w)"
  unfolding check_read_def check_write_def check_administer_def check_danger_zone_def
    check_merge_pull_request_def check_open_cross_repo_pull_request_def
  by (intro conjI
      fetch_then_decide [OF reads_access_for hides_access_for, THEN conjunct1]
      fetch_then_decide [OF reads_access_for hides_access_for, THEN conjunct2]
      fetch_two_then_decide [OF reads_access_for hides_access_for reads_hide [OF reads_find_matching] hides_hide, THEN conjunct1]
      fetch_two_then_decide [OF reads_access_for hides_access_for reads_hide [OF reads_find_matching] hides_hide, THEN conjunct2]
      fetch_two_then_decide [OF reads_access_for hides_access_for reads_access_for hides_access_for, THEN conjunct1]
      fetch_two_then_decide [OF reads_access_for hides_access_for reads_access_for hides_access_for, THEN conjunct2])

section \<open>The push gate\<close>

lemma glob_literal_prefix:
  "CHR ''*'' \<notin> set p \<Longrightarrow> CHR ''?'' \<notin> set p \<Longrightarrow>
     glob_match (p @ pat) s \<longleftrightarrow> (\<exists>b. s = p @ b \<and> glob_match pat b)"
  by (induction p arbitrary: s) (auto simp: glob_match_literal)

lemma ref_glob_matches:
  "branch_pattern_matches (ref_glob rule) s \<longleftrightarrow>
     (\<exists>b. s = ''refs/heads/'' @ b \<and> branch_pattern_matches (rule_pattern rule) b)"
  unfolding branch_pattern_matches_def ref_glob_def by (rule glob_literal_prefix) simp_all

lemma fold_add_rule_checks:
  "blocked_ref_patterns (fold (add_rule_checks actor) rules c) =
     blocked_ref_patterns c @ map ref_glob (filter (\<lambda>r. \<not> allowlisted actor r) rules)"
  by (induction rules arbitrary: c) (auto simp: add_rule_checks_def Let_def)

definition rules_with_allowlist :: "uuid \<Rightarrow> db \<Rightarrow> branch_protection_rule list" where
  "rules_with_allowlist rid d = map (\<lambda>r. r\<lparr>push_allowlist := allowlist_of (rule_id r) d\<rparr>) (rules_of rid d)"

lemma reads_list_rules_with_allowlist: "reads (rules_with_allowlist rid) (list_rules_with_allowlist rid)"
proof -
  have inner: "reads (\<lambda>d. map (\<lambda>r. r\<lparr>push_allowlist := allowlist_of (rule_id r) d\<rparr>) rules)
      (if rules = [] then ok rules
       else and_then (select (\<lambda>d i. allowlist_of i d)) (\<lambda>by_rule.
              ok (map (\<lambda>r. r\<lparr>push_allowlist := by_rule (rule_id r)\<rparr>) rules)))" for rules
  proof (cases "rules = []")
    case True
    then show ?thesis by (simp add: reads_ok)
  next
    case False
    have "reads (\<lambda>d. map (\<lambda>r. r\<lparr>push_allowlist := allowlist_of (rule_id r) d\<rparr>) rules)
       (and_then (select (\<lambda>d i. allowlist_of i d)) (\<lambda>by_rule.
              ok (map (\<lambda>r. r\<lparr>push_allowlist := by_rule (rule_id r)\<rparr>) rules)))"
    proof -
      have "reads (\<lambda>_. map (\<lambda>r. r\<lparr>push_allowlist := by_rule (rule_id r)\<rparr>) rules)
          (ok (map (\<lambda>r. r\<lparr>push_allowlist := by_rule (rule_id r)\<rparr>) rules) :: (db_error, _) act)" for by_rule
        by (rule reads_ok)
      from reads_and_then [OF reads_select [of "\<lambda>d i. allowlist_of i d"] this] show ?thesis .
    qed
    then show ?thesis using False by simp
  qed
  show ?thesis
    unfolding list_rules_with_allowlist_def list_rules_def rules_with_allowlist_def
    by (rule reads_and_then [OF reads_select inner])
qed

lemma check_administer_sound:
  "check_administer actor r w = (Inr u, w') \<Longrightarrow>
     can_administer_repository actor r (stored_access (tables w) actor r) = Inr ()"
  unfolding check_administer_def
  using fetch_then_decide [OF reads_access_for hides_access_for, of actor r "can_administer_repository actor r" w]
  by (auto simp: prod_eq_iff)

lemma check_administer_tables: "check_administer actor r w = (x, w') \<Longrightarrow> tables w' = tables w"
  unfolding check_administer_def
  using fetch_then_decide [OF reads_access_for hides_access_for, of actor r "can_administer_repository actor r" w]
  by (auto simp: prod_eq_iff)

lemma not_allowlisted:
  "\<not> allowlisted actor (rule\<lparr>push_allowlist := allowlist_of (rule_id rule) d\<rparr>) \<longleftrightarrow>
     (\<forall>uid. actor_user_id actor = Some uid \<longrightarrow> (rule_id rule, SubjectUser uid) \<notin> set (t_allowlist d))"
  by (force simp: allowlisted_def allowlist_of_def split: option.splits)

text \<open>The push gate enforces exactly the stored rules. Whenever the checks of a push by someone who
  may not administer the repository are resolved, whatever queries failed on the way, a batch of ref
  updates is refused as a direct push if and only if it updates some branch that the pattern of one
  of the repository's rules matches and whose allowlist does not name the pusher as a user. Refs
  outside \<^verbatim>\<open>refs/heads/\<close> are never refused here.\<close>

theorem push_gate_exact:
  assumes "resolve_receive_checks actor r limit w = (Inr checks, w')"
    and "can_administer_repository actor r (stored_access (tables w) actor r) \<noteq> Inr ()"
  shows "blocked_ref_rejection checks commands \<noteq> None \<longleftrightarrow>
     (\<exists>c branch rule. c \<in> set commands \<and> cmd_ref_name c = ''refs/heads/'' @ branch
        \<and> rule \<in> set (t_rules (tables w)) \<and> rule_repository_id rule = repo_id r
        \<and> branch_pattern_matches (rule_pattern rule) branch
        \<and> (\<forall>uid. actor_user_id actor = Some uid \<longrightarrow> (rule_id rule, SubjectUser uid) \<notin> set (t_allowlist (tables w))))"
proof -
  define c0 where "c0 = (\<lambda>size :: repo_size option.
     \<lparr>blocked_ref_patterns = [], linear_history_ref_patterns = [], signed_commit_ref_patterns = [],
      max_repo_bytes = (case limit of Some l \<Rightarrow> if 0 < l then Some (nat l) else None | None \<Rightarrow> None),
      current_repo_bytes = (case size of None \<Rightarrow> 0 | Some s \<Rightarrow> nat (max 0 (total_bytes s)))\<rparr>)"
  obtain size w1 where 1: "select (repo_size_get (repo_id r)) w = (Inr size, w1)"
    "and_then (outcome (check_administer actor r)) (\<lambda>admin.
            case admin of
              Inr _ \<Rightarrow> ok (c0 size)
            | Inl _ \<Rightarrow>
                and_then (hide (list_rules_with_allowlist (repo_id r))) (\<lambda>rules.
                  ok (fold (add_rule_checks actor) rules (c0 size)))) w1 = (Inr checks, w')"
    using assms(1) unfolding resolve_receive_checks_def c0_def Let_def by (auto simp: act_simps)
  obtain admin w2 where 2: "check_administer actor r w1 = (admin, w2)" by fastforce
  have t1: "tables w1 = tables w" using select_Inr [OF 1(1)] by simp
  have t2: "tables w2 = tables w" using check_administer_tables [OF 2] t1 by simp
  have "admin \<noteq> Inr ()" using check_administer_sound [of actor r w1 "()" w2] 2 assms(2) t1 by auto
  then obtain e where "admin = Inl e" by (cases admin) auto
  then obtain rules w3 where rules: "list_rules_with_allowlist (repo_id r) w2 = (Inr rules, w3)"
    and checks: "checks = fold (add_rule_checks actor) rules (c0 size)"
    using 1(2) 2 by (auto simp: act_simps)
  have "rules = rules_with_allowlist (repo_id r) (tables w)"
    using reads_value [OF reads_list_rules_with_allowlist rules] t2 by simp
  then have "blocked_ref_patterns checks =
      map ref_glob (filter (\<lambda>x. \<not> allowlisted actor x) (rules_with_allowlist (repo_id r) (tables w)))"
    by (simp add: checks fold_add_rule_checks c0_def)
  then have "blocked_ref_rejection checks commands \<noteq> None \<longleftrightarrow>
      (\<exists>c\<in>set commands. \<exists>x\<in>set (rules_with_allowlist (repo_id r) (tables w)).
         \<not> allowlisted actor x \<and> branch_pattern_matches (ref_glob x) (cmd_ref_name c))"
    by (auto simp: blocked_ref_rejection_def any_pattern_matches_def find_None_iff list_ex_iff)
  also have "\<dots> \<longleftrightarrow> (\<exists>c\<in>set commands. \<exists>rule\<in>set (rules_of (repo_id r) (tables w)).
         \<not> allowlisted actor (rule\<lparr>push_allowlist := allowlist_of (rule_id rule) (tables w)\<rparr>)
         \<and> branch_pattern_matches (ref_glob rule) (cmd_ref_name c))"
    by (auto simp: rules_with_allowlist_def ref_glob_def)
  also have "\<dots> \<longleftrightarrow> (\<exists>c\<in>set commands. \<exists>rule\<in>set (t_rules (tables w)). rule_repository_id rule = repo_id r
         \<and> (\<forall>uid. actor_user_id actor = Some uid \<longrightarrow> (rule_id rule, SubjectUser uid) \<notin> set (t_allowlist (tables w)))
         \<and> (\<exists>b. cmd_ref_name c = ''refs/heads/'' @ b \<and> branch_pattern_matches (rule_pattern rule) b))"
    unfolding not_allowlisted ref_glob_matches rules_of_def by auto
  finally show ?thesis by blast
qed

definition sample_repo :: repository where
  "sample_repo = \<lparr>repo_id = 1, repo_owner = OwnerUser 10, repo_name = ''demo'', repo_description = None,
     repo_visibility = Public, repo_forked_from = None\<rparr>"

definition sample_settings :: branch_protection_settings where
  "sample_settings = \<lparr>set_required_approvals = 1, set_linear_history = False, set_signed_commits = False,
     set_dismiss_stale = False, set_up_to_date = False, set_status_checks = []\<rparr>"

definition sample_world :: world where
  "sample_world =
     \<lparr>tables = empty_db\<lparr>t_repositories := [sample_repo],
        t_repo_access := [\<lparr>access_repository_id = 1, access_subject = SubjectUser 11, access_role = RWrite\<rparr>],
        t_rules := [new_rule 5 1 ''rel*'' sample_settings], t_allowlist := [(5, SubjectUser 12)]\<rparr>,
      statement_fails = [], clock = 0, next_uuid = 100, git_calls = []\<rparr>"

theorem push_gate_exact_witness:
  "blocked_ref_rejection (projr (fst (resolve_receive_checks (ActorUser 11) sample_repo None sample_world)))
     [\<lparr>old_oid = ''a'', new_oid = ''b'', cmd_ref_name = ''refs/heads/release''\<rparr>] \<noteq> None \<longleftrightarrow>
     (\<exists>c branch rule. c \<in> set [\<lparr>old_oid = ''a'', new_oid = ''b'', cmd_ref_name = ''refs/heads/release''\<rparr>]
        \<and> cmd_ref_name c = ''refs/heads/'' @ branch
        \<and> rule \<in> set (t_rules (tables sample_world)) \<and> rule_repository_id rule = repo_id sample_repo
        \<and> branch_pattern_matches (rule_pattern rule) branch
        \<and> (\<forall>uid. actor_user_id (ActorUser 11) = Some uid \<longrightarrow>
              (rule_id rule, SubjectUser uid) \<notin> set (t_allowlist (tables sample_world))))"
proof (rule push_gate_exact [where w = sample_world and limit = None])
  have "isl (fst (resolve_receive_checks (ActorUser 11) sample_repo None sample_world)) = False" by code_simp
  then show "resolve_receive_checks (ActorUser 11) sample_repo None sample_world =
      (Inr (projr (fst (resolve_receive_checks (ActorUser 11) sample_repo None sample_world))),
       snd (resolve_receive_checks (ActorUser 11) sample_repo None sample_world))"
    by (metis prod.collapse sum.collapse(2))
  show "can_administer_repository (ActorUser 11) sample_repo
      (stored_access (tables sample_world) (ActorUser 11) sample_repo) \<noteq> Inr ()"
    by code_simp
qed

end
