(* ===== verification/Access_Services.thy ===== *)
theory Access_Services
  imports Authorization
begin

text \<open>
  The service layer's error type (\<^verbatim>\<open>edda-app/src/services/mod.rs\<close>) and the services that change who
  may do what: collaborators, teams and branch protection (\<^verbatim>\<open>services/collaborator.rs\<close>,
  \<^verbatim>\<open>services/team.rs\<close>, \<^verbatim>\<open>services/branch_protection.rs\<close>), with the audit trail of
  \<^verbatim>\<open>services/audit.rs\<close>. The invariant is the one-owner rule of the schema: every repository has
  exactly one owner grant, whatever statement fails on the way.
\<close>

section \<open>Service errors\<close>

datatype git_error =
    GitInvalidName string | GitAlreadyExists string | GitNotFound string | GitIo string | GitGit string
  | GitConflict nat | GitNotFastForward

datatype service_error =
    SvNotFound | SvForbidden | SvConflict string | SvValidation string | SvUnauthorized
  | SvGit git_error | SvDb db_error

fun service_of_authz :: "authz_error \<Rightarrow> service_error" where
  "service_of_authz AuthzNotFound = SvNotFound"
| "service_of_authz AuthzForbidden = SvForbidden"

fun http_status :: "service_error \<Rightarrow> nat" where
  "http_status SvNotFound = 404"
| "http_status SvForbidden = 403"
| "http_status (SvConflict _) = 409"
| "http_status (SvValidation _) = 422"
| "http_status SvUnauthorized = 401"
| "http_status (SvGit (GitConflict _)) = 409"
| "http_status (SvGit _) = 500"
| "http_status (SvDb _) = 500"

fun error_code :: "service_error \<Rightarrow> string" where
  "error_code SvNotFound = ''not_found''"
| "error_code SvForbidden = ''forbidden''"
| "error_code (SvConflict _) = ''conflict''"
| "error_code (SvValidation _) = ''validation''"
| "error_code SvUnauthorized = ''unauthorized''"
| "error_code (SvGit (GitConflict _)) = ''conflict''"
| "error_code (SvGit _) = ''internal_error''"
| "error_code (SvDb _) = ''internal_error''"

text \<open>Decimal digits, as \<^verbatim>\<open>Display\<close> writes an unsigned number.\<close>

fun show_nat :: "nat \<Rightarrow> string" where
  "show_nat n =
     (if n < 10 then [char_of (48 + n)] else show_nat (n div 10) @ [char_of (48 + n mod 10)])"

declare show_nat.simps [simp del]

definition show_int :: "int \<Rightarrow> string" where
  "show_int n = (if n < 0 then CHR ''-'' # show_nat (nat (- n)) else show_nat (nat n))"

definition conflict_message :: "nat \<Rightarrow> string" where
  "conflict_message count = ''the merge has '' @ show_nat count @ '' unresolved conflict(s)''"

fun client_message :: "service_error \<Rightarrow> string" where
  "client_message SvNotFound = ''not found''"
| "client_message SvForbidden = ''forbidden''"
| "client_message (SvConflict msg) = msg"
| "client_message (SvValidation msg) = msg"
| "client_message SvUnauthorized = ''authentication required''"
| "client_message (SvGit (GitConflict count)) = conflict_message count"
| "client_message (SvGit _) = ''internal error''"
| "client_message (SvDb _) = ''internal error''"

text \<open>Internal failures look the same from outside. An error is reported with status 500 exactly when
  it carries the code \<^verbatim>\<open>internal_error\<close>, and any two such errors (whatever database or git failure
  is behind them) give the client the very same status, code and message; the status is in all
  cases determined by the code.\<close>

theorem internal_errors_indistinguishable:
  "(http_status e = 500 \<longleftrightarrow> error_code e = ''internal_error'')
   \<and> (http_status e = 500 \<and> http_status e' = 500 \<longrightarrow> client_message e = client_message e' \<and> error_code e = error_code e')
   \<and> (error_code e = error_code e' \<longrightarrow> http_status e = http_status e')"
  by (cases e rule: http_status.cases; cases e' rule: http_status.cases) simp_all

theorem internal_errors_indistinguishable_witness:
  "client_message (SvDb UniqueViolation) = client_message (SvGit (GitIo ''/srv/edda/secret''))"
  using internal_errors_indistinguishable [of "SvDb UniqueViolation" "SvGit (GitIo ''/srv/edda/secret'')"]
  by simp

section \<open>Audit\<close>

definition audit_record :: "audit_event \<Rightarrow> ('e, unit) act" where
  "audit_record entry =
     and_then (outcome (execute (\<lambda>d. d\<lparr>t_audit := t_audit d @ [entry]\<rparr>))) (\<lambda>_. ok ())"

definition audit_if_user :: "actor_context \<Rightarrow> (uuid \<Rightarrow> audit_event) \<Rightarrow> ('e, unit) act" where
  "audit_if_user actor entry =
     (case actor_user_id actor of None \<Rightarrow> ok () | Some uid \<Rightarrow> audit_record (entry uid))"

section \<open>Collaborators\<close>

definition authz :: "(authz_error, 'a) act \<Rightarrow> (service_error, 'a) act" where
  "authz = map_err service_of_authz"

definition dbq :: "(db_error, 'a) act \<Rightarrow> (service_error, 'a) act" where
  "dbq = map_err SvDb"

definition danger_zone_checked :: "actor_context \<Rightarrow> string \<Rightarrow> string \<Rightarrow> (service_error, repository) act" where
  "danger_zone_checked actor owner name =
     and_then (authz (repository_by_name owner name)) (\<lambda>r.
       and_then (authz (check_danger_zone actor r)) (\<lambda>_. ok r))"

definition collaborator_add :: "actor_context \<Rightarrow> string \<Rightarrow> string \<Rightarrow> string \<Rightarrow> (service_error, unit) act" where
  "collaborator_add actor owner name email =
     and_then (danger_zone_checked actor owner name) (\<lambda>r.
       and_then (dbq (select (user_by_email email))) (\<lambda>found.
         and_then (or_err SvNotFound found) (\<lambda>u.
           and_then (dbq (repo_access_grant (repo_id r) (SubjectUser (user_id u)) RWrite)) (\<lambda>_.
             audit_if_user actor (\<lambda>uid.
               \<lparr>audit_event_type = ''collaborator.add'', audit_actor_id = Some uid,
                audit_target = Some (''repository'', repo_id r),
                audit_detail = Some (JObj [(''user_id'', JId (user_id u)), (''role'', JStr ''write'')])\<rparr>)))))"

definition collaborator_remove :: "actor_context \<Rightarrow> string \<Rightarrow> string \<Rightarrow> uuid \<Rightarrow> (service_error, unit) act" where
  "collaborator_remove actor owner name target =
     and_then (danger_zone_checked actor owner name) (\<lambda>r.
       and_then (dbq (remove_grant (repo_id r) (SubjectUser target))) (\<lambda>removed.
         and_then (ensure removed SvNotFound) (\<lambda>_.
           audit_if_user actor (\<lambda>uid.
             \<lparr>audit_event_type = ''collaborator.remove'', audit_actor_id = Some uid,
              audit_target = Some (''repository'', repo_id r),
              audit_detail = Some (JObj [(''user_id'', JId target)])\<rparr>))))"

section \<open>Teams\<close>

definition org_admin_checked :: "actor_context \<Rightarrow> string \<Rightarrow> (service_error, organization) act" where
  "org_admin_checked actor org =
     and_then (authz (organization_by_name org)) (\<lambda>g.
       and_then (authz (check_administer_organization actor (org_id g))) (\<lambda>_. ok g))"

definition find_team :: "string \<Rightarrow> string \<Rightarrow> (service_error, team) act" where
  "find_team org name =
     and_then (authz (organization_by_name org)) (\<lambda>g.
       and_then (dbq (select (team_by_org_and_name (org_id g) name))) (or_err SvNotFound))"

definition parse_permission :: "string \<Rightarrow> (service_error, team_permission) act" where
  "parse_permission v = or_err (SvValidation (''unrecognized permission '' @ v)) (team_permission_from_db_str v)"

definition team_create :: "actor_context \<Rightarrow> string \<Rightarrow> string \<Rightarrow> string \<Rightarrow> (service_error, unit) act" where
  "team_create actor org name permission =
     and_then (org_admin_checked actor org) (\<lambda>g.
       and_then (parse_permission permission) (\<lambda>p.
         and_then fresh_uuid (\<lambda>tid.
           map_err (\<lambda>e. if e = UniqueViolation then SvConflict ''a team with that name already exists'' else SvDb e)
             (team_insert tid (org_id g) name p))))"

definition set_code_permission :: "actor_context \<Rightarrow> string \<Rightarrow> string \<Rightarrow> string \<Rightarrow> (service_error, unit) act" where
  "set_code_permission actor org name permission =
     and_then (org_admin_checked actor org) (\<lambda>_.
       and_then (find_team org name) (\<lambda>t.
         and_then (parse_permission permission) (\<lambda>p. dbq (set_unit_permission (team_id t) UCode p))))"

definition team_add_member :: "actor_context \<Rightarrow> string \<Rightarrow> string \<Rightarrow> string \<Rightarrow> (service_error, unit) act" where
  "team_add_member actor org name username =
     and_then (org_admin_checked actor org) (\<lambda>_.
       and_then (find_team org name) (\<lambda>t.
         and_then (dbq (select (user_by_username username))) (\<lambda>found.
           and_then (or_err SvNotFound found) (\<lambda>u. dbq (team_member_add (team_id t) (user_id u))))))"

definition team_remove_member :: "actor_context \<Rightarrow> string \<Rightarrow> string \<Rightarrow> string \<Rightarrow> (service_error, unit) act" where
  "team_remove_member actor org name username =
     and_then (org_admin_checked actor org) (\<lambda>_.
       and_then (find_team org name) (\<lambda>t.
         and_then (dbq (select (user_by_username username))) (\<lambda>found.
           and_then (or_err SvNotFound found) (\<lambda>u.
             and_then (dbq (team_member_remove (team_id t) (user_id u))) (\<lambda>removed.
               ensure removed SvNotFound)))))"

definition no_code_access :: string where
  "no_code_access =
     ''this team has no Code-unit access configured '' @ map char_of [226, 128, 148 :: nat]
       @ '' set a permission before attaching it''"

definition attach_to_repo ::
  "actor_context \<Rightarrow> string \<Rightarrow> string \<Rightarrow> string \<Rightarrow> string \<Rightarrow> (service_error, unit) act" where
  "attach_to_repo actor r_owner r_name t_org t_name =
     and_then (danger_zone_checked actor r_owner r_name) (\<lambda>r.
       and_then (find_team t_org t_name) (\<lambda>t.
         and_then (dbq (select (find_unit_permission (team_id t) UCode))) (\<lambda>override.
           and_then (or_err (SvConflict no_code_access) (code_role t override)) (\<lambda>role.
             dbq (repo_access_grant (repo_id r) (SubjectTeam (team_id t)) role)))))"

section \<open>Branch protection\<close>

record set_branch_protection_input =
  input_pattern :: string
  input_settings :: branch_protection_settings
  input_allowlist :: "string list"

definition administer_checked :: "actor_context \<Rightarrow> string \<Rightarrow> string \<Rightarrow> (service_error, repository) act" where
  "administer_checked actor owner name =
     and_then (authz (repository_by_name owner name)) (\<lambda>r.
       and_then (authz (check_administer actor r)) (\<lambda>_. ok r))"

definition resolve_subject :: "string \<Rightarrow> (service_error, access_subject list) act" where
  "resolve_subject username =
     and_then (dbq (select (user_by_username username))) (\<lambda>found.
       and_then (or_err (SvValidation (''no such user: '' @ username)) found) (\<lambda>u.
         ok [SubjectUser (user_id u)]))"

definition branch_protection_set ::
  "actor_context \<Rightarrow> string \<Rightarrow> string \<Rightarrow> set_branch_protection_input \<Rightarrow> (service_error, unit) act" where
  "branch_protection_set actor owner name input =
     and_then (administer_checked actor owner name) (\<lambda>r.
       and_then (ensure (trim (input_pattern input) \<noteq> [] \<and> 0 \<le> set_required_approvals (input_settings input))
           (SvValidation ''a branch pattern and a non-negative required-approvals count are needed'')) (\<lambda>_.
         and_then (collect (input_allowlist input) resolve_subject) (\<lambda>subjects.
           and_then fresh_uuid (\<lambda>i.
             and_then (dbq (upsert_by_pattern i (repo_id r) (trim (input_pattern input)) (input_settings input)))
               (\<lambda>rid. dbq (replace_allowlist rid subjects))))))"

definition branch_protection_delete ::
  "actor_context \<Rightarrow> string \<Rightarrow> string \<Rightarrow> uuid \<Rightarrow> (service_error, unit) act" where
  "branch_protection_delete actor owner name i =
     and_then (administer_checked actor owner name) (\<lambda>r.
       and_then (dbq (rule_delete (repo_id r) i)) (\<lambda>deleted. ensure deleted SvNotFound))"

section \<open>One owner per repository\<close>

definition owner_count :: "uuid \<Rightarrow> db \<Rightarrow> nat" where
  "owner_count rid d =
     length (filter (\<lambda>a. access_repository_id a = rid \<and> access_role a = ROwner) (t_repo_access d))"

definition one_owner :: "db \<Rightarrow> bool" where
  "one_owner d \<longleftrightarrow>
     (\<forall>r\<in>set (t_repositories d). owner_count (repo_id r) d = 1)
     \<and> (\<forall>a\<in>set (t_repo_access d). \<exists>r\<in>set (t_repositories d). repo_id r = access_repository_id a)
     \<and> distinct (map repo_id (t_repositories d))
     \<and> distinct (map (\<lambda>a. (access_repository_id a, access_subject a)) (t_repo_access d))"

interpretation ownership: db_invariant one_owner
  by unfold_locales (simp add: one_owner_def empty_db_def)

lemma one_owner_frame:
  "t_repositories d' = t_repositories d \<Longrightarrow> t_repo_access d' = t_repo_access d \<Longrightarrow> one_owner d \<Longrightarrow> one_owner d'"
  by (simp add: one_owner_def owner_count_def)

lemma one_owner_ids:
  assumes "one_owner d" "map repo_id (t_repositories d') = map repo_id (t_repositories d)"
    "t_repo_access d' = t_repo_access d"
  shows "one_owner d'"
proof -
  have alt: "one_owner x \<longleftrightarrow>
     (\<forall>i\<in>set (map repo_id (t_repositories x)). owner_count i x = 1)
     \<and> (\<forall>a\<in>set (t_repo_access x). access_repository_id a \<in> set (map repo_id (t_repositories x)))
     \<and> distinct (map repo_id (t_repositories x))
     \<and> distinct (map (\<lambda>a. (access_repository_id a, access_subject a)) (t_repo_access x))" for x
    by (auto simp: one_owner_def image_iff) metis+
  show ?thesis using assms(1) unfolding alt assms(2,3) owner_count_def by simp
qed

lemma one_owner_grant_row: "one_owner d \<Longrightarrow> grant_row rid subject role d = Inr (u, d') \<Longrightarrow> one_owner d'"
proof -
  assume inv: "one_owner d" and g: "grant_row rid subject role d = Inr (u, d')"
  show "one_owner d'"
  proof (cases "grant_conflicts rid subject role (t_repo_access d)")
    case True
    then show ?thesis using g inv by (simp add: grant_row_def)
  next
    case False
    then obtain r where r: "r \<in> set (t_repositories d)" "repo_id r = rid"
      and d': "d' = d\<lparr>t_repo_access := t_repo_access d @
                  [\<lparr>access_repository_id = rid, access_subject = subject, access_role = role\<rparr>]\<rparr>"
      using g by (auto simp: grant_row_def list_ex_iff split: if_splits)
    have "role \<noteq> ROwner"
    proof
      assume "role = ROwner"
      then have "owner_count rid d = 0"
        using False by (auto simp: grant_conflicts_def owner_count_def list_ex_iff filter_empty_conv)
      then show False using inv r by (auto simp: one_owner_def)
    qed
    then have "owner_count i d' = owner_count i d" for i by (simp add: d' owner_count_def)
    then show ?thesis
      using inv False r by (auto simp: one_owner_def d' grant_conflicts_def list_ex_iff)
  qed
qed

lemma keeps_grant: "keeps one_owner (repo_access_grant rid subject role)"
  unfolding repo_access_grant_def by (rule ownership.keeps_sql) (rule one_owner_grant_row)

lemma keeps_remove_grant: "keeps one_owner (remove_grant rid subject)"
  unfolding remove_grant_def
proof (rule ownership.keeps_sql)
  fix d x d'
  assume inv: "one_owner d" and
    "Inr (0 < rows_affected (removable rid subject) (t_repo_access d),
          d\<lparr>t_repo_access := delete_where (removable rid subject) (t_repo_access d)\<rparr>) = Inr (x, d')"
  then have d': "d' = d\<lparr>t_repo_access := delete_where (removable rid subject) (t_repo_access d)\<rparr>" by auto
  have "owner_count i d' = owner_count i d" for i
    by (simp add: d' owner_count_def delete_where_def removable_def cong: conj_cong)
      (metis (mono_tags, lifting))
  then show "one_owner d'"
    using inv by (auto simp: one_owner_def d' delete_where_def distinct_map inj_on_def)
qed

lemma keeps_insert_with_owner_grant: "keeps one_owner (insert_with_owner_grant r grantee)"
  unfolding keeps_def
proof (intro allI impI)
  fix w :: world assume inv: "one_owner (tables w)"
  obtain res w' where run: "insert_with_owner_grant r grantee w = (res, w')" by fastforce
  show "one_owner (tables (snd (insert_with_owner_grant r grantee w)))"
  proof (cases res)
    case (Inl e)
    then show ?thesis using run inv transaction_Inl unfolding insert_with_owner_grant_def by fastforce
  next
    case (Inr u)
    define d where "d = tables w"
    from run Inr obtain w1 w2 where "tables w1 = d" "tables w' = tables w2" and
      body: "and_then (map_err (\<lambda>e. if e = UniqueViolation then RepoAlreadyExists (repo_name r) else InsertRepoDb e)
                    (sql (insert_repository_row r)))
         (\<lambda>_. map_err InsertRepoDb (sql (insert_owner_row (repo_id r) grantee))) w1 = (Inr u, w2)"
      unfolding insert_with_owner_grant_def d_def by (auto elim: transaction_Inr)
    then have fresh: "\<not> list_ex (\<lambda>x. repo_id x = repo_id r \<or> (repo_owner x = repo_owner r \<and> repo_name x = repo_name r))
           (t_repositories d)"
      and no_conflict: "\<not> grant_conflicts (repo_id r) grantee ROwner (t_repo_access d)"
      and t: "tables w' = d\<lparr>t_repositories := t_repositories d @ [r],
         t_repo_access := t_repo_access d @
            [\<lparr>access_repository_id = repo_id r, access_subject = grantee, access_role = ROwner\<rparr>]\<rparr>"
      by (auto simp: act_simps sql_def Let_def insert_repository_row_def insert_owner_row_def
          split: if_splits sum.splits prod.splits)
    have "owner_count i (tables w') = owner_count i d + (if i = repo_id r then 1 else 0)" for i
      by (simp add: t owner_count_def)
    moreover have "owner_count (repo_id r) d = 0"
      using no_conflict by (auto simp: grant_conflicts_def owner_count_def list_ex_iff filter_empty_conv)
    ultimately have "one_owner (tables w')"
      using inv fresh no_conflict by (auto simp: one_owner_def t d_def list_ex_iff grant_conflicts_def)
    then show ?thesis using run by simp
  qed
qed

lemma keeps_frame:
  "(\<And>d. t_repositories (f d) = t_repositories d \<and> t_repo_access (f d) = t_repo_access d) \<Longrightarrow>
     keeps one_owner (execute f)"
  by (rule ownership.keeps_execute) (metis one_owner_frame)

lemma keeps_audit: "keeps one_owner (audit_if_user actor entry)"
  unfolding audit_if_user_def audit_record_def
  by (auto split: option.splits intro!: ownership.keeps_rules keeps_frame)

lemma read_only_decide: "read_only (decide d)"
  by (cases d) (simp_all add: read_only_ok read_only_err)

lemma read_only_access_for: "read_only (access_for actor r)"
  unfolding access_for_def hide_def by (intro read_only_rules)

lemma read_only_repository_by_name: "read_only (repository_by_name owner name)"
  unfolding repository_by_name_def hide_def find_by_owner_username_and_name_def resolve_owner_def
  by (intro read_only_rules)

lemma read_only_organization_by_name: "read_only (organization_by_name name)"
  unfolding organization_by_name_def hide_def by (intro read_only_rules)

lemma read_only_danger_zone_checked: "read_only (danger_zone_checked actor owner name)"
  unfolding danger_zone_checked_def authz_def check_danger_zone_def
  by (intro read_only_rules read_only_repository_by_name read_only_access_for read_only_decide)

lemma read_only_administer_checked: "read_only (administer_checked actor owner name)"
  unfolding administer_checked_def authz_def check_administer_def
  by (intro read_only_rules read_only_repository_by_name read_only_access_for read_only_decide)

lemma read_only_org_admin_checked: "read_only (org_admin_checked actor org)"
  unfolding org_admin_checked_def authz_def check_administer_organization_def hide_def
  by (intro read_only_rules read_only_organization_by_name)

lemma read_only_find_team: "read_only (find_team org name)"
  unfolding find_team_def authz_def dbq_def by (intro read_only_rules read_only_organization_by_name)

lemmas read_only_lookups =
  read_only_danger_zone_checked read_only_administer_checked read_only_org_admin_checked read_only_find_team

lemmas keeps_owner_rules =
  ownership.keeps_and_then ownership.keeps_map_err keeps_grant keeps_remove_grant keeps_audit
  keeps_read_only [OF read_only_danger_zone_checked] keeps_read_only [OF read_only_administer_checked]
  keeps_read_only [OF read_only_org_admin_checked] keeps_read_only [OF read_only_find_team]
  ownership.keeps_or_err ownership.keeps_ensure ownership.keeps_select ownership.keeps_ok
  ownership.keeps_fresh

text \<open>The operations on ownership and grants, each with its arguments.\<close>

datatype access_op =
    OpCreate repository access_subject
  | OpAddCollaborator actor_context string string string
  | OpRemoveCollaborator actor_context string string uuid
  | OpAttachTeam actor_context string string string string
  | OpAddMember actor_context string string string
  | OpRemoveMember actor_context string string string
  | OpSetVisibility uuid visibility

fun run_access_op :: "access_op \<Rightarrow> world \<Rightarrow> world" where
  "run_access_op (OpCreate r s) w = snd (insert_with_owner_grant r s w)"
| "run_access_op (OpAddCollaborator actor owner name email) w = snd (collaborator_add actor owner name email w)"
| "run_access_op (OpRemoveCollaborator actor owner name t) w = snd (collaborator_remove actor owner name t w)"
| "run_access_op (OpAttachTeam actor owner name org team) w = snd (attach_to_repo actor owner name org team w)"
| "run_access_op (OpAddMember actor org team u) w = snd (team_add_member actor org team u w)"
| "run_access_op (OpRemoveMember actor org team u) w = snd (team_remove_member actor org team u w)"
| "run_access_op (OpSetVisibility r v) w = snd (update_visibility r v w)"

lemma keeps_snd: "keeps I m \<Longrightarrow> I (tables w) \<Longrightarrow> I (tables (snd (m w)))"
  by (simp add: keeps_def)

lemma keeps_collaborator_add: "keeps one_owner (collaborator_add actor owner name email)"
  unfolding collaborator_add_def dbq_def by (intro keeps_owner_rules)

lemma keeps_collaborator_remove: "keeps one_owner (collaborator_remove actor owner name t)"
  unfolding collaborator_remove_def dbq_def by (intro keeps_owner_rules)

lemma keeps_attach: "keeps one_owner (attach_to_repo actor owner name org team)"
  unfolding attach_to_repo_def dbq_def by (intro keeps_owner_rules)

lemma keeps_member_add: "keeps one_owner (team_member_add tid uid)"
  unfolding team_member_add_def
  by (rule ownership.keeps_sql) (auto split: if_splits intro: one_owner_frame)

lemma keeps_member_remove: "keeps one_owner (team_member_remove tid uid)"
  unfolding team_member_remove_def
  by (rule ownership.keeps_sql) (auto split: if_splits intro: one_owner_frame)

lemma keeps_add_member: "keeps one_owner (team_add_member actor org team u)"
  unfolding team_add_member_def dbq_def by (intro keeps_owner_rules keeps_member_add)

lemma keeps_remove_member: "keeps one_owner (team_remove_member actor org team u)"
  unfolding team_remove_member_def dbq_def by (intro keeps_owner_rules keeps_member_remove)

lemma keeps_update_visibility: "keeps one_owner (update_visibility rid v)"
  unfolding update_visibility_def
  by (rule ownership.keeps_execute, erule one_owner_ids) (simp_all add: map_update_where)

lemma one_owner_run_op: "one_owner (tables w) \<Longrightarrow> one_owner (tables (run_access_op op w))"
  by (cases op) (auto intro!: keeps_snd keeps_insert_with_owner_grant keeps_collaborator_add
      keeps_collaborator_remove keeps_attach keeps_add_member keeps_remove_member keeps_update_visibility)

text \<open>C34. Every repository has exactly one owner. From tables without repositories, any sequence of
  repository creations, collaborator and team-grant changes, team membership changes and visibility
  changes, with any statements failing in any of them, leaves each repository with exactly one
  owner grant, no grant without its repository, and at most one grant per repository and grantee.\<close>

theorem one_owner_always:
  assumes "t_repositories (tables w) = []" "t_repo_access (tables w) = []"
  shows "one_owner (tables (fold run_access_op ops w))"
proof -
  have "one_owner (tables w)" using assms by (simp add: one_owner_def)
  then show ?thesis by (induction ops arbitrary: w) (auto intro: one_owner_run_op)
qed

theorem one_owner_always_witness:
  "one_owner (tables (fold run_access_op
     [OpCreate sample_repo (SubjectUser 10), OpSetVisibility 1 Private,
      OpRemoveCollaborator (ActorUser 10) ''alice'' ''demo'' 10]
     \<lparr>tables = empty_db\<lparr>t_users := [\<lparr>user_id = 10, user_username = ''alice'', user_email = ''a@x'',
        user_is_admin = False, user_disabled_at = None, user_email_notifications = True\<rparr>]\<rparr>,
      statement_fails = [], clock = 0, next_uuid = 100, git_calls = []\<rparr>))"
  by (rule one_owner_always) (simp_all add: empty_db_def)

section \<open>Replacing an allowlist\<close>

lemma allow_row_cases:
  "allow_row i s d = Inr (u, d') \<Longrightarrow> set (t_allowlist d') = insert (i, s) (set (t_allowlist d))"
  by (auto simp: allow_row_def split: if_splits)

lemma sql_allow_row:
  "sql (allow_row i s) w = (r, w') \<Longrightarrow>
     (if isl r then tables w' = tables w
      else set (t_allowlist (tables w')) = insert (i, s) (set (t_allowlist (tables w))))"
  by (auto simp: sql_def Let_def split: if_splits sum.splits prod.splits dest: allow_row_cases)

lemma allow_loop:
  "for_each ss (\<lambda>s. sql (allow_row i s)) w = (r, w') \<Longrightarrow>
     (\<exists>k. set (t_allowlist (tables w')) = set (t_allowlist (tables w)) \<union> Pair i ` set (take k ss)
        \<and> (\<not> isl r \<longrightarrow> k = length ss))"
proof (induction ss arbitrary: w)
  case Nil
  then show ?case by (auto simp: ok_def)
next
  case (Cons s ss)
  obtain r1 w1 where 1: "sql (allow_row i s) w = (r1, w1)" by fastforce
  show ?case
  proof (cases r1)
    case (Inl e)
    then have "tables w' = tables w" "isl r" using Cons.prems 1 sql_allow_row [OF 1] by (auto simp: and_then_def)
    then show ?thesis by (intro exI [of _ 0]) simp
  next
    case (Inr u)
    then have rest: "for_each ss (\<lambda>s. sql (allow_row i s)) w1 = (r, w')"
      using Cons.prems 1 by (simp add: and_then_def)
    have "set (t_allowlist (tables w1)) = insert (i, s) (set (t_allowlist (tables w)))"
      using sql_allow_row [OF 1] Inr by simp
    moreover obtain k where "set (t_allowlist (tables w')) = set (t_allowlist (tables w1)) \<union> Pair i ` set (take k ss)"
      "\<not> isl r \<longrightarrow> k = length ss" using Cons.IH [OF rest] by blast
    ultimately show ?thesis by (intro exI [of _ "Suc k"]) auto
  qed
qed

text \<open>Replacing a rule's push allowlist never lets a stranger in, wherever it is cut off. The
  replacement is not one transaction; if one of its statements fails, whoever is on the rule's list
  was on it before or is in the new list, no other rule's list has changed, and if it succeeds the
  list is exactly the new one.\<close>

theorem replace_allowlist_failsafe:
  "(\<forall>s. (i, s) \<in> set (t_allowlist (tables (snd (replace_allowlist i subjects w)))) \<longrightarrow>
        (i, s) \<in> set (t_allowlist (tables w)) \<or> s \<in> set subjects)
   \<and> (\<forall>j s. j \<noteq> i \<longrightarrow> (j, s) \<in> set (t_allowlist (tables (snd (replace_allowlist i subjects w))))
        \<longleftrightarrow> (j, s) \<in> set (t_allowlist (tables w)))
   \<and> (fst (replace_allowlist i subjects w) = Inr () \<longrightarrow>
        set (allowlist_of i (tables (snd (replace_allowlist i subjects w)))) = set subjects)"
proof -
  let ?clear = "\<lambda>d. d\<lparr>t_allowlist := delete_where (\<lambda>a. fst a = i) (t_allowlist d)\<rparr>"
  obtain r1 w1 where 1: "execute ?clear w = (r1, w1)" by fastforce
  show ?thesis
  proof (cases r1)
    case (Inl e)
    then have "tables w1 = tables w"
      using 1 by (auto simp: execute_def sql_def Let_def split: if_splits)
    then show ?thesis using 1 Inl by (simp add: replace_allowlist_def and_then_def)
  next
    case (Inr u)
    then have t1: "set (t_allowlist (tables w1)) = {a \<in> set (t_allowlist (tables w)). fst a \<noteq> i}"
      using execute_Inr [of ?clear w u w1] 1 by simp
    obtain r w' where 2: "for_each subjects (\<lambda>s. sql (allow_row i s)) w1 = (r, w')" by fastforce
    have run: "replace_allowlist i subjects w = (r, w')"
      using 1 2 Inr by (simp add: replace_allowlist_def and_then_def)
    obtain k where k: "set (t_allowlist (tables w')) =
        {a \<in> set (t_allowlist (tables w)). fst a \<noteq> i} \<union> Pair i ` set (take k subjects)"
        "\<not> isl r \<longrightarrow> k = length subjects"
      using allow_loop [OF 2] t1 by auto
    have "set (allowlist_of i (tables w')) = {s. (i, s) \<in> set (t_allowlist (tables w'))}"
      by (force simp: allowlist_of_def)
    then have "r = Inr () \<longrightarrow> set (allowlist_of i (tables w')) = set subjects" using k by auto
    then show ?thesis unfolding run using k by (auto dest: in_set_takeD)
  qed
qed

theorem replace_allowlist_failsafe_witness:
  "(5, SubjectUser 7) \<notin> set (t_allowlist (tables (snd (replace_allowlist 5 [SubjectUser 11]
      (sample_world\<lparr>statement_fails := [False, True]\<rparr>)))))"
  using replace_allowlist_failsafe [of 5 "[SubjectUser 11]" "sample_world\<lparr>statement_fails := [False, True]\<rparr>"]
  by (auto simp: sample_world_def)

section \<open>What the services allow\<close>

definition alice :: user where
  "alice = \<lparr>user_id = 10, user_username = ''alice'', user_email = ''alice@example.com'', user_is_admin = False,
     user_disabled_at = None, user_email_notifications = True\<rparr>"

definition bob :: user where
  "bob = \<lparr>user_id = 11, user_username = ''bob'', user_email = ''bob@example.com'', user_is_admin = False,
     user_disabled_at = None, user_email_notifications = True\<rparr>"

definition org_world :: world where
  "org_world =
     \<lparr>tables = empty_db\<lparr>t_users := [alice], t_organizations := [\<lparr>org_id = 20, org_name = ''acme'', org_display_name = None\<rparr>],
        t_teams := [\<lparr>team_id = 30, team_organization_id = 20, team_name = ''Owners'', team_permission = TPAdmin\<rparr>],
        t_team_members := [(30, 10)]\<rparr>,
      statement_fails = [], clock = 0, next_uuid = 100, git_calls = []\<rparr>"

text \<open>The last member of an organization's Owners team can be removed, after which nobody administers
  the organization (the comment on \<^verbatim>\<open>OrganizationRepo::insert\<close> says it is never left so).\<close>

lemma last_owner_removed_tables:
  "fst (team_remove_member (ActorUser 10) ''acme'' ''Owners'' ''alice'' org_world) = Inr ()
   \<and> t_team_members (tables (snd (team_remove_member (ActorUser 10) ''acme'' ''Owners'' ''alice'' org_world))) = []"
  by code_simp

theorem last_organization_owner_removable:
  "fst (team_remove_member (ActorUser 10) ''acme'' ''Owners'' ''alice'' org_world) = Inr ()
   \<and> fst (check_administer_organization actor 20
        (snd (team_remove_member (ActorUser 10) ''acme'' ''Owners'' ''alice'' org_world))) \<noteq> Inr ()"
proof -
  let ?w = "snd (team_remove_member (ActorUser 10) ''acme'' ''Owners'' ''alice'' org_world)"
  have "fst (check_administer_organization actor 20 ?w) \<noteq> Inr ()"
  proof
    assume "fst (check_administer_organization actor 20 ?w) = Inr ()"
    then obtain w' where "check_administer_organization actor 20 ?w = (Inr (), w')" by (metis prod.collapse)
    then obtain uid teams w1 t where
      "select (teams_for_user_in_organization 20 uid) ?w = (Inr teams, w1)" "t \<in> set teams"
      by (auto simp: check_administer_organization_def act_simps list_ex_iff split: option.splits)
    then show False
      using select_Inr last_owner_removed_tables by (fastforce simp: teams_for_user_in_organization_def)
  qed
  then show ?thesis using last_owner_removed_tables by blast
qed

definition collaborator_world :: world where
  "collaborator_world =
     \<lparr>tables = empty_db\<lparr>t_users := [alice, bob], t_repositories := [sample_repo],
        t_repo_access := [\<lparr>access_repository_id = 1, access_subject = SubjectUser 10, access_role = ROwner\<rparr>,
                          \<lparr>access_repository_id = 1, access_subject = SubjectUser 11, access_role = RRead\<rparr>]\<rparr>,
      statement_fails = [], clock = 0, next_uuid = 100, git_calls = []\<rparr>"

text \<open>Adding a collaborator who already holds a lower grant reports success (and is audited as a write
  grant) but changes nothing.\<close>

theorem collaborator_add_does_not_upgrade:
  "fst (collaborator_add (ActorUser 10) ''alice'' ''demo'' ''bob@example.com'' collaborator_world) = Inr ()
   \<and> map_option access_role (access_find 1 (SubjectUser 11)
        (tables (snd (collaborator_add (ActorUser 10) ''alice'' ''demo'' ''bob@example.com'' collaborator_world)))) = Some RRead"
  by code_simp

end
