(* ===== verification/Instance_Policy.thy ===== *)
theory Instance_Policy
  imports Repositories
begin

text \<open>
  Instance-wide policy: the registration rules of \<^verbatim>\<open>edda-domain/src/registration.rs\<close> and the
  runtime settings of \<^verbatim>\<open>instance_settings.rs\<close>, where rows of the database override defaults that
  come from the environment. The lemmas show which row decides each field and that a saved
  snapshot is read back as it was, whatever the defaults.
\<close>

section \<open>Registration\<close>

datatype registration_mode = RegOpen | RegApproval | RegClosed

definition registration_mode_parse :: "string \<Rightarrow> registration_mode option" where
  "registration_mode_parse value =
     (let v = to_ascii_lowercase (trim value) in
      if v = ''open'' then Some RegOpen
      else if v = ''approval'' then Some RegApproval
      else if v = ''closed'' then Some RegClosed else None)"

fun registration_mode_as_db_str :: "registration_mode \<Rightarrow> string" where
  "registration_mode_as_db_str RegOpen = ''open''"
| "registration_mode_as_db_str RegApproval = ''approval''"
| "registration_mode_as_db_str RegClosed = ''closed''"

record registration_policy =
  policy_mode :: registration_mode
  allowed_email_domains :: "string list"
  require_email_verification :: bool

definition default_registration_policy :: registration_policy where
  "default_registration_policy =
     \<lparr>policy_mode = RegOpen, allowed_email_domains = [], require_email_verification = False\<rparr>"

definition permits_signup :: "registration_policy \<Rightarrow> bool" where
  "permits_signup p \<longleftrightarrow> policy_mode p \<noteq> RegClosed"

definition auto_approves :: "registration_policy \<Rightarrow> bool" where
  "auto_approves p \<longleftrightarrow> policy_mode p \<noteq> RegApproval"

text \<open>\<^verbatim>\<open>email.rsplit('@').next()\<close>: what follows the last at sign, the whole text when there is none.\<close>

definition after_last :: "char \<Rightarrow> string \<Rightarrow> string" where
  "after_last d s = rev (takeWhile (\<lambda>c. c \<noteq> d) (rev s))"

definition email_domain_allowed :: "registration_policy \<Rightarrow> string \<Rightarrow> bool" where
  "email_domain_allowed p email =
     (if allowed_email_domains p = [] then True
      else let domain = after_last (CHR ''@'') email in
           if domain = [] then False
           else list_ex (\<lambda>allowed. eq_ignore_ascii_case allowed (to_ascii_lowercase domain))
                  (allowed_email_domains p))"

lemma after_last_snoc: "d \<notin> set b \<Longrightarrow> after_last d (a @ d # b) = b"
proof -
  assume "d \<notin> set b"
  then have "takeWhile (\<lambda>c. c \<noteq> d) (rev b @ d # rev a) = rev b"
    by (subst takeWhile_append2) auto
  then show ?thesis by (simp add: after_last_def)
qed

text \<open>Only what follows the last at sign counts, compared without regard to ASCII case: a listed
  domain inside the local part, or as a mere prefix or suffix of the real domain, does not help.\<close>

lemma email_domain_allowed_iff:
  assumes "CHR ''@'' \<notin> set dm" "allowed_email_domains p \<noteq> []"
  shows "email_domain_allowed p (loc @ CHR ''@'' # dm) \<longleftrightarrow>
    dm \<noteq> [] \<and> to_ascii_lowercase dm \<in> to_ascii_lowercase ` set (allowed_email_domains p)"
  using assms
  by (simp add: email_domain_allowed_def after_last_snoc Let_def list_ex_iff eq_ignore_ascii_case_def
      image_iff Bex_def) (metis list.exhaust)

section \<open>Settings\<close>

definition key_registration_mode :: string where
  "key_registration_mode = ''registration_mode''"

definition key_default_repo_visibility :: string where
  "key_default_repo_visibility = ''default_repo_visibility''"

definition key_welcome_message :: string where
  "key_welcome_message = ''welcome_message''"

definition key_require_signin_to_view :: string where
  "key_require_signin_to_view = ''require_signin_to_view''"

lemmas key_defs = key_registration_mode_def key_default_repo_visibility_def
  key_welcome_message_def key_require_signin_to_view_def

definition max_welcome_message_len :: nat where
  "max_welcome_message_len = 4000"

record settings_defaults =
  def_registration_mode :: registration_mode
  def_default_repo_visibility :: visibility
  def_require_signin_to_view :: bool

record instance_settings =
  set_registration_mode :: registration_mode
  set_default_repo_visibility :: visibility
  set_welcome_message :: "string option"
  set_require_signin_to_view :: bool

definition parse_bool :: "string \<Rightarrow> bool option" where
  "parse_bool value =
     (let v = to_ascii_lowercase (trim value) in
      if v = ''true'' \<or> v = ''1'' \<or> v = ''yes'' \<or> v = ''on'' then Some True
      else if v = ''false'' \<or> v = ''0'' \<or> v = ''no'' \<or> v = ''off'' then Some False else None)"

fun bool_str :: "bool \<Rightarrow> string" where
  "bool_str True = ''true''"
| "bool_str False = ''false''"

definition apply_override :: "string \<times> string \<Rightarrow> instance_settings \<Rightarrow> instance_settings" where
  "apply_override kv s =
     (case kv of (key, value) \<Rightarrow>
        if key = key_registration_mode then
          (case registration_mode_parse value of
             Some mode \<Rightarrow> s\<lparr>set_registration_mode := mode\<rparr> | None \<Rightarrow> s)
        else if key = key_default_repo_visibility then
          (case visibility_from_db_str (trim value) of
             Some v \<Rightarrow> s\<lparr>set_default_repo_visibility := v\<rparr> | None \<Rightarrow> s)
        else if key = key_welcome_message then
          (let trimmed = trim value in
           s\<lparr>set_welcome_message := (if trimmed = [] then None else Some trimmed)\<rparr>)
        else if key = key_require_signin_to_view then
          (case parse_bool value of
             Some flag \<Rightarrow> s\<lparr>set_require_signin_to_view := flag\<rparr> | None \<Rightarrow> s)
        else s)"

definition resolve_settings :: "settings_defaults \<Rightarrow> (string \<times> string) list \<Rightarrow> instance_settings" where
  "resolve_settings d overrides =
     fold apply_override overrides
       \<lparr>set_registration_mode = def_registration_mode d,
        set_default_repo_visibility = def_default_repo_visibility d,
        set_welcome_message = None,
        set_require_signin_to_view = def_require_signin_to_view d\<rparr>"

definition to_rows :: "instance_settings \<Rightarrow> (string \<times> string) list" where
  "to_rows s =
     [(key_registration_mode, registration_mode_as_db_str (set_registration_mode s)),
      (key_default_repo_visibility, visibility_as_db_str (set_default_repo_visibility s)),
      (key_welcome_message, (case set_welcome_message s of None \<Rightarrow> [] | Some m \<Rightarrow> m)),
      (key_require_signin_to_view, bool_str (set_require_signin_to_view s))]"

definition validate_settings :: "instance_settings \<Rightarrow> bool" where
  "validate_settings s =
     (case set_welcome_message s of
        Some message \<Rightarrow> chars_count message \<le> max_welcome_message_len
      | None \<Rightarrow> True)"

section \<open>Which row decides\<close>

definition last_parsed :: "(string \<Rightarrow> 'a option) \<Rightarrow> string \<Rightarrow> 'a \<Rightarrow> (string \<times> string) list \<Rightarrow> 'a" where
  "last_parsed p k dflt rows =
     last (dflt # List.map_filter (\<lambda>(key, v). if key = k then p v else None) rows)"

lemma last_parsed_Nil [simp]: "last_parsed p k d [] = d"
  by (simp add: last_parsed_def List.map_filter_simps)

lemma last_parsed_Cons:
  "last_parsed p k d (kv # rows) =
     last_parsed p k (case (if fst kv = k then p (snd kv) else None) of Some x \<Rightarrow> x | None \<Rightarrow> d) rows"
  by (cases kv) (auto simp: last_parsed_def List.map_filter_simps split: option.splits)

definition welcome_of :: "string \<Rightarrow> string option option" where
  "welcome_of v = Some (if trim v = [] then None else Some (trim v))"

lemma fold_apply_override:
  "fold apply_override rows s =
     \<lparr>set_registration_mode =
        last_parsed registration_mode_parse key_registration_mode (set_registration_mode s) rows,
      set_default_repo_visibility =
        last_parsed (\<lambda>v. visibility_from_db_str (trim v)) key_default_repo_visibility
          (set_default_repo_visibility s) rows,
      set_welcome_message = last_parsed welcome_of key_welcome_message (set_welcome_message s) rows,
      set_require_signin_to_view =
        last_parsed parse_bool key_require_signin_to_view (set_require_signin_to_view s) rows\<rparr>"
proof (induction rows arbitrary: s)
  case (Cons kv rows)
  show ?case
    unfolding fold_Cons comp_apply Cons.IH last_parsed_Cons
    by (cases kv)
       (auto simp: apply_override_def welcome_of_def key_defs Let_def split: option.splits)
qed simp

text \<open>Each effective setting is the value of the last row with its key that parses, and the
  environment default when no row of its key parses; so a row with an unknown key or an
  unreadable value never changes a setting and never fails the load.\<close>

theorem resolve_settings_last_valid_row:
  "resolve_settings d rows =
     \<lparr>set_registration_mode =
        last_parsed registration_mode_parse ''registration_mode'' (def_registration_mode d) rows,
      set_default_repo_visibility =
        last_parsed (\<lambda>v. visibility_from_db_str (trim v)) ''default_repo_visibility''
          (def_default_repo_visibility d) rows,
      set_welcome_message =
        last_parsed (\<lambda>v. Some (if trim v = [] then None else Some (trim v))) ''welcome_message'' None rows,
      set_require_signin_to_view =
        last_parsed parse_bool ''require_signin_to_view'' (def_require_signin_to_view d) rows\<rparr>"
proof -
  have "welcome_of = (\<lambda>v. Some (if trim v = [] then None else Some (trim v)))"
    by (simp add: welcome_of_def fun_eq_iff)
  then show ?thesis by (simp add: resolve_settings_def fold_apply_override key_defs)
qed

section \<open>Saving and loading\<close>

lemma registration_mode_roundtrip:
  "registration_mode_parse (registration_mode_as_db_str m) = Some m"
proof (cases m)
  case RegOpen
  moreover have "registration_mode_parse (registration_mode_as_db_str RegOpen) = Some RegOpen" by code_simp
  ultimately show ?thesis by simp
next
  case RegApproval
  moreover have "registration_mode_parse (registration_mode_as_db_str RegApproval) = Some RegApproval"
    by code_simp
  ultimately show ?thesis by simp
next
  case RegClosed
  moreover have "registration_mode_parse (registration_mode_as_db_str RegClosed) = Some RegClosed"
    by code_simp
  ultimately show ?thesis by simp
qed

lemma visibility_trim_roundtrip: "visibility_from_db_str (trim (visibility_as_db_str v)) = Some v"
proof -
  have "trim (visibility_as_db_str Public) = visibility_as_db_str Public" by code_simp
  moreover have "trim (visibility_as_db_str Private) = visibility_as_db_str Private" by code_simp
  ultimately have "trim (visibility_as_db_str v) = visibility_as_db_str v" by (cases v) simp_all
  then show ?thesis by (simp add: visibility_codec.dec_enc)
qed

lemma parse_bool_roundtrip: "parse_bool (bool_str b) = Some b"
proof -
  have "parse_bool (bool_str True) = Some True" by code_simp
  moreover have "parse_bool (bool_str False) = Some False" by code_simp
  ultimately show ?thesis by (cases b) simp_all
qed

text \<open>Saving a settings value and loading it again gives the value back under any environment
  defaults, provided its welcome message is in the trimmed form that loading produces.\<close>

theorem settings_rows_roundtrip:
  assumes "\<And>m. set_welcome_message s = Some m \<Longrightarrow> m \<noteq> [] \<and> trim m = m"
  shows "resolve_settings d (to_rows s) = s"
proof -
  have w: "welcome_of (case set_welcome_message s of None \<Rightarrow> [] | Some m \<Rightarrow> m) = Some (set_welcome_message s)"
    using assms by (cases "set_welcome_message s") (auto simp: welcome_of_def)
  show ?thesis
    unfolding resolve_settings_def fold_apply_override to_rows_def
    by (simp add: last_parsed_Cons key_defs registration_mode_roundtrip visibility_trim_roundtrip
        parse_bool_roundtrip w)
qed

theorem settings_rows_roundtrip_witness:
  "resolve_settings \<lparr>def_registration_mode = RegClosed, def_default_repo_visibility = Private,
       def_require_signin_to_view = False\<rparr>
     (to_rows \<lparr>set_registration_mode = RegApproval, set_default_repo_visibility = Public,
        set_welcome_message = Some ''be nice'', set_require_signin_to_view = True\<rparr>)
   = \<lparr>set_registration_mode = RegApproval, set_default_repo_visibility = Public,
      set_welcome_message = Some ''be nice'', set_require_signin_to_view = True\<rparr>"
proof (rule settings_rows_roundtrip)
  fix m
  assume "set_welcome_message \<lparr>set_registration_mode = RegApproval, set_default_repo_visibility = Public,
      set_welcome_message = Some ''be nice'', set_require_signin_to_view = True\<rparr> = Some m"
  then have "m = ''be nice''" by simp
  moreover have "trim ''be nice'' = ''be nice''" by code_simp
  ultimately show "m \<noteq> [] \<and> trim m = m" by simp
qed

end
