(* ===== verification/Auth_Store.thy ===== *)
theory Auth_Store
  imports Access_Store Instance_Policy
begin

text \<open>
  What signing in stores (\<^verbatim>\<open>edda-db/src/user_repo.rs\<close>, \<^verbatim>\<open>password_reset_token_repo.rs\<close>,
  \<^verbatim>\<open>email_verification_token_repo.rs\<close>, \<^verbatim>\<open>login_attempt_repo.rs\<close>, \<^verbatim>\<open>totp_repo.rs\<close>,
  \<^verbatim>\<open>webauthn_repo.rs\<close>, \<^verbatim>\<open>access_token_repo.rs\<close>). One statement per query; an insert is refused by the
  unique index on a token's hash and by the foreign key to the account.
\<close>

definition user_exists :: "uuid \<Rightarrow> db \<Rightarrow> bool" where
  "user_exists i d = list_ex (\<lambda>u. user_id u = i) (t_users d)"

section \<open>Accounts\<close>

record user_row =
  ur_user :: user
  ur_password_hash :: string

record account_status =
  st_disabled_at :: "int option"
  st_email_verified_at :: "int option"
  st_approved_at :: "int option"

definition is_disabled :: "account_status \<Rightarrow> bool" where
  "is_disabled st \<longleftrightarrow> st_disabled_at st \<noteq> None"

definition is_email_verified :: "account_status \<Rightarrow> bool" where
  "is_email_verified st \<longleftrightarrow> st_email_verified_at st \<noteq> None"

definition is_approved :: "account_status \<Rightarrow> bool" where
  "is_approved st \<longleftrightarrow> st_approved_at st \<noteq> None"

definition account_of :: "uuid \<Rightarrow> db \<Rightarrow> account option" where
  "account_of i d = find (\<lambda>a. acct_user_id a = i) (t_accounts d)"

definition row_of_user :: "db \<Rightarrow> user \<Rightarrow> user_row option" where
  "row_of_user d u = map_option (\<lambda>a. \<lparr>ur_user = u, ur_password_hash = acct_password_hash a\<rparr>) (account_of (user_id u) d)"

definition find_by_email :: "string \<Rightarrow> (db_error, user_row option) act" where
  "find_by_email email = select (\<lambda>d. Option.bind (user_by_email email d) (row_of_user d))"

definition find_by_id :: "uuid \<Rightarrow> (db_error, user_row option) act" where
  "find_by_id i = select (\<lambda>d. Option.bind (user_by_id i d) (row_of_user d))"

datatype insert_user_error = IuUsernameTaken | IuEmailTaken | IuDb db_error

definition username_conflict :: "string \<Rightarrow> db \<Rightarrow> bool" where
  "username_conflict username d = list_ex (\<lambda>u. eq_ignore_ascii_case (user_username u) username) (t_users d)"

definition email_conflict :: "string \<Rightarrow> db \<Rightarrow> bool" where
  "email_conflict email d = list_ex (\<lambda>u. eq_ignore_ascii_case (user_email u) email) (t_users d)"

text \<open>The columns that the insert does not name default to an enabled, approved and verified account.\<close>

definition insert_user_row :: "uuid \<Rightarrow> string \<Rightarrow> string \<Rightarrow> string \<Rightarrow> int \<Rightarrow> db \<Rightarrow> db_error + (unit \<times> db)" where
  "insert_user_row i username email password_hash now d =
     (if user_exists i d \<or> username_conflict username d \<or> email_conflict email d then Inl UniqueViolation
      else Inr ((), d\<lparr>
        t_users := t_users d @
          [\<lparr>user_id = i, user_username = username, user_email = email, user_is_admin = False, user_disabled_at = None,
            user_email_notifications = True\<rparr>],
        t_accounts := t_accounts d @
          [\<lparr>acct_user_id = i, acct_password_hash = password_hash, acct_approved_at = Some now,
            acct_email_verified_at = Some now\<rparr>]\<rparr>))"

definition insert_user :: "uuid \<Rightarrow> string \<Rightarrow> string \<Rightarrow> string \<Rightarrow> (insert_user_error, unit) act" where
  "insert_user i username email password_hash =
     and_then now_unix (\<lambda>now w.
       case sql (insert_user_row i username email password_hash now) w of
         (Inl UniqueViolation, w') \<Rightarrow>
           (Inl (if username_conflict username (tables w) then IuUsernameTaken else IuEmailTaken), w')
       | (Inl e, w') \<Rightarrow> (Inl (IuDb e), w')
       | (Inr x, w') \<Rightarrow> (Inr x, w'))"

definition update_accounts :: "(account \<Rightarrow> bool) \<Rightarrow> (account \<Rightarrow> account) \<Rightarrow> (db_error, bool) act" where
  "update_accounts P f =
     sql (\<lambda>d. Inr (0 < rows_affected P (t_accounts d), d\<lparr>t_accounts := update_where P f (t_accounts d)\<rparr>))"

definition update_password_hash :: "uuid \<Rightarrow> string \<Rightarrow> (db_error, bool) act" where
  "update_password_hash i h = update_accounts (\<lambda>a. acct_user_id a = i) (\<lambda>a. a\<lparr>acct_password_hash := h\<rparr>)"

definition account_status_of :: "uuid \<Rightarrow> db \<Rightarrow> account_status option" where
  "account_status_of i d =
     (case (user_by_id i d, account_of i d) of
        (Some u, Some a) \<Rightarrow>
          Some \<lparr>st_disabled_at = user_disabled_at u, st_email_verified_at = acct_email_verified_at a,
                st_approved_at = acct_approved_at a\<rparr>
      | _ \<Rightarrow> None)"

definition account_status :: "uuid \<Rightarrow> (db_error, account_status option) act" where
  "account_status i = select (account_status_of i)"

definition stamp_signup_status :: "uuid \<Rightarrow> int option \<Rightarrow> int option \<Rightarrow> (db_error, unit) act" where
  "stamp_signup_status i approved_at verified_at =
     execute (\<lambda>d. d\<lparr>t_accounts := update_where (\<lambda>a. acct_user_id a = i)
       (\<lambda>a. a\<lparr>acct_approved_at := approved_at, acct_email_verified_at := verified_at\<rparr>) (t_accounts d)\<rparr>)"

definition mark_email_verified :: "uuid \<Rightarrow> (db_error, bool) act" where
  "mark_email_verified i =
     and_then now_unix (\<lambda>now. update_accounts (\<lambda>a. acct_user_id a = i \<and> acct_email_verified_at a = None)
       (\<lambda>a. a\<lparr>acct_email_verified_at := Some now\<rparr>))"

definition approve_user :: "uuid \<Rightarrow> (db_error, bool) act" where
  "approve_user i =
     and_then now_unix (\<lambda>now. update_accounts (\<lambda>a. acct_user_id a = i \<and> acct_approved_at a = None)
       (\<lambda>a. a\<lparr>acct_approved_at := Some now\<rparr>))"

definition set_disabled :: "uuid \<Rightarrow> int option \<Rightarrow> (db_error, bool) act" where
  "set_disabled i at_time =
     sql (\<lambda>d. Inr (0 < rows_affected (\<lambda>u. user_id u = i) (t_users d),
       d\<lparr>t_users := update_where (\<lambda>u. user_id u = i) (\<lambda>u. u\<lparr>user_disabled_at := at_time\<rparr>) (t_users d)\<rparr>))"

section \<open>Tokens in links\<close>

text \<open>Password-reset and email-verification tokens have tables of one shape.\<close>

definition insert_link_token :: "link_token \<Rightarrow> db \<Rightarrow> link_token list \<Rightarrow> db_error + link_token list" where
  "insert_link_token t d rows =
     (if list_ex (\<lambda>r. lt_id r = lt_id t \<or> lt_token_hash r = lt_token_hash t) rows then Inl UniqueViolation
      else if \<not> user_exists (lt_user_id t) d then Inl ForeignKeyViolation
      else Inr (rows @ [t]))"

definition usable_token :: "string \<Rightarrow> int \<Rightarrow> link_token \<Rightarrow> bool" where
  "usable_token h now r \<longleftrightarrow> lt_token_hash r = h \<and> lt_used_at r = None \<and> now < lt_expires_at r"

definition valid_by_hash :: "string \<Rightarrow> int \<Rightarrow> link_token list \<Rightarrow> (uuid \<times> uuid) option" where
  "valid_by_hash h now rows = map_option (\<lambda>r. (lt_id r, lt_user_id r)) (find (usable_token h now) rows)"

definition spend :: "(link_token \<Rightarrow> bool) \<Rightarrow> int \<Rightarrow> link_token list \<Rightarrow> link_token list" where
  "spend P now = update_where (\<lambda>r. P r \<and> lt_used_at r = None) (\<lambda>r. r\<lparr>lt_used_at := Some now\<rparr>)"

definition insert_reset_token :: "uuid \<Rightarrow> uuid \<Rightarrow> string \<Rightarrow> int \<Rightarrow> (db_error, unit) act" where
  "insert_reset_token i uid h expires =
     sql (\<lambda>d. case insert_link_token
            \<lparr>lt_id = i, lt_user_id = uid, lt_token_hash = h, lt_expires_at = expires, lt_used_at = None\<rparr> d (t_reset_tokens d) of
          Inl e \<Rightarrow> Inl e | Inr rows \<Rightarrow> Inr ((), d\<lparr>t_reset_tokens := rows\<rparr>))"

definition find_reset_token :: "string \<Rightarrow> int \<Rightarrow> (db_error, (uuid \<times> uuid) option) act" where
  "find_reset_token h now = select (\<lambda>d. valid_by_hash h now (t_reset_tokens d))"

definition mark_reset_used :: "uuid \<Rightarrow> (db_error, bool) act" where
  "mark_reset_used i =
     and_then now_unix (\<lambda>now. sql (\<lambda>d.
       Inr (0 < rows_affected (\<lambda>r. lt_id r = i \<and> lt_used_at r = None) (t_reset_tokens d),
            d\<lparr>t_reset_tokens := spend (\<lambda>r. lt_id r = i) now (t_reset_tokens d)\<rparr>)))"

definition invalidate_resets :: "uuid \<Rightarrow> (db_error, unit) act" where
  "invalidate_resets uid =
     and_then now_unix (\<lambda>now. execute (\<lambda>d. d\<lparr>t_reset_tokens := spend (\<lambda>r. lt_user_id r = uid) now (t_reset_tokens d)\<rparr>))"

definition delete_dead_resets :: "int \<Rightarrow> (db_error, nat) act" where
  "delete_dead_resets now =
     sql (\<lambda>d. Inr (rows_affected (\<lambda>r. lt_used_at r \<noteq> None \<or> lt_expires_at r < now) (t_reset_tokens d),
       d\<lparr>t_reset_tokens := delete_where (\<lambda>r. lt_used_at r \<noteq> None \<or> lt_expires_at r < now) (t_reset_tokens d)\<rparr>))"

definition insert_verification_token :: "uuid \<Rightarrow> uuid \<Rightarrow> string \<Rightarrow> int \<Rightarrow> (db_error, unit) act" where
  "insert_verification_token i uid h expires =
     sql (\<lambda>d. case insert_link_token
            \<lparr>lt_id = i, lt_user_id = uid, lt_token_hash = h, lt_expires_at = expires, lt_used_at = None\<rparr> d
            (t_verification_tokens d) of
          Inl e \<Rightarrow> Inl e | Inr rows \<Rightarrow> Inr ((), d\<lparr>t_verification_tokens := rows\<rparr>))"

definition find_verification_token :: "string \<Rightarrow> int \<Rightarrow> (db_error, (uuid \<times> uuid) option) act" where
  "find_verification_token h now = select (\<lambda>d. valid_by_hash h now (t_verification_tokens d))"

definition mark_verification_used :: "uuid \<Rightarrow> (db_error, bool) act" where
  "mark_verification_used i =
     and_then now_unix (\<lambda>now. sql (\<lambda>d.
       Inr (0 < rows_affected (\<lambda>r. lt_id r = i \<and> lt_used_at r = None) (t_verification_tokens d),
            d\<lparr>t_verification_tokens := spend (\<lambda>r. lt_id r = i) now (t_verification_tokens d)\<rparr>)))"

definition invalidate_verifications :: "uuid \<Rightarrow> (db_error, unit) act" where
  "invalidate_verifications uid =
     and_then now_unix (\<lambda>now. execute (\<lambda>d.
       d\<lparr>t_verification_tokens := spend (\<lambda>r. lt_user_id r = uid) now (t_verification_tokens d)\<rparr>))"

section \<open>Failed sign-in attempts\<close>

definition attempt_of :: "string \<Rightarrow> db \<Rightarrow> login_attempt option" where
  "attempt_of key d = find (\<lambda>a. la_key a = key) (t_login_attempts d)"

definition count_failure :: "string \<Rightarrow> int \<Rightarrow> login_attempt list \<Rightarrow> login_attempt list" where
  "count_failure key now rows =
     (if list_ex (\<lambda>a. la_key a = key) rows
      then update_where (\<lambda>a. la_key a = key)
             (\<lambda>a. a\<lparr>la_failure_count := la_failure_count a + 1, la_last_failed_at := now\<rparr>) rows
      else rows @ [\<lparr>la_key = key, la_failure_count = 1, la_first_failed_at = now, la_last_failed_at = now,
                    la_locked_until = None\<rparr>])"

definition attempt_record_failure :: "string \<Rightarrow> int \<Rightarrow> (db_error, login_attempt) act" where
  "attempt_record_failure key now =
     and_then (execute (\<lambda>d. d\<lparr>t_login_attempts := count_failure key now (t_login_attempts d)\<rparr>)) (\<lambda>_.
       and_then (select (attempt_of key)) (or_err RowNotFound))"

definition set_locked_until :: "string \<Rightarrow> int option \<Rightarrow> (db_error, unit) act" where
  "set_locked_until key until =
     execute (\<lambda>d. d\<lparr>t_login_attempts :=
       update_where (\<lambda>a. la_key a = key) (\<lambda>a. a\<lparr>la_locked_until := until\<rparr>) (t_login_attempts d)\<rparr>)"

definition clear_attempts :: "string \<Rightarrow> (db_error, unit) act" where
  "clear_attempts key =
     execute (\<lambda>d. d\<lparr>t_login_attempts := delete_where (\<lambda>a. la_key a = key) (t_login_attempts d)\<rparr>)"

definition delete_stale_attempts :: "int \<Rightarrow> int \<Rightarrow> (db_error, nat) act" where
  "delete_stale_attempts cutoff now =
     (let stale = (\<lambda>a. la_last_failed_at a < cutoff \<and>
                     (case la_locked_until a of None \<Rightarrow> True | Some t \<Rightarrow> t < now)) in
      sql (\<lambda>d. Inr (rows_affected stale (t_login_attempts d),
                    d\<lparr>t_login_attempts := delete_where stale (t_login_attempts d)\<rparr>)))"

section \<open>One-time passwords\<close>

definition totp_of :: "uuid \<Rightarrow> db \<Rightarrow> (string \<times> int option) option" where
  "totp_of uid d =
     map_option (\<lambda>r. (ts_ciphertext r, ts_activated_at r)) (find (\<lambda>r. ts_user_id r = uid) (t_totp d))"

definition upsert_totp_row :: "uuid \<Rightarrow> string \<Rightarrow> totp_secret list \<Rightarrow> totp_secret list" where
  "upsert_totp_row uid ciphertext rows =
     (if list_ex (\<lambda>r. ts_user_id r = uid) rows
      then update_where (\<lambda>r. ts_user_id r = uid) (\<lambda>r. r\<lparr>ts_ciphertext := ciphertext, ts_activated_at := None\<rparr>) rows
      else rows @ [\<lparr>ts_user_id = uid, ts_ciphertext = ciphertext, ts_activated_at = None\<rparr>])"

definition upsert_totp_secret :: "uuid \<Rightarrow> string \<Rightarrow> (db_error, unit) act" where
  "upsert_totp_secret uid ciphertext =
     sql (\<lambda>d. if \<not> user_exists uid d then Inl ForeignKeyViolation
              else Inr ((), d\<lparr>t_totp := upsert_totp_row uid ciphertext (t_totp d)\<rparr>))"

definition find_totp :: "uuid \<Rightarrow> (db_error, (string \<times> int option) option) act" where
  "find_totp uid = select (totp_of uid)"

definition totp_is_activated :: "uuid \<Rightarrow> (db_error, bool) act" where
  "totp_is_activated uid =
     and_then (find_totp uid) (\<lambda>r. ok (case r of Some (_, Some _) \<Rightarrow> True | _ \<Rightarrow> False))"

definition activate_totp :: "uuid \<Rightarrow> (db_error, unit) act" where
  "activate_totp uid =
     and_then now_unix (\<lambda>now. execute (\<lambda>d.
       d\<lparr>t_totp := update_where (\<lambda>r. ts_user_id r = uid) (\<lambda>r. r\<lparr>ts_activated_at := Some now\<rparr>) (t_totp d)\<rparr>))"

definition delete_codes :: "uuid \<Rightarrow> (db_error, unit) act" where
  "delete_codes uid = execute (\<lambda>d. d\<lparr>t_recovery_codes := delete_where (\<lambda>r. rc_user_id r = uid) (t_recovery_codes d)\<rparr>)"

definition delete_totp :: "uuid \<Rightarrow> (db_error, unit) act" where
  "delete_totp uid =
     and_then (execute (\<lambda>d. d\<lparr>t_totp := delete_where (\<lambda>r. ts_user_id r = uid) (t_totp d)\<rparr>)) (\<lambda>_. delete_codes uid)"

definition insert_code :: "uuid \<Rightarrow> string \<Rightarrow> (db_error, unit) act" where
  "insert_code uid h =
     and_then fresh_uuid (\<lambda>i. sql (\<lambda>d.
       if \<not> user_exists uid d then Inl ForeignKeyViolation
       else if list_ex (\<lambda>r. rc_id r = i) (t_recovery_codes d) then Inl UniqueViolation
       else Inr ((), d\<lparr>t_recovery_codes := t_recovery_codes d @
              [\<lparr>rc_id = i, rc_user_id = uid, rc_code_hash = h, rc_used_at = None\<rparr>]\<rparr>)))"

definition replace_recovery_codes :: "uuid \<Rightarrow> string list \<Rightarrow> (db_error, unit) act" where
  "replace_recovery_codes uid hashes = and_then (delete_codes uid) (\<lambda>_. for_each hashes (insert_code uid))"

definition unspent_code :: "uuid \<Rightarrow> string \<Rightarrow> recovery_code \<Rightarrow> bool" where
  "unspent_code uid h r \<longleftrightarrow> rc_user_id r = uid \<and> rc_code_hash r = h \<and> rc_used_at r = None"

definition consume_recovery_code :: "uuid \<Rightarrow> string \<Rightarrow> (db_error, bool) act" where
  "consume_recovery_code uid h =
     and_then now_unix (\<lambda>now. sql (\<lambda>d.
       Inr (0 < rows_affected (unspent_code uid h) (t_recovery_codes d),
            d\<lparr>t_recovery_codes := update_where (unspent_code uid h) (\<lambda>r. r\<lparr>rc_used_at := Some now\<rparr>) (t_recovery_codes d)\<rparr>)))"

section \<open>Passkeys\<close>

definition passkey_insert :: "uuid \<Rightarrow> uuid \<Rightarrow> string \<Rightarrow> string \<Rightarrow> (db_error, unit) act" where
  "passkey_insert i uid label json =
     and_then now_unix (\<lambda>now. sql (\<lambda>d.
       if \<not> user_exists uid d then Inl ForeignKeyViolation
       else if list_ex (\<lambda>r. pk_id r = i) (t_passkeys d) then Inl UniqueViolation
       else Inr ((), d\<lparr>t_passkeys := t_passkeys d @
              [\<lparr>pk_id = i, pk_user_id = uid, pk_label = label, pk_json = json, pk_created_at = now, pk_last_used_at = None\<rparr>]\<rparr>)))"

definition passkeys_of :: "uuid \<Rightarrow> db \<Rightarrow> passkey_row list" where
  "passkeys_of uid d = sort_key pk_created_at (filter (\<lambda>r. pk_user_id r = uid) (t_passkeys d))"

definition list_passkeys :: "uuid \<Rightarrow> (db_error, passkey_row list) act" where
  "list_passkeys uid = select (passkeys_of uid)"

definition update_passkey :: "uuid \<Rightarrow> string \<Rightarrow> (db_error, unit) act" where
  "update_passkey i json =
     and_then now_unix (\<lambda>now. execute (\<lambda>d.
       d\<lparr>t_passkeys := update_where (\<lambda>r. pk_id r = i) (\<lambda>r. r\<lparr>pk_json := json, pk_last_used_at := Some now\<rparr>) (t_passkeys d)\<rparr>))"

definition delete_passkey :: "uuid \<Rightarrow> uuid \<Rightarrow> (db_error, bool) act" where
  "delete_passkey uid i =
     (let own = (\<lambda>r. pk_id r = i \<and> pk_user_id r = uid) in
      sql (\<lambda>d. Inr (0 < rows_affected own (t_passkeys d), d\<lparr>t_passkeys := delete_where own (t_passkeys d)\<rparr>)))"

section \<open>Access tokens\<close>

definition insert_access_token ::
  "uuid \<Rightarrow> uuid \<Rightarrow> string \<Rightarrow> string \<Rightarrow> repository_scope \<Rightarrow> token_scope \<Rightarrow> (db_error, int) act" where
  "insert_access_token i uid name h rscope tscope =
     and_then now_unix (\<lambda>now. sql (\<lambda>d.
       if list_ex (\<lambda>r. at_id r = i \<or> at_token_hash r = h) (t_access_tokens d) then Inl UniqueViolation
       else if \<not> user_exists uid d then Inl ForeignKeyViolation
       else Inr (now, d\<lparr>t_access_tokens := t_access_tokens d @
              [\<lparr>at_id = i, at_user_id = uid, at_name = name, at_token_hash = h, at_repository_scope = rscope,
                at_token_scope = tscope, at_created_at = now, at_last_used_at = None\<rparr>]\<rparr>)))"

definition list_access_tokens :: "uuid \<Rightarrow> (db_error, access_token list) act" where
  "list_access_tokens uid =
     select (\<lambda>d. sort_key (\<lambda>r. - at_created_at r) (filter (\<lambda>r. at_user_id r = uid) (t_access_tokens d)))"

definition revoke_access_token :: "uuid \<Rightarrow> uuid \<Rightarrow> (db_error, bool) act" where
  "revoke_access_token uid i =
     (let own = (\<lambda>r. at_id r = i \<and> at_user_id r = uid) in
      sql (\<lambda>d. Inr (0 < rows_affected own (t_access_tokens d), d\<lparr>t_access_tokens := delete_where own (t_access_tokens d)\<rparr>)))"

definition token_owner :: "string \<Rightarrow> db \<Rightarrow> (user \<times> repository_scope \<times> token_scope) option" where
  "token_owner h d =
     (case find (\<lambda>r. at_token_hash r = h \<and> user_exists (at_user_id r) d) (t_access_tokens d) of
        None \<Rightarrow> None
      | Some r \<Rightarrow> map_option (\<lambda>u. (u, at_repository_scope r, at_token_scope r)) (user_by_id (at_user_id r) d))"

text \<open>The time of use is recorded on a best-effort basis.\<close>

definition find_token_by_hash :: "string \<Rightarrow> (db_error, (user \<times> repository_scope \<times> token_scope) option) act" where
  "find_token_by_hash h =
     and_then (select (token_owner h)) (\<lambda>found.
       case found of
         None \<Rightarrow> ok None
       | Some owner \<Rightarrow>
           and_then now_unix (\<lambda>now.
             and_then (outcome (execute (\<lambda>d. d\<lparr>t_access_tokens :=
                 update_where (\<lambda>r. at_token_hash r = h) (\<lambda>r. r\<lparr>at_last_used_at := Some now\<rparr>) (t_access_tokens d)\<rparr>)))
               (\<lambda>_ :: db_error + unit. ok (Some owner))))"


end
