(* ===== verification/Code_Owners.thy ===== *)
theory Code_Owners
  imports Prelude
begin

text \<open>
  CODEOWNERS files, from \<^verbatim>\<open>edda-domain/src/codeowners.rs\<close>: parsing, the segmented glob matcher and
  the resolution of a set of changed paths to owners. The matcher is shown equivalent to a
  declarative reading of its tokens, the resolution to "the last matching rule wins" and to the
  distinct owners in first-seen order. One divergence from the module's own documentation is
  proved: a leading or inner \<^verbatim>\<open>**/\<close> may start its match in the middle of a path segment.
\<close>

section \<open>Rules and parsing\<close>

record code_owners_rule =
  co_pattern :: string
  co_owners :: "string list"

type_synonym code_owners = "code_owners_rule list"

definition owner_tokens :: "string list \<Rightarrow> string list" where
  "owner_tokens tokens = List.map_filter (strip_prefix ''@'') tokens"

definition parse_owner_line :: "string \<Rightarrow> code_owners_rule option" where
  "parse_owner_line raw =
     (let line = trim (hd (split_on (CHR ''#'') raw)) in
      if line = [] then None
      else (case split_whitespace line of
              [] \<Rightarrow> None
            | pattern # tokens \<Rightarrow>
                (let owners = owner_tokens tokens in
                 if owners = [] then None
                 else Some \<lparr>co_pattern = pattern, co_owners = owners\<rparr>)))"

definition parse_code_owners :: "string \<Rightarrow> code_owners" where
  "parse_code_owners str = List.map_filter parse_owner_line (str_lines str)"

section \<open>The matcher\<close>

function glob_segmented :: "string \<Rightarrow> string \<Rightarrow> bool" where
  "glob_segmented pat s \<longleftrightarrow>
     (if pat = [] then s = []
      else if starts_with pat ''**/''
      then glob_segmented (drop 3 pat) s \<or> (case s of [] \<Rightarrow> False | _ # ts \<Rightarrow> glob_segmented pat ts)
      else if pat = ''**'' then True
      else if hd pat = CHR ''*''
      then glob_segmented (tl pat) s
        \<or> (case s of [] \<Rightarrow> False | c # ts \<Rightarrow> c \<noteq> CHR ''/'' \<and> glob_segmented pat ts)
      else if hd pat = CHR ''?''
      then (case s of [] \<Rightarrow> False | c # ts \<Rightarrow> c \<noteq> CHR ''/'' \<and> glob_segmented (tl pat) ts)
      else (case s of [] \<Rightarrow> False | c # ts \<Rightarrow> c = hd pat \<and> glob_segmented (tl pat) ts))"
  by pat_completeness auto
termination
  by (relation "measures [\<lambda>(p, s). length p, \<lambda>(p, s). length s]") auto

declare glob_segmented.simps [simp del]

fun trim_start_slashes :: "string \<Rightarrow> string" where
  "trim_start_slashes [] = []"
| "trim_start_slashes (c # cs) = (if c = CHR ''/'' then trim_start_slashes cs else c # cs)"

definition trim_end_slashes :: "string \<Rightarrow> string" where
  "trim_end_slashes s = rev (trim_start_slashes (rev s))"

fun contains_str :: "string \<Rightarrow> string \<Rightarrow> bool" where
  "contains_str [] p = (p = [])"
| "contains_str (c # cs) p = (starts_with (c # cs) p \<or> contains_str cs p)"

fun match_at_segments :: "string \<Rightarrow> string \<Rightarrow> bool" where
  "match_at_segments core [] = False"
| "match_at_segments core (c # cs) =
     ((c = CHR ''/'' \<and> glob_segmented core cs) \<or> match_at_segments core cs)"

definition pattern_matches :: "string \<Rightarrow> string \<Rightarrow> bool" where
  "pattern_matches pattern path =
     (let anchored = starts_with pattern ''/'';
          dir_pattern = ends_with pattern ''/'';
          core = trim_end_slashes (trim_start_slashes pattern)
      in if dir_pattern
         then (if anchored then path = core \<or> starts_with path (core @ ''/'')
               else path = core \<or> starts_with path (core @ ''/'')
                    \<or> contains_str path (''/'' @ core @ ''/'')
                    \<or> ends_with path (''/'' @ core))
         else if anchored then glob_segmented core path
         else if glob_segmented core path then True
         else match_at_segments core path)"

definition owners_for :: "code_owners \<Rightarrow> string \<Rightarrow> string list" where
  "owners_for rules path =
     (case find (\<lambda>rule. pattern_matches (co_pattern rule) path) (rev rules) of
        None \<Rightarrow> []
      | Some rule \<Rightarrow> co_owners rule)"

definition push_new :: "string list \<Rightarrow> string \<Rightarrow> string list" where
  "push_new seen owner = (if owner \<in> set seen then seen else seen @ [owner])"

definition owners_for_paths :: "code_owners \<Rightarrow> string list \<Rightarrow> string list" where
  "owners_for_paths rules paths =
     foldl (\<lambda>seen path. foldl push_new seen (owners_for rules path)) [] paths"

section \<open>The matcher decides its token language\<close>

function seg_lang :: "string \<Rightarrow> string set" where
  "seg_lang pat =
     (if pat = [] then {[]}
      else if starts_with pat ''**/'' then {u @ v |u v. v \<in> seg_lang (drop 3 pat)}
      else if pat = ''**'' then UNIV
      else if hd pat = CHR ''*'' then {u @ v |u v. CHR ''/'' \<notin> set u \<and> v \<in> seg_lang (tl pat)}
      else if hd pat = CHR ''?'' then {c # v |c v. c \<noteq> CHR ''/'' \<and> v \<in> seg_lang (tl pat)}
      else {hd pat # v |v. v \<in> seg_lang (tl pat)})"
  by pat_completeness auto
termination
  by (relation "measure length") auto

declare seg_lang.simps [simp del]

lemma glob_seg_star_star:
  assumes "starts_with pat ''**/''"
  shows "glob_segmented pat s \<longleftrightarrow> (\<exists>u v. s = u @ v \<and> glob_segmented (drop 3 pat) v)"
proof (induction s)
  case Nil
  have "pat \<noteq> []" using assms by (auto simp: starts_with_def)
  then show ?case using assms by (subst glob_segmented.simps) simp
next
  case (Cons c s)
  have "pat \<noteq> []" using assms by (auto simp: starts_with_def)
  then have "glob_segmented pat (c # s) \<longleftrightarrow> glob_segmented (drop 3 pat) (c # s) \<or> glob_segmented pat s"
    using assms by (subst glob_segmented.simps) simp
  then show ?case unfolding Cons.IH by (auto simp: Cons_eq_append_conv)
qed

lemma ex_prefix_Cons:
  "(\<exists>u v. c # s = u @ v \<and> d \<notin> set u \<and> Q v) \<longleftrightarrow>
     Q (c # s) \<or> c \<noteq> d \<and> (\<exists>u v. s = u @ v \<and> d \<notin> set u \<and> Q v)"
proof
  assume "\<exists>u v. c # s = u @ v \<and> d \<notin> set u \<and> Q v"
  then obtain u v where "c # s = u @ v" "d \<notin> set u" "Q v" by blast
  then show "Q (c # s) \<or> c \<noteq> d \<and> (\<exists>u v. s = u @ v \<and> d \<notin> set u \<and> Q v)"
    by (cases u) auto
next
  assume "Q (c # s) \<or> c \<noteq> d \<and> (\<exists>u v. s = u @ v \<and> d \<notin> set u \<and> Q v)"
  then show "\<exists>u v. c # s = u @ v \<and> d \<notin> set u \<and> Q v"
  proof (elim disjE conjE exE)
    assume "Q (c # s)"
    then show ?thesis by (intro exI [of _ "[]"] exI [of _ "c # s"]) simp
  next
    fix u v
    assume "c \<noteq> d" "s = u @ v" "d \<notin> set u" "Q v"
    then show ?thesis by (intro exI [of _ "c # u"] exI [of _ v]) simp
  qed
qed

lemma glob_seg_star:
  assumes "\<not> starts_with pat ''**/''" "pat \<noteq> ''**''" "pat \<noteq> []" "hd pat = CHR ''*''"
  shows "glob_segmented pat s \<longleftrightarrow>
    (\<exists>u v. s = u @ v \<and> CHR ''/'' \<notin> set u \<and> glob_segmented (tl pat) v)"
proof (induction s)
  case Nil
  show ?case using assms by (subst glob_segmented.simps) simp
next
  case (Cons c s)
  have "glob_segmented pat (c # s) \<longleftrightarrow>
      glob_segmented (tl pat) (c # s) \<or> (c \<noteq> CHR ''/'' \<and> glob_segmented pat s)"
    using assms by (subst glob_segmented.simps) simp
  then show ?case unfolding Cons.IH ex_prefix_Cons by blast
qed

lemma glob_segmented_lang: "glob_segmented pat s \<longleftrightarrow> s \<in> seg_lang pat"
proof (induction pat arbitrary: s rule: seg_lang.induct)
  case (1 pat)
  consider "pat = []" | "pat \<noteq> []" "starts_with pat ''**/''"
    | "pat \<noteq> []" "\<not> starts_with pat ''**/''" "pat = ''**''"
    | "pat \<noteq> []" "\<not> starts_with pat ''**/''" "pat \<noteq> ''**''" "hd pat = CHR ''*''"
    | "pat \<noteq> []" "\<not> starts_with pat ''**/''" "pat \<noteq> ''**''" "hd pat \<noteq> CHR ''*''" "hd pat = CHR ''?''"
    | "pat \<noteq> []" "\<not> starts_with pat ''**/''" "pat \<noteq> ''**''" "hd pat \<noteq> CHR ''*''" "hd pat \<noteq> CHR ''?''"
    by blast
  then show ?case
  proof cases
    case 1
    then show ?thesis by (simp add: glob_segmented.simps seg_lang.simps)
  next
    case 2
    have "s \<in> seg_lang pat \<longleftrightarrow> (\<exists>u v. s = u @ v \<and> v \<in> seg_lang (drop 3 pat))"
      using 2 by (subst seg_lang.simps) simp
    then show ?thesis by (simp add: glob_seg_star_star [OF 2(2)] "1.IH"(1) [OF 2])
  next
    case 3
    have "s \<in> seg_lang pat" using 3 by (subst seg_lang.simps) simp
    moreover have "glob_segmented pat s" using 3 by (subst glob_segmented.simps) simp
    ultimately show ?thesis by simp
  next
    case 4
    have "s \<in> seg_lang pat \<longleftrightarrow> (\<exists>u v. s = u @ v \<and> CHR ''/'' \<notin> set u \<and> v \<in> seg_lang (tl pat))"
      using 4 by (subst seg_lang.simps) simp
    then show ?thesis by (simp add: glob_seg_star [OF 4(2,3,1,4)] "1.IH"(2) [OF 4])
  next
    case 5
    then show ?thesis
      by (cases s) (auto simp: glob_segmented.simps [of pat] seg_lang.simps [of pat] "1.IH"(3) [OF 5])
  next
    case 6
    then show ?thesis
      by (cases s) (auto simp: glob_segmented.simps [of pat] seg_lang.simps [of pat] "1.IH"(4) [OF 6])
  qed
qed

lemma match_at_segments_iff:
  "match_at_segments core s \<longleftrightarrow> (\<exists>u v. s = u @ CHR ''/'' # v \<and> glob_segmented core v)"
proof (induction s)
  case (Cons c s)
  show ?case by (auto simp: Cons.IH Cons_eq_append_conv)
qed simp

text \<open>For a pattern that does not end in a slash, a path matches exactly when the whole path
  (anchored), or the path or one of its tails that start after a separator (not anchored), is in
  the language of the pattern's tokens: \<^verbatim>\<open>*\<close> and \<^verbatim>\<open>?\<close> never cross a separator, \<^verbatim>\<open>**\<close> may.\<close>

theorem pattern_matches_file_iff:
  assumes "\<not> ends_with pattern ''/''"
  shows "pattern_matches pattern path \<longleftrightarrow>
    (\<exists>u v. path = u @ v \<and> (u = [] \<or> \<not> starts_with pattern ''/'' \<and> last u = CHR ''/'')
       \<and> v \<in> seg_lang (trim_end_slashes (trim_start_slashes pattern)))"
proof -
  let ?core = "trim_end_slashes (trim_start_slashes pattern)"
  have seg: "match_at_segments ?core path \<longleftrightarrow>
      (\<exists>u v. path = u @ v \<and> u \<noteq> [] \<and> last u = CHR ''/'' \<and> v \<in> seg_lang ?core)"
  proof
    assume "match_at_segments ?core path"
    then obtain u v where "path = (u @ ''/'') @ v" "v \<in> seg_lang ?core"
      by (auto simp: match_at_segments_iff glob_segmented_lang)
    then show "\<exists>u v. path = u @ v \<and> u \<noteq> [] \<and> last u = CHR ''/'' \<and> v \<in> seg_lang ?core"
      by (metis append_is_Nil_conv last_snoc list.distinct(1))
  next
    assume "\<exists>u v. path = u @ v \<and> u \<noteq> [] \<and> last u = CHR ''/'' \<and> v \<in> seg_lang ?core"
    then obtain u v where uv: "path = u @ v" "u \<noteq> []" "last u = CHR ''/''" "v \<in> seg_lang ?core" by blast
    then have "path = butlast u @ CHR ''/'' # v"
      by (metis append_butlast_last_id append_Cons append_Nil append_assoc)
    with uv(4) show "match_at_segments ?core path"
      by (auto simp: match_at_segments_iff glob_segmented_lang)
  qed
  show ?thesis
  proof (cases "starts_with pattern ''/''")
    case True
    with assms show ?thesis by (simp add: pattern_matches_def Let_def glob_segmented_lang)
  next
    case False
    with assms have "pattern_matches pattern path \<longleftrightarrow>
        path \<in> seg_lang ?core \<or> match_at_segments ?core path"
      by (simp add: pattern_matches_def Let_def glob_segmented_lang)
    with False show ?thesis unfolding seg by (metis append_Nil)
  qed
qed

theorem pattern_matches_file_iff_witness:
  "pattern_matches ''src/*.rs'' ''src/main.rs''
   \<and> (\<exists>u v. ''src/main.rs'' = u @ v
        \<and> (u = [] \<or> \<not> starts_with ''src/*.rs'' ''/'' \<and> last u = CHR ''/'')
        \<and> v \<in> seg_lang (trim_end_slashes (trim_start_slashes ''src/*.rs'')))"
proof -
  have e: "\<not> ends_with ''src/*.rs'' ''/''" by code_simp
  have "pattern_matches ''src/*.rs'' ''src/main.rs''" by code_simp
  then show ?thesis using pattern_matches_file_iff [OF e, of "''src/main.rs''"] by blast
qed

section \<open>Resolution\<close>

lemma foldl_push_new: "foldl push_new seen xs = seen @ dedup_from seen xs"
proof (induction xs arbitrary: seen)
  case (Cons x xs)
  have perm: "dedup_from (seen @ [x]) xs = dedup_from (x # seen) xs" for seen xs
  proof -
    have "set s = set t \<Longrightarrow> dedup_from s ys = dedup_from t ys" for s t :: "string list" and ys
      by (induction ys arbitrary: s t) (simp, metis dedup_from.simps(2) list.simps(15))
    then show ?thesis by simp
  qed
  show ?case by (simp add: push_new_def [of seen x] Cons.IH perm)
qed simp

lemma find_rev_last:
  "find P (rev xs) = (if \<exists>x \<in> set xs. P x then Some (last (filter P xs)) else None)"
  by (induction xs rule: rev_induct) auto

lemma foldl_push_new_append:
  "foldl (\<lambda>seen path. foldl push_new seen (f path)) seen paths = foldl push_new seen (concat (map f paths))"
  by (induction paths arbitrary: seen) simp_all

text \<open>The reviewers of a change are the distinct owners, in first-seen order, of the last
  matching rule of each path; a path's owners are those of a rule that matches while no later
  rule does, and none when no rule matches.\<close>

theorem owners_for_paths_last_rule_wins:
  "owners_for_paths rules paths = dedup_first (concat (map (owners_for rules) paths))
   \<and> (owners_for rules path = (if \<exists>r \<in> set rules. pattern_matches (co_pattern r) path
        then co_owners (last (filter (\<lambda>r. pattern_matches (co_pattern r) path) rules)) else []))"
proof
  show "owners_for_paths rules paths = dedup_first (concat (map (owners_for rules) paths))"
    unfolding owners_for_paths_def foldl_push_new_append by (simp add: foldl_push_new dedup_first_def)
  show "owners_for rules path = (if \<exists>r \<in> set rules. pattern_matches (co_pattern r) path
        then co_owners (last (filter (\<lambda>r. pattern_matches (co_pattern r) path) rules)) else [])"
    by (simp add: owners_for_def find_rev_last)
qed

text \<open>Divergence from the module documentation, which says that \<^verbatim>\<open>**/rest\<close> matches \<^verbatim>\<open>rest\<close> in
  this directory or any below it: the matcher lets \<^verbatim>\<open>**/\<close> swallow any bytes, so a file whose name
  merely ends in \<^verbatim>\<open>rest\<close> gets the owners of the rule.\<close>

theorem double_star_matches_inside_segment:
  "pattern_matches ''/apps/**/config.toml'' ''apps/web/myconfig.toml''
   \<and> seg_lang (''**/'' @ rest) = {u @ v |u v. v \<in> seg_lang rest}"
proof
  show "pattern_matches ''/apps/**/config.toml'' ''apps/web/myconfig.toml''" by code_simp
  show "seg_lang (''**/'' @ rest) = {u @ v |u v. v \<in> seg_lang rest}"
    by (subst seg_lang.simps) (simp add: starts_with_def)
qed

end
