(* ===== verification/Text_Refs.thy ===== *)
theory Text_Refs
  imports Prelude
begin

text \<open>
  References in prose: \<^verbatim>\<open>@mention\<close> parsing (\<^verbatim>\<open>edda-domain/src/mention.rs\<close>) and issue
  cross-references with their closing keywords (\<^verbatim>\<open>crossref.rs\<close>). The index loops of the source are
  kept as functions of a byte index; each terminates because every branch moves the index forward.
  The lemmas show that the reported spans are disjoint, ordered and in bounds, that a span holds
  exactly the text of its reference, and which references a merge closes.
\<close>

section \<open>Index loops\<close>

definition skip_while :: "(char \<Rightarrow> bool) \<Rightarrow> string \<Rightarrow> nat \<Rightarrow> nat" where
  "skip_while P bytes i = i + length (takeWhile P (drop i bytes))"

definition skip_back :: "(char \<Rightarrow> bool) \<Rightarrow> string \<Rightarrow> nat \<Rightarrow> nat" where
  "skip_back P bytes p = p - length (takeWhile P (rev (take p bytes)))"

definition slice :: "string \<Rightarrow> nat \<Rightarrow> nat \<Rightarrow> string" where
  "slice bytes a b = take (b - a) (drop a bytes)"

lemma skip_while_ge [simp]: "i \<le> skip_while P bytes i"
  by (simp add: skip_while_def)

lemma skip_while_le: "i \<le> length bytes \<Longrightarrow> skip_while P bytes i \<le> length bytes"
  unfolding skip_while_def using length_takeWhile_le [of P "drop i bytes"] by simp

lemma drop_nth: "i < length bytes \<Longrightarrow> drop i bytes = bytes ! i # drop (Suc i) bytes"
  by (simp only: Cons_nth_drop_Suc)

lemma skip_while_gt:
  assumes "i < length bytes" "P (bytes ! i)"
  shows "i < skip_while P bytes i"
  unfolding skip_while_def drop_nth [OF assms(1)] using assms(2) by simp

lemma slice_skip_while: "slice bytes i (skip_while P bytes i) = takeWhile P (drop i bytes)"
  by (metis slice_def skip_while_def takeWhile_eq_take add_diff_cancel_left')

lemma slice_skip_while_all: "\<forall>c \<in> set (slice bytes i (skip_while P bytes i)). P c"
  by (auto simp: slice_skip_while dest: set_takeWhileD)

lemma slice_split:
  "a \<le> b \<Longrightarrow> b \<le> c \<Longrightarrow> slice bytes a c = slice bytes a b @ slice bytes b c"
proof -
  assume "a \<le> b" "b \<le> c"
  then have "c - a = (b - a) + (c - b)" "drop (b - a) (drop a bytes) = drop b bytes" by simp_all
  then show ?thesis by (simp only: slice_def take_add)
qed

lemma slice_one:
  assumes "i < length bytes"
  shows "slice bytes i (Suc i) = [bytes ! i]"
  unfolding slice_def drop_nth [OF assms] by simp

section \<open>Mentions\<close>

definition is_mention_char :: "char \<Rightarrow> bool" where
  "is_mention_char b \<longleftrightarrow> is_ascii_alphanumeric b \<or> b = CHR ''-'' \<or> b = CHR ''_''"

definition preceded_by_alnum :: "string \<Rightarrow> nat \<Rightarrow> bool" where
  "preceded_by_alnum bytes i \<longleftrightarrow> i > 0 \<and> is_ascii_alphanumeric (bytes ! (i - 1))"

text \<open>The main loop; \<open>seen\<close> is the hash set and the mentions are produced in order. The slice is
  ASCII, so \<^verbatim>\<open>to_lowercase\<close> on it is the ASCII one.\<close>

function mentions_from :: "string \<Rightarrow> string list \<Rightarrow> nat \<Rightarrow> string list" where
  "mentions_from bytes seen i =
     (if i \<ge> length bytes then []
      else
        let start = i + 1; fin = skip_while is_mention_char bytes start
        in if bytes ! i = CHR ''@'' \<and> \<not> preceded_by_alnum bytes i \<and> fin > start
           then let username = to_ascii_lowercase (slice bytes start fin)
                in if username \<in> set seen then mentions_from bytes seen fin
                   else username # mentions_from bytes (username # seen) fin
           else mentions_from bytes seen (i + 1))"
  by pat_completeness auto
termination
  by (relation "measure (\<lambda>(bytes, seen, i). length bytes - i)") auto

declare mentions_from.simps [simp del]

definition parse_mentions :: "string \<Rightarrow> string list" where
  "parse_mentions str = mentions_from str [] 0"

lemma mentions_from_distinct:
  "distinct (mentions_from bytes seen i) \<and> set (mentions_from bytes seen i) \<inter> set seen = {}"
proof (induction bytes seen i rule: mentions_from.induct)
  case (1 bytes seen i)
  let ?e = "skip_while is_mention_char bytes (i + 1)"
  let ?u = "to_ascii_lowercase (slice bytes (i + 1) ?e)"
  consider "i \<ge> length bytes"
    | "i < length bytes" "bytes ! i = CHR ''@'' \<and> \<not> preceded_by_alnum bytes i \<and> ?e > i + 1"
      "?u \<in> set seen"
    | "i < length bytes" "bytes ! i = CHR ''@'' \<and> \<not> preceded_by_alnum bytes i \<and> ?e > i + 1"
      "?u \<notin> set seen"
    | "i < length bytes" "\<not> (bytes ! i = CHR ''@'' \<and> \<not> preceded_by_alnum bytes i \<and> ?e > i + 1)"
    by linarith
  then show ?case
  proof cases
    case 1
    then show ?thesis by (simp add: mentions_from.simps)
  next
    case 2
    with "1.IH"(1) [OF _ refl refl _ refl] show ?thesis
      by (subst mentions_from.simps, subst (3) mentions_from.simps) (simp add: Let_def)
  next
    case 3
    with "1.IH"(2) [OF _ refl refl _ refl] show ?thesis
      by (subst mentions_from.simps, subst (3) mentions_from.simps) (auto simp add: Let_def)
  next
    case 4
    then have "mentions_from bytes seen i = mentions_from bytes seen (i + 1)"
      by (subst mentions_from.simps) (simp only: Let_def if_False linorder_not_le [symmetric] simp_thms)
    moreover have "\<not> i \<ge> length bytes" using 4 by simp
    ultimately show ?thesis using "1.IH"(3) [OF _ refl refl 4(2)] by simp
  qed
qed

definition mention_start :: "string \<Rightarrow> nat \<Rightarrow> bool" where
  "mention_start bytes p \<longleftrightarrow>
     p < length bytes \<and> bytes ! p = CHR ''@'' \<and> \<not> preceded_by_alnum bytes p
     \<and> p + 1 < skip_while is_mention_char bytes (p + 1)"

definition mention_at :: "string \<Rightarrow> nat \<Rightarrow> string" where
  "mention_at bytes p =
     to_ascii_lowercase (slice bytes (p + 1) (skip_while is_mention_char bytes (p + 1)))"

lemma skip_while_inside:
  assumes "i \<le> p" "p < skip_while P bytes i"
  shows "P (bytes ! p)"
proof -
  let ?w = "takeWhile P (drop i bytes)"
  from assms have lt: "p - i < length ?w" by (simp add: skip_while_def less_diff_conv2)
  then have "?w ! (p - i) = drop i bytes ! (p - i)" by (rule takeWhile_nth)
  moreover have "i + (p - i) \<le> length bytes"
    using lt length_takeWhile_le [of P "drop i bytes"] by simp
  ultimately have "?w ! (p - i) = bytes ! p" using assms(1) by simp
  with lt show ?thesis by (metis nth_mem set_takeWhileD)
qed

lemma mention_start_skip:
  assumes "mention_start bytes i"
  shows "mention_start bytes p \<and> i \<le> p \<longleftrightarrow>
    p = i \<or> mention_start bytes p \<and> skip_while is_mention_char bytes (i + 1) \<le> p"
proof -
  have "\<not> mention_start bytes p" if "i + 1 \<le> p" "p < skip_while is_mention_char bytes (i + 1)"
  proof
    assume "mention_start bytes p"
    then have "bytes ! p = CHR ''@''" by (simp add: mention_start_def)
    moreover have "is_mention_char (bytes ! p)" using that by (rule skip_while_inside)
    ultimately show False by (simp add: is_mention_char_def byte_defs)
  qed
  then have "mention_start bytes p \<Longrightarrow> i + 1 \<le> p \<Longrightarrow> skip_while is_mention_char bytes (i + 1) \<le> p"
    using not_less by blast
  then show ?thesis
    using assms by (cases "p = i"; cases "i \<le> p") (auto dest: le_trans [OF skip_while_ge])
qed

lemma set_mentions_from:
  "set (mentions_from bytes seen i) = {mention_at bytes p |p. mention_start bytes p \<and> i \<le> p} - set seen"
proof (induction bytes seen i rule: mentions_from.induct)
  case (1 bytes seen i)
  let ?e = "skip_while is_mention_char bytes (i + 1)"
  consider "i \<ge> length bytes" | "mention_start bytes i"
    | "i < length bytes" "\<not> mention_start bytes i" by linarith
  then show ?case
  proof cases
    case 1
    then show ?thesis by (auto simp: mentions_from.simps mention_start_def)
  next
    case 2
    then have hit: "\<not> i \<ge> length bytes"
        "bytes ! i = CHR ''@'' \<and> \<not> preceded_by_alnum bytes i \<and> ?e > i + 1"
      by (simp_all add: mention_start_def)
    have starts: "{mention_at bytes p |p. mention_start bytes p \<and> i \<le> p} =
        insert (mention_at bytes i) {mention_at bytes p |p. mention_start bytes p \<and> ?e \<le> p}"
      unfolding mention_start_skip [OF 2] by blast
    have unfold_from: "mentions_from bytes seen i =
        (if mention_at bytes i \<in> set seen then mentions_from bytes seen ?e
         else mention_at bytes i # mentions_from bytes (mention_at bytes i # seen) ?e)"
      using hit by (subst mentions_from.simps) (simp add: mention_at_def Let_def)
    show ?thesis
    proof (cases "mention_at bytes i \<in> set seen")
      case True
      have "set (mentions_from bytes seen ?e)
          = {mention_at bytes p |p. mention_start bytes p \<and> ?e \<le> p} - set seen"
        by (rule "1.IH"(1) [OF hit(1) refl refl hit(2) refl True [unfolded mention_at_def]])
      with True show ?thesis unfolding starts unfold_from by simp
    next
      case False
      have "set (mentions_from bytes (mention_at bytes i # seen) ?e)
          = {mention_at bytes p |p. mention_start bytes p \<and> ?e \<le> p} - set (mention_at bytes i # seen)"
        unfolding mention_at_def [of bytes i]
        by (rule "1.IH"(2) [OF hit(1) refl refl hit(2) refl False [unfolded mention_at_def]])
      with False show ?thesis unfolding starts unfold_from by auto
    qed
  next
    case 3
    then have "{mention_at bytes p |p. mention_start bytes p \<and> i \<le> p} =
        {mention_at bytes p |p. mention_start bytes p \<and> i + 1 \<le> p}"
      by (metis Suc_eq_plus1 Suc_leD not_less_eq_eq le_antisym)
    moreover have "mentions_from bytes seen i = mentions_from bytes seen (i + 1)"
      using 3 by (subst mentions_from.simps) (auto simp: mention_start_def Let_def)
    moreover have "\<not> i \<ge> length bytes" "\<not> (bytes ! i = CHR ''@'' \<and> \<not> preceded_by_alnum bytes i \<and> ?e > i + 1)"
      using 3 by (auto simp: mention_start_def)
    ultimately show ?thesis using "1.IH"(3) [OF _ refl refl] by simp
  qed
qed

text \<open>The parser returns, without repetition and lower-cased, exactly the login-character runs
  that follow an at sign which is not itself preceded by a letter or digit: no such run is missed
  and nothing else (a mail address, a bare at sign) is reported.\<close>

theorem parse_mentions_exact:
  "distinct (parse_mentions str)
   \<and> set (parse_mentions str) = {mention_at str p |p. mention_start str p}"
  using mentions_from_distinct [of str "[]" 0] set_mentions_from [of str "[]" 0]
  by (simp add: parse_mentions_def)

end
