(* ===== verification/Cross_Refs.thy ===== *)
theory Cross_Refs
  imports Text_Refs
begin

text \<open>
  Issue cross-references, from \<^verbatim>\<open>edda-domain/src/crossref.rs\<close>: the tokens \<^verbatim>\<open>#5\<close> and
  \<^verbatim>\<open>owner/repo#5\<close> outside code spans and fenced blocks, and the closing keywords that make a merge
  close the issues they govern.
\<close>

section \<open>Tokens\<close>

record cross_reference =
  cref_repository :: "(string \<times> string) option"
  cref_number :: int

record xref =
  xr_start :: nat
  xr_end :: nat
  xr_cref :: cross_reference

definition closing_keywords :: "string list" where
  "closing_keywords =
     [''close'', ''closes'', ''closed'', ''fix'', ''fixes'', ''fixed'', ''resolve'', ''resolves'',
      ''resolved'']"

definition is_name_char :: "char \<Rightarrow> bool" where
  "is_name_char b \<longleftrightarrow> is_ascii_alphanumeric b \<or> b = CHR ''.'' \<or> b = CHR ''-'' \<or> b = CHR ''_''"

definition digits_value :: "string \<Rightarrow> int" where
  "digits_value ds = foldl (\<lambda>a c. a * 10 + (int (code c) - 48)) 0 ds"

text \<open>At most 18 digits are accepted, so the value fits 64 bits and \<^verbatim>\<open>parse::<i64>\<close> succeeds.\<close>

definition parse_number :: "string \<Rightarrow> nat \<Rightarrow> (int \<times> nat) option" where
  "parse_number bytes start =
     (let e = skip_while is_ascii_digit bytes start in
      if e = start \<or> e - start > 18 then None
      else if e < length bytes \<and> (is_ascii_alphanumeric (bytes ! e) \<or> bytes ! e = CHR ''_'') then None
      else let number = digits_value (slice bytes start e) in
           if number \<ge> 1 then Some (number, e) else None)"

definition parse_qualified :: "string \<Rightarrow> nat \<Rightarrow> xref option" where
  "parse_qualified bytes start =
     (let i = skip_while is_name_char bytes start; owner = slice bytes start i in
      if owner = [] \<or> \<not> (i < length bytes \<and> bytes ! i = CHR ''/'') then None
      else
        let repo_start = i + 1; j = skip_while is_name_char bytes repo_start;
            repo = slice bytes repo_start j
        in if repo = [] \<or> \<not> (j < length bytes \<and> bytes ! j = CHR ''#'') then None
           else (case parse_number bytes (j + 1) of
                   None \<Rightarrow> None
                 | Some (number, e) \<Rightarrow>
                     Some \<lparr>xr_start = start, xr_end = e,
                       xr_cref = \<lparr>cref_repository = Some (owner, repo), cref_number = number\<rparr>\<rparr>))"

lemma parse_number_end: "parse_number bytes start = Some (n, e) \<Longrightarrow> start < e"
  by (auto simp: parse_number_def Let_def skip_while_def split: if_splits)

lemma parse_qualified_end:
  "parse_qualified bytes start = Some r \<Longrightarrow> xr_start r = start \<and> start < xr_end r"
proof -
  assume a: "parse_qualified bytes start = Some r"
  let ?i = "skip_while is_name_char bytes start"
  let ?j = "skip_while is_name_char bytes (?i + 1)"
  from a obtain n e where e: "parse_number bytes (?j + 1) = Some (n, e)"
      and r: "xr_start r = start" "xr_end r = e"
    by (auto simp: parse_qualified_def Let_def split: if_splits option.splits)
  have "start \<le> ?i" by (rule skip_while_ge)
  also have "?i \<le> ?i + 1" by simp
  also have "?i + 1 \<le> ?j" by (rule skip_while_ge)
  also have "?j \<le> ?j + 1" by simp
  also have "?j + 1 < e" by (rule parse_number_end [OF e])
  finally show ?thesis using r by simp
qed

section \<open>The scanner\<close>

definition fence_at :: "string \<Rightarrow> nat \<Rightarrow> bool" where
  "fence_at bytes i =
     (let j = i + length (takeWhile (\<lambda>b. b = CHR '' '') (take 3 (drop i bytes))) in
      starts_with (drop j bytes) ''```'' \<or> starts_with (drop j bytes) ''~~~'')"

definition not_newline :: "char \<Rightarrow> bool" where
  "not_newline b \<longleftrightarrow> b \<noteq> CHR 0x0A"

definition bare_ref_at :: "string \<Rightarrow> nat \<Rightarrow> (int \<times> nat) option" where
  "bare_ref_at bytes i =
     (if bytes ! i = CHR ''#'' \<and> \<not> preceded_by_alnum bytes i then parse_number bytes (i + 1) else None)"

definition qualified_ref_at :: "string \<Rightarrow> nat \<Rightarrow> xref option" where
  "qualified_ref_at bytes i =
     (if is_name_char (bytes ! i) \<and> \<not> preceded_by_alnum bytes i
         \<and> \<not> (i > 0 \<and> bytes ! (i - 1) = CHR ''/'')
      then parse_qualified bytes i else None)"

definition ref_at :: "string \<Rightarrow> nat \<Rightarrow> xref option" where
  "ref_at bytes i =
     (case bare_ref_at bytes i of
        Some (number, e) \<Rightarrow>
          Some \<lparr>xr_start = i, xr_end = e,
            xr_cref = \<lparr>cref_repository = None, cref_number = number\<rparr>\<rparr>
      | None \<Rightarrow> qualified_ref_at bytes i)"

lemma ref_at_end: "ref_at bytes i = Some r \<Longrightarrow> xr_start r = i \<and> i < xr_end r"
  by (auto simp: ref_at_def bare_ref_at_def qualified_ref_at_def
      dest!: parse_number_end parse_qualified_end split: option.splits if_splits)

text \<open>One iteration of the loop of \<^verbatim>\<open>scan_refs\<close> per call; the flags are \<^verbatim>\<open>in_fence\<close>,
  \<^verbatim>\<open>in_code_span\<close> and \<^verbatim>\<open>at_line_start\<close>.\<close>

function scan_from :: "string \<Rightarrow> bool \<Rightarrow> bool \<Rightarrow> bool \<Rightarrow> nat \<Rightarrow> xref list" where
  "scan_from bytes fence span bol i =
     (if i \<ge> length bytes then []
      else if bytes ! i = CHR 0x0A then scan_from bytes fence False True (i + 1)
      else if bol \<and> fence_at bytes i
      then scan_from bytes (\<not> fence) span bol (skip_while not_newline bytes i)
      else if fence then scan_from bytes fence span False (i + 1)
      else if bytes ! i = CHR 0x60 then scan_from bytes fence (\<not> span) False (i + 1)
      else if span then scan_from bytes fence span False (i + 1)
      else (case ref_at bytes i of
              Some r \<Rightarrow> r # scan_from bytes fence span False (xr_end r)
            | None \<Rightarrow> scan_from bytes fence span False (i + 1)))"
  by pat_completeness auto
termination
proof (relation "measure (\<lambda>(bytes, fence, span, bol, i). length bytes - i)", goal_cases)
  case (3 bytes fence span bol i)
  then have "i < skip_while not_newline bytes i"
    by (intro skip_while_gt) (simp_all add: not_newline_def)
  with 3 show ?case by auto
next
  case (8 bytes fence span bol i r)
  with ref_at_end show ?case by fastforce
qed auto

declare scan_from.simps [simp del]

definition scan_refs :: "string \<Rightarrow> xref list" where
  "scan_refs body = scan_from body False False True 0"

definition parse_cross_references :: "string \<Rightarrow> cross_reference list" where
  "parse_cross_references body = dedup_first (map xr_cref (scan_refs body))"

definition parse_cross_reference_spans :: "string \<Rightarrow> ((nat \<times> nat) \<times> cross_reference) list" where
  "parse_cross_reference_spans body =
     map (\<lambda>r. ((xr_start r, xr_end r), xr_cref r)) (scan_refs body)"

section \<open>Closing keywords\<close>

definition is_blank :: "char \<Rightarrow> bool" where
  "is_blank b \<longleftrightarrow> b = CHR '' '' \<or> b = CHR 0x09"

definition closing_keyword_ends_at :: "string \<Rightarrow> nat \<Rightarrow> bool" where
  "closing_keyword_ends_at bytes pos =
     (let e1 = skip_back is_blank bytes pos;
          e = (if e1 > 0 \<and> bytes ! (e1 - 1) = CHR '':'' then skip_back is_blank bytes (e1 - 1) else e1);
          start = skip_back is_ascii_alphabetic bytes e
      in if start = e then False
         else if start > 0 \<and> is_ascii_alphanumeric (bytes ! (start - 1)) then False
         else to_ascii_lowercase (slice bytes start e) \<in> set closing_keywords)"

definition list_separator :: "string \<Rightarrow> xref \<Rightarrow> xref \<Rightarrow> bool" where
  "list_separator bytes p r =
     (let between = to_ascii_lowercase (trim (slice bytes (xr_end p) (xr_start r)))
      in between = '','' \<or> between = ''and'' \<or> between = '', and'')"

text \<open>The vector \<^verbatim>\<open>governed\<close>: a reference is governed by a keyword right before it, or by being a
  list continuation of a governed one.\<close>

fun governed_from :: "string \<Rightarrow> (xref \<times> bool) option \<Rightarrow> xref list \<Rightarrow> bool list" where
  "governed_from bytes prev [] = []"
| "governed_from bytes prev (r # rs) =
     (let g = (if closing_keyword_ends_at bytes (xr_start r) then True
               else (case prev of
                       None \<Rightarrow> False
                     | Some (p, gp) \<Rightarrow> gp \<and> list_separator bytes p r))
      in g # governed_from bytes (Some (r, g)) rs)"

definition parse_closing_references :: "string \<Rightarrow> cross_reference list" where
  "parse_closing_references body =
     (let refs = scan_refs body; governed = governed_from body None refs
      in dedup_first (map (\<lambda>(r, g). xr_cref r) (filter snd (zip refs governed))))"

section \<open>What a span holds\<close>

definition is_number_text :: "string \<Rightarrow> int \<Rightarrow> bool" where
  "is_number_text ds n \<longleftrightarrow>
     ds \<noteq> [] \<and> length ds \<le> 18 \<and> list_all is_ascii_digit ds \<and> digits_value ds = n \<and> 1 \<le> n"

definition cref_text :: "string \<Rightarrow> cross_reference \<Rightarrow> bool" where
  "cref_text t c \<longleftrightarrow>
     (\<exists>ds. is_number_text ds (cref_number c)
        \<and> (case cref_repository c of
             None \<Rightarrow> t = ''#'' @ ds
           | Some (ow, rp) \<Rightarrow> ow \<noteq> [] \<and> rp \<noteq> [] \<and> list_all is_name_char ow
               \<and> list_all is_name_char rp \<and> t = ow @ ''/'' @ rp @ ''#'' @ ds))"

fun ordered_spans :: "nat \<Rightarrow> string \<Rightarrow> xref list \<Rightarrow> bool" where
  "ordered_spans n body [] \<longleftrightarrow> True"
| "ordered_spans n body (r # rs) \<longleftrightarrow>
     n \<le> xr_start r \<and> xr_start r < xr_end r \<and> xr_end r \<le> length body
     \<and> cref_text (slice body (xr_start r) (xr_end r)) (xr_cref r)
     \<and> ordered_spans (xr_end r) body rs"

lemma foldl_digits:
  "list_all is_ascii_digit ds \<Longrightarrow> 0 \<le> a \<Longrightarrow>
     0 \<le> foldl (\<lambda>a c. a * 10 + (int (code c) - 48)) a ds
     \<and> foldl (\<lambda>a c. a * 10 + (int (code c) - 48)) a ds < (a + 1) * 10 ^ length ds"
proof (induction ds arbitrary: a)
  case (Cons d ds)
  then have d: "48 \<le> int (code d)" "int (code d) \<le> 57" by (simp_all add: byte_defs)
  let ?a = "a * 10 + (int (code d) - 48)"
  have IH: "0 \<le> foldl (\<lambda>a c. a * 10 + (int (code c) - 48)) ?a ds"
      "foldl (\<lambda>a c. a * 10 + (int (code c) - 48)) ?a ds < (?a + 1) * 10 ^ length ds"
    using Cons.IH [of ?a] Cons.prems d by simp_all
  note IH(2)
  also have "(?a + 1) * 10 ^ length ds \<le> ((a + 1) * 10) * 10 ^ length ds"
    using d by (intro mult_right_mono) auto
  also have "\<dots> = (a + 1) * 10 ^ length (d # ds)" by simp
  finally show ?case using IH(1) by simp
qed simp

lemma digits_value_bound: "list_all is_ascii_digit ds \<Longrightarrow> digits_value ds < 10 ^ length ds"
  using foldl_digits [of ds 0] by (simp add: digits_value_def)

lemma parse_number_text:
  assumes "parse_number bytes start = Some (n, e)" "start \<le> length bytes"
  shows "start < e \<and> e \<le> length bytes \<and> is_number_text (slice bytes start e) n"
proof -
  let ?e = "skip_while is_ascii_digit bytes start"
  have e: "e = ?e" "?e - start \<le> 18" "n = digits_value (slice bytes start ?e)" "1 \<le> n"
    using assms(1) by (auto simp: parse_number_def Let_def split: if_splits)
  have lt: "start < e" using parse_number_end assms(1) by blast
  have le: "?e \<le> length bytes" using assms(2) by (rule skip_while_le)
  then have "length (slice bytes start ?e) = ?e - start" by (simp add: slice_def)
  with e lt have "slice bytes start e \<noteq> []" "length (slice bytes start e) \<le> 18" by force+
  moreover have "list_all is_ascii_digit (slice bytes start e)"
    using slice_skip_while_all e(1) by (simp add: list_all_iff)
  ultimately show ?thesis using e lt le by (simp add: is_number_text_def)
qed

lemma parse_qualified_text:
  assumes "parse_qualified bytes start = Some r" "start \<le> length bytes"
  shows "xr_end r \<le> length bytes \<and> cref_text (slice bytes start (xr_end r)) (xr_cref r)"
proof -
  let ?i = "skip_while is_name_char bytes start"
  let ?j = "skip_while is_name_char bytes (?i + 1)"
  let ?ow = "slice bytes start ?i" and ?rp = "slice bytes (?i + 1) ?j"
  from assms(1) obtain n e where pn: "parse_number bytes (?j + 1) = Some (n, e)"
      and ne: "?ow \<noteq> []" "?rp \<noteq> []"
      and at: "?i < length bytes" "bytes ! ?i = CHR ''/''" "?j < length bytes" "bytes ! ?j = CHR ''#''"
      and r: "xr_end r = e" "xr_cref r = \<lparr>cref_repository = Some (?ow, ?rp), cref_number = n\<rparr>"
    by (auto simp: parse_qualified_def Let_def split: if_splits option.splits)
  have num: "?j + 1 < e" "e \<le> length bytes" "is_number_text (slice bytes (?j + 1) e) n"
    using parse_number_text [OF pn] at(3) by auto
  have ij: "start \<le> ?i" "?i + 1 \<le> ?j" by (rule skip_while_ge)+
  have "slice bytes start e = slice bytes start ?i @ slice bytes ?i e"
    using ij num(1) by (intro slice_split) linarith+
  also have "slice bytes ?i e = slice bytes ?i (Suc ?i) @ slice bytes (?i + 1) e"
    using slice_split [of ?i "?i + 1" e bytes] ij num(1) by simp
  also have "slice bytes (?i + 1) e = ?rp @ slice bytes ?j e"
    using ij num(1) by (intro slice_split) linarith+
  also have "slice bytes ?j e = slice bytes ?j (Suc ?j) @ slice bytes (?j + 1) e"
    using slice_split [of ?j "?j + 1" e bytes] num(1) by simp
  finally have "slice bytes start e = ?ow @ ''/'' @ ?rp @ ''#'' @ slice bytes (?j + 1) e"
    by (simp only: slice_one [OF at(1)] slice_one [OF at(3)] at(2,4))
  moreover have "list_all is_name_char ?ow" "list_all is_name_char ?rp"
    using slice_skip_while_all by (simp_all add: list_all_iff)
  ultimately show ?thesis using num ne r by (auto simp: cref_text_def)
qed

lemma ref_at_text:
  assumes "ref_at bytes i = Some r" "i < length bytes"
  shows "xr_end r \<le> length bytes \<and> cref_text (slice bytes i (xr_end r)) (xr_cref r)"
proof (cases "bare_ref_at bytes i")
  case None
  with assms have "parse_qualified bytes i = Some r"
    by (auto simp: ref_at_def qualified_ref_at_def split: if_splits)
  then show ?thesis using parse_qualified_text assms(2) by simp
next
  case (Some p)
  then obtain n e where p: "bare_ref_at bytes i = Some (n, e)" by (cases p) simp
  then have pn: "parse_number bytes (i + 1) = Some (n, e)" and hash: "bytes ! i = CHR ''#''"
    by (auto simp: bare_ref_at_def split: if_splits)
  have num: "i + 1 < e" "e \<le> length bytes" "is_number_text (slice bytes (i + 1) e) n"
    using parse_number_text [OF pn] assms(2) by auto
  have "slice bytes i e = slice bytes i (Suc i) @ slice bytes (i + 1) e"
    using slice_split [of i "i + 1" e bytes] num(1) by simp
  then have "slice bytes i e = ''#'' @ slice bytes (i + 1) e"
    by (simp only: slice_one [OF assms(2)] hash)
  moreover have "xr_end r = e" "xr_cref r = \<lparr>cref_repository = None, cref_number = n\<rparr>"
    using assms(1) p by (auto simp: ref_at_def)
  ultimately show ?thesis using num by (auto simp: cref_text_def)
qed

lemma ordered_spans_weaken: "ordered_spans n body rs \<Longrightarrow> m \<le> n \<Longrightarrow> ordered_spans m body rs"
  by (cases rs) auto

lemma scan_from_ordered: "ordered_spans i bytes (scan_from bytes fence span bol i)"
proof (induction bytes fence span bol i rule: scan_from.induct)
  case (1 bytes fence span bol i)
  note weak = ordered_spans_weaken [of "i + 1" bytes _ i]
  show ?case
  proof (cases "i \<ge> length bytes")
    case True
    then show ?thesis by (simp add: scan_from.simps)
  next
    case F: False
    consider "bytes ! i = CHR 0x0A" | "bytes ! i \<noteq> CHR 0x0A" "bol \<and> fence_at bytes i"
      | "bytes ! i \<noteq> CHR 0x0A" "\<not> (bol \<and> fence_at bytes i)" "fence"
      | "bytes ! i \<noteq> CHR 0x0A" "\<not> (bol \<and> fence_at bytes i)" "\<not> fence" "bytes ! i = CHR 0x60"
      | "bytes ! i \<noteq> CHR 0x0A" "\<not> (bol \<and> fence_at bytes i)" "\<not> fence" "bytes ! i \<noteq> CHR 0x60" "span"
      | "bytes ! i \<noteq> CHR 0x0A" "\<not> (bol \<and> fence_at bytes i)" "\<not> fence" "bytes ! i \<noteq> CHR 0x60" "\<not> span"
      by blast
    then show ?thesis
    proof cases
      case 1
      with "1.IH"(1) F weak show ?thesis by (subst scan_from.simps) auto
    next
      case 2
      have "scan_from bytes fence span bol i =
          scan_from bytes (\<not> fence) span bol (skip_while not_newline bytes i)"
        using F 2 by (subst scan_from.simps) simp
      with "1.IH"(2) [OF F 2] show ?thesis
        using ordered_spans_weaken [OF _ skip_while_ge] by simp
    next
      case 3
      with "1.IH"(3) [OF F 3] F weak show ?thesis by (subst scan_from.simps) auto
    next
      case 4
      with "1.IH"(4) [OF F 4] F weak show ?thesis by (subst scan_from.simps) auto
    next
      case 5
      with "1.IH"(5) [OF F 5] F weak show ?thesis by (subst scan_from.simps) auto
    next
      case 6
      show ?thesis
      proof (cases "ref_at bytes i")
        case None
        with "1.IH"(6) [OF F 6] F 6 weak show ?thesis
          by (subst scan_from.simps) auto
      next
        case (Some r)
        have "ordered_spans (xr_end r) bytes (scan_from bytes fence span False (xr_end r))"
          by (rule "1.IH"(7) [OF F 6 Some])
        with Some F 6 ref_at_end [OF Some] ref_at_text [OF Some] show ?thesis
          by (subst scan_from.simps) auto
      qed
    qed
  qed
qed

text \<open>The reported spans are in source order, pairwise disjoint, inside the text and not empty,
  and each span holds exactly the text of its reference: \<^verbatim>\<open>#\<close> or \<^verbatim>\<open>owner/repo#\<close> and a digit run
  whose value is the reported number, at least 1. So a linkifier may rewrite each span in place.\<close>

theorem cross_reference_spans_ordered: "ordered_spans 0 body (scan_refs body)"
  by (simp add: scan_refs_def scan_from_ordered)

lemma ordered_spans_numbers:
  "ordered_spans n body rs \<Longrightarrow> r \<in> set rs \<Longrightarrow>
     1 \<le> cref_number (xr_cref r) \<and> cref_number (xr_cref r) < 10 ^ 18"
proof (induction rs arbitrary: n)
  case (Cons x rs)
  show ?case
  proof (cases "r = x")
    case True
    with Cons.prems obtain ds where ds: "is_number_text ds (cref_number (xr_cref r))"
      by (auto simp: cref_text_def)
    then have "cref_number (xr_cref r) < 10 ^ length ds" "length ds \<le> 18"
      using digits_value_bound [of ds] by (auto simp: is_number_text_def)
    moreover have "(10 :: int) ^ length ds \<le> 10 ^ 18"
      using \<open>length ds \<le> 18\<close> by (rule power_increasing) simp
    ultimately show ?thesis using ds by (simp add: is_number_text_def)
  next
    case False
    with Cons show ?thesis by auto
  qed
qed simp

text \<open>Every reported number is a positive 64-bit value, so \<^verbatim>\<open>parse::<i64>\<close> never overflows.\<close>

lemma cross_reference_numbers_fit:
  "c \<in> set (parse_cross_references body) \<Longrightarrow> 1 \<le> cref_number c \<and> in_i64 (cref_number c)"
  using ordered_spans_numbers [of 0 body "scan_refs body"] scan_from_ordered [of 0 body False False True]
  by (force simp: parse_cross_references_def scan_refs_def in_i64_def i64_max_def i64_min_def)

section \<open>What a merge closes\<close>

lemma length_governed [simp]: "length (governed_from bytes prev rs) = length rs"
  by (induction bytes prev rs rule: governed_from.induct) (simp_all add: Let_def)

lemma governed_step:
  "i < length rs \<Longrightarrow> governed_from bytes prev rs ! i \<longleftrightarrow>
     closing_keyword_ends_at bytes (xr_start (rs ! i))
     \<or> (case i of
          0 \<Rightarrow> (case prev of None \<Rightarrow> False | Some (p, gp) \<Rightarrow> gp \<and> list_separator bytes p (rs ! 0))
        | Suc j \<Rightarrow> governed_from bytes prev rs ! j \<and> list_separator bytes (rs ! j) (rs ! i))"
proof (induction bytes prev rs arbitrary: i rule: governed_from.induct)
  case (2 bytes prev r rs)
  show ?case
  proof (cases i)
    case 0
    then show ?thesis by (cases prev) (auto simp: Let_def)
  next
    case (Suc j)
    with 2 show ?thesis by (cases j) (simp_all add: Let_def)
  qed
qed simp

text \<open>A reference is governed exactly when some reference at or before it follows a closing
  keyword directly and every two neighbours from there on are separated by a comma, \<^verbatim>\<open>and\<close> or
  both: the keyword reaches along the list and stops at the first other text.\<close>

theorem governed_iff_keyword_reaches:
  assumes "i < length rs"
  shows "governed_from bytes None rs ! i \<longleftrightarrow>
    (\<exists>k \<le> i. closing_keyword_ends_at bytes (xr_start (rs ! k))
       \<and> (\<forall>m. k < m \<and> m \<le> i \<longrightarrow> list_separator bytes (rs ! (m - 1)) (rs ! m)))"
  using assms
proof (induction i)
  case 0
  then show ?case by (simp add: governed_step)
next
  case (Suc i)
  let ?kw = "\<lambda>k. closing_keyword_ends_at bytes (xr_start (rs ! k))"
  let ?sep = "\<lambda>m. list_separator bytes (rs ! (m - 1)) (rs ! m)"
  have "governed_from bytes None rs ! Suc i \<longleftrightarrow>
      ?kw (Suc i) \<or> governed_from bytes None rs ! i \<and> ?sep (Suc i)"
    using Suc.prems by (simp add: governed_step)
  also have "\<dots> \<longleftrightarrow> ?kw (Suc i) \<or> (\<exists>k \<le> i. ?kw k \<and> (\<forall>m. k < m \<and> m \<le> i \<longrightarrow> ?sep m)) \<and> ?sep (Suc i)"
    using Suc by simp
  also have "\<dots> \<longleftrightarrow> (\<exists>k \<le> Suc i. ?kw k \<and> (\<forall>m. k < m \<and> m \<le> Suc i \<longrightarrow> ?sep m))"
    (is "?L \<longleftrightarrow> ?R")
  proof
    assume ?L
    then show ?R by (metis le_Suc_eq less_le_not_le order_refl)
  next
    assume ?R
    then obtain k where k: "k \<le> Suc i" "?kw k" "\<And>m. k < m \<Longrightarrow> m \<le> Suc i \<Longrightarrow> ?sep m" by blast
    show ?L
    proof (cases "k = Suc i")
      case False
      with k(1) have "k \<le> i" by simp
      with k(2,3) show ?thesis by (metis le_SucI less_Suc_eq_le order_refl)
    qed (use k in simp)
  qed
  finally show ?case .
qed

definition sample_refs :: "xref list" where
  "sample_refs = scan_refs ''resolves #1, #2 and #3; see #4''"

theorem governed_iff_keyword_reaches_witness:
  "governed_from ''resolves #1, #2 and #3; see #4'' None sample_refs ! 2
   \<and> (\<exists>k \<le> 2. closing_keyword_ends_at ''resolves #1, #2 and #3; see #4'' (xr_start (sample_refs ! k)))"
proof -
  have len: "2 < length sample_refs" by code_simp
  have gov: "governed_from ''resolves #1, #2 and #3; see #4'' None sample_refs ! 2" by code_simp
  then show ?thesis
    using governed_iff_keyword_reaches [OF len, of "''resolves #1, #2 and #3; see #4''"] by blast
qed

text \<open>Closing references are references.\<close>

lemma closing_subset:
  "distinct (parse_closing_references body)
   \<and> set (parse_closing_references body) \<subseteq> set (parse_cross_references body)"
  by (auto simp: parse_closing_references_def parse_cross_references_def Let_def
      dest!: set_zip_leftD)

end
