(* ===== verification/Wire.thy ===== *)
theory Wire
  imports Cross_Refs Authorization Access_Services
begin

text \<open>
  The git wire format: pkt-lines (\<^verbatim>\<open>edda-git/src/pktline.rs\<close>), side-band framing (\<^verbatim>\<open>sideband.rs\<close>) and
  the parsers and writers of \<^verbatim>\<open>protocol.rs\<close>. Bytes are characters. A hex object id is read by the
  \<^verbatim>\<open>gix\<close> library (\<^verbatim>\<open>ObjectId::from_hex\<close>), the parameter \<^verbatim>\<open>from_hex\<close>; ids are shown as the text they were
  built from.
\<close>

section \<open>Hexadecimal lengths\<close>

definition hex_digit :: "nat \<Rightarrow> char" where
  "hex_digit n = (if n < 10 then char_of (48 + n) else char_of (87 + n))"

fun to_hex :: "nat \<Rightarrow> string" where
  "to_hex n = (if n < 16 then [hex_digit n] else to_hex (n div 16) @ [hex_digit (n mod 16)])"

declare to_hex.simps [simp del]

text \<open>\<^verbatim>\<open>{len:04x}\<close>: at least four digits.\<close>

definition hex4 :: "nat \<Rightarrow> string" where
  "hex4 n = replicate (4 - length (to_hex n)) (CHR ''0'') @ to_hex n"

definition hex_value :: "char \<Rightarrow> nat option" where
  "hex_value c =
     (if is_ascii_digit c then Some (code c - 48)
      else if 97 \<le> code c \<and> code c \<le> 102 then Some (code c - 87)
      else if 65 \<le> code c \<and> code c \<le> 70 then Some (code c - 55) else None)"

fun hex_digits_value :: "nat \<Rightarrow> string \<Rightarrow> nat option" where
  "hex_digits_value acc [] = Some acc"
| "hex_digits_value acc (c # cs) =
     (case hex_value c of None \<Rightarrow> None | Some d \<Rightarrow> hex_digits_value (16 * acc + d) cs)"

text \<open>\<^verbatim>\<open>usize::from_str_radix(s, 16)\<close> on at most four characters: a leading plus sign is accepted.\<close>

definition from_hex_radix :: "string \<Rightarrow> nat option" where
  "from_hex_radix s =
     (let digits = (if s \<noteq> [] \<and> hd s = CHR ''+'' then tl s else s)
      in if digits = [] then None else hex_digits_value 0 digits)"

section \<open>Pkt-lines\<close>

definition flush_pkt :: string where
  "flush_pkt = ''0000''"

definition pkt_line :: "string \<Rightarrow> string" where
  "pkt_line payload = hex4 (length payload + 4) @ payload"

definition write_pkt_line :: "string \<Rightarrow> string \<Rightarrow> string" where
  "write_pkt_line out payload = out @ hex4 (length payload + 4) @ payload"

definition write_flush :: "string \<Rightarrow> string" where
  "write_flush out = out @ flush_pkt"

datatype pkt = PktData string | PktFlush

definition read_pkt_line :: "string \<Rightarrow> nat \<Rightarrow> (pkt \<times> nat) option" where
  "read_pkt_line input pos =
     (if length input < pos + 4 then None
      else case from_hex_radix (slice input pos (pos + 4)) of
        None \<Rightarrow> None
      | Some len \<Rightarrow>
          if len = 0 then Some (PktFlush, pos + 4)
          else if len < 4 \<or> length input < pos + len then None
          else Some (PktData (slice input (pos + 4) (pos + len)), pos + len))"

lemma read_pkt_line_advances:
  "read_pkt_line input pos = Some (p, pos') \<Longrightarrow> pos < pos' \<and> pos' \<le> length input"
  by (auto simp: read_pkt_line_def split: if_splits option.splits)

text \<open>The lines up to a flush, and where the reading stopped: behind the flush, or where nothing more
  could be read.\<close>

function read_section :: "string \<Rightarrow> nat \<Rightarrow> string list \<times> bool \<times> nat" where
  "read_section input pos =
     (case read_pkt_line input pos of
        None \<Rightarrow> ([], False, pos)
      | Some (PktFlush, pos') \<Rightarrow> ([], True, pos')
      | Some (PktData d, pos') \<Rightarrow> (case read_section input pos' of (ds, fl, p) \<Rightarrow> (d # ds, fl, p)))"
  by pat_completeness auto
termination
  by (relation "measure (\<lambda>(input, pos). length input - pos)") (auto dest: read_pkt_line_advances)

declare read_section.simps [simp del]

definition read_pkt_lines_until_flush :: "string \<Rightarrow> string list" where
  "read_pkt_lines_until_flush input = fst (read_section input 0)"

section \<open>Side-band framing\<close>

definition band_pack :: char where "band_pack = char_of (1 :: nat)"
definition band_progress :: char where "band_progress = char_of (2 :: nat)"
definition band_error :: char where "band_error = char_of (3 :: nat)"

definition max_data_per_packet :: nat where
  "max_data_per_packet = 65515"

definition write_band :: "string \<Rightarrow> char \<Rightarrow> string \<Rightarrow> string" where
  "write_band out band payload = write_pkt_line out (band # payload)"

text \<open>\<^verbatim>\<open>slice::chunks\<close>.\<close>

function chunks :: "nat \<Rightarrow> string \<Rightarrow> string list" where
  "chunks n s = (if n = 0 \<or> s = [] then [] else take n s # chunks n (drop n s))"
  by pat_completeness auto
termination
  by (relation "measure (\<lambda>(n, s). length s)") auto

declare chunks.simps [simp del]

definition write_pack_data :: "string \<Rightarrow> string \<Rightarrow> string" where
  "write_pack_data out pack = fold (\<lambda>chunk out. write_band out band_pack chunk) (chunks max_data_per_packet pack) out"

definition write_progress :: "string \<Rightarrow> string \<Rightarrow> string" where
  "write_progress out message = write_band out band_progress message"

definition write_error :: "string \<Rightarrow> string \<Rightarrow> string" where
  "write_error out message = write_band out band_error message"

section \<open>Lossy text\<close>

text \<open>\<^verbatim>\<open>String::from_utf8_lossy\<close>: each maximal prefix of an ill-formed sequence becomes U+FFFD.\<close>

definition replacement :: string where
  "replacement = map char_of [239, 191, 189 :: nat]"

definition cont :: "nat \<Rightarrow> bool" where
  "cont b \<longleftrightarrow> 128 \<le> b \<and> b \<le> 191"

definition second_of_3 :: "nat \<Rightarrow> nat \<Rightarrow> bool" where
  "second_of_3 a b \<longleftrightarrow>
     (a = 224 \<and> 160 \<le> b \<and> b \<le> 191) \<or> (225 \<le> a \<and> a \<le> 236 \<and> cont b)
     \<or> (a = 237 \<and> 128 \<le> b \<and> b \<le> 159) \<or> (238 \<le> a \<and> a \<le> 239 \<and> cont b)"

definition second_of_4 :: "nat \<Rightarrow> nat \<Rightarrow> bool" where
  "second_of_4 a b \<longleftrightarrow>
     (a = 240 \<and> 144 \<le> b \<and> b \<le> 191) \<or> (241 \<le> a \<and> a \<le> 243 \<and> cont b) \<or> (a = 244 \<and> 128 \<le> b \<and> b \<le> 143)"

text \<open>How many bytes the sequence at the front takes, and whether it is well formed.\<close>

fun utf8_step :: "string \<Rightarrow> nat \<times> bool" where
  "utf8_step [] = (1, False)"
| "utf8_step (a # rest) =
     (if code a < 128 then (1, True)
      else if 194 \<le> code a \<and> code a \<le> 223 then
        (case rest of b # _ \<Rightarrow> if cont (code b) then (2, True) else (1, False) | [] \<Rightarrow> (1, False))
      else if 224 \<le> code a \<and> code a \<le> 239 then
        (case rest of
           b # rest' \<Rightarrow>
             if \<not> second_of_3 (code a) (code b) then (1, False)
             else (case rest' of c # _ \<Rightarrow> if cont (code c) then (3, True) else (2, False) | [] \<Rightarrow> (2, False))
         | [] \<Rightarrow> (1, False))
      else if 240 \<le> code a \<and> code a \<le> 244 then
        (case rest of
           b # rest' \<Rightarrow>
             if \<not> second_of_4 (code a) (code b) then (1, False)
             else (case rest' of
                     c # rest'' \<Rightarrow>
                       if \<not> cont (code c) then (2, False)
                       else (case rest'' of d # _ \<Rightarrow> if cont (code d) then (4, True) else (3, False) | [] \<Rightarrow> (3, False))
                   | [] \<Rightarrow> (2, False))
         | [] \<Rightarrow> (1, False))
      else (1, False))"

lemma utf8_step_pos: "0 < fst (utf8_step s)"
  by (cases s) (auto split: list.splits)

lemma utf8_step_shorter: "(n, good) = utf8_step s \<Longrightarrow> s \<noteq> [] \<Longrightarrow> length s - n < length s"
  using utf8_step_pos [of s] by (cases s) (metis diff_less fst_conv length_greater_0_conv)+

function utf8_lossy :: "string \<Rightarrow> string" where
  "utf8_lossy s =
     (if s = [] then []
      else (case utf8_step s of (n, good) \<Rightarrow> (if good then take n s else replacement) @ utf8_lossy (drop n s)))"
  by pat_completeness auto
termination
  by (relation "measure length") (auto dest: utf8_step_shorter)

declare utf8_lossy.simps [simp del]

section \<open>Numbers\<close>

text \<open>\<^verbatim>\<open>str::parse\<close> for \<^verbatim>\<open>i64\<close> and \<^verbatim>\<open>u32\<close>.\<close>

definition parse_digits :: "string \<Rightarrow> int option" where
  "parse_digits s = (if s = [] \<or> \<not> list_all is_ascii_digit s then None else Some (digits_value s))"

definition parse_i64 :: "string \<Rightarrow> int option" where
  "parse_i64 s =
     (case (case s of
              [] \<Rightarrow> None
            | c # cs \<Rightarrow> if c = CHR ''-'' then map_option uminus (parse_digits cs)
                       else if c = CHR ''+'' then parse_digits cs else parse_digits s) of
        None \<Rightarrow> None
      | Some n \<Rightarrow> if in_i64 n then Some n else None)"

definition parse_u32 :: "string \<Rightarrow> int option" where
  "parse_u32 s =
     (case (case s of [] \<Rightarrow> None | c # cs \<Rightarrow> if c = CHR ''+'' then parse_digits cs else parse_digits s) of
        None \<Rightarrow> None
      | Some n \<Rightarrow> if n < 2 ^ 32 then Some n else None)"

section \<open>Upload-pack requests\<close>

datatype deepen = DeepenNone | DeepenDepth int | DeepenSince int

record 'oid upload_pack_request =
  wants :: "'oid list"
  haves :: "'oid list"
  capabilities :: "string list"
  shallow :: "'oid list"
  deepen :: deepen
  req_done :: bool

definition wants_side_band_64k :: "'oid upload_pack_request \<Rightarrow> bool" where
  "wants_side_band_64k r \<longleftrightarrow> ''side-band-64k'' \<in> set (capabilities r)"

definition wants_progress :: "'oid upload_pack_request \<Rightarrow> bool" where
  "wants_progress r \<longleftrightarrow> ''no-progress'' \<notin> set (capabilities r)"

text \<open>One line of the first section.\<close>

definition want_line :: "(string \<Rightarrow> 'oid option) \<Rightarrow> string \<Rightarrow> 'oid upload_pack_request \<Rightarrow> 'oid upload_pack_request" where
  "want_line from_hex data r =
     (let line = trim_end (utf8_lossy data) in
      case strip_prefix ''want '' line of
        Some rest \<Rightarrow>
          (case split_whitespace rest of
             [] \<Rightarrow> r
           | hex # caps \<Rightarrow>
               (case from_hex hex of
                  None \<Rightarrow> r
                | Some i \<Rightarrow> (if wants r = [] then r\<lparr>capabilities := caps\<rparr> else r)\<lparr>wants := wants r @ [i]\<rparr>))
      | None \<Rightarrow>
      case strip_prefix ''shallow '' line of
        Some rest \<Rightarrow>
          (case from_hex (trim rest) of None \<Rightarrow> r | Some i \<Rightarrow> r\<lparr>shallow := shallow r @ [i]\<rparr>)
      | None \<Rightarrow>
      case strip_prefix ''deepen-since '' line of
        Some rest \<Rightarrow>
          (case parse_i64 (trim rest) of None \<Rightarrow> r | Some seconds \<Rightarrow> r\<lparr>deepen := DeepenSince seconds\<rparr>)
      | None \<Rightarrow>
      case strip_prefix ''deepen '' line of
        Some rest \<Rightarrow>
          (case parse_u32 (trim rest) of
             None \<Rightarrow> r | Some depth \<Rightarrow> if 0 < depth then r\<lparr>deepen := DeepenDepth depth\<rparr> else r)
      | None \<Rightarrow> r)"

definition parse_oid_line :: "(string \<Rightarrow> 'oid option) \<Rightarrow> string \<Rightarrow> string \<Rightarrow> 'oid option" where
  "parse_oid_line from_hex data prefix =
     (case strip_prefix prefix (trim_end (utf8_lossy data)) of
        None \<Rightarrow> None
      | Some rest \<Rightarrow> (case split_whitespace rest of [] \<Rightarrow> None | hex # _ \<Rightarrow> from_hex hex))"

definition is_done :: "string \<Rightarrow> bool" where
  "is_done data \<longleftrightarrow> trim_end (utf8_lossy data) = ''done''"

text \<open>The second section: flushes are skipped, \<^verbatim>\<open>done\<close> ends it.\<close>

function read_haves :: "(string \<Rightarrow> 'oid option) \<Rightarrow> string \<Rightarrow> nat \<Rightarrow> 'oid list \<times> bool" where
  "read_haves from_hex body pos =
     (case read_pkt_line body pos of
        None \<Rightarrow> ([], False)
      | Some (PktFlush, pos') \<Rightarrow> read_haves from_hex body pos'
      | Some (PktData d, pos') \<Rightarrow>
          if is_done d then ([], True)
          else (case read_haves from_hex body pos' of (hs, fin) \<Rightarrow>
                  (case parse_oid_line from_hex d ''have '' of None \<Rightarrow> hs | Some i \<Rightarrow> i # hs, fin)))"
  by pat_completeness auto
termination
  by (relation "measure (\<lambda>(_, input, pos). length input - pos)") (auto dest: read_pkt_line_advances)

declare read_haves.simps [simp del]

definition empty_request :: "'oid upload_pack_request" where
  "empty_request = \<lparr>wants = [], haves = [], capabilities = [], shallow = [], deepen = DeepenNone, req_done = False\<rparr>"

definition parse_upload_pack_request :: "(string \<Rightarrow> 'oid option) \<Rightarrow> string \<Rightarrow> 'oid upload_pack_request" where
  "parse_upload_pack_request from_hex body =
     (case read_section body 0 of
        (first, _, pos) \<Rightarrow>
          (case read_haves from_hex body pos of
             (hs, fin) \<Rightarrow> (fold (want_line from_hex) first empty_request)\<lparr>haves := hs, req_done := fin\<rparr>))"

function reaches_done :: "string \<Rightarrow> nat \<Rightarrow> bool" where
  "reaches_done body pos =
     (case read_pkt_line body pos of
        None \<Rightarrow> False
      | Some (PktFlush, pos') \<Rightarrow> reaches_done body pos'
      | Some (PktData d, pos') \<Rightarrow> if is_done d then True else reaches_done body pos')"
  by pat_completeness auto
termination
  by (relation "measure (\<lambda>(input, pos). length input - pos)") (auto dest: read_pkt_line_advances)

declare reaches_done.simps [simp del]

definition upload_pack_request_is_complete :: "string \<Rightarrow> bool" where
  "upload_pack_request_is_complete body =
     (case read_section body 0 of (_, flushed, pos) \<Rightarrow> if flushed then reaches_done body pos else False)"

section \<open>Upload-pack responses\<close>

text \<open>What \<^verbatim>\<open>build_shallow_pack\<close> returns; ids are their text.\<close>

record built_pack =
  built_data :: string
  new_shallow :: "string list"
  unshallow :: "string list"

definition pack_object_count :: "string \<Rightarrow> nat" where
  "pack_object_count pack =
     (if length pack < 12 then 0
      else ((code (pack ! 8) * 256 + code (pack ! 9)) * 256 + code (pack ! 10)) * 256 + code (pack ! 11))"

definition shallow_section :: "built_pack \<Rightarrow> string" where
  "shallow_section b =
     write_flush
       (fold (\<lambda>i out. write_pkt_line out (''unshallow '' @ i @ [CHR 0x0A])) (unshallow b)
          (fold (\<lambda>i out. write_pkt_line out (''shallow '' @ i @ [CHR 0x0A])) (new_shallow b) []))"

definition upload_pack_response :: "'oid upload_pack_request \<Rightarrow> built_pack \<Rightarrow> string" where
  "upload_pack_response request b =
     (let out = (if deepen request \<noteq> DeepenNone then shallow_section b else []) in
      if deepen request \<noteq> DeepenNone \<and> \<not> req_done request then out
      else
        let out = write_pkt_line out (''NAK'' @ [CHR 0x0A]) in
        if wants_side_band_64k request then
          let out = (if wants_progress request
                     then write_progress out (''Total '' @ show_nat (pack_object_count (built_data b))
                            @ '' objects, done.'' @ [CHR 0x0A])
                     else out)
          in write_flush (write_pack_data out (built_data b))
        else out @ built_data b)"

text \<open>An empty request is the transport's probe.\<close>

definition run_upload_pack ::
  "(string \<Rightarrow> 'oid option) \<Rightarrow> ('oid upload_pack_request \<Rightarrow> 'e + built_pack) \<Rightarrow> string \<Rightarrow> 'e + string" where
  "run_upload_pack from_hex build body =
     (let request = parse_upload_pack_request from_hex body in
      if wants request = [] then Inr []
      else (case build request of Inl e \<Rightarrow> Inl e | Inr b \<Rightarrow> Inr (upload_pack_response request b)))"

section \<open>Advertisements and receive-pack commands\<close>

definition peeled :: string where
  "peeled = ''^{}''"

definition advertisement_line :: "string \<times> string \<Rightarrow> string option \<Rightarrow> string" where
  "advertisement_line r caps =
     fst r @ '' '' @ snd r @ (case caps of None \<Rightarrow> [] | Some c \<Rightarrow> CHR 0x00 # c) @ [CHR 0x0A]"

definition write_ref_advertisement :: "string \<Rightarrow> (string \<times> string) list \<Rightarrow> string \<Rightarrow> string" where
  "write_ref_advertisement out refs caps =
     write_flush
       (case refs of
          [] \<Rightarrow> write_pkt_line out (advertisement_line (replicate 40 (CHR ''0''), ''capabilities'' @ peeled) (Some caps))
        | r # rs \<Rightarrow>
            fold (\<lambda>r out. write_pkt_line out (advertisement_line r None)) rs
              (write_pkt_line out (advertisement_line r (Some caps))))"

definition pick_default_branch :: "string list \<Rightarrow> string option" where
  "pick_default_branch names =
     (if ''main'' \<in> set names then Some ''main''
      else if ''master'' \<in> set names then Some ''master''
      else case names of [] \<Rightarrow> None | n # _ \<Rightarrow> Some n)"

text \<open>The refs of a repository as the library lists them: branches with their ids, tags with the id
  they hold and what it peels to.\<close>

definition advertised_refs ::
  "string option \<Rightarrow> (string \<times> string) list \<Rightarrow> (string \<times> string \<times> string) list \<Rightarrow> (string \<times> string) list" where
  "advertised_refs head_id branches tags =
     (let head = (case head_id of
            Some i \<Rightarrow> Some i
          | None \<Rightarrow> (case pick_default_branch (map snd branches) of
                 None \<Rightarrow> None
               | Some chosen \<Rightarrow> map_option fst (find (\<lambda>b. snd b = chosen) branches)))
      in (case head of None \<Rightarrow> [] | Some i \<Rightarrow> [(i, ''HEAD'')])
         @ map (\<lambda>(i, n). (i, ''refs/heads/'' @ n)) branches
         @ concat (map (\<lambda>(direct, n, peeled_id).
             (direct, ''refs/tags/'' @ n) #
             (if direct = peeled_id then [] else [(peeled_id, ''refs/tags/'' @ n @ peeled)])) tags))"

fun before_nul :: "string \<Rightarrow> string" where
  "before_nul [] = []"
| "before_nul (c # cs) = (if c = CHR 0x00 then [] else c # before_nul cs)"

definition parse_command :: "string \<Rightarrow> string + ref_command" where
  "parse_command line =
     (let t = trim_end (before_nul (utf8_lossy line)) in
      case split_once (CHR '' '') t of
        None \<Rightarrow> Inl t
      | Some (old_id, rest) \<Rightarrow>
          (case split_once (CHR '' '') rest of
             None \<Rightarrow> Inl t
           | Some (new_id, ref_name) \<Rightarrow>
               Inr \<lparr>old_oid = old_id, new_oid = new_id, cmd_ref_name = ref_name\<rparr>))"

text \<open>Lines are read, and the first malformed one reported, before any later one.\<close>

fun parse_commands :: "string list \<Rightarrow> string + ref_command list" where
  "parse_commands [] = Inr []"
| "parse_commands (l # ls) =
     (case parse_command l of
        Inl e \<Rightarrow> Inl e
      | Inr c \<Rightarrow> (case parse_commands ls of Inl e \<Rightarrow> Inl e | Inr cs \<Rightarrow> Inr (c # cs)))"

definition parse_receive_pack_commands :: "string \<Rightarrow> string + ref_command list \<times> nat" where
  "parse_receive_pack_commands body =
     (case read_section body 0 of
        (ls, _, pos) \<Rightarrow> (case parse_commands ls of Inl e \<Rightarrow> Inl e | Inr cs \<Rightarrow> Inr (cs, pos)))"

end
