(* ===== verification/Secret_Box.thy ===== *)
theory Secret_Box
  imports Wire
begin

text \<open>
  Encryption of stored secrets (\<^verbatim>\<open>edda-auth/src/secret_box.rs\<close>), the keys derived for signing
  (\<^verbatim>\<open>signing_keys.rs\<close>) and the reading of the key list from the environment
  (\<^verbatim>\<open>edda-app/src/config.rs\<close>). AES-GCM and HKDF are the library's. The key set is installed once per
  process, so the operations take it as an argument.
\<close>

section \<open>The key set\<close>

record aead =
  seal :: "string \<Rightarrow> string \<Rightarrow> string \<Rightarrow> string"
  open_sealed :: "string \<Rightarrow> string \<Rightarrow> string \<Rightarrow> string option"

record key_set =
  ks_by_id :: "(string \<times> string) list"
  ks_primary_id :: string
  ks_primary_bytes :: string

datatype secret_box_error = NotConfigured | Corrupted

definition nonce_len :: nat where "nonce_len = 12"
definition format_tag :: char where "format_tag = CHR 0x01"
definition max_id_len :: nat where "max_id_len = 32"

text \<open>A later entry of the same id replaces an earlier one in the map, while the primary's bytes are the
  first entry's.\<close>

definition key_of :: "key_set \<Rightarrow> string \<Rightarrow> string option" where
  "key_of ks i = map_of (rev (ks_by_id ks)) i"

definition expect_key :: "key_set \<Rightarrow> string" where
  "expect_key ks = (case key_of ks (ks_primary_id ks) of Some key \<Rightarrow> key | None \<Rightarrow> [])"

definition init_keys :: "(string \<times> string) list \<Rightarrow> string option \<Rightarrow> key_set option" where
  "init_keys entries primary_id =
     (case primary_id of
        Some p \<Rightarrow>
          if entries = [] then None
          else map_option (\<lambda>bytes. \<lparr>ks_by_id = entries, ks_primary_id = p, ks_primary_bytes = bytes\<rparr>) (map_of entries p)
      | None \<Rightarrow> None)"

definition active_key_id :: "key_set option \<Rightarrow> string option" where
  "active_key_id installed = map_option ks_primary_id installed"

definition primary_key_bytes :: "key_set option \<Rightarrow> string option" where
  "primary_key_bytes installed = map_option ks_primary_bytes installed"

section \<open>Encrypting and decrypting\<close>

text \<open>\<^verbatim>\<open>expect\<close>s on the primary key are the default branch: a set from \<^verbatim>\<open>init_keys\<close> always has it.\<close>

definition encrypt :: "aead \<Rightarrow> key_set option \<Rightarrow> string \<Rightarrow> string \<Rightarrow> secret_box_error + string" where
  "encrypt aes installed nonce plaintext =
     (case installed of
        None \<Rightarrow> Inl NotConfigured
      | Some ks \<Rightarrow>
          (let i = ks_primary_id ks; key = expect_key ks in
           Inr (format_tag # char_of (length i) # i @ nonce @ seal aes key nonce plaintext)))"

definition is_utf8 :: "string \<Rightarrow> bool" where
  "is_utf8 s \<longleftrightarrow> utf8_lossy s = s"

definition parse_versioned :: "string \<Rightarrow> (string \<times> string \<times> string) option" where
  "parse_versioned stored =
     (case stored of
        tag # len # rest \<Rightarrow>
          if tag \<noteq> format_tag then None
          else (let id_len = of_char len in
            if id_len = 0 \<or> max_id_len < id_len \<or> length rest < id_len + nonce_len + 1 then None
            else if \<not> is_utf8 (take id_len rest) then None
            else Some (take id_len rest, take nonce_len (drop id_len rest), drop nonce_len (drop id_len rest)))
      | _ \<Rightarrow> None)"

definition decrypt :: "aead \<Rightarrow> key_set option \<Rightarrow> string \<Rightarrow> secret_box_error + string" where
  "decrypt aes installed stored =
     (case installed of
        None \<Rightarrow> Inl NotConfigured
      | Some ks \<Rightarrow>
          (case (case parse_versioned stored of
                   Some (i, nonce, ct) \<Rightarrow>
                     (case key_of ks i of None \<Rightarrow> Inl Corrupted | Some key \<Rightarrow> Inr (key, nonce, ct))
                 | None \<Rightarrow>
                     if length stored < nonce_len then Inl Corrupted
                     else Inr (expect_key ks, take nonce_len stored, drop nonce_len stored)) of
             Inl e \<Rightarrow> Inl e
           | Inr (key, nonce, ct) \<Rightarrow>
               (case open_sealed aes key nonce ct of None \<Rightarrow> Inl Corrupted | Some p \<Rightarrow> Inr p)))"

definition reencrypt :: "aead \<Rightarrow> key_set option \<Rightarrow> string \<Rightarrow> string \<Rightarrow> secret_box_error + string" where
  "reencrypt aes installed nonce stored =
     (case decrypt aes installed stored of Inl e \<Rightarrow> Inl e | Inr p \<Rightarrow> encrypt aes installed nonce p)"

section \<open>Signing keys\<close>

text \<open>Without a key set every purpose gets the same random value of the process.\<close>

definition derive :: "(string \<Rightarrow> string \<Rightarrow> string) \<Rightarrow> key_set option \<Rightarrow> string \<Rightarrow> string \<Rightarrow> string" where
  "derive hkdf installed process_random purpose =
     (case primary_key_bytes installed of Some root \<Rightarrow> hkdf root purpose | None \<Rightarrow> process_random)"

section \<open>The key list\<close>

fun decode_pairs :: "string \<Rightarrow> string option" where
  "decode_pairs (a # b # rest) =
     (case from_hex_radix [a, b] of
        None \<Rightarrow> None
      | Some v \<Rightarrow> map_option (\<lambda>out. char_of v # out) (decode_pairs rest))"
| "decode_pairs _ = Some []"

definition decode_hex_32 :: "string \<Rightarrow> string option" where
  "decode_hex_32 input = (let s = trim input in if length s \<noteq> 64 then None else decode_pairs s)"

text \<open>The entries that were accepted, and the problems found: parsing goes on after one, and start-up fails
  if there is any.\<close>

datatype key_problem = IdsMandatory | BadKeyId string | DuplicateKeyId string | BadKey string

fun parse_key_items ::
  "nat \<Rightarrow> string list \<Rightarrow> string list \<Rightarrow> (string \<times> string) list \<Rightarrow> key_problem list
     \<Rightarrow> (string \<times> string) list \<times> key_problem list" where
  "parse_key_items n_items [] seen entries problems = (entries, problems)"
| "parse_key_items n_items (item # items) seen entries problems =
     (case (case split_once (CHR '':'') item of
              Some (i, hex) \<Rightarrow> Some (trim i, trim hex)
            | None \<Rightarrow> if n_items = 1 then Some (''default'', trim item) else None) of
        None \<Rightarrow> parse_key_items n_items items seen entries (problems @ [IdsMandatory])
      | Some (i, hex) \<Rightarrow>
          if i = [] \<or> 32 < length i then parse_key_items n_items items seen entries (problems @ [BadKeyId i])
          else if i \<in> set seen then parse_key_items n_items items seen entries (problems @ [DuplicateKeyId i])
          else (case decode_hex_32 hex of
                  Some key \<Rightarrow> parse_key_items n_items items (i # seen) (entries @ [(i, key)]) problems
                | None \<Rightarrow> parse_key_items n_items items (i # seen) entries (problems @ [BadKey i])))"

definition parse_secret_keys :: "string option \<Rightarrow> (string \<times> string) list \<times> key_problem list" where
  "parse_secret_keys raw =
     (case raw of
        None \<Rightarrow> ([], [])
      | Some r \<Rightarrow>
          (let items = filter (\<lambda>s. s \<noteq> []) (map trim (split_on (CHR '','') r)) in
           parse_key_items (length items) items [] [] []))"

definition installed_keys :: "(string \<times> string) list \<Rightarrow> key_set option" where
  "installed_keys entries = init_keys entries (case entries of [] \<Rightarrow> None | (i, _) # _ \<Rightarrow> Some i)"

section \<open>Keys that parsed are usable\<close>

definition usable :: "key_set \<Rightarrow> bool" where
  "usable ks \<longleftrightarrow>
     distinct (map fst (ks_by_id ks))
     \<and> (\<forall>(i, key)\<in>set (ks_by_id ks). 0 < length i \<and> length i \<le> max_id_len \<and> length key = 32)
     \<and> key_of ks (ks_primary_id ks) = Some (ks_primary_bytes ks)"

lemma length_decode_pairs: "decode_pairs s = Some out \<Longrightarrow> 2 * length out = length s - length s mod 2"
  by (induction s arbitrary: out rule: decode_pairs.induct) (auto split: option.splits)

lemma length_decode_hex_32: "decode_hex_32 s = Some key \<Longrightarrow> length key = 32"
  using length_decode_pairs by (fastforce simp: decode_hex_32_def Let_def split: if_splits)

lemma parse_key_items_ok:
  assumes "parse_key_items n_items items seen entries problems = (out, problems')"
    and "distinct (map fst entries)" "fst ` set entries \<subseteq> set seen"
    and "\<forall>(i, key)\<in>set entries. 0 < length i \<and> length i \<le> 32 \<and> length key = 32"
  shows "distinct (map fst out) \<and> (\<forall>(i, key)\<in>set out. 0 < length i \<and> length i \<le> 32 \<and> length key = 32)"
  using assms
proof (induction n_items items seen entries problems rule: parse_key_items.induct)
  case (1 n_items seen entries problems)
  then show ?case by simp
next
  case (2 n_items item items seen entries problems)
  let ?item = "case split_once (CHR '':'') item of
      Some (i, hex) \<Rightarrow> Some (trim i, trim hex) | None \<Rightarrow> if n_items = 1 then Some (''default'', trim item) else None"
  note run = "2.prems"(1) [unfolded parse_key_items.simps]
  show ?case
  proof (cases ?item)
    case None
    with run have "parse_key_items n_items items seen entries (problems @ [IdsMandatory]) = (out, problems')"
      by (simp only: option.case)
    from "2.IH"(1) [OF None this "2.prems"(2-4)] show ?thesis .
  next
    case (Some p)
    obtain i hex where p: "p = (i, hex)" by fastforce
    note item = Some [unfolded p]
    note run' = run [unfolded item option.case prod.case]
    consider "i = [] \<or> 32 < length i" | "\<not> (i = [] \<or> 32 < length i)" "i \<in> set seen"
      | "\<not> (i = [] \<or> 32 < length i)" "i \<notin> set seen" by blast
    then show ?thesis
    proof cases
      case 1
      from "2.IH"(2) [OF item refl 1 run' [unfolded if_P [OF 1]] "2.prems"(2-4)] show ?thesis .
    next
      case case2: 2
      from "2.IH"(3) [OF item refl case2 run' [unfolded if_not_P [OF case2(1)] if_P [OF case2(2)]] "2.prems"(2-4)] show ?thesis .
    next
      case case3: 3
      note run'' = run' [unfolded if_not_P [OF case3(1)] if_not_P [OF case3(2)]]
      have seen: "fst ` set entries \<subseteq> set (i # seen)" using "2.prems"(3) by auto
      show ?thesis
      proof (cases "decode_hex_32 hex")
        case None
        from "2.IH"(4) [OF item refl case3 None run'' [unfolded None option.case] "2.prems"(2) seen "2.prems"(4)] show ?thesis .
      next
        case (Some key)
        have "distinct (map fst (entries @ [(i, key)]))" using "2.prems"(2,3) case3(2) by auto
        moreover have "fst ` set (entries @ [(i, key)]) \<subseteq> set (i # seen)" using "2.prems"(3) by auto
        moreover have "\<forall>(i, key)\<in>set (entries @ [(i, key)]). 0 < length i \<and> length i \<le> 32 \<and> length key = 32"
          using "2.prems"(4) case3(1) length_decode_hex_32 [OF Some] by auto
        ultimately show ?thesis using "2.IH"(5) [OF item refl case3 Some run'' [unfolded Some option.case]] by blast
      qed
    qed
  qed
qed

lemma parsed_keys_usable:
  assumes "parse_secret_keys raw = (entries, problems)" "installed_keys entries = Some ks"
  shows "usable ks"
proof -
  have ok: "distinct (map fst entries) \<and> (\<forall>(i, key)\<in>set entries. 0 < length i \<and> length i \<le> 32 \<and> length key = 32)"
    using assms(1) parse_key_items_ok [of _ _ "[]" "[]" "[]"]
    by (auto simp: parse_secret_keys_def Let_def split: option.splits)
  obtain i key rest where e: "entries = (i, key) # rest"
    using assms(2) by (auto simp: installed_keys_def init_keys_def split: list.splits)
  then have ks: "ks = \<lparr>ks_by_id = entries, ks_primary_id = i, ks_primary_bytes = key\<rparr>"
    using assms(2) by (simp add: installed_keys_def init_keys_def)
  have "map_of (rev entries) i = Some key"
    using ok e by (subst map_of_eq_Some_iff) (simp_all flip: rev_map)
  then show ?thesis using ok ks by (simp add: usable_def key_of_def max_id_len_def)
qed

section \<open>Rotation\<close>

definition aead_law :: "aead \<Rightarrow> bool" where
  "aead_law aes \<longleftrightarrow> (\<forall>k n p. open_sealed aes k n (seal aes k n p) = Some p \<and> seal aes k n p \<noteq> [])"

lemma parse_encrypted:
  assumes "0 < length i" "length i \<le> max_id_len" "is_utf8 i" "length nonce = nonce_len" "ct \<noteq> []"
  shows "parse_versioned (format_tag # char_of (length i) # i @ nonce @ ct) = Some (i, nonce, ct)"
proof -
  have "length i < 256" using assms(2) by (simp add: max_id_len_def)
  then have "(of_char (char_of (length i) :: char) :: nat) = length i" by simp
  moreover have "0 < length ct" using assms(5) by simp
  ultimately show ?thesis using assms by (simp add: parse_versioned_def Let_def)
qed

text \<open>C38. Keys can be rotated without losing a secret. What was encrypted under one key set decrypts under
  any set that still has that set's primary key, whatever its own primary is; re-encrypted there it
  decrypts under any set that has the new primary, so the old key can then be dropped. The sets are those
  of any two key lists from the environment.\<close>

theorem secret_box_rotation:
  assumes "aead_law aes" "parse_secret_keys raw = (entries, problems)" "installed_keys entries = Some old"
    and "parse_secret_keys raw' = (entries', problems')" "installed_keys entries' = Some new" "length nonce = nonce_len" "length nonce' = nonce_len"
    and "is_utf8 (ks_primary_id old)" "is_utf8 (ks_primary_id new)"
    and "key_of new (ks_primary_id old) = Some (ks_primary_bytes old)"
  shows "\<exists>blob blob'. encrypt aes (Some old) nonce secret = Inr blob \<and> decrypt aes (Some new) blob = Inr secret
    \<and> reencrypt aes (Some new) nonce' blob = Inr blob'
    \<and> (\<forall>later. key_of later (ks_primary_id new) = Some (ks_primary_bytes new) \<longrightarrow> decrypt aes (Some later) blob' = Inr secret)"
proof -
  have enc: "\<exists>blob. encrypt aes (Some ks) n secret = Inr blob
      \<and> (\<forall>other. key_of other (ks_primary_id ks) = Some (ks_primary_bytes ks) \<longrightarrow> decrypt aes (Some other) blob = Inr secret)"
    if "usable ks" "is_utf8 (ks_primary_id ks)" "length n = nonce_len" for ks n
  proof -
    have k: "key_of ks (ks_primary_id ks) = Some (ks_primary_bytes ks)" using that(1) by (simp add: usable_def)
    then have "(ks_primary_id ks, ks_primary_bytes ks) \<in> set (ks_by_id ks)"
      unfolding key_of_def by (metis map_of_SomeD set_rev)
    then have "0 < length (ks_primary_id ks)" "length (ks_primary_id ks) \<le> max_id_len"
      using that(1) by (auto simp: usable_def)
    from parse_encrypted [OF this that(2,3)] show ?thesis
      using k assms(1) by (simp add: encrypt_def decrypt_def Let_def aead_law_def expect_key_def)
  qed
  from enc [OF parsed_keys_usable [OF assms(2,3)] assms(8,6)] obtain blob where blob: "encrypt aes (Some old) nonce secret = Inr blob"
    "decrypt aes (Some new) blob = Inr secret" using assms(10) by blast
  from enc [OF parsed_keys_usable [OF assms(4,5)] assms(9,7)] show ?thesis using blob by (auto simp: reencrypt_def)
qed

text \<open>AES here appends the key's first letter to the text and checks it on opening.\<close>

definition toy_aes :: aead where
  "toy_aes =
    \<lparr>seal = (\<lambda>k n p. p @ [hd (k @ ''?'')]),
     open_sealed = (\<lambda>k n c. if c \<noteq> [] \<and> last c = hd (k @ ''?'') then Some (butlast c) else None)\<rparr>"

definition key_text :: "string \<Rightarrow> char \<Rightarrow> string" where
  "key_text i c = i @ CHR '':'' # concat (replicate 32 [CHR ''4'', c])"

definition keys_of :: "string list \<Rightarrow> (string \<times> string) list" where
  "keys_of texts = fst (parse_secret_keys (Some (concat (map (\<lambda>t. t @ '','') texts))))"

lemma toy_aes_law: "aead_law toy_aes"
  by (simp add: aead_law_def toy_aes_def)

theorem secret_box_rotation_witness:
  "\<exists>blob. encrypt toy_aes (installed_keys (keys_of [key_text ''k1'' (CHR ''1'')])) (replicate 12 (CHR ''n'')) ''seed'' = Inr blob
     \<and> decrypt toy_aes (installed_keys (keys_of [key_text ''k2'' (CHR ''2''), key_text ''k1'' (CHR ''1'')])) blob = Inr ''seed''"
proof -
  let ?old = "keys_of [key_text ''k1'' (CHR ''1'')]" and ?new = "keys_of [key_text ''k2'' (CHR ''2''), key_text ''k1'' (CHR ''1'')]"
  have old: "?old = [(''k1'', replicate 32 (CHR ''A''))]" by code_simp
  have new: "?new = [(''k2'', replicate 32 (CHR ''B'')), (''k1'', replicate 32 (CHR ''A''))]" by code_simp
  have ids: "is_utf8 ''k1''" "is_utf8 ''k2''" by code_simp+
  have split: "parse_secret_keys raw = (fst (parse_secret_keys raw), snd (parse_secret_keys raw))" for raw by simp
  have inst: "installed_keys ?old = Some \<lparr>ks_by_id = ?old, ks_primary_id = ''k1'', ks_primary_bytes = replicate 32 (CHR ''A'')\<rparr>"
    "installed_keys ?new = Some \<lparr>ks_by_id = ?new, ks_primary_id = ''k2'', ks_primary_bytes = replicate 32 (CHR ''B'')\<rparr>"
    unfolding old new by (simp_all add: installed_keys_def init_keys_def)
  note r = secret_box_rotation [OF toy_aes_law split inst(1) [unfolded keys_of_def] split inst(2) [unfolded keys_of_def],
      of "replicate 12 (CHR ''n'')" "replicate 12 (CHR ''n'')" "''seed''"]
  have "key_of (the (installed_keys ?new)) ''k1'' = Some (replicate 32 (CHR ''A''))"
    unfolding inst option.sel by (simp add: key_of_def new)
  then show ?thesis
    unfolding inst using r ids by (auto simp: nonce_len_def inst(2) keys_of_def)
qed

end
