(* ===== verification/Job_Queue.thy ===== *)
theory Job_Queue
  imports Complex_Main Database "HOL-Library.List_Lexorder" "HOL-Library.Char_ord"
begin

text \<open>
  The background-job queue (\<^verbatim>\<open>edda-db/src/job_repo.rs\<close>, \<^verbatim>\<open>scheduled_job_repo.rs\<close>,
  \<^verbatim>\<open>edda-jobs/src/lib.rs\<close>, \<^verbatim>\<open>scheduler.rs\<close>, \<^verbatim>\<open>next_retry_at\<close> of \<^verbatim>\<open>edda-domain/src/job.rs\<close>).
  Each statement on the \<^verbatim>\<open>jobs\<close> table is a function on its rows; the queue operations run them in
  the world of \<^verbatim>\<open>Database\<close>. The step relation at the end interleaves the statements of any number
  of pollers, schedulers and administrators.
\<close>

section \<open>Backoff\<close>

text \<open>\<^verbatim>\<open>f64\<close> arithmetic: \<^verbatim>\<open>fl\<close> rounds an exact result to the nearest \<^verbatim>\<open>f64\<close>; the jitter is any
  finite \<^verbatim>\<open>f64\<close>, hence rational. \<^verbatim>\<open>f64::round\<close> goes half away from zero, here on a positive
  number.\<close>

definition clamp01 :: "rat \<Rightarrow> rat" where
  "clamp01 x = max 0 (min 1 x)"

definition next_retry_at :: "(rat \<Rightarrow> rat) \<Rightarrow> 32 word \<Rightarrow> rat \<Rightarrow> int \<Rightarrow> int" where
  "next_retry_at fl attempts jitter_unit now =
     (let jitter = clamp01 jitter_unit;
          exponential = sat_i64 (30 * 2 ^ unat (min attempts 20));
          backoff = max 1 (min 1800 exponential);
          jittered = \<lfloor>fl (of_int backoff * fl (1 / 2 + fl (jitter * (1 / 2)))) + 1 / 2\<rfloor>
      in now + max jittered 1)"

definition backoff_ceiling :: "32 word \<Rightarrow> int" where
  "backoff_ceiling attempts = min 1800 (30 * 2 ^ unat (min attempts 20))"

lemma backoff_range:
  "30 \<le> backoff_ceiling attempts" "backoff_ceiling attempts \<le> 1800" "even (backoff_ceiling attempts)"
proof -
  show "30 \<le> backoff_ceiling attempts" by (simp add: backoff_ceiling_def)
  show "backoff_ceiling attempts \<le> 1800" by (simp add: backoff_ceiling_def)
  show "even (backoff_ceiling attempts)" by (simp add: backoff_ceiling_def min_def)
qed

lemma sat_backoff:
  "max 1 (min 1800 (sat_i64 (30 * 2 ^ unat (min attempts 20)))) = backoff_ceiling attempts"
proof -
  have "min attempts 20 \<le> (20 :: 32 word)" by simp
  then have "unat (min attempts 20) \<le> 20" by (simp add: word_le_nat_alt)
  then have le: "(2::int) ^ unat (min attempts 20) \<le> 2 ^ 20" by (intro power_increasing) simp_all
  define x where "x = (2::int) ^ unat (min attempts 20)"
  have "0 < x" "x \<le> 1048576" using le by (simp_all add: x_def)
  then have "sat_i64 (30 * x) = 30 * x" and "1 \<le> 30 * x"
    by (simp_all add: sat_i64_def i64_max_def i64_min_def max_def)
  then show ?thesis by (simp add: backoff_ceiling_def max_def flip: x_def)
qed

lemma backoff_doubles:
  "unat a < unat b \<Longrightarrow> backoff_ceiling a \<le> backoff_ceiling b"
proof -
  assume "unat a < unat b"
  then have "a \<le> b" by (simp add: word_le_nat_alt)
  then have "min a 20 \<le> min b (20 :: 32 word)" by (rule min.mono) simp
  then have "unat (min a 20) \<le> unat (min b (20 :: 32 word))" by (simp add: word_le_nat_alt)
  then have "(2::int) ^ unat (min a 20) \<le> 2 ^ unat (min b (20 :: 32 word))"
    by (intro power_increasing) simp_all
  then show ?thesis by (simp add: backoff_ceiling_def min_le_iff_disj)
qed

lemma next_retry_bounds:
  assumes fl_mono: "\<And>x y. x \<le> y \<Longrightarrow> fl x \<le> fl y"
    and fl_exact: "\<And>k::int. 0 \<le> k \<Longrightarrow> k \<le> 3600 \<Longrightarrow> fl (of_int k / 2) = of_int k / 2"
  shows "now + backoff_ceiling attempts div 2 \<le> next_retry_at fl attempts jitter now \<and>
    next_retry_at fl attempts jitter now \<le> now + backoff_ceiling attempts"
proof -
  define b where "b = backoff_ceiling attempts"
  define c where "c = b div 2"
  have b: "b = 2 * c" "15 \<le> c" "c \<le> 900" using backoff_range [of attempts] by (simp_all add: b_def c_def)
  define j where "j = clamp01 jitter"
  have j: "0 \<le> j" "j \<le> 1" by (simp_all add: j_def clamp01_def)
  have f0: "fl 0 = 0" and f12: "fl (1 / 2) = 1 / 2" and f1: "fl 1 = 1"
    using fl_exact [of 0] fl_exact [of 1] fl_exact [of 2] by simp_all
  have h: "0 \<le> fl (j * (1 / 2))" "fl (j * (1 / 2)) \<le> 1 / 2"
    using fl_mono [of 0 "j * (1 / 2)"] fl_mono [of "j * (1 / 2)" "1 / 2"] j f0 f12 by simp_all
  define s where "s = fl (1 / 2 + fl (j * (1 / 2)))"
  have s: "1 / 2 \<le> s" "s \<le> 1"
    using fl_mono [of "1 / 2" "1 / 2 + fl (j * (1 / 2))"] fl_mono [of "1 / 2 + fl (j * (1 / 2))" 1]
      h f12 f1 by (simp_all add: s_def)
  have "of_int c \<le> of_int b * s" using b s(1) by simp
  then have lo: "of_int c \<le> fl (of_int b * s)"
    using fl_mono [of "of_int c" "of_int b * s"] fl_exact [of b] b by simp
  have "of_int b * s \<le> of_int b" using b s(2) by (simp add: mult_left_le)
  then have hi: "fl (of_int b * s) \<le> of_int b"
    using fl_mono [of "of_int b * s" "of_int b"] fl_exact [of "2 * b"] b by simp
  define r where "r = \<lfloor>fl (of_int b * s) + 1 / 2\<rfloor>"
  have "c \<le> r" using lo by (simp add: r_def le_floor_iff)
  moreover have "r < b + 1" unfolding r_def floor_less_iff using hi by simp
  moreover have "next_retry_at fl attempts jitter now = now + max r 1"
    unfolding next_retry_at_def Let_def sat_backoff by (simp add: r_def s_def b_def j_def)
  ultimately show ?thesis using b by (simp add: b_def)
qed

text \<open>The retry time stays inside its window: with the ceiling doubling per attempt from 30
  seconds and capped at 1800, the next run is between half of the ceiling and the whole ceiling
  from now, whatever the jitter value handed in (out-of-range values are clamped) and however the
  three floating-point operations round, as long as rounding is monotone and exact on the multiples
  of one half up to 1800, as the IEEE format guarantees.\<close>

theorem next_retry_at_window:
  assumes fl_mono: "\<And>x y. x \<le> y \<Longrightarrow> fl x \<le> fl y"
    and fl_exact: "\<And>k::int. 0 \<le> k \<Longrightarrow> k \<le> 3600 \<Longrightarrow> fl (of_int k / 2) = of_int k / 2"
  shows "now + backoff_ceiling attempts div 2 \<le> next_retry_at fl attempts jitter now \<and>
    next_retry_at fl attempts jitter now \<le> now + backoff_ceiling attempts"
  using next_retry_bounds [OF assms] by simp

theorem next_retry_at_window_witness:
  "(1000 :: int) + backoff_ceiling 3 div 2 \<le> next_retry_at (\<lambda>x. x) 3 (7 / 10) 1000 \<and>
   next_retry_at (\<lambda>x. x) 3 (7 / 10) 1000 \<le> 1000 + backoff_ceiling 3 \<and> backoff_ceiling 3 = 240"
  using next_retry_at_window [of "\<lambda>x. x" 1000 3 "7 / 10"] by (simp add: backoff_ceiling_def)

section \<open>Statements on the jobs table\<close>

definition with_jobs :: "(job_record list \<Rightarrow> job_record list) \<Rightarrow> db \<Rightarrow> db" where
  "with_jobs f d = d\<lparr>t_jobs := f (t_jobs d)\<rparr>"

definition new_job :: "uuid \<Rightarrow> job_payload \<Rightarrow> int \<Rightarrow> 32 word \<Rightarrow> int \<Rightarrow> job_record" where
  "new_job i payload run_at max_attempts created_at =
     \<lparr>job_id = i, job_payload = payload, job_status = JPending, job_attempts = 0,
      job_max_attempts = max_attempts, job_run_at = run_at, job_last_error = None,
      job_created_at = created_at\<rparr>"

definition due_rows :: "int \<Rightarrow> nat \<Rightarrow> job_record list \<Rightarrow> job_record list" where
  "due_rows now limit rows =
     take limit (sort_key job_run_at (filter (\<lambda>j. job_status j = JPending \<and> job_run_at j \<le> now) rows))"

definition claimable :: "uuid \<Rightarrow> job_record \<Rightarrow> bool" where
  "claimable i j \<longleftrightarrow> job_id j = i \<and> job_status j = JPending"

definition claim_rows :: "uuid \<Rightarrow> job_record list \<Rightarrow> job_record list" where
  "claim_rows i = update_where (claimable i) (\<lambda>j. j\<lparr>job_status := JRunning\<rparr>)"

definition succeeded_rows :: "uuid \<Rightarrow> job_record list \<Rightarrow> job_record list" where
  "succeeded_rows i = update_where (\<lambda>j. job_id j = i) (\<lambda>j. j\<lparr>job_status := JSucceeded\<rparr>)"

definition retry_rows :: "uuid \<Rightarrow> 32 word \<Rightarrow> int \<Rightarrow> string \<Rightarrow> job_record list \<Rightarrow> job_record list" where
  "retry_rows i attempts run_at error =
     update_where (\<lambda>j. job_id j = i)
       (\<lambda>j. j\<lparr>job_status := JPending, job_attempts := attempts, job_run_at := run_at,
              job_last_error := Some error\<rparr>)"

definition dead_rows :: "uuid \<Rightarrow> 32 word \<Rightarrow> string \<Rightarrow> job_record list \<Rightarrow> job_record list" where
  "dead_rows i attempts error =
     update_where (\<lambda>j. job_id j = i)
       (\<lambda>j. j\<lparr>job_status := JFailed, job_attempts := attempts, job_last_error := Some error\<rparr>)"

definition requeueable :: "uuid \<Rightarrow> job_record \<Rightarrow> bool" where
  "requeueable i j \<longleftrightarrow> job_id j = i \<and> job_status j = JFailed"

definition requeue_rows :: "uuid \<Rightarrow> int \<Rightarrow> job_record list \<Rightarrow> job_record list" where
  "requeue_rows i now =
     update_where (requeueable i)
       (\<lambda>j. j\<lparr>job_status := JPending, job_run_at := now, job_attempts := 0, job_last_error := None\<rparr>)"

definition deletable :: "uuid \<Rightarrow> job_record \<Rightarrow> bool" where
  "deletable i j \<longleftrightarrow> job_id j = i \<and> job_status j \<noteq> JRunning"

definition delete_rows :: "uuid \<Rightarrow> job_record list \<Rightarrow> job_record list" where
  "delete_rows i = delete_where (deletable i)"

definition job_enqueue :: "uuid \<Rightarrow> job_payload \<Rightarrow> int \<Rightarrow> 32 word \<Rightarrow> (db_error, unit) act" where
  "job_enqueue i payload run_at max_attempts =
     and_then now_unix (\<lambda>created_at.
       sql (\<lambda>d. if i \<in> set (map job_id (t_jobs d)) then Inl UniqueViolation
               else Inr ((), with_jobs (\<lambda>rows. rows @ [new_job i payload run_at max_attempts created_at]) d)))"

definition try_claim :: "uuid \<Rightarrow> (db_error, nat) act" where
  "try_claim i =
     sql (\<lambda>d. Inr (rows_affected (claimable i) (t_jobs d), with_jobs (claim_rows i) d))"

definition claim_batch :: "int \<Rightarrow> nat \<Rightarrow> (db_error, job_record list) act" where
  "claim_batch now limit =
     and_then (select (\<lambda>d. due_rows now limit (t_jobs d))) (\<lambda>candidates.
       collect candidates (\<lambda>row.
         and_then (try_claim (job_id row)) (\<lambda>affected.
           ok (if 0 < affected then [row\<lparr>job_status := JRunning\<rparr>] else []))))"

definition mark_succeeded :: "uuid \<Rightarrow> (db_error, unit) act" where
  "mark_succeeded i = execute (with_jobs (succeeded_rows i))"

definition mark_retry :: "uuid \<Rightarrow> 32 word \<Rightarrow> int \<Rightarrow> string \<Rightarrow> (db_error, unit) act" where
  "mark_retry i attempts run_at error = execute (with_jobs (retry_rows i attempts run_at error))"

definition mark_dead :: "uuid \<Rightarrow> 32 word \<Rightarrow> string \<Rightarrow> (db_error, unit) act" where
  "mark_dead i attempts error = execute (with_jobs (dead_rows i attempts error))"

definition job_requeue :: "uuid \<Rightarrow> (db_error, bool) act" where
  "job_requeue i =
     and_then now_unix (\<lambda>now.
       sql (\<lambda>d. Inr (0 < rows_affected (requeueable i) (t_jobs d), with_jobs (requeue_rows i now) d)))"

definition job_delete :: "uuid \<Rightarrow> (db_error, bool) act" where
  "job_delete i =
     sql (\<lambda>d. Inr (0 < rows_affected (deletable i) (t_jobs d), with_jobs (delete_rows i) d))"

definition queue_depths :: "(db_error, nat \<times> nat \<times> nat) act" where
  "queue_depths =
     select (\<lambda>d. (rows_affected (\<lambda>j. job_status j = JPending) (t_jobs d),
                 rows_affected (\<lambda>j. job_status j = JRunning) (t_jobs d),
                 rows_affected (\<lambda>j. job_status j = JFailed) (t_jobs d)))"

definition list_recent :: "nat \<Rightarrow> (db_error, job_record list) act" where
  "list_recent limit = select (\<lambda>d. take limit (sort_key (\<lambda>j. - job_created_at j) (t_jobs d)))"

definition list_by_status :: "job_status \<Rightarrow> nat \<Rightarrow> (db_error, job_record list) act" where
  "list_by_status st limit =
     select (\<lambda>d. take limit (sort_key (\<lambda>j. - job_created_at j)
               (filter (\<lambda>j. job_status j = st) (t_jobs d))))"

definition oldest_pending_run_at :: "(db_error, int option) act" where
  "oldest_pending_run_at =
     select (\<lambda>d. case map job_run_at (filter (\<lambda>j. job_status j = JPending) (t_jobs d)) of
                   [] \<Rightarrow> None | t # ts \<Rightarrow> Some (fold min ts t))"

section \<open>Running one claimed job\<close>

text \<open>A handler is whatever the composition root registered for the kind of job; \<^verbatim>\<open>let _ =\<close> drops the
  outcome of the statement that records how it went.\<close>

type_synonym handlers = "job_kind \<Rightarrow> (job_payload \<Rightarrow> (string, unit) act) option"

definition run_one :: "(rat \<Rightarrow> rat) \<Rightarrow> handlers \<Rightarrow> rat \<Rightarrow> job_record \<Rightarrow> (db_error, unit) act" where
  "run_one fl handlers jitter job =
     (case handlers (payload_kind (job_payload job)) of
        None \<Rightarrow>
          and_then (outcome (mark_dead (job_id job) (job_attempts job) ''no handler registered''))
            (\<lambda>_. ok ())
      | Some handler \<Rightarrow>
          and_then (outcome (handler (job_payload job))) (\<lambda>result.
            case result of
              Inr _ \<Rightarrow> and_then (outcome (mark_succeeded (job_id job))) (\<lambda>_. ok ())
            | Inl error \<Rightarrow>
                (let next_attempts = job_attempts job + 1
                 in if job_max_attempts job \<le> next_attempts
                    then and_then (outcome (mark_dead (job_id job) next_attempts error)) (\<lambda>_. ok ())
                    else and_then now_unix (\<lambda>now.
                           and_then (outcome (mark_retry (job_id job) next_attempts
                                                (next_retry_at fl next_attempts jitter now) error))
                             (\<lambda>_. ok ())))))"

definition default_max_attempts :: "32 word" where
  "default_max_attempts = 5"

definition jobs_enqueue :: "job_payload \<Rightarrow> (db_error, unit) act" where
  "jobs_enqueue payload =
     and_then fresh_uuid (\<lambda>i. and_then now_unix (\<lambda>now. job_enqueue i payload now default_max_attempts))"

section \<open>The scheduler\<close>

definition default_tasks :: "(string \<times> int) list" where
  "default_tasks =
     [(''prune_quarantine'', 3600), (''session_gc'', 3600), (''prune_webhook_deliveries'', 86400),
      (''prune_expired_tokens'', 86400), (''sweep_repo_sizes'', 86400), (''optimize_database'', 86400),
      (''repo_gc_sweep'', 604800)]"

definition ensure_seeded :: "(string \<times> int) list \<Rightarrow> (db_error, unit) act" where
  "ensure_seeded tasks =
     for_each tasks (\<lambda>(name, interval).
       execute (\<lambda>d. if name \<in> set (map sj_name (t_scheduled d)) then d
                   else d\<lparr>t_scheduled := t_scheduled d @
                          [\<lparr>sj_name = name, sj_interval_seconds = interval, sj_enabled = True,
                            sj_next_run_at = 0, sj_last_run_at = None, sj_last_status = None,
                            sj_last_detail = None\<rparr>]\<rparr>))"

definition due_tasks :: "int \<Rightarrow> scheduled_job list \<Rightarrow> scheduled_job list" where
  "due_tasks now rows = sort_key sj_name (filter (\<lambda>t. sj_enabled t \<and> sj_next_run_at t \<le> now) rows)"

definition ran_rows :: "string \<Rightarrow> int \<Rightarrow> int \<Rightarrow> string \<Rightarrow> string option \<Rightarrow> scheduled_job list \<Rightarrow> scheduled_job list" where
  "ran_rows name last_run next_run status detail =
     update_where (\<lambda>t. sj_name t = name)
       (\<lambda>t. t\<lparr>sj_last_run_at := Some last_run, sj_next_run_at := next_run,
              sj_last_status := Some status, sj_last_detail := detail\<rparr>)"

definition mark_ran :: "string \<Rightarrow> int \<Rightarrow> int \<Rightarrow> string \<Rightarrow> string option \<Rightarrow> (db_error, unit) act" where
  "mark_ran name last_run next_run status detail =
     execute (\<lambda>d. d\<lparr>t_scheduled := ran_rows name last_run next_run status detail (t_scheduled d)\<rparr>)"

definition run_now :: "string \<Rightarrow> (db_error, bool) act" where
  "run_now name =
     sql (\<lambda>d. Inr (0 < rows_affected (\<lambda>t. sj_name t = name) (t_scheduled d),
                  d\<lparr>t_scheduled := update_where (\<lambda>t. sj_name t = name) (\<lambda>t. t\<lparr>sj_next_run_at := 0\<rparr>)
                                     (t_scheduled d)\<rparr>))"

definition set_enabled :: "string \<Rightarrow> bool \<Rightarrow> (db_error, bool) act" where
  "set_enabled name b =
     sql (\<lambda>d. Inr (0 < rows_affected (\<lambda>t. sj_name t = name) (t_scheduled d),
                  d\<lparr>t_scheduled := update_where (\<lambda>t. sj_name t = name) (\<lambda>t. t\<lparr>sj_enabled := b\<rparr>)
                                     (t_scheduled d)\<rparr>))"

definition next_due :: "int \<Rightarrow> scheduled_job \<Rightarrow> int" where
  "next_due now task = sat_i64 (now + max 60 (sj_interval_seconds task))"

definition run_due :: "(db_error, unit) act" where
  "run_due =
     and_then now_unix (\<lambda>now.
       and_then (select (\<lambda>d. due_tasks now (t_scheduled d))) (\<lambda>tasks.
         for_each tasks (\<lambda>task.
           and_then (jobs_enqueue (RunMaintenance (sj_name task))) (\<lambda>_.
             mark_ran (sj_name task) now (next_due now task) ''queued'' None))))"

text \<open>One turn of the poller's loop, the claimed jobs run one after the other (the code bounds how many
  run at once; they touch disjoint rows).\<close>

definition poll_once :: "(rat \<Rightarrow> rat) \<Rightarrow> handlers \<Rightarrow> rat \<Rightarrow> nat \<Rightarrow> (db_error, unit) act" where
  "poll_once fl handlers jitter batch_size =
     and_then now_unix (\<lambda>now.
       and_then (claim_batch now batch_size) (\<lambda>claimed. for_each claimed (run_one fl handlers jitter)))"

end
