(* ===== verification/Sign_In.thy ===== *)
theory Sign_In
  imports Auth_Store Secret_Box Job_Queue
begin

text \<open>
  Signing in (\<^verbatim>\<open>edda-auth/src/lib.rs\<close>, \<^verbatim>\<open>backend.rs\<close>, \<^verbatim>\<open>password.rs\<close>, \<^verbatim>\<open>login_throttle.rs\<close>,
  \<^verbatim>\<open>pending_login.rs\<close>, \<^verbatim>\<open>password_reset.rs\<close>, \<^verbatim>\<open>email_verification.rs\<close>, \<^verbatim>\<open>tokens.rs\<close>,
  \<^verbatim>\<open>signup.rs\<close>): the gates every credential passes, the sign-in throttle, the tokens in links and the
  access tokens. Argon2, SHA-256, base64, JSON web tokens, the one-time-password check and the tables
  behind Unicode lower case are libraries: they are the fields of \<open>auth_env\<close>. Every random value is
  a function of the number of an unused draw.
\<close>

section \<open>The libraries\<close>

record totp_settings =
  totp_secret_bytes :: string
  totp_digits :: nat
  totp_skew :: nat
  totp_step :: nat

record auth_env =
  pw_hash :: "nat \<Rightarrow> string \<Rightarrow> string option"
  pw_verify :: "string \<Rightarrow> string \<Rightarrow> bool"
  sha256 :: "string \<Rightarrow> string"
  random_bytes :: "nat \<Rightarrow> nat \<Rightarrow> string"
  b64url :: "string \<Rightarrow> string"
  b64url_dec :: "string \<Rightarrow> string option"
  lowercase :: "string \<Rightarrow> string"
  uuid_text :: "uuid \<Rightarrow> string"
  uuid_parse :: "string \<Rightarrow> uuid option"
  jwt_encode :: "string \<Rightarrow> json \<Rightarrow> string"
  jwt_decode :: "string \<Rightarrow> int \<Rightarrow> string \<Rightarrow> json option"
  hkdf :: "string \<Rightarrow> string \<Rightarrow> string"
  process_random :: string
  aes :: aead
  key_ring :: "key_set option"
  totp_secret :: "nat \<Rightarrow> string"
  totp_check :: "totp_settings \<Rightarrow> int \<Rightarrow> string \<Rightarrow> bool"

definition hex_bytes :: "string \<Rightarrow> string" where
  "hex_bytes bs = concat (map (\<lambda>c. [hex_digit (of_char c div 16), hex_digit (of_char c mod 16)]) bs)"

definition hash_token :: "auth_env \<Rightarrow> string \<Rightarrow> string" where
  "hash_token env raw = hex_bytes (sha256 env raw)"

definition generate_raw_token :: "auth_env \<Rightarrow> ('e, string) act" where
  "generate_raw_token env = and_then fresh_uuid (\<lambda>n. ok (b64url env (random_bytes env n 32)))"

definition hash_password :: "auth_env \<Rightarrow> string \<Rightarrow> ('e, string option) act" where
  "hash_password env password = and_then fresh_uuid (\<lambda>n. ok (pw_hash env n password))"

section \<open>The gates\<close>

datatype account_status_error = AccountDisabled | PendingApproval | EmailUnverified

definition require_enabled :: "user \<Rightarrow> unit + unit" where
  "require_enabled u = (if user_disabled_at u \<noteq> None then Inl () else Inr ())"

definition require_can_authenticate :: "account_status \<Rightarrow> account_status_error + unit" where
  "require_can_authenticate st =
     (if is_disabled st then Inl AccountDisabled else if \<not> is_approved st then Inl PendingApproval else Inr ())"

definition require_verified_for_write :: "account_status \<Rightarrow> registration_policy \<Rightarrow> account_status_error + unit" where
  "require_verified_for_write st policy =
     (if require_email_verification policy \<and> \<not> is_email_verified st then Inl EmailUnverified else Inr ())"

section \<open>Passwords\<close>

text \<open>The verification against a decoy in the first two cases takes time and changes nothing.\<close>

definition backend_authenticate :: "auth_env \<Rightarrow> string \<Rightarrow> string \<Rightarrow> (db_error, user_row option) act" where
  "backend_authenticate env email password =
     and_then (find_by_email email) (\<lambda>found.
       case found of
         None \<Rightarrow> ok None
       | Some row \<Rightarrow>
           if isl (require_enabled (ur_user row)) then ok None
           else if pw_verify env password (ur_password_hash row) then ok (Some row) else ok None)"

definition backend_get_user :: "auth_env \<Rightarrow> string \<Rightarrow> (db_error, user_row option) act" where
  "backend_get_user env user_id_text =
     (case uuid_parse env user_id_text of None \<Rightarrow> ok None | Some i \<Rightarrow> find_by_id i)"

section \<open>The sign-in throttle\<close>

definition lock_threshold :: int where "lock_threshold = 5"
definition base_lock_seconds :: int where "base_lock_seconds = 15"
definition max_lock_seconds :: int where "max_lock_seconds = 900"

datatype throttle_error = LockedOut int | ThDb db_error

definition attempt_key :: "auth_env \<Rightarrow> string \<Rightarrow> string \<Rightarrow> string" where
  "attempt_key env email client_ip = lowercase env (trim email) @ ''|'' @ client_ip"

definition throttle_keys :: "auth_env \<Rightarrow> string \<Rightarrow> string \<Rightarrow> string list" where
  "throttle_keys env email client_ip =
     (if client_ip = [] then [attempt_key env email []]
      else [attempt_key env email [], attempt_key env email client_ip])"

fun worst_lock :: "string list \<Rightarrow> int \<Rightarrow> (db_error, int) act" where
  "worst_lock [] worst = ok worst"
| "worst_lock (key # keys) worst =
     and_then (select (attempt_of key)) (\<lambda>attempt.
       case attempt of
         None \<Rightarrow> worst_lock keys worst
       | Some a \<Rightarrow>
           (case la_locked_until a of
              None \<Rightarrow> worst_lock keys worst
            | Some locked \<Rightarrow> and_then now_unix (\<lambda>now. worst_lock keys (max worst (locked - now)))))"

definition throttle_check :: "auth_env \<Rightarrow> string \<Rightarrow> string \<Rightarrow> (throttle_error, unit) act" where
  "throttle_check env email client_ip =
     and_then (map_err ThDb (worst_lock (throttle_keys env email client_ip) 0)) (\<lambda>worst.
       if 0 < worst then err (LockedOut worst) else ok ())"

definition lock_window :: "int \<Rightarrow> int" where
  "lock_window failures =
     (let steps = nat (max 0 (min 6 (failures - lock_threshold))) in min (base_lock_seconds * 2 ^ steps) max_lock_seconds)"

definition note_failure :: "string \<Rightarrow> (db_error, unit) act" where
  "note_failure key =
     and_then now_unix (\<lambda>now.
       and_then (attempt_record_failure key now) (\<lambda>a.
         if lock_threshold \<le> la_failure_count a
         then set_locked_until key (Some (now + lock_window (la_failure_count a)))
         else ok ()))"

definition record_failure :: "auth_env \<Rightarrow> string \<Rightarrow> string \<Rightarrow> (throttle_error, unit) act" where
  "record_failure env email client_ip = map_err ThDb (for_each (throttle_keys env email client_ip) note_failure)"

definition record_success :: "auth_env \<Rightarrow> string \<Rightarrow> string \<Rightarrow> (throttle_error, unit) act" where
  "record_success env email client_ip = map_err ThDb (for_each (throttle_keys env email client_ip) clear_attempts)"

section \<open>The bridge to the second factor\<close>

definition pending_login_ttl :: int where "pending_login_ttl = 300"

fun json_field :: "string \<Rightarrow> json \<Rightarrow> json option" where
  "json_field k (JObj fs) = map_of fs k"
| "json_field k _ = None"

definition purpose_pending_login :: string where "purpose_pending_login = ''pending-login''"
definition purpose_webauthn_ceremony :: string where "purpose_webauthn_ceremony = ''webauthn-ceremony''"

definition signing_secret :: "auth_env \<Rightarrow> string \<Rightarrow> string" where
  "signing_secret env = derive (hkdf env) (key_ring env) (process_random env)"

definition pending_claims :: "string \<Rightarrow> int \<Rightarrow> json" where
  "pending_claims uid expiry = JObj [(''user_id'', JStr uid), (''exp'', JNum expiry)]"

definition read_pending_claims :: "json \<Rightarrow> string option" where
  "read_pending_claims j =
     (case (json_field ''user_id'' j, json_field ''exp'' j) of
        (Some (JStr uid), Some (JNum e)) \<Rightarrow> if 0 \<le> e \<and> e < 2 ^ 64 then Some uid else None
      | _ \<Rightarrow> None)"

definition pending_issue :: "auth_env \<Rightarrow> string \<Rightarrow> ('e, string) act" where
  "pending_issue env uid =
     and_then now_unix (\<lambda>now.
       ok (jwt_encode env (signing_secret env purpose_pending_login) (pending_claims uid (now + pending_login_ttl))))"

definition pending_verify :: "auth_env \<Rightarrow> int \<Rightarrow> string \<Rightarrow> string option" where
  "pending_verify env now tok =
     Option.bind (jwt_decode env (signing_secret env purpose_pending_login) now tok) read_pending_claims"

section \<open>Password reset\<close>

definition reset_ttl :: int where "reset_ttl = 3600"

definition reset_request :: "auth_env \<Rightarrow> string \<Rightarrow> (db_error, (user \<times> string) option) act" where
  "reset_request env email =
     and_then (find_by_email email) (\<lambda>found.
       case found of
         None \<Rightarrow> ok None
       | Some row \<Rightarrow>
           if isl (require_enabled (ur_user row)) then ok None
           else and_then (invalidate_resets (user_id (ur_user row))) (\<lambda>_.
             and_then (generate_raw_token env) (\<lambda>raw.
               and_then now_unix (\<lambda>now.
                 and_then fresh_uuid (\<lambda>i.
                   and_then (insert_reset_token i (user_id (ur_user row)) (hash_token env raw) (now + reset_ttl)) (\<lambda>_.
                     ok (Some (ur_user row, raw))))))))"

datatype consume_error = InvalidOrExpired | EmptyPassword | CnHash | CnDb db_error

definition reset_consume :: "auth_env \<Rightarrow> string \<Rightarrow> string \<Rightarrow> (consume_error, uuid) act" where
  "reset_consume env raw new_password =
     (if new_password = [] then err EmptyPassword
      else and_then now_unix (\<lambda>now.
        and_then (map_err CnDb (find_reset_token (hash_token env raw) now)) (\<lambda>found.
          case found of
            None \<Rightarrow> err InvalidOrExpired
          | Some (token_id, uid) \<Rightarrow>
              and_then (and_then (hash_password env new_password) (or_err CnHash)) (\<lambda>h.
                and_then (map_err CnDb (update_password_hash uid h)) (\<lambda>_.
                  and_then (map_err CnDb (mark_reset_used token_id)) (\<lambda>_. ok uid))))))"

section \<open>Email verification\<close>

definition verification_ttl :: int where "verification_ttl = 24 * 3600"

definition verification_request :: "auth_env \<Rightarrow> uuid \<Rightarrow> (db_error, (user \<times> string) option) act" where
  "verification_request env uid =
     and_then (find_by_id uid) (\<lambda>found.
       case found of
         None \<Rightarrow> ok None
       | Some row \<Rightarrow>
           if isl (require_enabled (ur_user row)) then ok None
           else and_then (account_status uid) (\<lambda>status.
             if (case status of None \<Rightarrow> True | Some st \<Rightarrow> is_email_verified st) then ok None
             else and_then (invalidate_verifications uid) (\<lambda>_.
               and_then (generate_raw_token env) (\<lambda>raw.
                 and_then now_unix (\<lambda>now.
                   and_then fresh_uuid (\<lambda>i.
                     and_then (insert_verification_token i uid (hash_token env raw) (now + verification_ttl)) (\<lambda>_.
                       ok (Some (ur_user row, raw)))))))))"

definition verification_consume :: "auth_env \<Rightarrow> string \<Rightarrow> (consume_error, uuid) act" where
  "verification_consume env raw =
     and_then now_unix (\<lambda>now.
       and_then (map_err CnDb (find_verification_token (hash_token env raw) now)) (\<lambda>found.
         case found of
           None \<Rightarrow> err InvalidOrExpired
         | Some (token_id, uid) \<Rightarrow>
             and_then (map_err CnDb (mark_email_verified uid)) (\<lambda>_.
               and_then (map_err CnDb (mark_verification_used token_id)) (\<lambda>_. ok uid))))"

section \<open>Access tokens\<close>

definition token_prefix :: string where "token_prefix = ''edda_pat_''"

datatype token_error = TokenEmpty | TkDb db_error

definition generate_access_token :: "auth_env \<Rightarrow> ('e, string) act" where
  "generate_access_token env = and_then (generate_raw_token env) (\<lambda>raw. ok (token_prefix @ raw))"

definition create_scoped :: "auth_env \<Rightarrow> uuid \<Rightarrow> string \<Rightarrow> token_scope \<Rightarrow> (token_error, string \<times> access_token) act" where
  "create_scoped env uid name scope =
     (if trim name = [] then err TokenEmpty
      else and_then (generate_access_token env) (\<lambda>raw.
        and_then fresh_uuid (\<lambda>i.
          and_then (map_err TkDb (insert_access_token i uid (trim name) (hash_token env raw) ScopeAll scope)) (\<lambda>created.
            ok (raw, \<lparr>at_id = i, at_user_id = uid, at_name = trim name, at_token_hash = hash_token env raw,
                      at_repository_scope = ScopeAll, at_token_scope = scope, at_created_at = created,
                      at_last_used_at = None\<rparr>)))))"

definition token_revoke :: "uuid \<Rightarrow> uuid \<Rightarrow> (token_error, bool) act" where
  "token_revoke uid token_id = map_err TkDb (revoke_access_token uid token_id)"

definition token_authenticate :: "auth_env \<Rightarrow> string \<Rightarrow> ('e, (user \<times> repository_scope \<times> token_scope) option) act" where
  "token_authenticate env raw =
     (if \<not> starts_with raw token_prefix then ok None
      else and_then (outcome (find_token_by_hash (hash_token env raw))) (\<lambda>found.
        ok (case found of
              Inr (Some (u, rscope, tscope)) \<Rightarrow> if isl (require_enabled u) then None else Some (u, rscope, tscope)
            | _ \<Rightarrow> None)))"

section \<open>Signing up\<close>

datatype signup_error =
    SuEmailTaken | SuUsernameTaken | SuInvalidUsername | SuEmpty | RegistrationClosed | EmailDomainNotAllowed
  | SuDb db_error | SuHash

fun signup_of_insert :: "insert_user_error \<Rightarrow> signup_error" where
  "signup_of_insert IuUsernameTaken = SuUsernameTaken"
| "signup_of_insert IuEmailTaken = SuEmailTaken"
| "signup_of_insert (IuDb e) = SuDb e"

record signup_outcome =
  so_user :: user
  so_pending_approval :: bool
  so_verification_token :: "string option"

definition then_some :: "bool \<Rightarrow> 'a \<Rightarrow> 'a option" where
  "then_some b x = (if b then Some x else None)"

definition stamped_signup ::
  "auth_env \<Rightarrow> registration_policy \<Rightarrow> uuid \<Rightarrow> string \<Rightarrow> string \<Rightarrow> (signup_error, signup_outcome) act" where
  "stamped_signup env policy i username email =
     and_then now_unix (\<lambda>now.
       and_then (map_err SuDb (stamp_signup_status i (then_some (auto_approves policy) now)
                                 (then_some (\<not> require_email_verification policy) now))) (\<lambda>_.
         and_then (if require_email_verification policy
                   then and_then (map_err SuDb (verification_request env i)) (\<lambda>t. ok (map_option snd t))
                   else ok None) (\<lambda>tok.
           ok \<lparr>so_user = \<lparr>user_id = i, user_username = username, user_email = email, user_is_admin = False,
                            user_disabled_at = None, user_email_notifications = True\<rparr>,
               so_pending_approval = (\<not> auto_approves policy), so_verification_token = tok\<rparr>)))"

definition signup ::
  "auth_env \<Rightarrow> registration_policy \<Rightarrow> string \<Rightarrow> string \<Rightarrow> string \<Rightarrow> (signup_error, signup_outcome) act" where
  "signup env policy username0 email0 password =
     (let username = trim username0; email = trim email0 in
      if username = [] \<or> email = [] \<or> password = [] then err SuEmpty
      else if \<not> permits_signup policy then err RegistrationClosed
      else if \<not> email_domain_allowed policy email then err EmailDomainNotAllowed
      else if \<not> is_valid_username username then err SuInvalidUsername
      else and_then (map_err SuDb (select (org_by_name username))) (\<lambda>org.
        if org \<noteq> None then err SuUsernameTaken
        else and_then (and_then (hash_password env password) (or_err SuHash)) (\<lambda>h.
          and_then fresh_uuid (\<lambda>i.
            and_then (map_err signup_of_insert (insert_user i username email h)) (\<lambda>_.
              stamped_signup env policy i username email)))))"

end
