(* ===== verification/Second_Factor.thy ===== *)
theory Second_Factor
  imports Sign_In
begin

text \<open>
  The second factors: one-time passwords with recovery codes (\<^verbatim>\<open>edda-auth/src/totp.rs\<close>) and passkeys
  (\<^verbatim>\<open>webauthn.rs\<close>, the relying-party side of both ceremonies with its checks in the code's order).
  Parsing of JSON, CBOR and authenticator data and the three signature schemes are libraries: they are
  the fields of \<open>webauthn_lib\<close>.
\<close>

section \<open>One-time passwords\<close>

definition recovery_code_count :: nat where "recovery_code_count = 8"

datatype totp_error = TotpInvalidCode | TotpNotEnrolled | TotpSecretBox secret_box_error | TotpDb db_error

definition box :: "secret_box_error + 'a \<Rightarrow> (totp_error, 'a) act" where
  "box r = (case r of Inl e \<Rightarrow> err (TotpSecretBox e) | Inr x \<Rightarrow> ok x)"

definition generate_recovery_code :: "auth_env \<Rightarrow> ('e, string list) act" where
  "generate_recovery_code env = and_then fresh_uuid (\<lambda>n. ok [hex_bytes (random_bytes env n 5)])"

definition build_totp :: "string \<Rightarrow> totp_settings" where
  "build_totp secret = \<lparr>totp_secret_bytes = secret, totp_digits = 6, totp_skew = 1, totp_step = 30\<rparr>"

definition code_ok :: "auth_env \<Rightarrow> string \<Rightarrow> int \<Rightarrow> string \<Rightarrow> bool" where
  "code_ok env secret now submitted = totp_check env (build_totp secret) now submitted"

text \<open>The base-32 text of the secret and its provisioning address are for display only.\<close>

definition totp_enroll :: "auth_env \<Rightarrow> uuid \<Rightarrow> (totp_error, string) act" where
  "totp_enroll env uid =
     and_then fresh_uuid (\<lambda>n. and_then fresh_uuid (\<lambda>m.
       (let secret = totp_secret env n in
        and_then (box (encrypt (aes env) (key_ring env) (random_bytes env m nonce_len) secret)) (\<lambda>ciphertext.
          and_then (map_err TotpDb (upsert_totp_secret uid ciphertext)) (\<lambda>_. ok secret)))))"

definition totp_activate :: "auth_env \<Rightarrow> uuid \<Rightarrow> string \<Rightarrow> (totp_error, string list) act" where
  "totp_activate env uid submitted =
     and_then (and_then (map_err TotpDb (find_totp uid)) (or_err TotpNotEnrolled)) (\<lambda>(ciphertext, _).
       and_then (box (decrypt (aes env) (key_ring env) ciphertext)) (\<lambda>secret.
         and_then now_unix (\<lambda>now.
           if \<not> code_ok env secret now submitted then err TotpInvalidCode
           else and_then (map_err TotpDb (activate_totp uid)) (\<lambda>_.
             and_then (map_err TotpDb (invalidate_resets uid)) (\<lambda>_.
               and_then (collect [0..<recovery_code_count] (\<lambda>_. generate_recovery_code env)) (\<lambda>raw_codes.
                 and_then (map_err TotpDb (replace_recovery_codes uid (map (hash_token env) raw_codes))) (\<lambda>_.
                   ok raw_codes)))))))"

definition totp_verify :: "auth_env \<Rightarrow> uuid \<Rightarrow> string \<Rightarrow> (totp_error, bool) act" where
  "totp_verify env uid submitted =
     and_then (and_then (map_err TotpDb (find_totp uid)) (or_err TotpNotEnrolled)) (\<lambda>(ciphertext, activated_at).
       if activated_at = None then err TotpNotEnrolled
       else and_then (map_err TotpDb (consume_recovery_code uid (hash_token env submitted))) (\<lambda>spent.
         if spent then ok True
         else and_then (box (decrypt (aes env) (key_ring env) ciphertext)) (\<lambda>secret.
           and_then now_unix (\<lambda>now. ok (code_ok env secret now submitted)))))"

definition totp_disable :: "uuid \<Rightarrow> (db_error, unit) act" where
  "totp_disable = delete_totp"

section \<open>Passkeys: data\<close>

definition cose_alg_es256 :: int where "cose_alg_es256 = -7"
definition cose_alg_eddsa :: int where "cose_alg_eddsa = -8"
definition cose_alg_rs256 :: int where "cose_alg_rs256 = -257"
definition default_stored_alg :: int where "default_stored_alg = cose_alg_es256"
definition ceremony_ttl :: int where "ceremony_ttl = 120"

datatype webauthn_error = CeremonyExpired | NoCredentials | InvalidResponse | WaDb db_error

record webauthn_config =
  wc_rp_id :: string
  wc_origin :: string
  wc_require_uv :: bool
  wc_allow_cross_origin :: bool

record stored_credential =
  sc_credential_id :: string
  sc_public_key :: string
  sc_alg :: int
  sc_sign_count :: "32 word"

datatype ceremony_purpose = Register | Authenticate

datatype cbor = CText string | CBytes string | CMap "(cbor \<times> cbor) list" | COther

datatype cose_label = LInt int | LText string

datatype cose_kty = KtyOkp | KtyEc2 | KtyRsa | KtyOther

record cose_key =
  ck_kty :: cose_kty
  ck_params :: "(cose_label \<times> cbor) list"

record authenticator_data =
  ad_rp_id_hash :: string
  ad_up :: bool
  ad_uv :: bool
  ad_counter :: "32 word option"
  ad_attested :: "(string \<times> cose_key) option"

datatype client_data_type = CdCreate | CdGet | CdOther

record client_data =
  cd_type :: client_data_type
  cd_challenge :: string
  cd_origin :: string
  cd_cross_origin :: "bool option"

record attestation_response =
  ar_client_data_json :: string
  ar_attestation_object :: string
  ar_public_key_algorithm :: int

record assertion_response =
  as_raw_id :: string
  as_client_data_json :: string
  as_authenticator_data :: string
  as_signature :: string

record webauthn_lib =
  json_read :: "string \<Rightarrow> json option"
  json_text :: "json \<Rightarrow> string"
  client_data_read :: "string \<Rightarrow> client_data option"
  cbor_read :: "string \<Rightarrow> cbor option"
  auth_data_read :: "string \<Rightarrow> authenticator_data option"
  sec1_of :: "cose_key \<Rightarrow> string option"
  p256_key_ok :: "string \<Rightarrow> bool"
  p256_verify :: "string \<Rightarrow> string \<Rightarrow> string \<Rightarrow> bool"
  ed25519_key_ok :: "string \<Rightarrow> bool"
  ed25519_verify :: "string \<Rightarrow> string \<Rightarrow> string \<Rightarrow> bool"
  rsa_key_ok :: "nat \<Rightarrow> nat \<Rightarrow> bool"
  rsa_verify :: "nat \<Rightarrow> nat \<Rightarrow> string \<Rightarrow> string \<Rightarrow> bool"

text \<open>The stored credential as JSON: an earlier name of a field is accepted (both at once are a duplicate),
  and a missing algorithm is the one of the time.\<close>

definition credential_json :: "stored_credential \<Rightarrow> json" where
  "credential_json c =
     JObj [(''credential_id'', JStr (sc_credential_id c)), (''public_key'', JStr (sc_public_key c)),
           (''alg'', JNum (sc_alg c)), (''sign_count'', JNum (uint (sc_sign_count c)))]"

definition read_credential :: "json \<Rightarrow> stored_credential option" where
  "read_credential j =
     (case (json_field ''credential_id'' j,
            (case (json_field ''public_key'' j, json_field ''public_key_sec1'' j) of
               (Some k, None) \<Rightarrow> Some k | (None, Some k) \<Rightarrow> Some k | _ \<Rightarrow> None),
            (case json_field ''alg'' j of None \<Rightarrow> Some (JNum default_stored_alg) | a \<Rightarrow> a),
            json_field ''sign_count'' j) of
        (Some (JStr i), Some (JStr k), Some (JNum a), Some (JNum n)) \<Rightarrow>
          if - (2 ^ 63) \<le> a \<and> a < 2 ^ 63 \<and> 0 \<le> n \<and> n < 2 ^ 32
          then Some \<lparr>sc_credential_id = i, sc_public_key = k, sc_alg = a, sc_sign_count = word_of_int n\<rparr> else None
      | _ \<Rightarrow> None)"

definition stored_from_row :: "webauthn_lib \<Rightarrow> passkey_row \<Rightarrow> stored_credential option" where
  "stored_from_row lib row = Option.bind (json_read lib (pk_json row)) read_credential"

definition valid_or :: "'a option \<Rightarrow> (webauthn_error, 'a) act" where
  "valid_or = or_err InvalidResponse"

section \<open>Passkeys: the ceremony token\<close>

fun purpose_text :: "ceremony_purpose \<Rightarrow> string" where
  "purpose_text Register = ''Register''"
| "purpose_text Authenticate = ''Authenticate''"

definition purpose_of :: "string \<Rightarrow> ceremony_purpose option" where
  "purpose_of s = (if s = ''Register'' then Some Register else if s = ''Authenticate'' then Some Authenticate else None)"

definition ceremony_claims :: "string \<Rightarrow> string \<Rightarrow> ceremony_purpose \<Rightarrow> int \<Rightarrow> json" where
  "ceremony_claims uid challenge purpose expiry =
     JObj [(''user_id'', JStr uid), (''challenge'', JStr challenge), (''purpose'', JStr (purpose_text purpose)),
           (''exp'', JNum expiry)]"

definition read_ceremony_claims :: "json \<Rightarrow> (string \<times> string \<times> ceremony_purpose) option" where
  "read_ceremony_claims j =
     (case (json_field ''user_id'' j, json_field ''challenge'' j, json_field ''purpose'' j, json_field ''exp'' j) of
        (Some (JStr uid), Some (JStr c), Some (JStr p), Some (JNum e)) \<Rightarrow>
          if 0 \<le> e \<and> e < 2 ^ 64 then map_option (\<lambda>purpose. (uid, c, purpose)) (purpose_of p) else None
      | _ \<Rightarrow> None)"

definition issue_ceremony_token :: "auth_env \<Rightarrow> uuid \<Rightarrow> string \<Rightarrow> ceremony_purpose \<Rightarrow> ('e, string) act" where
  "issue_ceremony_token env uid challenge purpose =
     and_then now_unix (\<lambda>now.
       ok (jwt_encode env (signing_secret env purpose_webauthn_ceremony)
             (ceremony_claims (uuid_text env uid) (b64url env challenge) purpose (now + ceremony_ttl))))"

definition verify_ceremony_token ::
  "auth_env \<Rightarrow> int \<Rightarrow> string \<Rightarrow> ceremony_purpose \<Rightarrow> uuid \<Rightarrow> webauthn_error + string" where
  "verify_ceremony_token env now tok expected_purpose expected_user =
     (case Option.bind (jwt_decode env (signing_secret env purpose_webauthn_ceremony) now tok) read_ceremony_claims of
        None \<Rightarrow> Inl CeremonyExpired
      | Some (uid, challenge, purpose) \<Rightarrow>
          if purpose \<noteq> expected_purpose \<or> uid \<noteq> uuid_text env expected_user then Inl CeremonyExpired
          else (case b64url_dec env challenge of None \<Rightarrow> Inl InvalidResponse | Some c \<Rightarrow> Inr c))"

definition lift_sum :: "'e + 'a \<Rightarrow> ('e, 'a) act" where
  "lift_sum r = (case r of Inl e \<Rightarrow> err e | Inr x \<Rightarrow> ok x)"

section \<open>Passkeys: the checks\<close>

fun find_auth_data :: "(cbor \<times> cbor) list \<Rightarrow> string option" where
  "find_auth_data [] = None"
| "find_auth_data (e # es) =
     (case e of (CText k, CBytes b) \<Rightarrow> if k = ''authData'' then Some b else find_auth_data es
      | _ \<Rightarrow> find_auth_data es)"

definition extract_auth_data :: "webauthn_lib \<Rightarrow> string \<Rightarrow> string option" where
  "extract_auth_data lib attestation_object =
     (case cbor_read lib attestation_object of Some (CMap entries) \<Rightarrow> find_auth_data entries | _ \<Rightarrow> None)"

definition challenge_echoed_correctly :: "auth_env \<Rightarrow> string \<Rightarrow> string \<Rightarrow> bool" where
  "challenge_echoed_correctly env client_challenge expected \<longleftrightarrow> b64url_dec env client_challenge = Some expected"

definition cross_origin_ok :: "client_data \<Rightarrow> webauthn_config \<Rightarrow> bool" where
  "cross_origin_ok cd config \<longleftrightarrow> wc_allow_cross_origin config \<or> cd_cross_origin cd \<noteq> Some True"

definition user_verification_ok :: "authenticator_data \<Rightarrow> webauthn_config \<Rightarrow> bool" where
  "user_verification_ok ad config \<longleftrightarrow> \<not> (wc_require_uv config \<and> \<not> ad_uv ad)"

fun find_bstr :: "int \<Rightarrow> (cose_label \<times> cbor) list \<Rightarrow> string option" where
  "find_bstr label [] = None"
| "find_bstr label (p # ps) =
     (case p of (LInt i, CBytes b) \<Rightarrow> if i = label then Some b else find_bstr label ps | _ \<Rightarrow> find_bstr label ps)"

definition cose_bstr_param :: "cose_key \<Rightarrow> int \<Rightarrow> string option" where
  "cose_bstr_param key label = find_bstr label (ck_params key)"

definition trim_leading_zeros :: "string \<Rightarrow> string" where
  "trim_leading_zeros = dropWhile (\<lambda>b. b = CHR 0x00)"

definition from_bytes_be :: "string \<Rightarrow> nat" where
  "from_bytes_be bs = fold (\<lambda>b n. 256 * n + of_char b) bs 0"

definition encode_rsa_public_key :: "string \<Rightarrow> string \<Rightarrow> string option" where
  "encode_rsa_public_key modulus exponent =
     (let n = trim_leading_zeros modulus; e = trim_leading_zeros exponent in
      if 2 ^ 16 \<le> length n then None
      else Some (char_of (length n div 256) # char_of (length n mod 256) # n @ e))"

definition decode_rsa_public_key :: "webauthn_lib \<Rightarrow> string \<Rightarrow> (nat \<times> nat) option" where
  "decode_rsa_public_key lib bytes =
     (case bytes of
        hi # lo # rest \<Rightarrow>
          (let n_len = 256 * of_char hi + of_char lo in
           if length rest \<le> n_len then None
           else let n = from_bytes_be (take n_len rest); e = from_bytes_be (drop n_len rest) in
             if rsa_key_ok lib n e then Some (n, e) else None)
      | _ \<Rightarrow> None)"

definition okp_x :: int where "okp_x = -2"
definition rsa_n :: int where "rsa_n = -1"
definition rsa_e :: int where "rsa_e = -2"

definition extract_public_key :: "webauthn_lib \<Rightarrow> int \<Rightarrow> cose_key \<Rightarrow> string option" where
  "extract_public_key lib alg key =
     (if alg = cose_alg_es256 then
        (if ck_kty key \<noteq> KtyEc2 then None
         else Option.bind (sec1_of lib key) (\<lambda>sec1. if p256_key_ok lib sec1 then Some sec1 else None))
      else if alg = cose_alg_eddsa then
        (if ck_kty key \<noteq> KtyOkp then None
         else Option.bind (cose_bstr_param key okp_x) (\<lambda>x.
           if length x = 32 \<and> ed25519_key_ok lib x then Some x else None))
      else if alg = cose_alg_rs256 then
        (if ck_kty key \<noteq> KtyRsa then None
         else Option.bind (cose_bstr_param key rsa_n) (\<lambda>n. Option.bind (cose_bstr_param key rsa_e) (\<lambda>e.
           Option.bind (encode_rsa_public_key n e) (\<lambda>encoded.
             map_option (\<lambda>_. encoded) (decode_rsa_public_key lib encoded)))))
      else None)"

definition verify_assertion_signature :: "webauthn_lib \<Rightarrow> int \<Rightarrow> string \<Rightarrow> string \<Rightarrow> string \<Rightarrow> bool" where
  "verify_assertion_signature lib alg public_key signed_data signature =
     (if alg = cose_alg_es256 then p256_key_ok lib public_key \<and> p256_verify lib public_key signed_data signature
      else if alg = cose_alg_eddsa then
        length public_key = 32 \<and> ed25519_key_ok lib public_key \<and> ed25519_verify lib public_key signed_data signature
      else if alg = cose_alg_rs256 then
        (case decode_rsa_public_key lib public_key of
           None \<Rightarrow> False | Some (n, e) \<Rightarrow> rsa_verify lib n e signed_data signature)
      else False)"

text \<open>The checks on the client data, in order; the same for both ceremonies but for the expected type.\<close>

definition client_data_ok :: "auth_env \<Rightarrow> webauthn_config \<Rightarrow> client_data_type \<Rightarrow> string \<Rightarrow> client_data \<Rightarrow> bool" where
  "client_data_ok env config ty challenge cd \<longleftrightarrow>
     cd_type cd = ty \<and> cross_origin_ok cd config \<and> challenge_echoed_correctly env (cd_challenge cd) challenge
     \<and> cd_origin cd = wc_origin config"

definition auth_data_ok :: "auth_env \<Rightarrow> webauthn_config \<Rightarrow> authenticator_data \<Rightarrow> bool" where
  "auth_data_ok env config ad \<longleftrightarrow>
     ad_rp_id_hash ad = sha256 env (wc_rp_id config) \<and> ad_up ad \<and> user_verification_ok ad config"

definition counter_of :: "authenticator_data \<Rightarrow> 32 word" where
  "counter_of ad = (case ad_counter ad of Some n \<Rightarrow> n | None \<Rightarrow> 0)"

section \<open>Passkeys: the ceremonies\<close>

datatype uv_requirement = UvRequired | UvPreferred

definition uv_requirement_of :: "webauthn_config \<Rightarrow> uv_requirement" where
  "uv_requirement_of config = (if wc_require_uv config then UvRequired else UvPreferred)"

record creation_options =
  co_rp_id :: string
  co_user_id :: uuid
  co_user_name :: string
  co_display_name :: string
  co_challenge :: string
  co_algorithms :: "int list"
  co_exclude :: "string list option"
  co_user_verification :: uv_requirement

record request_options =
  ro_challenge :: string
  ro_rp_id :: string
  ro_allow :: "string list"
  ro_user_verification :: uv_requirement

definition credential_ids :: "auth_env \<Rightarrow> webauthn_lib \<Rightarrow> passkey_row list \<Rightarrow> (webauthn_error, string list) act" where
  "credential_ids env lib rows =
     collect rows (\<lambda>row. and_then (valid_or (stored_from_row lib row)) (\<lambda>c.
       and_then (valid_or (b64url_dec env (sc_credential_id c))) (\<lambda>i. ok [i])))"

definition begin_registration ::
  "auth_env \<Rightarrow> webauthn_lib \<Rightarrow> webauthn_config \<Rightarrow> uuid \<Rightarrow> string \<Rightarrow> string
     \<Rightarrow> (webauthn_error, creation_options \<times> string) act" where
  "begin_registration env lib config uid username display_name =
     and_then (map_err WaDb (list_passkeys uid)) (\<lambda>existing.
       and_then (credential_ids env lib existing) (\<lambda>exclude.
         and_then fresh_uuid (\<lambda>n.
           (let challenge = random_bytes env n 32 in
            and_then (issue_ceremony_token env uid challenge Register) (\<lambda>tok.
              ok (\<lparr>co_rp_id = wc_rp_id config, co_user_id = uid, co_user_name = username,
                   co_display_name = display_name, co_challenge = challenge,
                   co_algorithms = [cose_alg_es256, cose_alg_eddsa, cose_alg_rs256],
                   co_exclude = (if exclude = [] then None else Some exclude),
                   co_user_verification = uv_requirement_of config\<rparr>, tok))))))"

definition finish_registration ::
  "auth_env \<Rightarrow> webauthn_lib \<Rightarrow> webauthn_config \<Rightarrow> string \<Rightarrow> uuid \<Rightarrow> string \<Rightarrow> attestation_response
     \<Rightarrow> (webauthn_error, unit) act" where
  "finish_registration env lib config state_token uid label response =
     and_then now_unix (\<lambda>now.
       and_then (lift_sum (verify_ceremony_token env now state_token Register uid)) (\<lambda>challenge.
         and_then (valid_or (client_data_read lib (ar_client_data_json response))) (\<lambda>cd.
           and_then (ensure (client_data_ok env config CdCreate challenge cd) InvalidResponse) (\<lambda>_.
             and_then (valid_or (extract_auth_data lib (ar_attestation_object response))) (\<lambda>bytes.
               and_then (valid_or (auth_data_read lib bytes)) (\<lambda>ad.
                 and_then (ensure (auth_data_ok env config ad) InvalidResponse) (\<lambda>_.
                   and_then (valid_or (ad_attested ad)) (\<lambda>(credential_id, key).
                     and_then (valid_or (extract_public_key lib (ar_public_key_algorithm response) key)) (\<lambda>public_key.
                       and_then fresh_uuid (\<lambda>i.
                         and_then (map_err WaDb (passkey_insert i uid label (json_text lib (credential_json
                             \<lparr>sc_credential_id = b64url env credential_id, sc_public_key = b64url env public_key,
                              sc_alg = ar_public_key_algorithm response, sc_sign_count = counter_of ad\<rparr>)))) (\<lambda>_.
                           map_err WaDb (invalidate_resets uid))))))))))))"

definition begin_authentication ::
  "auth_env \<Rightarrow> webauthn_lib \<Rightarrow> webauthn_config \<Rightarrow> uuid \<Rightarrow> (webauthn_error, (request_options \<times> string) option) act" where
  "begin_authentication env lib config uid =
     and_then (map_err WaDb (list_passkeys uid)) (\<lambda>existing.
       if existing = [] then ok None
       else and_then (credential_ids env lib existing) (\<lambda>allow.
         and_then fresh_uuid (\<lambda>n.
           (let challenge = random_bytes env n 32 in
            and_then (issue_ceremony_token env uid challenge Authenticate) (\<lambda>tok.
              ok (Some (\<lparr>ro_challenge = challenge, ro_rp_id = wc_rp_id config, ro_allow = allow,
                         ro_user_verification = uv_requirement_of config\<rparr>, tok)))))))"

text \<open>A row before the match that does not parse ends the search with an error.\<close>

fun match_credential ::
  "webauthn_lib \<Rightarrow> string \<Rightarrow> passkey_row list \<Rightarrow> (uuid \<times> stored_credential) option" where
  "match_credential lib raw_id [] = None"
| "match_credential lib raw_id (row # rows) =
     (case stored_from_row lib row of
        None \<Rightarrow> None
      | Some c \<Rightarrow> if sc_credential_id c = raw_id then Some (pk_id row, c) else match_credential lib raw_id rows)"

definition counter_ok :: "stored_credential \<Rightarrow> 32 word \<Rightarrow> bool" where
  "counter_ok c new_counter \<longleftrightarrow> \<not> ((sc_sign_count c \<noteq> 0 \<or> new_counter \<noteq> 0) \<and> new_counter \<le> sc_sign_count c)"

definition finish_authentication ::
  "auth_env \<Rightarrow> webauthn_lib \<Rightarrow> webauthn_config \<Rightarrow> string \<Rightarrow> uuid \<Rightarrow> assertion_response \<Rightarrow> (webauthn_error, unit) act" where
  "finish_authentication env lib config state_token uid response =
     and_then now_unix (\<lambda>now.
       and_then (lift_sum (verify_ceremony_token env now state_token Authenticate uid)) (\<lambda>challenge.
         and_then (map_err WaDb (list_passkeys uid)) (\<lambda>existing.
           and_then (ensure (existing \<noteq> []) NoCredentials) (\<lambda>_.
             and_then (valid_or (match_credential lib (b64url env (as_raw_id response)) existing)) (\<lambda>(row_id, stored).
               and_then (valid_or (client_data_read lib (as_client_data_json response))) (\<lambda>cd.
                 and_then (ensure (client_data_ok env config CdGet challenge cd) InvalidResponse) (\<lambda>_.
                   and_then (valid_or (auth_data_read lib (as_authenticator_data response))) (\<lambda>ad.
                     and_then (ensure (auth_data_ok env config ad) InvalidResponse) (\<lambda>_.
                       and_then (valid_or (b64url_dec env (sc_public_key stored))) (\<lambda>public_key.
                         and_then (ensure (verify_assertion_signature lib (sc_alg stored) public_key
                             (as_authenticator_data response @ sha256 env (as_client_data_json response))
                             (as_signature response)) InvalidResponse) (\<lambda>_.
                           and_then (ensure (counter_ok stored (counter_of ad)) InvalidResponse) (\<lambda>_.
                             map_err WaDb (update_passkey row_id (json_text lib (credential_json
                               (stored\<lparr>sc_sign_count := counter_of ad\<rparr>))))))))))))))))"

definition passkey_revoke :: "uuid \<Rightarrow> uuid \<Rightarrow> (db_error, bool) act" where
  "passkey_revoke = delete_passkey"

end
