(* ===== verification/Login.thy ===== *)
theory Login
  imports Second_Factor Access_Services
begin

text \<open>
  The handlers of \<^verbatim>\<open>edda-app/src/auth_routes.rs\<close> and \<^verbatim>\<open>webauthn_routes.rs\<close>: what each answers and
  which of them start a session. A handler never fails, so a request that meets an error is one of its
  replies. Starting a session is one statement of the session store. A reply that carries the text of a
  library error is \<open>Failed\<close>.
\<close>

section \<open>Replies\<close>

datatype reply =
    Refused nat string
  | Failed nat
  | Throttled int
  | NeedsSecondFactor string
  | SignedIn user
  | Done
  | AwaitingApproval

definition start_session :: "(db_error, unit) act" where
  "start_session = select (\<lambda>_. ())"

definition audit_user :: "string \<Rightarrow> uuid \<Rightarrow> (db_error, unit) act" where
  "audit_user event_type uid =
     audit_record \<lparr>audit_event_type = event_type, audit_actor_id = Some uid, audit_target = None, audit_detail = None\<rparr>"

text \<open>The actor of this event is the text the client sent as its email. The column is a foreign key to
  the accounts' ids, so the row is refused unless that text is the id of an account.\<close>

definition audit_throttled :: "auth_env \<Rightarrow> string \<Rightarrow> (db_error, unit) act" where
  "audit_throttled env email =
     and_then (outcome (sql (\<lambda>d.
       case find (\<lambda>u. uuid_text env (user_id u) = email) (t_users d) of
         None \<Rightarrow> (Inl ForeignKeyViolation :: db_error + unit \<times> db)
       | Some u \<Rightarrow> Inr ((), d\<lparr>t_audit := t_audit d @
           [\<lparr>audit_event_type = ''auth.login.throttled'', audit_actor_id = Some (user_id u), audit_target = None,
             audit_detail = None\<rparr>]\<rparr>)))) (\<lambda>_. ok ())"

definition session_login_expired :: "int option \<Rightarrow> int \<Rightarrow> int \<Rightarrow> bool" where
  "session_login_expired login_at absolute_ttl now =
     (case login_at of Some t \<Rightarrow> absolute_ttl < now - t | None \<Rightarrow> False)"

definition base_url :: "string option \<Rightarrow> string option \<Rightarrow> string" where
  "base_url forwarded_proto host =
     (case forwarded_proto of Some p \<Rightarrow> p | None \<Rightarrow> ''http'') @ ''://'' @
     (case host of Some h \<Rightarrow> h | None \<Rightarrow> ''localhost'')"

section \<open>Password login\<close>

definition expired_attempt :: reply where
  "expired_attempt = Refused 401 ''that login attempt has expired''"

fun account_status_text :: "account_status_error \<Rightarrow> string" where
  "account_status_text AccountDisabled = ''this account has been disabled''"
| "account_status_text PendingApproval = ''this account is awaiting administrator approval''"
| "account_status_text EmailUnverified = ''verify your email address before you can push or create repositories''"

definition establish :: "user_row \<Rightarrow> user \<Rightarrow> (db_error, reply) act" where
  "establish row u =
     and_then (outcome start_session) (\<lambda>s.
       case s of
         Inl _ \<Rightarrow> ok (Failed 500)
       | Inr _ \<Rightarrow> and_then (audit_user ''auth.login.success'' (user_id (ur_user row))) (\<lambda>_. ok (SignedIn u)))"

definition after_password :: "auth_env \<Rightarrow> user_row \<Rightarrow> (db_error, reply) act" where
  "after_password env row =
     (let uid = user_id (ur_user row) in
      and_then (outcome (account_status uid)) (\<lambda>status.
        case (case status of Inr (Some st) \<Rightarrow> require_can_authenticate st | _ \<Rightarrow> Inr ()) of
          Inl e \<Rightarrow> and_then (audit_user ''auth.login.rejected'' uid) (\<lambda>_. ok (Refused 403 (account_status_text e)))
        | Inr _ \<Rightarrow>
            and_then (outcome (totp_is_activated uid)) (\<lambda>has_totp.
              and_then (outcome (list_passkeys uid)) (\<lambda>passkeys.
                if has_totp = Inr True \<or> (case passkeys of Inr ks \<Rightarrow> ks \<noteq> [] | Inl _ \<Rightarrow> False)
                then and_then (pending_issue env (uuid_text env uid)) (\<lambda>tok. ok (NeedsSecondFactor tok))
                else establish row (ur_user row)))))"

definition login :: "auth_env \<Rightarrow> string \<Rightarrow> string \<Rightarrow> string \<Rightarrow> (db_error, reply) act" where
  "login env client_ip email password =
     and_then (outcome (throttle_check env email client_ip)) (\<lambda>checked.
       case checked of
         Inl (LockedOut seconds) \<Rightarrow> and_then (audit_throttled env email) (\<lambda>_. ok (Throttled seconds))
       | Inl (ThDb _) \<Rightarrow> ok (Failed 500)
       | Inr _ \<Rightarrow>
           and_then (outcome (backend_authenticate env email password)) (\<lambda>authenticated.
             case authenticated of
               Inl _ \<Rightarrow> ok (Failed 500)
             | Inr None \<Rightarrow>
                 and_then (outcome (record_failure env email client_ip)) (\<lambda>_ :: throttle_error + unit.
                   ok (Refused 401 ''that email or password isn't right''))
             | Inr (Some row) \<Rightarrow>
                 and_then (outcome (record_success env email client_ip)) (\<lambda>_ :: throttle_error + unit.
                   after_password env row)))"

section \<open>The second step\<close>

definition pending_user :: "auth_env \<Rightarrow> int \<Rightarrow> string \<Rightarrow> uuid option" where
  "pending_user env now tok = Option.bind (pending_verify env now tok) (uuid_parse env)"

definition with_pending :: "auth_env \<Rightarrow> string \<Rightarrow> (uuid \<Rightarrow> user_row \<Rightarrow> (db_error, reply) act) \<Rightarrow> (db_error, reply) act" where
  "with_pending env tok k =
     and_then now_unix (\<lambda>now.
       case pending_user env now tok of
         None \<Rightarrow> ok expired_attempt
       | Some uid \<Rightarrow>
           and_then (outcome (find_by_id uid)) (\<lambda>found.
             case found of
               Inl _ \<Rightarrow> ok (Failed 500)
             | Inr None \<Rightarrow> ok expired_attempt
             | Inr (Some row) \<Rightarrow> if isl (require_enabled (ur_user row)) then ok expired_attempt else k uid row))"

definition resume_session :: "auth_env \<Rightarrow> uuid \<Rightarrow> user \<Rightarrow> (db_error, reply) act" where
  "resume_session env uid u =
     and_then (outcome (backend_get_user env (uuid_text env uid))) (\<lambda>found.
       case found of
         Inr (Some row) \<Rightarrow> establish row u
       | _ \<Rightarrow> ok (Refused 500 ''could not resolve the session identity''))"

definition login_totp :: "auth_env \<Rightarrow> string \<Rightarrow> string \<Rightarrow> (db_error, reply) act" where
  "login_totp env tok submitted =
     with_pending env tok (\<lambda>uid row.
       and_then (outcome (totp_verify env uid submitted)) (\<lambda>verified.
         case verified of
           Inr True \<Rightarrow> resume_session env uid (ur_user row)
         | Inr False \<Rightarrow> ok (Refused 401 ''that code was incorrect'')
         | Inl _ \<Rightarrow> ok (Failed 400)))"

fun webauthn_status :: "webauthn_error \<Rightarrow> nat" where
  "webauthn_status CeremonyExpired = 401"
| "webauthn_status NoCredentials = 404"
| "webauthn_status InvalidResponse = 400"
| "webauthn_status (WaDb _) = 500"

definition webauthn_error_response :: "webauthn_error \<Rightarrow> reply" where
  "webauthn_error_response e =
     (case e of
        CeremonyExpired \<Rightarrow> Failed (webauthn_status e)
      | NoCredentials \<Rightarrow> Refused (webauthn_status e) ''no passkey is registered for this account''
      | InvalidResponse \<Rightarrow> Refused (webauthn_status e) ''that passkey response was not valid''
      | WaDb _ \<Rightarrow> Failed (webauthn_status e))"

definition not_configured :: reply where
  "not_configured = Refused 404 ''WebAuthn is not configured for this instance''"

definition login_options ::
  "auth_env \<Rightarrow> webauthn_lib \<Rightarrow> webauthn_config option \<Rightarrow> string \<Rightarrow> (db_error, reply + request_options \<times> string) act" where
  "login_options env lib config tok =
     and_then now_unix (\<lambda>now.
       case (pending_user env now tok, config) of
         (None, _) \<Rightarrow> ok (Inl expired_attempt)
       | (Some _, None) \<Rightarrow> ok (Inl not_configured)
       | (Some uid, Some c) \<Rightarrow>
           and_then (outcome (begin_authentication env lib c uid)) (\<lambda>begun.
             ok (case begun of
                   Inr (Some options) \<Rightarrow> Inr options
                 | Inr None \<Rightarrow> Inl (Refused 404 ''no passkey is registered for this account'')
                 | Inl e \<Rightarrow> Inl (webauthn_error_response e))))"

definition login_verify ::
  "auth_env \<Rightarrow> webauthn_lib \<Rightarrow> webauthn_config option \<Rightarrow> string \<Rightarrow> string \<Rightarrow> assertion_response \<Rightarrow> (db_error, reply) act" where
  "login_verify env lib config tok state_token response =
     with_pending env tok (\<lambda>uid row.
       case config of
         None \<Rightarrow> ok not_configured
       | Some c \<Rightarrow>
           and_then (outcome (finish_authentication env lib c state_token uid response)) (\<lambda>verified.
             case verified of
               Inl e \<Rightarrow> ok (webauthn_error_response e)
             | Inr _ \<Rightarrow> resume_session env uid (ur_user row)))"

section \<open>Mail\<close>

definition nl :: string where "nl = [CHR 0x0A]"

definition send_mail :: "string \<Rightarrow> string \<Rightarrow> string \<Rightarrow> (db_error, unit) act" where
  "send_mail to_email subject body_text =
     and_then (outcome (jobs_enqueue (SendEmail to_email subject body_text))) (\<lambda>_ :: db_error + unit. ok ())"

definition reset_mail :: "string \<Rightarrow> string \<Rightarrow> string" where
  "reset_mail base raw =
     ''Someone (hopefully you) requested a password reset for your Edda account.'' @ nl @ nl @
     ''Reset your password: '' @ base @ ''/reset-password?token='' @ raw @ nl @ nl @
     ''This link expires in one hour. If you didn't request this, you can ignore this email.''"

definition verification_mail :: "string \<Rightarrow> string \<Rightarrow> string" where
  "verification_mail base raw =
     ''Welcome to Edda! Confirm this email address to finish setting up your account.'' @ nl @ nl @
     ''Confirm: '' @ base @ ''/verify-email?token='' @ raw @ nl @ nl @
     ''This link expires in 24 hours.''"

definition send_verification_email :: "string \<Rightarrow> string \<Rightarrow> string \<Rightarrow> (db_error, unit) act" where
  "send_verification_email base to_email raw =
     send_mail to_email ''Confirm your Edda email address'' (verification_mail base raw)"

definition request_password_reset :: "auth_env \<Rightarrow> string \<Rightarrow> string \<Rightarrow> (db_error, reply) act" where
  "request_password_reset env base email =
     and_then (outcome (reset_request env email)) (\<lambda>requested.
       case requested of
         Inl _ \<Rightarrow> ok (Failed 500)
       | Inr None \<Rightarrow> ok Done
       | Inr (Some (u, raw)) \<Rightarrow>
           and_then (send_mail (user_email u) ''Reset your Edda password'' (reset_mail base raw)) (\<lambda>_. ok Done))"

definition consume_password_reset :: "auth_env \<Rightarrow> string \<Rightarrow> string \<Rightarrow> (db_error, reply) act" where
  "consume_password_reset env raw new_password =
     and_then (outcome (reset_consume env raw new_password)) (\<lambda>consumed.
       case consumed of
         Inr uid \<Rightarrow> and_then (audit_user ''auth.password_reset.consume'' uid) (\<lambda>_. ok Done)
       | Inl _ \<Rightarrow> ok (Failed 400))"

definition verify_email :: "auth_env \<Rightarrow> string \<Rightarrow> (db_error, reply) act" where
  "verify_email env raw =
     and_then (outcome (verification_consume env raw)) (\<lambda>consumed.
       case consumed of
         Inr uid \<Rightarrow> and_then (audit_user ''auth.email_verified'' uid) (\<lambda>_. ok Done)
       | Inl _ \<Rightarrow> ok (Failed 400))"

definition resend_verification :: "auth_env \<Rightarrow> string \<Rightarrow> user option \<Rightarrow> (db_error, reply) act" where
  "resend_verification env base session =
     (case session of
        None \<Rightarrow> ok (Refused 401 ''sign in first'')
      | Some u \<Rightarrow>
          and_then (outcome (verification_request env (user_id u))) (\<lambda>requested.
            case requested of
              Inl _ \<Rightarrow> ok (Failed 500)
            | Inr None \<Rightarrow> ok Done
            | Inr (Some (_, raw)) \<Rightarrow> and_then (send_verification_email base (user_email u) raw) (\<lambda>_. ok Done)))"

section \<open>Signing up\<close>

fun signup_status :: "signup_error \<Rightarrow> nat" where
  "signup_status RegistrationClosed = 403"
| "signup_status EmailDomainNotAllowed = 403"
| "signup_status _ = 400"

definition signup_handler ::
  "auth_env \<Rightarrow> registration_policy \<Rightarrow> string \<Rightarrow> string \<Rightarrow> string \<Rightarrow> string \<Rightarrow> (db_error, reply) act" where
  "signup_handler env policy base username email password =
     and_then (outcome (signup env policy username email password)) (\<lambda>created.
       case created of
         Inl e \<Rightarrow> ok (Failed (signup_status e))
       | Inr so \<Rightarrow>
           (let u = so_user so in
            and_then (audit_user ''auth.signup'' (user_id u)) (\<lambda>_.
              and_then (case so_verification_token so of
                          Some raw \<Rightarrow> send_verification_email base (user_email u) raw
                        | None \<Rightarrow> ok ()) (\<lambda>_.
                if so_pending_approval so then ok AwaitingApproval
                else and_then (outcome (backend_get_user env (uuid_text env (user_id u)))) (\<lambda>found.
                  case found of
                    Inr (Some _) \<Rightarrow>
                      and_then (outcome start_session) (\<lambda>s. ok (case s of Inl _ \<Rightarrow> Failed 500 | Inr _ \<Rightarrow> SignedIn u))
                  | _ \<Rightarrow> ok (Refused 500 ''account created but could not start a session''))))))"

section \<open>Credentials of a signed-in user\<close>

definition parse_token_scope :: "string option \<Rightarrow> token_scope option" where
  "parse_token_scope raw =
     (let s = (case raw of Some r \<Rightarrow> trim r | None \<Rightarrow> []) in
      if s = [] \<or> s = ''all'' then Some TSAll
      else if s = ''read'' then Some TSRepoRead
      else if s = ''write'' then Some TSRepoWrite else None)"

definition create_token_handler ::
  "auth_env \<Rightarrow> user option \<Rightarrow> string \<Rightarrow> string option \<Rightarrow> (db_error, reply + string \<times> access_token) act" where
  "create_token_handler env session name scope =
     (case session of
        None \<Rightarrow> ok (Inl (Refused 401 []))
      | Some u \<Rightarrow>
          (case parse_token_scope scope of
             None \<Rightarrow> ok (Inl (Refused 400 ''scope must be one of: read, write, all''))
           | Some s \<Rightarrow>
               and_then (outcome (create_scoped env (user_id u) name s)) (\<lambda>created.
                 case created of
                   Inl _ \<Rightarrow> ok (Inl (Failed 400))
                 | Inr t \<Rightarrow> and_then (audit_user ''auth.token.create'' (user_id u)) (\<lambda>_. ok (Inr t)))))"

definition revoke_with :: "string \<Rightarrow> string \<Rightarrow> user option \<Rightarrow> uuid option \<Rightarrow> (uuid \<Rightarrow> uuid \<Rightarrow> ('x, bool) act) \<Rightarrow> (db_error, reply) act" where
  "revoke_with event_type missing session target revoke =
     (case (session, target) of
        (None, _) \<Rightarrow> ok (Refused 401 [])
      | (Some _, None) \<Rightarrow> ok (Refused 404 missing)
      | (Some u, Some i) \<Rightarrow>
          and_then (outcome (revoke (user_id u) i)) (\<lambda>revoked.
            case revoked of
              Inr True \<Rightarrow> and_then (audit_user event_type (user_id u)) (\<lambda>_. ok Done)
            | Inr False \<Rightarrow> ok (Refused 404 missing)
            | Inl _ \<Rightarrow> ok (Failed 500)))"

definition revoke_token_handler :: "auth_env \<Rightarrow> user option \<Rightarrow> string \<Rightarrow> (db_error, reply) act" where
  "revoke_token_handler env session i =
     revoke_with ''auth.token.revoke'' ''no such token'' session (uuid_parse env i) token_revoke"

definition totp_enroll_handler :: "auth_env \<Rightarrow> user option \<Rightarrow> (db_error, reply + string) act" where
  "totp_enroll_handler env session =
     (case session of
        None \<Rightarrow> ok (Inl (Refused 401 []))
      | Some u \<Rightarrow>
          and_then (outcome (totp_enroll env (user_id u))) (\<lambda>r. ok (case r of Inl _ \<Rightarrow> Inl (Failed 500) | Inr s \<Rightarrow> Inr s)))"

definition totp_activate_handler :: "auth_env \<Rightarrow> user option \<Rightarrow> string \<Rightarrow> (db_error, reply + string list) act" where
  "totp_activate_handler env session submitted =
     (case session of
        None \<Rightarrow> ok (Inl (Refused 401 []))
      | Some u \<Rightarrow>
          and_then (outcome (totp_activate env (user_id u) submitted)) (\<lambda>r.
            ok (case r of Inl _ \<Rightarrow> Inl (Failed 400) | Inr codes \<Rightarrow> Inr codes)))"

definition totp_disable_handler :: "user option \<Rightarrow> (db_error, reply) act" where
  "totp_disable_handler session =
     (case session of
        None \<Rightarrow> ok (Refused 401 [])
      | Some u \<Rightarrow> and_then (outcome (totp_disable (user_id u))) (\<lambda>r. ok (case r of Inl _ \<Rightarrow> Failed 500 | Inr _ \<Rightarrow> Done)))"

definition register_options_handler ::
  "auth_env \<Rightarrow> webauthn_lib \<Rightarrow> webauthn_config option \<Rightarrow> user option \<Rightarrow> (db_error, reply + creation_options \<times> string) act" where
  "register_options_handler env lib config session =
     (case (session, config) of
        (None, _) \<Rightarrow> ok (Inl (Refused 401 []))
      | (Some _, None) \<Rightarrow> ok (Inl not_configured)
      | (Some u, Some c) \<Rightarrow>
          and_then (outcome (begin_registration env lib c (user_id u) (user_username u) (user_username u))) (\<lambda>r.
            ok (case r of Inl e \<Rightarrow> Inl (webauthn_error_response e) | Inr o_tok \<Rightarrow> Inr o_tok)))"

definition register_verify_handler ::
  "auth_env \<Rightarrow> webauthn_lib \<Rightarrow> webauthn_config option \<Rightarrow> user option \<Rightarrow> string \<Rightarrow> string \<Rightarrow> attestation_response
     \<Rightarrow> (db_error, reply) act" where
  "register_verify_handler env lib config session state_token label response =
     (case (session, config) of
        (None, _) \<Rightarrow> ok (Refused 401 [])
      | (Some _, None) \<Rightarrow> ok not_configured
      | (Some u, Some c) \<Rightarrow>
          and_then (outcome (finish_registration env lib c state_token (user_id u) label response)) (\<lambda>r.
            case r of
              Inl e \<Rightarrow> ok (webauthn_error_response e)
            | Inr _ \<Rightarrow> and_then (audit_user ''auth.webauthn.register'' (user_id u)) (\<lambda>_. ok Done)))"

definition revoke_credential_handler :: "auth_env \<Rightarrow> user option \<Rightarrow> string \<Rightarrow> (db_error, reply) act" where
  "revoke_credential_handler env session i =
     revoke_with ''auth.webauthn.revoke'' ''no such passkey'' session (uuid_parse env i) passkey_revoke"

end
