(* ===== verification/Login_Proofs.thy ===== *)
theory Login_Proofs
  imports Login
begin

text \<open>
  What a session rests on: every path to one passes the throttle, the enabled gate and the credentials,
  and where the account has a second factor, that factor too, provided that its lookups succeed.
\<close>

section \<open>The throttle\<close>

definition locked :: "string \<Rightarrow> world \<Rightarrow> bool" where
  "locked key w \<longleftrightarrow>
     (case attempt_of key (tables w) of
        Some a \<Rightarrow> (case la_locked_until a of Some t \<Rightarrow> clock w < t | None \<Rightarrow> False)
      | None \<Rightarrow> False)"

lemma worst_lock_no_fault:
  assumes "statement_fails w = []"
  shows "\<exists>n. worst_lock keys m w = (Inr n, w) \<and> m \<le> n \<and> (m \<le> 0 \<longrightarrow> (0 < n \<longleftrightarrow> (\<exists>k\<in>set keys. locked k w)))
    \<and> (\<forall>k\<in>set keys. \<forall>a t. attempt_of k (tables w) = Some a \<longrightarrow> la_locked_until a = Some t \<longrightarrow> t - clock w \<le> n)"
proof (induction keys arbitrary: m)
  case Nil
  show ?case by (simp add: ok_def)
next
  case (Cons k ks)
  show ?case
  proof (cases "\<exists>a t. attempt_of k (tables w) = Some a \<and> la_locked_until a = Some t")
    case False
    then have "worst_lock (k # ks) m w = worst_lock ks m w" "\<not> locked k w"
      using assms by (auto simp: run_simps locked_def split: option.splits)
    then show ?thesis using Cons [of m] False by auto
  next
    case True
    then obtain a t where at: "attempt_of k (tables w) = Some a" "la_locked_until a = Some t" by blast
    then have step: "worst_lock (k # ks) m w = worst_lock ks (max m (t - clock w)) w"
      and lk: "locked k w \<longleftrightarrow> clock w < t"
      using assms by (auto simp: run_simps locked_def)
    from Cons [of "max m (t - clock w)"] obtain n where n: "worst_lock ks (max m (t - clock w)) w = (Inr n, w)"
      "max m (t - clock w) \<le> n"
      "max m (t - clock w) \<le> 0 \<longrightarrow> (0 < n \<longleftrightarrow> (\<exists>k\<in>set ks. locked k w))"
      "\<forall>k\<in>set ks. \<forall>a t. attempt_of k (tables w) = Some a \<longrightarrow> la_locked_until a = Some t \<longrightarrow> t - clock w \<le> n"
      by blast
    have "m \<le> 0 \<longrightarrow> (0 < n \<longleftrightarrow> (\<exists>k\<in>set (k # ks). locked k w))"
      using n(2,3) lk by (cases "clock w < t") auto
    then show ?thesis using n step at by auto
  qed
qed

lemma throttle_check_no_fault:
  assumes "statement_fails w = []"
  shows "if \<exists>k\<in>set (throttle_keys env email ip). locked k w
         then \<exists>s. throttle_check env email ip w = (Inl (LockedOut s), w)
         else throttle_check env email ip w = (Inr (), w)"
  using worst_lock_no_fault [OF assms, of "throttle_keys env email ip" 0]
  by (auto simp: throttle_check_def run_simps)

lemma throttle_check_Inr:
  "throttle_check env email ip w = (Inr x, w') \<Longrightarrow>
     tables w' = tables w \<and> clock w' = clock w \<and> next_uuid w' = next_uuid w"
proof -
  have "worst_lock keys m v = (Inr n, v') \<Longrightarrow> tables v' = tables v \<and> clock v' = clock v \<and> next_uuid v' = next_uuid v"
    for keys m n v v'
  proof (induction keys arbitrary: m v)
    case Nil
    then show ?case by (simp add: ok_def)
  next
    case (Cons k ks)
    then obtain a v1 where a: "select (attempt_of k) v = (Inr a, v1)"
      and rest: "(case a of None \<Rightarrow> worst_lock ks m
         | Some x \<Rightarrow> (case la_locked_until x of None \<Rightarrow> worst_lock ks m
             | Some t \<Rightarrow> and_then now_unix (\<lambda>now. worst_lock ks (max m (t - now))))) v1 = (Inr n, v')"
      by (auto simp: act_simps)
    from rest Cons.IH have "tables v' = tables v1 \<and> clock v' = clock v1 \<and> next_uuid v' = next_uuid v1"
      by (auto simp: act_simps split: option.splits)
    with select_Inr [OF a] show ?case by simp
  qed
  then show "throttle_check env email ip w = (Inr x, w') \<Longrightarrow>
     tables w' = tables w \<and> clock w' = clock w \<and> next_uuid w' = next_uuid w"
    by (auto simp: throttle_check_def act_simps split: if_splits)
qed

lemma lock_window_bounds: "15 \<le> lock_window n \<and> lock_window n \<le> 900"
proof -
  define k where "k = nat (max 0 (min 6 (n - lock_threshold)))"
  have "(1::int) \<le> 2 ^ k" by simp
  then show ?thesis
    by (simp add: lock_window_def Let_def k_def [symmetric] base_lock_seconds_def max_lock_seconds_def)
qed

lemma lock_window_mono: "m \<le> n \<Longrightarrow> lock_window m \<le> lock_window n"
proof -
  assume "m \<le> n"
  then have "nat (max 0 (min 6 (m - lock_threshold))) \<le> nat (max 0 (min 6 (n - lock_threshold)))"
    by (intro nat_mono) linarith
  then have "(2::int) ^ nat (max 0 (min 6 (m - lock_threshold))) \<le> 2 ^ nat (max 0 (min 6 (n - lock_threshold)))"
    by (rule power_increasing) simp
  then show ?thesis unfolding lock_window_def Let_def base_lock_seconds_def by (intro min.mono) simp_all
qed

section \<open>Clearing attempts touches nothing else\<close>

lemma clear_attempts_others:
  "clear_attempts key w = (r, w') \<Longrightarrow> \<exists>rows. tables w' = (tables w)\<lparr>t_login_attempts := rows\<rparr> \<and> clock w' = clock w
     \<and> (statement_fails w = [] \<longrightarrow> statement_fails w' = [])"
  by (cases w) (auto simp: clear_attempts_def execute_def sql_def Let_def split: if_splits intro: exI [of _ "t_login_attempts (tables w)"])

lemma for_each_clear:
  "for_each keys clear_attempts w = (r, w') \<Longrightarrow> \<exists>rows. tables w' = (tables w)\<lparr>t_login_attempts := rows\<rparr> \<and> clock w' = clock w
     \<and> (statement_fails w = [] \<longrightarrow> statement_fails w' = [])"
proof (induction keys arbitrary: w)
  case Nil
  then show ?case by (auto simp: ok_def intro: exI [of _ "t_login_attempts (tables w)"])
next
  case (Cons k ks)
  obtain r1 w1 where 1: "clear_attempts k w = (r1, w1)" by fastforce
  then obtain rows where rows: "tables w1 = (tables w)\<lparr>t_login_attempts := rows\<rparr>" "clock w1 = clock w"
    "statement_fails w = [] \<longrightarrow> statement_fails w1 = []"
    using clear_attempts_others by blast
  show ?case
  proof (cases r1)
    case (Inl e)
    then show ?thesis using Cons.prems 1 rows by (auto simp: and_then_def)
  next
    case (Inr x)
    then have "for_each ks clear_attempts w1 = (r, w')" using Cons.prems 1 by (simp add: and_then_def)
    from Cons.IH [OF this] show ?thesis using rows by auto
  qed
qed

lemma record_success_others:
  "record_success env email ip w = (r, w') \<Longrightarrow> \<exists>rows. tables w' = (tables w)\<lparr>t_login_attempts := rows\<rparr> \<and> clock w' = clock w
     \<and> (statement_fails w = [] \<longrightarrow> statement_fails w' = [])"
  unfolding record_success_def map_err_def
  by (auto split: prod.splits sum.splits dest!: for_each_clear)

section \<open>Password login without faults\<close>

definition has_second_factor :: "uuid \<Rightarrow> db \<Rightarrow> bool" where
  "has_second_factor uid d \<longleftrightarrow> (\<exists>ct t. totp_of uid d = Some (ct, Some t)) \<or> passkeys_of uid d \<noteq> []"

definition password_ok :: "auth_env \<Rightarrow> string \<Rightarrow> string \<Rightarrow> db \<Rightarrow> user \<Rightarrow> bool" where
  "password_ok env email password d u \<longleftrightarrow>
     user_by_email email d = Some u \<and> user_disabled_at u = None
     \<and> (\<exists>a. account_of (user_id u) d = Some a \<and> pw_verify env password (acct_password_hash a))"

definition login_row :: "db \<Rightarrow> user \<Rightarrow> user_row" where
  "login_row d u = \<lparr>ur_user = u, ur_password_hash = (case account_of (user_id u) d of Some a \<Rightarrow> acct_password_hash a | None \<Rightarrow> [])\<rparr>"

lemma after_attempts [simp]:
  "user_by_email e (d\<lparr>t_login_attempts := r\<rparr>) = user_by_email e d"
  "user_by_id i (d\<lparr>t_login_attempts := r\<rparr>) = user_by_id i d"
  "account_of i (d\<lparr>t_login_attempts := r\<rparr>) = account_of i d"
  "account_status_of i (d\<lparr>t_login_attempts := r\<rparr>) = account_status_of i d"
  "totp_of i (d\<lparr>t_login_attempts := r\<rparr>) = totp_of i d"
  "passkeys_of i (d\<lparr>t_login_attempts := r\<rparr>) = passkeys_of i d"
  "has_second_factor i (d\<lparr>t_login_attempts := r\<rparr>) = has_second_factor i d"
  by (simp_all add: user_by_email_def user_by_id_def account_of_def account_status_of_def totp_of_def passkeys_of_def
      has_second_factor_def)

lemma user_by_email_id: "user_by_email e d = Some u \<Longrightarrow> u \<in> set (t_users d)"
  by (auto simp: user_by_email_def find_Some_iff)

lemma backend_authenticate_no_fault:
  assumes "statement_fails w = []"
  shows "backend_authenticate env email password w =
    (Inr (case user_by_email email (tables w) of
            Some u \<Rightarrow> if password_ok env email password (tables w) u then Some (login_row (tables w) u) else None
          | None \<Rightarrow> None), w)"
  using assms
  by (auto simp: backend_authenticate_def find_by_email_def run_simps row_of_user_def password_ok_def login_row_def
      require_enabled_def split: option.splits)

lemma audit_user_no_fault:
  "statement_fails w = [] \<Longrightarrow>
     audit_user e uid w = (Inr (), w\<lparr>tables := (tables w)\<lparr>t_audit := t_audit (tables w) @
       [\<lparr>audit_event_type = e, audit_actor_id = Some uid, audit_target = None, audit_detail = None\<rparr>]\<rparr>\<rparr>)"
  by (simp add: audit_user_def audit_record_def run_simps)

lemma establish_no_fault:
  "statement_fails w = [] \<Longrightarrow> \<exists>w'. establish row u w = (Inr (SignedIn u), w')"
  by (simp add: establish_def start_session_def run_simps audit_user_no_fault)

lemma after_password_no_fault:
  assumes "statement_fails w = []"
  shows "if (\<forall>st. account_status_of (user_id (ur_user row)) (tables w) = Some st \<longrightarrow> is_approved st \<and> \<not> is_disabled st)
           \<and> \<not> has_second_factor (user_id (ur_user row)) (tables w)
         then \<exists>w'. after_password env row w = (Inr (SignedIn (ur_user row)), w')
         else \<forall>w' u. after_password env row w \<noteq> (Inr (SignedIn u), w')"
proof -
  let ?uid = "user_id (ur_user row)"
  have totp: "totp_is_activated ?uid w = (Inr (\<exists>ct t. totp_of ?uid (tables w) = Some (ct, Some t)), w)"
    using assms by (auto simp: totp_is_activated_def find_totp_def run_simps split: option.splits)
  have keys: "list_passkeys ?uid w = (Inr (passkeys_of ?uid (tables w)), w)"
    using assms by (simp add: list_passkeys_def select_no_fault)
  have st: "account_status ?uid w = (Inr (account_status_of ?uid (tables w)), w)"
    using assms by (simp add: account_status_def select_no_fault)
  show ?thesis
    using establish_no_fault [OF assms, of row "ur_user row"] assms
    by (auto simp: after_password_def Let_def and_then_def outcome_def totp keys st has_second_factor_def
        require_can_authenticate_def audit_user_no_fault ok_def pending_issue_def now_unix_def
        split: option.splits sum.splits if_splits)
qed

lemma login_iff_no_fault:
  assumes "statement_fails w = []"
  shows "(\<exists>w'. login env ip email password w = (Inr (SignedIn u), w')) \<longleftrightarrow>
    \<not> locked (attempt_key env email []) w \<and> \<not> locked (attempt_key env email ip) w
    \<and> password_ok env email password (tables w) u
    \<and> (\<forall>st. account_status_of (user_id u) (tables w) = Some st \<longrightarrow> is_approved st \<and> \<not> is_disabled st)
    \<and> \<not> has_second_factor (user_id u) (tables w)"
proof (cases "\<exists>k\<in>set (throttle_keys env email ip). locked k w")
  case True
  then have "\<exists>s. throttle_check env email ip w = (Inl (LockedOut s), w)"
    using throttle_check_no_fault [OF assms, of env email ip] by simp
  then have "\<nexists>w'. login env ip email password w = (Inr (SignedIn u), w')"
    using assms by (auto simp: login_def and_then_def outcome_def audit_throttled_def sql_no_fault ok_def split: option.splits)
  with True show ?thesis by (auto simp: throttle_keys_def split: if_splits)
next
  case False
  then have tc: "throttle_check env email ip w = (Inr (), w)"
    using throttle_check_no_fault [OF assms, of env email ip] by simp
  have nl: "\<not> locked (attempt_key env email []) w \<and> \<not> locked (attempt_key env email ip) w"
    using False by (auto simp: throttle_keys_def split: if_splits)
  obtain u' where u': "user_by_email email (tables w) = Some u'" "password_ok env email password (tables w) u'"
    if "\<exists>v. password_ok env email password (tables w) v"
    by (auto simp: password_ok_def)
  show ?thesis
  proof (cases "\<exists>v. password_ok env email password (tables w) v")
    case False
    with tc show ?thesis
      by (auto simp: login_def and_then_def outcome_def backend_authenticate_no_fault [OF assms] ok_def
          split: option.splits prod.splits)
  next
    case True
    note u = u' [OF True]
    obtain r w1 where rs: "record_success env email ip w = (r, w1)" by fastforce
    then obtain rows where rows: "tables w1 = (tables w)\<lparr>t_login_attempts := rows\<rparr>" "statement_fails w1 = []"
      using record_success_others assms by blast
    have lg: "login env ip email password w = after_password env (login_row (tables w) u') w1"
      using tc u rs by (simp add: login_def and_then_def outcome_def backend_authenticate_no_fault [OF assms])
    have row: "ur_user (login_row (tables w) u') = u'" by (simp add: login_row_def)
    have only: "password_ok env email password (tables w) u \<longleftrightarrow> u = u'"
      using u by (auto simp: password_ok_def)
    show ?thesis unfolding lg only
      using after_password_no_fault [OF rows(2), of "login_row (tables w) u'" env] nl
      by (auto simp: row rows(1) split: if_splits) 
  qed
qed

lemma login_no_fault:
  assumes "statement_fails w = []" "\<not> locked (attempt_key env email []) w" "\<not> locked (attempt_key env email ip) w"
    "password_ok env email password (tables w) u"
    "\<forall>st. account_status_of (user_id u) (tables w) = Some st \<longrightarrow> is_approved st \<and> \<not> is_disabled st"
    "\<not> has_second_factor (user_id u) (tables w)"
  shows "\<exists>w'. login env ip email password w = (Inr (SignedIn u), w')"
  using login_iff_no_fault [OF assms(1)] assms by blast

text \<open>C7. Password login on its own starts a session exactly when no active lock stands on the account or on
  the account from that address, the email names an enabled account whose stored hash accepts the
  password, the account is approved, and it has neither an activated one-time-password credential nor a
  passkey (as long as no statement fails).\<close>

theorem login_signs_in_iff:
  assumes "statement_fails w = []"
  shows "(\<exists>w'. login env ip email password w = (Inr (SignedIn u), w')) \<longleftrightarrow>
    \<not> locked (attempt_key env email []) w \<and> \<not> locked (attempt_key env email ip) w
    \<and> password_ok env email password (tables w) u
    \<and> (\<forall>st. account_status_of (user_id u) (tables w) = Some st \<longrightarrow> is_approved st \<and> \<not> is_disabled st)
    \<and> \<not> has_second_factor (user_id u) (tables w)"
  by (rule login_iff_no_fault) (rule assms)

section \<open>Sessions whatever fails\<close>

lemma outcome_thenE:
  assumes "and_then (outcome m) k w = z"
  obtains x w1 where "m w = (Inr x, w1)" "k (Inr x) w1 = z" | e w1 where "m w = (Inl e, w1)" "k (Inl e) w1 = z"
  using assms by (cases "m w"; cases "fst (m w)") (auto simp: and_then_def outcome_def)

lemma Some_eq_bind: "Some y = Option.bind m f \<longleftrightarrow> (\<exists>x. m = Some x \<and> f x = Some y)"
  by (cases m) auto

lemma worst_lock_Inr:
  "worst_lock keys m w = (Inr n, w') \<Longrightarrow> m \<le> n \<and> (\<forall>k\<in>set keys. \<forall>a t. attempt_of k (tables w) = Some a \<longrightarrow>
     la_locked_until a = Some t \<longrightarrow> t - clock w \<le> n)"
proof (induction keys arbitrary: m w)
  case Nil
  then show ?case by (simp add: ok_def)
next
  case (Cons k ks)
  then obtain a w1 where a: "select (attempt_of k) w = (Inr a, w1)"
    and rest: "(case a of None \<Rightarrow> worst_lock ks m
       | Some x \<Rightarrow> (case la_locked_until x of None \<Rightarrow> worst_lock ks m
           | Some t \<Rightarrow> and_then now_unix (\<lambda>now. worst_lock ks (max m (t - now))))) w1 = (Inr n, w')"
    by (auto simp: act_simps)
  note q = select_Inr [OF a]
  show ?case
  proof (cases "\<exists>x t. a = Some x \<and> la_locked_until x = Some t")
    case True
    then obtain x t where x: "a = Some x" "la_locked_until x = Some t" by blast
    then have "worst_lock ks (max m (t - clock w1)) w1 = (Inr n, w')" using rest by (simp add: act_simps)
    from Cons.IH [OF this] q x show ?thesis by auto
  next
    case False
    then have "worst_lock ks m w1 = (Inr n, w')" using rest by (auto split: option.splits)
    from Cons.IH [OF this] q False show ?thesis by auto
  qed
qed

lemma throttle_check_unlocked:
  assumes "throttle_check env email ip w = (Inr x, w')" "k \<in> set (throttle_keys env email ip)"
  shows "\<not> locked k w"
proof -
  obtain n where "worst_lock (throttle_keys env email ip) 0 w = (Inr n, w')" "n \<le> 0"
    using assms(1) by (auto simp: throttle_check_def act_simps split: if_splits)
  with worst_lock_Inr [OF this(1)] assms(2) show ?thesis
    by (force simp: locked_def split: option.splits)
qed

lemma establish_Inr: "establish row u w = (Inr (SignedIn v), w') \<Longrightarrow> v = u"
  unfolding establish_def by (erule outcome_thenE) (auto simp: act_simps)

lemma after_password_Inr: "after_password env row w = (Inr (SignedIn u), w') \<Longrightarrow> u = ur_user row"
  unfolding after_password_def Let_def
  by (elim outcome_thenE)
    (auto simp: ok_def and_then_Inr [of "audit_user e i" for e i] and_then_Inr [of "pending_issue e i" for e i]
      split: sum.splits option.splits if_splits elim!: outcome_thenE dest: establish_Inr)

lemma backend_authenticate_Inr:
  assumes "backend_authenticate env email password w = (Inr (Some row), w')"
  shows "password_ok env email password (tables w) (ur_user row)"
proof -
  obtain found w1 where q: "find_by_email email w = (Inr found, w1)"
    and f: "found = Some row" "\<not> isl (require_enabled (ur_user row))" "pw_verify env password (ur_password_hash row)"
    using assms by (auto simp: backend_authenticate_def act_simps split: option.splits if_splits)
  from select_Inr [OF q [unfolded find_by_email_def]] f show ?thesis
    by (auto simp: password_ok_def row_of_user_def require_enabled_def Some_eq_bind split: if_splits)
qed

lemma login_Inr:
  assumes "login env ip email password w = (Inr (SignedIn u), w')"
  shows "password_ok env email password (tables w) u
    \<and> \<not> locked (attempt_key env email []) w \<and> \<not> locked (attempt_key env email ip) w"
proof -
  obtain w1 where tc: "throttle_check env email ip w = (Inr (), w1)"
    and rest: "and_then (outcome (backend_authenticate env email password)) (\<lambda>authenticated.
             case authenticated of
               Inl _ \<Rightarrow> ok (Failed 500)
             | Inr None \<Rightarrow>
                 and_then (outcome (record_failure env email ip)) (\<lambda>_ :: throttle_error + unit.
                   ok (Refused 401 ''that email or password isn't right''))
             | Inr (Some row) \<Rightarrow>
                 and_then (outcome (record_success env email ip)) (\<lambda>_ :: throttle_error + unit.
                   after_password env row)) w1 = (Inr (SignedIn u), w')"
    using assms unfolding login_def
    by (elim outcome_thenE)
      (auto simp: ok_def and_then_Inr [of "audit_throttled env email"] split: throttle_error.splits)
  obtain row w2 w3 where ba: "backend_authenticate env email password w1 = (Inr (Some row), w2)"
    and ap: "after_password env row w3 = (Inr (SignedIn u), w')"
    using rest
  proof (rule outcome_thenE, goal_cases)
    case (1 x w2)
    then show ?case by (cases x) (auto simp: ok_def elim!: outcome_thenE)
  qed (simp add: ok_def)
  have "set (throttle_keys env email ip) = {attempt_key env email [], attempt_key env email ip}"
    by (auto simp: throttle_keys_def)
  then show ?thesis
    using throttle_check_unlocked [OF tc] throttle_check_Inr [OF tc] backend_authenticate_Inr [OF ba] after_password_Inr [OF ap]
    by auto
qed

text \<open>Whatever statements fail on the way, password login starts a session only for the enabled account
  that the email names, only with a password its stored hash accepts, and never under an active lock.\<close>

theorem login_session_needs_password:
  assumes "login env ip email password w = (Inr (SignedIn u), w')"
  shows "password_ok env email password (tables w) u
    \<and> \<not> locked (attempt_key env email []) w \<and> \<not> locked (attempt_key env email ip) w"
  by (rule login_Inr) (rule assms)

section \<open>The second step\<close>

lemma find_by_id_Inr:
  assumes "find_by_id i w = (Inr (Some row), w')"
  shows "user_by_id i (tables w) = Some (ur_user row)" "tables w' = tables w" "clock w' = clock w"
  using select_Inr [OF assms [unfolded find_by_id_def]]
  by (auto simp: Some_eq_bind row_of_user_def)

lemma resume_session_Inr: "resume_session env uid u w = (Inr (SignedIn v), w') \<Longrightarrow> v = u"
  unfolding resume_session_def
  by (erule outcome_thenE) (auto simp: ok_def split: option.splits dest: establish_Inr)

lemma with_pending_Inr:
  assumes "with_pending env tok k w = (Inr (SignedIn u), w')"
  obtains uid row w1 where "pending_user env (clock w) tok = Some uid" "user_by_id uid (tables w) = Some (ur_user row)"
    "user_disabled_at (ur_user row) = None" "tables w1 = tables w" "clock w1 = clock w"
    "k uid row w1 = (Inr (SignedIn u), w')"
proof -
  obtain uid where uid: "pending_user env (clock w) tok = Some uid"
    and m: "and_then (outcome (find_by_id uid)) (\<lambda>found.
             case found of
               Inl _ \<Rightarrow> ok (Failed 500)
             | Inr None \<Rightarrow> ok expired_attempt
             | Inr (Some row) \<Rightarrow> if isl (require_enabled (ur_user row)) then ok expired_attempt else k uid row) w
          = (Inr (SignedIn u), w')"
    using assms by (auto simp: with_pending_def and_then_Inr [of now_unix] now_unix_Inr ok_def expired_attempt_def
        split: option.splits)
  obtain row w1 where q: "pending_user env (clock w) tok = Some uid" "find_by_id uid w = (Inr (Some row), w1)"
    "\<not> isl (require_enabled (ur_user row))" "k uid row w1 = (Inr (SignedIn u), w')"
    using m uid by (elim outcome_thenE) (auto simp: ok_def expired_attempt_def split: option.splits if_splits)
  show ?thesis
    by (rule that [OF q(1) find_by_id_Inr(1) [OF q(2)] _ find_by_id_Inr(2) [OF q(2)] find_by_id_Inr(3) [OF q(2)] q(4)])
      (use q(3) in \<open>auto simp: require_enabled_def split: if_splits\<close>)
qed

definition recovery_code_left :: "uuid \<Rightarrow> string \<Rightarrow> db \<Rightarrow> bool" where
  "recovery_code_left uid h d = list_ex (unspent_code uid h) (t_recovery_codes d)"

lemma recovery_code_left_audit [simp]: "recovery_code_left uid h (d\<lparr>t_audit := a\<rparr>) = recovery_code_left uid h d"
  by (simp add: recovery_code_left_def)

lemma sql_done:
  "sql f w = (Inr x, w') \<Longrightarrow> f (tables w) = Inr (x, tables w') \<and> clock w' = clock w"
  by (auto simp: sql_def Let_def split: if_splits sum.splits)

lemma consume_recovery_code_Inr:
  assumes "consume_recovery_code uid h w = (Inr spent, w')"
  shows "spent = recovery_code_left uid h (tables w)" "\<not> recovery_code_left uid h (tables w')" "clock w' = clock w"
proof -
  have m: "sql (\<lambda>d. Inr (0 < rows_affected (unspent_code uid h) (t_recovery_codes d),
       d\<lparr>t_recovery_codes := update_where (unspent_code uid h) (\<lambda>r. r\<lparr>rc_used_at := Some (clock w)\<rparr>) (t_recovery_codes d)\<rparr>)) w
     = (Inr spent, w')"
    using assms unfolding consume_recovery_code_def and_then_def now_unix_def prod.case sum.case .
  note z = sql_done [OF m, unfolded sum.inject prod.inject]
  have spent: "spent \<longleftrightarrow> 0 < rows_affected (unspent_code uid h) (t_recovery_codes (tables w))"
    by (rule z [THEN conjunct1, THEN conjunct1, symmetric])
  have rows: "t_recovery_codes (tables w') =
      update_where (unspent_code uid h) (\<lambda>r. r\<lparr>rc_used_at := Some (clock w)\<rparr>) (t_recovery_codes (tables w))"
    unfolding z [THEN conjunct1, THEN conjunct2, symmetric] by simp
  show "clock w' = clock w" by (rule z [THEN conjunct2])
  have none: "\<not> list_ex (unspent_code uid h) (update_where (unspent_code uid h) (\<lambda>r. r\<lparr>rc_used_at := Some t\<rparr>) rows)" for t rows
    by (auto simp: list_ex_iff elim!: in_update_whereE) (simp add: unspent_code_def)
  show "\<not> recovery_code_left uid h (tables w')" by (simp add: recovery_code_left_def rows none)
  show "spent = recovery_code_left uid h (tables w)"
    using rows_affected_0 [of "unspent_code uid h" "t_recovery_codes (tables w)"]
    by (auto simp: recovery_code_left_def list_ex_iff spent)
qed

lemma audit_user_keeps_codes:
  "audit_user e i w = (r, w') \<Longrightarrow> recovery_code_left uid h (tables w') = recovery_code_left uid h (tables w)"
  by (auto simp: audit_user_def audit_record_def and_then_def outcome_def execute_def sql_def Let_def ok_def
      split: if_splits)

lemma establish_keeps_codes:
  "establish row u v = (Inr y, v') \<Longrightarrow> recovery_code_left uid h (tables v') = recovery_code_left uid h (tables v)"
  unfolding establish_def
  by (erule outcome_thenE)
    (auto simp: act_simps start_session_def select_def sql_def Let_def split: if_splits dest!: audit_user_keeps_codes)

lemma get_user_tables: "backend_get_user env t v = (r, v') \<Longrightarrow> tables v' = tables v"
  by (auto simp: backend_get_user_def find_by_id_def select_def sql_def ok_def Let_def split: option.splits if_splits)

lemma resume_keeps_codes:
  assumes "resume_session env i u w = (Inr x, w')"
  shows "recovery_code_left uid h (tables w') = recovery_code_left uid h (tables w)"
  using assms unfolding resume_session_def
  by (elim outcome_thenE)
    (auto simp: ok_def split: option.splits dest: get_user_tables dest!: establish_keeps_codes [of _ _ _ _ _ uid h])

lemma login_totp_Inr:
  assumes "login_totp env tok submitted w = (Inr (SignedIn u), w')"
  shows "\<exists>uid ct t. pending_user env (clock w) tok = Some uid \<and> user_by_id uid (tables w) = Some u
    \<and> user_disabled_at u = None \<and> totp_of uid (tables w) = Some (ct, Some t)
    \<and> (recovery_code_left uid (hash_token env submitted) (tables w)
       \<or> (\<exists>secret. decrypt (aes env) (key_ring env) ct = Inr secret \<and> code_ok env secret (clock w) submitted))
    \<and> \<not> recovery_code_left uid (hash_token env submitted) (tables w')"
proof -
  obtain uid and row :: user_row and w1 where p: "pending_user env (clock w) tok = Some uid" "user_by_id uid (tables w) = Some (ur_user row)"
    "user_disabled_at (ur_user row) = None" "tables w1 = tables w" "clock w1 = clock w"
    and k: "and_then (outcome (totp_verify env uid submitted)) (\<lambda>verified.
         case verified of
           Inr True \<Rightarrow> resume_session env uid (ur_user row)
         | Inr False \<Rightarrow> ok (Refused 401 ''that code was incorrect'')
         | Inl _ \<Rightarrow> ok (Failed 400)) w1 = (Inr (SignedIn u), w')"
    using assms unfolding login_totp_def by (rule with_pending_Inr) (rule that, assumption+)
  obtain w2 where v: "totp_verify env uid submitted w1 = (Inr True, w2)"
    and rs: "resume_session env uid (ur_user row) w2 = (Inr (SignedIn u), w')"
    using k by (elim outcome_thenE) (auto simp: ok_def split: bool.splits)
  have u: "u = ur_user row" using rs by (rule resume_session_Inr)
  obtain ct act_at w3 spent w4 where f: "find_totp uid w1 = (Inr (Some (ct, act_at)), w3)" "act_at \<noteq> None"
    and c: "consume_recovery_code uid (hash_token env submitted) w3 = (Inr spent, w4)"
    and rest: "(if spent then ok True
         else and_then (box (decrypt (aes env) (key_ring env) ct)) (\<lambda>secret.
           and_then now_unix (\<lambda>now. ok (code_ok env secret now submitted)))) w4 = (Inr True, w2)"
    using v by (auto simp: totp_verify_def act_simps split: prod.splits if_splits)
  note f' = select_Inr [OF f(1) [unfolded find_totp_def]]
  note c' = consume_recovery_code_Inr [OF c]
  have w24: "w2 = w4 \<and> (spent \<or> (\<exists>secret. decrypt (aes env) (key_ring env) ct = Inr secret \<and> code_ok env secret (clock w4) submitted))"
    using rest by (auto simp: act_simps box_def split: if_splits sum.splits)
  have "\<not> recovery_code_left uid (hash_token env submitted) (tables w')"
    using resume_keeps_codes [OF rs] c'(2) w24 by simp
  moreover obtain t where "totp_of uid (tables w) = Some (ct, Some t)"
    using f(2) f' p(4) by (cases act_at) (auto simp: eq_commute [of "Some (ct, _)"])
  ultimately show ?thesis
    using p u f' c' w24 by auto
qed

text \<open>C8. The one-time-password step starts a session only for the enabled account of a pending-login token
  that is still valid, and only when that account has an activated credential and the submitted text is
  one of its unspent recovery codes, which is spent from then on, or the current code of the stored
  secret. No failing statement weakens this.\<close>

theorem totp_step_verifies:
  assumes "login_totp env tok submitted w = (Inr (SignedIn u), w')"
  shows "\<exists>uid ct t. pending_user env (clock w) tok = Some uid \<and> user_by_id uid (tables w) = Some u
    \<and> user_disabled_at u = None \<and> totp_of uid (tables w) = Some (ct, Some t)
    \<and> (recovery_code_left uid (hash_token env submitted) (tables w)
       \<or> (\<exists>secret. decrypt (aes env) (key_ring env) ct = Inr secret \<and> code_ok env secret (clock w) submitted))
    \<and> \<not> recovery_code_left uid (hash_token env submitted) (tables w')"
  by (rule login_totp_Inr) (rule assms)

section \<open>Examples\<close>

text \<open>Toy libraries: a hash prefixes its input, a signed token is the text of its user id.\<close>

definition toy_env :: auth_env where
  "toy_env =
     \<lparr>pw_hash = \<lambda>n p. Some (''h'' @ p), pw_verify = \<lambda>p h. h = ''h'' @ p, sha256 = \<lambda>s. s,
      random_bytes = \<lambda>n len. ''r'', b64url = \<lambda>s. s, b64url_dec = Some,
      lowercase = to_ascii_lowercase, uuid_text = \<lambda>i. [char_of i],
      uuid_parse = \<lambda>s. (case s of [c] \<Rightarrow> Some (of_char c) | _ \<Rightarrow> None),
      jwt_encode = \<lambda>k j. (case json_field ''user_id'' j of Some (JStr u) \<Rightarrow> u | _ \<Rightarrow> []),
      jwt_decode = \<lambda>k now t. Some (JObj [(''user_id'', JStr t), (''challenge'', JStr ''c''),
        (''purpose'', JStr ''Authenticate''), (''exp'', JNum 1000)]),
      hkdf = \<lambda>root p. p, process_random = ''r'',
      aes = \<lparr>seal = \<lambda>k n p. p, open_sealed = \<lambda>k n c. Some c\<rparr>,
      key_ring = Some \<lparr>ks_by_id = [(''d'', ''k'')], ks_primary_id = ''d'', ks_primary_bytes = ''k''\<rparr>,
      totp_secret = \<lambda>n. ''s'', totp_check = \<lambda>t now c. c = ''123456''\<rparr>"

definition toy_user :: user where
  "toy_user = \<lparr>user_id = 65, user_username = ''alice'', user_email = ''a@x'', user_is_admin = False,
     user_disabled_at = None, user_email_notifications = True\<rparr>"

definition toy_db :: db where
  "toy_db = empty_db\<lparr>t_users := [toy_user],
     t_accounts := [\<lparr>acct_user_id = 65, acct_password_hash = ''hpw'', acct_approved_at = Some 1, acct_email_verified_at = Some 1\<rparr>]\<rparr>"

definition with_totp :: "db \<Rightarrow> db" where
  "with_totp d = d\<lparr>t_totp := [\<lparr>ts_user_id = 65, ts_ciphertext = replicate 13 (CHR ''x''), ts_activated_at = Some 2\<rparr>],
     t_recovery_codes := [\<lparr>rc_id = 7, rc_user_id = 65, rc_code_hash = hash_token toy_env ''abc'', rc_used_at = None\<rparr>]\<rparr>"

definition world_of :: "db \<Rightarrow> bool list \<Rightarrow> world" where
  "world_of d fs = \<lparr>tables = d, statement_fails = fs, clock = 100, next_uuid = 70, git_calls = []\<rparr>"

lemmas toy_defs = toy_env_def toy_user_def toy_db_def with_totp_def world_of_def

text \<open>A password alone starts a session.\<close>

lemma toy_login: "fst (login toy_env ''ip'' ''A@X'' ''pw'' (world_of toy_db [])) = Inr (SignedIn toy_user)"
  by code_simp

theorem login_signs_in_iff_witness:
  "(\<exists>w'. login toy_env ''ip'' ''A@X'' ''pw'' (world_of toy_db []) = (Inr (SignedIn toy_user), w'))
   \<and> \<not> has_second_factor 65 toy_db"
proof -
  have "\<exists>w'. login toy_env ''ip'' ''A@X'' ''pw'' (world_of toy_db []) = (Inr (SignedIn toy_user), w')"
    using toy_login by (metis prod.collapse)
  with login_signs_in_iff [of "world_of toy_db []" toy_env "''ip''" "''A@X''" "''pw''" toy_user] show ?thesis
    by (simp add: world_of_def toy_user_def)
qed

theorem login_session_needs_password_witness:
  "password_ok toy_env ''A@X'' ''pw'' toy_db toy_user"
proof -
  obtain w' where "login toy_env ''ip'' ''A@X'' ''pw'' (world_of toy_db []) = (Inr (SignedIn toy_user), w')"
    using toy_login by (metis prod.collapse)
  from login_session_needs_password [OF this] show ?thesis by (simp add: world_of_def)
qed

lemma toy_totp: "fst (login_totp toy_env ''A'' ''abc'' (world_of (with_totp toy_db) [])) = Inr (SignedIn toy_user)"
  by code_simp

theorem totp_step_verifies_witness:
  "\<not> recovery_code_left 65 (hash_token toy_env ''abc'')
      (tables (snd (login_totp toy_env ''A'' ''abc'' (world_of (with_totp toy_db) []))))"
proof -
  obtain w' where w': "login_totp toy_env ''A'' ''abc'' (world_of (with_totp toy_db) []) = (Inr (SignedIn toy_user), w')"
    using toy_totp by (metis prod.collapse)
  have "pending_user toy_env 100 ''A'' = Some 65" by code_simp
  with totp_step_verifies [OF w'] w' show ?thesis by (auto simp: world_of_def)
qed

section \<open>Lookups that fail open\<close>

definition unapproved :: "db \<Rightarrow> db" where
  "unapproved d = d\<lparr>t_accounts := update_where (\<lambda>_. True) (\<lambda>a. a\<lparr>acct_approved_at := None\<rparr>) (t_accounts d)\<rparr>"

definition fail_nth :: "nat \<Rightarrow> bool list" where
  "fail_nth n = replicate n False @ [True]"

text \<open>The login handler reads an error of the two second-factor lookups, and of the account-status lookup,
  as their absence: with one failing statement, the password alone starts a session on an account with an
  activated one-time password, and on an account that still awaits approval; without a failure, the first
  is asked for its second factor and the second is refused.\<close>

theorem login_fails_open:
  "fst (login toy_env [] ''a@x'' ''pw'' (world_of (with_totp toy_db) [])) = Inr (NeedsSecondFactor ''A'')
   \<and> fst (login toy_env [] ''a@x'' ''pw'' (world_of (with_totp toy_db) (fail_nth 4))) = Inr (SignedIn toy_user)
   \<and> fst (login toy_env [] ''a@x'' ''pw'' (world_of (unapproved toy_db) [])) = Inr (Refused 403 (account_status_text PendingApproval))
   \<and> fst (login toy_env [] ''a@x'' ''pw'' (world_of (unapproved toy_db) (fail_nth 3))) = Inr (SignedIn toy_user)"
  by (intro conjI) code_simp+
end
