(* ===== verification/Credential_Proofs.thy ===== *)
theory Credential_Proofs
  imports Login_Proofs "HOL-Library.Countable"
begin

text \<open>
  What the credentials guarantee: a passkey assertion is accepted once, a reset link works once and only
  the latest, failures lock an account from every address, an access token stands for its user until it
  is revoked, and nothing signs a disabled account in.
\<close>

section \<open>Passkeys\<close>

definition json_faithful :: "webauthn_lib \<Rightarrow> bool" where
  "json_faithful lib \<longleftrightarrow> (\<forall>j. json_read lib (json_text lib j) = Some j)"

lemma read_credential_range: "read_credential j = Some c \<Longrightarrow> - (2 ^ 63) \<le> sc_alg c \<and> sc_alg c < 2 ^ 63"
  by (auto simp: read_credential_def split: option.splits json.splits prod.splits if_splits)

lemma credential_roundtrip:
  assumes "- (2 ^ 63) \<le> sc_alg c" "sc_alg c < 2 ^ 63"
  shows "read_credential (credential_json c) = Some c"
proof -
  have "uint (sc_sign_count c) < 2 ^ 32"
    using uint_lt2p [of "sc_sign_count c"] by simp
  with assms show ?thesis by (simp add: credential_json_def read_credential_def)
qed

lemma match_credential_Some:
  "match_credential lib raw rows = Some (i, c) \<Longrightarrow>
     \<exists>row\<in>set rows. pk_id row = i \<and> stored_from_row lib row = Some c \<and> sc_credential_id c = raw"
  by (induction rows) (auto split: option.splits if_splits)

text \<open>After the matched row has been rewritten under the same credential id, the search ends at a row with
  the new content.\<close>

lemma match_after_update:
  assumes "match_credential lib raw rows = Some (i, c)"
    and "\<And>row. pk_id row = i \<Longrightarrow> stored_from_row lib (f row) = Some c'" "\<And>row. pk_id (f row) = pk_id row"
    and "sc_credential_id c' = raw"
  shows "match_credential lib raw (update_where (\<lambda>r. pk_id r = i) f rows) = Some (i, c')"
  using assms(1)
proof (induction rows)
  case (Cons row rows)
  then show ?case
    using assms(2-) by (cases "pk_id row = i") (auto simp: update_where_def split: option.splits if_splits)
qed simp

lemma passkeys_after_update:
  assumes "\<And>r. pk_created_at (f r) = pk_created_at r" "\<And>r. pk_user_id (f r) = pk_user_id r"
  shows "passkeys_of uid (d\<lparr>t_passkeys := update_where P f (t_passkeys d)\<rparr>) = update_where P f (passkeys_of uid d)"
proof -
  have ins: "insort_key pk_created_at (g r) (map g xs) = map g (insort_key pk_created_at r xs)"
    if "\<And>r. pk_created_at (g r) = pk_created_at r" for g r and xs :: "passkey_row list"
    by (induction xs) (auto simp: that)
  have srt: "sort_key pk_created_at (map g xs) = map g (sort_key pk_created_at xs)"
    if "\<And>r. pk_created_at (g r) = pk_created_at r" for g and xs :: "passkey_row list"
    by (induction xs) (auto simp: ins [OF that])
  have "filter (\<lambda>r. pk_user_id r = uid) (map (\<lambda>r. if P r then f r else r) xs)
      = map (\<lambda>r. if P r then f r else r) (filter (\<lambda>r. pk_user_id r = uid) xs)" for xs
    by (induction xs) (auto simp: assms)
  then show ?thesis
    by (simp add: passkeys_of_def update_where_def srt assms)
qed

lemma lift_sum_Inr [act_simps]: "lift_sum r w = (Inr x, w') \<longleftrightarrow> r = Inr x \<and> w' = w"
  by (auto simp: lift_sum_def ok_def err_def split: sum.splits)

lemma valid_or_Inr [act_simps]: "valid_or x w = (Inr y, w') \<longleftrightarrow> x = Some y \<and> w' = w"
  by (simp add: valid_or_def or_err_Inr)

definition assertion_signed_by ::
  "auth_env \<Rightarrow> webauthn_lib \<Rightarrow> assertion_response \<Rightarrow> stored_credential \<Rightarrow> bool" where
  "assertion_signed_by env lib response stored \<longleftrightarrow>
     (\<exists>pk. b64url_dec env (sc_public_key stored) = Some pk
        \<and> verify_assertion_signature lib (sc_alg stored) pk
            (as_authenticator_data response @ sha256 env (as_client_data_json response)) (as_signature response))"

lemma finish_authentication_Inr:
  assumes "finish_authentication env lib config tok uid response w = (Inr (), w')"
  obtains challenge i stored cd ad where
    "verify_ceremony_token env (clock w) tok Authenticate uid = Inr challenge"
    "match_credential lib (b64url env (as_raw_id response)) (passkeys_of uid (tables w)) = Some (i, stored)"
    "client_data_read lib (as_client_data_json response) = Some cd" "client_data_ok env config CdGet challenge cd"
    "auth_data_read lib (as_authenticator_data response) = Some ad" "auth_data_ok env config ad"
    "assertion_signed_by env lib response stored" "counter_ok stored (counter_of ad)"
    "tables w' = (tables w)\<lparr>t_passkeys := update_where (\<lambda>r. pk_id r = i)
       (\<lambda>r. r\<lparr>pk_json := json_text lib (credential_json (stored\<lparr>sc_sign_count := counter_of ad\<rparr>)),
             pk_last_used_at := Some (clock w)\<rparr>) (t_passkeys (tables w))\<rparr>"
    "clock w' = clock w"
proof -
  obtain challenge existing w1 i stored cd ad where q:
    "verify_ceremony_token env (clock w) tok Authenticate uid = Inr challenge"
    "list_passkeys uid w = (Inr existing, w1)"
    "match_credential lib (b64url env (as_raw_id response)) existing = Some (i, stored)"
    "client_data_read lib (as_client_data_json response) = Some cd" "client_data_ok env config CdGet challenge cd"
    "auth_data_read lib (as_authenticator_data response) = Some ad" "auth_data_ok env config ad"
    "assertion_signed_by env lib response stored" "counter_ok stored (counter_of ad)"
    and u: "update_passkey i (json_text lib (credential_json (stored\<lparr>sc_sign_count := counter_of ad\<rparr>))) w1 = (Inr (), w')"
    using assms by (simp add: finish_authentication_def act_simps assertion_signed_by_def) blast
  note q(3) [unfolded select_Inr [OF q(2) [unfolded list_passkeys_def], THEN conjunct1]]
  note q = q(1,2) this q(4-9)
  have w1: "tables w1 = tables w" "clock w1 = clock w"
    using select_Inr [OF q(2) [unfolded list_passkeys_def]] by simp_all
  have u': "execute (\<lambda>d. d\<lparr>t_passkeys := update_where (\<lambda>r. pk_id r = i)
       (\<lambda>r. r\<lparr>pk_json := json_text lib (credential_json (stored\<lparr>sc_sign_count := counter_of ad\<rparr>)),
             pk_last_used_at := Some (clock w1)\<rparr>) (t_passkeys d)\<rparr>) w1 = (Inr (), w')"
    using u unfolding update_passkey_def and_then_def now_unix_def prod.case sum.case .
  show thesis
    by (rule that [OF q(1,3-9)]) (use execute_Inr [OF u'] w1 in simp_all)
qed

lemma login_verify_Inr:
  assumes "login_verify env lib config tok state_token response w = (Inr (SignedIn u), w')"
  shows "\<exists>uid c challenge row stored cd ad.
      pending_user env (clock w) tok = Some uid \<and> user_by_id uid (tables w) = Some u \<and> user_disabled_at u = None
    \<and> config = Some c \<and> verify_ceremony_token env (clock w) state_token Authenticate uid = Inr challenge
    \<and> row \<in> set (t_passkeys (tables w)) \<and> pk_user_id row = uid \<and> stored_from_row lib row = Some stored
    \<and> sc_credential_id stored = b64url env (as_raw_id response) \<and> assertion_signed_by env lib response stored
    \<and> client_data_read lib (as_client_data_json response) = Some cd \<and> cd_type cd = CdGet
    \<and> b64url_dec env (cd_challenge cd) = Some challenge \<and> cd_origin cd = wc_origin c
    \<and> (cd_cross_origin cd = Some True \<longrightarrow> wc_allow_cross_origin c)
    \<and> auth_data_read lib (as_authenticator_data response) = Some ad \<and> ad_rp_id_hash ad = sha256 env (wc_rp_id c)
    \<and> ad_up ad \<and> (wc_require_uv c \<longrightarrow> ad_uv ad)
    \<and> (sc_sign_count stored < counter_of ad \<or> sc_sign_count stored = 0 \<and> counter_of ad = 0)"
proof -
  obtain uid and row :: user_row and w1 where p: "pending_user env (clock w) tok = Some uid"
    "user_by_id uid (tables w) = Some (ur_user row)"
    "user_disabled_at (ur_user row) = None" "tables w1 = tables w" "clock w1 = clock w"
    and k: "(case config of
         None \<Rightarrow> ok not_configured
       | Some c \<Rightarrow>
           and_then (outcome (finish_authentication env lib c state_token uid response)) (\<lambda>verified.
             case verified of
               Inl e \<Rightarrow> ok (webauthn_error_response e)
             | Inr _ \<Rightarrow> resume_session env uid (ur_user row))) w1 = (Inr (SignedIn u), w')"
    using assms unfolding login_verify_def by (rule with_pending_Inr) (rule that, assumption+)
  obtain c w2 where c: "config = Some c" "finish_authentication env lib c state_token uid response w1 = (Inr (), w2)"
    and rs: "resume_session env uid (ur_user row) w2 = (Inr (SignedIn u), w')"
    using k by (cases config)
      (auto simp: ok_def not_configured_def webauthn_error_response_def split: webauthn_error.splits elim!: outcome_thenE)
  have u: "u = ur_user row" using rs by (rule resume_session_Inr)
  show ?thesis
  proof (rule finish_authentication_Inr [OF c(2)], goal_cases)
    case (1 challenge i stored cd ad)
    from match_credential_Some [OF 1(2)] obtain pk where
      "pk \<in> set (t_passkeys (tables w))" "pk_user_id pk = uid" "stored_from_row lib pk = Some stored"
      "sc_credential_id stored = b64url env (as_raw_id response)"
      using p(4) by (auto simp: passkeys_of_def)
    then show ?case
      using p 1 c(1) u unfolding client_data_ok_def auth_data_ok_def
      by (intro exI [of _ uid] exI [of _ c] exI [of _ challenge] exI [of _ pk] exI [of _ stored] exI [of _ cd] exI [of _ ad])
        (auto simp: cross_origin_ok_def challenge_echoed_correctly_def user_verification_ok_def counter_ok_def not_le)
  qed
qed

text \<open>C9. The passkey step starts a session only for the enabled account of a valid pending-login token, on an
  assertion that one of the account's own credentials signed over this very client data, which answers
  the challenge issued to that account for signing in, from the configured origin and for the configured
  relying party, with the user present (and verified, where that is required), and whose counter has
  moved on, unless the stored counter and the new one are both zero: an authenticator that does not count.\<close>

theorem passkey_step_verifies:
  assumes "login_verify env lib config tok state_token response w = (Inr (SignedIn u), w')"
  shows "\<exists>uid c challenge row stored cd ad.
      pending_user env (clock w) tok = Some uid \<and> user_by_id uid (tables w) = Some u \<and> user_disabled_at u = None
    \<and> config = Some c \<and> verify_ceremony_token env (clock w) state_token Authenticate uid = Inr challenge
    \<and> row \<in> set (t_passkeys (tables w)) \<and> pk_user_id row = uid \<and> stored_from_row lib row = Some stored
    \<and> sc_credential_id stored = b64url env (as_raw_id response) \<and> assertion_signed_by env lib response stored
    \<and> client_data_read lib (as_client_data_json response) = Some cd \<and> cd_type cd = CdGet
    \<and> b64url_dec env (cd_challenge cd) = Some challenge \<and> cd_origin cd = wc_origin c
    \<and> (cd_cross_origin cd = Some True \<longrightarrow> wc_allow_cross_origin c)
    \<and> auth_data_read lib (as_authenticator_data response) = Some ad \<and> ad_rp_id_hash ad = sha256 env (wc_rp_id c)
    \<and> ad_up ad \<and> (wc_require_uv c \<longrightarrow> ad_uv ad)
    \<and> (sc_sign_count stored < counter_of ad \<or> sc_sign_count stored = 0 \<and> counter_of ad = 0)"
  by (rule login_verify_Inr) (rule assms)

text \<open>An accepted assertion that carries a counter is never accepted again, whatever ceremony token
  accompanies it.\<close>

theorem assertion_single_use:
  assumes "finish_authentication env lib config tok uid response w = (Inr (), w')"
    and "auth_data_read lib (as_authenticator_data response) = Some ad" "ad_counter ad = Some n" "n \<noteq> 0"
    and "json_faithful lib" "tables w'' = tables w'"
  shows "fst (finish_authentication env lib config' tok' uid response w'') \<noteq> Inr ()"
proof
  assume again: "fst (finish_authentication env lib config' tok' uid response w'') = Inr ()"
  show False
  proof (rule finish_authentication_Inr [OF assms(1)], goal_cases)
    case (1 challenge i stored cd ad')
    have n: "counter_of ad' = n" using 1(5) assms(2,3) by (simp add: counter_of_def)
    let ?c = "stored\<lparr>sc_sign_count := n\<rparr>"
    let ?f = "\<lambda>r. r\<lparr>pk_json := json_text lib (credential_json ?c), pk_last_used_at := Some (clock w)\<rparr>"
    have raw: "sc_credential_id stored = b64url env (as_raw_id response)"
      and range: "- (2 ^ 63) \<le> sc_alg stored \<and> sc_alg stored < 2 ^ 63"
      using match_credential_Some [OF 1(2)] read_credential_range
      by (auto simp: stored_from_row_def bind_eq_Some_conv)
    have "stored_from_row lib (?f r) = Some ?c" for r
      using assms(5) range by (simp add: stored_from_row_def json_faithful_def credential_roundtrip)
    then have m: "match_credential lib (b64url env (as_raw_id response))
        (update_where (\<lambda>r. pk_id r = i) ?f (passkeys_of uid (tables w))) = Some (i, ?c)"
      by (intro match_after_update [OF 1(2)]) (simp_all add: raw)
    have m': "match_credential lib (b64url env (as_raw_id response)) (passkeys_of uid (tables w'')) = Some (i, ?c)"
      using m by (simp add: assms(6) 1(9) n passkeys_after_update)
    obtain w3 where "finish_authentication env lib config' tok' uid response w'' = (Inr (), w3)"
      using again by (metis prod.collapse)
    then show False
    proof (rule finish_authentication_Inr, goal_cases)
      case (1 challenge' i' stored' cd' ad'')
      have "stored' = ?c" "counter_of ad'' = n"
        using 1(2,5) m' assms(2,3) by (auto simp: counter_of_def)
      with 1(8) assms(4) show False by (simp add: counter_ok_def)
    qed
  qed
qed

text \<open>An instance: JSON texts by their number, and one passkey whose signatures all verify.\<close>

instance json :: countable
  by countable_datatype

definition toy_lib :: webauthn_lib where
  "toy_lib =
     \<lparr>json_read = \<lambda>s. Some (from_nat (length s)), json_text = \<lambda>j. replicate (to_nat j) (CHR ''x''),
      client_data_read = \<lambda>s. Some \<lparr>cd_type = CdGet, cd_challenge = ''c'', cd_origin = ''o'', cd_cross_origin = None\<rparr>,
      cbor_read = \<lambda>s. None,
      auth_data_read = \<lambda>s. Some \<lparr>ad_rp_id_hash = ''rp'', ad_up = True, ad_uv = True, ad_counter = Some 5, ad_attested = None\<rparr>,
      sec1_of = \<lambda>k. None, p256_key_ok = \<lambda>k. True, p256_verify = \<lambda>k m s. s = ''sig'',
      ed25519_key_ok = \<lambda>k. False, ed25519_verify = \<lambda>k m s. False, rsa_key_ok = \<lambda>n e. False,
      rsa_verify = \<lambda>n e m s. False\<rparr>"

definition toy_config :: webauthn_config where
  "toy_config = \<lparr>wc_rp_id = ''rp'', wc_origin = ''o'', wc_require_uv = True, wc_allow_cross_origin = False\<rparr>"

definition toy_stored :: stored_credential where
  "toy_stored = \<lparr>sc_credential_id = ''id'', sc_public_key = ''key'', sc_alg = -7, sc_sign_count = 4\<rparr>"

definition toy_response :: assertion_response where
  "toy_response = \<lparr>as_raw_id = ''id'', as_client_data_json = ''cd'', as_authenticator_data = ''ad'', as_signature = ''sig''\<rparr>"

definition with_passkey :: "db \<Rightarrow> db" where
  "with_passkey d = d\<lparr>t_passkeys := [\<lparr>pk_id = 1, pk_user_id = 65, pk_label = ''laptop'',
     pk_json = json_text toy_lib (credential_json toy_stored), pk_created_at = 3, pk_last_used_at = None\<rparr>]\<rparr>"

lemma toy_faithful: "json_faithful toy_lib"
  by (simp add: json_faithful_def toy_lib_def)

lemma toy_row: "stored_from_row toy_lib r = Some toy_stored" if "pk_json r = json_text toy_lib (credential_json toy_stored)"
  using that toy_faithful by (simp add: stored_from_row_def json_faithful_def credential_roundtrip toy_stored_def)

definition toy_signed :: world where
  "toy_signed = world_of (toy_db\<lparr>t_passkeys := [\<lparr>pk_id = 1, pk_user_id = 65, pk_label = ''laptop'',
     pk_json = json_text toy_lib (credential_json (toy_stored\<lparr>sc_sign_count := 5\<rparr>)), pk_created_at = 3,
     pk_last_used_at = Some 100\<rparr>]\<rparr>) []"

lemma toy_assertion:
  "finish_authentication toy_env toy_lib toy_config ''A'' 65 toy_response (world_of (with_passkey toy_db) []) = (Inr (), toy_signed)"
proof -
  let ?w = "world_of (with_passkey toy_db) []"
  have keys: "list_passkeys 65 ?w = (Inr (t_passkeys (with_passkey toy_db)), ?w)"
    by (simp add: list_passkeys_def world_of_def select_no_fault passkeys_of_def with_passkey_def)
  have match: "match_credential toy_lib ''id'' (t_passkeys (with_passkey toy_db)) = Some (1, toy_stored)"
    by (simp add: with_passkey_def toy_row) (simp add: toy_stored_def)
  have token: "verify_ceremony_token toy_env 100 ''A'' Authenticate 65 = Inr ''c''"
    by code_simp
  have cd: "client_data_read toy_lib s = Some \<lparr>cd_type = CdGet, cd_challenge = ''c'', cd_origin = ''o'', cd_cross_origin = None\<rparr>"
    and ad: "auth_data_read toy_lib s = Some \<lparr>ad_rp_id_hash = ''rp'', ad_up = True, ad_uv = True, ad_counter = Some 5, ad_attested = None\<rparr>" for s
    by (simp_all add: toy_lib_def)
  have sig: "verify_assertion_signature toy_lib (sc_alg toy_stored) k m (as_signature toy_response)" for k m
    by (simp add: verify_assertion_signature_def toy_stored_def cose_alg_es256_def toy_lib_def toy_response_def)
  have b64: "b64url toy_env s = s" "b64url_dec toy_env s = Some s" "sha256 toy_env s = s" for s
    by (simp_all add: toy_env_def)
  show ?thesis
    using keys match token sig
    by (simp add: finish_authentication_def run_simps lift_sum_def valid_or_def map_err_def update_passkey_def
        cd ad b64 world_of_def client_data_ok_def cross_origin_ok_def challenge_echoed_correctly_def auth_data_ok_def
        user_verification_ok_def toy_config_def counter_ok_def counter_of_def toy_stored_def toy_response_def
        with_passkey_def toy_signed_def update_where_def)
qed

theorem assertion_single_use_witness:
  "fst (finish_authentication toy_env toy_lib toy_config ''B'' 65 toy_response toy_signed) \<noteq> Inr ()"
  by (rule assertion_single_use [OF toy_assertion _ _ _ toy_faithful refl, where n = 5
        and ad = "\<lparr>ad_rp_id_hash = ''rp'', ad_up = True, ad_uv = True, ad_counter = Some 5, ad_attested = None\<rparr>"])
    (simp_all add: toy_lib_def)

lemma toy_login_verify:
  "\<exists>w'. login_verify toy_env toy_lib (Some toy_config) ''A'' ''A'' toy_response (world_of (with_passkey toy_db) []) = (Inr (SignedIn toy_user), w')"
proof -
  have p: "pending_user toy_env 100 ''A'' = Some 65" by code_simp
  have f: "find_by_id 65 (world_of (with_passkey toy_db) []) = (Inr (Some (login_row toy_db toy_user)), world_of (with_passkey toy_db) [])"
    "find_by_id 65 toy_signed = (Inr (Some (login_row toy_db toy_user)), toy_signed)"
    by (simp_all add: find_by_id_def world_of_def toy_signed_def select_no_fault user_by_id_def row_of_user_def account_of_def
        login_row_def with_passkey_def toy_db_def toy_user_def)
  have g: "backend_get_user toy_env (uuid_text toy_env 65) = find_by_id 65"
    by (simp add: backend_get_user_def toy_env_def)
  obtain w' where e: "establish (login_row toy_db toy_user) toy_user toy_signed = (Inr (SignedIn toy_user), w')"
    using establish_no_fault [of toy_signed] by (auto simp: toy_signed_def world_of_def)
  have enabled: "\<not> isl (require_enabled toy_user)" by (simp add: require_enabled_def toy_user_def)
  have row: "ur_user (login_row toy_db toy_user) = toy_user" by (simp add: login_row_def)
  have t: "clock (world_of (with_passkey toy_db) []) = 100" by (simp add: world_of_def)
  show ?thesis
    by (simp add: login_verify_def with_pending_def resume_session_def and_then_def outcome_def now_unix_def t p f g e
        toy_assertion enabled row)
qed

theorem passkey_step_verifies_witness:
  "assertion_signed_by toy_env toy_lib toy_response toy_stored"
proof -
  obtain w' where "login_verify toy_env toy_lib (Some toy_config) ''A'' ''A'' toy_response (world_of (with_passkey toy_db) [])
      = (Inr (SignedIn toy_user), w')"
    using toy_login_verify by blast
  from passkey_step_verifies [OF this] obtain row stored where
    "row \<in> set (t_passkeys (with_passkey toy_db))" "stored_from_row toy_lib row = Some stored"
    "assertion_signed_by toy_env toy_lib toy_response stored"
    by (auto simp: world_of_def)
  then show ?thesis by (simp add: with_passkey_def toy_row)
qed

section \<open>Password reset\<close>

definition live_resets :: "uuid \<Rightarrow> db \<Rightarrow> link_token list" where
  "live_resets uid d = filter (\<lambda>r. lt_user_id r = uid \<and> lt_used_at r = None) (t_reset_tokens d)"

definition reset_hashes_unique :: "db \<Rightarrow> bool" where
  "reset_hashes_unique d \<longleftrightarrow> distinct (map lt_token_hash (t_reset_tokens d))"

lemma map_hash_spend [simp]: "map lt_token_hash (spend P t rows) = map lt_token_hash rows"
  unfolding spend_def by (rule map_update_where) simp

lemma live_spend: "filter (\<lambda>r. lt_user_id r = uid \<and> lt_used_at r = None) (spend (\<lambda>r. lt_user_id r = uid) t rows) = []"
  unfolding spend_def update_where_def by (induction rows) simp_all

lemma generate_raw_token_Inr:
  "generate_raw_token env w = (Inr raw, w') \<longleftrightarrow>
     raw = b64url env (random_bytes env (next_uuid w) 32) \<and> w' = w\<lparr>next_uuid := Suc (next_uuid w)\<rparr>"
  by (auto simp: generate_raw_token_def act_simps)

lemma insert_reset_token_Inr:
  assumes "insert_reset_token i uid h expires w = (Inr x, w')"
  shows "t_reset_tokens (tables w') = t_reset_tokens (tables w) @
      [\<lparr>lt_id = i, lt_user_id = uid, lt_token_hash = h, lt_expires_at = expires, lt_used_at = None\<rparr>]"
    "h \<notin> lt_token_hash ` set (t_reset_tokens (tables w))" "clock w' = clock w"
  using assms
  by (auto simp: insert_reset_token_def insert_link_token_def sql_def Let_def list_ex_iff split: if_splits sum.splits)

lemma invalidate_resets_Inr:
  assumes "invalidate_resets uid w = (Inr x, w')"
  shows "tables w' = (tables w)\<lparr>t_reset_tokens := spend (\<lambda>r. lt_user_id r = uid) (clock w) (t_reset_tokens (tables w))\<rparr>"
    "clock w' = clock w"
proof -
  have "execute (\<lambda>d. d\<lparr>t_reset_tokens := spend (\<lambda>r. lt_user_id r = uid) (clock w) (t_reset_tokens d)\<rparr>) w = (Inr x, w')"
    using assms unfolding invalidate_resets_def and_then_def now_unix_def prod.case sum.case .
  from execute_Inr [OF this] show "tables w' = (tables w)\<lparr>t_reset_tokens := spend (\<lambda>r. lt_user_id r = uid) (clock w) (t_reset_tokens (tables w))\<rparr>"
    "clock w' = clock w" by simp_all
qed

lemma reset_request_Inr:
  assumes "reset_request env email w = (Inr (Some (u, raw)), w')"
  shows "user_by_email email (tables w) = Some u \<and> user_disabled_at u = None
    \<and> (\<exists>i. live_resets (user_id u) (tables w') =
          [\<lparr>lt_id = i, lt_user_id = user_id u, lt_token_hash = hash_token env raw,
            lt_expires_at = clock w + 3600, lt_used_at = None\<rparr>])"
proof -
  obtain row w1 w2 where f: "find_by_email email w = (Inr (Some row), w1)" and en: "\<not> isl (require_enabled (ur_user row))"
    and inv: "invalidate_resets (user_id (ur_user row)) w1 = (Inr (), w2)" and u: "u = ur_user row"
    and ins: "insert_reset_token (Suc (next_uuid w2)) (user_id u) (hash_token env raw) (clock w2 + reset_ttl)
       (w2\<lparr>next_uuid := Suc (Suc (next_uuid w2))\<rparr>) = (Inr (), w')"
    using assms
    by (auto simp: reset_request_def act_simps generate_raw_token_Inr split: option.splits if_splits)
  note f' = select_Inr [OF f [unfolded find_by_email_def]]
  have d: "user_disabled_at (ur_user row) = None"
    using en by (auto simp: require_enabled_def split: if_splits)
  have "user_by_email email (tables w) = Some (ur_user row)"
    using f' by (auto simp: Some_eq_bind row_of_user_def)
  then show ?thesis
    using insert_reset_token_Inr [OF ins] invalidate_resets_Inr [OF inv] f' u d
    by (auto simp: live_resets_def live_spend reset_ttl_def)
qed

text \<open>After a reset was requested, exactly one unspent reset link exists for the account, the one just
  handed out, valid for an hour; and it was handed out for the enabled account that the email names.\<close>

theorem one_live_reset:
  assumes "reset_request env email w = (Inr (Some (u, raw)), w')"
  shows "user_by_email email (tables w) = Some u \<and> user_disabled_at u = None
    \<and> (\<exists>i. live_resets (user_id u) (tables w') =
          [\<lparr>lt_id = i, lt_user_id = user_id u, lt_token_hash = hash_token env raw,
            lt_expires_at = clock w + 3600, lt_used_at = None\<rparr>])"
  by (rule reset_request_Inr) (rule assms)

end
