(* ===== verification/Credential_Guarantees.thy ===== *)
theory Credential_Guarantees
  imports Credential_Proofs
begin

text \<open>
  What follows for links, lockouts and access tokens, and two places where the layer gives less than its
  comments say.
\<close>

section \<open>A reset link works once\<close>

lemma find_unique:
  "distinct (map f xs) \<Longrightarrow> find P xs = Some r \<Longrightarrow> r \<in> set xs \<and> P r \<and> (\<forall>x\<in>set xs. f x = f r \<longrightarrow> x = r)"
  by (auto simp: find_Some_iff inj_on_def dest: distinct_map [THEN iffD1])

lemma mark_reset_used_Inr:
  assumes "mark_reset_used i w = (Inr b, w')"
  shows "t_reset_tokens (tables w') = spend (\<lambda>r. lt_id r = i) (clock w) (t_reset_tokens (tables w))"
    "t_accounts (tables w') = t_accounts (tables w)"
proof -
  have "sql (\<lambda>d. Inr (0 < rows_affected (\<lambda>r. lt_id r = i \<and> lt_used_at r = None) (t_reset_tokens d),
            d\<lparr>t_reset_tokens := spend (\<lambda>r. lt_id r = i) (clock w) (t_reset_tokens d)\<rparr>)) w = (Inr b, w')"
    using assms unfolding mark_reset_used_def and_then_def now_unix_def prod.case sum.case .
  from sql_done [OF this, unfolded sum.inject prod.inject] have e:
    "(tables w)\<lparr>t_reset_tokens := spend (\<lambda>r. lt_id r = i) (clock w) (t_reset_tokens (tables w))\<rparr> = tables w'" by blast
  show "t_reset_tokens (tables w') = spend (\<lambda>r. lt_id r = i) (clock w) (t_reset_tokens (tables w))"
    "t_accounts (tables w') = t_accounts (tables w)"
    unfolding e [symmetric] by simp_all
qed

lemma update_password_hash_Inr:
  assumes "update_password_hash uid h w = (Inr b, w')"
  shows "t_accounts (tables w') = update_where (\<lambda>a. acct_user_id a = uid) (\<lambda>a. a\<lparr>acct_password_hash := h\<rparr>) (t_accounts (tables w))"
    "t_reset_tokens (tables w') = t_reset_tokens (tables w)" "clock w' = clock w"
proof -
  note z = sql_done [OF assms [unfolded update_password_hash_def update_accounts_def], unfolded sum.inject prod.inject]
  show "t_accounts (tables w') = update_where (\<lambda>a. acct_user_id a = uid) (\<lambda>a. a\<lparr>acct_password_hash := h\<rparr>) (t_accounts (tables w))"
    "t_reset_tokens (tables w') = t_reset_tokens (tables w)"
    unfolding z [THEN conjunct1, THEN conjunct2, symmetric] by simp_all
  show "clock w' = clock w" using z by blast
qed

lemma spent_not_usable:
  assumes "distinct (map lt_token_hash rows)" "find (usable_token h now) rows = Some r"
  shows "find (usable_token h t) (spend (\<lambda>x. lt_id x = lt_id r) now' rows) = None"
proof -
  have r: "r \<in> set rows" "usable_token h now r" "\<forall>x\<in>set rows. lt_token_hash x = h \<longrightarrow> x = r"
    using find_unique [OF assms] by (auto simp: usable_token_def)
  have "\<not> usable_token h t x" if "x \<in> set (spend (\<lambda>x. lt_id x = lt_id r) now' rows)" for x
    using that unfolding spend_def
  proof (rule in_update_whereE, goal_cases)
    case (1 y)
    show ?case unfolding 1(3) by (simp add: usable_token_def)
  next
    case 2
    show ?case
    proof
      assume "usable_token h t x"
      then have "x = r" using 2(1) r(3) by (simp add: usable_token_def)
      with 2(2) \<open>usable_token h t x\<close> show False by (simp add: usable_token_def)
    qed
  qed
  then show ?thesis by (simp add: find_None_iff)
qed

lemma toy_reset:
  "\<exists>w'. reset_consume toy_env ''raw'' ''new'' (world_of (toy_db\<lparr>t_reset_tokens := [\<lparr>lt_id = 1, lt_user_id = 65,
     lt_token_hash = hash_token toy_env ''raw'', lt_expires_at = 200, lt_used_at = None\<rparr>]\<rparr>) []) = (Inr 65, w')"
proof -
  have "fst (reset_consume toy_env ''raw'' ''new'' (world_of (toy_db\<lparr>t_reset_tokens := [\<lparr>lt_id = 1, lt_user_id = 65,
     lt_token_hash = hash_token toy_env ''raw'', lt_expires_at = 200, lt_used_at = None\<rparr>]\<rparr>) [])) = Inr 65"
    by code_simp
  then show ?thesis by (metis prod.collapse)
qed

lemma toy_request: "\<exists>w'. reset_request toy_env ''a@x'' (world_of toy_db []) = (Inr (Some (toy_user, ''r'')), w')"
proof -
  have "fst (reset_request toy_env ''a@x'' (world_of toy_db [])) = Inr (Some (toy_user, ''r''))"
    by code_simp
  then show ?thesis by (metis prod.collapse)
qed

theorem one_live_reset_witness:
  "\<exists>d. length (live_resets 65 d) = 1 \<and> fst (reset_request toy_env ''a@x'' (world_of toy_db [])) \<noteq> Inr None"
proof -
  obtain w' where w': "reset_request toy_env ''a@x'' (world_of toy_db []) = (Inr (Some (toy_user, ''r'')), w')"
    using toy_request by blast
  from one_live_reset [OF w'] have "length (live_resets 65 (tables w')) = 1" by (auto simp: toy_user_def)
  with w' show ?thesis by (intro exI [of _ "tables w'"]) simp
qed

section \<open>Lockout\<close>

lemma attempt_after_failure:
  assumes "attempt_record_failure key now w = (Inr a, w')"
  shows "attempt_of key (tables w') = Some a" "\<And>k. k \<noteq> key \<Longrightarrow> attempt_of k (tables w') = attempt_of k (tables w)"
    "la_failure_count a = (case attempt_of key (tables w) of Some b \<Rightarrow> la_failure_count b + 1 | None \<Rightarrow> 1)"
    "clock w' = clock w"
proof -
  obtain w1 where e: "execute (\<lambda>d. d\<lparr>t_login_attempts := count_failure key now (t_login_attempts d)\<rparr>) w = (Inr (), w1)"
    and s: "select (attempt_of key) w1 = (Inr (Some a), w')"
    using assms by (auto simp: attempt_record_failure_def act_simps)
  note q = execute_Inr [OF e] select_Inr [OF s]
  have new: "find (\<lambda>x. la_key x = key) (count_failure key now rows) = Some (case find (\<lambda>x. la_key x = key) rows of
      Some b \<Rightarrow> b\<lparr>la_failure_count := la_failure_count b + 1, la_last_failed_at := now\<rparr>
    | None \<Rightarrow> \<lparr>la_key = key, la_failure_count = 1, la_first_failed_at = now, la_last_failed_at = now, la_locked_until = None\<rparr>)" for rows
  proof (induction rows)
    case (Cons r rows)
    then show ?case
      by (cases "la_key r = key") (auto simp: count_failure_def update_where_def split: if_splits)
  qed (simp add: count_failure_def)
  have other: "find (\<lambda>x. la_key x = k) (count_failure key now rows) = find (\<lambda>x. la_key x = k) rows" if "k \<noteq> key" for k rows
  proof -
    have "find (\<lambda>x. la_key x = k) (update_where (\<lambda>x. la_key x = key) f rows) = find (\<lambda>x. la_key x = k) rows"
      if "\<And>r. la_key (f r) = la_key r" for f
      using \<open>k \<noteq> key\<close> by (induction rows) (auto simp: update_where_def that)
    moreover have "find (\<lambda>x. la_key x = k) (rows @ [r]) = find (\<lambda>x. la_key x = k) rows" if "la_key r = key" for r
      using \<open>k \<noteq> key\<close> that by (induction rows) auto
    ultimately show ?thesis by (simp add: count_failure_def)
  qed
  have t: "t_login_attempts (tables w') = count_failure key now (t_login_attempts (tables w))" using q by simp
  have c: "attempt_of k (tables w') = find (\<lambda>x. la_key x = k) (count_failure key now (t_login_attempts (tables w)))" for k
    by (simp add: attempt_of_def t)
  show a: "attempt_of key (tables w') = Some a" using q by simp
  show "attempt_of k (tables w') = attempt_of k (tables w)" if "k \<noteq> key" for k
    unfolding c other [OF that] by (simp add: attempt_of_def)
  show "la_failure_count a = (case attempt_of key (tables w) of Some b \<Rightarrow> la_failure_count b + 1 | None \<Rightarrow> 1)"
    using a unfolding c new by (auto simp: attempt_of_def split: option.splits)
  show "clock w' = clock w" using q by simp
qed

lemma set_locked_until_Inr:
  assumes "set_locked_until key u w = (Inr x, w')"
  shows "attempt_of k (tables w') = map_option (\<lambda>a. if k = key then a\<lparr>la_locked_until := u\<rparr> else a) (attempt_of k (tables w))"
    "clock w' = clock w"
proof -
  have "find (\<lambda>x. la_key x = k) (update_where (\<lambda>a. la_key a = key) (\<lambda>a. a\<lparr>la_locked_until := u\<rparr>) rows)
      = map_option (\<lambda>a. if k = key then a\<lparr>la_locked_until := u\<rparr> else a) (find (\<lambda>x. la_key x = k) rows)" for rows
    by (induction rows) (auto simp: update_where_def)
  then show "attempt_of k (tables w') = map_option (\<lambda>a. if k = key then a\<lparr>la_locked_until := u\<rparr> else a) (attempt_of k (tables w))"
    "clock w' = clock w"
    using execute_Inr [OF assms [unfolded set_locked_until_def]] by (simp_all add: attempt_of_def)
qed

lemma note_failure_other:
  assumes "note_failure key w = (Inr x, w')" "k \<noteq> key"
  shows "attempt_of k (tables w') = attempt_of k (tables w)" "clock w' = clock w"
proof -
  obtain a w1 where a: "attempt_record_failure key (clock w) w = (Inr a, w1)"
    and rest: "(if lock_threshold \<le> la_failure_count a
         then set_locked_until key (Some (clock w + lock_window (la_failure_count a))) else ok ()) w1 = (Inr x, w')"
    using assms(1) by (auto simp: note_failure_def act_simps)
  show "attempt_of k (tables w') = attempt_of k (tables w)" "clock w' = clock w"
    using rest assms(2) attempt_after_failure(2,4) [OF a]
    by (auto simp: ok_def set_locked_until_Inr option.map_ident split: if_splits dest: set_locked_until_Inr)
qed

lemma note_failure_locks:
  assumes "note_failure key w = (Inr x, w')" "attempt_of key (tables w) = Some b" "4 \<le> la_failure_count b"
  shows "\<exists>a. attempt_of key (tables w') = Some a
    \<and> la_locked_until a = Some (clock w + lock_window (la_failure_count b + 1)) \<and> clock w' = clock w"
proof -
  obtain a w1 where a: "attempt_record_failure key (clock w) w = (Inr a, w1)"
    and rest: "(if lock_threshold \<le> la_failure_count a
         then set_locked_until key (Some (clock w + lock_window (la_failure_count a))) else ok ()) w1 = (Inr x, w')"
    using assms(1) by (auto simp: note_failure_def act_simps)
  have n: "la_failure_count a = la_failure_count b + 1"
    using attempt_after_failure(3) [OF a] assms(2) by simp
  then have "set_locked_until key (Some (clock w + lock_window (la_failure_count b + 1))) w1 = (Inr x, w')"
    using rest assms(3) by (simp add: lock_threshold_def)
  from set_locked_until_Inr [OF this] attempt_after_failure(1,4) [OF a] show ?thesis by simp
qed

definition four_failures :: db where
  "four_failures = toy_db\<lparr>t_login_attempts := [\<lparr>la_key = ''a@x|'', la_failure_count = 4, la_first_failed_at = 1,
     la_last_failed_at = 2, la_locked_until = None\<rparr>]\<rparr>"

section \<open>Access tokens\<close>

lemma insert_access_token_Inr:
  assumes "insert_access_token i uid name h rscope tscope w = (Inr created, w')"
  shows "t_access_tokens (tables w') = t_access_tokens (tables w) @
      [\<lparr>at_id = i, at_user_id = uid, at_name = name, at_token_hash = h, at_repository_scope = rscope,
        at_token_scope = tscope, at_created_at = created, at_last_used_at = None\<rparr>]"
    "\<forall>r\<in>set (t_access_tokens (tables w)). at_token_hash r \<noteq> h"
  using assms
  by (auto simp: insert_access_token_def and_then_def now_unix_def sql_def Let_def list_ex_iff split: if_splits sum.splits)

lemma create_scoped_Inr:
  assumes "create_scoped env uid name scope w = (Inr (raw, t), w')"
  shows "starts_with raw token_prefix" "at_user_id t = uid" "at_token_hash t = hash_token env raw"
    "at_token_scope t = scope" "at_repository_scope t = ScopeAll"
    "t_access_tokens (tables w') = t_access_tokens (tables w) @ [t]"
    "\<forall>r\<in>set (t_access_tokens (tables w)). at_token_hash r \<noteq> hash_token env raw"
proof -
  obtain r w1 where g: "(generate_raw_token env :: (token_error, string) act) w = (Inr r, w1)" "raw = token_prefix @ r"
    and ins: "insert_access_token (next_uuid w1) uid (trim name) (hash_token env raw) ScopeAll scope
       (w1\<lparr>next_uuid := Suc (next_uuid w1)\<rparr>) = (Inr (at_created_at t), w')"
    and t: "t = \<lparr>at_id = next_uuid w1, at_user_id = uid, at_name = trim name, at_token_hash = hash_token env raw,
       at_repository_scope = ScopeAll, at_token_scope = scope, at_created_at = at_created_at t, at_last_used_at = None\<rparr>"
    using assms
    by (auto simp: create_scoped_def generate_access_token_def act_simps split: if_splits)
  show "starts_with raw token_prefix" by (simp add: g starts_with_def)
  show "at_user_id t = uid" "at_token_hash t = hash_token env raw" "at_token_scope t = scope" "at_repository_scope t = ScopeAll"
    by (subst t, simp)+
  have w1: "tables w1 = tables w" using g(1) by (simp add: generate_raw_token_Inr)
  show "t_access_tokens (tables w') = t_access_tokens (tables w) @ [t]"
    "\<forall>r\<in>set (t_access_tokens (tables w)). at_token_hash r \<noteq> hash_token env raw"
    using insert_access_token_Inr [OF ins] t w1 by simp_all
qed

lemma token_authenticate_no_fault:
  assumes "statement_fails w = []" "starts_with raw token_prefix"
  shows "fst (token_authenticate env raw w) = Inr (case token_owner (hash_token env raw) (tables w) of
      Some (u, r, t) \<Rightarrow> if user_disabled_at u = None then Some (u, r, t) else None | None \<Rightarrow> None)"
  using assms
  by (auto simp: token_authenticate_def find_token_by_hash_def run_simps require_enabled_def split: option.splits prod.splits)

text \<open>A created access token authenticates as its enabled user, with every repository in reach and the
  chosen scope, until it is revoked; from then on the same text authenticates as nobody.\<close>

theorem access_token_roundtrip:
  assumes "create_scoped env uid name scope w = (Inr (raw, t), w')"
    and "user_by_id uid (tables w') = Some u" "user_disabled_at u = None" "statement_fails w' = []"
  shows "fst (token_authenticate env raw w') = Inr (Some (u, ScopeAll, scope))
    \<and> fst (token_authenticate env raw (snd (token_revoke uid (at_id t) w'))) = Inr None"
proof -
  note c = create_scoped_Inr [OF assms(1)]
  have ex: "user_exists uid (tables w')"
    using assms(2) by (auto simp: user_exists_def user_by_id_def list_ex_iff find_Some_iff)
  have none: "find (\<lambda>r. at_token_hash r = hash_token env raw \<and> user_exists (at_user_id r) d) rows = None"
    if "\<forall>r\<in>set rows. at_token_hash r \<noteq> hash_token env raw" for rows d
    using that by (auto simp: find_None_iff)
  have find_append: "find P (xs @ ys) = (case find P xs of None \<Rightarrow> find P ys | Some x \<Rightarrow> Some x)"
    for P and xs ys :: "access_token list"
    by (induction xs) auto
  have "token_owner (hash_token env raw) (tables w') = Some (u, ScopeAll, scope)"
    using c ex assms(2) by (simp add: token_owner_def find_append none)
  then have 1: "fst (token_authenticate env raw w') = Inr (Some (u, ScopeAll, scope))"
    using assms(3) by (simp add: token_authenticate_no_fault [OF assms(4) c(1)])
  let ?w = "snd (token_revoke uid (at_id t) w')"
  have w: "tables ?w = (tables w')\<lparr>t_access_tokens := delete_where (\<lambda>r. at_id r = at_id t \<and> at_user_id r = uid) (t_access_tokens (tables w'))\<rparr>"
    "statement_fails ?w = []"
    using assms(4) by (simp_all add: token_revoke_def revoke_access_token_def Let_def map_err_def sql_no_fault)
  have "\<forall>r\<in>set (t_access_tokens (tables ?w)). at_token_hash r \<noteq> hash_token env raw"
    using c by (auto simp: w)
  then have "token_owner (hash_token env raw) (tables ?w) = None"
    by (simp add: token_owner_def none)
  then have "fst (token_authenticate env raw ?w) = Inr None"
    by (simp add: token_authenticate_no_fault [OF w(2) c(1)])
  with 1 show ?thesis by simp
qed

lemma returned_pair: "(case fst p of Inr _ \<Rightarrow> True | Inl _ \<Rightarrow> False) \<Longrightarrow> \<exists>x y. p = (Inr (x, y), snd p)"
  by (cases p; cases "fst p") auto

theorem access_token_roundtrip_witness:
  "\<exists>raw w'. fst (token_authenticate toy_env raw w') = Inr (Some (toy_user, ScopeAll, TSRepoRead))"
proof -
  let ?r = "create_scoped toy_env 65 ''ci'' TSRepoRead (world_of toy_db [])"
  have a: "case fst ?r of Inr _ \<Rightarrow> True | Inl _ \<Rightarrow> False" by code_simp
  have b: "statement_fails (snd ?r) = []" by code_simp
  have c: "user_by_id 65 (tables (snd ?r)) = Some toy_user" by code_simp
  have d: "user_disabled_at toy_user = None"
    by code_simp
  obtain raw t where "?r = (Inr (raw, t), snd ?r)"
    using returned_pair [OF a] by blast
  note created = this
  have "fst (token_authenticate toy_env raw (snd ?r)) = Inr (Some (toy_user, ScopeAll, TSRepoRead))"
    by (rule access_token_roundtrip [OF created, THEN conjunct1]) (fact b c d)+
  then show ?thesis by blast
qed

section \<open>Disabled accounts\<close>

text \<open>No path of the sign-in layer gives a disabled account anything: not the password login, not either
  second step, not an access token, and no reset link is made out for it.\<close>

theorem disabled_account_gets_nothing:
  assumes "user_disabled_at u \<noteq> None"
  shows "fst (login env ip email password w) \<noteq> Inr (SignedIn u)
    \<and> fst (login_totp env tok submitted w) \<noteq> Inr (SignedIn u)
    \<and> fst (login_verify env lib config tok state_token response w) \<noteq> Inr (SignedIn u)
    \<and> fst (token_authenticate env raw w :: (db_error + (user \<times> repository_scope \<times> token_scope) option) \<times> world) \<noteq> Inr (Some (u, rscope, tscope))
    \<and> fst (reset_request env email w) \<noteq> Inr (Some (u, raw'))"
proof (intro conjI notI)
  assume "fst (login env ip email password w) = Inr (SignedIn u)"
  then obtain w' where "login env ip email password w = (Inr (SignedIn u), w')" by (metis prod.collapse)
  from login_Inr [OF this] assms show False by (auto simp: password_ok_def)
next
  assume "fst (login_totp env tok submitted w) = Inr (SignedIn u)"
  then obtain w' where "login_totp env tok submitted w = (Inr (SignedIn u), w')" by (metis prod.collapse)
  from login_totp_Inr [OF this] assms show False by auto
next
  assume "fst (login_verify env lib config tok state_token response w) = Inr (SignedIn u)"
  then obtain w' where "login_verify env lib config tok state_token response w = (Inr (SignedIn u), w')" by (metis prod.collapse)
  from login_verify_Inr [OF this] assms show False by auto
next
  assume "fst (token_authenticate env raw w :: (db_error + (user \<times> repository_scope \<times> token_scope) option) \<times> world) = Inr (Some (u, rscope, tscope))"
  then show False using assms
    by (auto simp: token_authenticate_def and_then_def outcome_def ok_def require_enabled_def
        split: if_splits sum.splits option.splits prod.splits)
next
  assume "fst (reset_request env email w) = Inr (Some (u, raw'))"
  then obtain w' where "reset_request env email w = (Inr (Some (u, raw')), w')" by (metis prod.collapse)
  from reset_request_Inr [OF this] assms show False by auto
qed

theorem disabled_account_gets_nothing_witness:
  "fst (login toy_env ''ip'' ''a@x'' ''pw'' (world_of (toy_db\<lparr>t_users := [toy_user\<lparr>user_disabled_at := Some 9\<rparr>]\<rparr>) []))
     \<noteq> Inr (SignedIn (toy_user\<lparr>user_disabled_at := Some 9\<rparr>))"
  using disabled_account_gets_nothing [of "toy_user\<lparr>user_disabled_at := Some 9\<rparr>"] by simp

section \<open>Where the layer gives less than it says\<close>

lemma upsert_totp_inactive:
  "find (\<lambda>r. ts_user_id r = uid) (upsert_totp_row uid c rows) = Some r \<Longrightarrow> ts_activated_at r = None"
proof -
  assume "find (\<lambda>r. ts_user_id r = uid) (upsert_totp_row uid c rows) = Some r"
  then have r: "r \<in> set (upsert_totp_row uid c rows)" "ts_user_id r = uid"
    by (auto simp: find_Some_iff)
  show ?thesis
  proof (cases "list_ex (\<lambda>r. ts_user_id r = uid) rows")
    case True
    then have "r \<in> set (update_where (\<lambda>r. ts_user_id r = uid) (\<lambda>r. r\<lparr>ts_ciphertext := c, ts_activated_at := None\<rparr>) rows)"
      using r(1) by (simp add: upsert_totp_row_def)
    then show ?thesis by (rule in_update_whereE) (use r(2) in simp_all)
  next
    case False
    then show ?thesis using r by (auto simp: upsert_totp_row_def list_ex_iff) (metis totp_secret.select_convs(3))
  qed
qed

lemma totp_enroll_Inr:
  assumes "totp_enroll env uid w = (Inr s, w')"
  shows "\<exists>c. tables w' = (tables w)\<lparr>t_totp := upsert_totp_row uid c (t_totp (tables w))\<rparr>" "clock w' = clock w"
proof -
  obtain c where "upsert_totp_secret uid c (w\<lparr>next_uuid := Suc (Suc (next_uuid w))\<rparr>) = (Inr (), w')"
    using assms by (auto simp: totp_enroll_def act_simps box_def Let_def split: sum.splits)
  then show "\<exists>c. tables w' = (tables w)\<lparr>t_totp := upsert_totp_row uid c (t_totp (tables w))\<rparr>" "clock w' = clock w"
    by (auto simp: upsert_totp_secret_def sql_def Let_def split: if_splits)
qed

text \<open>Starting an enrollment on an account whose one-time password is active turns it off at once, before
  any code is shown to be valid: from then on the password alone signs in (the account has no passkey).\<close>

theorem enrolling_turns_off_second_factor:
  assumes "totp_enroll env (user_id u) w = (Inr s, w')" "statement_fails w' = []"
    and "password_ok env email password (tables w) u" "passkeys_of (user_id u) (tables w) = []"
    and "\<forall>st. account_status_of (user_id u) (tables w) = Some st \<longrightarrow> is_approved st \<and> \<not> is_disabled st"
    and "\<not> locked (attempt_key env email []) w" "\<not> locked (attempt_key env email ip) w"
  shows "\<exists>w''. login env ip email password w' = (Inr (SignedIn u), w'')"
proof -
  obtain c where t: "tables w' = (tables w)\<lparr>t_totp := upsert_totp_row (user_id u) c (t_totp (tables w))\<rparr>"
    using totp_enroll_Inr(1) [OF assms(1)] by blast
  have "\<not> has_second_factor (user_id u) (tables w')"
    using assms(4) by (auto simp: has_second_factor_def totp_of_def passkeys_of_def t dest: upsert_totp_inactive)
  moreover have "password_ok env email password (tables w') u"
    using assms(3) by (simp add: password_ok_def user_by_email_def account_of_def t)
  moreover have "account_status_of (user_id u) (tables w') = account_status_of (user_id u) (tables w)"
    by (simp add: account_status_of_def user_by_id_def account_of_def t)
  moreover have "locked k w' = locked k w" for k
    unfolding locked_def attempt_of_def t totp_enroll_Inr(2) [OF assms(1)] by simp
  ultimately show ?thesis
    using assms by (intro login_no_fault) auto
qed

theorem enrolling_turns_off_second_factor_witness:
  "has_second_factor 65 (with_totp toy_db)
   \<and> (\<exists>w''. login toy_env [] ''a@x'' ''pw'' (snd (totp_enroll toy_env 65 (world_of (with_totp toy_db) []))) = (Inr (SignedIn toy_user), w''))"
proof
  show "has_second_factor 65 (with_totp toy_db)"
    by (simp add: has_second_factor_def totp_of_def with_totp_def)
  let ?w = "world_of (with_totp toy_db) []"
  have e: "case fst (totp_enroll toy_env 65 ?w) of Inr _ \<Rightarrow> True | Inl _ \<Rightarrow> False" by code_simp
  have f: "statement_fails (snd (totp_enroll toy_env 65 ?w)) = []" by code_simp
  obtain s where s: "totp_enroll toy_env (user_id toy_user) ?w = (Inr s, snd (totp_enroll toy_env 65 ?w))"
    using e by (cases "totp_enroll toy_env 65 ?w"; cases "fst (totp_enroll toy_env 65 ?w)") (auto simp: toy_user_def)
  have k: "passkeys_of (user_id toy_user) (tables ?w) = []" "\<not> locked (attempt_key toy_env ''a@x'' []) ?w"
    by (simp_all add: passkeys_of_def world_of_def with_totp_def toy_db_def empty_db_def locked_def attempt_of_def)
  have p: "password_ok toy_env ''a@x'' ''pw'' (tables ?w) toy_user"
  proof -
    have "user_by_email ''a@x'' (tables ?w) = Some toy_user" by code_simp
    moreover have "account_of 65 (tables ?w) = Some \<lparr>acct_user_id = 65, acct_password_hash = ''hpw'', acct_approved_at = Some 1, acct_email_verified_at = Some 1\<rparr>"
      by code_simp
    ultimately show ?thesis by (simp add: password_ok_def toy_user_def toy_env_def)
  qed
  have a: "account_status_of (user_id toy_user) (tables ?w) = Some \<lparr>st_disabled_at = None, st_email_verified_at = Some 1, st_approved_at = Some 1\<rparr>"
    by code_simp
  show "\<exists>w''. login toy_env [] ''a@x'' ''pw'' (snd (totp_enroll toy_env 65 ?w)) = (Inr (SignedIn toy_user), w'')"
    by (rule enrolling_turns_off_second_factor [OF s f p k(1) _ k(2) k(2)]) (use a in \<open>simp add: is_approved_def is_disabled_def\<close>)
qed

definition approval_policy :: registration_policy where
  "approval_policy = \<lparr>policy_mode = RegApproval, allowed_email_domains = [], require_email_verification = True\<rparr>"

definition signed_up :: "bool list \<Rightarrow> (db_error + reply) \<times> world" where
  "signed_up fs = signup_handler toy_env approval_policy ''https://h'' ''bob'' ''b@x'' ''pw'' (world_of empty_db fs)"

definition signs_in :: "(db_error + reply) \<Rightarrow> bool" where
  "signs_in r = (case r of Inr (SignedIn u) \<Rightarrow> user_username u = ''bob'' | _ \<Rightarrow> False)"

text \<open>On an instance that approves registrations, a signup whose second statement fails answers with an
  error but leaves the account behind with the column defaults, approved and verified: it signs in at
  once. The very same signup without the failure is left waiting and is refused.\<close>

theorem failed_signup_is_approved:
  "fst (signed_up []) = Inr AwaitingApproval
   \<and> fst (login toy_env [] ''b@x'' ''pw'' (snd (signed_up []))) = Inr (Refused 403 (account_status_text PendingApproval))
   \<and> fst (signed_up (fail_nth 2)) = Inr (Failed 400)
   \<and> signs_in (fst (login toy_env [] ''b@x'' ''pw'' (snd (signed_up (fail_nth 2)))))"
  by (intro conjI) code_simp+

text \<open>Without a configured key the ceremony tokens and the pending-login tokens are signed with the same
  secret, and a pending-login token carries nothing that a ceremony token lacks.\<close>

lemma ceremony_token_is_pending_login:
  assumes "key_ring env = None" "0 \<le> now" "now + 120 < 2 ^ 64"
    and "jwt_decode env (process_random env) t tok = Some (ceremony_claims (uuid_text env uid) challenge purpose (now + ceremony_ttl))"
  shows "pending_verify env t tok = Some (uuid_text env uid)"
  using assms
  by (simp add: pending_verify_def signing_secret_def derive_def primary_key_bytes_def ceremony_claims_def
      read_pending_claims_def ceremony_ttl_def)

end
