(* ===== verification/Git_Objects.thy ===== *)
theory Git_Objects
  imports Access_Services
begin

text \<open>
  A repository's objects as the git layer reads them through the \<^verbatim>\<open>gix\<close> library, and the graph they
  form. The library's decoding is part of the data: an object is its kind, its raw bytes, and what
  the library makes of them, so \<^verbatim>\<open>CommitRef::from_bytes\<close> and its relatives are constructor matches and
  \<^verbatim>\<open>Broken_obj\<close> is an object whose bytes the library refuses. Object ids are a type variable. A
  database is a finite list of identified objects, searched from the front.

  The second half is what every walk over the graph in this code rests on: \<^verbatim>\<open>closed_up\<close> is the
  invariant of a worklist, and a worklist that has run dry has seen everything reachable.
\<close>

section \<open>Objects\<close>

datatype obj_kind = KCommit | KTree | KBlob | KTag

text \<open>A commit has its tree, its parents, the names of its extra headers and its committer's date (or
  the error of reading it); a broken object keeps what the library's lazy iterator over the parent
  lines yields. A tree entry of kind \<^verbatim>\<open>EntryCommit\<close> is a submodule: a commit of another repository.\<close>

datatype entry_kind = EntryTree | EntryBlob | EntryBlobExecutable | EntryLink | EntryCommit

datatype 'o git_object =
    Commit_obj string 'o "'o list" "string list" "string + int"
  | Tree_obj string "(entry_kind \<times> 'o) list"
  | Blob_obj string
  | Tag_obj string 'o
  | Broken_obj obj_kind string string "'o list"

fun object_kind :: "'o git_object \<Rightarrow> obj_kind" where
  "object_kind (Commit_obj _ _ _ _ _) = KCommit"
| "object_kind (Tree_obj _ _) = KTree"
| "object_kind (Blob_obj _) = KBlob"
| "object_kind (Tag_obj _ _) = KTag"
| "object_kind (Broken_obj k _ _ _) = k"

fun object_data :: "'o git_object \<Rightarrow> string" where
  "object_data (Commit_obj d _ _ _ _) = d"
| "object_data (Tree_obj d _) = d"
| "object_data (Blob_obj d) = d"
| "object_data (Tag_obj d _) = d"
| "object_data (Broken_obj _ d _ _) = d"

text \<open>What an object refers to, in the order the walks take it; blobs are never decoded.\<close>

fun object_links :: "'o git_object \<Rightarrow> git_error + 'o list" where
  "object_links (Commit_obj _ tree parents _ _) = Inr (tree # parents)"
| "object_links (Tree_obj _ entries) = Inr (map snd entries)"
| "object_links (Tag_obj _ target) = Inr [target]"
| "object_links (Blob_obj _) = Inr []"
| "object_links (Broken_obj k _ e _) = (if k = KBlob then Inr [] else Inl (GitGit e))"

type_synonym 'o odb = "('o \<times> 'o git_object) list"

definition find_object :: "'o odb \<Rightarrow> 'o \<Rightarrow> 'o git_object option" where
  "find_object db = map_of db"

text \<open>Messages that only the library words are not told apart.\<close>

definition missing_object :: git_error where
  "missing_object = GitGit ''object not found''"

section \<open>The graph\<close>

definition links_of :: "'o odb \<Rightarrow> 'o \<Rightarrow> 'o list" where
  "links_of db x =
     (case find_object db x of
        None \<Rightarrow> []
      | Some ob \<Rightarrow> (case object_links ob of Inl _ \<Rightarrow> [] | Inr ls \<Rightarrow> ls))"

definition reachable_from :: "('o \<Rightarrow> 'o list) \<Rightarrow> 'o set \<Rightarrow> 'o set" where
  "reachable_from succ tips = {y. \<exists>x\<in>tips. (\<lambda>x y. y \<in> set (succ x))\<^sup>*\<^sup>* x y}"

definition object_closure :: "'o odb \<Rightarrow> 'o list \<Rightarrow> 'o set" where
  "object_closure db tips = reachable_from (links_of db) (set tips)"

lemma reachable_tip [intro]: "x \<in> tips \<Longrightarrow> x \<in> reachable_from succ tips"
  by (auto simp: reachable_from_def)

lemma reachable_step [intro]:
  "x \<in> reachable_from succ tips \<Longrightarrow> y \<in> set (succ x) \<Longrightarrow> y \<in> reachable_from succ tips"
  by (auto simp: reachable_from_def intro: rtranclp.rtrancl_into_rtrancl)

lemma reachable_induct [consumes 1, case_names tip step]:
  assumes "y \<in> reachable_from succ tips"
    and "\<And>x. x \<in> tips \<Longrightarrow> P x"
    and "\<And>x y. x \<in> reachable_from succ tips \<Longrightarrow> P x \<Longrightarrow> y \<in> set (succ x) \<Longrightarrow> P y"
  shows "P y"
proof -
  obtain x where x: "x \<in> tips" "(\<lambda>x y. y \<in> set (succ x))\<^sup>*\<^sup>* x y"
    using assms(1) by (auto simp: reachable_from_def)
  have "P y \<and> y \<in> reachable_from succ tips"
    using x(2)
  proof (induction rule: rtranclp_induct)
    case base
    then show ?case using x(1) assms(2) by blast
  next
    case (step y z)
    then show ?case using assms(3) by blast
  qed
  then show ?thesis ..
qed

lemma reachable_least:
  assumes "tips \<subseteq> S" "\<And>x. x \<in> S \<Longrightarrow> set (succ x) \<subseteq> S"
  shows "reachable_from succ tips \<subseteq> S"
proof
  fix y assume "y \<in> reachable_from succ tips"
  then show "y \<in> S" by (induction rule: reachable_induct) (use assms in blast)+
qed

lemma reachable_mono: "tips \<subseteq> tips' \<Longrightarrow> reachable_from succ tips \<subseteq> reachable_from succ tips'"
  by (auto simp: reachable_from_def)

lemma reachable_Un: "reachable_from succ (A \<union> B) = reachable_from succ A \<union> reachable_from succ B"
  by (auto simp: reachable_from_def)

lemma reachable_insert:
  "reachable_from succ (insert x A) = insert x (reachable_from succ (set (succ x)) \<union> reachable_from succ A)"
proof
  show "reachable_from succ (insert x A) \<subseteq> insert x (reachable_from succ (set (succ x)) \<union> reachable_from succ A)"
    by (rule reachable_least) auto
  show "insert x (reachable_from succ (set (succ x)) \<union> reachable_from succ A) \<subseteq> reachable_from succ (insert x A)"
  proof -
    have "reachable_from succ (set (succ x)) \<subseteq> reachable_from succ (insert x A)"
      by (rule reachable_least) auto
    then show ?thesis using reachable_mono [of A "insert x A" succ] by auto
  qed
qed

lemma reachable_trans:
  "x \<in> reachable_from succ tips \<Longrightarrow> reachable_from succ {x} \<subseteq> reachable_from succ tips"
  by (rule reachable_least) auto

section \<open>Worklists\<close>

text \<open>Everything a seen node refers to is seen, waiting, or in the barrier the walk does not cross.\<close>

definition closed_up :: "('o \<Rightarrow> 'o list) \<Rightarrow> 'o set \<Rightarrow> 'o set \<Rightarrow> 'o list \<Rightarrow> bool" where
  "closed_up succ barrier seen queue \<longleftrightarrow>
     (\<forall>x\<in>seen. set (succ x) \<subseteq> barrier \<union> seen \<union> set queue)"

lemma closed_up_start [simp]: "closed_up succ barrier {} queue"
  by (simp add: closed_up_def)

lemma closed_up_skip:
  "closed_up succ barrier seen (x # queue) \<Longrightarrow> x \<in> barrier \<union> seen \<Longrightarrow> closed_up succ barrier seen queue"
  by (auto simp: closed_up_def)

lemma closed_up_expand:
  "closed_up succ barrier seen (x # queue) \<Longrightarrow> set (succ x) \<union> set queue \<subseteq> set queue' \<Longrightarrow>
   closed_up succ barrier (insert x seen) queue'"
  unfolding closed_up_def by (simp add: subset_iff) blast

text \<open>A walk that has run dry.\<close>

lemma closed_up_covers:
  assumes "closed_up succ barrier seen []" "tips \<subseteq> barrier \<union> seen"
  shows "reachable_from succ tips \<subseteq> seen \<union> reachable_from succ barrier"
  by (rule reachable_least) (use assms in \<open>auto simp: closed_up_def\<close>)

text \<open>How many objects of the database a walk has yet to see.\<close>

definition unseen :: "'o odb \<Rightarrow> 'o list \<Rightarrow> nat" where
  "unseen db seen = length (filter (\<lambda>i. i \<notin> set seen) (map fst db))"

lemma unseen_le: "unseen db (x # seen) \<le> unseen db seen"
  by (induction db) (auto simp: unseen_def)

lemma unseen_less:
  assumes "find_object db x = Some ob" "x \<notin> set seen"
  shows "unseen db (x # seen) < unseen db seen"
  using assms
proof (induction db)
  case (Cons p db)
  show ?case
  proof (cases "fst p = x")
    case True
    then show ?thesis using Cons.prems unseen_le [of db x seen] by (simp add: unseen_def)
  next
    case False
    then show ?thesis using Cons by (auto simp: unseen_def find_object_def)
  qed
qed (simp add: find_object_def)

end
