(* ===== verification/History.thy ===== *)
theory History
  imports Git_Objects Wire
begin

text \<open>
  What a pushed update adds to a branch (\<^verbatim>\<open>edda-git/src/history.rs\<close>), and the checks of the shape of
  history that rest on it (\<^verbatim>\<open>history_rejection\<close> of \<^verbatim>\<open>hooks.rs\<close>). The code's walks take the last
  element of a vector; here the head of a list is that last element. Every walk is bounded, so it is
  a total function with the bound as an argument.
\<close>

section \<open>The commit graph\<close>

definition max_walk :: int where
  "max_walk = 4000"

definition commit_parents :: "'o odb \<Rightarrow> 'o \<Rightarrow> 'o list option" where
  "commit_parents db x =
     (case find_object db x of
        Some (Commit_obj _ _ parents _ _) \<Rightarrow> Some parents
      | Some (Broken_obj k _ _ lazy_parents) \<Rightarrow> if k = KCommit then Some lazy_parents else None
      | _ \<Rightarrow> None)"

definition parent_list :: "'o odb \<Rightarrow> 'o \<Rightarrow> 'o list" where
  "parent_list db x = (case commit_parents db x of None \<Rightarrow> [] | Some parents \<Rightarrow> parents)"

definition is_merge_commit :: "'o odb \<Rightarrow> 'o \<Rightarrow> bool" where
  "is_merge_commit db x =
     (case commit_parents db x of None \<Rightarrow> False | Some parents \<Rightarrow> 1 < length parents)"

text \<open>Only a commit's bytes read as a commit.\<close>

definition commit_is_signed :: "'o odb \<Rightarrow> 'o \<Rightarrow> bool" where
  "commit_is_signed db x =
     (case find_object db x of
        Some (Commit_obj _ _ _ headers _) \<Rightarrow> list_ex (\<lambda>n. n = ''gpgsig'' \<or> n = ''gpgsig-sha256'') headers
      | _ \<Rightarrow> False)"

section \<open>Walks\<close>

function boundary_walk :: "int \<Rightarrow> 'o odb \<Rightarrow> 'o list \<Rightarrow> 'o list \<Rightarrow> 'o list" where
  "boundary_walk limit db boundary [] = boundary"
| "boundary_walk limit db boundary (x # stack) =
     (if limit \<le> int (length boundary) then boundary
      else if x \<in> set boundary then boundary_walk limit db boundary stack
      else boundary_walk limit db (x # boundary) (rev (parent_list db x) @ stack))"
  by pat_completeness auto
termination
  by (relation "measures [\<lambda>(limit, db, boundary, stack). nat (limit - int (length boundary)),
      \<lambda>(limit, db, boundary, stack). length stack]") auto

text \<open>The commits gathered are the ones seen; the flag tells whether the walk was cut short.\<close>

function added_walk :: "int \<Rightarrow> 'o odb \<Rightarrow> 'o list \<Rightarrow> 'o list \<Rightarrow> 'o list \<Rightarrow> 'o list \<times> bool" where
  "added_walk limit db boundary commits [] = (commits, False)"
| "added_walk limit db boundary commits (x # stack) =
     (if x \<in> set boundary \<or> x \<in> set commits then added_walk limit db boundary commits stack
      else if limit \<le> int (length commits) then (commits, True)
      else added_walk limit db boundary (commits @ [x]) (rev (parent_list db x) @ stack))"
  by pat_completeness auto
termination
  by (relation "measures [\<lambda>(limit, db, boundary, commits, stack). nat (limit - int (length commits)),
      \<lambda>(limit, db, boundary, commits, stack). length stack]") auto

function ancestor_walk :: "int \<Rightarrow> 'o odb \<Rightarrow> 'o \<Rightarrow> int \<Rightarrow> 'o list \<Rightarrow> 'o list \<Rightarrow> bool" where
  "ancestor_walk limit db ancestor steps seen [] = False"
| "ancestor_walk limit db ancestor steps seen (x # stack) =
     (if limit < steps + 1 then False
      else if x \<in> set seen then ancestor_walk limit db ancestor (steps + 1) seen stack
      else if x = ancestor then True
      else ancestor_walk limit db ancestor (steps + 1) (x # seen) (rev (parent_list db x) @ stack))"
  by pat_completeness auto
termination
  by (relation "measure (\<lambda>(limit, db, ancestor, steps, seen, stack). nat (limit - steps))") auto

definition is_ancestor :: "'o odb \<Rightarrow> 'o \<Rightarrow> 'o \<Rightarrow> bool" where
  "is_ancestor db ancestor descendant =
     (if ancestor = descendant then True
      else ancestor_walk max_walk db ancestor 0 [] [descendant])"

record 'o added_commits =
  ac_commits :: "'o list"
  ac_fast_forward :: bool
  ac_truncated :: bool

definition parse_oid :: "(string \<Rightarrow> 'o option) \<Rightarrow> string \<Rightarrow> git_error + 'o" where
  "parse_oid from_hex hex =
     (case from_hex hex of
        None \<Rightarrow> Inl (GitGit (''not a valid object id: '' @ hex))
      | Some x \<Rightarrow> Inr x)"

definition parse_old :: "(string \<Rightarrow> 'o option) \<Rightarrow> string \<Rightarrow> git_error + 'o option" where
  "parse_old from_hex hex =
     (if hex = [] \<or> list_all (\<lambda>c. c = CHR ''0'') hex then Inr None
      else case parse_oid from_hex hex of Inl e \<Rightarrow> Inl e | Inr x \<Rightarrow> Inr (Some x))"

definition added_commits ::
  "(string \<Rightarrow> 'o option) \<Rightarrow> 'o odb \<Rightarrow> string \<Rightarrow> string \<Rightarrow> git_error + 'o added_commits" where
  "added_commits from_hex db old_hex new_hex =
     (case parse_oid from_hex new_hex of
        Inl e \<Rightarrow> Inl e
      | Inr new \<Rightarrow>
          (case parse_old from_hex old_hex of
             Inl e \<Rightarrow> Inl e
           | Inr old \<Rightarrow>
               (let boundary = (case old of None \<Rightarrow> [] | Some old \<Rightarrow> boundary_walk max_walk db [] [old]) in
                case added_walk max_walk db boundary [] [new] of
                  (commits, truncated) \<Rightarrow>
                    Inr \<lparr>ac_commits = commits,
                         ac_fast_forward = (case old of None \<Rightarrow> True | Some old \<Rightarrow> is_ancestor db old new),
                         ac_truncated = truncated\<rparr>)))"

section \<open>The checks\<close>

definition zero_id :: string where
  "zero_id = replicate 40 (CHR ''0'')"

definition em_dash :: string where
  "em_dash = map char_of [226, 128, 148 :: nat]"

definition non_fast_forward_message :: "string \<Rightarrow> string" where
  "non_fast_forward_message ref_name = ref_name @ '': non-fast-forward push to a linear-history branch''"

definition merge_commit_message :: "string \<Rightarrow> string \<Rightarrow> string" where
  "merge_commit_message ref_name hex =
     ref_name @ '': merge commit '' @ hex @ '' '' @ em_dash @ '' this branch requires a linear history''"

definition unsigned_message :: "string \<Rightarrow> string \<Rightarrow> string" where
  "unsigned_message ref_name hex =
     ref_name @ '': commit '' @ hex @ '' is unsigned '' @ em_dash @ '' this branch requires signed commits''"

definition linear_rejection ::
  "('o \<Rightarrow> string) \<Rightarrow> 'o odb \<Rightarrow> string \<Rightarrow> 'o added_commits \<Rightarrow> string option" where
  "linear_rejection to_hex_id db ref_name added =
     (if \<not> ac_fast_forward added then Some (non_fast_forward_message ref_name)
      else if ac_truncated added then None
      else map_option (\<lambda>x. merge_commit_message ref_name (to_hex_id x))
             (find (is_merge_commit db) (ac_commits added)))"

definition signed_rejection ::
  "('o \<Rightarrow> string) \<Rightarrow> 'o odb \<Rightarrow> string \<Rightarrow> 'o added_commits \<Rightarrow> string option" where
  "signed_rejection to_hex_id db ref_name added =
     (if ac_truncated added then None
      else map_option (\<lambda>x. unsigned_message ref_name (to_hex_id x))
             (find (\<lambda>x. \<not> commit_is_signed db x) (ac_commits added)))"

definition command_rejection ::
  "(string \<Rightarrow> 'o option) \<Rightarrow> ('o \<Rightarrow> string) \<Rightarrow> 'o odb \<Rightarrow> receive_checks \<Rightarrow> ref_command \<Rightarrow> string option" where
  "command_rejection from_hex to_hex_id db checks c =
     (let needs_linear = any_pattern_matches (linear_history_ref_patterns checks) (cmd_ref_name c);
          needs_signed = any_pattern_matches (signed_commit_ref_patterns checks) (cmd_ref_name c)
      in if new_oid c = zero_id \<or> \<not> needs_linear \<and> \<not> needs_signed then None
         else case added_commits from_hex db (old_oid c) (new_oid c) of
                Inl _ \<Rightarrow> None
              | Inr added \<Rightarrow>
                  (case (if needs_linear then linear_rejection to_hex_id db (cmd_ref_name c) added else None) of
                     Some reason \<Rightarrow> Some reason
                   | None \<Rightarrow> if needs_signed then signed_rejection to_hex_id db (cmd_ref_name c) added else None))"

fun history_rejection ::
  "(string \<Rightarrow> 'o option) \<Rightarrow> ('o \<Rightarrow> string) \<Rightarrow> 'o odb \<Rightarrow> receive_checks \<Rightarrow> ref_command list \<Rightarrow> string option" where
  "history_rejection from_hex to_hex_id db checks [] = None"
| "history_rejection from_hex to_hex_id db checks (c # cs) =
     (case command_rejection from_hex to_hex_id db checks c of
        Some reason \<Rightarrow> Some reason
      | None \<Rightarrow> history_rejection from_hex to_hex_id db checks cs)"

section \<open>What the walks find\<close>

definition ancestors :: "'o odb \<Rightarrow> 'o \<Rightarrow> 'o set" where
  "ancestors db x = reachable_from (parent_list db) {x}"

lemma reachable_stack:
  "reachable_from succ (set (x # stack)) =
     insert x (reachable_from succ (set (rev (succ x) @ stack)))"
  by (simp add: reachable_insert reachable_Un)

lemma boundary_walk_sound:
  "set (boundary_walk limit db boundary stack)
     \<subseteq> set boundary \<union> reachable_from (parent_list db) (set stack)"
proof (induction limit db boundary stack rule: boundary_walk.induct)
  case (2 limit db boundary x stack)
  show ?case
  proof (cases "limit \<le> int (length boundary)")
    case False
    then show ?thesis
      using 2 reachable_stack [of "parent_list db" x stack]
        reachable_mono [OF set_subset_Cons, of "parent_list db" stack x]
      by (cases "x \<in> set boundary") auto
  qed simp
qed simp

lemma boundary_walk_complete:
  assumes "int (length (boundary_walk limit db boundary stack)) < limit"
    and "closed_up (parent_list db) {} (set boundary) stack"
  shows "set boundary \<union> set stack \<subseteq> set (boundary_walk limit db boundary stack)
    \<and> closed_up (parent_list db) {} (set (boundary_walk limit db boundary stack)) []"
  using assms
proof (induction limit db boundary stack rule: boundary_walk.induct)
  case (2 limit db boundary x stack)
  have l: "\<not> limit \<le> int (length boundary)" using "2.prems"(1) by auto
  show ?case
  proof (cases "x \<in> set boundary")
    case True
    then show ?thesis using "2.IH"(1) [OF l True] "2.prems" l by (auto dest: closed_up_skip)
  next
    case False
    have "closed_up (parent_list db) {} (set (x # boundary)) (rev (parent_list db x) @ stack)"
      using closed_up_expand [OF "2.prems"(2)] by simp
    then show ?thesis using "2.IH"(2) [OF l False] "2.prems"(1) l False by auto
  qed
qed simp

lemma added_walk_sound:
  assumes "added_walk limit db boundary commits stack = (cs, truncated)" "distinct commits"
    "set commits \<inter> set boundary = {}"
  shows "set cs \<subseteq> set commits \<union> reachable_from (parent_list db) (set stack)
    \<and> distinct cs \<and> set cs \<inter> set boundary = {} \<and> set commits \<subseteq> set cs"
  using assms
proof (induction limit db boundary commits stack rule: added_walk.induct)
  case (2 limit db boundary commits x stack)
  note m = reachable_stack [of "parent_list db" x stack]
    reachable_mono [OF set_subset_Cons, of "parent_list db" stack x]
  consider "x \<in> set boundary \<or> x \<in> set commits"
    | "\<not> (x \<in> set boundary \<or> x \<in> set commits)" "limit \<le> int (length commits)"
    | "\<not> (x \<in> set boundary \<or> x \<in> set commits)" "\<not> limit \<le> int (length commits)" by blast
  then show ?case
  proof cases
    case 1
    then show ?thesis using "2.IH"(1) [OF 1] "2.prems" m by auto
  next
    case 3
    then show ?thesis using "2.IH"(2) [OF 3] "2.prems" m by auto
  qed (use "2.prems" in auto)
qed simp

lemma added_walk_grows:
  "added_walk limit db boundary commits stack = (cs, truncated) \<Longrightarrow> set commits \<subseteq> set cs"
  by (induction limit db boundary commits stack rule: added_walk.induct) (auto split: if_splits)

lemma added_walk_complete:
  assumes "added_walk limit db boundary commits stack = (cs, False)"
    and "closed_up (parent_list db) (set boundary) (set commits) stack"
  shows "set stack \<subseteq> set boundary \<union> set cs \<and> closed_up (parent_list db) (set boundary) (set cs) []"
  using assms
proof (induction limit db boundary commits stack rule: added_walk.induct)
  case (2 limit db boundary commits x stack)
  consider "x \<in> set boundary \<or> x \<in> set commits"
    | "\<not> (x \<in> set boundary \<or> x \<in> set commits)" "\<not> limit \<le> int (length commits)"
    using "2.prems"(1) by (cases "x \<in> set boundary \<or> x \<in> set commits") (auto split: if_splits)
  then show ?case
  proof cases
    case 1
    have "set commits \<subseteq> set cs" using added_walk_grows [of limit db boundary commits stack] "2.prems"(1) 1 by auto
    moreover have "closed_up (parent_list db) (set boundary) (set commits) stack"
      using "2.prems"(2) 1 by (auto dest: closed_up_skip)
    ultimately show ?thesis using "2.IH"(1) [OF 1] "2.prems"(1) 1 by auto
  next
    case 2
    have "closed_up (parent_list db) (set boundary) (set (commits @ [x])) (rev (parent_list db x) @ stack)"
      using closed_up_expand [OF "2.prems"(2)] by simp
    moreover have "set (commits @ [x]) \<subseteq> set cs"
      using added_walk_grows [of limit db boundary "commits @ [x]"] "2.prems"(1) 2 by auto
    ultimately show ?thesis using "2.IH"(2) [OF 2] "2.prems"(1) 2 by auto
  qed
qed simp

lemma ancestor_walk_sound:
  "ancestor_walk limit db a steps seen stack \<Longrightarrow> a \<in> reachable_from (parent_list db) (set stack)"
proof (induction limit db a steps seen stack rule: ancestor_walk.induct)
  case (2 limit db a steps seen x stack)
  note m = reachable_stack [of "parent_list db" x stack]
    reachable_mono [OF set_subset_Cons, of "parent_list db" stack x]
  show ?case
    using 2 m by (auto split: if_splits)
qed simp

lemma is_ancestor_sound: "is_ancestor db a d \<Longrightarrow> a \<in> ancestors db d"
  using ancestor_walk_sound [of max_walk db a 0 "[]" "[d]"]
  by (auto simp: is_ancestor_def ancestors_def split: if_splits)

declare boundary_walk.simps(2) [simp del] added_walk.simps(2) [simp del] ancestor_walk.simps(2) [simp del]

text \<open>Where the walk has room for every edge, it decides ancestry.\<close>

lemma ancestor_walk_complete:
  assumes "a \<in> reachable_from (parent_list db) (set stack)" "a \<notin> set seen"
    and "closed_up (parent_list db) {} (set seen) stack"
    and "finite R" "reachable_from (parent_list db) (set stack) \<union> set seen \<subseteq> R"
    and "steps + int (length stack + (\<Sum>x\<in>R - set seen. length (parent_list db x))) \<le> limit"
  shows "ancestor_walk limit db a steps seen stack"
  using assms
proof (induction limit db a steps seen stack rule: ancestor_walk.induct)
  case (1 limit db a steps seen)
  then show ?case by (simp add: reachable_from_def)
next
  case (2 limit db a steps seen x stack)
  have l: "\<not> limit < steps + 1" using "2.prems"(6) by (simp del: of_nat_sum)
  have split: "reachable_from (parent_list db) (set (x # stack)) =
      insert x (reachable_from (parent_list db) (set (rev (parent_list db x) @ stack)))"
    by (rule reachable_stack)
  show ?case
  proof (cases "x \<in> set seen")
    case True
    have c: "closed_up (parent_list db) {} (set seen) stack" using "2.prems"(3) True by (auto dest: closed_up_skip)
    have "a \<in> reachable_from (parent_list db) (set stack)"
    proof (rule ccontr)
      assume n: "a \<notin> reachable_from (parent_list db) (set stack)"
      have "reachable_from (parent_list db) (set (x # stack)) \<subseteq> set seen \<union> reachable_from (parent_list db) (set stack)"
        by (rule reachable_least) (use True c in \<open>auto simp: closed_up_def\<close>)
      then show False using n "2.prems"(1,2) by blast
    qed
    moreover have "reachable_from (parent_list db) (set stack) \<union> set seen \<subseteq> R"
      using "2.prems"(5) reachable_mono [OF set_subset_Cons, of "parent_list db" stack x] by blast
    moreover have "steps + 1 + int (length stack + (\<Sum>x\<in>R - set seen. length (parent_list db x))) \<le> limit"
      using "2.prems"(6) by simp
    ultimately show ?thesis using "2.IH"(1) [OF l True] "2.prems"(2,4) c l True by (simp add: ancestor_walk.simps(2))
  next
    case new: False
    show ?thesis
    proof (cases "x = a")
      case True
      then show ?thesis using l new by (simp add: ancestor_walk.simps(2))
    next
      case False
      have x: "x \<in> R - set seen" using new "2.prems"(5) split by auto
      have sum: "(\<Sum>x\<in>R - set seen. length (parent_list db x)) =
          length (parent_list db x) + (\<Sum>x\<in>R - set (x # seen). length (parent_list db x))"
      proof -
        have "finite (R - set seen)" using "2.prems"(4) by simp
        moreover have "R - set (x # seen) = R - set seen - {x}" by auto
        ultimately show ?thesis using sum.remove [OF _ x] by metis
      qed
      have "closed_up (parent_list db) {} (set (x # seen)) (rev (parent_list db x) @ stack)"
        using closed_up_expand [OF "2.prems"(3)] by simp
      moreover have "a \<in> reachable_from (parent_list db) (set (rev (parent_list db x) @ stack))"
        using "2.prems"(1) split False by auto
      moreover have "reachable_from (parent_list db) (set (rev (parent_list db x) @ stack)) \<union> set (x # seen) \<subseteq> R"
        using "2.prems"(5) split by auto
      moreover have "steps + 1 + int (length (rev (parent_list db x) @ stack)
          + (\<Sum>x\<in>R - set (x # seen). length (parent_list db x))) \<le> limit"
        using "2.prems"(6) sum by simp
      moreover have "a \<notin> set (x # seen)" using "2.prems"(2) False by simp
      ultimately have "ancestor_walk limit db a (steps + 1) (x # seen) (rev (parent_list db x) @ stack)"
        using "2.IH"(2) [OF l new False] "2.prems"(4) by blast
      then show ?thesis using l new False by (simp add: ancestor_walk.simps(2))
    qed
  qed
qed

lemma is_ancestor_exact:
  assumes "finite (ancestors db d)" "int (Suc (\<Sum>x\<in>ancestors db d. length (parent_list db x))) \<le> max_walk"
  shows "is_ancestor db a d \<longleftrightarrow> a \<in> ancestors db d"
proof
  assume "a \<in> ancestors db d"
  then have "ancestor_walk max_walk db a 0 [] [d]"
    using assms ancestor_walk_complete [of a db "[d]" "[]" "ancestors db d" 0 max_walk]
    by (simp add: ancestors_def)
  then show "is_ancestor db a d" by (simp add: is_ancestor_def)
qed (rule is_ancestor_sound)

text \<open>What an update adds, when the walk was not cut short: nothing that is behind the old value is
  missed.\<close>

definition old_history :: "'o odb \<Rightarrow> 'o option \<Rightarrow> 'o set" where
  "old_history db old = (case old of None \<Rightarrow> {} | Some x \<Rightarrow> ancestors db x)"

lemma added_commits_cover:
  assumes "added_commits from_hex db old_hex new_hex = Inr added" "\<not> ac_truncated added"
    and "from_hex new_hex = Some new" "parse_old from_hex old_hex = Inr old"
  shows "ancestors db new - old_history db old \<subseteq> set (ac_commits added)"
    and "set (ac_commits added) \<subseteq> ancestors db new"
proof -
  define boundary where "boundary = (case old of None \<Rightarrow> [] | Some old \<Rightarrow> boundary_walk max_walk db [] [old])"
  have walk: "added_walk max_walk db boundary [] [new] = (ac_commits added, False)"
    using assms by (auto simp: added_commits_def parse_oid_def boundary_def [symmetric] split: prod.splits)
  have b: "set boundary \<subseteq> old_history db old"
  proof (cases old)
    case (Some x)
    then show ?thesis
      using boundary_walk_sound [of max_walk db "[]" "[x]"]
      by (simp add: boundary_def old_history_def ancestors_def)
  qed (simp add: boundary_def)
  then have "reachable_from (parent_list db) (set boundary) \<subseteq> old_history db old"
    using reachable_trans by (intro reachable_least) (auto simp: old_history_def ancestors_def split: option.splits)
  moreover have "ancestors db new \<subseteq> set (ac_commits added) \<union> reachable_from (parent_list db) (set boundary)"
    using added_walk_complete [OF walk] closed_up_covers [of "parent_list db" "set boundary" "set (ac_commits added)" "{new}"]
    by (simp add: ancestors_def)
  ultimately show "ancestors db new - old_history db old \<subseteq> set (ac_commits added)" by blast
  show "set (ac_commits added) \<subseteq> ancestors db new"
    using added_walk_sound [OF walk] by (simp add: ancestors_def)
qed

lemma added_commits_fast_forward:
  "added_commits from_hex db old_hex new_hex = Inr added \<Longrightarrow> from_hex new_hex = Some new \<Longrightarrow>
   parse_old from_hex old_hex = Inr (Some old) \<Longrightarrow> ac_fast_forward added = is_ancestor db old new"
  by (auto simp: added_commits_def parse_oid_def Let_def split: prod.splits)

lemma history_rejection_None:
  "history_rejection from_hex to_hex_id db checks cs = None \<longleftrightarrow>
     (\<forall>c\<in>set cs. command_rejection from_hex to_hex_id db checks c = None)"
  by (induction cs) (auto split: option.splits)

text \<open>A command that passes: on a branch that must stay linear the old value is behind the new one, and,
  unless more than 4000 commits were added, no commit that was added is a merge; on a branch that
  needs signatures every added commit has one.\<close>

lemma command_accepted:
  assumes "command_rejection from_hex to_hex_id db checks c = None" "new_oid c \<noteq> zero_id"
    and "from_hex (new_oid c) = Some new" "parse_old from_hex (old_oid c) = Inr old"
    and added: "added_commits from_hex db (old_oid c) (new_oid c) = Inr added"
  shows "any_pattern_matches (linear_history_ref_patterns checks) (cmd_ref_name c) \<Longrightarrow>
      (case old of None \<Rightarrow> True | Some old \<Rightarrow> old \<in> ancestors db new)
      \<and> (\<not> ac_truncated added \<longrightarrow> (\<forall>x\<in>ancestors db new - old_history db old. \<not> is_merge_commit db x))"
    and "any_pattern_matches (signed_commit_ref_patterns checks) (cmd_ref_name c) \<Longrightarrow>
      \<not> ac_truncated added \<longrightarrow> (\<forall>x\<in>ancestors db new - old_history db old. commit_is_signed db x)"
proof -
  assume l: "any_pattern_matches (linear_history_ref_patterns checks) (cmd_ref_name c)"
  have r: "linear_rejection to_hex_id db (cmd_ref_name c) added = None"
    using assms(1,2) l added by (auto simp: command_rejection_def Let_def split: option.splits)
  then have ff: "ac_fast_forward added" by (auto simp: linear_rejection_def split: if_splits)
  have "case old of None \<Rightarrow> True | Some old \<Rightarrow> old \<in> ancestors db new"
    using ff added_commits_fast_forward [OF added assms(3)] assms(4)
    by (auto split: option.splits dest: is_ancestor_sound)
  moreover have "\<forall>x\<in>ancestors db new - old_history db old. \<not> is_merge_commit db x" if t: "\<not> ac_truncated added"
    using r ff t added_commits_cover(1) [OF added t assms(3,4)]
    by (auto simp: linear_rejection_def find_None_iff split: if_splits)
  ultimately show "(case old of None \<Rightarrow> True | Some old \<Rightarrow> old \<in> ancestors db new)
      \<and> (\<not> ac_truncated added \<longrightarrow> (\<forall>x\<in>ancestors db new - old_history db old. \<not> is_merge_commit db x))"
    by blast
next
  assume s: "any_pattern_matches (signed_commit_ref_patterns checks) (cmd_ref_name c)"
  have r: "signed_rejection to_hex_id db (cmd_ref_name c) added = None"
    using assms(1,2) s added by (auto simp: command_rejection_def Let_def split: option.splits if_splits)
  then show "\<not> ac_truncated added \<longrightarrow> (\<forall>x\<in>ancestors db new - old_history db old. commit_is_signed db x)"
    using added_commits_cover(1) [OF added _ assms(3,4)]
    by (auto simp: signed_rejection_def find_None_iff split: if_splits)
qed

section \<open>Long fast-forwards\<close>

text \<open>Commit \<^verbatim>\<open>k\<close> has the parent \<^verbatim>\<open>k - 1\<close>; commit 0 is missing.\<close>

definition chain :: "nat \<Rightarrow> nat odb" where
  "chain n = map (\<lambda>k. (k, Commit_obj [] 0 (if k = 1 then [] else [k - 1]) [] (Inr 0))) [1..<Suc n]"

lemma parent_list_chain:
  "parent_list (chain n) k = (if 2 \<le> k \<and> k \<le> n then [k - 1] else [])"
proof -
  have "find_object (chain n) k =
      (if 1 \<le> k \<and> k \<le> n then Some (Commit_obj [] 0 (if k = 1 then [] else [k - 1]) [] (Inr 0)) else None)"
    by (auto simp: find_object_def chain_def map_of_map_restrict restrict_map_def simp del: upt_Suc)
  then show ?thesis by (auto simp: parent_list_def commit_parents_def)
qed

lemma ancestor_walk_chain:
  assumes "k \<le> n" "a \<le> k" "1 \<le> a" "limit \<le> steps + int (k - a)" "\<forall>x\<in>set seen. k < x"
  shows "\<not> ancestor_walk limit (chain n) a steps seen [k]"
  using assms
proof (induction k arbitrary: steps seen)
  case (Suc k)
  show ?case
  proof (cases "a = Suc k")
    case False
    then have "\<not> ancestor_walk limit (chain n) a (steps + 1) (Suc k # seen) [k]"
      using Suc.prems by (intro Suc.IH) auto
    then show ?thesis using False Suc.prems by (auto simp: parent_list_chain ancestor_walk.simps(2))
  qed (use Suc.prems in \<open>auto simp: ancestor_walk.simps(2)\<close>)
qed simp

text \<open>The bound makes long fast-forwards fail. The walks are bounded to let inconclusive inspections
  pass, and the module promises just that; but the ancestry walk answers no when it runs out, so a
  push of 4999 unmerged commits on top of the old value is refused as not a fast-forward.\<close>

theorem long_fast_forward_refused:
  "history_rejection (\<lambda>h. Some (if h = ''01'' then 1 else 5000)) (\<lambda>_. []) (chain 5000)
     \<lparr>blocked_ref_patterns = [], linear_history_ref_patterns = [''refs/heads/main''],
      signed_commit_ref_patterns = [], max_repo_bytes = None, current_repo_bytes = 0\<rparr>
     [\<lparr>old_oid = ''01'', new_oid = ''02'', cmd_ref_name = ''refs/heads/main''\<rparr>]
   = Some (non_fast_forward_message ''refs/heads/main'')
   \<and> 1 \<in> ancestors (chain 5000) 5000 \<and> (\<forall>x. \<not> is_merge_commit (chain 5000) x)"
proof (intro conjI allI)
  have "\<not> is_ancestor (chain 5000) 1 5000"
    using ancestor_walk_chain [of 5000 5000 1 max_walk 0 "[]"] by (simp add: is_ancestor_def max_walk_def)
  moreover have "any_pattern_matches [''refs/heads/main''] ''refs/heads/main''" by code_simp
  moreover have "(''02'' :: string) \<noteq> zero_id" by (simp add: zero_id_def numeral_eq_Suc)
  ultimately show "history_rejection (\<lambda>h. Some (if h = ''01'' then 1 else 5000)) (\<lambda>_. []) (chain 5000)
     \<lparr>blocked_ref_patterns = [], linear_history_ref_patterns = [''refs/heads/main''],
      signed_commit_ref_patterns = [], max_repo_bytes = None, current_repo_bytes = 0\<rparr>
     [\<lparr>old_oid = ''01'', new_oid = ''02'', cmd_ref_name = ''refs/heads/main''\<rparr>]
   = Some (non_fast_forward_message ''refs/heads/main'')"
    by (auto simp: command_rejection_def added_commits_def parse_oid_def parse_old_def linear_rejection_def
        Let_def split: prod.splits)
  have "5000 - k \<in> ancestors (chain 5000) 5000" if "k < 5000" for k
    using that
  proof (induction k)
    case (Suc k)
    then have "5000 - k \<in> ancestors (chain 5000) 5000" by simp
    moreover have "5000 - Suc k \<in> set (parent_list (chain 5000) (5000 - k))"
      using Suc.prems by (auto simp: parent_list_chain)
    ultimately show ?case unfolding ancestors_def by (rule reachable_step)
  qed (auto simp: ancestors_def)
  from this [of 4999] show "1 \<in> ancestors (chain 5000) 5000" by simp
  show "\<not> is_merge_commit (chain 5000) x" for x
    using parent_list_chain [of 5000 x]
    by (auto simp: is_merge_commit_def parent_list_def split: option.splits if_splits)
qed

end
