(* ===== verification/Receive.thy ===== *)
theory Receive
  imports History "HOL-Library.List_Lexorder" "HOL-Library.Char_ord"
begin

text \<open>
  Receiving a push (\<^verbatim>\<open>edda-git/src/quarantine.rs\<close>, \<^verbatim>\<open>refs.rs\<close>, the second half of \<^verbatim>\<open>protocol.rs\<close> and
  \<^verbatim>\<open>fix_unborn_head\<close> of \<^verbatim>\<open>lib.rs\<close>). The state is a repository's directory: its loose objects, the files
  in \<^verbatim>\<open>objects/pack\<close>, the quarantine directories, the refs and \<^verbatim>\<open>HEAD\<close>. What the library and the file
  system answer is a record of functions, \<^verbatim>\<open>receive_env\<close>: how a pack is ingested (its files are named
  by the hash of its contents), what a pack of a given name holds, whether a ref name is valid, how a
  ref transaction ends, and which file operations fail. Reflogs are not modelled.
\<close>

section \<open>Refs\<close>

type_synonym 'o refs = "(string \<times> 'o) list"

record ref_update =
  ru_name :: string
  ru_expected_old :: string
  ru_new :: string

datatype 'o previous_value = PvAny | PvMustNotExist | PvMustExistAndMatch 'o

datatype 'o ref_change = ChDelete "'o previous_value" | ChUpdate "'o previous_value" 'o

record 'o ref_edit =
  re_name :: string
  re_change :: "'o ref_change"

datatype 'o head = HeadSymbolic string | HeadDetached 'o

datatype pack_file = PackData string | PackIndex string

record 'o git_dir =
  gd_loose :: "'o odb"
  gd_pack_dir :: "pack_file list"
  gd_incoming :: "string list"
  gd_refs :: "'o refs"
  gd_head :: "'o head"

record 'o receive_env =
  hex_to_id :: "string \<Rightarrow> 'o option"
  id_to_hex :: "'o \<Rightarrow> string"
  ingest :: "'o odb \<Rightarrow> string \<Rightarrow> string + string option"
  contents :: "string \<Rightarrow> 'o odb"
  valid_ref_name :: "string \<Rightarrow> bool"
  transact :: "'o ref_edit list \<Rightarrow> 'o refs \<Rightarrow> string + 'o refs"
  quarantine_dir :: string
  mkdir_fails :: "string option"
  reopen_index_fails :: "string option"
  rename_fails :: "pack_file \<Rightarrow> string option"
  remove_dir_fails :: bool
  remove_file_fails :: "pack_file \<Rightarrow> bool"
  reopen_repo_fails :: "string option"
  head_edit_fails :: bool

fun git_error_text :: "git_error \<Rightarrow> string" where
  "git_error_text (GitInvalidName name) = CHR 0x22 # name @ CHR 0x22 # '' isn'' @ CHR 0x27 # ''t a valid repository name''"
| "git_error_text (GitAlreadyExists name) =
     ''a repository named '' @ CHR 0x22 # name @ CHR 0x22 # '' already exists''"
| "git_error_text (GitNotFound name) = ''no repository named '' @ CHR 0x22 # name @ [CHR 0x22]"
| "git_error_text (GitIo e) = e"
| "git_error_text (GitGit e) = e"
| "git_error_text (GitConflict count) = ''the merge has '' @ show_nat count @ '' unresolved conflict(s)''"
| "git_error_text GitNotFastForward = ''the target branch cannot fast-forward to the source''"

text \<open>Debug quoting in messages is shown as plain quotes, and the library's own wording is left out.\<close>

definition parse_ref_oid :: "'o receive_env \<Rightarrow> string \<Rightarrow> git_error + 'o" where
  "parse_ref_oid env hex =
     (case hex_to_id env hex of
        None \<Rightarrow> Inl (GitGit (''not a valid object id: '' @ CHR 0x22 # hex @ [CHR 0x22]))
      | Some i \<Rightarrow> Inr i)"

definition ref_edit :: "'o receive_env \<Rightarrow> ref_update \<Rightarrow> git_error + 'o ref_edit" where
  "ref_edit env u =
     (let creating = ru_expected_old u = zero_id; deleting = ru_new u = zero_id;
          expected = (if creating then Inr (if deleting then PvAny else PvMustNotExist)
                      else case parse_ref_oid env (ru_expected_old u) of
                             Inl e \<Rightarrow> Inl e | Inr i \<Rightarrow> Inr (PvMustExistAndMatch i))
      in case expected of
           Inl e \<Rightarrow> Inl e
         | Inr pv \<Rightarrow>
             (case (if deleting then Inr (ChDelete pv)
                    else case parse_ref_oid env (ru_new u) of
                           Inl e \<Rightarrow> Inl e | Inr i \<Rightarrow> Inr (ChUpdate pv i)) of
                Inl e \<Rightarrow> Inl e
              | Inr change \<Rightarrow>
                  if valid_ref_name env (ru_name u) then Inr \<lparr>re_name = ru_name u, re_change = change\<rparr>
                  else Inl (GitGit (''invalid ref name '' @ ru_name u))))"

fun ref_edits :: "'o receive_env \<Rightarrow> ref_update list \<Rightarrow> git_error + 'o ref_edit list" where
  "ref_edits env [] = Inr []"
| "ref_edits env (u # us) =
     (case ref_edit env u of
        Inl e \<Rightarrow> Inl e
      | Inr x \<Rightarrow> (case ref_edits env us of Inl e \<Rightarrow> Inl e | Inr xs \<Rightarrow> Inr (x # xs)))"

definition update_refs :: "'o receive_env \<Rightarrow> ref_update list \<Rightarrow> 'o refs \<Rightarrow> git_error + 'o refs" where
  "update_refs env updates refs =
     (if updates = [] then Inr refs
      else case ref_edits env updates of
             Inl e \<Rightarrow> Inl e
           | Inr edits \<Rightarrow>
               (case transact env edits refs of Inl e \<Rightarrow> Inl (GitGit e) | Inr refs' \<Rightarrow> Inr refs'))"

section \<open>Objects of a repository\<close>

text \<open>A pack is live once both its files are in place.\<close>

definition live_pack :: "'o receive_env \<Rightarrow> pack_file list \<Rightarrow> pack_file \<Rightarrow> 'o odb" where
  "live_pack env files f =
     (case f of PackIndex h \<Rightarrow> if PackData h \<in> set files then contents env h else [] | PackData _ \<Rightarrow> [])"

definition live_odb :: "'o receive_env \<Rightarrow> 'o git_dir \<Rightarrow> 'o odb" where
  "live_odb env g = gd_loose g @ concat (map (live_pack env (gd_pack_dir g)) (gd_pack_dir g))"

section \<open>Quarantine\<close>

record quarantine =
  q_dir :: string
  q_pack_path :: "pack_file option"
  q_index_path :: "pack_file option"

definition remove_dir_all :: "'o receive_env \<Rightarrow> string \<Rightarrow> 'o git_dir \<Rightarrow> 'o git_dir" where
  "remove_dir_all env dir g =
     (if remove_dir_fails env then g else g\<lparr>gd_incoming := removeAll dir (gd_incoming g)\<rparr>)"

definition write_pack :: "'o receive_env \<Rightarrow> string \<Rightarrow> 'o git_dir \<Rightarrow> (git_error + quarantine) \<times> 'o git_dir" where
  "write_pack env pack g =
     (case mkdir_fails env of
        Some e \<Rightarrow> (Inl (GitIo e), g)
      | None \<Rightarrow>
          (let g1 = g\<lparr>gd_incoming := gd_incoming g @ [quarantine_dir env]\<rparr> in
           case ingest env (live_odb env g) pack of
             Inl e \<Rightarrow> (Inl (GitGit (''bad pack: '' @ e)), remove_dir_all env (quarantine_dir env) g1)
           | Inr h \<Rightarrow>
               (Inr \<lparr>q_dir = quarantine_dir env, q_pack_path = map_option PackData h,
                     q_index_path = map_option PackIndex h\<rparr>, g1)))"

definition max_fsck_objects :: int where
  "max_fsck_objects = 2000000"

text \<open>The connectivity walk: the quarantined pack is looked up first, then the repository.\<close>

function fsck_walk ::
  "int \<Rightarrow> 'o odb \<Rightarrow> 'o odb \<Rightarrow> 'o list \<Rightarrow> int \<Rightarrow> 'o list \<Rightarrow> git_error + unit" where
  "fsck_walk limit pack db seen visited [] = Inr ()"
| "fsck_walk limit pack db seen visited (x # queue) =
     (if x \<in> set seen then fsck_walk limit pack db seen visited queue
      else if limit < visited + 1 then Inl (GitGit ''fsck: object graph too large'')
      else case (case find_object pack x of Some ob \<Rightarrow> Some ob | None \<Rightarrow> find_object db x) of
             None \<Rightarrow> Inl (GitGit ''fsck: missing object'')
           | Some ob \<Rightarrow>
               (case object_links ob of
                  Inl e \<Rightarrow> Inl e
                | Inr ls \<Rightarrow> fsck_walk limit pack db (x # seen) (visited + 1) (queue @ ls)))"
  by pat_completeness auto
termination
  by (relation "measures [\<lambda>(limit, pack, db, seen, visited, queue). nat (limit - visited),
      \<lambda>(limit, pack, db, seen, visited, queue). length queue]") auto

definition quarantined_odb :: "'o receive_env \<Rightarrow> quarantine \<Rightarrow> 'o odb" where
  "quarantined_odb env q =
     (case q_index_path q of Some (PackIndex h) \<Rightarrow> contents env h | _ \<Rightarrow> [])"

definition fsck :: "'o receive_env \<Rightarrow> quarantine \<Rightarrow> 'o git_dir \<Rightarrow> 'o list \<Rightarrow> git_error + unit" where
  "fsck env q g tips =
     (case (q_index_path q, reopen_index_fails env) of
        (Some _, Some e) \<Rightarrow> Inl (GitGit (''reopening quarantined pack: '' @ e))
      | _ \<Rightarrow> fsck_walk max_fsck_objects (quarantined_odb env q) (live_odb env g) [] 0 tips)"

text \<open>Moving a file over one of the same name replaces it.\<close>

definition rename_into :: "pack_file \<Rightarrow> 'o git_dir \<Rightarrow> 'o git_dir" where
  "rename_into f g =
     (if f \<in> set (gd_pack_dir g) then g else g\<lparr>gd_pack_dir := gd_pack_dir g @ [f]\<rparr>)"

fun move_files ::
  "'o receive_env \<Rightarrow> pack_file list \<Rightarrow> pack_file list \<Rightarrow> 'o git_dir \<Rightarrow> (git_error + pack_file list) \<times> 'o git_dir" where
  "move_files env moved [] g = (Inr moved, g)"
| "move_files env moved (f # fs) g =
     (case rename_fails env f of
        Some e \<Rightarrow> (Inl (GitIo e), g)
      | None \<Rightarrow> move_files env (moved @ [f]) fs (rename_into f g))"

definition promote ::
  "'o receive_env \<Rightarrow> quarantine \<Rightarrow> 'o git_dir \<Rightarrow> (git_error + pack_file list) \<times> 'o git_dir" where
  "promote env q g =
     (case move_files env [] (List.map_filter (\<lambda>f. f) [q_pack_path q, q_index_path q]) g of
        (Inl e, g') \<Rightarrow> (Inl e, g')
      | (Inr moved, g') \<Rightarrow> (Inr moved, remove_dir_all env (q_dir q) g'))"

definition discard :: "'o receive_env \<Rightarrow> quarantine \<Rightarrow> 'o git_dir \<Rightarrow> 'o git_dir" where
  "discard env q g = remove_dir_all env (q_dir q) g"

definition rollback :: "'o receive_env \<Rightarrow> pack_file list \<Rightarrow> 'o git_dir \<Rightarrow> 'o git_dir" where
  "rollback env moved g =
     g\<lparr>gd_pack_dir := filter (\<lambda>f. f \<notin> set moved \<or> remove_file_fails env f) (gd_pack_dir g)\<rparr>"

section \<open>HEAD\<close>

definition heads_prefix :: string where
  "heads_prefix = ''refs/heads/''"

definition list_branch_names :: "'o refs \<Rightarrow> string list" where
  "list_branch_names refs = sort (List.map_filter (\<lambda>r. strip_prefix heads_prefix (fst r)) refs)"

definition head_is_unborn :: "'o git_dir \<Rightarrow> bool" where
  "head_is_unborn g =
     (case gd_head g of HeadDetached _ \<Rightarrow> False | HeadSymbolic n \<Rightarrow> map_of (gd_refs g) n = None)"

definition point_head_at :: "'o receive_env \<Rightarrow> string \<Rightarrow> 'o git_dir \<Rightarrow> 'o git_dir" where
  "point_head_at env branch g =
     (if valid_ref_name env (heads_prefix @ branch) \<and> \<not> head_edit_fails env
      then g\<lparr>gd_head := HeadSymbolic (heads_prefix @ branch)\<rparr> else g)"

definition fix_unborn_head :: "'o receive_env \<Rightarrow> 'o git_dir \<Rightarrow> 'o git_dir" where
  "fix_unborn_head env g =
     (if reopen_repo_fails env \<noteq> None \<or> \<not> head_is_unborn g then g
      else case pick_default_branch (list_branch_names (gd_refs g)) of
             None \<Rightarrow> g
           | Some branch \<Rightarrow> point_head_at env branch g)"

section \<open>The receive path\<close>

record applied_ref =
  ar_name :: string
  ar_old :: string
  ar_new :: string

record receive_outcome =
  ro_response :: string
  ro_applied :: "applied_ref list"

definition blocked_message :: "string \<Rightarrow> string" where
  "blocked_message ref_name =
     ref_name @ '': protected branch '' @ em_dash @ '' open a pull request instead''"

definition quota_message :: "nat \<Rightarrow> nat \<Rightarrow> string" where
  "quota_message projected limit =
     ''push rejected: it would grow the repository to about '' @ show_nat projected
       @ '' bytes, past the configured '' @ show_nat limit @ ''-byte limit''"

definition pre_ingest_rejection :: "receive_checks \<Rightarrow> ref_command list \<Rightarrow> nat \<Rightarrow> string option" where
  "pre_ingest_rejection checks commands pack_bytes =
     (case blocked_ref_rejection checks commands of
        Some ref_name \<Rightarrow> Some (blocked_message ref_name)
      | None \<Rightarrow>
          (case quota_rejection checks pack_bytes of
             Some projected \<Rightarrow> Some (quota_message projected (the (max_repo_bytes checks)))
           | None \<Rightarrow> None))"

text \<open>The tips of the commands that are not deletions.\<close>

fun new_tips :: "'o receive_env \<Rightarrow> ref_command list \<Rightarrow> string + 'o list" where
  "new_tips env [] = Inr []"
| "new_tips env (c # cs) =
     (if new_oid c = zero_id then new_tips env cs
      else case hex_to_id env (new_oid c) of
             None \<Rightarrow> Inl (''not a valid object id: '' @ new_oid c)
           | Some i \<Rightarrow> (case new_tips env cs of Inl e \<Rightarrow> Inl e | Inr is \<Rightarrow> Inr (i # is)))"

definition fsck_rejection ::
  "'o receive_env \<Rightarrow> quarantine option \<Rightarrow> ref_command list \<Rightarrow> 'o git_dir \<Rightarrow> string option" where
  "fsck_rejection env q commands g =
     (case q of
        None \<Rightarrow> None
      | Some q \<Rightarrow>
          (case new_tips env commands of
             Inl e \<Rightarrow> Some e
           | Inr tips \<Rightarrow> (case fsck env q g tips of Inl e \<Rightarrow> Some (git_error_text e) | Inr _ \<Rightarrow> None)))"

definition updates_of :: "ref_command list \<Rightarrow> ref_update list" where
  "updates_of commands =
     map (\<lambda>c. \<lparr>ru_name = cmd_ref_name c, ru_expected_old = old_oid c, ru_new = new_oid c\<rparr>) commands"

text \<open>After the pack is in place. A repository that cannot be opened again is reported at once; other
  refusals first take the pack out again.\<close>

definition land_promoted ::
  "'o receive_env \<Rightarrow> receive_checks \<Rightarrow> ref_command list \<Rightarrow> pack_file list \<Rightarrow> 'o git_dir
     \<Rightarrow> (string + unit) \<times> 'o git_dir" where
  "land_promoted env checks commands promoted g =
     (let inspect = (linear_history_ref_patterns checks \<noteq> [] \<or> signed_commit_ref_patterns checks \<noteq> []) in
      if inspect \<and> reopen_repo_fails env \<noteq> None then (Inl (the (reopen_repo_fails env)), g)
      else case (if inspect
                 then history_rejection (hex_to_id env) (id_to_hex env) (live_odb env g) checks commands
                 else None) of
             Some reason \<Rightarrow> (Inl reason, rollback env promoted g)
           | None \<Rightarrow>
               (case update_refs env (updates_of commands) (gd_refs g) of
                  Inl e \<Rightarrow> (Inl (git_error_text e), rollback env promoted g)
                | Inr refs' \<Rightarrow> (Inr (), g\<lparr>gd_refs := refs'\<rparr>)))"

text \<open>The guard discards a quarantine that was not taken for promotion.\<close>

definition land ::
  "'o receive_env \<Rightarrow> receive_checks \<Rightarrow> ref_command list \<Rightarrow> nat \<Rightarrow> quarantine option \<Rightarrow> 'o git_dir
     \<Rightarrow> (string + unit) \<times> 'o git_dir" where
  "land env checks commands pack_bytes q g =
     (let dropped = (case q of None \<Rightarrow> g | Some q \<Rightarrow> discard env q g) in
      case pre_ingest_rejection checks commands pack_bytes of
        Some reason \<Rightarrow> (Inl reason, dropped)
      | None \<Rightarrow>
          (case fsck_rejection env q commands g of
             Some reason \<Rightarrow> (Inl reason, dropped)
           | None \<Rightarrow>
               (case q of
                  None \<Rightarrow> land_promoted env checks commands [] g
                | Some q \<Rightarrow>
                    (case promote env q g of
                       (Inl e, g') \<Rightarrow> (Inl (git_error_text e), g')
                     | (Inr promoted, g') \<Rightarrow> land_promoted env checks commands promoted g'))))"

definition report_line :: "string + unit \<Rightarrow> ref_command \<Rightarrow> string" where
  "report_line applied c =
     (case applied of
        Inr _ \<Rightarrow> ''ok '' @ cmd_ref_name c @ [CHR 0x0A]
      | Inl reason \<Rightarrow> ''ng '' @ cmd_ref_name c @ '' '' @ reason @ [CHR 0x0A])"

definition report :: "string + unit \<Rightarrow> ref_command list \<Rightarrow> string" where
  "report applied commands =
     write_flush (fold (\<lambda>c out. write_pkt_line out (report_line applied c)) commands
       (write_pkt_line [] (''unpack ok'' @ [CHR 0x0A])))"

definition receive_blocking ::
  "'o receive_env \<Rightarrow> receive_checks \<Rightarrow> ref_command list \<Rightarrow> string \<Rightarrow> 'o git_dir
     \<Rightarrow> (string + receive_outcome) \<times> 'o git_dir" where
  "receive_blocking env checks commands pack g =
     (case (if list_ex (\<lambda>c. new_oid c \<noteq> zero_id) commands
            then (case write_pack env pack g of (Inl e, g') \<Rightarrow> (Inl e, g') | (Inr q, g') \<Rightarrow> (Inr (Some q), g'))
            else (Inr None, g)) of
        (Inl e, g1) \<Rightarrow> (Inl (git_error_text e), g1)
      | (Inr q, g1) \<Rightarrow>
          (case land env checks commands (length pack) q g1 of
             (applied, g2) \<Rightarrow>
               (Inr \<lparr>ro_response = report applied commands,
                     ro_applied = (case applied of
                        Inl _ \<Rightarrow> []
                      | Inr _ \<Rightarrow> map (\<lambda>c. \<lparr>ar_name = cmd_ref_name c, ar_old = old_oid c, ar_new = new_oid c\<rparr>) commands)\<rparr>,
                case applied of Inl _ \<Rightarrow> g2 | Inr _ \<Rightarrow> fix_unborn_head env g2)))"

definition apply_receive_pack ::
  "'o receive_env \<Rightarrow> receive_checks \<Rightarrow> ref_command list \<Rightarrow> string \<Rightarrow> 'o git_dir
     \<Rightarrow> (string + receive_outcome) \<times> 'o git_dir" where
  "apply_receive_pack env checks commands pack g =
     (if commands = [] then (Inr \<lparr>ro_response = [], ro_applied = []\<rparr>, g)
      else receive_blocking env checks commands pack g)"

definition run_receive_pack ::
  "'o receive_env \<Rightarrow> receive_checks \<Rightarrow> string \<Rightarrow> 'o git_dir \<Rightarrow> (git_error + receive_outcome) \<times> 'o git_dir" where
  "run_receive_pack env checks body g =
     (case parse_receive_pack_commands body of
        Inl line \<Rightarrow> (Inl (GitGit (''malformed ref-update command: '' @ line)), g)
      | Inr (commands, pos) \<Rightarrow>
          (case apply_receive_pack env checks commands (drop pos body) g of
             (Inl e, g') \<Rightarrow> (Inl (GitGit e), g')
           | (Inr r, g') \<Rightarrow> (Inr r, g')))"

end
