(* ===== verification/Git_Merge.thy ===== *)
theory Git_Merge
  imports Receive
begin

text \<open>
  Merging a pull request in the git layer (\<^verbatim>\<open>edda-git/src/merge.rs\<close>) and importing a fork's branch
  (\<^verbatim>\<open>transfer.rs\<close>), on the same repository directory as a push. The three-way merges, the merge base,
  the peeling of a ref to a commit and the bytes of a commit are the library's: the record
  \<^verbatim>\<open>merge_env\<close>. Objects that are written become loose objects; what an attempt wrote stays written
  when it fails.
\<close>

section \<open>Actions on a repository\<close>

type_synonym ('o, 'a) git_act = "'o git_dir \<Rightarrow> (git_error + 'a) \<times> 'o git_dir"

definition git_ok :: "'a \<Rightarrow> ('o, 'a) git_act" where
  "git_ok x g = (Inr x, g)"

definition git_fail :: "git_error \<Rightarrow> ('o, 'a) git_act" where
  "git_fail e g = (Inl e, g)"

definition git_bind :: "('o, 'a) git_act \<Rightarrow> ('a \<Rightarrow> ('o, 'b) git_act) \<Rightarrow> ('o, 'b) git_act" where
  "git_bind m f g = (case m g of (Inl e, g') \<Rightarrow> (Inl e, g') | (Inr x, g') \<Rightarrow> f x g')"

text \<open>A question to the library about the repository as it is.\<close>

definition ask :: "('o git_dir \<Rightarrow> string + 'a) \<Rightarrow> ('o, 'a) git_act" where
  "ask q g = (case q g of Inl e \<Rightarrow> (Inl (GitGit e), g) | Inr x \<Rightarrow> (Inr x, g))"

section \<open>Commits and trees\<close>

record git_signature =
  sig_name :: string
  sig_email :: string
  sig_seconds :: int

record 'o new_commit =
  nc_tree :: 'o
  nc_parents :: "'o list"
  nc_author :: git_signature
  nc_committer :: git_signature
  nc_encoding :: "string option"
  nc_message :: string

text \<open>The outcome of a merge of trees: whether conflicts are left, how many were met, the merged tree, and
  the objects the merge and the writing of its trees add; where the writing fails, the error and the trees
  written before it.\<close>

record 'o merged =
  md_unresolved :: bool
  md_conflicts :: nat
  md_tree :: 'o
  md_blobs :: "'o odb"
  md_trees :: "'o odb"
  md_write_error :: "(string \<times> 'o odb) option"

record 'o commit_details =
  cd_author :: git_signature
  cd_encoding :: "string option"
  cd_message :: string

record 'o merge_env =
  resolve_ref :: "'o git_dir \<Rightarrow> string \<Rightarrow> string + 'o"
  merge_options_error :: "string option"
  merge_tips :: "'o odb \<Rightarrow> 'o \<Rightarrow> 'o \<Rightarrow> string + 'o merged"
  merge_three :: "'o odb \<Rightarrow> 'o \<Rightarrow> 'o \<Rightarrow> 'o \<Rightarrow> string + 'o merged"
  common_base :: "'o odb \<Rightarrow> 'o \<Rightarrow> 'o \<Rightarrow> string + 'o"
  hash_of :: "'o git_object \<Rightarrow> 'o"
  commit_bytes :: "'o new_commit \<Rightarrow> string"
  commit_details_of :: "'o git_object \<Rightarrow> string + 'o commit_details"
  empty_tree :: 'o
  write_error_of :: "'o git_object \<Rightarrow> string option"
  today :: int

definition resolve_commit_id :: "'o merge_env \<Rightarrow> string \<Rightarrow> ('o, 'o) git_act" where
  "resolve_commit_id menv ref_name = ask (\<lambda>g. resolve_ref menv g ref_name)"

definition add_objects :: "'o odb \<Rightarrow> 'o git_dir \<Rightarrow> 'o git_dir" where
  "add_objects db g = g\<lparr>gd_loose := gd_loose g @ db\<rparr>"

definition write_merged_tree :: "'o merged \<Rightarrow> ('o, 'o) git_act" where
  "write_merged_tree md g =
     (let g1 = add_objects (md_blobs md) g in
      if md_unresolved md then (Inl (GitConflict (md_conflicts md)), g1)
      else case md_write_error md of
             Some (e, written) \<Rightarrow> (Inl (GitGit e), add_objects written g1)
           | None \<Rightarrow> (Inr (md_tree md), add_objects (md_trees md) g1))"

definition merge_options :: "'o merge_env \<Rightarrow> ('o, unit) git_act" where
  "merge_options menv =
     (case merge_options_error menv of None \<Rightarrow> git_ok () | Some e \<Rightarrow> git_fail (GitGit e))"

definition three_way_merged_tree ::
  "'o receive_env \<Rightarrow> 'o merge_env \<Rightarrow> 'o \<Rightarrow> 'o \<Rightarrow> ('o, 'o) git_act" where
  "three_way_merged_tree env menv target_id source_id =
     git_bind (merge_options menv) (\<lambda>_.
       git_bind (ask (\<lambda>g. merge_tips menv (live_odb env g) target_id source_id)) write_merged_tree)"

definition signature_now :: "'o merge_env \<Rightarrow> string \<times> string \<Rightarrow> git_signature" where
  "signature_now menv who = \<lparr>sig_name = fst who, sig_email = snd who, sig_seconds = today menv\<rparr>"

definition commit_object :: "'o merge_env \<Rightarrow> 'o new_commit \<Rightarrow> 'o git_object" where
  "commit_object menv c =
     Commit_obj (commit_bytes menv c) (nc_tree c) (nc_parents c) [] (Inr (sig_seconds (nc_committer c)))"

definition write_commit :: "'o merge_env \<Rightarrow> 'o new_commit \<Rightarrow> ('o, 'o) git_act" where
  "write_commit menv c g =
     (let ob = commit_object menv c in
      case write_error_of menv ob of
        Some e \<Rightarrow> (Inl (GitGit e), g)
      | None \<Rightarrow> (Inr (hash_of menv ob), add_objects [(hash_of menv ob, ob)] g))"

text \<open>\<^verbatim>\<open>find_commit\<close> is an error for a missing object and for one that is not a commit.\<close>

definition find_commit :: "'o odb \<Rightarrow> 'o \<Rightarrow> string + 'o git_object" where
  "find_commit db x =
     (case find_object db x of
        None \<Rightarrow> Inl ''object not found''
      | Some ob \<Rightarrow> if object_kind ob = KCommit then Inr ob else Inl ''not a commit'')"

definition tree_id_of :: "'o receive_env \<Rightarrow> 'o \<Rightarrow> ('o, 'o) git_act" where
  "tree_id_of env x =
     ask (\<lambda>g. case find_commit (live_odb env g) x of
                Inl e \<Rightarrow> Inl e
              | Inr (Commit_obj _ tree _ _ _) \<Rightarrow> Inr tree
              | Inr (Broken_obj _ _ e _) \<Rightarrow> Inl e
              | Inr _ \<Rightarrow> Inl ''not a commit'')"

definition move_branch :: "'o receive_env \<Rightarrow> string \<Rightarrow> 'o \<Rightarrow> 'o \<Rightarrow> ('o, unit) git_act" where
  "move_branch env ref_name expected_old new g =
     (case update_refs env
        [\<lparr>ru_name = ref_name, ru_expected_old = id_to_hex env expected_old, ru_new = id_to_hex env new\<rparr>] (gd_refs g) of
        Inl e \<Rightarrow> (Inl e, g)
      | Inr refs \<Rightarrow> (Inr (), g\<lparr>gd_refs := refs\<rparr>))"

section \<open>Merge commit and squash\<close>

definition branch_ref :: "string \<Rightarrow> string" where
  "branch_ref branch = ''refs/heads/'' @ branch"

definition both_tips :: "'o merge_env \<Rightarrow> string \<Rightarrow> string \<Rightarrow> ('o, 'o \<times> 'o) git_act" where
  "both_tips menv source_ref target_branch =
     git_bind (resolve_commit_id menv source_ref) (\<lambda>source_id.
       git_bind (resolve_commit_id menv (branch_ref target_branch)) (\<lambda>target_id.
         git_ok (source_id, target_id)))"

definition commit_merged ::
  "'o receive_env \<Rightarrow> 'o merge_env \<Rightarrow> ('o \<Rightarrow> 'o \<Rightarrow> 'o list) \<Rightarrow> string \<Rightarrow> string \<Rightarrow> string \<times> string \<Rightarrow> string
     \<Rightarrow> ('o, 'o) git_act" where
  "commit_merged env menv parents source_ref target_branch who message =
     git_bind (both_tips menv source_ref target_branch) (\<lambda>(source_id, target_id).
       git_bind (three_way_merged_tree env menv target_id source_id) (\<lambda>tree_id.
         git_bind (write_commit menv
             \<lparr>nc_tree = tree_id, nc_parents = parents target_id source_id, nc_author = signature_now menv who,
              nc_committer = signature_now menv who, nc_encoding = None, nc_message = message\<rparr>) (\<lambda>commit_id.
           git_bind (move_branch env (branch_ref target_branch) target_id commit_id) (\<lambda>_.
             git_ok commit_id))))"

definition merge_ref_into_branch ::
  "'o receive_env \<Rightarrow> 'o merge_env \<Rightarrow> string \<Rightarrow> string \<Rightarrow> string \<times> string \<Rightarrow> string \<Rightarrow> ('o, 'o) git_act" where
  "merge_ref_into_branch env menv = commit_merged env menv (\<lambda>target_id source_id. [target_id, source_id])"

definition squash_ref_into_branch ::
  "'o receive_env \<Rightarrow> 'o merge_env \<Rightarrow> string \<Rightarrow> string \<Rightarrow> string \<times> string \<Rightarrow> string \<Rightarrow> ('o, 'o) git_act" where
  "squash_ref_into_branch env menv = commit_merged env menv (\<lambda>target_id _. [target_id])"

definition merge_branches ::
  "'o receive_env \<Rightarrow> 'o merge_env \<Rightarrow> string \<Rightarrow> string \<Rightarrow> string \<times> string \<Rightarrow> string \<Rightarrow> ('o, 'o) git_act" where
  "merge_branches env menv source_branch = merge_ref_into_branch env menv (branch_ref source_branch)"

section \<open>Fast-forward\<close>

definition fast_forward_branch_to_ref ::
  "'o receive_env \<Rightarrow> 'o merge_env \<Rightarrow> string \<Rightarrow> string \<Rightarrow> ('o, 'o) git_act" where
  "fast_forward_branch_to_ref env menv source_ref target_branch =
     git_bind (both_tips menv source_ref target_branch) (\<lambda>(source_id, target_id).
       if source_id = target_id then git_ok source_id
       else git_bind (ask (\<lambda>g. common_base menv (live_odb env g) target_id source_id)) (\<lambda>base.
         if base \<noteq> target_id then git_fail GitNotFastForward
         else git_bind (move_branch env (branch_ref target_branch) target_id source_id) (\<lambda>_.
           git_ok source_id)))"

section \<open>Rebase\<close>

definition max_rebase_commits :: nat where
  "max_rebase_commits = 256"

text \<open>The first-parent chain from a commit back to, and without, the base: newest first. At a root it
  ends, whether or not the base was met.\<close>

function replay_chain :: "nat \<Rightarrow> 'o odb \<Rightarrow> 'o \<Rightarrow> 'o \<Rightarrow> 'o list \<Rightarrow> git_error + 'o list" where
  "replay_chain limit db base cursor acc =
     (if cursor = base then Inr acc
      else case find_commit db cursor of
             Inl e \<Rightarrow> Inl (GitGit e)
           | Inr _ \<Rightarrow>
               if limit < Suc (length acc) then Inl (GitGit ''refusing to rebase more than 256 commits'')
               else (case parent_list db cursor of
                       [] \<Rightarrow> Inr (acc @ [cursor])
                     | parent # _ \<Rightarrow> replay_chain limit db base parent (acc @ [cursor])))"
  by pat_completeness auto
termination
  by (relation "measure (\<lambda>(limit, db, base, cursor, acc). Suc limit - length acc)") auto

declare replay_chain.simps [simp del]

definition replay_one ::
  "'o receive_env \<Rightarrow> 'o merge_env \<Rightarrow> string \<times> string \<Rightarrow> 'o \<Rightarrow> 'o \<Rightarrow> ('o, 'o) git_act" where
  "replay_one env menv who tip original =
     git_bind (ask (\<lambda>g. find_commit (live_odb env g) original)) (\<lambda>commit.
       git_bind (\<lambda>g. case parent_list (live_odb env g) original of
                       [] \<Rightarrow> (Inr (empty_tree menv), g)
                     | parent # _ \<Rightarrow> tree_id_of env parent g) (\<lambda>parent_tree.
         git_bind (tree_id_of env tip) (\<lambda>our_tree.
           git_bind (tree_id_of env original) (\<lambda>their_tree.
             git_bind (ask (\<lambda>g. merge_three menv (live_odb env g) parent_tree our_tree their_tree)) (\<lambda>md.
               git_bind (write_merged_tree md) (\<lambda>new_tree.
                 git_bind (ask (\<lambda>_. commit_details_of menv commit)) (\<lambda>details.
                   write_commit menv
                     \<lparr>nc_tree = new_tree, nc_parents = [tip], nc_author = cd_author details,
                      nc_committer = signature_now menv who, nc_encoding = cd_encoding details,
                      nc_message = cd_message details\<rparr>)))))))"

fun replay_all ::
  "'o receive_env \<Rightarrow> 'o merge_env \<Rightarrow> string \<times> string \<Rightarrow> 'o \<Rightarrow> 'o list \<Rightarrow> ('o, 'o) git_act" where
  "replay_all env menv who tip [] = git_ok tip"
| "replay_all env menv who tip (original # rest) =
     git_bind (replay_one env menv who tip original) (\<lambda>tip'. replay_all env menv who tip' rest)"

definition rebase_ref_onto_branch ::
  "'o receive_env \<Rightarrow> 'o merge_env \<Rightarrow> string \<Rightarrow> string \<Rightarrow> string \<times> string \<Rightarrow> ('o, 'o) git_act" where
  "rebase_ref_onto_branch env menv source_ref target_branch who =
     git_bind (both_tips menv source_ref target_branch) (\<lambda>(source_id, target_id).
       git_bind (ask (\<lambda>g. common_base menv (live_odb env g) source_id target_id)) (\<lambda>base.
         git_bind (\<lambda>g. (replay_chain max_rebase_commits (live_odb env g) base source_id [], g)) (\<lambda>newest_first.
           if newest_first = [] then git_ok target_id
           else git_bind (merge_options menv) (\<lambda>_.
             git_bind (replay_all env menv who target_id (rev newest_first)) (\<lambda>tip.
               git_bind (move_branch env (branch_ref target_branch) target_id tip) (\<lambda>_.
                 git_ok tip))))))"

section \<open>All strategies\<close>

definition merge_pull_request ::
  "'o receive_env \<Rightarrow> 'o merge_env \<Rightarrow> string \<Rightarrow> string \<Rightarrow> merge_strategy \<Rightarrow> string \<times> string \<Rightarrow> string \<Rightarrow> ('o, 'o) git_act" where
  "merge_pull_request env menv source_ref target_branch strategy who message =
     (case strategy of
        Merge \<Rightarrow> merge_ref_into_branch env menv source_ref target_branch who message
      | Squash \<Rightarrow> squash_ref_into_branch env menv source_ref target_branch who message
      | Rebase \<Rightarrow> rebase_ref_onto_branch env menv source_ref target_branch who
      | FastForwardOnly \<Rightarrow> fast_forward_branch_to_ref env menv source_ref target_branch)"

section \<open>Importing a fork's branch\<close>

definition max_imported_objects :: int where
  "max_imported_objects = 100000"

text \<open>The walk takes the id put on the stack last. An object that the destination has prunes the walk; one
  that it has not is written before what it refers to.\<close>

function copy_walk ::
  "int \<Rightarrow> ('o \<Rightarrow> string option) \<Rightarrow> 'o odb \<Rightarrow> 'o odb \<Rightarrow> 'o list \<Rightarrow> int \<Rightarrow> 'o list \<Rightarrow> (git_error + int) \<times> 'o odb" where
  "copy_walk limit write_fails src dst seen copied [] = (Inr copied, dst)"
| "copy_walk limit write_fails src dst seen copied (x # stack) =
     (if x \<in> set seen then copy_walk limit write_fails src dst seen copied stack
      else if find_object dst x \<noteq> None then copy_walk limit write_fails src dst (x # seen) copied stack
      else case find_object src x of
             None \<Rightarrow> (Inl missing_object, dst)
           | Some ob \<Rightarrow>
               (case object_links ob of
                  Inl e \<Rightarrow> (Inl e, dst)
                | Inr ls \<Rightarrow>
                    (case write_fails x of
                       Some e \<Rightarrow> (Inl (GitGit e), dst)
                     | None \<Rightarrow>
                         if limit < copied + 1
                         then (Inl (GitGit ''cross-repo import exceeded 100000 objects''), dst @ [(x, ob)])
                         else copy_walk limit write_fails src (dst @ [(x, ob)]) (x # seen) (copied + 1) (rev ls @ stack))))"
  by pat_completeness auto
termination
  by (relation "measures [\<lambda>(limit, wf, src, dst, seen, copied, stack). nat (limit + 1 - copied),
      \<lambda>(limit, wf, src, dst, seen, copied, stack). length stack]") auto

definition force_set_ref :: "'o receive_env \<Rightarrow> string \<Rightarrow> 'o \<Rightarrow> ('o, unit) git_act" where
  "force_set_ref env name new g =
     (if \<not> valid_ref_name env name then (Inl (GitGit (''invalid ref name '' @ name)), g)
      else case transact env [\<lparr>re_name = name, re_change = ChUpdate PvAny new\<rparr>] (gd_refs g) of
             Inl e \<Rightarrow> (Inl (GitGit e), g)
           | Inr refs \<Rightarrow> (Inr (), g\<lparr>gd_refs := refs\<rparr>))"

text \<open>The result is the tip; the source repository is only read. The destination's own objects are found
  wherever they are, what is written becomes loose.\<close>

definition import_branch_tip ::
  "'o receive_env \<Rightarrow> 'o merge_env \<Rightarrow> ('o \<Rightarrow> string option) \<Rightarrow> 'o git_dir \<Rightarrow> string \<Rightarrow> string \<Rightarrow> ('o, 'o) git_act" where
  "import_branch_tip env menv write_fails src source_branch dest_ref g =
     (case resolve_ref menv src (branch_ref source_branch) of
        Inl e \<Rightarrow> (Inl (GitGit e), g)
      | Inr tip \<Rightarrow>
          (case copy_walk max_imported_objects write_fails (live_odb env src) (live_odb env g) [] 0 [tip] of
             (res, db) \<Rightarrow>
               (let g1 = add_objects (drop (length (live_odb env g)) db) g in
                case res of
                  Inl e \<Rightarrow> (Inl e, g1)
                | Inr _ \<Rightarrow> git_bind (force_set_ref env dest_ref tip) (\<lambda>_. git_ok tip) g1)))"

end
