(* ===== verification/Receive_Proofs.thy ===== *)
theory Receive_Proofs
  imports Receive
begin

text \<open>
  What receiving a push guarantees. A push lands as a whole or leaves no trace; a push that lands
  passed every check; and whatever it is answered, and whatever file operation fails on the way, every
  ref keeps pointing at objects that are all there. The two exceptions the code makes are theorems of
  their own.
\<close>

section \<open>Frames\<close>

lemma remove_dir_all_fields [simp]:
  "gd_loose (remove_dir_all env dir g) = gd_loose g" "gd_pack_dir (remove_dir_all env dir g) = gd_pack_dir g"
  "gd_refs (remove_dir_all env dir g) = gd_refs g" "gd_head (remove_dir_all env dir g) = gd_head g"
  by (simp_all add: remove_dir_all_def)

lemma rollback_fields [simp]:
  "gd_loose (rollback env moved g) = gd_loose g" "gd_incoming (rollback env moved g) = gd_incoming g"
  "gd_refs (rollback env moved g) = gd_refs g" "gd_head (rollback env moved g) = gd_head g"
  by (simp_all add: rollback_def)

lemma rename_into_fields [simp]:
  "gd_loose (rename_into f g) = gd_loose g" "gd_incoming (rename_into f g) = gd_incoming g"
  "gd_refs (rename_into f g) = gd_refs g" "gd_head (rename_into f g) = gd_head g"
  "set (gd_pack_dir (rename_into f g)) = insert f (set (gd_pack_dir g))"
  by (auto simp: rename_into_def)

lemma move_files_fields:
  assumes "move_files env moved fs g = (res, g')"
  shows "gd_loose g' = gd_loose g \<and> gd_incoming g' = gd_incoming g \<and> gd_refs g' = gd_refs g \<and> gd_head g' = gd_head g
    \<and> set (gd_pack_dir g) \<subseteq> set (gd_pack_dir g') \<and> set (gd_pack_dir g') \<subseteq> set (gd_pack_dir g) \<union> set fs
    \<and> (\<forall>m. res = Inr m \<longrightarrow> m = moved @ fs \<and> set fs \<subseteq> set (gd_pack_dir g'))"
  using assms
proof (induction env moved fs g arbitrary: g' rule: move_files.induct)
  case (2 env moved f fs g)
  show ?case
  proof (cases "rename_fails env f")
    case None
    then show ?thesis using "2.IH" [OF None] "2.prems" by auto
  qed (use "2.prems" in auto)
qed auto

definition pack_files :: "quarantine \<Rightarrow> pack_file list" where
  "pack_files q = List.map_filter (\<lambda>f. f) [q_pack_path q, q_index_path q]"

lemma promote_fields:
  assumes "promote env q g = (res, g')"
  shows "gd_loose g' = gd_loose g \<and> gd_refs g' = gd_refs g \<and> gd_head g' = gd_head g
    \<and> set (gd_pack_dir g) \<subseteq> set (gd_pack_dir g')
    \<and> set (gd_pack_dir g') \<subseteq> set (gd_pack_dir g) \<union> set (pack_files q)
    \<and> (\<forall>m. res = Inr m \<longrightarrow> m = pack_files q \<and> set m \<subseteq> set (gd_pack_dir g'))"
  using assms move_files_fields [of env "[]" "pack_files q" g]
  by (auto simp: promote_def pack_files_def split: prod.splits sum.splits)

lemma fix_unborn_head_fields [simp]:
  "gd_loose (fix_unborn_head env g) = gd_loose g" "gd_pack_dir (fix_unborn_head env g) = gd_pack_dir g"
  "gd_incoming (fix_unborn_head env g) = gd_incoming g" "gd_refs (fix_unborn_head env g) = gd_refs g"
  by (simp_all add: fix_unborn_head_def point_head_at_def split: option.splits)

section \<open>A refused push leaves no trace\<close>

definition files_obey :: "'o receive_env \<Rightarrow> bool" where
  "files_obey env \<longleftrightarrow> (\<forall>f. rename_fails env f = None \<and> \<not> remove_file_fails env f)
     \<and> \<not> remove_dir_fails env \<and> reopen_repo_fails env = None"

definition pack_is_new :: "'o receive_env \<Rightarrow> string \<Rightarrow> 'o git_dir \<Rightarrow> bool" where
  "pack_is_new env pack g \<longleftrightarrow>
     (case ingest env (live_odb env g) pack of
        Inr (Some h) \<Rightarrow> PackData h \<notin> set (gd_pack_dir g) \<and> PackIndex h \<notin> set (gd_pack_dir g)
      | _ \<Rightarrow> True)"

lemma write_pack_cases:
  assumes "write_pack env pack g = (res, g1)"
  obtains e where "res = Inl e" "g1 = g"
  | e where "res = Inl e"
      "g1 = remove_dir_all env (quarantine_dir env) (g\<lparr>gd_incoming := gd_incoming g @ [quarantine_dir env]\<rparr>)"
  | h where "ingest env (live_odb env g) pack = Inr h"
      "res = Inr \<lparr>q_dir = quarantine_dir env, q_pack_path = map_option PackData h, q_index_path = map_option PackIndex h\<rparr>"
      "g1 = g\<lparr>gd_incoming := gd_incoming g @ [quarantine_dir env]\<rparr>"
proof (cases "mkdir_fails env")
  case None
  show ?thesis
  proof (cases "ingest env (live_odb env g) pack")
    case (Inl e)
    then show ?thesis using that(2) [of "GitGit (''bad pack: '' @ e)"] assms None by (simp add: write_pack_def)
  next
    case (Inr h)
    then show ?thesis using that(3) [of h] assms None by (simp add: write_pack_def)
  qed
next
  case (Some e)
  then show ?thesis using that(1) [of "GitIo e"] assms by (simp add: write_pack_def)
qed

lemma remove_own_dir:
  "\<not> remove_dir_fails env \<Longrightarrow> dir \<notin> set (gd_incoming g) \<Longrightarrow>
   remove_dir_all env dir (g\<lparr>gd_incoming := gd_incoming g @ [dir]\<rparr>) = g"
  by (simp add: remove_dir_all_def)

lemma pack_files_of [simp]:
  "pack_files \<lparr>q_dir = d, q_pack_path = map_option PackData h, q_index_path = map_option PackIndex h\<rparr>
     = (case h of None \<Rightarrow> [] | Some h \<Rightarrow> [PackData h, PackIndex h])"
  by (simp add: pack_files_def List.map_filter_def split: option.splits)

lemma promote_and_rollback:
  assumes "files_obey env" "dir \<notin> set (gd_incoming g)"
    and "\<forall>i. h = Some i \<longrightarrow> PackData i \<notin> set (gd_pack_dir g) \<and> PackIndex i \<notin> set (gd_pack_dir g)"
    and "promote env \<lparr>q_dir = dir, q_pack_path = map_option PackData h, q_index_path = map_option PackIndex h\<rparr>
      (g\<lparr>gd_incoming := gd_incoming g @ [dir]\<rparr>) = (res, g')"
  shows "\<exists>m. res = Inr m \<and> rollback env m g' = g"
proof -
  have keep: "filter (\<lambda>f. f \<notin> {PackData i, PackIndex i}) (gd_pack_dir g) = gd_pack_dir g" if "h = Some i" for i
    using assms(3) that by (intro filter_True) auto
  show ?thesis
    using assms keep
    by (cases h)
      (auto simp: promote_def files_obey_def rename_into_def remove_dir_all_def rollback_def
        List.map_filter_def)
qed

text \<open>C14. A refused push leaves no trace. Where file operations succeed and the pack is not already in the
  repository, a push that is answered with an error, or with a report that refuses it, leaves the
  directory as it was: objects, pack files, quarantine, refs and \<^verbatim>\<open>HEAD\<close>.\<close>

theorem refused_push_leaves_no_trace:
  assumes "receive_blocking env checks commands pack g = (r, g')"
    and "commands \<noteq> []" "case r of Inl _ \<Rightarrow> True | Inr out \<Rightarrow> ro_applied out = []"
    and "files_obey env" "quarantine_dir env \<notin> set (gd_incoming g)" "pack_is_new env pack g"
  shows "g' = g"
proof -
  have landed: "g2 = g0" if "land_promoted env checks commands m g1 = (Inl e, g2)" "rollback env m g1 = g0"
    for m g0 g1 g2 and e :: string
    using that assms(4) by (auto simp: land_promoted_def files_obey_def Let_def split: option.splits sum.splits if_splits)
  have refused: "g2 = g" if "land env checks commands (length pack) None g = (Inl e, g2)" for e g2
    using that landed [of "[]" g] by (auto simp: land_def rollback_def split: option.splits)
  show ?thesis
  proof (cases "list_ex (\<lambda>c. new_oid c \<noteq> zero_id) commands")
    case False
    then show ?thesis
      using assms(1-3) refused by (auto simp: receive_blocking_def split: prod.splits sum.splits)
  next
    case True
    obtain res g1 where w: "write_pack env pack g = (res, g1)" by fastforce
    from w show ?thesis
    proof (cases rule: write_pack_cases)
      case (3 h)
      let ?q = "\<lparr>q_dir = quarantine_dir env, q_pack_path = map_option PackData h, q_index_path = map_option PackIndex h\<rparr>"
      obtain applied g2 where l: "land env checks commands (length pack) (Some ?q) g1 = (applied, g2)" by fastforce
      then obtain e where e: "applied = Inl e" "g' = g2"
        using assms(1-3) True w 3 by (auto simp: receive_blocking_def split: sum.splits)
      have d: "discard env ?q g1 = g"
        using assms(4,5) 3 by (simp add: discard_def files_obey_def remove_own_dir)
      obtain pres g3 where p: "promote env ?q g1 = (pres, g3)" by fastforce
      have "\<exists>m. pres = Inr m \<and> rollback env m g3 = g"
        using promote_and_rollback [OF assms(4,5), of h pres g3] assms(6) 3 p
        by (cases h) (auto simp: pack_is_new_def)
      then show ?thesis
        using l e d p landed by (auto simp: land_def split: option.splits)
    qed (use assms(1,4,5) True w in \<open>auto simp: receive_blocking_def files_obey_def remove_own_dir\<close>)
  qed
qed

section \<open>A push that lands\<close>

text \<open>What the library promises of a ref transaction: it succeeds only if every precondition holds on the
  refs as they are and no name occurs twice, and then makes all the changes and no other.\<close>

fun previous_holds :: "'o previous_value \<Rightarrow> 'o option \<Rightarrow> bool" where
  "previous_holds PvAny current = True"
| "previous_holds PvMustNotExist current = (current = None)"
| "previous_holds (PvMustExistAndMatch i) current = (current = Some i)"

definition edit_expected :: "'o ref_edit \<Rightarrow> 'o previous_value" where
  "edit_expected e = (case re_change e of ChDelete pv \<Rightarrow> pv | ChUpdate pv _ \<Rightarrow> pv)"

definition edit_value :: "'o ref_edit \<Rightarrow> 'o option" where
  "edit_value e = (case re_change e of ChDelete _ \<Rightarrow> None | ChUpdate _ i \<Rightarrow> Some i)"

definition transaction_law :: "'o receive_env \<Rightarrow> bool" where
  "transaction_law env \<longleftrightarrow>
     (\<forall>edits refs refs'. transact env edits refs = Inr refs' \<longrightarrow>
        distinct (map re_name edits)
        \<and> (\<forall>e\<in>set edits. previous_holds (edit_expected e) (map_of refs (re_name e))
             \<and> map_of refs' (re_name e) = edit_value e)
        \<and> (\<forall>n. n \<notin> re_name ` set edits \<longrightarrow> map_of refs' n = map_of refs n))"

text \<open>Object ids are 40 hex digits.\<close>

definition hex_law :: "'o receive_env \<Rightarrow> bool" where
  "hex_law env \<longleftrightarrow> (\<forall>h i. hex_to_id env h = Some i \<longrightarrow> length h = 40)"

definition claimed_old :: "'o receive_env \<Rightarrow> ref_command \<Rightarrow> 'o option" where
  "claimed_old env c = (if old_oid c = zero_id then None else hex_to_id env (old_oid c))"

definition wanted_new :: "'o receive_env \<Rightarrow> ref_command \<Rightarrow> 'o option" where
  "wanted_new env c = (if new_oid c = zero_id then None else hex_to_id env (new_oid c))"

lemma ref_edit_ok:
  assumes "ref_edit env u = Inr e"
  shows "re_name e = ru_name u"
    and "edit_value e = (if ru_new u = zero_id then None else hex_to_id env (ru_new u))"
    and "previous_holds (edit_expected e) current \<Longrightarrow> ru_expected_old u \<noteq> zero_id \<or> ru_new u \<noteq> zero_id \<Longrightarrow>
      current = (if ru_expected_old u = zero_id then None else hex_to_id env (ru_expected_old u))
      \<and> (ru_expected_old u \<noteq> zero_id \<longrightarrow> hex_to_id env (ru_expected_old u) \<noteq> None)"
    and "ru_new u \<noteq> zero_id \<Longrightarrow> hex_to_id env (ru_new u) \<noteq> None"
  using assms
  by (auto simp: ref_edit_def Let_def parse_ref_oid_def edit_value_def edit_expected_def
      split: if_splits option.splits)

lemma ref_edits_ok:
  "ref_edits env us = Inr es \<Longrightarrow> list_all2 (\<lambda>u e. ref_edit env u = Inr e) us es"
  by (induction us arbitrary: es) (auto split: sum.splits)

lemma ref_edits_names: "ref_edits env us = Inr es \<Longrightarrow> map re_name es = map ru_name us"
  by (induction us arbitrary: es) (auto split: sum.splits dest: ref_edit_ok(1))

lemma update_refs_ok:
  assumes "transaction_law env" "update_refs env (updates_of commands) refs = Inr refs'" "c \<in> set commands"
  shows "map_of refs' (cmd_ref_name c) = wanted_new env c"
    and "old_oid c \<noteq> zero_id \<or> new_oid c \<noteq> zero_id \<Longrightarrow>
      map_of refs (cmd_ref_name c) = claimed_old env c \<and> (old_oid c \<noteq> zero_id \<longrightarrow> hex_to_id env (old_oid c) \<noteq> None)"
    and "new_oid c \<noteq> zero_id \<Longrightarrow> hex_to_id env (new_oid c) \<noteq> None"
proof -
  have "updates_of commands \<noteq> []" using assms(3) by (auto simp: updates_of_def)
  then obtain es where es: "ref_edits env (updates_of commands) = Inr es" and t: "transact env es refs = Inr refs'"
    using assms(2) by (auto simp: update_refs_def split: sum.splits)
  let ?u = "\<lparr>ru_name = cmd_ref_name c, ru_expected_old = old_oid c, ru_new = new_oid c\<rparr>"
  have "?u \<in> set (updates_of commands)" using assms(3) by (auto simp: updates_of_def)
  then obtain e where e: "e \<in> set es" "ref_edit env ?u = Inr e"
    using ref_edits_ok [OF es] by (fastforce simp: list_all2_conv_all_nth in_set_conv_nth)
  note ok' = ref_edit_ok [OF e(2), simplified]
  have "map_of refs' (re_name e) = edit_value e" "previous_holds (edit_expected e) (map_of refs (re_name e))"
    using assms(1) t e(1) unfolding transaction_law_def by blast+
  then show "map_of refs' (cmd_ref_name c) = wanted_new env c"
    and "old_oid c \<noteq> zero_id \<or> new_oid c \<noteq> zero_id \<Longrightarrow>
      map_of refs (cmd_ref_name c) = claimed_old env c \<and> (old_oid c \<noteq> zero_id \<longrightarrow> hex_to_id env (old_oid c) \<noteq> None)"
    and "new_oid c \<noteq> zero_id \<Longrightarrow> hex_to_id env (new_oid c) \<noteq> None"
    using ok'(1,2,4) ok'(3) [of "map_of refs (cmd_ref_name c)"] by (auto simp: wanted_new_def claimed_old_def)
qed

lemma update_refs_others:
  assumes "transaction_law env" "update_refs env (updates_of commands) refs = Inr refs'"
    and "n \<notin> cmd_ref_name ` set commands"
  shows "map_of refs' n = map_of refs n"
proof (cases "commands = []")
  case True
  then show ?thesis using assms(2) by (simp add: update_refs_def updates_of_def)
next
  case False
  then obtain es where es: "ref_edits env (updates_of commands) = Inr es" and t: "transact env es refs = Inr refs'"
    using assms(2) by (auto simp: update_refs_def updates_of_def split: sum.splits)
  have "map re_name es = map cmd_ref_name commands"
    using ref_edits_names [OF es] by (simp add: updates_of_def comp_def)
  then have "set (map re_name es) = set (map cmd_ref_name commands)" by simp
  then have "n \<notin> re_name ` set es" using assms(3) by simp
  then show ?thesis using assms(1) t by (simp add: transaction_law_def)
qed

lemma land_promoted_ok:
  assumes "land_promoted env checks commands m g = (Inr u, g')"
  shows "\<exists>refs'. update_refs env (updates_of commands) (gd_refs g) = Inr refs' \<and> g' = g\<lparr>gd_refs := refs'\<rparr>
    \<and> (linear_history_ref_patterns checks \<noteq> [] \<or> signed_commit_ref_patterns checks \<noteq> [] \<longrightarrow>
       history_rejection (hex_to_id env) (id_to_hex env) (live_odb env g) checks commands = None)"
proof (cases "update_refs env (updates_of commands) (gd_refs g)")
  case (Inl e)
  then show ?thesis using assms by (simp add: land_promoted_def Let_def split: if_splits option.splits)
next
  case (Inr refs')
  then show ?thesis using assms by (simp add: land_promoted_def Let_def split: if_splits option.splits)
qed

lemma receive_landed:
  assumes "receive_blocking env checks commands pack g = (Inr out, g')" "ro_applied out \<noteq> []"
  obtains q g1 g2 m g3 where
    "q = None \<and> \<not> list_ex (\<lambda>c. new_oid c \<noteq> zero_id) commands \<and> g1 = g \<and> g2 = g \<and> m = []
     \<or> (\<exists>q'. q = Some q' \<and> write_pack env pack g = (Inr q', g1) \<and> promote env q' g1 = (Inr m, g2))"
    "pre_ingest_rejection checks commands (length pack) = None"
    "fsck_rejection env q commands g1 = None"
    "land_promoted env checks commands m g2 = (Inr (), g3)" "g' = fix_unborn_head env g3"
proof (cases "list_ex (\<lambda>c. new_oid c \<noteq> zero_id) commands")
  case False
  obtain a g3 where l: "land env checks commands (length pack) None g = (a, g3)" by fastforce
  then have "a = Inr ()" "g' = fix_unborn_head env g3"
    using assms False by (auto simp: receive_blocking_def split: sum.splits)
  moreover from this(1) l have "pre_ingest_rejection checks commands (length pack) = None"
    "land_promoted env checks commands [] g = (Inr (), g3)"
    by (auto simp: land_def split: option.splits)
  ultimately show ?thesis using that [of None g g "[]" g3] False by (simp add: fsck_rejection_def)
next
  case True
  obtain res g1 where w: "write_pack env pack g = (res, g1)" by fastforce
  obtain q where q: "res = Inr q" using assms True w by (cases res) (auto simp: receive_blocking_def)
  obtain a g3 where l: "land env checks commands (length pack) (Some q) g1 = (a, g3)" by fastforce
  then have a: "a = Inr ()" "g' = fix_unborn_head env g3"
    using assms True w q by (auto simp: receive_blocking_def split: sum.splits)
  obtain p g2 where p: "promote env q g1 = (p, g2)" by fastforce
  from l a(1) p obtain m where "p = Inr m" "pre_ingest_rejection checks commands (length pack) = None"
    "fsck_rejection env (Some q) commands g1 = None" "land_promoted env checks commands m g2 = (Inr (), g3)"
    by (cases p) (auto simp: land_def Let_def split: option.splits)
  then show ?thesis using that [of "Some q" g1 g2 m g3] w q p a(2) by simp
qed

lemma live_odb_cong:
  "gd_loose g = gd_loose g' \<Longrightarrow> gd_pack_dir g = gd_pack_dir g' \<Longrightarrow> live_odb env g = live_odb env g'"
  by (simp add: live_odb_def)

lemma write_pack_refs: "write_pack env pack g = (res, g1) \<Longrightarrow> gd_refs g1 = gd_refs g \<and> gd_loose g1 = gd_loose g
    \<and> gd_pack_dir g1 = gd_pack_dir g"
  by (erule write_pack_cases) auto

lemma receive_reported:
  assumes "receive_blocking env checks commands pack g = (Inr out, g')" "ro_applied out \<noteq> []"
  shows "map (\<lambda>a. (ar_name a, ar_old a, ar_new a)) (ro_applied out)
    = map (\<lambda>c. (cmd_ref_name c, old_oid c, new_oid c)) commands"
  using assms by (auto simp: receive_blocking_def comp_def split: prod.splits sum.splits if_splits)

text \<open>C13. A push that lands did so as a whole. Every ref it names had the value the command claimed (or
  did not exist, for a creation) and has the new one afterwards (or is gone, for a deletion), no
  other ref changed, none of them is closed to the pusher and the quota holds; and the applied refs
  reported are the commands, with their names, old and new values, in order. One kind of command
  claims no old value: one whose old and new ids are both zero asks for a deletion whatever the ref
  holds, and the ref is gone afterwards. The law is the ref transaction's.\<close>

theorem landed_push_is_atomic:
  assumes "receive_blocking env checks commands pack g = (Inr out, g')" "ro_applied out \<noteq> []"
    and "transaction_law env"
  shows "(\<forall>c\<in>set commands. map_of (gd_refs g') (cmd_ref_name c) = wanted_new env c
      \<and> (old_oid c = zero_id \<and> new_oid c = zero_id \<or> map_of (gd_refs g) (cmd_ref_name c) = claimed_old env c)
      \<and> \<not> any_pattern_matches (blocked_ref_patterns checks) (cmd_ref_name c))
    \<and> (\<forall>n. n \<notin> cmd_ref_name ` set commands \<longrightarrow> map_of (gd_refs g') n = map_of (gd_refs g) n)
    \<and> quota_rejection checks (length pack) = None
    \<and> map (\<lambda>a. (ar_name a, ar_old a, ar_new a)) (ro_applied out)
      = map (\<lambda>c. (cmd_ref_name c, old_oid c, new_oid c)) commands"
proof -
  note reported = receive_reported [OF assms(1,2)]
  from receive_landed [OF assms(1,2)] obtain q g1 g2 m g3 where
    src: "q = None \<and> \<not> list_ex (\<lambda>c. new_oid c \<noteq> zero_id) commands \<and> g1 = g \<and> g2 = g \<and> m = []
     \<or> (\<exists>q'. q = Some q' \<and> write_pack env pack g = (Inr q', g1) \<and> promote env q' g1 = (Inr m, g2))"
    and pre: "pre_ingest_rejection checks commands (length pack) = None"
    and "land_promoted env checks commands m g2 = (Inr (), g3)" and g': "g' = fix_unborn_head env g3" .
  from land_promoted_ok [OF this(3)] obtain refs' where
    u: "update_refs env (updates_of commands) (gd_refs g2) = Inr refs'" "g3 = g2\<lparr>gd_refs := refs'\<rparr>" by blast
  have "gd_refs g2 = gd_refs g" using src by (auto dest!: write_pack_refs promote_fields)
  then have u': "update_refs env (updates_of commands) (gd_refs g) = Inr (gd_refs g')" using u g' by simp
  have "blocked_ref_rejection checks commands = None" "quota_rejection checks (length pack) = None"
    using pre by (auto simp: pre_ingest_rejection_def split: option.splits)
  then show ?thesis
    using update_refs_ok [OF assms(3) u'] update_refs_others [OF assms(3) u'] reported
    by (auto simp: blocked_ref_rejection_def find_None_iff)
qed

section \<open>The shape of history\<close>

lemma added_walk_truncated:
  "added_walk limit db boundary commits stack = (cs, True) \<Longrightarrow> distinct commits \<Longrightarrow> set commits \<inter> set boundary = {} \<Longrightarrow>
   finite (set commits \<union> reachable_from (parent_list db) (set stack)) \<Longrightarrow>
   limit < int (card (set commits \<union> reachable_from (parent_list db) (set stack)))"
proof (induction limit db boundary commits stack rule: added_walk.induct)
  case (2 limit db boundary commits x stack)
  note split = reachable_stack [of "parent_list db" x stack]
  have sub: "set commits \<union> reachable_from (parent_list db) (set stack)
      \<subseteq> set commits \<union> reachable_from (parent_list db) (set (x # stack))"
    using reachable_mono [OF set_subset_Cons, of "parent_list db" stack x] by blast
  consider "x \<in> set boundary \<or> x \<in> set commits"
    | "\<not> (x \<in> set boundary \<or> x \<in> set commits)" "limit \<le> int (length commits)"
    | "\<not> (x \<in> set boundary \<or> x \<in> set commits)" "\<not> limit \<le> int (length commits)" by blast
  then show ?case
  proof cases
    case 1
    have "limit < int (card (set commits \<union> reachable_from (parent_list db) (set stack)))"
      using "2.IH"(1) [OF 1] "2.prems" 1 finite_subset [OF sub "2.prems"(4)] by (simp add: added_walk.simps(2))
    then show ?thesis using card_mono [OF "2.prems"(4) sub] by simp
  next
    case 2
    have "insert x (set commits) \<subseteq> set commits \<union> reachable_from (parent_list db) (set (x # stack))"
      using split by auto
    from card_mono [OF "2.prems"(4) this] show ?thesis
      using 2 "2.prems"(2) by (simp add: distinct_card)
  next
    case 3
    have eq: "set (commits @ [x]) \<union> reachable_from (parent_list db) (set (rev (parent_list db x) @ stack))
        = set commits \<union> reachable_from (parent_list db) (set (x # stack))"
      using split by auto
    have "added_walk limit db boundary (commits @ [x]) (rev (parent_list db x) @ stack) = (cs, True)"
      using "2.prems"(1) 3 by (simp add: added_walk.simps(2))
    from "2.IH"(2) [OF 3 this] show ?thesis
      unfolding eq using "2.prems"(2-4) 3 by simp
  qed
qed simp

lemma added_commits_not_truncated:
  assumes "added_commits from_hex db old_hex new_hex = Inr added" "from_hex new_hex = Some new"
    and "finite (ancestors db new)" "int (card (ancestors db new)) \<le> max_walk"
  shows "\<not> ac_truncated added"
proof
  assume "ac_truncated added"
  then obtain boundary cs where "added_walk max_walk db boundary [] [new] = (cs, True)"
    using assms(1,2) by (auto simp: added_commits_def parse_oid_def Let_def split: sum.splits prod.splits)
  from added_walk_truncated [OF this] show False using assms(3,4) by (simp add: ancestors_def)
qed

lemma any_pattern_nonempty: "any_pattern_matches ps r \<Longrightarrow> ps \<noteq> []"
  by (auto simp: any_pattern_matches_def)

text \<open>C30. Protected branches keep their shape. When a push lands, a branch that must keep a linear history
  moves from a commit to one of its descendants, and, if the new tip has at most 4000 ancestors, none
  of the commits it gains is a merge; on a branch that requires signatures, under the same bound,
  every commit it gains is signed. The old value is the ref's own, not the one the client claimed.\<close>

theorem landed_push_keeps_shape:
  assumes "receive_blocking env checks commands pack g = (Inr out, g')" "ro_applied out \<noteq> []"
    and "transaction_law env" "hex_law env"
    and "c \<in> set commands" "map_of (gd_refs g') (cmd_ref_name c) = Some new"
  shows "(any_pattern_matches (linear_history_ref_patterns checks) (cmd_ref_name c) \<longrightarrow>
      (case map_of (gd_refs g) (cmd_ref_name c) of None \<Rightarrow> True | Some old \<Rightarrow> old \<in> ancestors (live_odb env g') new)
      \<and> (finite (ancestors (live_odb env g') new) \<and> int (card (ancestors (live_odb env g') new)) \<le> max_walk \<longrightarrow>
          (\<forall>x\<in>ancestors (live_odb env g') new
               - old_history (live_odb env g') (map_of (gd_refs g) (cmd_ref_name c)).
             \<not> is_merge_commit (live_odb env g') x)))
    \<and> (any_pattern_matches (signed_commit_ref_patterns checks) (cmd_ref_name c)
        \<and> finite (ancestors (live_odb env g') new) \<and> int (card (ancestors (live_odb env g') new)) \<le> max_walk \<longrightarrow>
          (\<forall>x\<in>ancestors (live_odb env g') new
               - old_history (live_odb env g') (map_of (gd_refs g) (cmd_ref_name c)).
             commit_is_signed (live_odb env g') x))"
proof -
  from receive_landed [OF assms(1,2)] obtain q g1 g2 m g3 where
    src: "q = None \<and> \<not> list_ex (\<lambda>c. new_oid c \<noteq> zero_id) commands \<and> g1 = g \<and> g2 = g \<and> m = []
     \<or> (\<exists>q'. q = Some q' \<and> write_pack env pack g = (Inr q', g1) \<and> promote env q' g1 = (Inr m, g2))"
    and land: "land_promoted env checks commands m g2 = (Inr (), g3)" and g': "g' = fix_unborn_head env g3" .
  from land_promoted_ok [OF land] obtain refs' where
    u: "update_refs env (updates_of commands) (gd_refs g2) = Inr refs'" "g3 = g2\<lparr>gd_refs := refs'\<rparr>"
    and hist: "linear_history_ref_patterns checks \<noteq> [] \<or> signed_commit_ref_patterns checks \<noteq> [] \<longrightarrow>
       history_rejection (hex_to_id env) (id_to_hex env) (live_odb env g2) checks commands = None" by blast
  have db: "live_odb env g' = live_odb env g2" using g' u(2) by (intro live_odb_cong) simp_all
  have "gd_refs g2 = gd_refs g" using src by (auto dest!: write_pack_refs promote_fields)
  then have u': "update_refs env (updates_of commands) (gd_refs g) = Inr (gd_refs g')" using u g' by simp
  note facts = update_refs_ok [OF assms(3) u' assms(5)]
  have new: "new_oid c \<noteq> zero_id" "hex_to_id env (new_oid c) = Some new"
    using facts(1) assms(6) by (auto simp: wanted_new_def split: if_splits)
  define old where "old = map_of (gd_refs g) (cmd_ref_name c)"
  have parse: "parse_old (hex_to_id env) (old_oid c) = Inr old"
  proof (cases "old_oid c = zero_id")
    case True
    then show ?thesis
      using facts(2) new(1) by (simp add: parse_old_def old_def claimed_old_def zero_id_def list_all_iff)
  next
    case False
    then obtain i where i: "hex_to_id env (old_oid c) = Some i" using facts(2) by auto
    have "old_oid c = replicate 40 (CHR ''0'')" if "list_all (\<lambda>x. x = CHR ''0'') (old_oid c)"
      using that assms(4) i by (simp add: hex_law_def list_all_iff replicate_eqI)
    moreover have "old_oid c \<noteq> []" using assms(4) i by (auto simp: hex_law_def)
    ultimately show ?thesis
      using False facts(2) i by (auto simp: parse_old_def parse_oid_def old_def claimed_old_def zero_id_def)
  qed
  obtain added where added: "added_commits (hex_to_id env) (live_odb env g') (old_oid c) (new_oid c) = Inr added"
    using new parse by (simp add: added_commits_def parse_oid_def Let_def case_prod_beta)
  have rej: "command_rejection (hex_to_id env) (id_to_hex env) (live_odb env g') checks c = None"
    if "any_pattern_matches (linear_history_ref_patterns checks) (cmd_ref_name c)
      \<or> any_pattern_matches (signed_commit_ref_patterns checks) (cmd_ref_name c)"
    using hist that any_pattern_nonempty assms(5) unfolding db history_rejection_None by blast
  have nt: "\<not> ac_truncated added"
    if "finite (ancestors (live_odb env g') new)" "int (card (ancestors (live_odb env g') new)) \<le> max_walk"
    using added_commits_not_truncated [OF added new(2) that] .
  note acc = command_accepted [OF rej new parse added]
  show ?thesis
    unfolding old_def [symmetric] using acc(1) acc(2) nt by blast
qed

section \<open>Refs point at complete histories\<close>

definition intact :: "'o odb \<Rightarrow> 'o \<Rightarrow> bool" where
  "intact db i \<longleftrightarrow> (\<forall>y\<in>object_closure db [i]. \<exists>ob ls. find_object db y = Some ob \<and> object_links ob = Inr ls)"

definition refs_intact :: "'o receive_env \<Rightarrow> 'o git_dir \<Rightarrow> bool" where
  "refs_intact env g \<longleftrightarrow> (\<forall>n i. map_of (gd_refs g) n = Some i \<longrightarrow> intact (live_odb env g) i)"

text \<open>Ids are hashes: wherever an id is stored, it names the same object.\<close>

definition addressed :: "('o \<Rightarrow> 'o git_object) \<Rightarrow> 'o odb \<Rightarrow> bool" where
  "addressed F db \<longleftrightarrow> (\<forall>(i, ob)\<in>set db. ob = F i)"

definition content_addressed :: "('o \<Rightarrow> 'o git_object) \<Rightarrow> 'o receive_env \<Rightarrow> 'o git_dir \<Rightarrow> bool" where
  "content_addressed F env g \<longleftrightarrow> addressed F (gd_loose g) \<and> (\<forall>h. addressed F (contents env h))"

lemma addressed_find:
  "addressed F db \<Longrightarrow> find_object db i = (if i \<in> fst ` set db then Some (F i) else None)"
proof (cases "find_object db i")
  case None
  then show ?thesis by (simp add: find_object_def map_of_eq_None_iff)
next
  case (Some ob)
  then have "(i, ob) \<in> set db" by (simp add: find_object_def map_of_SomeD)
  moreover assume "addressed F db"
  ultimately show ?thesis using Some by (force simp: addressed_def)
qed

lemma intact_grows:
  assumes "addressed F db'" "set db \<subseteq> set db'" "intact db i"
  shows "intact db' i"
proof -
  have a: "addressed F db" using assms(1,2) by (auto simp: addressed_def)
  have same: "find_object db' y = find_object db y" if "find_object db y \<noteq> None" for y
    using that assms(2) by (auto simp: addressed_find [OF a] addressed_find [OF assms(1)] split: if_splits)
  have "y \<in> object_closure db [i]" if "y \<in> object_closure db' [i]" for y
    using that unfolding object_closure_def
  proof (induction rule: reachable_induct)
    case (step x y)
    then have "find_object db x \<noteq> None" using assms(3) by (auto simp: intact_def object_closure_def)
    then have "links_of db' x = links_of db x" using same by (simp add: links_of_def)
    then show ?case using step by auto
  qed auto
  then show ?thesis using assms(3) same unfolding intact_def by (metis option.discI)
qed

lemma intact_found: "intact db i \<Longrightarrow> set db = set db' \<Longrightarrow> addressed F db \<Longrightarrow> intact db' i"
  by (rule intact_grows [where F = F]) (auto simp: addressed_def)

lemma fsck_walk_sound:
  assumes "fsck_walk limit pack db seen visited queue = Inr ()" "closed_up (links_of (pack @ db)) {} (set seen) queue"
    and "\<forall>x\<in>set seen. \<exists>ob ls. find_object (pack @ db) x = Some ob \<and> object_links ob = Inr ls"
  shows "\<exists>s. set seen \<union> set queue \<subseteq> s \<and> closed_up (links_of (pack @ db)) {} s []
    \<and> (\<forall>x\<in>s. \<exists>ob ls. find_object (pack @ db) x = Some ob \<and> object_links ob = Inr ls)"
  using assms
proof (induction limit pack db seen visited queue rule: fsck_walk.induct)
  case (1 limit pack db seen visited)
  then show ?case by auto
next
  case (2 limit pack db seen visited x queue)
  have both: "find_object (pack @ db) x = (case find_object pack x of Some ob \<Rightarrow> Some ob | None \<Rightarrow> find_object db x)"
    by (simp add: find_object_def map_add_def split: option.splits)
  show ?case
  proof (cases "x \<in> set seen")
    case True
    have "closed_up (links_of (pack @ db)) {} (set seen) queue"
      using "2.prems"(2) True by (auto dest: closed_up_skip)
    from "2.IH"(1) [OF True _ this "2.prems"(3)] show ?thesis using "2.prems"(1) True by auto
  next
    case new: False
    have l: "\<not> limit < visited + 1" using "2.prems"(1) new by auto
    obtain ob where ob: "(case find_object pack x of Some ob \<Rightarrow> Some ob | None \<Rightarrow> find_object db x) = Some ob"
      using "2.prems"(1) new l by (auto split: option.splits)
    obtain ls where ls: "object_links ob = Inr ls"
      using "2.prems"(1) new l ob by (cases "object_links ob") auto
    have f: "find_object (pack @ db) x = Some ob" using both ob by simp
    have "links_of (pack @ db) x = ls" using f ls by (simp add: links_of_def)
    then have "closed_up (links_of (pack @ db)) {} (set (x # seen)) (queue @ ls)"
      using closed_up_expand [OF "2.prems"(2), of "queue @ ls"] by simp
    from "2.IH"(2) [OF new l ob ls _ this] show ?thesis
      using "2.prems"(1,3) new l ob ls f by auto
  qed
qed

lemma fsck_walk_intact:
  assumes "fsck_walk limit pack db [] 0 tips = Inr ()" "i \<in> set tips"
  shows "intact (pack @ db) i"
proof -
  obtain s where s: "set tips \<subseteq> s" "closed_up (links_of (pack @ db)) {} s []"
    "\<forall>x\<in>s. \<exists>ob ls. find_object (pack @ db) x = Some ob \<and> object_links ob = Inr ls"
    using fsck_walk_sound [OF assms(1)] by auto
  have "object_closure (pack @ db) [i] \<subseteq> s"
    unfolding object_closure_def
    using closed_up_covers [OF s(2), of "{i}"] s(1) assms(2) by (auto simp: reachable_from_def)
  then show ?thesis using s(3) by (auto simp: intact_def)
qed

lemma new_tips_Inr:
  "new_tips env cs = Inr is \<Longrightarrow> c \<in> set cs \<Longrightarrow> new_oid c \<noteq> zero_id \<Longrightarrow> \<exists>i\<in>set is. hex_to_id env (new_oid c) = Some i"
  by (induction cs arbitrary: "is") (auto split: if_splits option.splits sum.splits)

lemma live_odb_mono:
  assumes "gd_loose g' = gd_loose g" "set (gd_pack_dir g) \<subseteq> set (gd_pack_dir g')"
  shows "set (live_odb env g) \<subseteq> set (live_odb env g')"
proof -
  have "set (live_pack env (gd_pack_dir g) f) \<subseteq> set (live_pack env (gd_pack_dir g') f)" for f
    using assms(2) by (auto simp: live_pack_def split: pack_file.splits)
  then show ?thesis using assms by (fastforce simp: live_odb_def)
qed

lemma live_odb_addressed: "content_addressed F env g \<Longrightarrow> gd_loose g' = gd_loose g \<Longrightarrow> addressed F (live_odb env g')"
  by (fastforce simp: content_addressed_def addressed_def live_odb_def live_pack_def split: pack_file.splits if_splits)

lemma refs_intact_grows:
  assumes "refs_intact env g" "gd_refs g' = gd_refs g" "gd_loose g' = gd_loose g"
    "set (gd_pack_dir g) \<subseteq> set (gd_pack_dir g')" "content_addressed F env g"
  shows "refs_intact env g'"
  using assms intact_grows [OF live_odb_addressed [OF assms(5,3)] live_odb_mono [OF assms(3,4)]]
  by (auto simp: refs_intact_def)

lemma land_promoted_frame:
  assumes "land_promoted env checks commands m g = (a, g')"
  shows "gd_loose g' = gd_loose g \<and> set (gd_pack_dir g) - set m \<subseteq> set (gd_pack_dir g')
    \<and> (isl a \<longrightarrow> gd_refs g' = gd_refs g)"
  using assms
  by (auto simp: land_promoted_def Let_def rollback_def split: if_splits option.splits sum.splits)

lemma land_frame:
  assumes "land env checks commands n q g = (a, g')"
    and "\<forall>q'. q = Some q' \<longrightarrow> set (pack_files q') \<inter> set (gd_pack_dir g) = {}"
  shows "gd_loose g' = gd_loose g \<and> set (gd_pack_dir g) \<subseteq> set (gd_pack_dir g') \<and> (isl a \<longrightarrow> gd_refs g' = gd_refs g)"
proof (cases "pre_ingest_rejection checks commands n = None \<and> fsck_rejection env q commands g = None")
  case False
  then show ?thesis
    using assms(1) by (auto simp: land_def Let_def discard_def split: option.splits)
next
  case True
  show ?thesis
  proof (cases q)
    case None
    then show ?thesis
      using True assms(1) land_promoted_frame [of env checks commands "[]" g a g'] by (simp add: land_def)
  next
    case (Some q')
    obtain p g2 where p: "promote env q' g = (p, g2)" by fastforce
    note f = promote_fields [OF p]
    show ?thesis
    proof (cases p)
      case (Inl e)
      then show ?thesis using True Some p f assms(1) by (auto simp: land_def)
    next
      case (Inr m)
      then have "land_promoted env checks commands m g2 = (a, g')"
        using True Some p assms(1) by (simp add: land_def)
      note lf = land_promoted_frame [OF this]
      have "set (gd_pack_dir g) \<subseteq> set (gd_pack_dir g2) - set m" using f Inr assms(2) Some by auto
      then show ?thesis using lf f by auto
    qed
  qed
qed

lemma receive_frame:
  assumes "receive_blocking env checks commands pack g = (r, g')" "pack_is_new env pack g" "commands \<noteq> []"
  shows "gd_loose g' = gd_loose g \<and> set (gd_pack_dir g) \<subseteq> set (gd_pack_dir g')
    \<and> (gd_refs g' = gd_refs g \<or> (\<exists>out. r = Inr out \<and> ro_applied out \<noteq> []))"
proof -
  have fin: ?thesis
    if l: "land env checks commands (length pack) q g1 = (a, g2)"
      and same: "gd_loose g1 = gd_loose g" "gd_pack_dir g1 = gd_pack_dir g" "gd_refs g1 = gd_refs g"
      and new: "\<forall>q'. q = Some q' \<longrightarrow> set (pack_files q') \<inter> set (gd_pack_dir g1) = {}"
      and g': "g' = (case a of Inl _ \<Rightarrow> g2 | Inr _ \<Rightarrow> fix_unborn_head env g2)"
      and r: "r = Inr \<lparr>ro_response = report a commands,
          ro_applied = (case a of Inl _ \<Rightarrow> []
            | Inr _ \<Rightarrow> map (\<lambda>c. \<lparr>ar_name = cmd_ref_name c, ar_old = old_oid c, ar_new = new_oid c\<rparr>) commands)\<rparr>"
    for q g1 a g2
  proof -
    note f = land_frame [OF l new]
    show ?thesis using f same g' r assms(3) by (cases a) auto
  qed
  show ?thesis
  proof (cases "list_ex (\<lambda>c. new_oid c \<noteq> zero_id) commands")
    case False
    obtain a g2 where l: "land env checks commands (length pack) None g = (a, g2)" by fastforce
    show ?thesis by (rule fin [OF l]) (use assms(1) False l in \<open>auto simp: receive_blocking_def\<close>)
  next
    case True
    obtain res g1 where w: "write_pack env pack g = (res, g1)" by fastforce
    from w show ?thesis
    proof (cases rule: write_pack_cases)
      case (3 h)
      let ?q = "\<lparr>q_dir = quarantine_dir env, q_pack_path = map_option PackData h, q_index_path = map_option PackIndex h\<rparr>"
      obtain a g2 where l: "land env checks commands (length pack) (Some ?q) g1 = (a, g2)" by fastforce
      show ?thesis
        by (rule fin [OF l])
          (use assms True l w 3 in \<open>auto simp: receive_blocking_def pack_is_new_def split: option.splits\<close>)
    qed (use assms(1) True w in \<open>auto simp: receive_blocking_def\<close>)
  qed
qed

lemma landed_refs_intact:
  assumes "receive_blocking env checks commands pack g = (r, g')" "refs_intact env g"
    and "transaction_law env" "content_addressed F env g"
    and "r = Inr out" "ro_applied out \<noteq> []"
    and "gd_loose g' = gd_loose g" "set (gd_pack_dir g) \<subseteq> set (gd_pack_dir g')"
  shows "refs_intact env g'"
proof -
  note out = assms(5,6) and grow = assms(7,8)
  note run = assms(1) [unfolded out(1)]
  from receive_landed [OF run out(2)] obtain q g1 g2 m g3 where
    src: "q = None \<and> \<not> list_ex (\<lambda>c. new_oid c \<noteq> zero_id) commands \<and> g1 = g \<and> g2 = g \<and> m = []
     \<or> (\<exists>q'. q = Some q' \<and> write_pack env pack g = (Inr q', g1) \<and> promote env q' g1 = (Inr m, g2))"
    and ck: "fsck_rejection env q commands g1 = None"
    and land: "land_promoted env checks commands m g2 = (Inr (), g3)" and g': "g' = fix_unborn_head env g3" .
  note whole = landed_push_is_atomic [OF run out(2) assms(3)]
  have addr: "addressed F (live_odb env g')" using live_odb_addressed [OF assms(4) grow(1)] .
  have packs: "gd_pack_dir g' = gd_pack_dir g2" using land_promoted_ok [OF land] g' by auto
  show ?thesis
    unfolding refs_intact_def
  proof (intro allI impI)
    fix n i assume n: "map_of (gd_refs g') n = Some i"
    show "intact (live_odb env g') i"
    proof (cases "n \<in> cmd_ref_name ` set commands")
      case False
      then have "intact (live_odb env g) i" using n whole assms(2) by (simp add: refs_intact_def)
      then show ?thesis by (rule intact_grows [OF addr live_odb_mono [OF grow]])
    next
      case True
      then obtain c where c: "c \<in> set commands" "n = cmd_ref_name c" by blast
      then have new: "new_oid c \<noteq> zero_id" "hex_to_id env (new_oid c) = Some i"
        using n whole by (auto simp: wanted_new_def split: if_splits)
      then obtain q' where q': "q = Some q'" "write_pack env pack g = (Inr q', g1)" "promote env q' g1 = (Inr m, g2)"
        using src c(1) by (auto simp: list_ex_iff)
      then obtain tips where tips: "new_tips env commands = Inr tips" "fsck env q' g1 tips = Inr ()"
        using ck by (auto simp: fsck_rejection_def split: sum.splits)
      have "i \<in> set tips" using new_tips_Inr [OF tips(1) c(1) new(1)] new(2) by auto
      then have "intact (quarantined_odb env q' @ live_odb env g1) i"
        using tips(2) fsck_walk_intact by (force simp: fsck_def split: option.splits)
      moreover have "set (quarantined_odb env q' @ live_odb env g1) \<subseteq> set (live_odb env g')"
      proof -
        have "set (live_odb env g1) \<subseteq> set (live_odb env g')"
          using live_odb_mono [of g' g1] write_pack_refs [OF q'(2)] grow by simp
        moreover have "set (quarantined_odb env q') \<subseteq> set (live_odb env g')"
        proof (cases "q_index_path q'")
          case (Some f)
          then obtain h where h: "q_index_path q' = Some (PackIndex h)" "q_pack_path q' = Some (PackData h)"
            using q'(2) by (rule_tac write_pack_cases [OF q'(2)]) auto
          then have "{PackData h, PackIndex h} \<subseteq> set (gd_pack_dir g')"
            using promote_fields [OF q'(3)] packs by (auto simp: pack_files_def List.map_filter_def)
          then show ?thesis using h by (fastforce simp: quarantined_odb_def live_odb_def live_pack_def)
        qed (simp add: quarantined_odb_def)
        ultimately show ?thesis by simp
      qed
      ultimately show ?thesis by (rule intact_grows [OF addr, rotated])
    qed
  qed
qed

text \<open>C12. Refs always point at complete histories. If every ref of a repository points at an object whose
  whole closure is there and readable, this is still so after a push, whatever the push contains,
  whether it lands or is refused, and whichever file operation fails on the way; provided its pack is
  not one the repository already has.\<close>

theorem push_keeps_refs_intact:
  assumes "apply_receive_pack env checks commands pack g = (r, g')" "refs_intact env g"
    and "transaction_law env" "content_addressed F env g" "pack_is_new env pack g"
  shows "refs_intact env g'"
proof (cases "commands = []")
  case True
  then show ?thesis using assms(1,2) by (simp add: apply_receive_pack_def)
next
  case False
  then have recv: "receive_blocking env checks commands pack g = (r, g')"
    using assms(1) by (simp add: apply_receive_pack_def)
  note frame = receive_frame [OF recv assms(5) False]
  show ?thesis
  proof (cases "gd_refs g' = gd_refs g")
    case True
    then show ?thesis using frame refs_intact_grows assms(2,4) by blast
  next
    case False
    then show ?thesis using landed_refs_intact [OF recv assms(2-4)] frame by blast
  qed
qed

section \<open>A concrete repository\<close>

text \<open>Ids are the letters their hex form repeats; a pack is named by its text. One pack, P,
  adds commit b on top of commit a, both with the empty tree t.\<close>

definition apply_edit :: "'o ref_edit \<Rightarrow> 'o refs \<Rightarrow> 'o refs" where
  "apply_edit e refs =
     (case edit_value e of None \<Rightarrow> [] | Some i \<Rightarrow> [(re_name e, i)]) @ filter (\<lambda>r. fst r \<noteq> re_name e) refs"

definition simple_transact :: "'o ref_edit list \<Rightarrow> 'o refs \<Rightarrow> string + 'o refs" where
  "simple_transact edits refs =
     (if distinct (map re_name edits)
         \<and> list_all (\<lambda>e. previous_holds (edit_expected e) (map_of refs (re_name e))) edits
      then Inr (fold apply_edit edits refs) else Inl ''stale'')"

definition id_a :: char where "id_a = CHR ''a''"
definition id_b :: char where "id_b = CHR ''b''"
definition id_t :: char where "id_t = CHR ''t''"

definition simple_env :: "char receive_env" where
  "simple_env =
    \<lparr>hex_to_id = (\<lambda>h. if length h = 40 then Some (hd h) else None),
     id_to_hex = replicate 40,
     ingest = (\<lambda>_ pack. Inr (Some pack)),
     contents = (\<lambda>h. if h = ''P'' then [(id_b, Commit_obj ''b'' id_t [id_a] [] (Inr 1))] else []),
     valid_ref_name = (\<lambda>_. True), transact = simple_transact, quarantine_dir = ''incoming'',
     mkdir_fails = None, reopen_index_fails = None, rename_fails = (\<lambda>_. None),
     remove_dir_fails = False, remove_file_fails = (\<lambda>_. False), reopen_repo_fails = None,
     head_edit_fails = False\<rparr>"

definition simple_dir :: "char git_dir" where
  "simple_dir =
    \<lparr>gd_loose = [(id_a, Commit_obj ''a'' id_t [] [] (Inr 0)), (id_t, Tree_obj ''t'' [])],
     gd_pack_dir = [], gd_incoming = [], gd_refs = [(''refs/heads/main'', id_a)],
     gd_head = HeadSymbolic ''refs/heads/main''\<rparr>"

definition main_linear :: receive_checks where
  "main_linear =
    \<lparr>blocked_ref_patterns = [], linear_history_ref_patterns = [''refs/heads/main''],
     signed_commit_ref_patterns = [], max_repo_bytes = None, current_repo_bytes = 0\<rparr>"

definition push_main :: "char \<Rightarrow> ref_command list" where
  "push_main old =
     [\<lparr>old_oid = replicate 40 old, new_oid = replicate 40 (CHR ''b''), cmd_ref_name = ''refs/heads/main''\<rparr>]"

lemma map_of_apply_edit: "map_of (apply_edit e refs) = (map_of refs)(re_name e := edit_value e)"
proof -
  have "map_of (filter (\<lambda>r. fst r \<noteq> n) refs) = (map_of refs)(n := None)" for n
    by (induction refs) (auto simp: fun_eq_iff)
  then show ?thesis by (auto simp: apply_edit_def fun_eq_iff split: option.splits)
qed

lemma map_of_apply_edits:
  "distinct (map re_name es) \<Longrightarrow>
   (\<forall>e\<in>set es. map_of (fold apply_edit es refs) (re_name e) = edit_value e)
   \<and> (\<forall>n. n \<notin> re_name ` set es \<longrightarrow> map_of (fold apply_edit es refs) n = map_of refs n)"
  by (induction es arbitrary: refs) (auto simp: map_of_apply_edit)

lemma simple_transaction_law: "transaction_law simple_env"
  using map_of_apply_edits
  by (auto simp: transaction_law_def simple_env_def simple_transact_def list_all_iff split: if_splits)

lemma simple_hex_law: "hex_law simple_env"
  by (simp add: hex_law_def simple_env_def)

definition simple_object :: "char \<Rightarrow> char git_object" where
  "simple_object i =
     (if i = id_a then Commit_obj ''a'' id_t [] [] (Inr 0) else if i = id_b then Commit_obj ''b'' id_t [id_a] [] (Inr 1)
      else Tree_obj ''t'' [])"

lemma simple_addressed: "content_addressed simple_object simple_env simple_dir"
  by (simp add: content_addressed_def addressed_def simple_env_def simple_dir_def simple_object_def
      id_a_def id_b_def id_t_def)

lemma simple_live: "live_odb simple_env simple_dir = gd_loose simple_dir"
  by (simp add: live_odb_def simple_dir_def)

lemma simple_refs_intact: "refs_intact simple_env simple_dir"
proof -
  have "fsck_walk 10 [] (gd_loose simple_dir) [] 0 [id_a] = Inr ()" by code_simp
  from fsck_walk_intact [OF this] have "intact (gd_loose simple_dir) id_a" by simp
  then show ?thesis by (simp add: refs_intact_def simple_live) (simp add: simple_dir_def)
qed

lemma simple_pack_new: "pack_is_new simple_env ''P'' simple_dir"
  by (simp add: pack_is_new_def simple_env_def simple_dir_def)

lemma simple_files: "files_obey simple_env" "quarantine_dir simple_env \<notin> set (gd_incoming simple_dir)"
  by (simp_all add: files_obey_def simple_env_def simple_dir_def)

definition main_moved :: "(string + receive_outcome) \<times> char git_dir" where
  "main_moved = receive_blocking simple_env main_linear (push_main (CHR ''a'')) ''P'' simple_dir"

lemma main_moved_landed:
  "main_moved = (Inr (projr (fst main_moved)), snd main_moved)" "ro_applied (projr (fst main_moved)) \<noteq> []"
proof -
  have "isl (fst main_moved) = False" by code_simp
  then show "main_moved = (Inr (projr (fst main_moved)), snd main_moved)"
    by (cases "fst main_moved") (auto simp: prod_eq_iff)
  show "ro_applied (projr (fst main_moved)) \<noteq> []" by code_simp
qed

theorem refused_push_leaves_no_trace_witness:
  "snd (receive_blocking simple_env main_linear (push_main (CHR ''b'')) ''P'' simple_dir) = simple_dir"
proof (rule refused_push_leaves_no_trace)
  let ?r = "receive_blocking simple_env main_linear (push_main (CHR ''b'')) ''P'' simple_dir"
  show "?r = (fst ?r, snd ?r)" by simp
  show "case fst ?r of Inl _ \<Rightarrow> True | Inr out \<Rightarrow> ro_applied out = []" by code_simp
  show "push_main (CHR ''b'') \<noteq> []" by (simp add: push_main_def)
qed (rule simple_files simple_pack_new)+

theorem landed_push_is_atomic_witness:
  "map_of (gd_refs (snd main_moved)) ''refs/heads/main'' = Some id_b"
proof -
  note run = main_moved_landed(1) [unfolded main_moved_def]
  have "\<forall>c\<in>set (push_main (CHR ''a'')).
      map_of (gd_refs (snd main_moved)) (cmd_ref_name c) = wanted_new simple_env c"
    using landed_push_is_atomic [OF run _ simple_transaction_law] main_moved_landed(2)
    unfolding main_moved_def by blast
  moreover have "wanted_new simple_env (hd (push_main (CHR ''a''))) = Some id_b" by code_simp
  ultimately show ?thesis by (simp add: push_main_def)
qed

theorem landed_push_keeps_shape_witness:
  "id_a \<in> ancestors (live_odb simple_env (snd main_moved)) id_b"
proof -
  note run = main_moved_landed(1) [unfolded main_moved_def]
  let ?c = "hd (push_main (CHR ''a''))"
  have "?c \<in> set (push_main (CHR ''a''))" by (simp add: push_main_def)
  moreover have "map_of (gd_refs (snd main_moved)) (cmd_ref_name ?c) = Some id_b" by code_simp
  moreover have "any_pattern_matches (linear_history_ref_patterns main_linear) (cmd_ref_name ?c)" by code_simp
  moreover have "map_of (gd_refs simple_dir) (cmd_ref_name ?c) = Some id_a" by code_simp
  ultimately show ?thesis
    using landed_push_keeps_shape [OF run _ simple_transaction_law simple_hex_law, of ?c id_b] main_moved_landed(2)
    unfolding main_moved_def by simp
qed

theorem push_keeps_refs_intact_witness:
  "refs_intact simple_env (snd (apply_receive_pack simple_env main_linear (push_main (CHR ''a'')) ''P'' simple_dir))"
  by (rule push_keeps_refs_intact [OF _ simple_refs_intact simple_transaction_law simple_addressed simple_pack_new])
    (rule surjective_pairing)

section \<open>A pack that was there already\<close>

text \<open>Rolling back a pack can destroy the repository. Promotion renames the pack's files over files of the
  same name, and rolling back deletes them, taking for granted that nothing refers to them. Sending a
  pack again that has landed before, with a command that is refused, deletes the live pack: here
  \<^verbatim>\<open>main\<close> points at commit b, a second push of the same pack with a stale old value is refused, and
  commit b is gone.\<close>

theorem refused_repush_destroys_pack:
  "let g = snd main_moved; g' = snd (receive_blocking simple_env main_linear (push_main (CHR ''a'')) ''P'' g) in
     map_of (gd_refs g) ''refs/heads/main'' = Some id_b
     \<and> find_object (live_odb simple_env g) id_b = Some (Commit_obj ''b'' id_t [id_a] [] (Inr 1))
     \<and> gd_refs g' = gd_refs g
     \<and> find_object (live_odb simple_env g') id_b = None"
  by code_simp

end
