(* ===== verification/Merge_Proofs.thy ===== *)
theory Merge_Proofs
  imports Git_Merge Receive_Proofs
begin

text \<open>
  The lemmas on merging, per strategy: what an action that returned did, that an action up to the last
  one only adds objects, that a failed merge moves no ref, and what one that succeeds leaves behind.
  The laws of the library that they rest on are stated here.
\<close>

section \<open>Running actions\<close>

named_theorems git_simps \<open>an action that returns, taken apart\<close>

lemma git_bind_Inr [git_simps]:
  "git_bind m f g = (Inr y, g') \<longleftrightarrow> (\<exists>x g1. m g = (Inr x, g1) \<and> f x g1 = (Inr y, g'))"
  by (auto simp: git_bind_def split: prod.splits sum.splits)

lemma git_ok_Inr [git_simps]: "git_ok x g = (Inr y, g') \<longleftrightarrow> y = x \<and> g' = g"
  by (auto simp: git_ok_def)

lemma git_fail_Inr [git_simps]: "\<not> git_fail e g = (Inr y, g')"
  by (simp add: git_fail_def)

lemma ask_Inr [git_simps]: "ask q g = (Inr x, g') \<longleftrightarrow> q g = Inr x \<and> g' = g"
  by (auto simp: ask_def split: sum.splits)

lemma merge_options_Inr [git_simps]: "merge_options menv g = (Inr u, g') \<longleftrightarrow> merge_options_error menv = None \<and> g' = g"
  by (auto simp: merge_options_def git_ok_def git_fail_def split: option.splits)

lemma resolve_Inr [git_simps]: "resolve_commit_id menv n g = (Inr c, g') \<longleftrightarrow> resolve_ref menv g n = Inr c \<and> g' = g"
  by (simp add: resolve_commit_id_def git_simps)

lemma write_merged_tree_Inr [git_simps]:
  "write_merged_tree md g = (Inr t, g') \<longleftrightarrow>
     \<not> md_unresolved md \<and> md_write_error md = None \<and> t = md_tree md \<and> g' = add_objects (md_blobs md @ md_trees md) g"
  by (auto simp: write_merged_tree_def Let_def add_objects_def split: option.splits)

lemma write_commit_Inr [git_simps]:
  "write_commit menv c g = (Inr i, g') \<longleftrightarrow>
     write_error_of menv (commit_object menv c) = None \<and> i = hash_of menv (commit_object menv c)
     \<and> g' = add_objects [(i, commit_object menv c)] g"
  by (auto simp: write_commit_def Let_def split: option.splits)

lemma both_tips_Inr [git_simps]:
  "both_tips menv source_ref target g = (Inr (s, t), g') \<longleftrightarrow>
     resolve_ref menv g source_ref = Inr s \<and> resolve_ref menv g (branch_ref target) = Inr t \<and> g' = g"
  by (auto simp: both_tips_def git_simps)

lemma move_branch_Inr [git_simps]:
  "move_branch env n t i g = (Inr u, g') \<longleftrightarrow>
     (\<exists>refs. update_refs env [\<lparr>ru_name = n, ru_expected_old = id_to_hex env t, ru_new = id_to_hex env i\<rparr>] (gd_refs g) = Inr refs
        \<and> g' = g\<lparr>gd_refs := refs\<rparr>)"
  by (auto simp: move_branch_def split: sum.splits)

text \<open>An action that only adds objects.\<close>

definition only_adds :: "('o, 'a) git_act \<Rightarrow> bool" where
  "only_adds m \<longleftrightarrow> (\<forall>g. \<exists>db. snd (m g) = add_objects db g)"

lemma add_objects_Nil [simp]: "add_objects [] g = g"
  by (simp add: add_objects_def)

lemma add_objects_append [simp]: "add_objects b (add_objects a g) = add_objects (a @ b) g"
  by (simp add: add_objects_def)

lemma add_objects_fields [simp]:
  "gd_refs (add_objects db g) = gd_refs g" "gd_pack_dir (add_objects db g) = gd_pack_dir g"
  "gd_head (add_objects db g) = gd_head g" "gd_incoming (add_objects db g) = gd_incoming g"
  "gd_loose (add_objects db g) = gd_loose g @ db"
  by (simp_all add: add_objects_def)

named_theorems adds \<open>actions that only add objects\<close>

lemma only_adds_same: "(\<And>g. snd (m g) = g) \<Longrightarrow> only_adds m"
  unfolding only_adds_def by (metis add_objects_Nil)

lemma only_adds_ok [adds]: "only_adds (git_ok x)"
  by (rule only_adds_same) (simp add: git_ok_def)

lemma only_adds_fail [adds]: "only_adds (git_fail e)"
  by (rule only_adds_same) (simp add: git_fail_def)

lemma only_adds_ask [adds]: "only_adds (ask q)"
  by (rule only_adds_same) (simp add: ask_def split: sum.splits)

lemma only_adds_bind [adds]: "only_adds m \<Longrightarrow> (\<And>x. only_adds (f x)) \<Longrightarrow> only_adds (git_bind m f)"
proof (unfold only_adds_def, intro allI)
  fix g assume m: "\<forall>g. \<exists>db. snd (m g) = add_objects db g" and f: "\<And>x. \<forall>g. \<exists>db. snd (f x g) = add_objects db g"
  obtain a where a: "snd (m g) = add_objects a g" using m by blast
  show "\<exists>db. snd (git_bind m f g) = add_objects db g"
  proof (cases "fst (m g)")
    case (Inl e)
    then show ?thesis using a by (auto simp: git_bind_def split: prod.splits sum.splits)
  next
    case (Inr x)
    obtain b where "snd (f x (add_objects a g)) = add_objects b (add_objects a g)" using f by blast
    then have "snd (git_bind m f g) = add_objects (a @ b) g"
      using a Inr by (auto simp: git_bind_def split: prod.splits sum.splits)
    then show ?thesis by blast
  qed
qed

lemma only_adds_write_merged_tree [adds]: "only_adds (write_merged_tree md)"
  unfolding only_adds_def
  by (auto simp: write_merged_tree_def Let_def split: option.splits)

lemma only_adds_write_commit [adds]: "only_adds (write_commit menv c)"
  unfolding only_adds_def
  by (auto simp: write_commit_def Let_def split: option.splits intro: add_objects_Nil [symmetric])

lemma only_adds_options [adds]: "only_adds (merge_options menv)"
  by (simp add: merge_options_def adds split: option.splits)

lemma only_adds_tree_id_of [adds]: "only_adds (tree_id_of env x)"
  by (simp add: tree_id_of_def adds)

lemma only_adds_both_tips [adds]: "only_adds (both_tips menv s t)"
  by (simp add: both_tips_def resolve_commit_id_def adds)

lemma only_adds_three_way [adds]: "only_adds (three_way_merged_tree env menv t s)"
  by (simp add: three_way_merged_tree_def adds)

lemma only_adds_replay_one [adds]: "only_adds (replay_one env menv who tip original)"
proof -
  have "only_adds (\<lambda>g. case parent_list (live_odb env g) original of
      [] \<Rightarrow> (Inr (empty_tree menv), g) | parent # _ \<Rightarrow> tree_id_of env parent g)"
  proof -
    have "\<exists>db. snd (tree_id_of env p g) = add_objects db g" for p g
      using only_adds_tree_id_of [of env p] by (simp add: only_adds_def)
    then show ?thesis
      unfolding only_adds_def by (auto split: list.splits intro: add_objects_Nil [symmetric])
  qed
  then show ?thesis unfolding replay_one_def by (intro adds)
qed

lemma only_adds_replay_all [adds]: "only_adds (replay_all env menv who tip originals)"
  by (induction originals arbitrary: tip) (simp_all add: adds)

lemma only_adds_result: "only_adds m \<Longrightarrow> m g = (r, g') \<Longrightarrow> \<exists>db. g' = add_objects db g"
  unfolding only_adds_def by (metis snd_conv)

section \<open>What the library promises\<close>

definition base_law :: "'o merge_env \<Rightarrow> bool" where
  "base_law menv \<longleftrightarrow>
     (\<forall>db a b x. common_base menv db a b = Inr x \<longrightarrow> x \<in> ancestors db a \<and> x \<in> ancestors db b)"

text \<open>A ref resolves to an object that is there, reachable from what the ref holds.\<close>

definition resolve_law :: "'o receive_env \<Rightarrow> 'o merge_env \<Rightarrow> bool" where
  "resolve_law env menv \<longleftrightarrow>
     (\<forall>g n c. resolve_ref menv g n = Inr c \<longrightarrow>
        find_object (live_odb env g) c \<noteq> None
        \<and> (\<exists>i. map_of (gd_refs g) n = Some i \<and> c \<in> object_closure (live_odb env g) [i]))"

text \<open>The ids of stored objects are not the zero id, and reading their text gives them back.\<close>

definition hex_names :: "'o receive_env \<Rightarrow> 'o git_dir \<Rightarrow> bool" where
  "hex_names env g \<longleftrightarrow>
     (\<forall>i. find_object (live_odb env g) i \<noteq> None \<longrightarrow>
        hex_to_id env (id_to_hex env i) = Some i \<and> id_to_hex env i \<noteq> zero_id)"

text \<open>A tree that was merged and written from complete sides is complete.\<close>

definition merge_law :: "'o merge_env \<Rightarrow> bool" where
  "merge_law menv \<longleftrightarrow>
     (\<forall>db a b md. merge_tips menv db a b = Inr md \<and> intact db a \<and> intact db b \<and> \<not> md_unresolved md \<longrightarrow>
        intact (db @ md_blobs md @ md_trees md) (md_tree md))
     \<and> (\<forall>db p a b md. merge_three menv db p a b = Inr md \<and> (p = empty_tree menv \<or> intact db p)
          \<and> intact db a \<and> intact db b \<and> \<not> md_unresolved md \<longrightarrow>
        intact (db @ md_blobs md @ md_trees md) (md_tree md))"

section \<open>A failed merge moves no ref\<close>

definition fails_clean :: "('o, 'a) git_act \<Rightarrow> bool" where
  "fails_clean m \<longleftrightarrow> (\<forall>g e g'. m g = (Inl e, g') \<longrightarrow> gd_refs g' = gd_refs g)"

lemma fails_clean_adds: "only_adds m \<Longrightarrow> fails_clean m"
  unfolding fails_clean_def by (metis only_adds_result add_objects_fields(1))

lemma fails_clean_ok: "fails_clean (git_ok x)" "fails_clean (git_fail e)"
  by (simp_all add: fails_clean_adds adds)

lemma fails_clean_if: "fails_clean a \<Longrightarrow> fails_clean b \<Longrightarrow> fails_clean (if c then a else b)"
  by simp

lemma fails_clean_bind:
  assumes m: "only_adds m" and f: "\<And>x. fails_clean (f x)"
  shows "fails_clean (git_bind m f)"
  unfolding fails_clean_def
proof (intro allI impI)
  fix g e g' assume r: "git_bind m f g = (Inl e, g')"
  obtain a g1 where a: "m g = (a, g1)" by fastforce
  have g1: "gd_refs g1 = gd_refs g" using only_adds_result [OF m a] by auto
  show "gd_refs g' = gd_refs g"
    using r a g1 f by (cases a) (auto simp: git_bind_def fails_clean_def)
qed

lemma fails_clean_move: "fails_clean (git_bind (move_branch env n t i) (\<lambda>_. git_ok x))"
  by (auto simp: fails_clean_def git_bind_def git_ok_def move_branch_def split: sum.splits)

lemma fails_clean_merge: "fails_clean (merge_pull_request env menv src tgt strategy who msg)"
proof -
  have replay: "only_adds (\<lambda>g. (f g, g))" for f :: "'a git_dir \<Rightarrow> git_error + 'a list"
    by (rule only_adds_same) simp
  have "fails_clean (commit_merged env menv parents src tgt who msg)" for parents
    unfolding commit_merged_def case_prod_beta by (intro fails_clean_bind fails_clean_move adds)
  moreover have "fails_clean (rebase_ref_onto_branch env menv src tgt who)"
    unfolding rebase_ref_onto_branch_def case_prod_beta
    by (intro fails_clean_bind fails_clean_move fails_clean_if fails_clean_ok adds replay)
  moreover have "fails_clean (fast_forward_branch_to_ref env menv src tgt)"
    unfolding fast_forward_branch_to_ref_def case_prod_beta
    by (intro fails_clean_bind fails_clean_move fails_clean_if fails_clean_ok adds)
  ultimately show ?thesis
    by (cases strategy) (simp_all add: merge_pull_request_def merge_ref_into_branch_def squash_ref_into_branch_def)
qed

section \<open>Growing repositories\<close>

definition grown :: "'o git_dir \<Rightarrow> 'o git_dir \<Rightarrow> bool" where
  "grown g g' \<longleftrightarrow> set (gd_loose g) \<subseteq> set (gd_loose g') \<and> gd_pack_dir g = gd_pack_dir g'"

lemma grown_refl [simp]: "grown g g"
  by (simp add: grown_def)

lemma grown_trans: "grown a b \<Longrightarrow> grown b c \<Longrightarrow> grown a c"
  by (auto simp: grown_def)

lemma grown_add [simp]: "grown g (add_objects db g)"
  by (auto simp: grown_def)

lemma grown_refs [simp]: "grown g (g'\<lparr>gd_refs := refs\<rparr>) = grown g g'" "grown (g\<lparr>gd_refs := refs\<rparr>) g' = grown g g'"
  by (simp_all add: grown_def)

lemma grown_odb: "grown g g' \<Longrightarrow> set (live_odb env g) \<subseteq> set (live_odb env g')"
  by (auto simp: grown_def live_odb_def)

lemma only_adds_grown: "only_adds m \<Longrightarrow> m g = (r, g') \<Longrightarrow> grown g g' \<and> gd_refs g' = gd_refs g"
  using only_adds_result by fastforce

lemma addressed_mono: "addressed F db' \<Longrightarrow> set db \<subseteq> set db' \<Longrightarrow> addressed F db"
  by (auto simp: addressed_def)

lemma find_object_grows:
  assumes "addressed F db'" "set db \<subseteq> set db'" "find_object db x = Some ob"
  shows "find_object db' x = Some ob"
  using assms addressed_find [OF assms(1), of x] addressed_find [OF addressed_mono [OF assms(1,2)], of x]
  by (auto split: if_splits)

lemma parent_list_grows:
  assumes "addressed F db'" "set db \<subseteq> set db'" "find_object db x \<noteq> None"
  shows "parent_list db' x = parent_list db x"
  using assms(3) find_object_grows [OF assms(1,2), of x] by (auto simp: parent_list_def commit_parents_def)

lemma ancestors_grow:
  assumes "addressed F db'" "set db \<subseteq> set db'"
  shows "ancestors db x \<subseteq> ancestors db' x"
  unfolding ancestors_def
proof (rule reachable_least)
  fix y assume y: "y \<in> reachable_from (parent_list db') {x}"
  show "set (parent_list db y) \<subseteq> reachable_from (parent_list db') {x}"
  proof (cases "find_object db y")
    case None
    then show ?thesis by (simp add: parent_list_def commit_parents_def)
  next
    case (Some ob)
    then have "parent_list db' y = parent_list db y" using parent_list_grows [OF assms] by simp
    then show ?thesis using y by auto
  qed
qed auto

lemma ancestors_self [simp]: "x \<in> ancestors db x"
  by (auto simp: ancestors_def)

lemma ancestors_parents:
  "parent_list db x = ps \<Longrightarrow> ancestors db x = insert x (\<Union>p\<in>set ps. ancestors db p)"
proof -
  have "reachable_from succ S = (\<Union>y\<in>S. reachable_from succ {y})" for succ and S :: "'a set"
    by (auto simp: reachable_from_def)
  from this [of "parent_list db" "set (parent_list db x)"]
  show "parent_list db x = ps \<Longrightarrow> ancestors db x = insert x (\<Union>p\<in>set ps. ancestors db p)"
    using reachable_insert [of "parent_list db" x "{}"] by (auto simp: ancestors_def reachable_from_def [of _ "{}"])
qed

text \<open>A written commit is found.\<close>

lemma parent_list_written:
  assumes "addressed F (live_odb env g')" "(i, commit_object menv c) \<in> set (gd_loose g')"
  shows "parent_list (live_odb env g') i = nc_parents c" "find_object (live_odb env g') i \<noteq> None"
proof -
  have "(i, commit_object menv c) \<in> set (live_odb env g')" using assms(2) by (simp add: live_odb_def)
  then have f: "find_object (live_odb env g') i = Some (commit_object menv c)"
    using assms(1) addressed_find [OF assms(1), of i] by (force simp: addressed_def)
  then show "parent_list (live_odb env g') i = nc_parents c" "find_object (live_odb env g') i \<noteq> None"
    by (simp_all add: parent_list_def commit_parents_def commit_object_def)
qed

lemma move_ok:
  assumes "update_refs env [\<lparr>ru_name = n, ru_expected_old = id_to_hex env t, ru_new = id_to_hex env i\<rparr>] refs = Inr refs'"
    and "transaction_law env" "hex_to_id env (id_to_hex env t) = Some t" "id_to_hex env t \<noteq> zero_id"
    "hex_to_id env (id_to_hex env i) = Some i" "id_to_hex env i \<noteq> zero_id"
  shows "map_of refs n = Some t \<and> map_of refs' = (map_of refs)(n \<mapsto> i)"
proof -
  let ?c = "\<lparr>old_oid = id_to_hex env t, new_oid = id_to_hex env i, cmd_ref_name = n\<rparr>"
  have u: "update_refs env (updates_of [?c]) refs = Inr refs'" using assms(1) by (simp add: updates_of_def)
  note ok' = update_refs_ok [OF assms(2) u, of ?c, simplified]
  note others = update_refs_others [OF assms(2) u]
  show ?thesis
    using ok' others assms(3-6) by (auto simp: wanted_new_def claimed_old_def fun_eq_iff)
qed

section \<open>Chains of replayed commits\<close>

fun chain_from :: "'o odb \<Rightarrow> 'o \<Rightarrow> 'o list \<Rightarrow> bool" where
  "chain_from db t [] = True"
| "chain_from db t (x # xs) = (parent_list db x = [t] \<and> chain_from db x xs)"

lemma chain_ancestors:
  "chain_from db t xs \<Longrightarrow>
   t \<in> ancestors db (last (t # xs)) \<and> ancestors db (last (t # xs)) \<subseteq> ancestors db t \<union> set xs
   \<and> (\<forall>x\<in>set xs. length (parent_list db x) = 1)"
proof (induction xs arbitrary: t)
  case (Cons x xs)
  then have ih: "x \<in> ancestors db (last (x # xs))" "ancestors db (last (x # xs)) \<subseteq> ancestors db x \<union> set xs"
    "\<forall>x\<in>set xs. length (parent_list db x) = 1" by auto
  have x: "ancestors db x = insert x (ancestors db t)"
    using Cons.prems ancestors_parents [of db x "[t]"] by simp
  have "ancestors db x \<subseteq> ancestors db (last (x # xs))"
    using reachable_trans [of x "parent_list db" "{last (x # xs)}"] ih(1) by (simp add: ancestors_def)
  moreover have "t \<in> ancestors db x" "ancestors db x \<subseteq> insert x (ancestors db t)" using x by auto
  moreover have "last (t # x # xs) = last (x # xs)" by simp
  moreover have "length (parent_list db x) = 1" using Cons.prems by simp
  ultimately show ?case using ih by (simp only:) auto
qed simp

lemma single_parent_no_merge: "length (parent_list db x) \<le> 1 \<Longrightarrow> \<not> is_merge_commit db x"
  by (auto simp: parent_list_def is_merge_commit_def split: option.splits)

lemma replay_one_Inr:
  assumes "replay_one env menv who t orig g = (Inr i, g1)"
  shows "\<exists>c. nc_parents c = [t] \<and> i = hash_of menv (commit_object menv c) \<and> grown g g1
    \<and> (i, commit_object menv c) \<in> set (gd_loose g1)"
proof -
  obtain c g0 where c: "nc_parents c = [t]" "write_commit menv c g0 = (Inr i, g1)"
  proof -
    have "\<exists>c g0. write_commit menv c g0 = (Inr i, g1) \<and> nc_parents c = [t]"
      using assms unfolding replay_one_def git_bind_Inr
      apply clarsimp
      subgoal for x g1a xa g1b xb g2 xc g3 xd g4 xe g5 xf g6
        by (intro exI conjI, assumption, simp)
      done
    then show ?thesis using that by blast
  qed
  then have "i = hash_of menv (commit_object menv c)" "(i, commit_object menv c) \<in> set (gd_loose g1)"
    by (auto simp: git_simps)
  then show ?thesis using c(1) only_adds_grown [OF only_adds_replay_one assms] by blast
qed

lemma replay_all_chain:
  assumes "replay_all env menv who t origs g = (Inr tip, g1)" "grown g1 g'" "addressed F (live_odb env g')"
  shows "\<exists>new. length new = length origs \<and> tip = last (t # new) \<and> chain_from (live_odb env g') t new
    \<and> (\<forall>x\<in>set new. find_object (live_odb env g') x \<noteq> None)"
  using assms(1)
proof (induction origs arbitrary: t g)
  case Nil
  then show ?case by (simp add: git_simps)
next
  case (Cons orig origs)
  then obtain i g0 where i: "replay_one env menv who t orig g = (Inr i, g0)"
    and rest: "replay_all env menv who i origs g0 = (Inr tip, g1)" by (auto simp: git_simps)
  from Cons.IH [OF rest] obtain new where new: "length new = length origs" "tip = last (i # new)"
    "chain_from (live_odb env g') i new" "\<forall>x\<in>set new. find_object (live_odb env g') x \<noteq> None" by blast
  obtain c where c: "nc_parents c = [t]" "(i, commit_object menv c) \<in> set (gd_loose g0)"
    using replay_one_Inr [OF i] by blast
  have "grown g0 g'" using only_adds_grown [OF only_adds_replay_all rest] assms(2) grown_trans by blast
  then have "(i, commit_object menv c) \<in> set (gd_loose g')" using c(2) by (auto simp: grown_def)
  note w = parent_list_written [OF assms(3) this]
  show ?case
    using new w c(1) by (intro exI [of _ "i # new"]) simp
qed

section \<open>A merge that succeeds\<close>

text \<open>By strategy: how the new tip relates to the old one and to the source.\<close>

definition merge_shape :: "'o odb \<Rightarrow> merge_strategy \<Rightarrow> 'o \<Rightarrow> 'o \<Rightarrow> 'o \<Rightarrow> bool" where
  "merge_shape db strategy old source tip \<longleftrightarrow>
     (case strategy of
        Merge \<Rightarrow> parent_list db tip = [old, source]
      | Squash \<Rightarrow> parent_list db tip = [old]
      | Rebase \<Rightarrow> (\<exists>new. tip = last (old # new) \<and> chain_from db old new)
      | FastForwardOnly \<Rightarrow> tip = source \<and> old \<in> ancestors db source)"

definition moved_to :: "string \<Rightarrow> 'o \<Rightarrow> 'o \<Rightarrow> 'o refs \<Rightarrow> 'o refs \<Rightarrow> bool" where
  "moved_to n old tip refs refs' \<longleftrightarrow>
     tip = old \<and> refs' = refs \<or> map_of refs n = Some old \<and> map_of refs' = (map_of refs)(n \<mapsto> tip)"

lemma hex_namesD:
  "hex_names env g \<Longrightarrow> find_object (live_odb env g) i \<noteq> None \<Longrightarrow>
   hex_to_id env (id_to_hex env i) = Some i \<and> id_to_hex env i \<noteq> zero_id"
  by (simp add: hex_names_def)

lemma resolved_found:
  assumes "resolve_law env menv" "resolve_ref menv g n = Inr c" "grown g g'" "addressed F (live_odb env g')"
  shows "find_object (live_odb env g') c \<noteq> None"
  using assms(1,2) find_object_grows [OF assms(4) grown_odb [OF assms(3)]]
  unfolding resolve_law_def by (metis not_None_eq)

lemma commit_merged_Inr:
  assumes run: "commit_merged env menv parents src tgt who msg g = (Inr tip, g')"
    and laws: "transaction_law env" "resolve_law env menv" "hex_names env g'" "addressed F (live_odb env g')"
  shows "\<exists>s t. resolve_ref menv g src = Inr s \<and> resolve_ref menv g (branch_ref tgt) = Inr t
    \<and> parent_list (live_odb env g') tip = parents t s
    \<and> map_of (gd_refs g) (branch_ref tgt) = Some t \<and> map_of (gd_refs g') = (map_of (gd_refs g))(branch_ref tgt \<mapsto> tip)"
proof -
  obtain s t tree g1 c g2 refs' where st: "resolve_ref menv g src = Inr s" "resolve_ref menv g (branch_ref tgt) = Inr t"
    and tree: "three_way_merged_tree env menv t s g = (Inr tree, g1)"
    and c: "nc_parents c = parents t s" "write_commit menv c g1 = (Inr tip, g2)"
    and u: "update_refs env [\<lparr>ru_name = branch_ref tgt, ru_expected_old = id_to_hex env t,
        ru_new = id_to_hex env tip\<rparr>] (gd_refs g2) = Inr refs'" and g': "g' = g2\<lparr>gd_refs := refs'\<rparr>"
    using run unfolding commit_merged_def
    apply (clarsimp simp: git_simps simp del: write_commit_Inr)
    subgoal premises p for a b x g1 g2 refs
      by (rule p(1) [OF refl refl p(4) _ p(5,6)]) simp_all
    done
  have gr: "grown g g2" "gd_refs g2 = gd_refs g"
    using only_adds_grown [OF only_adds_three_way tree] only_adds_grown [OF only_adds_write_commit c(2)] grown_trans by auto
  have "(tip, commit_object menv c) \<in> set (gd_loose g')" using c(2) g' by (auto simp: git_simps)
  note w = parent_list_written [OF laws(4) this]
  have "find_object (live_odb env g') t \<noteq> None"
    using resolved_found [OF laws(2) st(2) _ laws(4)] gr g' by simp
  then have "map_of (gd_refs g) (branch_ref tgt) = Some t \<and> map_of refs' = (map_of (gd_refs g))(branch_ref tgt \<mapsto> tip)"
    using move_ok [OF u laws(1)] hex_namesD [OF laws(3)] w(2) gr(2) by simp
  then show ?thesis using st w(1) c(1) g' by simp
qed

lemma fast_forward_Inr:
  assumes run: "fast_forward_branch_to_ref env menv src tgt g = (Inr tip, g')"
    and laws: "transaction_law env" "base_law menv" "resolve_law env menv" "hex_names env g'" "addressed F (live_odb env g')"
  shows "\<exists>s t. resolve_ref menv g src = Inr s \<and> resolve_ref menv g (branch_ref tgt) = Inr t
    \<and> tip = s \<and> t \<in> ancestors (live_odb env g') s \<and> moved_to (branch_ref tgt) t tip (gd_refs g) (gd_refs g')"
proof -
  obtain s t where st: "resolve_ref menv g src = Inr s" "resolve_ref menv g (branch_ref tgt) = Inr t" and
    rest: "s = t \<and> tip = s \<and> g' = g
      \<or> (\<exists>refs'. common_base menv (live_odb env g) t s = Inr t \<and> tip = s \<and> g' = g\<lparr>gd_refs := refs'\<rparr>
          \<and> update_refs env [\<lparr>ru_name = branch_ref tgt, ru_expected_old = id_to_hex env t,
              ru_new = id_to_hex env s\<rparr>] (gd_refs g) = Inr refs')"
    using run unfolding fast_forward_branch_to_ref_def
    by (auto simp: git_simps split: if_splits)
  have same: "live_odb env g' = live_odb env g" using rest by (auto intro: live_odb_cong)
  have "grown g g'" using rest by auto
  note found = resolved_found [OF laws(3) st(1) this laws(5)] resolved_found [OF laws(3) st(2) this laws(5)]
  show ?thesis
  proof (cases "s = t \<and> tip = s \<and> g' = g")
    case True
    then show ?thesis using st by (auto simp: moved_to_def)
  next
    case False
    then obtain refs' where r: "common_base menv (live_odb env g) t s = Inr t" "tip = s" "g' = g\<lparr>gd_refs := refs'\<rparr>"
      "update_refs env [\<lparr>ru_name = branch_ref tgt, ru_expected_old = id_to_hex env t,
          ru_new = id_to_hex env s\<rparr>] (gd_refs g) = Inr refs'" using rest by blast
    have "t \<in> ancestors (live_odb env g') s" using laws(2) r(1) same unfolding base_law_def by metis
    moreover have "map_of (gd_refs g) (branch_ref tgt) = Some t \<and> map_of refs' = (map_of (gd_refs g))(branch_ref tgt \<mapsto> s)"
      using move_ok [OF r(4) laws(1)] hex_namesD [OF laws(4)] found by simp
    ultimately show ?thesis using st r by (auto simp: moved_to_def)
  qed
qed

lemma rebase_Inr:
  assumes run: "rebase_ref_onto_branch env menv src tgt who g = (Inr tip, g')"
    and laws: "transaction_law env" "resolve_law env menv" "hex_names env g'" "addressed F (live_odb env g')"
  shows "\<exists>s t new. resolve_ref menv g src = Inr s \<and> resolve_ref menv g (branch_ref tgt) = Inr t
    \<and> tip = last (t # new) \<and> chain_from (live_odb env g') t new
    \<and> (\<exists>base chain. common_base menv (live_odb env g) s t = Inr base
        \<and> replay_chain max_rebase_commits (live_odb env g) base s [] = Inr chain \<and> length new = length chain)
    \<and> moved_to (branch_ref tgt) t tip (gd_refs g) (gd_refs g')"
proof -
  obtain s t base chain where st: "resolve_ref menv g src = Inr s" "resolve_ref menv g (branch_ref tgt) = Inr t"
    and base: "common_base menv (live_odb env g) s t = Inr base"
    and chain: "replay_chain max_rebase_commits (live_odb env g) base s [] = Inr chain"
    and rest: "chain = [] \<and> tip = t \<and> g' = g
      \<or> (\<exists>g1 refs'. replay_all env menv who t (rev chain) g = (Inr tip, g1) \<and> g' = g1\<lparr>gd_refs := refs'\<rparr>
          \<and> update_refs env [\<lparr>ru_name = branch_ref tgt, ru_expected_old = id_to_hex env t,
              ru_new = id_to_hex env tip\<rparr>] (gd_refs g1) = Inr refs')"
    using run unfolding rebase_ref_onto_branch_def
    by (auto simp: git_simps split: if_splits)
  show ?thesis
  proof (cases "chain = [] \<and> tip = t \<and> g' = g")
    case True
    then show ?thesis using st base chain by (auto simp: moved_to_def intro!: exI [of _ "[]"])
  next
    case False
    then obtain g1 refs' where r: "replay_all env menv who t (rev chain) g = (Inr tip, g1)" "g' = g1\<lparr>gd_refs := refs'\<rparr>"
      "update_refs env [\<lparr>ru_name = branch_ref tgt, ru_expected_old = id_to_hex env t,
          ru_new = id_to_hex env tip\<rparr>] (gd_refs g1) = Inr refs'" using rest by blast
    have gr: "grown g g1" "gd_refs g1 = gd_refs g" using only_adds_grown [OF only_adds_replay_all r(1)] by auto
    obtain new where new: "length new = length chain" "tip = last (t # new)" "chain_from (live_odb env g') t new"
      "\<forall>x\<in>set new. find_object (live_odb env g') x \<noteq> None"
      using replay_all_chain [OF r(1) _ laws(4)] r(2) by auto
    have t: "find_object (live_odb env g') t \<noteq> None"
      using resolved_found [OF laws(2) st(2) _ laws(4)] gr r(2) by simp
    then have "find_object (live_odb env g') tip \<noteq> None" using new(2,4) by (cases new rule: rev_cases) auto
    then have "map_of (gd_refs g) (branch_ref tgt) = Some t \<and> map_of refs' = (map_of (gd_refs g))(branch_ref tgt \<mapsto> tip)"
      using move_ok [OF r(3) laws(1)] hex_namesD [OF laws(3)] t gr(2) by simp
    then show ?thesis using st base chain new r(2) by (auto simp: moved_to_def)
  qed
qed

end
