(* ===== verification/Merge_Guarantees.thy ===== *)
theory Merge_Guarantees
  imports Merge_Proofs
begin

text \<open>
  What merging guarantees, whichever strategy is used: a failed merge moves no ref; one that succeeds
  moves the target branch, and nothing else, to a commit that has the old tip among its ancestors;
  and every ref keeps pointing at a complete history. The examples are a repository of two branches.
\<close>

section \<open>The target moves forward\<close>

lemma merged_moves:
  assumes "merge_pull_request env menv src tgt strategy who msg g = (Inr tip, g')"
    and "transaction_law env" "base_law menv" "resolve_law env menv" "hex_names env g'" "addressed F (live_odb env g')"
  shows "\<exists>source old. resolve_ref menv g src = Inr source \<and> resolve_ref menv g (branch_ref tgt) = Inr old
        \<and> moved_to (branch_ref tgt) old tip (gd_refs g) (gd_refs g')
        \<and> old \<in> ancestors (live_odb env g') tip
        \<and> merge_shape (live_odb env g') strategy old source tip
        \<and> (strategy = Squash \<or> strategy = Rebase \<longrightarrow>
             (\<forall>x\<in>ancestors (live_odb env g') tip - ancestors (live_odb env g') old.
                \<not> is_merge_commit (live_odb env g') x))"
proof -
  note run = assms(1) [unfolded merge_pull_request_def]
  have one: "x \<in> ancestors db p" if "parent_list db i = [p]" "x \<in> ancestors db i" "is_merge_commit db x" for db x p and i :: 'a
    using that ancestors_parents [OF that(1)] single_parent_no_merge [of db i] by auto
  have two: "old \<in> ancestors db x" if "parent_list db x = old # ps" for db x and old :: 'a and ps
    using ancestors_parents [OF that] by simp
  show ?thesis
  proof (cases strategy)
    case Merge
    then have "commit_merged env menv (\<lambda>t s. [t, s]) src tgt who msg g = (Inr tip, g')"
      using run by (simp add: merge_ref_into_branch_def)
    from commit_merged_Inr [OF this assms(2,4-6)] show ?thesis
      using Merge two by (auto simp: merge_shape_def moved_to_def)
  next
    case Squash
    then have "commit_merged env menv (\<lambda>t s. [t]) src tgt who msg g = (Inr tip, g')"
      using run by (simp add: squash_ref_into_branch_def)
    from commit_merged_Inr [OF this assms(2,4-6)] show ?thesis
      using Squash two one by (auto simp: merge_shape_def moved_to_def)
  next
    case Rebase
    then have "rebase_ref_onto_branch env menv src tgt who g = (Inr tip, g')" using run by simp
    from rebase_Inr [OF this assms(2,4-6)] obtain s t new where st: "resolve_ref menv g src = Inr s"
      "resolve_ref menv g (branch_ref tgt) = Inr t" "tip = last (t # new)" "chain_from (live_odb env g') t new"
      "moved_to (branch_ref tgt) t tip (gd_refs g) (gd_refs g')" by blast
    then have "t \<in> ancestors (live_odb env g') tip"
      "\<forall>x\<in>ancestors (live_odb env g') tip - ancestors (live_odb env g') t. \<not> is_merge_commit (live_odb env g') x"
      using chain_ancestors [OF st(4)] single_parent_no_merge [of "live_odb env g'"] by auto
    then show ?thesis using st Rebase unfolding merge_shape_def by auto
  next
    case FastForwardOnly
    then have "fast_forward_branch_to_ref env menv src tgt g = (Inr tip, g')" using run by simp
    from fast_forward_Inr [OF this assms(2-6)] show ?thesis
      using FastForwardOnly by (auto simp: merge_shape_def)
  qed
qed

text \<open>C15. A merge moves the target branch forward and nothing else. A merge that fails, under any strategy,
  changes no ref. One that succeeds leaves every other ref alone and takes the target branch from the
  commit it resolved to, which it held at that moment, to a tip that has that commit among its
  ancestors, in the shape of the strategy: a commit with both tips as parents, one with the old tip
  as its only parent, a chain of single-parent commits on the old tip, or the source itself. A squash
  or a rebase brings no merge commit into the target's history.\<close>

theorem merge_moves_target_forward:
  assumes "merge_pull_request env menv src tgt strategy who msg g = (r, g')"
    and "transaction_law env" "base_law menv" "resolve_law env menv" "hex_names env g'" "content_addressed F env g'"
  shows "case r of
      Inl _ \<Rightarrow> gd_refs g' = gd_refs g
    | Inr tip \<Rightarrow> \<exists>source old. resolve_ref menv g src = Inr source \<and> resolve_ref menv g (branch_ref tgt) = Inr old
        \<and> moved_to (branch_ref tgt) old tip (gd_refs g) (gd_refs g')
        \<and> old \<in> ancestors (live_odb env g') tip
        \<and> merge_shape (live_odb env g') strategy old source tip
        \<and> (strategy = Squash \<or> strategy = Rebase \<longrightarrow>
             (\<forall>x\<in>ancestors (live_odb env g') tip - ancestors (live_odb env g') old.
                \<not> is_merge_commit (live_odb env g') x))"
proof (cases r)
  case (Inl e)
  then show ?thesis using fails_clean_merge [of env menv src tgt strategy who msg] assms(1) unfolding fails_clean_def by auto
next
  case (Inr tip)
  show ?thesis
    using merged_moves [OF assms(1) [unfolded Inr] assms(2-5) live_odb_addressed [OF assms(6) refl]] unfolding Inr by simp
qed

section \<open>Refs keep pointing at complete histories\<close>

lemma object_closure_node:
  "find_object db i = Some ob \<Longrightarrow> object_links ob = Inr ls \<Longrightarrow>
   object_closure db [i] = insert i (\<Union>l\<in>set ls. object_closure db [l])"
proof -
  have "reachable_from succ S = (\<Union>y\<in>S. reachable_from succ {y})" for succ and S :: "'a set"
    by (auto simp: reachable_from_def)
  from this [of "links_of db" "set ls"]
  show "find_object db i = Some ob \<Longrightarrow> object_links ob = Inr ls \<Longrightarrow> ?thesis"
    using reachable_insert [of "links_of db" i "{}"]
    by (auto simp: object_closure_def links_of_def reachable_from_def [of _ "{}"])
qed

lemma intact_node:
  assumes "find_object db i = Some ob" "object_links ob = Inr ls"
  shows "intact db i \<longleftrightarrow> (\<forall>l\<in>set ls. intact db l)"
  using assms by (auto simp: intact_def object_closure_node [OF assms])

lemma intact_reached: "intact db i \<Longrightarrow> x \<in> object_closure db [i] \<Longrightarrow> intact db x"
  using reachable_trans [of x "links_of db" "{i}"] by (auto simp: intact_def object_closure_def)

lemma intact_has: "intact db i \<Longrightarrow> \<exists>ob ls. find_object db i = Some ob \<and> object_links ob = Inr ls"
  by (auto simp: intact_def object_closure_def)

text \<open>Both the tree and the parents of an intact commit are intact.\<close>

lemma intact_commit:
  assumes "intact db i" "find_commit db i = Inr ob"
  shows "\<forall>p\<in>set (parent_list db i). intact db p"
    and "ob = Commit_obj raw tree ps extra tm \<Longrightarrow> intact db tree"
proof -
  obtain ls where f: "find_object db i = Some ob" "object_links ob = Inr ls"
    using intact_has [OF assms(1)] assms(2) by (auto simp: find_commit_def split: if_splits)
  note n = intact_node [OF f] assms(1)
  show "\<forall>p\<in>set (parent_list db i). intact db p"
    using n f assms(2) by (cases ob) (auto simp: parent_list_def commit_parents_def find_commit_def)
  show "ob = Commit_obj raw tree ps extra tm \<Longrightarrow> intact db tree" using n f by auto
qed

lemma tree_id_intact: "fst (tree_id_of env x g) = Inr t \<Longrightarrow> intact (live_odb env g) x \<Longrightarrow> intact (live_odb env g) t"
  using intact_commit(2) by (fastforce simp: tree_id_of_def ask_def split: sum.splits git_object.splits)

lemma resolved_intact:
  assumes "resolve_law env menv" "refs_intact env g" "resolve_ref menv g n = Inr c"
  shows "intact (live_odb env g) c"
  using assms intact_reached unfolding resolve_law_def refs_intact_def by metis

lemma intact_grown:
  "addressed F (live_odb env g') \<Longrightarrow> grown g g' \<Longrightarrow> intact (live_odb env g) i \<Longrightarrow> intact (live_odb env g') i"
  by (rule intact_grows [OF _ grown_odb])

text \<open>A commit that was written on intact parents with an intact tree is intact.\<close>

lemma written_intact:
  assumes "write_commit menv c g1 = (Inr i, g2)" "grown g2 g'" "addressed F (live_odb env g')"
    and "intact (live_odb env g') (nc_tree c)" "\<forall>p\<in>set (nc_parents c). intact (live_odb env g') p"
  shows "intact (live_odb env g') i"
proof -
  have "(i, commit_object menv c) \<in> set (gd_loose g')" using assms(1,2) by (auto simp: git_simps grown_def)
  then have "(i, commit_object menv c) \<in> set (live_odb env g')" by (simp add: live_odb_def)
  then have "find_object (live_odb env g') i = Some (commit_object menv c)"
    using assms(3) addressed_find [OF assms(3), of i] by (force simp: addressed_def)
  from intact_node [OF this] show ?thesis using assms(4,5) by (auto simp: commit_object_def)
qed

lemma merged_tree_intact:
  assumes "write_merged_tree md g = (Inr t, g1)" "grown g1 g'" "addressed F (live_odb env g')"
    and "\<not> md_unresolved md \<Longrightarrow> intact (live_odb env g @ md_blobs md @ md_trees md) (md_tree md)"
  shows "intact (live_odb env g') t"
proof -
  have t: "\<not> md_unresolved md" "t = md_tree md" "g1 = add_objects (md_blobs md @ md_trees md) g"
    using assms(1) by (simp_all add: git_simps)
  have "set (live_odb env g @ md_blobs md @ md_trees md) \<subseteq> set (live_odb env g1)"
    using t(3) by (auto simp: live_odb_def)
  then have "set (live_odb env g @ md_blobs md @ md_trees md) \<subseteq> set (live_odb env g')"
    using grown_odb [OF assms(2), of env] by blast
  from intact_grows [OF assms(3) this] show ?thesis using t assms(4) by blast
qed

lemma commit_merged_intact:
  assumes run: "commit_merged env menv parents src tgt who msg g = (Inr tip, g')"
    and laws: "resolve_law env menv" "merge_law menv" "refs_intact env g" "addressed F (live_odb env g')"
    and parents: "\<And>t s. set (parents t s) \<subseteq> {t, s}"
  shows "intact (live_odb env g') tip"
proof -
  obtain s t md tree g1 c g2 refs' where st: "resolve_ref menv g src = Inr s" "resolve_ref menv g (branch_ref tgt) = Inr t"
    and md: "merge_tips menv (live_odb env g) t s = Inr md" and tree: "write_merged_tree md g = (Inr tree, g1)"
    and c: "nc_parents c = parents t s" "nc_tree c = tree" "write_commit menv c g1 = (Inr tip, g2)"
    and g': "g' = g2\<lparr>gd_refs := refs'\<rparr>"
    using run unfolding commit_merged_def three_way_merged_tree_def
    apply (clarsimp simp: git_simps simp del: write_commit_Inr write_merged_tree_Inr)
    subgoal premises p for a b x md g1 g2 refs
      by (rule p(1) [OF refl refl p(5) p(6) _ _ p(7)]) simp_all
    done
  have gr: "grown g1 g'" "grown g g'" "grown g2 g'"
    using only_adds_grown [OF only_adds_write_merged_tree tree] only_adds_grown [OF only_adds_write_commit c(3)] g' grown_trans
    by auto
  note ok = resolved_intact [OF laws(1,3) st(1)] resolved_intact [OF laws(1,3) st(2)]
  have "intact (live_odb env g') tree"
    by (rule merged_tree_intact [OF tree gr(1) laws(4)]) (use laws(2) md ok in \<open>auto simp: merge_law_def\<close>)
  then show ?thesis
    using written_intact [OF c(3) gr(3) laws(4)] c(1,2) parents [of t s] intact_grown [OF laws(4) gr(2)] ok by auto
qed

lemma replay_chain_intact:
  "replay_chain limit db base cursor acc = Inr out \<Longrightarrow> intact db cursor \<Longrightarrow> \<forall>x\<in>set acc. intact db x
   \<Longrightarrow> \<forall>x\<in>set out. intact db x"
proof (induction limit db base cursor acc rule: replay_chain.induct)
  case (1 limit db base cursor acc)
  show ?case
  proof (cases "cursor = base")
    case True
    then show ?thesis using "1.prems" by (simp add: replay_chain.simps)
  next
    case False
    then obtain ob where ob: "find_commit db cursor = Inr ob" and l: "\<not> limit < Suc (length acc)"
      using "1.prems"(1) by (subst (asm) replay_chain.simps) (auto split: sum.splits if_splits)
    show ?thesis
    proof (cases "parent_list db cursor")
      case Nil
      then show ?thesis using "1.prems" False ob l by (subst (asm) replay_chain.simps) auto
    next
      case (Cons p ps)
      then have "replay_chain limit db base p (acc @ [cursor]) = Inr out"
        using "1.prems"(1) False ob l by (subst (asm) replay_chain.simps) simp
      from "1.IH" [OF False ob l Cons this] show ?thesis
        using intact_commit(1) [OF "1.prems"(2) ob] Cons "1.prems"(2,3) by auto
    qed
  qed
qed

lemma tree_id_Inr: "tree_id_of env x g = (Inr t, g') \<longleftrightarrow> fst (tree_id_of env x g) = Inr t \<and> g' = g"
  by (auto simp: tree_id_of_def ask_def split: sum.splits)

lemma parent_tree_Inr:
  "(case ps of [] \<Rightarrow> (Inr e, g) | p # _ \<Rightarrow> tree_id_of env p g) = (Inr t, g') \<longleftrightarrow>
     (case ps of [] \<Rightarrow> t = e | p # _ \<Rightarrow> fst (tree_id_of env p g) = Inr t) \<and> g' = g"
  by (auto simp: tree_id_Inr split: list.splits)

lemma replay_one_intact:
  assumes run: "replay_one env menv who tip orig g = (Inr i, g1)" and grows: "grown g1 g'"
    and laws: "merge_law menv" "addressed F (live_odb env g')"
    and sides: "intact (live_odb env g) tip" "intact (live_odb env g) orig"
  shows "intact (live_odb env g') i"
proof -
  obtain ob pt ours theirs md tree g0 c where ob: "find_commit (live_odb env g) orig = Inr ob"
    and pt: "case parent_list (live_odb env g) orig of [] \<Rightarrow> pt = empty_tree menv | p # _ \<Rightarrow> fst (tree_id_of env p g) = Inr pt"
    and trees: "fst (tree_id_of env tip g) = Inr ours" "fst (tree_id_of env orig g) = Inr theirs"
    and md: "merge_three menv (live_odb env g) pt ours theirs = Inr md" "write_merged_tree md g = (Inr tree, g0)"
    and c: "nc_parents c = [tip]" "nc_tree c = tree" "write_commit menv c g0 = (Inr i, g1)"
  proof -
    show ?thesis
      using run unfolding replay_one_def git_bind_Inr
      apply (clarsimp simp: git_simps tree_id_Inr parent_tree_Inr simp del: write_commit_Inr write_merged_tree_Inr)
      subgoal premises p for ob pt ours theirs md tree g0 details
        by (rule that [OF p(1,2,3,4,5,6) _ _ p(8)]) simp_all
      done
  qed
  have gr: "grown g0 g'" "grown g g'"
    using only_adds_grown [OF only_adds_write_commit c(3)] only_adds_grown [OF only_adds_replay_one run] grows grown_trans
    by blast+
  have "pt = empty_tree menv \<or> intact (live_odb env g) pt"
    using pt intact_commit(1) [OF sides(2) ob] tree_id_intact by (fastforce split: list.splits)
  note trees_ok = this tree_id_intact [OF trees(1) sides(1)] tree_id_intact [OF trees(2) sides(2)]
  have "intact (live_odb env g') tree"
    by (rule merged_tree_intact [OF md(2) gr(1) laws(2)]) (use laws(1) md(1) trees_ok in \<open>simp add: merge_law_def\<close>)
  then show ?thesis
    using written_intact [OF c(3) grows laws(2)] c(1,2) intact_grown [OF laws(2) gr(2) sides(1)] by simp
qed

lemma replay_all_intact:
  assumes "replay_all env menv who tip origs g = (Inr i, g1)" "grown g1 g'" "merge_law menv" "addressed F (live_odb env g')"
    and "intact (live_odb env g) tip" "\<forall>x\<in>set origs. intact (live_odb env g) x"
  shows "intact (live_odb env g') i"
  using assms(1,5,6)
proof (induction origs arbitrary: tip g)
  case Nil
  then show ?case using assms(2,4) intact_grown by (fastforce simp: git_simps)
next
  case (Cons orig origs)
  then obtain j g0 where j: "replay_one env menv who tip orig g = (Inr j, g0)"
    and rest: "replay_all env menv who j origs g0 = (Inr i, g1)" by (auto simp: git_simps)
  have gr: "grown g0 g'" "grown g g0"
    using only_adds_grown [OF only_adds_replay_all rest] only_adds_grown [OF only_adds_replay_one j] assms(2) grown_trans
    by blast+
  have a: "addressed F (live_odb env g0)" by (rule addressed_mono [OF assms(4) grown_odb [OF gr(1)]])
  show ?case
    using Cons.IH [OF rest] replay_one_intact [OF j grown_refl assms(3) a] Cons.prems intact_grown [OF a gr(2)] by auto
qed

text \<open>Nothing a repository had goes away, whatever the outcome.\<close>

definition only_grows :: "('o, 'a) git_act \<Rightarrow> bool" where
  "only_grows m \<longleftrightarrow> (\<forall>g. grown g (snd (m g)))"

lemma only_grows_adds: "only_adds m \<Longrightarrow> only_grows m"
  unfolding only_grows_def only_adds_def by (metis grown_add)

lemma only_grows_move: "only_grows (move_branch env n t i)"
  by (auto simp: only_grows_def move_branch_def split: sum.splits)

lemma only_grows_bind: "only_grows m \<Longrightarrow> (\<And>x. only_grows (f x)) \<Longrightarrow> only_grows (git_bind m f)"
  unfolding only_grows_def git_bind_def by (fastforce split: prod.splits sum.splits intro: grown_trans)

lemma only_grows_if: "only_grows a \<Longrightarrow> only_grows b \<Longrightarrow> only_grows (if c then a else b)"
  by simp

lemma only_grows_merge: "only_grows (merge_pull_request env menv src tgt strategy who msg)"
proof -
  have read: "only_adds (\<lambda>g. (f g, g))" for f :: "'a git_dir \<Rightarrow> git_error + 'a list"
    by (rule only_adds_same) simp
  note grows = only_grows_bind only_grows_move only_grows_if only_grows_adds
  have "only_grows (commit_merged env menv parents src tgt who msg)" for parents
    unfolding commit_merged_def case_prod_beta
    by (intro only_grows_bind only_grows_move only_grows_adds [OF only_adds_both_tips]
        only_grows_adds [OF only_adds_three_way] only_grows_adds [OF only_adds_write_commit] only_grows_adds [OF only_adds_ok])
  moreover have "only_grows (rebase_ref_onto_branch env menv src tgt who)"
    unfolding rebase_ref_onto_branch_def case_prod_beta
    by (intro only_grows_bind only_grows_if only_grows_move only_grows_adds [OF only_adds_both_tips]
        only_grows_adds [OF only_adds_ask] only_grows_adds [OF read] only_grows_adds [OF only_adds_options]
        only_grows_adds [OF only_adds_replay_all] only_grows_adds [OF only_adds_ok])
  moreover have "only_grows (fast_forward_branch_to_ref env menv src tgt)"
    unfolding fast_forward_branch_to_ref_def case_prod_beta
    by (intro only_grows_bind only_grows_if only_grows_move only_grows_adds [OF only_adds_both_tips]
        only_grows_adds [OF only_adds_ask] only_grows_adds [OF only_adds_fail] only_grows_adds [OF only_adds_ok])
  ultimately show ?thesis
    by (cases strategy) (simp_all add: merge_pull_request_def merge_ref_into_branch_def squash_ref_into_branch_def)
qed

lemma rebase_intact:
  assumes run: "rebase_ref_onto_branch env menv src tgt who g = (Inr tip, g')"
    and laws: "resolve_law env menv" "merge_law menv" "refs_intact env g" "addressed F (live_odb env g')"
  shows "intact (live_odb env g') tip"
proof -
  obtain s t base found where st: "resolve_ref menv g src = Inr s" "resolve_ref menv g (branch_ref tgt) = Inr t"
    and found: "replay_chain max_rebase_commits (live_odb env g) base s [] = Inr found"
    and rest: "tip = t \<and> g' = g
      \<or> (\<exists>g1. replay_all env menv who t (rev found) g = (Inr tip, g1) \<and> grown g1 g')"
    using run unfolding rebase_ref_onto_branch_def by (auto simp: git_simps split: if_splits)
  note sides = resolved_intact [OF laws(1,3) st(1)] resolved_intact [OF laws(1,3) st(2)]
  have "\<forall>x\<in>set (rev found). intact (live_odb env g) x" using replay_chain_intact [OF found sides(1)] by simp
  then show ?thesis using rest sides replay_all_intact [OF _ _ laws(2,4)] by fastforce
qed

text \<open>C16. Merging keeps every ref intact. If every ref points at an object whose whole closure is in the
  repository, this is still so after a merge under any strategy, whether it succeeded or failed
  half-way: the new tip's trees and ancestors are all there, and nothing another ref needs is lost.\<close>

theorem merge_keeps_refs_intact:
  assumes "merge_pull_request env menv src tgt strategy who msg g = (r, g')" "refs_intact env g"
    and "transaction_law env" "base_law menv" "resolve_law env menv" "merge_law menv" "hex_names env g'"
    "content_addressed F env g'"
  shows "refs_intact env g'"
proof -
  note addr = live_odb_addressed [OF assms(8) refl]
  have gr: "grown g g'"
    using only_grows_merge [of env menv src tgt strategy who msg] assms(1) by (metis only_grows_def snd_conv)
  note old = intact_grown [OF addr gr]
  show ?thesis
  proof (cases r)
    case (Inl e)
    then have "gd_refs g' = gd_refs g"
      using fails_clean_merge [of env menv src tgt strategy who msg] assms(1) unfolding fails_clean_def by auto
    then show ?thesis using assms(2) old by (simp add: refs_intact_def)
  next
    case (Inr tip)
    note run = assms(1) [unfolded Inr merge_pull_request_def]
    obtain s t where moved: "resolve_ref menv g src = Inr s" "moved_to (branch_ref tgt) t tip (gd_refs g) (gd_refs g')"
      "merge_shape (live_odb env g') strategy t s tip"
      using merged_moves [OF assms(1) [unfolded Inr] assms(3-5,7) addr] by blast
    have "intact (live_odb env g') tip"
    proof (cases strategy)
      case FastForwardOnly
      then show ?thesis using moved(1,3) old resolved_intact [OF assms(5,2)] by (simp add: merge_shape_def)
    qed (use run in \<open>auto simp: merge_ref_into_branch_def squash_ref_into_branch_def
        intro: commit_merged_intact [OF _ assms(5,6,2) addr] rebase_intact [OF _ assms(5,6,2) addr]\<close>)
    then show ?thesis
      using moved(2) assms(2) old by (auto simp: refs_intact_def moved_to_def split: if_split_asm)
  qed
qed

section \<open>A repository with two branches\<close>

text \<open>Commits b, on the branch feature, and c, on main, both on top of a; all trees are the empty tree t. A
  merge of any two trees gives t, and the merge base is looked for among the first ancestors.\<close>

definition id_c :: char where "id_c = CHR ''c''"
definition id_m :: char where "id_m = CHR ''m''"

definition two_branches :: "char git_dir" where
  "two_branches =
    \<lparr>gd_loose = [(id_a, Commit_obj ''a'' id_t [] [] (Inr 0)), (id_b, Commit_obj ''b'' id_t [id_a] [] (Inr 1)),
       (id_c, Commit_obj ''c'' id_t [id_a] [] (Inr 2)), (id_t, Tree_obj ''t'' [])],
     gd_pack_dir = [], gd_incoming = [], gd_refs = [(''refs/heads/main'', id_c), (''refs/heads/feature'', id_b)],
     gd_head = HeadSymbolic ''refs/heads/main''\<rparr>"

definition merged_object :: "char \<Rightarrow> char git_object" where
  "merged_object i =
     (if i = id_c then Commit_obj ''c'' id_t [id_a] [] (Inr 2)
      else if i = id_m then Commit_obj ''m'' id_t [id_c, id_b] [] (Inr 7) else simple_object i)"

definition simple_resolve :: "char git_dir \<Rightarrow> string \<Rightarrow> string + char" where
  "simple_resolve g n =
     (case map_of (gd_refs g) n of
        None \<Rightarrow> Inl ''no such ref''
      | Some i \<Rightarrow> if find_object (live_odb simple_env g) i = None then Inl ''missing'' else Inr i)"

definition simple_merged :: "char odb \<Rightarrow> string + char merged" where
  "simple_merged db =
     (if find_object db id_t = Some (Tree_obj ''t'' [])
      then Inr \<lparr>md_unresolved = False, md_conflicts = 0, md_tree = id_t, md_blobs = [], md_trees = [], md_write_error = None\<rparr>
      else Inl ''missing'')"

fun ancestor_list :: "nat \<Rightarrow> char odb \<Rightarrow> char \<Rightarrow> char list" where
  "ancestor_list 0 db x = [x]"
| "ancestor_list (Suc n) db x = x # concat (map (ancestor_list n db) (parent_list db x))"

definition common_list :: "char odb \<Rightarrow> char \<Rightarrow> char \<Rightarrow> char list" where
  "common_list db x y = filter (\<lambda>z. z \<in> set (ancestor_list 4 db y)) (ancestor_list 4 db x)"

definition simple_base :: "char odb \<Rightarrow> char \<Rightarrow> char \<Rightarrow> string + char" where
  "simple_base db x y =
     (case find (\<lambda>z. list_all (\<lambda>w. w \<in> set (ancestor_list 4 db z)) (common_list db x y)) (common_list db x y) of
        None \<Rightarrow> Inl ''no merge base'' | Some z \<Rightarrow> Inr z)"

definition simple_menv :: "char merge_env" where
  "simple_menv =
    \<lparr>resolve_ref = simple_resolve, merge_options_error = None,
     merge_tips = (\<lambda>db _ _. simple_merged db), merge_three = (\<lambda>db _ _ _. simple_merged db), common_base = simple_base,
     hash_of = (\<lambda>_. id_m), commit_bytes = (\<lambda>_. ''m''),
     commit_details_of = (\<lambda>_. Inr \<lparr>cd_author = \<lparr>sig_name = ''ann'', sig_email = ''ann@x'', sig_seconds = 1\<rparr>,
                                      cd_encoding = None, cd_message = ''w''\<rparr>),
     empty_tree = id_t, write_error_of = (\<lambda>_. None), today = 7\<rparr>"

definition feature_merged :: "(git_error + char) \<times> char git_dir" where
  "feature_merged =
     merge_pull_request simple_env simple_menv ''refs/heads/feature'' ''main'' Merge (''ann'', ''ann@x'') ''merge'' two_branches"

lemma ancestor_list_ancestors: "set (ancestor_list n db x) \<subseteq> ancestors db x"
proof (induction n arbitrary: x)
  case (Suc n)
  then show ?case using ancestors_parents [OF refl, of db x] by auto
qed simp

lemma simple_base_law: "base_law simple_menv"
proof -
  have "z \<in> ancestors db x \<and> z \<in> ancestors db y" if "simple_base db x y = Inr z" for db x y z
  proof -
    have "z \<in> set (common_list db x y)"
      using that by (auto simp: simple_base_def find_Some_iff split: option.splits)
    then show ?thesis using ancestor_list_ancestors by (fastforce simp: common_list_def)
  qed
  then show ?thesis by (simp add: base_law_def simple_menv_def)
qed

lemma simple_resolve_law: "resolve_law simple_env simple_menv"
  by (auto simp: resolve_law_def simple_menv_def simple_resolve_def object_closure_def split: option.splits if_splits)

lemma simple_merge_law: "merge_law simple_menv"
proof -
  have "intact db id_t" if "find_object db id_t = Some (Tree_obj ''t'' [])" for db
    using intact_node [OF that] by simp
  then show ?thesis by (auto simp: merge_law_def simple_menv_def simple_merged_def split: if_splits)
qed

lemma feature_merged_result:
  "feature_merged = (Inr id_m, \<lparr>gd_loose = gd_loose two_branches @ [(id_m, Commit_obj ''m'' id_t [id_c, id_b] [] (Inr 7))],
     gd_pack_dir = [], gd_incoming = [], gd_refs = [(''refs/heads/main'', id_m), (''refs/heads/feature'', id_b)],
     gd_head = HeadSymbolic ''refs/heads/main''\<rparr>)"
  by code_simp

lemma feature_merged_laws:
  "content_addressed merged_object simple_env (snd feature_merged)" "hex_names simple_env (snd feature_merged)"
proof -
  show "content_addressed merged_object simple_env (snd feature_merged)"
    by (simp add: feature_merged_result content_addressed_def addressed_def simple_env_def two_branches_def
        merged_object_def simple_object_def id_a_def id_b_def id_c_def id_m_def id_t_def)
  have "i \<in> {id_a, id_b, id_c, id_m, id_t}" if "find_object (live_odb simple_env (snd feature_merged)) i \<noteq> None" for i
    using that by (auto simp: feature_merged_result find_object_def live_odb_def two_branches_def split: if_splits)
  moreover have "list_all (\<lambda>i. hex_to_id simple_env (id_to_hex simple_env i) = Some i \<and> id_to_hex simple_env i \<noteq> zero_id)
      [id_a, id_b, id_c, id_m, id_t]" by code_simp
  ultimately show "hex_names simple_env (snd feature_merged)" by (fastforce simp: hex_names_def)
qed

lemma two_branches_intact: "refs_intact simple_env two_branches"
proof -
  have "fsck_walk 10 [] (gd_loose two_branches) [] 0 [id_b, id_c] = Inr ()" by code_simp
  from fsck_walk_intact [OF this] have "intact (gd_loose two_branches) id_b" "intact (gd_loose two_branches) id_c" by simp_all
  moreover have "live_odb simple_env two_branches = gd_loose two_branches" by (simp add: live_odb_def two_branches_def)
  ultimately show ?thesis by (simp add: refs_intact_def) (simp add: two_branches_def)
qed

theorem merge_moves_target_forward_witness:
  "merge_shape (live_odb simple_env (snd feature_merged)) Merge id_c id_b id_m
   \<and> map_of (gd_refs (snd feature_merged)) ''refs/heads/main'' = Some id_m"
proof -
  have "feature_merged = (Inr id_m, snd feature_merged)" by (simp add: feature_merged_result)
  from merge_moves_target_forward [OF this [unfolded feature_merged_def] simple_transaction_law simple_base_law
      simple_resolve_law feature_merged_laws(2,1) [unfolded feature_merged_def]]
  have "\<exists>source old. resolve_ref simple_menv two_branches ''refs/heads/feature'' = Inr source
      \<and> resolve_ref simple_menv two_branches (branch_ref ''main'') = Inr old
      \<and> merge_shape (live_odb simple_env (snd feature_merged)) Merge old source id_m"
    unfolding feature_merged_def [symmetric] by auto
  moreover have "resolve_ref simple_menv two_branches ''refs/heads/feature'' = Inr id_b"
    "resolve_ref simple_menv two_branches (branch_ref ''main'') = Inr id_c" by code_simp+
  ultimately show ?thesis by (simp add: feature_merged_result)
qed

theorem merge_keeps_refs_intact_witness: "refs_intact simple_env (snd feature_merged)"
  unfolding feature_merged_def
  by (rule merge_keeps_refs_intact [OF surjective_pairing two_branches_intact simple_transaction_law simple_base_law
        simple_resolve_law simple_merge_law feature_merged_laws(2,1) [unfolded feature_merged_def]])


end
