(* ===== verification/Fork_Import.thy ===== *)
theory Fork_Import
  imports Merge_Guarantees
begin

text \<open>
  Importing a fork's branch (\<^verbatim>\<open>edda-git/src/transfer.rs\<close>). The walk skips whatever the destination already
  has, relying on every stored object being complete. A walk that ends keeps this true; one that is
  cut off by an error does not, and the import that is tried again builds on what it left.
\<close>

section \<open>The copying walk\<close>

text \<open>Everything stored refers only to what is stored, or to what the walk still has to look at.\<close>

definition complete_but_for :: "'o list \<Rightarrow> 'o odb \<Rightarrow> bool" where
  "complete_but_for todo db \<longleftrightarrow>
     (\<forall>x ob. find_object db x = Some ob \<longrightarrow>
        (\<exists>ls. object_links ob = Inr ls \<and> (\<forall>l\<in>set ls. find_object db l \<noteq> None \<or> l \<in> set todo)))"

lemma find_object_append:
  "find_object (db @ [(x, ob)]) y = (case find_object db y of None \<Rightarrow> if y = x then Some ob else None | Some r \<Rightarrow> Some r)"
  by (simp add: find_object_def map_add_def split: option.splits)

lemma found_append: "find_object (db @ [(x, ob)]) y \<noteq> None \<longleftrightarrow> find_object db y \<noteq> None \<or> y = x"
  by (auto simp: find_object_append split: option.splits)

lemma complete_intact:
  assumes "complete_but_for [] db" "find_object db x \<noteq> None"
  shows "intact db x"
proof -
  have "find_object db y \<noteq> None" if "y \<in> object_closure db [x]" for y
    using that unfolding object_closure_def
  proof (induction rule: reachable_induct)
    case (step a b)
    then show ?case using assms(1) by (fastforce simp: complete_but_for_def links_of_def split: option.splits)
  qed (use assms(2) in simp)
  then show ?thesis using assms(1) by (fastforce simp: intact_def complete_but_for_def)
qed

lemma copy_walk_adds:
  "copy_walk limit wfail src dst seen copied stack = (res, db) \<Longrightarrow> \<exists>new. db = dst @ new \<and> set new \<subseteq> set src"
proof (induction limit wfail src dst seen copied stack rule: copy_walk.induct)
  case (2 limit wfail src dst seen copied x stack)
  show ?case
  proof (cases "x \<in> set seen \<or> find_object dst x \<noteq> None")
    case True
    then show ?thesis using "2.IH"(1,2) "2.prems" by (auto split: if_splits)
  next
    case False
    show ?thesis
    proof (cases "find_object src x")
      case None
      then show ?thesis using "2.prems" False by simp
    next
      case (Some ob)
      then have "(x, ob) \<in> set src" by (simp add: find_object_def map_of_SomeD)
      then show ?thesis using "2.prems" "2.IH"(3) False Some by (fastforce split: sum.splits option.splits if_splits)
    qed
  qed
qed simp

lemma copy_walk_complete:
  assumes "copy_walk limit wfail src dst seen copied stack = (Inr n, db)"
    and "complete_but_for stack dst" "\<forall>x\<in>set seen. find_object dst x \<noteq> None"
  shows "complete_but_for [] db \<and> (\<forall>x. x \<in> set stack \<or> find_object dst x \<noteq> None \<longrightarrow> find_object db x \<noteq> None)"
  using assms
proof (induction limit wfail src dst seen copied stack rule: copy_walk.induct)
  case (1 limit wfail src dst seen copied)
  then show ?case by auto
next
  case (2 limit wfail src dst seen copied x stack)
  show ?case
  proof (cases "find_object dst x")
    case (Some ob)
    then have "complete_but_for stack dst" using "2.prems"(2) unfolding complete_but_for_def by fastforce
    then show ?thesis
      using "2.IH"(1,2) "2.prems"(1,3) Some by (cases "x \<in> set seen") (auto split: if_splits)
  next
    case None
    then have new: "x \<notin> set seen" using "2.prems"(3) by blast
    obtain ob where ob: "find_object src x = Some ob" using "2.prems"(1) new None by (auto split: option.splits)
    obtain ls where ls: "object_links ob = Inr ls" using "2.prems"(1) new None ob by (auto split: sum.splits)
    have w: "wfail x = None" "\<not> limit < copied + 1"
      and run: "copy_walk limit wfail src (dst @ [(x, ob)]) (x # seen) (copied + 1) (rev ls @ stack) = (Inr n, db)"
      using "2.prems"(1) new None ob ls by (auto split: option.splits if_splits)
    have "complete_but_for (rev ls @ stack) (dst @ [(x, ob)])"
      using "2.prems"(2) ls None unfolding complete_but_for_def find_object_append
      by (fastforce split: option.splits if_splits)
    moreover have "\<forall>y\<in>set (x # seen). find_object (dst @ [(x, ob)]) y \<noteq> None"
      using "2.prems"(3) unfolding found_append by simp
    ultimately have "complete_but_for [] db \<and> (\<forall>y. y \<in> set (rev ls @ stack) \<or> find_object dst y \<noteq> None \<or> y = x
        \<longrightarrow> find_object db y \<noteq> None)"
      using "2.IH"(3) [OF new _ ob ls w run] None unfolding found_append by blast
    then show ?thesis by auto
  qed
qed

section \<open>A successful import\<close>

text \<open>The objects of a repository are found by id wherever they are stored.\<close>

definition odb_complete :: "'o receive_env \<Rightarrow> 'o git_dir \<Rightarrow> bool" where
  "odb_complete env g \<longleftrightarrow> complete_but_for [] (live_odb env g)"

lemma complete_same_set:
  assumes "addressed F db" "set db = set db'" "complete_but_for [] db"
  shows "complete_but_for [] db'"
proof -
  have "addressed F db'" using assms(1,2) by (simp add: addressed_def)
  then have "find_object db' = find_object db"
    using addressed_find [OF assms(1)] addressed_find [of F db'] assms(2) by (simp add: fun_eq_iff)
  then show ?thesis using assms(3) by (simp add: complete_but_for_def)
qed

lemma force_set_ref_result:
  assumes "force_set_ref env n i g = (r, g')" "transaction_law env"
  shows "grown g g' \<and> gd_loose g' = gd_loose g
    \<and> (case r of Inl _ \<Rightarrow> gd_refs g' = gd_refs g | Inr _ \<Rightarrow> map_of (gd_refs g') = (map_of (gd_refs g))(n \<mapsto> i))"
proof (cases r)
  case (Inl e)
  then show ?thesis using assms(1) by (auto simp: force_set_ref_def split: if_splits sum.splits)
next
  case (Inr u)
  then obtain refs where t: "transact env [\<lparr>re_name = n, re_change = ChUpdate PvAny i\<rparr>] (gd_refs g) = Inr refs"
    "g' = g\<lparr>gd_refs := refs\<rparr>"
    using assms(1) by (auto simp: force_set_ref_def split: if_splits sum.splits)
  then have "map_of refs n = Some i" "\<forall>m. m \<noteq> n \<longrightarrow> map_of refs m = map_of (gd_refs g) m"
    using assms(2) unfolding transaction_law_def by (force simp: edit_value_def)+
  then show ?thesis using t(2) Inr by (auto simp: fun_eq_iff)
qed

text \<open>Importing a fork's branch is all or nothing for refs, and keeps a complete repository complete
  when it succeeds. If everything the destination stores is complete, a successful import leaves a
  repository of which the same holds, in which the destination ref, and no other, has moved to the tip
  of the source branch and every ref points at a complete history. One that fails, in the walk or at
  the ref, moves no ref and only adds objects of the source.\<close>

theorem import_keeps_complete:
  assumes "import_branch_tip env menv write_fails src source_branch dest_ref g = (r, g')"
    and "transaction_law env" "content_addressed F env g'" "odb_complete env g" "refs_intact env g"
  shows "grown g g' \<and> set (gd_loose g') \<subseteq> set (gd_loose g) \<union> set (live_odb env src)
    \<and> refs_intact env g'
    \<and> (case r of
         Inl _ \<Rightarrow> gd_refs g' = gd_refs g
       | Inr tip \<Rightarrow> resolve_ref menv src (branch_ref source_branch) = Inr tip
           \<and> map_of (gd_refs g') = (map_of (gd_refs g))(dest_ref \<mapsto> tip)
           \<and> odb_complete env g')"
proof (cases "resolve_ref menv src (branch_ref source_branch)")
  case (Inl e)
  then show ?thesis using assms(1,5) by (auto simp: import_branch_tip_def)
next
  case (Inr tip)
  obtain res db where walk: "copy_walk max_imported_objects write_fails (live_odb env src) (live_odb env g) [] 0 [tip] = (res, db)"
    by fastforce
  then obtain new where new: "db = live_odb env g @ new" "set new \<subseteq> set (live_odb env src)"
    using copy_walk_adds by blast
  define g1 where "g1 = add_objects new g"
  have g': "case res of Inl e \<Rightarrow> r = Inl e \<and> g' = g1
      | Inr _ \<Rightarrow> git_bind (force_set_ref env dest_ref tip) (\<lambda>_. git_ok tip) g1 = (r, g')"
    using assms(1) Inr walk new(1) by (auto simp: import_branch_tip_def g1_def Let_def split: sum.splits)
  have refs: "gd_loose g' = gd_loose g1 \<and> grown g1 g' \<and> (case r of Inl _ \<Rightarrow> gd_refs g' = gd_refs g
      | Inr i \<Rightarrow> i = tip \<and> (\<exists>n. res = Inr n) \<and> map_of (gd_refs g') = (map_of (gd_refs g))(dest_ref \<mapsto> tip))"
  proof (cases res)
    case (Inl e)
    then show ?thesis using g' by (simp add: g1_def)
  next
    case (Inr n)
    obtain a g2 where a: "force_set_ref env dest_ref tip g1 = (a, g2)" by fastforce
    show ?thesis using force_set_ref_result [OF a assms(2)] Inr g' a
      by (cases a) (auto simp: git_bind_def git_ok_def g1_def)
  qed
  have gr: "grown g g'" using refs grown_trans [of g g1 g'] by (simp add: g1_def)
  note addr = live_odb_addressed [OF assms(3) refl]
  note old = intact_grown [OF addr gr]
  have set_db: "set (live_odb env g') = set db"
    using refs new(1) by (auto simp: live_odb_def g1_def grown_def)
  have walked: "complete_but_for [] (live_odb env g') \<and> find_object (live_odb env g') tip \<noteq> None" if n: "res = Inr n" for n
  proof -
    have "addressed F db" using addr set_db by (simp add: addressed_def)
    moreover have "complete_but_for [tip] (live_odb env g)"
      using assms(4) unfolding odb_complete_def complete_but_for_def by fastforce
    from copy_walk_complete [OF walk [unfolded n] this]
    have "complete_but_for [] db" "find_object db tip \<noteq> None" by auto
    ultimately show ?thesis
      using complete_same_set [of F db "live_odb env g'"] set_db addressed_find [OF addr] addressed_find [of F db]
      by (auto split: if_splits)
  qed
  have "intact (live_odb env g') tip" if "res = Inr n" for n
    by (rule complete_intact) (use walked [OF that] in blast)+
  then have "refs_intact env g'"
    using refs old assms(5)
    by (cases r) (auto simp: refs_intact_def split: if_split_asm)
  then show ?thesis
    using gr refs new(2) walked Inr by (cases r) (auto simp: g1_def odb_complete_def)
qed

section \<open>Examples\<close>

text \<open>A fork of the simple repository whose branch feature has commit d, with tree u, on top of a.\<close>

definition id_d :: char where "id_d = CHR ''d''"
definition id_u :: char where "id_u = CHR ''u''"

definition fork_dir :: "char git_dir" where
  "fork_dir = simple_dir\<lparr>
     gd_loose := gd_loose simple_dir @ [(id_d, Commit_obj ''d'' id_u [id_a] [] (Inr 3)), (id_u, Tree_obj ''u'' [])],
     gd_refs := [(''refs/heads/feature'', id_d)]\<rparr>"

definition fork_object :: "char \<Rightarrow> char git_object" where
  "fork_object i =
     (if i = id_d then Commit_obj ''d'' id_u [id_a] [] (Inr 3) else if i = id_u then Tree_obj ''u'' [] else simple_object i)"

definition import_feature :: "(char \<Rightarrow> string option) \<Rightarrow> char git_dir \<Rightarrow> (git_error + char) \<times> char git_dir" where
  "import_feature write_fails =
     import_branch_tip simple_env simple_menv write_fails fork_dir ''feature'' ''refs/edda/pull-heads/1''"

lemma imported_feature:
  "import_feature (\<lambda>_. None) simple_dir =
     (Inr id_d, simple_dir\<lparr>
        gd_loose := gd_loose simple_dir @ [(id_d, Commit_obj ''d'' id_u [id_a] [] (Inr 3)), (id_u, Tree_obj ''u'' [])],
        gd_refs := [(''refs/edda/pull-heads/1'', id_d), (''refs/heads/main'', id_a)]\<rparr>)"
  by code_simp

theorem import_keeps_complete_witness:
  "refs_intact simple_env (snd (import_feature (\<lambda>_. None) simple_dir))"
proof -
  have "complete_but_for [] (live_odb simple_env simple_dir)"
    unfolding simple_live by (auto simp: complete_but_for_def find_object_def simple_dir_def split: if_splits)
  moreover have "content_addressed fork_object simple_env (snd (import_feature (\<lambda>_. None) simple_dir))"
    unfolding imported_feature
    by (simp add: content_addressed_def addressed_def simple_env_def simple_dir_def fork_object_def
        simple_object_def id_a_def id_b_def id_d_def id_t_def id_u_def)
  ultimately show ?thesis
    using import_keeps_complete [OF surjective_pairing simple_transaction_law _ _ simple_refs_intact]
    by (simp add: import_feature_def odb_complete_def)
qed

text \<open>A failed import breaks the next one. A commit is written before its tree. When writing the tree fails,
  the import fails and leaves the commit; when it is tried again, with nothing failing any more, the walk
  finds the commit and takes its history for complete. The import succeeds, and its ref points at a commit
  whose tree is nowhere.\<close>

theorem failed_import_breaks_retry:
  "let (first, g1) = import_feature (\<lambda>i. if i = id_u then Some ''disk full'' else None) simple_dir;
       (second, g2) = import_feature (\<lambda>_. None) g1 in
     isl first \<and> second = Inr id_d
     \<and> map_of (gd_refs g2) ''refs/edda/pull-heads/1'' = Some id_d
     \<and> find_object (live_odb simple_env g2) id_d = Some (Commit_obj ''d'' id_u [id_a] [] (Inr 3))
     \<and> find_object (live_odb simple_env g2) id_u = None"
  by code_simp

text \<open>A rebase can replay commits the target already has. The branch has merged the target, c, into itself with
  commit d; the merge base is c, which is not on the first-parent chain, so the walk goes down to the
  root a and a, an ancestor of the target, is replayed on top of it.\<close>

definition merged_back :: "char odb" where
  "merged_back = gd_loose two_branches @ [(id_d, Commit_obj ''d'' id_t [id_b, id_c] [] (Inr 4))]"

theorem rebase_replays_shared_history:
  "common_base simple_menv merged_back id_d id_c = Inr id_c
   \<and> replay_chain max_rebase_commits merged_back id_c id_d [] = Inr [id_d, id_b, id_a]
   \<and> id_a \<in> set (ancestor_list 1 merged_back id_c)"
  by code_simp


end
