(* ===== verification/Frames.thy ===== *)
theory Frames
  imports Database
begin

text \<open>
  What an action leaves alone: \<^verbatim>\<open>frames F m\<close> says that \<^verbatim>\<open>m\<close>, whether it returns or fails, does not change
  the component \<^verbatim>\<open>F\<close> of the world. The rules go through the ways to build an action.
\<close>

section \<open>What an action leaves alone\<close>

definition frames :: "(world \<Rightarrow> 'c) \<Rightarrow> ('e, 'a) act \<Rightarrow> bool" where
  "frames F m \<longleftrightarrow> (\<forall>w. F (snd (m w)) = F w)"

lemma framesD: "frames F m \<Longrightarrow> m w = (r, w') \<Longrightarrow> F w' = F w"
  unfolding frames_def by (metis snd_conv)

lemma frames_ok: "frames F (ok x)" by (simp add: frames_def ok_def)
lemma frames_err: "frames F (err e)" by (simp add: frames_def err_def)
lemma frames_now: "frames F now_unix" by (simp add: frames_def now_unix_def)

lemma frames_and_then: "frames F m \<Longrightarrow> (\<And>x. frames F (f x)) \<Longrightarrow> frames F (and_then m f)"
  unfolding frames_def and_then_def by (auto split: prod.splits sum.splits) (metis snd_conv)+

lemma frames_map_err: "frames F m \<Longrightarrow> frames F (map_err g m)"
  unfolding frames_def map_err_def by (auto split: prod.splits sum.splits) (metis snd_conv)+

lemma frames_outcome: "frames F m \<Longrightarrow> frames F (outcome m)"
  unfolding frames_def outcome_def by (auto split: prod.splits) (metis snd_conv)+

lemma frames_or_err: "frames F (or_err e x)"
  by (cases x) (simp_all add: or_err_def frames_ok frames_err)

lemma frames_ensure: "frames F (ensure b e)"
  by (simp add: ensure_def frames_ok frames_err)

lemma frames_option: "frames F m \<Longrightarrow> (\<And>y. frames F (f y)) \<Longrightarrow> frames F (case x of None \<Rightarrow> m | Some y \<Rightarrow> f y)"
  by (cases x) simp_all

lemma frames_if: "frames F m \<Longrightarrow> frames F n \<Longrightarrow> frames F (if b then m else n)"
  by simp

lemma frames_prod: "(\<And>a b. frames F (f a b)) \<Longrightarrow> frames F (case p of (a, b) \<Rightarrow> f a b)"
  by (cases p) simp

lemma frames_for_each: "(\<And>x. frames F (f x)) \<Longrightarrow> frames F (for_each xs f)"
  by (induction xs) (auto intro: frames_ok frames_and_then)

lemmas frames_basic = frames_ok frames_err frames_now frames_and_then frames_map_err frames_outcome frames_or_err
  frames_ensure frames_option frames_if frames_prod frames_for_each

text \<open>A component of the world that statements do not touch.\<close>

locale world_component =
  fixes F :: "world \<Rightarrow> 'c"
  assumes statement: "F (w\<lparr>statement_fails := s\<rparr>) = F w" and table: "F (w\<lparr>tables := d\<rparr>) = F w"
begin

lemma frames_sql: "frames F (sql f)"
  by (auto simp: frames_def sql_def Let_def statement table split: sum.splits)

lemma frames_select: "frames F (select q)"
  unfolding select_def by (rule frames_sql)

lemma frames_execute: "frames F (execute f)"
  unfolding execute_def by (rule frames_sql)

lemma frames_transaction: "frames F body \<Longrightarrow> frames F (transaction conv body)"
proof -
  assume body: "frames F body"
  have "F w' = F w" if "transaction conv body w = (r, w')" for w r w'
  proof -
    have sel: "F w2 = F w1" if "map_err conv (select (\<lambda>_. ())) w1 = (s, w2)" for w1 s w2
      using framesD [OF frames_map_err [OF frames_select] that] .
    show ?thesis
      using that unfolding transaction_def and_then_def
      by (auto split: prod.splits sum.splits simp: table dest!: sel framesD [OF body])
  qed
  then show ?thesis unfolding frames_def by (metis prod.collapse)
qed

lemmas frames_stmt = frames_basic frames_sql frames_select frames_execute frames_transaction

end

lemma frames_read_only: "read_only m \<Longrightarrow> frames (\<lambda>w. G (tables w)) m"
  by (simp add: frames_def read_only_def)

lemma frames_collect: "(\<And>x. frames F (f x)) \<Longrightarrow> frames F (collect xs f)"
  by (induction xs) (auto intro: frames_ok frames_and_then)

lemma frames_tables_sql:
  "(\<And>d x d'. f d = Inr (x, d') \<Longrightarrow> G d' = G d) \<Longrightarrow> frames (\<lambda>w. G (tables w)) (sql f)"
  by (auto simp: frames_def sql_def Let_def split: sum.splits)

lemma frames_tables_transaction:
  assumes "frames (\<lambda>w. G (tables w)) body" shows "frames (\<lambda>w. G (tables w)) (transaction conv body)"
proof -
  have "G (tables w') = G (tables w)" if "transaction conv body w = (r, w')" for w r w'
  proof (cases r)
    case (Inl e)
    then show ?thesis using transaction_Inl that by fastforce
  next
    case (Inr x)
    show ?thesis
    proof (rule transaction_Inr [OF that [unfolded Inr]])
      fix w1 w2 assume "tables w1 = tables w" "body w1 = (Inr x, w2)" "tables w' = tables w2"
      then show ?thesis using framesD [OF assms] by metis
    qed
  qed
  then show ?thesis unfolding frames_def by (metis prod.collapse)
qed

section \<open>Actions that cannot fail where no statement does\<close>

definition sound :: "('e, 'a) act \<Rightarrow> bool" where
  "sound m \<longleftrightarrow> (\<forall>w. statement_fails w = [] \<longrightarrow> \<not> isl (fst (m w)) \<and> statement_fails (snd (m w)) = [])"

lemma soundE:
  assumes "sound m" "statement_fails w = []"
  obtains x w' where "m w = (Inr x, w')" "statement_fails w' = []"
  using assms unfolding sound_def by (metis prod.collapse sum.collapse(2))

lemma sound_ok: "sound (ok x)" by (simp add: sound_def ok_def)
lemma sound_now: "sound now_unix" by (simp add: sound_def now_unix_def)
lemma sound_fresh: "sound fresh_uuid" by (simp add: sound_def fresh_uuid_def)
lemma sound_select: "sound (select q)" by (simp add: sound_def select_no_fault)
lemma sound_execute: "sound (execute f)" by (simp add: sound_def execute_no_fault)
lemma sound_outcome: "sound m \<Longrightarrow> sound (outcome m)"
  by (auto simp: sound_def outcome_def split: prod.splits)

lemma sound_and_then:
  assumes "sound m" "\<And>x. sound (f x)" shows "sound (and_then m f)"
  unfolding sound_def
proof (intro allI impI)
  fix w :: world assume "statement_fails w = []"
  then obtain x w' where "m w = (Inr x, w')" "statement_fails w' = []" using soundE [OF assms(1)] by blast
  then show "\<not> isl (fst (and_then m f w)) \<and> statement_fails (snd (and_then m f w)) = []"
    using assms(2) [of x] by (simp add: and_then_def sound_def)
qed

lemma sound_map_err: "sound m \<Longrightarrow> sound (map_err g m)"
  by (auto simp: sound_def map_err_def split: prod.splits sum.splits)

lemma sound_option: "sound m \<Longrightarrow> (\<And>y. sound (f y)) \<Longrightarrow> sound (case x of None \<Rightarrow> m | Some y \<Rightarrow> f y)"
  by (cases x) simp_all

lemma sound_if: "sound m \<Longrightarrow> sound n \<Longrightarrow> sound (if b then m else n)"
  by simp

lemma sound_prod: "(\<And>a b. sound (f a b)) \<Longrightarrow> sound (case p of (a, b) \<Rightarrow> f a b)"
  by (cases p) simp

lemma sound_for_each: "(\<And>x. sound (f x)) \<Longrightarrow> sound (for_each xs f)"
  by (induction xs) (auto intro: sound_ok sound_and_then)

lemma sound_collect: "(\<And>x. sound (f x)) \<Longrightarrow> sound (collect xs f)"
  by (induction xs) (auto intro: sound_ok sound_and_then)

lemmas sound_rules = sound_ok sound_now sound_fresh sound_select sound_execute sound_outcome sound_and_then
  sound_map_err sound_option sound_if sound_prod sound_for_each sound_collect

end
