(* ===== verification/Ssh_Keys.thy ===== *)
theory Ssh_Keys
  imports Login
begin

text \<open>
  SSH keys: the statements of \<^verbatim>\<open>edda-db/src/ssh_key_repo.rs\<close> and \<^verbatim>\<open>deploy_key_repo.rs\<close>, registering,
  revoking and authenticating by key (\<^verbatim>\<open>edda-auth/src/ssh.rs\<close>, \<^verbatim>\<open>deploy_keys.rs\<close>), the deploy-key
  service (\<^verbatim>\<open>edda-app/src/services/deploy_key.rs\<close>) and the handlers of \<^verbatim>\<open>ssh_key_routes.rs\<close>. Parsing an
  OpenSSH key and its fingerprint are the library's: a parsed key is a string, and \<open>key_lib\<close> holds the
  two functions.
\<close>

record key_lib =
  from_openssh :: "string \<Rightarrow> string option"
  key_fingerprint :: "string \<Rightarrow> string"

section \<open>Statements\<close>

datatype insert_key_error = FingerprintTaken | InsertKeyDb db_error

fun insert_key_error_of :: "db_error \<Rightarrow> insert_key_error" where
  "insert_key_error_of UniqueViolation = FingerprintTaken"
| "insert_key_error_of e = InsertKeyDb e"

definition insert_ssh_key_row :: "ssh_key \<Rightarrow> db \<Rightarrow> db_error + (int \<times> db)" where
  "insert_ssh_key_row k d =
     (if list_ex (\<lambda>x. sk_id x = sk_id k \<or> sk_fingerprint x = sk_fingerprint k) (t_ssh_keys d) then Inl UniqueViolation
      else if \<not> user_exists (sk_user_id k) d then Inl ForeignKeyViolation
      else Inr (sk_created_at k, d\<lparr>t_ssh_keys := t_ssh_keys d @ [k]\<rparr>))"

definition ssh_key_insert ::
  "uuid \<Rightarrow> uuid \<Rightarrow> string \<Rightarrow> string \<Rightarrow> string \<Rightarrow> (insert_key_error, int) act" where
  "ssh_key_insert i uid fp public_key title =
     and_then now_unix (\<lambda>now.
       map_err insert_key_error_of (sql (insert_ssh_key_row
         \<lparr>sk_id = i, sk_user_id = uid, sk_fingerprint = fp, sk_public_key = public_key, sk_title = title,
          sk_created_at = now, sk_last_used_at = None\<rparr>)))"

definition ssh_keys_of :: "uuid \<Rightarrow> db \<Rightarrow> ssh_key list" where
  "ssh_keys_of uid d = sort_key (\<lambda>k. - sk_created_at k) (filter (\<lambda>k. sk_user_id k = uid) (t_ssh_keys d))"

definition ssh_key_revoke :: "uuid \<Rightarrow> uuid \<Rightarrow> (db_error, bool) act" where
  "ssh_key_revoke uid i =
     (let own = (\<lambda>k. sk_id k = i \<and> sk_user_id k = uid) in
      sql (\<lambda>d. Inr (0 < rows_affected own (t_ssh_keys d), d\<lparr>t_ssh_keys := delete_where own (t_ssh_keys d)\<rparr>)))"

definition ssh_key_user :: "string \<Rightarrow> db \<Rightarrow> user option" where
  "ssh_key_user fp d =
     (case find (\<lambda>k. sk_fingerprint k = fp) (t_ssh_keys d) of
        None \<Rightarrow> None
      | Some k \<Rightarrow> user_by_id (sk_user_id k) d)"

text \<open>The time of use is recorded on a best-effort basis, here and for deploy keys.\<close>

definition find_user_by_fingerprint :: "string \<Rightarrow> (db_error, user option) act" where
  "find_user_by_fingerprint fp =
     and_then (select (ssh_key_user fp)) (\<lambda>found.
       case found of
         None \<Rightarrow> ok None
       | Some u \<Rightarrow>
           and_then now_unix (\<lambda>now.
             and_then (outcome (execute (\<lambda>d. d\<lparr>t_ssh_keys :=
                 update_where (\<lambda>k. sk_fingerprint k = fp) (\<lambda>k. k\<lparr>sk_last_used_at := Some now\<rparr>) (t_ssh_keys d)\<rparr>)))
               (\<lambda>_ :: db_error + unit. ok (Some u))))"

definition insert_deploy_key_row :: "deploy_key \<Rightarrow> db \<Rightarrow> db_error + (int \<times> db)" where
  "insert_deploy_key_row k d =
     (if list_ex (\<lambda>x. dk_id x = dk_id k \<or> dk_fingerprint x = dk_fingerprint k) (t_deploy_keys d)
      then Inl UniqueViolation
      else if repo_by_id (dk_repository_id k) d = None then Inl ForeignKeyViolation
      else Inr (dk_created_at k, d\<lparr>t_deploy_keys := t_deploy_keys d @ [k]\<rparr>))"

definition deploy_key_insert ::
  "uuid \<Rightarrow> uuid \<Rightarrow> string \<Rightarrow> string \<Rightarrow> string \<Rightarrow> bool \<Rightarrow> (insert_key_error, int) act" where
  "deploy_key_insert i rid fp public_key title ro =
     and_then now_unix (\<lambda>now.
       map_err insert_key_error_of (sql (insert_deploy_key_row
         \<lparr>dk_id = i, dk_repository_id = rid, dk_fingerprint = fp, dk_public_key = public_key, dk_title = title,
          dk_read_only = ro, dk_created_at = now, dk_last_used_at = None\<rparr>)))"

definition deploy_keys_of :: "uuid \<Rightarrow> db \<Rightarrow> deploy_key list" where
  "deploy_keys_of rid d =
     sort_key (\<lambda>k. - dk_created_at k) (filter (\<lambda>k. dk_repository_id k = rid) (t_deploy_keys d))"

definition deploy_key_revoke :: "uuid \<Rightarrow> uuid \<Rightarrow> (db_error, bool) act" where
  "deploy_key_revoke rid i =
     (let own = (\<lambda>k. dk_id k = i \<and> dk_repository_id k = rid) in
      sql (\<lambda>d. Inr (0 < rows_affected own (t_deploy_keys d),
                    d\<lparr>t_deploy_keys := delete_where own (t_deploy_keys d)\<rparr>)))"

definition deploy_key_grant :: "string \<Rightarrow> db \<Rightarrow> (uuid \<times> bool) option" where
  "deploy_key_grant fp d =
     map_option (\<lambda>k. (dk_repository_id k, dk_read_only k)) (find (\<lambda>k. dk_fingerprint k = fp) (t_deploy_keys d))"

definition find_deploy_key_by_fingerprint :: "string \<Rightarrow> (db_error, (uuid \<times> bool) option) act" where
  "find_deploy_key_by_fingerprint fp =
     and_then (select (deploy_key_grant fp)) (\<lambda>found.
       case found of
         None \<Rightarrow> ok None
       | Some grant \<Rightarrow>
           and_then now_unix (\<lambda>now.
             and_then (outcome (execute (\<lambda>d. d\<lparr>t_deploy_keys :=
                 update_where (\<lambda>k. dk_fingerprint k = fp) (\<lambda>k. k\<lparr>dk_last_used_at := Some now\<rparr>) (t_deploy_keys d)\<rparr>)))
               (\<lambda>_ :: db_error + unit. ok (Some grant))))"

section \<open>Registering and authenticating\<close>

datatype add_key_error = KeyTitleEmpty | KeyInvalid | KeyFingerprintTaken | KeyDb db_error

fun add_key_error_of :: "insert_key_error \<Rightarrow> add_key_error" where
  "add_key_error_of FingerprintTaken = KeyFingerprintTaken"
| "add_key_error_of (InsertKeyDb e) = KeyDb e"

definition ssh_add :: "key_lib \<Rightarrow> uuid \<Rightarrow> string \<Rightarrow> string \<Rightarrow> (add_key_error, ssh_key) act" where
  "ssh_add lib uid title public_key =
     and_then (ensure (trim title \<noteq> []) KeyTitleEmpty) (\<lambda>_.
       and_then (or_err KeyInvalid (from_openssh lib (trim public_key))) (\<lambda>key.
         and_then fresh_uuid (\<lambda>i.
           and_then (map_err add_key_error_of
               (ssh_key_insert i uid (key_fingerprint lib key) (trim public_key) (trim title))) (\<lambda>created.
             ok \<lparr>sk_id = i, sk_user_id = uid, sk_fingerprint = key_fingerprint lib key,
                 sk_public_key = trim public_key, sk_title = trim title, sk_created_at = created,
                 sk_last_used_at = None\<rparr>))))"

definition ssh_authenticate :: "key_lib \<Rightarrow> string \<Rightarrow> ('e, user option) act" where
  "ssh_authenticate lib key =
     and_then (outcome (find_user_by_fingerprint (key_fingerprint lib key))) (\<lambda>found.
       ok (case found of
             Inr (Some u) \<Rightarrow> if isl (require_enabled u) then None else Some u
           | _ \<Rightarrow> None))"

definition deploy_key_add ::
  "key_lib \<Rightarrow> uuid \<Rightarrow> string \<Rightarrow> string \<Rightarrow> bool \<Rightarrow> (add_key_error, deploy_key) act" where
  "deploy_key_add lib rid title public_key ro =
     and_then (ensure (trim title \<noteq> []) KeyTitleEmpty) (\<lambda>_.
       and_then (or_err KeyInvalid (from_openssh lib (trim public_key))) (\<lambda>key.
         and_then fresh_uuid (\<lambda>i.
           and_then (map_err add_key_error_of
               (deploy_key_insert i rid (key_fingerprint lib key) (trim public_key) (trim title) ro)) (\<lambda>created.
             ok \<lparr>dk_id = i, dk_repository_id = rid, dk_fingerprint = key_fingerprint lib key,
                 dk_public_key = trim public_key, dk_title = trim title, dk_read_only = ro,
                 dk_created_at = created, dk_last_used_at = None\<rparr>))))"

definition deploy_key_authenticate :: "key_lib \<Rightarrow> string \<Rightarrow> ('e, (uuid \<times> bool) option) act" where
  "deploy_key_authenticate lib key =
     and_then (outcome (find_deploy_key_by_fingerprint (key_fingerprint lib key))) (\<lambda>found.
       ok (case found of Inr (Some grant) \<Rightarrow> Some grant | _ \<Rightarrow> None))"

section \<open>The deploy-key service\<close>

fun add_deploy_key_text :: "add_key_error \<Rightarrow> string" where
  "add_deploy_key_text KeyTitleEmpty = ''key title can'' @ [CHR 0x27] @ ''t be empty''"
| "add_deploy_key_text KeyInvalid = ''that doesn'' @ [CHR 0x27] @ ''t look like a valid SSH public key''"
| "add_deploy_key_text KeyFingerprintTaken = ''that key is already registered as a deploy key''"
| "add_deploy_key_text (KeyDb e) = []"

fun service_of_deploy_key :: "add_key_error \<Rightarrow> service_error" where
  "service_of_deploy_key KeyTitleEmpty = SvValidation (add_deploy_key_text KeyTitleEmpty)"
| "service_of_deploy_key KeyInvalid = SvValidation (add_deploy_key_text KeyInvalid)"
| "service_of_deploy_key KeyFingerprintTaken = SvConflict (add_deploy_key_text KeyFingerprintTaken)"
| "service_of_deploy_key (KeyDb e) = SvDb e"

definition admin_checked :: "actor_context \<Rightarrow> string \<Rightarrow> string \<Rightarrow> (service_error, repository) act" where
  "admin_checked actor owner name =
     and_then (authz (repository_by_name owner name)) (\<lambda>r.
       and_then (authz (check_administer actor r)) (\<lambda>_. ok r))"

definition deploy_key_service_list ::
  "actor_context \<Rightarrow> string \<Rightarrow> string \<Rightarrow> (service_error, deploy_key list) act" where
  "deploy_key_service_list actor owner name =
     and_then (admin_checked actor owner name) (\<lambda>r. dbq (select (deploy_keys_of (repo_id r))))"

definition deploy_key_service_add ::
  "key_lib \<Rightarrow> actor_context \<Rightarrow> string \<Rightarrow> string \<Rightarrow> string \<Rightarrow> string \<Rightarrow> bool \<Rightarrow> (service_error, deploy_key) act" where
  "deploy_key_service_add lib actor owner name title public_key ro =
     and_then (admin_checked actor owner name) (\<lambda>r.
       and_then (map_err service_of_deploy_key (deploy_key_add lib (repo_id r) title public_key ro)) (\<lambda>key.
         and_then (audit_if_user actor (\<lambda>uid.
             \<lparr>audit_event_type = ''deploy_key.add'', audit_actor_id = Some uid,
              audit_target = Some (''repository'', repo_id r),
              audit_detail = Some (JObj [(''title'', JStr (dk_title key)),
                (''fingerprint'', JStr (dk_fingerprint key)), (''read_only'', JBool (dk_read_only key))])\<rparr>)) (\<lambda>_.
           ok key)))"

definition deploy_key_service_remove ::
  "actor_context \<Rightarrow> string \<Rightarrow> string \<Rightarrow> uuid \<Rightarrow> (service_error, unit) act" where
  "deploy_key_service_remove actor owner name i =
     and_then (admin_checked actor owner name) (\<lambda>r.
       and_then (dbq (deploy_key_revoke (repo_id r) i)) (\<lambda>removed.
         and_then (ensure removed SvNotFound) (\<lambda>_.
           audit_if_user actor (\<lambda>uid.
             \<lparr>audit_event_type = ''deploy_key.remove'', audit_actor_id = Some uid,
              audit_target = Some (''repository'', repo_id r),
              audit_detail = Some (JObj [(''deploy_key_id'', JId i)])\<rparr>))))"

section \<open>The handlers of one's own keys\<close>

datatype key_reply = KeyRefused nat string | KeyAdded ssh_key | KeyList "ssh_key list" | KeyDone

fun add_ssh_key_text :: "add_key_error \<Rightarrow> string" where
  "add_ssh_key_text KeyTitleEmpty = ''key title can'' @ [CHR 0x27] @ ''t be empty''"
| "add_ssh_key_text KeyInvalid = ''that doesn'' @ [CHR 0x27] @ ''t look like a valid SSH public key''"
| "add_ssh_key_text KeyFingerprintTaken = ''that key is already registered''"
| "add_ssh_key_text (KeyDb e) = []"

definition add_key_handler ::
  "key_lib \<Rightarrow> uuid option \<Rightarrow> string \<Rightarrow> string \<Rightarrow> (db_error, key_reply) act" where
  "add_key_handler lib session title public_key =
     (case session of
        None \<Rightarrow> ok (KeyRefused 401 [])
      | Some uid \<Rightarrow>
          and_then (outcome (ssh_add lib uid title public_key)) (\<lambda>res.
            ok (case res of Inr key \<Rightarrow> KeyAdded key | Inl e \<Rightarrow> KeyRefused 400 (add_ssh_key_text e))))"

definition list_keys_handler :: "uuid option \<Rightarrow> (db_error, key_reply) act" where
  "list_keys_handler session =
     (case session of
        None \<Rightarrow> ok (KeyRefused 401 [])
      | Some uid \<Rightarrow>
          and_then (outcome (select (ssh_keys_of uid))) (\<lambda>res.
            ok (case res of Inr keys \<Rightarrow> KeyList keys | Inl _ \<Rightarrow> KeyRefused 500 [])))"

definition revoke_key_handler :: "auth_env \<Rightarrow> uuid option \<Rightarrow> string \<Rightarrow> (db_error, key_reply) act" where
  "revoke_key_handler env session i =
     (case session of
        None \<Rightarrow> ok (KeyRefused 401 [])
      | Some uid \<Rightarrow>
          (case uuid_parse env i of
             None \<Rightarrow> ok (KeyRefused 404 ''no such key'')
           | Some key_id \<Rightarrow>
               and_then (outcome (ssh_key_revoke uid key_id)) (\<lambda>res.
                 ok (case res of
                       Inr True \<Rightarrow> KeyDone
                     | Inr False \<Rightarrow> KeyRefused 404 ''no such key''
                     | Inl _ \<Rightarrow> KeyRefused 500 []))))"

section \<open>What a key authenticates as\<close>

text \<open>The lookups are keyed by the fingerprint alone, so what they answer depends on it being unique.\<close>

definition key_tables_ok :: "db \<Rightarrow> bool" where
  "key_tables_ok d \<longleftrightarrow>
     distinct (map sk_fingerprint (t_ssh_keys d)) \<and> distinct (map dk_fingerprint (t_deploy_keys d))"

lemma ssh_authenticate_tables:
  assumes "ssh_authenticate lib key w = (Inr (Some u), w')"
  shows "ssh_key_user (key_fingerprint lib key) (tables w) = Some u \<and> user_disabled_at u = None"
proof -
  obtain x where x: "find_user_by_fingerprint (key_fingerprint lib key) w = (x, w')"
    "(case x of Inr (Some u) \<Rightarrow> if isl (require_enabled u) then None else Some u | _ \<Rightarrow> None) = Some u"
    using assms by (auto simp: ssh_authenticate_def act_simps)
  have "x = Inr (Some u)" and enabled: "user_disabled_at u = None"
    using x(2) by (auto simp: require_enabled_def split: sum.splits option.splits if_splits)
  then have "find_user_by_fingerprint (key_fingerprint lib key) w = (Inr (Some u), w')" using x(1) by simp
  then obtain found w1 where s: "select (ssh_key_user (key_fingerprint lib key)) w = (Inr found, w1)" "found = Some u"
    unfolding find_user_by_fingerprint_def by (auto simp: act_simps split: option.splits)
  then show ?thesis using select_Inr [OF s(1)] enabled by simp
qed

lemma deploy_key_authenticate_tables:
  assumes "deploy_key_authenticate lib key w = (Inr (Some g), w')"
  shows "deploy_key_grant (key_fingerprint lib key) (tables w) = Some g"
proof -
  obtain x where x: "find_deploy_key_by_fingerprint (key_fingerprint lib key) w = (x, w')"
    "(case x of Inr (Some g) \<Rightarrow> Some g | _ \<Rightarrow> None) = Some g"
    using assms by (auto simp: deploy_key_authenticate_def act_simps)
  have "x = Inr (Some g)" using x(2) by (auto split: sum.splits option.splits)
  then have "find_deploy_key_by_fingerprint (key_fingerprint lib key) w = (Inr (Some g), w')" using x(1) by simp
  then obtain found w1 where s: "select (deploy_key_grant (key_fingerprint lib key)) w = (Inr found, w1)" "found = Some g"
    unfolding find_deploy_key_by_fingerprint_def by (auto simp: act_simps split: option.splits)
  then show ?thesis using select_Inr [OF s(1)] by simp
qed

end
