(* ===== verification/Packs.thy ===== *)
theory Packs
  imports Git_Objects Wire
begin

text \<open>
  Which objects a fetch is answered with (\<^verbatim>\<open>edda-git/src/pack.rs\<close>): the walks of
  \<^verbatim>\<open>build_pack_excluding\<close> and \<^verbatim>\<open>build_shallow_pack\<close>. A pack is here the list of its objects in order;
  how the list becomes bytes is in \<^verbatim>\<open>Pack_Format\<close>.
\<close>

section \<open>Full history\<close>

text \<open>Everything reachable from the haves; a have that the repository does not know is skipped.\<close>

function have_walk :: "'o odb \<Rightarrow> 'o list \<Rightarrow> 'o list \<Rightarrow> git_error + 'o list" where
  "have_walk db seen [] = Inr seen"
| "have_walk db seen (x # queue) =
     (if x \<in> set seen then have_walk db seen queue
      else case find_object db x of
             None \<Rightarrow> have_walk db (x # seen) queue
           | Some ob \<Rightarrow>
               (case object_links ob of
                  Inl e \<Rightarrow> Inl e
                | Inr ls \<Rightarrow> have_walk db (x # seen) (queue @ ls)))"
  by pat_completeness auto
termination
proof (relation "measures [\<lambda>(db, seen, queue). unseen db seen, \<lambda>(db, seen, queue). length queue]", goal_cases)
  case (3 db seen x queue)
  then show ?case using unseen_le [of db x seen] by auto
qed (auto intro: unseen_less)

text \<open>The objects to send: they must all be there. Also walks the trees and blobs of a shallow fetch.\<close>

function want_walk :: "'o odb \<Rightarrow> 'o list \<Rightarrow> 'o list \<Rightarrow> git_error + ('o \<times> 'o git_object) list" where
  "want_walk db seen [] = Inr []"
| "want_walk db seen (x # queue) =
     (if x \<in> set seen then want_walk db seen queue
      else case find_object db x of
             None \<Rightarrow> Inl missing_object
           | Some ob \<Rightarrow>
               (case object_links ob of
                  Inl e \<Rightarrow> Inl e
                | Inr ls \<Rightarrow>
                    (case want_walk db (x # seen) (queue @ ls) of
                       Inl e \<Rightarrow> Inl e
                     | Inr objs \<Rightarrow> Inr ((x, ob) # objs))))"
  by pat_completeness auto
termination
  by (relation "measures [\<lambda>(db, seen, queue). unseen db seen, \<lambda>(db, seen, queue). length queue]")
    (auto intro: unseen_less)

definition build_pack_excluding :: "'o odb \<Rightarrow> 'o list \<Rightarrow> 'o list \<Rightarrow> git_error + ('o \<times> 'o git_object) list" where
  "build_pack_excluding db want_ids have_ids =
     (case have_walk db [] have_ids of
        Inl e \<Rightarrow> Inl e
      | Inr seen \<Rightarrow> want_walk db seen want_ids)"

definition build_pack :: "'o odb \<Rightarrow> 'o list \<Rightarrow> git_error + ('o \<times> 'o git_object) list" where
  "build_pack db want_ids = build_pack_excluding db want_ids []"

section \<open>Shallow history\<close>

record 'o shallow_spec =
  client_shallow :: "'o list"
  spec_deepen :: deepen

record 'o shallow_pack =
  sp_objects :: "('o \<times> 'o git_object) list"
  sp_new_shallow :: "'o list"
  sp_unshallow :: "'o list"

definition i64_max :: int where
  "i64_max = 2 ^ 63 - 1"

definition commit_committer_time :: "'o odb \<Rightarrow> 'o \<Rightarrow> git_error + int" where
  "commit_committer_time db x =
     (case find_object db x of
        None \<Rightarrow> Inl missing_object
      | Some ob \<Rightarrow>
          (case ob of
             Commit_obj _ _ _ _ t \<Rightarrow> (case t of Inl e \<Rightarrow> Inl (GitGit e) | Inr seconds \<Rightarrow> Inr seconds)
           | Broken_obj k _ e _ \<Rightarrow> if k = KCommit then Inl (GitGit e) else Inr i64_max
           | _ \<Rightarrow> Inr i64_max))"

text \<open>Whether the walk goes on to a parent.\<close>

definition follow_parent :: "'o odb \<Rightarrow> deepen \<Rightarrow> int \<Rightarrow> 'o \<Rightarrow> git_error + bool" where
  "follow_parent db dp depth parent =
     (case dp of
        DeepenNone \<Rightarrow> Inr True
      | DeepenDepth limit \<Rightarrow> Inr (depth < limit)
      | DeepenSince since \<Rightarrow>
          (case commit_committer_time db parent of Inl e \<Rightarrow> Inl e | Inr t \<Rightarrow> Inr (since \<le> t)))"

text \<open>The parents to go on to, and whether one was cut off.\<close>

fun split_parents :: "'o odb \<Rightarrow> deepen \<Rightarrow> int \<Rightarrow> 'o list \<Rightarrow> git_error + 'o list \<times> bool" where
  "split_parents db dp depth [] = Inr ([], False)"
| "split_parents db dp depth (p # ps) =
     (case follow_parent db dp depth p of
        Inl e \<Rightarrow> Inl e
      | Inr follow \<Rightarrow>
          (case split_parents db dp depth ps of
             Inl e \<Rightarrow> Inl e
           | Inr (followed, cutoff) \<Rightarrow> Inr (if follow then (p # followed, cutoff) else (followed, True))))"

text \<open>What the commit walk has gathered: the seen ids, the packed commits and tags, the trees (and raw
  wants) whose closure is still to be packed, and the boundary.\<close>

record 'o walk_state =
  cw_seen :: "'o list"
  cw_objects :: "('o \<times> 'o git_object) list"
  cw_others :: "'o list"
  cw_new_shallow :: "'o list"
  cw_unshallow :: "'o list"

definition pack_object :: "'o \<Rightarrow> 'o git_object \<Rightarrow> 'o walk_state \<Rightarrow> 'o walk_state" where
  "pack_object x ob c = c\<lparr>cw_seen := x # cw_seen c, cw_objects := cw_objects c @ [(x, ob)]\<rparr>"

definition note_boundary :: "'o list \<Rightarrow> 'o \<Rightarrow> 'o list \<Rightarrow> bool \<Rightarrow> 'o walk_state \<Rightarrow> 'o walk_state" where
  "note_boundary client x parents cutoff c =
     (if cutoff then (if x \<notin> set client then c\<lparr>cw_new_shallow := cw_new_shallow c @ [x]\<rparr> else c)
      else if parents \<noteq> [] \<and> x \<in> set client then c\<lparr>cw_unshallow := cw_unshallow c @ [x]\<rparr>
      else c)"

function commit_walk ::
  "'o odb \<Rightarrow> 'o shallow_spec \<Rightarrow> 'o list \<Rightarrow> ('o \<times> int) list \<Rightarrow> 'o walk_state \<Rightarrow> git_error + 'o walk_state" where
  "commit_walk db sp visited [] c = Inr c"
| "commit_walk db sp visited ((x, depth) # queue) c =
     (if x \<in> set (cw_seen c) \<or> x \<in> set visited then commit_walk db sp visited queue c
      else case find_object db x of
             None \<Rightarrow> Inl missing_object
           | Some ob \<Rightarrow>
               (case ob of
                  Tag_obj _ target \<Rightarrow>
                    commit_walk db sp (x # visited) (queue @ [(target, depth)]) (pack_object x ob c)
                | Commit_obj _ tree parents _ _ \<Rightarrow>
                    (case split_parents db (spec_deepen sp) depth parents of
                       Inl e \<Rightarrow> Inl e
                     | Inr (followed, cutoff) \<Rightarrow>
                         commit_walk db sp (x # visited) (queue @ map (\<lambda>p. (p, depth + 1)) followed)
                           (note_boundary (client_shallow sp) x parents cutoff
                              ((pack_object x ob c)\<lparr>cw_others := cw_others c @ [tree]\<rparr>)))
                | Broken_obj k _ e _ \<Rightarrow>
                    if k = KCommit \<or> k = KTag then Inl (GitGit e)
                    else commit_walk db sp (x # visited) queue (c\<lparr>cw_others := cw_others c @ [x]\<rparr>)
                | _ \<Rightarrow> commit_walk db sp (x # visited) queue (c\<lparr>cw_others := cw_others c @ [x]\<rparr>)))"
  by pat_completeness auto
termination
  by (relation "measures [\<lambda>(db, sp, visited, queue, c). unseen db visited,
      \<lambda>(db, sp, visited, queue, c). length queue]") (auto intro: unseen_less)

definition build_shallow_pack ::
  "'o odb \<Rightarrow> 'o list \<Rightarrow> 'o list \<Rightarrow> 'o shallow_spec \<Rightarrow> git_error + 'o shallow_pack" where
  "build_shallow_pack db want_ids have_ids sp =
     (if spec_deepen sp = DeepenNone then
        (case build_pack_excluding db want_ids have_ids of
           Inl e \<Rightarrow> Inl e
         | Inr objs \<Rightarrow> Inr \<lparr>sp_objects = objs, sp_new_shallow = [], sp_unshallow = []\<rparr>)
      else
        (case have_walk db [] have_ids of
           Inl e \<Rightarrow> Inl e
         | Inr seen \<Rightarrow>
             (case commit_walk db sp [] (map (\<lambda>x. (x, 1)) want_ids)
                     \<lparr>cw_seen = seen, cw_objects = [], cw_others = [], cw_new_shallow = [], cw_unshallow = []\<rparr> of
                Inl e \<Rightarrow> Inl e
              | Inr c \<Rightarrow>
                  (case want_walk db (cw_seen c) (cw_others c) of
                     Inl e \<Rightarrow> Inl e
                   | Inr objs \<Rightarrow>
                       Inr \<lparr>sp_objects = cw_objects c @ objs, sp_new_shallow = cw_new_shallow c,
                            sp_unshallow = cw_unshallow c\<rparr>))))"

section \<open>What a full pack holds\<close>

lemma have_walk_sound:
  assumes "have_walk db seen queue = Inr s" "closed_up (links_of db) {} (set seen) queue"
  shows "set s \<subseteq> set seen \<union> object_closure db queue \<and> set seen \<union> set queue \<subseteq> set s
    \<and> closed_up (links_of db) {} (set s) []"
  using assms
proof (induction db seen queue arbitrary: s rule: have_walk.induct)
  case (1 db seen)
  then show ?case by simp
next
  case (2 db seen x queue)
  show ?case
  proof (cases "x \<in> set seen")
    case True
    have c: "closed_up (links_of db) {} (set seen) queue"
      using "2.prems"(2) True by (auto intro: closed_up_skip)
    have m: "object_closure db queue \<subseteq> object_closure db (x # queue)"
      unfolding object_closure_def by (rule reachable_mono) auto
    show ?thesis using "2.IH"(1) [OF True _ c] "2.prems"(1) m True by auto
  next
    case new: False
    show ?thesis
    proof (cases "find_object db x")
      case None
      have l: "links_of db x = []" using None by (simp add: links_of_def)
      have c: "closed_up (links_of db) {} (set (x # seen)) queue"
        using closed_up_expand [OF "2.prems"(2), of queue] l by simp
      have m: "insert x (object_closure db queue) \<subseteq> object_closure db (x # queue)"
        unfolding object_closure_def using reachable_mono [of "set queue" "set (x # queue)"] by auto
      show ?thesis using "2.IH"(2) [OF new None _ c] "2.prems"(1) new None m by auto
    next
      case (Some ob)
      obtain ls where ls: "object_links ob = Inr ls"
        using "2.prems"(1) new Some by (cases "object_links ob") auto
      have l: "links_of db x = ls" using Some ls by (simp add: links_of_def)
      have c: "closed_up (links_of db) {} (set (x # seen)) (queue @ ls)"
        using closed_up_expand [OF "2.prems"(2), of "queue @ ls"] l by simp
      have m: "insert x (object_closure db (queue @ ls)) \<subseteq> object_closure db (x # queue)"
        by (simp add: object_closure_def reachable_insert reachable_Un l) blast
      show ?thesis using "2.IH"(3) [OF new Some ls _ c] "2.prems"(1) new Some ls m by auto
    qed
  qed
qed

lemma have_walk_closure:
  assumes "have_walk db [] have_ids = Inr s"
  shows "set s = object_closure db have_ids" "closed_up (links_of db) {} (set s) []"
proof -
  have r: "set s \<subseteq> object_closure db have_ids" "set have_ids \<subseteq> set s" "closed_up (links_of db) {} (set s) []"
    using have_walk_sound [OF assms] by auto
  have "object_closure db have_ids \<subseteq> set s"
    using closed_up_covers [OF r(3), of "set have_ids"] r(2)
    by (auto simp: object_closure_def reachable_from_def)
  then show "set s = object_closure db have_ids" "closed_up (links_of db) {} (set s) []" using r by auto
qed

lemma want_walk_sound:
  assumes "want_walk db seen queue = Inr objs" "closed_up (links_of db) barrier visited queue"
    "set seen = barrier \<union> visited"
  shows "distinct (map fst objs) \<and> set (map fst objs) \<inter> set seen = {}
    \<and> set (map fst objs) \<subseteq> object_closure db queue \<and> set queue \<subseteq> set seen \<union> set (map fst objs)
    \<and> (\<forall>(x, ob)\<in>set objs. find_object db x = Some ob)
    \<and> closed_up (links_of db) barrier (visited \<union> set (map fst objs)) []"
  using assms
proof (induction db seen queue arbitrary: objs visited rule: want_walk.induct)
  case (1 db seen)
  then show ?case by simp
next
  case (2 db seen x queue)
  show ?case
  proof (cases "x \<in> set seen")
    case True
    have c: "closed_up (links_of db) barrier visited queue"
      using "2.prems"(2,3) True by (auto intro: closed_up_skip)
    have m: "object_closure db queue \<subseteq> object_closure db (x # queue)"
      unfolding object_closure_def by (rule reachable_mono) auto
    show ?thesis using "2.IH"(1) [OF True _ c] "2.prems"(1,3) m True by auto
  next
    case new: False
    obtain ob where ob: "find_object db x = Some ob"
      using "2.prems"(1) new by (cases "find_object db x") auto
    obtain ls where ls: "object_links ob = Inr ls"
      using "2.prems"(1) new ob by (cases "object_links ob") auto
    obtain objs' where rest: "want_walk db (x # seen) (queue @ ls) = Inr objs'" and o: "objs = (x, ob) # objs'"
      using "2.prems"(1) new ob ls by (cases "want_walk db (x # seen) (queue @ ls)") auto
    have l: "links_of db x = ls" using ob ls by (simp add: links_of_def)
    have c: "closed_up (links_of db) barrier (insert x visited) (queue @ ls)"
      using closed_up_expand [OF "2.prems"(2), of "queue @ ls"] l by simp
    have m: "insert x (object_closure db (queue @ ls)) \<subseteq> object_closure db (x # queue)"
      by (simp add: object_closure_def reachable_insert reachable_Un l) blast
    have "set (x # seen) = barrier \<union> insert x visited" using "2.prems"(3) by simp
    note ih = "2.IH"(2) [OF new ob ls rest c this]
    have "visited \<union> set (map fst objs) = insert x visited \<union> set (map fst objs')" using o by auto
    then have "closed_up (links_of db) barrier (visited \<union> set (map fst objs)) []" using ih by simp
    moreover have "\<forall>(x, ob)\<in>set objs. find_object db x = Some ob" using ih o ob by auto
    moreover have "set (map fst objs) \<subseteq> object_closure db (x # queue)" using ih m o by auto
    ultimately show ?thesis using ih o new by auto
  qed
qed

text \<open>C17. A fetch sends exactly what is missing. A pack that was built holds, once each, exactly the objects
  reachable from what the client wants and not from what it says it has, as the repository holds
  them. So a client that has the closure of its haves has the closure of its wants afterwards.\<close>

theorem pack_holds_exactly_missing:
  assumes "build_pack_excluding db want_ids have_ids = Inr objs"
  shows "distinct (map fst objs)
    \<and> set (map fst objs) = object_closure db want_ids - object_closure db have_ids
    \<and> (\<forall>(x, ob)\<in>set objs. find_object db x = Some ob)"
proof -
  obtain s where s: "have_walk db [] have_ids = Inr s" and w: "want_walk db s want_ids = Inr objs"
    using assms by (auto simp: build_pack_excluding_def split: sum.splits)
  note h = have_walk_closure [OF s]
  have c: "closed_up (links_of db) {} (set s) want_ids"
    using h(2) by (auto simp: closed_up_def)
  note sound = want_walk_sound [OF w c, simplified]
  have "object_closure db want_ids \<subseteq> set s \<union> set (map fst objs)"
    using closed_up_covers [of "links_of db" "{}" "set s \<union> set (map fst objs)" "set want_ids"] sound
    by (simp add: object_closure_def reachable_from_def)
  then have "set (map fst objs) = object_closure db want_ids - object_closure db have_ids"
    using sound h(1) by auto
  then show ?thesis using sound by simp
qed

definition two_commits :: "nat odb" where
  "two_commits =
    [(1, Blob_obj ''one''), (2, Tree_obj [] [(EntryBlob, 1)]), (3, Commit_obj [] 2 [] [] (Inr 0)),
     (4, Blob_obj ''two''), (5, Tree_obj [] [(EntryBlob, 1), (EntryBlob, 4)]), (6, Commit_obj [] 5 [3] [] (Inr 1))]"

theorem pack_holds_exactly_missing_witness:
  "build_pack_excluding two_commits [6] [3] =
     Inr [(6, Commit_obj [] 5 [3] [] (Inr 1)), (5, Tree_obj [] [(EntryBlob, 1), (EntryBlob, 4)]), (4, Blob_obj ''two'')]
   \<and> {6, 5, 4} = object_closure two_commits [6] - object_closure two_commits [3]"
proof -
  let ?objs = "[(6, Commit_obj [] 5 [3] [] (Inr 1)), (5, Tree_obj [] [(EntryBlob, 1), (EntryBlob, 4)]), (4, Blob_obj ''two'')]"
  have "build_pack_excluding two_commits [6] [3] = Inr ?objs" by code_simp
  with pack_holds_exactly_missing [OF this] show ?thesis by simp
qed

section \<open>What a shallow pack holds\<close>

definition reached :: "('o \<times> int) list \<Rightarrow> 'o walk_state \<Rightarrow> 'o set" where
  "reached queue c = set (cw_seen c) \<union> set (cw_others c) \<union> fst ` set queue"

text \<open>An object's links are on their way, its parents unless it is a boundary.\<close>

definition linked_up :: "'o shallow_spec \<Rightarrow> 'o set \<Rightarrow> 'o walk_state \<Rightarrow> 'o \<times> 'o git_object \<Rightarrow> bool" where
  "linked_up sp R c p \<longleftrightarrow>
     (case snd p of
        Commit_obj _ tree parents _ _ \<Rightarrow>
          tree \<in> set (cw_others c)
          \<and> (set parents \<subseteq> R \<or> fst p \<in> set (cw_new_shallow c) \<union> set (client_shallow sp))
      | Tag_obj _ target \<Rightarrow> target \<in> R
      | _ \<Rightarrow> False)"

definition walk_inv ::
  "'o odb \<Rightarrow> 'o shallow_spec \<Rightarrow> 'o set \<Rightarrow> 'o list \<Rightarrow> ('o \<times> int) list \<Rightarrow> 'o walk_state \<Rightarrow> bool" where
  "walk_inv db sp H visited queue c \<longleftrightarrow>
     set (cw_seen c) = H \<union> fst ` set (cw_objects c)
     \<and> distinct (map fst (cw_objects c)) \<and> H \<inter> fst ` set (cw_objects c) = {}
     \<and> (\<forall>p\<in>set (cw_objects c). find_object db (fst p) = Some (snd p) \<and> linked_up sp (reached queue c) c p)
     \<and> set visited \<subseteq> set (cw_seen c) \<union> set (cw_others c)
     \<and> set (cw_new_shallow c) \<subseteq> fst ` set (cw_objects c)"

lemma linked_up_mono:
  "linked_up sp R c p \<Longrightarrow> R \<subseteq> R' \<Longrightarrow> set (cw_others c) \<subseteq> set (cw_others c') \<Longrightarrow>
   set (cw_new_shallow c) \<subseteq> set (cw_new_shallow c') \<Longrightarrow> linked_up sp R' c' p"
  by (auto simp: linked_up_def split: git_object.splits)

lemma note_boundary_fields [simp]:
  "cw_seen (note_boundary client x ps cutoff c) = cw_seen c"
  "cw_objects (note_boundary client x ps cutoff c) = cw_objects c"
  "cw_others (note_boundary client x ps cutoff c) = cw_others c"
  "set (cw_new_shallow (note_boundary client x ps cutoff c)) =
     set (cw_new_shallow c) \<union> (if cutoff \<and> x \<notin> set client then {x} else {})"
  by (auto simp: note_boundary_def)

lemma pack_object_fields [simp]:
  "cw_seen (pack_object x ob c) = x # cw_seen c" "cw_objects (pack_object x ob c) = cw_objects c @ [(x, ob)]"
  "cw_others (pack_object x ob c) = cw_others c" "cw_new_shallow (pack_object x ob c) = cw_new_shallow c"
  by (simp_all add: pack_object_def)

lemma split_parents_all:
  "split_parents db dp depth ps = Inr (followed, cutoff) \<Longrightarrow> \<not> cutoff \<Longrightarrow> followed = ps"
  by (induction ps arbitrary: followed cutoff) (auto split: sum.splits if_splits)

lemma walk_inv_step:
  assumes inv: "walk_inv db sp H visited (q # queue) c"
    and new: "fst q \<notin> set (cw_seen c)"
    and fetched: "find_object db (fst q) = Some ob"
    and seen: "set (cw_seen c') = insert (fst q) (set (cw_seen c))"
    and objects: "cw_objects c' = cw_objects c @ [(fst q, ob)]"
    and others: "set (cw_others c) \<subseteq> set (cw_others c')"
    and boundary: "set (cw_new_shallow c') \<subseteq> insert (fst q) (set (cw_new_shallow c))"
      "set (cw_new_shallow c) \<subseteq> set (cw_new_shallow c')"
    and queue: "set queue \<subseteq> set queue'"
    and linked: "linked_up sp (reached queue' c') c' (fst q, ob)"
  shows "walk_inv db sp H (fst q # visited) queue' c'"
proof -
  have grow: "reached (q # queue) c \<subseteq> reached queue' c'"
    using seen others queue by (auto simp: reached_def)
  have "linked_up sp (reached queue' c') c' p" if "p \<in> set (cw_objects c)" for p
    using linked_up_mono [OF _ grow others boundary(2)] inv that by (auto simp: walk_inv_def)
  moreover have "fst q \<notin> H" "fst q \<notin> fst ` set (cw_objects c)" using new inv by (auto simp: walk_inv_def)
  ultimately show ?thesis
    using assms by (auto simp: walk_inv_def)
qed

lemma walk_inv_other:
  assumes inv: "walk_inv db sp H visited (q # queue) c"
  shows "walk_inv db sp H (fst q # visited) queue (c\<lparr>cw_others := cw_others c @ [fst q]\<rparr>)"
proof -
  let ?c = "c\<lparr>cw_others := cw_others c @ [fst q]\<rparr>"
  have grow: "reached (q # queue) c \<subseteq> reached queue ?c"
    by (auto simp: reached_def)
  have "linked_up sp (reached queue ?c) ?c p" if "p \<in> set (cw_objects c)" for p
    using inv that by (intro linked_up_mono [OF _ grow, of sp c p]) (auto simp: walk_inv_def)
  then show ?thesis using inv unfolding walk_inv_def by simp blast
qed

lemma walk_inv_skip:
  assumes "walk_inv db sp H visited (q # queue) c" "fst q \<in> set (cw_seen c) \<union> set visited"
  shows "walk_inv db sp H visited queue c"
proof -
  have "reached (q # queue) c = reached queue c" using assms by (auto simp: reached_def walk_inv_def)
  then show ?thesis using assms(1) unfolding walk_inv_def by auto
qed

lemma walk_inv_tag:
  assumes "walk_inv db sp H visited ((x, depth) # queue) c" "x \<notin> set (cw_seen c)"
    and "find_object db x = Some (Tag_obj d target)"
  shows "walk_inv db sp H (x # visited) (queue @ [(target, depth)]) (pack_object x (Tag_obj d target) c)"
  using walk_inv_step [OF assms(1), of "Tag_obj d target" "pack_object x (Tag_obj d target) c"
      "queue @ [(target, depth)]"] assms(2,3)
  by (auto simp: linked_up_def reached_def)

lemma walk_inv_commit:
  assumes inv: "walk_inv db sp H visited ((x, depth) # queue) c" and new: "x \<notin> set (cw_seen c)"
    and found: "find_object db x = Some (Commit_obj d tree parents hs t)"
    and "split_parents db dp depth parents = Inr (followed, cutoff)"
    and c': "c' = note_boundary (client_shallow sp) x parents cutoff
      ((pack_object x (Commit_obj d tree parents hs t) c)\<lparr>cw_others := cw_others c @ [tree]\<rparr>)"
  shows "walk_inv db sp H (x # visited) (queue @ map (\<lambda>p. (p, depth + 1)) followed) c'"
proof -
  let ?queue = "queue @ map (\<lambda>p. (p, depth + 1)) followed"
  have fields: "cw_seen c' = x # cw_seen c" "cw_others c' = cw_others c @ [tree]"
    "cw_objects c' = cw_objects c @ [(x, Commit_obj d tree parents hs t)]"
    "set (cw_new_shallow c') =
       set (cw_new_shallow c) \<union> (if cutoff \<and> x \<notin> set (client_shallow sp) then {x} else {})"
    by (simp_all add: c')
  have parents: "cutoff \<or> followed = parents" using split_parents_all [OF assms(4)] by blast
  have "set followed \<subseteq> reached ?queue c'" by (auto simp: reached_def image_Un image_image)
  then have "linked_up sp (reached ?queue c') c' (x, Commit_obj d tree parents hs t)"
    using parents by (auto simp: linked_up_def fields)
  moreover have "set (cw_new_shallow c') \<subseteq> insert x (set (cw_new_shallow c))" by (auto simp: fields)
  ultimately show ?thesis
    using walk_inv_step [OF inv, of "Commit_obj d tree parents hs t" c' ?queue] new found
    by (simp add: fields subset_insertI)
qed

lemma commit_walk_inv:
  assumes "commit_walk db sp visited queue c = Inr c'" "walk_inv db sp H visited queue c"
  shows "\<exists>visited'. walk_inv db sp H visited' [] c' \<and> reached queue c \<subseteq> reached [] c'
    \<and> set (cw_others c) \<subseteq> set (cw_others c')"
  using assms
proof (induction db sp visited queue c rule: commit_walk.induct)
  case (1 db sp visited c)
  then show ?case by auto
next
  case (2 db sp visited x depth queue c)
  show ?case
  proof (cases "x \<in> set (cw_seen c) \<or> x \<in> set visited")
    case True
    have "reached ((x, depth) # queue) c = reached queue c"
      using True "2.prems"(2) by (auto simp: reached_def walk_inv_def)
    then show ?thesis
      using "2.IH"(1) [OF True] "2.prems" walk_inv_skip [of db sp H visited "(x, depth)" queue c] True by simp
  next
    case new: False
    obtain ob where ob: "find_object db x = Some ob"
      using "2.prems"(1) new by (cases "find_object db x") auto
    note other_inv = walk_inv_other [of db sp H visited "(x, depth)" queue c, simplified]
    show ?thesis
    proof (cases ob)
      case (Tag_obj d target)
      have "walk_inv db sp H (x # visited) (queue @ [(target, depth)]) (pack_object x ob c)"
        using walk_inv_tag [of db sp H visited x depth queue c d target] "2.prems"(2) new ob Tag_obj by simp
      from "2.IH"(5) [OF new ob Tag_obj _ this] "2.prems"(1) new ob Tag_obj
      show ?thesis by (auto simp: reached_def)
    next
      case (Commit_obj d tree parents hs t)
      obtain followed cutoff where sp: "split_parents db (spec_deepen sp) depth parents = Inr (followed, cutoff)"
        using "2.prems"(1) new ob Commit_obj by (cases "split_parents db (spec_deepen sp) depth parents") auto
      note inv' = walk_inv_commit [of db sp H visited x depth queue c d tree parents hs t, OF "2.prems"(2) _ _ sp refl]
      from "2.IH"(2) [OF new ob Commit_obj sp refl] "2.prems"(1) new ob Commit_obj sp inv'
      show ?thesis by (auto simp: reached_def)
    next
      case (Tree_obj d es)
      then show ?thesis
        using "2.IH"(3) [OF new ob Tree_obj] "2.prems" other_inv new ob by (auto simp: reached_def)
    next
      case (Blob_obj d)
      then show ?thesis
        using "2.IH"(4) [OF new ob Blob_obj] "2.prems" other_inv new ob by (auto simp: reached_def)
    next
      case (Broken_obj k d e ps)
      have k: "\<not> (k = KCommit \<or> k = KTag)" using "2.prems"(1) new ob Broken_obj by auto
      then show ?thesis
        using "2.IH"(6) [OF new ob Broken_obj k] "2.prems" other_inv new ob Broken_obj
        by (auto simp: reached_def)
    qed
  qed
qed


text \<open>A shallow fetch is complete up to its boundary. In a pack that was built for a \<^verbatim>\<open>deepen\<close> request,
  every wanted object is sent or in the history the client claims, nothing is sent twice or although
  claimed, and every object sent has each of its links sent or claimed, with one exception: the
  parents of a commit reported as \<^verbatim>\<open>shallow\<close>, or that the client already holds as shallow.\<close>

theorem shallow_pack_complete_to_boundary:
  assumes "build_shallow_pack db want_ids have_ids sp = Inr r" "spec_deepen sp \<noteq> DeepenNone"
  shows "distinct (map fst (sp_objects r))
    \<and> fst ` set (sp_objects r) \<inter> object_closure db have_ids = {}
    \<and> set want_ids \<subseteq> object_closure db have_ids \<union> fst ` set (sp_objects r)
    \<and> set (sp_new_shallow r) \<subseteq> fst ` set (sp_objects r)
    \<and> (\<forall>(x, ob)\<in>set (sp_objects r). find_object db x = Some ob
        \<and> (\<forall>y\<in>set (links_of db x).
             y \<in> object_closure db have_ids \<union> fst ` set (sp_objects r)
             \<or> x \<in> set (sp_new_shallow r) \<union> set (client_shallow sp)
               \<and> (\<exists>d tree parents hs t. ob = Commit_obj d tree parents hs t \<and> y \<in> set parents)))"
proof -
  obtain s c objs where s: "have_walk db [] have_ids = Inr s"
    and c: "commit_walk db sp [] (map (\<lambda>x. (x, 1)) want_ids)
        \<lparr>cw_seen = s, cw_objects = [], cw_others = [], cw_new_shallow = [], cw_unshallow = []\<rparr> = Inr c"
    and objs: "want_walk db (cw_seen c) (cw_others c) = Inr objs"
    and r: "r = \<lparr>sp_objects = cw_objects c @ objs, sp_new_shallow = cw_new_shallow c, sp_unshallow = cw_unshallow c\<rparr>"
    using assms by (auto simp: build_shallow_pack_def split: sum.splits)
  define H where "H = object_closure db have_ids"
  have H: "set s = H" using have_walk_closure(1) [OF s] by (simp add: H_def)
  have "walk_inv db sp H [] (map (\<lambda>x. (x, 1)) want_ids)
      \<lparr>cw_seen = s, cw_objects = [], cw_others = [], cw_new_shallow = [], cw_unshallow = []\<rparr>"
    using H by (simp add: walk_inv_def)
  from commit_walk_inv [OF c this] obtain visited where
    inv: "walk_inv db sp H visited [] c"
    and start: "set want_ids \<subseteq> reached [] c"
    by (auto simp: reached_def image_image)
  note sound = want_walk_sound [OF objs, of "set (cw_seen c)" "{}", simplified]
  define S where "S = fst ` set (sp_objects r)"
  have HS: "H \<union> S = set (cw_seen c) \<union> fst ` set objs"
    using inv by (auto simp: S_def r walk_inv_def)
  have reach: "reached [] c \<subseteq> H \<union> S" using sound HS by (auto simp: reached_def)
  have links: "y \<in> H \<union> S \<or> x \<in> set (sp_new_shallow r) \<union> set (client_shallow sp)
      \<and> (\<exists>d tree parents hs t. ob = Commit_obj d tree parents hs t \<and> y \<in> set parents)"
    if x: "(x, ob) \<in> set (sp_objects r)" and y: "y \<in> set (links_of db x)" for x ob y
  proof (cases "(x, ob) \<in> set (cw_objects c)")
    case True
    then have "find_object db x = Some ob" "linked_up sp (reached [] c) c (x, ob)"
      using inv by (auto simp: walk_inv_def)
    moreover from this(1) y have "\<exists>ls. object_links ob = Inr ls \<and> y \<in> set ls"
      by (cases "object_links ob") (auto simp: links_of_def)
    ultimately show ?thesis
      using reach by (cases ob) (auto simp: linked_up_def r reached_def)
  next
    case False
    then have "x \<in> fst ` set objs" using x by (force simp: r)
    then show ?thesis using sound y HS by (auto simp: closed_up_def)
  qed
  have found: "find_object db x = Some ob" if "(x, ob) \<in> set (sp_objects r)" for x ob
    using that inv sound by (auto simp: r walk_inv_def)
  have "distinct (map fst (sp_objects r)) \<and> fst ` set (sp_objects r) \<inter> H = {}
      \<and> set (sp_new_shallow r) \<subseteq> fst ` set (sp_objects r)"
    using inv sound by (auto simp: r walk_inv_def)
  moreover have "set want_ids \<subseteq> H \<union> S" using reach start by blast
  ultimately show ?thesis
    using links found unfolding H_def [symmetric] S_def [symmetric] by blast
qed

definition three_commits :: "nat odb" where
  "three_commits = two_commits @ [(7, Commit_obj [] 2 [6] [] (Inr 2))]"

theorem shallow_pack_complete_to_boundary_witness:
  "\<exists>r. build_shallow_pack three_commits [7] [] \<lparr>client_shallow = [], spec_deepen = DeepenDepth 2\<rparr> = Inr r
     \<and> map fst (sp_objects r) = [7, 6, 2, 5, 1, 4] \<and> sp_new_shallow r = [6]
     \<and> {7} \<subseteq> object_closure three_commits [] \<union> fst ` set (sp_objects r)"
proof -
  define r where "r = projr (build_shallow_pack three_commits [7] [] \<lparr>client_shallow = [], spec_deepen = DeepenDepth 2\<rparr>)"
  have "build_shallow_pack three_commits [7] [] \<lparr>client_shallow = [], spec_deepen = DeepenDepth 2\<rparr> = Inr r"
    unfolding r_def by code_simp
  moreover have "map fst (sp_objects r) = [7, 6, 2, 5, 1, 4]" "sp_new_shallow r = [6]"
    unfolding r_def by code_simp+
  moreover note shallow_pack_complete_to_boundary [OF calculation(1)]
  ultimately show ?thesis by auto
qed

section \<open>Haves of a shallow client\<close>

text \<open>A shallow client's haves are taken for full history. The client of this example cloned with depth
  1: it holds commit 6 with its tree and is shallow there. It fetches commit 7, which restores the
  tree of commit 3. The server reads the shallow line, but counts everything behind commit 6 as had;
  it sends the new commit without its tree, which the client does not have either.\<close>

theorem shallow_client_left_incomplete:
  "build_shallow_pack three_commits [7] [6] \<lparr>client_shallow = [6], spec_deepen = DeepenNone\<rparr>
     = Inr \<lparr>sp_objects = [(7, Commit_obj [] 2 [6] [] (Inr 2))], sp_new_shallow = [], sp_unshallow = []\<rparr>
   \<and> build_shallow_pack three_commits [6] [] \<lparr>client_shallow = [], spec_deepen = DeepenDepth 1\<rparr>
     = Inr \<lparr>sp_objects = [(6, Commit_obj [] 5 [3] [] (Inr 1)),
                          (5, Tree_obj [] [(EntryBlob, 1), (EntryBlob, 4)]), (1, Blob_obj ''one''), (4, Blob_obj ''two'')],
            sp_new_shallow = [6], sp_unshallow = []\<rparr>
   \<and> 2 \<in> set (links_of three_commits 7)"
  by code_simp

end
