(* ===== verification/Pack_Format.thy ===== *)
theory Pack_Format
  imports Packs "HOL-Library.Word"
begin

text \<open>
  The bytes of a pack (the second half of \<^verbatim>\<open>edda-git/src/pack.rs\<close>): writing one, reading one with both
  kinds of deltas, and writing a loose object. Sizes are 64-bit words; a shift by 64 or more is taken
  modulo 64, as an optimised build does. Deflating, inflating and SHA-1 are the libraries': the record
  \<^verbatim>\<open>codec\<close>. Object ids are strings of 20 bytes here.
\<close>

unbundle bit_operations_syntax

section \<open>Bytes and words\<close>

definition u8 :: "char \<Rightarrow> 8 word" where
  "u8 c = word_of_nat (of_char c)"

definition chr8 :: "8 word \<Rightarrow> char" where
  "chr8 b = char_of (unat b)"

definition shl :: "64 word \<Rightarrow> nat \<Rightarrow> 64 word" where
  "shl w n = push_bit (n mod 64) w"

lemma u8_chr8 [simp]: "u8 (chr8 b) = b"
  by (simp add: u8_def chr8_def take_bit_eq_mod unsigned_less [of b, simplified] flip: take_bit_eq_mod)

record codec =
  deflate :: "string \<Rightarrow> string"
  decompress :: "string \<Rightarrow> 64 word \<Rightarrow> string + (bool \<times> string \<times> nat)"
  sha1 :: "string \<Rightarrow> string + string"

section \<open>Writing a pack\<close>

definition be32 :: "32 word \<Rightarrow> string" where
  "be32 w = map (\<lambda>i. chr8 (ucast (drop_bit i w))) [24, 16, 8, 0]"

definition pack_type_code :: "obj_kind \<Rightarrow> 8 word" where
  "pack_type_code k = (case k of KCommit \<Rightarrow> 1 | KTree \<Rightarrow> 2 | KBlob \<Rightarrow> 3 | KTag \<Rightarrow> 4)"

function size_bytes :: "64 word \<Rightarrow> string" where
  "size_bytes sz =
     (if sz = 0 then []
      else let byte = ucast (sz AND 0x7f); sz' = drop_bit 7 sz in
           chr8 (if sz' \<noteq> 0 then byte OR 0x80 else byte) # size_bytes sz')"
  by pat_completeness auto
termination
proof (relation "measure unat")
  fix sz :: "64 word" and byte :: "8 word" and sz' :: "64 word"
  assume "sz \<noteq> 0" "sz' = drop_bit 7 sz"
  then show "(sz', sz) \<in> measure unat"
    using unat_gt_0 [of sz] by (simp add: drop_bit_eq_div unat_div_distrib div_less_dividend del: unat_gt_0)
qed simp

declare size_bytes.simps [simp del]

definition object_header :: "obj_kind \<Rightarrow> 64 word \<Rightarrow> string" where
  "object_header kind sz =
     (let first = push_bit 4 (pack_type_code kind) OR (ucast sz AND 0x0f); sz' = drop_bit 4 sz in
      chr8 (if sz' \<noteq> 0 then first OR 0x80 else first) # size_bytes sz')"

definition write_pack_object :: "codec \<Rightarrow> string \<Rightarrow> obj_kind \<Rightarrow> string \<Rightarrow> string" where
  "write_pack_object cd out kind data =
     out @ object_header kind (word_of_nat (length data)) @ deflate cd data"

definition serialize_pack :: "codec \<Rightarrow> (obj_kind \<times> string) list \<Rightarrow> git_error + string" where
  "serialize_pack cd objects =
     (let out = ''PACK'' @ be32 2 @ be32 (word_of_nat (length objects));
          out' = fold (\<lambda>(kind, data) out. write_pack_object cd out kind data) objects out in
      case sha1 cd out' of Inl e \<Rightarrow> Inl (GitGit e) | Inr checksum \<Rightarrow> Inr (out' @ checksum))"

section \<open>Object names\<close>

definition kind_name :: "obj_kind \<Rightarrow> string" where
  "kind_name k = (case k of KCommit \<Rightarrow> ''commit'' | KTree \<Rightarrow> ''tree'' | KBlob \<Rightarrow> ''blob'' | KTag \<Rightarrow> ''tag'')"

definition loose_header :: "obj_kind \<Rightarrow> string \<Rightarrow> string" where
  "loose_header kind data = kind_name kind @ '' '' @ show_nat (length data) @ [CHR 0x00]"

definition object_id :: "codec \<Rightarrow> obj_kind \<Rightarrow> string \<Rightarrow> git_error + string" where
  "object_id cd kind data =
     (case sha1 cd (loose_header kind data @ data) of Inl e \<Rightarrow> Inl (GitGit e) | Inr i \<Rightarrow> Inr i)"

section \<open>Reading headers\<close>

fun header_more :: "string \<Rightarrow> 64 word \<Rightarrow> nat \<Rightarrow> nat \<Rightarrow> git_error + (64 word \<times> nat)" where
  "header_more [] sz shift pos = Inl (GitGit ''truncated pack: object header'')"
| "header_more (c # rest) sz shift pos =
     (let sz' = sz OR shl (ucast (u8 c AND 0x7f)) shift in
      if u8 c AND 0x80 \<noteq> 0 then header_more rest sz' (shift + 7) (pos + 1) else Inr (sz', pos + 1))"

definition read_object_header :: "string \<Rightarrow> git_error + (8 word \<times> 64 word \<times> nat)" where
  "read_object_header data =
     (case data of
        [] \<Rightarrow> Inl (GitGit ''truncated pack: expected an object header'')
      | c # rest \<Rightarrow>
          (let first = u8 c; type_code = drop_bit 4 first AND 0x07; sz = ucast (first AND 0x0f) in
           if first AND 0x80 \<noteq> 0
           then (case header_more rest sz 4 1 of Inl e \<Rightarrow> Inl e | Inr (sz', pos) \<Rightarrow> Inr (type_code, sz', pos))
           else Inr (type_code, sz, 1)))"

fun offset_more :: "string \<Rightarrow> 64 word \<Rightarrow> nat \<Rightarrow> git_error + (64 word \<times> nat)" where
  "offset_more [] offset pos = Inl (GitGit ''truncated pack: OFS_DELTA offset'')"
| "offset_more (c # rest) offset pos =
     (let offset' = shl (offset + 1) 7 OR ucast (u8 c AND 0x7f) in
      if u8 c AND 0x80 \<noteq> 0 then offset_more rest offset' (pos + 1) else Inr (offset', pos + 1))"

definition read_offset_delta :: "string \<Rightarrow> git_error + (64 word \<times> nat)" where
  "read_offset_delta data =
     (case data of
        [] \<Rightarrow> Inl (GitGit ''truncated pack: OFS_DELTA offset'')
      | c # rest \<Rightarrow>
          if u8 c AND 0x80 \<noteq> 0 then offset_more rest (ucast (u8 c AND 0x7f)) 1
          else Inr (ucast (u8 c AND 0x7f), 1))"

definition inflate :: "codec \<Rightarrow> string \<Rightarrow> 64 word \<Rightarrow> git_error + (string \<times> nat)" where
  "inflate cd data expected_size =
     (case decompress cd data expected_size of
        Inl e \<Rightarrow> Inl (GitGit (''zlib error: '' @ e))
      | Inr (stream_end, output, total_in) \<Rightarrow>
          if \<not> stream_end \<or> int (length output) \<noteq> uint expected_size
          then Inl (GitGit ''zlib stream did not decode to the expected size'')
          else Inr (output, total_in))"

section \<open>Deltas\<close>

definition truncated_delta :: git_error where
  "truncated_delta = GitGit ''truncated delta instruction''"

fun delta_size_from :: "string \<Rightarrow> 64 word \<Rightarrow> nat \<Rightarrow> nat \<Rightarrow> git_error + (64 word \<times> nat)" where
  "delta_size_from [] sz shift pos = Inl (GitGit ''truncated delta size'')"
| "delta_size_from (c # rest) sz shift pos =
     (let sz' = sz OR shl (ucast (u8 c AND 0x7f)) shift in
      if u8 c AND 0x80 = 0 then Inr (sz', pos + 1) else delta_size_from rest sz' (shift + 7) (pos + 1))"

definition read_delta_size :: "string \<Rightarrow> git_error + (64 word \<times> nat)" where
  "read_delta_size data = delta_size_from data 0 0 0"

text \<open>The bytes of a copy's offset or size: the flags of the opcode from bit k on say which are present.\<close>

fun copy_field :: "8 word \<Rightarrow> nat \<Rightarrow> nat list \<Rightarrow> 64 word \<Rightarrow> string \<Rightarrow> git_error + (64 word \<times> string)" where
  "copy_field opcode k [] v delta = Inr (v, delta)"
| "copy_field opcode k (i # is) v delta =
     (if opcode AND push_bit (k + i) 1 \<noteq> 0
      then (case delta of
              [] \<Rightarrow> Inl truncated_delta
            | c # rest \<Rightarrow> copy_field opcode k is (v OR shl (ucast (u8 c)) (8 * i)) rest)
      else copy_field opcode k is v delta)"

lemma copy_field_shrinks: "copy_field opcode k is v delta = Inr (v', rest) \<Longrightarrow> length rest \<le> length delta"
  by (induction opcode k "is" v delta rule: copy_field.induct) (auto split: if_splits list.splits)

function delta_ops :: "string \<Rightarrow> string \<Rightarrow> string \<Rightarrow> git_error + string" where
  "delta_ops base [] out = Inr out"
| "delta_ops base (c # delta) out =
     (let opcode = u8 c in
      if opcode AND 0x80 \<noteq> 0
      then (case copy_field opcode 0 [0, 1, 2, 3] 0 delta of
              Inl e \<Rightarrow> Inl e
            | Inr (offset, delta1) \<Rightarrow>
                (case copy_field opcode 4 [0, 1, 2] 0 delta1 of
                   Inl e \<Rightarrow> Inl e
                 | Inr (sz, delta2) \<Rightarrow>
                     (let sz' = (if sz = 0 then 0x10000 else sz) in
                      if 2 ^ 64 \<le> uint offset + uint sz' then Inl (GitGit ''delta copy overflow'')
                      else if length base < unat offset + unat sz' then Inl (GitGit ''delta copy out of range'')
                      else delta_ops base delta2 (out @ take (unat sz') (drop (unat offset) base)))))
      else if opcode \<noteq> 0
      then (if length delta < unat opcode then Inl truncated_delta
            else delta_ops base (drop (unat opcode) delta) (out @ take (unat opcode) delta))
      else Inl (GitGit ''invalid delta opcode 0''))"
  by pat_completeness auto
termination
  by (relation "measure (\<lambda>(base, delta, out). length delta)") (auto simp del: copy_field.simps dest!: copy_field_shrinks)

definition apply_delta :: "string \<Rightarrow> string \<Rightarrow> git_error + string" where
  "apply_delta base delta =
     (case read_delta_size delta of
        Inl e \<Rightarrow> Inl e
      | Inr (base_size, n) \<Rightarrow>
          if uint base_size \<noteq> int (length base) then Inl (GitGit ''delta base size mismatch'')
          else (case read_delta_size (drop n delta) of
                  Inl e \<Rightarrow> Inl e
                | Inr (result_size, m) \<Rightarrow>
                    (case delta_ops base (drop (n + m) delta) [] of
                       Inl e \<Rightarrow> Inl e
                     | Inr out \<Rightarrow>
                         if int (length out) \<noteq> uint result_size then Inl (GitGit ''delta result size mismatch'')
                         else Inr out)))"

section \<open>Reading a pack\<close>

record parsed_object =
  po_id :: string
  po_kind :: obj_kind
  po_data :: string

definition kind_from_code :: "8 word \<Rightarrow> git_error + obj_kind" where
  "kind_from_code tc =
     (if tc = 1 then Inr KCommit else if tc = 2 then Inr KTree else if tc = 3 then Inr KBlob
      else if tc = 4 then Inr KTag else Inl (GitGit (''unsupported pack object type '' @ show_nat (unat tc))))"

definition be_value :: "string \<Rightarrow> nat" where
  "be_value cs = foldl (\<lambda>v c. 256 * v + of_char c) 0 cs"

text \<open>What the entry at a position resolves to, and where the next entry starts. Entries read so far come
  with the offset they start at.\<close>

type_synonym entries = "(nat \<times> parsed_object) list"

definition read_whole :: "codec \<Rightarrow> string \<Rightarrow> nat \<Rightarrow> 8 word \<Rightarrow> 64 word \<Rightarrow> git_error + ((obj_kind \<times> string) \<times> nat)" where
  "read_whole cd data pos type_code sz =
     (case kind_from_code type_code of
        Inl e \<Rightarrow> Inl e
      | Inr kind \<Rightarrow>
          (case inflate cd (drop pos data) sz of
             Inl e \<Rightarrow> Inl e
           | Inr (content, consumed) \<Rightarrow> Inr ((kind, content), pos + consumed)))"

definition with_base :: "obj_kind \<times> string \<Rightarrow> string \<Rightarrow> nat \<Rightarrow> git_error + ((obj_kind \<times> string) \<times> nat)" where
  "with_base base delta pos =
     (case apply_delta (snd base) delta of Inl e \<Rightarrow> Inl e | Inr content \<Rightarrow> Inr ((fst base, content), pos))"

definition read_ofs_delta ::
  "codec \<Rightarrow> entries \<Rightarrow> string \<Rightarrow> nat \<Rightarrow> nat \<Rightarrow> 64 word \<Rightarrow> git_error + ((obj_kind \<times> string) \<times> nat)" where
  "read_ofs_delta cd resolved data entry_offset pos sz =
     (case read_offset_delta (drop pos data) of
        Inl e \<Rightarrow> Inl e
      | Inr (back_offset, offset_len) \<Rightarrow>
          if entry_offset < unat back_offset then Inl (GitGit ''OFS_DELTA offset points before the pack start'')
          else (case inflate cd (drop (pos + offset_len) data) sz of
                  Inl e \<Rightarrow> Inl e
                | Inr (delta, consumed) \<Rightarrow>
                    (case find (\<lambda>e. fst e = entry_offset - unat back_offset) resolved of
                       None \<Rightarrow> Inl (GitGit ''OFS_DELTA base not found in pack'')
                     | Some e \<Rightarrow> with_base (po_kind (snd e), po_data (snd e)) delta (pos + offset_len + consumed))))"

definition read_ref_delta ::
  "codec \<Rightarrow> (string \<Rightarrow> string + (obj_kind \<times> string)) \<Rightarrow> entries \<Rightarrow> string \<Rightarrow> nat \<Rightarrow> 64 word
     \<Rightarrow> git_error + ((obj_kind \<times> string) \<times> nat)" where
  "read_ref_delta cd find_in_repo resolved data pos sz =
     (if length data < pos + 20 then Inl (GitGit ''truncated REF_DELTA base id'')
      else let base_id = take 20 (drop pos data) in
        case inflate cd (drop (pos + 20) data) sz of
          Inl e \<Rightarrow> Inl e
        | Inr (delta, consumed) \<Rightarrow>
            (case (case find (\<lambda>e. po_id (snd e) = base_id) resolved of
                     Some e \<Rightarrow> Inr (po_kind (snd e), po_data (snd e))
                   | None \<Rightarrow> (case find_in_repo base_id of Inl e \<Rightarrow> Inl (GitGit e) | Inr ob \<Rightarrow> Inr ob)) of
               Inl e \<Rightarrow> Inl e
             | Inr base \<Rightarrow> with_base base delta (pos + 20 + consumed)))"

definition read_entry ::
  "codec \<Rightarrow> (string \<Rightarrow> string + (obj_kind \<times> string)) \<Rightarrow> string \<Rightarrow> entries \<Rightarrow> nat
     \<Rightarrow> git_error + (parsed_object \<times> nat)" where
  "read_entry cd find_in_repo data resolved entry_offset =
     (case read_object_header (drop entry_offset data) of
        Inl e \<Rightarrow> Inl e
      | Inr (type_code, sz, header_len) \<Rightarrow>
          (let pos = entry_offset + header_len in
           case (if 1 \<le> type_code \<and> type_code \<le> 4 then read_whole cd data pos type_code sz
                 else if type_code = 6 then read_ofs_delta cd resolved data entry_offset pos sz
                 else if type_code = 7 then read_ref_delta cd find_in_repo resolved data pos sz
                 else Inl (GitGit (''unsupported pack entry type '' @ show_nat (unat type_code)))) of
             Inl e \<Rightarrow> Inl e
           | Inr ((kind, content), pos') \<Rightarrow>
               (case object_id cd kind content of
                  Inl e \<Rightarrow> Inl e
                | Inr i \<Rightarrow> Inr (\<lparr>po_id = i, po_kind = kind, po_data = content\<rparr>, pos'))))"

fun read_entries ::
  "codec \<Rightarrow> (string \<Rightarrow> string + (obj_kind \<times> string)) \<Rightarrow> string \<Rightarrow> entries \<Rightarrow> nat \<Rightarrow> nat \<Rightarrow> git_error + entries" where
  "read_entries cd find_in_repo data resolved pos 0 = Inr resolved"
| "read_entries cd find_in_repo data resolved pos (Suc n) =
     (case read_entry cd find_in_repo data resolved pos of
        Inl e \<Rightarrow> Inl e
      | Inr (ob, pos') \<Rightarrow> read_entries cd find_in_repo data (resolved @ [(pos, ob)]) pos' n)"

definition parse_pack ::
  "codec \<Rightarrow> (string \<Rightarrow> string + (obj_kind \<times> string)) \<Rightarrow> string \<Rightarrow> git_error + parsed_object list" where
  "parse_pack cd find_in_repo data =
     (if length data < 12 \<or> take 4 data \<noteq> ''PACK'' then Inl (GitGit ''not a valid pack: missing PACK header'')
      else let version = be_value (take 4 (drop 4 data)) in
        if version \<noteq> 2 then Inl (GitGit (''unsupported pack version '' @ show_nat version))
        else (case read_entries cd find_in_repo data [] 12 (be_value (take 4 (drop 8 data))) of
                Inl e \<Rightarrow> Inl e
              | Inr resolved \<Rightarrow> Inr (map snd resolved)))"

section \<open>Loose objects\<close>

text \<open>The files of a repository by path; whether the write fails is an argument.\<close>

definition loose_path :: "string \<Rightarrow> string" where
  "loose_path hex = ''objects/'' @ take 2 hex @ ''/'' @ drop 2 hex"

definition write_loose_object ::
  "codec \<Rightarrow> (string \<Rightarrow> string) \<Rightarrow> string option \<Rightarrow> obj_kind \<Rightarrow> string \<Rightarrow> (string \<times> string) list
     \<Rightarrow> (git_error + string) \<times> (string \<times> string) list" where
  "write_loose_object cd hex_of write_fails kind data files =
     (case object_id cd kind data of
        Inl e \<Rightarrow> (Inl e, files)
      | Inr i \<Rightarrow>
          if map_of files (loose_path (hex_of i)) \<noteq> None then (Inr i, files)
          else (case write_fails of
                  Some e \<Rightarrow> (Inl (GitIo e), files)
                | None \<Rightarrow> (Inr i, (loose_path (hex_of i), deflate cd (loose_header kind data @ data)) # files)))"


end
