(* ===== verification/Tracker_Store.thy ===== *)
theory Tracker_Store
  imports Access_Store
begin

text \<open>
  Pull requests, issues and the event outbox as stored (\<^verbatim>\<open>edda-db/src/repo_number_repo.rs\<close>,
  \<^verbatim>\<open>pull_request_repo.rs\<close>, \<^verbatim>\<open>pr_review_repo.rs\<close>, \<^verbatim>\<open>review_request_repo.rs\<close>,
  \<^verbatim>\<open>pr_comment_repo.rs\<close>, \<^verbatim>\<open>issue_repo.rs\<close>, \<^verbatim>\<open>issue_comment_repo.rs\<close>,
  \<^verbatim>\<open>issue_assignee_repo.rs\<close>, \<^verbatim>\<open>label_repo.rs\<close>, \<^verbatim>\<open>commit_status_repo.rs\<close>, \<^verbatim>\<open>event_repo.rs\<close>).
\<close>

section \<open>The columns of a state\<close>

record state_columns =
  col_state :: string
  col_merged_at :: "int option"
  col_merge_commit :: "string option"
  col_merge_strategy :: "string option"
  col_closed_at :: "int option"
  col_close_reason :: "string option"

fun pr_state_columns :: "pr_state \<Rightarrow> state_columns" where
  "pr_state_columns PrOpen = \<lparr>col_state = ''open'', col_merged_at = None, col_merge_commit = None,
     col_merge_strategy = None, col_closed_at = None, col_close_reason = None\<rparr>"
| "pr_state_columns PrDraft = \<lparr>col_state = ''draft'', col_merged_at = None, col_merge_commit = None,
     col_merge_strategy = None, col_closed_at = None, col_close_reason = None\<rparr>"
| "pr_state_columns (PrMerged at commit strategy) = \<lparr>col_state = ''merged'', col_merged_at = Some at,
     col_merge_commit = Some commit, col_merge_strategy = Some (merge_strategy_as_db_str strategy),
     col_closed_at = None, col_close_reason = None\<rparr>"
| "pr_state_columns (PrClosed at reason) = \<lparr>col_state = ''closed'', col_merged_at = None,
     col_merge_commit = None, col_merge_strategy = None, col_closed_at = Some at,
     col_close_reason = Some (close_reason_as_db_str reason)\<rparr>"

text \<open>Reading the columns back; \<^verbatim>\<open>None\<close> stands for the panics of \<^verbatim>\<open>row_to_pull_request\<close> on columns
  that do not fit together.\<close>

definition pr_state_of_columns :: "state_columns \<Rightarrow> pr_state option" where
  "pr_state_of_columns c =
     (if col_state c = ''open'' then Some PrOpen
      else if col_state c = ''draft'' then Some PrDraft
      else if col_state c = ''merged'' then
        (case (col_merged_at c, col_merge_commit c,
               Option.bind (col_merge_strategy c) merge_strategy_from_db_str) of
           (Some at, Some commit, Some strategy) \<Rightarrow> Some (PrMerged at commit strategy)
         | _ \<Rightarrow> None)
      else if col_state c = ''closed'' then
        (case (col_closed_at c, Option.bind (col_close_reason c) close_reason_from_db_str) of
           (Some at, Some reason) \<Rightarrow> Some (PrClosed at reason)
         | _ \<Rightarrow> None)
      else None)"

text \<open>A pull request's state survives storage, and states never share a row. Reading back the columns
  a state was written to gives that state (in particular none of the panics on ill-fitting columns
  can be reached from columns the code wrote), and two different states have different columns.\<close>

theorem pr_state_columns_roundtrip:
  "pr_state_of_columns (pr_state_columns s) = Some s
   \<and> (pr_state_columns s = pr_state_columns t \<longleftrightarrow> s = t)"
proof -
  have read: "pr_state_of_columns (pr_state_columns s) = Some s" for s
    by (cases s) (simp_all add: pr_state_of_columns_def merge_strategy_codec.dec_enc close_reason_codec.dec_enc)
  then show ?thesis by (metis option.inject)
qed

text \<open>Rows are kept as the record the columns stand for.\<close>

section \<open>Numbers\<close>

definition ensure_counter :: "uuid \<Rightarrow> (uuid \<times> int) list \<Rightarrow> (uuid \<times> int) list" where
  "ensure_counter rid rows = (if rid \<in> set (map fst rows) then rows else rows @ [(rid, 1)])"

definition at_number :: "uuid \<Rightarrow> int \<Rightarrow> uuid \<times> int \<Rightarrow> bool" where
  "at_number rid current row \<longleftrightarrow> fst row = rid \<and> snd row = current"

definition advance_counter :: "uuid \<Rightarrow> int \<Rightarrow> (uuid \<times> int) list \<Rightarrow> (uuid \<times> int) list" where
  "advance_counter rid current = update_where (at_number rid current) (\<lambda>row. (fst row, current + 1))"

definition with_counters :: "((uuid \<times> int) list \<Rightarrow> (uuid \<times> int) list) \<Rightarrow> db \<Rightarrow> db" where
  "with_counters f d = d\<lparr>t_counters := f (t_counters d)\<rparr>"

datatype next_number_error = NumberContended nat | NumberDb db_error

definition number_attempts :: nat where
  "number_attempts = 10"

definition ensure_counter_row :: "uuid \<Rightarrow> (db_error, unit) act" where
  "ensure_counter_row rid =
     sql (\<lambda>d. if rid \<notin> set (map fst (t_counters d)) \<and> repo_by_id rid d = None then Inl ForeignKeyViolation
              else Inr ((), with_counters (ensure_counter rid) d))"

definition read_current :: "uuid \<Rightarrow> (db_error, int) act" where
  "read_current rid =
     sql (\<lambda>d. case find (\<lambda>row. fst row = rid) (t_counters d) of
                None \<Rightarrow> Inl RowNotFound
              | Some row \<Rightarrow> Inr (snd row, d))"

definition try_advance :: "uuid \<Rightarrow> int \<Rightarrow> (db_error, bool) act" where
  "try_advance rid current =
     sql (\<lambda>d. Inr (0 < rows_affected (at_number rid current) (t_counters d),
                  with_counters (advance_counter rid current) d))"

fun number_loop :: "nat \<Rightarrow> uuid \<Rightarrow> (next_number_error, int) act" where
  "number_loop 0 rid = err (NumberContended number_attempts)"
| "number_loop (Suc n) rid =
     and_then (map_err NumberDb (read_current rid)) (\<lambda>current.
       and_then (map_err NumberDb (try_advance rid current)) (\<lambda>won.
         if won then ok current else number_loop n rid))"

definition next_number :: "uuid \<Rightarrow> (next_number_error, int) act" where
  "next_number rid =
     and_then (map_err NumberDb (ensure_counter_row rid)) (\<lambda>_. number_loop number_attempts rid)"

text \<open>The statements of any number of concurrent allocations on the counter table, and the numbers
  handed out.\<close>

datatype counter_stmt = CEnsure uuid | CAdvance uuid int

fun counter_step :: "counter_stmt \<Rightarrow> (uuid \<times> int) list \<Rightarrow> (uuid \<times> int) list" where
  "counter_step (CEnsure rid) rows = ensure_counter rid rows"
| "counter_step (CAdvance rid current) rows = advance_counter rid current rows"

fun handed_out :: "counter_stmt \<Rightarrow> (uuid \<times> int) list \<Rightarrow> (uuid \<times> int) list" where
  "handed_out (CEnsure rid) rows = []"
| "handed_out (CAdvance rid current) rows =
     (if 0 < rows_affected (at_number rid current) rows then [(rid, current)] else [])"

fun counter_run :: "counter_stmt list \<Rightarrow> (uuid \<times> int) list \<Rightarrow> (uuid \<times> int) list" where
  "counter_run [] rows = []"
| "counter_run (s # ss) rows = handed_out s rows @ counter_run ss (counter_step s rows)"

definition numbers_of :: "uuid \<Rightarrow> (uuid \<times> int) list \<Rightarrow> int list" where
  "numbers_of rid xs = map snd (filter (\<lambda>x. fst x = rid) xs)"

definition next_of :: "uuid \<Rightarrow> (uuid \<times> int) list \<Rightarrow> int" where
  "next_of rid rows = (case map_of rows rid of None \<Rightarrow> 1 | Some n \<Rightarrow> n)"

lemma distinct_counter_step: "distinct (map fst rows) \<Longrightarrow> distinct (map fst (counter_step s rows))"
proof (cases s)
  case (CAdvance rid current)
  assume "distinct (map fst rows)"
  moreover have "map fst (advance_counter rid current rows) = map fst rows"
    unfolding advance_counter_def by (rule map_update_where) simp
  ultimately show ?thesis by (simp add: CAdvance)
qed (simp add: ensure_counter_def)

lemma map_of_advance:
  "distinct (map fst rows) \<Longrightarrow>
     map_of (advance_counter rid current rows) r =
       (if r = rid \<and> map_of rows rid = Some current then Some (current + 1) else map_of rows r)"
  by (induction rows) (auto simp: advance_counter_def update_where_def at_number_def)

lemma advance_affects:
  "distinct (map fst rows) \<Longrightarrow> 0 < rows_affected (at_number rid current) rows \<longleftrightarrow> map_of rows rid = Some current"
proof -
  assume "distinct (map fst rows)"
  then have "map_of rows rid = Some current \<longleftrightarrow> (rid, current) \<in> set rows" by simp
  also have "\<dots> \<longleftrightarrow> 0 < rows_affected (at_number rid current) rows"
    by (force simp: rows_affected_def at_number_def filter_empty_conv)
  finally show ?thesis by simp
qed

lemma counter_run_consecutive:
  "distinct (map fst rows) \<Longrightarrow>
     \<exists>k. numbers_of rid (counter_run ss rows) = map (\<lambda>i. next_of rid rows + int i) [0..<k]"
proof (induction ss arbitrary: rows)
  case Nil
  show ?case by (rule exI [of _ 0]) (simp add: numbers_of_def)
next
  case (Cons s ss)
  obtain k where k: "numbers_of rid (counter_run ss (counter_step s rows)) =
      map (\<lambda>i. next_of rid (counter_step s rows) + int i) [0..<k]"
    using Cons.IH [OF distinct_counter_step [OF Cons.prems]] by blast
  have app: "numbers_of rid (counter_run (s # ss) rows) =
      numbers_of rid (handed_out s rows) @ numbers_of rid (counter_run ss (counter_step s rows))"
    by (simp add: numbers_of_def)
  show ?case
  proof (cases s)
    case (CEnsure r)
    have "next_of rid (ensure_counter r rows) = next_of rid rows"
    proof (cases "r \<in> set (map fst rows)")
      case False
      then have "map_of rows r = None" by (simp add: map_of_eq_None_iff)
      then show ?thesis
        by (cases "rid = r") (auto simp: next_of_def ensure_counter_def map_add_def split: option.splits)
    qed (simp add: next_of_def ensure_counter_def)
    then show ?thesis using app k CEnsure by (auto simp: numbers_of_def)
  next
    case (CAdvance r c)
    show ?thesis
    proof (cases "r = rid \<and> map_of rows rid = Some c")
      case True
      then have "numbers_of rid (handed_out s rows) = [c]" "next_of rid (counter_step s rows) = c + 1"
        "next_of rid rows = c"
        using CAdvance Cons.prems
        by (simp_all add: numbers_of_def advance_affects next_of_def map_of_advance del: map_of_eq_Some_iff)
      then have "numbers_of rid (counter_run (s # ss) rows) = c # map (\<lambda>i. c + int (Suc i)) [0..<k]"
        using app k by (simp add: algebra_simps)
      also have "\<dots> = map (\<lambda>i. next_of rid rows + int i) [0..<Suc k]"
        using \<open>next_of rid rows = c\<close> by (simp add: upt_conv_Cons map_Suc_upt [symmetric] del: upt_Suc map_Suc_upt)
      finally show ?thesis by blast
    next
      case False
      then have "numbers_of rid (handed_out s rows) = []" "next_of rid (counter_step s rows) = next_of rid rows"
        using CAdvance Cons.prems
        by (auto simp: numbers_of_def advance_affects next_of_def map_of_advance)
      then show ?thesis using app k by auto
    qed
  qed
qed

text \<open>Pull requests and issues of a repository are numbered 1, 2, 3 and so on without gaps or
  repetitions. However the statements of concurrent allocations interleave, and however stale the
  number is that an allocation tries to advance from, the numbers handed out for a repository are
  consecutive from 1 in the order they are handed out.\<close>

theorem allocated_numbers_consecutive:
  "\<exists>k. numbers_of rid (counter_run statements []) = map int [1..<Suc k]"
proof -
  obtain k where "numbers_of rid (counter_run statements []) = map (\<lambda>i. 1 + int i) [0..<k]"
    using counter_run_consecutive [of "[]" rid statements] by (auto simp: next_of_def)
  also have "\<dots> = map int [1..<Suc k]"
    by (simp add: map_Suc_upt [symmetric] del: upt_Suc map_Suc_upt)
  finally show ?thesis by blast
qed

section \<open>Pull requests\<close>

record new_pull_request =
  new_title :: string
  new_body :: "string option"
  new_author_id :: uuid
  new_source :: pr_ref
  new_target :: string
  new_draft :: bool

datatype insert_error = InsertNumber next_number_error | InsertDb db_error

definition pr_by_id :: "uuid \<Rightarrow> db \<Rightarrow> pull_request option" where
  "pr_by_id i d = find (\<lambda>p. pr_id p = i) (t_pull_requests d)"

definition pr_by_number :: "uuid \<Rightarrow> int \<Rightarrow> db \<Rightarrow> pull_request option" where
  "pr_by_number rid number d =
     find (\<lambda>p. pr_repository_id p = rid \<and> pr_number p = number) (t_pull_requests d)"

definition insert_pr_row :: "pull_request \<Rightarrow> db \<Rightarrow> db_error + (unit \<times> db)" where
  "insert_pr_row p d =
     (if pr_by_id (pr_id p) d \<noteq> None \<or> pr_by_number (pr_repository_id p) (pr_number p) d \<noteq> None
      then Inl UniqueViolation
      else if repo_by_id (pr_repository_id p) d = None \<or> repo_by_id (ref_repository_id (pr_source p)) d = None
           \<or> user_by_id (pr_author_id p) d = None
      then Inl ForeignKeyViolation
      else Inr ((), d\<lparr>t_pull_requests := t_pull_requests d @ [p]\<rparr>))"

definition pull_request_insert :: "uuid \<Rightarrow> uuid \<Rightarrow> new_pull_request \<Rightarrow> (insert_error, int) act" where
  "pull_request_insert i rid new =
     and_then (map_err InsertNumber (next_number rid)) (\<lambda>number.
       and_then now_unix (\<lambda>now.
         and_then (map_err InsertDb (sql (insert_pr_row
             \<lparr>pr_id = i, pr_repository_id = rid, pr_number = number, pr_title = new_title new,
              pr_body = new_body new, pr_author_id = new_author_id new, pr_source = new_source new,
              pr_target = new_target new, pr_state = (if new_draft new then PrDraft else PrOpen),
              pr_created_at = now\<rparr>))) (\<lambda>_. ok number)))"

definition prs_of_repository :: "uuid \<Rightarrow> db \<Rightarrow> pull_request list" where
  "prs_of_repository rid d =
     sort_key (\<lambda>p. - pr_number p) (filter (\<lambda>p. pr_repository_id p = rid) (t_pull_requests d))"

definition open_with_source_branch :: "uuid \<Rightarrow> string \<Rightarrow> db \<Rightarrow> pull_request list" where
  "open_with_source_branch rid branch d =
     sort_key pr_number
       (filter (\<lambda>p. pr_source p = \<lparr>ref_repository_id = rid, ref_branch = branch\<rparr>
                  \<and> col_state (pr_state_columns (pr_state p)) \<in> {''open'', ''draft''})
          (t_pull_requests d))"

definition set_pr_state :: "uuid \<Rightarrow> pr_state \<Rightarrow> db \<Rightarrow> db" where
  "set_pr_state i s d =
     d\<lparr>t_pull_requests := update_where (\<lambda>p. pr_id p = i) (\<lambda>p. p\<lparr>pr_state := s\<rparr>) (t_pull_requests d)\<rparr>"

definition update_pr_state :: "uuid \<Rightarrow> pr_state \<Rightarrow> (db_error, unit) act" where
  "update_pr_state i s = execute (set_pr_state i s)"

section \<open>Reviews, review requests and comments\<close>

definition insert_review_row :: "pr_review \<Rightarrow> db \<Rightarrow> db_error + (unit \<times> db)" where
  "insert_review_row r d =
     (if list_ex (\<lambda>x. review_id x = review_id r) (t_reviews d) then Inl UniqueViolation
      else if pr_by_id (review_pull_request_id r) d = None \<or> user_by_id (reviewer_id r) d = None
      then Inl ForeignKeyViolation
      else Inr ((), d\<lparr>t_reviews := t_reviews d @ [r]\<rparr>))"

definition review_insert ::
  "uuid \<Rightarrow> uuid \<Rightarrow> uuid \<Rightarrow> review_state \<Rightarrow> string option \<Rightarrow> (db_error, unit) act" where
  "review_insert i pid reviewer state body =
     and_then now_unix (\<lambda>now.
       sql (insert_review_row
         \<lparr>review_id = i, review_pull_request_id = pid, reviewer_id = reviewer, review_state = state,
          review_body = body, review_created_at = now, review_dismissed_at = None\<rparr>))"

definition reviews_of :: "uuid \<Rightarrow> db \<Rightarrow> pr_review list" where
  "reviews_of pid d = sort_key review_created_at (filter (\<lambda>r. review_pull_request_id r = pid) (t_reviews d))"

definition dismissible :: "uuid \<Rightarrow> pr_review \<Rightarrow> bool" where
  "dismissible pid r \<longleftrightarrow> review_pull_request_id r = pid \<and> review_dismissed_at r = None"

definition dismiss_reviews :: "uuid \<Rightarrow> int \<Rightarrow> db \<Rightarrow> db" where
  "dismiss_reviews pid now d =
     d\<lparr>t_reviews := update_where (dismissible pid) (\<lambda>r. r\<lparr>review_dismissed_at := Some now\<rparr>) (t_reviews d)\<rparr>"

definition dismiss_all_for_pull_request :: "uuid \<Rightarrow> (db_error, nat) act" where
  "dismiss_all_for_pull_request pid =
     and_then now_unix (\<lambda>now.
       sql (\<lambda>d. Inr (rows_affected (dismissible pid) (t_reviews d), dismiss_reviews pid now d)))"

definition requested_of :: "uuid \<Rightarrow> uuid \<Rightarrow> review_request \<Rightarrow> bool" where
  "requested_of pid reviewer q \<longleftrightarrow> rr_pull_request_id q = pid \<and> rr_reviewer_id q = reviewer"

definition request_row :: "review_request \<Rightarrow> db \<Rightarrow> db_error + (bool \<times> db)" where
  "request_row q d =
     (if list_ex (\<lambda>x. rr_id x = rr_id q \<or> requested_of (rr_pull_request_id q) (rr_reviewer_id q) x)
           (t_review_requests d)
      then Inr (False, d)
      else if pr_by_id (rr_pull_request_id q) d = None \<or> user_by_id (rr_reviewer_id q) d = None
      then Inl ForeignKeyViolation
      else Inr (True, d\<lparr>t_review_requests := t_review_requests d @ [q]\<rparr>))"

definition review_request_insert :: "uuid \<Rightarrow> uuid \<Rightarrow> uuid \<Rightarrow> (db_error, bool) act" where
  "review_request_insert i pid reviewer =
     and_then now_unix (\<lambda>now.
       sql (request_row \<lparr>rr_id = i, rr_pull_request_id = pid, rr_reviewer_id = reviewer, rr_created_at = now\<rparr>))"

definition review_requests_of :: "uuid \<Rightarrow> db \<Rightarrow> review_request list" where
  "review_requests_of pid d =
     sort_key rr_created_at (filter (\<lambda>q. rr_pull_request_id q = pid) (t_review_requests d))"

definition review_request_delete :: "uuid \<Rightarrow> uuid \<Rightarrow> (db_error, bool) act" where
  "review_request_delete pid reviewer =
     sql (\<lambda>d. Inr (0 < rows_affected (requested_of pid reviewer) (t_review_requests d),
       d\<lparr>t_review_requests := delete_where (requested_of pid reviewer) (t_review_requests d)\<rparr>))"

definition insert_pr_comment_row :: "pr_comment \<Rightarrow> db \<Rightarrow> db_error + (unit \<times> db)" where
  "insert_pr_comment_row c d =
     (if list_ex (\<lambda>x. comment_id x = comment_id c) (t_pr_comments d) then Inl UniqueViolation
      else if pr_by_id (comment_pull_request_id c) d = None \<or> user_by_id (comment_author_id c) d = None
      then Inl ForeignKeyViolation
      else Inr ((), d\<lparr>t_pr_comments := t_pr_comments d @ [c]\<rparr>))"

definition pr_comment_insert ::
  "uuid \<Rightarrow> uuid \<Rightarrow> uuid \<Rightarrow> string \<Rightarrow> diff_anchor option \<Rightarrow> (db_error, unit) act" where
  "pr_comment_insert i pid author body anchor =
     and_then now_unix (\<lambda>now.
       sql (insert_pr_comment_row
         \<lparr>comment_id = i, comment_pull_request_id = pid, comment_author_id = author, comment_body = body,
          comment_anchor = anchor, comment_created_at = now\<rparr>))"

definition pr_comments_of :: "uuid \<Rightarrow> db \<Rightarrow> pr_comment list" where
  "pr_comments_of pid d =
     sort_key comment_created_at (filter (\<lambda>c. comment_pull_request_id c = pid) (t_pr_comments d))"

section \<open>Commit statuses\<close>

definition status_by_key :: "uuid \<Rightarrow> string \<Rightarrow> string \<Rightarrow> db \<Rightarrow> commit_status option" where
  "status_by_key rid sha ctx d =
     find (\<lambda>s. status_repository_id s = rid \<and> status_commit_sha s = sha \<and> status_context s = ctx) (t_statuses d)"

definition insert_status_row :: "commit_status \<Rightarrow> db \<Rightarrow> db_error + (unit \<times> db)" where
  "insert_status_row s d =
     (if list_ex (\<lambda>x. status_id x = status_id s) (t_statuses d)
         \<or> status_by_key (status_repository_id s) (status_commit_sha s) (status_context s) d \<noteq> None
      then Inl UniqueViolation
      else if repo_by_id (status_repository_id s) d = None then Inl ForeignKeyViolation
      else Inr ((), d\<lparr>t_statuses := t_statuses d @ [s]\<rparr>))"

definition status_upsert ::
  "uuid \<Rightarrow> uuid \<Rightarrow> string \<Rightarrow> string \<Rightarrow> commit_status_state \<Rightarrow> string option \<Rightarrow> string option
     \<Rightarrow> (db_error, uuid) act" where
  "status_upsert i rid sha ctx state url description =
     and_then now_unix (\<lambda>now.
       and_then (select (status_by_key rid sha ctx)) (\<lambda>existing.
         case existing of
           Some s \<Rightarrow>
             and_then (execute (\<lambda>d. d\<lparr>t_statuses := update_where (\<lambda>x. status_id x = status_id s)
                 (\<lambda>x. x\<lparr>status_state := state, status_target_url := url, status_description := description,
                       status_updated_at := now\<rparr>) (t_statuses d)\<rparr>))
               (\<lambda>_. ok (status_id s))
         | None \<Rightarrow>
             and_then (sql (insert_status_row
                 \<lparr>status_id = i, status_repository_id = rid, status_commit_sha = sha, status_context = ctx,
                  status_state = state, status_target_url = url, status_description = description,
                  status_created_at = now, status_updated_at = now\<rparr>))
               (\<lambda>_. ok i)))"

definition statuses_for_commit :: "uuid \<Rightarrow> string \<Rightarrow> db \<Rightarrow> commit_status list" where
  "statuses_for_commit rid sha d =
     sort_key (\<lambda>s. - status_updated_at s)
       (filter (\<lambda>s. status_repository_id s = rid \<and> status_commit_sha s = sha) (t_statuses d))"

end
