(* ===== verification/Issue_Store.thy ===== *)
theory Issue_Store
  imports Tracker_Store
begin

text \<open>
  Issues, their labels and assignees, the event outbox, and what the outbox is fanned out to, as
  stored (\<^verbatim>\<open>edda-db/src/issue_repo.rs\<close>, \<^verbatim>\<open>issue_comment_repo.rs\<close>, \<^verbatim>\<open>issue_assignee_repo.rs\<close>,
  \<^verbatim>\<open>label_repo.rs\<close>, \<^verbatim>\<open>milestone_repo.rs\<close>, \<^verbatim>\<open>event_repo.rs\<close>, \<^verbatim>\<open>notification_repo.rs\<close>,
  \<^verbatim>\<open>watch_repo.rs\<close>, \<^verbatim>\<open>webhook_repo.rs\<close>). The property is the one the label module promises: at
  most one label of a scope on an issue.
\<close>

section \<open>Issues\<close>

definition issue_by_id :: "uuid \<Rightarrow> db \<Rightarrow> issue option" where
  "issue_by_id i d = find (\<lambda>x. issue_id x = i) (t_issues d)"

definition issue_by_number :: "uuid \<Rightarrow> int \<Rightarrow> db \<Rightarrow> issue option" where
  "issue_by_number rid number d =
     find (\<lambda>x. issue_repository_id x = rid \<and> issue_number x = number) (t_issues d)"

definition issues_of_repository :: "uuid \<Rightarrow> db \<Rightarrow> issue list" where
  "issues_of_repository rid d =
     sort_key (\<lambda>x. - issue_number x) (filter (\<lambda>x. issue_repository_id x = rid) (t_issues d))"

definition insert_issue_row :: "issue \<Rightarrow> db \<Rightarrow> db_error + (unit \<times> db)" where
  "insert_issue_row x d =
     (if issue_by_id (issue_id x) d \<noteq> None
         \<or> issue_by_number (issue_repository_id x) (issue_number x) d \<noteq> None
      then Inl UniqueViolation
      else if repo_by_id (issue_repository_id x) d = None \<or> user_by_id (issue_author_id x) d = None
      then Inl ForeignKeyViolation
      else Inr ((), d\<lparr>t_issues := t_issues d @ [x]\<rparr>))"

definition issue_insert ::
  "uuid \<Rightarrow> uuid \<Rightarrow> string \<Rightarrow> string option \<Rightarrow> uuid \<Rightarrow> (insert_error, int) act" where
  "issue_insert i rid title body author =
     and_then (map_err InsertNumber (next_number rid)) (\<lambda>number.
       and_then now_unix (\<lambda>now.
         and_then (map_err InsertDb (sql (insert_issue_row
             \<lparr>issue_id = i, issue_repository_id = rid, issue_number = number, issue_title = title,
              issue_body = body, issue_author_id = author, issue_state = IssueOpen,
              issue_milestone_id = None, issue_created_at = now\<rparr>))) (\<lambda>_. ok number)))"

definition set_issue_state :: "uuid \<Rightarrow> issue_state \<Rightarrow> db \<Rightarrow> db" where
  "set_issue_state i s d =
     d\<lparr>t_issues := update_where (\<lambda>x. issue_id x = i) (\<lambda>x. x\<lparr>issue_state := s\<rparr>) (t_issues d)\<rparr>"

definition update_issue_state :: "uuid \<Rightarrow> issue_state \<Rightarrow> (db_error, unit) act" where
  "update_issue_state i s = execute (set_issue_state i s)"

definition milestone_row :: "uuid \<Rightarrow> uuid option \<Rightarrow> db \<Rightarrow> db_error + (unit \<times> db)" where
  "milestone_row i m d =
     (if issue_by_id i d \<noteq> None
         \<and> (case m of None \<Rightarrow> False | Some k \<Rightarrow> \<not> list_ex (\<lambda>x. milestone_id x = k) (t_milestones d))
      then Inl ForeignKeyViolation
      else Inr ((), d\<lparr>t_issues := update_where (\<lambda>x. issue_id x = i) (\<lambda>x. x\<lparr>issue_milestone_id := m\<rparr>)
                                    (t_issues d)\<rparr>))"

definition issue_set_milestone :: "uuid \<Rightarrow> uuid option \<Rightarrow> (db_error, unit) act" where
  "issue_set_milestone i m = sql (milestone_row i m)"

definition insert_issue_comment_row :: "issue_comment \<Rightarrow> db \<Rightarrow> db_error + (unit \<times> db)" where
  "insert_issue_comment_row c d =
     (if list_ex (\<lambda>x. icomment_id x = icomment_id c) (t_issue_comments d) then Inl UniqueViolation
      else if issue_by_id (icomment_issue_id c) d = None \<or> user_by_id (icomment_author_id c) d = None
      then Inl ForeignKeyViolation
      else Inr ((), d\<lparr>t_issue_comments := t_issue_comments d @ [c]\<rparr>))"

definition issue_comment_insert :: "uuid \<Rightarrow> uuid \<Rightarrow> uuid \<Rightarrow> string \<Rightarrow> (db_error, unit) act" where
  "issue_comment_insert i issue author body =
     and_then now_unix (\<lambda>now.
       sql (insert_issue_comment_row
         \<lparr>icomment_id = i, icomment_issue_id = issue, icomment_author_id = author, icomment_body = body,
          icomment_created_at = now\<rparr>))"

definition issue_comments_of :: "uuid \<Rightarrow> db \<Rightarrow> issue_comment list" where
  "issue_comments_of i d =
     sort_key icomment_created_at (filter (\<lambda>c. icomment_issue_id c = i) (t_issue_comments d))"

section \<open>Assignees\<close>

definition assigned :: "uuid \<Rightarrow> uuid \<Rightarrow> assignee \<Rightarrow> bool" where
  "assigned i u a \<longleftrightarrow> asg_issue_id a = i \<and> asg_user_id a = u"

definition assign_row :: "assignee \<Rightarrow> db \<Rightarrow> db_error + (bool \<times> db)" where
  "assign_row a d =
     (if list_ex (assigned (asg_issue_id a) (asg_user_id a)) (t_assignees d) then Inr (False, d)
      else if issue_by_id (asg_issue_id a) d = None \<or> user_by_id (asg_user_id a) d = None
           \<or> (case asg_assigned_by_id a of None \<Rightarrow> False | Some k \<Rightarrow> user_by_id k d = None)
      then Inl ForeignKeyViolation
      else Inr (True, d\<lparr>t_assignees := t_assignees d @ [a]\<rparr>))"

definition issue_assign :: "uuid \<Rightarrow> uuid \<Rightarrow> uuid option \<Rightarrow> (db_error, bool) act" where
  "issue_assign i u by_id =
     and_then now_unix (\<lambda>now.
       sql (assign_row \<lparr>asg_issue_id = i, asg_user_id = u, asg_assigned_by_id = by_id, asg_assigned_at = now\<rparr>))"

definition issue_unassign :: "uuid \<Rightarrow> uuid \<Rightarrow> (db_error, bool) act" where
  "issue_unassign i u =
     sql (\<lambda>d. Inr (0 < rows_affected (assigned i u) (t_assignees d),
                  d\<lparr>t_assignees := delete_where (assigned i u) (t_assignees d)\<rparr>))"

text \<open>\<^verbatim>\<open>ORDER BY assigned_at, user_id\<close>: sorting by the second key first, then stably by the first.\<close>

definition assignees_of :: "uuid \<Rightarrow> db \<Rightarrow> uuid list" where
  "assignees_of i d =
     map asg_user_id
       (sort_key asg_assigned_at (sort_key asg_user_id (filter (\<lambda>a. asg_issue_id a = i) (t_assignees d))))"

definition issues_assigned_to :: "uuid \<Rightarrow> db \<Rightarrow> uuid list" where
  "issues_assigned_to u d =
     map asg_issue_id (sort_key (\<lambda>a. - asg_assigned_at a) (filter (\<lambda>a. asg_user_id a = u) (t_assignees d)))"

section \<open>Labels\<close>

datatype insert_label_error = LabelAlreadyExists string | InsertLabelDb db_error

definition insert_label_row :: "label \<Rightarrow> db \<Rightarrow> db_error + (unit \<times> db)" where
  "insert_label_row l d =
     (if list_ex (\<lambda>x. label_id x = label_id l
           \<or> (label_repository_id x = label_repository_id l \<and> label_name x = label_name l)) (t_labels d)
      then Inl UniqueViolation
      else if repo_by_id (label_repository_id l) d = None then Inl ForeignKeyViolation
      else Inr ((), d\<lparr>t_labels := t_labels d @ [l]\<rparr>))"

definition label_insert ::
  "uuid \<Rightarrow> uuid \<Rightarrow> string \<Rightarrow> string \<Rightarrow> string option \<Rightarrow> (insert_label_error, unit) act" where
  "label_insert i rid name color description =
     map_err (\<lambda>e. if e = UniqueViolation then LabelAlreadyExists name else InsertLabelDb e)
       (sql (insert_label_row
         \<lparr>label_id = i, label_repository_id = rid, label_name = name, label_color = color,
          label_description = description, label_archived_at = None\<rparr>))"

definition labels_of_repository :: "uuid \<Rightarrow> db \<Rightarrow> label list" where
  "labels_of_repository rid d =
     sort_key label_name (filter (\<lambda>l. label_repository_id l = rid) (t_labels d))"

text \<open>The join of \<^verbatim>\<open>labels\<close> and \<^verbatim>\<open>issue_labels\<close>.\<close>

definition labels_on :: "uuid \<Rightarrow> db \<Rightarrow> label list" where
  "labels_on i d =
     concat (map (\<lambda>(iid, lid). if iid = i then filter (\<lambda>l. label_id l = lid) (t_labels d) else [])
       (t_issue_labels d))"

definition labels_of_issue :: "uuid \<Rightarrow> db \<Rightarrow> label list" where
  "labels_of_issue i d = sort_key label_name (labels_on i d)"

definition unapply :: "uuid \<Rightarrow> uuid \<Rightarrow> db \<Rightarrow> db" where
  "unapply i lid d = d\<lparr>t_issue_labels := delete_where (\<lambda>x. x = (i, lid)) (t_issue_labels d)\<rparr>"

definition apply_row :: "uuid \<Rightarrow> uuid \<Rightarrow> db \<Rightarrow> db_error + (unit \<times> db)" where
  "apply_row i lid d =
     (if (i, lid) \<in> set (t_issue_labels d) then Inr ((), d)
      else if issue_by_id i d = None \<or> \<not> list_ex (\<lambda>l. label_id l = lid) (t_labels d)
      then Inl ForeignKeyViolation
      else Inr ((), d\<lparr>t_issue_labels := t_issue_labels d @ [(i, lid)]\<rparr>))"

definition apply_to_issue :: "uuid \<Rightarrow> label \<Rightarrow> (db_error, unit) act" where
  "apply_to_issue i l =
     transaction (\<lambda>e. e)
       (and_then (select (labels_on i)) (\<lambda>currently_applied.
          and_then (for_each (labels_to_unapply_for_scope currently_applied l)
              (\<lambda>stale. execute (unapply i (label_id stale))))
            (\<lambda>_. sql (apply_row i (label_id l)))))"

definition remove_from_issue :: "uuid \<Rightarrow> uuid \<Rightarrow> (db_error, unit) act" where
  "remove_from_issue i lid = execute (unapply i lid)"

section \<open>The outbox\<close>

definition append_event :: "domain_event \<Rightarrow> (db_error, unit) act" where
  "append_event ev =
     and_then fresh_uuid (\<lambda>i.
       and_then now_unix (\<lambda>now.
         sql (\<lambda>d. if list_ex (\<lambda>e. event_id e = i) (t_events d) then Inl UniqueViolation
                  else Inr ((), d\<lparr>t_events := t_events d @
                    [\<lparr>event_id = i, event_payload = ev, event_occurred_at = now,
                      event_processed_at = None\<rparr>]\<rparr>))))"

definition fetch_unprocessed :: "nat \<Rightarrow> db \<Rightarrow> event_record list" where
  "fetch_unprocessed limit d =
     take limit (sort_key event_occurred_at (filter (\<lambda>e. event_processed_at e = None) (t_events d)))"

definition unprocessed :: "uuid \<Rightarrow> event_record \<Rightarrow> bool" where
  "unprocessed i e \<longleftrightarrow> event_id e = i \<and> event_processed_at e = None"

definition mark_event_processed :: "uuid \<Rightarrow> (db_error, bool) act" where
  "mark_event_processed i =
     and_then now_unix (\<lambda>now.
       sql (\<lambda>d. Inr (0 < rows_affected (unprocessed i) (t_events d),
         d\<lparr>t_events := update_where (unprocessed i) (\<lambda>e. e\<lparr>event_processed_at := Some now\<rparr>) (t_events d)\<rparr>)))"

section \<open>Notifications, watches and webhooks\<close>

definition notification_pending :: "uuid \<Rightarrow> notification_kind \<Rightarrow> notification_subject \<Rightarrow> db \<Rightarrow> bool" where
  "notification_pending u kind subject d =
     list_ex (\<lambda>n. notification_user_id n = u \<and> notification_kind n = kind
                \<and> notification_subject n = subject \<and> notification_read_at n = None) (t_notifications d)"

definition insert_notification_row :: "notification \<Rightarrow> db \<Rightarrow> db_error + (unit \<times> db)" where
  "insert_notification_row n d =
     (if list_ex (\<lambda>x. notification_id x = notification_id n) (t_notifications d) then Inl UniqueViolation
      else if user_by_id (notification_user_id n) d = None then Inl ForeignKeyViolation
      else Inr ((), d\<lparr>t_notifications := t_notifications d @ [n]\<rparr>))"

definition notification_insert_if_new ::
  "uuid \<Rightarrow> uuid \<Rightarrow> notification_kind \<Rightarrow> notification_subject \<Rightarrow> (db_error, bool) act" where
  "notification_insert_if_new i u kind subject =
     and_then (select (notification_pending u kind subject)) (\<lambda>existing.
       if existing then ok False
       else and_then now_unix (\<lambda>now.
         and_then (sql (insert_notification_row
             \<lparr>notification_id = i, notification_user_id = u, notification_kind = kind,
              notification_subject = subject, notification_read_at = None,
              notification_created_at = now\<rparr>)) (\<lambda>_. ok True)))"

definition notifications_of :: "uuid \<Rightarrow> db \<Rightarrow> notification list" where
  "notifications_of u d =
     sort_key (\<lambda>n. - notification_created_at n) (filter (\<lambda>n. notification_user_id n = u) (t_notifications d))"

definition unread_count :: "uuid \<Rightarrow> db \<Rightarrow> nat" where
  "unread_count u d =
     rows_affected (\<lambda>n. notification_user_id n = u \<and> notification_read_at n = None) (t_notifications d)"

definition unread_by :: "uuid \<Rightarrow> uuid \<Rightarrow> notification \<Rightarrow> bool" where
  "unread_by u i n \<longleftrightarrow> notification_id n = i \<and> notification_user_id n = u \<and> notification_read_at n = None"

definition mark_read :: "uuid \<Rightarrow> uuid \<Rightarrow> (db_error, bool) act" where
  "mark_read u i =
     and_then now_unix (\<lambda>now.
       sql (\<lambda>d. Inr (0 < rows_affected (unread_by u i) (t_notifications d),
         d\<lparr>t_notifications := update_where (unread_by u i)
              (\<lambda>n. n\<lparr>notification_read_at := Some now\<rparr>) (t_notifications d)\<rparr>)))"

definition watched_by :: "uuid \<Rightarrow> watch_subject \<Rightarrow> watch \<Rightarrow> bool" where
  "watched_by u subject x \<longleftrightarrow> watch_user_id x = u \<and> watch_subject x = subject"

definition watch_row :: "watch \<Rightarrow> db \<Rightarrow> db_error + (unit \<times> db)" where
  "watch_row x d =
     (if list_ex (watched_by (watch_user_id x) (watch_subject x)) (t_watches d)
      then Inr ((), d\<lparr>t_watches := update_where (watched_by (watch_user_id x) (watch_subject x))
             (\<lambda>y. y\<lparr>watch_level := watch_level x\<rparr>) (t_watches d)\<rparr>)
      else if list_ex (\<lambda>y. watch_id y = watch_id x) (t_watches d) then Inl UniqueViolation
      else if user_by_id (watch_user_id x) d = None then Inl ForeignKeyViolation
      else Inr ((), d\<lparr>t_watches := t_watches d @ [x]\<rparr>))"

definition watch_set :: "uuid \<Rightarrow> uuid \<Rightarrow> watch_subject \<Rightarrow> watch_level \<Rightarrow> (db_error, unit) act" where
  "watch_set i u subject level =
     and_then now_unix (\<lambda>now.
       sql (watch_row \<lparr>watch_id = i, watch_user_id = u, watch_subject = subject, watch_level = level,
                       watch_created_at = now\<rparr>))"

definition watch_clear :: "uuid \<Rightarrow> watch_subject \<Rightarrow> (db_error, bool) act" where
  "watch_clear u subject =
     sql (\<lambda>d. Inr (0 < rows_affected (watched_by u subject) (t_watches d),
                  d\<lparr>t_watches := delete_where (watched_by u subject) (t_watches d)\<rparr>))"

definition watch_get :: "uuid \<Rightarrow> watch_subject \<Rightarrow> db \<Rightarrow> watch_level option" where
  "watch_get u subject d = map_option watch_level (find (watched_by u subject) (t_watches d))"

definition watchers_of :: "watch_subject \<Rightarrow> db \<Rightarrow> watch list" where
  "watchers_of subject d = filter (\<lambda>x. watch_subject x = subject) (t_watches d)"

definition webhooks_of :: "uuid \<Rightarrow> db \<Rightarrow> webhook list" where
  "webhooks_of rid d =
     sort_key (\<lambda>x. - webhook_created_at x) (filter (\<lambda>x. webhook_repository_id x = rid) (t_webhooks d))"

definition find_subscribed :: "uuid \<Rightarrow> webhook_event \<Rightarrow> db \<Rightarrow> webhook list" where
  "find_subscribed rid event d = filter (\<lambda>x. is_subscribed_to x event) (webhooks_of rid d)"

section \<open>One label per scope\<close>

lemma set_labels_on:
  "set (labels_on i d) = {x \<in> set (t_labels d). (i, label_id x) \<in> set (t_issue_labels d)}"
  by (force simp: labels_on_def split: if_splits)

lemma in_stale:
  "s \<in> set (labels_to_unapply_for_scope ls l) \<longleftrightarrow> s \<in> set ls \<and> label_id s \<noteq> label_id l
     \<and> scope_of (label_name l) \<noteq> None \<and> scope_of (label_name s) = scope_of (label_name l)"
  by (cases "scope_of (label_name l)") (auto simp: labels_to_unapply_for_scope_def)

lemma for_each_unapply:
  "for_each ls (\<lambda>s. execute (unapply i (label_id s))) w = (Inr u, w') \<Longrightarrow>
     tables w' = tables w\<lparr>t_issue_labels :=
       filter (\<lambda>x. x \<notin> (\<lambda>s. (i, label_id s)) ` set ls) (t_issue_labels (tables w))\<rparr>"
proof (induction ls arbitrary: w)
  case (Cons s ls)
  then obtain v w1 where first: "execute (unapply i (label_id s)) w = (Inr v, w1)"
    and rest: "for_each ls (\<lambda>s. execute (unapply i (label_id s))) w1 = (Inr u, w')"
    by (auto simp: act_simps)
  have "tables w1 = unapply i (label_id s) (tables w)" using execute_Inr [OF first] by simp
  with Cons.IH [OF rest] show ?case
    by (simp add: unapply_def delete_where_def)
qed (simp add: act_simps)

lemma apply_to_issue_effect:
  assumes run: "apply_to_issue i l w = (Inr u, w')"
  shows "t_labels (tables w') = t_labels (tables w)"
    "set (t_issue_labels (tables w')) =
       insert (i, label_id l) (set (t_issue_labels (tables w))
         - (\<lambda>s. (i, label_id s)) ` set (labels_to_unapply_for_scope (labels_on i (tables w)) l))"
proof -
  define stale where "stale = labels_to_unapply_for_scope (labels_on i (tables w)) l"
  obtain w1 w2 where w1: "tables w1 = tables w" and w': "tables w' = tables w2" and
    body: "and_then (select (labels_on i)) (\<lambda>currently_applied.
          and_then (for_each (labels_to_unapply_for_scope currently_applied l)
              (\<lambda>stale. execute (unapply i (label_id stale))))
            (\<lambda>_. sql (apply_row i (label_id l)))) w1 = (Inr u, w2)"
    using run unfolding apply_to_issue_def by (auto elim: transaction_Inr)
  then obtain ls w3 v w4 where sel: "select (labels_on i) w1 = (Inr ls, w3)"
    and loop: "for_each (labels_to_unapply_for_scope ls l) (\<lambda>s. execute (unapply i (label_id s))) w3 = (Inr v, w4)"
    and ins: "sql (apply_row i (label_id l)) w4 = (Inr u, w2)"
    by (auto simp: act_simps)
  have "ls = labels_on i (tables w)" "tables w3 = tables w"
    using select_Inr [OF sel] w1 by simp_all
  then have w4: "tables w4 = tables w\<lparr>t_issue_labels :=
       filter (\<lambda>x. x \<notin> (\<lambda>s. (i, label_id s)) ` set stale) (t_issue_labels (tables w))\<rparr>"
    using for_each_unapply [OF loop] by (simp add: stale_def)
  show "t_labels (tables w') = t_labels (tables w)"
    using ins w4 w' by (auto simp: sql_def Let_def apply_row_def split: if_splits)
  show "set (t_issue_labels (tables w')) =
       insert (i, label_id l) (set (t_issue_labels (tables w)) - (\<lambda>s. (i, label_id s)) ` set stale)"
    using ins w4 w' by (auto simp: sql_def Let_def apply_row_def split: if_splits)
qed

lemma set_labels_after_apply:
  assumes run: "apply_to_issue i l w = (Inr u, w')" and l: "l \<in> set (t_labels (tables w))"
    and ids: "distinct (map label_id (t_labels (tables w)))"
  shows "set (labels_on i (tables w')) =
     insert l {x \<in> set (labels_on i (tables w)).
       scope_of (label_name l) = None \<or> scope_of (label_name x) \<noteq> scope_of (label_name l)}"
    and "j \<noteq> i \<Longrightarrow> set (labels_on j (tables w')) = set (labels_on j (tables w))"
proof -
  note effect = apply_to_issue_effect [OF run]
  have same: "x = y" if "x \<in> set (t_labels (tables w))" "y \<in> set (t_labels (tables w))" "label_id x = label_id y" for x y
    using ids that by (auto simp: distinct_map inj_on_def)
  have stale: "(\<exists>s\<in>set (labels_to_unapply_for_scope (labels_on i (tables w)) l). label_id x = label_id s) \<longleftrightarrow>
      x \<noteq> l \<and> scope_of (label_name l) \<noteq> None \<and> scope_of (label_name x) = scope_of (label_name l)"
    if x: "x \<in> set (labels_on i (tables w))" for x
  proof -
    have xl: "label_id x = label_id l \<longleftrightarrow> x = l" using same [of x l] x l unfolding set_labels_on by blast
    have sx: "s = x" if "s \<in> set (labels_on i (tables w))" "label_id x = label_id s" for s
    proof -
      have "x \<in> set (t_labels (tables w))" "s \<in> set (t_labels (tables w))"
        using x that(1) by (simp_all add: set_labels_on)
      from same [OF this that(2)] show "s = x" by (rule sym)
    qed
    show ?thesis
    proof
      assume "\<exists>s\<in>set (labels_to_unapply_for_scope (labels_on i (tables w)) l). label_id x = label_id s"
      then obtain s where s: "s \<in> set (labels_to_unapply_for_scope (labels_on i (tables w)) l)"
        "label_id x = label_id s" by blast
      from s(1) have "s \<in> set (labels_on i (tables w))" by (simp add: in_stale)
      from sx [OF this s(2)] s(1) show "x \<noteq> l \<and> scope_of (label_name l) \<noteq> None
          \<and> scope_of (label_name x) = scope_of (label_name l)" by (auto simp: in_stale)
    next
      assume "x \<noteq> l \<and> scope_of (label_name l) \<noteq> None \<and> scope_of (label_name x) = scope_of (label_name l)"
      then have "x \<in> set (labels_to_unapply_for_scope (labels_on i (tables w)) l)"
        using x xl by (simp add: in_stale)
      then show "\<exists>s\<in>set (labels_to_unapply_for_scope (labels_on i (tables w)) l). label_id x = label_id s"
        by blast
    qed
  qed
  show "set (labels_on i (tables w')) =
     insert l {x \<in> set (labels_on i (tables w)).
       scope_of (label_name l) = None \<or> scope_of (label_name x) \<noteq> scope_of (label_name l)}"
    (is "?L = ?R")
  proof (rule set_eqI)
    fix x
    have "x \<in> ?L \<longleftrightarrow> x \<in> set (t_labels (tables w)) \<and> (x = l \<or> (x \<in> set (labels_on i (tables w))
        \<and> \<not> (\<exists>s\<in>set (labels_to_unapply_for_scope (labels_on i (tables w)) l). label_id x = label_id s)))"
      using l same [of x l] by (auto simp: set_labels_on effect image_iff)
    also have "\<dots> \<longleftrightarrow> x \<in> ?R" using stale [of x] l by (auto simp: set_labels_on)
    finally show "x \<in> ?L \<longleftrightarrow> x \<in> ?R" .
  qed
  show "set (labels_on j (tables w')) = set (labels_on j (tables w))" if "j \<noteq> i"
    using that by (auto simp: set_labels_on effect)
qed

text \<open>Applying a label keeps at most one label of a scope on an issue. Starting from an issue with
  at most one label per scope, after \<^verbatim>\<open>apply_to_issue\<close> that is still so, whether the call succeeded or
  any of its statements failed. On success the issue carries the label and otherwise exactly what it
  carried before outside the label's scope; on failure nothing changed; and no other issue's labels
  changed.\<close>

theorem apply_to_issue_one_per_scope:
  assumes "apply_to_issue i l w = (r, w')" "l \<in> set (t_labels (tables w))"
    "distinct (map label_id (t_labels (tables w)))" "one_label_per_scope (labels_on i (tables w))"
  shows "one_label_per_scope (labels_on i (tables w'))
    \<and> (if isl r then tables w' = tables w
       else set (labels_on i (tables w')) =
         insert l {x \<in> set (labels_on i (tables w)).
           scope_of (label_name l) = None \<or> scope_of (label_name x) \<noteq> scope_of (label_name l)})
    \<and> (j \<noteq> i \<longrightarrow> set (labels_on j (tables w')) = set (labels_on j (tables w)))"
proof (cases r)
  case (Inl e)
  then have "tables w' = tables w"
    using assms(1) transaction_Inl unfolding apply_to_issue_def by fastforce
  then show ?thesis using assms(4) Inl by simp
next
  case (Inr u)
  note after = set_labels_after_apply [OF assms(1) [unfolded Inr] assms(2,3)]
  have "one_label_per_scope (labels_on i (tables w'))"
    unfolding one_label_per_scope_def after(1)
  proof (intro ballI impI)
    let ?new = "insert l {x \<in> set (labels_on i (tables w)).
       scope_of (label_name l) = None \<or> scope_of (label_name x) \<noteq> scope_of (label_name l)}"
    fix a b assume "a \<in> ?new" "b \<in> ?new" "scope_of (label_name a) = scope_of (label_name b)"
      "scope_of (label_name a) \<noteq> None"
    then consider "a = l" "b = l" | "a \<in> set (labels_on i (tables w))" "b \<in> set (labels_on i (tables w))"
      by fastforce
    then show "label_id a = label_id b"
    proof cases
      case 2
      then show ?thesis
        using assms(4) \<open>scope_of (label_name a) = scope_of (label_name b)\<close> \<open>scope_of (label_name a) \<noteq> None\<close>
        unfolding one_label_per_scope_def by blast
    qed simp
  qed
  then show ?thesis using after Inr by simp
qed

definition label_world :: world where
  "label_world =
     \<lparr>tables = empty_db\<lparr>
        t_labels := [\<lparr>label_id = 1, label_repository_id = 1, label_name = ''kind/bug'', label_color = ''f00'',
                      label_description = None, label_archived_at = None\<rparr>,
                     \<lparr>label_id = 2, label_repository_id = 1, label_name = ''kind/task'', label_color = ''0f0'',
                      label_description = None, label_archived_at = None\<rparr>],
        t_issues := [\<lparr>issue_id = 9, issue_repository_id = 1, issue_number = 1, issue_title = ''t'', issue_body = None,
                      issue_author_id = 1, issue_state = IssueOpen, issue_milestone_id = None, issue_created_at = 0\<rparr>],
        t_issue_labels := [(9, 1)]\<rparr>,
      statement_fails = [], clock = 5, next_uuid = 100, git_calls = []\<rparr>"

theorem apply_to_issue_one_per_scope_witness:
  "one_label_per_scope (labels_on 9 (tables (snd (apply_to_issue 9 (t_labels (tables label_world) ! 1) label_world))))
   \<and> fst (apply_to_issue 9 (t_labels (tables label_world) ! 1) label_world) = Inr ()"
proof -
  let ?l = "t_labels (tables label_world) ! 1"
  have run: "fst (apply_to_issue 9 ?l label_world) = Inr ()" by code_simp
  have "?l \<in> set (t_labels (tables label_world))" "distinct (map label_id (t_labels (tables label_world)))"
    by (simp_all add: label_world_def)
  moreover have "one_label_per_scope (labels_on 9 (tables label_world))" by code_simp
  ultimately show ?thesis
    using apply_to_issue_one_per_scope [OF surjective_pairing] run by blast
qed

end
