(* ===== verification/Outbox.thy ===== *)
theory Outbox
  imports Access_Services Issue_Store Job_Queue
begin

text \<open>
  From the outbox to the job queue (\<^verbatim>\<open>edda-jobs/src/dispatcher.rs\<close> and \<^verbatim>\<open>record_push\<close> of
  \<^verbatim>\<open>edda-jobs/src/lib.rs\<close>): what each event fans out to, and the transaction that claims an event and
  enqueues its jobs together. \<^verbatim>\<open>render\<close> is \<^verbatim>\<open>serde_json\<close>'s text of a value, a parameter; ids are
  shown as decimal digits.
\<close>

section \<open>Recipients\<close>

definition release_by_id :: "uuid \<Rightarrow> db \<Rightarrow> release option" where
  "release_by_id i d = find (\<lambda>r. release_id r = i) (t_releases d)"

definition email_notifications_enabled :: "uuid \<Rightarrow> db \<Rightarrow> bool" where
  "email_notifications_enabled u d =
     (case user_by_id u d of None \<Rightarrow> True | Some x \<Rightarrow> user_email_notifications x)"

definition owner_display_name :: "repository_owner \<Rightarrow> (db_error, string) act" where
  "owner_display_name owner =
     (case owner of
        OwnerUser i \<Rightarrow> and_then (select (user_by_id i)) (\<lambda>u.
          ok (case u of None \<Rightarrow> show_nat i | Some x \<Rightarrow> user_username x))
      | OwnerOrganization i \<Rightarrow> and_then (select (org_by_id i)) (\<lambda>g.
          ok (case g of None \<Rightarrow> show_nat i | Some x \<Rightarrow> org_name x)))"

text \<open>\<^verbatim>\<open>.await.ok().flatten()\<close> and \<^verbatim>\<open>.unwrap_or(true)\<close>: a query whose failure counts as an answer.\<close>

definition or_else :: "'a \<Rightarrow> (db_error, 'a) act \<Rightarrow> (db_error, 'a) act" where
  "or_else fallback q = and_then (outcome q) (\<lambda>r. ok (case r of Inl _ \<Rightarrow> fallback | Inr x \<Rightarrow> x))"

definition at_name :: "user option \<Rightarrow> string" where
  "at_name u = (case u of None \<Rightarrow> ''Someone'' | Some x \<Rightarrow> CHR ''@'' # user_username x)"

definition notify ::
  "uuid \<Rightarrow> uuid option \<Rightarrow> notification_kind \<Rightarrow> notification_subject \<Rightarrow> string \<Rightarrow> string
     \<Rightarrow> (db_error, job_payload list) act" where
  "notify recipient actor kind subject email_subject action =
     and_then (or_else True (select (email_notifications_enabled recipient))) (\<lambda>enabled.
       if \<not> enabled then ok [CreateNotification recipient kind subject]
       else
         and_then (or_else None (select (user_by_id recipient))) (\<lambda>found.
           case found of
             None \<Rightarrow> ok [CreateNotification recipient kind subject]
           | Some u \<Rightarrow>
               and_then (case actor of
                   None \<Rightarrow> ok ''Someone''
                 | Some a \<Rightarrow> and_then (or_else None (select (user_by_id a))) (\<lambda>x. ok (at_name x))) (\<lambda>by.
                 ok [CreateNotification recipient kind subject,
                     SendEmail (user_email u) email_subject (by @ '' '' @ action @ ''.'')])))"

definition recipients_of :: "watch list \<Rightarrow> uuid option \<Rightarrow> uuid list \<Rightarrow> uuid list" where
  "recipients_of watches actor involved =
     (let ignoring = map watch_user_id (filter (\<lambda>w. watch_level w = Ignoring) watches);
          watching = map watch_user_id (filter (\<lambda>w. watch_level w = Watching) watches)
      in remdups_adj (sort (filter (\<lambda>u. Some u \<noteq> actor \<and> u \<notin> set ignoring) (watching @ involved))))"

definition notify_watchers ::
  "uuid \<Rightarrow> notification_subject \<Rightarrow> notification_kind \<Rightarrow> uuid option \<Rightarrow> uuid list \<Rightarrow> string \<Rightarrow> string
     \<Rightarrow> (db_error, job_payload list) act" where
  "notify_watchers rid subject kind actor involved email_subject action =
     and_then (select (watchers_of (WsRepository rid))) (\<lambda>watches.
       collect (recipients_of watches actor involved) (\<lambda>u. notify u actor kind subject email_subject action))"

section \<open>Fan-out\<close>

definition deliveries :: "webhook list \<Rightarrow> webhook_event \<Rightarrow> string \<Rightarrow> job_payload list" where
  "deliveries hooks event payload_json = map (\<lambda>h. DeliverWebhook (webhook_id h) event payload_json) hooks"

definition json_repository :: "string \<Rightarrow> repository \<Rightarrow> json" where
  "json_repository owner r = JObj [(''owner'', JStr owner), (''name'', JStr (repo_name r))]"

definition issue_activity ::
  "(json \<Rightarrow> string) \<Rightarrow> uuid \<Rightarrow> uuid \<Rightarrow> uuid \<Rightarrow> webhook_event \<Rightarrow> string \<Rightarrow> (notification_kind \<times> string) option
     \<Rightarrow> (db_error, job_payload list) act" where
  "issue_activity render i rid actor event action notification =
     and_then (select (issue_by_id i)) (\<lambda>found_issue.
       and_then (select (repo_by_id rid)) (\<lambda>found_repo.
         case (found_issue, found_repo) of
           (Some issue, Some r) \<Rightarrow>
             and_then (owner_display_name (repo_owner r)) (\<lambda>owner.
               and_then (select (find_subscribed rid event)) (\<lambda>hooks.
                 and_then (case notification of
                     None \<Rightarrow> ok []
                   | Some (kind, email_subject) \<Rightarrow>
                       and_then (select (assignees_of i)) (\<lambda>assignees.
                         notify_watchers rid (NsIssue i) kind (Some actor) (assignees @ [issue_author_id issue])
                           email_subject (action @ '' issue #'' @ show_int (issue_number issue) @ '': ''
                             @ issue_title issue))) (\<lambda>notes.
                   ok (deliveries hooks event (render (JObj
                         [(''action'', JStr action), (''repository'', json_repository owner r),
                          (''issue'', JObj [(''number'', JNum (issue_number issue)),
                                            (''title'', JStr (issue_title issue))])])) @ notes))))
         | _ \<Rightarrow> ok []))"

definition json_pull_request :: "pull_request \<Rightarrow> json" where
  "json_pull_request pr = JObj [(''number'', JNum (pr_number pr)), (''title'', JStr (pr_title pr))]"

definition pr_activity ::
  "(json \<Rightarrow> string) \<Rightarrow> uuid \<Rightarrow> uuid \<Rightarrow> uuid \<Rightarrow> webhook_event option \<Rightarrow> string \<Rightarrow> (notification_kind \<times> string) option
     \<Rightarrow> (db_error, job_payload list) act" where
  "pr_activity render i rid actor event action notification =
     and_then (select (pr_by_id i)) (\<lambda>found_pr.
       and_then (select (repo_by_id rid)) (\<lambda>found_repo.
         case (found_pr, found_repo) of
           (Some pr, Some r) \<Rightarrow>
             and_then (owner_display_name (repo_owner r)) (\<lambda>owner.
               and_then (case event of
                   None \<Rightarrow> ok []
                 | Some event \<Rightarrow>
                     and_then (select (find_subscribed rid event)) (\<lambda>hooks.
                       ok (deliveries hooks event (render (JObj
                         [(''action'', JStr action), (''repository'', json_repository owner r),
                          (''pull_request'', json_pull_request pr)]))))) (\<lambda>hook_jobs.
                 and_then (case notification of
                     None \<Rightarrow> ok []
                   | Some (kind, email_subject) \<Rightarrow>
                       notify_watchers rid (NsPullRequest i) kind (Some actor) [pr_author_id pr] email_subject
                         (action @ '' pull request #'' @ show_int (pr_number pr) @ '': '' @ pr_title pr)) (\<lambda>notes.
                   ok (hook_jobs @ notes))))
         | _ \<Rightarrow> ok []))"

definition release_activity ::
  "(json \<Rightarrow> string) \<Rightarrow> uuid \<Rightarrow> uuid \<Rightarrow> uuid \<Rightarrow> (db_error, job_payload list) act" where
  "release_activity render i rid actor =
     and_then (select (release_by_id i)) (\<lambda>found_release.
       and_then (select (repo_by_id rid)) (\<lambda>found_repo.
         case (found_release, found_repo) of
           (Some rel, Some r) \<Rightarrow>
             and_then (owner_display_name (repo_owner r)) (\<lambda>owner.
               and_then (select (find_subscribed rid WhReleasePublished)) (\<lambda>hooks.
                 and_then (notify_watchers rid (NsRelease i) NReleasePublished (Some actor)
                     [release_author_id rel] ''A new release was published''
                     (''published release '' @ release_tag_name rel)) (\<lambda>notes.
                   ok (deliveries hooks WhReleasePublished (render (JObj
                         [(''action'', JStr ''published''), (''repository'', json_repository owner r),
                          (''release'', JObj [(''tag_name'', JStr (release_tag_name rel)),
                                              (''name'', JStr (release_name rel))])])) @ notes))))
         | _ \<Rightarrow> ok []))"

definition zero_hex :: string where
  "zero_hex = replicate 40 (CHR ''0'')"

definition strip_heads :: "string \<Rightarrow> string" where
  "strip_heads r = (if take 11 r = ''refs/heads/'' then drop 11 r else r)"

definition dismiss_if_stale :: "pull_request \<Rightarrow> (db_error, unit) act" where
  "dismiss_if_stale pr =
     and_then (find_matching (pr_repository_id pr) (pr_target pr)) (\<lambda>rule.
       case rule of
         None \<Rightarrow> ok ()
       | Some rule \<Rightarrow>
           if dismiss_stale_reviews rule
           then and_then (dismiss_all_for_pull_request (pr_id pr)) (\<lambda>_. ok ())
           else ok ())"

definition fan_out_branch_pushed ::
  "(json \<Rightarrow> string) \<Rightarrow> uuid \<Rightarrow> string \<Rightarrow> string \<Rightarrow> string \<Rightarrow> (db_error, job_payload list) act" where
  "fan_out_branch_pushed render rid ref_name old new =
     and_then (select (open_with_source_branch rid (strip_heads ref_name))) (\<lambda>prs.
       and_then (if new = zero_hex then ok () else for_each prs dismiss_if_stale) (\<lambda>_.
         and_then (select (find_subscribed rid WhPush)) (\<lambda>hooks.
           if hooks = [] then ok []
           else
             and_then (select (repo_by_id rid)) (\<lambda>found.
               case found of
                 None \<Rightarrow> ok []
               | Some r \<Rightarrow>
                   and_then (owner_display_name (repo_owner r)) (\<lambda>owner.
                     ok (deliveries hooks WhPush (render (JObj
                       [(''action'', JStr (if old = zero_hex then ''created''
                                           else if new = zero_hex then ''deleted'' else ''updated'')),
                        (''ref'', JStr ref_name), (''before'', JStr old), (''after'', JStr new),
                        (''repository'', json_repository owner r)]))))))))"

definition fan_out_merged :: "(json \<Rightarrow> string) \<Rightarrow> uuid \<Rightarrow> uuid \<Rightarrow> (db_error, job_payload list) act" where
  "fan_out_merged render i rid =
     and_then (select (find_subscribed rid WhPullRequestMerged)) (\<lambda>hooks.
       and_then (select (pr_by_id i)) (\<lambda>found_pr.
         and_then (select (repo_by_id rid)) (\<lambda>found_repo.
           case (found_pr, found_repo) of
             (Some pr, Some r) \<Rightarrow>
               and_then (owner_display_name (repo_owner r)) (\<lambda>owner.
                 and_then (notify_watchers rid (NsPullRequest i) NPrMerged None [pr_author_id pr]
                     ''A pull request you follow was merged''
                     (''merged pull request #'' @ show_int (pr_number pr) @ '': '' @ pr_title pr)) (\<lambda>notes.
                   ok (deliveries hooks WhPullRequestMerged (render (JObj
                         [(''action'', JStr ''merged''), (''repository'', json_repository owner r),
                          (''pull_request'', json_pull_request pr)])) @ notes)))
           | _ \<Rightarrow> ok [])))"

fun mention_subject :: "mention_source \<Rightarrow> notification_subject" where
  "mention_subject (MentionInPullRequest i) = NsPullRequest i"
| "mention_subject (MentionInIssue i) = NsIssue i"

definition fan_out_mention :: "uuid \<Rightarrow> uuid \<Rightarrow> mention_source \<Rightarrow> (db_error, job_payload list) act" where
  "fan_out_mention mentioned by source =
     and_then (or_else True (select (email_notifications_enabled mentioned))) (\<lambda>enabled.
       if \<not> enabled then ok [CreateNotification mentioned NMention (mention_subject source)]
       else
         and_then (select (user_by_id mentioned)) (\<lambda>found.
           case found of
             None \<Rightarrow> ok [CreateNotification mentioned NMention (mention_subject source)]
           | Some u \<Rightarrow>
               and_then (select (user_by_id by)) (\<lambda>author.
                 ok [CreateNotification mentioned NMention (mention_subject source),
                     SendEmail (user_email u) ''You were mentioned on Edda''
                       (at_name author @ '' mentioned you in a comment.'')])))"

primrec fan_out :: "(json \<Rightarrow> string) \<Rightarrow> domain_event \<Rightarrow> (db_error, job_payload list) act" where
  "fan_out render (EvPullRequestMerged i rid) = fan_out_merged render i rid"
| "fan_out render (EvUserMentioned mentioned by source) = fan_out_mention mentioned by source"
| "fan_out render (EvBranchPushed rid ref_name old new _) = fan_out_branch_pushed render rid ref_name old new"
| "fan_out render (EvIssueAssigned i _ assignee by) =
     and_then (select (issue_by_id i)) (\<lambda>found.
       (case (case found of None \<Rightarrow> (0, []) | Some x \<Rightarrow> (issue_number x, issue_title x)) of (number, title) \<Rightarrow>
          notify assignee (Some by) NIssueAssigned (NsIssue i) ''You were assigned an issue on Edda''
            (''assigned you issue #'' @ show_int number @ '': '' @ title)))"
| "fan_out render (EvReviewRequested i _ reviewer by) =
     and_then (select (pr_by_id i)) (\<lambda>found.
       notify reviewer (Some by) NPrReviewRequested (NsPullRequest i) ''Your review was requested on Edda''
         (''requested your review on pull request #''
          @ show_int (case found of None \<Rightarrow> 0 | Some pr \<Rightarrow> pr_number pr)))"
| "fan_out render (EvIssueOpened i rid by) = issue_activity render i rid by WhIssueOpened ''opened'' None"
| "fan_out render (EvIssueCommented i rid by) =
     issue_activity render i rid by WhIssueCommented ''commented on'' None"
| "fan_out render (EvIssueClosed i rid by via) =
     and_then (case via of
         None \<Rightarrow> ok []
       | Some pid \<Rightarrow> and_then (select (pr_by_id pid)) (\<lambda>found.
           ok (case found of None \<Rightarrow> [] | Some pr \<Rightarrow> '' via pull request #'' @ show_int (pr_number pr)))) (\<lambda>how.
       issue_activity render i rid by WhIssueClosed (''closed'' @ how)
         (Some (NIssueClosed, ''An issue you follow was closed'')))"
| "fan_out render (EvPullRequestOpened i rid by) = pr_activity render i rid by (Some WhPullRequestOpened) ''opened'' None"
| "fan_out render (EvPullRequestClosed i rid by) =
     pr_activity render i rid by (Some WhPullRequestClosed) ''closed''
       (Some (NPrClosed, ''A pull request you follow was closed''))"
| "fan_out render (EvPullRequestReopened i rid by) =
     pr_activity render i rid by (Some WhPullRequestReopened) ''reopened'' None"
| "fan_out render (EvPullRequestReviewSubmitted i rid by state) =
     pr_activity render i rid by (Some WhPullRequestReviewSubmitted)
       (''submitted a '' @ review_state_as_db_str state @ '' review on'') None"
| "fan_out render (EvReleasePublished i rid by) = release_activity render i rid by"

section \<open>Dispatching\<close>

text \<open>\<^verbatim>\<open>Ok(())\<close> without a claim rolls the transaction back; nothing was written, so the model commits.\<close>

definition process_one :: "(json \<Rightarrow> string) \<Rightarrow> event_record \<Rightarrow> (db_error, unit) act" where
  "process_one render rec =
     and_then (fan_out render (event_payload rec)) (\<lambda>payloads.
       transaction (\<lambda>e. e)
         (and_then (mark_event_processed (event_id rec)) (\<lambda>claimed.
            if \<not> claimed then ok () else for_each payloads jobs_enqueue)))"

text \<open>One turn of the dispatcher: a failed read or a failed event is logged and left for the next.\<close>

definition dispatcher_tick :: "(json \<Rightarrow> string) \<Rightarrow> nat \<Rightarrow> (db_error, unit) act" where
  "dispatcher_tick render batch_size =
     and_then (or_else [] (select (fetch_unprocessed batch_size))) (\<lambda>batch.
       for_each batch (\<lambda>rec. and_then (outcome (process_one render rec)) (\<lambda>_. ok ())))"

section \<open>Recording a push\<close>

type_synonym updated_ref = "string \<times> string \<times> string"

definition sync_targets :: "uuid \<Rightarrow> updated_ref \<Rightarrow> (db_error, uuid list) act" where
  "sync_targets rid r =
     (case r of (ref_name, old, new) \<Rightarrow>
        if new = zero_hex then ok []
        else and_then (select (open_with_source_branch rid (strip_heads ref_name))) (\<lambda>prs. ok (map pr_id prs)))"

definition record_push :: "uuid \<Rightarrow> uuid option \<Rightarrow> updated_ref list \<Rightarrow> (db_error, unit) act" where
  "record_push rid pusher updated_refs =
     (let branch_refs = filter (\<lambda>(name, _, _). take 11 name = ''refs/heads/'') updated_refs
      in if branch_refs = [] then ok ()
         else
           and_then (collect branch_refs (sync_targets rid)) (\<lambda>targets.
             transaction (\<lambda>e. e)
               (and_then (for_each branch_refs (\<lambda>(name, old, new).
                   append_event (EvBranchPushed rid name old new pusher))) (\<lambda>_.
                 and_then (jobs_enqueue (UpdateRepoSize rid)) (\<lambda>_.
                   for_each targets (\<lambda>i. jobs_enqueue (SyncReviewRequests i)))))))"

end
