(* ===== verification/Git_Access.thy ===== *)
theory Git_Access
  imports Ssh_Keys Receive Pack_Format Outbox
begin

text \<open>
  The two transports of the git protocol: smart HTTP (\<^verbatim>\<open>edda-app/src/git_http/mod.rs\<close>) and SSH
  (\<^verbatim>\<open>edda-ssh/src/command.rs\<close>, \<^verbatim>\<open>handler.rs\<close>), with the entry points of \<^verbatim>\<open>edda-git/src/protocol.rs\<close>
  and \<^verbatim>\<open>lib.rs\<close> they share. A transport authenticates, asks the authorization service, runs one half of
  the protocol on a repository's directory and records what a push moved. The state is a \<open>host\<close>: the
  world with its tables, and the directories by repository identity. Base64 decoding, the libraries
  behind objects and keys, and what may go wrong in the file system are fields of \<open>git_server\<close>.
\<close>

section \<open>Repositories on disk\<close>

type_synonym 'o disk = "string \<Rightarrow> 'o git_dir option"

record 'o host =
  h_world :: world
  h_disk :: "'o disk"

record 'o git_server =
  srv_auth :: auth_env
  srv_keys :: key_lib
  srv_basic :: "string \<Rightarrow> string option"
  srv_git :: "'o receive_env"
  srv_codec :: codec
  srv_open_fails :: "string \<Rightarrow> string option"

definition validated_repo_dir :: "string \<Rightarrow> git_error + string" where
  "validated_repo_dir name = (if is_valid_repository_identity name then Inr name else Inl (GitInvalidName name))"

definition open_repo_dir :: "'o git_server \<Rightarrow> string \<Rightarrow> 'o disk \<Rightarrow> git_error + 'o git_dir" where
  "open_repo_dir srv name disk =
     (case validated_repo_dir name of
        Inl e \<Rightarrow> Inl e
      | Inr dir \<Rightarrow>
          (case disk dir of
             None \<Rightarrow> Inl (GitNotFound name)
           | Some g \<Rightarrow> (case srv_open_fails srv dir of Some e \<Rightarrow> Inl (GitGit e) | None \<Rightarrow> Inr g)))"

text \<open>The library peels a ref by following tags to the first object that is none; an annotated tag cannot
  refer to itself, so the number of objects bounds the walk.\<close>

fun peel :: "'o odb \<Rightarrow> nat \<Rightarrow> 'o \<Rightarrow> 'o option" where
  "peel db 0 i = None"
| "peel db (Suc n) i =
     (case find_object db i of
        None \<Rightarrow> None
      | Some (Tag_obj _ target) \<Rightarrow> peel db n target
      | Some (Broken_obj KTag _ _ _) \<Rightarrow> None
      | Some _ \<Rightarrow> Some i)"

definition peel_to_id :: "'o odb \<Rightarrow> 'o \<Rightarrow> 'o option" where
  "peel_to_id db i = peel db (Suc (length db)) i"

definition tags_prefix :: string where
  "tags_prefix = ''refs/tags/''"

text \<open>Refs are listed in the order of their names.\<close>

definition advertised_refs :: "'o receive_env \<Rightarrow> 'o git_dir \<Rightarrow> ('o \<times> string) list" where
  "advertised_refs env g =
     (let db = live_odb env g;
          refs = sort_key fst (gd_refs g);
          branches = List.map_filter (\<lambda>(n, i). map_option (\<lambda>s. (i, s)) (strip_prefix heads_prefix n)) refs;
          tags = List.map_filter (\<lambda>(n, i). Option.bind (strip_prefix tags_prefix n) (\<lambda>s.
                   map_option (\<lambda>peeled. (i, s, if peeled = i then None else Some peeled)) (peel_to_id db i))) refs;
          head_id = Option.bind (case gd_head g of HeadDetached i \<Rightarrow> Some i
                                              | HeadSymbolic n \<Rightarrow> map_of (gd_refs g) n) (peel_to_id db);
          head = (case head_id of
                    Some i \<Rightarrow> Some i
                  | None \<Rightarrow> Option.bind (pick_default_branch (map snd branches)) (\<lambda>chosen.
                              map_option fst (find (\<lambda>b. snd b = chosen) branches)))
      in (case head of None \<Rightarrow> [] | Some i \<Rightarrow> [(i, ''HEAD'')])
         @ map (\<lambda>(i, s). (i, heads_prefix @ s)) branches
         @ concat (map (\<lambda>(i, s, peeled). (i, tags_prefix @ s)
              # (case peeled of None \<Rightarrow> [] | Some c \<Rightarrow> [(c, tags_prefix @ s @ ''^{}'')])) tags))"

definition upload_pack_capabilities :: string where
  "upload_pack_capabilities = ''side-band-64k ofs-delta agent=edda/0.1.0''"

definition upload_pack_capabilities_stateless :: string where
  "upload_pack_capabilities_stateless = ''side-band-64k ofs-delta shallow agent=edda/0.1.0''"

definition receive_pack_capabilities :: string where
  "receive_pack_capabilities = ''report-status delete-refs ofs-delta agent=edda/0.1.0''"

definition build_ref_advertisement :: "'o git_server \<Rightarrow> string \<Rightarrow> string \<Rightarrow> 'o disk \<Rightarrow> git_error + string" where
  "build_ref_advertisement srv name caps disk =
     (case open_repo_dir srv name disk of
        Inl e \<Rightarrow> Inl e
      | Inr g \<Rightarrow>
          Inr (write_ref_advertisement []
            (map (\<lambda>(i, n). (id_to_hex (srv_git srv) i, n)) (advertised_refs (srv_git srv) g)) caps))"

definition fetch_pack :: "'o git_server \<Rightarrow> 'o git_dir \<Rightarrow> 'o upload_pack_request \<Rightarrow> git_error + built_pack" where
  "fetch_pack srv g request =
     (case build_shallow_pack (live_odb (srv_git srv) g) (wants request) (haves request)
            \<lparr>client_shallow = shallow request, spec_deepen = deepen request\<rparr> of
        Inl e \<Rightarrow> Inl e
      | Inr p \<Rightarrow>
          (case serialize_pack (srv_codec srv) (map (\<lambda>(_, ob). (object_kind ob, object_data ob)) (sp_objects p)) of
             Inl e \<Rightarrow> Inl e
           | Inr data \<Rightarrow>
               Inr \<lparr>built_data = data, new_shallow = map (id_to_hex (srv_git srv)) (sp_new_shallow p),
                    unshallow = map (id_to_hex (srv_git srv)) (sp_unshallow p)\<rparr>))"

definition serve_upload_pack :: "'o git_server \<Rightarrow> string \<Rightarrow> string \<Rightarrow> 'o disk \<Rightarrow> git_error + string" where
  "serve_upload_pack srv name body disk =
     (case open_repo_dir srv name disk of
        Inl e \<Rightarrow> Inl e
      | Inr g \<Rightarrow> run_upload_pack (hex_to_id (srv_git srv)) (fetch_pack srv g) body)"

definition serve_receive_pack ::
  "'o git_server \<Rightarrow> string \<Rightarrow> string \<Rightarrow> receive_checks \<Rightarrow> 'o disk \<Rightarrow> (git_error + receive_outcome) \<times> 'o disk" where
  "serve_receive_pack srv name body checks disk =
     (case validated_repo_dir name of
        Inl e \<Rightarrow> (Inl e, disk)
      | Inr dir \<Rightarrow>
          (case (disk dir, srv_open_fails srv dir) of
             (None, _) \<Rightarrow> (Inl (GitGit ''not a repository''), disk)
           | (Some g, Some e) \<Rightarrow> (Inl (GitGit e), disk)
           | (Some g, None) \<Rightarrow>
               (case run_receive_pack (srv_git srv) checks body g of (r, g') \<Rightarrow> (r, disk(dir \<mapsto> g')))))"

text \<open>The checks of a push when resolving them failed.\<close>

definition no_checks :: receive_checks where
  "no_checks = \<lparr>blocked_ref_patterns = [], linear_history_ref_patterns = [], signed_commit_ref_patterns = [],
     max_repo_bytes = None, current_repo_bytes = 0\<rparr>"

definition checks_or_default ::
  "actor_context \<Rightarrow> repository \<Rightarrow> int option \<Rightarrow> ('e, receive_checks) act" where
  "checks_or_default actor r limit =
     and_then (outcome (resolve_receive_checks actor r limit)) (\<lambda>res.
       ok (case res of Inl _ \<Rightarrow> no_checks | Inr checks \<Rightarrow> checks))"

definition record_applied ::
  "uuid \<Rightarrow> uuid option \<Rightarrow> receive_outcome \<Rightarrow> ('e, unit) act" where
  "record_applied rid pusher out =
     (if ro_applied out = [] then ok ()
      else and_then (outcome (record_push rid pusher (map (\<lambda>r. (ar_name r, ar_old r, ar_new r)) (ro_applied out))))
             (\<lambda>_ :: db_error + unit. ok ()))"

section \<open>Smart HTTP: who is asking\<close>

record git_config =
  gc_absolute_ttl :: int
  gc_require_signin_to_view :: bool
  gc_registration :: registration_policy
  gc_max_pack_bytes :: nat
  gc_max_repo_size_bytes :: "nat option"

text \<open>The session's user with the time of its login (absent also when the session store could not be
  read), and the bytes of the \<^verbatim>\<open>Authorization\<close> header.\<close>

record http_auth =
  ha_session :: "(uuid \<times> int option) option"
  ha_authorization :: "string option"

record http_reply =
  hr_status :: nat
  hr_headers :: "(string \<times> string) list"
  hr_body :: string

definition reply_with :: "nat \<Rightarrow> string \<Rightarrow> http_reply" where
  "reply_with status body = \<lparr>hr_status = status, hr_headers = [], hr_body = body\<rparr>"

definition unauthorized_response :: "string \<Rightarrow> http_reply" where
  "unauthorized_response message =
     \<lparr>hr_status = 401,
      hr_headers = [(''WWW-Authenticate'', ''Basic realm='' @ CHR 0x22 # ''edda'' @ [CHR 0x22])], hr_body = message\<rparr>"

definition not_found_response :: "string \<Rightarrow> string \<Rightarrow> http_reply" where
  "not_found_response owner repo =
     reply_with 404 (''no repository named '' @ CHR 0x22 # owner @ ''/'' @ repo @ [CHR 0x22])"

definition strip_suffix :: "string \<Rightarrow> string \<Rightarrow> string option" where
  "strip_suffix suf s = (if ends_with s suf then Some (take (length s - length suf) s) else None)"

definition repo_names :: "string \<Rightarrow> string \<Rightarrow> (string \<times> string) option" where
  "repo_names owner repo = map_option (\<lambda>name. (owner @ ''/'' @ name, name)) (strip_suffix ''.git'' repo)"

definition read_body_capped :: "string \<Rightarrow> nat \<Rightarrow> (http_reply, string) act" where
  "read_body_capped body limit =
     (if limit < length body
      then err (reply_with 413 (''request body rejected (limit '' @ show_nat limit @ '' bytes)''))
      else ok body)"

text \<open>The header must be visible ASCII, its payload text; the first colon separates the fields.\<close>

definition basic_credentials :: "(string \<Rightarrow> string option) \<Rightarrow> string option \<Rightarrow> (string \<times> string) option" where
  "basic_credentials decode header =
     Option.bind header (\<lambda>value.
       if list_all (\<lambda>c. c = CHR 0x09 \<or> 32 \<le> (of_char c :: nat) \<and> (of_char c :: nat) < 127) value
       then Option.bind (strip_prefix ''Basic '' value) (\<lambda>encoded.
              Option.bind (decode encoded) (\<lambda>decoded.
                if is_utf8 decoded then split_once (CHR '':'') decoded else None))
       else None)"

fun token_actor :: "user \<times> repository_scope \<times> token_scope \<Rightarrow> actor_context" where
  "token_actor (u, scope, ts) = ActorToken (user_id u) scope ts"

definition basic_actor :: "auth_env \<Rightarrow> string \<Rightarrow> string \<Rightarrow> ('e, actor_context) act" where
  "basic_actor env identity secret =
     and_then (token_authenticate env secret) (\<lambda>t.
       case t of
         Some owner \<Rightarrow> ok (token_actor owner)
       | None \<Rightarrow>
           and_then (token_authenticate env identity) (\<lambda>t.
             case t of
               Some owner \<Rightarrow> ok (token_actor owner)
             | None \<Rightarrow>
                 and_then (outcome (backend_authenticate env identity secret)) (\<lambda>res.
                   ok (case res of Inr (Some row) \<Rightarrow> ActorUser (user_id (ur_user row)) | _ \<Rightarrow> Anonymous))))"

definition resolve_actor :: "'o git_server \<Rightarrow> git_config \<Rightarrow> http_auth \<Rightarrow> ('e, actor_context) act" where
  "resolve_actor srv cfg auth =
     and_then now_unix (\<lambda>now.
       case ha_session auth of
         Some (uid, login_at) \<Rightarrow>
           if \<not> session_login_expired login_at (gc_absolute_ttl cfg) now then ok (ActorUser uid)
           else (case basic_credentials (srv_basic srv) (ha_authorization auth) of
                   None \<Rightarrow> ok Anonymous
                 | Some (identity, secret) \<Rightarrow> basic_actor (srv_auth srv) identity secret)
       | None \<Rightarrow> (case basic_credentials (srv_basic srv) (ha_authorization auth) of
                   None \<Rightarrow> ok Anonymous
                 | Some (identity, secret) \<Rightarrow> basic_actor (srv_auth srv) identity secret))"

section \<open>Smart HTTP: gates\<close>

definition require_read_access ::
  "'o git_server \<Rightarrow> git_config \<Rightarrow> http_auth \<Rightarrow> string \<Rightarrow> repository \<Rightarrow> (http_reply, unit) act" where
  "require_read_access srv cfg auth owner r =
     and_then (if gc_require_signin_to_view cfg
               then and_then (resolve_actor srv cfg auth) (\<lambda>actor.
                      ensure (actor \<noteq> Anonymous)
                        (unauthorized_response ''this instance requires sign-in to read any repository''))
               else ok ()) (\<lambda>_.
       if \<not> is_private r then ok ()
       else and_then (resolve_actor srv cfg auth) (\<lambda>actor.
              map_err (\<lambda>e. if e = AuthzNotFound \<and> actor = Anonymous
                           then unauthorized_response ''login required to read this repo''
                           else not_found_response owner (repo_name r)) (check_read actor r)))"

definition write_refusal :: "actor_context \<Rightarrow> string \<Rightarrow> repository \<Rightarrow> authz_error \<Rightarrow> http_reply" where
  "write_refusal actor owner r e =
     (if actor = Anonymous then unauthorized_response ''login required to push''
      else case e of
             AuthzNotFound \<Rightarrow> not_found_response owner (repo_name r)
           | AuthzForbidden \<Rightarrow> reply_with 403 (''you don'' @ CHR 0x27 # ''t have write access to this repo''))"

definition require_verified :: "git_config \<Rightarrow> actor_context \<Rightarrow> (http_reply, unit) act" where
  "require_verified cfg actor =
     (case actor_user_id actor of
        None \<Rightarrow> ok ()
      | Some uid \<Rightarrow>
          and_then (outcome (account_status uid)) (\<lambda>res.
            case res of
              Inr (Some status) \<Rightarrow>
                ensure (\<not> isl (require_verified_for_write status (gc_registration cfg)))
                  (reply_with 403 ''verify your email address before pushing'')
            | _ \<Rightarrow> ok ()))"

definition require_write_access ::
  "'o git_server \<Rightarrow> git_config \<Rightarrow> http_auth \<Rightarrow> string \<Rightarrow> repository \<Rightarrow> (http_reply, unit) act" where
  "require_write_access srv cfg auth owner r =
     and_then (resolve_actor srv cfg auth) (\<lambda>actor.
       and_then (ensure (permits_token_scope actor TSRepoWrite)
           (reply_with 403 (''this token'' @ CHR 0x27 # ''s scope does not permit pushing''))) (\<lambda>_.
         and_then (require_verified cfg actor) (\<lambda>_.
           map_err (write_refusal actor owner r) (check_write actor r))))"

section \<open>Smart HTTP: the handlers\<close>

text \<open>A handler's early returns are errors, and both they and its last value are replies.\<close>

definition respond :: "(http_reply, http_reply) act \<Rightarrow> world \<Rightarrow> http_reply \<times> world" where
  "respond m w = (case m w of (Inl r, w') \<Rightarrow> (r, w') | (Inr r, w') \<Rightarrow> (r, w'))"

definition named_repo :: "string \<Rightarrow> string \<Rightarrow> (http_reply, string \<times> string) act" where
  "named_repo owner repo =
     or_err (reply_with 404 (''expected a '' @ CHR 0x22 # ''<name>.git'' @ CHR 0x22 # '' path'')) (repo_names owner repo)"

definition found_repo :: "string \<Rightarrow> string \<Rightarrow> (http_reply, repository) act" where
  "found_repo owner name = map_err (\<lambda>_. not_found_response owner name) (repository_by_name owner name)"

definition info_refs ::
  "'o git_server \<Rightarrow> git_config \<Rightarrow> http_auth \<Rightarrow> string \<Rightarrow> string \<Rightarrow> string option \<Rightarrow> 'o disk
     \<Rightarrow> (http_reply, http_reply) act" where
  "info_refs srv cfg auth owner repo query disk =
     and_then (named_repo owner repo) (\<lambda>(identity, name).
       and_then (or_err (reply_with 400 ''expected ?service=git-upload-pack or git-receive-pack'')
           (Option.bind query (strip_prefix ''service=''))) (\<lambda>service.
         and_then (found_repo owner name) (\<lambda>r.
           and_then (require_read_access srv cfg auth owner r) (\<lambda>_.
             case build_ref_advertisement srv identity
                    (if service = ''git-receive-pack'' then receive_pack_capabilities
                     else upload_pack_capabilities_stateless) disk of
               Inl e \<Rightarrow> err (reply_with 500 (git_error_text e))
             | Inr advertisement \<Rightarrow>
                 ok \<lparr>hr_status = 200,
                     hr_headers = [(''Content-Type'', ''application/x-'' @ service @ ''-advertisement''),
                                   (''Cache-Control'', ''no-cache'')],
                     hr_body = write_flush (write_pkt_line [] (''# service='' @ service @ [CHR 0x0A])) @ advertisement\<rparr>))))"

definition upload_pack_max_request_bytes :: nat where
  "upload_pack_max_request_bytes = 64 * 1024 * 1024"

definition upload_pack ::
  "'o git_server \<Rightarrow> git_config \<Rightarrow> http_auth \<Rightarrow> string \<Rightarrow> string \<Rightarrow> string \<Rightarrow> 'o disk
     \<Rightarrow> (http_reply, http_reply) act" where
  "upload_pack srv cfg auth owner repo body disk =
     and_then (named_repo owner repo) (\<lambda>(identity, name).
       and_then (found_repo owner name) (\<lambda>r.
         and_then (require_read_access srv cfg auth owner r) (\<lambda>_.
           and_then (read_body_capped body upload_pack_max_request_bytes) (\<lambda>body.
             case serve_upload_pack srv identity body disk of
               Inl e \<Rightarrow> err (reply_with 400 (git_error_text e))
             | Inr out \<Rightarrow>
                 ok \<lparr>hr_status = 200, hr_headers = [(''Content-Type'', ''application/x-git-upload-pack-result'')],
                     hr_body = out\<rparr>))))"

text \<open>A push up to the protocol run: the identity, the repository, the actor and the checks.\<close>

definition push_gate ::
  "'o git_server \<Rightarrow> git_config \<Rightarrow> http_auth \<Rightarrow> string \<Rightarrow> string \<Rightarrow> string
     \<Rightarrow> (http_reply, string \<times> repository \<times> actor_context \<times> receive_checks) act" where
  "push_gate srv cfg auth owner repo body =
     and_then (named_repo owner repo) (\<lambda>(identity, name).
       and_then (found_repo owner name) (\<lambda>r.
         and_then (require_write_access srv cfg auth owner r) (\<lambda>_.
           and_then (read_body_capped body (gc_max_pack_bytes cfg)) (\<lambda>_.
             and_then (resolve_actor srv cfg auth) (\<lambda>actor.
               and_then (checks_or_default actor r
                   (Option.bind (gc_max_repo_size_bytes cfg)
                      (\<lambda>b. if int b \<le> i64_max then Some (int b) else None))) (\<lambda>checks.
                 ok (identity, r, actor, checks)))))))"

definition receive_pack ::
  "'o git_server \<Rightarrow> git_config \<Rightarrow> http_auth \<Rightarrow> string \<Rightarrow> string \<Rightarrow> string \<Rightarrow> 'o host \<Rightarrow> http_reply \<times> 'o host" where
  "receive_pack srv cfg auth owner repo body h =
     (case push_gate srv cfg auth owner repo body (h_world h) of
        (Inl reply, w) \<Rightarrow> (reply, h\<lparr>h_world := w\<rparr>)
      | (Inr (identity, r, actor, checks), w) \<Rightarrow>
          (case serve_receive_pack srv identity body checks (h_disk h) of
             (Inl e, disk) \<Rightarrow> (reply_with 400 (git_error_text e), \<lparr>h_world = w, h_disk = disk\<rparr>)
           | (Inr out, disk) \<Rightarrow>
               (\<lparr>hr_status = 200, hr_headers = [(''Content-Type'', ''application/x-git-receive-pack-result'')],
                 hr_body = ro_response out\<rparr>,
                \<lparr>h_world = snd ((record_applied (repo_id r) (actor_user_id actor) out :: (unit, unit) act) w),
                 h_disk = disk\<rparr>)))"

section \<open>SSH: the command\<close>

datatype git_service = SvcUploadPack | SvcReceivePack

record git_command =
  gcm_service :: git_service
  gcm_owner :: string
  gcm_name :: string

definition unquote :: "string \<Rightarrow> string" where
  "unquote path =
     (if 2 \<le> length path \<and> hd path = last path \<and> (hd path = CHR 0x27 \<or> hd path = CHR 0x22)
      then butlast (tl path) else path)"

definition parse_command :: "string \<Rightarrow> git_command option" where
  "parse_command data =
     (if \<not> is_utf8 data then None
      else let text = trim data in
      case (case strip_prefix ''git-upload-pack'' text of
              Some rest \<Rightarrow> Some (SvcUploadPack, rest)
            | None \<Rightarrow> map_option (Pair SvcReceivePack) (strip_prefix ''git-receive-pack'' text)) of
        None \<Rightarrow> None
      | Some (service, rest) \<Rightarrow>
          (let path = unquote (trim rest);
               path = (case strip_prefix ''/'' path of Some p \<Rightarrow> p | None \<Rightarrow> path);
               path = (case strip_suffix ''.git'' path of Some p \<Rightarrow> p | None \<Rightarrow> path)
           in case split_once (CHR ''/'') path of
                None \<Rightarrow> None
              | Some (owner, name) \<Rightarrow>
                  if owner = [] \<or> name = [] \<or> CHR ''/'' \<in> set name then None
                  else Some \<lparr>gcm_service = service, gcm_owner = owner, gcm_name = name\<rparr>))"

section \<open>SSH: a connection\<close>

datatype channel_state =
    ChIdle
  | ChUploadPack string string
  | ChReceivePack string string receive_checks uuid "uuid option"

record connection =
  cn_actor :: "actor_context option"
  cn_channels :: "nat \<Rightarrow> channel_state option"

definition new_connection :: connection where
  "new_connection = \<lparr>cn_actor = None, cn_channels = (\<lambda>_. None)\<rparr>"

datatype ssh_out =
    SoFailure nat
  | SoSuccess nat
  | SoData nat string
  | SoStderr nat string
  | SoExit nat nat
  | SoEof nat
  | SoClose nat
  | SoAccepted
  | SoRejected

definition fail_git_command :: "nat \<Rightarrow> string \<Rightarrow> ssh_out list" where
  "fail_git_command ch message =
     [SoStderr ch (''fatal: '' @ message @ [CHR 0x0A]), SoExit ch 1, SoEof ch, SoClose ch]"

definition succeed_git_command :: "nat \<Rightarrow> string \<Rightarrow> ssh_out list" where
  "succeed_git_command ch response = [SoData ch response, SoExit ch 0, SoEof ch, SoClose ch]"

text \<open>User keys come before deploy keys.\<close>

definition key_actor :: "key_lib \<Rightarrow> string \<Rightarrow> ('e, actor_context option) act" where
  "key_actor lib key =
     and_then (ssh_authenticate lib key) (\<lambda>u.
       case u of
         Some u \<Rightarrow> ok (Some (ActorUser (user_id u)))
       | None \<Rightarrow>
           and_then (deploy_key_authenticate lib key) (\<lambda>g.
             ok (map_option (\<lambda>(rid, ro). ActorDeployKey rid ro) g)))"

definition auth_publickey ::
  "'o git_server \<Rightarrow> string \<Rightarrow> connection \<Rightarrow> 'o host \<Rightarrow> ssh_out list \<times> connection \<times> 'o host" where
  "auth_publickey srv key c h =
     (case (key_actor (srv_keys srv) key :: (unit, actor_context option) act) (h_world h) of
        (Inr (Some actor), w) \<Rightarrow> ([SoAccepted], c\<lparr>cn_actor := Some actor\<rparr>, h\<lparr>h_world := w\<rparr>)
      | (_, w) \<Rightarrow> ([SoRejected], c, h\<lparr>h_world := w\<rparr>))"

datatype exec_refusal = NotAGitCommand | GitFatal string

definition opened_channel ::
  "actor_context \<Rightarrow> git_command \<Rightarrow> repository \<Rightarrow> int option \<Rightarrow> (exec_refusal, channel_state) act" where
  "opened_channel actor cmd r limit =
     (case gcm_service cmd of
        SvcUploadPack \<Rightarrow> ok (ChUploadPack (gcm_owner cmd @ ''/'' @ gcm_name cmd) [])
      | SvcReceivePack \<Rightarrow>
          and_then (checks_or_default actor r limit) (\<lambda>checks.
            ok (ChReceivePack (gcm_owner cmd @ ''/'' @ gcm_name cmd) [] checks (repo_id r) (actor_user_id actor))))"

definition exec_gate ::
  "'o git_server \<Rightarrow> int option \<Rightarrow> actor_context option \<Rightarrow> string \<Rightarrow> 'o disk
     \<Rightarrow> (exec_refusal, string \<times> channel_state) act" where
  "exec_gate srv limit actor data disk =
     and_then (or_err NotAGitCommand (parse_command data)) (\<lambda>cmd.
       and_then (or_err NotAGitCommand actor) (\<lambda>actor.
         and_then (map_err (\<lambda>_. GitFatal ''repository not found'')
             (repository_by_name (gcm_owner cmd) (gcm_name cmd))) (\<lambda>r.
           and_then (map_err (\<lambda>_. GitFatal ''repository not found'')
               (case gcm_service cmd of SvcUploadPack \<Rightarrow> check_read actor r | SvcReceivePack \<Rightarrow> check_write actor r)) (\<lambda>_.
             case build_ref_advertisement srv (gcm_owner cmd @ ''/'' @ gcm_name cmd)
                    (case gcm_service cmd of SvcUploadPack \<Rightarrow> upload_pack_capabilities
                                           | SvcReceivePack \<Rightarrow> receive_pack_capabilities) disk of
               Inl e \<Rightarrow> err (GitFatal (git_error_text e))
             | Inr advertisement \<Rightarrow>
                 and_then (opened_channel actor cmd r limit) (\<lambda>st. ok (advertisement, st))))))"

definition exec_request ::
  "'o git_server \<Rightarrow> int option \<Rightarrow> nat \<Rightarrow> string \<Rightarrow> connection \<Rightarrow> 'o host
     \<Rightarrow> ssh_out list \<times> connection \<times> 'o host" where
  "exec_request srv limit ch data c h =
     (case exec_gate srv limit (cn_actor c) data (h_disk h) (h_world h) of
        (Inl NotAGitCommand, w) \<Rightarrow> ([SoFailure ch], c, h\<lparr>h_world := w\<rparr>)
      | (Inl (GitFatal message), w) \<Rightarrow> (SoSuccess ch # fail_git_command ch message, c, h\<lparr>h_world := w\<rparr>)
      | (Inr (advertisement, st), w) \<Rightarrow>
          ([SoSuccess ch, SoData ch advertisement],
           c\<lparr>cn_channels := (cn_channels c)(ch \<mapsto> st)\<rparr>, h\<lparr>h_world := w\<rparr>))"

definition channel_data ::
  "'o git_server \<Rightarrow> nat \<Rightarrow> string \<Rightarrow> connection \<Rightarrow> 'o host \<Rightarrow> ssh_out list \<times> connection \<times> 'o host" where
  "channel_data srv ch data c h =
     (case cn_channels c ch of
        None \<Rightarrow> ([], c, h)
      | Some ChIdle \<Rightarrow> ([], c, h)
      | Some (ChUploadPack identity buffer) \<Rightarrow>
          (let buffer = buffer @ data in
           if upload_pack_request_is_complete buffer
           then ((case serve_upload_pack srv identity buffer (h_disk h) of
                    Inr response \<Rightarrow> succeed_git_command ch response
                  | Inl e \<Rightarrow> fail_git_command ch (git_error_text e)),
                 c\<lparr>cn_channels := (cn_channels c)(ch := None)\<rparr>, h)
           else ([], c\<lparr>cn_channels := (cn_channels c)(ch \<mapsto> ChUploadPack identity buffer)\<rparr>, h))
      | Some (ChReceivePack identity buffer checks rid pusher) \<Rightarrow>
          ([], c\<lparr>cn_channels := (cn_channels c)(ch \<mapsto> ChReceivePack identity (buffer @ data) checks rid pusher)\<rparr>, h))"

definition channel_eof ::
  "'o git_server \<Rightarrow> nat \<Rightarrow> connection \<Rightarrow> 'o host \<Rightarrow> ssh_out list \<times> connection \<times> 'o host" where
  "channel_eof srv ch c h =
     (let c' = c\<lparr>cn_channels := (cn_channels c)(ch := None)\<rparr> in
      case cn_channels c ch of
        Some (ChReceivePack identity buffer checks rid pusher) \<Rightarrow>
          (case serve_receive_pack srv identity buffer checks (h_disk h) of
             (Inl e, disk) \<Rightarrow> (fail_git_command ch (git_error_text e), c', h\<lparr>h_disk := disk\<rparr>)
           | (Inr out, disk) \<Rightarrow>
               (succeed_git_command ch (ro_response out), c',
                \<lparr>h_world = snd ((record_applied rid pusher out :: (unit, unit) act) (h_world h)), h_disk = disk\<rparr>))
      | _ \<Rightarrow> ([], c', h))"

datatype ssh_event =
    SshAuth string
  | SshOpen nat
  | SshExec nat string
  | SshData nat string
  | SshEof nat
  | SshClose nat

fun ssh_step ::
  "'o git_server \<Rightarrow> int option \<Rightarrow> ssh_event \<Rightarrow> connection \<Rightarrow> 'o host \<Rightarrow> ssh_out list \<times> connection \<times> 'o host" where
  "ssh_step srv limit (SshAuth key) c h = auth_publickey srv key c h"
| "ssh_step srv limit (SshOpen ch) c h =
     ([SoSuccess ch], c\<lparr>cn_channels := (cn_channels c)(ch \<mapsto> ChIdle)\<rparr>, h)"
| "ssh_step srv limit (SshExec ch data) c h = exec_request srv limit ch data c h"
| "ssh_step srv limit (SshData ch data) c h = channel_data srv ch data c h"
| "ssh_step srv limit (SshEof ch) c h = channel_eof srv ch c h"
| "ssh_step srv limit (SshClose ch) c h = ([], c\<lparr>cn_channels := (cn_channels c)(ch := None)\<rparr>, h)"

end
