(* ===== verification/PR_Service.thy ===== *)
theory PR_Service
  imports Access_Services Issue_Store Cross_Refs Text_Refs
begin

text \<open>
  The pull-request service (\<^verbatim>\<open>edda-app/src/services/pull_request.rs\<close>, with \<^verbatim>\<open>services/mentions.rs\<close>
  and the helpers of \<^verbatim>\<open>services/mod.rs\<close>). What the git layer answers is an argument of the operations
  that ask it: a \<^verbatim>\<open>git_backend\<close> gives, for the calls made so far and the arguments of a call, its
  result; a call that succeeds and changes a repository is added to the world's \<^verbatim>\<open>git_calls\<close>. Ids are
  written in ref names as their decimal digits.
\<close>

section \<open>The git layer as the service sees it\<close>

record git_backend =
  do_import :: "git_call list \<Rightarrow> string \<Rightarrow> string \<Rightarrow> string \<Rightarrow> string \<Rightarrow> git_error + string"
  do_resolve :: "git_call list \<Rightarrow> string \<Rightarrow> string \<Rightarrow> git_error + string"
  do_merge :: "git_call list \<Rightarrow> string \<Rightarrow> string \<Rightarrow> string \<Rightarrow> string \<Rightarrow> merge_strategy \<Rightarrow> string \<Rightarrow> string
                 \<Rightarrow> string \<Rightarrow> git_error + string"

definition import_branch_tip ::
  "git_backend \<Rightarrow> string \<Rightarrow> string \<Rightarrow> string \<Rightarrow> string \<Rightarrow> (service_error, string) act" where
  "import_branch_tip g source branch dest dest_ref w =
     (case do_import g (git_calls w) source branch dest dest_ref of
        Inl e \<Rightarrow> (Inl (SvGit e), w)
      | Inr tip \<Rightarrow> (Inr tip, w\<lparr>git_calls := git_calls w @ [GitImport source branch dest dest_ref]\<rparr>))"

definition resolve_branch_commit :: "git_backend \<Rightarrow> string \<Rightarrow> string \<Rightarrow> (service_error, string) act" where
  "resolve_branch_commit g identity branch w =
     (case do_resolve g (git_calls w) identity branch of
        Inl e \<Rightarrow> (Inl (SvGit e), w) | Inr sha \<Rightarrow> (Inr sha, w))"

definition git_merge ::
  "git_backend \<Rightarrow> string \<Rightarrow> string \<Rightarrow> string \<Rightarrow> string \<Rightarrow> merge_strategy \<Rightarrow> user \<Rightarrow> string
     \<Rightarrow> (service_error, string) act" where
  "git_merge g identity source_ref source_label target strategy committer message w =
     (case do_merge g (git_calls w) identity source_ref source_label target strategy
             (user_username committer) (user_email committer) message of
        Inl e \<Rightarrow> (Inl (SvGit e), w)
      | Inr merge_commit \<Rightarrow>
          (Inr merge_commit,
           w\<lparr>git_calls := git_calls w @
               [GitMerge identity source_ref target strategy (user_username committer)
                  (user_email committer) message]\<rparr>))"

section \<open>Shared helpers\<close>

definition git_identity :: "string \<Rightarrow> string \<Rightarrow> string" where
  "git_identity owner name = owner @ ''/'' @ name"

definition pull_head_ref :: "uuid \<Rightarrow> string" where
  "pull_head_ref i = ''refs/edda/pull-heads/'' @ show_nat i"

fun service_of_next_number :: "next_number_error \<Rightarrow> service_error" where
  "service_of_next_number (NumberContended _) =
     SvConflict (''too many concurrent writes to this repository '' @ map char_of [226, 128, 148 :: nat]
                 @ '' try again'')"
| "service_of_next_number (NumberDb e) = SvDb e"

fun service_of_insert :: "insert_error \<Rightarrow> service_error" where
  "service_of_insert (InsertNumber e) = service_of_next_number e"
| "service_of_insert (InsertDb e) = SvDb e"

definition require_user :: "actor_context \<Rightarrow> (service_error, uuid) act" where
  "require_user actor = or_err SvUnauthorized (actor_user_id actor)"

definition acting_user :: "actor_context \<Rightarrow> (service_error, user) act" where
  "acting_user actor =
     and_then (require_user actor) (\<lambda>uid.
       and_then (dbq (select (user_by_id uid))) (or_err SvUnauthorized))"

definition non_blank :: "string option \<Rightarrow> string option" where
  "non_blank body = (case body of None \<Rightarrow> None | Some b \<Rightarrow> if trim b = [] then None else Some b)"

definition load_pr :: "uuid \<Rightarrow> int \<Rightarrow> (service_error, pull_request) act" where
  "load_pr rid number = and_then (dbq (select (pr_by_number rid number))) (or_err SvNotFound)"

definition write_checked :: "actor_context \<Rightarrow> string \<Rightarrow> string \<Rightarrow> (service_error, repository \<times> uuid) act" where
  "write_checked actor owner name =
     and_then (require_user actor) (\<lambda>uid.
       and_then (authz (repository_by_name owner name)) (\<lambda>r.
         and_then (authz (check_write actor r)) (\<lambda>_. ok (r, uid))))"

definition author_or_write_checked ::
  "actor_context \<Rightarrow> string \<Rightarrow> string \<Rightarrow> int \<Rightarrow> (service_error, repository \<times> pull_request \<times> uuid) act" where
  "author_or_write_checked actor owner name number =
     and_then (require_user actor) (\<lambda>uid.
       and_then (authz (repository_by_name owner name)) (\<lambda>r.
         and_then (load_pr (repo_id r) number) (\<lambda>pr.
           and_then (if pr_author_id pr \<noteq> uid then authz (check_write actor r) else ok ())
             (\<lambda>_. ok (r, pr, uid)))))"

definition repo_identity :: "uuid \<Rightarrow> (service_error, string \<times> string) act" where
  "repo_identity rid =
     and_then (dbq (select (find_by_id_with_owner_username rid))) (\<lambda>found.
       and_then (or_err SvNotFound found) (\<lambda>(r, owner). ok (owner, git_identity owner (repo_name r))))"

section \<open>Opening\<close>

record new_pull_request_input =
  in_title :: string
  in_body :: "string option"
  in_source_owner :: "string option"
  in_source_branch :: string
  in_target_branch :: string
  in_draft :: bool

definition source_side :: "new_pull_request_input \<Rightarrow> string option \<times> string" where
  "source_side i =
     (case in_source_owner i of
        Some ow \<Rightarrow> (Some ow, in_source_branch i)
      | None \<Rightarrow> parse_head_ref (in_source_branch i))"

definition resolve_source ::
  "string \<Rightarrow> string \<Rightarrow> repository \<Rightarrow> string option \<Rightarrow> (service_error, repository) act" where
  "resolve_source owner name target source_owner =
     (case source_owner of
        Some ow \<Rightarrow> if eq_ignore_ascii_case ow owner then ok target else authz (repository_by_name ow name)
      | None \<Rightarrow> ok target)"

definition open_checked ::
  "git_backend \<Rightarrow> actor_context \<Rightarrow> string \<Rightarrow> string \<Rightarrow> repository \<Rightarrow> repository \<Rightarrow> string \<Rightarrow> uuid
     \<Rightarrow> (service_error, unit) act" where
  "open_checked g actor owner name source target source_branch pid =
     (if repo_id source = repo_id target then authz (check_write actor target)
      else
        and_then (authz (check_open_cross_repo_pull_request actor source target)) (\<lambda>_.
          and_then (repo_identity (repo_id source)) (\<lambda>(_, source_identity).
            and_then (import_branch_tip g source_identity source_branch (git_identity owner name)
                        (pull_head_ref pid)) (\<lambda>_. ok ()))))"

definition pr_open ::
  "git_backend \<Rightarrow> actor_context \<Rightarrow> string \<Rightarrow> string \<Rightarrow> new_pull_request_input \<Rightarrow> (service_error, int) act" where
  "pr_open g actor owner name i =
     and_then (require_user actor) (\<lambda>author.
       and_then (ensure (trim (in_title i) \<noteq> []) (SvValidation ''a pull request needs a title'')) (\<lambda>_.
         and_then (authz (repository_by_name owner name)) (\<lambda>target.
           and_then (resolve_source owner name target (fst (source_side i))) (\<lambda>source.
             and_then fresh_uuid (\<lambda>pid.
               and_then (open_checked g actor owner name source target (snd (source_side i)) pid) (\<lambda>_.
                 transaction SvDb
                   (and_then (map_err service_of_insert (pull_request_insert pid (repo_id target)
                        \<lparr>new_title = trim (in_title i), new_body = non_blank (in_body i),
                         new_author_id = author,
                         new_source = \<lparr>ref_repository_id = repo_id source, ref_branch = snd (source_side i)\<rparr>,
                         new_target = in_target_branch i, new_draft = in_draft i\<rparr>)) (\<lambda>number.
                     and_then (dbq (append_event (EvPullRequestOpened pid (repo_id target) author)))
                       (\<lambda>_. ok number)))))))))"

section \<open>Reviews and review requests\<close>

definition submit_review ::
  "actor_context \<Rightarrow> string \<Rightarrow> string \<Rightarrow> int \<Rightarrow> string \<Rightarrow> string option \<Rightarrow> (service_error, unit) act" where
  "submit_review actor owner name number state body =
     and_then (write_checked actor owner name) (\<lambda>(r, reviewer).
       and_then (or_err (SvValidation ''unrecognized review state'') (review_state_from_db_str state)) (\<lambda>verdict.
         and_then (load_pr (repo_id r) number) (\<lambda>pr.
           and_then (transaction SvDb
               (and_then fresh_uuid (\<lambda>i.
                 and_then (dbq (review_insert i (pr_id pr) reviewer verdict (non_blank body))) (\<lambda>_.
                   dbq (append_event (EvPullRequestReviewSubmitted (pr_id pr) (repo_id r) reviewer verdict))))))
             (\<lambda>_. and_then (dbq (review_request_delete (pr_id pr) reviewer)) (\<lambda>_. ok ())))))"

definition request_review ::
  "actor_context \<Rightarrow> string \<Rightarrow> string \<Rightarrow> int \<Rightarrow> string \<Rightarrow> (service_error, unit) act" where
  "request_review actor owner name number reviewer_username =
     and_then (write_checked actor owner name) (\<lambda>(r, requester).
       and_then (load_pr (repo_id r) number) (\<lambda>pr.
         and_then (dbq (select (user_by_username reviewer_username))) (\<lambda>found.
           and_then (or_err SvNotFound found) (\<lambda>reviewer.
             transaction SvDb
               (and_then fresh_uuid (\<lambda>i.
                 and_then (dbq (review_request_insert i (pr_id pr) (user_id reviewer))) (\<lambda>newly_requested.
                   if newly_requested
                   then dbq (append_event
                          (EvReviewRequested (pr_id pr) (repo_id r) (user_id reviewer) requester))
                   else ok ())))))))"

definition cancel_review_request ::
  "actor_context \<Rightarrow> string \<Rightarrow> string \<Rightarrow> int \<Rightarrow> string \<Rightarrow> (service_error, unit) act" where
  "cancel_review_request actor owner name number reviewer_username =
     and_then (write_checked actor owner name) (\<lambda>(r, _).
       and_then (load_pr (repo_id r) number) (\<lambda>pr.
         and_then (dbq (select (user_by_username reviewer_username))) (\<lambda>found.
           and_then (or_err SvNotFound found) (\<lambda>reviewer.
             and_then (dbq (review_request_delete (pr_id pr) (user_id reviewer))) (\<lambda>_. ok ())))))"

section \<open>State changes\<close>

definition mark_ready :: "actor_context \<Rightarrow> string \<Rightarrow> string \<Rightarrow> int \<Rightarrow> (service_error, unit) act" where
  "mark_ready actor owner name number =
     and_then (author_or_write_checked actor owner name number) (\<lambda>(_, pr, _).
       and_then (ensure (pr_state pr = PrDraft) (SvConflict ''this pull request is not a draft'')) (\<lambda>_.
         dbq (update_pr_state (pr_id pr) PrOpen)))"

definition convert_to_draft :: "actor_context \<Rightarrow> string \<Rightarrow> string \<Rightarrow> int \<Rightarrow> (service_error, unit) act" where
  "convert_to_draft actor owner name number =
     and_then (author_or_write_checked actor owner name number) (\<lambda>(_, pr, _).
       and_then (ensure (pr_state pr = PrOpen)
           (SvConflict ''only an open pull request can be converted to a draft'')) (\<lambda>_.
         dbq (update_pr_state (pr_id pr) PrDraft)))"

definition already_finalized :: service_error where
  "already_finalized = SvConflict ''this pull request is already merged or closed''"

definition pr_close :: "actor_context \<Rightarrow> string \<Rightarrow> string \<Rightarrow> int \<Rightarrow> (service_error, unit) act" where
  "pr_close actor owner name number =
     and_then (author_or_write_checked actor owner name number) (\<lambda>(r, pr, uid).
       and_then (ensure (pr_is_open (pr_state pr)) already_finalized) (\<lambda>_.
         transaction SvDb
           (and_then now_unix (\<lambda>now.
             and_then (dbq (update_pr_state (pr_id pr) (PrClosed now NotPlanned))) (\<lambda>_.
               dbq (append_event (EvPullRequestClosed (pr_id pr) (repo_id r) uid)))))))"

fun is_closed :: "pr_state \<Rightarrow> bool" where
  "is_closed (PrClosed _ _) = True"
| "is_closed _ = False"

definition pr_reopen :: "actor_context \<Rightarrow> string \<Rightarrow> string \<Rightarrow> int \<Rightarrow> (service_error, unit) act" where
  "pr_reopen actor owner name number =
     and_then (write_checked actor owner name) (\<lambda>(r, uid).
       and_then (load_pr (repo_id r) number) (\<lambda>pr.
         and_then (ensure (is_closed (pr_state pr))
             (SvConflict ''only a closed pull request can be reopened'')) (\<lambda>_.
           transaction SvDb
             (and_then (dbq (update_pr_state (pr_id pr) PrOpen)) (\<lambda>_.
               dbq (append_event (EvPullRequestReopened (pr_id pr) (repo_id r) uid)))))))"

section \<open>Merging\<close>

text \<open>What the checks before the repository lock establish.\<close>

record merge_request =
  mr_committer :: user
  mr_repository :: repository
  mr_pr :: pull_request

definition status_gate ::
  "git_backend \<Rightarrow> string \<Rightarrow> string \<Rightarrow> repository \<Rightarrow> pull_request \<Rightarrow> (service_error, unit) act" where
  "status_gate g owner name r pr =
     and_then (dbq (find_matching (repo_id r) (pr_target pr))) (\<lambda>rule.
       case rule of
         None \<Rightarrow> ok ()
       | Some rule \<Rightarrow>
           if required_status_checks rule = [] then ok ()
           else
             and_then (if ref_repository_id (pr_source pr) = repo_id r then ok (git_identity owner name)
                       else and_then (repo_identity (ref_repository_id (pr_source pr))) (\<lambda>(_, i). ok i))
               (\<lambda>head_identity.
                 and_then (resolve_branch_commit g head_identity (ref_branch (pr_source pr))) (\<lambda>head_sha.
                   and_then (dbq (select (statuses_for_commit (repo_id r) head_sha))) (\<lambda>statuses.
                     ensure (required_checks_satisfied (required_status_checks rule) statuses)
                       (SvConflict
                         ''the required status checks are not all passing on the head commit'')))))"

definition merge_checks ::
  "git_backend \<Rightarrow> actor_context \<Rightarrow> string \<Rightarrow> string \<Rightarrow> int \<Rightarrow> (service_error, merge_request) act" where
  "merge_checks g actor owner name number =
     and_then (acting_user actor) (\<lambda>committer.
       and_then (authz (repository_by_name owner name)) (\<lambda>r.
         and_then (load_pr (repo_id r) number) (\<lambda>pr.
           and_then (ensure (pr_is_open (pr_state pr)) already_finalized) (\<lambda>_.
             and_then (dbq (select (reviews_of (pr_id pr)))) (\<lambda>reviews.
               and_then (authz (check_merge_pull_request actor r (pr_target pr) reviews)) (\<lambda>_.
                 and_then (status_gate g owner name r pr) (\<lambda>_.
                   ok \<lparr>mr_committer = committer, mr_repository = r, mr_pr = pr\<rparr>)))))))"

definition incoming_ref ::
  "git_backend \<Rightarrow> string \<Rightarrow> string \<Rightarrow> repository \<Rightarrow> pull_request \<Rightarrow> (service_error, string \<times> string) act" where
  "incoming_ref g owner name r pr =
     (if ref_repository_id (pr_source pr) = repo_id r
      then ok (''refs/heads/'' @ ref_branch (pr_source pr), ref_branch (pr_source pr))
      else
        and_then (repo_identity (ref_repository_id (pr_source pr))) (\<lambda>(source_owner, source_identity).
          and_then (import_branch_tip g source_identity (ref_branch (pr_source pr)) (git_identity owner name)
                      (pull_head_ref (pr_id pr))) (\<lambda>_.
            ok (pull_head_ref (pr_id pr), source_owner @ '':'' @ ref_branch (pr_source pr)))))"

definition merge_message :: "pull_request \<Rightarrow> merge_strategy \<Rightarrow> int \<Rightarrow> string \<Rightarrow> string" where
  "merge_message pr strategy number source_label =
     (if strategy = Squash
      then (case map_option trim (pr_body pr) of
              Some body \<Rightarrow>
                if body = [] then pr_title pr @ '' (#'' @ show_int number @ '')''
                else pr_title pr @ '' (#'' @ show_int number @ '')'' @ [CHR 0x0A, CHR 0x0A] @ body
            | None \<Rightarrow> pr_title pr @ '' (#'' @ show_int number @ '')'')
      else ''Merge pull request #'' @ show_int number @ '' from '' @ source_label)"

definition closing_numbers :: "pull_request \<Rightarrow> int list" where
  "closing_numbers pr =
     map cref_number (filter (\<lambda>c. cref_repository c = None)
       (parse_closing_references (pr_title pr @ [CHR 0x0A] @ (case pr_body pr of None \<Rightarrow> [] | Some b \<Rightarrow> b))))"

definition close_issue ::
  "actor_context \<Rightarrow> uuid \<Rightarrow> uuid \<Rightarrow> int \<Rightarrow> (service_error, unit) act" where
  "close_issue actor rid pid n =
     and_then (dbq (select (issue_by_number rid n))) (\<lambda>found.
       case found of
         None \<Rightarrow> ok ()
       | Some issue \<Rightarrow>
           if \<not> issue_is_open (issue_state issue) then ok ()
           else
             and_then now_unix (\<lambda>now.
               and_then (dbq (update_issue_state (issue_id issue) (IssueClosed now Completed))) (\<lambda>_.
                 case actor_user_id actor of
                   None \<Rightarrow> ok ()
                 | Some uid \<Rightarrow>
                     dbq (append_event (EvIssueClosed (issue_id issue) rid uid (Some pid))))))"

definition record_merge ::
  "actor_context \<Rightarrow> uuid \<Rightarrow> pull_request \<Rightarrow> pr_state \<Rightarrow> (service_error, unit) act" where
  "record_merge actor rid pr merged_state =
     transaction SvDb
       (and_then (dbq (update_pr_state (pr_id pr) merged_state)) (\<lambda>_.
         and_then (dbq (append_event (EvPullRequestMerged (pr_id pr) rid))) (\<lambda>_.
           for_each (closing_numbers pr) (close_issue actor rid (pr_id pr)))))"

text \<open>The part under the repository's lock.\<close>

definition merge_locked ::
  "git_backend \<Rightarrow> actor_context \<Rightarrow> string \<Rightarrow> string \<Rightarrow> int \<Rightarrow> merge_strategy \<Rightarrow> merge_request
     \<Rightarrow> (service_error, string) act" where
  "merge_locked g actor owner name number strategy m =
     and_then (incoming_ref g owner name (mr_repository m) (mr_pr m)) (\<lambda>(source_ref, source_label).
       and_then (git_merge g (git_identity owner name) source_ref source_label (pr_target (mr_pr m)) strategy
                  (mr_committer m) (merge_message (mr_pr m) strategy number source_label)) (\<lambda>merge_commit.
         and_then now_unix (\<lambda>now.
           and_then (record_merge actor (repo_id (mr_repository m)) (mr_pr m)
                      (PrMerged now merge_commit strategy)) (\<lambda>_.
             and_then (audit_if_user actor (\<lambda>uid.
                 \<lparr>audit_event_type = ''pull_request.merge'', audit_actor_id = Some uid,
                  audit_target = Some (''repository'', repo_id (mr_repository m)),
                  audit_detail = Some (JObj [(''number'', JNum number), (''merge_commit'', JStr merge_commit),
                                             (''strategy'', JStr (merge_strategy_as_db_str strategy))])\<rparr>))
               (\<lambda>_. ok merge_commit)))))"

definition pr_merge ::
  "git_backend \<Rightarrow> actor_context \<Rightarrow> string \<Rightarrow> string \<Rightarrow> int \<Rightarrow> merge_strategy \<Rightarrow> (service_error, string) act" where
  "pr_merge g actor owner name number strategy =
     and_then (merge_checks g actor owner name number) (merge_locked g actor owner name number strategy)"

section \<open>Commenting\<close>

fun resolve_names :: "string list \<Rightarrow> uuid \<Rightarrow> uuid list \<Rightarrow> (db_error, uuid list) act" where
  "resolve_names [] commenter resolved = ok resolved"
| "resolve_names (n # ns) commenter resolved =
     and_then (select (user_by_username n)) (\<lambda>found.
       case found of
         None \<Rightarrow> resolve_names ns commenter resolved
       | Some u \<Rightarrow>
           if user_id u \<noteq> commenter \<and> user_id u \<notin> set resolved
           then resolve_names ns commenter (resolved @ [user_id u])
           else resolve_names ns commenter resolved)"

definition resolve_mentions :: "string \<Rightarrow> uuid \<Rightarrow> (db_error, uuid list) act" where
  "resolve_mentions body commenter = resolve_names (parse_mentions body) commenter []"

definition append_mentions :: "uuid list \<Rightarrow> uuid \<Rightarrow> mention_source \<Rightarrow> (service_error, unit) act" where
  "append_mentions mentioned commenter source =
     for_each mentioned (\<lambda>u. dbq (append_event (EvUserMentioned u commenter source)))"

definition pr_add_comment ::
  "actor_context \<Rightarrow> string \<Rightarrow> string \<Rightarrow> int \<Rightarrow> string \<Rightarrow> diff_anchor option \<Rightarrow> (service_error, uuid) act" where
  "pr_add_comment actor owner name number body anchor =
     and_then (ensure (trim body \<noteq> []) (SvValidation (''a comment can'' @ [CHR 0x27] @ ''t be empty''))) (\<lambda>_.
       and_then (author_or_write_checked actor owner name number) (\<lambda>(_, pr, commenter).
         and_then (dbq (resolve_mentions (trim body) commenter)) (\<lambda>mentioned.
           and_then fresh_uuid (\<lambda>i.
             transaction SvDb
               (and_then (dbq (pr_comment_insert i (pr_id pr) commenter (trim body) anchor)) (\<lambda>_.
                 and_then (append_mentions mentioned commenter (MentionInPullRequest (pr_id pr)))
                   (\<lambda>_. ok i)))))))"

end
