(* ===== verification/PR_Proofs.thy ===== *)
theory PR_Proofs
  imports PR_Service
begin

text \<open>
  What the pull-request service guarantees: every operation moves pull requests along their life
  cycle and announces exactly the moves it made, a failed operation leaves no trace, a merge reaches
  the git layer only past every gate, and its record closes exactly the issues it names.
\<close>

section \<open>Running a read-only prefix\<close>

lemma and_then_ro:
  assumes "and_then m f w = (r, w')" "read_only m"
  obtains (stop) e where "r = Inl e" "m w = (Inl e, w')" "tables w' = tables w"
    | (go) x w1 where "m w = (Inr x, w1)" "tables w1 = tables w" "f x w1 = (r, w')"
proof -
  obtain s w1 where s: "m w = (s, w1)" by fastforce
  have t: "tables w1 = tables w" using read_only_tables [OF assms(2) s] .
  show thesis
  proof (cases s)
    case (Inl e)
    then show thesis using assms(1) s t stop [of e] by (simp add: and_then_def)
  next
    case (Inr x)
    then show thesis using assms(1) s t go [of x w1] by (simp add: and_then_def)
  qed
qed

lemma read_only_authz: "read_only m \<Longrightarrow> read_only (authz m)"
  unfolding authz_def by (rule read_only_map_err)

lemma read_only_dbq: "read_only m \<Longrightarrow> read_only (dbq m)"
  unfolding dbq_def by (rule read_only_map_err)

lemma read_only_prod: "(\<And>a b. read_only (f a b)) \<Longrightarrow> read_only (case p of (a, b) \<Rightarrow> f a b)"
  by (cases p) simp

lemma read_only_hide: "read_only m \<Longrightarrow> read_only (hide m)"
  unfolding hide_def by (rule read_only_map_err)

lemmas ro = read_only_authz read_only_dbq read_only_prod read_only_hide read_only_decide read_only_rules

lemma read_only_check_write: "read_only (check_write actor r)"
  unfolding check_write_def by (intro ro read_only_access_for)

lemma read_only_check_merge: "read_only (check_merge_pull_request actor r branch reviews)"
  unfolding check_merge_pull_request_def find_matching_def list_rules_def by (intro ro read_only_access_for)

lemma read_only_check_cross: "read_only (check_open_cross_repo_pull_request actor s t)"
  unfolding check_open_cross_repo_pull_request_def by (intro ro read_only_access_for)

lemma read_only_require_user: "read_only (require_user actor)"
  unfolding require_user_def by (rule read_only_or_err)

lemma read_only_acting_user: "read_only (acting_user actor)"
  unfolding acting_user_def by (intro ro read_only_require_user)

lemma read_only_load_pr: "read_only (load_pr rid number)"
  unfolding load_pr_def by (intro ro)

lemma read_only_write_checked: "read_only (write_checked actor owner name)"
  unfolding write_checked_def
  by (intro ro read_only_require_user read_only_repository_by_name read_only_check_write)

lemma read_only_author_or_write: "read_only (author_or_write_checked actor owner name number)"
  unfolding author_or_write_checked_def
  by (intro ro read_only_require_user read_only_repository_by_name read_only_load_pr read_only_check_write)

lemma read_only_repo_identity: "read_only (repo_identity rid)"
  unfolding repo_identity_def by (intro ro)

lemma read_only_import: "read_only (import_branch_tip g s b d r)"
  by (auto simp: read_only_def import_branch_tip_def split: sum.splits)

lemma read_only_resolve: "read_only (resolve_branch_commit g i b)"
  by (auto simp: read_only_def resolve_branch_commit_def split: sum.splits)

lemma read_only_git_merge: "read_only (git_merge g i s l t st c m)"
  by (auto simp: read_only_def git_merge_def split: sum.splits)

lemma read_only_status_gate: "read_only (status_gate g owner name r pr)"
  unfolding status_gate_def find_matching_def list_rules_def
  by (intro ro read_only_repo_identity read_only_resolve)

lemma read_only_merge_checks: "read_only (merge_checks g actor owner name number)"
  unfolding merge_checks_def
  by (intro ro read_only_acting_user read_only_repository_by_name read_only_load_pr read_only_check_merge
      read_only_status_gate)

lemma read_only_incoming_ref: "read_only (incoming_ref g owner name r pr)"
  unfolding incoming_ref_def by (intro ro read_only_repo_identity read_only_import)

lemma read_only_resolve_names: "read_only (resolve_names ns c acc)"
  by (induction ns arbitrary: acc) (auto intro!: ro)

lemma read_only_open_checked: "read_only (open_checked g actor owner name s t b i)"
  unfolding open_checked_def
  by (intro ro read_only_check_write read_only_check_cross read_only_repo_identity read_only_import)

lemma read_only_resolve_source: "read_only (resolve_source owner name t s)"
  unfolding resolve_source_def by (intro ro read_only_repository_by_name)

lemmas ro_service = read_only_require_user read_only_repository_by_name read_only_check_write
  read_only_load_pr read_only_write_checked read_only_author_or_write read_only_merge_checks
  read_only_incoming_ref read_only_git_merge read_only_open_checked read_only_resolve_source

lemma load_pr_Inr:
  "load_pr rid number w = (Inr pr, w') \<Longrightarrow> pr_by_number rid number (tables w) = Some pr"
  by (auto simp: load_pr_def dbq_def act_simps dest!: select_Inr)

lemma pr_by_number_mem:
  "pr_by_number rid number d = Some pr \<Longrightarrow>
     pr \<in> set (t_pull_requests d) \<and> pr_repository_id pr = rid \<and> pr_number pr = number"
  unfolding pr_by_number_def by (auto dest: find_Some_filter)

lemma author_or_write_Inr:
  "author_or_write_checked actor owner name number w = (Inr (r, pr, uid), w') \<Longrightarrow>
     pr_by_number (repo_id r) number (tables w) = Some pr \<and> actor_user_id actor = Some uid"
proof -
  assume run: "author_or_write_checked actor owner name number w = (Inr (r, pr, uid), w')"
  then obtain w1 w2 w3 where "require_user actor w = (Inr uid, w1)"
    "authz (repository_by_name owner name) w1 = (Inr r, w2)" "load_pr (repo_id r) number w2 = (Inr pr, w3)"
    by (auto simp: author_or_write_checked_def act_simps)
  moreover have "tables w2 = tables w"
    using read_only_tables [OF read_only_require_user] read_only_tables [OF read_only_authz [OF read_only_repository_by_name]]
      calculation by metis
  ultimately show ?thesis using load_pr_Inr by (fastforce simp: require_user_def act_simps)
qed

lemma write_checked_Inr:
  "write_checked actor owner name w = (Inr (r, uid), w') \<Longrightarrow> actor_user_id actor = Some uid"
  by (auto simp: write_checked_def act_simps require_user_def)

section \<open>The life cycle\<close>

inductive lifecycle :: "pr_state \<Rightarrow> pr_state \<Rightarrow> bool" where
  ready: "lifecycle PrDraft PrOpen"
| draft: "lifecycle PrOpen PrDraft"
| close: "pr_is_open s \<Longrightarrow> lifecycle s (PrClosed t NotPlanned)"
| merge: "pr_is_open s \<Longrightarrow> lifecycle s (PrMerged t c st)"
| reopen: "lifecycle (PrClosed t reason) PrOpen"

inductive_simps lifecycle_from_merged: "lifecycle (PrMerged t c st) s"

lemma lifecycle_changes: "lifecycle s s' \<Longrightarrow> s \<noteq> s'"
  by (auto elim: lifecycle.cases)

text \<open>The events that announce a move, and the ones a given move is announced by.\<close>

fun is_lifecycle_event :: "domain_event \<Rightarrow> bool" where
  "is_lifecycle_event (EvPullRequestMerged _ _) = True"
| "is_lifecycle_event (EvPullRequestClosed _ _ _) = True"
| "is_lifecycle_event (EvPullRequestReopened _ _ _) = True"
| "is_lifecycle_event _ = False"

definition announced :: "pr_state \<Rightarrow> pr_state \<Rightarrow> domain_event_kind list" where
  "announced s s' =
     (if s = s' then []
      else case s' of
        PrMerged _ _ _ \<Rightarrow> [KPullRequestMerged]
      | PrClosed _ _ \<Rightarrow> [KPullRequestClosed]
      | PrOpen \<Rightarrow> if is_closed s then [KPullRequestReopened] else []
      | PrDraft \<Rightarrow> [])"

definition logged :: "db \<Rightarrow> domain_event list" where
  "logged d = map event_payload (t_events d)"

definition silent :: "domain_event list \<Rightarrow> bool" where
  "silent evs \<longleftrightarrow> filter is_lifecycle_event evs = []"

text \<open>The three ways in which an operation changes pull requests and the outbox.\<close>

inductive pr_effect :: "db \<Rightarrow> db \<Rightarrow> bool" where
  quiet: "t_pull_requests d' = t_pull_requests d \<Longrightarrow> logged d' = logged d @ new \<Longrightarrow> silent new \<Longrightarrow> pr_effect d d'"
| created: "t_pull_requests d' = t_pull_requests d @ [p] \<Longrightarrow> pr_by_id (pr_id p) d = None \<Longrightarrow>
     pr_state p \<in> {PrOpen, PrDraft} \<Longrightarrow> logged d' = logged d @ new \<Longrightarrow> silent new \<Longrightarrow> pr_effect d d'"
| moved: "p \<in> set (t_pull_requests d) \<Longrightarrow> lifecycle (pr_state p) s \<Longrightarrow>
     t_pull_requests d' = t_pull_requests (set_pr_state (pr_id p) s d) \<Longrightarrow>
     logged d' = logged d @ new \<Longrightarrow>
     map (\<lambda>e. (event_aggregate_id e, event_kind e)) (filter is_lifecycle_event new)
       = map (\<lambda>k. (pr_id p, k)) (announced (pr_state p) s) \<Longrightarrow> pr_effect d d'"

lemma pr_effect_same: "t_pull_requests d' = t_pull_requests d \<Longrightarrow> t_events d' = t_events d \<Longrightarrow> pr_effect d d'"
  by (rule pr_effect.quiet [of _ _ "[]"]) (simp_all add: logged_def silent_def)

lemma pr_effect_refl: "tables w' = tables w \<Longrightarrow> pr_effect (tables w) (tables w')"
  by (simp add: pr_effect_same)

text \<open>What an effect means for one pull request.\<close>

lemma pr_by_id_set:
  "pr_by_id i (set_pr_state j s d) = (if i = j then map_option (\<lambda>p. p\<lparr>pr_state := s\<rparr>) (pr_by_id i d) else pr_by_id i d)"
proof -
  have "find (\<lambda>p. pr_id p = i) (update_where (\<lambda>p. pr_id p = j) (\<lambda>p. p\<lparr>pr_state := s\<rparr>) ps) =
      (if i = j then map_option (\<lambda>p. p\<lparr>pr_state := s\<rparr>) (find (\<lambda>p. pr_id p = i) ps)
       else find (\<lambda>p. pr_id p = i) ps)" for ps
    by (induction ps) (auto simp: update_where_def)
  from this [of "t_pull_requests d"] show ?thesis by (simp add: pr_by_id_def set_pr_state_def)
qed

lemma find_append_Some: "find P xs = Some x \<Longrightarrow> find P (xs @ ys) = Some x"
  by (induction xs) auto

lemma pr_by_id_mem:
  assumes "distinct (map pr_id (t_pull_requests d))" "p \<in> set (t_pull_requests d)"
  shows "pr_by_id (pr_id p) d = Some p"
proof -
  have "find (\<lambda>q. pr_id q = pr_id p) ps = Some p" if "distinct (map pr_id ps)" "p \<in> set ps" for ps
    using that by (induction ps) (auto simp: image_iff)
  then show ?thesis using assms by (simp add: pr_by_id_def)
qed

lemma pr_effect_distinct:
  assumes "pr_effect d d'" "distinct (map pr_id (t_pull_requests d))"
  shows "distinct (map pr_id (t_pull_requests d'))"
  using assms(1)
proof cases
  case (created p new)
  then have "pr_id p \<notin> pr_id ` set (t_pull_requests d)"
    by (auto simp: pr_by_id_def find_None_iff)
  then show ?thesis using assms(2) created by simp
next
  case (moved p s new)
  have "map pr_id (t_pull_requests (set_pr_state (pr_id p) s d)) = map pr_id (t_pull_requests d)"
    by (simp add: set_pr_state_def update_where_def)
  then show ?thesis using assms(2) moved by simp
qed (use assms(2) in simp)

lemma silent_filter: "silent new \<Longrightarrow> filter (\<lambda>e. is_lifecycle_event e \<and> P e) new = []"
  by (auto simp: silent_def filter_empty_conv)

lemma pr_effect_one:
  assumes "pr_effect d d'" "distinct (map pr_id (t_pull_requests d))" "pr_by_id i d = Some p"
  shows "\<exists>p' new. pr_by_id i d' = Some p' \<and> p'\<lparr>pr_state := pr_state p\<rparr> = p
     \<and> (pr_state p' = pr_state p \<or> lifecycle (pr_state p) (pr_state p'))
     \<and> logged d' = logged d @ new
     \<and> map event_kind (filter (\<lambda>e. is_lifecycle_event e \<and> event_aggregate_id e = i) new)
         = announced (pr_state p) (pr_state p')"
  using assms(1)
proof cases
  case (quiet new)
  then show ?thesis using assms(3) silent_filter [of new "\<lambda>e. event_aggregate_id e = i"]
    by (intro exI [of _ p] exI [of _ new]) (simp add: pr_by_id_def announced_def)
next
  case (created q new)
  then show ?thesis using assms(3) silent_filter [of new "\<lambda>e. event_aggregate_id e = i"]
    by (intro exI [of _ p] exI [of _ new]) (auto simp: pr_by_id_def announced_def find_append_Some)
next
  case (moved q s new)
  have i: "pr_id p = i" using assms(3) by (auto simp: pr_by_id_def dest: find_Some_filter)
  have by_id: "pr_by_id i d' = pr_by_id i (set_pr_state (pr_id q) s d)"
    using moved(3) by (simp add: pr_by_id_def)
  have pairs: "map (\<lambda>e. (event_aggregate_id e, event_kind e)) (filter is_lifecycle_event new)
       = map (\<lambda>k. (pr_id q, k)) (announced (pr_state q) s)" by (rule moved(5))
  have "map event_kind (filter (\<lambda>e. is_lifecycle_event e \<and> event_aggregate_id e = i) new)
      = map snd (filter (\<lambda>x. fst x = i) (map (\<lambda>e. (event_aggregate_id e, event_kind e))
          (filter is_lifecycle_event new)))"
    by (simp add: filter_map o_def conj_commute)
  also have "\<dots> = (if pr_id q = i then announced (pr_state q) s else [])"
    unfolding pairs by (simp add: filter_map o_def)
  finally have evs: "map event_kind (filter (\<lambda>e. is_lifecycle_event e \<and> event_aggregate_id e = i) new)
      = (if pr_id q = i then announced (pr_state q) s else [])" .
  show ?thesis
  proof (cases "pr_id q = i")
    case True
    then have "q = p" using pr_by_id_mem [OF assms(2) moved(1)] assms(3) by simp
    then show ?thesis using by_id assms(3) moved(2,4) evs i
      by (intro exI [of _ "p\<lparr>pr_state := s\<rparr>"] exI [of _ new]) (simp add: pr_by_id_set)
  next
    case False
    then show ?thesis using by_id assms(3) moved(4) evs
      by (intro exI [of _ p] exI [of _ new]) (simp add: pr_by_id_set announced_def)
  qed
qed

section \<open>What the operations do\<close>

lemma dbq_Inr [act_simps]: "dbq m w = (Inr x, w') \<longleftrightarrow> m w = (Inr x, w')"
  by (simp add: dbq_def act_simps)

lemma authz_Inr [act_simps]: "authz m w = (Inr x, w') \<longleftrightarrow> m w = (Inr x, w')"
  by (simp add: authz_def act_simps)

lemma sql_Inr:
  "sql f w = (Inr x, w') \<Longrightarrow> f (tables w) = Inr (x, tables w') \<and> clock w' = clock w \<and> git_calls w' = git_calls w"
  by (auto simp: sql_def Let_def split: if_splits sum.splits)

lemma sql_Inl: "sql f w = (Inl e, w') \<Longrightarrow> tables w' = tables w"
  by (auto simp: sql_def Let_def split: if_splits sum.splits)

lemma append_event_Inr:
  "append_event ev w = (Inr u, w') \<Longrightarrow>
     tables w' = (tables w)\<lparr>t_events := t_events (tables w) @
       [\<lparr>event_id = next_uuid w, event_payload = ev, event_occurred_at = clock w, event_processed_at = None\<rparr>]\<rparr>
     \<and> clock w' = clock w \<and> git_calls w' = git_calls w"
  by (auto simp: append_event_def act_simps dest!: sql_Inr split: if_splits)

lemma append_event_logged:
  "append_event ev w = (Inr u, w') \<Longrightarrow> logged (tables w') = logged (tables w) @ [ev]
     \<and> t_pull_requests (tables w') = t_pull_requests (tables w)"
  by (drule append_event_Inr) (simp add: logged_def)

lemma append_mentions_Inr:
  "append_mentions us c src w = (Inr u, w') \<Longrightarrow>
     t_pull_requests (tables w') = t_pull_requests (tables w)
     \<and> logged (tables w') = logged (tables w) @ map (\<lambda>x. EvUserMentioned x c src) us"
proof (induction us arbitrary: w)
  case (Cons x us)
  then obtain v w1 where first: "append_event (EvUserMentioned x c src) w = (Inr v, w1)"
    and rest: "append_mentions us c src w1 = (Inr u, w')"
    by (auto simp: append_mentions_def act_simps)
  show ?case using append_event_logged [OF first] Cons.IH [OF rest] by simp
qed (simp add: append_mentions_def act_simps)

lemma update_pr_state_run:
  assumes "dbq (update_pr_state i s) w = (r, w')"
  shows "tables w' = (if isl r then tables w else set_pr_state i s (tables w))"
  using assms
  by (cases r) (auto simp: dbq_def update_pr_state_def execute_def map_err_def split: prod.splits sum.splits
      dest: sql_Inl sql_Inr)

lemma execute_frame:
  "execute f w = (r, w') \<Longrightarrow> g (f (tables w)) = g (tables w) \<Longrightarrow> g (tables w') = g (tables w)"
  by (cases r) (auto simp: execute_def dest: sql_Inl sql_Inr)

lemma transaction_run:
  assumes "transaction SvDb body w = (r, w')"
  obtains (rolled_back) "isl r" "tables w' = tables w"
    | (committed) x w1 w2 where "r = Inr x" "body w1 = (Inr x, w2)" "tables w1 = tables w" "tables w' = tables w2"
        "clock w1 = clock w" "git_calls w1 = git_calls w" "git_calls w' = git_calls w2"
proof (cases r)
  case (Inl e)
  then show thesis using assms transaction_Inl rolled_back by fastforce
next
  case (Inr x)
  then obtain w1 w2 where "tables w1 = tables w" "clock w1 = clock w" "git_calls w1 = git_calls w"
    "body w1 = (Inr x, w2)" "tables w' = tables w2" "git_calls w' = git_calls w2"
    using assms by (auto elim: transaction_Inr)
  then show thesis using committed [of x w1 w2] Inr by blast
qed

text \<open>A move inside a transaction, with its announcement.\<close>

lemma move_and_announce:
  assumes "and_then (dbq (update_pr_state (pr_id p) s)) (\<lambda>_. dbq (append_event ev)) w = (Inr x, w')"
    and "p \<in> set (t_pull_requests (tables w))" "lifecycle (pr_state p) s"
    and "is_lifecycle_event ev" "event_aggregate_id ev = pr_id p" "announced (pr_state p) s = [event_kind ev]"
  shows "pr_effect (tables w) (tables w')"
proof -
  obtain u w1 where "dbq (update_pr_state (pr_id p) s) w = (Inr u, w1)" "append_event ev w1 = (Inr x, w')"
    using assms(1) by (auto simp: act_simps)
  then have "tables w1 = set_pr_state (pr_id p) s (tables w)" "logged (tables w') = logged (tables w1) @ [ev]"
    "t_pull_requests (tables w') = t_pull_requests (tables w1)"
    using update_pr_state_run [of "pr_id p" s w] append_event_logged by fastforce+
  then show ?thesis using assms(2-6)
    by (intro pr_effect.moved [of p _ s _ "[ev]"]) (simp_all add: logged_def set_pr_state_def)
qed

lemma toggle_effect:
  assumes "dbq (update_pr_state (pr_id p) s) w = (r, w')" "p \<in> set (t_pull_requests (tables w))"
    "lifecycle (pr_state p) s" "announced (pr_state p) s = []"
  shows "pr_effect (tables w) (tables w')"
proof (cases "isl r")
  case False
  then show ?thesis using assms update_pr_state_run [OF assms(1)]
    by (intro pr_effect.moved [of p _ s _ "[]"]) (simp_all add: logged_def set_pr_state_def)
qed (use update_pr_state_run [OF assms(1)] in \<open>simp add: pr_effect_refl\<close>)

lemma ensure_run:
  assumes "and_then (ensure b e) f w = (r, w')"
  obtains (stop) "\<not> b" "r = Inl e" "w' = w" | (go) "b" "f () w = (r, w')"
  using assms by (auto simp: and_then_def ensure_def ok_def err_def split: if_splits)

text \<open>Every operation starts by loading the repository and the pull request.\<close>

lemma ro_then_effect:
  assumes "and_then m f w = (r, w')" "read_only m"
    and "\<And>x w1. m w = (Inr x, w1) \<Longrightarrow> tables w1 = tables w \<Longrightarrow> f x w1 = (r, w') \<Longrightarrow>
           pr_effect (tables w1) (tables w')"
  shows "pr_effect (tables w) (tables w')"
  using assms(1,2)
proof (rule and_then_ro)
  fix x w1 assume "m w = (Inr x, w1)" "tables w1 = tables w" "f x w1 = (r, w')"
  then show ?thesis using assms(3) [of x w1] by simp
qed (simp add: pr_effect_refl)

lemma author_path:
  assumes "and_then (author_or_write_checked actor owner name number) (\<lambda>(rep, pr, uid). F rep pr uid) w = (r, w')"
    and "\<And>rep pr uid w1. pr \<in> set (t_pull_requests (tables w1)) \<Longrightarrow> F rep pr uid w1 = (r, w') \<Longrightarrow>
           pr_effect (tables w1) (tables w')"
  shows "pr_effect (tables w) (tables w')"
  using assms(1) read_only_author_or_write
proof (rule ro_then_effect)
  fix x w1
  assume x: "author_or_write_checked actor owner name number w = (Inr x, w1)" and t: "tables w1 = tables w"
    and rest: "(case x of (rep, pr, uid) \<Rightarrow> F rep pr uid) w1 = (r, w')"
  obtain rep pr uid where xx: "x = (rep, pr, uid)" by (cases x)
  have "pr_by_number (repo_id rep) number (tables w1) = Some pr"
    using author_or_write_Inr [OF x [unfolded xx]] t by simp
  then have "pr \<in> set (t_pull_requests (tables w1))" using pr_by_number_mem by blast
  then show "pr_effect (tables w1) (tables w')" using assms(2) rest xx by simp
qed

lemma ensure_path:
  assumes "and_then (ensure b e) f w = (r, w')"
    and "b \<Longrightarrow> f () w = (r, w') \<Longrightarrow> pr_effect (tables w) (tables w')"
  shows "pr_effect (tables w) (tables w')"
  using assms(1) by (rule ensure_run) (simp_all add: assms(2) pr_effect_refl)

lemma transaction_path:
  assumes "transaction SvDb body w = (r, w')"
    and "\<And>x w1 w2. body w1 = (Inr x, w2) \<Longrightarrow> tables w1 = tables w \<Longrightarrow> tables w' = tables w2 \<Longrightarrow>
           pr_effect (tables w1) (tables w2)"
  shows "pr_effect (tables w) (tables w')"
  using assms(1) by (rule transaction_run) (auto simp: pr_effect_refl dest: assms(2))

lemma mark_ready_effect:
  "mark_ready actor owner name number w = (r, w') \<Longrightarrow> pr_effect (tables w) (tables w')"
  unfolding mark_ready_def
proof (erule author_path, erule ensure_path)
  fix rep :: repository and pr :: pull_request and uid w1
  assume "pr \<in> set (t_pull_requests (tables w1))" "pr_state pr = PrDraft"
    "dbq (update_pr_state (pr_id pr) PrOpen) w1 = (r, w')"
  then show "pr_effect (tables w1) (tables w')"
    by (intro toggle_effect [of pr PrOpen w1 r w']) (simp_all add: lifecycle.ready announced_def)
qed

lemma convert_to_draft_effect:
  "convert_to_draft actor owner name number w = (r, w') \<Longrightarrow> pr_effect (tables w) (tables w')"
  unfolding convert_to_draft_def
proof (erule author_path, erule ensure_path)
  fix rep :: repository and pr :: pull_request and uid w1
  assume "pr \<in> set (t_pull_requests (tables w1))" "pr_state pr = PrOpen"
    "dbq (update_pr_state (pr_id pr) PrDraft) w1 = (r, w')"
  then show "pr_effect (tables w1) (tables w')"
    by (intro toggle_effect [of pr PrDraft w1 r w']) (simp_all add: lifecycle.draft announced_def)
qed

lemma pr_close_effect:
  "pr_close actor owner name number w = (r, w') \<Longrightarrow> pr_effect (tables w) (tables w')"
  unfolding pr_close_def
proof (erule author_path, erule ensure_path, erule transaction_path)
  fix rep :: repository and pr :: pull_request and uid w1 x w2 w3
  assume pr: "pr \<in> set (t_pull_requests (tables w1))" "pr_is_open (pr_state pr)" "tables w2 = tables w1"
    and body: "and_then now_unix (\<lambda>now. and_then (dbq (update_pr_state (pr_id pr) (PrClosed now NotPlanned)))
       (\<lambda>_. dbq (append_event (EvPullRequestClosed (pr_id pr) (repo_id rep) uid)))) w2 = (Inr x, w3)"
  then have "and_then (dbq (update_pr_state (pr_id pr) (PrClosed (clock w2) NotPlanned)))
       (\<lambda>_. dbq (append_event (EvPullRequestClosed (pr_id pr) (repo_id rep) uid))) w2 = (Inr x, w3)"
    by (simp add: act_simps)
  then show "pr_effect (tables w2) (tables w3)"
    by (rule move_and_announce) (use pr in \<open>auto simp: lifecycle.close announced_def\<close>)
qed

lemma load_pr_path:
  assumes "and_then (load_pr rid number) f w = (r, w')"
    and "\<And>pr w1. pr \<in> set (t_pull_requests (tables w1)) \<Longrightarrow> f pr w1 = (r, w') \<Longrightarrow> pr_effect (tables w1) (tables w')"
  shows "pr_effect (tables w) (tables w')"
  using assms(1) read_only_load_pr
proof (rule ro_then_effect)
  fix pr w1 assume "load_pr rid number w = (Inr pr, w1)" "tables w1 = tables w" "f pr w1 = (r, w')"
  then show "pr_effect (tables w1) (tables w')" using assms(2) [of pr w1] load_pr_Inr [of rid number w pr w1] pr_by_number_mem [of rid number "tables w" pr] by simp
qed

lemma write_path:
  assumes "and_then (write_checked actor owner name) (\<lambda>(rep, uid). F rep uid) w = (r, w')"
    and "\<And>rep uid w1. F rep uid w1 = (r, w') \<Longrightarrow> pr_effect (tables w1) (tables w')"
  shows "pr_effect (tables w) (tables w')"
  using assms(1) read_only_write_checked
proof (rule ro_then_effect)
  fix x w1 assume "(case x of (rep, uid) \<Rightarrow> F rep uid) w1 = (r, w')"
  then show "pr_effect (tables w1) (tables w')" using assms(2) by (cases x) simp
qed

lemma pr_reopen_effect:
  "pr_reopen actor owner name number w = (r, w') \<Longrightarrow> pr_effect (tables w) (tables w')"
  unfolding pr_reopen_def
proof (erule write_path, erule load_pr_path, erule ensure_path, erule transaction_path)
  fix rep :: repository and uid and pr :: pull_request and w1 x w2 w3
  assume pr: "pr \<in> set (t_pull_requests (tables w1))" "is_closed (pr_state pr)" "tables w2 = tables w1"
    and body: "and_then (dbq (update_pr_state (pr_id pr) PrOpen))
       (\<lambda>_. dbq (append_event (EvPullRequestReopened (pr_id pr) (repo_id rep) uid))) w2 = (Inr x, w3)"
  obtain t reason where "pr_state pr = PrClosed t reason" using pr(2) by (cases "pr_state pr") auto
  then show "pr_effect (tables w2) (tables w3)"
    using move_and_announce [OF body] pr lifecycle.reopen by (auto simp: announced_def)
qed

text \<open>Actions that touch neither pull requests nor the outbox.\<close>

definition still :: "('e, 'a) act \<Rightarrow> bool" where
  "still m \<longleftrightarrow> (\<forall>w. t_pull_requests (tables (snd (m w))) = t_pull_requests (tables w)
                 \<and> t_events (tables (snd (m w))) = t_events (tables w))"

lemma stillD:
  "still m \<Longrightarrow> m w = (r, w') \<Longrightarrow>
     t_pull_requests (tables w') = t_pull_requests (tables w) \<and> t_events (tables w') = t_events (tables w)"
  unfolding still_def by (metis snd_conv)

lemma still_read_only: "read_only m \<Longrightarrow> still m"
  by (simp add: still_def read_only_def)

lemmas still_basic = still_read_only [OF read_only_ok] still_read_only [OF read_only_err]
  still_read_only [OF read_only_fresh] still_read_only [OF read_only_now] still_read_only [OF read_only_select]

lemma still_sql:
  "(\<And>d x d'. f d = Inr (x, d') \<Longrightarrow> t_pull_requests d' = t_pull_requests d \<and> t_events d' = t_events d) \<Longrightarrow> still (sql f)"
  by (auto simp: still_def sql_def Let_def split: sum.splits)

lemma still_and_then: "still m \<Longrightarrow> (\<And>x. still (f x)) \<Longrightarrow> still (and_then m f)"
  unfolding still_def and_then_def by (auto split: prod.splits sum.splits) (metis snd_conv)+

lemma still_map_err: "still m \<Longrightarrow> still (map_err g m)"
  unfolding still_def map_err_def by (auto split: prod.splits sum.splits) (metis snd_conv)+

lemma still_dbq: "still m \<Longrightarrow> still (dbq m)"
  unfolding dbq_def by (rule still_map_err)

lemma still_outcome: "still m \<Longrightarrow> still (outcome m)"
  unfolding still_def outcome_def by (auto split: prod.splits) (metis snd_conv)+

lemma still_review_insert: "still (review_insert i p u s b)"
  unfolding review_insert_def
  by (intro still_and_then still_basic still_sql) (auto simp: insert_review_row_def split: if_splits)

lemma still_request_insert: "still (review_request_insert i p u)"
  unfolding review_request_insert_def
  by (intro still_and_then still_basic still_sql) (auto simp: request_row_def split: if_splits)

lemma still_request_delete: "still (review_request_delete p u)"
  unfolding review_request_delete_def by (intro still_sql) auto

lemma still_comment_insert: "still (pr_comment_insert i p u b a)"
  unfolding pr_comment_insert_def
  by (intro still_and_then still_basic still_sql) (auto simp: insert_pr_comment_row_def split: if_splits)

lemma still_audit: "still (audit_if_user actor e)"
  unfolding audit_if_user_def audit_record_def execute_def
  by (cases "actor_user_id actor")
    (auto intro!: still_and_then still_outcome still_sql still_basic)

lemma still_next_number: "still (next_number rid)"
proof -
  have "still (number_loop n rid)" for n
    by (induction n)
      (auto simp: read_current_def try_advance_def with_counters_def split: option.splits
        intro!: still_and_then still_map_err still_sql still_basic)
  then show ?thesis
    unfolding next_number_def ensure_counter_row_def with_counters_def
    by (intro still_and_then still_map_err still_sql) (auto split: if_splits)
qed

lemma pr_effect_still:
  "pr_effect d d' \<Longrightarrow> t_pull_requests d'' = t_pull_requests d' \<Longrightarrow> t_events d'' = t_events d' \<Longrightarrow> pr_effect d d''"
  by (erule pr_effect.cases) (auto intro: pr_effect.intros simp: logged_def)

lemma still_then_quiet_event:
  assumes "still m" "and_then m (\<lambda>x. dbq (append_event (ev x))) w = (Inr u, w')" "\<And>x. \<not> is_lifecycle_event (ev x)"
  shows "pr_effect (tables w) (tables w')"
proof -
  obtain x w1 where m: "m w = (Inr x, w1)" and app: "append_event (ev x) w1 = (Inr u, w')"
    using assms(2) by (auto simp: act_simps)
  show ?thesis
    using stillD [OF assms(1) m] append_event_logged [OF app] assms(3)
    by (intro pr_effect.quiet [of _ _ "[ev x]"]) (simp_all add: logged_def silent_def)
qed

lemma submit_review_effect:
  "submit_review actor owner name number state body w = (r, w') \<Longrightarrow> pr_effect (tables w) (tables w')"
  unfolding submit_review_def
proof (erule write_path, erule ro_then_effect [OF _ read_only_or_err], erule load_pr_path)
  fix rep :: repository and uid w1 verdict w2 and pr :: pull_request and w3
  let ?tx = "transaction SvDb
     (and_then fresh_uuid (\<lambda>i. and_then (dbq (review_insert i (pr_id pr) uid verdict (non_blank body))) (\<lambda>_.
        dbq (append_event (EvPullRequestReviewSubmitted (pr_id pr) (repo_id rep) uid verdict)))))"
  assume run: "and_then ?tx (\<lambda>_. and_then (dbq (review_request_delete (pr_id pr) uid)) (\<lambda>_. ok ())) w3 = (r, w')"
  obtain s w4 where tx: "?tx w3 = (s, w4)" by fastforce
  have eff: "pr_effect (tables w3) (tables w4)"
    using tx
  proof (rule transaction_path)
    fix x v1 v2 assume "(and_then fresh_uuid (\<lambda>i. and_then (dbq (review_insert i (pr_id pr) uid verdict (non_blank body))) (\<lambda>_.
        dbq (append_event (EvPullRequestReviewSubmitted (pr_id pr) (repo_id rep) uid verdict))))) v1 = (Inr x, v2)"
    then have "and_then (and_then fresh_uuid (\<lambda>i. dbq (review_insert i (pr_id pr) uid verdict (non_blank body))))
        (\<lambda>_. dbq (append_event (EvPullRequestReviewSubmitted (pr_id pr) (repo_id rep) uid verdict))) v1 = (Inr x, v2)"
      by (auto simp: act_simps)
    then show "pr_effect (tables v1) (tables v2)"
      by (rule still_then_quiet_event [rotated])
        (auto intro!: still_and_then still_dbq still_review_insert still_basic)
  qed
  show "pr_effect (tables w3) (tables w')"
  proof (cases s)
    case (Inl e)
    then show ?thesis using run tx eff by (simp add: and_then_def)
  next
    case (Inr u)
    then have "and_then (dbq (review_request_delete (pr_id pr) uid)) (\<lambda>_. ok ()) w4 = (r, w')"
      using run tx by (simp add: and_then_def)
    moreover have "still (and_then (dbq (review_request_delete (pr_id pr) uid)) (\<lambda>_. ok ()))"
      by (intro still_and_then still_dbq still_request_delete still_read_only read_only_ok)
    ultimately show ?thesis using stillD pr_effect_still [OF eff] by blast
  qed
qed

lemma still_effect: "still m \<Longrightarrow> m w = (r, w') \<Longrightarrow> pr_effect (tables w) (tables w')"
  using stillD by (blast intro: pr_effect_same)

lemma request_review_effect:
  "request_review actor owner name number reviewer w = (r, w') \<Longrightarrow> pr_effect (tables w) (tables w')"
  unfolding request_review_def
proof (erule write_path, erule load_pr_path, erule ro_then_effect [OF _ read_only_dbq [OF read_only_select]],
    erule ro_then_effect [OF _ read_only_or_err], erule transaction_path)
  fix rep :: repository and uid and pr :: pull_request and u :: user and x v1 v2
  assume "and_then fresh_uuid (\<lambda>i. and_then (dbq (review_request_insert i (pr_id pr) (user_id u))) (\<lambda>new.
      if new then dbq (append_event (EvReviewRequested (pr_id pr) (repo_id rep) (user_id u) uid)) else ok ())) v1
    = (Inr x, v2)"
  then obtain i v3 new v4 where f: "fresh_uuid v1 = (Inr i, v3)"
    and ins: "review_request_insert i (pr_id pr) (user_id u) v3 = (Inr new, v4)"
    and ev: "(if new then dbq (append_event (EvReviewRequested (pr_id pr) (repo_id rep) (user_id u) uid)) else ok ()) v4
        = (Inr x, v2)"
    by (auto simp: act_simps)
  have same: "t_pull_requests (tables v4) = t_pull_requests (tables v1)" "t_events (tables v4) = t_events (tables v1)"
    using stillD [OF still_request_insert ins] f by (auto simp: act_simps)
  show "pr_effect (tables v1) (tables v2)"
  proof (cases new)
    case True
    then have "append_event (EvReviewRequested (pr_id pr) (repo_id rep) (user_id u) uid) v4 = (Inr x, v2)"
      using ev by (simp add: act_simps)
    from append_event_logged [OF this] same show ?thesis
      by (intro pr_effect.quiet [of _ _ "[EvReviewRequested (pr_id pr) (repo_id rep) (user_id u) uid]"])
        (simp_all add: logged_def silent_def)
  next
    case False
    then show ?thesis using ev same by (auto simp: act_simps intro: pr_effect_same)
  qed
qed

lemma cancel_review_request_effect:
  "cancel_review_request actor owner name number reviewer w = (r, w') \<Longrightarrow> pr_effect (tables w) (tables w')"
  unfolding cancel_review_request_def
  by (erule still_effect [rotated], intro still_and_then still_read_only [OF read_only_write_checked])
    (auto intro!: still_and_then still_dbq still_request_delete still_basic still_read_only [OF read_only_load_pr]
      still_read_only [OF read_only_or_err])

lemma read_only_resolve_mentions: "read_only (resolve_mentions body c)"
  unfolding resolve_mentions_def by (rule read_only_resolve_names)

lemma pr_add_comment_effect:
  "pr_add_comment actor owner name number body anchor w = (r, w') \<Longrightarrow> pr_effect (tables w) (tables w')"
  unfolding pr_add_comment_def
proof (erule ensure_path, erule author_path,
    erule ro_then_effect [OF _ read_only_dbq [OF read_only_resolve_mentions]],
    erule ro_then_effect [OF _ read_only_fresh], erule transaction_path)
  fix pr :: pull_request and uid us i x v1 v2
  assume "and_then (dbq (pr_comment_insert i (pr_id pr) uid (trim body) anchor)) (\<lambda>_.
      and_then (append_mentions us uid (MentionInPullRequest (pr_id pr))) (\<lambda>_. ok i)) v1 = (Inr x, v2)"
  then obtain a v3 b where "pr_comment_insert i (pr_id pr) uid (trim body) anchor v1 = (Inr a, v3)"
    "append_mentions us uid (MentionInPullRequest (pr_id pr)) v3 = (Inr b, v2)"
    by (auto simp: act_simps)
  then show "pr_effect (tables v1) (tables v2)"
    using stillD [OF still_comment_insert] append_mentions_Inr
    by (intro pr_effect.quiet [of _ _ "map (\<lambda>y. EvUserMentioned y uid (MentionInPullRequest (pr_id pr))) us"])
      (fastforce simp: logged_def silent_def filter_empty_conv)+
qed

lemma pull_request_insert_Inr:
  assumes "pull_request_insert i rid new w = (Inr n, w')"
  shows "\<exists>p. t_pull_requests (tables w') = t_pull_requests (tables w) @ [p] \<and> pr_by_id (pr_id p) (tables w) = None
    \<and> pr_id p = i \<and> pr_number p = n \<and> pr_state p = (if new_draft new then PrDraft else PrOpen)
    \<and> t_events (tables w') = t_events (tables w)"
proof -
  obtain w1 where num: "next_number rid w = (Inr n, w1)"
    and ins: "sql (insert_pr_row
             \<lparr>pr_id = i, pr_repository_id = rid, pr_number = n, pr_title = new_title new,
              pr_body = new_body new, pr_author_id = new_author_id new, pr_source = new_source new,
              pr_target = new_target new, pr_state = (if new_draft new then PrDraft else PrOpen),
              pr_created_at = clock w1\<rparr>) w1 = (Inr (), w')"
    using assms by (auto simp: pull_request_insert_def act_simps)
  define p where "p = \<lparr>pr_id = i, pr_repository_id = rid, pr_number = n, pr_title = new_title new,
              pr_body = new_body new, pr_author_id = new_author_id new, pr_source = new_source new,
              pr_target = new_target new, pr_state = (if new_draft new then PrDraft else PrOpen),
              pr_created_at = clock w1\<rparr>"
  have "tables w' = (tables w1)\<lparr>t_pull_requests := t_pull_requests (tables w1) @ [p]\<rparr>
      \<and> pr_by_id (pr_id p) (tables w1) = None"
    using sql_Inr [OF ins [folded p_def]] by (auto simp: insert_pr_row_def split: if_splits)
  then show ?thesis using stillD [OF still_next_number num]
    by (intro exI [of _ p]) (simp add: pr_by_id_def p_def)
qed

lemma pr_open_effect:
  "pr_open g actor owner name i w = (r, w') \<Longrightarrow> pr_effect (tables w) (tables w')"
  unfolding pr_open_def
proof (erule ro_then_effect [OF _ read_only_require_user], erule ensure_path,
    erule ro_then_effect [OF _ read_only_authz [OF read_only_repository_by_name]],
    erule ro_then_effect [OF _ read_only_resolve_source], erule ro_then_effect [OF _ read_only_fresh],
    erule ro_then_effect [OF _ read_only_open_checked], erule transaction_path)
  fix author and t s :: repository and pid x v1 v2
  let ?new = "\<lparr>new_title = trim (in_title i), new_body = non_blank (in_body i), new_author_id = author,
    new_source = \<lparr>ref_repository_id = repo_id s, ref_branch = snd (source_side i)\<rparr>,
    new_target = in_target_branch i, new_draft = in_draft i\<rparr>"
  assume "and_then (map_err service_of_insert (pull_request_insert pid (repo_id t) ?new)) (\<lambda>number.
      and_then (dbq (append_event (EvPullRequestOpened pid (repo_id t) author))) (\<lambda>_. ok number)) v1 = (Inr x, v2)"
  then obtain n v3 a where ins: "pull_request_insert pid (repo_id t) ?new v1 = (Inr n, v3)"
    and ev: "append_event (EvPullRequestOpened pid (repo_id t) author) v3 = (Inr a, v2)"
    by (auto simp: act_simps)
  obtain p where "t_pull_requests (tables v3) = t_pull_requests (tables v1) @ [p]" "pr_by_id (pr_id p) (tables v1) = None"
    "pr_state p \<in> {PrOpen, PrDraft}" "t_events (tables v3) = t_events (tables v1)"
    using pull_request_insert_Inr [OF ins] by (auto split: if_splits)
  then show "pr_effect (tables v1) (tables v2)"
    using append_event_logged [OF ev]
    by (intro pr_effect.created [of _ _ p "[EvPullRequestOpened pid (repo_id t) author]"])
      (simp_all add: logged_def silent_def)
qed

section \<open>What a merge records\<close>

text \<open>The issues a merge closes: open issues of the repository whose number a closing keyword names.\<close>

definition closes :: "uuid \<Rightarrow> int list \<Rightarrow> issue \<Rightarrow> bool" where
  "closes rid nums x \<longleftrightarrow> issue_repository_id x = rid \<and> issue_number x \<in> set nums \<and> issue_is_open (issue_state x)"

definition completed :: "int \<Rightarrow> issue \<Rightarrow> issue" where
  "completed now x = x\<lparr>issue_state := IssueClosed now Completed\<rparr>"

lemma completed_simps [simp]:
  "issue_id (completed now x) = issue_id x" "issue_repository_id (completed now x) = issue_repository_id x"
  "issue_number (completed now x) = issue_number x" "\<not> issue_is_open (issue_state (completed now x))"
  "\<not> closes rid nums (completed now x)"
  by (simp_all add: completed_def closes_def)

definition issue_keys_distinct :: "db \<Rightarrow> bool" where
  "issue_keys_distinct d \<longleftrightarrow> distinct (map issue_id (t_issues d))
     \<and> distinct (map (\<lambda>x. (issue_repository_id x, issue_number x)) (t_issues d))"

lemma issue_keysD:
  assumes "issue_keys_distinct d" "x \<in> set (t_issues d)" "y \<in> set (t_issues d)"
  shows "issue_id x = issue_id y \<longleftrightarrow> x = y"
    and "issue_repository_id x = issue_repository_id y \<and> issue_number x = issue_number y \<longleftrightarrow> x = y"
  using assms by (auto simp: issue_keys_distinct_def distinct_map inj_on_def)

lemma close_issue_cases:
  assumes "close_issue actor rid pid n w = (Inr u, w')"
  obtains (untouched) "\<And>x. issue_by_number rid n (tables w) = Some x \<Longrightarrow> \<not> issue_is_open (issue_state x)"
      "tables w' = tables w" "clock w' = clock w"
    | (closing) x w1 where "issue_by_number rid n (tables w) = Some x" "issue_is_open (issue_state x)"
      "tables w1 = set_issue_state (issue_id x) (IssueClosed (clock w) Completed) (tables w)" "clock w1 = clock w"
      "(case actor_user_id actor of None \<Rightarrow> ok ()
        | Some uid \<Rightarrow> dbq (append_event (EvIssueClosed (issue_id x) rid uid (Some pid)))) w1 = (Inr u, w')"
proof -
  let ?after = "\<lambda>found. case found of
         None \<Rightarrow> ok ()
       | Some issue \<Rightarrow>
           if \<not> issue_is_open (issue_state issue) then ok ()
           else
             and_then now_unix (\<lambda>now.
               and_then (dbq (update_issue_state (issue_id issue) (IssueClosed now Completed))) (\<lambda>_.
                 case actor_user_id actor of
                   None \<Rightarrow> ok ()
                 | Some uid \<Rightarrow>
                     dbq (append_event (EvIssueClosed (issue_id issue) rid uid (Some pid)))))"
  obtain found w1 where sel: "select (issue_by_number rid n) w = (Inr found, w1)" and rest: "?after found w1 = (Inr u, w')"
    using assms unfolding close_issue_def by (auto simp: act_simps)
  have found: "issue_by_number rid n (tables w) = found" and s: "tables w1 = tables w" "clock w1 = clock w"
    using select_Inr [OF sel] by simp_all
  show thesis
  proof (cases "\<exists>x. found = Some x \<and> issue_is_open (issue_state x)")
    case False
    then have "w' = w1" using rest by (auto simp: act_simps split: option.splits if_splits)
    then show thesis using False found s by (intro that(1)) auto
  next
    case True
    then obtain x where x: "found = Some x" "issue_is_open (issue_state x)" by blast
    then obtain v w2 where up: "execute (set_issue_state (issue_id x) (IssueClosed (clock w1) Completed)) w1 = (Inr v, w2)"
      and ev: "(case actor_user_id actor of None \<Rightarrow> ok ()
        | Some uid \<Rightarrow> dbq (append_event (EvIssueClosed (issue_id x) rid uid (Some pid)))) w2 = (Inr u, w')"
      using rest by (auto simp: act_simps update_issue_state_def)
    show thesis by (rule that(2) [of x w2]) (use found x execute_Inr [OF up] ev s in auto)
  qed
qed

lemma close_issue_Inr:
  assumes "close_issue actor rid pid n w = (Inr u, w')" "actor_user_id actor = Some uid"
  shows "clock w' = clock w \<and>
    (case issue_by_number rid n (tables w) of
       Some x \<Rightarrow>
         if issue_is_open (issue_state x)
         then t_issues (tables w') = update_where (\<lambda>y. issue_id y = issue_id x) (completed (clock w)) (t_issues (tables w))
            \<and> logged (tables w') = logged (tables w) @ [EvIssueClosed (issue_id x) rid uid (Some pid)]
            \<and> t_pull_requests (tables w') = t_pull_requests (tables w)
         else tables w' = tables w
     | None \<Rightarrow> tables w' = tables w)"
  using assms(1)
proof (rule close_issue_cases)
  fix x w1 assume x: "issue_by_number rid n (tables w) = Some x" "issue_is_open (issue_state x)"
    "tables w1 = set_issue_state (issue_id x) (IssueClosed (clock w) Completed) (tables w)" "clock w1 = clock w"
    "(case actor_user_id actor of None \<Rightarrow> ok ()
        | Some uid \<Rightarrow> dbq (append_event (EvIssueClosed (issue_id x) rid uid (Some pid)))) w1 = (Inr u, w')"
  then have "append_event (EvIssueClosed (issue_id x) rid uid (Some pid)) w1 = (Inr u, w')"
    using assms(2) by (simp add: act_simps)
  then show ?thesis using append_event_Inr x
    by (fastforce simp: set_issue_state_def logged_def completed_def [abs_def])
qed (auto split: option.split)

lemma update_where_twice:
  assumes "\<And>x. x \<in> set xs \<Longrightarrow> R x \<longleftrightarrow> P x \<or> Q x" "\<And>x. \<not> Q (f x)"
  shows "update_where Q f (update_where P f xs) = update_where R f xs"
  using assms by (simp add: update_where_def)

lemma close_issues_Inr:
  assumes "for_each nums (close_issue actor rid pid) w = (Inr u, w')" "actor_user_id actor = Some uid"
    "issue_keys_distinct (tables w)"
  shows "t_issues (tables w') = update_where (closes rid nums) (completed (clock w)) (t_issues (tables w))
    \<and> t_pull_requests (tables w') = t_pull_requests (tables w) \<and> clock w' = clock w
    \<and> (\<exists>ids. distinct ids \<and> set ids = issue_id ` {x \<in> set (t_issues (tables w)). closes rid nums x}
         \<and> logged (tables w') = logged (tables w) @ map (\<lambda>i. EvIssueClosed i rid uid (Some pid)) ids)"
  using assms(1,3)
proof (induction nums arbitrary: w)
  case Nil
  then show ?case by (simp add: act_simps closes_def update_where_def)
next
  case (Cons n ns)
  then obtain v w1 where one: "close_issue actor rid pid n w = (Inr v, w1)"
    and more: "for_each ns (close_issue actor rid pid) w1 = (Inr u, w')"
    by (auto simp: act_simps)
  note step = close_issue_Inr [OF one assms(2)]
  have found: "issue_by_number rid n (tables w) = Some x" if "x \<in> set (t_issues (tables w))"
    "issue_repository_id x = rid" "issue_number x = n" for x
  proof -
    have "issue_by_number rid n (tables w) \<noteq> None" using that by (auto simp: issue_by_number_def find_None_iff)
    then obtain y where y: "issue_by_number rid n (tables w) = Some y" by blast
    then have "y \<in> set (t_issues (tables w))" "issue_repository_id y = rid" "issue_number y = n"
      unfolding issue_by_number_def by (auto dest: find_Some_filter)
    then have "y = x" using issue_keysD(2) [OF Cons.prems(2), of y x] that by simp
    then show ?thesis using y by simp
  qed
  show ?case
  proof (cases "\<exists>x. issue_by_number rid n (tables w) = Some x \<and> issue_is_open (issue_state x)")
    case False
    then have same: "tables w1 = tables w" "clock w1 = clock w"
      using step by (auto split: option.splits if_splits)
    have "closes rid (n # ns) x \<longleftrightarrow> closes rid ns x" if "x \<in> set (t_issues (tables w))" for x
      using False found [OF that] by (auto simp: closes_def)
    then have "update_where (closes rid (n # ns)) f (t_issues (tables w)) = update_where (closes rid ns) f (t_issues (tables w))"
      "{x \<in> set (t_issues (tables w)). closes rid (n # ns) x} = {x \<in> set (t_issues (tables w)). closes rid ns x}" for f
      by (auto simp: update_where_def)
    then show ?thesis using Cons.IH [OF more] Cons.prems(2) same by simp
  next
    case True
    then obtain x where x: "issue_by_number rid n (tables w) = Some x" "issue_is_open (issue_state x)" by blast
    then have mem: "x \<in> set (t_issues (tables w))" "issue_repository_id x = rid" "issue_number x = n"
      unfolding issue_by_number_def by (auto dest: find_Some_filter)
    have s1: "t_issues (tables w1) = update_where (\<lambda>y. issue_id y = issue_id x) (completed (clock w)) (t_issues (tables w))"
      "logged (tables w1) = logged (tables w) @ [EvIssueClosed (issue_id x) rid uid (Some pid)]"
      "t_pull_requests (tables w1) = t_pull_requests (tables w)" "clock w1 = clock w"
      using step x by simp_all
    have "map issue_id (t_issues (tables w1)) = map issue_id (t_issues (tables w))"
      "map (\<lambda>x. (issue_repository_id x, issue_number x)) (t_issues (tables w1))
        = map (\<lambda>x. (issue_repository_id x, issue_number x)) (t_issues (tables w))"
      unfolding s1 by (simp_all add: map_update_where)
    then have "issue_keys_distinct (tables w1)" using Cons.prems(2) by (simp add: issue_keys_distinct_def)
    note IH = Cons.IH [OF more this]
    have x_or: "closes rid (n # ns) y \<longleftrightarrow> issue_id y = issue_id x \<or> closes rid ns y"
      if "y \<in> set (t_issues (tables w))" for y
      using issue_keysD [OF Cons.prems(2) that mem(1)] mem x(2) by (auto simp: closes_def)
    have issues: "t_issues (tables w') = update_where (closes rid (n # ns)) (completed (clock w)) (t_issues (tables w))"
      using IH update_where_twice [of "t_issues (tables w)" "closes rid (n # ns)", OF x_or completed_simps(5)]
      unfolding s1 by simp
    have changed: "completed t x \<noteq> x" for t using x(2) completed_simps(4) [of t x] by metis
    have rest: "{y \<in> set (t_issues (tables w1)). closes rid ns y}
        = {y \<in> set (t_issues (tables w)). closes rid (n # ns) y} - {x}"
      using x_or issue_keysD(1) [OF Cons.prems(2) _ mem(1)] changed changed [symmetric]
      by (auto simp: s1 set_update_where)
    obtain ids where ids: "distinct ids" "set ids = issue_id ` {y \<in> set (t_issues (tables w1)). closes rid ns y}"
      "logged (tables w') = logged (tables w1) @ map (\<lambda>i. EvIssueClosed i rid uid (Some pid)) ids"
      using IH by blast
    have "closes rid (n # ns) x" using x_or [OF mem(1)] by simp
    moreover have "issue_id x \<notin> set ids"
    proof -
      have "issue_id y \<noteq> issue_id x" if "y \<in> set (t_issues (tables w)) - {x}" for y
        using issue_keysD(1) [OF Cons.prems(2) _ mem(1), of y] that by simp
      then show ?thesis using ids(2) unfolding rest by fastforce
    qed
    ultimately have "distinct (issue_id x # ids)"
      "set (issue_id x # ids) = issue_id ` {y \<in> set (t_issues (tables w)). closes rid (n # ns) y}"
      using ids(1,2) mem(1) unfolding rest by auto
    then show ?thesis using issues IH s1 ids(3)
      by (intro conjI exI [of _ "issue_id x # ids"]) simp_all
  qed
qed

lemma record_merge_Inr:
  assumes "record_merge actor rid pr s w = (Inr u, w')" "actor_user_id actor = Some uid"
    "issue_keys_distinct (tables w)"
  shows "t_pull_requests (tables w') = t_pull_requests (set_pr_state (pr_id pr) s (tables w))
    \<and> t_issues (tables w') = update_where (closes rid (closing_numbers pr)) (completed (clock w)) (t_issues (tables w))
    \<and> (\<exists>ids. distinct ids \<and> set ids = issue_id ` {x \<in> set (t_issues (tables w)). closes rid (closing_numbers pr) x}
         \<and> logged (tables w') = logged (tables w) @ EvPullRequestMerged (pr_id pr) rid
             # map (\<lambda>i. EvIssueClosed i rid uid (Some (pr_id pr))) ids)"
  using assms(1) unfolding record_merge_def
proof (rule transaction_run)
  fix x w1 w2
  assume body: "and_then (dbq (update_pr_state (pr_id pr) s)) (\<lambda>_. and_then (dbq (append_event (EvPullRequestMerged (pr_id pr) rid)))
      (\<lambda>_. for_each (closing_numbers pr) (close_issue actor rid (pr_id pr)))) w1 = (Inr x, w2)"
    and t: "tables w1 = tables w" "tables w' = tables w2" "clock w1 = clock w"
  then obtain a w3 b w4 where up: "execute (set_pr_state (pr_id pr) s) w1 = (Inr a, w3)"
    and ev: "append_event (EvPullRequestMerged (pr_id pr) rid) w3 = (Inr b, w4)"
    and fe: "for_each (closing_numbers pr) (close_issue actor rid (pr_id pr)) w4 = (Inr x, w2)"
    by (auto simp: act_simps update_pr_state_def)
  have w4: "t_issues (tables w4) = t_issues (tables w)" "clock w4 = clock w"
    "t_pull_requests (tables w4) = t_pull_requests (set_pr_state (pr_id pr) s (tables w))"
    "logged (tables w4) = logged (tables w) @ [EvPullRequestMerged (pr_id pr) rid]"
    using execute_Inr [OF up] append_event_Inr [OF ev] t by (simp_all add: logged_def set_pr_state_def)
  then have "issue_keys_distinct (tables w4)" using assms(3) by (simp add: issue_keys_distinct_def)
  from close_issues_Inr [OF fe assms(2) this] show ?thesis
    unfolding t w4 by simp
qed simp

text \<open>Seen as an effect, under any actor and whatever the issues are.\<close>

lemma close_issue_quiet:
  assumes "close_issue actor rid pid n w = (Inr u, w')"
  shows "t_pull_requests (tables w') = t_pull_requests (tables w)
     \<and> (\<exists>new. logged (tables w') = logged (tables w) @ new \<and> silent new)"
  using assms
proof (rule close_issue_cases)
  fix x w1 assume x: "tables w1 = set_issue_state (issue_id x) (IssueClosed (clock w) Completed) (tables w)"
    and ev: "(case actor_user_id actor of None \<Rightarrow> ok ()
        | Some uid \<Rightarrow> dbq (append_event (EvIssueClosed (issue_id x) rid uid (Some pid)))) w1 = (Inr u, w')"
  have w1: "t_pull_requests (tables w1) = t_pull_requests (tables w)" "logged (tables w1) = logged (tables w)"
    using x by (simp_all add: set_issue_state_def logged_def)
  show ?thesis
  proof (cases "actor_user_id actor")
    case None
    then show ?thesis using ev w1 by (auto simp: act_simps silent_def)
  next
    case (Some uid)
    then have "append_event (EvIssueClosed (issue_id x) rid uid (Some pid)) w1 = (Inr u, w')"
      using ev by (simp add: act_simps)
    from append_event_logged [OF this] w1 show ?thesis by (simp add: silent_def)
  qed
qed (simp add: silent_def)

lemma close_issues_quiet:
  "for_each nums (close_issue actor rid pid) w = (Inr u, w') \<Longrightarrow>
     t_pull_requests (tables w') = t_pull_requests (tables w)
     \<and> (\<exists>new. logged (tables w') = logged (tables w) @ new \<and> silent new)"
proof (induction nums arbitrary: w)
  case (Cons n ns)
  then obtain v w1 where one: "close_issue actor rid pid n w = (Inr v, w1)"
    and more: "for_each ns (close_issue actor rid pid) w1 = (Inr u, w')"
    by (auto simp: act_simps)
  obtain a b where "logged (tables w1) = logged (tables w) @ a" "silent a"
    "logged (tables w') = logged (tables w1) @ b" "silent b"
    using close_issue_quiet [OF one] Cons.IH [OF more] by blast
  then have "logged (tables w') = logged (tables w) @ (a @ b) \<and> silent (a @ b)" by (simp add: silent_def)
  then show ?case using close_issue_quiet [OF one] Cons.IH [OF more] by auto
qed (simp add: act_simps silent_def)

lemma record_merge_effect:
  assumes "record_merge actor rid pr (PrMerged t c st) w = (r, w')" "pr \<in> set (t_pull_requests (tables w))"
    "pr_is_open (pr_state pr)"
  shows "pr_effect (tables w) (tables w')"
  using assms(1) unfolding record_merge_def
proof (rule transaction_path)
  fix x w1 w2
  assume body: "and_then (dbq (update_pr_state (pr_id pr) (PrMerged t c st))) (\<lambda>_. and_then (dbq (append_event (EvPullRequestMerged (pr_id pr) rid)))
      (\<lambda>_. for_each (closing_numbers pr) (close_issue actor rid (pr_id pr)))) w1 = (Inr x, w2)"
    and tw: "tables w1 = tables w"
  then obtain a w3 b w4 where up: "execute (set_pr_state (pr_id pr) (PrMerged t c st)) w1 = (Inr a, w3)"
    and ev: "append_event (EvPullRequestMerged (pr_id pr) rid) w3 = (Inr b, w4)"
    and fe: "for_each (closing_numbers pr) (close_issue actor rid (pr_id pr)) w4 = (Inr x, w2)"
    by (auto simp: act_simps update_pr_state_def)
  obtain new where new: "logged (tables w2) = logged (tables w4) @ new" "silent new"
    "t_pull_requests (tables w2) = t_pull_requests (tables w4)"
    using close_issues_quiet [OF fe] by blast
  have w4: "t_pull_requests (tables w4) = t_pull_requests (set_pr_state (pr_id pr) (PrMerged t c st) (tables w1))"
    "logged (tables w4) = logged (tables w1) @ [EvPullRequestMerged (pr_id pr) rid]"
    using execute_Inr [OF up] append_event_Inr [OF ev] by (simp_all add: logged_def set_pr_state_def)
  show "pr_effect (tables w1) (tables w2)"
    by (rule pr_effect.moved [of pr _ "PrMerged t c st" _ "EvPullRequestMerged (pr_id pr) rid # new"])
      (use new w4 assms(2,3) tw in \<open>auto simp: silent_def announced_def lifecycle.merge\<close>)
qed

lemma merge_checks_Inr:
  "merge_checks g actor owner name number w = (Inr m, w1) \<Longrightarrow>
     pr_by_number (repo_id (mr_repository m)) number (tables w) = Some (mr_pr m)
     \<and> pr_is_open (pr_state (mr_pr m))"
proof -
  assume "merge_checks g actor owner name number w = (Inr m, w1)"
  then obtain w2 w3 w4 where "acting_user actor w = (Inr (mr_committer m), w2)"
    "authz (repository_by_name owner name) w2 = (Inr (mr_repository m), w3)"
    "load_pr (repo_id (mr_repository m)) number w3 = (Inr (mr_pr m), w4)" "pr_is_open (pr_state (mr_pr m))"
    by (auto simp: merge_checks_def act_simps)
  moreover have "tables w3 = tables w"
    using read_only_tables [OF read_only_acting_user] calculation
      read_only_tables [OF read_only_authz [OF read_only_repository_by_name]] by metis
  ultimately show ?thesis using load_pr_Inr by fastforce
qed

text \<open>The entry a merge leaves in the audit log.\<close>

definition merge_audit :: "merge_request \<Rightarrow> int \<Rightarrow> string \<Rightarrow> merge_strategy \<Rightarrow> uuid \<Rightarrow> audit_event" where
  "merge_audit m number c strategy uid =
     \<lparr>audit_event_type = ''pull_request.merge'', audit_actor_id = Some uid,
      audit_target = Some (''repository'', repo_id (mr_repository m)),
      audit_detail = Some (JObj [(''number'', JNum number), (''merge_commit'', JStr c),
                                 (''strategy'', JStr (merge_strategy_as_db_str strategy))])\<rparr>"

lemma merge_locked_alt:
  "merge_locked g actor owner name number strategy m =
     and_then (incoming_ref g owner name (mr_repository m) (mr_pr m)) (\<lambda>(source_ref, source_label).
       and_then (git_merge g (git_identity owner name) source_ref source_label (pr_target (mr_pr m)) strategy
                  (mr_committer m) (merge_message (mr_pr m) strategy number source_label)) (\<lambda>c.
         and_then now_unix (\<lambda>now.
           and_then (record_merge actor (repo_id (mr_repository m)) (mr_pr m) (PrMerged now c strategy)) (\<lambda>_.
             and_then (audit_if_user actor (merge_audit m number c strategy)) (\<lambda>_. ok c)))))"
  unfolding merge_locked_def merge_audit_def [abs_def] ..

lemma merge_locked_effect:
  assumes "merge_locked g actor owner name number strategy m w = (r, w')"
    and "mr_pr m \<in> set (t_pull_requests (tables w))" "pr_is_open (pr_state (mr_pr m))"
  shows "pr_effect (tables w) (tables w')"
  using assms(1) unfolding merge_locked_alt
proof (rule ro_then_effect [OF _ read_only_incoming_ref])
  fix x w2 assume t2: "tables w2 = tables w"
    and rest: "(case x of (source_ref, source_label) \<Rightarrow>
       and_then (git_merge g (git_identity owner name) source_ref source_label (pr_target (mr_pr m)) strategy
                  (mr_committer m) (merge_message (mr_pr m) strategy number source_label)) (\<lambda>c.
         and_then now_unix (\<lambda>now.
           and_then (record_merge actor (repo_id (mr_repository m)) (mr_pr m) (PrMerged now c strategy)) (\<lambda>_.
             and_then (audit_if_user actor (merge_audit m number c strategy)) (\<lambda>_. ok c))))) w2 = (r, w')"
  obtain ref label where x: "x = (ref, label)" by (cases x)
  show "pr_effect (tables w2) (tables w')"
    using rest unfolding x prod.case
  proof (rule ro_then_effect [OF _ read_only_git_merge], elim ro_then_effect [OF _ read_only_now])
    fix c w3 now w4
    let ?rec = "record_merge actor (repo_id (mr_repository m)) (mr_pr m) (PrMerged now c strategy)"
    let ?aud = "audit_if_user actor (merge_audit m number c strategy)"
    assume t3: "tables w3 = tables w2" "tables w4 = tables w3"
      and run: "and_then ?rec (\<lambda>_. and_then ?aud (\<lambda>_. ok c)) w4 = (r, w')"
    obtain s w5 where rec: "?rec w4 = (s, w5)" by fastforce
    have eff: "pr_effect (tables w4) (tables w5)"
      using record_merge_effect [OF rec] assms(2,3) t2 t3 by simp
    show "pr_effect (tables w4) (tables w')"
    proof (cases s)
      case (Inl e)
      then show ?thesis using run rec eff by (simp add: and_then_def)
    next
      case (Inr u)
      then have "and_then ?aud (\<lambda>_. ok c) w5 = (r, w')" using run rec by (simp add: and_then_def)
      moreover have "still (and_then ?aud (\<lambda>_. ok c))"
        by (intro still_and_then still_audit still_basic)
      ultimately show ?thesis using stillD pr_effect_still [OF eff] by blast
    qed
  qed
qed

lemma pr_merge_effect:
  "pr_merge g actor owner name number strategy w = (r, w') \<Longrightarrow> pr_effect (tables w) (tables w')"
  unfolding pr_merge_def
proof (erule ro_then_effect [OF _ read_only_merge_checks])
  fix m w1 assume m: "merge_checks g actor owner name number w = (Inr m, w1)" and t: "tables w1 = tables w"
    and locked: "merge_locked g actor owner name number strategy m w1 = (r, w')"
  show "pr_effect (tables w1) (tables w')"
    by (rule merge_locked_effect [OF locked]) (use merge_checks_Inr [OF m] pr_by_number_mem t in auto)
qed

end
