(* ===== verification/PR_Guarantees.thy ===== *)
theory PR_Guarantees
  imports PR_Proofs Frames
begin

text \<open>
  The guarantees of the pull-request service over arbitrary calls: \<^verbatim>\<open>pr_call\<close> is a call of one of its
  operations, and the theorems speak about any call, or any sequence of calls, under any database
  faults and any git layer.
\<close>

section \<open>What the helpers leave alone\<close>

lemma frames_decide: "frames F (decide r)"
  by (cases r) (simp_all add: frames_ok frames_err)

context world_component
begin

lemma frames_dbq: "frames F m \<Longrightarrow> frames F (dbq m)"
  unfolding dbq_def by (rule frames_map_err)

lemma frames_authz: "frames F m \<Longrightarrow> frames F (authz m)"
  unfolding authz_def by (rule frames_map_err)

lemma frames_hide: "frames F m \<Longrightarrow> frames F (hide m)"
  unfolding hide_def by (rule frames_map_err)

lemma frames_repository_by_name: "frames F (repository_by_name owner name)"
  unfolding repository_by_name_def find_by_owner_username_and_name_def resolve_owner_def
  by (intro frames_stmt frames_hide)

lemma frames_access_for: "frames F (access_for actor r)"
  unfolding access_for_def by (intro frames_stmt frames_hide)

lemma frames_check_merge: "frames F (check_merge_pull_request actor r branch reviews)"
  unfolding check_merge_pull_request_def find_matching_def list_rules_def
  by (intro frames_stmt frames_hide frames_access_for frames_decide)

lemma frames_acting_user: "frames F (acting_user actor)"
  unfolding acting_user_def require_user_def by (intro frames_stmt frames_dbq)

lemma frames_load_pr: "frames F (load_pr rid number)"
  unfolding load_pr_def by (intro frames_stmt frames_dbq)

lemma frames_repo_identity: "frames F (repo_identity rid)"
  unfolding repo_identity_def by (intro frames_stmt frames_dbq)

end

interpretation calls: world_component git_calls
  by unfold_locales simp_all

interpretation clock: world_component clock
  by unfold_locales simp_all

lemma frames_fresh: "frames git_calls fresh_uuid" "frames clock fresh_uuid"
  by (simp_all add: frames_def fresh_uuid_def)

lemma frames_resolve: "frames git_calls (resolve_branch_commit g i b)" "frames clock (resolve_branch_commit g i b)"
  by (auto simp: frames_def resolve_branch_commit_def split: sum.splits)

lemma clock_import: "frames clock (import_branch_tip g s b d r)"
  by (auto simp: frames_def import_branch_tip_def split: sum.splits)

lemma clock_git_merge: "frames clock (git_merge g i s l t st c m)"
  by (auto simp: frames_def git_merge_def split: sum.splits)

lemma frames_status_gate: "frames git_calls (status_gate g owner name r pr)" "frames clock (status_gate g owner name r pr)"
  unfolding status_gate_def find_matching_def list_rules_def
  by (intro frames_basic frames_resolve calls.frames_select calls.frames_dbq calls.frames_repo_identity)
     (intro frames_basic frames_resolve clock.frames_select clock.frames_dbq clock.frames_repo_identity)

lemma frames_merge_checks:
  "frames git_calls (merge_checks g actor owner name number)" "frames clock (merge_checks g actor owner name number)"
  unfolding merge_checks_def
  by (intro frames_basic frames_status_gate calls.frames_select calls.frames_dbq calls.frames_authz
        calls.frames_acting_user calls.frames_repository_by_name calls.frames_load_pr calls.frames_check_merge)
     (intro frames_basic frames_status_gate clock.frames_select clock.frames_dbq clock.frames_authz
        clock.frames_acting_user clock.frames_repository_by_name clock.frames_load_pr clock.frames_check_merge)

lemma calls_append_event: "frames git_calls (append_event ev)"
  unfolding append_event_def by (intro frames_basic frames_fresh calls.frames_sql)

lemma calls_record_merge: "frames git_calls (record_merge actor rid pr s)"
  unfolding record_merge_def close_issue_def update_pr_state_def update_issue_state_def
  by (intro frames_basic calls.frames_transaction calls.frames_dbq calls.frames_execute calls.frames_select
      calls_append_event)

lemma calls_audit: "frames git_calls (audit_if_user actor entry)"
  unfolding audit_if_user_def audit_record_def by (intro frames_basic calls.frames_execute)

lemma clock_incoming_ref: "frames clock (incoming_ref g owner name r pr)"
  unfolding incoming_ref_def by (intro frames_basic clock.frames_repo_identity clock_import)

section \<open>What reaches the git layer\<close>

fun is_merge_call :: "git_call \<Rightarrow> bool" where
  "is_merge_call (GitMerge _ _ _ _ _ _ _) = True"
| "is_merge_call _ = False"

definition merge_calls :: "world \<Rightarrow> git_call list" where
  "merge_calls w = filter is_merge_call (git_calls w)"

lemma merge_calls_import: "frames merge_calls (import_branch_tip g s b d r)"
  by (auto simp: frames_def import_branch_tip_def merge_calls_def split: sum.splits)

lemma frames_merge_calls: "frames git_calls m \<Longrightarrow> frames merge_calls m"
  by (simp add: frames_def merge_calls_def)

lemma merge_calls_incoming_ref: "frames merge_calls (incoming_ref g owner name r pr)"
  unfolding incoming_ref_def
  by (intro frames_basic frames_merge_calls [OF calls.frames_repo_identity] merge_calls_import)

text \<open>The part of a merge after the checks, taken apart at the call into the git layer.\<close>

lemma merge_locked_cases:
  assumes "merge_locked g actor owner name number strategy m w = (r, w')"
  obtains (no_merge) e where "r = Inl e" "merge_calls w' = merge_calls w" "tables w' = tables w"
    | (merged) source_ref source_label c w1 rec w2 where
        "tables w1 = tables w" "clock w1 = clock w"
        "merge_calls w1 = merge_calls w @ [GitMerge (git_identity owner name) source_ref (pr_target (mr_pr m))
            strategy (user_username (mr_committer m)) (user_email (mr_committer m))
            (merge_message (mr_pr m) strategy number source_label)]"
        "\<exists>cs. do_merge g cs (git_identity owner name) source_ref source_label (pr_target (mr_pr m)) strategy
            (user_username (mr_committer m)) (user_email (mr_committer m))
            (merge_message (mr_pr m) strategy number source_label) = Inr c"
        "record_merge actor (repo_id (mr_repository m)) (mr_pr m) (PrMerged (clock w) c strategy) w1 = (rec, w2)"
        "merge_calls w' = merge_calls w1"
        "(case rec of Inl e \<Rightarrow> r = Inl e \<and> w' = w2
          | Inr _ \<Rightarrow> and_then (audit_if_user actor (merge_audit m number c strategy)) (\<lambda>_. ok c) w2 = (r, w'))"
proof -
  obtain s w1 where inc: "incoming_ref g owner name (mr_repository m) (mr_pr m) w = (s, w1)" by fastforce
  have w1: "tables w1 = tables w" "merge_calls w1 = merge_calls w" "clock w1 = clock w"
    using read_only_tables [OF read_only_incoming_ref inc] framesD [OF merge_calls_incoming_ref inc]
      framesD [OF clock_incoming_ref inc] by simp_all
  show thesis
  proof (cases s)
    case (Inl e)
    then have "r = Inl e" "w' = w1" using assms inc by (simp_all add: merge_locked_alt and_then_def)
    then show thesis using that(1) w1 by simp
  next
    case (Inr p)
    obtain source_ref source_label where p: "p = (source_ref, source_label)" by (cases p)
    let ?msg = "merge_message (mr_pr m) strategy number source_label"
    let ?rec = "\<lambda>c. record_merge actor (repo_id (mr_repository m)) (mr_pr m) (PrMerged (clock w) c strategy)"
    obtain t w2 where gm: "git_merge g (git_identity owner name) source_ref source_label (pr_target (mr_pr m)) strategy
        (mr_committer m) ?msg w1 = (t, w2)" by fastforce
    show thesis
    proof (cases t)
      case (Inl e)
      then have "r = Inl e" "w' = w2" "w2 = w1"
        using assms inc gm Inr p by (auto simp: merge_locked_alt and_then_def git_merge_def split: sum.splits)
      then show thesis using that(1) w1 by simp
    next
      case (Inr c)
      obtain rec w3 where rec: "?rec c w2 = (rec, w3)" by fastforce
      have w2: "tables w2 = tables w" "clock w2 = clock w" "merge_calls w2 = merge_calls w @ [GitMerge
            (git_identity owner name) source_ref (pr_target (mr_pr m)) strategy (user_username (mr_committer m))
            (user_email (mr_committer m)) ?msg]"
          "do_merge g (git_calls w1) (git_identity owner name) source_ref source_label (pr_target (mr_pr m)) strategy
            (user_username (mr_committer m)) (user_email (mr_committer m)) ?msg = Inr c"
        using gm w1 Inr by (auto simp: git_merge_def merge_calls_def split: sum.splits)
      have after: "(case rec of Inl e \<Rightarrow> r = Inl e \<and> w' = w3
          | Inr _ \<Rightarrow> and_then (audit_if_user actor (merge_audit m number c strategy)) (\<lambda>_. ok c) w3 = (r, w'))"
        using assms inc gm rec Inr p \<open>s = Inr p\<close> w2(2)
        by (simp add: merge_locked_alt and_then_def now_unix_def split: sum.splits)
      have fr: "frames merge_calls (and_then (audit_if_user actor (merge_audit m number c strategy)) (\<lambda>_. ok c))"
        by (intro frames_basic frames_merge_calls [OF calls_audit])
      have "merge_calls w' = merge_calls w2"
        using after framesD [OF frames_merge_calls [OF calls_record_merge] rec] framesD [OF fr, of w3 r w']
        by (auto split: sum.splits)
      then show thesis using that(2) [OF w2(1-3) _ rec _ after] w2(4) by blast
    qed
  qed
qed

section \<open>Calls\<close>

datatype pr_call =
    CallOpen new_pull_request_input
  | CallReview int string "string option"
  | CallRequestReview int string
  | CallCancelRequest int string
  | CallMarkReady int
  | CallConvertToDraft int
  | CallClose int
  | CallReopen int
  | CallMerge int merge_strategy
  | CallComment int string "diff_anchor option"

definition discard :: "('e + 'a) \<times> world \<Rightarrow> 'e option \<times> world" where
  "discard x = (case x of (Inl e, w) \<Rightarrow> (Some e, w) | (Inr _, w) \<Rightarrow> (None, w))"

fun pr_call_run ::
  "git_backend \<Rightarrow> actor_context \<Rightarrow> string \<Rightarrow> string \<Rightarrow> pr_call \<Rightarrow> world \<Rightarrow> service_error option \<times> world" where
  "pr_call_run g a ow nm (CallOpen i) w = discard (pr_open g a ow nm i w)"
| "pr_call_run g a ow nm (CallReview n s b) w = discard (submit_review a ow nm n s b w)"
| "pr_call_run g a ow nm (CallRequestReview n u) w = discard (request_review a ow nm n u w)"
| "pr_call_run g a ow nm (CallCancelRequest n u) w = discard (cancel_review_request a ow nm n u w)"
| "pr_call_run g a ow nm (CallMarkReady n) w = discard (mark_ready a ow nm n w)"
| "pr_call_run g a ow nm (CallConvertToDraft n) w = discard (convert_to_draft a ow nm n w)"
| "pr_call_run g a ow nm (CallClose n) w = discard (pr_close a ow nm n w)"
| "pr_call_run g a ow nm (CallReopen n) w = discard (pr_reopen a ow nm n w)"
| "pr_call_run g a ow nm (CallMerge n st) w = discard (pr_merge g a ow nm n st w)"
| "pr_call_run g a ow nm (CallComment n b anc) w = discard (pr_add_comment a ow nm n b anc w)"

lemma discard_cases:
  assumes "discard x = (e, w')"
  obtains r where "x = (r, w')" "isl r \<longleftrightarrow> e \<noteq> None"
  using assms by (cases x) (auto simp: discard_def split: sum.splits)

lemma pr_call_effect: "pr_call_run g a ow nm c w = (e, w') \<Longrightarrow> pr_effect (tables w) (tables w')"
  by (cases c)
     (auto elim!: discard_cases intro: pr_open_effect submit_review_effect request_review_effect
       cancel_review_request_effect mark_ready_effect convert_to_draft_effect pr_close_effect pr_reopen_effect
       pr_merge_effect pr_add_comment_effect)

text \<open>Calls one after the other, by whomever and on whichever repository, the database failing at its
  own script in each.\<close>

type_synonym pr_request = "bool list \<times> int \<times> actor_context \<times> string \<times> string \<times> pr_call"

fun pr_calls_run :: "git_backend \<Rightarrow> pr_request list \<Rightarrow> world \<Rightarrow> world" where
  "pr_calls_run g [] w = w"
| "pr_calls_run g ((fails, now, a, ow, nm, c) # cs) w =
     pr_calls_run g cs (snd (pr_call_run g a ow nm c (w\<lparr>statement_fails := fails, clock := now\<rparr>)))"

lemma pr_calls_history:
  assumes "distinct (map pr_id (t_pull_requests (tables w)))" "pr_by_id i (tables w) = Some p"
  shows "\<exists>p' new. pr_by_id i (tables (pr_calls_run g cs w)) = Some p' \<and> p'\<lparr>pr_state := pr_state p\<rparr> = p
     \<and> lifecycle\<^sup>*\<^sup>* (pr_state p) (pr_state p')
     \<and> logged (tables (pr_calls_run g cs w)) = logged (tables w) @ new"
  using assms
proof (induction cs arbitrary: w p)
  case Nil
  then show ?case by simp
next
  case (Cons c cs)
  obtain fails now a ow nm k where c: "c = (fails, now, a, ow, nm, k)" by (cases c)
  obtain e w1 where run: "pr_call_run g a ow nm k (w\<lparr>statement_fails := fails, clock := now\<rparr>) = (e, w1)" by fastforce
  have eff: "pr_effect (tables w) (tables w1)" using pr_call_effect [OF run] by simp
  obtain q new where q: "pr_by_id i (tables w1) = Some q" "q\<lparr>pr_state := pr_state p\<rparr> = p"
    "pr_state q = pr_state p \<or> lifecycle (pr_state p) (pr_state q)" "logged (tables w1) = logged (tables w) @ new"
    using pr_effect_one [OF eff Cons.prems] by blast
  obtain p' new' where p': "pr_by_id i (tables (pr_calls_run g cs w1)) = Some p'" "p'\<lparr>pr_state := pr_state q\<rparr> = q"
    "lifecycle\<^sup>*\<^sup>* (pr_state q) (pr_state p')" "logged (tables (pr_calls_run g cs w1)) = logged (tables w1) @ new'"
    using Cons.IH [OF pr_effect_distinct [OF eff Cons.prems(1)] q(1)] by blast
  have "lifecycle\<^sup>*\<^sup>* (pr_state p) (pr_state p')"
    using q(3) p'(3) by (auto intro: converse_rtranclp_into_rtranclp)
  moreover have "p'\<lparr>pr_state := pr_state p\<rparr> = p" using q(2) p'(2) by (metis pull_request.surjective pull_request.update_convs(9))
  ultimately show ?case using p' q(4) run c by simp
qed

section \<open>A small instance\<close>

text \<open>One repository with a protected branch, one approved pull request that closes an issue, two
  people; and a git layer that accepts every request.\<close>

definition pr_world :: world where
  "pr_world =
     \<lparr>tables = empty_db\<lparr>
        t_users := [\<lparr>user_id = 1, user_username = ''alice'', user_email = ''a@x'', user_is_admin = False,
                     user_disabled_at = None, user_email_notifications = True\<rparr>,
                    \<lparr>user_id = 2, user_username = ''bob'', user_email = ''b@x'', user_is_admin = False,
                     user_disabled_at = None, user_email_notifications = True\<rparr>],
        t_repositories := [\<lparr>repo_id = 1, repo_owner = OwnerUser 1, repo_name = ''proj'', repo_description = None,
                            repo_visibility = Public, repo_forked_from = None\<rparr>],
        t_repo_access := [\<lparr>access_repository_id = 1, access_subject = SubjectUser 1, access_role = ROwner\<rparr>,
                          \<lparr>access_repository_id = 1, access_subject = SubjectUser 2, access_role = RWrite\<rparr>],
        t_rules := [\<lparr>rule_id = 7, rule_repository_id = 1, rule_pattern = ''main'', required_approvals = 1,
                     require_linear_history = False, require_signed_commits = False, dismiss_stale_reviews = False,
                     require_up_to_date = False, required_status_checks = [''ci''], push_allowlist = []\<rparr>],
        t_pull_requests := [\<lparr>pr_id = 5, pr_repository_id = 1, pr_number = 3, pr_title = ''Fix'',
                             pr_body = Some ''Closes #1'', pr_author_id = 1,
                             pr_source = \<lparr>ref_repository_id = 1, ref_branch = ''fix''\<rparr>, pr_target = ''main'',
                             pr_state = PrOpen, pr_created_at = 0\<rparr>],
        t_reviews := [\<lparr>review_id = 6, review_pull_request_id = 5, reviewer_id = 2, review_state = Approved,
                       review_body = None, review_created_at = 1, review_dismissed_at = None\<rparr>],
        t_issues := [\<lparr>issue_id = 9, issue_repository_id = 1, issue_number = 1, issue_title = ''t'', issue_body = None,
                      issue_author_id = 1, issue_state = IssueOpen, issue_milestone_id = None, issue_created_at = 0\<rparr>],
        t_statuses := [\<lparr>status_id = 8, status_repository_id = 1, status_commit_sha = ''abc'', status_context = ''ci'',
                        status_state = StSuccess, status_target_url = None, status_description = None,
                        status_created_at = 0, status_updated_at = 0\<rparr>]\<rparr>,
      statement_fails = [], clock = 5, next_uuid = 100, git_calls = []\<rparr>"

definition willing_git :: git_backend where
  "willing_git =
     \<lparr>do_import = (\<lambda>_ _ _ _ _. Inr ''abc''), do_resolve = (\<lambda>_ _ _. Inr ''abc''),
      do_merge = (\<lambda>cs _ _ _ _ _ _ _ _. Inr (''m'' @ show_nat (length cs)))\<rparr>"

section \<open>The life cycle over calls\<close>

text \<open>C19. Pull requests move only along their life cycle, and every move is announced. Whatever call is
  made by whomever, whatever statements fail and whatever the git layer answers, a pull request keeps
  everything but its state; the state stays or makes one step of the life cycle (draft to open and
  back, open or draft to closed or merged, closed to open, and nothing from merged); and the events
  the call adds to the outbox about it are exactly the announcement of that step.\<close>

theorem pr_moves_along_life_cycle:
  assumes "pr_call_run g a ow nm c w = (e, w')" "distinct (map pr_id (t_pull_requests (tables w)))"
    "pr_by_id i (tables w) = Some p"
  shows "\<exists>p' new. pr_by_id i (tables w') = Some p' \<and> p'\<lparr>pr_state := pr_state p\<rparr> = p
     \<and> (pr_state p' = pr_state p \<or> lifecycle (pr_state p) (pr_state p'))
     \<and> logged (tables w') = logged (tables w) @ new
     \<and> map event_kind (filter (\<lambda>ev. is_lifecycle_event ev \<and> event_aggregate_id ev = i) new)
         = announced (pr_state p) (pr_state p')"
  by (rule pr_effect_one [OF pr_call_effect [OF assms(1)] assms(2,3)])

theorem pr_moves_along_life_cycle_witness:
  "announced PrOpen (PrMerged 5 ''m0'' Squash) = [KPullRequestMerged]
   \<and> lifecycle PrOpen (PrMerged 5 ''m0'' Squash)
   \<and> fst (pr_call_run willing_git (ActorUser 2) ''alice'' ''proj'' (CallMerge 3 Squash) pr_world) = None"
proof -
  let ?run = "pr_call_run willing_git (ActorUser 2) ''alice'' ''proj'' (CallMerge 3 Squash) pr_world"
  let ?p = "t_pull_requests (tables pr_world) ! 0"
  have "pr_by_id 5 (tables pr_world) = Some ?p" "distinct (map pr_id (t_pull_requests (tables pr_world)))"
    by code_simp+
  from pr_moves_along_life_cycle [OF surjective_pairing this(2,1)]
  obtain p' where "pr_by_id 5 (tables (snd ?run)) = Some p'"
    "pr_state p' = pr_state ?p \<or> lifecycle (pr_state ?p) (pr_state p')" by blast
  moreover have "map_option pr_state (pr_by_id 5 (tables (snd ?run))) = Some (PrMerged 5 ''m0'' Squash)"
    "pr_state ?p = PrOpen" "fst ?run = None" by code_simp+
  ultimately show ?thesis by (simp add: announced_def)
qed

lemma lifecycle_merged_stuck: "lifecycle\<^sup>*\<^sup>* s s' \<Longrightarrow> s = PrMerged t c st \<Longrightarrow> s' = s"
  by (induction rule: converse_rtranclp_induct) (simp_all add: lifecycle_from_merged)

text \<open>A merge is final. No sequence of calls, by any actors, at any times and under any faults,
  changes a merged pull request in any way.\<close>

theorem merged_is_final:
  assumes "distinct (map pr_id (t_pull_requests (tables w)))" "pr_by_id i (tables w) = Some p"
    "pr_state p = PrMerged t c st"
  shows "pr_by_id i (tables (pr_calls_run g cs w)) = Some p"
proof -
  obtain p' where p': "pr_by_id i (tables (pr_calls_run g cs w)) = Some p'" "p'\<lparr>pr_state := pr_state p\<rparr> = p"
    "lifecycle\<^sup>*\<^sup>* (pr_state p) (pr_state p')"
    using pr_calls_history [OF assms(1,2)] by blast
  then have "pr_state p' = pr_state p" using lifecycle_merged_stuck assms(3) by blast
  then show ?thesis using p' by (metis pull_request.surjective pull_request.update_convs(9))
qed

definition merged_world :: world where
  "merged_world = snd (pr_call_run willing_git (ActorUser 2) ''alice'' ''proj'' (CallMerge 3 Squash) pr_world)"

theorem merged_is_final_witness:
  "map_option pr_state (pr_by_id 5 (tables (pr_calls_run willing_git
     [([], 8, ActorUser 1, ''alice'', ''proj'', CallClose 3), ([], 9, ActorUser 1, ''alice'', ''proj'', CallReopen 3)]
     merged_world))) = Some (PrMerged 5 ''m0'' Squash)"
proof -
  let ?p = "t_pull_requests (tables merged_world) ! 0"
  have "distinct (map pr_id (t_pull_requests (tables merged_world)))" "pr_by_id 5 (tables merged_world) = Some ?p"
    and st: "pr_state ?p = PrMerged 5 ''m0'' Squash" by code_simp+
  show ?thesis unfolding merged_is_final [OF \<open>distinct _\<close> \<open>pr_by_id _ _ = _\<close> st] using st by (simp only: option.map)
qed

section \<open>Failed calls\<close>

definition atomic :: "('e, 'a) act \<Rightarrow> bool" where
  "atomic m \<longleftrightarrow> (\<forall>w e w'. m w = (Inl e, w') \<longrightarrow> tables w' = tables w)"

lemma atomic_ro: "read_only m \<Longrightarrow> atomic m"
  using read_only_tables unfolding atomic_def by blast

lemma atomic_transaction: "atomic (transaction conv m)"
  using transaction_Inl unfolding atomic_def by fastforce

lemma atomic_sql: "atomic (sql f)"
  by (simp add: atomic_def sql_Inl)

lemma atomic_dbq: "atomic m \<Longrightarrow> atomic (dbq m)"
  by (auto simp: atomic_def dbq_def map_err_def split: prod.splits sum.splits)

lemma atomic_after: "read_only m \<Longrightarrow> (\<And>x. atomic (f x)) \<Longrightarrow> atomic (and_then m f)"
  unfolding atomic_def by (metis and_then_ro)

lemma atomic_prod: "(\<And>a b. atomic (f a b)) \<Longrightarrow> atomic (case p of (a, b) \<Rightarrow> f a b)"
  by (cases p) simp

text \<open>A last step that cannot fail.\<close>

definition infallible :: "('e, 'a) act \<Rightarrow> bool" where
  "infallible m \<longleftrightarrow> (\<forall>w. \<not> isl (fst (m w)))"

lemma infallibleD: "infallible m \<Longrightarrow> m w = (Inl e, w') \<longleftrightarrow> False"
  unfolding infallible_def by (metis fst_conv sum.disc(1))

lemma infallible_ok: "infallible (ok x)"
  by (simp add: infallible_def ok_def)

lemma infallible_and_then: "infallible m \<Longrightarrow> (\<And>x. infallible (f x)) \<Longrightarrow> infallible (and_then m f)"
  unfolding infallible_def and_then_def by (auto split: prod.splits sum.splits) (metis fst_conv sum.disc(1))+

lemma infallible_audit: "infallible (audit_if_user actor entry)"
proof -
  have "infallible (outcome m)" for m :: "(db_error, unit) act"
    by (auto simp: infallible_def outcome_def split: prod.splits)
  then show ?thesis
    unfolding audit_if_user_def audit_record_def
    by (cases "actor_user_id actor") (auto intro!: infallible_and_then infallible_ok)
qed

lemma atomic_then_infallible: "atomic m \<Longrightarrow> (\<And>x. infallible (f x)) \<Longrightarrow> atomic (and_then m f)"
  unfolding atomic_def by (auto simp: and_then_def infallibleD split: prod.splits sum.splits)

lemma atomic_merge: "atomic (pr_merge g a ow nm n st)"
  unfolding pr_merge_def merge_locked_def record_merge_def
  by (intro atomic_after read_only_merge_checks read_only_incoming_ref read_only_git_merge read_only_now
      atomic_prod atomic_then_infallible atomic_transaction infallible_and_then infallible_audit infallible_ok)

lemma atomic_update: "atomic (dbq (update_pr_state i s))"
  unfolding update_pr_state_def execute_def by (intro atomic_dbq atomic_sql)

lemmas atomic_steps = atomic_after atomic_prod atomic_transaction atomic_update ro_service
  read_only_resolve_mentions read_only_dbq read_only_authz read_only_fresh read_only_or_err read_only_ensure
  read_only_select read_only_now

lemma atomic_calls:
  "atomic (pr_open g a ow nm i)" "atomic (request_review a ow nm n u)" "atomic (cancel_review_request a ow nm n u)"
  "atomic (mark_ready a ow nm n)" "atomic (convert_to_draft a ow nm n)" "atomic (pr_close a ow nm n)"
  "atomic (pr_reopen a ow nm n)" "atomic (pr_add_comment a ow nm n b anc)"
  unfolding pr_open_def request_review_def cancel_review_request_def mark_ready_def convert_to_draft_def
    pr_close_def pr_reopen_def pr_add_comment_def review_request_delete_def
  by (intro atomic_steps atomic_then_infallible [OF atomic_dbq [OF atomic_sql]] infallible_ok)+

lemma review_insert_Inr:
  "review_insert i p u s b w = (Inr x, w') \<Longrightarrow> \<exists>r. tables w' = (tables w)\<lparr>t_reviews := t_reviews (tables w) @ [r]\<rparr>"
  unfolding review_insert_def
  by (auto simp: act_simps insert_review_row_def dest!: sql_Inr split: if_splits) (rule exI, erule sym)

lemma submit_review_Inl:
  assumes "submit_review a ow nm n s b w = (Inl e, w')"
  shows "tables w' = tables w \<or> (t_review_requests (tables w') = t_review_requests (tables w)
     \<and> (\<exists>x. t_reviews (tables w') = t_reviews (tables w) @ [x]))"
proof -
  let ?tx = "\<lambda>pr rep reviewer verdict. transaction SvDb
               (and_then fresh_uuid (\<lambda>i.
                 and_then (dbq (review_insert i (pr_id pr) reviewer verdict (non_blank b))) (\<lambda>_.
                   dbq (append_event (EvPullRequestReviewSubmitted (pr_id pr) (repo_id rep) reviewer verdict)))))"
  let ?rest = "\<lambda>p verdict pr. and_then (?tx pr (fst p) (snd p) verdict)
             (\<lambda>_. and_then (dbq (review_request_delete (pr_id pr) (snd p))) (\<lambda>_. ok ()))"
  let ?pre = "and_then (write_checked a ow nm) (\<lambda>p.
      and_then (or_err (SvValidation ''unrecognized review state'') (review_state_from_db_str s)) (\<lambda>verdict.
         and_then (load_pr (repo_id (fst p)) n) (\<lambda>pr. ok (p, verdict, pr))))"
  have split: "submit_review a ow nm n s b = and_then ?pre (\<lambda>(p, verdict, pr). ?rest p verdict pr)"
    unfolding submit_review_def
    by (rule ext) (auto simp: and_then_def ok_def split: prod.splits sum.splits)
  have "read_only ?pre" by (intro ro ro_service)
  with assms show ?thesis unfolding split
  proof (rule and_then_ro)
    fix x w1 assume t: "tables w1 = tables w" and run: "(case x of (p, verdict, pr) \<Rightarrow> ?rest p verdict pr) w1 = (Inl e, w')"
    obtain rep reviewer verdict pr where x: "x = ((rep, reviewer), verdict, pr)" by (cases x) auto
    obtain q w2 where tx: "?tx pr rep reviewer verdict w1 = (q, w2)" by fastforce
    show ?thesis
    proof (cases q)
      case (Inl e')
      then have "w' = w2" using run tx by (simp add: x and_then_def)
      then show ?thesis using transaction_Inl tx t Inl by fastforce
    next
      case (Inr u)
      then have "and_then (dbq (review_request_delete (pr_id pr) reviewer)) (\<lambda>_. ok ()) w2 = (Inl e, w')"
        using run tx by (simp add: x and_then_def)
      moreover have "atomic (and_then (dbq (review_request_delete (pr_id pr) reviewer)) (\<lambda>_. ok ()))"
        unfolding review_request_delete_def
        by (intro atomic_then_infallible [OF atomic_dbq [OF atomic_sql]] infallible_ok)
      ultimately have "tables w' = tables w2" unfolding atomic_def by blast
      moreover obtain w3 w4 where "tables w3 = tables w" "tables w2 = tables w4"
        "(and_then fresh_uuid (\<lambda>i.
                 and_then (dbq (review_insert i (pr_id pr) reviewer verdict (non_blank b))) (\<lambda>_.
                   dbq (append_event (EvPullRequestReviewSubmitted (pr_id pr) (repo_id rep) reviewer verdict))))) w3 = (Inr u, w4)"
        using tx t unfolding Inr by (auto elim: transaction_Inr)
      moreover from this(3) obtain v2 where
        "review_insert (next_uuid w3) (pr_id pr) reviewer verdict (non_blank b) (w3\<lparr>next_uuid := Suc (next_uuid w3)\<rparr>)
           = (Inr (), v2)"
        "append_event (EvPullRequestReviewSubmitted (pr_id pr) (repo_id rep) reviewer verdict) v2 = (Inr u, w4)"
        by (auto simp: act_simps)
      ultimately show ?thesis using review_insert_Inr append_event_Inr by fastforce
    qed
  qed simp
qed

text \<open>C20. A call that fails leaves no trace in the tables: whichever check refused it, whichever statement
  or git operation failed, at whatever point, the tables are as they were. The one exception is a
  review submitted while the query that would clear the reviewer's request fails: the review stands
  and the request is left.\<close>

theorem failed_call_leaves_no_trace:
  assumes "pr_call_run g a ow nm c w = (Some e, w')"
  shows "tables w' = tables w \<or>
    (\<exists>n s b. c = CallReview n s b \<and> t_review_requests (tables w') = t_review_requests (tables w)
       \<and> (\<exists>x. t_reviews (tables w') = t_reviews (tables w) @ [x]))"
proof (cases "\<exists>n s b. c = CallReview n s b")
  case True
  then obtain n s b where c: "c = CallReview n s b" by blast
  then obtain e' where "submit_review a ow nm n s b w = (Inl e', w')"
    using assms by (auto elim!: discard_cases simp: isl_def)
  from submit_review_Inl [OF this] show ?thesis using c by blast
next
  case False
  then have "tables w' = tables w"
    using assms atomic_calls(1) [of g a ow nm, unfolded atomic_def] atomic_calls(2-8) [of a ow nm, unfolded atomic_def]
      atomic_merge [of g a ow nm, unfolded atomic_def]
    by (cases c) (auto elim!: discard_cases simp: isl_def)
  then show ?thesis by simp
qed

theorem failed_call_leaves_no_trace_witness:
  "tables (snd (pr_call_run willing_git (ActorUser 2) ''alice'' ''proj'' (CallMerge 3 Squash)
      (pr_world\<lparr>statement_fails := replicate 14 False @ [True]\<rparr>))) = tables pr_world"
proof -
  let ?w = "pr_world\<lparr>statement_fails := replicate 14 False @ [True]\<rparr>"
  let ?run = "pr_call_run willing_git (ActorUser 2) ''alice'' ''proj'' (CallMerge 3 Squash) ?w"
  have "fst ?run = Some (SvDb DbOther)" by code_simp
  then have "?run = (Some (SvDb DbOther), snd ?run)" by (metis prod.collapse)
  from failed_call_leaves_no_trace [OF this] show ?thesis by simp
qed

section \<open>Merging\<close>

definition named_repository :: "string \<Rightarrow> string \<Rightarrow> db \<Rightarrow> repository option" where
  "named_repository ow nm d =
     (case user_by_username ow d of
        Some u \<Rightarrow> repo_by_owner_and_name (OwnerUser (user_id u)) nm d
      | None \<Rightarrow>
          (case org_by_name ow d of
             Some g \<Rightarrow> repo_by_owner_and_name (OwnerOrganization (org_id g)) nm d
           | None \<Rightarrow> None))"

lemma reads_find_by_owner: "reads (named_repository ow nm) (find_by_owner_username_and_name ow nm)"
proof -
  let ?q = "\<lambda>d. case user_by_username ow d of Some u \<Rightarrow> Some (OwnerUser (user_id u))
     | None \<Rightarrow> map_option (\<lambda>g. OwnerOrganization (org_id g)) (org_by_name ow d)"
  have owner: "reads ?q (resolve_owner ow)"
  proof -
    have "reads (\<lambda>d. case u of Some u \<Rightarrow> Some (OwnerUser (user_id u))
       | None \<Rightarrow> map_option (\<lambda>g. OwnerOrganization (org_id g)) (org_by_name ow d))
      (case u of Some user \<Rightarrow> ok (Some (OwnerUser (user_id user)))
       | None \<Rightarrow> and_then (select (org_by_name ow)) (\<lambda>g. ok (map_option (\<lambda>org. OwnerOrganization (org_id org)) g)))" for u
      by (cases u) (auto intro: reads_ok reads_and_then [OF reads_select reads_ok])
    from reads_and_then [OF reads_select this] show ?thesis unfolding resolve_owner_def .
  qed
  have repo: "reads (\<lambda>d. case o1 of None \<Rightarrow> None | Some o2 \<Rightarrow> repo_by_owner_and_name o2 nm d)
      (case o1 of None \<Rightarrow> ok None | Some owner \<Rightarrow> select (repo_by_owner_and_name owner nm))" for o1
    by (cases o1) (simp_all add: reads_ok reads_select)
  have "(\<lambda>d. case ?q d of None \<Rightarrow> None | Some o2 \<Rightarrow> repo_by_owner_and_name o2 nm d) = named_repository ow nm"
    by (rule ext) (auto simp: named_repository_def split: option.splits)
  then show ?thesis
    using reads_and_then [OF owner repo, of "\<lambda>x. x"] unfolding find_by_owner_username_and_name_def by simp
qed

lemma repository_by_name_Inr:
  "repository_by_name ow nm w = (Inr rep, w') \<Longrightarrow> named_repository ow nm (tables w) = Some rep"
  unfolding repository_by_name_def
  by (auto simp: act_simps dest!: reads_value [OF reads_find_by_owner])

lemma status_gate_Inr:
  assumes "status_gate g ow nm rep pr w = (Inr u, w')"
    "stored_rule (tables w) (repo_id rep) (pr_target pr) = Some rule" "required_status_checks rule \<noteq> []"
  shows "\<exists>identity sha. do_resolve g (git_calls w) identity (ref_branch (pr_source pr)) = Inr sha
     \<and> (ref_repository_id (pr_source pr) = repo_id rep \<longrightarrow> identity = git_identity ow nm)
     \<and> required_checks_satisfied (required_status_checks rule) (statuses_for_commit (repo_id rep) sha (tables w))"
proof -
  let ?ident = "if ref_repository_id (pr_source pr) = repo_id rep then ok (git_identity ow nm)
                       else and_then (repo_identity (ref_repository_id (pr_source pr))) (\<lambda>(_, i). ok i)"
  obtain found w1 where fm: "find_matching (repo_id rep) (pr_target pr) w = (Inr found, w1)" and
    rest: "(case found of None \<Rightarrow> ok () | Some rule \<Rightarrow>
           if required_status_checks rule = [] then ok ()
           else and_then ?ident (\<lambda>head_identity.
                 and_then (resolve_branch_commit g head_identity (ref_branch (pr_source pr))) (\<lambda>head_sha.
                   and_then (dbq (select (statuses_for_commit (repo_id rep) head_sha))) (\<lambda>statuses.
                     ensure (required_checks_satisfied (required_status_checks rule) statuses)
                       (SvConflict ''the required status checks are not all passing on the head commit''))))) w1 = (Inr u, w')"
    using assms(1) unfolding status_gate_def by (auto simp: act_simps)
  have f: "found = Some rule" "tables w1 = tables w"
    using reads_value [OF reads_find_matching fm] reads_tables [OF reads_find_matching fm] assms(2) by simp_all
  have fr: "frames git_calls (find_matching (repo_id rep) (pr_target pr))"
    unfolding find_matching_def list_rules_def by (intro frames_basic calls.frames_select)
  obtain identity w2 sha w3 sts w4 where
    idw: "?ident w1 = (Inr identity, w2)"
    and res: "resolve_branch_commit g identity (ref_branch (pr_source pr)) w2 = (Inr sha, w3)"
    and sel: "select (statuses_for_commit (repo_id rep) sha) w3 = (Inr sts, w4)"
    and okk: "required_checks_satisfied (required_status_checks rule) sts"
    using rest assms(3) unfolding f by (simp add: act_simps del: fun_upd_apply) blast
  have "read_only ?ident" by (intro ro read_only_repo_identity)
  moreover have "frames git_calls ?ident" by (intro frames_basic calls.frames_repo_identity)
  ultimately have w2: "tables w2 = tables w1" "git_calls w2 = git_calls w1"
    using idw read_only_tables framesD by blast+
  have "git_calls w1 = git_calls w" using framesD [OF fr fm] .
  moreover have "w3 = w2" "do_resolve g (git_calls w2) identity (ref_branch (pr_source pr)) = Inr sha"
    using res by (auto simp: resolve_branch_commit_def split: sum.splits)
  moreover have "sts = statuses_for_commit (repo_id rep) sha (tables w3)" using select_Inr [OF sel] by simp
  moreover have "ref_repository_id (pr_source pr) = repo_id rep \<longrightarrow> identity = git_identity ow nm"
    using idw by (auto simp: act_simps)
  ultimately show ?thesis using okk w2 f(2) by auto
qed

lemma check_merge_Inr:
  "check_merge_pull_request actor rep branch reviews w = (Inr u, w') \<Longrightarrow>
     can_merge_pull_request actor rep (stored_rule (tables w) (repo_id rep) branch) reviews
       (stored_access (tables w) actor rep) = Inr ()"
  using fetch_two_then_decide [where w = w and D = "\<lambda>access protection. can_merge_pull_request actor rep protection reviews access",
      OF reads_access_for hides_access_for reads_hide [OF reads_find_matching] hides_hide, of actor rep "repo_id rep" branch]
  unfolding check_merge_pull_request_def by (auto simp: prod_eq_iff)

text \<open>What the checks before the lock have established, on the tables as they stood.\<close>

definition past_gates ::
  "git_backend \<Rightarrow> git_call list \<Rightarrow> actor_context \<Rightarrow> string \<Rightarrow> string \<Rightarrow> int \<Rightarrow> db \<Rightarrow> user \<Rightarrow> repository
     \<Rightarrow> pull_request \<Rightarrow> bool" where
  "past_gates g cs actor ow nm n d committer rep pr \<longleftrightarrow>
     (\<exists>uid. actor_user_id actor = Some uid \<and> user_by_id uid d = Some committer)
     \<and> named_repository ow nm d = Some rep \<and> pr_by_number (repo_id rep) n d = Some pr \<and> pr_is_open (pr_state pr)
     \<and> can_write_repository actor rep (stored_access d actor rep) = Inr ()
     \<and> (case stored_rule d (repo_id rep) (pr_target pr) of
          None \<Rightarrow> True
        | Some rule \<Rightarrow>
            required_approvals rule \<le> int (card (approving_reviewers (reviews_of (pr_id pr) d)))
            \<and> (required_status_checks rule = [] \<or>
                (\<exists>identity sha. do_resolve g cs identity (ref_branch (pr_source pr)) = Inr sha
                   \<and> (ref_repository_id (pr_source pr) = repo_id rep \<longrightarrow> identity = git_identity ow nm)
                   \<and> required_checks_satisfied (required_status_checks rule) (statuses_for_commit (repo_id rep) sha d))))"

lemma merge_checks_gates:
  assumes "merge_checks g actor ow nm n w = (Inr m, w')"
  shows "past_gates g (git_calls w) actor ow nm n (tables w) (mr_committer m) (mr_repository m) (mr_pr m)
    \<and> m = \<lparr>mr_committer = mr_committer m, mr_repository = mr_repository m, mr_pr = mr_pr m\<rparr>"
proof -
  obtain w1 w2 w3 reviews w4 w5 where
    who: "acting_user actor w = (Inr (mr_committer m), w1)"
    and rep: "authz (repository_by_name ow nm) w1 = (Inr (mr_repository m), w2)"
    and pr: "load_pr (repo_id (mr_repository m)) n w2 = (Inr (mr_pr m), w3)"
    and op: "pr_is_open (pr_state (mr_pr m))"
    and rv: "select (reviews_of (pr_id (mr_pr m))) w3 = (Inr reviews, w4)"
    and cm: "check_merge_pull_request actor (mr_repository m) (pr_target (mr_pr m)) reviews w4 = (Inr (), w5)"
    and sg: "status_gate g ow nm (mr_repository m) (mr_pr m) w5 = (Inr (), w')"
    and m: "m = \<lparr>mr_committer = mr_committer m, mr_repository = mr_repository m, mr_pr = mr_pr m\<rparr>"
    using assms by (auto simp: merge_checks_def act_simps)
  have t: "tables w1 = tables w" "tables w2 = tables w" "tables w3 = tables w" "tables w4 = tables w" "tables w5 = tables w"
    using read_only_tables [OF read_only_acting_user who]
      read_only_tables [OF read_only_authz [OF read_only_repository_by_name] rep]
      read_only_tables [OF read_only_load_pr pr] select_Inr [OF rv] read_only_tables [OF read_only_check_merge cm]
    by simp_all
  have gc: "git_calls w5 = git_calls w"
    using framesD [OF calls.frames_acting_user who] framesD [OF calls.frames_authz [OF calls.frames_repository_by_name] rep]
      framesD [OF calls.frames_load_pr pr] select_Inr [OF rv] framesD [OF calls.frames_check_merge cm] by simp
  have "\<exists>uid. actor_user_id actor = Some uid \<and> user_by_id uid (tables w) = Some (mr_committer m)"
    using who by (auto simp: acting_user_def require_user_def act_simps dest!: select_Inr)
  moreover have "named_repository ow nm (tables w) = Some (mr_repository m)"
    using rep repository_by_name_Inr [of ow nm w1] t by (simp add: act_simps)
  moreover have "pr_by_number (repo_id (mr_repository m)) n (tables w) = Some (mr_pr m)"
    using load_pr_Inr [OF pr] t by simp
  moreover have "reviews = reviews_of (pr_id (mr_pr m)) (tables w)" using select_Inr [OF rv] t by simp
  then have "can_write_repository actor (mr_repository m) (stored_access (tables w) actor (mr_repository m)) = Inr ()
    \<and> (\<forall>rule. stored_rule (tables w) (repo_id (mr_repository m)) (pr_target (mr_pr m)) = Some rule \<longrightarrow>
           required_approvals rule \<le> int (card (approving_reviewers (reviews_of (pr_id (mr_pr m)) (tables w)))))"
    using check_merge_Inr [OF cm] t
    by (auto simp: can_merge_pull_request_def count_latest_reviews approving_reviewers_def Let_def
      split: sum.splits option.splits if_splits)
  ultimately show ?thesis
    using op m status_gate_Inr [OF sg] t gc unfolding past_gates_def by (auto split: option.split)
qed

lemma pr_merge_cases:
  assumes "pr_merge g actor ow nm n st w = (r, w')"
  obtains (refused) e where "r = Inl e" "merge_calls w' = merge_calls w" "tables w' = tables w"
    | (checked) m w1 where "past_gates g (git_calls w) actor ow nm n (tables w) (mr_committer m) (mr_repository m) (mr_pr m)"
        "merge_locked g actor ow nm n st m w1 = (r, w')" "tables w1 = tables w" "clock w1 = clock w"
        "merge_calls w1 = merge_calls w"
  using assms unfolding pr_merge_def
proof (rule and_then_ro [OF _ read_only_merge_checks])
  fix e assume "r = Inl e" "merge_checks g actor ow nm n w = (Inl e, w')" "tables w' = tables w"
  then show thesis using refused framesD [OF frames_merge_calls [OF frames_merge_checks(1)]] by blast
next
  fix m w1 assume *: "merge_checks g actor ow nm n w = (Inr m, w1)" "tables w1 = tables w"
    "merge_locked g actor ow nm n st m w1 = (r, w')"
  show thesis
    by (rule checked [OF _ *(3,2)])
      (use merge_checks_gates [OF *(1)] framesD [OF frames_merge_checks(2) *(1)]
         framesD [OF frames_merge_calls [OF frames_merge_checks(1)] *(1)] in auto)
qed

text \<open>C3. The git layer is asked to merge only past every gate. If a merge call led to any merge in the
  git layer, whatever its outcome and whatever failed, then on the tables as they stood the actor is
  a signed-in existing user who may write to the named repository, the pull request is one of that
  repository's, with the given number, and open, and where a rule protects the target branch, at
  least the required number of distinct reviewers currently approve and every required check has
  passed on the commit the git layer says is the source branch's head; and it is one merge, into the
  target branch, by that user.\<close>

theorem merge_only_past_gates:
  assumes "pr_merge g actor ow nm n st w = (r, w')" "merge_calls w' \<noteq> merge_calls w"
  shows "\<exists>committer rep pr source_ref msg. past_gates g (git_calls w) actor ow nm n (tables w) committer rep pr
    \<and> merge_calls w' = merge_calls w @ [GitMerge (git_identity ow nm) source_ref (pr_target pr) st
          (user_username committer) (user_email committer) msg]"
  using assms(1)
proof (rule pr_merge_cases)
  fix m w1 assume gates: "past_gates g (git_calls w) actor ow nm n (tables w) (mr_committer m) (mr_repository m) (mr_pr m)"
    and run: "merge_locked g actor ow nm n st m w1 = (r, w')" and same: "merge_calls w1 = merge_calls w"
  from run show ?thesis
    by (rule merge_locked_cases) (use gates same assms(2) in auto)
qed (use assms(2) in simp)

theorem merge_only_past_gates_witness:
  "\<exists>committer rep pr. past_gates willing_git [] (ActorUser 2) ''alice'' ''proj'' 3 (tables pr_world) committer rep pr"
proof -
  let ?run = "pr_merge willing_git (ActorUser 2) ''alice'' ''proj'' 3 Squash pr_world"
  have "length (merge_calls (snd ?run)) = 1" "merge_calls pr_world = []" by code_simp+
  then have "merge_calls (snd ?run) \<noteq> merge_calls pr_world" by auto
  from merge_only_past_gates [OF surjective_pairing this] show ?thesis by (auto simp: pr_world_def)
qed

text \<open>C18. A merge that returns has recorded exactly itself. It returns the commit the git layer answered;
  the pull request, open before, is merged with that commit, the strategy and the time, and no other
  pull request has changed; of the issues, exactly the open ones of the repository that a closing
  keyword in the title or description names are closed as completed; and the outbox has received the
  merge, one closing event per closed issue, and nothing else.\<close>

theorem merge_records_exactly:
  assumes "pr_merge g actor ow nm n st w = (Inr c, w')" "issue_keys_distinct (tables w)"
  shows "\<exists>committer rep pr uid ids. past_gates g (git_calls w) actor ow nm n (tables w) committer rep pr
    \<and> actor_user_id actor = Some uid
    \<and> (\<exists>cs source_ref label msg. do_merge g cs (git_identity ow nm) source_ref label (pr_target pr) st
          (user_username committer) (user_email committer) msg = Inr c)
    \<and> t_pull_requests (tables w') = t_pull_requests (set_pr_state (pr_id pr) (PrMerged (clock w) c st) (tables w))
    \<and> t_issues (tables w') =
        update_where (closes (repo_id rep) (closing_numbers pr)) (completed (clock w)) (t_issues (tables w))
    \<and> distinct ids
    \<and> set ids = issue_id ` {x \<in> set (t_issues (tables w)). closes (repo_id rep) (closing_numbers pr) x}
    \<and> logged (tables w') = logged (tables w) @ EvPullRequestMerged (pr_id pr) (repo_id rep)
          # map (\<lambda>i. EvIssueClosed i (repo_id rep) uid (Some (pr_id pr))) ids"
  using assms(1)
proof (rule pr_merge_cases)
  fix m w1 assume gates: "past_gates g (git_calls w) actor ow nm n (tables w) (mr_committer m) (mr_repository m) (mr_pr m)"
    and run: "merge_locked g actor ow nm n st m w1 = (Inr c, w')" and same: "tables w1 = tables w" "clock w1 = clock w"
  obtain uid where uid: "actor_user_id actor = Some uid" using gates unfolding past_gates_def by blast
  from run show ?thesis
  proof (rule merge_locked_cases)
    fix source_ref label c' w2 rec w3
    assume w2: "tables w2 = tables w1" "clock w2 = clock w1"
      and dm: "\<exists>cs. do_merge g cs (git_identity ow nm) source_ref label (pr_target (mr_pr m)) st
            (user_username (mr_committer m)) (user_email (mr_committer m)) (merge_message (mr_pr m) st n label) = Inr c'"
      and rec: "record_merge actor (repo_id (mr_repository m)) (mr_pr m) (PrMerged (clock w1) c' st) w2 = (rec, w3)"
      and after: "(case rec of Inl e \<Rightarrow> Inr c = Inl e \<and> w' = w3
          | Inr _ \<Rightarrow> and_then (audit_if_user actor (merge_audit m n c' st)) (\<lambda>_. ok c') w3 = (Inr c :: service_error + string, w'))"
    obtain u where u: "rec = Inr u" using after by (cases rec) auto
    have c: "c' = c" using after u by (auto simp: act_simps)
    obtain v where aud: "audit_if_user actor (merge_audit m n c' st) w3 = (Inr v :: service_error + unit, w')"
      using after u by (auto simp: act_simps)
    have frame: "t_pull_requests (tables w') = t_pull_requests (tables w3)" "t_issues (tables w') = t_issues (tables w3)"
      "logged (tables w') = logged (tables w3)"
      using aud uid
      by (auto simp: audit_if_user_def audit_record_def act_simps execute_def sql_def Let_def logged_def split: if_splits)
    have "issue_keys_distinct (tables w2)" using assms(2) w2 same by simp
    note recorded = record_merge_Inr [OF rec [unfolded u] uid this]
    then obtain ids where ids: "distinct ids"
      "set ids = issue_id ` {x \<in> set (t_issues (tables w2)). closes (repo_id (mr_repository m)) (closing_numbers (mr_pr m)) x}"
      "logged (tables w3) = logged (tables w2) @ EvPullRequestMerged (pr_id (mr_pr m)) (repo_id (mr_repository m))
             # map (\<lambda>i. EvIssueClosed i (repo_id (mr_repository m)) uid (Some (pr_id (mr_pr m)))) ids"
      by blast
    have d: "\<exists>cs source_ref label msg. do_merge g cs (git_identity ow nm) source_ref label (pr_target (mr_pr m)) st
          (user_username (mr_committer m)) (user_email (mr_committer m)) msg = Inr c"
      using dm c by blast
    show ?thesis
      by (rule exI [of _ "mr_committer m"], rule exI [of _ "mr_repository m"], rule exI [of _ "mr_pr m"],
          rule exI [of _ uid], rule exI [of _ ids], intro conjI gates uid d ids(1))
        (use recorded ids frame c w2 same in \<open>simp_all add: set_pr_state_def\<close>)
  qed simp
qed simp

theorem merge_records_exactly_witness:
  "\<exists>ids (pr :: pull_request). logged (tables (snd (pr_merge willing_git (ActorUser 2) ''alice'' ''proj'' 3 Squash pr_world)))
       = EvPullRequestMerged (pr_id pr) 1 # map (\<lambda>i. EvIssueClosed i 1 2 (Some (pr_id pr))) ids"
proof -
  let ?run = "pr_merge willing_git (ActorUser 2) ''alice'' ''proj'' 3 Squash pr_world"
  have ok: "fst ?run = Inr ''m0''" by code_simp
  have run: "?run = (Inr ''m0'', snd ?run)" using ok by (metis prod.collapse)
  have keys: "issue_keys_distinct (tables pr_world)" by code_simp
  have none: "logged (tables pr_world) = []" by code_simp
  from merge_records_exactly [OF run keys]
  obtain committer rep pr uid ids where "past_gates willing_git (git_calls pr_world) (ActorUser 2) ''alice'' ''proj'' 3 (tables pr_world)
      committer rep pr" "actor_user_id (ActorUser 2) = Some uid"
    "logged (tables (snd ?run)) = EvPullRequestMerged (pr_id pr) (repo_id rep)
          # map (\<lambda>i. EvIssueClosed i (repo_id rep) uid (Some (pr_id pr))) ids"
    unfolding none by fastforce
  moreover have "map_option repo_id (named_repository ''alice'' ''proj'' (tables pr_world)) = Some 1" by code_simp
  ultimately have "uid = 2" "repo_id rep = 1" "logged (tables (snd ?run)) = EvPullRequestMerged (pr_id pr) (repo_id rep)
          # map (\<lambda>i. EvIssueClosed i (repo_id rep) uid (Some (pr_id pr))) ids"
    unfolding past_gates_def by auto
  then have "logged (tables (snd ?run)) = EvPullRequestMerged (pr_id pr) 1
          # map (\<lambda>i. EvIssueClosed i 1 2 (Some (pr_id pr))) ids" by simp
  then show ?thesis by blast
qed

text \<open>The checks of a merge are made before the repository's lock is taken and not repeated under it,
  so two merges of one pull request whose checks overlap both reach the git layer: both calls return,
  the second overwrites the commit the first recorded, and the outbox announces the merge twice.\<close>

theorem overlapping_merges_both_succeed:
  "(case merge_checks willing_git (ActorUser 1) ''alice'' ''proj'' 3 pr_world of
      (Inr first, w1) \<Rightarrow>
        (case merge_checks willing_git (ActorUser 2) ''alice'' ''proj'' 3 w1 of
           (Inr second, w2) \<Rightarrow>
             (case merge_locked willing_git (ActorUser 1) ''alice'' ''proj'' 3 Squash first w2 of
                (r1, w3) \<Rightarrow>
                  (case merge_locked willing_git (ActorUser 2) ''alice'' ''proj'' 3 Squash second w3 of
                     (r2, w4) \<Rightarrow>
                       r1 = Inr ''m0'' \<and> r2 = Inr ''m1'' \<and> length (merge_calls w4) = 2
                       \<and> map pr_state (t_pull_requests (tables w4)) = [PrMerged 5 ''m1'' Squash]
                       \<and> filter (\<lambda>e. event_kind e = KPullRequestMerged) (logged (tables w4))
                           = [EvPullRequestMerged 5 1, EvPullRequestMerged 5 1]))
         | _ \<Rightarrow> False)
    | _ \<Rightarrow> False)"
  by code_simp

end
