(* ===== verification/Git_Access_Proofs.thy ===== *)
theory Git_Access_Proofs
  imports Git_Access Receive_Proofs Login_Proofs PR_Guarantees
begin

text \<open>
  What the git transports guarantee: a repository changes only under a push by someone whom the tables
  allow to write to it, authenticated by a session, a token, a password or a key; and where no statement
  fails, a push over HTTP moves no branch whose protection rule excludes the pusher.
\<close>

section \<open>Authenticating only notes when a credential was used\<close>

definition standing :: "db \<Rightarrow> db" where
  "standing d = d\<lparr>
     t_access_tokens := map (\<lambda>r. r\<lparr>at_last_used_at := None\<rparr>) (t_access_tokens d),
     t_ssh_keys := map (\<lambda>k. k\<lparr>sk_last_used_at := None\<rparr>) (t_ssh_keys d),
     t_deploy_keys := map (\<lambda>k. k\<lparr>dk_last_used_at := None\<rparr>) (t_deploy_keys d)\<rparr>"

lemma find_map: "find P (map f xs) = map_option f (find (\<lambda>x. P (f x)) xs)"
  by (induction xs) auto

lemma standing_team_roles [simp]: "team_roles_for_user rid uid (standing d) = team_roles_for_user rid uid d"
  unfolding team_roles_for_user_def
  by (rule arg_cong [where f = concat], rule map_cong) (simp_all add: standing_def split: access_subject.split)

lemma standing_access [simp]: "stored_access (standing d) actor r = stored_access d actor r"
proof -
  have "access_find rid s (standing d) = access_find rid s d" for rid s
    by (simp add: standing_def access_find_def)
  then show ?thesis by (simp add: stored_access_def split: option.split)
qed

lemma standing_lookups [simp]:
  "named_repository ow nm (standing d) = named_repository ow nm d"
  "token_owner h (standing d) = token_owner h d"
  "user_by_email email (standing d) = user_by_email email d"
  "password_ok env email pw (standing d) u = password_ok env email pw d u"
  "account_status_of uid (standing d) = account_status_of uid d"
  "rules_with_allowlist rid (standing d) = rules_with_allowlist rid d"
  "t_rules (standing d) = t_rules d" "t_allowlist (standing d) = t_allowlist d"
  "ssh_key_user fp (standing d) = ssh_key_user fp d"
  "deploy_key_grant fp (standing d) = deploy_key_grant fp d"
  by (simp_all add: standing_def named_repository_def
      user_by_username_def repo_by_owner_and_name_def org_by_name_def token_owner_def user_exists_def user_by_id_def
      user_by_email_def password_ok_def account_of_def account_status_of_def rules_with_allowlist_def rules_of_def
      allowlist_of_def ssh_key_user_def deploy_key_grant_def find_map option.map_comp comp_def
      split: option.splits)

definition keeps_standing :: "('e, 'a) act \<Rightarrow> bool" where
  "keeps_standing m \<longleftrightarrow> (\<forall>w. standing (tables (snd (m w))) = standing (tables w) \<and> clock (snd (m w)) = clock w
     \<and> (statement_fails w = [] \<longrightarrow> statement_fails (snd (m w)) = []))"

lemma keeps_standingD:
  "keeps_standing m \<Longrightarrow> m w = (r, w') \<Longrightarrow> standing (tables w') = standing (tables w) \<and> clock w' = clock w
     \<and> (statement_fails w = [] \<longrightarrow> statement_fails w' = [])"
  unfolding keeps_standing_def by (metis snd_conv)

lemma standing_ok: "keeps_standing (ok x)" by (simp add: keeps_standing_def ok_def)
lemma standing_err: "keeps_standing (err x)" by (simp add: keeps_standing_def err_def)
lemma standing_now: "keeps_standing now_unix" by (simp add: keeps_standing_def now_unix_def)
lemma standing_ensure: "keeps_standing (ensure b e)" by (simp add: ensure_def standing_ok standing_err)
lemma standing_or_err: "keeps_standing (or_err e x)" by (simp add: or_err_def standing_ok standing_err split: option.split)

lemma standing_sql:
  "(\<And>d x d'. f d = Inr (x, d') \<Longrightarrow> standing d' = standing d) \<Longrightarrow> keeps_standing (sql f)"
  by (auto simp: keeps_standing_def sql_def Let_def split: sum.splits)

lemma standing_select: "keeps_standing (select q)"
  unfolding select_def by (rule standing_sql) simp

lemma standing_execute: "(\<And>d. standing (f d) = standing d) \<Longrightarrow> keeps_standing (execute f)"
  unfolding execute_def by (rule standing_sql) auto

lemma standing_and_then:
  assumes "keeps_standing m" "\<And>x. keeps_standing (f x)" shows "keeps_standing (and_then m f)"
  unfolding keeps_standing_def
proof
  fix w
  obtain r w1 where m: "m w = (r, w1)" by fastforce
  note k = keeps_standingD [OF assms(1) m]
  show "standing (tables (snd (and_then m f w))) = standing (tables w) \<and> clock (snd (and_then m f w)) = clock w
     \<and> (statement_fails w = [] \<longrightarrow> statement_fails (snd (and_then m f w)) = [])"
  proof (cases r)
    case (Inl e)
    then show ?thesis using k m by (simp add: and_then_def)
  next
    case (Inr x)
    then show ?thesis using k m assms(2) [of x] by (simp add: and_then_def keeps_standing_def)
  qed
qed

lemma standing_map_err: "keeps_standing m \<Longrightarrow> keeps_standing (map_err g m)"
  unfolding keeps_standing_def map_err_def by (auto split: prod.splits sum.splits) (metis snd_conv)+

lemma standing_outcome: "keeps_standing m \<Longrightarrow> keeps_standing (outcome m)"
  unfolding keeps_standing_def outcome_def by (auto split: prod.splits) (metis snd_conv)+

lemma standing_if: "keeps_standing m \<Longrightarrow> keeps_standing n \<Longrightarrow> keeps_standing (if b then m else n)" by simp

lemma standing_option:
  "keeps_standing m \<Longrightarrow> (\<And>y. keeps_standing (f y)) \<Longrightarrow> keeps_standing (case x of None \<Rightarrow> m | Some y \<Rightarrow> f y)"
  by (cases x) simp_all

lemma standing_sum:
  "(\<And>y. keeps_standing (f y)) \<Longrightarrow> (\<And>y. keeps_standing (g y)) \<Longrightarrow> keeps_standing (case x of Inl y \<Rightarrow> f y | Inr y \<Rightarrow> g y)"
  by (cases x) simp_all

lemma standing_prod: "(\<And>a b. keeps_standing (f a b)) \<Longrightarrow> keeps_standing (case p of (a, b) \<Rightarrow> f a b)"
  by (cases p) simp

lemmas standing_rules = standing_ok standing_err standing_now standing_ensure standing_or_err standing_select
  standing_and_then standing_map_err standing_outcome standing_if standing_option standing_sum standing_prod

lemma standing_noted [simp]:
  "standing (d\<lparr>t_access_tokens := update_where P (\<lambda>r. r\<lparr>at_last_used_at := t\<rparr>) (t_access_tokens d)\<rparr>) = standing d"
  "standing (d\<lparr>t_ssh_keys := update_where Q (\<lambda>k. k\<lparr>sk_last_used_at := t\<rparr>) (t_ssh_keys d)\<rparr>) = standing d"
  "standing (d\<lparr>t_deploy_keys := update_where R (\<lambda>k. k\<lparr>dk_last_used_at := t\<rparr>) (t_deploy_keys d)\<rparr>) = standing d"
  by (simp_all add: standing_def map_update_where)

lemma standing_token_authenticate: "keeps_standing (token_authenticate env raw)"
  unfolding token_authenticate_def find_token_by_hash_def by (intro standing_rules standing_execute) simp_all

lemma standing_backend_authenticate: "keeps_standing (backend_authenticate env email pw)"
  unfolding backend_authenticate_def find_by_email_def by (intro standing_rules)

lemma standing_basic_actor: "keeps_standing (basic_actor env identity secret)"
  unfolding basic_actor_def
  by (intro standing_rules standing_token_authenticate standing_backend_authenticate)

lemma standing_resolve_actor: "keeps_standing (resolve_actor srv cfg auth)"
  unfolding resolve_actor_def by (intro standing_rules standing_basic_actor)

lemma standing_access_for: "keeps_standing (access_for actor r)"
  unfolding access_for_def hide_def by (intro standing_rules)

lemma standing_decide: "keeps_standing (decide x)"
  by (cases x) (simp_all add: standing_ok standing_err)

lemma standing_checks: "keeps_standing (check_write actor r)" "keeps_standing (check_read actor r)"
  "keeps_standing (check_administer actor r)"
  unfolding check_write_def check_read_def check_administer_def
  by (intro standing_rules standing_access_for standing_decide)+


section \<open>Who may be behind a request\<close>

definition header_authenticates :: "'o git_server \<Rightarrow> string option \<Rightarrow> db \<Rightarrow> actor_context \<Rightarrow> bool" where
  "header_authenticates srv header d actor \<longleftrightarrow>
     (\<exists>identity secret. basic_credentials (srv_basic srv) header = Some (identity, secret)
        \<and> ((\<exists>raw\<in>{secret, identity}. \<exists>u scope ts. starts_with raw token_prefix
              \<and> token_owner (hash_token (srv_auth srv) raw) d = Some (u, scope, ts) \<and> user_disabled_at u = None
              \<and> actor = ActorToken (user_id u) scope ts)
           \<or> (\<exists>u. password_ok (srv_auth srv) identity secret d u \<and> actor = ActorUser (user_id u))))"

definition authenticates ::
  "'o git_server \<Rightarrow> git_config \<Rightarrow> http_auth \<Rightarrow> int \<Rightarrow> db \<Rightarrow> actor_context \<Rightarrow> bool" where
  "authenticates srv cfg auth now d actor \<longleftrightarrow>
     (\<exists>uid login_at. ha_session auth = Some (uid, login_at)
        \<and> \<not> session_login_expired login_at (gc_absolute_ttl cfg) now \<and> actor = ActorUser uid)
     \<or> header_authenticates srv (ha_authorization auth) d actor"

lemma header_authenticates_cong:
  assumes "standing d' = standing d"
  shows "header_authenticates srv header d' actor \<longleftrightarrow> header_authenticates srv header d actor"
proof -
  have "header_authenticates srv header (standing d) actor \<longleftrightarrow> header_authenticates srv header d actor" for d
    by (simp add: header_authenticates_def)
  then show ?thesis using assms by metis
qed

lemma token_authenticate_Some:
  assumes "token_authenticate env raw w = (Inr (Some (u, scope, ts)), w')"
  shows "starts_with raw token_prefix \<and> token_owner (hash_token env raw) (tables w) = Some (u, scope, ts)
    \<and> user_disabled_at u = None"
proof -
  obtain x where x: "starts_with raw token_prefix" "find_token_by_hash (hash_token env raw) w = (x, w')"
    "(case x of Inr (Some (u, s, t)) \<Rightarrow> if isl (require_enabled u) then None else Some (u, s, t) | _ \<Rightarrow> None)
       = Some (u, scope, ts)"
    using assms by (auto simp: token_authenticate_def act_simps split: if_splits)
  have found: "x = Inr (Some (u, scope, ts))" and enabled: "user_disabled_at u = None"
    using x(3) by (auto simp: require_enabled_def split: sum.splits option.splits if_splits)
  obtain y w1 where s: "select (token_owner (hash_token env raw)) w = (Inr y, w1)" "y = Some (u, scope, ts)"
    using x(2) unfolding found find_token_by_hash_def by (auto simp: act_simps split: option.splits)
  then show ?thesis using select_Inr [OF s(1)] enabled x(1) by simp
qed

lemma basic_actor_Inr:
  assumes "(basic_actor (srv_auth srv) identity secret :: ('e, actor_context) act) w = (Inr actor, w')" "actor \<noteq> Anonymous"
    and creds: "basic_credentials (srv_basic srv) header = Some (identity, secret)"
  shows "header_authenticates srv header (tables w) actor"
proof -
  let ?env = "srv_auth srv"
  have hit: "header_authenticates srv header (tables w1) actor"
    if "token_authenticate ?env raw w1 = (Inr (Some owner), w2)" "raw \<in> {secret, identity}" "token_actor owner = actor"
    for raw owner w1 w2
  proof -
    obtain u sc ts where o: "owner = (u, sc, ts)" by (cases owner)
    then show ?thesis
      using token_authenticate_Some that creds unfolding header_authenticates_def by fastforce
  qed
  obtain t w1 where 1: "(token_authenticate ?env secret :: ('e, (user \<times> repository_scope \<times> token_scope) option) act) w = (Inr t, w1)"
    "(case t of Some owner \<Rightarrow> ok (token_actor owner) | None \<Rightarrow>
           and_then (token_authenticate ?env identity) (\<lambda>t.
             case t of
               Some owner \<Rightarrow> ok (token_actor owner)
             | None \<Rightarrow>
                 and_then (outcome (backend_authenticate ?env identity secret)) (\<lambda>res.
                   ok (case res of Inr (Some row) \<Rightarrow> ActorUser (user_id (ur_user row)) | _ \<Rightarrow> Anonymous)))) w1
       = (Inr actor :: 'e + actor_context, w')"
    using assms(1) unfolding basic_actor_def and_then_Inr by blast
  have s1: "standing (tables w1) = standing (tables w)"
    using keeps_standingD [OF standing_token_authenticate 1(1)] by blast
  show ?thesis
  proof (cases t)
    case (Some owner)
    then show ?thesis using 1 hit [of secret w owner w1] by (simp add: ok_Inr)
  next
    case None
    then obtain t' w2 where 2: "(token_authenticate ?env identity :: ('e, (user \<times> repository_scope \<times> token_scope) option) act) w1 = (Inr t', w2)"
      "(case t' of Some owner \<Rightarrow> ok (token_actor owner) | None \<Rightarrow>
                 and_then (outcome (backend_authenticate ?env identity secret)) (\<lambda>res.
                   ok (case res of Inr (Some row) \<Rightarrow> ActorUser (user_id (ur_user row)) | _ \<Rightarrow> Anonymous))) w2
         = (Inr actor :: 'e + actor_context, w')"
      using 1(2) unfolding None option.case and_then_Inr by blast
    have s2: "standing (tables w2) = standing (tables w)"
      using keeps_standingD [OF standing_token_authenticate 2(1)] s1 by simp
    show ?thesis
    proof (cases t')
      case (Some owner)
      then have "header_authenticates srv header (tables w1) actor"
        using 2 hit [of identity w1 owner w2] by (simp add: ok_Inr)
      then show ?thesis using header_authenticates_cong [OF s1] by blast
    next
      case None
      then obtain res w3 where 3: "backend_authenticate ?env identity secret w2 = (res, w3)"
        "actor = (case res of Inr (Some row) \<Rightarrow> ActorUser (user_id (ur_user row)) | _ \<Rightarrow> Anonymous)"
        using 2(2) by (auto simp: act_simps)
      then obtain row where row: "res = Inr (Some row)" "actor = ActorUser (user_id (ur_user row))"
        using assms(2) by (auto split: sum.splits option.splits)
      then have "password_ok ?env identity secret (tables w2) (ur_user row)"
        using backend_authenticate_Inr 3(1) by metis
      then have "header_authenticates srv header (tables w2) actor"
        using creds row(2) unfolding header_authenticates_def by blast
      then show ?thesis using header_authenticates_cong [OF s2] by blast
    qed
  qed
qed

lemma resolve_actor_Inr:
  assumes "(resolve_actor srv cfg auth :: ('e, actor_context) act) w = (Inr actor, w')" "actor \<noteq> Anonymous"
  shows "authenticates srv cfg auth (clock w) (tables w) actor"
proof -
  let ?header = "(case basic_credentials (srv_basic srv) (ha_authorization auth) of None \<Rightarrow> ok Anonymous
         | Some (identity, secret) \<Rightarrow> basic_actor (srv_auth srv) identity secret) :: ('e, actor_context) act"
  have header: ?thesis if run: "?header w = (Inr actor, w')"
  proof (cases "basic_credentials (srv_basic srv) (ha_authorization auth)")
    case None
    then show ?thesis using run assms(2) by (simp add: ok_Inr)
  next
    case (Some c)
    then have "header_authenticates srv (ha_authorization auth) (tables w) actor"
      using run basic_actor_Inr [OF _ assms(2)] by (cases c) auto
    then show ?thesis by (simp add: authenticates_def)
  qed
  show ?thesis
  proof (cases "ha_session auth")
    case None
    then have "?header w = (Inr actor, w')" using assms(1) by (simp add: resolve_actor_def and_then_def now_unix_def)
    then show ?thesis by (rule header)
  next
    case (Some s)
    obtain uid login_at where s: "s = (uid, login_at)" by (cases s)
    show ?thesis
    proof (cases "session_login_expired login_at (gc_absolute_ttl cfg) (clock w)")
      case True
      then have "?header w = (Inr actor, w')"
        using assms(1) Some s by (simp add: resolve_actor_def and_then_def now_unix_def)
      then show ?thesis by (rule header)
    next
      case False
      then show ?thesis using assms(1) Some s
        by (simp add: resolve_actor_def and_then_def now_unix_def ok_Inr authenticates_def)
    qed
  qed
qed

section \<open>The gate of a push over HTTP\<close>

lemma check_write_sound:
  assumes "check_write actor r w = (Inr u, w')"
  shows "can_write_repository actor r (stored_access (tables w) actor r) = Inr ()"
  using assms fetch_then_decide [OF reads_access_for hides_access_for, of actor r "can_write_repository actor r" w]
  by (auto simp: check_write_def prod_eq_iff)

lemma anonymous_never_writes: "can_write_repository Anonymous r (stored_access d Anonymous r) \<noteq> Inr ()"
  by (simp add: can_write_repository_def require_role_def stored_access_def Let_def)

definition email_verified :: "uuid \<Rightarrow> db \<Rightarrow> bool" where
  "email_verified uid d \<longleftrightarrow>
     (case account_status_of uid d of None \<Rightarrow> True | Some st \<Rightarrow> is_email_verified st)"

lemma standing_verified: "keeps_standing (require_verified cfg actor)"
  unfolding require_verified_def account_status_def by (intro standing_rules)

lemma require_verified_Inr:
  assumes "require_verified cfg actor w = (Inr u, w')" "statement_fails w = []"
    "require_email_verification (gc_registration cfg)" "actor_user_id actor = Some uid"
  shows "email_verified uid (tables w)"
  using assms
  by (auto simp: require_verified_def account_status_def act_simps select_no_fault email_verified_def
      require_verified_for_write_def split: option.splits if_splits)

lemma require_write_access_Inr:
  assumes "require_write_access srv cfg auth owner r w = (Inr u, w')"
  shows "\<exists>actor. authenticates srv cfg auth (clock w) (tables w) actor \<and> permits_token_scope actor TSRepoWrite
    \<and> can_write_repository actor r (stored_access (tables w) actor r) = Inr ()
    \<and> (statement_fails w = [] \<and> require_email_verification (gc_registration cfg) \<longrightarrow>
        (\<forall>uid. actor_user_id actor = Some uid \<longrightarrow> email_verified uid (tables w)))"
proof -
  obtain actor w1 u2 w2 where 1: "(resolve_actor srv cfg auth :: (http_reply, actor_context) act) w = (Inr actor, w1)"
    and p: "permits_token_scope actor TSRepoWrite"
    and 2: "require_verified cfg actor w1 = (Inr u2, w2)"
    and 3: "map_err (write_refusal actor owner r) (check_write actor r) w2 = (Inr u, w')"
    using assms unfolding require_write_access_def and_then_Inr ensure_Inr by blast
  have s1: "standing (tables w1) = standing (tables w)" "statement_fails w = [] \<longrightarrow> statement_fails w1 = []"
    using keeps_standingD [OF standing_resolve_actor 1] by auto
  have s2: "standing (tables w2) = standing (tables w)"
    using keeps_standingD [OF standing_verified 2] s1 by simp
  have "can_write_repository actor r (stored_access (tables w2) actor r) = Inr ()"
    using 3 check_write_sound by (simp add: map_err_Inr)
  then have may_write: "can_write_repository actor r (stored_access (tables w) actor r) = Inr ()"
    using s2 standing_access by metis
  then have "actor \<noteq> Anonymous" using anonymous_never_writes by metis
  then have who: "authenticates srv cfg auth (clock w) (tables w) actor" using resolve_actor_Inr [OF 1] by blast
  have "email_verified uid (tables w)" if "statement_fails w = []"
    "require_email_verification (gc_registration cfg)" "actor_user_id actor = Some uid" for uid
  proof -
    have "email_verified uid (tables w1)" using require_verified_Inr [OF 2] that s1(2) by blast
    then show ?thesis using s1(1) unfolding email_verified_def by (metis standing_lookups(5))
  qed
  then show ?thesis using who p may_write by (intro exI [of _ actor] conjI impI allI) simp_all
qed

lemma standing_repository_by_name: "keeps_standing (repository_by_name ow nm)"
  unfolding repository_by_name_def find_by_owner_username_and_name_def resolve_owner_def hide_def
  by (intro standing_rules)

lemma standing_write_access: "keeps_standing (require_write_access srv cfg auth owner r)"
  unfolding require_write_access_def
  by (intro standing_rules standing_resolve_actor standing_verified standing_checks)

lemma standing_list_rules: "keeps_standing (list_rules_with_allowlist rid)"
  unfolding list_rules_with_allowlist_def list_rules_def by (intro standing_rules)

lemma standing_receive_checks: "keeps_standing (resolve_receive_checks actor r limit)"
  unfolding resolve_receive_checks_def Let_def hide_def
  by (intro standing_rules standing_checks standing_list_rules)

lemma sound_list_rules: "sound (list_rules_with_allowlist rid)"
  unfolding list_rules_with_allowlist_def list_rules_def by (intro sound_rules)

lemma sound_administer_outcome: "sound (outcome (check_administer actor r))"
proof -
  have "statement_fails (snd (check_administer actor r w)) = []" if "statement_fails w = []" for w
    using standing_checks(3) [of actor r] that unfolding keeps_standing_def by blast
  then show ?thesis by (auto simp: sound_def outcome_def split: prod.splits) (metis snd_conv)
qed

lemma sound_sum: "(\<And>y. sound (f y)) \<Longrightarrow> (\<And>y. sound (g y)) \<Longrightarrow> sound (case x of Inl y \<Rightarrow> f y | Inr y \<Rightarrow> g y)"
  by (cases x) simp_all

lemma sound_receive_checks: "sound (resolve_receive_checks actor r limit)"
  unfolding resolve_receive_checks_def Let_def hide_def
  by (intro sound_rules sound_sum sound_administer_outcome sound_list_rules)

text \<open>The direct-push patterns resolved for an actor who may not administer the repository.\<close>

lemma resolve_receive_checks_Inr:
  assumes "resolve_receive_checks actor r limit w = (Inr checks, w')"
  shows "can_administer_repository actor r (stored_access (tables w) actor r) = Inr ()
    \<or> blocked_ref_patterns checks =
        map ref_glob (filter (\<lambda>x. \<not> allowlisted actor x) (rules_with_allowlist (repo_id r) (tables w)))"
proof -
  define c0 where "c0 = (\<lambda>size :: repo_size option.
     \<lparr>blocked_ref_patterns = [], linear_history_ref_patterns = [], signed_commit_ref_patterns = [],
      max_repo_bytes = (case limit of Some l \<Rightarrow> if 0 < l then Some (nat l) else None | None \<Rightarrow> None),
      current_repo_bytes = (case size of None \<Rightarrow> 0 | Some s \<Rightarrow> nat (max 0 (total_bytes s)))\<rparr>)"
  obtain size w1 admin w2 where 1: "select (repo_size_get (repo_id r)) w = (Inr size, w1)"
    and 2: "check_administer actor r w1 = (admin, w2)"
    and 3: "(case admin of Inr _ \<Rightarrow> ok (c0 size)
            | Inl _ \<Rightarrow> and_then (hide (list_rules_with_allowlist (repo_id r))) (\<lambda>rules.
                  ok (fold (add_rule_checks actor) rules (c0 size)))) w2 = (Inr checks, w')"
    using assms unfolding resolve_receive_checks_def c0_def Let_def by (auto simp: act_simps)
  have t1: "tables w1 = tables w" using select_Inr [OF 1] by blast
  show ?thesis
  proof (cases admin)
    case (Inr u)
    then show ?thesis using check_administer_sound 2 t1 by metis
  next
    case (Inl e)
    then obtain rules where rules: "list_rules_with_allowlist (repo_id r) w2 = (Inr rules, w')"
      "checks = fold (add_rule_checks actor) rules (c0 size)"
      using 3 by (auto simp: act_simps)
    have "rules = rules_with_allowlist (repo_id r) (tables w)"
      using reads_value [OF reads_list_rules_with_allowlist rules(1)] check_administer_tables [OF 2] t1 by simp
    then show ?thesis using rules(2) by (simp add: fold_add_rule_checks c0_def)
  qed
qed

text \<open>A ref those patterns let through is in no branch whose rule leaves the actor out.\<close>

lemma unblocked_branch:
  assumes "blocked_ref_patterns checks =
      map ref_glob (filter (\<lambda>x. \<not> allowlisted actor x) (rules_with_allowlist rid d))"
    and "\<not> any_pattern_matches (blocked_ref_patterns checks) (''refs/heads/'' @ branch)"
    and "rule \<in> set (t_rules d)" "rule_repository_id rule = rid" "branch_pattern_matches (rule_pattern rule) branch"
  shows "\<exists>uid. actor_user_id actor = Some uid \<and> (rule_id rule, SubjectUser uid) \<in> set (t_allowlist d)"
proof (rule ccontr)
  let ?x = "rule\<lparr>push_allowlist := allowlist_of (rule_id rule) d\<rparr>"
  assume "\<not> ?thesis"
  then have "\<not> allowlisted actor ?x" unfolding not_allowlisted by auto
  moreover have "?x \<in> set (rules_with_allowlist rid d)"
    using assms(3,4) by (auto simp: rules_with_allowlist_def rules_of_def)
  ultimately have "ref_glob ?x \<in> set (blocked_ref_patterns checks)" using assms(1) by auto
  moreover have "branch_pattern_matches (ref_glob ?x) (''refs/heads/'' @ branch)"
    using assms(5) unfolding ref_glob_matches by simp
  ultimately show False using assms(2) by (auto simp: any_pattern_matches_def list_ex_iff)
qed

lemma read_body_capped_Inr: "read_body_capped body limit w = (Inr x, w') \<longleftrightarrow> length body \<le> limit \<and> x = body \<and> w' = w"
  by (auto simp: read_body_capped_def act_simps)

lemma push_gate_steps:
  assumes "push_gate srv cfg auth owner repo body w = (Inr (identity, r, actor, checks), w')"
  shows "\<exists>name w1 w2 w3 res. repo_names owner repo = Some (identity, name)
    \<and> repository_by_name owner name w = (Inr r, w1)
    \<and> require_write_access srv cfg auth owner r w1 = (Inr (), w2)
    \<and> (resolve_actor srv cfg auth :: (http_reply, actor_context) act) w2 = (Inr actor, w3)
    \<and> resolve_receive_checks actor r (Option.bind (gc_max_repo_size_bytes cfg)
                      (\<lambda>b. if int b \<le> i64_max then Some (int b) else None)) w3 = (res, w')
    \<and> checks = (case res of Inl _ \<Rightarrow> no_checks | Inr checks \<Rightarrow> checks)"
  using assms
  by (auto simp: push_gate_def and_then_Inr named_repo_def found_repo_def checks_or_default_def or_err_Inr map_err_Inr
      read_body_capped_Inr outcome_Inr ok_Inr split: prod.splits)


section \<open>What a push changes on disk\<close>

lemma serve_receive_pack_local:
  assumes "serve_receive_pack srv identity body checks disk = (res, disk')"
  shows "(\<forall>j. j \<noteq> identity \<longrightarrow> disk' j = disk j)
    \<and> (disk' \<noteq> disk \<longrightarrow> (\<exists>g g'. disk identity = Some g \<and> disk' identity = Some g'
          \<and> run_receive_pack (srv_git srv) checks body g = (res, g')))"
  using assms
  by (auto simp: serve_receive_pack_def validated_repo_dir_def split: sum.splits option.splits prod.splits if_splits)

lemma land_refuses_refs:
  assumes "land env checks commands n q g = (Inl e, g')"
  shows "gd_refs g' = gd_refs g"
proof (cases "pre_ingest_rejection checks commands n = None \<and> fsck_rejection env q commands g = None")
  case False
  then show ?thesis
    using assms by (auto simp: land_def Let_def Receive.discard_def remove_dir_all_def split: option.splits)
next
  case True
  show ?thesis
  proof (cases q)
    case None
    then have "land_promoted env checks commands [] g = (Inl e, g')" using assms True by (simp add: land_def)
    from land_promoted_frame [OF this] show ?thesis by simp
  next
    case (Some q')
    obtain p g1 where p: "promote env q' g = (p, g1)" by fastforce
    note same = promote_fields [OF p]
    show ?thesis
    proof (cases p)
      case (Inl e')
      then show ?thesis using assms True Some p same by (simp add: land_def)
    next
      case (Inr m)
      then have "land_promoted env checks commands m g1 = (Inl e, g')" using assms True Some p by (simp add: land_def)
      from land_promoted_frame [OF this] show ?thesis using same by simp
    qed
  qed
qed

lemma receive_moves_refs:
  assumes "receive_blocking env checks commands pack g = (r, g')" "gd_refs g' \<noteq> gd_refs g"
  shows "\<exists>out. r = Inr out \<and> (commands \<noteq> [] \<longrightarrow> ro_applied out \<noteq> [])"
proof -
  have refused: "gd_refs g2 = gd_refs g"
    if "land env checks commands (length pack) q g1 = (Inl e, g2)" "gd_refs g1 = gd_refs g" for q g1 e g2
    using land_refuses_refs [OF that(1)] that(2) by simp
  show ?thesis
  proof (cases "list_ex (\<lambda>c. new_oid c \<noteq> zero_id) commands")
    case False
    then show ?thesis using assms refused [of None g]
      by (auto simp: receive_blocking_def split: prod.splits sum.splits)
  next
    case True
    obtain res g1 where w: "write_pack env pack g = (res, g1)" by fastforce
    note same = write_pack_refs [OF w]
    show ?thesis
    proof (cases res)
      case (Inl e)
      then show ?thesis using assms True w same by (auto simp: receive_blocking_def)
    next
      case (Inr q)
      then show ?thesis using assms True w same refused [of "Some q" g1]
        by (auto simp: receive_blocking_def split: prod.splits sum.splits)
    qed
  qed
qed

lemma run_receive_pack_respects_blocks:
  assumes run: "run_receive_pack env checks body g = (res, g')" and law: "transaction_law env"
    and moved: "map_of (gd_refs g') n \<noteq> map_of (gd_refs g) n"
  shows "\<not> any_pattern_matches (blocked_ref_patterns checks) n"
proof -
  have changed: "gd_refs g' \<noteq> gd_refs g" using moved by auto
  obtain commands pos r where "parse_receive_pack_commands body = Inr (commands, pos)"
    and a: "apply_receive_pack env checks commands (drop pos body) g = (r, g')"
    using run changed by (auto simp: run_receive_pack_def split: sum.splits prod.splits)
  have some: "commands \<noteq> []" using a changed by (auto simp: apply_receive_pack_def)
  then have b: "receive_blocking env checks commands (drop pos body) g = (r, g')"
    using a by (simp add: apply_receive_pack_def)
  from receive_moves_refs [OF b changed] some obtain out where out: "r = Inr out" "ro_applied out \<noteq> []" by blast
  from receive_landed [OF b [unfolded out(1)] out(2)] obtain q g1 g2 m g3 where
    src: "q = None \<and> \<not> list_ex (\<lambda>c. new_oid c \<noteq> zero_id) commands \<and> g1 = g \<and> g2 = g \<and> m = []
     \<or> (\<exists>q'. q = Some q' \<and> write_pack env (drop pos body) g = (Inr q', g1) \<and> promote env q' g1 = (Inr m, g2))"
    and pre: "pre_ingest_rejection checks commands (length (drop pos body)) = None"
    and "land_promoted env checks commands m g2 = (Inr (), g3)" and g': "g' = fix_unborn_head env g3" .
  from land_promoted_ok [OF this(3)] obtain refs' where
    u: "update_refs env (updates_of commands) (gd_refs g2) = Inr refs'" "g3 = g2\<lparr>gd_refs := refs'\<rparr>" by blast
  have "gd_refs g2 = gd_refs g" using src by (auto dest!: write_pack_refs promote_fields)
  then have "update_refs env (updates_of commands) (gd_refs g) = Inr (gd_refs g')" using u g' by simp
  then have "n \<in> cmd_ref_name ` set commands" using update_refs_others [OF law] moved by metis
  moreover have "blocked_ref_rejection checks commands = None"
    using pre by (auto simp: pre_ingest_rejection_def split: option.splits)
  ultimately show ?thesis by (auto simp: blocked_ref_rejection_def find_None_iff)
qed


lemma receive_pack_steps:
  assumes "receive_pack srv cfg auth owner repo body h = (reply, h')" "h_disk h' \<noteq> h_disk h"
  obtains identity r actor checks w' res where
    "push_gate srv cfg auth owner repo body (h_world h) = (Inr (identity, r, actor, checks), w')"
    "serve_receive_pack srv identity body checks (h_disk h) = (res, h_disk h')"
proof -
  obtain res w' where p: "push_gate srv cfg auth owner repo body (h_world h) = (res, w')" by fastforce
  obtain gate where g: "res = Inr gate" using assms p by (cases res) (auto simp: receive_pack_def)
  obtain identity r actor checks where gate: "gate = (identity, r, actor, checks)" by (cases gate)
  obtain out disk where s: "serve_receive_pack srv identity body checks (h_disk h) = (out, disk)" by fastforce
  have "disk = h_disk h'"
    using assms(1) p g gate s by (auto simp: receive_pack_def split: sum.splits)
  then show ?thesis using that p g gate s by blast
qed

text \<open>C4. A push over HTTP is authorized, whatever fails. If a request changes any repository on disk, it is
  the one the URL names, and no other; the tables hold a repository of that name; and the request is
  by someone, authenticated by an unexpired session, an access token of an enabled account or the
  password of one, whose token permits writing and whose grants in the tables allow to write to that
  repository. Where no statement fails and the instance asks for it, the account's email is verified.\<close>

theorem http_push_is_authorized:
  assumes "receive_pack srv cfg auth owner repo body h = (reply, h')" "h_disk h' \<noteq> h_disk h"
  shows "\<exists>name r actor. repo = name @ ''.git'' \<and> named_repository owner name (tables (h_world h)) = Some r
    \<and> (\<forall>j. j \<noteq> owner @ ''/'' @ name \<longrightarrow> h_disk h' j = h_disk h j)
    \<and> authenticates srv cfg auth (clock (h_world h)) (tables (h_world h)) actor
    \<and> permits_token_scope actor TSRepoWrite
    \<and> can_write_repository actor r (stored_access (tables (h_world h)) actor r) = Inr ()
    \<and> (statement_fails (h_world h) = [] \<and> require_email_verification (gc_registration cfg) \<longrightarrow>
        (\<forall>uid. actor_user_id actor = Some uid \<longrightarrow> email_verified uid (tables (h_world h))))"
proof -
  obtain identity r pusher checks w' res where
    gate: "push_gate srv cfg auth owner repo body (h_world h) = (Inr (identity, r, pusher, checks), w')"
    and serve: "serve_receive_pack srv identity body checks (h_disk h) = (res, h_disk h')"
    using receive_pack_steps [OF assms] by metis
  obtain name w1 w2 where nm: "repo_names owner repo = Some (identity, name)"
    and rn: "repository_by_name owner name (h_world h) = (Inr r, w1)"
    and acc: "require_write_access srv cfg auth owner r w1 = (Inr (), w2)"
    using push_gate_steps [OF gate] by blast
  have split: "repo = name @ ''.git''" "identity = owner @ ''/'' @ name"
    using nm by (auto simp: repo_names_def strip_suffix_def ends_with_def split: if_splits)
      (metis append_take_drop_id)
  have same: "standing (tables w1) = standing (tables (h_world h))" "clock w1 = clock (h_world h)"
    "statement_fails (h_world h) = [] \<longrightarrow> statement_fails w1 = []"
    using keeps_standingD [OF standing_repository_by_name rn] by auto
  obtain actor where actor: "authenticates srv cfg auth (clock w1) (tables w1) actor" "permits_token_scope actor TSRepoWrite"
    "can_write_repository actor r (stored_access (tables w1) actor r) = Inr ()"
    "statement_fails w1 = [] \<and> require_email_verification (gc_registration cfg) \<longrightarrow>
        (\<forall>uid. actor_user_id actor = Some uid \<longrightarrow> email_verified uid (tables w1))"
    using require_write_access_Inr [OF acc] by blast
  have t: "stored_access (tables w1) actor r = stored_access (tables (h_world h)) actor r"
    "email_verified uid (tables w1) = email_verified uid (tables (h_world h))" for uid
    using same(1) unfolding email_verified_def by (metis standing_access, metis standing_lookups(5))
  have "authenticates srv cfg auth (clock (h_world h)) (tables (h_world h)) actor"
    using actor(1) same(2) by (simp add: authenticates_def header_authenticates_cong [OF same(1)])
  moreover have "\<forall>j. j \<noteq> owner @ ''/'' @ name \<longrightarrow> h_disk h' j = h_disk h j"
    using serve_receive_pack_local [OF serve] split(2) by blast
  ultimately show ?thesis
    using split(1) repository_by_name_Inr [OF rn] actor(2-4) same(3) unfolding t by blast
qed


text \<open>C5. Protected branches hold over HTTP. If no statement fails, and a request changes where some ref of
  the repository points, then whoever is behind it is authenticated, and may administer the
  repository, or every protection rule of the repository whose pattern the branch matches names that
  user on its allowlist.\<close>

theorem http_push_respects_protection:
  assumes "receive_pack srv cfg auth owner repo body h = (reply, h')" "statement_fails (h_world h) = []"
    and "transaction_law (srv_git srv)"
    and "h_disk h i = Some g" "h_disk h' i = Some g'"
    and "map_of (gd_refs g') (''refs/heads/'' @ branch) \<noteq> map_of (gd_refs g) (''refs/heads/'' @ branch)"
  shows "\<exists>name r actor. i = owner @ ''/'' @ name \<and> named_repository owner name (tables (h_world h)) = Some r
    \<and> (can_administer_repository actor r (stored_access (tables (h_world h)) actor r) = Inr ()
         \<and> authenticates srv cfg auth (clock (h_world h)) (tables (h_world h)) actor
       \<or> (\<forall>rule\<in>set (t_rules (tables (h_world h))).
            rule_repository_id rule = repo_id r \<and> branch_pattern_matches (rule_pattern rule) branch \<longrightarrow>
            (\<exists>uid. actor_user_id actor = Some uid \<and> authenticates srv cfg auth (clock (h_world h)) (tables (h_world h)) actor
               \<and> (rule_id rule, SubjectUser uid) \<in> set (t_allowlist (tables (h_world h))))))"
proof -
  have changed: "h_disk h' \<noteq> h_disk h" using assms(4-6) by auto
  obtain identity r pusher checks w' out where
    gate: "push_gate srv cfg auth owner repo body (h_world h) = (Inr (identity, r, pusher, checks), w')"
    and serve: "serve_receive_pack srv identity body checks (h_disk h) = (out, h_disk h')"
    using receive_pack_steps [OF assms(1) changed] by metis
  note local = serve_receive_pack_local [OF serve]
  have "i = identity" using local assms(4-6) by (metis option.inject)
  then have run: "run_receive_pack (srv_git srv) checks body g = (out, g')"
    using local changed assms(4,5) by auto
  note free = run_receive_pack_respects_blocks [OF run assms(3,6)]
  obtain name w1 w2 w3 res where nm: "repo_names owner repo = Some (identity, name)"
    and rn: "repository_by_name owner name (h_world h) = (Inr r, w1)"
    and acc: "require_write_access srv cfg auth owner r w1 = (Inr (), w2)"
    and who: "(resolve_actor srv cfg auth :: (http_reply, actor_context) act) w2 = (Inr pusher, w3)"
    and rc: "resolve_receive_checks pusher r (Option.bind (gc_max_repo_size_bytes cfg)
                      (\<lambda>b. if int b \<le> i64_max then Some (int b) else None)) w3 = (res, w')"
    and ch: "checks = (case res of Inl _ \<Rightarrow> no_checks | Inr checks \<Rightarrow> checks)"
    using push_gate_steps [OF gate] by blast
  have same: "standing (tables w2) = standing (tables (h_world h))" "clock w2 = clock (h_world h)"
    "standing (tables w3) = standing (tables (h_world h))" "statement_fails w3 = []"
    using keeps_standingD [OF standing_repository_by_name rn] keeps_standingD [OF standing_write_access acc]
      keeps_standingD [OF standing_resolve_actor who] assms(2) by auto
  have "\<not> isl res" using sound_receive_checks same(4) rc unfolding sound_def by (metis fst_conv)
  then obtain c where c: "res = Inr c" by (cases res) auto
  have auth: "authenticates srv cfg auth (clock (h_world h)) (tables (h_world h)) pusher" if "pusher \<noteq> Anonymous"
    using resolve_actor_Inr [OF who that] same(2) by (simp add: authenticates_def header_authenticates_cong [OF same(1)])
  have t: "stored_access (tables w3) pusher r = stored_access (tables (h_world h)) pusher r"
    "rules_with_allowlist (repo_id r) (tables w3) = rules_with_allowlist (repo_id r) (tables (h_world h))"
    using same(3) by (metis standing_access, metis standing_lookups(6))
  have "can_administer_repository pusher r (stored_access (tables (h_world h)) pusher r) = Inr ()
    \<or> blocked_ref_patterns checks =
        map ref_glob (filter (\<lambda>x. \<not> allowlisted pusher x) (rules_with_allowlist (repo_id r) (tables (h_world h))))"
    using resolve_receive_checks_Inr [OF rc [unfolded c]] ch c t by simp
  then have "can_administer_repository pusher r (stored_access (tables (h_world h)) pusher r) = Inr () \<and> pusher \<noteq> Anonymous
    \<or> (\<forall>rule\<in>set (t_rules (tables (h_world h))).
            rule_repository_id rule = repo_id r \<and> branch_pattern_matches (rule_pattern rule) branch \<longrightarrow>
            (\<exists>uid. actor_user_id pusher = Some uid \<and> (rule_id rule, SubjectUser uid) \<in> set (t_allowlist (tables (h_world h)))))"
    (is "?admin \<or> ?listed")
  proof
    assume a: "can_administer_repository pusher r (stored_access (tables (h_world h)) pusher r) = Inr ()"
    then have "pusher \<noteq> Anonymous"
      by (auto simp: can_administer_repository_def require_role_def stored_access_def Let_def)
    then show ?thesis using a by blast
  next
    assume "blocked_ref_patterns checks =
        map ref_glob (filter (\<lambda>x. \<not> allowlisted pusher x) (rules_with_allowlist (repo_id r) (tables (h_world h))))"
    from unblocked_branch [OF this free] show ?thesis by blast
  qed
  then have "can_administer_repository pusher r (stored_access (tables (h_world h)) pusher r) = Inr ()
         \<and> authenticates srv cfg auth (clock (h_world h)) (tables (h_world h)) pusher
       \<or> (\<forall>rule\<in>set (t_rules (tables (h_world h))).
            rule_repository_id rule = repo_id r \<and> branch_pattern_matches (rule_pattern rule) branch \<longrightarrow>
            (\<exists>uid. actor_user_id pusher = Some uid \<and> authenticates srv cfg auth (clock (h_world h)) (tables (h_world h)) pusher
               \<and> (rule_id rule, SubjectUser uid) \<in> set (t_allowlist (tables (h_world h)))))"
  proof
    assume ?admin
    then show ?thesis using auth by blast
  next
    assume listed: ?listed
    have named: "pusher \<noteq> Anonymous" if "actor_user_id pusher = Some uid" for uid using that by auto
    show ?thesis using listed auth named by meson
  qed
  moreover have "i = owner @ ''/'' @ name"
    using \<open>i = identity\<close> nm by (auto simp: repo_names_def)
  moreover note repository_by_name_Inr [OF rn]
  ultimately show ?thesis by (intro exI conjI)
qed

section \<open>Pushing over SSH\<close>

definition key_authenticates :: "key_lib \<Rightarrow> string \<Rightarrow> db \<Rightarrow> actor_context \<Rightarrow> bool" where
  "key_authenticates lib key d actor \<longleftrightarrow>
     (\<exists>u. ssh_key_user (key_fingerprint lib key) d = Some u \<and> user_disabled_at u = None \<and> actor = ActorUser (user_id u))
     \<or> (\<exists>rid ro. deploy_key_grant (key_fingerprint lib key) d = Some (rid, ro) \<and> actor = ActorDeployKey rid ro)"

lemma standing_ssh_authenticate: "keeps_standing (ssh_authenticate lib key)"
  unfolding ssh_authenticate_def find_user_by_fingerprint_def by (intro standing_rules standing_execute) simp_all

lemma key_actor_Inr:
  assumes "(key_actor lib key :: ('e, actor_context option) act) w = (Inr (Some actor), w')"
  shows "key_authenticates lib key (tables w) actor"
proof -
  obtain u w1 where 1: "(ssh_authenticate lib key :: ('e, user option) act) w = (Inr u, w1)"
    "(case u of Some u \<Rightarrow> ok (Some (ActorUser (user_id u)))
      | None \<Rightarrow> and_then (deploy_key_authenticate lib key) (\<lambda>g. ok (map_option (\<lambda>(rid, ro). ActorDeployKey rid ro) g))) w1
      = (Inr (Some actor) :: 'e + actor_context option, w')"
    using assms unfolding key_actor_def and_then_Inr by blast
  show ?thesis
  proof (cases u)
    case (Some x)
    then show ?thesis using 1 ssh_authenticate_tables [of lib key w x w1] by (auto simp: ok_Inr key_authenticates_def)
  next
    case None
    then obtain g where g: "(deploy_key_authenticate lib key :: ('e, (uuid \<times> bool) option) act) w1 = (Inr g, w')"
      "Some actor = map_option (\<lambda>(rid, ro). ActorDeployKey rid ro) g"
      using 1(2) by (auto simp: and_then_Inr ok_Inr)
    then obtain rid ro where "g = Some (rid, ro)" "actor = ActorDeployKey rid ro" by (cases g) auto
    moreover have "standing (tables w1) = standing (tables w)"
      using keeps_standingD [OF standing_ssh_authenticate 1(1)] by blast
    ultimately show ?thesis
      using deploy_key_authenticate_tables g(1) unfolding key_authenticates_def by (metis standing_lookups(10))
  qed
qed

text \<open>A channel that may push was opened in the world \<open>w\<close> by \<open>actor\<close> for the named repository.\<close>

definition push_opened :: "world \<Rightarrow> actor_context \<Rightarrow> string \<Rightarrow> string \<Rightarrow> repository \<Rightarrow> receive_checks \<Rightarrow> bool" where
  "push_opened w actor owner name r checks \<longleftrightarrow>
     named_repository owner name (tables w) = Some r
     \<and> can_write_repository actor r (stored_access (tables w) actor r) = Inr ()
     \<and> (statement_fails w = [] \<longrightarrow>
          can_administer_repository actor r (stored_access (tables w) actor r) = Inr ()
          \<or> blocked_ref_patterns checks =
              map ref_glob (filter (\<lambda>x. \<not> allowlisted actor x) (rules_with_allowlist (repo_id r) (tables w))))"

lemma exec_gate_opens:
  assumes "exec_gate srv limit (Some actor) data disk w = (Inr (adv, ChReceivePack identity buffer checks rid pusher), w')"
  shows "\<exists>owner name r. identity = owner @ ''/'' @ name \<and> buffer = [] \<and> rid = repo_id r \<and> pusher = actor_user_id actor
    \<and> parse_command data = Some \<lparr>gcm_service = SvcReceivePack, gcm_owner = owner, gcm_name = name\<rparr>
    \<and> push_opened w actor owner name r checks"
proof -
  let ?st = "ChReceivePack identity buffer checks rid pusher"
  obtain cmd where cmd: "parse_command data = Some cmd"
    using assms by (cases "parse_command data") (auto simp: exec_gate_def and_then_def or_err_def err_def)
  let ?ad = "build_ref_advertisement srv (gcm_owner cmd @ ''/'' @ gcm_name cmd)
     (case gcm_service cmd of SvcUploadPack \<Rightarrow> upload_pack_capabilities | SvcReceivePack \<Rightarrow> receive_pack_capabilities) disk"
  obtain ad where ad: "?ad = Inr ad"
    using assms cmd unfolding exec_gate_def by (cases ?ad) (auto simp: and_then_Inr or_err_Inr err_Inr)
  obtain r w1 u w2 where
    1: "map_err (\<lambda>_. GitFatal ''repository not found'') (repository_by_name (gcm_owner cmd) (gcm_name cmd)) w = (Inr r, w1)"
    and 2: "map_err (\<lambda>_. GitFatal ''repository not found'')
               (case gcm_service cmd of SvcUploadPack \<Rightarrow> check_read actor r | SvcReceivePack \<Rightarrow> check_write actor r) w1
              = (Inr u, w2)"
    and 3: "opened_channel actor cmd r limit w2 = (Inr ?st, w')"
    using assms cmd unfolding exec_gate_def by (auto simp: and_then_Inr or_err_Inr ok_Inr ad [simplified] map_err_Inr)
  have svc: "gcm_service cmd = SvcReceivePack"
    using 3 by (cases "gcm_service cmd") (simp_all add: opened_channel_def ok_Inr)
  have n: "named_repository (gcm_owner cmd) (gcm_name cmd) (tables w) = Some r"
    using 1 repository_by_name_Inr by (simp add: map_err_Inr)
  have s1: "standing (tables w1) = standing (tables w)" "statement_fails w = [] \<longrightarrow> statement_fails w1 = []"
    using keeps_standingD [OF standing_map_err [OF standing_repository_by_name] 1] by auto
  have cw: "check_write actor r w1 = (Inr u, w2)" using 2 svc by (simp add: map_err_Inr)
  have s2: "standing (tables w2) = standing (tables w)" "statement_fails w = [] \<longrightarrow> statement_fails w2 = []"
    using keeps_standingD [OF standing_checks(1) cw] s1 by auto
  have may: "can_write_repository actor r (stored_access (tables w) actor r) = Inr ()"
    using check_write_sound [OF cw] s1(1) by (metis standing_access)
  obtain res where res: "resolve_receive_checks actor r limit w2 = (res, w')"
    "checks = (case res of Inl _ \<Rightarrow> no_checks | Inr c \<Rightarrow> c)" "identity = gcm_owner cmd @ ''/'' @ gcm_name cmd"
    "buffer = []" "rid = repo_id r" "pusher = actor_user_id actor"
    using 3 svc by (auto simp: opened_channel_def checks_or_default_def and_then_Inr outcome_Inr ok_Inr)
  have "can_administer_repository actor r (stored_access (tables w) actor r) = Inr ()
      \<or> blocked_ref_patterns checks =
          map ref_glob (filter (\<lambda>x. \<not> allowlisted actor x) (rules_with_allowlist (repo_id r) (tables w)))"
    if "statement_fails w = []"
  proof -
    have "statement_fails w2 = []" using s2(2) that by blast
    then have "\<not> isl res"
      using sound_receive_checks [of actor r limit] res(1) unfolding sound_def by (metis fst_conv)
    then obtain c where c: "res = Inr c" by (cases res) auto
    have t: "stored_access (tables w2) actor r = stored_access (tables w) actor r"
      "rules_with_allowlist (repo_id r) (tables w2) = rules_with_allowlist (repo_id r) (tables w)"
      using s2(1) by (metis standing_access, metis standing_lookups(6))
    show ?thesis using resolve_receive_checks_Inr [OF res(1) [unfolded c]] res(2) c t by simp
  qed
  then show ?thesis
    using res(3-6) n may cmd svc unfolding push_opened_def
    by (intro exI [of _ "gcm_owner cmd"] exI [of _ "gcm_name cmd"] exI [of _ r]) (cases cmd, auto)
qed

text \<open>A connection's history, newest first: each of its events with the connection and the host it met,
  while other requests change the host in between at will.\<close>

type_synonym 'o ssh_history = "(ssh_event \<times> connection \<times> 'o host) list"

inductive ssh_run :: "'o git_server \<Rightarrow> int option \<Rightarrow> 'o ssh_history \<Rightarrow> connection \<Rightarrow> 'o host \<Rightarrow> bool"
  for srv limit where
  connected: "ssh_run srv limit [] new_connection h"
| event: "ssh_run srv limit past c h \<Longrightarrow> ssh_step srv limit ev c h = (outs, c', h') \<Longrightarrow>
     ssh_run srv limit ((ev, c, h) # past) c' h'"
| others: "ssh_run srv limit past c h \<Longrightarrow> ssh_run srv limit past c h'"

text \<open>A key was presented that the tables of that moment named as this user's or deploy key's.\<close>

definition authenticated_in :: "key_lib \<Rightarrow> 'o ssh_history \<Rightarrow> actor_context \<Rightarrow> bool" where
  "authenticated_in lib past actor \<longleftrightarrow>
     (\<exists>key c h. (SshAuth key, c, h) \<in> set past \<and> key_authenticates lib key (tables (h_world h)) actor)"

definition pushing :: "connection \<Rightarrow> nat \<Rightarrow> string \<Rightarrow> receive_checks \<Rightarrow> uuid \<Rightarrow> uuid option \<Rightarrow> bool" where
  "pushing c ch identity checks rid pusher \<longleftrightarrow>
     (\<exists>buffer. cn_channels c ch = Some (ChReceivePack identity buffer checks rid pusher))"

text \<open>The push command of a channel: the event that asked for it on this channel, by the actor the
  connection then held, in the world \<open>w\<close>; it opened the channel for pushing, and the channel has
  been that push at every event since.\<close>

definition push_accepted ::
  "'o git_server \<Rightarrow> int option \<Rightarrow> 'o ssh_history \<Rightarrow> nat \<Rightarrow> actor_context \<Rightarrow> world \<Rightarrow> string \<Rightarrow> string \<Rightarrow> repository
     \<Rightarrow> receive_checks \<Rightarrow> bool" where
  "push_accepted srv limit past ch actor w owner name r checks \<longleftrightarrow>
     (\<exists>later data c h earlier. past = later @ (SshExec ch data, c, h) # earlier \<and> h_world h = w
        \<and> cn_actor c = Some actor \<and> authenticated_in (srv_keys srv) earlier actor
        \<and> parse_command data = Some \<lparr>gcm_service = SvcReceivePack, gcm_owner = owner, gcm_name = name\<rparr>
        \<and> pushing (fst (snd (ssh_step srv limit (SshExec ch data) c h))) ch (owner @ ''/'' @ name) checks
            (repo_id r) (actor_user_id actor)
        \<and> push_opened w actor owner name r checks
        \<and> (\<forall>(ev, c', h') \<in> set later. pushing c' ch (owner @ ''/'' @ name) checks (repo_id r) (actor_user_id actor)))"

definition connection_ok :: "'o git_server \<Rightarrow> int option \<Rightarrow> 'o ssh_history \<Rightarrow> connection \<Rightarrow> bool" where
  "connection_ok srv limit past c \<longleftrightarrow>
     (\<forall>actor. cn_actor c = Some actor \<longrightarrow> authenticated_in (srv_keys srv) past actor)
     \<and> (\<forall>ch identity checks rid pusher. pushing c ch identity checks rid pusher \<longrightarrow>
          (\<exists>actor w owner name r. identity = owner @ ''/'' @ name \<and> rid = repo_id r \<and> pusher = actor_user_id actor
             \<and> push_accepted srv limit past ch actor w owner name r checks))"

lemma authenticated_in_grows: "authenticated_in lib past actor \<Longrightarrow> authenticated_in lib (e # past) actor"
  unfolding authenticated_in_def by (meson list.set_intros(2))

lemma push_accepted_grows:
  assumes "push_accepted srv limit past ch actor w owner name r checks"
    and "pushing c ch (owner @ ''/'' @ name) checks (repo_id r) (actor_user_id actor)"
  shows "push_accepted srv limit ((ev, c, h) # past) ch actor w owner name r checks"
proof -
  obtain later data c0 h0 earlier where p: "past = later @ (SshExec ch data, c0, h0) # earlier" "h_world h0 = w"
    "cn_actor c0 = Some actor" "authenticated_in (srv_keys srv) earlier actor"
    "parse_command data = Some \<lparr>gcm_service = SvcReceivePack, gcm_owner = owner, gcm_name = name\<rparr>"
    "pushing (fst (snd (ssh_step srv limit (SshExec ch data) c0 h0))) ch (owner @ ''/'' @ name) checks
            (repo_id r) (actor_user_id actor)"
    "push_opened w actor owner name r checks"
    "\<forall>(ev, c', h') \<in> set later. pushing c' ch (owner @ ''/'' @ name) checks (repo_id r) (actor_user_id actor)"
    using assms(1) unfolding push_accepted_def by blast
  have "(ev, c, h) # past = ((ev, c, h) # later) @ (SshExec ch data, c0, h0) # earlier" using p(1) by simp
  moreover have "\<forall>(ev, c', h') \<in> set ((ev, c, h) # later).
      pushing c' ch (owner @ ''/'' @ name) checks (repo_id r) (actor_user_id actor)"
    using p(8) assms(2) by simp
  ultimately show ?thesis using p(2-7) unfolding push_accepted_def by blast
qed

text \<open>Every actor a connection holds presented its key, and every channel that pushes was opened by its
  own command. A step that leaves the actor and opens no push keeps this.\<close>

lemma connection_ok_channels:
  assumes "connection_ok srv limit past c" "cn_actor c' = cn_actor c"
    and "\<And>ch identity checks rid pusher.
      pushing c' ch identity checks rid pusher \<Longrightarrow> pushing c ch identity checks rid pusher"
  shows "connection_ok srv limit ((ev, c, h) # past) c'"
  unfolding connection_ok_def
proof (intro conjI allI impI)
  fix actor assume "cn_actor c' = Some actor"
  then show "authenticated_in (srv_keys srv) ((ev, c, h) # past) actor"
    using assms(1,2) authenticated_in_grows unfolding connection_ok_def by metis
next
  fix ch identity checks rid pusher assume "pushing c' ch identity checks rid pusher"
  then have was: "pushing c ch identity checks rid pusher" by (rule assms(3))
  then obtain actor w owner name r where a: "identity = owner @ ''/'' @ name" "rid = repo_id r"
      "pusher = actor_user_id actor" "push_accepted srv limit past ch actor w owner name r checks"
    using assms(1) unfolding connection_ok_def by meson
  then show "\<exists>actor w owner name r. identity = owner @ ''/'' @ name \<and> rid = repo_id r \<and> pusher = actor_user_id actor
      \<and> push_accepted srv limit ((ev, c, h) # past) ch actor w owner name r checks"
    using push_accepted_grows [OF a(4)] was by blast
qed

lemma connection_ok_auth:
  assumes "connection_ok srv limit past c" "auth_publickey srv key c h = (outs, c', h')"
  shows "connection_ok srv limit ((SshAuth key, c, h) # past) c'"
proof -
  obtain r w1 where k: "(key_actor (srv_keys srv) key :: (unit, actor_context option) act) (h_world h) = (r, w1)" by fastforce
  note same = connection_ok_channels [OF assms(1), of c, simplified]
  show ?thesis
  proof (cases "\<exists>actor. r = Inr (Some actor)")
    case True
    then obtain actor where r: "r = Inr (Some actor)" by blast
    then have "c' = c\<lparr>cn_actor := Some actor\<rparr>" using assms(2) k by (simp add: auth_publickey_def)
    moreover have "authenticated_in (srv_keys srv) ((SshAuth key, c, h) # past) actor"
      using key_actor_Inr k r by (fastforce simp: authenticated_in_def)
    ultimately show ?thesis using same by (auto simp: connection_ok_def pushing_def)
  next
    case False
    then have "c' = c" using assms(2) k by (auto simp: auth_publickey_def split: sum.splits option.splits)
    then show ?thesis using same by simp
  qed
qed

lemma connection_ok_exec:
  assumes "connection_ok srv limit past c" "exec_request srv limit ch data c h = (outs, c', h')"
  shows "connection_ok srv limit ((SshExec ch data, c, h) # past) c'"
proof -
  let ?past = "(SshExec ch data, c, h) # past"
  note same = connection_ok_channels [OF assms(1), of c, simplified]
  obtain res w1 where g: "exec_gate srv limit (cn_actor c) data (h_disk h) (h_world h) = (res, w1)" by fastforce
  show ?thesis
  proof (cases res)
    case (Inl e)
    then have "c' = c" using assms(2) g by (cases e) (auto simp: exec_request_def)
    then show ?thesis using same by simp
  next
    case (Inr p)
    obtain adv st where p: "p = (adv, st)" by (cases p)
    have c': "c' = c\<lparr>cn_channels := (cn_channels c)(ch \<mapsto> st)\<rparr>"
      using assms(2) g Inr p by (simp add: exec_request_def)
    obtain actor where a: "cn_actor c = Some actor"
      using g Inr by (cases "cn_actor c") (auto simp: exec_gate_def and_then_def or_err_def err_def ok_def split: option.splits)
    have auth: "authenticated_in (srv_keys srv) past actor" using assms(1) a by (auto simp: connection_ok_def)
    have new: "\<exists>actor w owner name r. identity = owner @ ''/'' @ name \<and> rid = repo_id r
        \<and> pusher = actor_user_id actor \<and> push_accepted srv limit ?past ch actor w owner name r checks"
      if st: "st = ChReceivePack identity buffer checks rid pusher" for identity buffer checks rid pusher
    proof -
      obtain owner name r where o: "identity = owner @ ''/'' @ name" "rid = repo_id r" "pusher = actor_user_id actor"
        "parse_command data = Some \<lparr>gcm_service = SvcReceivePack, gcm_owner = owner, gcm_name = name\<rparr>"
        "push_opened (h_world h) actor owner name r checks"
        using exec_gate_opens [OF g [unfolded a Inr p st]] by blast
      have "fst (snd (ssh_step srv limit (SshExec ch data) c h)) = c'" using assms(2) by simp
      then have "pushing (fst (snd (ssh_step srv limit (SshExec ch data) c h))) ch (owner @ ''/'' @ name) checks
          (repo_id r) (actor_user_id actor)"
        using c' st o(1-3) by (simp add: pushing_def)
      then have "push_accepted srv limit ?past ch actor (h_world h) owner name r checks"
        using a auth o(4,5) unfolding push_accepted_def by fastforce
      then show ?thesis using o(1-3) by blast
    qed
    show ?thesis unfolding connection_ok_def
    proof (intro conjI allI impI)
      fix actor assume "cn_actor c' = Some actor"
      then show "authenticated_in (srv_keys srv) ?past actor" using same c' by (auto simp: connection_ok_def)
    next
      fix ch' identity checks rid pusher assume now: "pushing c' ch' identity checks rid pusher"
      show "\<exists>actor w owner name r. identity = owner @ ''/'' @ name \<and> rid = repo_id r \<and> pusher = actor_user_id actor
        \<and> push_accepted srv limit ?past ch' actor w owner name r checks"
      proof (cases "ch' = ch")
        case True
        then show ?thesis using now new c' by (auto simp: pushing_def)
      next
        case False
        then have "pushing c ch' identity checks rid pusher" using now c' by (simp add: pushing_def)
        then show ?thesis using same unfolding connection_ok_def by meson
      qed
    qed
  qed
qed

lemma connection_ok_step:
  assumes "connection_ok srv limit past c" "ssh_step srv limit ev c h = (outs, c', h')"
  shows "connection_ok srv limit ((ev, c, h) # past) c'"
proof (cases ev)
  case (SshAuth key)
  then show ?thesis using connection_ok_auth [OF assms(1)] assms(2) by simp
next
  case (SshExec ch data)
  then show ?thesis using connection_ok_exec [OF assms(1)] assms(2) by simp
next
  case (SshOpen ch)
  then show ?thesis
    using assms(2) by (intro connection_ok_channels [OF assms(1)]) (auto simp: pushing_def split: if_splits)
next
  case (SshData ch data)
  then have "channel_data srv ch data c h = (outs, c', h')" using assms(2) by simp
  then show ?thesis
    by (intro connection_ok_channels [OF assms(1)])
      (auto simp: pushing_def channel_data_def Let_def split: option.splits channel_state.splits if_splits)
next
  case (SshEof ch)
  then have "c' = c\<lparr>cn_channels := (cn_channels c)(ch := None)\<rparr>"
    using assms(2) by (auto simp: channel_eof_def Let_def split: option.splits channel_state.splits sum.splits prod.splits)
  then show ?thesis by (intro connection_ok_channels [OF assms(1)]) (auto simp: pushing_def split: if_splits)
next
  case (SshClose ch)
  then show ?thesis
    using assms(2) by (intro connection_ok_channels [OF assms(1)]) (auto simp: pushing_def split: if_splits)
qed

lemma ssh_run_ok: "ssh_run srv limit past c h \<Longrightarrow> connection_ok srv limit past c"
proof (induction rule: ssh_run.induct)
  case (connected h)
  show ?case by (simp add: connection_ok_def pushing_def new_connection_def)
next
  case (event past c h ev outs c' h')
  then show ?case using connection_ok_step by blast
qed auto

text \<open>C6. Only a push that was authorized when its command was accepted changes a repository over SSH. On
  any connection, whatever happens on the host in between and whatever statements fail: an event that
  changes a repository is the end of the input of a channel, and the connection's history holds the
  event that opened this channel for pushing (\<open>push_accepted\<close>): a \<^verbatim>\<open>git-receive-pack\<close> command on the
  same channel that names this repository, made while the connection held an actor who had presented,
  earlier still, a key that the tables then named as an enabled user's or as a deploy key. At the very
  moment of that command the tables let this actor write to the repository; a deploy key is one
  of this repository and not read-only. Since then the channel has been that push. No other repository
  changes. If no statement failed when the command was accepted, a branch that moves is one whose
  protection rules of that moment let the actor through.\<close>

theorem ssh_push_is_authorized:
  assumes "ssh_run srv limit past c h" "ssh_step srv limit ev c h = (outs, c', h')" "h_disk h' \<noteq> h_disk h"
  shows "\<exists>ch actor w owner name r checks. ev = SshEof ch \<and> push_accepted srv limit past ch actor w owner name r checks
    \<and> named_repository owner name (tables w) = Some r
    \<and> can_write_repository actor r (stored_access (tables w) actor r) = Inr ()
    \<and> (\<forall>rid ro. actor = ActorDeployKey rid ro \<longrightarrow> rid = repo_id r \<and> \<not> ro)
    \<and> (\<forall>j. j \<noteq> owner @ ''/'' @ name \<longrightarrow> h_disk h' j = h_disk h j)
    \<and> (\<forall>g g' branch rule. statement_fails w = [] \<and> transaction_law (srv_git srv)
         \<and> h_disk h (owner @ ''/'' @ name) = Some g \<and> h_disk h' (owner @ ''/'' @ name) = Some g'
         \<and> map_of (gd_refs g') (''refs/heads/'' @ branch) \<noteq> map_of (gd_refs g) (''refs/heads/'' @ branch)
         \<and> rule \<in> set (t_rules (tables w)) \<and> rule_repository_id rule = repo_id r
         \<and> branch_pattern_matches (rule_pattern rule) branch \<longrightarrow>
           can_administer_repository actor r (stored_access (tables w) actor r) = Inr ()
           \<or> (\<exists>uid. actor_user_id actor = Some uid \<and> (rule_id rule, SubjectUser uid) \<in> set (t_allowlist (tables w))))"
proof -
  have "\<exists>ch. ev = SshEof ch"
    using assms(2,3)
    by (cases ev) (auto simp: auth_publickey_def exec_request_def channel_data_def Let_def
        split: prod.splits sum.splits option.splits exec_refusal.splits channel_state.splits if_splits)
  then obtain ch where ev: "ev = SshEof ch" by blast
  then have eof: "channel_eof srv ch c h = (outs, c', h')" using assms(2) by simp
  obtain identity buffer checks rid pusher where
    chan: "cn_channels c ch = Some (ChReceivePack identity buffer checks rid pusher)"
    using eof assms(3) by (auto simp: channel_eof_def Let_def split: option.splits channel_state.splits)
  obtain res disk where serve: "serve_receive_pack srv identity buffer checks (h_disk h) = (res, disk)" by fastforce
  have disk: "disk = h_disk h'" using eof chan serve by (auto simp: channel_eof_def Let_def split: sum.splits)
  note local = serve_receive_pack_local [OF serve [unfolded disk]]
  have "pushing c ch identity checks rid pusher" using chan by (simp add: pushing_def)
  then obtain actor w owner name r where w: "push_accepted srv limit past ch actor w owner name r checks"
      "identity = owner @ ''/'' @ name"
    using ssh_run_ok [OF assms(1)] unfolding connection_ok_def by meson
  have opened: "push_opened w actor owner name r checks" using w(1) unfolding push_accepted_def by blast
  note o = opened [unfolded push_opened_def]
  have key: "rid' = repo_id r \<and> \<not> ro" if "actor = ActorDeployKey rid' ro" for rid' ro
    using o that by (auto simp: can_write_repository_def require_role_def Let_def split: if_splits)
  have guarded: "can_administer_repository actor r (stored_access (tables w) actor r) = Inr ()
      \<or> (\<exists>uid. actor_user_id actor = Some uid \<and> (rule_id rule, SubjectUser uid) \<in> set (t_allowlist (tables w)))"
    if "statement_fails w = []" "transaction_law (srv_git srv)" "h_disk h identity = Some g" "h_disk h' identity = Some g'"
      "map_of (gd_refs g') (''refs/heads/'' @ branch) \<noteq> map_of (gd_refs g) (''refs/heads/'' @ branch)"
      "rule \<in> set (t_rules (tables w))" "rule_repository_id rule = repo_id r"
      "branch_pattern_matches (rule_pattern rule) branch" for g g' branch rule
  proof -
    have "run_receive_pack (srv_git srv) checks buffer g = (res, g')" using local assms(3) that(3,4) by auto
    note free = run_receive_pack_respects_blocks [OF this that(2,5)]
    show ?thesis using o that(1) unblocked_branch [OF _ free that(6-8)] by blast
  qed
  show ?thesis
  proof (intro exI conjI)
    show "ev = SshEof ch" "push_accepted srv limit past ch actor w owner name r checks" by (fact ev w)+
    show "named_repository owner name (tables w) = Some r"
      "can_write_repository actor r (stored_access (tables w) actor r) = Inr ()" using o by blast+
    show "\<forall>rid ro. actor = ActorDeployKey rid ro \<longrightarrow> rid = repo_id r \<and> \<not> ro" using key by blast
    show "\<forall>j. j \<noteq> owner @ ''/'' @ name \<longrightarrow> h_disk h' j = h_disk h j" using local unfolding w(2) by blast
  qed (use guarded in \<open>unfold w(2), blast\<close>)
qed


section \<open>A concrete server\<close>

definition sample_server :: "char git_server" where
  "sample_server =
     \<lparr>srv_auth = toy_env, srv_keys = \<lparr>from_openssh = Some, key_fingerprint = (\<lambda>s. s)\<rparr>, srv_basic = Some,
      srv_git = simple_env,
      srv_codec = \<lparr>deflate = (\<lambda>s. s), decompress = (\<lambda>s _. Inl []), sha1 = (\<lambda>_. Inr (replicate 20 (CHR ''s'')))\<rparr>,
      srv_open_fails = (\<lambda>_. None)\<rparr>"

definition sample_config :: git_config where
  "sample_config = \<lparr>gc_absolute_ttl = 1000, gc_require_signin_to_view = False,
     gc_registration = \<lparr>policy_mode = RegOpen, allowed_email_domains = [], require_email_verification = True\<rparr>,
     gc_max_pack_bytes = 1000, gc_max_repo_size_bytes = None\<rparr>"

text \<open>Bob may write to the repository, whose rule protects \<^verbatim>\<open>main\<close>; his email is verified at time
  \<open>v\<close>, or not.\<close>

definition git_world :: "int option \<Rightarrow> bool list \<Rightarrow> world" where
  "git_world v fs = pr_world\<lparr>statement_fails := fs,
     tables := (tables pr_world)\<lparr>
       t_accounts := [\<lparr>acct_user_id = 2, acct_password_hash = ''hpw'', acct_approved_at = Some 1, acct_email_verified_at = v\<rparr>],
       t_ssh_keys := [\<lparr>sk_id = 40, sk_user_id = 2, sk_fingerprint = ''kb'', sk_public_key = ''kb'', sk_title = ''bob'',
                       sk_created_at = 0, sk_last_used_at = None\<rparr>]\<rparr>\<rparr>"

definition sample_host :: "int option \<Rightarrow> bool list \<Rightarrow> char host" where
  "sample_host v fs = \<lparr>h_world = git_world v fs, h_disk = [''alice/proj'' \<mapsto> simple_dir]\<rparr>"

definition bob_session :: http_auth where
  "bob_session = \<lparr>ha_session = Some (2, Some 1), ha_authorization = None\<rparr>"

definition push_body :: "char \<Rightarrow> string \<Rightarrow> string" where
  "push_body old ref = write_flush (write_pkt_line []
     (replicate 40 old @ '' '' @ replicate 40 (CHR ''b'') @ '' '' @ ref @ [CHR 0x0A])) @ ''P''"

definition pushed_to :: "http_auth \<Rightarrow> char \<Rightarrow> string \<Rightarrow> char host \<Rightarrow> char host" where
  "pushed_to auth old ref h =
     snd (receive_pack sample_server sample_config auth ''alice'' ''proj.git'' (push_body old ref) h)"

definition dev_host :: "char host" where
  "dev_host = pushed_to bob_session (CHR ''0'') ''refs/heads/dev'' (sample_host (Some 3) [])"

lemma dev_pushed: "map_option gd_refs (h_disk dev_host ''alice/proj'')
   = Some [(''refs/heads/dev'', id_b), (''refs/heads/main'', id_a)]"
  by code_simp

lemma dev_refs:
  obtains g' where "h_disk dev_host ''alice/proj'' = Some g'"
    "gd_refs g' = [(''refs/heads/dev'', id_b), (''refs/heads/main'', id_a)]"
  using dev_pushed by (auto simp: map_option_eq_Some)

lemma sample_disk: "h_disk (sample_host v fs) ''alice/proj'' = Some simple_dir"
  "gd_refs simple_dir = [(''refs/heads/main'', id_a)]"
  by (simp_all add: sample_host_def simple_dir_def)

lemma dev_changed: "h_disk dev_host \<noteq> h_disk (sample_host (Some 3) [])"
proof -
  obtain g' where g': "h_disk dev_host ''alice/proj'' = Some g'"
    "gd_refs g' = [(''refs/heads/dev'', id_b), (''refs/heads/main'', id_a)]" using dev_refs .
  have "g' \<noteq> simple_dir" using g'(2) sample_disk(2) by auto
  then show ?thesis using g'(1) sample_disk(1) by (metis option.inject)
qed

lemma dev_run: "receive_pack sample_server sample_config bob_session ''alice'' ''proj.git''
    (push_body (CHR ''0'') ''refs/heads/dev'') (sample_host (Some 3) [])
  = (fst (receive_pack sample_server sample_config bob_session ''alice'' ''proj.git''
    (push_body (CHR ''0'') ''refs/heads/dev'') (sample_host (Some 3) [])), dev_host)"
  by (simp add: dev_host_def pushed_to_def)

theorem http_push_is_authorized_witness:
  "\<exists>actor r. can_write_repository actor r (stored_access (tables (git_world (Some 3) [])) actor r) = Inr ()
     \<and> permits_token_scope actor TSRepoWrite \<and> (\<forall>uid. actor_user_id actor = Some uid \<longrightarrow> email_verified uid (tables (git_world (Some 3) [])))"
proof -
  have "h_world (sample_host (Some 3) []) = git_world (Some 3) []" "statement_fails (git_world (Some 3) []) = []"
    "require_email_verification (gc_registration sample_config)"
    by (simp_all add: sample_host_def git_world_def sample_config_def)
  then show ?thesis using http_push_is_authorized [OF dev_run dev_changed] by auto
qed

theorem http_push_respects_protection_witness:
  "\<exists>name r. ''alice/proj'' = ''alice'' @ ''/'' @ name
     \<and> named_repository ''alice'' name (tables (git_world (Some 3) [])) = Some r"
proof -
  obtain g' where g': "h_disk dev_host ''alice/proj'' = Some g'"
    "gd_refs g' = [(''refs/heads/dev'', id_b), (''refs/heads/main'', id_a)]" using dev_refs .
  have moved: "map_of (gd_refs g') (''refs/heads/'' @ ''dev'') \<noteq> map_of (gd_refs simple_dir) (''refs/heads/'' @ ''dev'')"
    unfolding g'(2) sample_disk(2) by simp
  have w: "h_world (sample_host (Some 3) []) = git_world (Some 3) []" "statement_fails (h_world (sample_host (Some 3) [])) = []"
    by (simp_all add: sample_host_def git_world_def)
  have "transaction_law (srv_git sample_server)" using simple_transaction_law by (simp add: sample_server_def)
  from http_push_respects_protection [OF dev_run w(2) this sample_disk(1) g'(1) moved] show ?thesis
    unfolding w(1) by blast
qed

text \<open>The checks of a push fail open. Bob may not push to the protected branch; when the query for the
  repository's size fails, the checks are replaced by none, and the same push moves the branch.\<close>

lemma main_kept:
  "map_option gd_refs (h_disk (pushed_to bob_session (CHR ''a'') ''refs/heads/main'' (sample_host (Some 3) [])) ''alice/proj'')
     = Some [(''refs/heads/main'', id_a)]"
  by code_simp

lemma main_moved_on_failure:
  "map_option gd_refs (h_disk (pushed_to bob_session (CHR ''a'') ''refs/heads/main''
       (sample_host (Some 3) [False, False, False, False, False, True])) ''alice/proj'')
     = Some [(''refs/heads/main'', id_b)]"
  by code_simp

theorem push_checks_fail_open:
  "map_option gd_refs (h_disk (pushed_to bob_session (CHR ''a'') ''refs/heads/main'' (sample_host (Some 3) [])) ''alice/proj'')
     = Some [(''refs/heads/main'', id_a)]
   \<and> map_option gd_refs (h_disk (pushed_to bob_session (CHR ''a'') ''refs/heads/main''
       (sample_host (Some 3) [False, False, False, False, False, True])) ''alice/proj'')
     = Some [(''refs/heads/main'', id_b)]"
  by (intro conjI main_kept main_moved_on_failure)

definition ssh_session :: "string \<Rightarrow> ssh_event list" where
  "ssh_session body = [SshAuth ''kb'', SshOpen 0, SshExec 0 (''git-receive-pack '' @ CHR 0x27 # ''/alice/proj.git'' @ [CHR 0x27]),
     SshData 0 body]"

fun ssh_events :: "'o git_server \<Rightarrow> int option \<Rightarrow> ssh_event list \<Rightarrow> 'o ssh_history \<times> connection \<times> 'o host
    \<Rightarrow> 'o ssh_history \<times> connection \<times> 'o host" where
  "ssh_events srv limit [] s = s"
| "ssh_events srv limit (ev # evs) (past, c, h) =
     (case ssh_step srv limit ev c h of (_, c', h') \<Rightarrow> ssh_events srv limit evs ((ev, c, h) # past, c', h'))"

definition ssh_pushed :: "char \<Rightarrow> string \<Rightarrow> char host \<Rightarrow> char host" where
  "ssh_pushed old ref h =
     snd (snd (ssh_events sample_server None (ssh_session (push_body old ref) @ [SshEof 0]) ([], new_connection, h)))"

lemma ssh_events_run:
  "ssh_events srv limit evs (past, c, h) = (past', c', h') \<Longrightarrow> ssh_run srv limit past c h \<Longrightarrow> ssh_run srv limit past' c' h'"
  by (induction evs arbitrary: past c h) (auto split: prod.splits intro: ssh_run.event)

lemma unverified_kept:
  "map_option gd_refs (h_disk (pushed_to bob_session (CHR ''0'') ''refs/heads/dev'' (sample_host None [])) ''alice/proj'')
     = Some [(''refs/heads/main'', id_a)]"
  by code_simp

lemma ssh_dev_pushed:
  "map_option gd_refs (h_disk (ssh_pushed (CHR ''0'') ''refs/heads/dev'' (sample_host None [])) ''alice/proj'')
     = Some [(''refs/heads/dev'', id_b), (''refs/heads/main'', id_a)]"
  by code_simp

text \<open>The gate on unverified accounts is only on HTTP: where the instance requires it, bob, whose email is
  not verified, is refused a push over HTTP, and makes it over SSH.\<close>

theorem ssh_skips_email_verification:
  "map_option gd_refs (h_disk (pushed_to bob_session (CHR ''0'') ''refs/heads/dev'' (sample_host None [])) ''alice/proj'')
     = Some [(''refs/heads/main'', id_a)]
   \<and> map_option gd_refs (h_disk (ssh_pushed (CHR ''0'') ''refs/heads/dev'' (sample_host None [])) ''alice/proj'')
     = Some [(''refs/heads/dev'', id_b), (''refs/heads/main'', id_a)]"
  by (intro conjI unverified_kept ssh_dev_pushed)

definition ssh_before :: "char ssh_history \<times> connection \<times> char host" where
  "ssh_before = ssh_events sample_server None (ssh_session (push_body (CHR ''0'') ''refs/heads/dev''))
     ([], new_connection, sample_host None [])"

lemma ssh_before_disk: "map_option gd_refs (h_disk (snd (snd ssh_before)) ''alice/proj'') = Some [(''refs/heads/main'', id_a)]"
  by code_simp

lemma ssh_events_append: "ssh_events srv limit (xs @ ys) s = ssh_events srv limit ys (ssh_events srv limit xs s)"
  by (induction xs arbitrary: s) (auto split: prod.splits)

theorem ssh_push_is_authorized_witness:
  "\<exists>past ch actor w owner name r checks. push_accepted sample_server None past ch actor w owner name r checks
     \<and> can_write_repository actor r (stored_access (tables w) actor r) = Inr ()"
proof -
  obtain ws c h where b: "ssh_before = (ws, c, h)" by (cases ssh_before)
  have "ssh_run sample_server None [] new_connection (sample_host None [])" by (rule ssh_run.connected)
  then have run: "ssh_run sample_server None ws c h"
    using ssh_events_run b unfolding ssh_before_def by blast
  obtain outs c' h' where step: "ssh_step sample_server None (SshEof 0) c h = (outs, c', h')"
    by (cases "ssh_step sample_server None (SshEof 0) c h")
  have "ssh_events sample_server None [SshEof 0] ssh_before = ((SshEof 0, c, h) # ws, c', h')"
    unfolding b ssh_events.simps step by simp
  then have pushed: "ssh_pushed (CHR ''0'') ''refs/heads/dev'' (sample_host None []) = h'"
    unfolding ssh_pushed_def ssh_before_def ssh_events_append by simp
  have after: "map_option gd_refs (h_disk h' ''alice/proj'') = Some [(''refs/heads/dev'', id_b), (''refs/heads/main'', id_a)]"
    using ssh_dev_pushed unfolding pushed .
  have before: "map_option gd_refs (h_disk h ''alice/proj'') = Some [(''refs/heads/main'', id_a)]"
    using ssh_before_disk unfolding b prod.sel .
  have "h_disk h' \<noteq> h_disk h"
  proof
    assume same: "h_disk h' = h_disk h"
    show False using after [unfolded same before] by simp
  qed
  from ssh_push_is_authorized [OF run step this] show ?thesis by (elim exE conjE) (intro exI conjI, assumption+)
qed

end
