(* ===== verification/Tracker_Service.thy ===== *)
theory Tracker_Service
  imports PR_Service
begin

text \<open>
  The services behind a repository's tracker: issues with labels, milestones and assignees
  (\<^verbatim>\<open>edda-app/src/services/issue.rs\<close>), releases (\<^verbatim>\<open>services/release.rs\<close>) and a user's own
  notifications and watches (\<^verbatim>\<open>services/notification.rs\<close>), with the statements of
  \<^verbatim>\<open>edda-db/src/milestone_repo.rs\<close> and \<^verbatim>\<open>release_repo.rs\<close>. What the git layer says of tags and of the
  commits of a release is an argument, as in \<^verbatim>\<open>PR_Service\<close>.
\<close>

section \<open>Statements\<close>

definition insert_milestone_row :: "milestone \<Rightarrow> db \<Rightarrow> db_error + (unit \<times> db)" where
  "insert_milestone_row m d =
     (if list_ex (\<lambda>x. milestone_id x = milestone_id m) (t_milestones d) then Inl UniqueViolation
      else if repo_by_id (milestone_repository_id m) d = None then Inl ForeignKeyViolation
      else Inr ((), d\<lparr>t_milestones := t_milestones d @ [m]\<rparr>))"

definition milestone_insert ::
  "uuid \<Rightarrow> uuid \<Rightarrow> string \<Rightarrow> string option \<Rightarrow> int option \<Rightarrow> (db_error, unit) act" where
  "milestone_insert i rid title description due_on =
     sql (insert_milestone_row
       \<lparr>milestone_id = i, milestone_repository_id = rid, milestone_title = title,
        milestone_description = description, milestone_due_on = due_on, milestone_state = MsOpen\<rparr>)"

text \<open>\<^verbatim>\<open>ORDER BY due_on IS NULL, due_on\<close>.\<close>

definition milestones_of :: "uuid \<Rightarrow> db \<Rightarrow> milestone list" where
  "milestones_of rid d =
     (let ms = filter (\<lambda>m. milestone_repository_id m = rid) (t_milestones d) in
      sort_key (\<lambda>m. the (milestone_due_on m)) (filter (\<lambda>m. milestone_due_on m \<noteq> None) ms)
        @ filter (\<lambda>m. milestone_due_on m = None) ms)"

definition milestone_update_state :: "uuid \<Rightarrow> milestone_state \<Rightarrow> (db_error, unit) act" where
  "milestone_update_state i s =
     execute (\<lambda>d. d\<lparr>t_milestones :=
       update_where (\<lambda>m. milestone_id m = i) (\<lambda>m. m\<lparr>milestone_state := s\<rparr>) (t_milestones d)\<rparr>)"

datatype insert_release_error = ReleaseAlreadyExists | InsertReleaseDb db_error

record new_release =
  nr_tag_name :: string
  nr_target_commit :: string
  nr_name :: string
  nr_body :: "string option"
  nr_draft :: bool
  nr_prerelease :: bool
  nr_author_id :: uuid

definition insert_release_row :: "release \<Rightarrow> db \<Rightarrow> db_error + (unit \<times> db)" where
  "insert_release_row x d =
     (if list_ex (\<lambda>y. release_id y = release_id x
           \<or> (release_repository_id y = release_repository_id x \<and> release_tag_name y = release_tag_name x))
           (t_releases d)
      then Inl UniqueViolation
      else if repo_by_id (release_repository_id x) d = None \<or> user_by_id (release_author_id x) d = None
      then Inl ForeignKeyViolation
      else Inr ((), d\<lparr>t_releases := t_releases d @ [x]\<rparr>))"

definition release_insert :: "uuid \<Rightarrow> uuid \<Rightarrow> new_release \<Rightarrow> (insert_release_error, unit) act" where
  "release_insert i rid n =
     and_then now_unix (\<lambda>now.
       map_err (\<lambda>e. if e = UniqueViolation then ReleaseAlreadyExists else InsertReleaseDb e)
         (sql (insert_release_row
           \<lparr>release_id = i, release_repository_id = rid, release_tag_name = nr_tag_name n,
            release_target_commit = nr_target_commit n, release_name = nr_name n, release_body = nr_body n,
            release_draft = nr_draft n, release_prerelease = nr_prerelease n,
            release_published_at = (if nr_draft n then None else Some now),
            release_author_id = nr_author_id n, release_created_at = now\<rparr>)))"

definition release_by_tag :: "uuid \<Rightarrow> string \<Rightarrow> db \<Rightarrow> release option" where
  "release_by_tag rid tag d =
     find (\<lambda>r. release_repository_id r = rid \<and> release_tag_name r = tag) (t_releases d)"

text \<open>\<^verbatim>\<open>ORDER BY published_at IS NULL, published_at DESC, created_at DESC\<close>.\<close>

definition releases_of :: "uuid \<Rightarrow> db \<Rightarrow> release list" where
  "releases_of rid d =
     (let rs = sort_key (\<lambda>r. - release_created_at r)
                 (filter (\<lambda>r. release_repository_id r = rid) (t_releases d)) in
      sort_key (\<lambda>r. - the (release_published_at r)) (filter (\<lambda>r. release_published_at r \<noteq> None) rs)
        @ filter (\<lambda>r. release_published_at r = None) rs)"

definition set_email_notifications_enabled :: "uuid \<Rightarrow> bool \<Rightarrow> (db_error, bool) act" where
  "set_email_notifications_enabled uid enabled =
     sql (\<lambda>d. Inr (0 < rows_affected (\<lambda>u. user_id u = uid) (t_users d),
       d\<lparr>t_users := update_where (\<lambda>u. user_id u = uid)
            (\<lambda>u. u\<lparr>user_email_notifications := enabled\<rparr>) (t_users d)\<rparr>))"

section \<open>Issues\<close>

fun service_of_label :: "insert_label_error \<Rightarrow> service_error" where
  "service_of_label (LabelAlreadyExists _) = SvConflict ''a label with that name already exists''"
| "service_of_label (InsertLabelDb e) = SvDb e"

fun service_of_release :: "insert_release_error \<Rightarrow> service_error" where
  "service_of_release ReleaseAlreadyExists = SvConflict ''a release for that tag already exists''"
| "service_of_release (InsertReleaseDb e) = SvDb e"

definition load_issue :: "uuid \<Rightarrow> int \<Rightarrow> (service_error, issue) act" where
  "load_issue rid number = and_then (dbq (select (issue_by_number rid number))) (or_err SvNotFound)"

definition issue_open ::
  "actor_context \<Rightarrow> string \<Rightarrow> string \<Rightarrow> string \<Rightarrow> string option \<Rightarrow> (service_error, int) act" where
  "issue_open actor owner name title body =
     and_then (write_checked actor owner name) (\<lambda>(r, author).
       and_then (ensure (trim title \<noteq> []) (SvValidation ''an issue needs a title'')) (\<lambda>_.
         and_then fresh_uuid (\<lambda>i.
           transaction SvDb
             (and_then (map_err service_of_insert
                 (issue_insert i (repo_id r) (trim title) (non_blank body) author)) (\<lambda>number.
               and_then (dbq (append_event (EvIssueOpened i (repo_id r) author))) (\<lambda>_. ok number))))))"

definition issue_close :: "actor_context \<Rightarrow> string \<Rightarrow> string \<Rightarrow> int \<Rightarrow> (service_error, unit) act" where
  "issue_close actor owner name number =
     and_then (write_checked actor owner name) (\<lambda>(r, uid).
       and_then (load_issue (repo_id r) number) (\<lambda>x.
         and_then (ensure (issue_is_open (issue_state x)) (SvConflict ''this issue is already closed'')) (\<lambda>_.
           transaction SvDb
             (and_then now_unix (\<lambda>now.
               and_then (dbq (update_issue_state (issue_id x) (IssueClosed now Completed))) (\<lambda>_.
                 dbq (append_event (EvIssueClosed (issue_id x) (repo_id r) uid None))))))))"

definition issue_reopen :: "actor_context \<Rightarrow> string \<Rightarrow> string \<Rightarrow> int \<Rightarrow> (service_error, unit) act" where
  "issue_reopen actor owner name number =
     and_then (write_checked actor owner name) (\<lambda>(r, _).
       and_then (load_issue (repo_id r) number) (\<lambda>x.
         dbq (update_issue_state (issue_id x) IssueOpen)))"

definition create_label ::
  "actor_context \<Rightarrow> string \<Rightarrow> string \<Rightarrow> string \<Rightarrow> string \<Rightarrow> string option \<Rightarrow> (service_error, unit) act" where
  "create_label actor owner name label_nm color description =
     and_then (write_checked actor owner name) (\<lambda>(r, _).
       and_then (ensure (trim label_nm \<noteq> []) (SvValidation ''a label needs a name'')) (\<lambda>_.
         and_then fresh_uuid (\<lambda>i.
           map_err service_of_label
             (label_insert i (repo_id r) (trim label_nm) color (non_blank description)))))"

definition apply_label :: "actor_context \<Rightarrow> string \<Rightarrow> string \<Rightarrow> int \<Rightarrow> uuid \<Rightarrow> (service_error, unit) act" where
  "apply_label actor owner name number lid =
     and_then (write_checked actor owner name) (\<lambda>(r, _).
       and_then (load_issue (repo_id r) number) (\<lambda>x.
         and_then (dbq (select (labels_of_repository (repo_id r)))) (\<lambda>labels.
           and_then (or_err SvNotFound (find (\<lambda>l. label_id l = lid) labels)) (\<lambda>l.
             dbq (apply_to_issue (issue_id x) l)))))"

definition remove_label :: "actor_context \<Rightarrow> string \<Rightarrow> string \<Rightarrow> int \<Rightarrow> uuid \<Rightarrow> (service_error, unit) act" where
  "remove_label actor owner name number lid =
     and_then (write_checked actor owner name) (\<lambda>(r, _).
       and_then (load_issue (repo_id r) number) (\<lambda>x. dbq (remove_from_issue (issue_id x) lid)))"

definition create_milestone ::
  "actor_context \<Rightarrow> string \<Rightarrow> string \<Rightarrow> string \<Rightarrow> string option \<Rightarrow> int option \<Rightarrow> (service_error, unit) act" where
  "create_milestone actor owner name title description due_on =
     and_then (write_checked actor owner name) (\<lambda>(r, _).
       and_then (ensure (trim title \<noteq> []) (SvValidation ''a milestone needs a title'')) (\<lambda>_.
         and_then fresh_uuid (\<lambda>i.
           dbq (milestone_insert i (repo_id r) (trim title) (non_blank description) due_on))))"

definition issue_assign_user ::
  "actor_context \<Rightarrow> string \<Rightarrow> string \<Rightarrow> int \<Rightarrow> string \<Rightarrow> (service_error, unit) act" where
  "issue_assign_user actor owner name number assignee_username =
     and_then (write_checked actor owner name) (\<lambda>(r, uid).
       and_then (load_issue (repo_id r) number) (\<lambda>x.
         and_then (dbq (select (user_by_username assignee_username))) (\<lambda>found.
           and_then (or_err SvNotFound found) (\<lambda>u.
             transaction SvDb
               (and_then (dbq (issue_assign (issue_id x) (user_id u) (Some uid))) (\<lambda>newly_assigned.
                 if newly_assigned
                 then dbq (append_event (EvIssueAssigned (issue_id x) (repo_id r) (user_id u) uid))
                 else ok ()))))))"

definition issue_unassign_user ::
  "actor_context \<Rightarrow> string \<Rightarrow> string \<Rightarrow> int \<Rightarrow> string \<Rightarrow> (service_error, unit) act" where
  "issue_unassign_user actor owner name number assignee_username =
     and_then (write_checked actor owner name) (\<lambda>(r, _).
       and_then (load_issue (repo_id r) number) (\<lambda>x.
         and_then (dbq (select (user_by_username assignee_username))) (\<lambda>found.
           and_then (or_err SvNotFound found) (\<lambda>u.
             and_then (dbq (issue_unassign (issue_id x) (user_id u))) (\<lambda>_. ok ())))))"

definition set_milestone ::
  "actor_context \<Rightarrow> string \<Rightarrow> string \<Rightarrow> int \<Rightarrow> uuid option \<Rightarrow> (service_error, unit) act" where
  "set_milestone actor owner name number m =
     and_then (write_checked actor owner name) (\<lambda>(r, _).
       and_then (load_issue (repo_id r) number) (\<lambda>x. dbq (issue_set_milestone (issue_id x) m)))"

definition issue_add_comment ::
  "actor_context \<Rightarrow> string \<Rightarrow> string \<Rightarrow> int \<Rightarrow> string \<Rightarrow> (service_error, uuid) act" where
  "issue_add_comment actor owner name number body =
     and_then (require_user actor) (\<lambda>commenter.
       and_then (ensure (trim body \<noteq> []) (SvValidation (''a comment can'' @ [CHR 0x27] @ ''t be empty''))) (\<lambda>_.
         and_then (authz (repository_by_name owner name)) (\<lambda>r.
           and_then (authz (check_write actor r)) (\<lambda>_.
             and_then (load_issue (repo_id r) number) (\<lambda>x.
               and_then (dbq (resolve_mentions (trim body) commenter)) (\<lambda>mentioned.
                 and_then fresh_uuid (\<lambda>i.
                   transaction SvDb
                     (and_then (dbq (issue_comment_insert i (issue_id x) commenter (trim body))) (\<lambda>_.
                       and_then (dbq (append_event (EvIssueCommented (issue_id x) (repo_id r) commenter))) (\<lambda>_.
                         and_then (append_mentions mentioned commenter (MentionInIssue (issue_id x)))
                           (\<lambda>_. ok i)))))))))))"

section \<open>Releases\<close>

record tag_backend =
  do_resolve_tag :: "git_call list \<Rightarrow> string \<Rightarrow> string \<Rightarrow> git_error + string"
  do_create_tag :: "git_call list \<Rightarrow> string \<Rightarrow> string \<Rightarrow> string \<Rightarrow> string \<Rightarrow> string \<Rightarrow> string \<Rightarrow> git_error + string"
  do_changelog :: "git_call list \<Rightarrow> string \<Rightarrow> string option \<Rightarrow> string \<Rightarrow> git_error + string"

definition resolve_tag_now :: "tag_backend \<Rightarrow> string \<Rightarrow> string \<Rightarrow> ('e, git_error + string) act" where
  "resolve_tag_now g identity tag w = (Inr (do_resolve_tag g (git_calls w) identity tag), w)"

definition create_annotated_tag_now ::
  "tag_backend \<Rightarrow> string \<Rightarrow> string \<Rightarrow> string \<Rightarrow> user \<Rightarrow> string \<Rightarrow> (service_error, string) act" where
  "create_annotated_tag_now g identity tag target tagger message w =
     (case do_create_tag g (git_calls w) identity tag target (user_username tagger) (user_email tagger) message of
        Inl e \<Rightarrow> (Inl (SvGit e), w)
      | Inr sha \<Rightarrow> (Inr sha, w\<lparr>git_calls := git_calls w @ [GitTag identity tag sha]\<rparr>))"

definition changelog_now :: "tag_backend \<Rightarrow> string \<Rightarrow> string option \<Rightarrow> string \<Rightarrow> (service_error, string) act" where
  "changelog_now g identity previous target w =
     (case do_changelog g (git_calls w) identity previous target of
        Inl e \<Rightarrow> (Inl (SvGit e), w) | Inr text \<Rightarrow> (Inr text, w))"

record new_release_input =
  ri_tag_name :: string
  ri_target :: string
  ri_title :: string
  ri_body :: "string option"
  ri_draft :: bool
  ri_prerelease :: bool
  ri_generate_notes :: bool

fun previous_tag :: "tag_backend \<Rightarrow> string \<Rightarrow> string \<Rightarrow> release list \<Rightarrow> (service_error, string option) act" where
  "previous_tag g identity tag_name [] = ok None"
| "previous_tag g identity tag_name (x # xs) =
     (if release_tag_name x = tag_name then previous_tag g identity tag_name xs
      else and_then (resolve_tag_now g identity (release_tag_name x)) (\<lambda>res.
        case res of
          Inr _ \<Rightarrow> ok (Some (release_tag_name x))
        | Inl _ \<Rightarrow> previous_tag g identity tag_name xs))"

definition release_notes ::
  "tag_backend \<Rightarrow> string \<Rightarrow> new_release_input \<Rightarrow> string option \<Rightarrow> string \<Rightarrow> (service_error, string option) act" where
  "release_notes g identity i previous target =
     (case map_option trim (ri_body i) of
        Some body \<Rightarrow> if body \<noteq> [] then ok (Some body)
                     else if ri_generate_notes i
                     then and_then (changelog_now g identity previous target) (\<lambda>t. ok (if t = [] then None else Some t))
                     else ok None
      | None \<Rightarrow> if ri_generate_notes i
                then and_then (changelog_now g identity previous target) (\<lambda>t. ok (if t = [] then None else Some t))
                else ok None)"

definition release_target ::
  "tag_backend \<Rightarrow> string \<Rightarrow> string \<Rightarrow> string \<Rightarrow> user \<Rightarrow> string \<Rightarrow> (service_error, string) act" where
  "release_target g identity tag_name target committer title =
     and_then (resolve_tag_now g identity tag_name) (\<lambda>res.
       case res of
         Inr commit \<Rightarrow> ok commit
       | Inl _ \<Rightarrow> create_annotated_tag_now g identity tag_name target committer
                   (if title = [] then tag_name else title))"

definition release_create ::
  "tag_backend \<Rightarrow> actor_context \<Rightarrow> string \<Rightarrow> string \<Rightarrow> new_release_input \<Rightarrow> (service_error, string) act" where
  "release_create g actor owner name i =
     and_then (acting_user actor) (\<lambda>committer.
       and_then (write_checked actor owner name) (\<lambda>(r, author).
         and_then (ensure (trim (ri_tag_name i) \<noteq> []) (SvValidation ''a tag name is required'')) (\<lambda>_.
           and_then (ensure (trim (ri_title i) \<noteq> []) (SvValidation ''a release title is required'')) (\<lambda>_.
             and_then (dbq (select (releases_of (repo_id r)))) (\<lambda>releases.
               and_then (previous_tag g (git_identity owner name) (trim (ri_tag_name i)) releases) (\<lambda>previous.
                 and_then (release_target g (git_identity owner name) (trim (ri_tag_name i)) (ri_target i)
                             committer (trim (ri_title i))) (\<lambda>target_commit.
                   and_then (release_notes g (git_identity owner name) i previous target_commit) (\<lambda>body.
                     and_then fresh_uuid (\<lambda>rel.
                       transaction SvDb
                         (and_then (map_err service_of_release (release_insert rel (repo_id r)
                              \<lparr>nr_tag_name = trim (ri_tag_name i), nr_target_commit = target_commit,
                               nr_name = trim (ri_title i), nr_body = body, nr_draft = ri_draft i,
                               nr_prerelease = ri_prerelease i, nr_author_id = author\<rparr>)) (\<lambda>_.
                           and_then (if ri_draft i then ok ()
                                     else dbq (append_event (EvReleasePublished rel (repo_id r) author)))
                             (\<lambda>_. ok (trim (ri_tag_name i))))))))))))))"

section \<open>Notifications and watches\<close>

definition read_checked :: "actor_context \<Rightarrow> string \<Rightarrow> string \<Rightarrow> (service_error, repository \<times> uuid) act" where
  "read_checked actor owner name =
     and_then (require_user actor) (\<lambda>uid.
       and_then (authz (repository_by_name owner name)) (\<lambda>r.
         and_then (authz (check_read actor r)) (\<lambda>_. ok (r, uid))))"

definition repo_watch_level :: "actor_context \<Rightarrow> string \<Rightarrow> string \<Rightarrow> (service_error, watch_level option) act" where
  "repo_watch_level actor owner name =
     and_then (read_checked actor owner name) (\<lambda>(r, uid). dbq (select (watch_get uid (WsRepository (repo_id r)))))"

definition set_repo_watch :: "actor_context \<Rightarrow> string \<Rightarrow> string \<Rightarrow> watch_level \<Rightarrow> (service_error, unit) act" where
  "set_repo_watch actor owner name level =
     and_then (read_checked actor owner name) (\<lambda>(r, uid).
       and_then fresh_uuid (\<lambda>i. dbq (watch_set i uid (WsRepository (repo_id r)) level)))"

definition clear_repo_watch :: "actor_context \<Rightarrow> string \<Rightarrow> string \<Rightarrow> (service_error, unit) act" where
  "clear_repo_watch actor owner name =
     and_then (require_user actor) (\<lambda>uid.
       and_then (authz (repository_by_name owner name)) (\<lambda>r.
         and_then (dbq (watch_clear uid (WsRepository (repo_id r)))) (\<lambda>_. ok ())))"

definition notification_mark_read :: "actor_context \<Rightarrow> uuid \<Rightarrow> (service_error, unit) act" where
  "notification_mark_read actor i =
     and_then (require_user actor) (\<lambda>uid.
       and_then (dbq (mark_read uid i)) (\<lambda>marked. ensure marked SvNotFound))"

definition set_email_notifications :: "actor_context \<Rightarrow> bool \<Rightarrow> (service_error, unit) act" where
  "set_email_notifications actor enabled =
     and_then (require_user actor) (\<lambda>uid.
       and_then (dbq (set_email_notifications_enabled uid enabled)) (\<lambda>_. ok ()))"

end
