(* ===== verification/Repository_Service.thy ===== *)
theory Repository_Service
  imports Tracker_Service Sign_In
begin

text \<open>
  Repositories as a service (\<^verbatim>\<open>edda-app/src/services/repository.rs\<close>) with the functions of
  \<^verbatim>\<open>edda-git/src/lib.rs\<close> that create, copy and remove a repository's directory and the remaining
  statements of \<^verbatim>\<open>edda-db/src/repository_repo.rs\<close>. Tables and directories share no transaction: the
  calls recorded in the world are the changes to the set of directories, in order, and a \<open>repo_store\<close> says
  which directories were there before and where the file system fails.
\<close>

section \<open>Directories\<close>

text \<open>A failing creation or copy may leave its directory behind, which then counts as made; a failing removal
  leaves the directory itself in place.\<close>

record repo_store =
  rs_initial :: "string list"
  rs_fails :: "git_call list \<Rightarrow> git_call \<Rightarrow> (git_error \<times> bool) option"

fun apply_dir_call :: "git_call \<Rightarrow> string list \<Rightarrow> string list" where
  "apply_dir_call (GitCreate n) ds = n # ds"
| "apply_dir_call (GitFork s n) ds = n # ds"
| "apply_dir_call (GitRemove n) ds = removeAll n ds"
| "apply_dir_call _ ds = ds"

definition live_dirs :: "repo_store \<Rightarrow> git_call list \<Rightarrow> string list" where
  "live_dirs st calls = fold apply_dir_call calls (rs_initial st)"

definition validate_name :: "string \<Rightarrow> (git_error, unit) act" where
  "validate_name name = ensure (is_valid_repository_identity name) (GitInvalidName name)"

definition dir_exists :: "repo_store \<Rightarrow> string \<Rightarrow> ('e, bool) act" where
  "dir_exists st name w = (Inr (name \<in> set (live_dirs st (git_calls w))), w)"

definition run_dir_call :: "repo_store \<Rightarrow> git_call \<Rightarrow> (git_error, unit) act" where
  "run_dir_call st c w =
     (case rs_fails st (git_calls w) c of
        None \<Rightarrow> (Inr (), w\<lparr>git_calls := git_calls w @ [c]\<rparr>)
      | Some (e, left) \<Rightarrow> (Inl e, if left then w\<lparr>git_calls := git_calls w @ [c]\<rparr> else w))"

definition remove_dir :: "repo_store \<Rightarrow> string \<Rightarrow> (git_error, unit) act" where
  "remove_dir st name w =
     (case rs_fails st (git_calls w) (GitRemove name) of
        None \<Rightarrow> (Inr (), w\<lparr>git_calls := git_calls w @ [GitRemove name]\<rparr>)
      | Some (e, _) \<Rightarrow> (Inl e, w))"

definition create_repo :: "repo_store \<Rightarrow> string \<Rightarrow> (git_error, unit) act" where
  "create_repo st name =
     and_then (validate_name name) (\<lambda>_.
       and_then (dir_exists st name) (\<lambda>there.
         if there then err (GitAlreadyExists name) else run_dir_call st (GitCreate name)))"

definition fork_repo :: "repo_store \<Rightarrow> string \<Rightarrow> string \<Rightarrow> (git_error, unit) act" where
  "fork_repo st source dest =
     and_then (validate_name source) (\<lambda>_.
       and_then (validate_name dest) (\<lambda>_.
         and_then (dir_exists st source) (\<lambda>there.
           if \<not> there then err (GitNotFound source)
           else and_then (dir_exists st dest) (\<lambda>taken.
             if taken then err (GitAlreadyExists dest) else run_dir_call st (GitFork source dest)))))"

definition delete_repo :: "repo_store \<Rightarrow> string \<Rightarrow> (git_error, unit) act" where
  "delete_repo st name =
     and_then (validate_name name) (\<lambda>_.
       and_then (dir_exists st name) (\<lambda>there.
         if there then remove_dir st name else err (GitNotFound name)))"

section \<open>Statements\<close>

definition owned_by_user :: "uuid \<Rightarrow> db \<Rightarrow> int" where
  "owned_by_user uid d = int (length (filter (\<lambda>r. repo_owner r = OwnerUser uid) (t_repositories d)))"

definition count_owned_by_user :: "uuid \<Rightarrow> (db_error, int) act" where
  "count_owned_by_user uid = select (owned_by_user uid)"

text \<open>Deleting a row deletes every row whose foreign key refers to it, and so on from those; an issue that
  refers to a deleted milestone stays without one.\<close>

definition cascade_repository :: "uuid \<Rightarrow> db \<Rightarrow> db" where
  "cascade_repository rid d =
     (let pulls = map pr_id (filter (\<lambda>p. pr_repository_id p = rid \<or> ref_repository_id (pr_source p) = rid) (t_pull_requests d));
          issues = map issue_id (filter (\<lambda>x. issue_repository_id x = rid) (t_issues d));
          labels = map label_id (filter (\<lambda>x. label_repository_id x = rid) (t_labels d));
          milestones = map milestone_id (filter (\<lambda>x. milestone_repository_id x = rid) (t_milestones d));
          rules = map rule_id (filter (\<lambda>x. rule_repository_id x = rid) (t_rules d));
          releases = map release_id (filter (\<lambda>x. release_repository_id x = rid) (t_releases d));
          hooks = map webhook_id (filter (\<lambda>x. webhook_repository_id x = rid) (t_webhooks d)) in
      d\<lparr>t_repositories := delete_where (\<lambda>r. repo_id r = rid) (t_repositories d),
        t_repo_access := delete_where (\<lambda>a. access_repository_id a = rid) (t_repo_access d),
        t_repo_sizes := delete_where (\<lambda>x. fst x = rid) (t_repo_sizes d),
        t_counters := delete_where (\<lambda>x. fst x = rid) (t_counters d),
        t_statuses := delete_where (\<lambda>x. status_repository_id x = rid) (t_statuses d),
        t_deploy_keys := delete_where (\<lambda>x. dk_repository_id x = rid) (t_deploy_keys d),
        t_lfs_objects := delete_where (\<lambda>x. lo_repository_id x = rid) (t_lfs_objects d),
        t_lfs_locks := delete_where (\<lambda>x. ll_repository_id x = rid) (t_lfs_locks d),
        t_pull_requests := delete_where (\<lambda>p. pr_repository_id p = rid \<or> ref_repository_id (pr_source p) = rid) (t_pull_requests d),
        t_reviews := delete_where (\<lambda>x. review_pull_request_id x \<in> set pulls) (t_reviews d),
        t_review_requests := delete_where (\<lambda>x. rr_pull_request_id x \<in> set pulls) (t_review_requests d),
        t_pr_comments := delete_where (\<lambda>x. comment_pull_request_id x \<in> set pulls) (t_pr_comments d),
        t_issues := update_where (\<lambda>x. \<exists>m\<in>set milestones. issue_milestone_id x = Some m)
          (\<lambda>x. x\<lparr>issue_milestone_id := None\<rparr>) (delete_where (\<lambda>x. issue_repository_id x = rid) (t_issues d)),
        t_issue_comments := delete_where (\<lambda>x. icomment_issue_id x \<in> set issues) (t_issue_comments d),
        t_assignees := delete_where (\<lambda>x. asg_issue_id x \<in> set issues) (t_assignees d),
        t_labels := delete_where (\<lambda>x. label_repository_id x = rid) (t_labels d),
        t_issue_labels := delete_where (\<lambda>x. fst x \<in> set issues \<or> snd x \<in> set labels) (t_issue_labels d),
        t_milestones := delete_where (\<lambda>x. milestone_repository_id x = rid) (t_milestones d),
        t_rules := delete_where (\<lambda>x. rule_repository_id x = rid) (t_rules d),
        t_allowlist := delete_where (\<lambda>x. fst x \<in> set rules) (t_allowlist d),
        t_releases := delete_where (\<lambda>x. release_repository_id x = rid) (t_releases d),
        t_release_assets := delete_where (\<lambda>x. ra_release_id x \<in> set releases) (t_release_assets d),
        t_webhooks := delete_where (\<lambda>x. webhook_repository_id x = rid) (t_webhooks d),
        t_webhook_secrets := delete_where (\<lambda>x. fst x \<in> set hooks) (t_webhook_secrets d),
        t_deliveries := delete_where (\<lambda>x. wd_webhook_id x \<in> set hooks) (t_deliveries d)\<rparr>)"

definition delete_repository_row :: "uuid \<Rightarrow> (db_error, unit) act" where
  "delete_repository_row rid = execute (cascade_repository rid)"

section \<open>The service\<close>

record repo_config =
  rc_registration :: registration_policy
  rc_max_user_repos :: "nat option"

fun service_of_insert_repository :: "insert_repository_error \<Rightarrow> service_error" where
  "service_of_insert_repository (RepoAlreadyExists _) = SvConflict ''a repository with that name already exists''"
| "service_of_insert_repository (InsertRepoDb e) = SvDb e"

definition visibility_of :: "bool \<Rightarrow> visibility" where
  "visibility_of private = (if private then Private else Public)"

record new_repository =
  nrep_name :: string
  nrep_description :: "string option"
  nrep_private :: bool
  nrep_owner :: "string option"

definition check_user_repo_quota :: "repo_config \<Rightarrow> repository_owner \<Rightarrow> (service_error, unit) act" where
  "check_user_repo_quota cfg owner =
     (case (owner, rc_max_user_repos cfg) of
        (OwnerUser uid, Some limit) \<Rightarrow>
          and_then (dbq (count_owned_by_user uid)) (\<lambda>owned.
            ensure (owned < int limit)
              (SvConflict (''this account already owns the maximum of '' @ show_nat limit @ '' repositories'')))
      | _ \<Rightarrow> ok ())"

definition resolve_new_owner ::
  "actor_context \<Rightarrow> user \<Rightarrow> string option \<Rightarrow> (service_error, string \<times> repository_owner \<times> uuid option) act" where
  "resolve_new_owner actor u owner =
     (case owner of
        Some oname \<Rightarrow>
          and_then (authz (organization_by_name oname)) (\<lambda>g.
            and_then (authz (check_administer_organization actor (org_id g))) (\<lambda>_.
              and_then (dbq (select (team_by_org_and_name (org_id g) ''Owners''))) (\<lambda>found.
                and_then (or_err (SvConflict ''organization has no Owners team'') found) (\<lambda>t.
                  ok (org_name g, OwnerOrganization (org_id g), Some (team_id t))))))
      | None \<Rightarrow> ok (user_username u, OwnerUser (user_id u), None))"

definition repo_audit :: "string \<Rightarrow> uuid \<Rightarrow> uuid \<Rightarrow> json \<Rightarrow> ('e, unit) act" where
  "repo_audit event_type uid rid detail =
     audit_record \<lparr>audit_event_type = event_type, audit_actor_id = Some uid,
       audit_target = Some (''repository'', rid), audit_detail = Some detail\<rparr>"

definition require_verified_creator :: "repo_config \<Rightarrow> uuid \<Rightarrow> (service_error, unit) act" where
  "require_verified_creator cfg uid =
     and_then (dbq (account_status uid)) (\<lambda>status.
       case status of
         Some st \<Rightarrow> ensure (\<not> isl (require_verified_for_write st (rc_registration cfg))) SvForbidden
       | None \<Rightarrow> ok ())"

definition repository_create ::
  "repo_store \<Rightarrow> repo_config \<Rightarrow> actor_context \<Rightarrow> new_repository \<Rightarrow> (service_error, string \<times> string) act" where
  "repository_create st cfg actor spec =
     and_then (acting_user actor) (\<lambda>u.
       and_then (ensure (trim (nrep_name spec) \<noteq> []) (SvValidation ''a repository needs a name'')) (\<lambda>_.
         and_then (require_verified_creator cfg (user_id u)) (\<lambda>_.
           and_then (resolve_new_owner actor u (nrep_owner spec)) (\<lambda>(owner, repo_own, owner_team).
             and_then (check_user_repo_quota cfg repo_own) (\<lambda>_.
               and_then fresh_uuid (\<lambda>i.
                 let r = \<lparr>repo_id = i, repo_owner = repo_own, repo_name = trim (nrep_name spec),
                          repo_description = non_blank (nrep_description spec),
                          repo_visibility = visibility_of (nrep_private spec), repo_forked_from = None\<rparr>;
                     identity = git_identity owner (trim (nrep_name spec)) in
                 and_then (map_err SvGit (create_repo st identity)) (\<lambda>_.
                   and_then (map_err service_of_insert_repository
                       (case owner_team of
                          Some t \<Rightarrow> insert_with_owner_team r t
                        | None \<Rightarrow> insert_with_owner r (user_id u))) (\<lambda>_.
                     and_then (repo_audit ''repository.create'' (user_id u) i
                         (JObj [(''identity'', JStr identity), (''private'', JBool (nrep_private spec))])) (\<lambda>_.
                       ok (owner, repo_name r))))))))))"

definition repository_fork ::
  "repo_store \<Rightarrow> repo_config \<Rightarrow> actor_context \<Rightarrow> string \<Rightarrow> string \<Rightarrow> (service_error, string \<times> string) act" where
  "repository_fork st cfg actor owner name =
     and_then (acting_user actor) (\<lambda>u.
       and_then (authz (repository_by_name owner name)) (\<lambda>source.
         and_then (authz (check_read actor source)) (\<lambda>_.
           let source_identity = git_identity owner name;
               dest_identity = git_identity (user_username u) name in
           and_then (ensure (source_identity \<noteq> dest_identity) (SvConflict ''you already own this repository'')) (\<lambda>_.
             and_then (check_user_repo_quota cfg (OwnerUser (user_id u))) (\<lambda>_.
               and_then (map_err SvGit (fork_repo st source_identity dest_identity)) (\<lambda>_.
                 and_then fresh_uuid (\<lambda>i.
                   let r = \<lparr>repo_id = i, repo_owner = OwnerUser (user_id u), repo_name = name,
                            repo_description = repo_description source, repo_visibility = repo_visibility source,
                            repo_forked_from = Some (repo_id source)\<rparr> in
                   and_then (map_err (\<lambda>e. case e of
                         RepoAlreadyExists _ \<Rightarrow> SvConflict ''you already have a repository with that name''
                       | InsertRepoDb e \<Rightarrow> SvDb e) (insert_with_owner r (user_id u))) (\<lambda>_.
                     and_then (repo_audit ''repository.fork'' (user_id u) i
                         (JObj [(''source'', JStr source_identity), (''fork'', JStr dest_identity)])) (\<lambda>_.
                       ok (user_username u, name))))))))))"

definition repository_update_description ::
  "actor_context \<Rightarrow> string \<Rightarrow> string \<Rightarrow> string option \<Rightarrow> (service_error, unit) act" where
  "repository_update_description actor owner name description =
     and_then (authz (repository_by_name owner name)) (\<lambda>r.
       and_then (authz (check_write actor r)) (\<lambda>_.
         dbq (update_description (repo_id r) (non_blank description))))"

definition repository_set_visibility ::
  "actor_context \<Rightarrow> string \<Rightarrow> string \<Rightarrow> bool \<Rightarrow> (service_error, unit) act" where
  "repository_set_visibility actor owner name private =
     and_then (authz (repository_by_name owner name)) (\<lambda>r.
       and_then (authz (check_danger_zone actor r)) (\<lambda>_.
         and_then (dbq (update_visibility (repo_id r) (visibility_of private))) (\<lambda>_.
           case actor_user_id actor of
             Some uid \<Rightarrow> repo_audit ''repository.set_visibility'' uid (repo_id r)
               (JObj [(''identity'', JStr (git_identity owner name)), (''private'', JBool private)])
           | None \<Rightarrow> ok ())))"

definition repository_delete ::
  "repo_store \<Rightarrow> actor_context \<Rightarrow> string \<Rightarrow> string \<Rightarrow> (service_error, unit) act" where
  "repository_delete st actor owner name =
     and_then (authz (repository_by_name owner name)) (\<lambda>r.
       and_then (authz (check_danger_zone actor r)) (\<lambda>_.
         and_then (map_err SvGit (delete_repo st (git_identity owner name))) (\<lambda>_.
           and_then (dbq (delete_repository_row (repo_id r))) (\<lambda>_.
             case actor_user_id actor of
               Some uid \<Rightarrow> repo_audit ''repository.delete'' uid (repo_id r)
                 (JObj [(''identity'', JStr (git_identity owner name))])
             | None \<Rightarrow> ok ()))))"

end
