(* ===== verification/Job_Handlers.thy ===== *)
theory Job_Handlers
  imports Repository_Service Webhooks Code_Owners Outbox
begin

text \<open>
  Webhooks as a service (\<^verbatim>\<open>edda-app/src/services/webhook.rs\<close>, \<^verbatim>\<open>edda-db/src/webhook_repo.rs\<close>,
  \<^verbatim>\<open>edda-auth/src/webhook_signing.rs\<close>) and what the jobs do when they run (\<^verbatim>\<open>edda/src/jobs.rs\<close>). The
  network, the mail transport and the git layer's reads are a record of functions; the requests sent are
  kept in order. The wording of an error is that of its source.
\<close>

section \<open>Statements\<close>

definition insert_webhook_row :: "webhook \<Rightarrow> string \<Rightarrow> db \<Rightarrow> db_error + (unit \<times> db)" where
  "insert_webhook_row x ciphertext d =
     (if list_ex (\<lambda>y. webhook_id y = webhook_id x) (t_webhooks d) then Inl UniqueViolation
      else if repo_by_id (webhook_repository_id x) d = None then Inl ForeignKeyViolation
      else Inr ((), d\<lparr>t_webhooks := t_webhooks d @ [x],
                      t_webhook_secrets := t_webhook_secrets d @ [(webhook_id x, ciphertext)]\<rparr>))"

definition webhook_insert :: "uuid \<Rightarrow> uuid \<Rightarrow> string \<Rightarrow> string \<Rightarrow> webhook_event list \<Rightarrow> (db_error, unit) act" where
  "webhook_insert i rid target_url ciphertext events =
     and_then now_unix (\<lambda>now.
       sql (insert_webhook_row
         \<lparr>webhook_id = i, webhook_repository_id = rid, webhook_target_url = target_url, webhook_events = events,
          webhook_active = True, webhook_created_at = now\<rparr> ciphertext))"

definition webhook_by_id :: "uuid \<Rightarrow> db \<Rightarrow> webhook option" where
  "webhook_by_id i d = find (\<lambda>x. webhook_id x = i) (t_webhooks d)"

definition secret_ciphertext_of :: "uuid \<Rightarrow> db \<Rightarrow> string option" where
  "secret_ciphertext_of i d = map_of (t_webhook_secrets d) i"

definition webhook_delete_row :: "uuid \<Rightarrow> uuid \<Rightarrow> (db_error, bool) act" where
  "webhook_delete_row rid i =
     sql (\<lambda>d.
       if list_ex (\<lambda>x. webhook_id x = i \<and> webhook_repository_id x = rid) (t_webhooks d)
       then Inr (True, d\<lparr>t_webhooks := delete_where (\<lambda>x. webhook_id x = i) (t_webhooks d),
                         t_webhook_secrets := delete_where (\<lambda>x. fst x = i) (t_webhook_secrets d),
                         t_deliveries := delete_where (\<lambda>x. wd_webhook_id x = i) (t_deliveries d)\<rparr>)
       else Inr (False, d))"

definition insert_delivery_row :: "webhook_delivery \<Rightarrow> db \<Rightarrow> db_error + (unit \<times> db)" where
  "insert_delivery_row x d =
     (if list_ex (\<lambda>y. wd_id y = wd_id x) (t_deliveries d) then Inl UniqueViolation
      else if webhook_by_id (wd_webhook_id x) d = None then Inl ForeignKeyViolation
      else Inr ((), d\<lparr>t_deliveries := t_deliveries d @ [x]\<rparr>))"

definition delivery_insert :: "uuid \<Rightarrow> uuid \<Rightarrow> webhook_event \<Rightarrow> string \<Rightarrow> (db_error, unit) act" where
  "delivery_insert i wid event payload =
     and_then now_unix (\<lambda>now.
       sql (insert_delivery_row
         \<lparr>wd_id = i, wd_webhook_id = wid, wd_event = event, wd_payload = payload, wd_response_status = None,
          wd_attempt_count = 0, wd_delivered_at = None, wd_created_at = now\<rparr>))"

definition record_attempt :: "uuid \<Rightarrow> int \<Rightarrow> int option \<Rightarrow> bool \<Rightarrow> (db_error, unit) act" where
  "record_attempt i attempts status delivered =
     and_then now_unix (\<lambda>now.
       execute (\<lambda>d. d\<lparr>t_deliveries := update_where (\<lambda>x. wd_id x = i)
         (\<lambda>x. x\<lparr>wd_attempt_count := attempts, wd_response_status := status,
                wd_delivered_at := (if delivered then Some now else None)\<rparr>) (t_deliveries d)\<rparr>))"

definition deliveries_of :: "uuid \<Rightarrow> db \<Rightarrow> webhook_delivery list" where
  "deliveries_of wid d = sort_key (\<lambda>x. - wd_created_at x) (filter (\<lambda>x. wd_webhook_id x = wid) (t_deliveries d))"

definition delivery_by_id :: "uuid \<Rightarrow> db \<Rightarrow> webhook_delivery option" where
  "delivery_by_id i d = find (\<lambda>x. wd_id x = i) (t_deliveries d)"

definition delivery_totals :: "db \<Rightarrow> nat \<times> nat" where
  "delivery_totals d = (length (t_deliveries d), rows_affected (\<lambda>x. wd_delivered_at x = None) (t_deliveries d))"

definition delete_deliveries_older_than :: "int \<Rightarrow> (db_error, nat) act" where
  "delete_deliveries_older_than cutoff =
     sql (\<lambda>d. Inr (rows_affected (\<lambda>x. wd_created_at x < cutoff) (t_deliveries d),
       d\<lparr>t_deliveries := delete_where (\<lambda>x. wd_created_at x < cutoff) (t_deliveries d)\<rparr>))"

section \<open>The service\<close>

text \<open>A signed request as it goes out, pinned to an address.\<close>

record webhook_post =
  wp_url :: string
  wp_host :: string
  wp_addr :: socket_addr
  wp_event :: webhook_event
  wp_signature :: string
  wp_delivery :: uuid
  wp_body :: string

text \<open>\<open>jl_post\<close> answers a request, after those already sent, with a status or an error; \<open>jl_mailer\<close> is none where
  no mail server is configured, and otherwise sends to an address a subject and a text; the git layer reads
  a file of a branch, compares two branches, measures and sweeps.\<close>

record job_libs =
  jl_parse_url :: "string \<Rightarrow> parsed_url option"
  jl_lookup :: "string \<times> nat \<Rightarrow> socket_addr list option"
  jl_hmac :: "string \<Rightarrow> string \<Rightarrow> string"
  jl_post :: "webhook_post list \<Rightarrow> webhook_post \<Rightarrow> string + nat"
  jl_mailer :: "(string \<Rightarrow> string \<Rightarrow> string \<Rightarrow> string option) option"
  jl_read_file :: "string \<Rightarrow> string \<Rightarrow> string \<Rightarrow> string option"
  jl_changed_files :: "string \<Rightarrow> string \<Rightarrow> string \<Rightarrow> (string option \<times> string option) list option"
  jl_storage_bytes :: "string \<Rightarrow> nat \<times> nat"
  jl_sweep_quarantine :: "nat \<Rightarrow> string option"
  jl_repo_gc :: "string \<Rightarrow> string option"

definition check_target :: "job_libs \<Rightarrow> string \<Rightarrow> ssrf_error + (string \<times> socket_addr)" where
  "check_target libs url = resolve_and_check (jl_parse_url libs) (jl_lookup libs) url"

fun ssrf_text :: "ssrf_error \<Rightarrow> string" where
  "ssrf_text UnsupportedScheme = ''the target URL must be http or https''"
| "ssrf_text NoHost = ''the target URL has no resolvable host''"
| "ssrf_text ResolutionFailed = ''could not resolve the target host''"
| "ssrf_text SsrfBlocked =
     ''the target resolves to a private, loopback, link-local, or otherwise disallowed address''"

text \<open>Dashes in these messages are three bytes of UTF-8.\<close>

definition dash :: string where
  "dash = [CHR 0xE2, CHR 0x80, CHR 0x94]"

fun secret_box_text :: "secret_box_error \<Rightarrow> string" where
  "secret_box_text NotConfigured =
     ''this instance has no EDDA_SECRET_KEYS configured '' @ dash
       @ '' TOTP (2FA) and stored webhook secrets are unavailable until one is set''"
| "secret_box_text Corrupted =
     ''stored secret could not be decrypted '' @ dash @ '' wrong EDDA_SECRET_KEYS or corrupted data''"

definition generate_secret :: "auth_env \<Rightarrow> ('e, string) act" where
  "generate_secret env = and_then fresh_uuid (\<lambda>n. ok (hex_bytes (random_bytes env n 32)))"

definition sign_payload :: "job_libs \<Rightarrow> string \<Rightarrow> string \<Rightarrow> string" where
  "sign_payload libs secret payload = hex_bytes (jl_hmac libs secret payload)"

fun parse_events :: "string list \<Rightarrow> service_error + webhook_event list" where
  "parse_events [] = Inr []"
| "parse_events (e # es) =
     (case from_wire_str e of
        None \<Rightarrow> Inl (SvValidation (''unrecognized event '' @ CHR 0x22 # e @ [CHR 0x22]))
      | Some x \<Rightarrow> (case parse_events es of Inl z \<Rightarrow> Inl z | Inr xs \<Rightarrow> Inr (x # xs)))"

definition raised :: "('x \<Rightarrow> 'e) \<Rightarrow> 'x + 'a \<Rightarrow> ('e, 'a) act" where
  "raised g x = (case x of Inl e \<Rightarrow> err (g e) | Inr y \<Rightarrow> ok y)"

definition webhook_audit :: "string \<Rightarrow> uuid \<Rightarrow> (string \<times> json) list \<Rightarrow> uuid \<Rightarrow> audit_event" where
  "webhook_audit event rid detail uid =
     \<lparr>audit_event_type = event, audit_actor_id = Some uid, audit_target = Some (''repository'', rid),
      audit_detail = Some (JObj detail)\<rparr>"

definition webhook_create ::
  "auth_env \<Rightarrow> job_libs \<Rightarrow> actor_context \<Rightarrow> string \<Rightarrow> string \<Rightarrow> string \<Rightarrow> string list
     \<Rightarrow> (service_error, uuid \<times> string) act" where
  "webhook_create env libs actor owner name url0 events =
     and_then (administer_checked actor owner name) (\<lambda>r.
       let url = trim url0 in
       and_then (ensure (url \<noteq> []) (SvValidation ''a target URL is required'')) (\<lambda>_.
         and_then (ensure (events \<noteq> []) (SvValidation ''select at least one event'')) (\<lambda>_.
           and_then (raised (\<lambda>e. e) (parse_events events)) (\<lambda>parsed.
             and_then (raised (\<lambda>e. SvValidation (ssrf_text e)) (check_target libs url)) (\<lambda>_.
               and_then (generate_secret env) (\<lambda>secret.
                 and_then fresh_uuid (\<lambda>n.
                   and_then (raised (\<lambda>e. SvConflict (secret_box_text e))
                       (encrypt (aes env) (key_ring env) (random_bytes env n nonce_len) secret)) (\<lambda>ciphertext.
                     and_then fresh_uuid (\<lambda>i.
                       and_then (dbq (webhook_insert i (repo_id r) url ciphertext parsed)) (\<lambda>_.
                         and_then (audit_if_user actor (webhook_audit ''webhook.create'' (repo_id r)
                             [(''webhook_id'', JId i), (''target_url'', JStr url)])) (\<lambda>_.
                           ok (i, secret))))))))))))"

definition webhook_delete ::
  "actor_context \<Rightarrow> string \<Rightarrow> string \<Rightarrow> uuid \<Rightarrow> (service_error, unit) act" where
  "webhook_delete actor owner name i =
     and_then (administer_checked actor owner name) (\<lambda>r.
       and_then (dbq (webhook_delete_row (repo_id r) i)) (\<lambda>deleted.
         and_then (ensure deleted SvNotFound) (\<lambda>_.
           audit_if_user actor (webhook_audit ''webhook.delete'' (repo_id r) [(''webhook_id'', JId i)]))))"

section \<open>Running a job\<close>

datatype job_error =
    JeWrongKind | JeText string | JeDb db_error | JeSecret secret_box_error | JeTarget ssrf_error | JeStatus nat

definition jobdb :: "(db_error, 'a) act \<Rightarrow> (job_error, 'a) act" where
  "jobdb m = map_err JeDb m"

fun run_send_email :: "job_libs \<Rightarrow> job_payload \<Rightarrow> job_error + unit" where
  "run_send_email libs (SendEmail to subject body) =
     (case jl_mailer libs of
        None \<Rightarrow> Inr ()
      | Some send \<Rightarrow> (case send to subject body of Some e \<Rightarrow> Inl (JeText e) | None \<Rightarrow> Inr ()))"
| "run_send_email libs _ = Inl JeWrongKind"

fun run_create_notification :: "job_payload \<Rightarrow> (job_error, unit) act" where
  "run_create_notification (CreateNotification uid kind subject) =
     and_then fresh_uuid (\<lambda>i.
       and_then (jobdb (notification_insert_if_new i uid kind subject)) (\<lambda>_. ok ()))"
| "run_create_notification _ = err JeWrongKind"

text \<open>A byte count that does not fit \<^verbatim>\<open>i64\<close> is stored as its maximum.\<close>

definition clamp_i64 :: "nat \<Rightarrow> int" where
  "clamp_i64 n = min (int n) (2 ^ 63 - 1)"

fun run_update_repo_size :: "job_libs \<Rightarrow> job_payload \<Rightarrow> (job_error, unit) act" where
  "run_update_repo_size libs (UpdateRepoSize rid) =
     and_then (jobdb (select (find_by_id_with_owner_username rid))) (\<lambda>found.
       case found of
         None \<Rightarrow> ok ()
       | Some (r, owner) \<Rightarrow>
           (case jl_storage_bytes libs (git_identity owner (repo_name r)) of
              (git, lfs) \<Rightarrow> jobdb (repo_size_upsert rid (clamp_i64 git) (clamp_i64 lfs))))"
| "run_update_repo_size libs _ = err JeWrongKind"

fun find_map :: "('a \<Rightarrow> 'b option) \<Rightarrow> 'a list \<Rightarrow> 'b option" where
  "find_map f [] = None"
| "find_map f (x # xs) = (case f x of Some y \<Rightarrow> Some y | None \<Rightarrow> find_map f xs)"

definition or_path :: "string option \<times> string option \<Rightarrow> string option" where
  "or_path p = (case fst p of Some n \<Rightarrow> Some n | None \<Rightarrow> snd p)"

definition wanted_reviewers :: "job_libs \<Rightarrow> string \<Rightarrow> string \<Rightarrow> string \<Rightarrow> string list" where
  "wanted_reviewers libs identity target source =
     (case find_map (jl_read_file libs identity target) [''.github/CODEOWNERS'', ''CODEOWNERS'', ''docs/CODEOWNERS''] of
        None \<Rightarrow> []
      | Some txt \<Rightarrow>
          let owners = parse_code_owners txt in
          if owners = [] then []
          else owners_for_paths owners
                 (List.map_filter or_path
                   (case jl_changed_files libs identity target source of Some files \<Rightarrow> files | None \<Rightarrow> [])))"

definition request_reviewer :: "pull_request \<Rightarrow> string \<Rightarrow> (job_error, unit) act" where
  "request_reviewer pr login =
     (if CHR ''/'' \<in> set login then ok ()
      else and_then (jobdb (select (user_by_username login))) (\<lambda>found.
        case found of
          None \<Rightarrow> ok ()
        | Some u \<Rightarrow>
            if user_id u = pr_author_id pr then ok ()
            else and_then fresh_uuid (\<lambda>i.
              and_then (jobdb (review_request_insert i (pr_id pr) (user_id u))) (\<lambda>_. ok ()))))"

fun run_sync_review_requests :: "job_libs \<Rightarrow> job_payload \<Rightarrow> (job_error, unit) act" where
  "run_sync_review_requests libs (SyncReviewRequests pid) =
     and_then (jobdb (select (pr_by_id pid))) (\<lambda>found.
       case found of
         None \<Rightarrow> ok ()
       | Some pr \<Rightarrow>
           if \<not> pr_is_open (pr_state pr) \<or> ref_repository_id (pr_source pr) \<noteq> pr_repository_id pr then ok ()
           else and_then (jobdb (select (find_by_id_with_owner_username (pr_repository_id pr)))) (\<lambda>repo.
             case repo of
               None \<Rightarrow> ok ()
             | Some (r, owner) \<Rightarrow>
                 for_each (wanted_reviewers libs (git_identity owner (repo_name r)) (pr_target pr) (ref_branch (pr_source pr)))
                   (request_reviewer pr)))"
| "run_sync_review_requests libs _ = err JeWrongKind"

section \<open>Maintenance\<close>

definition webhook_delivery_retention :: int where "webhook_delivery_retention = 30 * 86400"
definition login_attempt_retention :: int where "login_attempt_retention = 7 * 86400"
definition quarantine_sweep_age :: nat where "quarantine_sweep_age = 6 * 3600"

definition delete_dead_verifications :: "int \<Rightarrow> (db_error, nat) act" where
  "delete_dead_verifications now =
     sql (\<lambda>d. Inr (rows_affected (\<lambda>r. lt_used_at r \<noteq> None \<or> lt_expires_at r < now) (t_verification_tokens d),
       d\<lparr>t_verification_tokens := delete_where (\<lambda>r. lt_used_at r \<noteq> None \<or> lt_expires_at r < now) (t_verification_tokens d)\<rparr>))"

definition owner_key :: "repository \<Rightarrow> uuid" where
  "owner_key r = (case repo_owner r of OwnerUser i \<Rightarrow> i | OwnerOrganization i \<Rightarrow> i)"

text \<open>\<^verbatim>\<open>ORDER BY COALESCE(owner_user_id, owner_org_id), name\<close> and \<^verbatim>\<open>ORDER BY owner_username, r.name\<close>; a row whose
  owner is missing fails the read.\<close>

definition list_all_repositories :: "db \<Rightarrow> repository list" where
  "list_all_repositories d = sort_key owner_key (sort_key repo_name (t_repositories d))"

definition list_all_with_owner :: "(db_error, (repository \<times> string) list) act" where
  "list_all_with_owner =
     sql (\<lambda>d.
       if list_all (\<lambda>r. owner_name (repo_owner r) d \<noteq> None) (t_repositories d)
       then Inr (sort_key snd (map (\<lambda>r. (r, the (owner_name (repo_owner r) d))) (sort_key repo_name (t_repositories d))), d)
       else Inl DbOther)"

fun text_outcome :: "string option \<Rightarrow> (job_error, unit) act" where
  "text_outcome None = ok ()"
| "text_outcome (Some e) = err (JeText e)"

fun run_maintenance :: "job_libs \<Rightarrow> job_payload \<Rightarrow> (job_error, unit) act" where
  "run_maintenance libs (RunMaintenance task) =
     and_then now_unix (\<lambda>now.
       if task = ''prune_webhook_deliveries'' then
         and_then (jobdb (delete_deliveries_older_than (now - webhook_delivery_retention))) (\<lambda>_. ok ())
       else if task = ''prune_expired_tokens'' then
         and_then (jobdb (delete_dead_verifications now)) (\<lambda>_.
           and_then (jobdb (delete_dead_resets now)) (\<lambda>_.
             and_then (jobdb (delete_stale_attempts (now - login_attempt_retention) now)) (\<lambda>_. ok ())))
       else if task = ''prune_quarantine'' then text_outcome (jl_sweep_quarantine libs quarantine_sweep_age)
       else if task = ''sweep_repo_sizes'' then
         and_then (jobdb (select list_all_repositories)) (\<lambda>rs.
           for_each rs (\<lambda>r. jobdb (jobs_enqueue (UpdateRepoSize (repo_id r)))))
       else if task = ''optimize_database'' then jobdb (select (\<lambda>_. ()))
       else if task = ''repo_gc_sweep'' then
         and_then (jobdb list_all_with_owner) (\<lambda>rs.
           for_each rs (\<lambda>(r, _). jobdb (jobs_enqueue (RunRepoGc (repo_id r)))))
       else ok ())"
| "run_maintenance libs _ = err JeWrongKind"

fun run_repo_gc :: "job_libs \<Rightarrow> job_payload \<Rightarrow> (job_error, unit) act" where
  "run_repo_gc libs (RunRepoGc rid) =
     and_then (jobdb (select (find_by_id_with_owner_username rid))) (\<lambda>found.
       case found of
         None \<Rightarrow> ok ()
       | Some (r, owner) \<Rightarrow> text_outcome (jl_repo_gc libs (git_identity owner (repo_name r))))"
| "run_repo_gc libs _ = err JeWrongKind"

section \<open>Delivering a webhook\<close>

text \<open>The world with the requests sent, oldest first.\<close>

record net_host =
  nh_world :: world
  nh_sent :: "webhook_post list"

text \<open>Up to the request; none where the webhook has been switched off since.\<close>

definition prepare_delivery ::
  "auth_env \<Rightarrow> job_libs \<Rightarrow> uuid \<Rightarrow> webhook_event \<Rightarrow> string \<Rightarrow> (job_error, webhook_post option) act" where
  "prepare_delivery env libs wid event body =
     and_then (jobdb (select (webhook_by_id wid))) (\<lambda>found.
       and_then (or_err (JeText ''webhook no longer exists'') found) (\<lambda>x.
         if \<not> is_subscribed_to x event then ok None
         else and_then (jobdb (select (secret_ciphertext_of wid))) (\<lambda>stored.
           and_then (or_err (JeText ''webhook secret missing'') stored) (\<lambda>ciphertext.
             and_then (raised JeSecret (decrypt (aes env) (key_ring env) ciphertext)) (\<lambda>secret.
               and_then fresh_uuid (\<lambda>i.
                 and_then (jobdb (delivery_insert i wid event body)) (\<lambda>_.
                   case check_target libs (webhook_target_url x) of
                     Inl e \<Rightarrow> and_then (outcome (record_attempt i 1 None False)) (\<lambda>_. err (JeTarget e))
                   | Inr (host, addr) \<Rightarrow>
                       ok (Some \<lparr>wp_url = webhook_target_url x, wp_host = host, wp_addr = addr, wp_event = event,
                                 wp_signature = sign_payload libs secret body, wp_delivery = i, wp_body = body\<rparr>))))))))"

definition record_answer :: "uuid \<Rightarrow> string + nat \<Rightarrow> (job_error, unit) act" where
  "record_answer i answer =
     (case answer of
        Inr status \<Rightarrow>
          and_then (outcome (record_attempt i 1 (Some (int status)) (200 \<le> status \<and> status < 300))) (\<lambda>_.
            if 200 \<le> status \<and> status < 300 then ok () else err (JeStatus status))
      | Inl e \<Rightarrow> and_then (outcome (record_attempt i 1 None False)) (\<lambda>_. err (JeText e)))"

fun deliver_webhook :: "auth_env \<Rightarrow> job_libs \<Rightarrow> job_payload \<Rightarrow> net_host \<Rightarrow> (job_error + unit) \<times> net_host" where
  "deliver_webhook env libs (DeliverWebhook wid event body) h =
     (case prepare_delivery env libs wid event body (nh_world h) of
        (Inl e, w) \<Rightarrow> (Inl e, h\<lparr>nh_world := w\<rparr>)
      | (Inr None, w) \<Rightarrow> (Inr (), h\<lparr>nh_world := w\<rparr>)
      | (Inr (Some post), w) \<Rightarrow>
          (case record_answer (wp_delivery post) (jl_post libs (nh_sent h) post) w of
             (r, w') \<Rightarrow> (r, \<lparr>nh_world = w', nh_sent = nh_sent h @ [post]\<rparr>)))"
| "deliver_webhook env libs _ h = (Inl JeWrongKind, h)"

end
