(* ===== verification/Job_Proofs.thy ===== *)
theory Job_Proofs
  imports Job_Queue
begin

text \<open>
  What the job queue guarantees: claims never hand a job out twice, a batch is what it claims to
  be, a run ends in exactly one recorded outcome, a job that always fails is dead-lettered after
  its budget, and a scheduler tick is idempotent. The first group is about every interleaving of
  the statements, the others about one operation.
\<close>

section \<open>Statements of any number of pollers\<close>

datatype queue_label =
    LEnqueue uuid | LClaim uuid | LLost uuid | LSucceed uuid | LRetry uuid | LDead uuid
  | LRequeue uuid | LNotFailed uuid | LDelete uuid

inductive queue_step :: "job_record list \<Rightarrow> queue_label \<Rightarrow> job_record list \<Rightarrow> bool" where
  enqueue: "i \<notin> set (map job_id rows) \<Longrightarrow>
     queue_step rows (LEnqueue i) (rows @ [new_job i payload run_at max_attempts created_at])"
| claim: "0 < rows_affected (claimable i) rows \<Longrightarrow> queue_step rows (LClaim i) (claim_rows i rows)"
| lost: "rows_affected (claimable i) rows = 0 \<Longrightarrow> queue_step rows (LLost i) (claim_rows i rows)"
| succeed: "queue_step rows (LSucceed i) (succeeded_rows i rows)"
| retry: "queue_step rows (LRetry i) (retry_rows i attempts run_at error rows)"
| dead: "queue_step rows (LDead i) (dead_rows i attempts error rows)"
| requeue: "0 < rows_affected (requeueable i) rows \<Longrightarrow> queue_step rows (LRequeue i) (requeue_rows i now rows)"
| not_failed: "rows_affected (requeueable i) rows = 0 \<Longrightarrow> queue_step rows (LNotFailed i) (requeue_rows i now rows)"
| delete: "queue_step rows (LDelete i) (delete_rows i rows)"

inductive_cases claim_stepE: "queue_step rows (LClaim i) rows'"

inductive queue_run :: "job_record list \<Rightarrow> queue_label list \<Rightarrow> job_record list \<Rightarrow> bool" where
  run_nil: "queue_run rows [] rows"
| run_cons: "queue_step rows e rows1 \<Longrightarrow> queue_run rows1 es rows2 \<Longrightarrow> queue_run rows (e # es) rows2"

inductive_cases run_nilE [elim!]: "queue_run rows [] rows'"
inductive_cases run_consE [elim!]: "queue_run rows (e # es) rows'"

lemma queue_run_append:
  "queue_run rows (xs @ ys) rows' \<longleftrightarrow> (\<exists>mid. queue_run rows xs mid \<and> queue_run mid ys rows')"
proof (induction xs arbitrary: rows)
  case Nil
  then show ?case by (auto intro: run_nil)
next
  case (Cons e xs)
  then show ?case by (auto 0 4 intro: run_cons)
qed

lemmas table_defs =
  claim_rows_def succeeded_rows_def retry_rows_def dead_rows_def requeue_rows_def delete_rows_def

lemmas table_sets = table_defs set_update_where set_delete_where

text \<open>The operations of the code take these steps.\<close>

lemma try_claim_step:
  "try_claim i w = (Inr n, w') \<Longrightarrow>
     queue_step (t_jobs (tables w)) (if 0 < n then LClaim i else LLost i) (t_jobs (tables w'))
     \<and> n = rows_affected (claimable i) (t_jobs (tables w))"
  by (auto simp: try_claim_def sql_def Let_def with_jobs_def split: if_splits
      intro: queue_step.intros)

lemma mark_retry_step:
  "mark_retry i a t e w = (Inr u, w') \<Longrightarrow> queue_step (t_jobs (tables w)) (LRetry i) (t_jobs (tables w'))"
  using execute_Inr [of "with_jobs (retry_rows i a t e)" w u w']
  by (auto simp: mark_retry_def with_jobs_def intro: queue_step.intros)

lemma mark_dead_step:
  "mark_dead i a e w = (Inr u, w') \<Longrightarrow> queue_step (t_jobs (tables w)) (LDead i) (t_jobs (tables w'))"
  using execute_Inr [of "with_jobs (dead_rows i a e)" w u w']
  by (auto simp: mark_dead_def with_jobs_def intro: queue_step.intros)

lemma mark_succeeded_step:
  "mark_succeeded i w = (Inr u, w') \<Longrightarrow> queue_step (t_jobs (tables w)) (LSucceed i) (t_jobs (tables w'))"
  using execute_Inr [of "with_jobs (succeeded_rows i)" w u w']
  by (auto simp: mark_succeeded_def with_jobs_def intro: queue_step.intros)

lemma enqueue_step:
  "job_enqueue i p t m w = (Inr u, w') \<Longrightarrow> queue_step (t_jobs (tables w)) (LEnqueue i) (t_jobs (tables w'))"
  by (auto simp: job_enqueue_def act_simps sql_def Let_def with_jobs_def split: if_splits
      intro!: queue_step.enqueue)

lemma requeue_step:
  "job_requeue i w = (Inr b, w') \<Longrightarrow>
     queue_step (t_jobs (tables w)) (if b then LRequeue i else LNotFailed i) (t_jobs (tables w'))"
  by (auto simp: job_requeue_def act_simps sql_def Let_def with_jobs_def split: if_splits
      intro: queue_step.intros)

lemma delete_step:
  "job_delete i w = (Inr b, w') \<Longrightarrow> queue_step (t_jobs (tables w)) (LDelete i) (t_jobs (tables w'))"
  by (auto simp: job_delete_def sql_def Let_def with_jobs_def split: if_splits
      intro: queue_step.intros)

section \<open>A job is handed out once\<close>

definition no_pending :: "uuid \<Rightarrow> job_record list \<Rightarrow> bool" where
  "no_pending i rows \<longleftrightarrow> (\<forall>j\<in>set rows. \<not> claimable i j)"

lemma claimed_no_pending: "queue_step rows (LClaim i) rows' \<Longrightarrow> no_pending i rows'"
  by (auto elim!: claim_stepE in_update_whereE simp: no_pending_def claimable_def table_defs)

lemma no_pending_step:
  "queue_step rows e rows' \<Longrightarrow> no_pending i rows \<Longrightarrow> e \<notin> {LEnqueue i, LRetry i, LRequeue i} \<Longrightarrow>
     no_pending i rows'"
  by (induction rule: queue_step.induct)
    (auto simp: no_pending_def claimable_def requeueable_def new_job_def table_defs rows_affected_0
      elim!: in_update_whereE)

lemma no_pending_run:
  "queue_run rows es rows' \<Longrightarrow> no_pending i rows \<Longrightarrow>
     set es \<inter> {LEnqueue i, LRetry i, LRequeue i} = {} \<Longrightarrow> no_pending i rows'"
  by (induction rule: queue_run.induct) (auto dest: no_pending_step)

lemma no_pending_no_claim: "no_pending i rows \<Longrightarrow> \<not> queue_step rows (LClaim i) rows'"
  by (auto elim!: claim_stepE simp: no_pending_def rows_affected_def filter_empty_conv)

text \<open>C2. No job is handed to two pollers. In any interleaving of the queue's statements by any number
  of pollers, schedulers and administrators, between two successful claims of the same job the
  job was put back in the queue: it was rescheduled after a failed run, requeued by an
  administrator, or enqueued anew.\<close>

theorem claims_are_separated:
  assumes "queue_run rows (xs @ LClaim i # ys @ LClaim i # zs) rows'"
  shows "LRetry i \<in> set ys \<or> LRequeue i \<in> set ys \<or> LEnqueue i \<in> set ys"
proof (rule ccontr)
  assume "\<not> ?thesis"
  then have ys: "set ys \<inter> {LEnqueue i, LRetry i, LRequeue i} = {}" by auto
  obtain r0 r1 r2 r3 where "queue_step r0 (LClaim i) r1" "queue_run r1 ys r2" "queue_step r2 (LClaim i) r3"
    using assms by (auto simp: queue_run_append)
  then show False using claimed_no_pending no_pending_run [OF _ _ ys] no_pending_no_claim by blast
qed

theorem claims_are_separated_witness:
  "LRetry 1 \<in> set [LRetry (1::nat)] \<or> LRequeue 1 \<in> set [LRetry (1::nat)] \<or> LEnqueue 1 \<in> set [LRetry (1::nat)]"
proof -
  let ?j = "new_job 1 (RunMaintenance ''x'') 0 5 0"
  let ?r1 = "claim_rows 1 [?j]"
  let ?r2 = "retry_rows 1 1 30 ''e'' ?r1"
  let ?r3 = "claim_rows 1 ?r2"
  have "queue_step [] (LEnqueue 1) ([] @ [?j])" by (rule queue_step.enqueue) simp
  moreover have "queue_step [?j] (LClaim 1) ?r1"
    by (rule queue_step.claim) (simp add: rows_affected_def claimable_def new_job_def)
  moreover have "queue_step ?r1 (LRetry 1) ?r2" by (rule queue_step.retry)
  moreover have "queue_step ?r2 (LClaim 1) ?r3"
    by (rule queue_step.claim)
      (simp add: rows_affected_def claimable_def new_job_def table_defs update_where_def)
  ultimately have "queue_run [] ([LEnqueue 1] @ LClaim 1 # [LRetry 1] @ LClaim 1 # []) ?r3"
    by (auto intro!: queue_run.intros)
  then show ?thesis by (rule claims_are_separated)
qed

section \<open>A running job belongs to its runner\<close>

lemma running_step:
  "queue_step rows e rows' \<Longrightarrow> j \<in> set rows \<Longrightarrow> job_status j = JRunning \<Longrightarrow>
     e \<notin> {LSucceed (job_id j), LRetry (job_id j), LDead (job_id j)} \<Longrightarrow> j \<in> set rows'"
  by (induction rule: queue_step.induct)
    (auto simp: table_defs claimable_def requeueable_def deletable_def
      intro!: in_update_where_keep)

text \<open>Only its own runner moves a running job: whatever else the pollers, the scheduler and the
  administrators do to the queue, a row that is running is left exactly as it is (not claimed
  again, not requeued, not deleted) until the statement that records the outcome of its run. The
  other side of this is that a row which is running when its poller dies stays so.\<close>

theorem running_job_untouched:
  assumes "queue_run rows es rows'" "j \<in> set rows" "job_status j = JRunning"
    and "set es \<inter> {LSucceed (job_id j), LRetry (job_id j), LDead (job_id j)} = {}"
  shows "j \<in> set rows'"
  using assms by (induction rule: queue_run.induct) (auto dest: running_step)

theorem running_job_untouched_witness:
  "(new_job 1 (RunMaintenance ''x'') 0 5 0)\<lparr>job_status := JRunning\<rparr>
     \<in> set (delete_rows 1 [(new_job 1 (RunMaintenance ''x'') 0 5 0)\<lparr>job_status := JRunning\<rparr>])"
proof -
  let ?j = "(new_job 1 (RunMaintenance ''x'') 0 5 0)\<lparr>job_status := JRunning\<rparr>"
  have "queue_run [?j] [LDelete 1] (delete_rows 1 [?j])"
    by (rule queue_run.intros, rule queue_step.delete, rule queue_run.intros)
  then show ?thesis by (rule running_job_untouched) simp_all
qed

section \<open>A claimed batch\<close>

definition set_running :: "job_record \<Rightarrow> job_record" where
  "set_running j = j\<lparr>job_status := JRunning\<rparr>"

definition pending_in :: "uuid set \<Rightarrow> job_record \<Rightarrow> bool" where
  "pending_in is j \<longleftrightarrow> job_id j \<in> is \<and> job_status j = JPending"

lemma try_claim_Inr:
  "try_claim i w = (Inr n, w') \<Longrightarrow>
     n = rows_affected (claimable i) (t_jobs (tables w)) \<and> tables w' = with_jobs (claim_rows i) (tables w)"
  by (auto simp: try_claim_def sql_def Let_def split: if_splits)

lemma claim_rows_other: "c \<in> set rows \<Longrightarrow> job_id c \<noteq> i \<Longrightarrow> c \<in> set (claim_rows i rows)"
  by (auto simp: claim_rows_def claimable_def intro: in_update_where_keep)

lemma claim_rows_pending_in:
  "update_where (pending_in is) set_running (claim_rows i rows) = update_where (pending_in (insert i is)) set_running rows"
  by (auto simp: update_where_def claim_rows_def pending_in_def claimable_def set_running_def)

lemma claim_loop:
  assumes "collect cs (\<lambda>row. and_then (try_claim (job_id row)) (\<lambda>affected.
             ok (if 0 < affected then [row\<lparr>job_status := JRunning\<rparr>] else []))) w = (Inr js, w')"
    and "distinct (map job_id cs)" "set cs \<subseteq> set (t_jobs (tables w))" "\<forall>c\<in>set cs. job_status c = JPending"
  shows "js = map set_running cs \<and>
     tables w' = with_jobs (update_where (pending_in (job_id ` set cs)) set_running) (tables w)"
  using assms
proof (induction cs arbitrary: w js)
  case Nil
  then show ?case by (auto simp: act_simps with_jobs_def update_where_def pending_in_def)
next
  case (Cons c cs)
  obtain n w1 ks where c: "try_claim (job_id c) w = (Inr n, w1)"
    "js = (if 0 < n then [c\<lparr>job_status := JRunning\<rparr>] else []) @ ks"
    "collect cs (\<lambda>row. and_then (try_claim (job_id row)) (\<lambda>affected.
        ok (if 0 < affected then [row\<lparr>job_status := JRunning\<rparr>] else []))) w1 = (Inr ks, w')"
    using Cons.prems(1) by (auto simp: act_simps)
  have n: "0 < n" and t1: "tables w1 = with_jobs (claim_rows (job_id c)) (tables w)"
    using try_claim_Inr [OF c(1)] Cons.prems(3,4) rows_affected_0 [of "claimable (job_id c)" "t_jobs (tables w)"]
    by (auto simp: claimable_def)
  have "set cs \<subseteq> set (t_jobs (tables w1))"
  proof
    fix x assume "x \<in> set cs"
    then have "x \<in> set (t_jobs (tables w))" "job_id x \<in> job_id ` set cs" using Cons.prems(3) by auto
    then have "x \<in> set (t_jobs (tables w))" "job_id x \<noteq> job_id c" using Cons.prems(2) by auto
    then show "x \<in> set (t_jobs (tables w1))" by (simp add: t1 with_jobs_def claim_rows_other)
  qed
  then have "ks = map set_running cs \<and>
      tables w' = with_jobs (update_where (pending_in (job_id ` set cs)) set_running) (tables w1)"
    using Cons.IH [OF c(3)] Cons.prems(2,4) by simp
  then show ?case
    using c(2) n by (simp add: t1 with_jobs_def claim_rows_pending_in) (simp add: set_running_def)
qed

lemma due_rows_set:
  "j \<in> set (due_rows now limit rows) \<Longrightarrow> j \<in> set rows \<and> job_status j = JPending \<and> job_run_at j \<le> now"
  by (auto simp: due_rows_def dest: in_set_takeD)

lemma distinct_due_rows: "distinct (map job_id rows) \<Longrightarrow> distinct (map job_id (due_rows now limit rows))"
proof -
  assume "distinct (map job_id rows)"
  then have d: "distinct rows" "inj_on job_id (set rows)" by (simp_all add: distinct_map)
  have "distinct (due_rows now limit rows)" using d(1) by (simp add: due_rows_def)
  moreover have "inj_on job_id (set (due_rows now limit rows))"
    using d(2) by (rule inj_on_subset) (auto dest: due_rows_set)
  ultimately show ?thesis by (simp add: distinct_map)
qed

lemma sorted_due_rows: "sorted (map job_run_at (due_rows now limit rows))"
  by (simp add: due_rows_def sorted_wrt_take flip: take_map)

text \<open>A batch is the oldest due jobs and nothing else. Called with no other poller in between, a
  claim that succeeds returns the pending jobs whose time has come, oldest first and at most the
  limit, each reported as running; exactly those rows are running in the table afterwards, every
  other row and every other table is as before.\<close>

theorem claim_batch_exact:
  assumes "claim_batch now limit w = (Inr js, w')" "distinct (map job_id (t_jobs (tables w)))"
  shows "js = map set_running (due_rows now limit (t_jobs (tables w)))
    \<and> tables w' = (tables w)\<lparr>t_jobs := update_where (\<lambda>j. j \<in> set (due_rows now limit (t_jobs (tables w))))
                                        set_running (t_jobs (tables w))\<rparr>
    \<and> length js \<le> limit \<and> sorted (map job_run_at js) \<and> list_all (\<lambda>j. job_run_at j \<le> now) js"
proof -
  let ?rows = "t_jobs (tables w)" and ?due = "due_rows now limit (t_jobs (tables w))"
  obtain w1 where w1: "select (\<lambda>d. due_rows now limit (t_jobs d)) w = (Inr ?due, w1)" "tables w1 = tables w"
    "collect ?due (\<lambda>row. and_then (try_claim (job_id row)) (\<lambda>affected.
       ok (if 0 < affected then [row\<lparr>job_status := JRunning\<rparr>] else []))) w1 = (Inr js, w')"
    using assms(1) by (auto simp: claim_batch_def act_simps dest: select_Inr)
  have loop: "js = map set_running ?due \<and>
      tables w' = with_jobs (update_where (pending_in (job_id ` set ?due)) set_running) (tables w)"
    using claim_loop [OF w1(3)] assms(2) by (auto simp: w1(2) distinct_due_rows dest: due_rows_set)
  have "pending_in (job_id ` set ?due) j \<longleftrightarrow> j \<in> set ?due" if "j \<in> set ?rows" for j
  proof
    assume "pending_in (job_id ` set ?due) j"
    then obtain x where x: "x \<in> set ?due" "job_id x = job_id j" by (auto simp: pending_in_def)
    then have "x = j" using that assms(2) due_rows_set [OF x(1)] by (auto simp: distinct_map inj_on_def)
    then show "j \<in> set ?due" using x(1) by simp
  next
    assume "j \<in> set ?due"
    then show "pending_in (job_id ` set ?due) j" using due_rows_set by (auto simp: pending_in_def)
  qed
  then have "update_where (pending_in (job_id ` set ?due)) set_running ?rows
      = update_where (\<lambda>j. j \<in> set ?due) set_running ?rows"
    by (simp add: update_where_def)
  then have "tables w' = (tables w)\<lparr>t_jobs := update_where (\<lambda>j. j \<in> set ?due) set_running ?rows\<rparr>"
    using loop by (simp add: with_jobs_def)
  moreover have "length js \<le> limit" using loop by (simp add: due_rows_def)
  moreover have "map job_run_at js = map job_run_at ?due" using loop by (simp add: set_running_def comp_def)
  moreover have "list_all (\<lambda>j. job_run_at j \<le> now) js"
    using loop by (auto simp: list_all_iff set_running_def dest: due_rows_set)
  ultimately show ?thesis using loop sorted_due_rows by metis
qed

section \<open>A job that keeps failing\<close>

definition lone_world :: "job_record list \<Rightarrow> int \<Rightarrow> world" where
  "lone_world rows t = \<lparr>tables = empty_db\<lparr>t_jobs := rows\<rparr>, statement_fails = [], clock = t, next_uuid = 0, git_calls = []\<rparr>"

theorem claim_batch_exact_witness:
  "let j = new_job 1 (RunMaintenance ''a'') 5 3 0; k = new_job 2 (RunMaintenance ''b'') 99 3 0;
       w = lone_world [j, k] 10; w' = w\<lparr>tables := (tables w)\<lparr>t_jobs := [set_running j, k]\<rparr>\<rparr> in
   [set_running j] = map set_running (due_rows 10 20 (t_jobs (tables w)))
    \<and> tables w' = (tables w)\<lparr>t_jobs := update_where (\<lambda>j. j \<in> set (due_rows 10 20 (t_jobs (tables w))))
                                        set_running (t_jobs (tables w))\<rparr>
    \<and> length [set_running j] \<le> 20 \<and> sorted (map job_run_at [set_running j])
    \<and> list_all (\<lambda>j. job_run_at j \<le> 10) [set_running j]"
proof -
  let ?j = "new_job 1 (RunMaintenance ''a'') 5 3 0" and ?k = "new_job 2 (RunMaintenance ''b'') 99 3 0"
  let ?w = "lone_world [?j, ?k] 10"
  let ?w' = "?w\<lparr>tables := (tables ?w)\<lparr>t_jobs := [set_running ?j, ?k]\<rparr>\<rparr>"
  have "claim_batch 10 20 ?w = (Inr [set_running ?j], ?w')"
    by (simp add: claim_batch_def due_rows_def lone_world_def run_simps new_job_def try_claim_def with_jobs_def
        claim_rows_def claimable_def update_where_def rows_affected_def set_running_def)
  moreover have "distinct (map job_id (t_jobs (tables ?w)))" by (simp add: lone_world_def new_job_def)
  ultimately show ?thesis unfolding Let_def by (rule claim_batch_exact)
qed

text \<open>A claim that fails half-way leaves its first jobs running with nobody to run them (and by the
  property above nothing but their runner would move them).\<close>

theorem failed_claim_strands_job:
  "let j = new_job 1 (RunMaintenance ''a'') 5 3 0; k = new_job 2 (RunMaintenance ''b'') 6 3 0;
       w = (lone_world [j, k] 10)\<lparr>statement_fails := [False, False, True]\<rparr>
   in fst (claim_batch 10 20 w) = Inl DbOther \<and> t_jobs (tables (snd (claim_batch 10 20 w))) = [set_running j, k]"
  by (simp add: claim_batch_def due_rows_def lone_world_def new_job_def try_claim_def with_jobs_def Let_def
        claim_rows_def claimable_def update_where_def rows_affected_def set_running_def
        ok_def and_then_def sql_def select_def)

lemma poll_failing_round:
  assumes w: "statement_fails w = []" "t_jobs (tables w) = [j]" "job_status j = JPending"
      "job_run_at j \<le> clock w" "0 < limit"
    and h: "handlers (payload_kind (job_payload j)) = Some h" "\<And>w. h (job_payload j) w = (Inl e, w)"
  shows "poll_once fl handlers jitter limit w =
     (Inr (), w\<lparr>tables := (tables w)\<lparr>t_jobs :=
        [if job_max_attempts j \<le> job_attempts j + 1
         then j\<lparr>job_status := JFailed, job_attempts := job_attempts j + 1, job_last_error := Some e\<rparr>
         else j\<lparr>job_status := JPending, job_attempts := job_attempts j + 1,
                job_run_at := next_retry_at fl (job_attempts j + 1) jitter (clock w),
                job_last_error := Some e\<rparr>]\<rparr>\<rparr>)"
proof -
  obtain l where l: "limit = Suc l" using w(5) by (cases limit) auto
  have "claim_batch (clock w) limit w =
      (Inr [set_running j], w\<lparr>tables := (tables w)\<lparr>t_jobs := [set_running j]\<rparr>\<rparr>)"
    using w by (simp add: l claim_batch_def due_rows_def run_simps try_claim_def with_jobs_def
        claim_rows_def claimable_def update_where_def rows_affected_def set_running_def)
  then show ?thesis
    using w h by (simp add: poll_once_def run_simps run_one_def set_running_def mark_dead_def
        mark_retry_def with_jobs_def dead_rows_def retry_rows_def update_where_def Let_def)
qed

lemma poll_nothing_due:
  assumes "statement_fails w = []" "t_jobs (tables w) = [j]" "job_status j = JFailed"
  shows "poll_once fl handlers jitter limit w = (Inr (), w)"
  using assms by (simp add: poll_once_def claim_batch_def due_rows_def run_simps)

text \<open>The poller turns once every half hour, at \<^verbatim>\<open>t\<close>, \<^verbatim>\<open>t + 1800\<close>, and so on.\<close>

fun polled :: "(rat \<Rightarrow> rat) \<Rightarrow> handlers \<Rightarrow> rat \<Rightarrow> nat \<Rightarrow> int \<Rightarrow> nat \<Rightarrow> world \<Rightarrow> world" where
  "polled fl handlers jitter limit t 0 w = w"
| "polled fl handlers jitter limit t (Suc n) w =
     snd (poll_once fl handlers jitter limit ((polled fl handlers jitter limit t n w)\<lparr>clock := t + 1800 * int n\<rparr>))"

lemma polled_failing:
  assumes fl_mono: "\<And>x y. x \<le> y \<Longrightarrow> fl x \<le> fl y"
    and fl_exact: "\<And>k::int. 0 \<le> k \<Longrightarrow> k \<le> 3600 \<Longrightarrow> fl (of_int k / 2) = of_int k / 2"
    and h: "handlers (payload_kind p) = Some h" "\<And>w. h p w = (Inl e, w)"
    and m: "0 < m" and limit: "0 < limit"
    and w: "statement_fails w = []" "t_jobs (tables w) = [new_job i p t m c]"
  shows "\<exists>j. t_jobs (tables (polled fl handlers jitter limit t n w)) = [j]
     \<and> statement_fails (polled fl handlers jitter limit t n w) = []
     \<and> job_payload j = p \<and> job_max_attempts j = m \<and> job_id j = i
     \<and> (if n < unat m then job_status j = JPending \<and> job_attempts j = of_nat n \<and> job_run_at j \<le> t + 1800 * int n
        else job_status j = JFailed \<and> job_attempts j = m \<and> job_last_error j = Some e)"
proof (induction n)
  case 0
  have "0 < unat m" using m by (simp add: word_less_nat_alt)
  then show ?case using w by (simp add: new_job_def)
next
  case (Suc n)
  define u where "u = (polled fl handlers jitter limit t n w)\<lparr>clock := t + 1800 * int n\<rparr>"
  obtain j where j: "t_jobs (tables u) = [j]" "statement_fails u = []" "clock u = t + 1800 * int n"
    "job_payload j = p" "job_max_attempts j = m" "job_id j = i"
    "if n < unat m then job_status j = JPending \<and> job_attempts j = of_nat n \<and> job_run_at j \<le> t + 1800 * int n
     else job_status j = JFailed \<and> job_attempts j = m \<and> job_last_error j = Some e"
    using Suc.IH by (auto simp: u_def)
  have step: "polled fl handlers jitter limit t (Suc n) w = snd (poll_once fl handlers jitter limit u)"
    by (simp add: u_def)
  show ?case
  proof (cases "n < unat m")
    case False
    then show ?thesis
      using j poll_nothing_due [of u j fl handlers jitter limit] unfolding step by simp
  next
    case True
    have sn: "of_nat n + 1 = (of_nat (Suc n) :: 32 word)" by simp
    have "unat m < 2 ^ LENGTH(32)" by (rule unsigned_less)
    then have bound: "Suc n < 2 ^ LENGTH(32)" using True by simp
    have last: "m \<le> of_nat n + 1 \<longleftrightarrow> \<not> Suc n < unat m"
    proof -
      have "unat (of_nat n + 1 :: 32 word) = Suc n"
        unfolding sn using bound by (simp only: unat_of_nat mod_less)
      then show ?thesis using True by (simp add: word_le_nat_alt not_less)
    qed
    have round: "poll_once fl handlers jitter limit u =
       (Inr (), u\<lparr>tables := (tables u)\<lparr>t_jobs :=
        [if m \<le> of_nat n + 1
         then j\<lparr>job_status := JFailed, job_attempts := of_nat n + 1, job_last_error := Some e\<rparr>
         else j\<lparr>job_status := JPending, job_attempts := of_nat n + 1,
                job_run_at := next_retry_at fl (of_nat n + 1) jitter (clock u),
                job_last_error := Some e\<rparr>]\<rparr>\<rparr>)"
      using poll_failing_round [of u j limit handlers h e fl jitter] j True h limit by simp
    have "next_retry_at fl (of_nat n + 1) jitter (clock u) \<le> t + 1800 * int (Suc n)"
      using next_retry_bounds [of fl "clock u" "of_nat n + 1" jitter] fl_mono fl_exact
        backoff_range(2) [of "of_nat n + 1"] j(3) by simp
    moreover have "of_nat n + 1 = m" if "\<not> Suc n < unat m"
    proof -
      have "Suc n = unat m" using that True by simp
      then show ?thesis unfolding sn by simp
    qed
    ultimately show ?thesis
      unfolding step round using j last by auto
  qed
qed

text \<open>C39. The retry budget is exact. Take a queue that holds one fresh job with a positive budget, a
  handler that fails on it always and leaves the tables as they are, a poller that claims at least one
  job a turn, and no failing statement. The job is run once per poll while its budget lasts, each time put
  back with one more attempt and due again before the next half-hour poll, and on the last attempt
  it is dead-lettered with the error, where it stays: after any number of polls it is pending with
  that many attempts if these are fewer than the budget, and failed with exactly the budget otherwise. The
  laws on rounding are those of double-precision numbers: it is monotone and exact on halves up to 1800.\<close>

theorem failing_job_dead_lettered:
  assumes "\<And>x y. x \<le> y \<Longrightarrow> fl x \<le> fl y"
    and "\<And>k::int. 0 \<le> k \<Longrightarrow> k \<le> 3600 \<Longrightarrow> fl (of_int k / 2) = of_int k / 2"
    and "handlers (payload_kind p) = Some h" "\<And>w. h p w = (Inl e, w)"
    and "0 < m" "0 < limit"
    and "statement_fails w = []" "t_jobs (tables w) = [new_job i p t m c]"
  shows "\<exists>j. t_jobs (tables (polled fl handlers jitter limit t n w)) = [j]
     \<and> (if n < unat m then job_status j = JPending \<and> job_attempts j = of_nat n
        else job_status j = JFailed \<and> job_attempts j = m \<and> job_last_error j = Some e)"
  using polled_failing [of fl handlers p h e m limit w i t c jitter n, OF assms] by (auto split: if_splits)

theorem failing_job_dead_lettered_witness:
  "\<exists>j. t_jobs (tables (polled (\<lambda>x. x) (\<lambda>_. Some (\<lambda>_. err ''boom'')) (1 / 3) 20 0 7
           (lone_world [new_job 1 (RunMaintenance ''x'') 0 default_max_attempts 0] 0))) = [j]
     \<and> (if 7 < unat default_max_attempts then job_status j = JPending \<and> job_attempts j = of_nat 7
        else job_status j = JFailed \<and> job_attempts j = default_max_attempts \<and> job_last_error j = Some ''boom'')"
  by (rule failing_job_dead_lettered [where h = "\<lambda>_. err ''boom''"])
    (simp_all add: err_def default_max_attempts_def lone_world_def)

section \<open>A scheduler tick\<close>

lemma jobs_enqueue_Inr:
  assumes "jobs_enqueue p w = (Inr u, w')"
  shows "tables w' = with_jobs (\<lambda>rows. rows @ [new_job (next_uuid w) p (clock w) default_max_attempts (clock w)]) (tables w)
     \<and> clock w' = clock w"
  using assms by (auto simp: jobs_enqueue_def job_enqueue_def act_simps sql_def Let_def split: if_splits)

lemma mark_ran_Inr:
  "mark_ran name last_run next_run st detail w = (Inr u, w') \<Longrightarrow>
     tables w' = (tables w)\<lparr>t_scheduled := ran_rows name last_run next_run st detail (t_scheduled (tables w))\<rparr>
     \<and> clock w' = clock w"
  using execute_Inr unfolding mark_ran_def by fastforce

definition rescheduled :: "int \<Rightarrow> scheduled_job \<Rightarrow> scheduled_job" where
  "rescheduled now t =
     t\<lparr>sj_last_run_at := Some now, sj_next_run_at := next_due now t, sj_last_status := Some ''queued'',
       sj_last_detail := None\<rparr>"

lemma ran_rows_other: "x \<in> set rows \<Longrightarrow> sj_name x \<noteq> n \<Longrightarrow> x \<in> set (ran_rows n a b c d rows)"
  by (auto simp: ran_rows_def intro: in_update_where_keep)

lemma run_due_loop:
  assumes "for_each ts (\<lambda>task.
           and_then (jobs_enqueue (RunMaintenance (sj_name task))) (\<lambda>_.
             mark_ran (sj_name task) now (next_due now task) ''queued'' None)) w = (Inr u, w')"
    and "distinct (map sj_name ts)" "set ts \<subseteq> set (t_scheduled (tables w))"
    and "distinct (map sj_name (t_scheduled (tables w)))" "clock w = now"
  shows "map job_payload (t_jobs (tables w')) =
           map job_payload (t_jobs (tables w)) @ map (\<lambda>t. RunMaintenance (sj_name t)) ts
     \<and> t_scheduled (tables w') =
           update_where (\<lambda>t. sj_name t \<in> sj_name ` set ts) (rescheduled now) (t_scheduled (tables w))"
  using assms
proof (induction ts arbitrary: w)
  case Nil
  then show ?case by (auto simp: act_simps update_where_def)
next
  case (Cons a ts)
  obtain w1 w2 where e: "jobs_enqueue (RunMaintenance (sj_name a)) w = (Inr (), w1)"
    and m: "mark_ran (sj_name a) now (next_due now a) ''queued'' None w1 = (Inr (), w2)"
    and r: "for_each ts (\<lambda>task.
           and_then (jobs_enqueue (RunMaintenance (sj_name task))) (\<lambda>_.
             mark_ran (sj_name task) now (next_due now task) ''queued'' None)) w2 = (Inr u, w')"
    using Cons.prems(1) by (auto simp: act_simps)
  let ?rows = "t_scheduled (tables w)"
  have s2: "t_scheduled (tables w2) = ran_rows (sj_name a) now (next_due now a) ''queued'' None ?rows"
    using mark_ran_Inr [OF m] jobs_enqueue_Inr [OF e] by (simp add: with_jobs_def)
  have unique: "x = a" if "x \<in> set ?rows" "sj_name x = sj_name a" for x
    using that Cons.prems(3,4) by (auto simp: distinct_map inj_on_def)
  have s2': "t_scheduled (tables w2) = update_where (\<lambda>t. sj_name t = sj_name a) (rescheduled now) ?rows"
    unfolding s2 ran_rows_def update_where_def
    by (rule map_cong) (auto dest: unique simp: rescheduled_def)
  have sub: "set ts \<subseteq> set (t_scheduled (tables w2))"
  proof
    fix x assume x: "x \<in> set ts"
    then have "sj_name x \<in> sj_name ` set ts" by simp
    then have "sj_name x \<noteq> sj_name a" using Cons.prems(2) by auto
    then show "x \<in> set (t_scheduled (tables w2))"
      unfolding s2 using x Cons.prems(3) by (auto intro: ran_rows_other)
  qed
  have "map sj_name (t_scheduled (tables w2)) = map sj_name ?rows"
    unfolding s2' by (rule map_update_where) (simp add: rescheduled_def)
  then have IH: "map job_payload (t_jobs (tables w')) =
        map job_payload (t_jobs (tables w2)) @ map (\<lambda>t. RunMaintenance (sj_name t)) ts"
      "t_scheduled (tables w') =
        update_where (\<lambda>t. sj_name t \<in> sj_name ` set ts) (rescheduled now) (t_scheduled (tables w2))"
    using Cons.IH [OF r] Cons.prems(2,4,5) sub mark_ran_Inr [OF m] jobs_enqueue_Inr [OF e] by simp_all
  have "sj_name a \<notin> sj_name ` set ts" using Cons.prems(2) by simp
  then have "update_where (\<lambda>t. sj_name t \<in> sj_name ` set ts) (rescheduled now)
        (update_where (\<lambda>t. sj_name t = sj_name a) (rescheduled now) ?rows)
      = update_where (\<lambda>t. sj_name t \<in> sj_name ` set (a # ts)) (rescheduled now) ?rows"
    by (auto simp: update_where_def rescheduled_def)
  moreover have "map job_payload (t_jobs (tables w2)) = map job_payload (t_jobs (tables w)) @ [RunMaintenance (sj_name a)]"
    using mark_ran_Inr [OF m] jobs_enqueue_Inr [OF e] by (simp add: with_jobs_def new_job_def)
  ultimately show ?case using IH by (simp add: s2')
qed

lemma set_due_tasks: "set (due_tasks now rows) = {t \<in> set rows. sj_enabled t \<and> sj_next_run_at t \<le> now}"
  by (auto simp: due_tasks_def)

lemma next_due_later: "in_i64 (now + 60) \<Longrightarrow> now + 60 \<le> next_due now t"
  unfolding next_due_def
  by (metis add_left_mono max.cobounded1 sat_i64_id sat_i64_mono)

text \<open>A scheduler tick enqueues each due task once and settles. When a tick succeeds, exactly one
  maintenance job per enabled task whose time has come was added to the queue, in name order, and
  every task that ran is due again no sooner than a minute later: a second tick within that minute
  finds none of them due, however small the interval an administrator stored.\<close>

theorem run_due_once_per_task:
  assumes "run_due w = (Inr u, w')" "distinct (map sj_name (t_scheduled (tables w)))"
    and "in_i64 (clock w + 60)" "later < clock w + 60"
  shows "map job_payload (t_jobs (tables w')) = map job_payload (t_jobs (tables w))
           @ map (\<lambda>t. RunMaintenance (sj_name t)) (due_tasks (clock w) (t_scheduled (tables w)))
     \<and> (\<forall>t\<in>set (due_tasks (clock w) (t_scheduled (tables w))).
          sj_name t \<notin> sj_name ` set (due_tasks later (t_scheduled (tables w'))))"
proof -
  let ?now = "clock w" and ?rows = "t_scheduled (tables w)"
  let ?due = "due_tasks ?now ?rows"
  obtain w1 where s: "select (\<lambda>d. due_tasks ?now (t_scheduled d)) w = (Inr ?due, w1)"
      "tables w1 = tables w" "clock w1 = ?now"
    and loop: "for_each ?due (\<lambda>task.
           and_then (jobs_enqueue (RunMaintenance (sj_name task))) (\<lambda>_.
             mark_ran (sj_name task) ?now (next_due ?now task) ''queued'' None)) w1 = (Inr u, w')"
    using assms(1) by (auto simp: run_due_def act_simps dest: select_Inr)
  have d: "distinct (map sj_name ?due)"
  proof -
    have "distinct ?due" using assms(2) by (simp add: due_tasks_def distinct_map)
    moreover have "inj_on sj_name (set ?due)"
      using assms(2) by (auto simp: distinct_map set_due_tasks intro: inj_on_subset)
    ultimately show ?thesis by (simp add: distinct_map)
  qed
  have L: "map job_payload (t_jobs (tables w')) = map job_payload (t_jobs (tables w)) @
        map (\<lambda>t. RunMaintenance (sj_name t)) ?due"
      "t_scheduled (tables w') = update_where (\<lambda>t. sj_name t \<in> sj_name ` set ?due) (rescheduled ?now) ?rows"
    using run_due_loop [OF loop] d s assms(2) by (auto simp: set_due_tasks)
  have "sj_name t \<notin> sj_name ` set (due_tasks later (t_scheduled (tables w')))" if t: "t \<in> set ?due" for t
  proof
    assume "sj_name t \<in> sj_name ` set (due_tasks later (t_scheduled (tables w')))"
    then obtain x where x: "x \<in> set (t_scheduled (tables w'))" "sj_next_run_at x \<le> later" "sj_name x = sj_name t"
      by (auto simp: set_due_tasks)
    then obtain r where "x = rescheduled ?now r"
      unfolding L(2) using t by (auto elim!: in_update_whereE)
    then have "?now + 60 \<le> sj_next_run_at x" by (simp add: rescheduled_def next_due_later assms(3))
    then show False using x(2) assms(4) by simp
  qed
  then show ?thesis using L(1) by blast
qed

definition sample_task :: "string \<Rightarrow> int \<Rightarrow> scheduled_job" where
  "sample_task name due =
     \<lparr>sj_name = name, sj_interval_seconds = 5, sj_enabled = True, sj_next_run_at = due,
      sj_last_run_at = None, sj_last_status = None, sj_last_detail = None\<rparr>"

definition sample_tick :: world where
  "sample_tick =
     \<lparr>tables = empty_db\<lparr>t_scheduled := [sample_task ''b'' 0, sample_task ''a'' 9, sample_task ''c'' 99]\<rparr>,
      statement_fails = [], clock = 50, next_uuid = 0, git_calls = []\<rparr>"

theorem run_due_once_per_task_witness:
  "map job_payload (t_jobs (tables (snd (run_due sample_tick)))) = [RunMaintenance ''a'', RunMaintenance ''b'']
     \<and> ''a'' \<notin> sj_name ` set (due_tasks 109 (t_scheduled (tables (snd (run_due sample_tick)))))"
proof -
  have "fst (run_due sample_tick) = Inr ()" by code_simp
  then have run: "run_due sample_tick = (Inr (), snd (run_due sample_tick))" by (metis prod.collapse)
  have due: "due_tasks (clock sample_tick) (t_scheduled (tables sample_tick)) = [sample_task ''a'' 9, sample_task ''b'' 0]"
    "t_jobs (tables sample_tick) = []"
    by code_simp+
  have "distinct (map sj_name (t_scheduled (tables sample_tick)))" "in_i64 (clock sample_tick + 60)"
    "109 < clock sample_tick + 60"
    by (simp_all add: sample_tick_def sample_task_def in_i64_def i64_min_def i64_max_def)
  note run_due_once_per_task [OF run this, unfolded due]
  then show ?thesis by (simp add: sample_task_def)
qed

end
