(* ===== verification/Lfs.thy ===== *)
theory Lfs
  imports Git_Access
begin

text \<open>
  Large files (\<^verbatim>\<open>edda-app/src/lfs/mod.rs\<close>, \<^verbatim>\<open>lfs/transfer_auth.rs\<close>) with the statements of
  \<^verbatim>\<open>edda-db/src/lfs_repo.rs\<close>: the batch endpoint hands out transfer tokens behind the same gates as the
  git transports, the transfer endpoints accept exactly such a token, and locks coordinate edits. A
  stored object is a file under the repository's identity and the object's id; the state is the world
  and these files. A JSON body is the value it decodes to, and \<open>None\<close> if it does not.
\<close>

section \<open>Statements\<close>

definition lfs_object_of :: "uuid \<Rightarrow> string \<Rightarrow> db \<Rightarrow> lfs_object option" where
  "lfs_object_of rid oid d = find (\<lambda>x. lo_repository_id x = rid \<and> lo_oid x = oid) (t_lfs_objects d)"

definition find_lfs_object :: "uuid \<Rightarrow> string \<Rightarrow> (db_error, lfs_object option) act" where
  "find_lfs_object rid oid = select (lfs_object_of rid oid)"

text \<open>A conflicting row is left alone.\<close>

definition insert_lfs_object :: "uuid \<Rightarrow> string \<Rightarrow> int \<Rightarrow> string \<Rightarrow> (db_error, unit) act" where
  "insert_lfs_object rid oid bytes key =
     sql (\<lambda>d.
       if lfs_object_of rid oid d \<noteq> None then Inr ((), d)
       else if repo_by_id rid d = None then Inl ForeignKeyViolation
       else Inr ((), d\<lparr>t_lfs_objects := t_lfs_objects d @
              [\<lparr>lo_repository_id = rid, lo_oid = oid, lo_size_bytes = bytes, lo_storage_key = key\<rparr>]\<rparr>))"

datatype create_lock_error = AlreadyLocked string | CreateLockDb db_error

definition insert_lock_row :: "lfs_lock \<Rightarrow> db \<Rightarrow> db_error + (unit \<times> db)" where
  "insert_lock_row l d =
     (if list_ex (\<lambda>x. ll_id x = ll_id l \<or> (ll_repository_id x = ll_repository_id l \<and> ll_path x = ll_path l)) (t_lfs_locks d)
      then Inl UniqueViolation
      else if repo_by_id (ll_repository_id l) d = None \<or> \<not> user_exists (ll_owner_id l) d then Inl ForeignKeyViolation
      else Inr ((), d\<lparr>t_lfs_locks := t_lfs_locks d @ [l]\<rparr>))"

definition lfs_create_lock :: "uuid \<Rightarrow> uuid \<Rightarrow> string \<Rightarrow> uuid \<Rightarrow> (create_lock_error, unit) act" where
  "lfs_create_lock i rid path owner =
     and_then now_unix (\<lambda>now.
       map_err (\<lambda>e. if e = UniqueViolation then AlreadyLocked path else CreateLockDb e)
         (sql (insert_lock_row
           \<lparr>ll_id = i, ll_repository_id = rid, ll_path = path, ll_owner_id = owner, ll_created_at = now\<rparr>)))"

definition lock_by_path :: "uuid \<Rightarrow> string \<Rightarrow> db \<Rightarrow> lfs_lock option" where
  "lock_by_path rid path d = find (\<lambda>l. ll_repository_id l = rid \<and> ll_path l = path) (t_lfs_locks d)"

definition lock_by_id :: "uuid \<Rightarrow> db \<Rightarrow> lfs_lock option" where
  "lock_by_id i d = find (\<lambda>l. ll_id l = i) (t_lfs_locks d)"

definition locks_of :: "uuid \<Rightarrow> db \<Rightarrow> lfs_lock list" where
  "locks_of rid d = sort_key ll_created_at (filter (\<lambda>l. ll_repository_id l = rid) (t_lfs_locks d))"

definition delete_lock :: "uuid \<Rightarrow> (db_error, bool) act" where
  "delete_lock i =
     sql (\<lambda>d. Inr (0 < rows_affected (\<lambda>l. ll_id l = i) (t_lfs_locks d),
                   d\<lparr>t_lfs_locks := delete_where (\<lambda>l. ll_id l = i) (t_lfs_locks d)\<rparr>))"

section \<open>Transfer tokens\<close>

datatype transfer_action = Upload | Download

fun action_text :: "transfer_action \<Rightarrow> string" where
  "action_text Upload = ''upload''"
| "action_text Download = ''download''"

definition action_of_text :: "string \<Rightarrow> transfer_action option" where
  "action_of_text s = (if s = ''upload'' then Some Upload else if s = ''download'' then Some Download else None)"

definition transfer_token_ttl :: int where "transfer_token_ttl = 900"

definition purpose_lfs_transfer :: string where "purpose_lfs_transfer = ''lfs-transfer''"

definition transfer_claims :: "string \<Rightarrow> string \<Rightarrow> transfer_action \<Rightarrow> int \<Rightarrow> json" where
  "transfer_claims repo oid action expiry =
     JObj [(''repo'', JStr repo), (''oid'', JStr oid), (''action'', JStr (action_text action)), (''exp'', JNum expiry)]"

definition read_transfer_claims :: "json \<Rightarrow> (string \<times> string \<times> transfer_action) option" where
  "read_transfer_claims j =
     (case (json_field ''repo'' j, json_field ''oid'' j, json_field ''action'' j, json_field ''exp'' j) of
        (Some (JStr repo), Some (JStr oid), Some (JStr a), Some (JNum e)) \<Rightarrow>
          if 0 \<le> e \<and> e < 2 ^ 64 then map_option (\<lambda>action. (repo, oid, action)) (action_of_text a) else None
      | _ \<Rightarrow> None)"

definition transfer_issue :: "auth_env \<Rightarrow> string \<Rightarrow> string \<Rightarrow> transfer_action \<Rightarrow> ('e, string) act" where
  "transfer_issue env repo oid action =
     and_then now_unix (\<lambda>now.
       ok (jwt_encode env (signing_secret env purpose_lfs_transfer)
             (transfer_claims repo oid action (now + transfer_token_ttl))))"

definition transfer_verify :: "auth_env \<Rightarrow> int \<Rightarrow> string \<Rightarrow> string \<Rightarrow> string \<Rightarrow> transfer_action \<Rightarrow> bool" where
  "transfer_verify env now tok repo oid action \<longleftrightarrow>
     Option.bind (jwt_decode env (signing_secret env purpose_lfs_transfer) now tok) read_transfer_claims
       = Some (repo, oid, action)"

section \<open>The batch endpoint\<close>

definition is_valid_oid :: "string \<Rightarrow> bool" where
  "is_valid_oid oid \<longleftrightarrow> length oid = 64 \<and> list_all (\<lambda>c. c \<in> set ''0123456789abcdefABCDEF'') oid"

definition sha256_hex :: "auth_env \<Rightarrow> string \<Rightarrow> string" where
  "sha256_hex env bytes = hex_bytes (sha256 env bytes)"

definition storage_key :: "string \<Rightarrow> string" where
  "storage_key oid =
     (if 4 \<le> length oid then take 2 oid @ ''/'' @ take 2 (drop 2 oid) @ ''/'' @ oid else oid)"

record batch_action =
  ba_href :: string
  ba_token :: string
  ba_expires_in :: int

record batch_object =
  bo_oid :: string
  bo_size :: int
  bo_upload :: "batch_action option"
  bo_download :: "batch_action option"
  bo_error :: "(nat \<times> string) option"

definition transfer_action_for :: "string \<Rightarrow> string \<Rightarrow> batch_action" where
  "transfer_action_for tok href = \<lparr>ba_href = href, ba_token = tok, ba_expires_in = 900\<rparr>"

definition batch_one ::
  "auth_env \<Rightarrow> string \<Rightarrow> uuid \<Rightarrow> string \<Rightarrow> bool \<Rightarrow> string \<times> int \<Rightarrow> ('e, batch_object list) act" where
  "batch_one env identity rid href_base is_upload ob =
     (case ob of (oid, claimed) \<Rightarrow>
        let none = \<lparr>bo_oid = oid, bo_size = claimed, bo_upload = None, bo_download = None, bo_error = None\<rparr> in
        if \<not> is_valid_oid oid then ok [none\<lparr>bo_error := Some (422, ''invalid oid'')\<rparr>]
        else
          and_then (outcome (find_lfs_object rid oid)) (\<lambda>res.
            case (is_upload, case res of Inr found \<Rightarrow> found | Inl _ \<Rightarrow> None) of
              (True, Some _) \<Rightarrow> ok [none]
            | (True, None) \<Rightarrow>
                and_then (transfer_issue env identity oid Upload) (\<lambda>tok.
                  ok [none\<lparr>bo_upload := Some (transfer_action_for tok (href_base @ oid))\<rparr>])
            | (False, Some found) \<Rightarrow>
                and_then (transfer_issue env identity oid Download) (\<lambda>tok.
                  ok [none\<lparr>bo_size := lo_size_bytes found,
                           bo_download := Some (transfer_action_for tok (href_base @ oid))\<rparr>])
            | (False, None) \<Rightarrow> ok [none\<lparr>bo_error := Some (404, ''object does not exist'')\<rparr>]))"

datatype lfs_reply =
    LfsHttp http_reply
  | LfsBatch "batch_object list"
  | LfsBytes string
  | LfsLocked uuid string
  | LfsConflict string
  | LfsLocks "lfs_lock list"
  | LfsVerified "lfs_lock list" "lfs_lock list"
  | LfsUnlocked lfs_lock
  | LfsStored
  | LfsFailed db_error

definition plain :: "nat \<Rightarrow> string \<Rightarrow> lfs_reply" where
  "plain status body = LfsHttp (reply_with status body)"

definition lfs_named :: "string \<Rightarrow> string \<Rightarrow> (lfs_reply, string \<times> string) act" where
  "lfs_named owner repo = or_err (LfsHttp (not_found_response owner repo)) (repo_names owner repo)"

definition lfs_found :: "string \<Rightarrow> string \<Rightarrow> (lfs_reply, repository) act" where
  "lfs_found owner name = map_err LfsHttp (found_repo owner name)"

definition lfs_write :: "'o git_server \<Rightarrow> git_config \<Rightarrow> http_auth \<Rightarrow> string \<Rightarrow> repository \<Rightarrow> (lfs_reply, unit) act" where
  "lfs_write srv cfg auth owner r = map_err LfsHttp (require_write_access srv cfg auth owner r)"

definition lfs_read :: "'o git_server \<Rightarrow> git_config \<Rightarrow> http_auth \<Rightarrow> string \<Rightarrow> repository \<Rightarrow> (lfs_reply, unit) act" where
  "lfs_read srv cfg auth owner r = map_err LfsHttp (require_read_access srv cfg auth owner r)"

definition lfs_batch ::
  "'o git_server \<Rightarrow> git_config \<Rightarrow> http_auth \<Rightarrow> string \<Rightarrow> string \<Rightarrow> string \<Rightarrow> (string \<times> (string \<times> int) list) option
     \<Rightarrow> (lfs_reply, lfs_reply) act" where
  "lfs_batch srv cfg auth base owner repo body =
     and_then (lfs_named owner repo) (\<lambda>(identity, name).
       and_then (or_err (plain 400 []) body) (\<lambda>(operation, objects).
         and_then (lfs_found owner name) (\<lambda>r.
           and_then (if operation = ''upload'' then lfs_write srv cfg auth owner r else lfs_read srv cfg auth owner r) (\<lambda>_.
             and_then (collect objects (batch_one (srv_auth srv) identity (repo_id r)
                 (base @ ''/'' @ owner @ ''/'' @ name @ ''.git/info/lfs/objects/'') (operation = ''upload''))) (\<lambda>replies.
               ok (LfsBatch replies))))))"

section \<open>The transfer endpoints\<close>

text \<open>The stored files, by the repository's identity and the object's id. A failed write says what it left
  at the object's path.\<close>

type_synonym lfs_files = "string \<Rightarrow> string \<Rightarrow> string option"

record lfs_io =
  io_mkdir_fails :: "string \<Rightarrow> string \<Rightarrow> string option"
  io_write_fails :: "string \<Rightarrow> string \<Rightarrow> (string \<times> string option) option"
  io_read_fails :: "string \<Rightarrow> string \<Rightarrow> bool"

record lfs_host =
  lh_world :: world
  lh_files :: lfs_files

definition bearer_token :: "string option \<Rightarrow> string option" where
  "bearer_token header =
     Option.bind header (\<lambda>value.
       if list_all (\<lambda>c. c = CHR 0x09 \<or> 32 \<le> (of_char c :: nat) \<and> (of_char c :: nat) < 127) value
       then strip_prefix ''Bearer '' value else None)"

text \<open>An upload up to the file: the identity, the repository and the bytes that are to be stored.\<close>

definition transfer_allowed ::
  "auth_env \<Rightarrow> string option \<Rightarrow> string \<Rightarrow> string \<Rightarrow> transfer_action \<Rightarrow> (lfs_reply, unit) act" where
  "transfer_allowed env header identity oid action =
     and_then (ensure (is_valid_oid oid) (plain 400 ''invalid oid'')) (\<lambda>_.
       and_then (or_err (plain 401 []) (bearer_token header)) (\<lambda>tok.
         and_then now_unix (\<lambda>now. ensure (transfer_verify env now tok identity oid action) (plain 401 []))))"

definition upload_gate ::
  "auth_env \<Rightarrow> nat \<Rightarrow> string option \<Rightarrow> string \<Rightarrow> string \<Rightarrow> string \<Rightarrow> string
     \<Rightarrow> (lfs_reply, string \<times> repository \<times> string) act" where
  "upload_gate env limit header owner repo oid body =
     and_then (lfs_named owner repo) (\<lambda>(identity, name).
       and_then (transfer_allowed env header identity oid Upload) (\<lambda>_.
         and_then (lfs_found owner name) (\<lambda>r.
           and_then (map_err LfsHttp (read_body_capped body limit)) (\<lambda>body.
             and_then (ensure (sha256_hex env body = oid)
                 (plain 422 (''uploaded content hashes to '' @ sha256_hex env body @ '', not '' @ oid)))
               (\<lambda>_. ok (identity, r, body))))))"

definition upload_object ::
  "auth_env \<Rightarrow> lfs_io \<Rightarrow> nat \<Rightarrow> string option \<Rightarrow> string \<Rightarrow> string \<Rightarrow> string \<Rightarrow> string
     \<Rightarrow> lfs_host \<Rightarrow> lfs_reply \<times> lfs_host" where
  "upload_object env io limit header owner repo oid body h =
     (case upload_gate env limit header owner repo oid body (lh_world h) of
        (Inl e, w) \<Rightarrow> (e, h\<lparr>lh_world := w\<rparr>)
      | (Inr (identity, r, bytes), w) \<Rightarrow>
          (case io_mkdir_fails io identity oid of
             Some e \<Rightarrow> (plain 500 e, h\<lparr>lh_world := w\<rparr>)
           | None \<Rightarrow>
               (let put = (\<lambda>content. (lh_files h)(identity := (lh_files h identity)(oid := content))) in
                case io_write_fails io identity oid of
                  Some (e, left) \<Rightarrow> (plain 500 e, \<lparr>lh_world = w, lh_files = put left\<rparr>)
                | None \<Rightarrow>
                    (case insert_lfs_object (repo_id r) oid (int (length bytes)) (storage_key oid) w of
                       (Inl e, w') \<Rightarrow> (LfsFailed e, \<lparr>lh_world = w', lh_files = put (Some bytes)\<rparr>)
                     | (Inr _, w') \<Rightarrow> (LfsStored, \<lparr>lh_world = w', lh_files = put (Some bytes)\<rparr>)))))"

definition download_object ::
  "auth_env \<Rightarrow> lfs_io \<Rightarrow> string option \<Rightarrow> string \<Rightarrow> string \<Rightarrow> string \<Rightarrow> lfs_files \<Rightarrow> (lfs_reply, lfs_reply) act" where
  "download_object env io header owner repo oid files =
     and_then (lfs_named owner repo) (\<lambda>(identity, name).
       and_then (transfer_allowed env header identity oid Download) (\<lambda>_.
         case files identity oid of
           Some bytes \<Rightarrow> if io_read_fails io identity oid then err (plain 404 ''object not found'') else ok (LfsBytes bytes)
         | None \<Rightarrow> err (plain 404 ''object not found'')))"

section \<open>Locks\<close>

definition session_actor :: "http_auth \<Rightarrow> uuid option" where
  "session_actor auth = map_option fst (ha_session auth)"

definition lfs_db_err :: "(db_error, 'a) act \<Rightarrow> (lfs_reply, 'a) act" where
  "lfs_db_err m = map_err (\<lambda>e. LfsFailed e) m"

definition create_lock ::
  "'o git_server \<Rightarrow> git_config \<Rightarrow> http_auth \<Rightarrow> string \<Rightarrow> string \<Rightarrow> string option \<Rightarrow> (lfs_reply, lfs_reply) act" where
  "create_lock srv cfg auth owner repo body =
     and_then (lfs_named owner repo) (\<lambda>(_, name).
       and_then (or_err (plain 400 []) body) (\<lambda>path.
         and_then (lfs_found owner name) (\<lambda>r.
           and_then (lfs_write srv cfg auth owner r) (\<lambda>_.
             and_then (or_err (plain 401 []) (session_actor auth)) (\<lambda>uid.
               and_then fresh_uuid (\<lambda>i.
                 and_then (map_err (\<lambda>e. case e of AlreadyLocked p \<Rightarrow> LfsConflict p
                                                 | CreateLockDb e \<Rightarrow> LfsFailed e)
                             (lfs_create_lock i (repo_id r) path uid)) (\<lambda>_. ok (LfsLocked i path))))))))"

definition list_locks ::
  "'o git_server \<Rightarrow> git_config \<Rightarrow> http_auth \<Rightarrow> string \<Rightarrow> string \<Rightarrow> (lfs_reply, lfs_reply) act" where
  "list_locks srv cfg auth owner repo =
     and_then (lfs_named owner repo) (\<lambda>(_, name).
       and_then (lfs_found owner name) (\<lambda>r.
         and_then (lfs_read srv cfg auth owner r) (\<lambda>_.
           and_then (lfs_db_err (select (locks_of (repo_id r)))) (\<lambda>locks. ok (LfsLocks locks)))))"

definition verify_locks ::
  "'o git_server \<Rightarrow> git_config \<Rightarrow> http_auth \<Rightarrow> string \<Rightarrow> string \<Rightarrow> (lfs_reply, lfs_reply) act" where
  "verify_locks srv cfg auth owner repo =
     and_then (lfs_named owner repo) (\<lambda>(_, name).
       and_then (lfs_found owner name) (\<lambda>r.
         and_then (lfs_read srv cfg auth owner r) (\<lambda>_.
           and_then (lfs_db_err (select (locks_of (repo_id r)))) (\<lambda>locks.
             case partition (\<lambda>l. Some (ll_owner_id l) = session_actor auth) locks of
               (ours, theirs) \<Rightarrow> ok (LfsVerified ours theirs)))))"

definition unlock ::
  "'o git_server \<Rightarrow> git_config \<Rightarrow> http_auth \<Rightarrow> string \<Rightarrow> string \<Rightarrow> uuid option \<Rightarrow> (lfs_reply, lfs_reply) act" where
  "unlock srv cfg auth owner repo lock_id =
     and_then (lfs_named owner repo) (\<lambda>(_, name).
       and_then (or_err (plain 400 ''invalid lock id'') lock_id) (\<lambda>i.
         and_then (lfs_found owner name) (\<lambda>r.
           and_then (lfs_write srv cfg auth owner r) (\<lambda>_.
             and_then (or_err (plain 401 []) (session_actor auth)) (\<lambda>uid.
               and_then (lfs_db_err (select (lock_by_id i))) (\<lambda>found.
                 and_then (or_err (plain 404 ''no such lock'')
                     (case found of Some l \<Rightarrow> if ll_repository_id l = repo_id r then Some l else None | None \<Rightarrow> None)) (\<lambda>l.
                   and_then (if ll_owner_id l \<noteq> uid
                             then map_err (\<lambda>_. plain 403 (''you don'' @ CHR 0x27 # ''t hold this lock''))
                                    (check_administer (ActorUser uid) r)
                             else ok ()) (\<lambda>_.
                     and_then (lfs_db_err (delete_lock i)) (\<lambda>removed.
                       if removed then ok (LfsUnlocked l) else err (plain 404 ''no such lock''))))))))))"

end
