(* ===== verification/Lfs_Proofs.thy ===== *)
theory Lfs_Proofs
  imports Lfs Git_Access_Proofs
begin

text \<open>
  What the large-file endpoints guarantee: the store is content addressed, and a transfer token opens the
  one transfer that the batch behind it was allowed to hand out.
\<close>

section \<open>Content-addressed files\<close>

definition content_addressed :: "auth_env \<Rightarrow> lfs_files \<Rightarrow> bool" where
  "content_addressed env files \<longleftrightarrow> (\<forall>i oid bytes. files i oid = Some bytes \<longrightarrow> sha256_hex env bytes = oid)"

text \<open>A failed write that leaves part of the content behind breaks the rule.\<close>

definition writes_whole :: "auth_env \<Rightarrow> lfs_io \<Rightarrow> bool" where
  "writes_whole env io \<longleftrightarrow>
     (\<forall>i oid e left. io_write_fails io i oid = Some (e, Some left) \<longrightarrow> sha256_hex env left = oid)"

lemma transfer_allowed_Inr:
  "transfer_allowed env header identity oid action w = (Inr u, w') \<longleftrightarrow> w' = w \<and> is_valid_oid oid
     \<and> (\<exists>tok. bearer_token header = Some tok \<and> transfer_verify env (clock w) tok identity oid action)"
  by (auto simp: transfer_allowed_def act_simps)

lemma repo_names_split:
  "repo_names owner repo = Some (identity, name) \<Longrightarrow> repo = name @ ''.git'' \<and> identity = owner @ ''/'' @ name"
  by (auto simp: repo_names_def strip_suffix_def ends_with_def split: if_splits) (metis append_take_drop_id)

lemma upload_gate_Inr:
  assumes "upload_gate env limit header owner repo oid body w = (Inr (identity, r, bytes), w')"
  shows "\<exists>name. repo = name @ ''.git'' \<and> identity = owner @ ''/'' @ name \<and> named_repository owner name (tables w) = Some r
    \<and> bytes = body \<and> length body \<le> limit \<and> sha256_hex env body = oid"
proof -
  obtain name where "repo_names owner repo = Some (identity, name)" "repository_by_name owner name w = (Inr r, w')"
    "bytes = body \<and> length body \<le> limit \<and> sha256_hex env body = oid"
    using assms
    by (auto simp: upload_gate_def lfs_named_def lfs_found_def found_repo_def and_then_Inr or_err_Inr map_err_Inr
        read_body_capped_Inr ensure_Inr ok_Inr transfer_allowed_Inr split: prod.splits)
  then show ?thesis using repo_names_split repository_by_name_Inr by blast
qed

definition replies_http :: "(lfs_reply, 'a) act \<Rightarrow> bool" where
  "replies_http m \<longleftrightarrow> (\<forall>w e. fst (m w) = Inl e \<longrightarrow> (\<exists>x. e = LfsHttp x))"

lemma replies_http_rules:
  "replies_http (ok x)" "replies_http now_unix" "replies_http (map_err LfsHttp m')"
  "replies_http (or_err (LfsHttp y) z)" "replies_http (ensure b (LfsHttp y))"
  "replies_http m \<Longrightarrow> (\<And>a. replies_http (f a)) \<Longrightarrow> replies_http (and_then m f)"
  unfolding replies_http_def and_then_def map_err_def or_err_def ensure_def now_unix_def ok_def err_def
  by (auto split: prod.splits sum.splits option.splits) (metis fst_conv)+

lemma upload_gate_http: "replies_http (upload_gate env limit header owner repo oid body)"
  unfolding upload_gate_def lfs_named_def lfs_found_def transfer_allowed_def plain_def split_def
  by (intro replies_http_rules)

lemma stored_row:
  assumes "insert_lfs_object rid oid n key w = (Inr u, w')"
  shows "lfs_object_of rid oid (tables w') \<noteq> None"
  using assms
proof (cases "lfs_object_of rid oid (tables w)")
  case None
  have found: "\<exists>y. find P (xs @ [x]) = Some y" if "P x" for P xs and x :: lfs_object
    using that by (induction xs) auto
  show ?thesis using assms None
    by (auto simp: insert_lfs_object_def sql_def Let_def lfs_object_of_def found split: if_splits)
next
  case (Some x)
  then show ?thesis using assms by (auto simp: insert_lfs_object_def sql_def Let_def split: if_splits)
qed

text \<open>C25. Large files are content addressed. A file that an upload leaves under an object's id hashes to that
  id, whatever the request and whatever fails, as long as a failed write does not leave part of the bytes;
  a file that changes is one of the object and of the repository, owner and name, that the request names; and an upload that reports success has stored
  exactly the request's bytes, within the limit, with a row for them.\<close>

theorem lfs_files_stay_content_addressed:
  assumes "upload_object env io limit header owner repo oid body h = (reply, h')"
    "content_addressed env (lh_files h)" "writes_whole env io"
  shows "content_addressed env (lh_files h')
    \<and> (\<forall>i k. lh_files h' i k \<noteq> lh_files h i k \<longrightarrow> k = oid \<and> (\<exists>name. repo = name @ ''.git'' \<and> i = owner @ ''/'' @ name))
    \<and> (reply = LfsStored \<longrightarrow> length body \<le> limit \<and> (\<exists>name r. repo = name @ ''.git''
         \<and> named_repository owner name (tables (lh_world h)) = Some r
         \<and> lh_files h' (owner @ ''/'' @ name) oid = Some body \<and> sha256_hex env body = oid
         \<and> lfs_object_of (repo_id r) oid (tables (lh_world h')) \<noteq> None))"
proof (cases "upload_gate env limit header owner repo oid body (lh_world h)")
  case (Pair res w)
  show ?thesis
  proof (cases res)
    case (Inl e)
    have "reply \<noteq> LfsStored"
    proof
      assume "reply = LfsStored"
      then have "upload_gate env limit header owner repo oid body (lh_world h) = (Inl LfsStored, w)"
        using assms(1) Pair Inl by (simp add: upload_object_def)
      then have "fst (upload_gate env limit header owner repo oid body (lh_world h)) = Inl LfsStored" by simp
      with upload_gate_http [unfolded replies_http_def] have "\<exists>x. LfsStored = LfsHttp x" by blast
      then show False by simp
    qed
    then show ?thesis using assms(1,2) Pair Inl by (auto simp: upload_object_def)
  next
    case (Inr z)
    obtain identity r bytes where z: "z = (identity, r, bytes)" by (cases z)
    obtain name where split: "repo = name @ ''.git''" "identity = owner @ ''/'' @ name"
      and nm: "named_repository owner name (tables (lh_world h)) = Some r"
      and g: "bytes = body" "length body \<le> limit" "sha256_hex env body = oid"
      using upload_gate_Inr [OF Pair [unfolded Inr z]] by blast
    let ?put = "\<lambda>content. (lh_files h)(identity := (lh_files h identity)(oid := content))"
    have put: "content_addressed env (?put content)
        \<and> (\<forall>i k. ?put content i k \<noteq> lh_files h i k \<longrightarrow> k = oid \<and> (\<exists>name. repo = name @ ''.git'' \<and> i = owner @ ''/'' @ name))"
      if "\<forall>c. content = Some c \<longrightarrow> sha256_hex env c = oid" for content
      using that assms(2) split by (auto simp: content_addressed_def)
    have run: "upload_object env io limit header owner repo oid body h =
        (case io_mkdir_fails io identity oid of
             Some e \<Rightarrow> (plain 500 e, h\<lparr>lh_world := w\<rparr>)
           | None \<Rightarrow>
                (case io_write_fails io identity oid of
                  Some (e, left) \<Rightarrow> (plain 500 e, \<lparr>lh_world = w, lh_files = ?put left\<rparr>)
                | None \<Rightarrow>
                    (case insert_lfs_object (repo_id r) oid (int (length body)) (storage_key oid) w of
                       (Inl e, w') \<Rightarrow> (LfsFailed e, \<lparr>lh_world = w', lh_files = ?put (Some body)\<rparr>)
                     | (Inr _, w') \<Rightarrow> (LfsStored, \<lparr>lh_world = w', lh_files = ?put (Some body)\<rparr>))))"
      unfolding upload_object_def Pair Inr z g(1) Let_def by simp
    show ?thesis
    proof (cases "io_mkdir_fails io identity oid")
      case (Some e)
      then show ?thesis using run assms(1,2) by (auto simp: plain_def)
    next
      case None
      note mk = this
      show ?thesis
      proof (cases "io_write_fails io identity oid")
        case (Some f)
        obtain e left where f: "f = (e, left)" by (cases f)
        then have "lh_files h' = ?put left" and no: "reply \<noteq> LfsStored"
          using run mk Some assms(1) by (auto simp: plain_def)
        moreover have "\<forall>c. left = Some c \<longrightarrow> sha256_hex env c = oid"
          using Some f assms(3) unfolding writes_whole_def by blast
        ultimately show ?thesis using put [of left] by presburger
      next
        case None
        obtain q w2 where ins: "insert_lfs_object (repo_id r) oid (int (length body)) (storage_key oid) w = (q, w2)" by fastforce
        have files: "lh_files h' = ?put (Some body)" and "lh_world h' = w2" "reply = LfsStored \<longrightarrow> (\<exists>u. q = Inr u)"
          using run mk None assms(1) ins by (cases q; auto)+
        have row: "lfs_object_of (repo_id r) oid (tables (lh_world h')) \<noteq> None" if "reply = LfsStored"
          using \<open>reply = LfsStored \<longrightarrow> _\<close> that ins \<open>lh_world h' = w2\<close> stored_row by blast
        have here: "lh_files h' (owner @ ''/'' @ name) oid = Some body" using files split(2) by simp
        have ab: "content_addressed env (lh_files h') \<and> (\<forall>i k. lh_files h' i k \<noteq> lh_files h i k \<longrightarrow> k = oid \<and> (\<exists>name. repo = name @ ''.git'' \<and> i = owner @ ''/'' @ name))"
          unfolding files by (rule put) (use g(3) in simp)
        have c: "reply = LfsStored \<longrightarrow> length body \<le> limit \<and> (\<exists>name r. repo = name @ ''.git''
            \<and> named_repository owner name (tables (lh_world h)) = Some r
            \<and> lh_files h' (owner @ ''/'' @ name) oid = Some body \<and> sha256_hex env body = oid
            \<and> lfs_object_of (repo_id r) oid (tables (lh_world h')) \<noteq> None)"
          by (rule impI, rule conjI [OF g(2)], rule exI [of _ name], rule exI [of _ r], intro conjI)
            (rule split(1) nm here g(3) row, assumption?)+
        show ?thesis by (rule conjI [OF conjunct1 [OF ab] conjI [OF conjunct2 [OF ab] c]])
      qed
    qed
  qed
qed

section \<open>Transfer tokens\<close>

text \<open>Decoding a token that the same key made gives its claims back, and only until sixty seconds (the
  library's default leeway) after its expiry.\<close>

definition jwt_faithful :: "auth_env \<Rightarrow> bool" where
  "jwt_faithful env \<longleftrightarrow>
     (\<forall>k now c j. jwt_decode env k now (jwt_encode env k c) = Some j \<longrightarrow>
        j = c \<and> (\<forall>e. json_field ''exp'' c = Some (JNum e) \<longrightarrow> now \<le> e + 60))"

definition token_for :: "auth_env \<Rightarrow> int \<Rightarrow> string \<Rightarrow> string \<Rightarrow> transfer_action \<Rightarrow> string" where
  "token_for env now identity oid action =
     jwt_encode env (signing_secret env purpose_lfs_transfer)
       (transfer_claims identity oid action (now + transfer_token_ttl))"

lemma action_of_text_inverse [simp]: "action_of_text (action_text a) = Some a"
  by (cases a) (simp_all add: action_of_text_def)

lemma token_verifies:
  assumes "jwt_faithful env" "transfer_verify env now (token_for env t i oid a) i' oid' a'"
  shows "i' = i \<and> oid' = oid \<and> a' = a \<and> now \<le> t + transfer_token_ttl + 60"
proof -
  let ?c = "transfer_claims i oid a (t + transfer_token_ttl)"
  obtain j where j: "jwt_decode env (signing_secret env purpose_lfs_transfer) now
      (jwt_encode env (signing_secret env purpose_lfs_transfer) ?c) = Some j" "read_transfer_claims j = Some (i', oid', a')"
    using assms(2) by (auto simp: transfer_verify_def token_for_def bind_eq_Some_conv)
  have "json_field ''exp'' ?c = Some (JNum (t + transfer_token_ttl))"
    by (simp add: transfer_claims_def)
  then have "j = ?c" "now \<le> t + transfer_token_ttl + 60"
    using assms(1) j(1) unfolding jwt_faithful_def by blast+
  then show ?thesis using j(2)
    by (auto simp: read_transfer_claims_def transfer_claims_def split: if_splits)
qed

text \<open>What a reply of the batch endpoint hands out.\<close>

definition hands_out :: "auth_env \<Rightarrow> string \<Rightarrow> bool \<Rightarrow> int \<Rightarrow> batch_object \<Rightarrow> bool" where
  "hands_out env identity up now bo \<longleftrightarrow>
     (\<forall>a. bo_upload bo = Some a \<longrightarrow> up \<and> is_valid_oid (bo_oid bo) \<and> ba_token a = token_for env now identity (bo_oid bo) Upload)
     \<and> (\<forall>a. bo_download bo = Some a \<longrightarrow>
          \<not> up \<and> is_valid_oid (bo_oid bo) \<and> ba_token a = token_for env now identity (bo_oid bo) Download)"

lemma batch_one_hands_out:
  assumes "(batch_one env identity rid href up ob :: ('e, batch_object list) act) w = (Inr bos, w')"
  shows "clock w' = clock w \<and> (\<forall>bo\<in>set bos. hands_out env identity up (clock w) bo)"
proof -
  obtain oid claimed where ob: "ob = (oid, claimed)" by fastforce
  show ?thesis
  proof (cases "is_valid_oid oid")
    case False
    then show ?thesis using assms by (auto simp: batch_one_def ob Let_def ok_Inr hands_out_def)
  next
    case True
    obtain res w1 where f: "find_lfs_object rid oid w = (res, w1)" by fastforce
    have c: "clock w1 = clock w" using f by (auto simp: find_lfs_object_def select_def sql_def Let_def split: if_splits)
    show ?thesis using assms True c f
      by (cases up; cases res; cases "projr res")
        (auto simp: batch_one_def ob Let_def and_then_def outcome_def ok_def hands_out_def transfer_issue_def now_unix_def
          token_for_def transfer_action_for_def)
  qed
qed

lemma collect_hands_out:
  assumes "(collect obs (batch_one env identity rid href up) :: ('e, batch_object list) act) w = (Inr bos, w')"
  shows "\<forall>bo\<in>set bos. hands_out env identity up (clock w) bo"
  using assms
proof (induction obs arbitrary: w bos w')
  case Nil
  then show ?case by (simp add: ok_Inr)
next
  case (Cons ob obs)
  then obtain xs w1 ys w2 where
    "(batch_one env identity rid href up ob :: ('e, batch_object list) act) w = (Inr xs, w1)"
    "(collect obs (batch_one env identity rid href up) :: ('e, batch_object list) act) w1 = (Inr ys, w2)" "bos = xs @ ys"
    by (auto simp: and_then_Inr ok_Inr)
  with batch_one_hands_out [OF this(1)] Cons.IH [OF this(2)] show ?case by auto
qed

lemma check_read_sound:
  assumes "check_read actor r w = (Inr u, w')"
  shows "can_read_repository actor r (stored_access (tables w) actor r) = Inr ()"
  using assms fetch_then_decide [OF reads_access_for hides_access_for, of actor r "can_read_repository actor r" w]
  by (auto simp: check_read_def prod_eq_iff)

lemma anonymous_never_reads_private:
  "is_private r \<Longrightarrow> can_read_repository Anonymous r (stored_access d Anonymous r) \<noteq> Inr ()"
  by (simp add: can_read_repository_def stored_access_def require_role_def Let_def)

lemma require_read_access_Inr:
  assumes "require_read_access srv cfg auth owner r w = (Inr u, w')" "is_private r"
  shows "\<exists>actor. authenticates srv cfg auth (clock w) (tables w) actor
    \<and> can_read_repository actor r (stored_access (tables w) actor r) = Inr ()"
proof -
  let ?pre = "if gc_require_signin_to_view cfg
               then and_then (resolve_actor srv cfg auth) (\<lambda>actor.
                      ensure (actor \<noteq> Anonymous)
                        (unauthorized_response ''this instance requires sign-in to read any repository''))
               else ok ()"
  obtain u1 w1 actor w2 where 1: "?pre w = (Inr u1, w1)"
    and 2: "(resolve_actor srv cfg auth :: (http_reply, actor_context) act) w1 = (Inr actor, w2)"
    and 3: "check_read actor r w2 = (Inr u, w')"
    using assms unfolding require_read_access_def and_then_Inr [of ?pre] by (auto simp: and_then_Inr map_err_Inr)
  have "keeps_standing ?pre" by (intro standing_rules standing_resolve_actor)
  from keeps_standingD [OF this 1] have s1: "standing (tables w1) = standing (tables w)" "clock w1 = clock w" by auto
  have s2: "standing (tables w2) = standing (tables w1)" using keeps_standingD [OF standing_resolve_actor 2] by simp
  have "stored_access (tables w2) actor r = stored_access (tables w) actor r"
    using s1(1) s2 standing_access by metis
  then have may: "can_read_repository actor r (stored_access (tables w) actor r) = Inr ()"
    using check_read_sound [OF 3] by simp
  then have "actor \<noteq> Anonymous" using anonymous_never_reads_private assms(2) by metis
  from resolve_actor_Inr [OF 2 this] have "authenticates srv cfg auth (clock w) (tables w) actor"
    using s1 by (simp add: authenticates_def header_authenticates_cong [OF s1(1)])
  with may show ?thesis by blast
qed

text \<open>Who could do what when the batch was answered.\<close>

definition batch_allowed ::
  "'o git_server \<Rightarrow> git_config \<Rightarrow> http_auth \<Rightarrow> repository \<Rightarrow> bool \<Rightarrow> world \<Rightarrow> bool" where
  "batch_allowed srv cfg auth r up w \<longleftrightarrow>
     (if up then \<exists>actor. authenticates srv cfg auth (clock w) (tables w) actor \<and> permits_token_scope actor TSRepoWrite
               \<and> can_write_repository actor r (stored_access (tables w) actor r) = Inr ()
      else is_private r \<longrightarrow> (\<exists>actor. authenticates srv cfg auth (clock w) (tables w) actor
               \<and> can_read_repository actor r (stored_access (tables w) actor r) = Inr ()))"

lemma batch_allowed_cong:
  assumes "standing (tables w') = standing (tables w)" "clock w' = clock w"
  shows "batch_allowed srv cfg auth r up w' = batch_allowed srv cfg auth r up w"
proof -
  have "authenticates srv cfg auth (clock w') (tables w') actor = authenticates srv cfg auth (clock w) (tables w) actor" for actor
    by (simp add: authenticates_def assms(2) header_authenticates_cong [OF assms(1)])
  moreover have "stored_access (tables w') actor r = stored_access (tables w) actor r" for actor
    using assms(1) standing_access by metis
  ultimately show ?thesis by (simp add: batch_allowed_def)
qed

lemma lfs_batch_Inr:
  assumes "lfs_batch srv cfg auth base owner repo body w = (Inr (LfsBatch objs), w')"
  shows "\<exists>name r operation listed. repo = name @ ''.git'' \<and> named_repository owner name (tables w) = Some r
    \<and> body = Some (operation, listed) \<and> batch_allowed srv cfg auth r (operation = ''upload'') w
    \<and> (\<forall>bo\<in>set objs. hands_out (srv_auth srv) (owner @ ''/'' @ name) (operation = ''upload'') (clock w) bo)"
proof -
  obtain identity name operation listed r w1 u w2 where
    nm: "repo_names owner repo = Some (identity, name)" and body: "body = Some (operation, listed)"
    and found: "repository_by_name owner name w = (Inr r, w1)"
    and gate: "(if operation = ''upload'' then lfs_write srv cfg auth owner r else lfs_read srv cfg auth owner r) w1 = (Inr u, w2)"
    and run: "(collect listed (batch_one (srv_auth srv) identity (repo_id r)
                 (base @ ''/'' @ owner @ ''/'' @ name @ ''.git/info/lfs/objects/'') (operation = ''upload''))
               :: (lfs_reply, batch_object list) act) w2 = (Inr objs, w')"
    using assms
    by (auto simp: lfs_batch_def lfs_named_def lfs_found_def found_repo_def and_then_Inr or_err_Inr map_err_Inr ok_Inr
        split: prod.splits)
  note split = repo_names_split [OF nm]
  have s1: "standing (tables w1) = standing (tables w)" "clock w1 = clock w"
    using keeps_standingD [OF standing_repository_by_name found] by auto
  have "keeps_standing (lfs_read srv cfg auth owner r)" "keeps_standing (lfs_write srv cfg auth owner r)"
    unfolding lfs_read_def lfs_write_def require_read_access_def
    by (intro standing_rules standing_write_access standing_resolve_actor standing_checks)+
  then have c2: "clock w2 = clock w" using gate s1(2) by (auto dest!: keeps_standingD split: if_splits)
  have "batch_allowed srv cfg auth r (operation = ''upload'') w1"
    using gate require_write_access_Inr [of srv cfg auth owner r w1 u w2] require_read_access_Inr [of srv cfg auth owner r w1 u w2]
    by (auto simp: batch_allowed_def lfs_write_def lfs_read_def map_err_Inr split: if_splits)
  then have "batch_allowed srv cfg auth r (operation = ''upload'') w"
    by (rule batch_allowed_cong [OF s1, THEN iffD1])
  then show ?thesis
    using split body repository_by_name_Inr [OF found] collect_hands_out [OF run] c2
    by (intro exI [of _ name] exI [of _ r] exI [of _ operation] exI [of _ listed]) simp
qed

text \<open>C26. A transfer token opens one transfer. Where a token decodes to the claims it was made from (until
  sixty seconds past its expiry), a token that some batch reply handed out for an object is accepted by a
  transfer endpoint only for the repository that batch named, for that object, for the action it was
  handed out for, and within 960 seconds; and whoever sent the batch was authenticated and could write
  to that repository for an upload, or, for the download from a private repository, could read it.\<close>

theorem transfer_token_opens_one_transfer:
  assumes "jwt_faithful (srv_auth srv)"
    "lfs_batch srv cfg auth base owner repo body w = (Inr (LfsBatch objs), w')" "bo \<in> set objs"
    "bo_upload bo = Some a \<or> bo_download bo = Some a"
    "transfer_allowed (srv_auth srv) (Some (''Bearer '' @ ba_token a)) identity oid action w2 = (Inr u, w3)"
  shows "\<exists>name r. repo = name @ ''.git'' \<and> identity = owner @ ''/'' @ name
    \<and> named_repository owner name (tables w) = Some r \<and> oid = bo_oid bo \<and> clock w2 \<le> clock w + 960
    \<and> (if action = Upload then bo_upload bo = Some a else bo_download bo = Some a)
    \<and> batch_allowed srv cfg auth r (action = Upload) w"
proof -
  obtain name r operation listed where b: "repo = name @ ''.git''" "named_repository owner name (tables w) = Some r"
    "batch_allowed srv cfg auth r (operation = ''upload'') w"
    "hands_out (srv_auth srv) (owner @ ''/'' @ name) (operation = ''upload'') (clock w) bo"
    using lfs_batch_Inr [OF assms(2)] assms(3) by blast
  have v: "transfer_verify (srv_auth srv) (clock w2) (ba_token a) identity oid action"
    using assms(5) by (auto simp: transfer_allowed_Inr bearer_token_def strip_prefix_def split: if_splits)
  from assms(4) show ?thesis
  proof
    assume up: "bo_upload bo = Some a"
    then have "operation = ''upload''" "ba_token a = token_for (srv_auth srv) (clock w) (owner @ ''/'' @ name) (bo_oid bo) Upload"
      using b(4) by (auto simp: hands_out_def)
    with token_verifies [OF assms(1) v [unfolded this(2)]] b up show ?thesis by (auto simp: transfer_token_ttl_def)
  next
    assume down: "bo_download bo = Some a"
    then have "operation \<noteq> ''upload''" "ba_token a = token_for (srv_auth srv) (clock w) (owner @ ''/'' @ name) (bo_oid bo) Download"
      using b(4) by (auto simp: hands_out_def)
    with token_verifies [OF assms(1) v [unfolded this(2)]] b down show ?thesis by (auto simp: transfer_token_ttl_def)
  qed
qed

section \<open>Examples\<close>

definition sample_oid :: string where "sample_oid = replicate 64 (CHR ''a'')"
definition sample_bytes :: string where "sample_bytes = replicate 32 (CHR 0xAA)"

definition sample_claims :: json where
  "sample_claims = transfer_claims ''alice/proj'' sample_oid Upload 905"

text \<open>A signature scheme that knows one set of claims.\<close>

definition lfs_env :: auth_env where
  "lfs_env = toy_env\<lparr>jwt_encode := \<lambda>k c. if c = sample_claims then ''T'' else ''X'',
     jwt_decode := \<lambda>k now t. if t = ''T'' \<and> now \<le> 965 then Some sample_claims else None\<rparr>"

definition lfs_server :: "char git_server" where
  "lfs_server = sample_server\<lparr>srv_auth := lfs_env\<rparr>"

definition sound_disk :: lfs_io where
  "sound_disk = \<lparr>io_mkdir_fails = \<lambda>_ _. None, io_write_fails = \<lambda>_ _. None, io_read_fails = \<lambda>_ _. False\<rparr>"

lemma lfs_env_faithful: "jwt_faithful lfs_env"
  by (auto simp: jwt_faithful_def lfs_env_def sample_claims_def transfer_claims_def split: if_splits)

definition sample_batch :: "(lfs_reply + lfs_reply) \<times> world" where
  "sample_batch = lfs_batch lfs_server sample_config bob_session ''http://h'' ''alice'' ''proj.git''
     (Some (''upload'', [(sample_oid, 32)])) (git_world (Some 3) [])"

lemma sample_batch_reply:
  "fst sample_batch = Inr (LfsBatch [\<lparr>bo_oid = sample_oid, bo_size = 32,
     bo_upload = Some \<lparr>ba_href = ''http://h/alice/proj.git/info/lfs/objects/'' @ sample_oid, ba_token = ''T'', ba_expires_in = 900\<rparr>,
     bo_download = None, bo_error = None\<rparr>])"
  by code_simp

lemma sample_transfer: "fst (transfer_allowed lfs_env (Some ''Bearer T'') ''alice/proj'' sample_oid Upload (git_world (Some 3) []))
  = Inr ()"
  by code_simp

theorem transfer_token_opens_one_transfer_witness:
  "\<exists>r. named_repository ''alice'' ''proj'' (tables (git_world (Some 3) [])) = Some r
     \<and> batch_allowed lfs_server sample_config bob_session r True (git_world (Some 3) [])"
proof -
  obtain w1 where b: "lfs_batch lfs_server sample_config bob_session ''http://h'' ''alice'' ''proj.git''
     (Some (''upload'', [(sample_oid, 32)])) (git_world (Some 3) []) = (Inr (LfsBatch [\<lparr>bo_oid = sample_oid, bo_size = 32,
     bo_upload = Some \<lparr>ba_href = ''http://h/alice/proj.git/info/lfs/objects/'' @ sample_oid, ba_token = ''T'', ba_expires_in = 900\<rparr>,
     bo_download = None, bo_error = None\<rparr>]), w1)"
    using sample_batch_reply unfolding sample_batch_def by (metis prod.collapse)
  obtain w3 where t: "transfer_allowed lfs_env (Some ''Bearer T'') ''alice/proj'' sample_oid Upload (git_world (Some 3) []) = (Inr (), w3)"
    using sample_transfer by (metis prod.collapse)
  show ?thesis
    using transfer_token_opens_one_transfer [OF _ b, of _ "\<lparr>ba_href = ''http://h/alice/proj.git/info/lfs/objects/'' @ sample_oid,
        ba_token = ''T'', ba_expires_in = 900\<rparr>" "''alice/proj''" sample_oid Upload "git_world (Some 3) []" "()" w3]
      lfs_env_faithful t
    by (auto simp: lfs_server_def)
qed

definition empty_lfs :: lfs_host where
  "empty_lfs = \<lparr>lh_world = git_world (Some 3) [], lh_files = \<lambda>_ _. None\<rparr>"

definition sample_upload :: "lfs_reply \<times> lfs_host" where
  "sample_upload = upload_object lfs_env sound_disk 100 (Some ''Bearer T'') ''alice'' ''proj.git'' sample_oid sample_bytes empty_lfs"

lemma sample_upload_reply: "fst sample_upload = LfsStored"
  by code_simp

theorem lfs_files_stay_content_addressed_witness:
  "content_addressed lfs_env (lh_files (snd sample_upload))
   \<and> lh_files (snd sample_upload) ''alice/proj'' sample_oid = Some sample_bytes"
proof -
  obtain h' where u: "upload_object lfs_env sound_disk 100 (Some ''Bearer T'') ''alice'' ''proj.git'' sample_oid sample_bytes empty_lfs
      = (LfsStored, h')" "snd sample_upload = h'"
    using sample_upload_reply unfolding sample_upload_def by (metis prod.collapse)
  show ?thesis
    using lfs_files_stay_content_addressed [OF u(1)]
    by (auto simp: u(2) content_addressed_def writes_whole_def empty_lfs_def sound_disk_def)
qed

text \<open>A client that signs in with its password in the request, as git clients do, may push but not lock; the
  locks its account holds are listed as somebody else's, which makes it refuse to push. A writer may not
  unlock another writer's file.\<close>

definition basic_bob :: http_auth where
  "basic_bob = \<lparr>ha_session = None, ha_authorization = Some ''Basic b@x:pw''\<rparr>"

definition bob_lock :: "uuid \<Rightarrow> lfs_lock" where
  "bob_lock owner = \<lparr>ll_id = 50, ll_repository_id = 1, ll_path = ''a.bin'', ll_owner_id = owner, ll_created_at = 1\<rparr>"

definition locked_world :: "uuid \<Rightarrow> world" where
  "locked_world owner = (git_world (Some 3) [])\<lparr>tables := (tables (git_world (Some 3) []))\<lparr>t_lfs_locks := [bob_lock owner]\<rparr>\<rparr>"

theorem password_clients_cannot_lock:
  "fst (require_write_access sample_server sample_config basic_bob ''alice'' (hd (t_repositories (tables pr_world))) (locked_world 2))
     = Inr ()
   \<and> fst (create_lock sample_server sample_config basic_bob ''alice'' ''proj.git'' (Some ''b.bin'') (locked_world 2))
     = Inl (LfsHttp (reply_with 401 []))
   \<and> fst (verify_locks sample_server sample_config basic_bob ''alice'' ''proj.git'' (locked_world 2))
     = Inr (LfsVerified [] [bob_lock 2])
   \<and> fst (unlock sample_server sample_config bob_session ''alice'' ''proj.git'' (Some 50) (locked_world 1))
     = Inl (LfsHttp (reply_with 403 (''you don'' @ CHR 0x27 # ''t hold this lock'')))"
  by (intro conjI) code_simp+

end
