(* ===== verification/Namespace.thy ===== *)
theory Namespace
  imports Sign_In
begin

text \<open>
  Creating organizations (\<^verbatim>\<open>edda-auth/src/organization.rs\<close>) and the namespace they share with accounts:
  no database constraint spans both tables, each side looks into the other's before it inserts.
\<close>

section \<open>Creating an organization\<close>

datatype create_organization_error = CoNameTaken | CoInvalidName | CoDb db_error

fun create_organization_of_insert :: "insert_organization_error \<Rightarrow> create_organization_error" where
  "create_organization_of_insert NameTaken = CoNameTaken"
| "create_organization_of_insert (InsertOrgDb e) = CoDb e"

definition create_organization ::
  "string \<Rightarrow> string option \<Rightarrow> uuid \<Rightarrow> (create_organization_error, organization \<times> uuid) act" where
  "create_organization name0 display uid =
     (let name = trim name0 in
      and_then (ensure (is_valid_username name) CoInvalidName) (\<lambda>_.
        and_then (map_err CoDb (select (user_by_username name))) (\<lambda>found.
          and_then (ensure (found = None) CoNameTaken) (\<lambda>_.
            and_then fresh_uuid (\<lambda>i.
              and_then (map_err create_organization_of_insert (organization_insert i name display uid)) (\<lambda>owners_team_id.
                ok (\<lparr>org_id = i, org_name = name, org_display_name = display\<rparr>, owners_team_id)))))))"

end
