(* ===== verification/OAuth.thy ===== *)
theory OAuth
  imports Login
begin

text \<open>
  Signing in through an external identity provider (\<^verbatim>\<open>edda-auth/src/oauth.rs\<close>,
  \<^verbatim>\<open>edda-app/src/oauth_routes.rs\<close>, \<^verbatim>\<open>edda-db/src/oauth_identity_repo.rs\<close>): the linked identities,
  the provider's provisioning policy, and the flow that a browser carries from a start route to the
  callback. The OpenID Connect client is a library: discovery, the authorization request and the verified
  claims behind a code are fields of \<open>oidc_client\<close>.
\<close>

section \<open>Linked identities\<close>

definition insert_oauth_identity :: "uuid \<Rightarrow> uuid \<Rightarrow> string \<Rightarrow> string \<Rightarrow> (db_error, int) act" where
  "insert_oauth_identity i uid provider subject =
     and_then now_unix (\<lambda>now.
       sql (\<lambda>d.
         if list_ex (\<lambda>x. oi_id x = i \<or> (oi_provider x = provider \<and> oi_subject_id x = subject)) (t_oauth_identities d)
         then Inl UniqueViolation
         else if \<not> user_exists uid d then Inl ForeignKeyViolation
         else Inr (now, d\<lparr>t_oauth_identities := t_oauth_identities d @
                [\<lparr>oi_id = i, oi_user_id = uid, oi_provider = provider, oi_subject_id = subject, oi_created_at = now\<rparr>]\<rparr>)))"

definition identity_of :: "string \<Rightarrow> string \<Rightarrow> db \<Rightarrow> oauth_identity option" where
  "identity_of provider subject d =
     find (\<lambda>x. oi_provider x = provider \<and> oi_subject_id x = subject) (t_oauth_identities d)"

definition find_by_provider_subject :: "string \<Rightarrow> string \<Rightarrow> (db_error, oauth_identity option) act" where
  "find_by_provider_subject provider subject = select (identity_of provider subject)"

definition identities_of :: "uuid \<Rightarrow> db \<Rightarrow> oauth_identity list" where
  "identities_of uid d = sort_key (\<lambda>x. - oi_created_at x) (filter (\<lambda>x. oi_user_id x = uid) (t_oauth_identities d))"

definition delete_oauth_identity :: "uuid \<Rightarrow> uuid \<Rightarrow> (db_error, bool) act" where
  "delete_oauth_identity uid i =
     sql (\<lambda>d. Inr (0 < rows_affected (\<lambda>x. oi_id x = i \<and> oi_user_id x = uid) (t_oauth_identities d),
       d\<lparr>t_oauth_identities := delete_where (\<lambda>x. oi_id x = i \<and> oi_user_id x = uid) (t_oauth_identities d)\<rparr>))"

section \<open>Providers\<close>

datatype provisioning = ProvisionAuto | LinkOnly | ProvisionApproval

definition parse_provisioning :: "string \<Rightarrow> provisioning option" where
  "parse_provisioning v =
     (let s = to_ascii_lowercase (trim v) in
      if s = ''auto'' then Some ProvisionAuto
      else if s = ''linkonly'' \<or> s = ''link-only'' \<or> s = ''link_only'' then Some LinkOnly
      else if s = ''approval'' then Some ProvisionApproval else None)"

fun provisioning_str :: "provisioning \<Rightarrow> string" where
  "provisioning_str ProvisionAuto = ''auto''"
| "provisioning_str LinkOnly = ''link-only''"
| "provisioning_str ProvisionApproval = ''approval''"

record provider_config =
  pc_name :: string
  pc_display_name :: string
  pc_issuer_url :: string
  pc_client_id :: string
  pc_client_secret :: string
  pc_redirect_url :: string
  pc_allowed_email_domains :: "string list"
  pc_provisioning :: provisioning

definition provider_allows_domain :: "provider_config \<Rightarrow> string \<Rightarrow> bool" where
  "provider_allows_domain p email =
     (if pc_allowed_email_domains p = [] then True
      else let domain = after_last (CHR ''@'') email in
           if domain = [] then False
           else list_ex (\<lambda>allowed. eq_ignore_ascii_case allowed domain) (pc_allowed_email_domains p))"

definition provider_by_name :: "string \<Rightarrow> provider_config list \<Rightarrow> provider_config option" where
  "provider_by_name name ps = find (\<lambda>p. pc_name p = name) ps"

fun only_provider :: "provider_config list \<Rightarrow> provider_config option" where
  "only_provider [p] = Some p"
| "only_provider _ = None"

text \<open>A panic of the code is an outcome of its own.\<close>

datatype oauth_error =
    NotConfigured | Discovery string | Verification string | NoEmail | OaDb db_error | OaPanic

fun oauth_of_insert :: "insert_user_error \<Rightarrow> oauth_error" where
  "oauth_of_insert (IuDb e) = OaDb e"
| "oauth_of_insert IuUsernameTaken = Verification ''that username is already taken''"
| "oauth_of_insert IuEmailTaken = Verification ''an account with that email already exists''"

record authorization_request =
  ar_url :: string
  ar_csrf_token :: string
  ar_nonce :: string
  ar_pkce_verifier :: string

text \<open>What the library does for a provider: discover it and build a request from a random draw, and
  exchange a code at a time, with the verifier and the nonce, for the subject and the email claim.\<close>

record oidc_client =
  oc_start :: "provider_config \<Rightarrow> nat \<Rightarrow> oauth_error + authorization_request"
  oc_claims :: "provider_config \<Rightarrow> int \<Rightarrow> string \<Rightarrow> string \<Rightarrow> string \<Rightarrow> oauth_error + (string \<times> string option)"

definition oauth_start :: "oidc_client \<Rightarrow> provider_config \<Rightarrow> (oauth_error, authorization_request) act" where
  "oauth_start oc p = and_then fresh_uuid (\<lambda>n. case oc_start oc p n of Inl e \<Rightarrow> err e | Inr r \<Rightarrow> ok r)"

definition verified_claims ::
  "oidc_client \<Rightarrow> provider_config \<Rightarrow> string \<Rightarrow> string \<Rightarrow> string \<Rightarrow> (oauth_error, string \<times> string option) act" where
  "verified_claims oc p auth_code verifier nonce =
     and_then now_unix (\<lambda>now. case oc_claims oc p now auth_code verifier nonce of Inl e \<Rightarrow> err e | Inr c \<Rightarrow> ok c)"

section \<open>Completing a login\<close>

datatype login_outcome =
    LoggedIn user
  | NewAccountCreated user
  | NewAccountPendingApproval user
  | EmailBelongsToExistingAccount
  | ProvisioningNotAllowed
  | ProviderDomainNotAllowed

text \<open>One underscore stands for each character that is not an ASCII letter or digit, whatever the number of
  its bytes.\<close>

definition is_continuation_byte :: "char \<Rightarrow> bool" where
  "is_continuation_byte c \<longleftrightarrow> 128 \<le> (of_char c :: nat) \<and> (of_char c :: nat) < 192"

definition derive_username_from_email :: "auth_env \<Rightarrow> string \<Rightarrow> ('e, string) act" where
  "derive_username_from_email env email =
     and_then fresh_uuid (\<lambda>n.
       ok (concat (map (\<lambda>c. if is_ascii_alphanumeric c then [c] else if is_continuation_byte c then [] else ''_'')
                    (takeWhile (\<lambda>c. c \<noteq> CHR ''@'') email))
           @ ''_'' @ take 8 (uuid_text env n)))"

definition random_unusable_secret :: "auth_env \<Rightarrow> ('e, string) act" where
  "random_unusable_secret env = and_then fresh_uuid (\<lambda>n. ok (hex_bytes (random_bytes env n 32)))"

definition insert_oauth_user ::
  "auth_env \<Rightarrow> provider_config \<Rightarrow> int option \<Rightarrow> string \<Rightarrow> string \<Rightarrow> (oauth_error, user) act" where
  "insert_oauth_user env p approved_at subject email =
     and_then (derive_username_from_email env email) (\<lambda>username.
       and_then (random_unusable_secret env) (\<lambda>secret.
         and_then (and_then (hash_password env secret) (or_err OaPanic)) (\<lambda>h.
           and_then fresh_uuid (\<lambda>uid.
             and_then (map_err oauth_of_insert (insert_user uid username email h)) (\<lambda>_.
               and_then now_unix (\<lambda>now.
                 and_then (map_err OaDb (stamp_signup_status uid approved_at (Some now))) (\<lambda>_.
                   and_then fresh_uuid (\<lambda>i.
                     and_then (map_err OaDb (insert_oauth_identity i uid (pc_name p) subject)) (\<lambda>_.
                       and_then (map_err OaDb (find_by_id uid)) (\<lambda>row.
                         or_err OaPanic (map_option ur_user row)))))))))))"

text \<open>A subject that is linked to no account, by the provider's policy.\<close>

definition oauth_provision ::
  "auth_env \<Rightarrow> provider_config \<Rightarrow> string \<Rightarrow> string \<Rightarrow> (oauth_error, login_outcome) act" where
  "oauth_provision env p subject email =
     (if \<not> provider_allows_domain p email then ok ProviderDomainNotAllowed
      else and_then (map_err OaDb (find_by_email email)) (\<lambda>existing.
        if existing \<noteq> None then ok EmailBelongsToExistingAccount
        else and_then now_unix (\<lambda>now.
          case pc_provisioning p of
            LinkOnly \<Rightarrow> ok ProvisioningNotAllowed
          | ProvisionAuto \<Rightarrow>
              and_then (insert_oauth_user env p (Some now) subject email) (\<lambda>u. ok (NewAccountCreated u))
          | ProvisionApproval \<Rightarrow>
              and_then (insert_oauth_user env p None subject email) (\<lambda>u. ok (NewAccountPendingApproval u)))))"

definition oauth_complete ::
  "auth_env \<Rightarrow> oidc_client \<Rightarrow> provider_config \<Rightarrow> string \<Rightarrow> string \<Rightarrow> string \<Rightarrow> (oauth_error, login_outcome) act" where
  "oauth_complete env oc p auth_code verifier nonce =
     and_then (verified_claims oc p auth_code verifier nonce) (\<lambda>(subject, claimed).
       and_then (or_err NoEmail claimed) (\<lambda>email.
         and_then (map_err OaDb (find_by_provider_subject (pc_name p) subject)) (\<lambda>identity.
           case identity of
             Some x \<Rightarrow>
               and_then (map_err OaDb (find_by_id (oi_user_id x))) (\<lambda>row.
                 and_then (or_err OaPanic row) (\<lambda>row. ok (LoggedIn (ur_user row))))
           | None \<Rightarrow>
               oauth_provision env p subject email)))"

definition oauth_link ::
  "oidc_client \<Rightarrow> provider_config \<Rightarrow> uuid \<Rightarrow> string \<Rightarrow> string \<Rightarrow> string \<Rightarrow> (oauth_error, unit) act" where
  "oauth_link oc p uid auth_code verifier nonce =
     and_then (verified_claims oc p auth_code verifier nonce) (\<lambda>(subject, _).
       and_then fresh_uuid (\<lambda>i.
         and_then (map_err OaDb (insert_oauth_identity i uid (pc_name p) subject)) (\<lambda>_. ok ())))"

section \<open>The routes\<close>

record pending_oauth =
  po_provider_name :: string
  po_csrf_token :: string
  po_nonce :: string
  po_pkce_verifier :: string
  po_link_user_id :: "string option"

datatype oauth_reply =
    OaRefused nat string
  | OaFailed nat
  | OaRedirect string
  | OaLinked uuid
  | OaSignedIn user

definition resolve_provider :: "provider_config list \<Rightarrow> string option \<Rightarrow> oauth_reply + provider_config" where
  "resolve_provider ps name =
     (if ps = [] then Inl (OaRefused 404 ''OAuth login is not configured for this instance'')
      else case name of
             Some n \<Rightarrow> (case provider_by_name n ps of Some p \<Rightarrow> Inr p | None \<Rightarrow> Inl (OaRefused 404 ''no such OIDC provider''))
           | None \<Rightarrow> (case only_provider ps of Some p \<Rightarrow> Inr p | None \<Rightarrow> Inl (OaFailed 400)))"

text \<open>A handler's early returns are errors, and both they and its last value are replies; it also says what
  the session holds afterwards.\<close>

definition oauth_begin ::
  "oidc_client \<Rightarrow> provider_config list \<Rightarrow> string option \<Rightarrow> string option
     \<Rightarrow> (oauth_reply, oauth_reply \<times> pending_oauth) act" where
  "oauth_begin oc ps name link_user_id =
     (case resolve_provider ps name of
        Inl e \<Rightarrow> err e
      | Inr p \<Rightarrow>
          and_then (map_err (\<lambda>_. OaFailed 502) (oauth_start oc p)) (\<lambda>request.
            and_then (map_err (\<lambda>_. OaFailed 500) (select (\<lambda>_. ()))) (\<lambda>_.
              ok (OaRedirect (ar_url request),
                  \<lparr>po_provider_name = pc_name p, po_csrf_token = ar_csrf_token request, po_nonce = ar_nonce request,
                   po_pkce_verifier = ar_pkce_verifier request, po_link_user_id = link_user_id\<rparr>))))"

definition start_link ::
  "auth_env \<Rightarrow> oidc_client \<Rightarrow> provider_config list \<Rightarrow> uuid option \<Rightarrow> string option
     \<Rightarrow> (oauth_reply, oauth_reply \<times> pending_oauth) act" where
  "start_link env oc ps session_user name =
     (case session_user of
        None \<Rightarrow> err (OaRefused 401 ''log in before linking an external account'')
      | Some uid \<Rightarrow> oauth_begin oc ps name (Some (uuid_text env uid)))"

definition oauth_sign_in :: "auth_env \<Rightarrow> user \<Rightarrow> (oauth_reply, oauth_reply) act" where
  "oauth_sign_in env u =
     and_then (ensure (\<not> isl (require_enabled u)) (OaRefused 401 ''this account has been disabled'')) (\<lambda>_.
       and_then (outcome (backend_get_user env (uuid_text env (user_id u)))) (\<lambda>found.
         case found of
           Inr (Some row) \<Rightarrow>
             and_then (map_err (\<lambda>_. OaFailed 500) start_session) (\<lambda>_.
               and_then (map_err (\<lambda>_. OaFailed 500) (audit_user ''auth.login.success'' (user_id u))) (\<lambda>_. ok (OaSignedIn u)))
         | _ \<Rightarrow> err (OaRefused 500 ''could not resolve the session identity'')))"

definition finish_link ::
  "auth_env \<Rightarrow> oidc_client \<Rightarrow> provider_config \<Rightarrow> pending_oauth \<Rightarrow> string \<Rightarrow> string \<Rightarrow> (oauth_reply, oauth_reply) act" where
  "finish_link env oc p po auth_code uid_text =
     and_then (or_err (OaRefused 500 ''corrupt pending link'') (uuid_parse env uid_text)) (\<lambda>uid.
       and_then (map_err (\<lambda>_. OaFailed 400)
           (oauth_link oc p uid auth_code (po_pkce_verifier po) (po_nonce po))) (\<lambda>_.
         and_then (map_err (\<lambda>_. OaFailed 500) (audit_user ''auth.oauth.link'' uid)) (\<lambda>_. ok (OaLinked uid))))"

fun outcome_reply :: "auth_env \<Rightarrow> login_outcome \<Rightarrow> (oauth_reply, oauth_reply) act" where
  "outcome_reply env (LoggedIn u) = oauth_sign_in env u"
| "outcome_reply env (NewAccountCreated u) = oauth_sign_in env u"
| "outcome_reply env (NewAccountPendingApproval _) =
     err (OaRefused 202 ''your account was created and is awaiting administrator approval'')"
| "outcome_reply env EmailBelongsToExistingAccount = err (OaFailed 409)"
| "outcome_reply env ProvisioningNotAllowed = err (OaFailed 403)"
| "outcome_reply env ProviderDomainNotAllowed =
     err (OaRefused 403 ''your email domain is not permitted for this sign-in provider'')"

definition finish_login ::
  "auth_env \<Rightarrow> oidc_client \<Rightarrow> provider_config \<Rightarrow> pending_oauth \<Rightarrow> string \<Rightarrow> (oauth_reply, oauth_reply) act" where
  "finish_login env oc p po auth_code =
     and_then (map_err (\<lambda>_. OaFailed 502)
       (oauth_complete env oc p auth_code (po_pkce_verifier po) (po_nonce po))) (outcome_reply env)"

definition oauth_callback ::
  "auth_env \<Rightarrow> oidc_client \<Rightarrow> provider_config list \<Rightarrow> pending_oauth option \<Rightarrow> string \<Rightarrow> string
     \<Rightarrow> (oauth_reply, oauth_reply) act" where
  "oauth_callback env oc ps pending auth_code state =
     and_then (map_err (\<lambda>_. OaFailed 500) (select (\<lambda>_. ()))) (\<lambda>_.
       and_then (or_err (OaRefused 400 ''no OAuth login is pending for this session'') pending) (\<lambda>po.
         case resolve_provider ps (Some (po_provider_name po)) of
           Inl e \<Rightarrow> err e
         | Inr p \<Rightarrow>
             and_then (ensure (state = po_csrf_token po) (OaRefused 400 ''OAuth state parameter did not match'')) (\<lambda>_.
               case po_link_user_id po of
                 Some uid_text \<Rightarrow> finish_link env oc p po auth_code uid_text
               | None \<Rightarrow> finish_login env oc p po auth_code)))"

end
