(* ===== verification/Sequencing.thy ===== *)
theory Sequencing
  imports Frames
begin

text \<open>
  Reasoning about an action from its precondition, whatever it returns: a triple has one postcondition for
  a value and one for an error, and the rules go through the ways to build an action. The elimination
  rules say the same of one run.
\<close>

section \<open>One run\<close>

lemma and_thenE:
  assumes "and_then m f w = (r, w')"
  obtains x w1 where "m w = (Inr x, w1)" "f x w1 = (r, w')"
  | e where "m w = (Inl e, w')" "r = Inl e"
  using assms by (cases "m w"; cases "fst (m w)") (auto simp: and_then_def)

lemma read_only_thenE:
  assumes "and_then m f w = (r, w')" "read_only m"
  obtains x w1 where "m w = (Inr x, w1)" "tables w1 = tables w" "f x w1 = (r, w')"
  | e where "tables w' = tables w" "r = Inl e"
  using and_thenE [OF assms(1)] read_only_tables [OF assms(2)] by metis

lemma map_errE:
  assumes "map_err g m w = (r, w')"
  obtains x where "m w = (Inr x, w')" "r = Inr x" | e where "m w = (Inl e, w')" "r = Inl (g e)"
  using assms by (cases "m w"; cases "fst (m w)") (auto simp: map_err_def)

section \<open>Triples\<close>

definition hoare :: "(world \<Rightarrow> bool) \<Rightarrow> ('e, 'a) act \<Rightarrow> ('a \<Rightarrow> world \<Rightarrow> bool) \<Rightarrow> (world \<Rightarrow> bool) \<Rightarrow> bool" where
  "hoare P m Q E \<longleftrightarrow>
     (\<forall>w r w'. P w \<longrightarrow> m w = (r, w') \<longrightarrow> (case r of Inr x \<Rightarrow> Q x w' | Inl e \<Rightarrow> E w'))"

lemma hoareI: "(\<And>w r w'. P w \<Longrightarrow> m w = (r, w') \<Longrightarrow> (case r of Inr x \<Rightarrow> Q x w' | Inl e \<Rightarrow> E w')) \<Longrightarrow> hoare P m Q E"
  by (simp add: hoare_def)

lemma hoareD:
  "hoare P m Q E \<Longrightarrow> P w \<Longrightarrow> m w = (r, w') \<Longrightarrow> (case r of Inr x \<Rightarrow> Q x w' | Inl e \<Rightarrow> E w')"
  by (simp add: hoare_def)

lemma hoare_weaken:
  assumes "hoare P m Q E" "\<And>w. P' w \<Longrightarrow> P w" "\<And>x w. Q x w \<Longrightarrow> Q' x w" "\<And>w. E w \<Longrightarrow> E' w"
  shows "hoare P' m Q' E'"
proof (rule hoareI)
  fix w r w' assume "P' w" "m w = (r, w')"
  from hoareD [OF assms(1) assms(2) [OF this(1)] this(2)]
  show "case r of Inr x \<Rightarrow> Q' x w' | Inl e \<Rightarrow> E' w'" using assms(3,4) by (auto split: sum.splits)
qed

lemma hoare_and_then:
  assumes "hoare P m R E" "\<And>x. hoare (R x) (f x) Q E"
  shows "hoare P (and_then m f) Q E"
proof (rule hoareI)
  fix w r w' assume "P w" "and_then m f w = (r, w')"
  from this(2) show "case r of Inr x \<Rightarrow> Q x w' | Inl e \<Rightarrow> E w'"
  proof (cases rule: and_thenE)
    case (1 x w1)
    then show ?thesis using hoareD [OF assms(1) \<open>P w\<close> 1(1)] hoareD [OF assms(2) _ 1(2)] by simp
  next
    case (2 e)
    then show ?thesis using hoareD [OF assms(1) \<open>P w\<close> 2(1)] by simp
  qed
qed

lemma hoare_assume: "(A \<Longrightarrow> hoare P m Q E) \<Longrightarrow> hoare (\<lambda>w. P w \<and> A) m Q E"
  unfolding hoare_def by blast

lemma hoare_ok: "hoare (Q x) (ok x) Q E"
  by (simp add: hoare_def ok_def)

lemma hoare_err: "hoare E (err e) Q E"
  by (simp add: hoare_def err_def)

lemma hoare_map_err: "hoare P m Q E \<Longrightarrow> hoare P (map_err g m) Q E"
  by (rule hoareI, erule map_errE) (auto dest: hoareD)

lemma hoare_or_err: "hoare P (or_err e z) (\<lambda>x w. P w \<and> z = Some x) P"
  by (simp add: hoare_def or_err_def ok_def err_def split: option.split)

lemma hoare_ensure: "hoare P (ensure b e) (\<lambda>_ w. P w \<and> b) P"
  by (simp add: hoare_def ensure_def ok_def err_def)

text \<open>An action that changes neither the tables nor the git layer.\<close>

definition quiet :: "('e, 'a) act \<Rightarrow> bool" where
  "quiet m \<longleftrightarrow> read_only m \<and> frames git_calls m"

lemma quietD: "quiet m \<Longrightarrow> m w = (r, w') \<Longrightarrow> tables w' = tables w \<and> git_calls w' = git_calls w"
  unfolding quiet_def by (auto dest: read_only_tables framesD)

lemma quiet_select: "quiet (select q)"
  unfolding quiet_def using read_only_select by (auto simp: frames_def select_def sql_def Let_def)

lemma quiet_fresh: "quiet fresh_uuid"
  by (simp add: quiet_def read_only_fresh frames_def fresh_uuid_def)

lemma quiet_prod: "(\<And>a b. quiet (f a b)) \<Longrightarrow> quiet (case p of (a, b) \<Rightarrow> f a b)"
  by (cases p) simp

lemma quiet_basic:
  "quiet (ok x)" "quiet (err e)" "quiet now_unix" "quiet (or_err e6 z6)" "quiet (ensure b7 e7)"
  "quiet m1 \<Longrightarrow> quiet (map_err g m1)" "quiet m2 \<Longrightarrow> quiet (outcome m2)"
  "quiet m3 \<Longrightarrow> (\<And>y. quiet (f3 y)) \<Longrightarrow> quiet (and_then m3 f3)"
  "quiet m4 \<Longrightarrow> (\<And>y. quiet (f4 y)) \<Longrightarrow> quiet (case z4 of None \<Rightarrow> m4 | Some y \<Rightarrow> f4 y)"
  "quiet m5 \<Longrightarrow> quiet n5 \<Longrightarrow> quiet (if b5 then m5 else n5)"
  unfolding quiet_def by (auto intro: read_only_rules frames_basic)

lemmas quiet_rules = quiet_basic quiet_select quiet_fresh quiet_prod

text \<open>A predicate of the tables and the git layer only.\<close>

definition stable :: "(world \<Rightarrow> bool) \<Rightarrow> bool" where
  "stable P \<longleftrightarrow> (\<forall>w w'. P w \<longrightarrow> tables w' = tables w \<longrightarrow> git_calls w' = git_calls w \<longrightarrow> P w')"

lemma stable_conj: "stable P \<Longrightarrow> stable (\<lambda>w. P w \<and> A)"
  by (auto simp: stable_def)

lemma hoare_quiet:
  assumes "quiet m" "stable P" "\<And>w. P w \<Longrightarrow> E w"
  shows "hoare P m (\<lambda>_. P) E"
proof (rule hoareI)
  fix w r w' assume "P w" and m: "m w = (r, w')"
  have "P w'" using quietD [OF assms(1) m] \<open>P w\<close> assms(2) unfolding stable_def by blast
  then show "case r of Inr x \<Rightarrow> P w' | Inl e \<Rightarrow> E w'" using assms(3) by (simp split: sum.split)
qed

text \<open>The same, with what the value of the run says.\<close>

lemma hoare_quiet_value:
  assumes "quiet m" "stable P" "\<And>w. P w \<Longrightarrow> E w" "\<And>w x w'. P w \<Longrightarrow> m w = (Inr x, w') \<Longrightarrow> A x"
  shows "hoare P m (\<lambda>x w. P w \<and> A x) E"
proof (rule hoareI)
  fix w r w' assume "P w" and m: "m w = (r, w')"
  have "P w'" using quietD [OF assms(1) m] \<open>P w\<close> assms(2) unfolding stable_def by blast
  then show "case r of Inr x \<Rightarrow> P w' \<and> A x | Inl e \<Rightarrow> E w'"
    using assms(3) assms(4) [OF \<open>P w\<close>] m by (simp split: sum.split)
qed

text \<open>From given tables, as long as they are only read.\<close>

lemma hoare_reads:
  assumes "read_only m" "\<And>w. tables w = d \<Longrightarrow> E w" "\<And>w x w'. tables w = d \<Longrightarrow> m w = (Inr x, w') \<Longrightarrow> A x"
  shows "hoare (\<lambda>w. tables w = d) m (\<lambda>x w. tables w = d \<and> A x) E"
  by (rule hoareI) (use assms read_only_tables in \<open>fastforce split: sum.split\<close>)

lemma hoare_read:
  assumes "read_only m" "\<And>w. tables w = d \<Longrightarrow> E w"
  shows "hoare (\<lambda>w. tables w = d) m (\<lambda>_ w. tables w = d) E"
  by (rule hoareI) (use assms read_only_tables in \<open>fastforce split: sum.split\<close>)

lemma hoare_snd: "hoare P m (\<lambda>_. Q) Q \<Longrightarrow> P w \<Longrightarrow> Q (snd (m w))"
  by (cases "m w"; cases "fst (m w)") (auto dest: hoareD)

lemma find_distinct_key: "distinct (map k xs) \<Longrightarrow> x \<in> set xs \<Longrightarrow> find (\<lambda>y. k y = k x) xs = Some x"
  by (induction xs) (auto simp: image_iff)

end
