(* ===== verification/Namespace_Proofs.thy ===== *)
theory Namespace_Proofs
  imports Namespace Login_Proofs OAuth Sequencing
begin

text \<open>
  The namespace that accounts and organizations share: no constraint of the database spans both tables,
  and still a name has one owner, as each side looks into the other's table before it inserts.
\<close>

section \<open>One name, one owner\<close>

definition owner_names :: "db \<Rightarrow> string list" where
  "owner_names d = map (to_ascii_lowercase \<circ> user_username) (t_users d) @ map (to_ascii_lowercase \<circ> org_name) (t_organizations d)"

definition names_ok :: "db \<Rightarrow> bool" where
  "names_ok d = distinct (owner_names d)"

interpretation names: db_invariant names_ok
  by unfold_locales (simp add: names_ok_def owner_names_def empty_db_def)

lemma names_same: "t_users d' = t_users d \<Longrightarrow> t_organizations d' = t_organizations d \<Longrightarrow> names_ok d' = names_ok d"
  by (simp add: names_ok_def owner_names_def)

lemma username_free:
  "\<not> username_conflict name d \<longleftrightarrow> to_ascii_lowercase name \<notin> set (map (to_ascii_lowercase \<circ> user_username) (t_users d))"
  by (force simp: username_conflict_def list_ex_iff eq_ignore_ascii_case_def)

lemma no_such_user:
  "user_by_username name d = None \<Longrightarrow> to_ascii_lowercase name \<notin> set (map (to_ascii_lowercase \<circ> user_username) (t_users d))"
  by (auto simp: user_by_username_def find_None_iff eq_ignore_ascii_case_def)

lemma no_such_org:
  "org_by_name name d = None \<Longrightarrow> to_ascii_lowercase name \<notin> set (map (to_ascii_lowercase \<circ> org_name) (t_organizations d))"
  by (auto simp: org_by_name_def find_None_iff eq_ignore_ascii_case_def)

text \<open>A new name in either half.\<close>

lemma distinct_new: "distinct (xs @ ys) \<Longrightarrow> z \<notin> set xs \<Longrightarrow> z \<notin> set ys \<Longrightarrow> distinct ((xs @ [z]) @ ys) \<and> distinct (xs @ ys @ [z])"
  by auto

lemma names_new_user:
  assumes "names_ok d" "insert_user_row i n e h now d = Inr (x, d')" "org_by_name n d = None"
  shows "names_ok d'"
proof -
  have d': "\<not> username_conflict n d" "owner_names d' = (map (to_ascii_lowercase \<circ> user_username) (t_users d)
      @ [to_ascii_lowercase n]) @ map (to_ascii_lowercase \<circ> org_name) (t_organizations d)"
    using assms(2) by (auto simp: insert_user_row_def owner_names_def split: if_splits)
  show ?thesis
    using distinct_new [OF assms(1) [unfolded names_ok_def owner_names_def] d'(1) [unfolded username_free] no_such_org [OF assms(3)]]
      d'(2) by (simp add: names_ok_def)
qed

lemma names_new_org:
  assumes "names_ok d" "user_by_username n d = None"
    "\<not> list_ex (\<lambda>g. org_id g = i \<or> eq_ignore_ascii_case (org_name g) n) (t_organizations d)"
  shows "names_ok (d\<lparr>t_organizations := t_organizations d @ [\<lparr>org_id = i, org_name = n, org_display_name = s\<rparr>]\<rparr>)"
proof -
  have "to_ascii_lowercase n \<notin> set (map (to_ascii_lowercase \<circ> org_name) (t_organizations d))"
    using assms(3) by (force simp: list_ex_iff eq_ignore_ascii_case_def)
  from distinct_new [OF assms(1) [unfolded names_ok_def owner_names_def] no_such_user [OF assms(2)] this]
  show ?thesis by (simp add: names_ok_def owner_names_def)
qed

section \<open>Both ways in\<close>

lemma hoare_keeps: "keeps I m \<Longrightarrow> hoare (\<lambda>w. I (tables w)) m (\<lambda>_ w. I (tables w)) (\<lambda>w. I (tables w))"
  by (rule hoareI) (auto dest: keepsD split: sum.split)

lemma keeps_names_option: "keeps names_ok m \<Longrightarrow> (\<And>x. keeps names_ok (f x)) \<Longrightarrow> keeps names_ok (case z of None \<Rightarrow> m | Some x \<Rightarrow> f x)"
  by (cases z) simp_all

lemma keeps_names_if: "keeps names_ok m \<Longrightarrow> keeps names_ok n \<Longrightarrow> keeps names_ok (if b then m else n)"
  by simp

lemma names_frame:
  "names_ok (d\<lparr>t_verification_tokens := rows\<rparr>) = names_ok d" "names_ok (d\<lparr>t_accounts := accounts\<rparr>) = names_ok d"
  "names_ok (d\<lparr>t_teams := teams\<rparr>) = names_ok d" "names_ok (d\<lparr>t_team_members := members\<rparr>) = names_ok d"
  by (rule names_same; simp)+

lemma keeps_names_tokens:
  "keeps names_ok (invalidate_verifications uid)" "keeps names_ok (insert_verification_token i uid h expires)"
  unfolding invalidate_verifications_def insert_verification_token_def
  by (auto intro!: names.keeps_rules names.keeps_sql simp: names_frame split: sum.splits)

lemma keeps_names_verification: "keeps names_ok (verification_request env i)"
  unfolding verification_request_def find_by_id_def account_status_def generate_raw_token_def
  by (intro names.keeps_rules keeps_names_option keeps_names_if keeps_names_tokens)

lemma keeps_names_stamp: "keeps names_ok (stamped_signup env policy i n e)"
proof -
  have "keeps names_ok (stamp_signup_status i a b)" for a b
    unfolding stamp_signup_status_def by (rule names.keeps_execute) (simp add: names_frame)
  then show ?thesis
    unfolding stamped_signup_def by (intro names.keeps_rules keeps_names_if keeps_names_verification)
qed

definition named_ok :: "world \<Rightarrow> bool" where
  "named_ok w = names_ok (tables w)"

lemma named_ok_eq: "named_ok = (\<lambda>w. names_ok (tables w))"
  by (rule ext) (simp add: named_ok_def)

lemma insert_user_named:
  assumes "names_ok d" "org_by_name n d = None"
  shows "hoare (\<lambda>w. tables w = d) (insert_user i n e h) (\<lambda>_. named_ok) named_ok"
proof (rule hoareI)
  fix w r w' assume "tables w = d" "insert_user i n e h w = (r, w')"
  then have "names_ok (tables w')"
    using assms names_new_user [OF assms(1) _ assms(2)]
    by (auto simp: insert_user_def and_then_def now_unix_def sql_def Let_def
        split: prod.splits sum.splits if_splits db_error.splits)
  then show "case r of Inr x \<Rightarrow> named_ok w' | Inl z \<Rightarrow> named_ok w'" by (simp add: named_ok_def split: sum.split)
qed

lemma hoare_signup:
  assumes "names_ok d"
  shows "hoare (\<lambda>w. tables w = d) (signup env policy u e p) (\<lambda>_. named_ok) named_ok"
proof -
  have E: "named_ok w" if "tables w = d" for w using that assms by (simp add: named_ok_def)
  have stamp: "hoare named_ok (stamped_signup env policy i n m) (\<lambda>_. named_ok) named_ok" for i n m
    unfolding named_ok_eq by (rule hoare_keeps [OF keeps_names_stamp])
  have free: "hoare (\<lambda>w. tables w = d) (map_err SuDb (select (org_by_name n))) (\<lambda>x w. tables w = d \<and> x = org_by_name n d) named_ok" for n
    by (rule hoare_map_err, rule hoare_reads [OF read_only_select E], assumption) (auto dest: select_Inr)
  have refused: "hoare (\<lambda>w. tables w = d) (err x) (\<lambda>_. named_ok) named_ok" for x :: signup_error
    by (rule hoare_weaken [OF hoare_err]) (use E in auto)
  have insert: "hoare (\<lambda>w. tables w = d) (and_then (and_then (hash_password env p) (or_err SuHash)) (\<lambda>h.
          and_then fresh_uuid (\<lambda>i.
            and_then (map_err signup_of_insert (insert_user i n m h)) (\<lambda>_. stamped_signup env policy i n m)))) (\<lambda>_. named_ok) named_ok"
    if "org_by_name n d = None" for n m
    unfolding hash_password_def
    by (rule hoare_and_then [OF hoare_read [OF _ E]], intro read_only_rules, assumption,
        rule hoare_and_then [OF hoare_read [OF read_only_fresh E]], assumption,
        rule hoare_and_then [OF hoare_map_err [OF insert_user_named [OF assms that]]], rule stamp)
  show ?thesis
    unfolding signup_def Let_def
    using refused by (auto intro!: hoare_and_then [OF free] hoare_assume refused insert)
qed

lemma keeps_names_team:
  "keeps names_ok (team_insert t i n p)"
  "keeps names_ok (sql (\<lambda>d. if (t, v) \<in> set (t_team_members d) then Inl UniqueViolation
     else if user_by_id v d = None then Inl ForeignKeyViolation
     else Inr ((), d\<lparr>t_team_members := t_team_members d @ [(t, v)]\<rparr>)))"
  unfolding team_insert_def
  by (rule names.keeps_sql, auto simp: names_frame split: if_splits)+

lemma insert_organization_named:
  assumes "names_ok d" "user_by_username n d = None"
  shows "hoare (\<lambda>w. tables w = d) (organization_insert i n s v) (\<lambda>_. named_ok) named_ok"
proof (rule hoareI)
  fix w r w' assume w: "tables w = d" and run: "organization_insert i n s v w = (r, w')"
  have "names_ok (tables w')"
  proof (cases r)
    case (Inl e)
    then show ?thesis using run w assms(1) transaction_Inl unfolding organization_insert_def by fastforce
  next
    case (Inr t)
    let ?row = "\<lambda>d. if list_ex (\<lambda>g. org_id g = i \<or> eq_ignore_ascii_case (org_name g) n) (t_organizations d) then Inl UniqueViolation
                     else Inr ((), d\<lparr>t_organizations := t_organizations d @ [\<lparr>org_id = i, org_name = n, org_display_name = s\<rparr>]\<rparr>)"
    let ?rest = "\<lambda>_. and_then fresh_uuid (\<lambda>t.
            and_then (map_err InsertOrgDb (team_insert t i ''Owners'' TPAdmin)) (\<lambda>_.
              and_then (map_err InsertOrgDb (sql (\<lambda>d. if (t, v) \<in> set (t_team_members d) then Inl UniqueViolation
                           else if user_by_id v d = None then Inl ForeignKeyViolation
                           else Inr ((), d\<lparr>t_team_members := t_team_members d @ [(t, v)]\<rparr>)))) (\<lambda>_. ok t)))"
    obtain w1 w2 where body: "tables w1 = d" "tables w' = tables w2"
        "and_then (map_err (\<lambda>e. if e = UniqueViolation then NameTaken else InsertOrgDb e) (sql ?row)) ?rest w1 = (Inr t, w2)"
      using run w Inr unfolding organization_insert_def by (auto elim: transaction_Inr)
    from body(3) obtain w3 where row: "sql ?row w1 = (Inr (), w3)" and rest: "?rest () w3 = (Inr t, w2)"
      by (auto simp: act_simps)
    have "names_ok (tables w3)"
      using row names_new_org [OF assms, of i s] body(1) by (auto simp: sql_def Let_def split: if_splits)
    moreover have "keeps names_ok (?rest ())"
      by (intro names.keeps_rules keeps_names_team)
    ultimately have "names_ok (tables (snd (?rest () w3)))" unfolding keeps_def by blast
    then show ?thesis unfolding rest body(2) by simp
  qed
  then show "case r of Inr x \<Rightarrow> named_ok w' | Inl z \<Rightarrow> named_ok w'" by (simp add: named_ok_def split: sum.split)
qed

lemma hoare_create_organization:
  assumes "names_ok d"
  shows "hoare (\<lambda>w. tables w = d) (create_organization n s v) (\<lambda>_. named_ok) named_ok"
proof -
  have E: "named_ok w" if "tables w = d" for w using that assms by (simp add: named_ok_def)
  have free: "hoare (\<lambda>w. tables w = d) (map_err CoDb (select (user_by_username n))) (\<lambda>x w. tables w = d \<and> x = user_by_username n d) named_ok" for n
    by (rule hoare_map_err, rule hoare_reads [OF read_only_select E], assumption) (auto dest: select_Inr)
  have insert: "hoare (\<lambda>w. tables w = d) (and_then (ensure (x = None) CoNameTaken) (\<lambda>_.
            and_then fresh_uuid (\<lambda>i.
              and_then (map_err create_organization_of_insert (organization_insert i n s v)) (\<lambda>t.
                ok (\<lparr>org_id = i, org_name = n, org_display_name = s\<rparr>, t))))) (\<lambda>_. named_ok) named_ok"
    if "x = user_by_username n d" for x n
    by (rule hoare_and_then [OF hoare_reads [where A = "\<lambda>_. x = None", OF read_only_ensure E]], assumption, simp add: act_simps,
        rule hoare_assume, rule hoare_and_then [OF hoare_read [OF read_only_fresh E]], assumption,
        rule hoare_and_then [OF hoare_map_err [OF insert_organization_named [OF assms]]], use that in simp, rule hoare_ok)
  show ?thesis
    unfolding create_organization_def Let_def
    by (rule hoare_and_then [OF hoare_read [OF read_only_ensure E]], assumption,
        rule hoare_and_then [OF free], rule hoare_assume, rule insert)
qed

datatype name_op =
    NoSignup registration_policy string string string
  | NoOrganization string "string option" uuid

fun run_name_op :: "auth_env \<Rightarrow> name_op \<Rightarrow> world \<Rightarrow> world" where
  "run_name_op env (NoSignup policy u e p) w = snd (signup env policy u e p w)"
| "run_name_op env (NoOrganization n s v) w = snd (create_organization n s v w)"

lemma run_name_op_ok:
  assumes "names_ok (tables w)"
  shows "names_ok (tables (run_name_op env op w))"
proof -
  have "names_ok (tables (snd (m w)))" if "hoare (\<lambda>v. tables v = tables w) m (\<lambda>_. named_ok) named_ok" for m :: "('e, 'x) act"
    using hoare_snd [OF that, of w] by (simp add: named_ok_def)
  note this [OF hoare_signup [OF assms]] this [OF hoare_create_organization [OF assms]]
  then show ?thesis by (cases op) simp_all
qed

text \<open>C37. One name, one owner. Through any sequence of signups and organizations being created, wherever a
  statement fails, no two accounts, no two organizations, and no account and organization have names that
  differ in case only; so the name of every organization finds that organization and no account. The
  operations run one after the other: each looks before it inserts, without a transaction. Accounts have a
  third way in, which does not look: see \<open>provisioned_account_takes_organization_name\<close>.\<close>

theorem names_stay_unambiguous:
  assumes "names_ok (tables w)"
  shows "names_ok (tables (fold (run_name_op env) ops w))
    \<and> (\<forall>g\<in>set (t_organizations (tables (fold (run_name_op env) ops w))).
         user_by_username (org_name g) (tables (fold (run_name_op env) ops w)) = None
         \<and> org_by_name (org_name g) (tables (fold (run_name_op env) ops w)) = Some g)"
proof -
  let ?d = "tables (fold (run_name_op env) ops w)"
  have ok: "names_ok ?d" using assms by (induction ops arbitrary: w) (auto intro: run_name_op_ok)
  have "user_by_username (org_name g) ?d = None \<and> org_by_name (org_name g) ?d = Some g" if "g \<in> set (t_organizations ?d)" for g
  proof
    show "user_by_username (org_name g) ?d = None"
      using ok that by (fastforce simp: names_ok_def owner_names_def user_by_username_def find_None_iff eq_ignore_ascii_case_def)
    have "distinct (map (to_ascii_lowercase \<circ> org_name) (t_organizations ?d))"
      using ok by (simp add: names_ok_def owner_names_def)
    from find_distinct_key [OF this that] show "org_by_name (org_name g) ?d = Some g"
      by (simp add: org_by_name_def eq_ignore_ascii_case_def)
  qed
  with ok show ?thesis by blast
qed

theorem names_stay_unambiguous_witness:
  "names_ok (tables (fold (run_name_op toy_env)
     [NoSignup default_registration_policy ''bob'' ''b@x'' ''pw'', NoOrganization ''acme'' None 0,
      NoSignup default_registration_policy ''ACME'' ''c@x'' ''pw''] (world_of empty_db [])))"
  using names_stay_unambiguous [of "world_of empty_db []" toy_env
      "[NoSignup default_registration_policy ''bob'' ''b@x'' ''pw'', NoOrganization ''acme'' None 0,
        NoSignup default_registration_policy ''ACME'' ''c@x'' ''pw'']"]
  by (simp add: world_of_def names.inv_empty)

section \<open>The way in that does not look\<close>

text \<open>The account that an external sign-in provisions is given a name made of the email and of eight drawn
  characters; nothing compares it with the organizations' names.\<close>

theorem provisioned_account_takes_organization_name:
  fixes p :: provider_config
  defines "d \<equiv> empty_db\<lparr>t_organizations := [\<lparr>org_id = 1, org_name = ''eve_F'', org_display_name = None\<rparr>]\<rparr>"
  shows "names_ok d" "\<not> names_ok (tables (snd (insert_oauth_user toy_env p (Some 1) ''subject'' ''eve@x'' (world_of d []))))"
proof -
  show "names_ok d" unfolding d_def by code_simp
  show "\<not> names_ok (tables (snd (insert_oauth_user toy_env p (Some 1) ''subject'' ''eve@x'' (world_of d []))))"
    unfolding d_def by code_simp
qed

end
