(* ===== verification/OAuth_Proofs.thy ===== *)
theory OAuth_Proofs
  imports OAuth Login_Proofs Sequencing
begin

text \<open>
  What an external identity provider can and cannot do to accounts: the account-linking policy of
  \<open>OAuth\<close>, for every outcome of a callback and whatever statement fails on the way, what a session needs,
  and the ways around an administrator's approval and a second factor.
\<close>

section \<open>Which identities a callback adds\<close>

definition linked_only :: "(oauth_identity \<Rightarrow> bool) \<Rightarrow> db \<Rightarrow> db \<Rightarrow> bool" where
  "linked_only P d d' \<longleftrightarrow> (\<forall>x\<in>set (t_oauth_identities d'). x \<in> set (t_oauth_identities d) \<or> P x)"

lemma linked_only_refl [simp]: "linked_only P d d"
  by (simp add: linked_only_def)

lemma linked_only_same: "t_oauth_identities d' = t_oauth_identities d \<Longrightarrow> linked_only P d d'"
  by (simp add: linked_only_def)

interpretation links: db_invariant "linked_only P d" for P d
  by unfold_locales (simp add: linked_only_def empty_db_def)

lemma keeps_insert_identity:
  assumes "\<And>t. P \<lparr>oi_id = i, oi_user_id = uid, oi_provider = provider, oi_subject_id = subject, oi_created_at = t\<rparr>"
  shows "keeps (linked_only P d) (insert_oauth_identity i uid provider subject)"
  unfolding insert_oauth_identity_def
  by (intro links.keeps_and_then links.keeps_now links.keeps_sql)
    (use assms in \<open>auto simp: linked_only_def split: if_splits\<close>)

lemma keeps_stamp_links: "keeps (linked_only P d) (stamp_signup_status i x y)"
  unfolding stamp_signup_status_def by (rule links.keeps_execute) (simp add: linked_only_def)

lemma keeps_audit_links: "keeps (linked_only P d) (audit_user e i)"
  unfolding audit_user_def audit_record_def
  by (intro links.keeps_rules) (simp add: linked_only_def)

lemma keeps_insert_user_links: "keeps (linked_only P d) (insert_user i n e h)"
proof -
  have "keeps (linked_only P d) (sql (insert_user_row i n e h now))" for now
    by (rule links.keeps_sql) (auto simp: insert_user_row_def linked_only_def split: if_splits)
  then show ?thesis
    unfolding insert_user_def keeps_def and_then_def now_unix_def
    by (auto split: prod.splits sum.splits db_error.splits) (metis snd_conv)+
qed

lemma insert_user_Inr:
  assumes "insert_user i n e h w = (Inr x, w')"
  shows "\<not> user_exists i (tables w) \<and> \<not> email_conflict e (tables w)
    \<and> t_users (tables w') = t_users (tables w) @
         [\<lparr>user_id = i, user_username = n, user_email = e, user_is_admin = False, user_disabled_at = None,
           user_email_notifications = True\<rparr>]"
  using assms
  by (auto simp: insert_user_def and_then_def now_unix_def sql_def Let_def insert_user_row_def
      split: prod.splits sum.splits if_splits db_error.splits)

lemma read_only_find_by_id: "read_only (find_by_id i)"
  unfolding find_by_id_def by (rule read_only_select)

text \<open>Creating an account links the new account only.\<close>

lemma keeps_insert_oauth_user_tail:
  assumes "\<And>i t. P \<lparr>oi_id = i, oi_user_id = uid, oi_provider = pc_name p, oi_subject_id = subject, oi_created_at = t\<rparr>"
  shows "keeps (linked_only P d)
    (and_then now_unix (\<lambda>now.
       and_then (map_err OaDb (stamp_signup_status uid a (Some now))) (\<lambda>_.
         and_then fresh_uuid (\<lambda>i.
           and_then (map_err OaDb (insert_oauth_identity i uid (pc_name p) subject)) (\<lambda>_.
             and_then (map_err OaDb (find_by_id uid)) (\<lambda>row. or_err OaPanic (map_option ur_user row)))))))"
  by (intro links.keeps_rules keeps_stamp_links keeps_insert_identity assms keeps_read_only [OF read_only_find_by_id])

lemma insert_oauth_user_links:
  assumes run: "insert_oauth_user env p a subject email w = (r, w')"
  shows "linked_only (\<lambda>x. \<not> user_exists (oi_user_id x) (tables w) \<and> oi_provider x = pc_name p \<and> oi_subject_id x = subject)
    (tables w) (tables w')"
proof -
  let ?P = "\<lambda>x. \<not> user_exists (oi_user_id x) (tables w) \<and> oi_provider x = pc_name p \<and> oi_subject_id x = subject"
  have hash: "read_only (and_then (hash_password env s) (or_err OaPanic))" for s
    unfolding hash_password_def by (intro read_only_rules)
  have ro: "read_only (derive_username_from_email env email)" "read_only (random_unusable_secret env)"
    unfolding derive_username_from_email_def random_unusable_secret_def by (intro read_only_rules)+
  consider "tables w' = tables w"
    | n h uid w1 where "tables w1 = tables w" "and_then (map_err oauth_of_insert (insert_user uid n email h)) (\<lambda>_.
          and_then now_unix (\<lambda>now.
            and_then (map_err OaDb (stamp_signup_status uid a (Some now))) (\<lambda>_.
              and_then fresh_uuid (\<lambda>i.
                and_then (map_err OaDb (insert_oauth_identity i uid (pc_name p) subject)) (\<lambda>_.
                  and_then (map_err OaDb (find_by_id uid)) (\<lambda>row. or_err OaPanic (map_option ur_user row))))))) w1 = (r, w')"
    using run unfolding insert_oauth_user_def
    by (elim read_only_thenE [OF _ ro(1)] read_only_thenE [OF _ ro(2)] read_only_thenE [OF _ hash]
        read_only_thenE [OF _ read_only_fresh]) auto
  then show ?thesis
  proof cases
    case 1
    then show ?thesis by simp
  next
    case 2
    from 2(2) show ?thesis
    proof (cases rule: and_thenE)
      case (1 u w2)
      then have ins: "insert_user uid n email h w1 = (Inr u, w2)" by (simp add: map_err_Inr)
      have "linked_only ?P (tables w) (tables w2)"
        using keepsD [OF keeps_insert_user_links _ ins] 2(1) by simp
      then show ?thesis
        by (rule keepsD [OF keeps_insert_oauth_user_tail _ 1(2), rotated])
          (use insert_user_Inr [OF ins] 2(1) in simp)
    next
      case (2 e)
      then show ?thesis
        using keepsD [OF links.keeps_map_err [OF keeps_insert_user_links], of ?P "tables w" w1 oauth_of_insert uid n email h]
          \<open>tables w1 = tables w\<close> by simp
    qed
  qed
qed

lemma read_only_claims: "read_only (verified_claims oc p c v n)"
  unfolding verified_claims_def read_only_def
  by (auto simp: and_then_def now_unix_def ok_def err_def split: sum.splits)

lemma verified_claims_Inr:
  "verified_claims oc p c v n w = (Inr z, w') \<Longrightarrow> oc_claims oc p (clock w) c v n = Inr z \<and> tables w' = tables w"
  unfolding verified_claims_def by (auto simp: and_then_def now_unix_def ok_def err_def split: sum.splits)

definition new_link :: "provider_config \<Rightarrow> string \<Rightarrow> db \<Rightarrow> oauth_identity \<Rightarrow> bool" where
  "new_link p subject d x \<longleftrightarrow>
     \<not> user_exists (oi_user_id x) d \<and> oi_provider x = pc_name p \<and> oi_subject_id x = subject"

lemma provision_links:
  assumes run: "oauth_provision env p subject email w = (r, w')"
  shows "linked_only (new_link p subject (tables w)) (tables w) (tables w')"
proof -
  have created: "linked_only (new_link p subject (tables w)) (tables w) (tables w')"
    if "and_then (insert_oauth_user env p a subject email) (\<lambda>u. ok (f u)) w1 = (r, w')" "tables w1 = tables w"
    for a w1 and f :: "user \<Rightarrow> login_outcome"
    using that unfolding new_link_def
    by (auto simp: and_then_def ok_def split: prod.splits sum.splits dest!: insert_oauth_user_links)
  have ro: "read_only (map_err OaDb (find_by_email email))"
    unfolding find_by_email_def by (intro read_only_rules)
  show ?thesis
  proof (cases "provider_allows_domain p email")
    case False
    then show ?thesis using run by (simp add: oauth_provision_def ok_def)
  next
    case True
    from run [unfolded oauth_provision_def] True have "and_then (map_err OaDb (find_by_email email)) (\<lambda>existing.
        if existing \<noteq> None then ok EmailBelongsToExistingAccount
        else and_then now_unix (\<lambda>now.
          case pc_provisioning p of
            LinkOnly \<Rightarrow> ok ProvisioningNotAllowed
          | ProvisionAuto \<Rightarrow>
              and_then (insert_oauth_user env p (Some now) subject email) (\<lambda>u. ok (NewAccountCreated u))
          | ProvisionApproval \<Rightarrow>
              and_then (insert_oauth_user env p None subject email) (\<lambda>u. ok (NewAccountPendingApproval u)))) w = (r, w')"
      by simp
    then show ?thesis
    proof (cases rule: read_only_thenE [OF _ ro, consumes 1, case_names 1 2])
      case (1 existing w1)
      then show ?thesis
        by (cases existing; cases "pc_provisioning p")
          (auto simp: and_then_def [of now_unix] now_unix_def ok_def intro: created)
    qed simp
  qed
qed

lemma complete_links:
  assumes run: "oauth_complete env oc p c v n w = (r, w')"
  shows "tables w' = tables w \<or> (\<exists>subject claimed. oc_claims oc p (clock w) c v n = Inr (subject, claimed)
    \<and> linked_only (new_link p subject (tables w)) (tables w) (tables w'))"
proof -
  have ro: "read_only (and_then (map_err OaDb (find_by_id i)) (\<lambda>row. and_then (or_err OaPanic row) (\<lambda>row. ok (LoggedIn (ur_user row)))))" for i
    by (intro read_only_rules read_only_find_by_id)
  have ro2: "read_only (map_err OaDb (find_by_provider_subject a b))" for a b
    unfolding find_by_provider_subject_def by (intro read_only_rules)
  from run show ?thesis
    unfolding oauth_complete_def
  proof (cases rule: and_thenE)
    case (1 z w1)
    obtain subject claimed where z: "z = (subject, claimed)" by fastforce
    note cl = verified_claims_Inr [OF 1(1), unfolded z]
    from 1(2) show ?thesis unfolding z prod.case
    proof (cases rule: read_only_thenE [OF _ read_only_or_err, consumes 1, case_names 1 2])
      case (1 email w2)
      from 1(3) show ?thesis
      proof (cases rule: read_only_thenE [OF _ ro2, consumes 1, case_names 1 2])
        case found: (1 identity w3)
        have same: "tables w3 = tables w" using found(2) 1(2) cl by simp
        show ?thesis
        proof (cases identity)
          case (Some x)
          with found(3) show ?thesis using read_only_tables [OF ro, of "oi_user_id x" w3 r w'] same by simp
        next
          case None
          with found(3) have "oauth_provision env p subject email w3 = (r, w')" by simp
          from provision_links [OF this] same cl show ?thesis by auto
        qed
      qed (use 1 cl in simp)
    qed (use cl in simp)
  next
    case (2 e)
    then show ?thesis using read_only_tables [OF read_only_claims] by blast
  qed
qed

lemma link_links:
  assumes run: "oauth_link oc p uid c v n w = (r, w')"
  shows "tables w' = tables w \<or> (\<exists>subject claimed. oc_claims oc p (clock w) c v n = Inr (subject, claimed)
    \<and> linked_only (\<lambda>x. oi_user_id x = uid \<and> oi_provider x = pc_name p \<and> oi_subject_id x = subject) (tables w) (tables w'))"
  using run unfolding oauth_link_def
proof (cases rule: and_thenE)
  case (1 z w1)
  obtain subject claimed where z: "z = (subject, claimed)" by fastforce
  note cl = verified_claims_Inr [OF 1(1), unfolded z]
  have "keeps (linked_only (\<lambda>x. oi_user_id x = uid \<and> oi_provider x = pc_name p \<and> oi_subject_id x = subject) (tables w))
     (and_then fresh_uuid (\<lambda>i. and_then (map_err OaDb (insert_oauth_identity i uid (pc_name p) subject)) (\<lambda>_. ok ())))"
    by (intro links.keeps_rules keeps_insert_identity) simp
  from keepsD [OF this _ 1(2) [unfolded z prod.case]] cl show ?thesis by auto
next
  case (2 e)
  then show ?thesis using read_only_tables [OF read_only_claims] by blast
qed

lemma keeps_sign_in: "keeps (linked_only P d) (oauth_sign_in env u)"
proof -
  have ro: "read_only (backend_get_user env t)" "read_only start_session" for t
    unfolding backend_get_user_def start_session_def find_by_id_def
    by (cases "uuid_parse env t") (auto intro: read_only_rules)
  have "keeps (linked_only P d) (case found of
           Inr (Some row) \<Rightarrow>
             and_then (map_err (\<lambda>_. OaFailed 500) start_session) (\<lambda>_.
               and_then (map_err (\<lambda>_. OaFailed 500) (audit_user ''auth.login.success'' (user_id u))) (\<lambda>_. ok (OaSignedIn u)))
         | _ \<Rightarrow> err (OaRefused 500 ''could not resolve the session identity''))" for found :: "db_error + user_row option"
    by (auto intro!: links.keeps_rules keeps_audit_links keeps_read_only [OF ro(2)] split: sum.splits option.splits)
  then show ?thesis
    unfolding oauth_sign_in_def by (intro links.keeps_and_then links.keeps_ensure links.keeps_outcome keeps_read_only [OF ro(1)])
qed

definition may_link ::
  "auth_env \<Rightarrow> oidc_client \<Rightarrow> provider_config list \<Rightarrow> pending_oauth \<Rightarrow> string \<Rightarrow> world \<Rightarrow> oauth_identity \<Rightarrow> bool" where
  "may_link env oc ps po c w x \<longleftrightarrow>
     (\<exists>p claimed. provider_by_name (po_provider_name po) ps = Some p \<and> oi_provider x = pc_name p
        \<and> oc_claims oc p (clock w) c (po_pkce_verifier po) (po_nonce po) = Inr (oi_subject_id x, claimed))
     \<and> (case po_link_user_id po of
          None \<Rightarrow> \<not> user_exists (oi_user_id x) (tables w)
        | Some t \<Rightarrow> uuid_parse env t = Some (oi_user_id x))"

lemma linked_only_mono: "linked_only P d d' \<Longrightarrow> (\<And>x. P x \<Longrightarrow> Q x) \<Longrightarrow> linked_only Q d d'"
  by (auto simp: linked_only_def)

lemma resolved_name: "resolve_provider ps (Some n) = Inr p \<Longrightarrow> provider_by_name n ps = Some p"
  by (auto simp: resolve_provider_def split: if_splits option.splits)

lemma outcome_reply_links: "keeps (linked_only P d) (outcome_reply env out)"
  by (cases out) (simp_all add: keeps_sign_in links.keeps_err)

lemma finish_login_links:
  assumes "finish_login env oc p po c w = (r, w')"
    "provider_by_name (po_provider_name po) ps = Some p" "po_link_user_id po = None"
  shows "linked_only (may_link env oc ps po c w) (tables w) (tables w')"
proof -
  have lk: "linked_only (may_link env oc ps po c w) (tables w) (tables w1)"
    if "oauth_complete env oc p c (po_pkce_verifier po) (po_nonce po) w = (q, w1)" for q w1
    using complete_links [OF that]
  proof (elim disjE exE conjE)
    fix subject claimed
    assume "oc_claims oc p (clock w) c (po_pkce_verifier po) (po_nonce po) = Inr (subject, claimed)"
      "linked_only (new_link p subject (tables w)) (tables w) (tables w1)"
    then show ?thesis using assms(2,3) by (elim linked_only_mono) (auto simp: new_link_def may_link_def)
  qed simp
  from assms(1) show ?thesis unfolding finish_login_def
  proof (cases rule: and_thenE)
    case (1 out w1)
    then show ?thesis using keepsD [OF outcome_reply_links lk 1(2)] by (simp add: map_err_Inr)
  next
    case (2 e)
    then show ?thesis using lk by (metis map_errE)
  qed
qed

lemma finish_link_links:
  assumes "finish_link env oc p po c t w = (r, w')"
    "provider_by_name (po_provider_name po) ps = Some p" "po_link_user_id po = Some t"
  shows "linked_only (may_link env oc ps po c w) (tables w) (tables w')"
proof (cases "uuid_parse env t")
  case None
  then show ?thesis using assms(1) by (simp add: finish_link_def or_err_def err_def and_then_def)
next
  case (Some uid)
  have lk: "linked_only (may_link env oc ps po c w) (tables w) (tables w1)"
    if "oauth_link oc p uid c (po_pkce_verifier po) (po_nonce po) w = (q, w1)" for q w1
    using link_links [OF that]
  proof (elim disjE exE conjE)
    fix subject claimed
    assume "oc_claims oc p (clock w) c (po_pkce_verifier po) (po_nonce po) = Inr (subject, claimed)"
      "linked_only (\<lambda>x. oi_user_id x = uid \<and> oi_provider x = pc_name p \<and> oi_subject_id x = subject) (tables w) (tables w1)"
    then show ?thesis using assms(2,3) Some by (elim linked_only_mono) (auto simp: may_link_def)
  qed simp
  have k: "keeps (linked_only P d) (and_then (map_err (\<lambda>_. OaFailed 500) (audit_user ''auth.oauth.link'' uid)) (\<lambda>_. ok (OaLinked uid)))"
    for P d
    by (intro links.keeps_rules keeps_audit_links)
  from assms(1) Some have "and_then (map_err (\<lambda>_. OaFailed 400) (oauth_link oc p uid c (po_pkce_verifier po) (po_nonce po)))
      (\<lambda>_. and_then (map_err (\<lambda>_. OaFailed 500) (audit_user ''auth.oauth.link'' uid)) (\<lambda>_. ok (OaLinked uid))) w = (r, w')"
    by (simp add: finish_link_def or_err_def ok_def and_then_def)
  then show ?thesis
  proof (cases rule: and_thenE)
    case (1 x w1)
    then show ?thesis using keepsD [OF k lk 1(2)] by (simp add: map_err_Inr)
  next
    case (2 e)
    then show ?thesis using lk by (metis map_errE)
  qed
qed

text \<open>The gates in front of both ways to finish a flow.\<close>

lemma callback_cases:
  assumes "oauth_callback env oc ps pending c st w = (r, w')"
  obtains "tables w' = tables w" "isl r"
  | po p w1 where "pending = Some po" "st = po_csrf_token po" "provider_by_name (po_provider_name po) ps = Some p"
      "tables w1 = tables w" "clock w1 = clock w"
      "(case po_link_user_id po of Some t \<Rightarrow> finish_link env oc p po c t | None \<Rightarrow> finish_login env oc p po c) w1 = (r, w')"
  using assms unfolding oauth_callback_def
proof (cases rule: and_thenE)
  case (2 e)
  then show ?thesis using that(1) by (metis isl_def read_only_map_err read_only_select read_only_tables)
next
  case (1 u w1)
  then have w1: "tables w1 = tables w" "clock w1 = clock w" by (auto simp only: map_err_Inr dest: select_Inr)
  from 1(2) show ?thesis
  proof (cases rule: read_only_thenE [OF _ read_only_or_err, consumes 1, case_names 1 2])
    case (2 e)
    then show ?thesis using that(1) w1 by simp
  next
    case (1 po w2)
    then have po: "pending = Some po" "w2 = w1" by (auto simp: or_err_Inr)
    show ?thesis
    proof (cases "resolve_provider ps (Some (po_provider_name po))")
      case (Inl e)
      then show ?thesis using 1(3) po w1 that(1) by (auto simp: err_def)
    next
      case (Inr p)
      then show ?thesis using 1(3) po w1 that(1) that(2) [OF po(1) _ resolved_name [OF Inr] w1]
        by (cases "st = po_csrf_token po") (auto simp: and_then_def ensure_def ok_def err_def)
    qed
  qed
qed

text \<open>C10. Account linking. Whatever the outcome of a callback, and whatever statement fails on the way, an
  identity that was not linked before belongs to the subject the provider verified for this code, behind a
  pending flow whose state the request repeats; and it is attached either to the account for which that
  flow was started from a signed-in session, or, where the flow is a login, to an account that did not
  exist before. An email address never attaches an identity to an existing account.\<close>

theorem oauth_never_links_by_email:
  assumes "oauth_callback env oc ps pending c st w = (r, w')"
    "x \<in> set (t_oauth_identities (tables w'))" "x \<notin> set (t_oauth_identities (tables w))"
  shows "\<exists>po. pending = Some po \<and> st = po_csrf_token po
    \<and> (\<exists>p claimed. provider_by_name (po_provider_name po) ps = Some p \<and> oi_provider x = pc_name p
         \<and> oc_claims oc p (clock w) c (po_pkce_verifier po) (po_nonce po) = Inr (oi_subject_id x, claimed))
    \<and> (case po_link_user_id po of
         None \<Rightarrow> \<not> user_exists (oi_user_id x) (tables w)
       | Some t \<Rightarrow> uuid_parse env t = Some (oi_user_id x))"
  using assms(1)
proof (cases rule: callback_cases)
  case 1
  then show ?thesis using assms(2,3) by simp
next
  case (2 po p w1)
  have "may_link env oc ps po c w1 x"
    using finish_login_links [of env oc p po c w1 r w' ps] finish_link_links [of env oc p po c _ w1 r w' ps] 2 assms(2,3)
    by (cases "po_link_user_id po") (auto simp: linked_only_def)
  then have "may_link env oc ps po c w x" using 2(4,5) by (simp add: may_link_def split: option.splits)
  with 2(1,2) show ?thesis by (auto simp: may_link_def)
qed

section \<open>What a session needs\<close>

lemma sign_in_Inr:
  assumes "oauth_sign_in env v w = (Inr (OaSignedIn u), w')"
  shows "u = v \<and> user_disabled_at u = None"
proof -
  obtain found :: "db_error + user_row option" and w1 where "\<not> isl (require_enabled v)" "(case found of
           Inr (Some row) \<Rightarrow>
             and_then (map_err (\<lambda>_. OaFailed 500) start_session) (\<lambda>_.
               and_then (map_err (\<lambda>_. OaFailed 500) (audit_user ''auth.login.success'' (user_id v))) (\<lambda>_. ok (OaSignedIn v)))
         | _ \<Rightarrow> err (OaRefused 500 ''could not resolve the session identity'')) w1 = (Inr (OaSignedIn u), w')"
    using assms by (auto simp: oauth_sign_in_def act_simps)
  then show ?thesis
    by (cases found; cases "projr found") (auto simp: act_simps require_enabled_def split: if_splits)
qed

lemma user_by_id_append:
  "\<not> user_exists i d \<Longrightarrow> t_users d' = t_users d @ [u] \<Longrightarrow> user_id u = i \<Longrightarrow> user_by_id i d' = Some u"
proof -
  assume a: "\<not> user_exists i d" "t_users d' = t_users d @ [u]" "user_id u = i"
  have "find P (xs @ [y]) = Some y" if "\<forall>x\<in>set xs. \<not> P x" "P y" for P xs and y :: user
    using that by (induction xs) auto
  from this [of "t_users d" "\<lambda>u. user_id u = i" u] a show ?thesis
    by (auto simp: user_by_id_def user_exists_def list_ex_iff)
qed

lemma insert_identity_users:
  "insert_oauth_identity i u p s w = (Inr x, w') \<Longrightarrow> t_users (tables w') = t_users (tables w)"
  by (auto simp: insert_oauth_identity_def act_simps sql_def Let_def split: if_splits sum.splits)

lemma insert_oauth_user_Inr:
  assumes "insert_oauth_user env p a subject email w = (Inr u, w')"
  shows "\<not> user_exists (user_id u) (tables w) \<and> \<not> email_conflict email (tables w) \<and> user_email u = email"
proof -
  obtain n w1 sec w2 h hh w3 w3b uid w4 w5 w5b now w6 i w7 t w8 w9 row x1 x2 where
    r: "derive_username_from_email env email w = (Inr n :: oauth_error + string, w1)" "random_unusable_secret env w1 = (Inr sec :: oauth_error + string, w2)"
      "hash_password env sec w2 = (Inr hh :: oauth_error + string option, w3)" "hh = Some h" "w3b = w3" "fresh_uuid w3b = (Inr uid :: oauth_error + uuid, w4)"
      "insert_user uid n email h w4 = (Inr x1, w5)" "now = clock w5" "w5b = w5" "stamp_signup_status uid a (Some now) w5b = (Inr x2, w6)"
      "fresh_uuid w6 = (Inr i :: oauth_error + uuid, w7)" "insert_oauth_identity i uid (pc_name p) subject w7 = (Inr t, w8)"
      "find_by_id uid w8 = (Inr row, w9)" "map_option ur_user row = Some u"
    using assms unfolding insert_oauth_user_def
    by (simp only: and_then_Inr map_err_Inr or_err_Inr now_unix_Inr) (elim exE conjE, rule that, assumption+)
  have ro: "read_only (derive_username_from_email env email :: (oauth_error, string) act)"
    "read_only (random_unusable_secret env :: (oauth_error, string) act)"
    "read_only (hash_password env sec :: (oauth_error, string option) act)"
    unfolding derive_username_from_email_def random_unusable_secret_def hash_password_def by (intro read_only_rules)+
  have w4: "tables w4 = tables w"
    using read_only_tables [OF ro(1) r(1)] read_only_tables [OF ro(2) r(2)] read_only_tables [OF ro(3) r(3)]
      read_only_tables [OF read_only_fresh r(6)] r(5) by simp
  note ins = insert_user_Inr [OF r(7), unfolded w4]
  have users: "t_users (tables w8) = t_users (tables w5)"
    using insert_identity_users [OF r(12)] read_only_tables [OF read_only_fresh r(11)] r(9)
      execute_Inr [OF r(10) [unfolded stamp_signup_status_def]] by simp
  have "row = Option.bind (user_by_id uid (tables w8)) (row_of_user (tables w8))"
    using select_Inr [OF r(13) [unfolded find_by_id_def]] by simp
  moreover have "user_by_id uid (tables w8) = Some \<lparr>user_id = uid, user_username = n, user_email = email, user_is_admin = False,
      user_disabled_at = None, user_email_notifications = True\<rparr>"
    by (rule user_by_id_append [of _ "tables w"]) (use ins users in simp_all)
  ultimately have "u = \<lparr>user_id = uid, user_username = n, user_email = email, user_is_admin = False,
      user_disabled_at = None, user_email_notifications = True\<rparr>"
    using r(14) by (auto simp: row_of_user_def)
  with ins show ?thesis by simp
qed

lemma linked_user_Inr: "find_by_id i w = (Inr (Some row), w') \<Longrightarrow> user_by_id i (tables w) = Some (ur_user row)"
  unfolding find_by_id_def by (drule select_Inr) (auto simp: row_of_user_def bind_eq_Some_conv eq_commute [of "Some _"])

lemma provision_Inr:
  assumes "oauth_provision env p subject email w = (Inr out, w')" "out = LoggedIn u \<or> out = NewAccountCreated u"
  shows "pc_provisioning p = ProvisionAuto \<and> provider_allows_domain p email \<and> \<not> user_exists (user_id u) (tables w)
    \<and> \<not> email_conflict email (tables w) \<and> user_email u = email"
proof -
  have "insert_oauth_user env p a subject email w1 = (Inr u, w2) \<Longrightarrow> find_by_email email w = (Inr z, w1)
     \<Longrightarrow> \<not> user_exists (user_id u) (tables w) \<and> \<not> email_conflict email (tables w) \<and> user_email u = email" for a z w1 w2
    using insert_oauth_user_Inr [of env p a subject email w1 u w2] select_Inr unfolding find_by_email_def by fastforce
  with assms show ?thesis
    by (cases "pc_provisioning p") (auto simp: oauth_provision_def act_simps split: if_splits)
qed

lemma complete_Inr:
  assumes "oauth_complete env oc p c v n w = (Inr out, w')" "out = LoggedIn u \<or> out = NewAccountCreated u"
  shows "\<exists>subject email. oc_claims oc p (clock w) c v n = Inr (subject, Some email)
    \<and> (case identity_of (pc_name p) subject (tables w) of
         Some x \<Rightarrow> user_by_id (oi_user_id x) (tables w) = Some u
       | None \<Rightarrow> pc_provisioning p = ProvisionAuto \<and> provider_allows_domain p email
           \<and> \<not> user_exists (user_id u) (tables w) \<and> \<not> email_conflict email (tables w) \<and> user_email u = email)"
proof -
  obtain subject claimed w1 email identity w3 where
    r: "verified_claims oc p c v n w = (Inr (subject, claimed), w1)" "claimed = Some email"
      "find_by_provider_subject (pc_name p) subject w1 = (Inr identity, w3)"
      "(case identity of
             Some x \<Rightarrow>
               and_then (map_err OaDb (find_by_id (oi_user_id x))) (\<lambda>row.
                 and_then (or_err OaPanic row) (\<lambda>row. ok (LoggedIn (ur_user row))))
           | None \<Rightarrow> oauth_provision env p subject email) w3 = (Inr out, w')"
    using assms(1) unfolding oauth_complete_def by (auto simp: act_simps)
  note cl = verified_claims_Inr [OF r(1)]
  have w3: "identity = identity_of (pc_name p) subject (tables w)" "tables w3 = tables w"
    using r(3) cl select_Inr unfolding find_by_provider_subject_def by fastforce+
  show ?thesis
  proof (cases identity)
    case None
    with r(4) have "oauth_provision env p subject email w3 = (Inr out, w')" by simp
    moreover have "identity_of (pc_name p) subject (tables w) = None" using w3(1) None by simp
    ultimately show ?thesis using provision_Inr [OF _ assms(2)] cl r(2) w3(2) by fastforce
  next
    case (Some x)
    with r(4) assms(2) obtain row where "find_by_id (oi_user_id x) w3 = (Inr (Some row), w')" "u = ur_user row"
      by (auto simp: act_simps)
    moreover have "identity_of (pc_name p) subject (tables w) = Some x" using w3(1) Some by simp
    ultimately show ?thesis using linked_user_Inr cl r(2) w3(2) by fastforce
  qed
qed

text \<open>C11. A callback starts a session only behind a pending login (not a link) whose state the request
  repeats, for claims with an email that the provider verified, and only for an enabled account: the one
  the provider's subject is linked to, or, where it is linked to none, an account created in this very
  request, with a new id and that email, which no account had; that needs a provider which provisions
  accounts without approval and allows the email's domain. No failing statement weakens this.\<close>

theorem oauth_session_needs_link_or_new_account:
  assumes "oauth_callback env oc ps pending c st w = (Inr (OaSignedIn u), w')"
  shows "\<exists>po p subject email. pending = Some po \<and> st = po_csrf_token po \<and> po_link_user_id po = None
    \<and> provider_by_name (po_provider_name po) ps = Some p
    \<and> oc_claims oc p (clock w) c (po_pkce_verifier po) (po_nonce po) = Inr (subject, Some email)
    \<and> user_disabled_at u = None
    \<and> (case identity_of (pc_name p) subject (tables w) of
         Some x \<Rightarrow> user_by_id (oi_user_id x) (tables w) = Some u
       | None \<Rightarrow> pc_provisioning p = ProvisionAuto \<and> provider_allows_domain p email
           \<and> \<not> user_exists (user_id u) (tables w) \<and> \<not> email_conflict email (tables w) \<and> user_email u = email)"
  using assms
proof (cases rule: callback_cases)
  case 1
  then show ?thesis by simp
next
  case (2 po p w1)
  have none: "po_link_user_id po = None"
    using 2(6) by (cases "po_link_user_id po") (auto simp: finish_link_def act_simps)
  then obtain out w2 where out: "oauth_complete env oc p c (po_pkce_verifier po) (po_nonce po) w1 = (Inr out, w2)"
    "outcome_reply env out w2 = (Inr (OaSignedIn u), w')"
    using 2(6) by (auto simp: finish_login_def act_simps)
  have o: "out = LoggedIn u \<or> out = NewAccountCreated u" and en: "user_disabled_at u = None"
    using out(2) by (cases out; auto simp: act_simps dest!: sign_in_Inr)+
  obtain subject email where *: "oc_claims oc p (clock w) c (po_pkce_verifier po) (po_nonce po) = Inr (subject, Some email)"
    "case identity_of (pc_name p) subject (tables w) of
         Some x \<Rightarrow> user_by_id (oi_user_id x) (tables w) = Some u
       | None \<Rightarrow> pc_provisioning p = ProvisionAuto \<and> provider_allows_domain p email
           \<and> \<not> user_exists (user_id u) (tables w) \<and> \<not> email_conflict email (tables w) \<and> user_email u = email"
    using complete_Inr [OF out(1) o] unfolding 2(4,5) by blast
  show ?thesis
    by (intro exI [of _ po] exI [of _ p] exI [of _ subject] exI [of _ email] conjI) (rule * en none 2(1-3))+
qed

section \<open>Examples\<close>

definition toy_oidc :: oidc_client where
  "toy_oidc =
     \<lparr>oc_start = \<lambda>p n. Inr \<lparr>ar_url = ''u'', ar_csrf_token = ''csrf'', ar_nonce = ''n'', ar_pkce_verifier = ''v''\<rparr>,
      oc_claims = \<lambda>p now c v n. if c = ''code'' \<and> v = ''v'' \<and> n = ''n'' then Inr (''sub'', Some ''+bob@corp'')
                              else Inl (Verification [])\<rparr>"

definition toy_provider :: "provisioning \<Rightarrow> provider_config" where
  "toy_provider mode =
     \<lparr>pc_name = ''corp'', pc_display_name = ''Corp'', pc_issuer_url = ''i'', pc_client_id = ''c'', pc_client_secret = ''s'',
      pc_redirect_url = ''r'', pc_allowed_email_domains = [''corp''], pc_provisioning = mode\<rparr>"

definition toy_pending :: pending_oauth where
  "toy_pending =
     \<lparr>po_provider_name = ''corp'', po_csrf_token = ''csrf'', po_nonce = ''n'', po_pkce_verifier = ''v'', po_link_user_id = None\<rparr>"

definition toy_callback :: "provisioning \<Rightarrow> world \<Rightarrow> (oauth_reply + oauth_reply) \<times> world" where
  "toy_callback mode = oauth_callback toy_env toy_oidc [toy_provider mode] (Some toy_pending) ''code'' ''csrf''"

definition toy_identity :: "uuid \<Rightarrow> uuid \<Rightarrow> oauth_identity" where
  "toy_identity i uid =
     \<lparr>oi_id = i, oi_user_id = uid, oi_provider = ''corp'', oi_subject_id = ''sub'', oi_created_at = 100\<rparr>"

definition toy_new_user :: user where
  "toy_new_user = \<lparr>user_id = 73, user_username = ''_bob_F'', user_email = ''+bob@corp'', user_is_admin = False,
     user_disabled_at = None, user_email_notifications = True\<rparr>"

lemma toy_auto:
  "fst (toy_callback ProvisionAuto (world_of toy_db [])) = Inr (OaSignedIn toy_new_user)"
  "t_oauth_identities (tables (snd (toy_callback ProvisionAuto (world_of toy_db [])))) = [toy_identity 74 73]"
  by code_simp+

theorem oauth_never_links_by_email_witness:
  "\<not> user_exists 73 toy_db"
proof -
  obtain r w' where w': "toy_callback ProvisionAuto (world_of toy_db []) = (r, w')" by fastforce
  have x: "toy_identity 74 73 \<in> set (t_oauth_identities (tables w'))" using toy_auto(2) w' by simp
  have "t_oauth_identities (tables (world_of toy_db [])) = []" by code_simp
  then show ?thesis
    using oauth_never_links_by_email [OF w' [unfolded toy_callback_def] x]
    by (auto simp: toy_pending_def toy_identity_def world_of_def)
qed

theorem oauth_session_needs_link_or_new_account_witness:
  "provider_allows_domain (toy_provider ProvisionAuto) ''+bob@corp'' \<and> \<not> email_conflict ''+bob@corp'' toy_db"
proof -
  obtain w' where "toy_callback ProvisionAuto (world_of toy_db []) = (Inr (OaSignedIn toy_new_user), w')"
    using toy_auto(1) by (metis prod.collapse)
  note n = oauth_session_needs_link_or_new_account [OF this [unfolded toy_callback_def]]
  have "identity_of (pc_name (toy_provider ProvisionAuto)) ''sub'' (tables (world_of toy_db [])) = None" by code_simp
  moreover have "provider_by_name (po_provider_name toy_pending) [toy_provider ProvisionAuto] = Some (toy_provider ProvisionAuto)"
    by code_simp
  ultimately show ?thesis using n
    by (auto simp: world_of_def toy_pending_def toy_oidc_def)
qed

section \<open>Ways around an approval and a second factor\<close>

text \<open>With a provider that provisions accounts pending approval, the first callback answers that the account
  awaits approval, and the second one signs that account in, still unapproved. A linked identity signs in
  an account with an activated one-time password without asking for it. Where the statement that stamps a
  new account fails, the account stays behind approved. A provider's email can give an account a username
  that no repository identity admits.\<close>

theorem oauth_skips_approval_and_second_factor:
  "fst (toy_callback ProvisionApproval (world_of toy_db []))
     = Inl (OaRefused 202 ''your account was created and is awaiting administrator approval'')
   \<and> fst (toy_callback ProvisionApproval (snd (toy_callback ProvisionApproval (world_of toy_db []))))
     = Inr (OaSignedIn toy_new_user)
   \<and> account_status_of 73 (tables (snd (toy_callback ProvisionApproval (snd (toy_callback ProvisionApproval (world_of toy_db []))))))
     = Some \<lparr>st_disabled_at = None, st_email_verified_at = Some 100, st_approved_at = None\<rparr>
   \<and> fst (toy_callback LinkOnly (world_of ((with_totp toy_db)\<lparr>t_oauth_identities := [toy_identity 1 65]\<rparr>) []))
     = Inr (OaSignedIn toy_user)
   \<and> fst (toy_callback ProvisionApproval (world_of toy_db (fail_nth 4))) = Inl (OaFailed 502)
   \<and> account_status_of 73 (tables (snd (toy_callback ProvisionApproval (world_of toy_db (fail_nth 4)))))
     = Some \<lparr>st_disabled_at = None, st_email_verified_at = Some 100, st_approved_at = Some 100\<rparr>
   \<and> \<not> is_valid_username (user_username toy_new_user)"
  by (intro conjI) code_simp+

end
