(* ===== verification/Outbox_Proofs.thy ===== *)
theory Outbox_Proofs
  imports Outbox Frames
begin

text \<open>
  What the dispatcher guarantees: an event's jobs are enqueued exactly once and together with its
  being marked, whatever fails and however many dispatchers run; without failures the outbox drains;
  watchers are notified once and never of their own doing; and a push dismisses the approvals it
  makes stale.
\<close>

section \<open>Fan-out changes neither the outbox nor the queue\<close>

definition outbox_and_queue :: "db \<Rightarrow> event_record list \<times> job_record list" where
  "outbox_and_queue d = (t_events d, t_jobs d)"

abbreviation spares :: "('e, 'a) act \<Rightarrow> bool" where
  "spares m \<equiv> frames (\<lambda>w. outbox_and_queue (tables w)) m"

lemma spares_ro: "read_only m \<Longrightarrow> spares m"
  by (rule frames_read_only)

lemma read_only_or_else: "read_only m \<Longrightarrow> read_only (or_else x m)"
  unfolding or_else_def by (intro read_only_rules)

lemma read_only_pair: "(\<And>a b. read_only (f a b)) \<Longrightarrow> read_only (case p of (a, b) \<Rightarrow> f a b)"
  by (cases p) simp

lemmas ro_rules = read_only_rules read_only_or_else read_only_pair

lemma read_only_owner_display_name: "read_only (owner_display_name owner)"
  by (cases owner) (auto simp: owner_display_name_def intro!: ro_rules)

lemma read_only_notify: "read_only (notify u actor kind subject es action)"
  unfolding notify_def by (intro ro_rules)

lemma read_only_notify_watchers: "read_only (notify_watchers rid subject kind actor involved es action)"
  unfolding notify_watchers_def by (intro ro_rules read_only_notify)

lemma read_only_issue_activity: "read_only (issue_activity render i rid actor ev action note)"
  unfolding issue_activity_def
  by (intro ro_rules read_only_owner_display_name read_only_notify_watchers)

lemma read_only_pr_activity: "read_only (pr_activity render i rid actor ev action note)"
  unfolding pr_activity_def
  by (intro ro_rules read_only_owner_display_name read_only_notify_watchers)

lemma read_only_release_activity: "read_only (release_activity render i rid actor)"
  unfolding release_activity_def
  by (intro ro_rules read_only_owner_display_name read_only_notify_watchers)

lemma read_only_fan_out_merged: "read_only (fan_out_merged render i rid)"
  unfolding fan_out_merged_def
  by (intro ro_rules read_only_owner_display_name read_only_notify_watchers)

lemma read_only_fan_out_mention: "read_only (fan_out_mention u by source)"
  unfolding fan_out_mention_def by (intro ro_rules)

lemma read_only_find_matching: "read_only (find_matching rid branch)"
  unfolding find_matching_def list_rules_def by (intro ro_rules)

lemma spares_dismiss: "spares (dismiss_if_stale pr)"
  unfolding dismiss_if_stale_def dismiss_all_for_pull_request_def
  by (intro frames_basic spares_ro [OF read_only_find_matching] frames_tables_sql)
     (auto simp: outbox_and_queue_def dismiss_reviews_def)

lemma spares_branch_pushed: "spares (fan_out_branch_pushed render rid ref_name old new)"
  unfolding fan_out_branch_pushed_def
  by (intro frames_basic spares_dismiss spares_ro [OF read_only_select]
      spares_ro [OF read_only_owner_display_name])

lemma spares_fan_out: "spares (fan_out render ev)"
proof (cases ev)
  case (EvBranchPushed rid r old new p)
  then show ?thesis by (simp add: spares_branch_pushed)
qed (auto intro!: spares_ro ro_rules read_only_fan_out_merged read_only_fan_out_mention read_only_issue_activity
    read_only_pr_activity read_only_release_activity read_only_notify split: prod.split)

section \<open>One event\<close>

lemma enqueue_one_Inr:
  "jobs_enqueue p w = (Inr u, w') \<Longrightarrow>
     (\<exists>j. tables w' = (tables w)\<lparr>t_jobs := t_jobs (tables w) @ [j]\<rparr> \<and> job_payload j = p \<and> job_status j = JPending)"
  unfolding jobs_enqueue_def job_enqueue_def
  by (force simp: act_simps sql_def Let_def with_jobs_def new_job_def split: if_splits sum.splits)

lemma enqueue_all_Inr:
  "for_each ps jobs_enqueue w = (Inr u, w') \<Longrightarrow>
     (\<exists>js. tables w' = (tables w)\<lparr>t_jobs := t_jobs (tables w) @ js\<rparr> \<and> map job_payload js = ps
        \<and> (\<forall>j\<in>set js. job_status j = JPending))"
proof (induction ps arbitrary: w)
  case Nil
  then show ?case by (auto simp: act_simps intro: exI [of _ "[]"])
next
  case (Cons p ps)
  then obtain v w1 where one: "jobs_enqueue p w = (Inr v, w1)" and more: "for_each ps jobs_enqueue w1 = (Inr u, w')"
    by (auto simp: act_simps)
  obtain j where j: "tables w1 = (tables w)\<lparr>t_jobs := t_jobs (tables w) @ [j]\<rparr>" "job_payload j = p" "job_status j = JPending"
    using enqueue_one_Inr [OF one] by blast
  obtain js where "tables w' = (tables w1)\<lparr>t_jobs := t_jobs (tables w1) @ js\<rparr>" "map job_payload js = ps"
    "\<forall>j\<in>set js. job_status j = JPending"
    using Cons.IH [OF more] by blast
  then show ?case using j by (intro exI [of _ "j # js"]) simp
qed

text \<open>Either nothing happened to the outbox and the queue, or the event was unprocessed, is processed
  now, and its fan-out has been appended to the queue.\<close>

definition claimed_with :: "uuid \<Rightarrow> job_payload list \<Rightarrow> int \<Rightarrow> db \<Rightarrow> db \<Rightarrow> bool" where
  "claimed_with i payloads now d d' \<longleftrightarrow>
     list_ex (unprocessed i) (t_events d)
     \<and> t_events d' = update_where (unprocessed i) (\<lambda>e. e\<lparr>event_processed_at := Some now\<rparr>) (t_events d)
     \<and> (\<exists>js. t_jobs d' = t_jobs d @ js \<and> map job_payload js = payloads \<and> (\<forall>j\<in>set js. job_status j = JPending))"

lemma mark_event_processed_Inr:
  "mark_event_processed i w = (Inr b, w') \<Longrightarrow>
     (b \<longleftrightarrow> list_ex (unprocessed i) (t_events (tables w)))
     \<and> tables w' = (tables w)\<lparr>t_events := update_where (unprocessed i)
          (\<lambda>e. e\<lparr>event_processed_at := Some (clock w)\<rparr>) (t_events (tables w))\<rparr>"
  unfolding mark_event_processed_def
  by (auto simp: act_simps sql_def Let_def rows_affected_def filter_empty_conv list_ex_iff split: if_splits)

lemma process_one_cases:
  assumes "process_one render rec w = (r, w')"
  obtains (unclaimed) "outbox_and_queue (tables w') = outbox_and_queue (tables w)"
    | (claimed) payloads w1 now where "fan_out render (event_payload rec) w = (Inr payloads, w1)"
        "claimed_with (event_id rec) payloads now (tables w) (tables w')" "r = Inr ()"
proof -
  obtain s w1 where fo: "fan_out render (event_payload rec) w = (s, w1)" by fastforce
  have same: "outbox_and_queue (tables w1) = outbox_and_queue (tables w)"
    using framesD [OF spares_fan_out fo] .
  show thesis
  proof (cases s)
    case (Inl e)
    then have "w' = w1" using assms fo by (simp add: process_one_def and_then_def)
    then show thesis using unclaimed same by simp
  next
    case (Inr payloads)
    let ?body = "and_then (mark_event_processed (event_id rec)) (\<lambda>claimed.
            if \<not> claimed then ok () else for_each payloads jobs_enqueue)"
    have tx: "transaction (\<lambda>e. e) ?body w1 = (r, w')" using assms fo Inr by (simp add: process_one_def and_then_def)
    show thesis
    proof (cases r)
      case (Inl e)
      then have "tables w' = tables w1" using transaction_Inl tx by fastforce
      then show thesis using unclaimed same by simp
    next
      case (Inr u)
      show thesis
      proof (rule transaction_Inr [OF tx [unfolded Inr]])
        fix w2 w3 assume w2: "tables w2 = tables w1" and body: "?body w2 = (Inr u, w3)" and w3: "tables w' = tables w3"
        obtain b w4 where mark: "mark_event_processed (event_id rec) w2 = (Inr b, w4)"
          and rest: "(if \<not> b then ok () else for_each payloads jobs_enqueue) w4 = (Inr u, w3)"
          using body by (auto simp: act_simps)
        note m = mark_event_processed_Inr [OF mark]
        show thesis
        proof (cases b)
          case False
          then have "t_events (tables w4) = t_events (tables w2)"
            using m by (auto simp: list_ex_iff intro!: update_where_none)
          then have "outbox_and_queue (tables w') = outbox_and_queue (tables w2)"
            using rest False m w3 by (auto simp: act_simps outbox_and_queue_def)
          then show thesis using unclaimed w2 same by simp
        next
          case True
          then have en: "for_each payloads jobs_enqueue w4 = (Inr u, w3)" using rest by simp
          have "claimed_with (event_id rec) payloads (clock w2) (tables w) (tables w')"
            using enqueue_all_Inr [OF en] m True w2 w3 same
            by (auto simp: claimed_with_def outbox_and_queue_def)
          then show thesis using claimed fo \<open>s = Inr payloads\<close> Inr by simp
        qed
      qed
    qed
  qed
qed

section \<open>Exactly once\<close>

text \<open>Services appending events, and dispatchers working on records they fetched at some time, each step
  with a clock and a script of failures of its own.\<close>

datatype outbox_step =
    Emit "bool list" int domain_event
  | Dispatch "bool list" int event_record

fun outbox_step_run :: "(json \<Rightarrow> string) \<Rightarrow> outbox_step \<Rightarrow> world \<Rightarrow> world" where
  "outbox_step_run render (Emit fails now ev) w = snd (append_event ev (w\<lparr>statement_fails := fails, clock := now\<rparr>))"
| "outbox_step_run render (Dispatch fails now rec) w =
     snd (process_one render rec (w\<lparr>statement_fails := fails, clock := now\<rparr>))"

fun outbox_run :: "(json \<Rightarrow> string) \<Rightarrow> outbox_step list \<Rightarrow> world \<Rightarrow> world" where
  "outbox_run render [] w = w"
| "outbox_run render (s # ss) w = outbox_run render ss (outbox_step_run render s w)"

definition processed_ids :: "db \<Rightarrow> uuid set" where
  "processed_ids d = event_id ` {e \<in> set (t_events d). event_processed_at e \<noteq> None}"

definition event_ids_distinct :: "db \<Rightarrow> bool" where
  "event_ids_distinct d \<longleftrightarrow> distinct (map event_id (t_events d))"

text \<open>\<^verbatim>\<open>trace\<close> lists which events were fanned out, in order, and into which jobs.\<close>

definition fanned_out :: "(uuid \<times> job_payload list) list \<Rightarrow> db \<Rightarrow> db \<Rightarrow> bool" where
  "fanned_out trace d d' \<longleftrightarrow>
     distinct (map fst trace) \<and> set (map fst trace) \<inter> processed_ids d = {}
     \<and> processed_ids d' = processed_ids d \<union> set (map fst trace)
     \<and> map job_payload (t_jobs d') = map job_payload (t_jobs d) @ concat (map snd trace)"

lemma fanned_out_none:
  "t_jobs d' = t_jobs d \<Longrightarrow> processed_ids d' = processed_ids d \<Longrightarrow> fanned_out [] d d'"
  by (simp add: fanned_out_def)

lemma fanned_out_append:
  "fanned_out t1 d1 d2 \<Longrightarrow> fanned_out t2 d2 d3 \<Longrightarrow> fanned_out (t1 @ t2) d1 d3"
  by (auto simp: fanned_out_def)

lemma processed_ids_mark:
  assumes "event_ids_distinct d" "list_ex (unprocessed i) (t_events d)"
  shows "i \<notin> processed_ids d"
    and "t_events d' = update_where (unprocessed i) (\<lambda>e. e\<lparr>event_processed_at := Some now\<rparr>) (t_events d)
      \<Longrightarrow> processed_ids d' = insert i (processed_ids d)"
proof -
  obtain e where e: "e \<in> set (t_events d)" "event_id e = i" "event_processed_at e = None"
    using assms(2) by (auto simp: list_ex_iff unprocessed_def)
  have only: "x = e" if "x \<in> set (t_events d)" "event_id x = i" for x
    using inj_onD [of event_id "set (t_events d)" x e] assms(1) e that
    by (simp add: event_ids_distinct_def distinct_map)
  show "i \<notin> processed_ids d"
  proof
    assume "i \<in> processed_ids d"
    then obtain x where "x \<in> set (t_events d)" "event_id x = i" "event_processed_at x \<noteq> None"
      by (auto simp: processed_ids_def)
    then show False using only [of x] e(3) by simp
  qed
  assume evs: "t_events d' = update_where (unprocessed i) (\<lambda>e. e\<lparr>event_processed_at := Some now\<rparr>) (t_events d)"
  define f where "f = (\<lambda>r. if unprocessed i r then r\<lparr>event_processed_at := Some now\<rparr> else r)"
  have rows: "set (t_events d') = f ` set (t_events d)" by (simp add: evs update_where_def f_def)
  have f: "event_id (f r) = event_id r" "event_processed_at (f r) \<noteq> None \<longleftrightarrow> unprocessed i r \<or> event_processed_at r \<noteq> None" for r
    by (simp_all add: f_def)
  show "processed_ids d' = insert i (processed_ids d)"
  proof (rule set_eqI)
    fix j
    have "j \<in> processed_ids d' \<longleftrightarrow> (\<exists>r\<in>set (t_events d). event_id (f r) = j \<and> event_processed_at (f r) \<noteq> None)"
      unfolding processed_ids_def rows by blast
    also have "\<dots> \<longleftrightarrow> (\<exists>r\<in>set (t_events d). event_id r = j \<and> (unprocessed i r \<or> event_processed_at r \<noteq> None))"
      unfolding f ..
    also have "\<dots> \<longleftrightarrow> (\<exists>r\<in>set (t_events d). event_id r = j \<and> unprocessed i r) \<or> j \<in> processed_ids d"
      by (auto simp: processed_ids_def)
    also have "(\<exists>r\<in>set (t_events d). event_id r = j \<and> unprocessed i r) \<longleftrightarrow> j = i"
      using e unfolding unprocessed_def by blast
    finally show "j \<in> processed_ids d' \<longleftrightarrow> j \<in> insert i (processed_ids d)" by simp
  qed
qed

lemma append_event_tables:
  assumes "append_event ev w = (r, w')"
  obtains "tables w' = tables w"
    | e where "tables w' = (tables w)\<lparr>t_events := t_events (tables w) @ [e]\<rparr>" "event_processed_at e = None"
        "event_id e \<notin> event_id ` set (t_events (tables w))"
  using assms unfolding append_event_def
  by (fastforce simp: and_then_def fresh_uuid_def now_unix_def sql_def Let_def list_ex_iff split: if_splits)

lemma append_event_run:
  assumes "append_event ev w = (r, w')" "event_ids_distinct (tables w)"
  shows "event_ids_distinct (tables w') \<and> processed_ids (tables w') = processed_ids (tables w)
    \<and> t_jobs (tables w') = t_jobs (tables w)"
  using append_event_tables [OF assms(1)]
  by cases (use assms(2) in \<open>auto simp: event_ids_distinct_def processed_ids_def\<close>)

lemma outbox_step_fanned_out:
  assumes "event_ids_distinct (tables w)"
  shows "event_ids_distinct (tables (outbox_step_run render s w))
    \<and> (\<exists>trace. fanned_out trace (tables w) (tables (outbox_step_run render s w))
         \<and> (\<forall>(i, ps)\<in>set trace. \<exists>fails now rec v v'. s = Dispatch fails now rec \<and> event_id rec = i
              \<and> fan_out render (event_payload rec) v = (Inr ps, v')))"
proof (cases s)
  case (Emit fails now ev)
  obtain r w' where run: "append_event ev (w\<lparr>statement_fails := fails, clock := now\<rparr>) = (r, w')" by fastforce
  note app = append_event_run [OF run]
  then have "fanned_out [] (tables w) (tables w')" using assms by (intro fanned_out_none) simp_all
  then show ?thesis using app assms run Emit by (auto intro: exI [of _ "[]"])
next
  case (Dispatch fails now rec)
  obtain r w' where run: "process_one render rec (w\<lparr>statement_fails := fails, clock := now\<rparr>) = (r, w')" by fastforce
  then have w': "outbox_step_run render s w = w'" using Dispatch by simp
  from run show ?thesis
  proof (cases rule: process_one_cases)
    case unclaimed
    then have same: "t_events (tables w') = t_events (tables w)" "t_jobs (tables w') = t_jobs (tables w)"
      by (simp_all add: outbox_and_queue_def)
    then have "fanned_out [] (tables w) (tables w')" by (intro fanned_out_none) (simp_all add: processed_ids_def)
    then show ?thesis using assms same unfolding w' by (intro conjI exI [of _ "[]"]) (simp_all add: event_ids_distinct_def)
  next
    case (claimed payloads v t)
    have "claimed_with (event_id rec) payloads t (tables w) (tables w')" using claimed(2) by simp
    note c = this [unfolded claimed_with_def]
    have ids: "map event_id (t_events (tables w')) = map event_id (t_events (tables w))"
      using c by (simp add: map_update_where)
    have "fanned_out [(event_id rec, payloads)] (tables w) (tables w')"
      using c processed_ids_mark(1) [OF assms conjunct1 [OF c]]
        processed_ids_mark(2) [OF assms conjunct1 [OF c] conjunct1 [OF conjunct2 [OF c]]] by (auto simp: fanned_out_def)
    then show ?thesis using assms ids claimed(1) Dispatch unfolding w'
      by (intro conjI exI [of _ "[(event_id rec, payloads)]"]) (auto simp: event_ids_distinct_def)
  qed
qed

text \<open>C27. Every event is fanned out exactly once, when it is marked. However events are appended and
  records dispatched, by any number of dispatchers, with stale records and any statements failing,
  the jobs in the queue at the end are those at the beginning followed by the fan-outs of a list of
  distinct events; these are exactly the events that became processed meanwhile, none of them was
  processed before, and each fan-out is one that \<^verbatim>\<open>fan_out\<close> returned for that event.\<close>

theorem outbox_exactly_once:
  assumes "event_ids_distinct (tables w)"
  shows "\<exists>trace. fanned_out trace (tables w) (tables (outbox_run render ss w))
    \<and> (\<forall>(i, ps)\<in>set trace. \<exists>fails now rec v v'. Dispatch fails now rec \<in> set ss \<and> event_id rec = i
         \<and> fan_out render (event_payload rec) v = (Inr ps, v'))"
  using assms
proof (induction ss arbitrary: w)
  case Nil
  show ?case by (rule exI [of _ "[]"]) (simp add: fanned_out_def)
next
  case (Cons s ss)
  note step = outbox_step_fanned_out [OF Cons.prems, of render s]
  then obtain t1 where t1: "fanned_out t1 (tables w) (tables (outbox_step_run render s w))"
    "\<forall>(i, ps)\<in>set t1. \<exists>fails now rec v v'. s = Dispatch fails now rec \<and> event_id rec = i
              \<and> fan_out render (event_payload rec) v = (Inr ps, v')" by blast
  obtain t2 where t2: "fanned_out t2 (tables (outbox_step_run render s w)) (tables (outbox_run render (s # ss) w))"
    "\<forall>(i, ps)\<in>set t2. \<exists>fails now rec v v'. Dispatch fails now rec \<in> set ss \<and> event_id rec = i
         \<and> fan_out render (event_payload rec) v = (Inr ps, v')"
    using Cons.IH step by fastforce
  show ?case
    using fanned_out_append [OF t1(1) t2(1)] t1(2) t2(2) by (intro exI [of _ "t1 @ t2"]) fastforce
qed

section \<open>The outbox drains\<close>

lemma sound_sql: "(\<And>d. \<not> isl (f d)) \<Longrightarrow> sound (sql f)"
  by (auto simp: sound_def sql_no_fault split: sum.splits) (metis isl_def)+

lemma sound_or_else: "sound m \<Longrightarrow> sound (or_else x m)"
  unfolding or_else_def by (intro sound_rules)

lemmas sound_ro = sound_rules sound_or_else

lemma sound_owner_display_name: "sound (owner_display_name owner)"
  by (cases owner) (auto simp: owner_display_name_def intro!: sound_ro)

lemma sound_notify: "sound (notify u actor kind subject es action)"
  unfolding notify_def by (intro sound_ro)

lemma sound_notify_watchers: "sound (notify_watchers rid subject kind actor involved es action)"
  unfolding notify_watchers_def by (intro sound_ro sound_notify)

lemma sound_activities:
  "sound (issue_activity render i rid actor ev action note)" "sound (pr_activity render i rid actor ev2 action note)"
  "sound (release_activity render i rid actor)" "sound (fan_out_merged render i rid)"
  "sound (fan_out_mention u by source)"
  unfolding issue_activity_def pr_activity_def release_activity_def fan_out_merged_def fan_out_mention_def
  by (intro sound_ro sound_owner_display_name sound_notify_watchers)+

lemma sound_branch_pushed: "sound (fan_out_branch_pushed render rid ref_name old new)"
  unfolding fan_out_branch_pushed_def dismiss_if_stale_def dismiss_all_for_pull_request_def find_matching_def
    list_rules_def
  by (intro sound_ro sound_owner_display_name sound_sql) simp

lemma sound_fan_out: "sound (fan_out render ev)"
  by (cases ev) (auto intro!: sound_ro sound_activities sound_branch_pushed sound_notify split: prod.split)

interpretation next_id: world_component next_uuid
  by unfold_locales simp_all

interpretation now: world_component clock
  by unfold_locales simp_all

lemma frames_or_else: "frames F m \<Longrightarrow> frames F (or_else x m)"
  unfolding or_else_def by (intro frames_basic)

context world_component
begin

lemma frames_owner_display_name: "frames F (owner_display_name owner)"
  unfolding owner_display_name_def by (cases owner) (auto intro!: frames_stmt)

lemma frames_notify: "frames F (notify u actor kind subject es action)"
  unfolding notify_def by (intro frames_stmt frames_or_else)

lemma frames_notify_watchers: "frames F (notify_watchers rid subject kind actor involved es action)"
  unfolding notify_watchers_def by (intro frames_stmt frames_collect frames_notify)

lemma frames_activities:
  "frames F (issue_activity render i rid actor ev action note)" "frames F (pr_activity render i rid actor ev2 action note)"
  "frames F (release_activity render i rid actor)" "frames F (fan_out_merged render i rid)"
  "frames F (fan_out_mention u by source)" "frames F (fan_out_branch_pushed render rid ref_name old new)"
  unfolding issue_activity_def pr_activity_def release_activity_def fan_out_merged_def fan_out_mention_def
    fan_out_branch_pushed_def dismiss_if_stale_def dismiss_all_for_pull_request_def find_matching_def list_rules_def
  by (intro frames_stmt frames_or_else frames_owner_display_name frames_notify_watchers)+

lemma frames_fan_out: "frames F (fan_out render ev)"
  by (cases ev) (auto intro!: frames_stmt frames_activities frames_notify split: prod.split)

end

definition job_ids_fresh :: "world \<Rightarrow> bool" where
  "job_ids_fresh w \<longleftrightarrow> (\<forall>j\<in>set (t_jobs (tables w)). job_id j < next_uuid w)"

lemma jobs_enqueue_runs:
  assumes "statement_fails w = []" "job_ids_fresh w"
  shows "\<exists>w'. jobs_enqueue p w = (Inr (), w') \<and> statement_fails w' = [] \<and> job_ids_fresh w'
    \<and> t_events (tables w') = t_events (tables w)"
proof -
  have "next_uuid w \<notin> set (map job_id (t_jobs (tables w)))" using assms(2) by (auto simp: job_ids_fresh_def)
  then show ?thesis
    using assms
    by (auto simp: jobs_enqueue_def job_enqueue_def and_then_def fresh_uuid_def now_unix_def sql_def Let_def
        with_jobs_def new_job_def job_ids_fresh_def)
qed

lemma enqueue_all_runs:
  assumes "statement_fails w = []" "job_ids_fresh w"
  shows "\<exists>w'. for_each ps jobs_enqueue w = (Inr (), w') \<and> statement_fails w' = [] \<and> job_ids_fresh w'
    \<and> t_events (tables w') = t_events (tables w)"
  using assms
proof (induction ps arbitrary: w)
  case (Cons p ps)
  obtain w1 where w1: "jobs_enqueue p w = (Inr (), w1)" "statement_fails w1 = []" "job_ids_fresh w1"
    "t_events (tables w1) = t_events (tables w)"
    using jobs_enqueue_runs [OF Cons.prems] by blast
  then show ?case using Cons.IH [OF w1(2,3)] by (auto simp: and_then_def)
qed (simp add: ok_def)

lemma process_one_runs:
  assumes "statement_fails w = []" "job_ids_fresh w"
  shows "\<exists>w'. process_one render rec w = (Inr (), w') \<and> statement_fails w' = [] \<and> job_ids_fresh w'
    \<and> t_events (tables w') = update_where (unprocessed (event_id rec))
          (\<lambda>e. e\<lparr>event_processed_at := Some (clock w)\<rparr>) (t_events (tables w)) \<and> clock w' = clock w"
proof -
  obtain payloads w1 where fo: "fan_out render (event_payload rec) w = (Inr payloads, w1)" "statement_fails w1 = []"
    using soundE [OF sound_fan_out assms(1)] by blast
  have same: "outbox_and_queue (tables w1) = outbox_and_queue (tables w)" "next_uuid w1 = next_uuid w" "clock w1 = clock w"
    using framesD [OF spares_fan_out fo(1)] framesD [OF next_id.frames_fan_out fo(1)]
      framesD [OF now.frames_fan_out fo(1)] by simp_all
  let ?b = "list_ex (unprocessed (event_id rec)) (t_events (tables w1))"
  obtain w2 where m: "mark_event_processed (event_id rec) w1 = (Inr ?b, w2)" "statement_fails w2 = []"
      "tables w2 = (tables w1)\<lparr>t_events := update_where (unprocessed (event_id rec))
          (\<lambda>e. e\<lparr>event_processed_at := Some (clock w1)\<rparr>) (t_events (tables w1))\<rparr>"
      "next_uuid w2 = next_uuid w1" "clock w2 = clock w1"
    using fo(2) by (auto simp: mark_event_processed_def and_then_def now_unix_def sql_def Let_def rows_affected_def
        list_ex_iff filter_empty_conv)
  have fresh: "job_ids_fresh w2" using assms(2) same m by (simp add: job_ids_fresh_def outbox_and_queue_def)
  obtain w3 where w3: "(if \<not> ?b then ok () else for_each payloads jobs_enqueue) w2 = (Inr (), w3)"
    "statement_fails w3 = []" "job_ids_fresh w3" "t_events (tables w3) = t_events (tables w2)"
    using enqueue_all_runs [OF m(2) fresh, of payloads] m(2) fresh by (cases ?b) (auto simp: ok_def)
  have clk: "clock w3 = clock w2"
  proof -
    have "frames clock (if \<not> ?b then ok () else for_each payloads jobs_enqueue)"
      unfolding jobs_enqueue_def job_enqueue_def
      by (intro frames_basic now.frames_sql) (simp add: frames_def fresh_uuid_def)
    then show ?thesis using framesD w3(1) by blast
  qed
  have "transaction (\<lambda>e. e) (and_then (mark_event_processed (event_id rec)) (\<lambda>claimed.
            if \<not> claimed then ok () else for_each payloads jobs_enqueue)) w1 = (Inr (), w3)"
    by (rule transaction_no_fault) (use fo(2) m(1) w3(1,2) in \<open>simp_all add: and_then_def\<close>)
  then have "process_one render rec w = (Inr (), w3)" using fo by (simp add: process_one_def and_then_def)
  then show ?thesis using w3 m same clk by (auto simp: outbox_and_queue_def)
qed

definition backlog :: "db \<Rightarrow> nat" where
  "backlog d = rows_affected (\<lambda>e. event_processed_at e = None) (t_events d)"

lemma process_all_runs:
  assumes "statement_fails w = []" "job_ids_fresh w"
  shows "\<exists>w'. for_each recs (\<lambda>rec. and_then (outcome (process_one render rec)) (\<lambda>_. ok ())) w = (Inr (), w')
    \<and> statement_fails w' = [] \<and> job_ids_fresh w'
    \<and> t_events (tables w') = update_where (\<lambda>e. event_processed_at e = None \<and> event_id e \<in> event_id ` set recs)
          (\<lambda>e. e\<lparr>event_processed_at := Some (clock w)\<rparr>) (t_events (tables w)) \<and> clock w' = clock w"
  using assms
proof (induction recs arbitrary: w)
  case Nil
  then show ?case by (simp add: ok_def update_where_def)
next
  case (Cons rec recs)
  obtain w1 where w1: "process_one render rec w = (Inr (), w1)" "statement_fails w1 = []" "job_ids_fresh w1"
    "t_events (tables w1) = update_where (unprocessed (event_id rec))
          (\<lambda>e. e\<lparr>event_processed_at := Some (clock w)\<rparr>) (t_events (tables w))" "clock w1 = clock w"
    using process_one_runs [OF Cons.prems] by blast
  then show ?case using Cons.IH [OF w1(2,3)]
    by (auto simp: and_then_def outcome_def ok_def update_where_def unprocessed_def)
qed

lemma backlog_after_batch:
  assumes "t_events d' = update_where (\<lambda>e. event_processed_at e = None \<and> event_id e \<in> event_id ` set (fetch_unprocessed n d))
          (\<lambda>e. e\<lparr>event_processed_at := Some t\<rparr>) (t_events d)"
  shows "backlog d' + n \<le> backlog d \<or> backlog d' = 0"
proof -
  let ?U = "filter (\<lambda>e. event_processed_at e = None) (t_events d)"
  let ?S = "sort_key event_occurred_at ?U"
  let ?in = "\<lambda>e. event_id e \<in> event_id ` set (take n ?S)"
  have left: "backlog d' = length (filter (\<lambda>e. \<not> ?in e) ?U)"
    by (simp add: backlog_def rows_affected_def assms update_where_def filter_map o_def fetch_unprocessed_def
        cong: filter_cong) (rule arg_cong [where f = length], rule filter_cong, auto)
  have all: "backlog d = length (filter ?in ?U) + length (filter (\<lambda>e. \<not> ?in e) ?U)"
    unfolding backlog_def rows_affected_def by (rule sum_length_filter_compl [symmetric])
  have "take n ?S = filter ?in (take n ?S)" by (rule filter_True [symmetric]) simp
  then have "length (take n ?S) \<le> length (filter ?in ?S)"
    by (metis append_take_drop_id filter_append le_add1 length_append)
  then have some: "min n (backlog d) \<le> length (filter ?in ?U)"
    by (simp add: filter_sort backlog_def rows_affected_def)
  have "a + n \<le> u \<or> a = 0" if "u = i + a" "min n u \<le> i" for a i u :: nat using that by auto
  then show ?thesis unfolding left using all some by blast
qed

lemma dispatcher_tick_runs:
  assumes "statement_fails w = []" "job_ids_fresh w"
  shows "\<exists>w'. dispatcher_tick render n w = (Inr (), w') \<and> statement_fails w' = [] \<and> job_ids_fresh w'
    \<and> (backlog (tables w') + n \<le> backlog (tables w) \<or> backlog (tables w') = 0)"
proof -
  obtain w' where w': "for_each (fetch_unprocessed n (tables w)) (\<lambda>rec. and_then (outcome (process_one render rec)) (\<lambda>_. ok ())) w = (Inr () :: db_error + unit, w')"
    "statement_fails w' = []" "job_ids_fresh w'"
    "t_events (tables w') = update_where (\<lambda>e. event_processed_at e = None \<and> event_id e \<in> event_id ` set (fetch_unprocessed n (tables w)))
          (\<lambda>e. e\<lparr>event_processed_at := Some (clock w)\<rparr>) (t_events (tables w))"
    using process_all_runs [OF assms] by blast
  have "dispatcher_tick render n w = (Inr (), w')"
    using w'(1) assms(1) by (simp add: dispatcher_tick_def or_else_def and_then_def outcome_def ok_def select_no_fault)
  then show ?thesis using w' backlog_after_batch [OF w'(4)] by blast
qed

text \<open>C28. The outbox drains. Where no statement fails and no new event arrives, every turn of the
  dispatcher returns, and after enough turns for the batch size every event is processed, whatever
  the events are.\<close>

theorem outbox_drains:
  assumes "statement_fails w = []" "job_ids_fresh w" "backlog (tables w) \<le> turns * batch_size"
  shows "backlog (tables (((\<lambda>w. snd (dispatcher_tick render batch_size w)) ^^ turns) w)) = 0"
  using assms
proof (induction turns arbitrary: w)
  case (Suc k)
  obtain w' where w': "dispatcher_tick render batch_size w = (Inr (), w')" "statement_fails w' = []" "job_ids_fresh w'"
    "backlog (tables w') + batch_size \<le> backlog (tables w) \<or> backlog (tables w') = 0"
    using dispatcher_tick_runs [OF Suc.prems(1,2)] by blast
  have "backlog (tables w') \<le> k * batch_size" using w'(4) Suc.prems(3) by auto
  then show ?case using Suc.IH [OF w'(2,3)] w'(1) by (simp add: funpow_Suc_right del: funpow.simps)
qed simp

section \<open>Who is notified\<close>

definition notified :: "job_payload list \<Rightarrow> (uuid \<times> notification_kind \<times> notification_subject) list" where
  "notified jobs = concat (map (\<lambda>p. case p of CreateNotification u k s \<Rightarrow> [(u, k, s)] | _ \<Rightarrow> []) jobs)"

definition subscribers :: "uuid \<Rightarrow> watch_level \<Rightarrow> db \<Rightarrow> uuid set" where
  "subscribers rid level d =
     watch_user_id ` {x \<in> set (t_watches d). watch_subject x = WsRepository rid \<and> watch_level x = level}"

lemma remdups_adj_sort: "remdups_adj (sort xs) = sorted_list_of_set (set (xs :: nat list))"
proof -
  have "distinct (remdups_adj ys)" if "sorted ys" for ys :: "nat list"
    using that by (induction ys rule: remdups_adj.induct) (auto simp: order.antisym)
  then have "sorted (remdups_adj (sort xs))" "distinct (remdups_adj (sort xs))" "set (remdups_adj (sort xs)) = set xs"
    by simp_all
  then show ?thesis by (metis sorted_list_of_set.idem_if_sorted_distinct)
qed

lemma notified_notify:
  "notify u actor kind subject es action w = (Inr jobs, w') \<Longrightarrow> notified jobs = [(u, kind, subject)]"
  unfolding notify_def notified_def by (auto simp: act_simps split: if_splits option.splits)

lemma notified_collect:
  "collect us (\<lambda>u. notify u actor kind subject es action) w = (Inr jobs, w') \<Longrightarrow>
     notified jobs = map (\<lambda>u. (u, kind, subject)) us"
proof (induction us arbitrary: w jobs)
  case (Cons u us)
  then obtain a w1 b where a: "notify u actor kind subject es action w = (Inr a, w1)"
    and b: "collect us (\<lambda>u. notify u actor kind subject es action) w1 = (Inr b, w')" "jobs = a @ b"
    by (auto simp: act_simps)
  show ?case using Cons.IH [OF b(1)] notified_notify [OF a] b(2) by (simp add: notified_def)
qed (simp add: act_simps notified_def)

text \<open>C29. Activity notifies exactly those concerned, once each. The notifications made for an activity on
  a repository go, in order of id and without repetition, to the repository's watchers and those
  involved in the item, except whoever ignores the repository and whoever acted.\<close>

theorem notify_watchers_exact:
  assumes "notify_watchers rid subject kind actor involved es action w = (Inr jobs, w')"
  shows "notified jobs = map (\<lambda>u. (u, kind, subject)) (sorted_list_of_set
     ((subscribers rid Watching (tables w) \<union> set involved) - subscribers rid Ignoring (tables w) - set_option actor))"
proof -
  obtain watches w1 where sel: "select (watchers_of (WsRepository rid)) w = (Inr watches, w1)"
    and col: "collect (recipients_of watches actor involved) (\<lambda>u. notify u actor kind subject es action) w1 = (Inr jobs, w')"
    using assms by (auto simp: notify_watchers_def act_simps)
  have "watches = watchers_of (WsRepository rid) (tables w)" using select_Inr [OF sel] by simp
  then have "recipients_of watches actor involved = sorted_list_of_set
     ((subscribers rid Watching (tables w) \<union> set involved) - subscribers rid Ignoring (tables w) - set_option actor)"
    unfolding recipients_of_def Let_def remdups_adj_sort
    by (intro arg_cong [where f = sorted_list_of_set])
       (auto simp: watchers_of_def subscribers_def image_iff split: option.splits)
  then show ?thesis using notified_collect [OF col] by simp
qed

section \<open>Stale approvals\<close>

definition stale :: "db \<Rightarrow> pull_request \<Rightarrow> bool" where
  "stale d pr \<longleftrightarrow>
     (case stored_rule d (pr_repository_id pr) (pr_target pr) of None \<Rightarrow> False | Some rule \<Rightarrow> dismiss_stale_reviews rule)"

definition with_dismissed :: "uuid set \<Rightarrow> int \<Rightarrow> db \<Rightarrow> db" where
  "with_dismissed ids now d =
     d\<lparr>t_reviews := update_where (\<lambda>r. review_pull_request_id r \<in> ids \<and> review_dismissed_at r = None)
         (\<lambda>r. r\<lparr>review_dismissed_at := Some now\<rparr>) (t_reviews d)\<rparr>"

lemma stale_with_dismissed [simp]: "stale (with_dismissed ids now d) = stale d"
  by (simp add: stale_def stored_rule_def rules_of_def with_dismissed_def fun_eq_iff)

lemma with_dismissed_twice: "with_dismissed b now (with_dismissed a now d) = with_dismissed (a \<union> b) now d"
  by (auto simp: with_dismissed_def update_where_def intro!: arg_cong [where f = "\<lambda>x. d\<lparr>t_reviews := x\<rparr>"])

lemma update_where_False [simp]: "update_where (\<lambda>_. False) f xs = xs"
  by (simp add: update_where_none)

lemma with_dismissed_none [simp]: "with_dismissed {} now d = d"
  by (simp add: with_dismissed_def update_where_none)

lemma dismiss_if_stale_Inr:
  assumes "dismiss_if_stale pr w = (Inr u, w')"
  shows "tables w' = with_dismissed (if stale (tables w) pr then {pr_id pr} else {}) (clock w) (tables w)
    \<and> clock w' = clock w"
proof -
  obtain rule w1 where fm: "find_matching (pr_repository_id pr) (pr_target pr) w = (Inr rule, w1)"
    and rest: "(case rule of None \<Rightarrow> ok () | Some rule \<Rightarrow>
           if dismiss_stale_reviews rule
           then and_then (dismiss_all_for_pull_request (pr_id pr)) (\<lambda>_. ok ()) else ok ()) w1 = (Inr u, w')"
    using assms by (auto simp: dismiss_if_stale_def act_simps)
  have w1: "rule = stored_rule (tables w) (pr_repository_id pr) (pr_target pr)" "tables w1 = tables w"
    using reads_value [OF reads_find_matching fm] reads_tables [OF reads_find_matching fm] by simp_all
  have "frames clock (find_matching (pr_repository_id pr) (pr_target pr))"
    unfolding find_matching_def list_rules_def by (intro now.frames_stmt)
  then have "clock w1 = clock w" using framesD fm by blast
  then show ?thesis using rest w1
    by (auto simp: act_simps stale_def dismiss_all_for_pull_request_def dismiss_reviews_def with_dismissed_def
        dismissible_def [abs_def] sql_def Let_def split: option.splits if_splits)
qed

lemma dismiss_all_stale_Inr:
  "for_each prs dismiss_if_stale w = (Inr u, w') \<Longrightarrow>
     tables w' = with_dismissed (pr_id ` {pr \<in> set prs. stale (tables w) pr}) (clock w) (tables w)"
proof (induction prs arbitrary: w)
  case (Cons pr prs)
  then obtain v w1 where one: "dismiss_if_stale pr w = (Inr v, w1)" and more: "for_each prs dismiss_if_stale w1 = (Inr u, w')"
    by (auto simp: act_simps)
  have "pr_id ` {p \<in> set (pr # prs). stale (tables w) p} =
      (if stale (tables w) pr then {pr_id pr} else {}) \<union> pr_id ` {p \<in> set prs. stale (tables w) p}"
    by auto
  then show ?case using dismiss_if_stale_Inr [OF one] Cons.IH [OF more] by (simp add: with_dismissed_twice)
qed (simp add: act_simps)

lemma open_with_source_branch_mem:
  "pr \<in> set (open_with_source_branch rid branch d) \<longleftrightarrow> pr \<in> set (t_pull_requests d)
     \<and> pr_source pr = \<lparr>ref_repository_id = rid, ref_branch = branch\<rparr> \<and> pr_is_open (pr_state pr)"
  by (cases "pr_state pr") (auto simp: open_with_source_branch_def pr_state_columns.simps)

lemma fan_out_branch_pushed_Inr:
  assumes "fan_out_branch_pushed render rid ref_name old new w = (Inr jobs, w')" "new \<noteq> zero_hex"
  shows "tables w' = with_dismissed
     (pr_id ` {pr \<in> set (open_with_source_branch rid (strip_heads ref_name) (tables w)). stale (tables w) pr})
     (clock w) (tables w)"
proof -
  let ?tail = "and_then (select (find_subscribed rid WhPush)) (\<lambda>hooks.
           if hooks = [] then ok []
           else
             and_then (select (repo_by_id rid)) (\<lambda>found.
               case found of
                 None \<Rightarrow> ok []
               | Some r \<Rightarrow>
                   and_then (owner_display_name (repo_owner r)) (\<lambda>owner.
                     ok (deliveries hooks WhPush (render (JObj
                       [(''action'', JStr (if old = zero_hex then ''created''
                                           else if new = zero_hex then ''deleted'' else ''updated'')),
                        (''ref'', JStr ref_name), (''before'', JStr old), (''after'', JStr new),
                        (''repository'', json_repository owner r)]))))))"
  obtain prs w1 v w2 where sel: "select (open_with_source_branch rid (strip_heads ref_name)) w = (Inr prs, w1)"
    and loop: "for_each prs dismiss_if_stale w1 = (Inr v, w2)"
    and rest: "?tail w2 = (Inr jobs, w')"
    using assms unfolding fan_out_branch_pushed_def by (auto simp: act_simps)
  have "read_only ?tail" by (intro ro_rules read_only_owner_display_name)
  then have "tables w' = tables w2" using rest by (rule read_only_tables [of ?tail w2])
  then show ?thesis using dismiss_all_stale_Inr [OF loop] select_Inr [OF sel] by simp
qed

lemma no_active_approval:
  assumes "\<And>r. r \<in> set rs \<Longrightarrow> \<not> is_active_approval r" shows "approving_reviewers rs = {}"
proof -
  have "\<not> is_active_approval r" if "current_verdict rs u = Some r" for u r
    using newest_mem [OF that [unfolded current_verdict_def]] assms by auto
  then show ?thesis by (auto simp: approving_reviewers_def)
qed

lemma process_one_reviews:
  assumes "process_one render rec w = (Inr u, w')"
  obtains jobs w1 where "fan_out render (event_payload rec) w = (Inr jobs, w1)"
    "t_reviews (tables w') = t_reviews (tables w1)"
proof -
  let ?tx = "\<lambda>jobs. transaction (\<lambda>e. e) (and_then (mark_event_processed (event_id rec)) (\<lambda>claimed.
            if \<not> claimed then ok () else for_each jobs jobs_enqueue))"
  obtain jobs w1 where fo: "fan_out render (event_payload rec) w = (Inr jobs, w1)" and tx: "?tx jobs w1 = (Inr u, w')"
    using assms by (auto simp: process_one_def act_simps)
  have "frames (\<lambda>w. t_reviews (tables w)) (?tx jobs)"
    unfolding mark_event_processed_def jobs_enqueue_def job_enqueue_def
    by (intro frames_tables_transaction frames_basic frames_tables_sql frames_read_only [OF read_only_fresh])
       (auto simp: with_jobs_def split: if_splits)
  then show thesis using that fo framesD tx by blast
qed

text \<open>A push dismisses the approvals it makes stale, and no others. When an event of a push to a branch
  (not its deletion) has been dispatched, no reviewer approves any more any open pull request that
  comes from that branch and whose target's rule dismisses stale reviews; and the reviews of every
  pull request other than these are untouched.\<close>

theorem stale_approvals_dismissed:
  assumes "process_one render rec w = (Inr u, w')"
    and "event_payload rec = EvBranchPushed rid (''refs/heads/'' @ branch) old new pusher" "new \<noteq> zero_hex"
  defines "affected \<equiv> {pr \<in> set (t_pull_requests (tables w)). pr_is_open (pr_state pr)
      \<and> pr_source pr = \<lparr>ref_repository_id = rid, ref_branch = branch\<rparr> \<and> stale (tables w) pr}"
  shows "(\<forall>pr\<in>affected. approving_reviewers (reviews_of (pr_id pr) (tables w')) = {})
    \<and> (\<forall>i. i \<notin> pr_id ` affected \<longrightarrow> reviews_of i (tables w') = reviews_of i (tables w))"
proof -
  obtain jobs w1 where fo: "fan_out render (event_payload rec) w = (Inr jobs, w1)"
    and rv: "t_reviews (tables w') = t_reviews (tables w1)"
    using assms(1) by (rule process_one_reviews)
  have "affected = {pr \<in> set (open_with_source_branch rid branch (tables w)). stale (tables w) pr}"
    by (auto simp: affected_def open_with_source_branch_mem)
  then have w1: "tables w1 = with_dismissed (pr_id ` affected) (clock w) (tables w)"
    using fan_out_branch_pushed_Inr [of render rid "''refs/heads/'' @ branch" old new w jobs w1] fo assms(2,3)
    by (simp add: strip_heads_def)
  then have rows: "t_reviews (tables w') = update_where
      (\<lambda>r. review_pull_request_id r \<in> pr_id ` affected \<and> review_dismissed_at r = None)
      (\<lambda>r. r\<lparr>review_dismissed_at := Some (clock w)\<rparr>) (t_reviews (tables w))"
    using rv by (simp add: with_dismissed_def)
  have "approving_reviewers (reviews_of (pr_id pr) (tables w')) = {}" if "pr \<in> affected" for pr
    by (rule no_active_approval)
      (use that in \<open>auto simp: reviews_of_def rows is_active_approval_def elim!: in_update_whereE\<close>)
  moreover have "reviews_of i (tables w') = reviews_of i (tables w)" if "i \<notin> pr_id ` affected" for i
  proof -
    let ?mark = "\<lambda>r. if review_pull_request_id r \<in> pr_id ` affected \<and> review_dismissed_at r = None
        then r\<lparr>review_dismissed_at := Some (clock w)\<rparr> else r"
    have "filter (\<lambda>r. review_pull_request_id r = i) (map ?mark rs) = filter (\<lambda>r. review_pull_request_id r = i) rs" for rs
      by (induction rs) (use that in auto)
    then have "filter (\<lambda>r. review_pull_request_id r = i) (t_reviews (tables w'))
        = filter (\<lambda>r. review_pull_request_id r = i) (t_reviews (tables w))"
      by (simp add: rows update_where_def)
    then show ?thesis by (simp add: reviews_of_def)
  qed
  ultimately show ?thesis by blast
qed

section \<open>A small instance\<close>

definition push_world :: world where
  "push_world =
     \<lparr>tables = empty_db\<lparr>
        t_users := [\<lparr>user_id = 1, user_username = ''alice'', user_email = ''a@x'', user_is_admin = False,
                     user_disabled_at = None, user_email_notifications = True\<rparr>,
                    \<lparr>user_id = 2, user_username = ''bob'', user_email = ''b@x'', user_is_admin = False,
                     user_disabled_at = None, user_email_notifications = False\<rparr>],
        t_repositories := [\<lparr>repo_id = 1, repo_owner = OwnerUser 1, repo_name = ''proj'', repo_description = None,
                            repo_visibility = Public, repo_forked_from = None\<rparr>],
        t_rules := [\<lparr>rule_id = 7, rule_repository_id = 1, rule_pattern = ''main'', required_approvals = 1,
                     require_linear_history = False, require_signed_commits = False, dismiss_stale_reviews = True,
                     require_up_to_date = False, required_status_checks = [], push_allowlist = []\<rparr>],
        t_pull_requests := [\<lparr>pr_id = 5, pr_repository_id = 1, pr_number = 3, pr_title = ''Fix'', pr_body = None,
                             pr_author_id = 1, pr_source = \<lparr>ref_repository_id = 1, ref_branch = ''fix''\<rparr>,
                             pr_target = ''main'', pr_state = PrOpen, pr_created_at = 0\<rparr>],
        t_reviews := [\<lparr>review_id = 6, review_pull_request_id = 5, reviewer_id = 2, review_state = Approved,
                       review_body = None, review_created_at = 1, review_dismissed_at = None\<rparr>],
        t_watches := [\<lparr>watch_id = 1, watch_user_id = 2, watch_subject = WsRepository 1, watch_level = Watching,
                       watch_created_at = 0\<rparr>],
        t_events := [\<lparr>event_id = 50, event_payload = EvBranchPushed 1 ''refs/heads/fix'' ''aa'' ''bb'' (Some 1),
                      event_occurred_at = 2, event_processed_at = None\<rparr>,
                     \<lparr>event_id = 51, event_payload = EvPullRequestMerged 5 1, event_occurred_at = 3,
                      event_processed_at = None\<rparr>]\<rparr>,
      statement_fails = [], clock = 5, next_uuid = 100, git_calls = []\<rparr>"

definition push_event :: event_record where
  "push_event = t_events (tables push_world) ! 0"

definition plain_text :: "json \<Rightarrow> string" where
  "plain_text j = ''{}''"

theorem outbox_exactly_once_witness:
  "\<exists>trace. fanned_out trace (tables push_world) (tables (outbox_run plain_text
      [Dispatch [] 5 push_event, Dispatch [] 6 push_event] push_world))"
proof -
  have "event_ids_distinct (tables push_world)" by code_simp
  from outbox_exactly_once [OF this] show ?thesis by blast
qed

theorem outbox_drains_witness:
  "backlog (tables push_world) = 2
   \<and> backlog (tables (((\<lambda>w. snd (dispatcher_tick plain_text 1 w)) ^^ 2) push_world)) = 0"
proof -
  have "statement_fails push_world = []" by (simp add: push_world_def)
  moreover have "job_ids_fresh push_world" by code_simp
  moreover have b: "backlog (tables push_world) = 2" by code_simp
  ultimately show ?thesis using outbox_drains [of push_world 2 1 plain_text] by simp
qed

theorem notify_watchers_exact_witness:
  "notified (case fst (notify_watchers 1 (NsPullRequest 5) NPrMerged (Some 1) [1] ''s'' ''a'' push_world) of Inr jobs \<Rightarrow> jobs | _ \<Rightarrow> [])
     = [(2, NPrMerged, NsPullRequest 5)]"
proof -
  let ?run = "notify_watchers 1 (NsPullRequest 5) NPrMerged (Some 1) [1] ''s'' ''a'' push_world"
  have ok: "isl (fst ?run) = False" by code_simp
  then have run: "?run = (Inr (projr (fst ?run)), snd ?run)" by (metis prod.collapse sum.collapse(2))
  have "subscribers 1 Watching (tables push_world) = {2}" "subscribers 1 Ignoring (tables push_world) = {}"
    by code_simp+
  then have "notified (projr (fst ?run)) = [(2, NPrMerged, NsPullRequest 5)]"
    using notify_watchers_exact [OF run] by simp
  then show ?thesis using ok by (cases "fst ?run") (simp_all add: sum.case_eq_if)
qed

theorem stale_approvals_dismissed_witness:
  "approving_reviewers (reviews_of 5 (tables push_world)) = {2}
   \<and> approving_reviewers (reviews_of 5 (tables (snd (process_one plain_text push_event push_world)))) = {}"
proof -
  let ?run = "process_one plain_text push_event push_world"
  let ?pr = "t_pull_requests (tables push_world) ! 0"
  have ok: "fst ?run = Inr ()" by code_simp
  have run: "?run = (Inr (), snd ?run)" using ok by (metis prod.collapse)
  have ev: "event_payload push_event = EvBranchPushed 1 (''refs/heads/'' @ ''fix'') ''aa'' ''bb'' (Some 1)"
    by (simp add: push_event_def push_world_def)
  have nz: "''bb'' \<noteq> zero_hex" by code_simp
  have pr: "?pr \<in> set (t_pull_requests (tables push_world))" "pr_id ?pr = 5" by (simp_all add: push_world_def)
  have "pr_is_open (pr_state ?pr)" "pr_source ?pr = \<lparr>ref_repository_id = 1, ref_branch = ''fix''\<rparr>"
    by (simp_all add: push_world_def)
  moreover have "stale (tables push_world) ?pr" by code_simp
  ultimately have "approving_reviewers (reviews_of (pr_id ?pr) (tables (snd ?run))) = {}"
    using stale_approvals_dismissed [OF run ev nz] pr(1) by blast
  moreover have "approving_reviewers (reviews_of 5 (tables push_world)) = {2}"
  proof -
    have "reviews_of 5 (tables push_world) = t_reviews (tables push_world)" by code_simp
    then show ?thesis
      by (auto simp: push_world_def approving_reviewers_def current_verdict_def is_active_approval_def)
  qed
  ultimately show ?thesis using pr(2) by simp
qed

text \<open>A push event that is dispatched again, after it had been processed, withdraws approvals given
  since: the dismissal runs before the event is claimed and does not look at when a review was
  given. Here bob approves again after the push was dispatched; the second dispatch enqueues
  nothing, yet his new approval is gone.\<close>

theorem repeated_dispatch_withdraws_new_approval:
  "let w1 = snd (process_one plain_text push_event push_world);
       w2 = snd (review_insert 60 5 2 Approved None (w1\<lparr>clock := 9\<rparr>));
       w3 = snd (process_one plain_text push_event w2)
   in list_ex is_active_approval (latest_reviews (reviews_of 5 (tables w2)))
      \<and> \<not> list_ex is_active_approval (latest_reviews (reviews_of 5 (tables w3)))
      \<and> t_jobs (tables w3) = t_jobs (tables w2)"
  by code_simp

end
