(* ===== verification/Pack_Format_Proofs.thy ===== *)
theory Pack_Format_Proofs
  imports Pack_Format
begin

text \<open>
  Reading a written pack gives its objects back, whatever the compression and the hash, and applying a
  delta is running its instructions.
\<close>

section \<open>Sizes\<close>

lemma bit_consts:
  "bit (0x7f :: 64 word) n \<longleftrightarrow> n < 7" "bit (0x7f :: 8 word) n \<longleftrightarrow> n < 7" "bit (0x0f :: 8 word) n \<longleftrightarrow> n < 4"
  "bit (0x07 :: 8 word) n \<longleftrightarrow> n < 3" "bit (0x80 :: 8 word) n \<longleftrightarrow> n = 7"
proof -
  have m: "(0x7f :: 64 word) = mask 7" "(0x7f :: 8 word) = mask 7" "(0x0f :: 8 word) = mask 4" "(0x07 :: 8 word) = mask 3"
    "(0x80 :: 8 word) = push_bit 7 1"
    by (simp_all add: mask_eq_exp_minus_1 push_bit_of_1)
  show "bit (0x7f :: 64 word) n \<longleftrightarrow> n < 7" "bit (0x7f :: 8 word) n \<longleftrightarrow> n < 7" "bit (0x0f :: 8 word) n \<longleftrightarrow> n < 4"
    "bit (0x07 :: 8 word) n \<longleftrightarrow> n < 3" "bit (0x80 :: 8 word) n \<longleftrightarrow> n = 7"
    unfolding m by (simp_all only: bit_mask_iff bit_push_bit_iff bit_1_iff possible_bit_word) auto
qed

lemma bit8_cases: "bit (b :: 8 word) n \<Longrightarrow> n = 7 \<or> n < 7"
  using bit_imp_le_length [of b n] by auto

lemma high_bit: "b AND 0x80 = 0 \<longleftrightarrow> \<not> bit (b :: 8 word) 7"
proof
  assume "b AND 0x80 = 0"
  then have "\<not> bit (b AND 0x80) 7" by simp
  then show "\<not> bit b 7" by (simp only: bit_and_iff bit_consts) simp
next
  assume "\<not> bit b 7"
  then show "b AND 0x80 = 0" by (intro bit_word_eqI) (auto simp only: bit_and_iff bit_consts bit_0_eq)
qed

lemma low_bits:
  fixes b :: "8 word"
  assumes "\<not> bit b 7"
  shows "(b OR 0x80) AND 0x7f = b" "b AND 0x7f = b" "(b OR 0x80) AND 0x80 \<noteq> 0" "b AND 0x80 = 0"
proof -
  have "\<forall>n. bit b n \<longrightarrow> n < 7" using assms bit8_cases by metis
  then show "(b OR 0x80) AND 0x7f = b" "b AND 0x7f = b"
    by (auto intro!: bit_word_eqI simp only: bit_and_iff bit_or_iff bit_consts)
  show "(b OR 0x80) AND 0x80 \<noteq> 0" "b AND 0x80 = 0"
    using assms unfolding high_bit by (auto simp only: bit_or_iff bit_consts)
qed

lemma low_byte:
  "\<not> bit (ucast (w AND 0x7f :: 64 word) :: 8 word) 7" "ucast (ucast (w AND 0x7f :: 64 word) :: 8 word) = w AND 0x7f"
proof -
  show "\<not> bit (ucast (w AND 0x7f :: 64 word) :: 8 word) 7"
    by (simp only: bit_ucast_iff bit_and_iff bit_consts) simp
  show "ucast (ucast (w AND 0x7f :: 64 word) :: 8 word) = w AND 0x7f"
    by (rule bit_word_eqI) (auto simp only: bit_ucast_iff bit_and_iff bit_consts possible_bit_word, auto)
qed

lemma split_size: "push_bit s (w AND 0x7f) OR push_bit (s + 7) (drop_bit 7 w) = push_bit s (w :: 64 word)"
proof (rule bit_word_eqI)
  fix n
  have "s + 7 \<le> n \<longrightarrow> bit w (7 + (n - (s + 7))) = bit w (n - s)" by simp
  then show "bit (push_bit s (w AND 0x7f) OR push_bit (s + 7) (drop_bit 7 w)) n = bit (push_bit s w) n"
    by (auto simp only: bit_or_iff bit_push_bit_iff bit_and_iff bit_drop_bit_eq bit_consts possible_bit_word comp_def)
qed

lemma small_size: "drop_bit 7 w = 0 \<Longrightarrow> w AND 0x7f = (w :: 64 word)"
  using split_size [of 0 w] by simp

lemma header_more_size:
  assumes "w \<noteq> 0" "unat w < 2 ^ (64 - shift)"
  shows "header_more (size_bytes w @ rest) acc shift pos = Inr (acc OR push_bit shift w, pos + length (size_bytes w))"
  using assms
proof (induction w arbitrary: acc shift pos rule: size_bytes.induct)
  case (1 w)
  have shift: "shift < 64"
  proof (rule ccontr)
    assume "\<not> shift < 64"
    then have "unat w < 1" using "1.prems"(2) by simp
    then show False using "1.prems"(1) by (simp add: unat_eq_0)
  qed
  let ?b = "ucast (w AND 0x7f) :: 8 word"
  note b = low_bits [OF low_byte(1)] low_byte(2)
  show ?case
  proof (cases "drop_bit 7 w = 0")
    case True
    then have "size_bytes w = [chr8 ?b]"
      using "1.prems"(1) by (subst size_bytes.simps) (simp add: size_bytes.simps [of 0])
    moreover have "shl (ucast (u8 (chr8 ?b) AND 0x7f)) shift = push_bit shift w"
      unfolding u8_chr8 b(2) b(5) using shift small_size [OF True] by (simp add: shl_def)
    moreover have "u8 (chr8 ?b) AND 0x80 = 0" unfolding u8_chr8 by (rule b(4))
    ultimately show ?thesis by (simp only: append_Cons append_Nil header_more.simps Let_def) simp
  next
    case False
    then have s: "size_bytes w = chr8 (?b OR 0x80) # size_bytes (drop_bit 7 w)"
      using "1.prems"(1) by (subst size_bytes.simps) simp
    have d: "unat (drop_bit 7 w) = unat w div 128" by (simp add: drop_bit_eq_div unat_div_distrib)
    have "unat w div 128 \<noteq> 0" using False d by (metis unat_eq_0)
    then have "128 \<le> unat w" by (metis div_less not_le)
    then have "(2 :: nat) ^ 7 < 2 ^ (64 - shift)" using "1.prems"(2) by simp
    then have "7 < 64 - shift" by (rule power_less_imp_less_exp [rotated]) simp
    then have "64 - shift = 7 + (64 - (shift + 7))" by simp
    then have "(2 :: nat) ^ (64 - shift) = 2 ^ 7 * 2 ^ (64 - (shift + 7))" by (metis power_add)
    then have "unat (drop_bit 7 w) < 2 ^ (64 - (shift + 7))" using "1.prems"(2) d by (simp add: div_less_iff_less_mult mult.commute)
    from "1.IH" [OF "1.prems"(1) refl refl False this]
    show ?thesis
      unfolding s using b shift split_size [of shift w] by (simp add: Let_def shl_def or.assoc)
  qed
qed

lemma type_code_bits: "bit (pack_type_code k) n \<Longrightarrow> n < 3"
proof -
  have "\<forall>n. bit (pack_type_code k) n \<longrightarrow> n < 3"
  proof (intro allI impI)
    fix n assume a: "bit (pack_type_code k) n"
    have "pack_type_code k AND 0x07 = pack_type_code k" by (cases k) (simp_all add: pack_type_code_def)
    then have "bit (pack_type_code k AND 0x07) n" using a by simp
    then show "n < 3" by (simp only: bit_and_iff bit_consts)
  qed
  then show "bit (pack_type_code k) n \<Longrightarrow> n < 3" by blast
qed

lemma read_object_header_written:
  "read_object_header (object_header k w @ rest) = Inr (pack_type_code k, w, length (object_header k w))"
proof -
  let ?first = "push_bit 4 (pack_type_code k) OR (ucast w AND 0x0f) :: 8 word"
  have low: "(ucast (?first AND 0x0f) :: 64 word) OR push_bit 4 (drop_bit 4 w) = w"
    and low': "(ucast ((?first OR 0x80) AND 0x0f) :: 64 word) OR push_bit 4 (drop_bit 4 w) = w"
    and code: "drop_bit 4 ?first AND 0x07 = pack_type_code k" "drop_bit 4 (?first OR 0x80) AND 0x07 = pack_type_code k"
    and flag: "\<not> bit ?first 7"
  proof -
    note bits = bit_ucast_iff bit_and_iff bit_or_iff bit_push_bit_iff bit_drop_bit_eq bit_consts comp_def possible_bit_word
    note k = type_code_bits [of k]
    show "(ucast (?first AND 0x0f) :: 64 word) OR push_bit 4 (drop_bit 4 w) = w"
      "(ucast ((?first OR 0x80) AND 0x0f) :: 64 word) OR push_bit 4 (drop_bit 4 w) = w"
      by (rule bit_word_eqI; rename_tac n; case_tac "n < 4"; simp only: bits; auto)+
    show "drop_bit 4 ?first AND 0x07 = pack_type_code k" "drop_bit 4 (?first OR 0x80) AND 0x07 = pack_type_code k"
      by (rule bit_word_eqI; simp only: bits; auto dest: type_code_bits)+
    show "\<not> bit ?first 7" using k [of 3] by (simp only: bits) auto
  qed
  have size: "unat (drop_bit 4 w) < 2 ^ 60"
    using unsigned_less [of w] by (simp add: drop_bit_eq_div unat_div_distrib div_less_iff_less_mult)
  show ?thesis
  proof (cases "drop_bit 4 w = 0")
    case True
    then show ?thesis using low code low_bits(4) [OF flag] by (simp add: object_header_def read_object_header_def Let_def size_bytes.simps [of 0])
  next
    case False
    then show ?thesis
      using header_more_size [OF False, of 4] size low' code low_bits(3) [OF flag]
      by (simp add: object_header_def read_object_header_def Let_def)
  qed
qed

section \<open>Writing and reading a pack\<close>

lemma of_char_chr8 [simp]: "(of_char (chr8 b) :: nat) = unat b"
  using unsigned_less [of b, where 'a = nat] by (simp add: chr8_def)

lemma be_value_be32: "n < 2 ^ 32 \<Longrightarrow> be_value (be32 (word_of_nat n)) = n"
proof -
  assume n: "n < 2 ^ 32"
  have byte: "unat (ucast (drop_bit i w) :: 8 word) = unat w div 2 ^ i mod 256" for i and w :: "32 word"
    using unsigned_less [of w, where 'a = nat] unfolding unsigned_ucast_eq unsigned_drop_bit_eq by (simp add: take_bit_eq_mod drop_bit_eq_div)
  have w: "unat (word_of_nat n :: 32 word) = n" using n by (simp add: unsigned_of_nat take_bit_eq_mod)
  have split: "256 * (m div 256) + m mod 256 = m" for m :: nat by (rule mult_div_mod_eq)
  have "n div 2 ^ 8 div 256 = n div 2 ^ 16" "n div 2 ^ 16 div 256 = n div 2 ^ 24" by (simp_all flip: div_mult2_eq)
  moreover have top: "n div 2 ^ 24 mod 256 = n div 2 ^ 24" using n by simp
  ultimately have "256 * (256 * (256 * (n div 2 ^ 24 mod 256) + n div 2 ^ 16 mod 256) + n div 2 ^ 8 mod 256) + n mod 256 = n"
    using split [of n] split [of "n div 2 ^ 8"] split [of "n div 2 ^ 16"] by simp
  moreover have "of_char (chr8 (ucast (drop_bit i (word_of_nat n :: 32 word)))) = n div 2 ^ i mod 256" for i
    unfolding of_char_chr8 byte w ..
  from this [of 24] this [of 16] this [of 8] this [of 0]
  have "be_value (be32 (word_of_nat n))
      = 256 * (256 * (256 * (n div 2 ^ 24 mod 256) + n div 2 ^ 16 mod 256) + n div 2 ^ 8 mod 256) + n mod 256"
    unfolding be_value_def be32_def list.map foldl_Cons foldl_Nil by simp
  ultimately show ?thesis by (simp only:)
qed

text \<open>What zlib promises: inflating a deflated string, whatever follows it, gives the string and how long
  its deflated form was.\<close>

definition zlib_law :: "codec \<Rightarrow> bool" where
  "zlib_law cd \<longleftrightarrow>
     (\<forall>d rest. length d < 2 ^ 64 \<longrightarrow>
        decompress cd (deflate cd d @ rest) (word_of_nat (length d)) = Inr (True, d, length (deflate cd d)))"

definition object_bytes :: "codec \<Rightarrow> obj_kind \<times> string \<Rightarrow> string" where
  "object_bytes cd ob = object_header (fst ob) (word_of_nat (length (snd ob))) @ deflate cd (snd ob)"

definition parsed_as :: "codec \<Rightarrow> obj_kind \<times> string \<Rightarrow> parsed_object" where
  "parsed_as cd ob = \<lparr>po_id = projr (object_id cd (fst ob) (snd ob)), po_kind = fst ob, po_data = snd ob\<rparr>"

definition writable :: "codec \<Rightarrow> obj_kind \<times> string \<Rightarrow> bool" where
  "writable cd ob \<longleftrightarrow> length (snd ob) < 2 ^ 64 \<and> \<not> isl (object_id cd (fst ob) (snd ob))"

lemma written_objects:
  "fold (\<lambda>(kind, data) out. write_pack_object cd out kind data) objects out = out @ concat (map (object_bytes cd) objects)"
  by (induction objects arbitrary: out) (auto simp: write_pack_object_def object_bytes_def)

lemma kind_from_type_code: "kind_from_code (pack_type_code k) = Inr k" "1 \<le> pack_type_code k \<and> pack_type_code k \<le> 4"
  by (cases k; simp add: kind_from_code_def pack_type_code_def)+

lemma read_entry_written:
  assumes "zlib_law cd" "writable cd ob" "drop pos data = object_bytes cd ob @ rest"
  shows "read_entry cd find_in_repo data resolved pos = Inr (parsed_as cd ob, pos + length (object_bytes cd ob))"
proof -
  obtain k d where ob: "ob = (k, d)" by fastforce
  let ?w = "word_of_nat (length d) :: 64 word"
  let ?h = "object_header k ?w"
  have len: "length d < 2 ^ 64" using assms(2) ob by (simp add: writable_def)
  have data: "drop pos data = ?h @ deflate cd d @ rest" using assms(3) ob by (simp add: object_bytes_def)
  then have "drop (pos + length ?h) data = deflate cd d @ rest"
    by (simp flip: drop_drop add: add.commute [of pos])
  moreover have "int (length d) = uint ?w" using len by (simp add: unsigned_of_nat take_bit_eq_mod flip: of_nat_mod)
  ultimately have "inflate cd (drop (pos + length ?h) data) ?w = Inr (d, length (deflate cd d))"
    using assms(1) len by (simp add: inflate_def zlib_law_def)
  then have whole: "read_whole cd data (pos + length ?h) (pack_type_code k) ?w
      = Inr ((k, d), pos + length ?h + length (deflate cd d))"
    by (simp add: read_whole_def kind_from_type_code)
  obtain i where "object_id cd k d = Inr i" using assms(2) ob by (cases "object_id cd k d") (auto simp: writable_def)
  then show ?thesis
    using whole data kind_from_type_code(2) ob
    by (simp add: read_entry_def read_object_header_written parsed_as_def object_bytes_def)
qed

lemma read_entries_written:
  "zlib_law cd \<Longrightarrow> \<forall>ob\<in>set objects. writable cd ob \<Longrightarrow> drop pos data = concat (map (object_bytes cd) objects) @ rest
   \<Longrightarrow> \<exists>es. read_entries cd find_in_repo data resolved pos (length objects) = Inr (resolved @ es)
        \<and> map snd es = map (parsed_as cd) objects"
proof (induction objects arbitrary: pos resolved)
  case (Cons ob objects)
  then have entry: "read_entry cd find_in_repo data resolved pos = Inr (parsed_as cd ob, pos + length (object_bytes cd ob))"
    by (intro read_entry_written) auto
  have "drop (pos + length (object_bytes cd ob)) data = concat (map (object_bytes cd) objects) @ rest"
    using Cons.prems(3) by (simp flip: drop_drop add: add.commute [of pos])
  with Cons.IH [of "pos + length (object_bytes cd ob)" "resolved @ [(pos, parsed_as cd ob)]"] Cons.prems obtain es where
    "read_entries cd find_in_repo data (resolved @ [(pos, parsed_as cd ob)]) (pos + length (object_bytes cd ob)) (length objects)
      = Inr (resolved @ (pos, parsed_as cd ob) # es)" "map snd es = map (parsed_as cd) objects" by auto
  then show ?case using entry by (intro exI [of _ "(pos, parsed_as cd ob) # es"]) simp
qed simp

text \<open>C32. A pack that was written is read back as it was. For fewer than 2^32 objects of fewer than 2^64
  bytes, whatever zlib does as long as inflating inverts deflating, and whatever SHA-1 does as long as it
  answers, parsing a serialized pack gives exactly the objects in order, each under the id it hashes to.\<close>

theorem pack_roundtrip:
  assumes "serialize_pack cd objects = Inr out" "zlib_law cd"
    and "length objects < 2 ^ 32" "\<forall>ob\<in>set objects. writable cd ob"
  shows "parse_pack cd find_in_repo out = Inr (map (parsed_as cd) objects)"
proof -
  let ?n = "be32 (word_of_nat (length objects))"
  let ?body = "concat (map (object_bytes cd) objects)"
  obtain checksum where out: "out = ''PACK'' @ be32 2 @ ?n @ ?body @ checksum"
    using assms(1) by (auto simp: serialize_pack_def Let_def written_objects split: sum.splits)
  have len: "length (be32 w) = 4" for w by (simp add: be32_def)
  have "be_value (take 4 (drop 4 out)) = 2" using be_value_be32 [of 2] by (simp add: out len)
  moreover have "be_value (take 4 (drop 8 out)) = length objects"
    using be_value_be32 [OF assms(3)] by (simp add: out len)
  moreover have "take 4 out = ''PACK''" "12 \<le> length out" by (simp_all add: out len)
  moreover have "drop 12 out = ?body @ checksum" by (simp add: out len)
  from read_entries_written [OF assms(2,4) this, of find_in_repo "[]"] obtain es where
    "read_entries cd find_in_repo out [] 12 (length objects) = Inr es" "map snd es = map (parsed_as cd) objects" by auto
  ultimately show ?thesis by (simp add: parse_pack_def)
qed

definition stored :: codec where
  "stored = \<lparr>deflate = (\<lambda>d. d), decompress = (\<lambda>data n. Inr (True, take (unat n) data, unat n)),
     sha1 = (\<lambda>s. Inr (take 20 (s @ replicate 20 (CHR 0x00))))\<rparr>"

definition two_objects :: "(obj_kind \<times> string) list" where
  "two_objects = [(KBlob, ''hi''), (KTree, replicate 20 (CHR ''x''))]"

lemma stored_law: "zlib_law stored"
  by (simp add: zlib_law_def stored_def unsigned_of_nat take_bit_eq_mod)

theorem pack_roundtrip_witness:
  "parse_pack stored (\<lambda>_. Inl ''not found'') (projr (serialize_pack stored two_objects)) = Inr (map (parsed_as stored) two_objects)"
proof -
  have "serialize_pack stored two_objects = Inr (projr (serialize_pack stored two_objects))"
    by (simp add: serialize_pack_def Let_def stored_def)
  moreover have "length two_objects < 2 ^ 32" "\<forall>ob\<in>set two_objects. writable stored ob"
    by (simp_all add: two_objects_def writable_def object_id_def stored_def)
  ultimately show ?thesis using pack_roundtrip stored_law by blast
qed

section \<open>Deltas\<close>

text \<open>What a delta says, instruction by instruction, and one way to write it: bytes that are zero are left
  out, and a copy of 0x10000 bytes has no size.\<close>

datatype delta_instr = DCopy nat nat | DInsert string

fun run_instr :: "string \<Rightarrow> delta_instr \<Rightarrow> string" where
  "run_instr base (DCopy offset n) = take n (drop offset base)"
| "run_instr base (DInsert s) = s"

fun instr_fits :: "string \<Rightarrow> delta_instr \<Rightarrow> bool" where
  "instr_fits base (DCopy offset n) \<longleftrightarrow> 0 < n \<and> n < 2 ^ 24 \<and> offset < 2 ^ 32 \<and> offset + n \<le> length base"
| "instr_fits base (DInsert s) \<longleftrightarrow> s \<noteq> [] \<and> length s < 128"

definition nth_byte :: "nat \<Rightarrow> nat \<Rightarrow> 8 word" where
  "nth_byte v i = word_of_nat (v div 256 ^ i)"

definition field_flags :: "nat \<Rightarrow> nat list \<Rightarrow> nat \<Rightarrow> 8 word" where
  "field_flags k is v = fold (\<lambda>i w. if nth_byte v i \<noteq> 0 then w OR push_bit (k + i) 1 else w) is 0"

definition field_bytes :: "nat list \<Rightarrow> nat \<Rightarrow> string" where
  "field_bytes is v = map (\<lambda>i. chr8 (nth_byte v i)) (filter (\<lambda>i. nth_byte v i \<noteq> 0) is)"

fun instr_bytes :: "delta_instr \<Rightarrow> string" where
  "instr_bytes (DCopy offset n) =
     (let n' = (if n = 0x10000 then 0 else n) in
      chr8 (0x80 OR field_flags 0 [0, 1, 2, 3] offset OR field_flags 4 [0, 1, 2] n')
        # field_bytes [0, 1, 2, 3] offset @ field_bytes [0, 1, 2] n')"
| "instr_bytes (DInsert s) = chr8 (word_of_nat (length s)) # s"

definition delta_bytes :: "string \<Rightarrow> delta_instr list \<Rightarrow> string" where
  "delta_bytes base is =
     (let size_field = (\<lambda>n. if n = 0 then [CHR 0x00] else size_bytes (word_of_nat n)) in
      size_field (length base) @ size_field (length (concat (map (run_instr base) is))) @ concat (map instr_bytes is))"

lemma copy_field_written:
  assumes "\<forall>i\<in>set is. opcode AND push_bit (k + i) 1 \<noteq> 0 \<longleftrightarrow> nth_byte n i \<noteq> 0" "\<forall>i\<in>set is. i < 8"
  shows "copy_field opcode k is v (field_bytes is n @ rest)
    = Inr (fold (\<lambda>i v. v OR push_bit (8 * i) (ucast (nth_byte n i))) is v, rest)"
  using assms
proof (induction "is" arbitrary: v)
  case (Cons i "is")
  have "opcode AND push_bit (k + i) 1 \<noteq> 0 \<longleftrightarrow> nth_byte n i \<noteq> 0" using Cons.prems by auto
  moreover have "shl w (8 * i) = push_bit (8 * i) w" for w using Cons.prems by (simp add: shl_def)
  ultimately show ?case using Cons by (cases "nth_byte n i = 0") (simp_all add: field_bytes_def)
qed (simp add: field_bytes_def)

lemma bit_nth_byte: "bit (nth_byte v i) n \<longleftrightarrow> n < 8 \<and> bit v (n + 8 * i)"
proof -
  have "v div 256 ^ i = drop_bit (8 * i) v" by (simp add: drop_bit_eq_div power_mult)
  then show ?thesis by (auto simp: nth_byte_def bit_of_nat_iff bit_drop_bit_eq add.commute)
qed

lemma small_bits: "(v :: nat) < 2 ^ m \<Longrightarrow> bit v n \<Longrightarrow> n < m"
  by (metis bit_take_bit_iff take_bit_nat_eq_self)

lemma four_bytes:
  assumes "v < 2 ^ 32"
  shows "fold (\<lambda>i w. w OR push_bit (8 * i) (ucast (nth_byte v i))) [0, 1, 2, 3] 0 = (word_of_nat v :: 64 word)"
proof (rule bit_word_eqI)
  fix n
  have "bit v n \<Longrightarrow> n < 32" using small_bits assms by blast
  then show "bit (fold (\<lambda>i w. w OR push_bit (8 * i) (ucast (nth_byte v i))) [0, 1, 2, 3] 0 :: 64 word) n
      = bit (word_of_nat v :: 64 word) n"
    by (cases "n < 8"; cases "n < 16"; cases "n < 24")
      (auto simp: bit_or_iff bit_push_bit_iff bit_ucast_iff bit_nth_byte bit_of_nat_iff)
qed

lemma three_bytes:
  assumes "v < 2 ^ 24"
  shows "fold (\<lambda>i w. w OR push_bit (8 * i) (ucast (nth_byte v i))) [0, 1, 2] 0 = (word_of_nat v :: 64 word)"
proof (rule bit_word_eqI)
  fix n
  have "bit v n \<Longrightarrow> n < 24" using small_bits assms by blast
  then show "bit (fold (\<lambda>i w. w OR push_bit (8 * i) (ucast (nth_byte v i))) [0, 1, 2] 0 :: 64 word) n
      = bit (word_of_nat v :: 64 word) n"
    by (cases "n < 8"; cases "n < 16"; cases "n < 24")
      (auto simp: bit_or_iff bit_push_bit_iff bit_ucast_iff bit_nth_byte bit_of_nat_iff)
qed

lemma bit_flag: "m < 8 \<Longrightarrow> opcode AND push_bit m 1 \<noteq> 0 \<longleftrightarrow> bit (opcode :: 8 word) m"
  by (simp add: bit_iff_and_push_bit_not_eq_0)

lemma bit_field_flags:
  "\<forall>i\<in>set is. k + i < 8 \<Longrightarrow> bit (field_flags k is v) m \<longleftrightarrow> (\<exists>i\<in>set is. m = k + i \<and> nth_byte v i \<noteq> 0)"
proof -
  have "\<forall>i\<in>set is. k + i < 8 \<Longrightarrow>
    bit (fold (\<lambda>i w. if nth_byte v i \<noteq> 0 then w OR push_bit (k + i) 1 else w) is (w0 :: 8 word)) m
      \<longleftrightarrow> bit w0 m \<or> (\<exists>i\<in>set is. m = k + i \<and> nth_byte v i \<noteq> 0)" for w0
    by (induction "is" arbitrary: w0) (auto simp: bit_or_iff bit_push_bit_iff bit_1_iff bit_exp_iff)
  from this [of 0] show "\<forall>i\<in>set is. k + i < 8 \<Longrightarrow> ?thesis" by (simp add: field_flags_def)
qed

lemma delta_size_written:
  "unat w < 2 ^ (64 - shift) \<Longrightarrow> w \<noteq> 0 \<Longrightarrow>
   delta_size_from (size_bytes w @ rest) acc shift pos = Inr (acc OR push_bit shift w, pos + length (size_bytes w))"
proof -
  have "delta_size_from data acc shift pos
      = (case header_more data acc shift pos of Inl _ \<Rightarrow> Inl (GitGit ''truncated delta size'') | Inr r \<Rightarrow> Inr r)" for data acc shift pos
    by (induction data acc shift pos rule: header_more.induct) (simp_all add: Let_def)
  then show "unat w < 2 ^ (64 - shift) \<Longrightarrow> w \<noteq> 0 \<Longrightarrow> ?thesis" using header_more_size by simp
qed

lemma copy_opcode:
  fixes offset n :: nat
  defines "opcode \<equiv> 0x80 OR field_flags 0 [0, 1, 2, 3] offset OR field_flags 4 [0, 1, 2] n"
  shows "opcode AND 0x80 \<noteq> 0"
    and "\<forall>i\<in>set [0, 1, 2, 3]. opcode AND push_bit (0 + i) 1 \<noteq> 0 \<longleftrightarrow> nth_byte offset i \<noteq> 0"
    and "\<forall>i\<in>set [0, 1, 2]. opcode AND push_bit (4 + i) 1 \<noteq> 0 \<longleftrightarrow> nth_byte n i \<noteq> 0"
proof -
  have f: "bit (field_flags 0 [0, 1, 2, 3] offset) m \<longleftrightarrow> (\<exists>i\<in>set [0, 1, 2, 3]. m = 0 + i \<and> nth_byte offset i \<noteq> 0)"
    "bit (field_flags 4 [0, 1, 2] n) m \<longleftrightarrow> (\<exists>i\<in>set [0, 1, 2]. m = 4 + i \<and> nth_byte n i \<noteq> 0)" for m
    by (rule bit_field_flags; simp)+
  show "opcode AND 0x80 \<noteq> 0" unfolding high_bit opcode_def by (simp only: bit_or_iff bit_consts) simp
  have bits: "bit opcode m \<longleftrightarrow> m = 7 \<or> (\<exists>i\<in>set [0, 1, 2, 3]. m = 0 + i \<and> nth_byte offset i \<noteq> 0)
      \<or> (\<exists>i\<in>set [0, 1, 2]. m = 4 + i \<and> nth_byte n i \<noteq> 0)" for m
    unfolding opcode_def bit_or_iff bit_consts f by simp
  have flag: "m < 8 \<Longrightarrow> opcode AND push_bit m 1 \<noteq> 0 \<longleftrightarrow> bit opcode m" for m by (rule bit_flag)
  show "\<forall>i\<in>set [0, 1, 2, 3]. opcode AND push_bit (0 + i) 1 \<noteq> 0 \<longleftrightarrow> nth_byte offset i \<noteq> 0"
  proof
    fix i assume i: "i \<in> set [0, 1, 2, 3 :: nat]"
    then have "0 + i < 8" by auto
    from flag [OF this] i show "opcode AND push_bit (0 + i) 1 \<noteq> 0 \<longleftrightarrow> nth_byte offset i \<noteq> 0" unfolding bits by auto
  qed
  show "\<forall>i\<in>set [0, 1, 2]. opcode AND push_bit (4 + i) 1 \<noteq> 0 \<longleftrightarrow> nth_byte n i \<noteq> 0"
  proof
    fix i assume i: "i \<in> set [0, 1, 2 :: nat]"
    then have "4 + i < 8" by auto
    from flag [OF this] i show "opcode AND push_bit (4 + i) 1 \<noteq> 0 \<longleftrightarrow> nth_byte n i \<noteq> 0" unfolding bits by auto
  qed
qed

lemma delta_ops_instr:
  assumes "instr_fits base i"
  shows "delta_ops base (instr_bytes i @ rest) out = delta_ops base rest (out @ run_instr base i)"
proof (cases i)
  case (DInsert s)
  let ?n = "word_of_nat (length s) :: 8 word"
  have n: "length s < 128" "s \<noteq> []" using assms DInsert by auto
  then have u: "unat ?n = length s" by (simp add: unsigned_of_nat take_bit_eq_mod)
  then have "?n \<noteq> 0" using n by (metis length_0_conv unsigned_0)
  moreover have "?n AND 0x80 = 0"
    unfolding high_bit using n small_bits [of "length s" 7 7] by (auto simp: bit_of_nat_iff)
  ultimately show ?thesis using DInsert u by (simp add: Let_def)
next
  case (DCopy offset n)
  define n' where "n' = (if n = 0x10000 then 0 else n)"
  let ?op = "0x80 OR field_flags 0 [0, 1, 2, 3] offset OR field_flags 4 [0, 1, 2] n' :: 8 word"
  note op = copy_opcode [of offset n']
  have fits: "0 < n" "n < 2 ^ 24" "offset < 2 ^ 32" "offset + n \<le> length base" using assms DCopy by auto
  have f1: "copy_field ?op 0 [0, 1, 2, 3] 0 (field_bytes [0, 1, 2, 3] offset @ r) = Inr (word_of_nat offset, r)" for r
    using copy_field_written [OF op(2)] four_bytes [OF fits(3)] by simp
  have f2: "copy_field ?op 4 [0, 1, 2] 0 (field_bytes [0, 1, 2] n' @ r) = Inr (word_of_nat n', r)" for r
    using copy_field_written [OF op(3)] three_bytes [of n'] fits(2) by (simp add: n'_def)
  have o: "unat (word_of_nat offset :: 64 word) = offset" using fits(3) by (simp add: unsigned_of_nat take_bit_eq_mod)
  have z: "(if (word_of_nat n' :: 64 word) = 0 then 0x10000 else word_of_nat n' :: 64 word) = word_of_nat n"
  proof (cases "n = 0x10000")
    case False
    have "unat (word_of_nat n :: 64 word) = n" using fits(2) by (simp add: unsigned_of_nat take_bit_eq_mod)
    then have "word_of_nat n \<noteq> (0 :: 64 word)" using fits(1) by (metis less_numeral_extra(3) unsigned_0)
    then show ?thesis using False by (simp add: n'_def)
  qed (simp add: n'_def)
  have m: "unat (word_of_nat n :: 64 word) = n" using fits(2) by (simp add: unsigned_of_nat take_bit_eq_mod)
  have le: "\<not> 2 ^ 64 \<le> uint (word_of_nat offset :: 64 word) + uint (word_of_nat n :: 64 word)"
    using o m fits(2,3) unfolding uint_nat by simp
  have bytes: "instr_bytes i @ rest = chr8 ?op # field_bytes [0, 1, 2, 3] offset @ field_bytes [0, 1, 2] n' @ rest"
    using DCopy by (simp add: n'_def Let_def)
  show ?thesis
    unfolding bytes delta_ops.simps(2) u8_chr8 Let_def if_P [OF op(1)] f1 f2 sum.case prod.case z if_not_P [OF le] o m
    using fits(4) DCopy by simp
qed

lemma delta_ops_written:
  "\<forall>i\<in>set is. instr_fits base i \<Longrightarrow>
   delta_ops base (concat (map instr_bytes is)) out = Inr (out @ concat (map (run_instr base) is))"
  by (induction "is" arbitrary: out) (simp_all add: delta_ops_instr)

lemma read_size_written:
  assumes "n < 2 ^ 64"
  shows "read_delta_size ((if n = 0 then [CHR 0x00] else size_bytes (word_of_nat n)) @ rest)
    = Inr (word_of_nat n, length (if n = 0 then [CHR 0x00] else size_bytes (word_of_nat n)))"
proof (cases "n = 0")
  case True
  then show ?thesis by (simp add: read_delta_size_def u8_def shl_def Let_def)
next
  case False
  have u: "unat (word_of_nat n :: 64 word) = n" using assms by (simp add: unsigned_of_nat take_bit_eq_mod)
  then have "word_of_nat n \<noteq> (0 :: 64 word)" using False by (metis unsigned_0)
  then show ?thesis using False u assms delta_size_written [of "word_of_nat n" 0 rest 0 0] by (simp add: read_delta_size_def)
qed

text \<open>The bytes of a delta, as the format has it. A size is written in groups of seven bits, the lowest
  first, each byte but the last with its high bit set. A copy's operation code has its high bit
  set, and its other seven bits say which of the four bytes of the offset and the three bytes of the
  length follow, little end first; a byte that is left out is zero, and the length zero stands
  for 0x10000. Any other code but zero is the number of bytes to insert, which follow.\<close>

fun size_value :: "string \<Rightarrow> nat" where
  "size_value [] = 0"
| "size_value (c # cs) = of_char c mod 128 + 128 * size_value cs"

fun size_form :: "string \<Rightarrow> bool" where
  "size_form [] = False"
| "size_form [c] = ((of_char c :: nat) < 128)"
| "size_form (c # cs) = (128 \<le> (of_char c :: nat) \<and> size_form cs)"

definition size_field :: "string \<Rightarrow> nat \<Rightarrow> bool" where
  "size_field s n \<longleftrightarrow> size_form s \<and> (length s \<le> 9 \<longrightarrow> size_value s = n)"

fun field_value :: "char option list \<Rightarrow> nat" where
  "field_value [] = 0"
| "field_value (b # bs) = (case b of None \<Rightarrow> 0 | Some c \<Rightarrow> of_char c) + 256 * field_value bs"

definition present :: "char option list \<Rightarrow> string" where
  "present bs = List.map_filter id bs"

definition flags_say :: "nat \<Rightarrow> nat \<Rightarrow> char option list \<Rightarrow> bool" where
  "flags_say opc k bs \<longleftrightarrow> (\<forall>i<length bs. bs ! i \<noteq> None \<longleftrightarrow> bit opc (k + i))"

inductive spells :: "string \<Rightarrow> delta_instr list \<Rightarrow> bool" where
  spells_nil: "spells [] []"
| spells_insert: "0 < (of_char c :: nat) \<Longrightarrow> (of_char c :: nat) < 128 \<Longrightarrow> length s = of_char c \<Longrightarrow> spells rest is \<Longrightarrow>
     spells (c # s @ rest) (DInsert s # is)"
| spells_copy: "128 \<le> (of_char c :: nat) \<Longrightarrow> length os = 4 \<Longrightarrow> length ls = 3 \<Longrightarrow> flags_say (of_char c) 0 os \<Longrightarrow>
     flags_say (of_char c) 4 ls \<Longrightarrow> spells rest is \<Longrightarrow>
     spells (c # present os @ present ls @ rest)
       (DCopy (field_value os) (if field_value ls = 0 then 0x10000 else field_value ls) # is)"

fun instr_safe :: "string \<Rightarrow> delta_instr \<Rightarrow> bool" where
  "instr_safe base (DCopy offset n) \<longleftrightarrow> 0 < n \<and> offset + n \<le> length base"
| "instr_safe base (DInsert s) \<longleftrightarrow> s \<noteq> []"

text \<open>The code's words are these numbers.\<close>

lemma u8_nat: "unat (u8 c) = of_char c"
  using of_char_mod_256 [where ?'a = nat, of c] by (simp add: u8_def unsigned_of_nat take_bit_eq_mod)

lemma u8_bit: "m < 8 \<Longrightarrow> bit (u8 c) m \<longleftrightarrow> bit (of_char c :: nat) m"
  by (simp add: u8_def bit_of_nat_iff)

lemma bit_seven: "(n :: nat) < 256 \<Longrightarrow> bit n 7 \<longleftrightarrow> 128 \<le> n"
proof -
  assume "n < 256"
  then have "n div 128 < 2" by (intro less_mult_imp_div_less) simp
  moreover have "128 \<le> n \<longleftrightarrow> n div 128 \<noteq> 0" by (simp add: div_eq_0_iff not_less)
  ultimately show ?thesis by (cases "n div 128 = 0") (auto simp: bit_iff_odd dest: less_2_cases)
qed

lemma of_char_less: "(of_char c :: nat) < 256"
proof -
  have "(of_char c :: nat) mod 256 < 256" by (rule mod_less_divisor) simp
  then show ?thesis unfolding of_char_mod_256 .
qed

lemma u8_high: "u8 c AND 0x80 = 0 \<longleftrightarrow> (of_char c :: nat) < 128"
  using bit_seven [OF of_char_less, of c] high_bit [of "u8 c"] u8_bit [of 7 c] by auto

lemma or_above:
  assumes "unat (v :: 64 word) < 2 ^ n" "unat w * 2 ^ n < 2 ^ 64" "n < 64"
  shows "unat (v OR push_bit n w) = unat v + 2 ^ n * unat w"
proof -
  have "\<not> (bit v i \<and> bit (push_bit n w) i)" for i
  proof
    assume b: "bit v i \<and> bit (push_bit n w) i"
    then have "bit (unat v) i" by (simp add: bit_unsigned_iff)
    then have "i < n" using small_bits assms(1) by blast
    then show False using b by (simp add: bit_push_bit_iff)
  qed
  then have "v + push_bit n w = v OR push_bit n w"
    by (intro disjunctive_add) blast
  moreover have p: "unat (push_bit n w) = 2 ^ n * unat w"
    by (subst unsigned_push_bit_eq) (use assms(2) in \<open>simp add: push_bit_eq_mult take_bit_eq_mod mult.commute\<close>)
  moreover have "unat v + unat (push_bit n w) < 2 ^ 64"
  proof -
    have "unat w < 2 ^ (64 - n)"
    proof (rule ccontr)
      assume "\<not> ?thesis"
      then have "2 ^ (64 - n) * 2 ^ n \<le> unat w * 2 ^ n" by simp
      moreover have "2 ^ (64 - n) * 2 ^ n = (2 :: nat) ^ 64" using assms(3) by (simp flip: power_add)
      ultimately show False using assms(2) by simp
    qed
    then have "(unat w + 1) * 2 ^ n \<le> 2 ^ (64 - n) * 2 ^ n" by (intro mult_le_mono1) simp
    moreover have "2 ^ (64 - n) * 2 ^ n = (2 :: nat) ^ 64" using assms(3) by (simp flip: power_add)
    ultimately show ?thesis using assms(1) p by (simp add: algebra_simps)
  qed
  ultimately show ?thesis using unat_word_ariths(1) [of v "push_bit n w"] by simp
qed



lemma u8_shifted:
  assumes "unat v < 2 ^ (8 * j)" "j < 4"
  shows "unat (v OR shl (ucast (u8 b)) (8 * j)) = unat v + 256 ^ j * of_char b"
    and "unat (v OR shl (ucast (u8 b)) (8 * j)) < 2 ^ (8 * Suc j)"
proof -
  have b: "unat (ucast (u8 b) :: 64 word) = of_char b" "(of_char b :: nat) < 256"
    using u8_nat [of b] mod_less [OF less_trans [OF of_char_less [of b]], of "2 ^ 64"] of_char_less
    by (simp_all add: unsigned_ucast_eq take_bit_eq_mod)
  have "unat (ucast (u8 b) :: 64 word) * 2 ^ (8 * j) < 2 ^ 8 * 2 ^ (8 * j)" unfolding b(1) using b(2) by simp
  also have "\<dots> \<le> 2 ^ 64" unfolding power_add [symmetric] using assms(2) by (intro power_increasing) simp_all
  finally have "unat (v OR push_bit (8 * j) (ucast (u8 b))) = unat v + 2 ^ (8 * j) * of_char b"
    using or_above [OF assms(1), of "ucast (u8 b)"] assms(2) b(1) by simp
  moreover have "shl w (8 * j) = push_bit (8 * j) w" for w using assms(2) by (simp add: shl_def)
  ultimately show eq: "unat (v OR shl (ucast (u8 b)) (8 * j)) = unat v + 256 ^ j * of_char b"
    by (simp add: power_mult)
  have "unat v + 256 ^ j * of_char b < 256 ^ j + 256 ^ j * of_char b" using assms(1) by (simp add: power_mult)
  also have "\<dots> \<le> 256 ^ j * 256" using mult_le_mono2 [OF Suc_leI [OF b(2)], of "256 ^ j"] by simp
  finally show "unat (v OR shl (ucast (u8 b)) (8 * j)) < 2 ^ (8 * Suc j)" unfolding eq by (simp add: power_mult power_add)
qed

lemma flags_say_Cons: "flags_say n k (b # bs) \<longleftrightarrow> (b \<noteq> None \<longleftrightarrow> bit n k) \<and> flags_say n (Suc k) bs"
  by (auto simp: flags_say_def All_less_Suc2)

lemma flag_set: "m < 8 \<Longrightarrow> u8 c AND push_bit m 1 \<noteq> 0 \<longleftrightarrow> bit (of_char c :: nat) m"
  using bit_flag [of m "u8 c"] u8_bit by simp

lemma present_simps [simp]: "present [] = []" "present (None # bs) = present bs" "present (Some b # bs) = b # present bs"
  by (simp_all add: present_def List.map_filter_simps)

lemma copy_field_reads:
  assumes "copy_field (u8 c) k [j..<m] v delta = Inr (v', d1)" "unat v < 2 ^ (8 * j)" "j \<le> m" "m \<le> 4" "k + m < 8"
  shows "\<exists>bs. length bs = m - j \<and> delta = present bs @ d1 \<and> unat v' = unat v + 256 ^ j * field_value bs
    \<and> flags_say (of_char c) (k + j) bs"
  using assms
proof (induction "m - j" arbitrary: j v delta)
  case 0
  then show ?case by (intro exI [of _ "[]"]) (simp add: flags_say_def)
next
  case (Suc n)
  then have up: "[j..<m] = j # [Suc j..<m]" and j: "j < m" "j < 4" "n = m - Suc j" by (auto simp: upt_conv_Cons)
  note flag = flag_set [of "k + j" c]
  show ?case
  proof (cases "bit (of_char c :: nat) (k + j)")
    case True
    then obtain b rest where d: "delta = b # rest"
      and run: "copy_field (u8 c) k [Suc j..<m] (v OR shl (ucast (u8 b)) (8 * j)) rest = Inr (v', d1)"
      using Suc.prems flag j up by (auto split: if_splits list.splits)
    note w = u8_shifted [OF Suc.prems(2) j(2), of b]
    obtain bs where bs: "length bs = m - Suc j" "rest = present bs @ d1"
      "unat v' = unat (v OR shl (ucast (u8 b)) (8 * j)) + 256 ^ Suc j * field_value bs" "flags_say (of_char c) (k + Suc j) bs"
      using Suc.hyps(1) [OF j(3) run w(2)] Suc.prems(4,5) j(1) by auto
    show ?thesis
      using bs d j w(1) True by (intro exI [of _ "Some b # bs"]) (auto simp: flags_say_Cons algebra_simps)
  next
    case False
    then have run: "copy_field (u8 c) k [Suc j..<m] v delta = Inr (v', d1)"
      using Suc.prems flag j up by auto
    have "unat v < 2 ^ (8 * Suc j)" using Suc.prems(2) by (rule less_le_trans) (rule power_increasing, simp_all)
    then obtain bs where bs: "length bs = m - Suc j" "delta = present bs @ d1"
      "unat v' = unat v + 256 ^ Suc j * field_value bs" "flags_say (of_char c) (k + Suc j) bs"
      using Suc.hyps(1) [OF j(3) run] Suc.prems(4,5) j(1) by auto
    show ?thesis
      using bs j False by (intro exI [of _ "None # bs"]) (auto simp: flags_say_Cons algebra_simps)
  qed
qed

lemma copy_field_spelled:
  assumes "flags_say (of_char c) (k + j) bs" "length bs = m - j" "unat v < 2 ^ (8 * j)" "j \<le> m" "m \<le> 4" "k + m < 8"
  shows "\<exists>v'. copy_field (u8 c) k [j..<m] v (present bs @ rest) = Inr (v', rest)
    \<and> unat v' = unat v + 256 ^ j * field_value bs"
  using assms
proof (induction bs arbitrary: j v)
  case Nil
  then show ?case by simp
next
  case (Cons b bs)
  then have up: "[j..<m] = j # [Suc j..<m]" and j: "j < m" "j < 4" by (auto simp: upt_conv_Cons)
  have f: "b \<noteq> None \<longleftrightarrow> bit (of_char c :: nat) (k + j)" "flags_say (of_char c) (k + Suc j) bs"
    using Cons.prems(1) by (simp_all add: flags_say_Cons)
  note flag = flag_set [of "k + j" c]
  show ?case
  proof (cases b)
    case None
    have "unat v < 2 ^ (8 * Suc j)" using Cons.prems(3) by (rule less_le_trans) (rule power_increasing, simp_all)
    from Cons.IH [OF f(2) _ this] show ?thesis
      using None f(1) flag up Cons.prems j by (auto simp: algebra_simps)
  next
    case (Some x)
    note w = u8_shifted [OF Cons.prems(3) j(2), of x]
    from Cons.IH [OF f(2) _ w(2)] show ?thesis
      using Some f(1) flag up Cons.prems j w(1) by (auto simp: algebra_simps)
  qed
qed

lemma delta_ops_sound:
  "delta_ops base delta out = Inr res \<Longrightarrow>
   \<exists>is. spells delta is \<and> list_all (instr_safe base) is \<and> res = out @ concat (map (run_instr base) is)"
proof (induction base delta out rule: delta_ops.induct)
  case (1 base out)
  then show ?case by (intro exI [of _ "[]"]) (simp add: spells_nil)
next
  case (2 base c delta out)
  show ?case
  proof (cases "u8 c AND 0x80 = 0")
    case True
    then have nz: "u8 c \<noteq> 0" "unat (u8 c) \<le> length delta"
      and run: "delta_ops base (drop (unat (u8 c)) delta) (out @ take (unat (u8 c)) delta) = Inr res"
      using "2.prems" by (auto simp: Let_def split: if_splits)
    let ?s = "take (of_char c) delta"
    have n: "0 < (of_char c :: nat)" "(of_char c :: nat) < 128" "length ?s = of_char c"
      using nz True unat_gt_0 [of "u8 c"] by (auto simp: u8_nat u8_high)
    obtain "is" where i: "spells (drop (of_char c) delta) is" "list_all (instr_safe base) is"
      "res = (out @ ?s) @ concat (map (run_instr base) is)"
      using "2.IH"(2) [OF refl _ nz(1) _ run] True nz(2) unfolding u8_nat by auto
    have "spells (c # ?s @ drop (of_char c) delta) (DInsert ?s # is)" by (rule spells_insert [OF n i(1)])
    moreover have "?s \<noteq> []" using n by auto
    ultimately show ?thesis using i(2,3) by (intro exI [of _ "DInsert ?s # is"]) simp
  next
    case False
    obtain offset d1 where o: "copy_field (u8 c) 0 [0, 1, 2, 3] 0 delta = Inr (offset, d1)"
      using "2.prems" False by (auto simp: Let_def simp del: copy_field.simps split: sum.splits)
    obtain n d2 where n: "copy_field (u8 c) 4 [0, 1, 2] 0 d1 = Inr (n, d2)"
      using "2.prems" False o by (auto simp: Let_def simp del: copy_field.simps split: sum.splits)
    let ?n = "if n = 0 then 0x10000 else n"
    have le: "\<not> 2 ^ 64 \<le> uint offset + uint ?n" "unat offset + unat ?n \<le> length base"
      and run: "delta_ops base d2 (out @ take (unat ?n) (drop (unat offset) base)) = Inr res"
      using "2.prems" False unfolding delta_ops.simps(2) Let_def if_P [OF False] o n sum.case prod.case
      by (simp_all only: if_not_P split: if_split_asm) (simp_all add: not_less)
    have up: "[0, 1, 2, 3] = [0..<4]" "[0, 1, 2] = [0..<3]" by (simp_all add: upt_rec)
    obtain os where os: "length os = 4" "delta = present os @ d1" "unat offset = field_value os" "flags_say (of_char c) 0 os"
      using copy_field_reads [OF o [unfolded up(1)]] by auto
    obtain ls where ls: "length ls = 3" "d1 = present ls @ d2" "unat n = field_value ls" "flags_say (of_char c) 4 ls"
      using copy_field_reads [OF n [unfolded up(2)]] by auto
    have sz: "unat ?n = (if field_value ls = 0 then 0x10000 else field_value ls)" using ls(3) unat_eq_zero [of n] by auto
    obtain "is" where i: "spells d2 is" "list_all (instr_safe base) is"
      "res = (out @ take (unat ?n) (drop (unat offset) base)) @ concat (map (run_instr base) is)"
      using "2.IH"(1) [OF refl False o refl n refl refl le(1) _ run] le(2) by auto
    have "spells (c # present os @ present ls @ d2) (DCopy (unat offset) (unat ?n) # is)"
      unfolding sz os(3) by (rule spells_copy) (use False os ls i in \<open>simp_all add: u8_high\<close>)
    moreover have "0 < unat ?n" by (simp add: unat_gt_0)
    ultimately show ?thesis using i(2,3) le(2) os(2) ls(2)
      by (intro exI [of _ "DCopy (unat offset) (unat ?n) # is"]) simp
  qed
qed

lemma field_value_bound: "field_value bs < 256 ^ length bs"
proof (induction bs)
  case (Cons b bs)
  have "(case b of None \<Rightarrow> 0 | Some c \<Rightarrow> of_char c) \<le> (255 :: nat)"
    using Suc_leI [OF of_char_less] by (auto split: option.splits)
  moreover have "256 * (field_value bs + 1) \<le> 256 * 256 ^ length bs" using Cons by (intro mult_le_mono2) simp
  ultimately show ?case by simp
qed simp

lemma delta_ops_spelled:
  "spells delta is \<Longrightarrow> list_all (instr_safe base) is \<Longrightarrow>
   delta_ops base delta out = Inr (out @ concat (map (run_instr base) is))"
proof (induction arbitrary: out rule: spells.induct)
  case (spells_insert c s rest "is")
  have "u8 c \<noteq> 0" using spells_insert(1) u8_nat [of c] by auto
  then show ?case
    using spells_insert u8_high [of c] u8_nat [of c] by (simp add: Let_def)
next
  case (spells_copy c os ls rest "is")
  have up: "[0, 1, 2, 3] = [0..<4]" "[0, 1, 2] = [0..<3]" by (simp_all add: upt_rec)
  have f: "flags_say (of_char c) (0 + 0) os" "flags_say (of_char c) (4 + 0) ls" "length os = 4 - 0" "length ls = 3 - 0"
    using spells_copy(2-5) by simp_all
  obtain v where v: "copy_field (u8 c) 0 [0..<4] 0 (present os @ present ls @ rest) = Inr (v, present ls @ rest)"
    "unat v = field_value os"
    using copy_field_spelled [OF f(1,3), of 0 "present ls @ rest"] by auto
  obtain n where n: "copy_field (u8 c) 4 [0..<3] 0 (present ls @ rest) = Inr (n, rest)" "unat n = field_value ls"
    using copy_field_spelled [OF f(2,4), of 0 rest] by auto
  let ?n = "if n = 0 then 0x10000 else n"
  have sz: "unat ?n = (if field_value ls = 0 then 0x10000 else field_value ls)" using n(2) unat_eq_zero [of n] by auto
  have bounds: "field_value os < 256 ^ 4" "field_value ls < 256 ^ 3"
    using field_value_bound [of os] field_value_bound [of ls] spells_copy(2,3) by simp_all
  then have "unat v + unat ?n < 2 ^ 64" unfolding sz v(2) by auto
  then have "int (unat v + unat ?n) < int (2 ^ 64)" by (rule of_nat_less_iff [THEN iffD2])
  then have le: "\<not> 2 ^ 64 \<le> uint v + uint ?n" by (simp only: uint_nat of_nat_add not_le of_nat_power of_nat_numeral)
  have op: "u8 c AND 0x80 \<noteq> 0" using spells_copy(1) u8_high by simp
  have safe: "\<not> length base < unat v + unat ?n" unfolding sz v(2) using spells_copy.prems by simp
  show ?case
    unfolding delta_ops.simps(2) Let_def if_P [OF op] v(1) [folded up] n(1) [folded up] sum.case prod.case if_not_P [OF le] if_not_P [OF safe]
    using spells_copy.IH spells_copy.prems sz v(2) by simp
qed simp

text \<open>The sizes in front.\<close>

lemma size_reads:
  "delta_size_from data sz shift pos = Inr (w, n) \<Longrightarrow>
     \<exists>h rest. data = h @ rest \<and> n = pos + length h \<and> size_form h"
proof (induction data sz shift pos rule: delta_size_from.induct)
  case (2 c rest sz shift pos)
  show ?case
  proof (cases "u8 c AND 0x80 = 0")
    case True
    then show ?thesis using "2.prems" by (intro exI [of _ "[c]"] exI [of _ rest]) (simp add: Let_def u8_high)
  next
    case False
    then obtain h r where h: "rest = h @ r" "n = Suc pos + length h" "size_form h" using 2 by (auto simp: Let_def)
    have "size_form (c # h)" using h(3) False by (cases h) (simp_all add: u8_high)
    then show ?thesis using h by (intro exI [of _ "c # h"] exI [of _ r]) simp
  qed
qed simp

lemma group_added:
  assumes "unat sz < 2 ^ (7 * j)" "j < 9"
  shows "unat (sz OR shl (ucast (u8 c AND 0x7f)) (7 * j)) = unat sz + 128 ^ j * (of_char c mod 128)"
    and "unat (sz OR shl (ucast (u8 c AND 0x7f)) (7 * j)) < 2 ^ (7 * Suc j)"
proof -
  have "(0x7f :: 8 word) = mask 7" by (simp add: mask_eq_exp_minus_1)
  then have low: "u8 c AND 0x7f = take_bit 7 (u8 c)" by (simp add: take_bit_eq_mask)
  have b: "unat (ucast (u8 c AND 0x7f) :: 64 word) = of_char c mod 128"
    using mod_less [OF less_trans [OF of_char_less [of c]], of "2 ^ 64"]
    unfolding low unsigned_ucast_eq unsigned_take_bit_eq u8_nat
    by (simp add: take_bit_eq_mod)
  have "unat (ucast (u8 c AND 0x7f) :: 64 word) * 2 ^ (7 * j) < 2 ^ 7 * 2 ^ (7 * j)" unfolding b by simp
  also have "\<dots> \<le> 2 ^ 64" unfolding power_add [symmetric] using assms(2) by (intro power_increasing) simp_all
  finally have "unat (sz OR push_bit (7 * j) (ucast (u8 c AND 0x7f))) = unat sz + 2 ^ (7 * j) * (of_char c mod 128)"
    using or_above [OF assms(1), of "ucast (u8 c AND 0x7f)"] assms(2) b by simp
  moreover have "shl w (7 * j) = push_bit (7 * j) w" for w using assms(2) by (simp add: shl_def)
  ultimately show eq: "unat (sz OR shl (ucast (u8 c AND 0x7f)) (7 * j)) = unat sz + 128 ^ j * (of_char c mod 128)"
    by (simp add: power_mult)
  have "(of_char c mod 128 :: nat) < 128" by simp
  note top = mult_le_mono2 [OF Suc_leI [OF this], of "128 ^ j"]
  have "unat sz + 128 ^ j * (of_char c mod 128) < 128 ^ j + 128 ^ j * (of_char c mod 128)"
    using assms(1) by (simp add: power_mult)
  also have "\<dots> \<le> 128 ^ j * 128" using top by simp
  finally show "unat (sz OR shl (ucast (u8 c AND 0x7f)) (7 * j)) < 2 ^ (7 * Suc j)"
    unfolding eq by (simp add: power_mult power_add)
qed

lemma size_spelled:
  "size_form h \<Longrightarrow> j + length h \<le> 9 \<Longrightarrow> unat sz < 2 ^ (7 * j) \<Longrightarrow>
     \<exists>w. delta_size_from (h @ rest) sz (7 * j) pos = Inr (w, pos + length h) \<and> unat w = unat sz + 128 ^ j * size_value h"
proof (induction h arbitrary: j sz pos rule: size_form.induct)
  case (2 c)
  then show ?case using group_added(1) [of sz j c] u8_high [of c] by (simp add: Let_def)
next
  case (3 c d cs)
  have j: "j < 9" "Suc j + length (d # cs) \<le> 9" using 3(3) by simp_all
  note g = group_added [OF 3(4) j(1), of c]
  have "u8 c AND 0x80 \<noteq> 0" using 3(2) u8_high by simp
  then have "delta_size_from ((c # d # cs) @ rest) sz (7 * j) pos
      = delta_size_from ((d # cs) @ rest) (sz OR shl (ucast (u8 c AND 0x7f)) (7 * j)) (7 * Suc j) (pos + 1)"
    by (simp only: append_Cons delta_size_from.simps Let_def if_False mult_Suc_right add.commute)
  moreover obtain w where "delta_size_from ((d # cs) @ rest) (sz OR shl (ucast (u8 c AND 0x7f)) (7 * j)) (7 * Suc j) (pos + 1)
      = Inr (w, pos + 1 + length (d # cs))"
    and w: "unat w = unat (sz OR shl (ucast (u8 c AND 0x7f)) (7 * j)) + 128 ^ Suc j * size_value (d # cs)"
    using 3(1) [OF _ j(2) g(2), of "pos + 1"] 3(2) by auto
  ultimately have "delta_size_from ((c # d # cs) @ rest) sz (7 * j) pos = Inr (w, pos + length (c # d # cs))" by simp
  moreover have "unat w = unat sz + 128 ^ j * size_value (c # d # cs)"
    unfolding w g(1) size_value.simps(2) [of c] by (simp add: distrib_left ac_simps)
  ultimately show ?case by blast
qed simp

lemma read_size_field:
  assumes "read_delta_size data = Inr (w, n)"
  obtains h rest where "data = h @ rest" "n = length h" "size_field h (unat w)"
proof -
  obtain h rest where h: "data = h @ rest" "n = length h" "size_form h"
    using size_reads [OF assms [unfolded read_delta_size_def]] by auto
  have "size_value h = unat w" if short: "length h \<le> 9"
    using size_spelled [OF h(3), of 0 0 rest 0] short assms h(1) unfolding read_delta_size_def by auto
  then have "size_field h (unat w)" using h(3) by (simp add: size_field_def)
  then show thesis by (rule that [OF h(1,2)])
qed

lemma size_field_read:
  assumes "size_field h n" "length h \<le> 9"
  shows "\<exists>w. read_delta_size (h @ rest) = Inr (w, length h) \<and> unat w = n"
  using size_spelled [of h 0 0 rest 0] assms by (auto simp: size_field_def read_delta_size_def)

text \<open>Written deltas are applied.\<close>

lemma apply_written:
  assumes a: "list_all (instr_fits base) instrs \<and> length base < 2 ^ 64 \<and> length (concat (map (run_instr base) instrs)) < 2 ^ 64"
  shows "apply_delta base (delta_bytes base instrs) = Inr (concat (map (run_instr base) instrs))"
proof -
  let ?res = "concat (map (run_instr base) instrs)"
  let ?s = "\<lambda>n. if n = 0 then [CHR 0x00] else size_bytes (word_of_nat n)"
  let ?ops = "concat (map instr_bytes instrs)"
  from a have u: "uint (word_of_nat n :: 64 word) = int n" if "n \<in> {length base, length ?res}" for n
    using that by (auto simp: unsigned_of_nat take_bit_eq_mod simp flip: of_nat_mod)
  have bytes: "delta_bytes base instrs = ?s (length base) @ ?s (length ?res) @ ?ops"
    by (simp add: delta_bytes_def Let_def)
  have d1: "drop (length (?s (length base))) (delta_bytes base instrs) = ?s (length ?res) @ ?ops"
    unfolding bytes by (rule append_eq_conv_conj [THEN iffD1, THEN conjunct2, symmetric]) simp
  have d2: "drop (length (?s (length base)) + length (?s (length ?res))) (delta_bytes base instrs) = ?ops"
    unfolding bytes by simp
  note r1 = read_size_written [of "length base" "?s (length ?res) @ ?ops", folded bytes]
  note r2 = read_size_written [of "length ?res" ?ops, folded d1]
  have ops: "delta_ops base ?ops [] = Inr ?res" using delta_ops_written [of instrs base "[]"] a by (simp add: list_all_iff)
  show "apply_delta base (delta_bytes base instrs) = Inr ?res"
    using a by (simp only: apply_delta_def r1 r2 sum.case prod.case d2 ops u) (simp add: u)
qed

lemma apply_delta_says:
  assumes "apply_delta base delta = Inr result"
  shows "\<exists>hb hr ops is. delta = hb @ hr @ ops \<and> size_field hb (length base) \<and> size_field hr (length result)
    \<and> spells ops is \<and> list_all (instr_safe base) is \<and> result = concat (map (run_instr base) is)"
proof -
  obtain b n r m where sizes: "read_delta_size delta = Inr (b, n)" "read_delta_size (drop n delta) = Inr (r, m)"
    "uint b = int (length base)" "int (length result) = uint r" and run: "delta_ops base (drop (n + m) delta) [] = Inr result"
    using assms by (auto simp: apply_delta_def split: sum.splits if_splits)
  obtain hb rest where hb: "delta = hb @ rest" "n = length hb" "size_field hb (unat b)" by (rule read_size_field [OF sizes(1)])
  obtain hr ops where hr: "drop n delta = hr @ ops" "m = length hr" "size_field hr (unat r)" by (rule read_size_field [OF sizes(2)])
  have "rest = hr @ ops" using hr(1) unfolding hb(1,2) by simp
  then have d: "delta = hb @ hr @ ops" "drop (n + m) delta = ops" unfolding hb(1,2) hr(2) by simp_all
  have "unat b = length base" "unat r = length result" using sizes(3,4) by (simp_all only: uint_nat of_nat_eq_iff)
  then have "size_field hb (length base)" "size_field hr (length result)" using hb(3) hr(3) by simp_all
  moreover obtain "is" where "spells ops is" "list_all (instr_safe base) is" "result = concat (map (run_instr base) is)"
    using delta_ops_sound [OF run] unfolding d(2) by auto
  ultimately show ?thesis using d(1) by blast
qed

lemma apply_delta_obeys:
  assumes "size_field hb (length base)" "size_field hr (length (concat (map (run_instr base) is)))"
    "length hb \<le> 9" "length hr \<le> 9" "spells ops is" "list_all (instr_safe base) is"
  shows "apply_delta base (hb @ hr @ ops) = Inr (concat (map (run_instr base) is))"
proof -
  let ?res = "concat (map (run_instr base) is)"
  obtain b where b: "read_delta_size (hb @ hr @ ops) = Inr (b, length hb)" "unat b = length base"
    using size_field_read [OF assms(1,3)] by blast
  obtain r where r: "read_delta_size (hr @ ops) = Inr (r, length hr)" "unat r = length ?res"
    using size_field_read [OF assms(2,4)] by blast
  have "uint b = int (length base)" "uint r = int (length ?res)" using b(2) r(2) by (simp_all only: uint_nat)
  then show ?thesis using b(1) r(1) delta_ops_spelled [OF assms(5,6), of "[]"] by (simp add: apply_delta_def)
qed



end
