(* ===== verification/Tracker_Proofs.thy ===== *)
theory Tracker_Proofs
  imports Tracker_Service PR_Guarantees
begin

text \<open>
  What the tracker guarantees: an operation changes the tables only for a user with write access to
  the repository it names, only in that repository, by one step of an issue's life cycle that it
  announces; and a failed operation changes nothing.
\<close>

section \<open>Relating the tables before and after\<close>

text \<open>An action run in \<open>w\<close> either fails and leaves the tables alone, or relates them by \<open>R\<close>.\<close>

definition achieves :: "(db \<Rightarrow> db \<Rightarrow> bool) \<Rightarrow> ('e, 'a) act \<Rightarrow> world \<Rightarrow> bool" where
  "achieves R m w \<longleftrightarrow>
     (\<forall>r w'. m w = (r, w') \<longrightarrow> R (tables w) (tables w') \<and> (isl r \<longrightarrow> tables w' = tables w))"

lemma achievesD: "achieves R m w \<Longrightarrow> m w = (r, w') \<Longrightarrow> R (tables w) (tables w') \<and> (isl r \<longrightarrow> tables w' = tables w)"
  by (simp add: achieves_def)

locale table_relation =
  fixes R :: "db \<Rightarrow> db \<Rightarrow> bool"
  assumes R_refl: "R d d"
begin

lemma achieves_read_only: "read_only m \<Longrightarrow> achieves R m w"
  by (auto simp: achieves_def R_refl dest: read_only_tables)

lemma achieves_after_ro:
  assumes "read_only m"
    and "\<And>x w1. m w = (Inr x, w1) \<Longrightarrow> tables w1 = tables w \<Longrightarrow> achieves R (f x) w1"
  shows "achieves R (and_then m f) w"
  unfolding achieves_def
proof (intro allI impI)
  fix r w' assume "and_then m f w = (r, w')"
  then show "R (tables w) (tables w') \<and> (isl r \<longrightarrow> tables w' = tables w)"
  proof (rule and_then_ro [OF _ assms(1)])
    fix x w1 assume "m w = (Inr x, w1)" "tables w1 = tables w" "f x w1 = (r, w')"
    then show ?thesis using achievesD [OF assms(2)] by metis
  qed (simp add: R_refl)
qed

lemma achieves_transaction:
  assumes "\<And>x w1 w2. tables w1 = tables w \<Longrightarrow> clock w1 = clock w \<Longrightarrow> body w1 = (Inr x, w2) \<Longrightarrow> R (tables w1) (tables w2)"
  shows "achieves R (transaction conv body) w"
  unfolding achieves_def
proof (intro allI impI)
  fix r w' assume run: "transaction conv body w = (r, w')"
  show "R (tables w) (tables w') \<and> (isl r \<longrightarrow> tables w' = tables w)"
  proof (cases r)
    case (Inl e)
    then show ?thesis using transaction_Inl run R_refl by fastforce
  next
    case (Inr x)
    show ?thesis
    proof (rule transaction_Inr [OF run [unfolded Inr]])
      fix w1 w2 assume "body w1 = (Inr x, w2)" "tables w1 = tables w" "clock w1 = clock w" "tables w' = tables w2"
      then show ?thesis using assms [of w1 x w2] Inr by simp
    qed
  qed
qed

lemma achieves_sql:
  assumes "\<And>x d. f (tables w) = Inr (x, d) \<Longrightarrow> R (tables w) d"
  shows "achieves R (sql f) w"
  unfolding achieves_def
proof (intro allI impI)
  fix r w' assume run: "sql f w = (r, w')"
  show "R (tables w) (tables w') \<and> (isl r \<longrightarrow> tables w' = tables w)"
  proof (cases r)
    case (Inl e)
    then show ?thesis using sql_Inl run R_refl by metis
  next
    case (Inr x)
    then show ?thesis using sql_Inr [of f w x w'] run assms by auto
  qed
qed

lemma achieves_execute: "R (tables w) (f (tables w)) \<Longrightarrow> achieves R (execute f) w"
  unfolding execute_def by (rule achieves_sql) auto

lemma achieves_map_err: "achieves R m w \<Longrightarrow> achieves R (map_err g m) w"
proof (cases "m w")
  case (Pair r w')
  assume "achieves R m w"
  from achievesD [OF this Pair] show ?thesis
    by (cases r) (simp_all add: achieves_def map_err_def Pair R_refl)
qed

lemma achieves_dbq: "achieves R m w \<Longrightarrow> achieves R (dbq m) w"
  unfolding dbq_def by (rule achieves_map_err)

lemma achieves_then_ok: "achieves R m w \<Longrightarrow> achieves R (and_then m (\<lambda>x. ok (g x))) w"
proof (cases "m w")
  case (Pair r w')
  assume "achieves R m w"
  from achievesD [OF this Pair] show ?thesis
    by (cases r) (simp_all add: achieves_def and_then_def ok_def Pair R_refl)
qed

lemma achieves_stamped:
  assumes "achieves R (f (clock w)) w" shows "achieves R (and_then now_unix f) w"
proof -
  have "and_then now_unix f w = f (clock w) w" by (simp add: and_then_def now_unix_def)
  then show ?thesis using assms by (simp only: achieves_def)
qed

end

section \<open>What an operation may do\<close>

text \<open>An issue's life cycle, and what each step leaves in the outbox.\<close>

fun is_issue_event :: "domain_event \<Rightarrow> bool" where
  "is_issue_event (EvIssueOpened _ _ _) = True"
| "is_issue_event (EvIssueClosed _ _ _ _) = True"
| "is_issue_event _ = False"

definition issue_states :: "db \<Rightarrow> (uuid \<times> uuid \<times> int \<times> issue_state) list" where
  "issue_states d = map (\<lambda>x. (issue_id x, issue_repository_id x, issue_number x, issue_state x)) (t_issues d)"

inductive issue_step :: "uuid \<Rightarrow> db \<Rightarrow> db \<Rightarrow> bool" for rid where
  quiet: "issue_states d' = issue_states d \<Longrightarrow> logged d' = logged d @ new \<Longrightarrow> \<not> list_ex is_issue_event new \<Longrightarrow>
     issue_step rid d d'"
| opened: "issue_states d' = issue_states d @ [(i, rid, n, IssueOpen)] \<Longrightarrow>
     logged d' = logged d @ [EvIssueOpened i rid author] \<Longrightarrow> issue_step rid d d'"
| closed: "x \<in> set (t_issues d) \<Longrightarrow> issue_repository_id x = rid \<Longrightarrow> issue_is_open (issue_state x) \<Longrightarrow>
     issue_states d' = issue_states (set_issue_state (issue_id x) (IssueClosed t Completed) d) \<Longrightarrow>
     logged d' = logged d @ [EvIssueClosed (issue_id x) rid uid None] \<Longrightarrow> issue_step rid d d'"
| reopened: "x \<in> set (t_issues d) \<Longrightarrow> issue_repository_id x = rid \<Longrightarrow>
     issue_states d' = issue_states (set_issue_state (issue_id x) IssueOpen d) \<Longrightarrow>
     logged d' = logged d \<Longrightarrow> issue_step rid d d'"

text \<open>The rows of other repositories, the rows that hang on issues other than these, and everything a
  tracker has no business with: all tables but its own.\<close>

definition elsewhere ::
  "uuid \<Rightarrow> db \<Rightarrow> issue list \<times> label list \<times> milestone list \<times> release list \<times> (uuid \<times> int) list" where
  "elsewhere rid d =
     (filter (\<lambda>x. issue_repository_id x \<noteq> rid) (t_issues d),
      filter (\<lambda>x. label_repository_id x \<noteq> rid) (t_labels d),
      filter (\<lambda>x. milestone_repository_id x \<noteq> rid) (t_milestones d),
      filter (\<lambda>x. release_repository_id x \<noteq> rid) (t_releases d),
      filter (\<lambda>x. fst x \<noteq> rid) (t_counters d))"

definition issues_of :: "uuid \<Rightarrow> db \<Rightarrow> uuid set" where
  "issues_of rid d = issue_id ` {x \<in> set (t_issues d). issue_repository_id x = rid}"

definition attached_elsewhere ::
  "uuid set \<Rightarrow> db \<Rightarrow> issue_comment list \<times> (uuid \<times> uuid) list \<times> assignee list" where
  "attached_elsewhere mine d =
     (filter (\<lambda>c. icomment_issue_id c \<notin> mine) (t_issue_comments d),
      filter (\<lambda>x. fst x \<notin> mine) (t_issue_labels d),
      filter (\<lambda>a. asg_issue_id a \<notin> mine) (t_assignees d))"

definition core_tables :: "db \<Rightarrow> db" where
  "core_tables d = d\<lparr>t_counters := [], t_issues := [], t_issue_comments := [], t_labels := [], t_issue_labels := [],
     t_assignees := [], t_milestones := [], t_releases := [], t_events := []\<rparr>"

definition writer :: "actor_context \<Rightarrow> string \<Rightarrow> string \<Rightarrow> db \<Rightarrow> repository \<Rightarrow> uuid \<Rightarrow> bool" where
  "writer actor ow nm d rep uid \<longleftrightarrow>
     actor_user_id actor = Some uid \<and> named_repository ow nm d = Some rep
     \<and> can_write_repository actor rep (stored_access d actor rep) = Inr ()"

definition within :: "uuid \<Rightarrow> db \<Rightarrow> db \<Rightarrow> bool" where
  "within rid d d' \<longleftrightarrow> issue_step rid d d' \<and> core_tables d' = core_tables d
     \<and> attached_elsewhere (issues_of rid d) d' = attached_elsewhere (issues_of rid d) d
     \<and> (distinct (map issue_id (t_issues d)) \<longrightarrow> elsewhere rid d' = elsewhere rid d)"

definition tracker_effect :: "actor_context \<Rightarrow> string \<Rightarrow> string \<Rightarrow> db \<Rightarrow> db \<Rightarrow> bool" where
  "tracker_effect actor ow nm d d' \<longleftrightarrow> d' = d \<or> (\<exists>rep uid. writer actor ow nm d rep uid \<and> within (repo_id rep) d d')"

interpretation tracker: table_relation "tracker_effect actor ow nm" for actor ow nm
  by unfold_locales (simp add: tracker_effect_def)

lemma tracker_effectI: "writer actor ow nm d rep uid \<Longrightarrow> within (repo_id rep) d d' \<Longrightarrow> tracker_effect actor ow nm d d'"
  by (auto simp: tracker_effect_def)

section \<open>The calls\<close>

datatype tracker_call =
    TcOpen string "string option"
  | TcClose int
  | TcReopen int
  | TcCreateLabel string string "string option"
  | TcApplyLabel int uuid
  | TcRemoveLabel int uuid
  | TcCreateMilestone string "string option" "int option"
  | TcAssign int string
  | TcUnassign int string
  | TcSetMilestone int "uuid option"
  | TcComment int string
  | TcRelease new_release_input

definition forget :: "(service_error, 'a) act \<Rightarrow> (service_error, unit) act" where
  "forget m = and_then m (\<lambda>_. ok ())"

fun run_tracker :: "tag_backend \<Rightarrow> actor_context \<Rightarrow> string \<Rightarrow> string \<Rightarrow> tracker_call \<Rightarrow> (service_error, unit) act" where
  "run_tracker g actor ow nm (TcOpen title body) = forget (issue_open actor ow nm title body)"
| "run_tracker g actor ow nm (TcClose n) = issue_close actor ow nm n"
| "run_tracker g actor ow nm (TcReopen n) = issue_reopen actor ow nm n"
| "run_tracker g actor ow nm (TcCreateLabel l c desc) = create_label actor ow nm l c desc"
| "run_tracker g actor ow nm (TcApplyLabel n l) = apply_label actor ow nm n l"
| "run_tracker g actor ow nm (TcRemoveLabel n l) = remove_label actor ow nm n l"
| "run_tracker g actor ow nm (TcCreateMilestone t desc due) = create_milestone actor ow nm t desc due"
| "run_tracker g actor ow nm (TcAssign n u) = issue_assign_user actor ow nm n u"
| "run_tracker g actor ow nm (TcUnassign n u) = issue_unassign_user actor ow nm n u"
| "run_tracker g actor ow nm (TcSetMilestone n m) = set_milestone actor ow nm n m"
| "run_tracker g actor ow nm (TcComment n body) = forget (issue_add_comment actor ow nm n body)"
| "run_tracker g actor ow nm (TcRelease i) = forget (release_create g actor ow nm i)"

section \<open>Past the write check\<close>

lemma and_then_assoc: "and_then (and_then m f) g = and_then m (\<lambda>x. and_then (f x) g)"
  by (rule ext) (auto simp: and_then_def split: prod.splits sum.splits)

lemma decide_Inr: "decide x w = (Inr u, w') \<longleftrightarrow> x = Inr u \<and> w' = w"
  by (cases x) (auto simp: act_simps)

lemma check_write_Inr:
  "check_write actor r w = (Inr u, w') \<Longrightarrow> can_write_repository actor r (stored_access (tables w) actor r) = Inr ()"
  by (auto simp: check_write_def act_simps decide_Inr dest!: reads_value [OF reads_access_for])

lemma write_checked_writer:
  assumes "write_checked actor ow nm w = (Inr (rep, uid), w')"
  shows "writer actor ow nm (tables w) rep uid"
proof -
  obtain w1 w2 u where "require_user actor w = (Inr uid, w1)"
    "authz (repository_by_name ow nm) w1 = (Inr rep, w2)" "authz (check_write actor rep) w2 = (Inr u, w')"
    using assms by (auto simp: write_checked_def act_simps)
  moreover from this have "tables w1 = tables w" "tables w2 = tables w1"
    using read_only_tables [OF read_only_require_user] read_only_tables [OF read_only_authz [OF read_only_repository_by_name]]
    by blast+
  ultimately show ?thesis
    using repository_by_name_Inr check_write_Inr
    by (fastforce simp: writer_def authz_Inr require_user_def act_simps)
qed

lemma past_write_check:
  assumes "\<And>rep uid w1. writer actor ow nm (tables w1) rep uid \<Longrightarrow>
             achieves (tracker_effect actor ow nm) (F rep uid) w1"
  shows "achieves (tracker_effect actor ow nm) (and_then (write_checked actor ow nm) (\<lambda>(rep, uid). F rep uid)) w"
proof (rule tracker.achieves_after_ro [OF read_only_write_checked])
  fix x w1 assume "write_checked actor ow nm w = (Inr x, w1)" "tables w1 = tables w"
  then show "achieves (tracker_effect actor ow nm) (case x of (rep, uid) \<Rightarrow> F rep uid) w1"
    using assms write_checked_writer by (cases x) fastforce
qed

lemma read_only_load_issue: "read_only (load_issue rid n)"
  unfolding load_issue_def by (intro ro)

lemma past_load_issue:
  assumes "\<And>x w1. tables w1 = tables w \<Longrightarrow> x \<in> set (t_issues (tables w1)) \<Longrightarrow> issue_repository_id x = rid \<Longrightarrow>
             achieves (tracker_effect actor ow nm) (F x) w1"
  shows "achieves (tracker_effect actor ow nm) (and_then (load_issue rid n) F) w"
proof (rule tracker.achieves_after_ro [OF read_only_load_issue])
  fix x w1 assume x: "load_issue rid n w = (Inr x, w1)" and t: "tables w1 = tables w"
  have "issue_by_number rid n (tables w) = Some x"
    using x by (auto simp: load_issue_def act_simps dest!: select_Inr)
  then show "achieves (tracker_effect actor ow nm) (F x) w1"
    unfolding issue_by_number_def using t by (intro assms) (auto dest: find_Some_filter)
qed

lemma past_ensure:
  "(b \<Longrightarrow> achieves (tracker_effect actor ow nm) (f ()) w) \<Longrightarrow>
     achieves (tracker_effect actor ow nm) (and_then (ensure b e) f) w"
  by (rule tracker.achieves_after_ro [OF read_only_ensure]) (auto simp: act_simps)

lemma past_read:
  "read_only m \<Longrightarrow> (\<And>x w1. tables w1 = tables w \<Longrightarrow> achieves (tracker_effect actor ow nm) (f x) w1) \<Longrightarrow>
     achieves (tracker_effect actor ow nm) (and_then m f) w"
  by (rule tracker.achieves_after_ro) auto

section \<open>The steps\<close>

lemma within_quiet:
  "issue_states d' = issue_states d \<Longrightarrow> t_events d' = t_events d \<Longrightarrow>
     (distinct (map issue_id (t_issues d)) \<Longrightarrow> elsewhere rid d' = elsewhere rid d) \<Longrightarrow>
     core_tables d' = core_tables d \<Longrightarrow>
     attached_elsewhere (issues_of rid d) d' = attached_elsewhere (issues_of rid d) d \<Longrightarrow> within rid d d'"
  unfolding within_def by (auto intro: issue_step.quiet [where new = "[]"] simp: logged_def)

lemma states_keep: "(\<And>x. issue_id (f x) = issue_id x \<and> issue_repository_id (f x) = issue_repository_id x
     \<and> issue_number (f x) = issue_number x \<and> issue_state (f x) = issue_state x) \<Longrightarrow>
   issue_states (d\<lparr>t_issues := update_where P f (t_issues d)\<rparr>) = issue_states d"
  by (auto simp: issue_states_def update_where_def)

lemma filter_update_where:
  "(\<And>x. x \<in> set xs \<Longrightarrow> P x \<Longrightarrow> \<not> Q x \<and> \<not> Q (f x)) \<Longrightarrow> filter Q (update_where P f xs) = filter Q xs"
  by (induction xs) (auto simp: update_where_def)

text \<open>What a statement leaves alone that touches only numbers of this repository and rows on its issues.\<close>

definition tracked :: "uuid \<Rightarrow> uuid set \<Rightarrow> db \<Rightarrow> (issue list \<times> event_record list \<times> label list \<times> milestone list \<times> release list)
    \<times> (uuid \<times> int) list \<times> (issue_comment list \<times> (uuid \<times> uuid) list \<times> assignee list) \<times> db" where
  "tracked rid mine d = ((t_issues d, t_events d, t_labels d, t_milestones d, t_releases d),
     filter (\<lambda>x. fst x \<noteq> rid) (t_counters d), attached_elsewhere mine d, core_tables d)"

lemma tracked_within:
  assumes "tracked rid (issues_of rid d) d1 = tracked rid (issues_of rid d) d" "within rid d1 d'" shows "within rid d d'"
proof -
  have eq: "t_issues d1 = t_issues d" "t_events d1 = t_events d" "elsewhere rid d1 = elsewhere rid d"
    "core_tables d1 = core_tables d" "attached_elsewhere (issues_of rid d) d1 = attached_elsewhere (issues_of rid d) d"
    using assms(1) by (simp_all add: tracked_def elsewhere_def)
  have "issue_states d1 = issue_states d" "logged d1 = logged d" "issues_of rid d1 = issues_of rid d"
    "issue_states (set_issue_state i s d1) = issue_states (set_issue_state i s d)" for i s
    using eq by (simp_all add: issue_states_def logged_def set_issue_state_def issues_of_def)
  then have "issue_step rid d d'" "attached_elsewhere (issues_of rid d) d' = attached_elsewhere (issues_of rid d) d"
    using assms(2) eq(1,5) unfolding within_def by (auto elim!: issue_step.cases intro: issue_step.intros)
  then show ?thesis using assms(2) eq by (simp add: within_def)
qed

lemma other_counters: "filter (\<lambda>x. fst x \<noteq> rid) (advance_counter rid n rows) = filter (\<lambda>x. fst x \<noteq> rid) rows"
  "filter (\<lambda>x. fst x \<noteq> rid) (ensure_counter rid rows) = filter (\<lambda>x. fst x \<noteq> rid) rows"
  unfolding advance_counter_def by (auto intro: filter_update_where simp: at_number_def ensure_counter_def)

lemma tracked_counters [simp]:
  "tracked rid mine (with_counters (advance_counter rid n) d) = tracked rid mine d"
  "tracked rid mine (with_counters (ensure_counter rid) d) = tracked rid mine d"
  by (simp_all add: tracked_def with_counters_def other_counters attached_elsewhere_def core_tables_def)

lemma frames_tracked_next_number: "frames (\<lambda>w. tracked rid mine (tables w)) (next_number rid)"
proof -
  have "frames (\<lambda>w. tracked rid mine (tables w)) (number_loop n rid)" for n
    by (induction n)
      (auto simp: read_current_def try_advance_def split: option.splits intro!: frames_basic frames_tables_sql)
  then show ?thesis
    unfolding next_number_def ensure_counter_row_def
    by (intro frames_basic frames_tables_sql) (auto split: if_splits)
qed

text \<open>An event appended after a step that left the outbox alone.\<close>

lemma append_event_adds:
  "append_event ev w = (Inr u, w') \<Longrightarrow>
     \<exists>e. event_payload e = ev \<and> tables w' = (tables w)\<lparr>t_events := t_events (tables w) @ [e]\<rparr>"
  using append_event_Inr [of ev w u w'] by (intro exI conjI) auto

lemma within_event:
  assumes "append_event ev w = (Inr u, w')" "\<not> is_issue_event ev" "within rid d (tables w)" "logged (tables w) = logged d @ old"
    "issue_states (tables w) = issue_states d" "\<not> list_ex is_issue_event old"
  shows "within rid d (tables w') \<and> logged (tables w') = logged d @ old @ [ev] \<and> issue_states (tables w') = issue_states d"
proof -
  obtain e where e: "event_payload e = ev" "tables w' = (tables w)\<lparr>t_events := t_events (tables w) @ [e]\<rparr>"
    using append_event_adds [OF assms(1)] by blast
  have "logged (tables w') = logged d @ old @ [ev]" using e assms(4) by (simp add: logged_def)
  moreover have "issue_states (tables w') = issue_states d" using e assms(5) by (simp add: issue_states_def)
  moreover have "elsewhere rid (tables w') = elsewhere rid (tables w)" "core_tables (tables w') = core_tables (tables w)"
    "attached_elsewhere mine (tables w') = attached_elsewhere mine (tables w)" for mine
    using e by (simp_all add: elsewhere_def core_tables_def attached_elsewhere_def)
  ultimately show ?thesis
    using assms(2,3,6) unfolding within_def by (auto intro!: issue_step.quiet [where new = "old @ [ev]"])
qed

lemma others_keep:
  assumes "distinct (map issue_id xs)" "x \<in> set xs" "issue_repository_id x = rid"
    "\<And>y. issue_repository_id (f y) = issue_repository_id y"
  shows "filter (\<lambda>y. issue_repository_id y \<noteq> rid) (update_where (\<lambda>y. issue_id y = issue_id x) f xs)
       = filter (\<lambda>y. issue_repository_id y \<noteq> rid) xs"
proof (rule filter_update_where)
  fix y assume "y \<in> set xs" "issue_id y = issue_id x"
  then have "y = x" using assms(1,2) by (auto simp: distinct_map inj_on_def)
  then show "\<not> issue_repository_id y \<noteq> rid \<and> \<not> issue_repository_id (f y) \<noteq> rid" using assms(3,4) by simp
qed

lemma issues_ofI: "x \<in> set (t_issues d) \<Longrightarrow> issue_repository_id x = rid \<Longrightarrow> issue_id x \<in> issues_of rid d"
  by (auto simp: issues_of_def)

lemma filter_deleted:
  assumes "i \<in> mine" "\<And>x. P x \<Longrightarrow> f x = i"
  shows "filter (\<lambda>x. f x \<notin> mine) (delete_where P xs) = filter (\<lambda>x. f x \<notin> mine) xs"
  unfolding delete_where_def filter_filter using assms by (intro filter_cong) auto

text \<open>Rows on an issue of this repository come and go without a trace elsewhere.\<close>

lemma tracked_rows:
  assumes "i \<in> mine"
  shows "tracked rid mine (unapply i l d) = tracked rid mine d"
    and "apply_row i l d = Inr (u, d') \<Longrightarrow> tracked rid mine d' = tracked rid mine d"
    and "asg_issue_id a = i \<Longrightarrow> assign_row a d = Inr (b, d') \<Longrightarrow> tracked rid mine d' = tracked rid mine d"
    and "tracked rid mine (d\<lparr>t_assignees := delete_where (assigned i who) (t_assignees d)\<rparr>) = tracked rid mine d"
    and "icomment_issue_id c = i \<Longrightarrow> tracked rid mine (d\<lparr>t_issue_comments := t_issue_comments d @ [c]\<rparr>) = tracked rid mine d"
proof -
  note defs = tracked_def attached_elsewhere_def core_tables_def
  note gone = filter_deleted [OF assms]
  show "tracked rid mine (unapply i l d) = tracked rid mine d"
    using gone [of "\<lambda>x. x = (i, l)" fst "t_issue_labels d"] by (simp add: defs unapply_def)
  show "tracked rid mine (d\<lparr>t_assignees := delete_where (assigned i who) (t_assignees d)\<rparr>) = tracked rid mine d"
    using gone [of "assigned i who" asg_issue_id "t_assignees d"] by (simp add: defs assigned_def)
qed (use assms in \<open>auto simp: tracked_def attached_elsewhere_def core_tables_def apply_row_def assign_row_def split: if_splits\<close>)

section \<open>Each operation\<close>

lemma issue_open_effect: "achieves (tracker_effect actor ow nm) (issue_open actor ow nm title body) w"
  unfolding issue_open_def
proof (intro past_write_check past_ensure past_read [OF read_only_fresh] tracker.achieves_transaction)
  fix rep author w1 and i :: uuid and w2 x v1 v2
  assume wr: "writer actor ow nm (tables w1) rep author" and t: "tables w2 = tables w1" "tables v1 = tables w2"
    and run: "and_then (map_err service_of_insert (issue_insert i (repo_id rep) (trim title) (non_blank body) author))
        (\<lambda>number. and_then (dbq (append_event (EvIssueOpened i (repo_id rep) author))) (\<lambda>_. ok number)) v1 = (Inr x, v2)"
  obtain v3 u v4 where num: "next_number (repo_id rep) v1 = (Inr x, v3)"
    and ins: "sql (insert_issue_row
             \<lparr>issue_id = i, issue_repository_id = repo_id rep, issue_number = x, issue_title = trim title,
              issue_body = non_blank body, issue_author_id = author, issue_state = IssueOpen,
              issue_milestone_id = None, issue_created_at = clock v3\<rparr>) v3 = (Inr (), v4)"
    and ev: "append_event (EvIssueOpened i (repo_id rep) author) v4 = (Inr u, v2)"
    using run by (auto simp: act_simps issue_insert_def)
  obtain e where e: "event_payload e = EvIssueOpened i (repo_id rep) author"
    "tables v2 = (tables v4)\<lparr>t_events := t_events (tables v4) @ [e]\<rparr>"
    using append_event_adds [OF ev] by blast
  have v4: "tables v4 = (tables v3)\<lparr>t_issues := t_issues (tables v3) @
      [\<lparr>issue_id = i, issue_repository_id = repo_id rep, issue_number = x, issue_title = trim title,
        issue_body = non_blank body, issue_author_id = author, issue_state = IssueOpen,
        issue_milestone_id = None, issue_created_at = clock v3\<rparr>]\<rparr>"
    using sql_Inr [OF ins] by (simp add: insert_issue_row_def split: if_splits)
  have "issue_step (repo_id rep) (tables v3) (tables v2)"
    by (rule issue_step.opened [where i = i and n = x and author = author])
      (simp_all add: e v4 issue_states_def logged_def)
  then have "within (repo_id rep) (tables v3) (tables v2)"
    unfolding within_def by (simp add: e v4 elsewhere_def core_tables_def attached_elsewhere_def)
  then have "within (repo_id rep) (tables v1) (tables v2)"
    using tracked_within framesD [OF frames_tracked_next_number num] by metis
  then show "tracker_effect actor ow nm (tables v1) (tables v2)" using wr t tracker_effectI by metis
qed

lemma issue_close_effect: "achieves (tracker_effect actor ow nm) (issue_close actor ow nm n) w"
  unfolding issue_close_def
proof (intro past_write_check past_load_issue past_ensure tracker.achieves_transaction)
  fix rep uid w1 x w2 y v1 v2
  assume wr: "writer actor ow nm (tables w1) rep uid" and t: "tables w2 = tables w1" "tables v1 = tables w2"
    and x: "x \<in> set (t_issues (tables w2))" "issue_repository_id x = repo_id rep" "issue_is_open (issue_state x)"
    and run: "and_then now_unix (\<lambda>now. and_then (dbq (update_issue_state (issue_id x) (IssueClosed now Completed)))
        (\<lambda>_. dbq (append_event (EvIssueClosed (issue_id x) (repo_id rep) uid None)))) v1 = (Inr y, v2)"
  obtain u v3 where up: "execute (set_issue_state (issue_id x) (IssueClosed (clock v1) Completed)) v1 = (Inr u, v3)"
    and ev: "append_event (EvIssueClosed (issue_id x) (repo_id rep) uid None) v3 = (Inr y, v2)"
    using run by (auto simp: act_simps update_issue_state_def)
  obtain e where e: "event_payload e = EvIssueClosed (issue_id x) (repo_id rep) uid None"
    "tables v2 = (tables v3)\<lparr>t_events := t_events (tables v3) @ [e]\<rparr>"
    using append_event_adds [OF ev] by blast
  have v3: "tables v3 = set_issue_state (issue_id x) (IssueClosed (clock v1) Completed) (tables v1)"
    using execute_Inr [OF up] by simp
  have "issue_step (repo_id rep) (tables v1) (tables v2)"
    by (rule issue_step.closed [where x = x and t = "clock v1" and uid = uid])
      (use x t in \<open>simp_all add: e v3 issue_states_def logged_def set_issue_state_def\<close>)
  moreover have "elsewhere (repo_id rep) (tables v2) = elsewhere (repo_id rep) (tables v1)"
    if "distinct (map issue_id (t_issues (tables v1)))"
    using others_keep [OF that, of x "repo_id rep" "\<lambda>y. y\<lparr>issue_state := IssueClosed (clock v1) Completed\<rparr>"] x t
    by (simp add: e v3 elsewhere_def set_issue_state_def)
  moreover have "core_tables (tables v2) = core_tables (tables v1)"
    "attached_elsewhere mine (tables v2) = attached_elsewhere mine (tables v1)" for mine
    by (simp_all add: e v3 core_tables_def attached_elsewhere_def set_issue_state_def)
  ultimately show "tracker_effect actor ow nm (tables v1) (tables v2)"
    using tracker_effectI [OF wr, of "tables v2"] t by (simp add: within_def)
qed

lemma issue_reopen_effect: "achieves (tracker_effect actor ow nm) (issue_reopen actor ow nm n) w"
  unfolding issue_reopen_def update_issue_state_def
proof (intro past_write_check past_load_issue tracker.achieves_dbq tracker.achieves_execute)
  fix rep uid w1 x w2
  assume wr: "writer actor ow nm (tables w1) rep uid" and t: "tables w2 = tables w1"
    and x: "x \<in> set (t_issues (tables w2))" "issue_repository_id x = repo_id rep"
  have "issue_step (repo_id rep) (tables w2) (set_issue_state (issue_id x) IssueOpen (tables w2))"
    by (rule issue_step.reopened [where x = x]) (use x in \<open>simp_all add: logged_def set_issue_state_def\<close>)
  moreover have "elsewhere (repo_id rep) (set_issue_state (issue_id x) IssueOpen (tables w2)) = elsewhere (repo_id rep) (tables w2)"
    if "distinct (map issue_id (t_issues (tables w2)))"
    using others_keep [OF that, of x "repo_id rep" "\<lambda>y. y\<lparr>issue_state := IssueOpen\<rparr>"] x
    by (simp add: elsewhere_def set_issue_state_def)
  ultimately show "tracker_effect actor ow nm (tables w2) (set_issue_state (issue_id x) IssueOpen (tables w2))"
    using tracker_effectI [OF wr] t by (simp add: within_def core_tables_def attached_elsewhere_def set_issue_state_def)
qed

lemma create_label_effect: "achieves (tracker_effect actor ow nm) (create_label actor ow nm l c desc) w"
  unfolding create_label_def label_insert_def
proof (intro past_write_check past_ensure past_read [OF read_only_fresh] tracker.achieves_map_err tracker.achieves_sql)
  fix rep uid w1 i w2 x d
  assume wr: "writer actor ow nm (tables w1) rep uid" and t: "tables w2 = tables w1"
    and row: "insert_label_row \<lparr>label_id = i, label_repository_id = repo_id rep, label_name = trim l, label_color = c,
          label_description = non_blank desc, label_archived_at = None\<rparr> (tables w2) = Inr (x, d)"
  have "within (repo_id rep) (tables w2) d"
    using row by (intro within_quiet)
      (auto simp: insert_label_row_def issue_states_def elsewhere_def core_tables_def attached_elsewhere_def split: if_splits)
  then show "tracker_effect actor ow nm (tables w2) d" using tracker_effectI wr t by metis
qed

lemma remove_label_effect: "achieves (tracker_effect actor ow nm) (remove_label actor ow nm n l) w"
  unfolding remove_label_def remove_from_issue_def
proof (intro past_write_check past_load_issue tracker.achieves_dbq tracker.achieves_execute)
  fix rep uid w1 x w2
  assume wr: "writer actor ow nm (tables w1) rep uid" and t: "tables w2 = tables w1"
    and x: "x \<in> set (t_issues (tables w2))" "issue_repository_id x = repo_id rep"
  have "within (repo_id rep) (tables w2) (unapply (issue_id x) l (tables w2))"
    by (intro within_quiet)
      (use issues_ofI [OF x] in \<open>auto simp: unapply_def issue_states_def elsewhere_def core_tables_def attached_elsewhere_def
        delete_where_def intro!: filter_cong\<close>)
  then show "tracker_effect actor ow nm (tables w2) (unapply (issue_id x) l (tables w2))"
    using tracker_effectI wr t by metis
qed

lemma create_milestone_effect:
  "achieves (tracker_effect actor ow nm) (create_milestone actor ow nm title desc due) w"
  unfolding create_milestone_def milestone_insert_def
proof (intro past_write_check past_ensure past_read [OF read_only_fresh] tracker.achieves_dbq tracker.achieves_sql)
  fix rep uid w1 i w2 x d
  assume wr: "writer actor ow nm (tables w1) rep uid" and t: "tables w2 = tables w1"
    and row: "insert_milestone_row \<lparr>milestone_id = i, milestone_repository_id = repo_id rep, milestone_title = trim title,
        milestone_description = non_blank desc, milestone_due_on = due, milestone_state = MsOpen\<rparr> (tables w2) = Inr (x, d)"
  have "within (repo_id rep) (tables w2) d"
    using row by (intro within_quiet)
      (auto simp: insert_milestone_row_def issue_states_def elsewhere_def core_tables_def attached_elsewhere_def split: if_splits)
  then show "tracker_effect actor ow nm (tables w2) d" using tracker_effectI wr t by metis
qed

lemma within_same: "tracked rid (issues_of rid d) d' = tracked rid (issues_of rid d) d \<Longrightarrow> within rid d d'"
  by (intro within_quiet) (simp_all add: tracked_def issue_states_def elsewhere_def)

lemma apply_label_effect: "achieves (tracker_effect actor ow nm) (apply_label actor ow nm n l) w"
  unfolding apply_label_def apply_to_issue_def
proof (intro past_write_check past_load_issue past_read [OF read_only_dbq [OF read_only_select]]
    past_read [OF read_only_or_err] tracker.achieves_dbq tracker.achieves_transaction)
  fix rep uid w1 x w2 labels w3 lb w4 u v1 v2
  assume wr: "writer actor ow nm (tables w1) rep uid"
    and t: "tables w2 = tables w1" "tables w3 = tables w2" "tables w4 = tables w3" "tables v1 = tables w4"
    and x: "x \<in> set (t_issues (tables w2))" "issue_repository_id x = repo_id rep"
    and run: "and_then (select (labels_on (issue_id x))) (\<lambda>currently_applied.
        and_then (for_each (labels_to_unapply_for_scope currently_applied lb)
          (\<lambda>stale. execute (unapply (issue_id x) (label_id stale))))
          (\<lambda>_. sql (apply_row (issue_id x) (label_id lb)))) v1 = (Inr u, v2)"
  have mine: "issue_id x \<in> issues_of (repo_id rep) (tables v1)" using issues_ofI x t by metis
  have "frames (\<lambda>w. tracked (repo_id rep) (issues_of (repo_id rep) (tables v1)) (tables w)) (and_then (select (labels_on (issue_id x))) (\<lambda>currently_applied.
        and_then (for_each (labels_to_unapply_for_scope currently_applied lb)
          (\<lambda>stale. execute (unapply (issue_id x) (label_id stale))))
          (\<lambda>_. sql (apply_row (issue_id x) (label_id lb)))))"
    unfolding select_def execute_def
    by (intro frames_basic frames_tables_sql) (auto simp: tracked_rows [OF mine])
  from within_same [OF framesD [OF this run]]
  show "tracker_effect actor ow nm (tables v1) (tables v2)" using tracker_effectI wr t by metis
qed

lemma assign_effect: "achieves (tracker_effect actor ow nm) (issue_assign_user actor ow nm n who) w"
  unfolding issue_assign_user_def
proof (intro past_write_check past_load_issue past_read [OF read_only_dbq [OF read_only_select]]
    past_read [OF read_only_or_err] tracker.achieves_transaction)
  fix rep uid w1 x w2 found w3 asg w4 u v1 v2
  assume wr: "writer actor ow nm (tables w1) rep uid"
    and t: "tables w2 = tables w1" "tables w3 = tables w2" "tables w4 = tables w3" "tables v1 = tables w4"
    and x: "x \<in> set (t_issues (tables w2))" "issue_repository_id x = repo_id rep"
    and run: "and_then (dbq (issue_assign (issue_id x) (user_id asg) (Some uid))) (\<lambda>newly_assigned.
        if newly_assigned then dbq (append_event (EvIssueAssigned (issue_id x) (repo_id rep) (user_id asg) uid))
        else ok ()) v1 = (Inr u, v2)"
  obtain fresh v3 where asn: "issue_assign (issue_id x) (user_id asg) (Some uid) v1 = (Inr fresh, v3)"
    and ev: "(if fresh then dbq (append_event (EvIssueAssigned (issue_id x) (repo_id rep) (user_id asg) uid))
        else ok ()) v3 = (Inr u, v2)"
    using run by (auto simp: act_simps)
  let ?mine = "issues_of (repo_id rep) (tables v1)"
  have mine: "issue_id x \<in> ?mine" using issues_ofI x t by metis
  have "frames (\<lambda>w. tracked (repo_id rep) ?mine (tables w)) (issue_assign (issue_id x) (user_id asg) (Some uid))"
    unfolding issue_assign_def
    by (intro frames_basic frames_tables_sql) (rule tracked_rows(3) [OF mine, rotated], assumption, simp)
  then have tr: "tracked (repo_id rep) ?mine (tables v3) = tracked (repo_id rep) ?mine (tables v1)" using framesD asn by metis
  then have w3: "within (repo_id rep) (tables v1) (tables v3)" by (rule within_same)
  have "within (repo_id rep) (tables v1) (tables v2)"
  proof (cases fresh)
    case True
    then show ?thesis
      using within_event [of "EvIssueAssigned (issue_id x) (repo_id rep) (user_id asg) uid" v3 u v2 "repo_id rep" "tables v1" "[]"]
        ev w3 tr by (simp add: act_simps tracked_def logged_def issue_states_def)
  qed (use ev w3 in \<open>simp add: act_simps\<close>)
  then show "tracker_effect actor ow nm (tables v1) (tables v2)" using tracker_effectI wr t by metis
qed

lemma unassign_effect: "achieves (tracker_effect actor ow nm) (issue_unassign_user actor ow nm n who) w"
  unfolding issue_unassign_user_def issue_unassign_def
proof (intro past_write_check past_load_issue past_read [OF read_only_dbq [OF read_only_select]]
    past_read [OF read_only_or_err] tracker.achieves_then_ok tracker.achieves_dbq tracker.achieves_sql)
  fix rep uid w1 x w2 found w3 asg w4 y d
  assume wr: "writer actor ow nm (tables w1) rep uid"
    and t: "tables w2 = tables w1" "tables w3 = tables w2" "tables w4 = tables w3"
    and x: "x \<in> set (t_issues (tables w2))" "issue_repository_id x = repo_id rep"
    and row: "Inr (0 < rows_affected (assigned (issue_id x) (user_id asg)) (t_assignees (tables w4)),
        (tables w4)\<lparr>t_assignees := delete_where (assigned (issue_id x) (user_id asg)) (t_assignees (tables w4))\<rparr>) = Inr (y, d)"
  have "issue_id x \<in> issues_of (repo_id rep) (tables w4)" using issues_ofI x t by metis
  then have "within (repo_id rep) (tables w4) d" using row by (intro within_same) (auto simp: tracked_rows(4))
  then show "tracker_effect actor ow nm (tables w4) d" using tracker_effectI wr t by metis
qed

lemma set_milestone_effect: "achieves (tracker_effect actor ow nm) (set_milestone actor ow nm n m) w"
  unfolding set_milestone_def issue_set_milestone_def
proof (intro past_write_check past_load_issue tracker.achieves_dbq tracker.achieves_sql)
  fix rep uid w1 x w2 y d
  assume wr: "writer actor ow nm (tables w1) rep uid" and t: "tables w2 = tables w1"
    and x: "x \<in> set (t_issues (tables w2))" "issue_repository_id x = repo_id rep"
    and row: "milestone_row (issue_id x) m (tables w2) = Inr (y, d)"
  have d: "d = (tables w2)\<lparr>t_issues := update_where (\<lambda>y. issue_id y = issue_id x)
      (\<lambda>y. y\<lparr>issue_milestone_id := m\<rparr>) (t_issues (tables w2))\<rparr>"
    using row by (auto simp: milestone_row_def split: if_splits)
  have "within (repo_id rep) (tables w2) d"
    unfolding d
    by (intro within_quiet states_keep)
      (use others_keep [of "t_issues (tables w2)" x "repo_id rep"] x in
        \<open>simp_all add: elsewhere_def core_tables_def attached_elsewhere_def\<close>)
  then show "tracker_effect actor ow nm (tables w2) d" using tracker_effectI wr t by metis
qed

text \<open>Commenting, and what it leaves in the outbox.\<close>

lemma mentions_within:
  "append_mentions us c src w = (Inr u, w') \<Longrightarrow> within rid d (tables w) \<Longrightarrow> logged (tables w) = logged d @ old \<Longrightarrow>
     issue_states (tables w) = issue_states d \<Longrightarrow> \<not> list_ex is_issue_event old \<Longrightarrow>
     within rid d (tables w') \<and> logged (tables w') = logged d @ old @ map (\<lambda>x. EvUserMentioned x c src) us
       \<and> issue_states (tables w') = issue_states d \<and> t_issue_comments (tables w') = t_issue_comments (tables w)"
proof (induction us arbitrary: w old)
  case Nil
  then show ?case by (simp add: append_mentions_def act_simps)
next
  case (Cons x us)
  obtain v w1 where first: "append_event (EvUserMentioned x c src) w = (Inr v, w1)"
    and rest: "append_mentions us c src w1 = (Inr u, w')"
    using Cons.prems(1) by (auto simp: append_mentions_def act_simps)
  have "within rid d (tables w1) \<and> logged (tables w1) = logged d @ old @ [EvUserMentioned x c src]
      \<and> issue_states (tables w1) = issue_states d"
    using within_event [OF first _ Cons.prems(2-4,5)] by simp
  moreover have "t_issue_comments (tables w1) = t_issue_comments (tables w)"
    using append_event_adds [OF first] by auto
  ultimately show ?case using Cons.IH [OF rest, of "old @ [EvUserMentioned x c src]"] Cons.prems(5) by simp
qed

definition comment_body :: "uuid \<Rightarrow> repository \<Rightarrow> uuid \<Rightarrow> issue \<Rightarrow> string \<Rightarrow> uuid list \<Rightarrow> (service_error, uuid) act" where
  "comment_body i rep commenter x body mentioned =
     and_then (dbq (issue_comment_insert i (issue_id x) commenter (trim body))) (\<lambda>_.
       and_then (dbq (append_event (EvIssueCommented (issue_id x) (repo_id rep) commenter))) (\<lambda>_.
         and_then (append_mentions mentioned commenter (MentionInIssue (issue_id x))) (\<lambda>_. ok i)))"

lemma comment_body_Inr:
  assumes "comment_body i rep commenter x body mentioned w = (Inr y, w')" "issue_id x \<in> issues_of rid (tables w)"
  shows "within rid (tables w) (tables w') \<and> y = i
    \<and> logged (tables w') = logged (tables w) @ EvIssueCommented (issue_id x) (repo_id rep) commenter
        # map (\<lambda>u. EvUserMentioned u commenter (MentionInIssue (issue_id x))) mentioned
    \<and> t_issue_comments (tables w') = t_issue_comments (tables w) @
        [\<lparr>icomment_id = i, icomment_issue_id = issue_id x, icomment_author_id = commenter,
          icomment_body = trim body, icomment_created_at = clock w\<rparr>]"
proof -
  obtain w1 u1 w2 u2 where ins: "sql (insert_issue_comment_row
         \<lparr>icomment_id = i, icomment_issue_id = issue_id x, icomment_author_id = commenter, icomment_body = trim body,
          icomment_created_at = clock w\<rparr>) w = (Inr u1, w1)"
    and ev: "append_event (EvIssueCommented (issue_id x) (repo_id rep) commenter) w1 = (Inr u2, w2)"
    and ment: "append_mentions mentioned commenter (MentionInIssue (issue_id x)) w2 = (Inr (), w')" and y: "y = i"
    using assms unfolding comment_body_def by (auto simp: act_simps issue_comment_insert_def)
  have w1: "tables w1 = (tables w)\<lparr>t_issue_comments := t_issue_comments (tables w) @
      [\<lparr>icomment_id = i, icomment_issue_id = issue_id x, icomment_author_id = commenter, icomment_body = trim body,
          icomment_created_at = clock w\<rparr>]\<rparr>"
    using sql_Inr [OF ins] by (simp add: insert_issue_comment_row_def split: if_splits)
  have "within rid (tables w) (tables w1)" by (rule within_same) (simp add: w1 tracked_rows(5) [OF assms(2)])
  then have "within rid (tables w) (tables w2)
      \<and> logged (tables w2) = logged (tables w) @ [EvIssueCommented (issue_id x) (repo_id rep) commenter]
      \<and> issue_states (tables w2) = issue_states (tables w)"
    using within_event [OF ev _ _, of rid "tables w" "[]"] by (simp add: w1 logged_def issue_states_def)
  moreover have "t_issue_comments (tables w2) = t_issue_comments (tables w1)"
    using append_event_adds [OF ev] by auto
  ultimately show ?thesis
    using mentions_within [OF ment, of rid "tables w" "[EvIssueCommented (issue_id x) (repo_id rep) commenter]"] y
    by (simp add: w1)
qed

lemma add_comment_effect: "achieves (tracker_effect actor ow nm) (issue_add_comment actor ow nm n body) w"
  unfolding issue_add_comment_def comment_body_def [symmetric]
proof (rule tracker.achieves_after_ro [OF read_only_require_user], rule past_ensure,
    rule tracker.achieves_after_ro [OF read_only_authz [OF read_only_repository_by_name]],
    rule tracker.achieves_after_ro [OF read_only_authz [OF read_only_check_write]],
    intro past_load_issue past_read [OF read_only_dbq [OF read_only_resolve_mentions]]
      past_read [OF read_only_fresh] tracker.achieves_transaction)
  fix uid w1 rep w2 u w3 x w4 mentioned w5 i w6 y v1 v2
  assume who: "require_user actor w = (Inr uid, w1)"
    and named: "authz (repository_by_name ow nm) w1 = (Inr rep, w2)"
    and may: "authz (check_write actor rep) w2 = (Inr u, w3)"
    and t: "tables w1 = tables w" "tables w2 = tables w1" "tables w3 = tables w2" "tables w4 = tables w3"
      "tables w5 = tables w4" "tables w6 = tables w5" "tables v1 = tables w6"
    and x: "x \<in> set (t_issues (tables w4))" "issue_repository_id x = repo_id rep"
    and run: "comment_body i rep uid x body mentioned v1 = (Inr y, v2)"
  have "writer actor ow nm (tables v1) rep uid"
    using who repository_by_name_Inr named check_write_Inr may t
    by (fastforce simp: writer_def authz_Inr require_user_def act_simps)
  then show "tracker_effect actor ow nm (tables v1) (tables v2)"
    using tracker_effectI comment_body_Inr [OF run] issues_ofI [OF x] t by metis
qed

section \<open>Releases\<close>

lemma read_only_resolve_tag: "read_only (resolve_tag_now g identity tag)"
  by (simp add: read_only_def resolve_tag_now_def)

lemma read_only_previous_tag: "read_only (previous_tag g identity tag rs)"
proof (induction rs)
  case (Cons x xs)
  have "read_only (case res of Inr _ \<Rightarrow> ok (Some (release_tag_name x)) | Inl _ \<Rightarrow> previous_tag g identity tag xs)" for res :: "git_error + string"
    using Cons by (cases res) (simp_all add: read_only_ok)
  then show ?case using Cons by (auto intro!: ro read_only_resolve_tag)
qed (simp add: read_only_ok)

lemma read_only_release_target: "read_only (release_target g identity tag target committer title)"
proof -
  have "read_only (create_annotated_tag_now g identity tag target committer m)" for m
    by (auto simp: read_only_def create_annotated_tag_now_def split: sum.splits)
  then have "read_only (case res of Inr commit \<Rightarrow> ok commit
       | Inl _ \<Rightarrow> create_annotated_tag_now g identity tag target committer (if title = [] then tag else title))"
    for res :: "git_error + string"
    by (cases res) (simp_all add: read_only_ok)
  then show ?thesis unfolding release_target_def by (intro ro read_only_resolve_tag)
qed

lemma read_only_release_notes: "read_only (release_notes g identity i previous target)"
proof -
  have "read_only (changelog_now g identity previous target)"
    by (auto simp: read_only_def changelog_now_def split: sum.splits)
  then show ?thesis unfolding release_notes_def by (intro ro)
qed

definition record_release :: "uuid \<Rightarrow> uuid \<Rightarrow> new_release \<Rightarrow> string \<Rightarrow> (service_error, string) act" where
  "record_release rel rid new tag =
     and_then (map_err service_of_release (release_insert rel rid new)) (\<lambda>_.
       and_then (if nr_draft new then ok () else dbq (append_event (EvReleasePublished rel rid (nr_author_id new))))
         (\<lambda>_. ok tag))"

lemma record_release_Inr:
  assumes "record_release rel rid new tag w = (Inr y, w')"
  shows "within rid (tables w) (tables w')
    \<and> t_releases (tables w') = t_releases (tables w) @
        [\<lparr>release_id = rel, release_repository_id = rid, release_tag_name = nr_tag_name new,
          release_target_commit = nr_target_commit new, release_name = nr_name new, release_body = nr_body new,
          release_draft = nr_draft new, release_prerelease = nr_prerelease new,
          release_published_at = (if nr_draft new then None else Some (clock w)),
          release_author_id = nr_author_id new, release_created_at = clock w\<rparr>]
    \<and> logged (tables w') = logged (tables w) @
        (if nr_draft new then [] else [EvReleasePublished rel rid (nr_author_id new)])"
proof -
  let ?row = "\<lparr>release_id = rel, release_repository_id = rid, release_tag_name = nr_tag_name new,
          release_target_commit = nr_target_commit new, release_name = nr_name new, release_body = nr_body new,
          release_draft = nr_draft new, release_prerelease = nr_prerelease new,
          release_published_at = (if nr_draft new then None else Some (clock w)),
          release_author_id = nr_author_id new, release_created_at = clock w\<rparr>"
  obtain u w1 v where ins: "sql (insert_release_row ?row) w = (Inr u, w1)"
    and ev: "(if nr_draft new then ok () else dbq (append_event (EvReleasePublished rel rid (nr_author_id new)))) w1 = (Inr v, w')"
    using assms unfolding record_release_def by (auto simp: act_simps release_insert_def simp del: if_split)
  have w1: "tables w1 = (tables w)\<lparr>t_releases := t_releases (tables w) @ [?row]\<rparr>"
    using sql_Inr [OF ins] by (simp add: insert_release_row_def split: if_splits)
  have ww: "within rid (tables w) (tables w1)"
    by (rule within_quiet) (simp_all add: w1 issue_states_def elsewhere_def core_tables_def attached_elsewhere_def)
  show ?thesis
  proof (cases "nr_draft new")
    case True
    then show ?thesis using ev ww by (simp add: act_simps w1 logged_def)
  next
    case False
    then have e: "append_event (EvReleasePublished rel rid (nr_author_id new)) w1 = (Inr v, w')" using ev by (simp add: act_simps)
    show ?thesis
      using within_event [OF e _ ww, of "[]"] append_event_adds [OF e] False
      by (auto simp: w1 logged_def issue_states_def)
  qed
qed

lemma release_create_effect: "achieves (tracker_effect actor ow nm) (release_create g actor ow nm i) w"
  unfolding release_create_def
proof (intro past_read [OF read_only_acting_user] past_write_check past_ensure past_read [OF read_only_dbq [OF read_only_select]]
    past_read [OF read_only_previous_tag] past_read [OF read_only_release_target] past_read [OF read_only_release_notes]
    past_read [OF read_only_fresh] tracker.achieves_transaction)
  fix committer w0 rep author w1 rs w2 prev w3 target w4 body w5 rel w6 y v1 v2
  let ?new = "\<lparr>nr_tag_name = trim (ri_tag_name i), nr_target_commit = target, nr_name = trim (ri_title i), nr_body = body,
      nr_draft = ri_draft i, nr_prerelease = ri_prerelease i, nr_author_id = author\<rparr>"
  assume wr: "writer actor ow nm (tables w1) rep author"
    and t: "tables w2 = tables w1" "tables w3 = tables w2" "tables w4 = tables w3" "tables w5 = tables w4" "tables w6 = tables w5"
      "tables v1 = tables w6"
    and run: "and_then (map_err service_of_release (release_insert rel (repo_id rep) ?new)) (\<lambda>_.
        and_then (if ri_draft i then ok () else dbq (append_event (EvReleasePublished rel (repo_id rep) author)))
          (\<lambda>_. ok (trim (ri_tag_name i)))) v1 = (Inr y, v2)"
  have "record_release rel (repo_id rep) ?new (trim (ri_tag_name i)) v1 = (Inr y, v2)"
    using run unfolding record_release_def by (simp only: new_release.select_convs)
  from record_release_Inr [OF this] show "tracker_effect actor ow nm (tables v1) (tables v2)"
    using tracker_effectI wr t by metis
qed

section \<open>The guarantees\<close>

lemma achieves_forget: "achieves (tracker_effect actor ow nm) m w \<Longrightarrow> achieves (tracker_effect actor ow nm) (forget m) w"
  unfolding forget_def by (rule tracker.achieves_then_ok)

lemma run_tracker_effect: "achieves (tracker_effect actor ow nm) (run_tracker g actor ow nm c) w"
  by (cases c)
    (simp_all add: achieves_forget issue_open_effect issue_close_effect issue_reopen_effect create_label_effect
      apply_label_effect remove_label_effect create_milestone_effect assign_effect unassign_effect
      set_milestone_effect add_comment_effect release_create_effect)

text \<open>C21. The tracker changes only what a writer may change, and an issue moves by single steps.
  Whatever operation on issues, labels, milestones, assignees, comments or releases is called, and
  whichever of its statements fail: a failed call leaves every table as it was (a release that fails
  late leaves the tag it made in the git directory, which is no table); and if the tables changed, the
  caller is a user whom the grants in the tables allow to write to the repository named in the call,
  the issues, labels, milestones, releases and number counter of every other repository are the same,
  and so are the comments, labels and assignees on issues of other repositories and every table that
  is neither one of these nor the outbox. The states of issues changed by at most one step: an open
  issue was closed or a new open one was added, each with exactly its announcement in the outbox, or
  one was reopened, which the code announces with nothing, or none changed and the outbox received no
  event of an opening or closing. The hypothesis is that issue ids are distinct, as the table's
  primary key has it.\<close>

theorem tracker_changes_by_writers:
  assumes "run_tracker g actor ow nm c w = (r, w')"
    and "distinct (map issue_id (t_issues (tables w)))"
  shows "(isl r \<longrightarrow> tables w' = tables w)
    \<and> (tables w' \<noteq> tables w \<longrightarrow>
        (\<exists>rep uid. writer actor ow nm (tables w) rep uid \<and> issue_step (repo_id rep) (tables w) (tables w')
           \<and> elsewhere (repo_id rep) (tables w') = elsewhere (repo_id rep) (tables w)
           \<and> attached_elsewhere (issues_of (repo_id rep) (tables w)) (tables w')
             = attached_elsewhere (issues_of (repo_id rep) (tables w)) (tables w)
           \<and> core_tables (tables w') = core_tables (tables w)))"
  using achievesD [OF run_tracker_effect assms(1)] assms(2) by (auto simp: tracker_effect_def within_def)

definition tag_server :: tag_backend where
  "tag_server = \<lparr>do_resolve_tag = (\<lambda>cs _ t. if t = ''v1'' then Inr ''c1'' else Inl (GitNotFound t)),
     do_create_tag = (\<lambda>_ _ _ _ _ _ _. Inr ''c2''), do_changelog = (\<lambda>_ _ _ _. Inr [])\<rparr>"

theorem tracker_changes_by_writers_witness:
  "writer (ActorUser 2) ''alice'' ''proj'' (tables pr_world) (t_repositories (tables pr_world) ! 0) 2
   \<and> map issue_state (t_issues (tables (snd (run_tracker tag_server (ActorUser 2) ''alice'' ''proj'' (TcClose 1) pr_world))))
       = [IssueClosed 5 Completed]"
proof -
  let ?run = "run_tracker tag_server (ActorUser 2) ''alice'' ''proj'' (TcClose 1) pr_world"
  have moved: "map issue_state (t_issues (tables (snd (issue_close (ActorUser 2) ''alice'' ''proj'' 1 pr_world))))
      = [IssueClosed 5 Completed]" by code_simp
  then have changed: "tables (snd ?run) \<noteq> tables pr_world" by (auto simp: pr_world_def)
  have "distinct (map issue_id (t_issues (tables pr_world)))" by (simp add: pr_world_def)
  from tracker_changes_by_writers [OF _ this, of tag_server "ActorUser 2" "''alice''" "''proj''" "TcClose 1" "fst ?run" "snd ?run"] changed
  obtain rep uid where wr: "writer (ActorUser 2) ''alice'' ''proj'' (tables pr_world) rep uid" by auto
  moreover have "named_repository ''alice'' ''proj'' (tables pr_world) = Some (t_repositories (tables pr_world) ! 0)"
    by code_simp
  ultimately have "rep = t_repositories (tables pr_world) ! 0" "uid = 2" by (simp_all add: writer_def)
  then show ?thesis using wr moved by simp
qed

section \<open>Comments\<close>

text \<open>Whom a comment mentions: the users of its mentions, once each in order, less its author.\<close>

definition mentioned_users :: "db \<Rightarrow> uuid \<Rightarrow> string \<Rightarrow> uuid list" where
  "mentioned_users d author body =
     rev (remdups (rev (filter (\<lambda>u. u \<noteq> author)
       (List.map_filter (\<lambda>n. map_option user_id (user_by_username n d)) (parse_mentions body)))))"

lemma remdups_rev_snoc: "rev (remdups (rev (xs @ [x]))) = (if x \<in> set xs then rev (remdups (rev xs)) else rev (remdups (rev xs)) @ [x])"
  by simp

lemma resolve_names_Inr:
  "resolve_names ns author (rev (remdups (rev acc))) w = (Inr us, w') \<Longrightarrow>
     us = rev (remdups (rev (acc @ filter (\<lambda>u. u \<noteq> author)
       (List.map_filter (\<lambda>n. map_option user_id (user_by_username n (tables w))) ns))))
     \<and> tables w' = tables w"
proof (induction ns arbitrary: acc w)
  case Nil
  then show ?case by (simp add: act_simps List.map_filter_simps)
next
  case (Cons n ns)
  then obtain found w1 where sel: "select (user_by_username n) w = (Inr found, w1)"
    and rest: "(case found of None \<Rightarrow> resolve_names ns author (rev (remdups (rev acc)))
       | Some u \<Rightarrow> if user_id u \<noteq> author \<and> user_id u \<notin> set (rev (remdups (rev acc)))
           then resolve_names ns author (rev (remdups (rev acc)) @ [user_id u])
           else resolve_names ns author (rev (remdups (rev acc)))) w1 = (Inr us, w')"
    unfolding resolve_names.simps and_then_Inr by blast
  have t: "found = user_by_username n (tables w)" "tables w1 = tables w" using select_Inr [OF sel] by simp_all
  show ?case
  proof (cases found)
    case None
    then show ?thesis using rest Cons.IH [of acc w1] t by (simp add: List.map_filter_simps)
  next
    case (Some u)
    then show ?thesis
      using rest Cons.IH [of acc w1] Cons.IH [of "acc @ [user_id u]" w1] t
      by (auto simp: List.map_filter_simps remdups_rev_snoc split: if_splits)
  qed
qed

lemma frames_clock_require_user: "frames clock (require_user actor)"
  unfolding require_user_def by (rule frames_or_err)

lemma frames_clock_check_write: "frames clock (authz (check_write actor rep))"
  unfolding check_write_def by (intro clock.frames_authz frames_basic clock.frames_access_for frames_decide)

lemma frames_clock_load_issue: "frames clock (load_issue rid n)"
  unfolding load_issue_def by (intro frames_basic clock.frames_dbq clock.frames_select)

lemma frames_clock_resolve_mentions: "frames clock (dbq (resolve_mentions body uid))"
proof -
  have "frames clock (resolve_names ns uid acc)" for ns acc
    by (induction ns arbitrary: acc) (auto intro!: frames_basic clock.frames_select)
  then show ?thesis unfolding resolve_mentions_def by (rule clock.frames_dbq)
qed

text \<open>C22. What a comment on an issue records. A call that returns an id has added exactly one comment,
  under that id, by the calling user on the issue of the given number, with the trimmed text; and it has
  put exactly these events into the outbox, in the same transaction: that the issue was commented on,
  and one mention for every user the text names, each once, in the order of first mention, the author
  excepted.\<close>

theorem comment_records_exactly:
  assumes "issue_add_comment actor ow nm n body w = (Inr i, w')"
  shows "\<exists>uid rep x. writer actor ow nm (tables w) rep uid \<and> issue_by_number (repo_id rep) n (tables w) = Some x
    \<and> t_issue_comments (tables w') = t_issue_comments (tables w) @
        [\<lparr>icomment_id = i, icomment_issue_id = issue_id x, icomment_author_id = uid, icomment_body = trim body,
          icomment_created_at = clock w\<rparr>]
    \<and> logged (tables w') = logged (tables w) @ EvIssueCommented (issue_id x) (repo_id rep) uid
        # map (\<lambda>u. EvUserMentioned u uid (MentionInIssue (issue_id x))) (mentioned_users (tables w) uid (trim body))"
proof -
  obtain uid w1 rep w2 u w3 x w4 us w5 j w6 where steps: "require_user actor w = (Inr uid, w1)"
    "authz (repository_by_name ow nm) w1 = (Inr rep, w2)" "authz (check_write actor rep) w2 = (Inr u, w3)"
    "load_issue (repo_id rep) n w3 = (Inr x, w4)" "dbq (resolve_mentions (trim body) uid) w4 = (Inr us, w5)"
    "(fresh_uuid :: (service_error, uuid) act) w5 = (Inr j, w6)"
    and tx: "transaction SvDb (comment_body j rep uid x body us) w6 = (Inr i, w')"
    using assms unfolding issue_add_comment_def comment_body_def [symmetric] and_then_Inr ensure_Inr
    by blast
  have t: "tables w1 = tables w" "tables w2 = tables w1" "tables w3 = tables w2" "tables w4 = tables w3"
    "tables w5 = tables w4" "tables w6 = tables w5"
    by (rule read_only_tables [OF read_only_require_user steps(1)]
        read_only_tables [OF read_only_authz [OF read_only_repository_by_name] steps(2)]
        read_only_tables [OF read_only_authz [OF read_only_check_write] steps(3)]
        read_only_tables [OF read_only_load_issue steps(4)]
        read_only_tables [OF read_only_dbq [OF read_only_resolve_mentions] steps(5)]
        read_only_tables [OF read_only_fresh steps(6)])+
  have c: "clock w6 = clock w"
    using framesD [OF frames_clock_require_user steps(1)] framesD [OF clock.frames_authz [OF clock.frames_repository_by_name] steps(2)]
      framesD [OF frames_clock_check_write steps(3)] framesD [OF frames_clock_load_issue steps(4)]
      framesD [OF frames_clock_resolve_mentions steps(5)] framesD [OF frames_fresh(2) steps(6)] by simp
  have wr: "writer actor ow nm (tables w) rep uid"
    using steps repository_by_name_Inr check_write_Inr t
    by (fastforce simp: writer_def authz_Inr require_user_def act_simps)
  have x: "issue_by_number (repo_id rep) n (tables w) = Some x"
    using steps(4) t by (auto simp: load_issue_def act_simps dest!: select_Inr)
  have us: "us = mentioned_users (tables w) uid (trim body)"
    using resolve_names_Inr [of "parse_mentions (trim body)" uid "[]" w4 us w5] steps(5) t
    by (simp add: act_simps resolve_mentions_def mentioned_users_def)
  obtain v1 v2 where v: "tables v1 = tables w6" "clock v1 = clock w6" "comment_body j rep uid x body us v1 = (Inr i, v2)"
    "tables w' = tables v2"
    using tx by (auto elim: transaction_Inr)
  have "x \<in> set (t_issues (tables w))" "issue_repository_id x = repo_id rep"
    using x unfolding issue_by_number_def by (auto dest: find_Some_filter)
  then have "issue_id x \<in> issues_of (repo_id rep) (tables v1)" using issues_ofI v(1) t by metis
  from comment_body_Inr [OF v(3) this] show ?thesis
    using v t c wr x us by (intro exI [of _ uid] exI [of _ rep] exI [of _ x]) simp
qed

theorem comment_records_exactly_witness:
  "\<exists>uid rep x. writer (ActorUser 2) ''alice'' ''proj'' (tables pr_world) rep uid
     \<and> issue_by_number (repo_id rep) 1 (tables pr_world) = Some x
     \<and> mentioned_users (tables pr_world) uid ''see @alice, @bob, @alice'' = [1]"
proof -
  let ?run = "issue_add_comment (ActorUser 2) ''alice'' ''proj'' 1 ''see @alice, @bob, @alice'' pr_world"
  have "?run = (Inr 100, snd ?run)" by code_simp
  from comment_records_exactly [OF this]
  obtain uid rep x where w: "writer (ActorUser 2) ''alice'' ''proj'' (tables pr_world) rep uid"
    "issue_by_number (repo_id rep) 1 (tables pr_world) = Some x" by blast
  then have "uid = 2" by (simp add: writer_def)
  moreover have "mentioned_users (tables pr_world) 2 ''see @alice, @bob, @alice'' = [1]" by code_simp
  ultimately show ?thesis using w by blast
qed

section \<open>What publishing a release records\<close>

text \<open>The commit a release is pinned to: what its tag resolves to, or the target a new tag was created at.\<close>

definition pinned :: "tag_backend \<Rightarrow> string \<Rightarrow> string \<Rightarrow> git_call list \<Rightarrow> git_call list \<Rightarrow> string \<Rightarrow> bool" where
  "pinned g identity tag calls calls' commit \<longleftrightarrow>
     (do_resolve_tag g calls identity tag = Inr commit \<and> calls' = calls)
     \<or> (isl (do_resolve_tag g calls identity tag) \<and> calls' = calls @ [GitTag identity tag commit])"

lemma previous_tag_frame: "frames git_calls (previous_tag g identity tag rs)"
proof (induction rs)
  case (Cons x xs)
  have "frames git_calls (case res of Inr _ \<Rightarrow> ok (Some (release_tag_name x)) | Inl _ \<Rightarrow> previous_tag g identity tag xs)"
    for res :: "git_error + string"
    using Cons by (cases res) (simp_all add: frames_ok)
  moreover have "frames git_calls (resolve_tag_now g identity t)" for t
    by (simp add: frames_def resolve_tag_now_def)
  ultimately show ?case using Cons by (auto intro!: frames_basic)
qed (simp add: frames_ok)

lemma release_notes_frame: "frames git_calls (release_notes g identity i previous target)"
proof -
  have "frames git_calls (changelog_now g identity previous target)"
    by (auto simp: frames_def changelog_now_def split: sum.splits)
  then show ?thesis unfolding release_notes_def by (intro frames_basic)
qed

lemma release_target_Inr:
  "release_target g identity tag target committer title w = (Inr commit, w') \<Longrightarrow>
     pinned g identity tag (git_calls w) (git_calls w') commit"
  by (auto simp: release_target_def resolve_tag_now_def create_annotated_tag_now_def pinned_def and_then_def ok_def
      split: sum.splits prod.splits)

lemma calls_write_checked: "frames git_calls (write_checked actor ow nm)"
  unfolding write_checked_def require_user_def check_write_def
  by (intro frames_basic calls.frames_authz calls.frames_repository_by_name calls.frames_access_for frames_decide)

lemma record_release_frame: "frames git_calls (record_release rel rid new tag)"
  unfolding record_release_def release_insert_def append_event_def
  by (intro frames_basic frames_fresh calls.frames_sql calls.frames_dbq)

text \<open>What publishing a release records. A call that succeeds has added exactly one release, by the
  calling user in the repository named, under the trimmed tag and title, pinned to the commit its tag
  resolved to, or, where the tag did not resolve, to the commit at which the call created it (and the
  only change asked of the git layer is that tag). A draft has no time of publication and puts nothing into the
  outbox; any other release puts exactly its announcement there.\<close>

theorem release_records_exactly:
  assumes "release_create g actor ow nm i w = (Inr tag, w')"
  shows "\<exists>uid rep x. writer actor ow nm (tables w) rep uid \<and> tag = trim (ri_tag_name i)
    \<and> t_releases (tables w') = t_releases (tables w) @ [x] \<and> release_repository_id x = repo_id rep
    \<and> release_tag_name x = tag \<and> release_name x = trim (ri_title i) \<and> release_author_id x = uid
    \<and> pinned g (git_identity ow nm) tag (git_calls w) (git_calls w') (release_target_commit x)
    \<and> (release_published_at x = None \<longleftrightarrow> ri_draft i)
    \<and> logged (tables w') = logged (tables w) @
        (if ri_draft i then [] else [EvReleasePublished (release_id x) (repo_id rep) uid])"
proof -
  obtain committer w1 rep uid w2 rs w3 prev w4 target w5 body w6 rel w7 where steps:
    "acting_user actor w = (Inr committer, w1)" "write_checked actor ow nm w1 = (Inr (rep, uid), w2)"
    "dbq (select (releases_of (repo_id rep))) w2 = (Inr rs, w3)"
    "previous_tag g (git_identity ow nm) (trim (ri_tag_name i)) rs w3 = (Inr prev, w4)"
    "release_target g (git_identity ow nm) (trim (ri_tag_name i)) (ri_target i) committer (trim (ri_title i)) w4 = (Inr target, w5)"
    "release_notes g (git_identity ow nm) i prev target w5 = (Inr body, w6)"
    "(fresh_uuid :: (service_error, uuid) act) w6 = (Inr rel, w7)"
    and tx: "transaction SvDb (record_release rel (repo_id rep) \<lparr>nr_tag_name = trim (ri_tag_name i),
        nr_target_commit = target, nr_name = trim (ri_title i), nr_body = body, nr_draft = ri_draft i,
        nr_prerelease = ri_prerelease i, nr_author_id = uid\<rparr> (trim (ri_tag_name i))) w7 = (Inr tag, w')"
    using assms unfolding release_create_def record_release_def new_release.select_convs and_then_Inr ensure_Inr split_paired_Ex prod.case
    by blast
  have t: "tables w1 = tables w" "tables w2 = tables w1" "tables w3 = tables w2" "tables w4 = tables w3"
    "tables w5 = tables w4" "tables w6 = tables w5" "tables w7 = tables w6"
    by (rule read_only_tables [OF read_only_acting_user steps(1)] read_only_tables [OF read_only_write_checked steps(2)]
        read_only_tables [OF read_only_dbq [OF read_only_select] steps(3)] read_only_tables [OF read_only_previous_tag steps(4)]
        read_only_tables [OF read_only_release_target steps(5)] read_only_tables [OF read_only_release_notes steps(6)]
        read_only_tables [OF read_only_fresh steps(7)])+
  have calls: "git_calls w4 = git_calls w" "git_calls w7 = git_calls w5"
    using framesD [OF calls.frames_acting_user steps(1)] framesD [OF calls_write_checked steps(2)]
      framesD [OF calls.frames_dbq [OF calls.frames_select] steps(3)] framesD [OF previous_tag_frame steps(4)]
      framesD [OF release_notes_frame steps(6)] framesD [OF frames_fresh(1) steps(7)] by simp_all
  obtain v1 v2 where v: "tables v1 = tables w7" "git_calls v1 = git_calls w7"
    "record_release rel (repo_id rep) \<lparr>nr_tag_name = trim (ri_tag_name i),
        nr_target_commit = target, nr_name = trim (ri_title i), nr_body = body, nr_draft = ri_draft i,
        nr_prerelease = ri_prerelease i, nr_author_id = uid\<rparr> (trim (ri_tag_name i)) v1 = (Inr tag, v2)"
    "tables w' = tables v2" "git_calls w' = git_calls v2"
    using tx by (auto elim: transaction_Inr)
  have "git_calls v2 = git_calls v1" using framesD [OF record_release_frame v(3)] .
  then have "pinned g (git_identity ow nm) (trim (ri_tag_name i)) (git_calls w) (git_calls w') target"
    using release_target_Inr [OF steps(5)] calls v by simp
  moreover have "tag = trim (ri_tag_name i)" using v(3) unfolding record_release_def and_then_Inr ok_Inr by blast
  ultimately show ?thesis
    using record_release_Inr [OF v(3)] write_checked_writer [OF steps(2)] t v
    by (intro exI [of _ uid] exI [of _ rep] exI conjI) (assumption | simp)+
qed

definition release_input :: "string \<Rightarrow> bool \<Rightarrow> new_release_input" where
  "release_input tag draft = \<lparr>ri_tag_name = tag, ri_target = ''main'', ri_title = ''One'', ri_body = None, ri_draft = draft,
     ri_prerelease = False, ri_generate_notes = True\<rparr>"

theorem release_records_exactly_witness:
  "\<exists>x. t_releases (tables (snd (release_create tag_server (ActorUser 2) ''alice'' ''proj'' (release_input '' v2 '' False) pr_world))) = [x]
     \<and> release_tag_name x = ''v2'' \<and> release_target_commit x = ''c2''"
proof -
  let ?run = "release_create tag_server (ActorUser 2) ''alice'' ''proj'' (release_input '' v2 '' False) pr_world"
  have "?run = (Inr ''v2'', snd ?run)" by code_simp
  moreover have "t_releases (tables pr_world) = []" "git_calls pr_world = []"
    by (simp_all add: pr_world_def empty_db_def)
  ultimately obtain x where x: "t_releases (tables (snd ?run)) = [x]" "release_tag_name x = ''v2''"
    "pinned tag_server (git_identity ''alice'' ''proj'') ''v2'' [] (git_calls (snd ?run)) (release_target_commit x)"
    using release_records_exactly [of tag_server "ActorUser 2" "''alice''" "''proj''" "release_input '' v2 '' False" pr_world "''v2''"
        "snd ?run"] by (metis append_Nil)
  moreover have "git_calls (snd ?run) = [GitTag ''alice/proj'' ''v2'' ''c2'']" by code_simp
  ultimately show ?thesis by (auto simp: pinned_def tag_server_def git_identity_def)
qed

section \<open>Two checks that are missing\<close>

definition tracker_world :: world where
  "tracker_world = pr_world\<lparr>tables := (tables pr_world)\<lparr>
     t_repositories := t_repositories (tables pr_world) @
       [\<lparr>repo_id = 2, repo_owner = OwnerUser 1, repo_name = ''secret'', repo_description = None,
         repo_visibility = Private, repo_forked_from = None\<rparr>],
     t_milestones := [\<lparr>milestone_id = 30, milestone_repository_id = 2, milestone_title = ''takeover'',
       milestone_description = None, milestone_due_on = None, milestone_state = MsOpen\<rparr>]\<rparr>\<rparr>"

text \<open>An issue can be put on a milestone of a private repository that the caller may not read.\<close>

theorem foreign_milestone_accepted:
  "fst (check_read (ActorUser 2) (t_repositories (tables tracker_world) ! 1) tracker_world) = Inl AuthzNotFound
   \<and> milestone_repository_id (t_milestones (tables tracker_world) ! 0) = 2
   \<and> fst (set_milestone (ActorUser 2) ''alice'' ''proj'' 1 (Some 30) tracker_world) = Inr ()
   \<and> map issue_milestone_id (t_issues (tables (snd (set_milestone (ActorUser 2) ''alice'' ''proj'' 1 (Some 30) tracker_world))))
       = [Some 30]"
  by code_simp

text \<open>Clearing a watch does not check that the repository may be read: it tells a private repository
  from one that does not exist.\<close>

theorem clear_watch_reveals_private_repository:
  "fst (set_repo_watch (ActorUser 2) ''alice'' ''secret'' Watching tracker_world)
     = fst (set_repo_watch (ActorUser 2) ''alice'' ''absent'' Watching tracker_world)
   \<and> fst (clear_repo_watch (ActorUser 2) ''alice'' ''secret'' tracker_world) = Inr ()
   \<and> fst (clear_repo_watch (ActorUser 2) ''alice'' ''absent'' tracker_world) = Inl SvNotFound"
  by code_simp

end
