(* ===== verification/Repository_Proofs.thy ===== *)
theory Repository_Proofs
  imports Repository_Service Sequencing Tracker_Proofs
begin

text \<open>
  What creating, copying and deleting repositories guarantees: every row has its directory whatever fails,
  quotas hold, a deleted repository leaves nothing behind; and where the two systems without a shared
  transaction drift apart.
\<close>

section \<open>Rows and directories\<close>

definition rows_backed :: "repo_store \<Rightarrow> world \<Rightarrow> bool" where
  "rows_backed st w =
     list_all (\<lambda>r. case owner_name (repo_owner r) (tables w) of
         Some o1 \<Rightarrow> git_identity o1 (repo_name r) \<in> set (live_dirs st (git_calls w))
       | None \<Rightarrow> True) (t_repositories (tables w))"

lemma rows_backed_iff:
  "rows_backed st w \<longleftrightarrow>
     (\<forall>r\<in>set (t_repositories (tables w)). \<forall>o1. owner_name (repo_owner r) (tables w) = Some o1 \<longrightarrow>
        git_identity o1 (repo_name r) \<in> set (live_dirs st (git_calls w)))"
  by (auto simp: rows_backed_def list_all_iff split: option.splits)

text \<open>The owners stay fixed along a call.\<close>

definition named_in :: "user list \<Rightarrow> organization list \<Rightarrow> repository_owner \<Rightarrow> string option" where
  "named_in us gs owner = owner_name owner (empty_db\<lparr>t_users := us, t_organizations := gs\<rparr>)"

lemma owner_name_in: "owner_name owner d = named_in (t_users d) (t_organizations d) owner"
  by (simp add: named_in_def owner_name_def user_by_id_def org_by_id_def split: repository_owner.split)

definition backed :: "repo_store \<Rightarrow> user list \<Rightarrow> organization list \<Rightarrow> world \<Rightarrow> bool" where
  "backed st us gs w \<longleftrightarrow> t_users (tables w) = us \<and> t_organizations (tables w) = gs \<and> rows_backed st w"

lemma stable_backed: "stable (backed st us gs)"
  by (simp add: stable_def backed_def rows_backed_iff)

definition backed_dir :: "repo_store \<Rightarrow> user list \<Rightarrow> organization list \<Rightarrow> string \<Rightarrow> world \<Rightarrow> bool" where
  "backed_dir st us gs i w \<longleftrightarrow> backed st us gs w \<and> i \<in> set (live_dirs st (git_calls w))"

lemma stable_backed_dir: "stable (backed_dir st us gs i)"
  by (simp add: stable_def backed_dir_def backed_def rows_backed_iff)

lemma live_dirs_snoc: "live_dirs st (calls @ [c]) = apply_dir_call c (live_dirs st calls)"
  by (simp add: live_dirs_def)

lemma backed_more:
  "backed st us gs w \<Longrightarrow> set (live_dirs st (git_calls w)) \<subseteq> set (live_dirs st calls) \<Longrightarrow> backed st us gs (w\<lparr>git_calls := calls\<rparr>)"
  by (auto simp: backed_def rows_backed_iff)

lemma hoare_create_repo:
  "hoare (backed st us gs) (create_repo st n) (\<lambda>_. backed_dir st us gs n) (backed st us gs)"
proof (rule hoareI)
  fix w r w' assume b: "backed st us gs w" and run: "create_repo st n w = (r, w')"
  have "w' = w \<and> isl r \<or> w' = w\<lparr>git_calls := git_calls w @ [GitCreate n]\<rparr>"
    using run by (auto simp: create_repo_def validate_name_def and_then_def ensure_def ok_def err_def dir_exists_def run_dir_call_def
        split: if_splits option.splits prod.splits)
  then show "case r of Inr x \<Rightarrow> backed_dir st us gs n w' | Inl e \<Rightarrow> backed st us gs w'"
    using b backed_more [OF b, of "git_calls w @ [GitCreate n]"]
    by (auto simp: backed_dir_def live_dirs_snoc split: sum.split)
qed

lemma hoare_fork_repo:
  "hoare (backed st us gs) (fork_repo st s n) (\<lambda>_. backed_dir st us gs n) (backed st us gs)"
proof (rule hoareI)
  fix w r w' assume b: "backed st us gs w" and run: "fork_repo st s n w = (r, w')"
  have "w' = w \<and> isl r \<or> w' = w\<lparr>git_calls := git_calls w @ [GitFork s n]\<rparr>"
    using run by (auto simp: fork_repo_def validate_name_def and_then_def ensure_def ok_def err_def dir_exists_def run_dir_call_def
        split: if_splits option.splits prod.splits)
  then show "case r of Inr x \<Rightarrow> backed_dir st us gs n w' | Inl e \<Rightarrow> backed st us gs w'"
    using b backed_more [OF b, of "git_calls w @ [GitFork s n]"]
    by (auto simp: backed_dir_def live_dirs_snoc split: sum.split)
qed

lemma insert_grant_effect:
  assumes "insert_with_owner_grant r g w = (res, w')"
  shows "git_calls w' = git_calls w"
    and "tables w' = tables w \<or> (\<exists>rows. tables w' = (tables w)\<lparr>t_repositories := t_repositories (tables w) @ [r], t_repo_access := rows\<rparr>)"
proof -
  have "frames git_calls (insert_with_owner_grant r g)"
    unfolding insert_with_owner_grant_def by (intro calls.frames_stmt)
  from framesD [OF this assms] show "git_calls w' = git_calls w" .
  show "tables w' = tables w \<or> (\<exists>rows. tables w' = (tables w)\<lparr>t_repositories := t_repositories (tables w) @ [r], t_repo_access := rows\<rparr>)"
  proof (cases res)
    case (Inl e)
    then show ?thesis using assms transaction_Inl unfolding insert_with_owner_grant_def by fastforce
  next
    case (Inr u)
    define d where "d = tables w"
    from assms Inr obtain w1 w2 where "tables w1 = d" "tables w' = tables w2"
      "and_then (map_err (\<lambda>e. if e = UniqueViolation then RepoAlreadyExists (repo_name r) else InsertRepoDb e)
                    (sql (insert_repository_row r)))
         (\<lambda>_. map_err InsertRepoDb (sql (insert_owner_row (repo_id r) g))) w1 = (Inr u, w2)"
      unfolding insert_with_owner_grant_def d_def by (auto elim: transaction_Inr)
    then show ?thesis
      by (auto simp: d_def [symmetric] act_simps sql_def Let_def insert_repository_row_def insert_owner_row_def
          split: if_splits sum.splits prod.splits)
  qed
qed

lemma hoare_insert_grant:
  assumes "named_in us gs (repo_owner r) = Some o1"
  shows "hoare (backed_dir st us gs (git_identity o1 (repo_name r))) (insert_with_owner_grant r g) (\<lambda>_. backed st us gs) (backed st us gs)"
proof (rule hoareI)
  fix w res w' assume b: "backed_dir st us gs (git_identity o1 (repo_name r)) w" and run: "insert_with_owner_grant r g w = (res, w')"
  have "backed st us gs w'"
    using insert_grant_effect [OF run] b assms
    by (auto simp: backed_dir_def backed_def rows_backed_iff owner_name_in)
  then show "case res of Inr x \<Rightarrow> backed st us gs w' | Inl e \<Rightarrow> backed st us gs w'" by (simp split: sum.split)
qed

lemma hoare_audit: "hoare (backed st us gs) (audit_record e) (\<lambda>_. backed st us gs) (backed st us gs)"
  by (rule hoareI)
    (auto simp: audit_record_def and_then_def outcome_def ok_def execute_def sql_def Let_def backed_def rows_backed_iff owner_name_in
      split: sum.splits if_splits)

lemma hoare_update_rows:
  assumes "\<And>r. repo_owner (f r) = repo_owner r \<and> repo_name (f r) = repo_name r"
  shows "hoare (backed st us gs) (execute (\<lambda>d. d\<lparr>t_repositories := update_where P f (t_repositories d)\<rparr>))
    (\<lambda>_. backed st us gs) (backed st us gs)"
  by (rule hoareI)
    (auto simp: execute_def sql_def Let_def backed_def rows_backed_iff owner_name_in assms
      split: sum.splits if_splits elim!: in_update_whereE)

section \<open>The operations\<close>

lemma quiet_hide: "quiet m \<Longrightarrow> quiet (hide m)"
  unfolding hide_def by (intro quiet_rules)

lemma quiet_authz: "quiet m \<Longrightarrow> quiet (authz m)"
  unfolding authz_def by (intro quiet_rules)

lemma quiet_dbq: "quiet m \<Longrightarrow> quiet (dbq m)"
  unfolding dbq_def by (intro quiet_rules)

lemma quiet_decide: "quiet (decide x)"
  by (cases x) (simp_all add: quiet_basic)

lemma quiet_access_for: "quiet (access_for actor r)"
  unfolding access_for_def by (intro quiet_rules quiet_hide)

lemma quiet_repository_by_name: "quiet (repository_by_name owner name)"
  unfolding repository_by_name_def find_by_owner_username_and_name_def resolve_owner_def
  by (intro quiet_rules quiet_hide)

lemma quiet_checks:
  "quiet (check_read actor r)" "quiet (check_write actor r)" "quiet (check_danger_zone actor r)"
  "quiet (check_administer_organization actor oid)"
  unfolding check_read_def check_write_def check_danger_zone_def check_administer_organization_def
  by (intro quiet_rules quiet_hide quiet_access_for quiet_decide)+

lemma quiet_acting_user: "quiet (acting_user actor)"
  unfolding acting_user_def require_user_def by (intro quiet_rules quiet_dbq)

lemma quiet_quota: "quiet (check_user_repo_quota cfg owner)"
  unfolding check_user_repo_quota_def count_owned_by_user_def
  by (cases owner; cases "rc_max_user_repos cfg") (auto intro!: quiet_rules quiet_dbq)

lemma quiet_verified: "quiet (require_verified_creator cfg uid)"
  unfolding require_verified_creator_def account_status_def by (intro quiet_rules quiet_dbq)

lemma quiet_new_owner: "quiet (resolve_new_owner actor u owner)"
  unfolding resolve_new_owner_def organization_by_name_def
  by (intro quiet_rules quiet_dbq quiet_authz quiet_hide quiet_checks)

text \<open>The name an owner is found under is its stored name.\<close>

lemma acting_user_named:
  assumes "backed st us gs w" "acting_user actor w = (Inr u, w')"
  shows "named_in us gs (OwnerUser (user_id u)) = Some (user_username u)"
proof -
  obtain uid w1 where "select (user_by_id uid) w1 = (Inr (Some u), w')" "tables w1 = tables w"
    using assms(2) by (auto simp: acting_user_def require_user_def dbq_def act_simps)
  then have "user_by_id uid (tables w) = Some u" using select_Inr by metis
  moreover from this have "user_id u = uid" by (auto simp: user_by_id_def find_Some_iff)
  ultimately show ?thesis using assms(1) owner_name_in [of "OwnerUser uid" "tables w"]
    by (simp add: backed_def owner_name_def)
qed

lemma new_owner_named:
  assumes "backed st us gs w" "distinct (map org_id gs)"
    "named_in us gs (OwnerUser (user_id u)) = Some (user_username u)"
    "resolve_new_owner actor u owner w = (Inr (o1, own, team), w')"
  shows "named_in us gs own = Some o1"
proof (cases owner)
  case None
  then show ?thesis using assms(3,4) by (auto simp: resolve_new_owner_def ok_Inr)
next
  case (Some oname)
  then obtain g w1 where g: "organization_by_name oname w = (Inr g, w1)" "o1 = org_name g" "own = OwnerOrganization (org_id g)"
    using assms(4) by (auto simp: resolve_new_owner_def act_simps authz_def)
  from g(1) obtain w2 where "select (org_by_name oname) w = (Inr (Some g), w2)"
    by (auto simp: organization_by_name_def hide_def act_simps)
  then have "org_by_name oname (tables w) = Some g" using select_Inr by metis
  then have "g \<in> set gs" using assms(1) by (auto simp: org_by_name_def backed_def find_Some_iff)
  then have "find (\<lambda>h. org_id h = org_id g) gs = Some g" using find_distinct_key assms(2) by metis
  then show ?thesis using g(2,3) by (simp add: named_in_def owner_name_def org_by_id_def)
qed

lemma hoare_insert_and_audit:
  assumes "named_in us gs (repo_owner r) = Some o1" "i = git_identity o1 (repo_name r)"
  shows "hoare (backed_dir st us gs i)
    (and_then (map_err h (insert_with_owner_grant r g)) (\<lambda>_. and_then (audit_record e) (\<lambda>_. ok z)))
    (\<lambda>_. backed st us gs) (backed st us gs)"
  unfolding assms(2)
  by (rule hoare_and_then [OF hoare_map_err [OF hoare_insert_grant [OF assms(1)]]],
      rule hoare_and_then [OF hoare_audit], rule hoare_ok)

lemma hoare_create:
  assumes "distinct (map org_id gs)"
  shows "hoare (backed st us gs) (repository_create st cfg actor spec) (\<lambda>_. backed st us gs) (backed st us gs)"
proof -
  let ?B = "backed st us gs"
  have last: "hoare ?B
      (and_then (map_err SvGit (create_repo st (git_identity o1 (trim (nrep_name spec))))) (\<lambda>_.
         and_then (map_err service_of_insert_repository
             (case team of Some t \<Rightarrow> insert_with_owner_team r t | None \<Rightarrow> insert_with_owner r uid)) (\<lambda>_.
           and_then (repo_audit ev uid i j) (\<lambda>_. ok z))))
      (\<lambda>_. ?B) ?B"
    if "named_in us gs (repo_owner r) = Some o1" "repo_name r = trim (nrep_name spec)" for r o1 team uid ev i j z
  proof (rule hoare_and_then [OF hoare_map_err [OF hoare_create_repo]])
    fix u
    show "hoare (backed_dir st us gs (git_identity o1 (trim (nrep_name spec))))
      (and_then (map_err service_of_insert_repository
             (case team of Some t \<Rightarrow> insert_with_owner_team r t | None \<Rightarrow> insert_with_owner r uid)) (\<lambda>_.
           and_then (repo_audit ev uid i j) (\<lambda>_. ok z))) (\<lambda>_. ?B) ?B"
      using hoare_insert_and_audit [OF that(1) refl] that(2)
      by (cases team) (simp_all add: insert_with_owner_team_def insert_with_owner_def repo_audit_def)
  qed
  have q: "hoare (\<lambda>w. ?B w \<and> A) m (\<lambda>_ w. ?B w \<and> A) ?B" if "quiet m" for A and m :: "(service_error, unit) act"
    by (rule hoare_quiet [OF that stable_conj [OF stable_backed]]) simp
  have fresh: "hoare (\<lambda>w. ?B w \<and> A) fresh_uuid (\<lambda>_ w. ?B w \<and> A) ?B" for A
    by (rule hoare_quiet [OF quiet_fresh stable_conj [OF stable_backed]]) simp
  have owner: "hoare (\<lambda>w. ?B w \<and> named_in us gs (OwnerUser (user_id u)) = Some (user_username u))
      (resolve_new_owner actor u (nrep_owner spec))
      (\<lambda>z w. ?B w \<and> named_in us gs (fst (snd z)) = Some (fst z)) ?B" for u
    by (rule hoare_weaken [OF hoare_quiet_value [where A = "\<lambda>z. named_in us gs (fst (snd z)) = Some (fst z)" and E = ?B,
            OF quiet_new_owner stable_conj [OF stable_backed]]])
      (auto intro: new_owner_named [OF _ assms])
  show ?thesis
    unfolding repository_create_def
  proof (rule hoare_and_then [OF hoare_quiet_value [OF quiet_acting_user stable_backed _ acting_user_named]], assumption+)
    fix u
    show "hoare (\<lambda>w. ?B w \<and> named_in us gs (OwnerUser (user_id u)) = Some (user_username u))
     (and_then (ensure (trim (nrep_name spec) \<noteq> []) (SvValidation ''a repository needs a name'')) (\<lambda>_.
         and_then (require_verified_creator cfg (user_id u)) (\<lambda>_.
           and_then (resolve_new_owner actor u (nrep_owner spec)) (\<lambda>(owner, repo_own, owner_team).
             and_then (check_user_repo_quota cfg repo_own) (\<lambda>_.
               and_then fresh_uuid (\<lambda>i.
                 let r = \<lparr>repo_id = i, repo_owner = repo_own, repo_name = trim (nrep_name spec),
                          repo_description = non_blank (nrep_description spec),
                          repo_visibility = visibility_of (nrep_private spec), repo_forked_from = None\<rparr>;
                     identity = git_identity owner (trim (nrep_name spec)) in
                 and_then (map_err SvGit (create_repo st identity)) (\<lambda>_.
                   and_then (map_err service_of_insert_repository
                       (case owner_team of
                          Some t \<Rightarrow> insert_with_owner_team r t
                        | None \<Rightarrow> insert_with_owner r (user_id u))) (\<lambda>_.
                     and_then (repo_audit ''repository.create'' (user_id u) i
                         (JObj [(''identity'', JStr identity), (''private'', JBool (nrep_private spec))])) (\<lambda>_.
                       ok (owner, repo_name r)))))))))) (\<lambda>_. ?B) ?B"
    proof (rule hoare_and_then [OF q [OF quiet_basic(5)]], rule hoare_and_then [OF q [OF quiet_verified]],
        rule hoare_and_then [OF owner], clarsimp split: prod.split, goal_cases)
      case (1 o1 own team)
      show ?case
        by (rule hoare_and_then [OF q [OF quiet_quota]], rule hoare_and_then [OF fresh], rule hoare_assume,
            unfold Let_def, rule last) simp_all
    qed
  qed
qed

lemma hoare_fork:
  "hoare (backed st us gs) (repository_fork st cfg actor owner name) (\<lambda>_. backed st us gs) (backed st us gs)"
proof -
  let ?B = "backed st us gs"
  have q: "hoare (\<lambda>w. ?B w \<and> A) m (\<lambda>_ w. ?B w \<and> A) ?B" if "quiet m" for A and m :: "(service_error, unit) act"
    by (rule hoare_quiet [OF that stable_conj [OF stable_backed]]) simp
  have source: "hoare (\<lambda>w. ?B w \<and> A) (authz (repository_by_name owner name)) (\<lambda>_ w. ?B w \<and> A) ?B" for A
    by (rule hoare_quiet [OF quiet_authz [OF quiet_repository_by_name] stable_conj [OF stable_backed]]) simp
  have fresh: "hoare (backed_dir st us gs i) fresh_uuid (\<lambda>_. backed_dir st us gs i) ?B" for i
    by (rule hoare_quiet [OF quiet_fresh stable_backed_dir]) (simp add: backed_dir_def)
  show ?thesis
    unfolding repository_fork_def Let_def
    by (rule hoare_and_then [OF hoare_quiet_value [OF quiet_acting_user stable_backed _ acting_user_named]], assumption+,
        rule hoare_and_then [OF source], rule hoare_and_then [OF q [OF quiet_authz [OF quiet_checks(1)]]],
        rule hoare_and_then [OF q [OF quiet_basic(5)]], rule hoare_and_then [OF q [OF quiet_quota]], rule hoare_assume,
        rule hoare_and_then [OF hoare_map_err [OF hoare_fork_repo]], rule hoare_and_then [OF fresh],
        unfold insert_with_owner_def repo_audit_def, rule hoare_insert_and_audit)
      simp_all
qed

lemma hoare_describe:
  "hoare (backed st us gs) (repository_update_description actor owner name desc) (\<lambda>_. backed st us gs) (backed st us gs)"
proof -
  have q: "hoare (backed st us gs) m (\<lambda>_. backed st us gs) (backed st us gs)" if "quiet m" for m :: "(service_error, 'x) act"
    by (rule hoare_quiet [OF that stable_backed])
  have q2: "hoare (backed st us gs) m (\<lambda>_. backed st us gs) (backed st us gs)" if "quiet m" for m :: "(service_error, unit) act"
    by (rule hoare_quiet [OF that stable_backed])
  show ?thesis
    unfolding repository_update_description_def update_description_def dbq_def
    by (rule hoare_and_then [OF hoare_quiet [OF quiet_authz [OF quiet_repository_by_name] stable_backed]], assumption,
        rule hoare_and_then [OF q2 [OF quiet_authz [OF quiet_checks(2)]]], rule hoare_map_err, rule hoare_update_rows) simp
qed

lemma hoare_set_visibility:
  "hoare (backed st us gs) (repository_set_visibility actor owner name private) (\<lambda>_. backed st us gs) (backed st us gs)"
proof -
  have q: "hoare (backed st us gs) m (\<lambda>_. backed st us gs) (backed st us gs)" if "quiet m" for m :: "(service_error, unit) act"
    by (rule hoare_quiet [OF that stable_backed])
  have audit: "hoare (backed st us gs) (case actor_user_id actor of
             Some uid \<Rightarrow> repo_audit e uid rid j | None \<Rightarrow> ok ()) (\<lambda>_. backed st us gs) (backed st us gs)" for e rid j
    by (cases "actor_user_id actor") (simp_all add: repo_audit_def hoare_audit hoare_ok [of "\<lambda>_. backed st us gs"])
  show ?thesis
    unfolding repository_set_visibility_def update_visibility_def dbq_def
    by (rule hoare_and_then [OF hoare_quiet [OF quiet_authz [OF quiet_repository_by_name] stable_backed]], assumption,
        rule hoare_and_then [OF q [OF quiet_authz [OF quiet_checks(3)]]],
        rule hoare_and_then [OF hoare_map_err [OF hoare_update_rows]]) (simp, rule audit)
qed

datatype repo_op =
    ROCreate actor_context new_repository
  | ROFork actor_context string string
  | RODescribe actor_context string string "string option"
  | ROVisibility actor_context string string bool

fun run_repo_op :: "repo_store \<Rightarrow> repo_config \<Rightarrow> repo_op \<Rightarrow> world \<Rightarrow> world" where
  "run_repo_op st cfg (ROCreate actor spec) w = snd (repository_create st cfg actor spec w)"
| "run_repo_op st cfg (ROFork actor owner name) w = snd (repository_fork st cfg actor owner name w)"
| "run_repo_op st cfg (RODescribe actor owner name desc) w = snd (repository_update_description actor owner name desc w)"
| "run_repo_op st cfg (ROVisibility actor owner name private) w = snd (repository_set_visibility actor owner name private w)"

lemma run_repo_op_backed:
  assumes "backed st us gs w" "distinct (map org_id gs)"
  shows "backed st us gs (run_repo_op st cfg op w)"
proof (cases op)
  case (ROCreate actor spec)
  then show ?thesis using hoare_snd [OF hoare_create [OF assms(2)] assms(1)] by simp
next
  case (ROFork actor owner name)
  then show ?thesis using hoare_snd [OF hoare_fork assms(1)] by simp
next
  case (RODescribe actor owner name desc)
  then show ?thesis using hoare_snd [OF hoare_describe assms(1)] by simp
next
  case (ROVisibility actor owner name hidden)
  then show ?thesis using hoare_snd [OF hoare_set_visibility assms(1)] by simp
qed

text \<open>C23. The git side goes first. Through any sequence of calls that create, fork, describe, publish or hide
  repositories, wherever a statement or the file system fails, every repository row keeps a directory under
  its owner's stored name and its own, if every row had one before and organizations have distinct ids.\<close>

theorem repository_rows_keep_directories:
  assumes "rows_backed st w" "distinct (map org_id (t_organizations (tables w)))"
  shows "rows_backed st (fold (run_repo_op st cfg) ops w)"
proof -
  have "backed st us gs (fold (run_repo_op st cfg) ops w)" if "backed st us gs w" "distinct (map org_id gs)" for us gs w
    using that by (induction ops arbitrary: w) (auto intro: run_repo_op_backed)
  with assms show ?thesis by (auto simp: backed_def)
qed

section \<open>Quotas\<close>

lemma quota_Inr:
  assumes "check_user_repo_quota cfg (OwnerUser uid) w = (Inr u, w')" "rc_max_user_repos cfg = Some limit"
  shows "owned_by_user uid (tables w) < int limit"
  using assms by (auto simp: check_user_repo_quota_def dbq_def count_owned_by_user_def act_simps dest!: select_Inr)

definition within_quota :: "uuid \<Rightarrow> nat \<Rightarrow> world \<Rightarrow> bool" where
  "within_quota uid limit w \<longleftrightarrow> owned_by_user uid (tables w) \<le> int limit"

lemma hoare_audit_quota: "hoare (within_quota uid limit) (audit_record e) (\<lambda>_. within_quota uid limit) (within_quota uid limit)"
  by (rule hoareI)
    (auto simp: within_quota_def audit_record_def and_then_def outcome_def ok_def execute_def sql_def Let_def owned_by_user_def
      split: if_splits sum.splits)

lemma read_only_dir: "read_only (create_repo st n)" "read_only (fork_repo st s n)"
  unfolding read_only_def
  by (auto simp: create_repo_def fork_repo_def validate_name_def and_then_def ensure_def ok_def err_def dir_exists_def
      run_dir_call_def split: option.split)

lemma hoare_insert_quota:
  assumes "owned_by_user uid d \<le> int limit" "repo_owner r = OwnerUser uid \<Longrightarrow> owned_by_user uid d < int limit"
  shows "hoare (\<lambda>w. tables w = d)
    (and_then (map_err h (insert_with_owner_grant r g)) (\<lambda>_. and_then (audit_record e) (\<lambda>_. ok z)))
    (\<lambda>_. within_quota uid limit) (within_quota uid limit)"
proof -
  have ins: "hoare (\<lambda>w. tables w = d) (insert_with_owner_grant r g) (\<lambda>_. within_quota uid limit) (within_quota uid limit)"
  proof (rule hoareI)
    fix w res w' assume "tables w = d" "insert_with_owner_grant r g w = (res, w')"
    then have "within_quota uid limit w'"
      using insert_grant_effect(2) assms by (fastforce simp: within_quota_def owned_by_user_def)
    then show "case res of Inr x \<Rightarrow> within_quota uid limit w' | Inl e \<Rightarrow> within_quota uid limit w'"
      by (simp split: sum.split)
  qed
  show ?thesis
    by (rule hoare_and_then [OF hoare_map_err [OF ins]], rule hoare_and_then [OF hoare_audit_quota], rule hoare_ok)
qed

lemmas quietly = quiet_def [THEN iffD1, THEN conjunct1]

lemma hoare_quota:
  assumes "rc_max_user_repos cfg = Some limit" "\<And>w. tables w = d \<Longrightarrow> E w"
  shows "hoare (\<lambda>w. tables w = d) (check_user_repo_quota cfg own)
     (\<lambda>_ w. tables w = d \<and> (own = OwnerUser uid \<longrightarrow> owned_by_user uid d < int limit)) E"
  by (rule hoare_reads [OF quietly [OF quiet_quota] assms(2)]) (use quota_Inr [OF _ assms(1)] in auto)

lemma hoare_create_quota:
  assumes "owned_by_user uid d \<le> int limit" "rc_max_user_repos cfg = Some limit"
  shows "hoare (\<lambda>w. tables w = d) (repository_create st cfg actor spec) (\<lambda>_. within_quota uid limit) (within_quota uid limit)"
proof -
  let ?T = "\<lambda>w. tables w = d" and ?Q = "within_quota uid limit"
  have E: "?Q w" if "?T w" for w using that assms(1) by (simp add: within_quota_def)
  have last: "hoare ?T
      (and_then (map_err SvGit (create_repo st n)) (\<lambda>_.
         and_then (map_err h (case team of Some t \<Rightarrow> insert_with_owner_team r t | None \<Rightarrow> insert_with_owner r v)) (\<lambda>_.
           and_then (repo_audit ev v i j) (\<lambda>_. ok z)))) (\<lambda>_. ?Q) ?Q"
    if "repo_owner r = OwnerUser uid \<Longrightarrow> owned_by_user uid d < int limit" for n h r team v ev i j z
    by (rule hoare_and_then [OF hoare_map_err [OF hoare_read [OF read_only_dir(1) E]]], assumption, cases team)
      (simp_all add: hoare_insert_quota [OF assms(1) that] insert_with_owner_team_def insert_with_owner_def repo_audit_def)
  show ?thesis
    unfolding repository_create_def
    by (rule hoare_and_then [OF hoare_read [OF quietly [OF quiet_acting_user] E]], assumption,
        rule hoare_and_then [OF hoare_read [OF quietly [OF quiet_basic(5)] E]], assumption,
        rule hoare_and_then [OF hoare_read [OF quietly [OF quiet_verified] E]], assumption,
        rule hoare_and_then [OF hoare_read [OF quietly [OF quiet_new_owner] E]], assumption,
        clarsimp split: prod.split,
        rule hoare_and_then [OF hoare_quota [where uid = uid, OF assms(2) E]], assumption,
        rule hoare_assume,
        rule hoare_and_then [OF hoare_read [OF read_only_fresh E]], assumption,
        unfold Let_def, rule last, simp)
qed

lemma hoare_fork_quota:
  assumes "owned_by_user uid d \<le> int limit" "rc_max_user_repos cfg = Some limit"
  shows "hoare (\<lambda>w. tables w = d) (repository_fork st cfg actor owner name) (\<lambda>_. within_quota uid limit) (within_quota uid limit)"
proof -
  let ?T = "\<lambda>w. tables w = d" and ?Q = "within_quota uid limit"
  have E: "?Q w" if "?T w" for w using that assms(1) by (simp add: within_quota_def)
  show ?thesis
    unfolding repository_fork_def Let_def
    by (rule hoare_and_then [OF hoare_read [OF quietly [OF quiet_acting_user] E]], assumption,
        rule hoare_and_then [OF hoare_read [OF quietly [OF quiet_authz [OF quiet_repository_by_name]] E]], assumption,
        rule hoare_and_then [OF hoare_read [OF quietly [OF quiet_authz [OF quiet_checks(1)]] E]], assumption,
        rule hoare_and_then [OF hoare_read [OF quietly [OF quiet_basic(5)] E]], assumption,
        rule hoare_and_then [OF hoare_quota [where uid = uid, OF assms(2) E]], assumption, rule hoare_assume,
        rule hoare_and_then [OF hoare_map_err [OF hoare_read [OF read_only_dir(2) E]]], assumption,
        rule hoare_and_then [OF hoare_read [OF read_only_fresh E]], assumption,
        unfold insert_with_owner_def repo_audit_def, rule hoare_insert_quota [OF assms(1)]) simp_all
qed

lemma hoare_update_quota:
  assumes "\<And>r. repo_owner (f r) = repo_owner r" "owned_by_user uid d \<le> int limit"
  shows "hoare (\<lambda>w. tables w = d) (execute (\<lambda>d. d\<lparr>t_repositories := update_where P f (t_repositories d)\<rparr>))
    (\<lambda>_. within_quota uid limit) (within_quota uid limit)"
proof -
  have "length (filter (\<lambda>r. repo_owner r = OwnerUser uid) (update_where P f rs))
      = length (filter (\<lambda>r. repo_owner r = OwnerUser uid) rs)" for rs
    by (induction rs) (simp_all add: update_where_def assms(1))
  then show ?thesis using assms(2)
    by (intro hoareI) (auto simp: execute_def sql_def Let_def within_quota_def owned_by_user_def split: sum.splits if_splits)
qed

lemma hoare_edits_quota:
  assumes "owned_by_user uid d \<le> int limit"
  shows "hoare (\<lambda>w. tables w = d) (repository_update_description actor owner name desc)
      (\<lambda>_. within_quota uid limit) (within_quota uid limit)"
    and "hoare (\<lambda>w. tables w = d) (repository_set_visibility actor owner name hidden)
      (\<lambda>_. within_quota uid limit) (within_quota uid limit)"
proof -
  let ?Q = "within_quota uid limit"
  have E: "?Q w" if "tables w = d" for w using that assms(1) by (simp add: within_quota_def)
  show "hoare (\<lambda>w. tables w = d) (repository_update_description actor owner name desc) (\<lambda>_. ?Q) ?Q"
    unfolding repository_update_description_def update_description_def dbq_def
    by (rule hoare_and_then [OF hoare_read [OF quietly [OF quiet_authz [OF quiet_repository_by_name]] E]], assumption,
        rule hoare_and_then [OF hoare_read [OF quietly [OF quiet_authz [OF quiet_checks(2)]] E]], assumption,
        rule hoare_map_err, rule hoare_update_quota [OF _ assms]) simp
  have audit: "hoare ?Q (case actor_user_id actor of Some v \<Rightarrow> repo_audit e v rid j | None \<Rightarrow> ok ()) (\<lambda>_. ?Q) ?Q" for e rid j
    by (cases "actor_user_id actor") (simp_all add: repo_audit_def hoare_audit_quota hoare_ok [of "\<lambda>_. ?Q"])
  show "hoare (\<lambda>w. tables w = d) (repository_set_visibility actor owner name hidden) (\<lambda>_. ?Q) ?Q"
    unfolding repository_set_visibility_def update_visibility_def dbq_def
    by (rule hoare_and_then [OF hoare_read [OF quietly [OF quiet_authz [OF quiet_repository_by_name]] E]], assumption,
        rule hoare_and_then [OF hoare_read [OF quietly [OF quiet_authz [OF quiet_checks(3)]] E]], assumption,
        rule hoare_and_then [OF hoare_map_err [OF hoare_update_quota [OF _ assms]]]) (simp, rule audit)
qed

lemma run_repo_op_quota:
  assumes "within_quota uid limit w" "rc_max_user_repos cfg = Some limit"
  shows "within_quota uid limit (run_repo_op st cfg op w)"
proof -
  have q: "owned_by_user uid (tables w) \<le> int limit" using assms(1) by (simp add: within_quota_def)
  have "within_quota uid limit (snd (m w))"
    if "hoare (\<lambda>v. tables v = tables w) m (\<lambda>_. within_quota uid limit) (within_quota uid limit)"
    for m :: "(service_error, 'x) act"
    using hoare_snd [OF that, of w] by simp
  note this [OF hoare_create_quota [OF q assms(2)]] this [OF hoare_fork_quota [OF q assms(2)]]
    this [OF hoare_edits_quota(1) [OF q]] this [OF hoare_edits_quota(2) [OF q]]
  then show ?thesis by (cases op) simp_all
qed

text \<open>The instance's limit on owned repositories: whatever sequence of calls is made and wherever
  a statement or the file system fails, an account that owned no more than the limit before owns no more after.\<close>

theorem repository_quota_respected:
  assumes "rc_max_user_repos cfg = Some limit" "owned_by_user uid (tables w) \<le> int limit"
  shows "owned_by_user uid (tables (fold (run_repo_op st cfg) ops w)) \<le> int limit"
proof -
  have "within_quota uid limit w \<Longrightarrow> within_quota uid limit (fold (run_repo_op st cfg) ops w)" for w
    by (induction ops arbitrary: w) (auto intro: run_repo_op_quota [OF _ assms(1)])
  then show ?thesis using assms(2) by (simp add: within_quota_def)
qed

section \<open>Deletion\<close>

text \<open>Every reference that reaches a repository, directly or through a row of it, has its target.\<close>

definition refers_in :: "('a \<Rightarrow> 'k) \<Rightarrow> 'a list \<Rightarrow> 'k list \<Rightarrow> bool" where
  "refers_in k rows ids = list_all (\<lambda>x. k x \<in> set ids) rows"

definition intact :: "db \<Rightarrow> bool" where
  "intact d =
     (let repos = map repo_id (t_repositories d); pulls = map pr_id (t_pull_requests d);
          issues = map issue_id (t_issues d); rules = map rule_id (t_rules d);
          releases = map release_id (t_releases d); hooks = map webhook_id (t_webhooks d) in
      (refers_in access_repository_id (t_repo_access d) repos \<and> refers_in fst (t_repo_sizes d) repos \<and>
       refers_in fst (t_counters d) repos \<and> refers_in status_repository_id (t_statuses d) repos \<and>
       refers_in dk_repository_id (t_deploy_keys d) repos \<and> refers_in lo_repository_id (t_lfs_objects d) repos \<and>
       refers_in ll_repository_id (t_lfs_locks d) repos) \<and>
      (refers_in pr_repository_id (t_pull_requests d) repos \<and>
       refers_in (\<lambda>p. ref_repository_id (pr_source p)) (t_pull_requests d) repos \<and>
       refers_in review_pull_request_id (t_reviews d) pulls \<and> refers_in rr_pull_request_id (t_review_requests d) pulls \<and>
       refers_in comment_pull_request_id (t_pr_comments d) pulls) \<and>
      (refers_in issue_repository_id (t_issues d) repos \<and> refers_in icomment_issue_id (t_issue_comments d) issues \<and>
       refers_in asg_issue_id (t_assignees d) issues \<and> refers_in label_repository_id (t_labels d) repos \<and>
       refers_in fst (t_issue_labels d) issues \<and> refers_in snd (t_issue_labels d) (map label_id (t_labels d)) \<and>
       refers_in milestone_repository_id (t_milestones d) repos \<and>
       refers_in issue_milestone_id (t_issues d) (None # map (Some \<circ> milestone_id) (t_milestones d))) \<and>
      (refers_in rule_repository_id (t_rules d) repos \<and> refers_in fst (t_allowlist d) rules \<and>
       refers_in release_repository_id (t_releases d) repos \<and> refers_in ra_release_id (t_release_assets d) releases \<and>
       refers_in webhook_repository_id (t_webhooks d) repos \<and> refers_in fst (t_webhook_secrets d) hooks \<and>
       refers_in wd_webhook_id (t_deliveries d) hooks))"

lemma cascade_fields:
  "t_repositories (cascade_repository rid d) = delete_where (\<lambda>r. repo_id r = rid) (t_repositories d)"
  "t_repo_access (cascade_repository rid d) = delete_where (\<lambda>a. access_repository_id a = rid) (t_repo_access d)"
  "t_repo_sizes (cascade_repository rid d) = delete_where (\<lambda>x. fst x = rid) (t_repo_sizes d)"
  "t_counters (cascade_repository rid d) = delete_where (\<lambda>x. fst x = rid) (t_counters d)"
  "t_statuses (cascade_repository rid d) = delete_where (\<lambda>x. status_repository_id x = rid) (t_statuses d)"
  "t_deploy_keys (cascade_repository rid d) = delete_where (\<lambda>x. dk_repository_id x = rid) (t_deploy_keys d)"
  "t_lfs_objects (cascade_repository rid d) = delete_where (\<lambda>x. lo_repository_id x = rid) (t_lfs_objects d)"
  "t_lfs_locks (cascade_repository rid d) = delete_where (\<lambda>x. ll_repository_id x = rid) (t_lfs_locks d)"
  "t_pull_requests (cascade_repository rid d) = delete_where (\<lambda>p. pr_repository_id p = rid \<or> ref_repository_id (pr_source p) = rid) (t_pull_requests d)"
  "t_reviews (cascade_repository rid d) = delete_where (\<lambda>x. review_pull_request_id x \<in> set (map pr_id (filter (\<lambda>p. pr_repository_id p = rid \<or> ref_repository_id (pr_source p) = rid) (t_pull_requests d)))) (t_reviews d)"
  "t_review_requests (cascade_repository rid d) = delete_where (\<lambda>x. rr_pull_request_id x \<in> set (map pr_id (filter (\<lambda>p. pr_repository_id p = rid \<or> ref_repository_id (pr_source p) = rid) (t_pull_requests d)))) (t_review_requests d)"
  "t_pr_comments (cascade_repository rid d) = delete_where (\<lambda>x. comment_pull_request_id x \<in> set (map pr_id (filter (\<lambda>p. pr_repository_id p = rid \<or> ref_repository_id (pr_source p) = rid) (t_pull_requests d)))) (t_pr_comments d)"
  "t_issues (cascade_repository rid d) = update_where (\<lambda>x. \<exists>m\<in>set (map milestone_id (filter (\<lambda>x. milestone_repository_id x = rid) (t_milestones d))). issue_milestone_id x = Some m) (\<lambda>x. x\<lparr>issue_milestone_id := None\<rparr>) (delete_where (\<lambda>x. issue_repository_id x = rid) (t_issues d))"
  "t_issue_comments (cascade_repository rid d) = delete_where (\<lambda>x. icomment_issue_id x \<in> set (map issue_id (filter (\<lambda>x. issue_repository_id x = rid) (t_issues d)))) (t_issue_comments d)"
  "t_assignees (cascade_repository rid d) = delete_where (\<lambda>x. asg_issue_id x \<in> set (map issue_id (filter (\<lambda>x. issue_repository_id x = rid) (t_issues d)))) (t_assignees d)"
  "t_labels (cascade_repository rid d) = delete_where (\<lambda>x. label_repository_id x = rid) (t_labels d)"
  "t_issue_labels (cascade_repository rid d) = delete_where (\<lambda>x. fst x \<in> set (map issue_id (filter (\<lambda>x. issue_repository_id x = rid) (t_issues d))) \<or> snd x \<in> set (map label_id (filter (\<lambda>x. label_repository_id x = rid) (t_labels d)))) (t_issue_labels d)"
  "t_milestones (cascade_repository rid d) = delete_where (\<lambda>x. milestone_repository_id x = rid) (t_milestones d)"
  "t_rules (cascade_repository rid d) = delete_where (\<lambda>x. rule_repository_id x = rid) (t_rules d)"
  "t_allowlist (cascade_repository rid d) = delete_where (\<lambda>x. fst x \<in> set (map rule_id (filter (\<lambda>x. rule_repository_id x = rid) (t_rules d)))) (t_allowlist d)"
  "t_releases (cascade_repository rid d) = delete_where (\<lambda>x. release_repository_id x = rid) (t_releases d)"
  "t_release_assets (cascade_repository rid d) = delete_where (\<lambda>x. ra_release_id x \<in> set (map release_id (filter (\<lambda>x. release_repository_id x = rid) (t_releases d)))) (t_release_assets d)"
  "t_webhooks (cascade_repository rid d) = delete_where (\<lambda>x. webhook_repository_id x = rid) (t_webhooks d)"
  "t_webhook_secrets (cascade_repository rid d) = delete_where (\<lambda>x. fst x \<in> set (map webhook_id (filter (\<lambda>x. webhook_repository_id x = rid) (t_webhooks d)))) (t_webhook_secrets d)"
  "t_deliveries (cascade_repository rid d) = delete_where (\<lambda>x. wd_webhook_id x \<in> set (map webhook_id (filter (\<lambda>x. webhook_repository_id x = rid) (t_webhooks d)))) (t_deliveries d)"
  by (simp_all add: cascade_repository_def Let_def)

lemma refers_in_delete:
  assumes "refers_in k rows (map i targets)" "\<And>x. k x \<in> set (map i (filter Q targets)) \<Longrightarrow> P x"
  shows "refers_in k (delete_where P rows) (map i (delete_where Q targets))"
  using assms by (force simp: refers_in_def delete_where_def list_all_iff)

lemma refers_in_delete_key:
  assumes "refers_in k rows (map i targets)" "\<And>x. k x = rid \<Longrightarrow> P x"
  shows "refers_in k (delete_where P rows) (map i (delete_where (\<lambda>y. i y = rid) targets))"
  by (rule refers_in_delete [OF assms(1)]) (use assms(2) in auto)

lemma refers_in_update:
  "refers_in issue_repository_id (update_where P (\<lambda>x. x\<lparr>issue_milestone_id := m\<rparr>) rows) ids = refers_in issue_repository_id rows ids"
  "map issue_id (update_where P (\<lambda>x. x\<lparr>issue_milestone_id := m\<rparr>) rows) = map issue_id rows"
  by (induction rows) (simp_all add: refers_in_def update_where_def)

lemma refers_in_forget:
  assumes "refers_in issue_milestone_id rows (None # map (Some \<circ> milestone_id) ms)"
  shows "refers_in issue_milestone_id
    (update_where (\<lambda>x. \<exists>m\<in>set (map milestone_id (filter Q ms)). issue_milestone_id x = Some m)
       (\<lambda>x. x\<lparr>issue_milestone_id := None\<rparr>) (delete_where P rows))
    (None # map (Some \<circ> milestone_id) (delete_where Q ms))"
  using assms by (force simp: refers_in_def update_where_def delete_where_def list_all_iff)

lemma cascade_intact:
  assumes "intact d"
  shows "intact (cascade_repository rid d)"
  unfolding intact_def Let_def cascade_fields
  by (insert assms [unfolded intact_def Let_def], elim conjE, intro conjI, unfold refers_in_update,
      (rule refers_in_delete_key refers_in_delete, assumption, (assumption | erule disjI1 | erule disjI2))+,
      rule refers_in_forget, assumption,
      (rule refers_in_delete_key refers_in_delete, assumption, (assumption | erule disjI1 | erule disjI2))+)

lemma delete_repo_Inr:
  assumes "delete_repo st n w = (Inr u, w')"
  shows "w' = w\<lparr>git_calls := git_calls w @ [GitRemove n]\<rparr>"
  using assms
  by (auto simp: delete_repo_def validate_name_def and_then_def ensure_def ok_def err_def dir_exists_def remove_dir_def
      split: if_splits option.splits prod.splits)

lemma same_but_audit: "\<exists>log. d = d\<lparr>t_audit := log\<rparr>"
  by (rule exI [of _ "t_audit d"]) simp

lemma audit_only:
  assumes "audit_record e w = (r, w')"
  shows "git_calls w' = git_calls w \<and> (\<exists>log. tables w' = (tables w)\<lparr>t_audit := log\<rparr>)"
  using assms same_but_audit
  by (auto simp: audit_record_def and_then_def outcome_def ok_def execute_def sql_def Let_def split: if_splits sum.splits)

lemma danger_zone_Inr:
  "check_danger_zone actor r w = (Inr u, w') \<Longrightarrow>
     can_manage_repository_danger_zone actor r (stored_access (tables w) actor r) = Inr ()"
  by (auto simp: check_danger_zone_def act_simps decide_Inr dest!: reads_value [OF reads_access_for])

lemma delete_steps:
  assumes "repository_delete st actor owner name w = (Inr u, w')"
  obtains r where "named_repository owner name (tables w) = Some r"
    "can_manage_repository_danger_zone actor r (stored_access (tables w) actor r) = Inr ()"
    "git_calls w' = git_calls w @ [GitRemove (git_identity owner name)]"
    "\<exists>log. tables w' = (cascade_repository (repo_id r) (tables w))\<lparr>t_audit := log\<rparr>"
proof -
  obtain r w1 w2 w3 w4 where s: "repository_by_name owner name w = (Inr r, w1)" "check_danger_zone actor r w1 = (Inr (), w2)"
      "delete_repo st (git_identity owner name) w2 = (Inr (), w3)" "delete_repository_row (repo_id r) w3 = (Inr (), w4)"
      "(case actor_user_id actor of Some uid \<Rightarrow> repo_audit ''repository.delete'' uid (repo_id r)
           (JObj [(''identity'', JStr (git_identity owner name))]) | None \<Rightarrow> ok ()) w4 = (Inr u :: service_error + unit, w')"
    using assms unfolding repository_delete_def authz_def dbq_def by (auto simp: act_simps)
  have t1: "tables w1 = tables w \<and> git_calls w1 = git_calls w" by (rule quietD [OF quiet_repository_by_name s(1)])
  have t2: "tables w2 = tables w1 \<and> git_calls w2 = git_calls w1" by (rule quietD [OF quiet_checks(3) s(2)])
  have t3: "w3 = w2\<lparr>git_calls := git_calls w2 @ [GitRemove (git_identity owner name)]\<rparr>" by (rule delete_repo_Inr [OF s(3)])
  have t4: "tables w4 = cascade_repository (repo_id r) (tables w3) \<and> git_calls w4 = git_calls w3"
    using s(4) by (auto simp: delete_repository_row_def execute_def sql_def Let_def split: if_splits)
  have t5: "git_calls w' = git_calls w4 \<and> (\<exists>log. tables w' = (tables w4)\<lparr>t_audit := log\<rparr>)"
  proof (cases "actor_user_id actor")
    case None
    then have "w' = w4" using s(5) by (simp add: ok_def)
    then show ?thesis using same_but_audit by simp
  next
    case (Some uid)
    then show ?thesis using s(5) audit_only by (simp add: repo_audit_def)
  qed
  show thesis
    by (rule that [OF repository_by_name_Inr [OF s(1)]]) (use danger_zone_Inr [OF s(2)] t1 t2 t3 t4 t5 in simp_all)
qed

text \<open>The rows that belong to other repositories, in the tables that name a repository.\<close>

definition rows_of_others where
  "rows_of_others rid d =
     ((filter (\<lambda>x. repo_id x \<noteq> rid) (t_repositories d), filter (\<lambda>x. access_repository_id x \<noteq> rid) (t_repo_access d),
       filter (\<lambda>x. fst x \<noteq> rid) (t_repo_sizes d), filter (\<lambda>x. fst x \<noteq> rid) (t_counters d),
       filter (\<lambda>x. status_repository_id x \<noteq> rid) (t_statuses d), filter (\<lambda>x. dk_repository_id x \<noteq> rid) (t_deploy_keys d)),
      (filter (\<lambda>x. lo_repository_id x \<noteq> rid) (t_lfs_objects d), filter (\<lambda>x. ll_repository_id x \<noteq> rid) (t_lfs_locks d),
       filter (\<lambda>p. pr_repository_id p \<noteq> rid \<and> ref_repository_id (pr_source p) \<noteq> rid) (t_pull_requests d),
       map (\<lambda>x. (issue_id x, issue_number x, issue_state x)) (filter (\<lambda>x. issue_repository_id x \<noteq> rid) (t_issues d)),
       filter (\<lambda>x. label_repository_id x \<noteq> rid) (t_labels d), filter (\<lambda>x. milestone_repository_id x \<noteq> rid) (t_milestones d)),
      (filter (\<lambda>x. rule_repository_id x \<noteq> rid) (t_rules d), filter (\<lambda>x. release_repository_id x \<noteq> rid) (t_releases d),
       filter (\<lambda>x. webhook_repository_id x \<noteq> rid) (t_webhooks d)))"

lemma rows_of_others_audit: "rows_of_others rid (d\<lparr>t_audit := entries\<rparr>) = rows_of_others rid d"
  by (simp add: rows_of_others_def)

lemma cascade_spares_others: "rows_of_others rid (cascade_repository rid d) = rows_of_others rid d"
proof -
  have issues: "map f (filter (\<lambda>x. issue_repository_id x \<noteq> rid)
      (update_where P (\<lambda>x. x\<lparr>issue_milestone_id := None\<rparr>) (delete_where (\<lambda>x. issue_repository_id x = rid) rows)))
    = map f (filter (\<lambda>x. issue_repository_id x \<noteq> rid) rows)"
    if "\<And>x. f (x\<lparr>issue_milestone_id := None\<rparr>) = f x" for f :: "issue \<Rightarrow> uuid \<times> int \<times> issue_state" and P rows
    using that by (induction rows) (auto simp: update_where_def delete_where_def)
  show ?thesis unfolding rows_of_others_def cascade_fields by (simp add: issues [unfolded delete_where_def] delete_where_def)
qed

text \<open>C24. Deletion. A call that succeeds was made by someone the danger zone is open to and removes the
  directory and the repository's row. If every reference under a foreign key had its target
  before, none is left that refers to the repository, directly or through another row of it
  (\<open>intact\<close>: no such row names a repository, pull request, issue, rule, release or webhook that is not
  there). The rows of other repositories stay, a pull request from this one excepted, and so do watches
  notifications and the origin a fork names, which no foreign key ties to a repository and which go on naming it.\<close>

theorem deleted_repository_leaves_nothing:
  assumes "repository_delete st actor owner name w = (Inr u, w')" "intact (tables w)"
  shows "\<exists>r. named_repository owner name (tables w) = Some r \<and>
    can_manage_repository_danger_zone actor r (stored_access (tables w) actor r) = Inr () \<and>
    git_identity owner name \<notin> set (live_dirs st (git_calls w')) \<and>
    t_repositories (tables w') = filter (\<lambda>x. repo_id x \<noteq> repo_id r) (t_repositories (tables w)) \<and>
    intact (tables w') \<and>
    rows_of_others (repo_id r) (tables w') = rows_of_others (repo_id r) (tables w) \<and>
    t_watches (tables w') = t_watches (tables w) \<and> t_notifications (tables w') = t_notifications (tables w)"
proof (rule delete_steps [OF assms(1)])
  fix r
  assume found: "named_repository owner name (tables w) = Some r"
      "can_manage_repository_danger_zone actor r (stored_access (tables w) actor r) = Inr ()"
    and git: "git_calls w' = git_calls w @ [GitRemove (git_identity owner name)]"
    and rows: "\<exists>log. tables w' = (cascade_repository (repo_id r) (tables w))\<lparr>t_audit := log\<rparr>"
  from rows obtain log where t: "tables w' = (cascade_repository (repo_id r) (tables w))\<lparr>t_audit := log\<rparr>" ..
  have "intact (d\<lparr>t_audit := log\<rparr>) = intact d" for d by (simp add: intact_def)
  moreover have "rows_of_others (repo_id r) (tables w') = rows_of_others (repo_id r) (tables w)"
    unfolding t rows_of_others_audit by (rule cascade_spares_others)
  moreover have "t_watches (tables w') = t_watches (tables w)" "t_notifications (tables w') = t_notifications (tables w)"
    unfolding t by (simp_all add: cascade_repository_def Let_def)
  ultimately show ?thesis
    using found git t cascade_intact [OF assms(2), of "repo_id r"]
    by (intro exI [of _ r]) (simp add: live_dirs_snoc cascade_fields delete_where_def)
qed

section \<open>A small instance\<close>

text \<open>Alice's repository, and bob's fork of it with a pull request back.\<close>

definition fork_world :: world where
  "fork_world = pr_world\<lparr>tables := (tables pr_world)\<lparr>
     t_repositories := t_repositories (tables pr_world) @
       [\<lparr>repo_id = 2, repo_owner = OwnerUser 2, repo_name = ''proj'', repo_description = None,
         repo_visibility = Public, repo_forked_from = Some 1\<rparr>],
     t_repo_access := t_repo_access (tables pr_world) @
       [\<lparr>access_repository_id = 2, access_subject = SubjectUser 2, access_role = ROwner\<rparr>],
     t_pull_requests := map (\<lambda>p. p\<lparr>pr_source := \<lparr>ref_repository_id = 2, ref_branch = ''fix''\<rparr>\<rparr>)
       (t_pull_requests (tables pr_world))\<rparr>\<rparr>"

definition two_dirs :: repo_store where
  "two_dirs = \<lparr>rs_initial = [''alice/proj'', ''bob/proj''], rs_fails = (\<lambda>_ _. None)\<rparr>"

definition open_house :: repo_config where
  "open_house = \<lparr>rc_registration = default_registration_policy, rc_max_user_repos = Some 2\<rparr>"

definition plain_new :: new_repository where
  "plain_new = \<lparr>nrep_name = ''new'', nrep_description = None, nrep_private = True, nrep_owner = None\<rparr>"

theorem repository_rows_keep_directories_witness:
  "rows_backed two_dirs (fold (run_repo_op two_dirs open_house)
     [ROCreate (ActorUser 1) plain_new, ROVisibility (ActorUser 2) ''bob'' ''proj'' True] fork_world)"
proof (rule repository_rows_keep_directories)
  show "rows_backed two_dirs fork_world" by code_simp
  show "distinct (map org_id (t_organizations (tables fork_world)))" by code_simp
qed

theorem repository_quota_respected_witness:
  "owned_by_user 1 (tables (fold (run_repo_op two_dirs open_house)
     [ROCreate (ActorUser 1) plain_new, ROCreate (ActorUser 1) (plain_new\<lparr>nrep_name := ''third''\<rparr>)] fork_world)) \<le> int 2"
  by (rule repository_quota_respected) (code_simp, code_simp)

theorem deleted_repository_leaves_nothing_witness:
  "\<exists>r. named_repository ''bob'' ''proj'' (tables fork_world) = Some r \<and>
    intact (tables (snd (repository_delete two_dirs (ActorUser 2) ''bob'' ''proj'' fork_world)))"
proof -
  have run: "repository_delete two_dirs (ActorUser 2) ''bob'' ''proj'' fork_world
      = (Inr (), snd (repository_delete two_dirs (ActorUser 2) ''bob'' ''proj'' fork_world))"
    by (rule prod_eqI) code_simp+
  have "intact (tables fork_world)" by code_simp
  from deleted_repository_leaves_nothing [OF run this] show ?thesis by blast
qed

section \<open>Where the two systems drift apart\<close>

text \<open>If the insert of a new repository fails after its directory was made, the name is taken: the same call
  again is refused, though no row exists. If the row's deletion fails after the directory went, the row stays
  and no later call can delete it. And a fork that is deleted takes the pull requests made from it along,
  out of the repository they were made to.\<close>

theorem stores_drift_apart:
  "(let w = snd (repository_create two_dirs open_house (ActorUser 1) plain_new
        (fork_world\<lparr>statement_fails := [False, False, False, True]\<rparr>)) in
    t_repositories (tables w) = t_repositories (tables fork_world) \<and>
    fst (repository_create two_dirs open_house (ActorUser 1) plain_new (w\<lparr>statement_fails := []\<rparr>))
      = Inl (SvGit (GitAlreadyExists ''alice/new'')))"
  "(let w = snd (repository_delete two_dirs (ActorUser 2) ''bob'' ''proj''
        (fork_world\<lparr>statement_fails := [False, False, False, False, True]\<rparr>)) in
    t_repositories (tables w) = t_repositories (tables fork_world) \<and> \<not> rows_backed two_dirs w \<and>
    fst (repository_delete two_dirs (ActorUser 2) ''bob'' ''proj'' (w\<lparr>statement_fails := []\<rparr>))
      = Inl (SvGit (GitNotFound ''bob/proj'')))"
  "(let w = snd (repository_delete two_dirs (ActorUser 2) ''bob'' ''proj'' fork_world) in
    t_pull_requests (tables fork_world) \<noteq> [] \<and> t_pull_requests (tables w) = [] \<and>
    named_repository ''alice'' ''proj'' (tables w) \<noteq> None)"
  by code_simp+

end
