(* ===== verification/Request_Guards.thy ===== *)
theory Request_Guards
  imports Webhooks Access_Services
begin

text \<open>
  What stands before the handlers: the check of a request's origin
  (\<^verbatim>\<open>edda-app/src/security/origin.rs\<close>) and the address a request is counted under
  (\<^verbatim>\<open>edda-app/src/rate_limit.rs\<close>). A request is its method and its headers, the values of each name
  in order, names in lower case; the URL parser and the test whether a network contains an address are
  parameters. The counting itself is the library's.
\<close>

section \<open>Headers\<close>

type_synonym headers = "(string \<times> string) list"

text \<open>\<^verbatim>\<open>HeaderValue::to_str\<close> reads visible ASCII, blanks and tabs only.\<close>

definition header_str :: "string \<Rightarrow> headers \<Rightarrow> string option" where
  "header_str name hs =
     Option.bind (map_of hs name) (\<lambda>v.
       if list_all (\<lambda>c. code c = 9 \<or> (32 \<le> code c \<and> code c < 127)) v then Some v else None)"

section \<open>Origins\<close>

text \<open>A parsed URL; a port that is the scheme's default is none.\<close>

record web_url =
  wu_scheme :: string
  wu_host :: "string option"
  wu_port :: "nat option"

definition normalize_origin :: "(string \<Rightarrow> web_url option) \<Rightarrow> string \<Rightarrow> string option" where
  "normalize_origin parse raw =
     Option.bind (parse (trim raw)) (\<lambda>url.
       if wu_scheme url \<noteq> ''http'' \<and> wu_scheme url \<noteq> ''https'' then None
       else Option.bind (wu_host url) (\<lambda>host.
         Some (case wu_port url of
                 Some port \<Rightarrow> wu_scheme url @ ''://'' @ host @ '':'' @ show_nat port
               | None \<Rightarrow> wu_scheme url @ ''://'' @ host)))"

fun add_origins :: "(string \<Rightarrow> web_url option) \<Rightarrow> string list \<Rightarrow> string list \<Rightarrow> string list" where
  "add_origins parse [] configured = configured"
| "add_origins parse (raw # raws) configured =
     (case normalize_origin parse raw of
        Some origin \<Rightarrow> add_origins parse raws (if origin \<in> set configured then configured else configured @ [origin])
      | None \<Rightarrow> add_origins parse raws configured)"

definition new_origin_policy :: "(string \<Rightarrow> web_url option) \<Rightarrow> string \<Rightarrow> string list \<Rightarrow> string list" where
  "new_origin_policy parse external_url trusted = add_origins parse (external_url # trusted) []"

text \<open>\<^verbatim>\<open>split_once("://")\<close>, and \<^verbatim>\<open>trim_end_matches\<close>, which drops the suffix as often as it occurs.\<close>

fun after_scheme :: "string \<Rightarrow> string option" where
  "after_scheme [] = None"
| "after_scheme (c # cs) = (if starts_with (c # cs) ''://'' then Some (drop 3 (c # cs)) else after_scheme cs)"

function trim_end_matches :: "string \<Rightarrow> string \<Rightarrow> string" where
  "trim_end_matches p s =
     (if p \<noteq> [] \<and> ends_with s p then trim_end_matches p (take (length s - length p) s) else s)"
  by pat_completeness auto
termination
proof (relation "measure (\<lambda>(p, s). length s)")
  fix p s :: string assume "p \<noteq> [] \<and> ends_with s p"
  then show "((p, take (length s - length p) s), (p, s)) \<in> measure (\<lambda>(p, s). length s)"
    by (cases p) (auto simp: ends_with_def)
qed simp

declare trim_end_matches.simps [simp del]

definition strip_default :: "string \<Rightarrow> string" where
  "strip_default authority = trim_end_matches '':80'' (trim_end_matches '':443'' authority)"

definition origin_matches_host :: "string \<Rightarrow> string \<Rightarrow> bool" where
  "origin_matches_host origin host =
     (let authority = (case after_scheme origin of Some rest \<Rightarrow> rest | None \<Rightarrow> origin) in
      eq_ignore_ascii_case authority host \<or> eq_ignore_ascii_case (strip_default authority) (strip_default host))"

definition origin_allowed :: "(string \<Rightarrow> web_url option) \<Rightarrow> string list \<Rightarrow> headers \<Rightarrow> bool" where
  "origin_allowed parse configured hs =
     (case header_str ''origin'' hs of
        Some origin \<Rightarrow>
          if eq_ignore_ascii_case origin ''null'' then False
          else (case normalize_origin parse origin of
                  None \<Rightarrow> False
                | Some normalized \<Rightarrow>
                    list_ex (\<lambda>allowed. eq_ignore_ascii_case allowed normalized) configured
                    \<or> (case header_str ''host'' hs of Some host \<Rightarrow> origin_matches_host normalized host | None \<Rightarrow> False))
      | None \<Rightarrow>
          (case header_str ''sec-fetch-site'' hs of
             Some site \<Rightarrow> site = ''same-origin'' \<or> site = ''none''
           | None \<Rightarrow> True))"

definition is_safe_method :: "string \<Rightarrow> bool" where
  "is_safe_method m = (m \<in> set [''GET'', ''HEAD'', ''OPTIONS'', ''TRACE''])"

definition is_cookie_authenticated :: "headers \<Rightarrow> bool" where
  "is_cookie_authenticated hs \<longleftrightarrow> map_of hs ''cookie'' \<noteq> None \<and> map_of hs ''authorization'' = None"

text \<open>Whether the request goes on to its handler; if not, it is answered with 403.\<close>

definition enforce_origin :: "(string \<Rightarrow> web_url option) \<Rightarrow> string list \<Rightarrow> string \<Rightarrow> headers \<Rightarrow> bool" where
  "enforce_origin parse configured m hs \<longleftrightarrow>
     is_safe_method m \<or> \<not> is_cookie_authenticated hs \<or> origin_allowed parse configured hs"

section \<open>Addresses as text\<close>

text \<open>The parser of \<^verbatim>\<open>std::net\<close>: a reader returns what it read and the rest, or nothing.\<close>

definition digit_of :: "nat \<Rightarrow> char \<Rightarrow> nat option" where
  "digit_of radix c =
     (let v = (if is_ascii_digit c then code c - 48
               else if 97 \<le> code c \<and> code c \<le> 122 then code c - 87
               else if 65 \<le> code c \<and> code c \<le> 90 then code c - 55 else 36) in
      if v < radix then Some v else None)"

fun digits_from :: "nat \<Rightarrow> nat \<Rightarrow> nat \<Rightarrow> nat \<Rightarrow> nat \<Rightarrow> string \<Rightarrow> (nat \<times> nat \<times> string) option" where
  "digits_from radix max_value max_digits v n [] = Some (v, n, [])"
| "digits_from radix max_value max_digits v n (c # cs) =
     (case digit_of radix c of
        None \<Rightarrow> Some (v, n, c # cs)
      | Some k \<Rightarrow>
          if max_value < v * radix + k \<or> max_digits < Suc n then None
          else digits_from radix max_value max_digits (v * radix + k) (Suc n) cs)"

definition read_number :: "nat \<Rightarrow> nat \<Rightarrow> nat \<Rightarrow> bool \<Rightarrow> string \<Rightarrow> (nat \<times> string) option" where
  "read_number radix max_value max_digits zero_prefix s =
     Option.bind (digits_from radix max_value max_digits 0 0 s) (\<lambda>(v, n, rest).
       if n = 0 \<or> (\<not> zero_prefix \<and> starts_with s ''0'' \<and> 1 < n) then None else Some (v, rest))"

definition read_separated :: "char \<Rightarrow> nat \<Rightarrow> (string \<Rightarrow> ('a \<times> string) option) \<Rightarrow> string \<Rightarrow> ('a \<times> string) option" where
  "read_separated d i inner s =
     (if i = 0 then inner s else if starts_with s [d] then inner (drop 1 s) else None)"

definition read_octet :: "nat \<Rightarrow> string \<Rightarrow> (nat \<times> string) option" where
  "read_octet i = read_separated (CHR ''.'') i (read_number 10 255 3 False)"

definition read_ipv4 :: "string \<Rightarrow> (ipv4 \<times> string) option" where
  "read_ipv4 s =
     Option.bind (read_octet 0 s) (\<lambda>(a, s). Option.bind (read_octet 1 s) (\<lambda>(b, s).
       Option.bind (read_octet 2 s) (\<lambda>(c, s). Option.bind (read_octet 3 s) (\<lambda>(d, s).
         Some (\<lparr>oct0 = of_nat a, oct1 = of_nat b, oct2 = of_nat c, oct3 = of_nat d\<rparr>, s)))))"

text \<open>Groups from the i-th on, with how many there is still room for; an IPv4 address takes two.\<close>

fun read_groups :: "nat \<Rightarrow> nat \<Rightarrow> 16 word list \<Rightarrow> string \<Rightarrow> 16 word list \<times> bool \<times> string" where
  "read_groups 0 i acc s = (acc, False, s)"
| "read_groups (Suc room) i acc s =
     (case (if room \<noteq> 0 then read_separated (CHR '':'') i read_ipv4 s else None) of
        Some (v4, rest) \<Rightarrow>
          (acc @ [push_bit 8 (ucast (oct0 v4)) + ucast (oct1 v4), push_bit 8 (ucast (oct2 v4)) + ucast (oct3 v4)], True, rest)
      | None \<Rightarrow>
          (case read_separated (CHR '':'') i (read_number 16 65535 4 True) s of
             Some (g, rest) \<Rightarrow> read_groups room (Suc i) (acc @ [of_nat g]) rest
           | None \<Rightarrow> (acc, False, s)))"

definition read_ipv6 :: "string \<Rightarrow> (16 word list \<times> string) option" where
  "read_ipv6 s =
     (case read_groups 8 0 [] s of
        (head, ipv4, rest) \<Rightarrow>
          if length head = 8 then Some (head, rest)
          else if ipv4 \<or> \<not> starts_with rest ''::'' then None
          else (case read_groups (8 - (length head + 1)) 0 [] (drop 2 rest) of
                  (tail, _, rest') \<Rightarrow> Some (head @ replicate (8 - length head - length tail) 0 @ tail, rest')))"

definition parse_ip :: "string \<Rightarrow> ip_addr option" where
  "parse_ip s =
     (case read_ipv4 s of
        Some (v4, rest) \<Rightarrow> if rest = [] then Some (V4 v4) else None
      | None \<Rightarrow>
          Option.bind (read_ipv6 s) (\<lambda>(g, rest).
            if rest = [] then Some (V6 \<lparr>seg0 = g ! 0, seg1 = g ! 1, seg2 = g ! 2, seg3 = g ! 3,
                                       seg4 = g ! 4, seg5 = g ! 5, seg6 = g ! 6, seg7 = g ! 7\<rparr>)
            else None))"

section \<open>The client's address\<close>

text \<open>\<^verbatim>\<open>trim_matches('"')\<close> and \<^verbatim>\<open>rsplit_once\<close>.\<close>

definition trim_quotes :: "string \<Rightarrow> string" where
  "trim_quotes s = rev (dropWhile (\<lambda>c. code c = 34) (rev (dropWhile (\<lambda>c. code c = 34) s)))"

definition rsplit_once :: "char \<Rightarrow> string \<Rightarrow> (string \<times> string) option" where
  "rsplit_once d s = map_option (\<lambda>(b, a). (rev a, rev b)) (split_once d (rev s))"

definition forwarded_host :: "string \<Rightarrow> string" where
  "forwarded_host raw =
     (let val = trim_quotes (trim raw) in
      case strip_prefix ''['' val of
        Some rest \<Rightarrow> (case split_once (CHR '']'') rest of Some (inner, _) \<Rightarrow> inner | None \<Rightarrow> rest)
      | None \<Rightarrow>
          (case rsplit_once (CHR '':'') val of
             Some (h, port) \<Rightarrow> if CHR '':'' \<notin> set h \<and> list_all is_ascii_digit port then h else val
           | None \<Rightarrow> val))"

fun forwarded_pairs :: "string list \<Rightarrow> ip_addr option" where
  "forwarded_pairs [] = None"
| "forwarded_pairs (pair # pairs) =
     Option.bind (split_once (CHR ''='') pair) (\<lambda>(key, val).
       if eq_ignore_ascii_case (trim key) ''for'' then parse_ip (forwarded_host val)
       else forwarded_pairs pairs)"

definition first_forwarded_for :: "string \<Rightarrow> ip_addr option" where
  "first_forwarded_for v = forwarded_pairs (split_on (CHR '';'') (hd (split_on (CHR '','') v)))"

definition client_ip :: "headers \<Rightarrow> ip_addr option" where
  "client_ip hs =
     (case Option.bind (header_str ''forwarded'' hs) first_forwarded_for of
        Some ip \<Rightarrow> Some ip
      | None \<Rightarrow>
          (case Option.bind (header_str ''x-forwarded-for'' hs) (\<lambda>v. parse_ip (trim (hd (split_on (CHR '','') v)))) of
             Some ip \<Rightarrow> Some ip
           | None \<Rightarrow> Option.bind (header_str ''x-real-ip'' hs) (\<lambda>v. parse_ip (trim v))))"

definition anonymous_bucket :: ip_addr where
  "anonymous_bucket = V4 \<lparr>oct0 = 0, oct1 = 0, oct2 = 0, oct3 = 0\<rparr>"

definition extract_key :: "('n \<Rightarrow> ip_addr \<Rightarrow> bool) \<Rightarrow> 'n list \<Rightarrow> ip_addr option \<Rightarrow> headers \<Rightarrow> ip_addr" where
  "extract_key net_contains trusted peer hs =
     (case peer of
        None \<Rightarrow> anonymous_bucket
      | Some ip \<Rightarrow>
          if list_ex (\<lambda>net. net_contains net ip) trusted
          then (case client_ip hs of Some client \<Rightarrow> client | None \<Rightarrow> ip)
          else ip)"

section \<open>What the guards guarantee\<close>

lemma parsed_addresses:
  "parse_ip ''192.0.2.60'' = Some (V4 \<lparr>oct0 = 192, oct1 = 0, oct2 = 2, oct3 = 60\<rparr>)"
  "client_ip [(''forwarded'', ''for=192.0.2.60;proto=http, for=198.51.100.17'')] = parse_ip ''192.0.2.60''"
  "client_ip [(''forwarded'', ''for=1.2.3.4:80'')] = parse_ip ''1.2.3.4''"
  by code_simp+

lemma set_add_origins:
  "set (add_origins parse raws configured) = set configured \<union> {k. \<exists>c\<in>set raws. normalize_origin parse c = Some k}"
  by (induction raws arbitrary: configured) (auto split: option.split)

text \<open>A cookie alone changes nothing from a foreign page: where the request's origin is neither a configured
  one nor the host the request was sent to, a request that may change state and brings no other credential
  than a cookie is refused.\<close>

theorem foreign_origin_refused:
  assumes "\<not> is_safe_method m" "is_cookie_authenticated hs" "header_str ''origin'' hs = Some o1"
    "\<And>n c k. normalize_origin parse o1 = Some n \<Longrightarrow> c \<in> set (external_url # trusted) \<Longrightarrow>
       normalize_origin parse c = Some k \<Longrightarrow> \<not> eq_ignore_ascii_case k n"
    "\<And>n h. normalize_origin parse o1 = Some n \<Longrightarrow> header_str ''host'' hs = Some h \<Longrightarrow> \<not> origin_matches_host n h"
  shows "\<not> enforce_origin parse (new_origin_policy parse external_url trusted) m hs"
  using assms
  by (auto simp: enforce_origin_def origin_allowed_def new_origin_policy_def list_ex_iff set_add_origins simp del: add_origins.simps
      split: option.splits)

text \<open>A direct client cannot choose the address it is counted under.\<close>

lemma direct_client_counted_by_peer:
  "\<not> list_ex (\<lambda>net. net_contains net ip) trusted \<Longrightarrow> extract_key net_contains trusted (Some ip) hs = ip"
  by (simp add: extract_key_def)

text \<open>Behind a trusted proxy that appends the peer's address to \<^verbatim>\<open>x-forwarded-for\<close>, as proxies do, it can:
  the left-most entry is the client's own.\<close>

theorem forwarded_client_chooses_key:
  assumes "net_contains net proxy" "net \<in> set trusted" "CHR '','' \<notin> set claimed" "parse_ip (trim claimed) = Some ip"
    "list_all (\<lambda>c. 32 \<le> code c \<and> code c < 127) (claimed @ '','' @ appended)"
  shows "extract_key net_contains trusted (Some proxy) [(''x-forwarded-for'', claimed @ '','' @ appended)] = ip"
proof -
  have first: "hd (split_on d (xs @ d # ys)) = xs" if "d \<notin> set xs" for d xs ys
    using that by (induction xs) (auto split: list.splits)
  have vis: "list_all (\<lambda>c. code c = 9 \<or> 32 \<le> code c \<and> code c < 127) (claimed @ '','' @ appended)"
    using assms(5) by (auto simp: list_all_iff)
  have "client_ip [(''x-forwarded-for'', claimed @ '','' @ appended)] = Some ip"
    using vis first [OF assms(3), of appended] assms(4) by (simp add: client_ip_def header_str_def)
  then show ?thesis using assms(1,2) by (auto simp: extract_key_def list_ex_iff)
qed

end
