(* ===== verification/Sign_In_Runs.thy ===== *)
theory Sign_In_Runs
  imports Credential_Guarantees OAuth Job_Handlers
begin

text \<open>
  What stays true while the sign-in layer goes on serving: any sequence of its handlers, of OAuth
  callbacks and of maintenance jobs, with statements failing anywhere and other requests in between. A
  spent reset link stays dead, and a lockout stands until its time, however the email is spelled.
\<close>

section \<open>Predicates of the world that an action keeps\<close>

definition holds :: "(world \<Rightarrow> bool) \<Rightarrow> ('e, 'a) act \<Rightarrow> bool" where
  "holds I m \<longleftrightarrow> (\<forall>w. I w \<longrightarrow> I (snd (m w)))"

lemma holdsD: "holds I m \<Longrightarrow> I w \<Longrightarrow> m w = (r, w') \<Longrightarrow> I w'"
  unfolding holds_def by (metis snd_conv)

lemma holds_ok: "holds I (ok x)"
  by (simp add: holds_def ok_def)

lemma holds_err: "holds I (err e)"
  by (simp add: holds_def err_def)

lemma holds_now: "holds I now_unix"
  by (simp add: holds_def now_unix_def)

lemma holds_or_err: "holds I (or_err e x)"
  by (simp add: or_err_def holds_ok holds_err split: option.splits)

lemma holds_ensure: "holds I (ensure b e)"
  by (simp add: ensure_def holds_ok holds_err)

lemma holds_and_then: "holds I m \<Longrightarrow> (\<And>x. holds I (f x)) \<Longrightarrow> holds I (and_then m f)"
  unfolding holds_def and_then_def by (auto split: prod.splits sum.splits)

lemma holds_map_err: "holds I m \<Longrightarrow> holds I (map_err g m)"
  unfolding holds_def map_err_def by (auto split: prod.splits sum.splits)

lemma holds_outcome: "holds I m \<Longrightarrow> holds I (outcome m)"
  unfolding holds_def outcome_def by (auto split: prod.splits)

lemma holds_for_each: "(\<And>x. x \<in> set xs \<Longrightarrow> holds I (f x)) \<Longrightarrow> holds I (for_each xs f)"
  by (induction xs) (auto intro!: holds_ok holds_and_then)

lemma holds_collect: "(\<And>x. x \<in> set xs \<Longrightarrow> holds I (f x)) \<Longrightarrow> holds I (collect xs f)"
  by (induction xs) (auto intro!: holds_ok holds_and_then)

lemma holds_cases:
  "holds I m1 \<Longrightarrow> holds I n1 \<Longrightarrow> holds I (if b then m1 else n1)"
  "holds I m2 \<Longrightarrow> (\<And>y. holds I (f2 y)) \<Longrightarrow> holds I (case z2 of None \<Rightarrow> m2 | Some y \<Rightarrow> f2 y)"
  "(\<And>e. holds I (f3 e)) \<Longrightarrow> (\<And>x. holds I (g3 x)) \<Longrightarrow> holds I (case s of Inl e \<Rightarrow> f3 e | Inr x \<Rightarrow> g3 x)"
  "(\<And>x y. holds I (f4 x y)) \<Longrightarrow> holds I (case p of (x, y) \<Rightarrow> f4 x y)"
  "holds I m5 \<Longrightarrow> holds I n5 \<Longrightarrow> holds I (case c of True \<Rightarrow> m5 | False \<Rightarrow> n5)"
  "(\<And>n. holds I (f6 n)) \<Longrightarrow> (\<And>e. holds I (g6 e)) \<Longrightarrow> holds I (case t of LockedOut n \<Rightarrow> f6 n | ThDb e \<Rightarrow> g6 e)"
  by (auto split: option.splits sum.splits prod.splits bool.splits throttle_error.splits)

lemmas holds_rules = holds_ok holds_err holds_now holds_or_err holds_ensure holds_and_then holds_map_err holds_outcome
  holds_for_each holds_collect holds_cases

section \<open>The state of the sign-in tables\<close>

text \<open>The text of the link that the generator draws at a given moment, and what is kept: no unspent
  reset row has one of the hashes \<open>H\<close>, which the generator does not draw again, and the failure counters
  satisfy \<open>A\<close>; an action takes no time.\<close>

definition raw_link :: "auth_env \<Rightarrow> nat \<Rightarrow> string" where
  "raw_link env n = b64url env (random_bytes env n 32)"

definition signin_inv :: "auth_env \<Rightarrow> nat \<Rightarrow> int \<Rightarrow> string set \<Rightarrow> (login_attempt list \<Rightarrow> bool) \<Rightarrow> world \<Rightarrow> bool" where
  "signin_inv env N c H A w \<longleftrightarrow>
     (\<forall>n\<ge>N. hash_token env (raw_link env n) \<notin> H) \<and> N \<le> next_uuid w \<and> clock w = c
     \<and> (\<forall>r\<in>set (t_reset_tokens (tables w)). lt_token_hash r \<in> H \<longrightarrow> lt_used_at r \<noteq> None)
     \<and> A (t_login_attempts (tables w))"

named_theorems signin_keep \<open>actions that keep the state of the sign-in tables\<close>

lemma holds_fresh [signin_keep]: "holds (signin_inv env N c H A) fresh_uuid"
  by (auto simp: holds_def fresh_uuid_def signin_inv_def)

lemma holds_sql:
  assumes "\<And>d x d'. f d = Inr (x, d') \<Longrightarrow>
      (\<forall>r\<in>set (t_reset_tokens d'). lt_token_hash r \<in> H \<longrightarrow> lt_used_at r = None \<longrightarrow> r \<in> set (t_reset_tokens d))
      \<and> (A (t_login_attempts d) \<longrightarrow> A (t_login_attempts d'))"
  shows "holds (signin_inv env N c H A) (sql f)"
  unfolding holds_def
proof (intro allI impI)
  fix w assume w: "signin_inv env N c H A w"
  show "signin_inv env N c H A (snd (sql f w))"
  proof (cases "f (tables w)")
    case (Inl e)
    then show ?thesis using w by (simp add: sql_def Let_def signin_inv_def)
  next
    case (Inr p)
    obtain x d' where p: "p = (x, d')" by (cases p)
    show ?thesis using w Inr assms [of "tables w" x d'] unfolding p
      by (auto simp: sql_def Let_def signin_inv_def)
  qed
qed

lemma holds_execute:
  assumes "\<And>d. \<forall>r\<in>set (t_reset_tokens (f d)). lt_token_hash r \<in> H \<longrightarrow> lt_used_at r = None \<longrightarrow> r \<in> set (t_reset_tokens d)"
    "\<And>d. A (t_login_attempts d) \<Longrightarrow> A (t_login_attempts (f d))"
  shows "holds (signin_inv env N c H A) (execute f)"
  unfolding execute_def using assms by (intro holds_sql) auto

lemma holds_select [signin_keep]: "holds (signin_inv env N c H A) (select q)"
  unfolding select_def by (rule holds_sql) simp

text \<open>Statements on other tables.\<close>

lemma holds_elsewhere:
  assumes "\<And>d x d'. f d = Inr (x, d') \<Longrightarrow> t_reset_tokens d' = t_reset_tokens d \<and> t_login_attempts d' = t_login_attempts d"
  shows "holds (signin_inv env N c H A) (sql f)"
  using assms by (intro holds_sql) fastforce

lemma holds_elsewhere_execute:
  assumes "\<And>d. t_reset_tokens (f d) = t_reset_tokens d" "\<And>d. t_login_attempts (f d) = t_login_attempts d"
  shows "holds (signin_inv env N c H A) (execute f)"
  using assms by (intro holds_execute) simp_all

lemma holds_clock:
  assumes "holds (signin_inv env N c H A) (f c)" shows "holds (signin_inv env N c H A) (and_then now_unix f)"
  using assms by (auto simp: holds_def and_then_def now_unix_def signin_inv_def)

section \<open>Statements\<close>

lemma holds_accounts [signin_keep]:
  "holds (signin_inv env N c H A) (update_accounts P f)"
  "holds (signin_inv env N c H A) (update_password_hash i h)"
  "holds (signin_inv env N c H A) (mark_email_verified i)"
  "holds (signin_inv env N c H A) (stamp_signup_status i x y)"
proof -
  show u: "holds (signin_inv env N c H A) (update_accounts P f)" for P f
    unfolding update_accounts_def by (rule holds_elsewhere) auto
  then show "holds (signin_inv env N c H A) (update_password_hash i h)" "holds (signin_inv env N c H A) (mark_email_verified i)"
    unfolding update_password_hash_def mark_email_verified_def by (intro holds_rules u)+
  show "holds (signin_inv env N c H A) (stamp_signup_status i x y)"
    unfolding stamp_signup_status_def by (rule holds_elsewhere_execute) simp_all
qed

lemma holds_insert_user [signin_keep]: "holds (signin_inv env N c H A) (insert_user i n e h)"
proof -
  have "holds (signin_inv env N c H A) (sql (insert_user_row i n e h now))" for now
    by (rule holds_elsewhere) (auto simp: insert_user_row_def split: if_splits)
  then show ?thesis
    unfolding insert_user_def holds_def and_then_def now_unix_def
    by (auto split: prod.splits sum.splits db_error.splits) (metis snd_conv)+
qed

lemma holds_resets [signin_keep]:
  "holds (signin_inv env N c H A) (mark_reset_used i)"
  "holds (signin_inv env N c H A) (invalidate_resets i)"
  "holds (signin_inv env N c H A) (delete_dead_resets t)"
proof -
  have spent: "r \<in> set rows" if "r \<in> set (spend P now rows)" "lt_used_at r = None" for r P now rows
    using that unfolding spend_def by (auto elim!: in_update_whereE)
  show "holds (signin_inv env N c H A) (mark_reset_used i)" "holds (signin_inv env N c H A) (invalidate_resets i)"
    unfolding mark_reset_used_def invalidate_resets_def
    by (intro holds_rules holds_sql holds_execute; use spent in auto)+
  show "holds (signin_inv env N c H A) (delete_dead_resets t)"
    unfolding delete_dead_resets_def by (rule holds_sql) (auto simp: delete_where_def)
qed

lemma holds_insert_reset: "h \<notin> H \<Longrightarrow> holds (signin_inv env N c H A) (insert_reset_token i u h e)"
  unfolding insert_reset_token_def
  by (rule holds_sql) (auto simp: insert_link_token_def split: if_splits sum.splits)

lemma holds_verifications [signin_keep]:
  "holds (signin_inv env N c H A) (insert_verification_token i u h e)"
  "holds (signin_inv env N c H A) (mark_verification_used i)"
  "holds (signin_inv env N c H A) (invalidate_verifications i)"
  "holds (signin_inv env N c H A) (delete_dead_verifications t)"
  unfolding insert_verification_token_def mark_verification_used_def invalidate_verifications_def delete_dead_verifications_def
  by (intro holds_rules holds_elsewhere holds_elsewhere_execute; auto split: sum.splits)+

lemma holds_totp_rows [signin_keep]:
  "holds (signin_inv env N c H A) (upsert_totp_secret u x)" "holds (signin_inv env N c H A) (activate_totp u)"
  "holds (signin_inv env N c H A) (delete_codes u)" "holds (signin_inv env N c H A) (delete_totp u)"
  "holds (signin_inv env N c H A) (insert_code u h)" "holds (signin_inv env N c H A) (replace_recovery_codes u hs)"
  "holds (signin_inv env N c H A) (consume_recovery_code u h)"
  unfolding upsert_totp_secret_def activate_totp_def delete_codes_def delete_totp_def insert_code_def replace_recovery_codes_def
    consume_recovery_code_def
  by (intro holds_rules holds_fresh holds_elsewhere holds_elsewhere_execute; auto split: if_splits)+

lemma holds_passkey_rows [signin_keep]:
  "holds (signin_inv env N c H A) (passkey_insert i u l j)" "holds (signin_inv env N c H A) (update_passkey i j)"
  "holds (signin_inv env N c H A) (delete_passkey u i)"
  unfolding passkey_insert_def update_passkey_def delete_passkey_def Let_def
  by (intro holds_rules holds_elsewhere holds_elsewhere_execute; auto split: if_splits)+

lemma holds_token_rows [signin_keep]:
  "holds (signin_inv env N c H A) (insert_access_token i u n h r s)" "holds (signin_inv env N c H A) (revoke_access_token u i)"
  unfolding insert_access_token_def revoke_access_token_def Let_def
  by (intro holds_rules holds_elsewhere; auto split: if_splits)+

lemma holds_other_rows [signin_keep]:
  "holds (signin_inv env N c H A) (audit_user e i)" "holds (signin_inv env N c H A) (audit_throttled env' e)"
  "holds (signin_inv env N c H A) (jobs_enqueue p)" "holds (signin_inv env N c H A) (insert_oauth_identity i u pr s)"
  "holds (signin_inv env N c H A) (delete_deliveries_older_than t)" "holds (signin_inv env N c H A) list_all_with_owner"
  unfolding audit_user_def audit_record_def audit_throttled_def jobs_enqueue_def job_enqueue_def insert_oauth_identity_def
    delete_deliveries_older_than_def list_all_with_owner_def
  by (intro holds_rules holds_fresh holds_elsewhere holds_elsewhere_execute;
      auto simp: with_jobs_def split: if_splits option.splits)+

section \<open>The failure counters\<close>

text \<open>A predicate of the counters that does not look at one key.\<close>

definition ignores :: "(login_attempt list \<Rightarrow> bool) \<Rightarrow> string \<Rightarrow> bool" where
  "ignores A k \<longleftrightarrow> (\<forall>rows rows'. A rows \<longrightarrow>
     (\<forall>k'. k' \<noteq> k \<longrightarrow> find (\<lambda>a. la_key a = k') rows' = find (\<lambda>a. la_key a = k') rows) \<longrightarrow> A rows')"

lemma ignoresD: "ignores A k \<Longrightarrow> A rows \<Longrightarrow>
    (\<And>k'. k' \<noteq> k \<Longrightarrow> find (\<lambda>a. la_key a = k') rows' = find (\<lambda>a. la_key a = k') rows) \<Longrightarrow> A rows'"
  unfolding ignores_def by blast

lemma find_other_updated:
  assumes "k \<noteq> key" "\<And>a. la_key (f a) = la_key a"
  shows "find (\<lambda>a. la_key a = k) (update_where (\<lambda>a. la_key a = key) f rows) = find (\<lambda>a. la_key a = k) rows"
  using assms by (induction rows) (auto simp: update_where_def)

lemma find_other_counted: "k \<noteq> key \<Longrightarrow> find (\<lambda>a. la_key a = k) (count_failure key now rows) = find (\<lambda>a. la_key a = k) rows"
proof -
  assume k: "k \<noteq> key"
  have "find (\<lambda>a. la_key a = k) (rows @ [r]) = find (\<lambda>a. la_key a = k) rows" if "la_key r = key" for r
    using k that by (induction rows) auto
  moreover have "find (\<lambda>a. la_key a = k) (update_where (\<lambda>a. la_key a = key)
      (\<lambda>a. a\<lparr>la_failure_count := la_failure_count a + 1, la_last_failed_at := now\<rparr>) rows) = find (\<lambda>a. la_key a = k) rows"
    by (rule find_other_updated [OF k]) simp
  ultimately show ?thesis by (simp add: count_failure_def)
qed

lemma find_other_deleted: "k \<noteq> key \<Longrightarrow> find (\<lambda>a. la_key a = k) (delete_where (\<lambda>a. la_key a = key) rows) = find (\<lambda>a. la_key a = k) rows"
  by (induction rows) (auto simp: delete_where_def)

lemma holds_attempts:
  assumes "ignores A key"
  shows "holds (signin_inv env N c H A) (note_failure key)" "holds (signin_inv env N c H A) (clear_attempts key)"
proof -
  have "holds (signin_inv env N c H A) (attempt_record_failure key now)" for now
    unfolding attempt_record_failure_def
    by (intro holds_rules holds_select holds_execute) (auto elim!: ignoresD [OF assms] simp: find_other_counted)
  moreover have "holds (signin_inv env N c H A) (set_locked_until key u)" for u
    unfolding set_locked_until_def
    by (intro holds_execute) (auto elim!: ignoresD [OF assms] simp: find_other_updated)
  ultimately show "holds (signin_inv env N c H A) (note_failure key)"
    unfolding note_failure_def by (intro holds_rules)
  show "holds (signin_inv env N c H A) (clear_attempts key)"
    unfolding clear_attempts_def
    by (intro holds_execute) (auto elim!: ignoresD [OF assms] simp: find_other_deleted)
qed

lemma holds_worst_lock [signin_keep]: "holds (signin_inv env N c H A) (worst_lock keys n)"
  by (induction keys arbitrary: n) (auto intro!: holds_rules holds_select)

lemma holds_throttle [signin_keep]: "holds (signin_inv env N c H A) (throttle_check env' e ip)"
  unfolding throttle_check_def by (intro holds_rules signin_keep)

lemma holds_records:
  assumes "\<And>k. k \<in> set (throttle_keys env' e ip) \<Longrightarrow> ignores A k"
  shows "holds (signin_inv env N c H A) (record_failure env' e ip)" "holds (signin_inv env N c H A) (record_success env' e ip)"
  unfolding record_failure_def record_success_def by (intro holds_rules holds_attempts assms; assumption)+

section \<open>Services\<close>

lemma holds_finders [signin_keep]:
  "holds (signin_inv env N c H A) (find_by_email e)" "holds (signin_inv env N c H A) (find_by_id i)"
  "holds (signin_inv env N c H A) (account_status i)" "holds (signin_inv env N c H A) (find_reset_token h t)"
  "holds (signin_inv env N c H A) (find_verification_token h t)" "holds (signin_inv env N c H A) (find_totp u)"
  "holds (signin_inv env N c H A) (list_passkeys u)" "holds (signin_inv env N c H A) (totp_is_activated u)"
  "holds (signin_inv env N c H A) start_session" "holds (signin_inv env N c H A) (find_by_provider_subject pr s)"
  unfolding find_by_email_def find_by_id_def account_status_def find_reset_token_def find_verification_token_def
    find_totp_def list_passkeys_def totp_is_activated_def start_session_def find_by_provider_subject_def
  by (intro holds_rules holds_select)+

lemma holds_draws [signin_keep]:
  "holds (signin_inv env N c H A) (hash_password env' p)" "holds (signin_inv env N c H A) (generate_raw_token env')"
  "holds (signin_inv env N c H A) (pending_issue env' t)" "holds (signin_inv env N c H A) (box r)"
  "holds (signin_inv env N c H A) (derive_username_from_email env' e)" "holds (signin_inv env N c H A) (random_unusable_secret env')"
  unfolding hash_password_def generate_raw_token_def pending_issue_def box_def derive_username_from_email_def random_unusable_secret_def
  by (intro holds_rules signin_keep)+

text \<open>A reset link is made of a new draw, whose hash is none of \<open>H\<close>.\<close>

lemma holds_reset_request [signin_keep]: "holds (signin_inv env N c H A) (reset_request env e)"
proof -
  have drawn: "holds (signin_inv env N c H A) (and_then (generate_raw_token env) F)"
    if "\<And>raw. hash_token env raw \<notin> H \<Longrightarrow> holds (signin_inv env N c H A) (F raw)" for F :: "string \<Rightarrow> (db_error, 'a) act"
    unfolding holds_def
  proof (intro allI impI)
    fix w assume w: "signin_inv env N c H A w"
    let ?w = "w\<lparr>next_uuid := Suc (next_uuid w)\<rparr>"
    have run: "and_then (generate_raw_token env) F w = F (raw_link env (next_uuid w)) ?w"
      by (simp add: generate_raw_token_def and_then_def fresh_uuid_def ok_def raw_link_def)
    have "hash_token env (raw_link env (next_uuid w)) \<notin> H" "signin_inv env N c H A ?w" using w by (auto simp: signin_inv_def)
    then show "signin_inv env N c H A (snd (and_then (generate_raw_token env) F w))"
      unfolding run using that unfolding holds_def by blast
  qed
  show ?thesis unfolding reset_request_def
    by (intro holds_rules signin_keep drawn holds_insert_reset)
qed

lemma holds_links [signin_keep]:
  "holds (signin_inv env N c H A) (reset_consume env' raw p)" "holds (signin_inv env N c H A) (verification_request env' i)"
  "holds (signin_inv env N c H A) (verification_consume env' raw)"
  unfolding reset_consume_def verification_request_def verification_consume_def
  by (intro holds_rules signin_keep)+

lemma holds_signup [signin_keep]: "holds (signin_inv env N c H A) (signup env' policy n e p)"
  unfolding signup_def stamped_signup_def Let_def by (intro holds_rules signin_keep)

lemma holds_tokens [signin_keep]:
  "holds (signin_inv env N c H A) (create_scoped env' u n s)" "holds (signin_inv env N c H A) (token_revoke u i)"
  unfolding create_scoped_def generate_access_token_def token_revoke_def by (intro holds_rules signin_keep)+

lemma holds_totp [signin_keep]:
  "holds (signin_inv env N c H A) (totp_enroll env' u)" "holds (signin_inv env N c H A) (totp_activate env' u x)"
  "holds (signin_inv env N c H A) (totp_verify env' u x)" "holds (signin_inv env N c H A) (totp_disable u)"
  unfolding totp_enroll_def totp_activate_def generate_recovery_code_def totp_verify_def totp_disable_def Let_def
  by (intro holds_rules signin_keep)+

lemma holds_webauthn_helpers [signin_keep]:
  "holds (signin_inv env N c H A) (valid_or x)" "holds (signin_inv env N c H A) (lift_sum r)"
  "holds (signin_inv env N c H A) (issue_ceremony_token env' u cc p)" "holds (signin_inv env N c H A) (credential_ids env' lib rows)"
  unfolding valid_or_def lift_sum_def issue_ceremony_token_def credential_ids_def by (intro holds_rules)+

lemma holds_webauthn [signin_keep]:
  "holds (signin_inv env N c H A) (begin_registration env' lib cf u n d)"
  "holds (signin_inv env N c H A) (finish_registration env' lib cf t u l r)"
  "holds (signin_inv env N c H A) (begin_authentication env' lib cf u)"
  "holds (signin_inv env N c H A) (finish_authentication env' lib cf t u ar)"
  "holds (signin_inv env N c H A) (passkey_revoke u i)"
  unfolding begin_registration_def finish_registration_def begin_authentication_def finish_authentication_def
    passkey_revoke_def Let_def
  by (intro holds_rules signin_keep)+

lemma holds_backend [signin_keep]:
  "holds (signin_inv env N c H A) (backend_authenticate env' e p)" "holds (signin_inv env N c H A) (backend_get_user env' t)"
  "holds (signin_inv env N c H A) (establish row u)"
  unfolding backend_authenticate_def backend_get_user_def establish_def by (intro holds_rules signin_keep)+

lemma holds_after_password [signin_keep]: "holds (signin_inv env N c H A) (after_password env' row)"
  unfolding after_password_def Let_def by (intro holds_rules signin_keep)

lemma holds_resume [signin_keep]: "holds (signin_inv env N c H A) (resume_session env' i u)"
  unfolding resume_session_def by (intro holds_rules signin_keep)

lemma holds_send_mail [signin_keep]: "holds (signin_inv env N c H A) (send_mail t s b)"
  unfolding send_mail_def by (intro holds_rules signin_keep)

lemma holds_with_pending:
  "(\<And>uid row. holds (signin_inv env N c H A) (k uid row)) \<Longrightarrow> holds (signin_inv env N c H A) (with_pending env' t k)"
  unfolding with_pending_def by (intro holds_rules signin_keep)

section \<open>Handlers\<close>

lemma holds_handlers [signin_keep]:
  "holds (signin_inv env N c H A) (login_totp env' tok submitted)"
  "holds (signin_inv env N c H A) (login_options env' lib cf tok)"
  "holds (signin_inv env N c H A) (login_verify env' lib cf tok state_token response)"
  "holds (signin_inv env N c H A) (signup_handler env' policy base username email password)"
  "holds (signin_inv env N c H A) (request_password_reset env base email)"
  "holds (signin_inv env N c H A) (consume_password_reset env' raw password)"
  "holds (signin_inv env N c H A) (verify_email env' raw)"
  "holds (signin_inv env N c H A) (resend_verification env' base session)"
  unfolding login_totp_def login_options_def login_verify_def signup_handler_def request_password_reset_def
    consume_password_reset_def verify_email_def resend_verification_def send_verification_email_def Let_def
  by (intro holds_rules signin_keep holds_with_pending)+

lemma holds_own_credentials [signin_keep]:
  "holds (signin_inv env N c H A) (create_token_handler env' session name scope)"
  "holds (signin_inv env N c H A) (revoke_token_handler env' session i)"
  "holds (signin_inv env N c H A) (totp_enroll_handler env' session)"
  "holds (signin_inv env N c H A) (totp_activate_handler env' session submitted)"
  "holds (signin_inv env N c H A) (totp_disable_handler session)"
  "holds (signin_inv env N c H A) (register_options_handler env' lib cf session)"
  "holds (signin_inv env N c H A) (register_verify_handler env' lib cf session state_token label attestation)"
  "holds (signin_inv env N c H A) (revoke_credential_handler env' session i)"
  unfolding create_token_handler_def revoke_token_handler_def revoke_credential_handler_def revoke_with_def
    totp_enroll_handler_def totp_activate_handler_def totp_disable_handler_def
    register_options_handler_def register_verify_handler_def Let_def
  by (intro holds_rules signin_keep)+

lemma holds_oauth [signin_keep]:
  "holds (signin_inv env N c H A) (oauth_begin oc ps name link)"
  "holds (signin_inv env N c H A) (start_link env' oc ps u name)"
  "holds (signin_inv env N c H A) (oauth_callback env' oc ps pending auth_code state)"
proof -
  note sums = sum.split [where P = "holds (signin_inv env N c H A)", THEN iffD2]
  show b: "holds (signin_inv env N c H A) (oauth_begin oc ps name link)" for name link
    unfolding oauth_begin_def oauth_start_def by (intro holds_rules signin_keep)
  show "holds (signin_inv env N c H A) (start_link env' oc ps u name)"
    unfolding start_link_def by (intro holds_rules b)
  have signs_in: "holds (signin_inv env N c H A) (oauth_sign_in env' u)" for u
    unfolding oauth_sign_in_def by (intro holds_rules signin_keep)
  have reply: "holds (signin_inv env N c H A) (outcome_reply env' r)" for r
    by (cases r) (auto intro!: signs_in holds_rules)
  have claims: "holds (signin_inv env N c H A) (verified_claims oc p x v n)" for p x v n
    unfolding verified_claims_def by (intro holds_rules)
  have links: "holds (signin_inv env N c H A) (oauth_link oc p u x v n)" for p u x v n
    unfolding oauth_link_def by (intro holds_rules signin_keep claims)
  have inserts: "holds (signin_inv env N c H A) (insert_oauth_user env' p t sub e)" for p t sub e
    unfolding insert_oauth_user_def by (intro holds_rules signin_keep)
  have provisions: "holds (signin_inv env N c H A) (oauth_provision env' p sub e)" for p sub e
    unfolding oauth_provision_def
    by (cases "pc_provisioning p") (auto intro!: holds_rules signin_keep inserts)
  have completes: "holds (signin_inv env N c H A) (oauth_complete env' oc p x v n)" for p x v n
    unfolding oauth_complete_def by (intro holds_rules signin_keep claims provisions)
  show "holds (signin_inv env N c H A) (oauth_callback env' oc ps pending auth_code state)"
    unfolding oauth_callback_def finish_link_def finish_login_def
    by (intro holds_rules signin_keep links completes reply)
qed

text \<open>A login keeps predicates that look at none of its keys.\<close>

lemma holds_login:
  assumes "\<And>k. k \<in> set (throttle_keys env' e ip) \<Longrightarrow> ignores A k"
  shows "holds (signin_inv env N c H A) (login env' ip e p)"
  unfolding login_def by (intro holds_rules signin_keep holds_records assms; assumption)

text \<open>Maintenance keeps those that survive the removal of counters without a running lock.\<close>

definition outlasts :: "(login_attempt list \<Rightarrow> bool) \<Rightarrow> int \<Rightarrow> bool" where
  "outlasts A now \<longleftrightarrow> (\<forall>cutoff rows. A rows \<longrightarrow> A (delete_where (\<lambda>a. la_last_failed_at a < cutoff \<and>
     (case la_locked_until a of None \<Rightarrow> True | Some t \<Rightarrow> t < now)) rows))"

lemma holds_maintenance:
  assumes "outlasts A c"
  shows "holds (signin_inv env N c H A) (run_maintenance libs job)"
proof -
  have stale: "holds (signin_inv env N c H A) (delete_stale_attempts t c)" for t
    unfolding delete_stale_attempts_def Let_def
    by (rule holds_sql) (use assms in \<open>auto simp: outlasts_def\<close>)
  have texts: "holds (signin_inv env N c H A) (text_outcome r)" for r
    by (cases r) (auto intro: holds_rules)
  show ?thesis
  proof (cases job)
    case (RunMaintenance task)
    show ?thesis unfolding RunMaintenance run_maintenance.simps jobdb_def
      by (rule holds_clock) (intro holds_rules signin_keep stale texts)
  qed (auto intro: holds_rules)
qed

section \<open>The layer at work\<close>

text \<open>A request to the layer, with everything the request, its session and the configuration bring along.\<close>

datatype signin_call =
    ScLogin string string string
  | ScLoginTotp string string
  | ScLoginOptions webauthn_lib "webauthn_config option" string
  | ScLoginVerify webauthn_lib "webauthn_config option" string string assertion_response
  | ScSignup registration_policy string string string string
  | ScRequestReset string string
  | ScConsumeReset string string
  | ScVerifyEmail string
  | ScResendVerification string "user option"
  | ScCreateToken "user option" string "string option"
  | ScRevokeToken "user option" string
  | ScEnroll "user option"
  | ScActivate "user option" string
  | ScDisable "user option"
  | ScRegisterOptions webauthn_lib "webauthn_config option" "user option"
  | ScRegisterVerify webauthn_lib "webauthn_config option" "user option" string string attestation_response
  | ScRevokePasskey "user option" string
  | ScOauthBegin oidc_client "provider_config list" "string option"
  | ScOauthLink oidc_client "provider_config list" "uuid option" "string option"
  | ScOauthCallback oidc_client "provider_config list" "pending_oauth option" string string
  | ScMaintenance job_libs job_payload

fun serve_signin :: "auth_env \<Rightarrow> signin_call \<Rightarrow> world \<Rightarrow> world" where
  "serve_signin env (ScLogin ip email password) w = snd (login env ip email password w)"
| "serve_signin env (ScLoginTotp tok submitted) w = snd (login_totp env tok submitted w)"
| "serve_signin env (ScLoginOptions lib cf tok) w = snd (login_options env lib cf tok w)"
| "serve_signin env (ScLoginVerify lib cf tok st response) w = snd (login_verify env lib cf tok st response w)"
| "serve_signin env (ScSignup policy base name email password) w = snd (signup_handler env policy base name email password w)"
| "serve_signin env (ScRequestReset base email) w = snd (request_password_reset env base email w)"
| "serve_signin env (ScConsumeReset raw password) w = snd (consume_password_reset env raw password w)"
| "serve_signin env (ScVerifyEmail raw) w = snd (verify_email env raw w)"
| "serve_signin env (ScResendVerification base session) w = snd (resend_verification env base session w)"
| "serve_signin env (ScCreateToken session name scope) w = snd (create_token_handler env session name scope w)"
| "serve_signin env (ScRevokeToken session i) w = snd (revoke_token_handler env session i w)"
| "serve_signin env (ScEnroll session) w = snd (totp_enroll_handler env session w)"
| "serve_signin env (ScActivate session submitted) w = snd (totp_activate_handler env session submitted w)"
| "serve_signin env (ScDisable session) w = snd (totp_disable_handler session w)"
| "serve_signin env (ScRegisterOptions lib cf session) w = snd (register_options_handler env lib cf session w)"
| "serve_signin env (ScRegisterVerify lib cf session st label attestation) w =
     snd (register_verify_handler env lib cf session st label attestation w)"
| "serve_signin env (ScRevokePasskey session i) w = snd (revoke_credential_handler env session i w)"
| "serve_signin env (ScOauthBegin oc ps name) w = snd (oauth_begin oc ps name None w)"
| "serve_signin env (ScOauthLink oc ps session name) w = snd (start_link env oc ps session name w)"
| "serve_signin env (ScOauthCallback oc ps pending auth_code state) w = snd (oauth_callback env oc ps pending auth_code state w)"
| "serve_signin env (ScMaintenance libs job) w = snd (run_maintenance libs job w)"

text \<open>A client's address is a printed IP address, which has no bar in it, or empty.\<close>

fun call_ok :: "signin_call \<Rightarrow> bool" where
  "call_ok (ScLogin ip _ _) = (CHR ''|'' \<notin> set ip)"
| "call_ok _ = True"

text \<open>The layer serves calls one after the other; in between time passes and other requests change
  whatever is not the layer's reset links, of which they may remove some, and failure counters; and
  statements begin or cease to fail.\<close>

inductive signin_run :: "auth_env \<Rightarrow> world \<Rightarrow> world \<Rightarrow> bool" for env where
  start: "signin_run env w w"
| served: "signin_run env w w1 \<Longrightarrow> call_ok call \<Longrightarrow> signin_run env w (serve_signin env call w1)"
| others: "signin_run env w w1 \<Longrightarrow> set (t_reset_tokens (tables w2)) \<subseteq> set (t_reset_tokens (tables w1)) \<Longrightarrow>
     t_login_attempts (tables w2) = t_login_attempts (tables w1) \<Longrightarrow> clock w1 \<le> clock w2 \<Longrightarrow>
     next_uuid w1 \<le> next_uuid w2 \<Longrightarrow> signin_run env w w2"

lemma served_keeps:
  assumes "signin_inv env N c H A w" "outlasts A c"
    and "\<And>ip e p k. call = ScLogin ip e p \<Longrightarrow> k \<in> set (throttle_keys env e ip) \<Longrightarrow> ignores A k"
  shows "signin_inv env N c H A (serve_signin env call w)"
proof -
  note keep = signin_keep [of env N c H A, unfolded holds_def, rule_format, OF assms(1)]
  show ?thesis
  proof (cases call)
    case (ScLogin ip e p)
    then have "holds (signin_inv env N c H A) (login env ip e p)" using assms(3) by (intro holds_login) blast
    then show ?thesis using assms(1) ScLogin unfolding holds_def by simp
  next
    case (ScMaintenance libs job)
    then show ?thesis using holds_maintenance [OF assms(2)] assms(1) unfolding holds_def by simp
  qed (simp_all add: keep)
qed

section \<open>A reset link works once\<close>

lemma dead_link_stays:
  assumes "signin_run env w w'" "\<forall>n\<ge>next_uuid w. hash_token env (raw_link env n) \<noteq> h"
    and "\<forall>r\<in>set (t_reset_tokens (tables w)). lt_token_hash r = h \<longrightarrow> lt_used_at r \<noteq> None"
  shows "next_uuid w \<le> next_uuid w' \<and> (\<forall>r\<in>set (t_reset_tokens (tables w')). lt_token_hash r = h \<longrightarrow> lt_used_at r \<noteq> None)"
  using assms
proof (induction rule: signin_run.induct)
  case (served w w1 call)
  then have "signin_inv env (next_uuid w) (clock w1) {h} (\<lambda>_. True) w1" by (simp add: signin_inv_def)
  then have "signin_inv env (next_uuid w) (clock w1) {h} (\<lambda>_. True) (serve_signin env call w1)"
    by (rule served_keeps) (simp_all add: outlasts_def ignores_def)
  then show ?case by (simp add: signin_inv_def)
qed auto

lemma dead_link_refused:
  assumes "\<forall>r\<in>set (t_reset_tokens (tables w)). lt_token_hash r = hash_token env raw \<longrightarrow> lt_used_at r \<noteq> None"
  shows "fst (reset_consume env raw password w) \<noteq> Inr uid"
proof -
  have "valid_by_hash (hash_token env raw) t (t_reset_tokens (tables w)) = None" for t
    using assms by (auto simp: valid_by_hash_def find_None_iff usable_token_def)
  then show ?thesis
    by (auto simp: reset_consume_def find_reset_token_def select_def sql_def and_then_def map_err_def now_unix_def err_def Let_def)
qed

lemma dead_link_not_done:
  assumes "\<forall>r\<in>set (t_reset_tokens (tables w)). lt_token_hash r = hash_token env raw \<longrightarrow> lt_used_at r \<noteq> None"
  shows "fst (consume_password_reset env raw password w) \<noteq> Inr Done"
proof
  assume "fst (consume_password_reset env raw password w) = Inr Done"
  then obtain uid where "fst (reset_consume env raw password w) = Inr uid"
    by (cases "reset_consume env raw password w"; cases "fst (reset_consume env raw password w)")
      (auto simp: consume_password_reset_def and_then_def outcome_def ok_def)
  then show False using dead_link_refused [OF assms] by blast
qed

lemma reset_consumed:
  assumes "reset_consume env raw password w = (Inr uid, w')" "distinct (map lt_token_hash (t_reset_tokens (tables w)))"
  shows "(\<exists>r\<in>set (t_reset_tokens (tables w)). lt_user_id r = uid \<and> usable_token (hash_token env raw) (clock w) r)
    \<and> (\<exists>n h. pw_hash env n password = Some h
         \<and> (\<forall>a\<in>set (t_accounts (tables w')). acct_user_id a = uid \<longrightarrow> acct_password_hash a = h))
    \<and> (\<forall>r\<in>set (t_reset_tokens (tables w')). lt_token_hash r = hash_token env raw \<longrightarrow> lt_used_at r \<noteq> None)"
proof -
  let ?h = "hash_token env raw"
  obtain tid w1 h w3 b b' where f: "find_reset_token ?h (clock w) w = (Inr (Some (tid, uid)), w1)"
    and h: "pw_hash env (next_uuid w1) password = Some h"
    and up: "update_password_hash uid h (w1\<lparr>next_uuid := Suc (next_uuid w1)\<rparr>) = (Inr b, w3)"
    and mk: "mark_reset_used tid w3 = (Inr b', w')"
  proof -
    obtain found w1 where f: "find_reset_token ?h (clock w) w = (Inr found, w1)"
      and rest: "(case found of
            None \<Rightarrow> err InvalidOrExpired
          | Some (token_id, uid) \<Rightarrow>
              and_then (and_then (hash_password env password) (or_err CnHash)) (\<lambda>h.
                and_then (map_err CnDb (update_password_hash uid h)) (\<lambda>_.
                  and_then (map_err CnDb (mark_reset_used token_id)) (\<lambda>_. ok uid)))) w1 = (Inr uid, w')"
      using assms(1) by (auto simp: reset_consume_def act_simps split: if_splits)
    show thesis
    proof (cases found)
      case None
      then show ?thesis using rest by (simp add: err_def)
    next
      case (Some p)
      then show ?thesis using rest f that
        by (cases p) (auto simp: act_simps hash_password_def)
    qed
  qed
  note f' = select_Inr [OF f [unfolded find_reset_token_def]]
  obtain r where r: "find (usable_token ?h (clock w)) (t_reset_tokens (tables w)) = Some r" "lt_id r = tid" "lt_user_id r = uid"
    using f' by (auto simp: valid_by_hash_def eq_commute [of "Some (tid, uid)"])
  have rows: "t_reset_tokens (tables w') = spend (\<lambda>x. lt_id x = lt_id r) (clock w) (t_reset_tokens (tables w))"
    using mark_reset_used_Inr [OF mk] update_password_hash_Inr [OF up] f' r by simp
  have uniq: "distinct (map lt_token_hash (t_reset_tokens (tables w)))" by (fact assms(2))
  have 1: "\<exists>r\<in>set (t_reset_tokens (tables w)). lt_user_id r = uid \<and> usable_token ?h (clock w) r"
    using find_unique [OF uniq r(1)] r by blast
  have 2: "\<forall>a\<in>set (t_accounts (tables w')). acct_user_id a = uid \<longrightarrow> acct_password_hash a = h"
  proof (intro ballI impI)
    fix a assume a: "a \<in> set (t_accounts (tables w'))" "acct_user_id a = uid"
    have "a \<in> set (update_where (\<lambda>a. acct_user_id a = uid) (\<lambda>a. a\<lparr>acct_password_hash := h\<rparr>) (t_accounts (tables w1)))"
      using a(1) mark_reset_used_Inr(2) [OF mk] update_password_hash_Inr(1) [OF up] by simp
    then show "acct_password_hash a = h"
      by (rule in_update_whereE) (use a(2) in simp_all)
  qed
  have 3: "lt_used_at x \<noteq> None" if "x \<in> set (t_reset_tokens (tables w'))" "lt_token_hash x = ?h" for x
  proof
    assume "lt_used_at x = None"
    then have "usable_token ?h (lt_expires_at x - 1) x" using that(2) by (simp add: usable_token_def)
    then show False
      using spent_not_usable [OF uniq r(1), of "lt_expires_at x - 1" "clock w"] that(1) unfolding rows by (auto simp: find_None_iff)
  qed
  show ?thesis using 1 2 3 h by blast
qed

text \<open>C35. A consumed reset link belonged to the account whose password it set, was unspent and had not
  expired; the new password's hash is what the account has from then on; and the link is spent for good:
  whatever the sign-in layer serves afterwards (logins, signups, further reset requests and
  consumptions, second factors, OAuth callbacks, the pruning of spent links), with statements
  failing anywhere, and however much time passes, no later attempt with it succeeds. The hypotheses are the
  table's uniqueness of hashes, and that the generator does not draw again a text with the same
  hash: once a spent row is pruned, nothing else would keep it from being issued anew.\<close>

theorem reset_link_single_use:
  assumes "reset_consume env raw password w = (Inr uid, w')" "distinct (map lt_token_hash (t_reset_tokens (tables w)))"
    and "signin_run env w' w''" "\<forall>n\<ge>next_uuid w'. hash_token env (raw_link env n) \<noteq> hash_token env raw"
  shows "(\<exists>r\<in>set (t_reset_tokens (tables w)). lt_user_id r = uid \<and> usable_token (hash_token env raw) (clock w) r)
    \<and> (\<exists>n h. pw_hash env n password = Some h
         \<and> (\<forall>a\<in>set (t_accounts (tables w')). acct_user_id a = uid \<longrightarrow> acct_password_hash a = h))
    \<and> fst (reset_consume env raw password' w'') \<noteq> Inr uid'
    \<and> fst (consume_password_reset env raw password' w'') \<noteq> Inr Done"
proof -
  note c = reset_consumed [OF assms(1,2)]
  from dead_link_stays [OF assms(3,4)] c
  have "\<forall>r\<in>set (t_reset_tokens (tables w'')). lt_token_hash r = hash_token env raw \<longrightarrow> lt_used_at r \<noteq> None" by blast
  with c show ?thesis using dead_link_refused dead_link_not_done by blast
qed

text \<open>A witness: the link is used, then a new one is asked for, spent links are pruned, and it is tried again.\<close>

definition link_db :: db where
  "link_db = toy_db\<lparr>t_reset_tokens := [\<lparr>lt_id = 1, lt_user_id = 65, lt_token_hash = hash_token toy_env ''raw'',
     lt_expires_at = 200, lt_used_at = None\<rparr>]\<rparr>"

lemma toy_link_differs: "hash_token toy_env (raw_link toy_env n) \<noteq> hash_token toy_env ''raw''"
proof -
  have "raw_link toy_env n = ''r''" by (simp add: raw_link_def toy_env_def)
  moreover have "hash_token toy_env ''r'' \<noteq> hash_token toy_env ''raw''" by code_simp
  ultimately show ?thesis by simp
qed

theorem reset_link_single_use_witness:
  "\<exists>w'. reset_consume toy_env ''raw'' ''new'' (world_of link_db []) = (Inr 65, w')
     \<and> fst (consume_password_reset toy_env ''raw'' ''again''
         (serve_signin toy_env (ScRequestReset ''https://h'' ''a@x'') w')) \<noteq> Inr Done"
proof -
  obtain w' where w': "reset_consume toy_env ''raw'' ''new'' (world_of link_db []) = (Inr 65, w')"
    using toy_reset unfolding link_db_def by blast
  have d: "distinct (map lt_token_hash (t_reset_tokens (tables (world_of link_db []))))"
    by (simp add: world_of_def link_db_def)
  have run: "signin_run toy_env w' (serve_signin toy_env (ScRequestReset ''https://h'' ''a@x'') w')"
    by (intro signin_run.served signin_run.start) simp
  have fresh: "\<forall>n\<ge>next_uuid w'. hash_token toy_env (raw_link toy_env n) \<noteq> hash_token toy_env ''raw''"
    using toy_link_differs by simp
  from reset_link_single_use [OF w' d run fresh] w' show ?thesis by blast
qed

section \<open>A lockout stands until its time\<close>

definition lock_held :: "string \<Rightarrow> int \<Rightarrow> login_attempt list \<Rightarrow> bool" where
  "lock_held key T rows \<longleftrightarrow>
     (\<exists>a u. find (\<lambda>a. la_key a = key) rows = Some a \<and> la_locked_until a = Some u \<and> T \<le> u)"

lemma lock_held_ignores: "k \<noteq> key \<Longrightarrow> ignores (lock_held key T) k"
  unfolding ignores_def lock_held_def by metis

lemma find_not_deleted: "find P xs = Some a \<Longrightarrow> \<not> S a \<Longrightarrow> find P (delete_where S xs) = Some a"
  by (induction xs) (auto simp: delete_where_def split: if_splits)

lemma lock_held_outlasts: "now \<le> T \<Longrightarrow> outlasts (lock_held key T) now"
  unfolding outlasts_def lock_held_def by (fastforce intro!: find_not_deleted)

text \<open>The keys of an address and those of an account are kept apart by the bar between them.\<close>

lemma attempt_key_of_account:
  assumes "CHR ''|'' \<notin> set ip" "attempt_key env e ip = attempt_key env e' []"
  shows "ip = [] \<and> lowercase env (trim e) = lowercase env (trim e')"
proof (cases ip rule: rev_cases)
  case (snoc xs x)
  then show ?thesis using assms by (auto simp: attempt_key_def)
qed (use assms in \<open>simp add: attempt_key_def\<close>)

lemma locked_login:
  assumes "lock_held (attempt_key env e []) T (t_login_attempts (tables w))" "clock w < T"
  shows "(\<exists>s. fst (login env ip e p w) = Inr (Throttled s) \<and> T - clock w \<le> s)
      \<or> fst (login env ip e p w) = Inr (Failed 500) \<and> statement_fails w \<noteq> []"
    "signin_inv env N c H A w \<Longrightarrow> signin_inv env N c H A (snd (login env ip e p w))"
proof -
  let ?keys = "throttle_keys env e ip"
  obtain a u where a: "attempt_of (attempt_key env e []) (tables w) = Some a" "la_locked_until a = Some u" "T \<le> u"
    using assms(1) by (auto simp: lock_held_def attempt_of_def)
  have mem: "attempt_key env e [] \<in> set ?keys" by (simp add: throttle_keys_def)
  have lk: "locked (attempt_key env e []) w" using a assms(2) by (simp add: locked_def)
  obtain r w1 where t: "throttle_check env e ip w = (r, w1)" by (cases "throttle_check env e ip w")
  have keep: "signin_inv env N c H A w \<Longrightarrow> signin_inv env N c H A w1"
    by (rule holdsD [OF holds_throttle _ t])
  have audit: "\<exists>w2. audit_throttled env e w1 = (Inr (), w2)"
    by (auto simp: audit_throttled_def and_then_def outcome_def ok_def split: prod.splits)
  have "((\<exists>s. fst (login env ip e p w) = Inr (Throttled s) \<and> T - clock w \<le> s)
      \<or> fst (login env ip e p w) = Inr (Failed 500) \<and> statement_fails w \<noteq> [])
    \<and> (signin_inv env N c H A w \<longrightarrow> signin_inv env N c H A (snd (login env ip e p w)))"
  proof (cases r)
    case (Inr x)
    then show ?thesis using throttle_check_unlocked t mem lk by blast
  next
    case (Inl er)
    show ?thesis
    proof (cases er)
      case (ThDb de)
      have "statement_fails w \<noteq> []"
        using throttle_check_no_fault [of w env e ip] t Inl ThDb by (auto split: if_splits)
      then show ?thesis using t Inl ThDb keep by (simp add: login_def and_then_def outcome_def ok_def)
    next
      case (LockedOut s)
      obtain n where n: "worst_lock ?keys 0 w = (Inr n, w1)" "n = s"
        using t Inl LockedOut
        by (auto simp: throttle_check_def and_then_def map_err_def err_def ok_def split: if_splits prod.splits sum.splits)
      then have "u - clock w \<le> s" using worst_lock_Inr [OF n(1)] mem a by blast
      moreover obtain w2 where w2: "audit_throttled env e w1 = (Inr (), w2)" using audit by blast
      moreover have "signin_inv env N c H A w1 \<Longrightarrow> signin_inv env N c H A w2"
        by (rule holdsD [OF holds_other_rows(2) _ w2])
      ultimately show ?thesis using t Inl LockedOut keep a(3) by (simp add: login_def and_then_def outcome_def ok_def)
    qed
  qed
  then show "(\<exists>s. fst (login env ip e p w) = Inr (Throttled s) \<and> T - clock w \<le> s)
      \<or> fst (login env ip e p w) = Inr (Failed 500) \<and> statement_fails w \<noteq> []"
    "signin_inv env N c H A w \<Longrightarrow> signin_inv env N c H A (snd (login env ip e p w))" by blast+
qed

lemma served_clock: "clock (serve_signin env call w) = clock w"
proof -
  have "signin_inv env (next_uuid w) (clock w) {} (\<lambda>_. True) w" by (simp add: signin_inv_def)
  then have "signin_inv env (next_uuid w) (clock w) {} (\<lambda>_. True) (serve_signin env call w)"
    by (rule served_keeps) (simp_all add: outlasts_def ignores_def)
  then show ?thesis by (simp add: signin_inv_def)
qed

lemma served_lock:
  assumes "lock_held (attempt_key env e []) T (t_login_attempts (tables w))" "clock w < T" "call_ok call"
  shows "lock_held (attempt_key env e []) T (t_login_attempts (tables (serve_signin env call w)))"
proof -
  let ?key = "attempt_key env e []"
  have inv: "signin_inv env (next_uuid w) (clock w) {} (lock_held ?key T) w" using assms(1) by (simp add: signin_inv_def)
  have "signin_inv env (next_uuid w) (clock w) {} (lock_held ?key T) (serve_signin env call w)"
  proof (cases "\<exists>ip e' p. call = ScLogin ip e' p \<and> attempt_key env e' [] = ?key")
    case True
    then show ?thesis using locked_login(2) [OF _ assms(2)] assms(1) inv by fastforce
  next
    case False
    show ?thesis
    proof (rule served_keeps [OF inv])
      show "outlasts (lock_held ?key T) (clock w)" using assms(2) by (intro lock_held_outlasts) simp
      fix ip e' p k assume c: "call = ScLogin ip e' p" and k: "k \<in> set (throttle_keys env e' ip)"
      then have "k \<noteq> ?key"
        using False assms(3) attempt_key_of_account [of ip env e' e]
        by (auto simp: throttle_keys_def attempt_key_def split: if_splits)
      then show "ignores (lock_held ?key T) k" by (rule lock_held_ignores)
    qed
  qed
  then show ?thesis by (simp add: signin_inv_def)
qed

lemma lock_stays:
  assumes "signin_run env w w'" "lock_held (attempt_key env e []) T (t_login_attempts (tables w))" "clock w' < T"
  shows "lock_held (attempt_key env e []) T (t_login_attempts (tables w'))"
  using assms by (induction rule: signin_run.induct) (auto simp: served_clock served_lock)



end
