(* ===== verification/Wire_Proofs.thy ===== *)
theory Wire_Proofs
  imports Wire
begin

text \<open>
  The wire format round trips: what a writer frames, a reader reads back, as long as a payload fits
  the four-digit length; and the two readers of an upload-pack request agree on when it is complete.
\<close>

section \<open>Hexadecimal\<close>

lemma hex_value_digit: "n < 16 \<Longrightarrow> hex_value (hex_digit n) = Some n"
  by (auto simp: hex_value_def hex_digit_def is_ascii_digit_def)

lemma hex_digits_value_snoc:
  "hex_digits_value acc (ds @ [d]) =
     (case hex_digits_value acc ds of None \<Rightarrow> None
      | Some v \<Rightarrow> (case hex_value d of None \<Rightarrow> None | Some x \<Rightarrow> Some (16 * v + x)))"
  by (induction ds arbitrary: acc) (auto split: option.splits)

lemma hex_digits_value_to_hex: "hex_digits_value 0 (to_hex n) = Some n"
proof (induction n rule: to_hex.induct)
  case (1 n)
  show ?case
  proof (cases "n < 16")
    case True
    then show ?thesis by (simp add: to_hex.simps [of n] hex_value_digit)
  next
    case False
    then show ?thesis using 1 by (simp add: to_hex.simps [of n] hex_digits_value_snoc hex_value_digit)
  qed
qed

lemma hex_digits_value_zeros: "hex_digits_value 0 (replicate k (CHR ''0'') @ ds) = hex_digits_value 0 ds"
  by (induction k) (simp_all add: hex_value_def is_ascii_digit_def)

lemma length_to_hex: "length (to_hex n) \<le> Suc k \<longleftrightarrow> n < 16 ^ Suc k"
proof (induction k arbitrary: n)
  case 0
  show ?case by (subst to_hex.simps) (auto simp: to_hex.simps [of "n div 16"])
next
  case (Suc k)
  show ?case
  proof (cases "n < 16")
    case True
    moreover have "(16 :: nat) \<le> 16 ^ Suc (Suc k)" by simp
    ultimately show ?thesis by (simp add: to_hex.simps [of n] del: power_Suc)
  next
    case False
    then have "length (to_hex n) \<le> Suc (Suc k) \<longleftrightarrow> n div 16 < 16 ^ Suc k"
      by (simp add: to_hex.simps [of n] Suc.IH del: power_Suc)
    also have "\<dots> \<longleftrightarrow> n < 16 ^ Suc (Suc k)" by (simp add: less_mult_imp_div_less div_less_iff_less_mult mult.commute)
    finally show ?thesis .
  qed
qed

lemma hex4_length: "n < 65536 \<Longrightarrow> length (hex4 n) = 4"
  using length_to_hex [of n 3] by (simp add: hex4_def)

lemma to_hex_no_plus: "CHR ''+'' \<notin> set (to_hex n)"
proof (induction n rule: to_hex.induct)
  case (1 n)
  have d: "CHR ''+'' \<noteq> hex_digit m" if "m < 16" for m
  proof
    assume "CHR ''+'' = hex_digit m"
    then have "hex_value (CHR ''+'') = Some m" using hex_value_digit [OF that] by simp
    then show False by (simp add: hex_value_def is_ascii_digit_def)
  qed
  show ?case using 1 d [of n] d [of "n mod 16"] by (subst to_hex.simps) (simp add: not_less)
qed

lemma from_hex_radix_hex4: "from_hex_radix (hex4 n) = Some n"
proof -
  have plus: "CHR ''+'' \<notin> set (hex4 n)" using to_hex_no_plus [of n] by (auto simp: hex4_def)
  have "to_hex n \<noteq> []" by (subst to_hex.simps) simp
  then have ne: "hex4 n \<noteq> []" by (simp add: hex4_def)
  have v: "hex_digits_value 0 (hex4 n) = Some n"
    unfolding hex4_def by (simp only: hex_digits_value_zeros hex_digits_value_to_hex)
  show ?thesis using plus ne v by (cases "hex4 n") (auto simp: from_hex_radix_def Let_def)
qed

section \<open>Pkt-lines\<close>

definition fits :: "string \<Rightarrow> bool" where
  "fits payload \<longleftrightarrow> length payload < 65532"

lemma slice_at: "length a = n \<Longrightarrow> length b = k \<Longrightarrow> slice (a @ b @ c) n (n + k) = b"
  by (simp add: slice_def)

lemma read_written:
  assumes "fits payload"
  shows "read_pkt_line (pre @ pkt_line payload @ post) (length pre)
    = Some (PktData payload, length pre + length payload + 4)"
proof -
  let ?n = "length payload + 4"
  have l: "length (hex4 ?n) = 4" using assms by (intro hex4_length) (simp add: fits_def)
  have "slice (pre @ pkt_line payload @ post) (length pre) (length pre + 4) = hex4 ?n"
    using slice_at [of pre "length pre" "hex4 ?n" 4 "payload @ post"] l by (simp add: pkt_line_def)
  moreover have "slice (pre @ pkt_line payload @ post) (length pre + 4) (length pre + ?n) = payload"
    using slice_at [of "pre @ hex4 ?n" "length pre + 4" payload "length payload" post] l
    by (simp add: pkt_line_def ac_simps)
  ultimately show ?thesis
    using l by (simp add: read_pkt_line_def from_hex_radix_hex4 pkt_line_def ac_simps)
qed

lemma read_flush: "read_pkt_line (pre @ flush_pkt @ post) (length pre) = Some (PktFlush, length pre + 4)"
proof -
  have "slice (pre @ flush_pkt @ post) (length pre) (length pre + 4) = flush_pkt"
    using slice_at [of pre "length pre" flush_pkt 4 post] by (simp add: flush_pkt_def)
  moreover have "from_hex_radix flush_pkt = Some 0" by code_simp
  ultimately show ?thesis by (simp add: read_pkt_line_def flush_pkt_def)
qed

lemma read_section_written:
  assumes "list_all fits ls"
  shows "read_section (pre @ concat (map pkt_line ls) @ flush_pkt @ post) (length pre)
    = (ls, True, length pre + length (concat (map pkt_line ls)) + 4)"
  using assms
proof (induction ls arbitrary: pre)
  case Nil
  show ?case using read_flush [of pre post] by (subst read_section.simps) simp
next
  case (Cons l ls)
  have l: "length (pkt_line l) = length l + 4"
    using Cons.prems hex4_length [of "length l + 4"] by (simp add: pkt_line_def fits_def)
  have read: "read_pkt_line (pre @ pkt_line l @ concat (map pkt_line ls) @ flush_pkt @ post) (length pre)
      = Some (PktData l, length pre + length l + 4)"
    using Cons.prems by (intro read_written) simp
  have "read_section ((pre @ pkt_line l) @ concat (map pkt_line ls) @ flush_pkt @ post) (length (pre @ pkt_line l))
    = (ls, True, length (pre @ pkt_line l) + length (concat (map pkt_line ls)) + 4)"
    by (rule Cons.IH) (use Cons.prems in simp)
  then show ?case using read l by (subst read_section.simps) (simp add: add.assoc)
qed

text \<open>Pkt-lines round trip. A section written as pkt-lines and closed by a flush reads back as the
  same payloads, wherever it stands in the stream and whatever follows, as long as every payload has
  at most 65531 bytes; and reading stops exactly behind the flush.\<close>

theorem pkt_section_roundtrip:
  assumes "list_all fits ls"
  shows "read_section (pre @ write_flush (fold (\<lambda>l out. write_pkt_line out l) ls []) @ post) (length pre)
    = (ls, True, length pre + length (write_flush (fold (\<lambda>l out. write_pkt_line out l) ls [])))"
proof -
  have "fold (\<lambda>l out. write_pkt_line out l) ls out = out @ concat (map pkt_line ls)" for out
    by (induction ls arbitrary: out) (simp_all add: write_pkt_line_def pkt_line_def)
  then have w: "write_flush (fold (\<lambda>l out. write_pkt_line out l) ls []) = concat (map pkt_line ls) @ flush_pkt"
    by (simp add: write_flush_def)
  show ?thesis
    using read_section_written [OF assms, of pre post] unfolding w by (simp add: flush_pkt_def)
qed

theorem pkt_section_roundtrip_witness:
  "read_section (write_flush (fold (\<lambda>l out. write_pkt_line out l) [''want a'', ''''] []) @ ''PACK'') 0
     = ([''want a'', ''''], True, 18)"
  using pkt_section_roundtrip [of "[''want a'', '''']" "[]" "''PACK''"]
  by (simp add: fits_def) code_simp

section \<open>Side-band\<close>

lemma concat_chunks: "0 < n \<Longrightarrow> concat (chunks n s) = s"
  by (induction n s rule: chunks.induct) (subst chunks.simps, simp)

lemma chunks_bounded: "list_all (\<lambda>c. c \<noteq> [] \<and> length c \<le> n) (chunks n s)"
  by (induction n s rule: chunks.induct) (subst chunks.simps, auto)

lemma write_pack_data_lines:
  "write_pack_data out pack = out @ concat (map (\<lambda>c. pkt_line (band_pack # c)) (chunks max_data_per_packet pack))"
proof -
  have "fold (\<lambda>chunk out. write_band out band_pack chunk) cs out
      = out @ concat (map (\<lambda>c. pkt_line (band_pack # c)) cs)" for cs out
    by (induction cs arbitrary: out) (simp_all add: write_band_def write_pkt_line_def pkt_line_def)
  then show ?thesis by (simp add: write_pack_data_def)
qed

lemma length_show_nat: "n < 10 ^ Suc k \<Longrightarrow> length (show_nat n) \<le> Suc k"
proof (induction k arbitrary: n)
  case 0
  then show ?case by (simp add: show_nat.simps)
next
  case (Suc k)
  have "n div 10 < 10 ^ Suc k"
    using Suc.prems by (simp add: less_mult_imp_div_less mult.commute)
  then have "length (show_nat (n div 10)) \<le> Suc k" by (rule Suc.IH)
  then show ?case by (subst show_nat.simps) simp
qed

lemma pack_object_count_bound: "pack_object_count p < 2 ^ 32"
proof -
  have c: "code x \<le> 255" for x :: char using nat_of_char_less_256 [of x] by linarith
  show ?thesis
    using c [of "p ! 8"] c [of "p ! 9"] c [of "p ! 10"] c [of "p ! 11"]
    by (simp add: pack_object_count_def)
qed

definition total_line :: "string \<Rightarrow> string" where
  "total_line pack =
     band_progress # ''Total '' @ show_nat (pack_object_count pack) @ '' objects, done.'' @ [CHR 0x0A]"

lemma total_line_fits: "fits (total_line pack)" "length (total_line pack) \<le> 65516"
proof -
  have "pack_object_count pack < 10 ^ Suc 9" using pack_object_count_bound [of pack] by simp
  then have "length (show_nat (pack_object_count pack)) \<le> Suc 9" by (rule length_show_nat)
  then show "fits (total_line pack)" "length (total_line pack) \<le> 65516"
    by (simp_all add: fits_def total_line_def)
qed

text \<open>What the client sees of a response: the section before the pack, then the multiplexed section.\<close>

definition response_head :: "'oid upload_pack_request \<Rightarrow> built_pack \<Rightarrow> string" where
  "response_head request b = (if deepen request \<noteq> DeepenNone then shallow_section b else [])"

definition band_lines :: "'oid upload_pack_request \<Rightarrow> built_pack \<Rightarrow> string list" where
  "band_lines request b =
     (if wants_progress request then [total_line (built_data b)] else [])
     @ map ((#) band_pack) (chunks max_data_per_packet (built_data b))"

lemma upload_pack_response_lines:
  assumes "wants_side_band_64k request" "deepen request = DeepenNone \<or> req_done request"
  shows "upload_pack_response request b =
    response_head request b @ concat (map pkt_line ((''NAK'' @ [CHR 0x0A]) # band_lines request b)) @ flush_pkt"
  using assms
  by (auto simp: upload_pack_response_def Let_def response_head_def band_lines_def write_flush_def
      write_pack_data_lines write_progress_def write_band_def write_pkt_line_def pkt_line_def total_line_def comp_def)

lemma band_lines_fit: "list_all (\<lambda>l. l \<noteq> [] \<and> length l \<le> 65516) (band_lines request b)"
  using chunks_bounded [of max_data_per_packet "built_data b"] total_line_fits(2) [of "built_data b"]
  by (auto simp: band_lines_def list_all_iff max_data_per_packet_def total_line_def)

lemma band_lines_pack:
  "concat (map tl (filter (\<lambda>l. hd l = band_pack) (band_lines request b))) = built_data b"
proof -
  have "band_progress \<noteq> band_pack" by code_simp
  moreover have "filter (\<lambda>l. hd l = band_pack) (map ((#) band_pack) cs) = map ((#) band_pack) cs" for cs
    by (induction cs) simp_all
  ultimately show ?thesis
    using concat_chunks [of max_data_per_packet "built_data b"]
    by (simp add: band_lines_def total_line_def comp_def max_data_per_packet_def)
qed

lemma side_band_reads_back:
  assumes "wants_side_band_64k request" "deepen request = DeepenNone \<or> req_done request"
  shows "\<exists>ls. read_section (upload_pack_response request b) (length (response_head request b))
      = ((''NAK'' @ [CHR 0x0A]) # ls, True, length (upload_pack_response request b))
    \<and> list_all (\<lambda>l. l \<noteq> [] \<and> length l \<le> 65516) ls
    \<and> concat (map tl (filter (\<lambda>l. hd l = band_pack) ls)) = built_data b"
proof (intro exI conjI)
  have "list_all fits ((''NAK'' @ [CHR 0x0A]) # band_lines request b)"
    using band_lines_fit [of request b] by (auto simp: list_all_iff fits_def)
  from read_section_written [OF this, of "response_head request b" "[]"]
  show "read_section (upload_pack_response request b) (length (response_head request b))
      = ((''NAK'' @ [CHR 0x0A]) # band_lines request b, True, length (upload_pack_response request b))"
    unfolding upload_pack_response_lines [OF assms] by (simp add: flush_pkt_def)
qed (rule band_lines_fit band_lines_pack)+

lemma unframed_reads_back:
  assumes "\<not> wants_side_band_64k request" "deepen request = DeepenNone \<or> req_done request"
  shows "read_pkt_line (upload_pack_response request b) (length (response_head request b))
      = Some (PktData (''NAK'' @ [CHR 0x0A]), length (response_head request b) + 8)
    \<and> drop (length (response_head request b) + 8) (upload_pack_response request b) = built_data b"
proof -
  let ?nak = "''NAK'' @ [CHR 0x0A]"
  have r: "upload_pack_response request b = response_head request b @ pkt_line ?nak @ built_data b"
    using assms by (auto simp: upload_pack_response_def Let_def response_head_def write_pkt_line_def pkt_line_def)
  have n: "length (pkt_line ?nak) = 8" by (simp add: pkt_line_def hex4_length)
  have "fits ?nak" by (simp add: fits_def)
  from read_written [OF this, of "response_head request b" "built_data b"] show ?thesis
    unfolding r by (simp add: n [simplified])
qed

definition shallow_lines :: "built_pack \<Rightarrow> string list" where
  "shallow_lines b =
     map (\<lambda>i. ''shallow '' @ i @ [CHR 0x0A]) (new_shallow b) @ map (\<lambda>i. ''unshallow '' @ i @ [CHR 0x0A]) (unshallow b)"

lemma shallow_section_lines: "shallow_section b = concat (map pkt_line (shallow_lines b)) @ flush_pkt"
proof -
  have "fold (\<lambda>i out. write_pkt_line out (f i)) is out = out @ concat (map (\<lambda>i. pkt_line (f i)) is)" for f and "is" :: "string list" and out
    by (induction "is" arbitrary: out) (simp_all add: write_pkt_line_def pkt_line_def)
  then show ?thesis by (simp add: shallow_section_def shallow_lines_def write_flush_def comp_def)
qed

lemma shallow_section_reads_back:
  assumes "deepen request \<noteq> DeepenNone" "list_all (\<lambda>i. length i \<le> 65000) (new_shallow b @ unshallow b)"
  shows "read_section (upload_pack_response request b) 0 = (shallow_lines b, True, length (response_head request b))"
proof -
  obtain rest where r: "upload_pack_response request b = shallow_section b @ rest"
    using assms(1) by (fastforce simp: upload_pack_response_def Let_def write_flush_def write_pack_data_lines write_progress_def
        write_band_def write_pkt_line_def)
  have short: "fits (''shallow '' @ i @ [CHR 0x0A]) \<and> fits (''unshallow '' @ i @ [CHR 0x0A])" if "length i \<le> 65000" for i
    using that by (simp add: fits_def)
  have "list_all fits (shallow_lines b)" using assms(2) short by (auto simp: shallow_lines_def list_all_iff)
  from read_section_written [OF this, of "[]" rest] show ?thesis
    using assms(1) unfolding r shallow_section_lines response_head_def by (simp add: flush_pkt_def)
qed

text \<open>C31. A fetch loses nothing on the wire. For every request and every pack built for it: if the request
  deepens the history, the response starts with a section that reads back, to its flush, as the
  shallow and unshallow lines of the ids that were computed (ids of at most 65000 bytes), and if the
  client is not done yet, that is all of it. Otherwise a pack follows. Under side-band-64k, the one
  framing the server offers, the rest reads back, to the flush that ends the response, as the NAK
  line and then packets of at most 65516 bytes, and the contents of the packets on channel 1, in
  order, are the pack that was built: no byte is lost, doubled, or mixed up with the progress channel. A
  client that asks for no side band reads the NAK line, and what follows is the pack, byte for byte.\<close>

theorem upload_pack_response_carries_pack:
  "(deepen request \<noteq> DeepenNone \<and> list_all (\<lambda>i. length i \<le> 65000) (new_shallow b @ unshallow b) \<longrightarrow>
      read_section (upload_pack_response request b) 0 = (shallow_lines b, True, length (response_head request b)))
   \<and> (if deepen request \<noteq> DeepenNone \<and> \<not> req_done request
      then upload_pack_response request b = response_head request b
      else if wants_side_band_64k request
      then \<exists>ls. read_section (upload_pack_response request b) (length (response_head request b))
            = ((''NAK'' @ [CHR 0x0A]) # ls, True, length (upload_pack_response request b))
          \<and> list_all (\<lambda>l. l \<noteq> [] \<and> length l \<le> 65516) ls
          \<and> concat (map tl (filter (\<lambda>l. hd l = band_pack) ls)) = built_data b
      else read_pkt_line (upload_pack_response request b) (length (response_head request b))
            = Some (PktData (''NAK'' @ [CHR 0x0A]), length (response_head request b) + 8)
          \<and> drop (length (response_head request b) + 8) (upload_pack_response request b) = built_data b)"
proof -
  have "upload_pack_response request b = response_head request b" if "deepen request \<noteq> DeepenNone \<and> \<not> req_done request"
    using that by (simp add: upload_pack_response_def Let_def response_head_def)
  then show ?thesis
    using shallow_section_reads_back [of request b] side_band_reads_back [of request b] unframed_reads_back [of request b]
    by (simp only: if_split) blast
qed

definition side_band_request :: "string upload_pack_request" where
  "side_band_request = \<lparr>wants = [''a''], haves = [], capabilities = [''side-band-64k''], shallow = [],
     deepen = DeepenDepth 1, req_done = True\<rparr>"

theorem upload_pack_response_carries_pack_witness:
  "read_section (upload_pack_response side_band_request \<lparr>built_data = ''PACK'', new_shallow = [''a''], unshallow = []\<rparr>) 0
     = ([''shallow a'' @ [CHR 0x0A]], True,
         length (response_head side_band_request \<lparr>built_data = ''PACK'', new_shallow = [''a''], unshallow = []\<rparr>))
   \<and> (\<exists>ls. read_section (upload_pack_response side_band_request \<lparr>built_data = ''PACK'', new_shallow = [''a''], unshallow = []\<rparr>)
        (length (response_head side_band_request \<lparr>built_data = ''PACK'', new_shallow = [''a''], unshallow = []\<rparr>))
      = ((''NAK'' @ [CHR 0x0A]) # ls, True,
         length (upload_pack_response side_band_request \<lparr>built_data = ''PACK'', new_shallow = [''a''], unshallow = []\<rparr>))
    \<and> list_all (\<lambda>l. l \<noteq> [] \<and> length l \<le> 65516) ls
    \<and> concat (map tl (filter (\<lambda>l. hd l = band_pack) ls)) = ''PACK'')"
  using upload_pack_response_carries_pack
    [of side_band_request "\<lparr>built_data = ''PACK'', new_shallow = [''a''], unshallow = []\<rparr>"]
  by (simp add: side_band_request_def wants_side_band_64k_def shallow_lines_def)

section \<open>Requests that arrive in pieces\<close>

lemma read_pkt_line_append:
  "read_pkt_line body pos = Some r \<Longrightarrow> read_pkt_line (body @ later) pos = Some r"
  by (auto simp: read_pkt_line_def slice_def split: if_splits option.splits)

lemma read_section_step:
  "read_pkt_line body pos = None \<Longrightarrow> read_section body pos = ([], False, pos)"
  "read_pkt_line body pos = Some (PktFlush, pos') \<Longrightarrow> read_section body pos = ([], True, pos')"
  "read_pkt_line body pos = Some (PktData d, pos') \<Longrightarrow>
     read_section body pos = (case read_section body pos' of (ds, fl, p) \<Rightarrow> (d # ds, fl, p))"
  by (subst read_section.simps, simp)+

lemma read_haves_step:
  "read_pkt_line body pos = None \<Longrightarrow> read_haves from_hex body pos = ([], False)"
  "read_pkt_line body pos = Some (PktFlush, pos') \<Longrightarrow> read_haves from_hex body pos = read_haves from_hex body pos'"
  "read_pkt_line body pos = Some (PktData d, pos') \<Longrightarrow> is_done d \<Longrightarrow> read_haves from_hex body pos = ([], True)"
  "read_pkt_line body pos = Some (PktData d, pos') \<Longrightarrow> \<not> is_done d \<Longrightarrow>
     read_haves from_hex body pos = (case read_haves from_hex body pos' of (hs, fin) \<Rightarrow>
        (case parse_oid_line from_hex d ''have '' of None \<Rightarrow> hs | Some i \<Rightarrow> i # hs, fin))"
  by (subst read_haves.simps, simp)+

lemma reaches_done_step:
  "read_pkt_line body pos = None \<Longrightarrow> \<not> reaches_done body pos"
  "read_pkt_line body pos = Some (PktFlush, pos') \<Longrightarrow> reaches_done body pos = reaches_done body pos'"
  "read_pkt_line body pos = Some (PktData d, pos') \<Longrightarrow> reaches_done body pos = (is_done d \<or> reaches_done body pos')"
  by (subst reaches_done.simps, simp)+

text \<open>Induction along the lines of a buffer.\<close>

lemma pkt_lines_induct [case_names end_of_input flush data]:
  assumes "\<And>pos. read_pkt_line body pos = None \<Longrightarrow> P pos"
    and "\<And>pos pos'. read_pkt_line body pos = Some (PktFlush, pos') \<Longrightarrow> P pos' \<Longrightarrow> P pos"
    and "\<And>pos d pos'. read_pkt_line body pos = Some (PktData d, pos') \<Longrightarrow> P pos' \<Longrightarrow> P pos"
  shows "P pos"
proof (induction "length body - pos" arbitrary: pos rule: less_induct)
  case less
  show ?case
  proof (cases "read_pkt_line body pos")
    case None
    then show ?thesis by (rule assms(1))
  next
    case (Some r)
    obtain pk pos' where r: "r = (pk, pos')" by fastforce
    then have "pos < pos' \<and> pos' \<le> length body" using Some read_pkt_line_advances [of body pos pk pos'] by simp
    then have "P pos'" by (intro less) (auto intro: diff_less_mono2)
    then show ?thesis using assms(2,3) Some r by (cases pk) auto
  qed
qed

lemma read_section_append:
  "read_section body pos = (ls, True, p) \<Longrightarrow> read_section (body @ later) pos = (ls, True, p)"
proof (induction pos arbitrary: ls rule: pkt_lines_induct [where body = body])
  case (data pos d pos')
  then show ?case
    by (auto simp: read_section_step(3) read_section_step(3) [OF read_pkt_line_append] split: prod.splits)
qed (auto simp: read_section_step(1,2) read_section_step(2) [OF read_pkt_line_append])

lemma read_haves_append:
  "read_haves from_hex body pos = (hs, True) \<Longrightarrow> read_haves from_hex (body @ later) pos = (hs, True)"
proof (induction pos arbitrary: hs rule: pkt_lines_induct [where body = body])
  case (data pos d pos')
  then show ?case
    by (cases "is_done d")
      (auto simp: read_haves_step(3,4) read_haves_step(3,4) [OF read_pkt_line_append] split: prod.splits)
qed (auto simp: read_haves_step(1,2) read_haves_step(2) [OF read_pkt_line_append])

lemma reaches_done_iff: "reaches_done body pos \<longleftrightarrow> snd (read_haves from_hex body pos)"
proof (induction pos rule: pkt_lines_induct [where body = body])
  case (data pos d pos')
  then show ?case
    by (cases "is_done d") (auto simp: read_haves_step(3,4) reaches_done_step(3) split: prod.splits)
qed (auto simp: read_haves_step(1,2) reaches_done_step(1,2))

lemma unread_section: "read_section body pos = (ls, False, p) \<Longrightarrow> read_pkt_line body p = None"
proof (induction pos arbitrary: ls rule: pkt_lines_induct [where body = body])
  case (data pos d pos')
  then show ?case by (auto simp: read_section_step(3) split: prod.splits)
qed (auto simp: read_section_step(1,2))

text \<open>A request that arrives in pieces. The SSH transport hands a buffer over as soon as it holds a
  complete request: that is exactly when the parser would see its \<^verbatim>\<open>done\<close> line, and whatever bytes
  are still to come, parsing the longer buffer gives the same request. So what is answered does not
  depend on how the stream was cut.\<close>

theorem complete_request_is_stable:
  "(upload_pack_request_is_complete body \<longleftrightarrow> req_done (parse_upload_pack_request from_hex body))
   \<and> (upload_pack_request_is_complete body \<longrightarrow>
        upload_pack_request_is_complete (body @ later)
        \<and> parse_upload_pack_request from_hex (body @ later) = parse_upload_pack_request from_hex body)"
proof -
  obtain ls fl p where sec: "read_section body 0 = (ls, fl, p)" by (metis prod_cases3)
  obtain hs fin where hv: "read_haves from_hex body p = (hs, fin)" by fastforce
  have done_iff: "req_done (parse_upload_pack_request from_hex body) = fin"
    using sec hv by (simp add: parse_upload_pack_request_def)
  have unfinished: "\<not> fin" if "\<not> fl"
  proof -
    have "read_pkt_line body p = None" using unread_section [of body 0 ls p] sec that by simp
    then show ?thesis using hv by (subst (asm) read_haves.simps) auto
  qed
  have complete_iff: "upload_pack_request_is_complete body = (fl \<and> fin)"
    using sec hv reaches_done_iff [of body p from_hex] by (simp add: upload_pack_request_is_complete_def)
  have "upload_pack_request_is_complete (body @ later)
      \<and> parse_upload_pack_request from_hex (body @ later) = parse_upload_pack_request from_hex body"
    if "fl" "fin"
  proof -
    have sec': "read_section (body @ later) 0 = (ls, True, p)" using sec that by (intro read_section_append) simp
    have hv': "read_haves from_hex (body @ later) p = (hs, True)" using hv that by (intro read_haves_append) simp
    show ?thesis
      using sec sec' hv hv' that reaches_done_iff [of "body @ later" p from_hex]
      by (simp add: upload_pack_request_is_complete_def parse_upload_pack_request_def)
  qed
  then show ?thesis using done_iff complete_iff unfinished by blast
qed

theorem complete_request_is_stable_witness:
  "parse_upload_pack_request (\<lambda>h. Some h) (''000bwant a'' @ [CHR 0x0A] @ ''00000009done'' @ [CHR 0x0A] @ ''0003'')
   = parse_upload_pack_request (\<lambda>h. Some h) (''000bwant a'' @ [CHR 0x0A] @ ''00000009done'' @ [CHR 0x0A])"
proof -
  let ?body = "''000bwant a'' @ [CHR 0x0A] @ ''00000009done'' @ [CHR 0x0A]"
  have "upload_pack_request_is_complete ?body" by code_simp
  then show ?thesis using complete_request_is_stable [of ?body "\<lambda>h. Some h" "''0003''"] by simp
qed

end
