(* ===== verification/Spec2Isabelle.thy ===== *)
theory Spec2Isabelle
  imports Access_Control Access_Services Access_Store Auth_Store Authorization Branch_Protection
    Code_Owners Credential_Guarantees Credential_Proofs Cross_Refs Database Events Fork_Import
    Frames Git_Access Git_Access_Proofs Git_Merge Git_Objects History Instance_Policy Issue_Store
    Issues Job_Handlers Job_Proofs Job_Queue Lfs Lfs_Proofs Login Login_Proofs Merge_Guarantees
    Merge_Proofs Namespace Namespace_Proofs OAuth OAuth_Proofs Outbox Outbox_Proofs PR_Guarantees
    PR_Proofs PR_Service Pack_Format Pack_Format_Proofs Packs Prelude Pull_Requests Receive
    Receive_Proofs Repositories Repository_Proofs Repository_Service Request_Guards Second_Factor
    Secret_Box Sequencing Sign_In Sign_In_Runs Ssh_Keys Text_Refs Tracker_Proofs Tracker_Service
    Tracker_Store Webhooks Wire Wire_Proofs
begin

text \<open>
  A model of edda, a self-hosted git forge: git over HTTP and SSH, pull requests, issues, releases, accounts
  with second factors and external sign-in, and background jobs that fan events out. The sources are the
  crates under \<^verbatim>\<open>src/crates\<close>; paths below leave that prefix out.

  \<^bold>\<open>The parts and how they meet.\<close> A request reaches a handler (\<open>Login\<close>, \<open>Git_Access\<close>, \<open>Lfs\<close>, \<open>OAuth\<close>) or
  a service (\<open>PR_Service\<close>, \<open>Tracker_Service\<close>, \<open>Access_Services\<close>, \<open>Repository_Service\<close>). These ask the
  authorization service (\<open>Authorization\<close>), which fetches what the pure decision functions
  (\<open>Access_Control\<close>, \<open>Branch_Protection\<close>) decide on. Services write rows and, in the same transaction, an
  event to the outbox; the dispatcher (\<open>Outbox\<close>) turns events into jobs, the poller (\<open>Job_Queue\<close>) runs
  these. Pushes and merges go to the git layer (\<open>Receive\<close>, \<open>Git_Merge\<close>), fetches are answered from it
  (\<open>Packs\<close>, \<open>Pack_Format\<close>, \<open>Wire\<close>).

  \<^bold>\<open>State and effects.\<close>
  \<^item> The database is the record \<open>db\<close> of its tables, each a list of rows in insertion order
    (\<open>Database\<close>). The \<open>world\<close> adds the clock, the source of fresh identifiers, the calls made of the git
    layer, and a script \<open>statement_fails\<close> that says of each coming statement whether it fails for a reason
    of the database's own. An action (\<open>act\<close>) takes the world to an error or a value and the next world;
    \<open>and_then\<close> is \<^verbatim>\<open>?\<close>, \<open>outcome\<close> is a result that is looked at, \<open>transaction\<close> restores the tables
    unless its body returns and the commit succeeds. Constraints that a statement checks (uniqueness,
    foreign keys) are errors of that statement.
  \<^item> A repository's directory is a \<open>git_dir\<close>: objects, refs, HEAD, packs and the quarantine directories,
    where the fields of \<open>receive_env\<close> say which file operations fail (\<open>Receive\<close>). A \<open>host\<close> is the world with all directories
    (\<open>Git_Access\<close>), a \<open>lfs_host\<close> the world with the stored large files (\<open>Lfs\<close>). Where only the fact of a
    call matters (\<open>PR_Service\<close>, \<open>Repository_Service\<close>), the world's \<open>git_calls\<close> list it, and the answer is
    the parameter's (\<open>git_backend\<close>, \<open>tag_backend\<close>, \<open>repo_store\<close>).
  \<^item> An SSH connection is a \<open>connection\<close> that \<open>ssh_step\<close> takes from message to message.
  \<^item> Text is its UTF-8 bytes; machine integers are words where their width matters (sizes in \<open>Pack_Format\<close>,
    attempts in \<open>Job_Queue\<close>, addresses in \<open>Webhooks\<close>) and integers elsewhere; identifiers are natural numbers, drawn fresh.

  \<^bold>\<open>Theories, by source.\<close>
  \<^item> \<open>edda-domain\<close>: \<open>Repositories\<close> (names, identities, storage paths), \<open>Access_Control\<close>,
    \<open>Branch_Protection\<close>, \<open>Pull_Requests\<close>, \<open>Issues\<close>, \<open>Text_Refs\<close>, \<open>Cross_Refs\<close>, \<open>Code_Owners\<close>,
    \<open>Instance_Policy\<close>, \<open>Webhooks\<close>, \<open>Events\<close>.
  \<^item> \<open>edda-db\<close>: \<open>Database\<close>, \<open>Access_Store\<close>, \<open>Tracker_Store\<close>, \<open>Issue_Store\<close>, \<open>Auth_Store\<close>, the first half of
    \<open>Job_Queue\<close>, and the statements at the head of \<open>Ssh_Keys\<close>, \<open>Lfs\<close> and \<open>OAuth\<close>.
  \<^item> \<open>edda-auth\<close>: \<open>Authorization\<close> (\<^verbatim>\<open>authz.rs\<close>), \<open>Sign_In\<close> (passwords, throttle, links, tokens, signup),
    \<open>Second_Factor\<close> (\<^verbatim>\<open>totp.rs\<close>, \<^verbatim>\<open>webauthn.rs\<close>), \<open>Secret_Box\<close>, \<open>Ssh_Keys\<close>, \<open>OAuth\<close>, \<open>Namespace\<close>
    (\<^verbatim>\<open>organization.rs\<close>).
  \<^item> \<open>edda-app\<close>: the services and handlers named above; \<open>Login\<close> is \<^verbatim>\<open>auth_routes.rs\<close> and
    \<^verbatim>\<open>webauthn_routes.rs\<close>; \<open>Git_Access\<close> is \<^verbatim>\<open>git_http\<close> with \<^verbatim>\<open>edda-ssh/src/handler.rs\<close>;
    \<open>Request_Guards\<close> is \<^verbatim>\<open>security/origin.rs\<close> and the keys of \<^verbatim>\<open>rate_limit.rs\<close>; \<open>Job_Handlers\<close> is the webhook
    service with \<^verbatim>\<open>edda/src/jobs.rs\<close>.
  \<^item> \<open>edda-jobs\<close>: \<open>Outbox\<close> (\<^verbatim>\<open>dispatcher.rs\<close>) and the second half of \<open>Job_Queue\<close> (poller, scheduler).
  \<^item> \<open>edda-git\<close>: \<open>Git_Objects\<close> and \<open>History\<close> (what is reachable, what a push adds), \<open>Packs\<close> (which
    objects a fetch sends), \<open>Pack_Format\<close> (their bytes, deltas), \<open>Wire\<close> (pkt-lines, side bands, requests),
    \<open>Receive\<close> (quarantine, checks, ref transaction), \<open>Git_Merge\<close> (four strategies, fork import).

  \<^bold>\<open>What is proved.\<close>
  \<^item> \<open>Prelude\<close> holds the text functions and the locale \<open>db_codec\<close> of enums stored as text, interpreted for
    every such enum. \<open>Database\<close> has the rules for actions and the locale \<open>db_invariant\<close> of predicates
    that statements keep; \<open>Frames\<close> the locale \<open>world_component\<close> of what an action leaves alone;
    \<open>Tracker_Proofs\<close> the locale \<open>table_relation\<close> of what an operation may change; \<open>Sequencing\<close> triples with
    a postcondition for either outcome.
  \<^item> Who may do what: \<open>Access_Control\<close>, \<open>Authorization\<close>, \<open>Access_Services\<close> (one owner always),
    \<open>Git_Access_Proofs\<close> (every change of a repository goes back to an authenticated writer, protected
    branches hold), \<open>Tracker_Proofs\<close>, \<open>Lfs_Proofs\<close> (transfer tokens).
  \<^item> Signing in: \<open>Login_Proofs\<close>, \<open>Credential_Proofs\<close>, \<open>Credential_Guarantees\<close>, \<open>OAuth_Proofs\<close>: what
    a session rests on, that codes and assertions are spent once, that no email links an identity.
    \<open>Sign_In_Runs\<close>: through any run of the layer's calls, a spent link stays dead and a locked account
    locked. \<open>Namespace_Proofs\<close>: no account and organization share a name.
  \<^item> Git: \<open>Receive_Proofs\<close> (a push lands as a whole or leaves no trace, refs stay complete),
    \<open>Merge_Proofs\<close> and \<open>Merge_Guarantees\<close>, \<open>Fork_Import\<close>, \<open>Packs\<close> against the set of missing objects,
    \<open>Pack_Format_Proofs\<close> and \<open>Wire_Proofs\<close> (round trips).
  \<^item> Records: \<open>PR_Proofs\<close> and \<open>PR_Guarantees\<close> (life cycle, gates and records of a merge, atomicity),
    \<open>Outbox_Proofs\<close> (exactly once, draining), \<open>Job_Proofs\<close> (claims are separate, retries end),
    \<open>Repository_Proofs\<close> (rows keep directories, quotas, complete deletion), \<open>Lfs_Proofs\<close> (content
    addressing).
  \<^item> Theorems about concrete runs on small instances show where the code gives less than its comments
    promise: fan-out of failing checks to none, overlapping merges, stranded jobs and directories, sign-in
    around an approval, and others; each says so in the text before it.

  \<^bold>\<open>Bounds.\<close> Loops over data are recursion with a measure, so every definition is total. The bounds that
  remain are the code's: \<open>max_walk\<close> (4000 commits in a history check), \<open>max_fsck_objects\<close>,
  \<open>max_imported_objects\<close>, \<open>number_attempts\<close> (tries to draw a number). Peeling a tag is cut off at the number
  of objects, which is enough as a tag cannot refer to itself. The poller and the dispatcher run forever;
  a turn of theirs is a definition, and sequences of turns are lists.

  \<^bold>\<open>Parameters.\<close> Libraries are arguments, used through named laws: \<open>auth_env\<close> (hashes, random draws, JWT,
  one-time passwords), \<open>webauthn_lib\<close>, \<open>aead\<close> with \<open>aead_law\<close>, \<open>key_lib\<close>, \<open>oidc_client\<close>, \<open>codec\<close> (zlib and
  SHA-1) with \<open>zlib_law\<close>, \<open>receive_env\<close> with \<open>transaction_law\<close> and \<open>hex_law\<close>, \<open>merge_env\<close> with
  \<open>base_law\<close>, \<open>resolve_law\<close> and \<open>merge_law\<close>, \<open>jwt_faithful\<close>, \<open>json_faithful\<close>. Every property under such a law has a
  witness with a concrete function that meets it.

  \<^bold>\<open>Not modelled.\<close> The web interface (\<open>edda-web\<close>), the command-line client, configuration and start-up,
  telemetry, the counting of rate limits; the REST handlers, which decode a request and call a service;
  the sockets under mail and webhooks; diffs, blame, archives, search and rendering, which are views computed by
  libraries. Requests run one after the other, except where interleaving is the subject (job claims,
  dispatchers, merges around the repository lock).
\<close>

end
